(* ===== verification/Prelude.thy ===== *)
theory Prelude
  imports Complex_Main "HOL-Library.AList" "HOL-Library.List_Lexorder" "HOL-Library.Char_ord"
begin

section \<open>Prelude: JavaScript values, strings and collections\<close>

text \<open>
  What the components share: the named collections their proofs use, the few operations of the
  JavaScript standard library the sources call (string trimming and case mapping, \<open>Math.round\<close>,
  insertion-ordered maps and sets), and generic lemmas about them.

  Conventions of the whole development:
  \<^item> a JavaScript string is a \<open>string\<close> (a list of code units below 256); lexicographic order is
    code unit order, as \<open>Array.prototype.sort\<close> and \<open><\<close> use it;
  \<^item> a number that the database column or the code keeps whole (minutes, counts, versions,
    milliseconds) is an \<open>int\<close> or a \<open>nat\<close>; one that may be fractional (rates, multipliers,
    percentages) is an exact \<open>rat\<close>: binary floating-point rounding is not modelled;
  \<^item> a \<open>Date\<close> is its time value, an \<open>int\<close> number of milliseconds since 1970-01-01 UTC;
  \<^item> a \<open>Map\<close> or an object with string keys is an association list in insertion order, written
    with \<open>AList.update\<close> (in place when the key is present, appended when it is not);
  \<^item> an exception is the \<open>Inl\<close> of a sum; \<open>undefined\<close> and \<open>null\<close> are \<open>None\<close> where the code
    treats them alike.
\<close>

named_theorems js_defs "definitions of the JavaScript helper operations"
named_theorems inv_intros "introduction rules for component invariants"
named_theorems frame_simps "what an operation leaves unchanged"

type_synonym ms = int
  \<comment> \<open>a time value in milliseconds\<close>

type_synonym 'v js_map = "(string \<times> 'v) list"
  \<comment> \<open>an object or \<open>Map\<close> with string keys, in insertion order\<close>

subsection \<open>Numbers\<close>

text \<open>\<open>Math.round\<close>: the nearest integer, ties towards plus infinity.\<close>

definition js_round :: "rat \<Rightarrow> int" where
  [js_defs]: "js_round x = \<lfloor>x + 1 / 2\<rfloor>"

lemma js_round_of_int [simp]: "js_round (of_int n) = n"
  unfolding js_round_def by linarith

lemma js_round_0 [simp]: "js_round 0 = 0"
  using js_round_of_int [of 0] by simp

lemma js_round_mono: "x \<le> y \<Longrightarrow> js_round x \<le> js_round y"
  unfolding js_round_def by (rule floor_mono) simp

lemma js_round_nonneg: "0 \<le> x \<Longrightarrow> 0 \<le> js_round x"
  using js_round_mono [of 0 x] by simp

lemma js_round_le_of_int: "x \<le> of_int n \<Longrightarrow> js_round x \<le> n"
  using js_round_mono [of x "of_int n"] by simp

lemma js_round_ge_of_int: "of_int n \<le> x \<Longrightarrow> n \<le> js_round x"
  using js_round_mono [of "of_int n" x] by simp

lemma js_round_error: "\<bar>of_int (js_round x) - x\<bar> \<le> 1 / 2"
  unfolding js_round_def by linarith

text \<open>\<open>Math.round(x * 10 ** k) / 10 ** k\<close>, the idiom the sources use for cents and for one decimal.\<close>

definition round_to :: "nat \<Rightarrow> rat \<Rightarrow> rat" where
  [js_defs]: "round_to k x = of_int (js_round (x * 10 ^ k)) / 10 ^ k"

lemma round_to_0 [simp]: "round_to k 0 = 0"
  by (simp add: round_to_def)

lemma round_to_mono: "x \<le> y \<Longrightarrow> round_to k x \<le> round_to k y"
  unfolding round_to_def
  by (intro divide_right_mono of_int_le_iff [THEN iffD2] js_round_mono mult_right_mono) simp_all

lemma round_to_of_int [simp]: "round_to k (of_int n) = of_int n"
proof -
  have "of_int n * 10 ^ k = (of_int (n * 10 ^ k) :: rat)"
    by simp
  then have "js_round (of_int n * 10 ^ k) = n * 10 ^ k"
    by (metis js_round_of_int)
  then show ?thesis
    by (simp add: round_to_def)
qed

lemma round_to_idem [simp]: "round_to k (round_to k x) = round_to k x"
proof -
  have "round_to k x * 10 ^ k = of_int (js_round (x * 10 ^ k))"
    by (simp add: round_to_def)
  then show ?thesis
    by (simp add: round_to_def)
qed

lemma round_to_bounds: "of_int a \<le> x \<Longrightarrow> x \<le> of_int b \<Longrightarrow> of_int a \<le> round_to k x \<and> round_to k x \<le> of_int b"
  using round_to_mono [of "of_int a" x k] round_to_mono [of x "of_int b" k] by simp

lemma round_to_nonneg: "0 \<le> x \<Longrightarrow> 0 \<le> round_to k x"
  using round_to_mono [of 0 x k] by simp

subsection \<open>Strings\<close>

definition js_space :: "char \<Rightarrow> bool" where
  [js_defs]: "js_space c \<longleftrightarrow> of_char c \<in> {9, 10, 11, 12, 13, 32, 160 :: nat}"

definition js_trim_start :: "string \<Rightarrow> string" where
  [js_defs]: "js_trim_start s = dropWhile js_space s"

definition js_trim :: "string \<Rightarrow> string" where
  [js_defs]: "js_trim s = rev (js_trim_start (rev (js_trim_start s)))"

definition js_lower_char :: "char \<Rightarrow> char" where
  [js_defs]: "js_lower_char c =
     (let n = of_char c :: nat
      in if 65 \<le> n \<and> n \<le> 90 \<or> 192 \<le> n \<and> n \<le> 222 \<and> n \<noteq> 215 then char_of (n + 32) else c)"

definition js_lower :: "string \<Rightarrow> string" where
  [js_defs]: "js_lower s = map js_lower_char s"

text \<open>\<open>toUpperCase\<close> on the ASCII letters, the only ones the sources upper-case.\<close>

definition js_upper_char :: "char \<Rightarrow> char" where
  [js_defs]: "js_upper_char c =
     (let n = of_char c :: nat in if 97 \<le> n \<and> n \<le> 122 then char_of (n - 32) else c)"

definition js_upper :: "string \<Rightarrow> string" where
  [js_defs]: "js_upper s = map js_upper_char s"

definition is_digit :: "char \<Rightarrow> bool" where
  [js_defs]: "is_digit c \<longleftrightarrow> (let n = of_char c :: nat in 48 \<le> n \<and> n \<le> 57)"

definition is_lower_letter :: "char \<Rightarrow> bool" where
  [js_defs]: "is_lower_letter c \<longleftrightarrow> (let n = of_char c :: nat in 97 \<le> n \<and> n \<le> 122)"

definition is_upper_letter :: "char \<Rightarrow> bool" where
  [js_defs]: "is_upper_letter c \<longleftrightarrow> (let n = of_char c :: nat in 65 \<le> n \<and> n \<le> 90)"

text \<open>The pattern \<open>/^[a-z][a-z0-9_]*$/\<close> of keys and codes.\<close>

definition snake_char :: "char \<Rightarrow> bool" where
  [js_defs]: "snake_char c \<longleftrightarrow> is_lower_letter c \<or> is_digit c \<or> c = CHR ''_''"

definition is_snake_case :: "string \<Rightarrow> bool" where
  [js_defs]: "is_snake_case s \<longleftrightarrow>
     (case s of [] \<Rightarrow> False | c # cs \<Rightarrow> is_lower_letter c \<and> list_all snake_char cs)"

definition starts_with :: "string \<Rightarrow> string \<Rightarrow> bool" where
  [js_defs]: "starts_with p s \<longleftrightarrow> take (length p) s = p"

definition ends_with :: "string \<Rightarrow> string \<Rightarrow> bool" where
  [js_defs]: "ends_with p s \<longleftrightarrow> length p \<le> length s \<and> drop (length s - length p) s = p"

fun includes_str :: "string \<Rightarrow> string \<Rightarrow> bool" where
  "includes_str p [] = (p = [])"
| "includes_str p (c # s) = (starts_with p (c # s) \<or> includes_str p s)"

fun join_with :: "string \<Rightarrow> string list \<Rightarrow> string" where
  "join_with sep [] = []"
| "join_with sep [x] = x"
| "join_with sep (x # y # ys) = x @ sep @ join_with sep (y # ys)"

text \<open>\<open>s.split(c)\<close> for a one-character separator: always at least one piece.\<close>

fun split_char :: "char \<Rightarrow> string \<Rightarrow> string list" where
  "split_char c [] = [[]]"
| "split_char c (x # xs) =
     (if x = c then [] # split_char c xs
      else (case split_char c xs of [] \<Rightarrow> [[x]] | y # ys \<Rightarrow> (x # y) # ys))"

lemma split_char_ne [simp]: "split_char c s \<noteq> []"
  by (induction s) (auto split: list.splits)

lemma join_split_char: "join_with [c] (split_char c s) = s"
proof (induction s)
  case (Cons x xs)
  then show ?case
    by (cases "split_char c xs"; cases "tl (split_char c xs)") auto
qed simp

lemma js_trim_start_idem [simp]: "js_trim_start (js_trim_start s) = js_trim_start s"
  unfolding js_trim_start_def by (induction s) auto

lemma js_trim_start_Nil [simp]: "js_trim_start [] = []"
  by (simp add: js_trim_start_def)

lemma js_trim_Nil [simp]: "js_trim [] = []"
  by (simp add: js_trim_def)

lemma dropWhile_hd_fix: "xs = [] \<or> \<not> P (hd xs) \<Longrightarrow> dropWhile P xs = xs"
  by (cases xs) auto

lemma js_trim_start_rev_keeps_head:
  "xs = [] \<or> \<not> js_space (hd xs) \<Longrightarrow>
     rev (js_trim_start (rev xs)) = [] \<or> \<not> js_space (hd (rev (js_trim_start (rev xs))))"
proof (cases xs)
  case (Cons x ys)
  assume "xs = [] \<or> \<not> js_space (hd xs)"
  with Cons have "\<not> js_space x" by simp
  then have "dropWhile js_space (rev ys @ [x]) = dropWhile js_space (rev ys) @ [x]"
    by (induction "rev ys" arbitrary: ys) (auto simp: dropWhile_append)
  with Cons \<open>\<not> js_space x\<close> show ?thesis
    by (simp add: js_trim_start_def)
qed simp

lemma js_trim_start_head: "js_trim_start s = [] \<or> \<not> js_space (hd (js_trim_start s))"
  unfolding js_trim_start_def using hd_dropWhile by blast

lemma js_trim_idem [simp]: "js_trim (js_trim s) = js_trim s"
proof -
  let ?t = "js_trim s"
  have "?t = [] \<or> \<not> js_space (hd ?t)"
    unfolding js_trim_def by (rule js_trim_start_rev_keeps_head) (rule js_trim_start_head)
  then have "js_trim_start ?t = ?t"
    unfolding js_trim_start_def by (rule dropWhile_hd_fix)
  moreover have "js_trim_start (rev ?t) = rev ?t"
    by (simp add: js_trim_def)
  ultimately show ?thesis
    by (simp add: js_trim_def)
qed

lemma js_trim_length: "length (js_trim s) \<le> length s"
proof -
  have "length (js_trim_start t) \<le> length t" for t
    unfolding js_trim_start_def by (rule length_dropWhile_le)
  then show ?thesis
    unfolding js_trim_def by (metis (no_types, lifting) dual_order.trans length_rev)
qed

lemma js_lower_length [simp]: "length (js_lower s) = length s"
  by (simp add: js_lower_def)

lemma starts_with_append: "starts_with p (p @ s)"
  by (simp add: starts_with_def)

lemma starts_with_iff: "starts_with p s \<longleftrightarrow> (\<exists>t. s = p @ t)"
  by (auto simp: starts_with_def) (metis append_take_drop_id)

subsection \<open>Sets and maps in insertion order\<close>

text \<open>\<open>[...new Set(xs)]\<close>: the first occurrence of each element, in order.\<close>

definition uniq :: "'a list \<Rightarrow> 'a list" where
  [js_defs]: "uniq xs = rev (remdups (rev xs))"

lemma set_uniq [simp]: "set (uniq xs) = set xs"
  by (simp add: uniq_def)

lemma distinct_uniq [simp]: "distinct (uniq xs)"
  by (simp add: uniq_def)

lemma uniq_Nil [simp]: "uniq [] = []"
  by (simp add: uniq_def)

lemma uniq_eq_Nil [simp]: "uniq xs = [] \<longleftrightarrow> xs = []"
  by (metis set_empty set_uniq)

lemma uniq_distinct: "distinct xs \<Longrightarrow> uniq xs = xs"
  by (simp add: uniq_def distinct_remdups_id)

text \<open>\<open>m[k] = f(m[k] ?? d)\<close>: read a key with a default and write it back.\<close>

definition map_adjust :: "'k \<Rightarrow> 'v \<Rightarrow> ('v \<Rightarrow> 'v) \<Rightarrow> ('k \<times> 'v) list \<Rightarrow> ('k \<times> 'v) list" where
  [js_defs]: "map_adjust k d f m = AList.update k (f (case map_of m k of None \<Rightarrow> d | Some v \<Rightarrow> v)) m"

lemma map_of_map_adjust:
  "map_of (map_adjust k d f m) =
     (map_of m)(k \<mapsto> f (case map_of m k of None \<Rightarrow> d | Some v \<Rightarrow> v))"
  by (simp add: map_adjust_def update_conv')

lemma distinct_keys_map_adjust [simp]:
  "distinct (map fst m) \<Longrightarrow> distinct (map fst (map_adjust k d f m))"
  by (simp add: map_adjust_def distinct_update)

lemma distinct_keys_update [simp]:
  "distinct (map fst m) \<Longrightarrow> distinct (map fst (AList.update k v m))"
  by (rule distinct_update)

text \<open>The sum over a map with distinct keys moves by what one key moves.\<close>

lemma sum_list_update_alist:
  fixes g :: "'v \<Rightarrow> 'n::comm_ring_1"
  assumes "distinct (map fst m)"
  shows "sum_list (map (\<lambda>p. g (snd p)) (AList.update k v m)) =
    sum_list (map (\<lambda>p. g (snd p)) m) + g v - (case map_of m k of None \<Rightarrow> 0 | Some w \<Rightarrow> g w)"
  using assms
proof (induction m)
  case (Cons p m)
  then show ?case
    by (cases p) (auto simp: algebra_simps split: option.splits)
qed simp

lemma sum_list_map_adjust:
  fixes g :: "'v \<Rightarrow> 'n::comm_ring_1"
  assumes "distinct (map fst m)" and "g d = 0" and "\<And>v. g (f v) = g v + x"
  shows "sum_list (map (\<lambda>p. g (snd p)) (map_adjust k d f m)) = sum_list (map (\<lambda>p. g (snd p)) m) + x"
  using assms
  by (simp add: map_adjust_def sum_list_update_alist split: option.splits)

subsection \<open>Refusals\<close>

text \<open>Two of the shapes the handlers have: fail unless a guard holds, and sequence two fallible steps.\<close>

definition guard_or :: "bool \<Rightarrow> 'e \<Rightarrow> 'e + unit" where
  [js_defs]: "guard_or b e = (if b then Inr () else Inl e)"

definition and_then :: "'e + 'a \<Rightarrow> ('a \<Rightarrow> 'e + 'b) \<Rightarrow> 'e + 'b" where
  [js_defs]: "and_then r f = (case r of Inl e \<Rightarrow> Inl e | Inr a \<Rightarrow> f a)"

lemma and_then_simps [simp]:
  "and_then (Inl e) f = Inl e"
  "and_then (Inr a) f = f a"
  by (simp_all add: and_then_def)

lemma and_then_Inr: "and_then r f = Inr b \<longleftrightarrow> (\<exists>a. r = Inr a \<and> f a = Inr b)"
  by (auto simp: and_then_def split: sum.splits)

lemma guard_or_Inr [simp]: "guard_or b e = Inr u \<longleftrightarrow> b"
  by (auto simp: guard_or_def)

lemma guard_or_Inl [simp]: "guard_or b e = Inl e' \<longleftrightarrow> \<not> b \<and> e' = e"
  by (auto simp: guard_or_def)

lemma set_update_alist: "set (AList.update k v m) \<subseteq> insert (k, v) (set m)"
  by (induction m) auto

end
