(* ===== verification/Graph_Walk.thy ===== *)
theory Graph_Walk
  imports Prelude
begin

section \<open>The worklist walk over a finite graph\<close>

text \<open>
  Two parts of the program walk a graph with an explicit stack and a set of visited nodes:
  \<open>validateMachine\<close> collects the states reachable from the initial one, and the ticket service's
  \<open>assertAcyclic\<close> looks for the source of a new link among the nodes reachable from its target. Both
  loops are written here once, over a list of edges, with their termination (each round either
  drops a visited node from the stack or visits a new one) and their correctness against the
  reflexive transitive closure. The locale \<open>reach_check\<close> is the contract of a reachability test;
  what a client derives from it is proved inside.
\<close>

definition succs :: "('a \<times> 'a) list \<Rightarrow> 'a \<Rightarrow> 'a list" where
  "succs es c = map snd (filter (\<lambda>e. fst e = c) es)"

lemma set_succs: "set (succs es c) = {d. (c, d) \<in> set es}"
  by (force simp: succs_def)

text \<open>
  The head of the list is the top of the stack: \<open>push\<close> of the successors in order leaves the last
  of them on top.
\<close>

function walk :: "('a \<times> 'a) list \<Rightarrow> 'a list \<Rightarrow> 'a list \<Rightarrow> 'a list" where
  "walk es [] seen = seen"
| "walk es (c # stack) seen =
     (if c \<in> set seen then walk es stack seen
      else walk es (rev (succs es c) @ stack) (seen @ [c]))"
  by pat_completeness auto

text \<open>What is still to be visited: the heads of edges and the stack, less the visited nodes.\<close>

definition pending :: "('a \<times> 'a) list \<Rightarrow> 'a list \<Rightarrow> 'a list \<Rightarrow> 'a set" where
  "pending es stack seen = (snd ` set es \<union> set stack) - set seen"

lemma finite_pending [simp]: "finite (pending es stack seen)"
  by (simp add: pending_def)

lemma pending_pop: "pending es stack seen \<subseteq> pending es (c # stack) seen"
  by (auto simp: pending_def)

lemma pending_visit:
  assumes "c \<notin> set seen"
  shows "pending es (rev (succs es c) @ stack) (seen @ [c]) \<subset> pending es (c # stack) seen"
proof -
  have "set (succs es c) \<subseteq> snd ` set es" by (force simp: set_succs)
  then have "pending es (rev (succs es c) @ stack) (seen @ [c]) \<subseteq> pending es (c # stack) seen"
    by (auto simp: pending_def)
  moreover have "c \<in> pending es (c # stack) seen" using assms by (simp add: pending_def)
  moreover have "c \<notin> pending es (rev (succs es c) @ stack) (seen @ [c])" by (simp add: pending_def)
  ultimately show ?thesis by blast
qed

termination walk
proof (relation "measures [\<lambda>(es, stack, seen). card (pending es stack seen), \<lambda>(es, stack, seen). length stack]")
  fix es :: "('a \<times> 'a) list" and c stack seen
  have "card (pending es stack seen) \<le> card (pending es (c # stack) seen)"
    by (intro card_mono pending_pop) simp
  then show "((es, stack, seen), es, c # stack, seen)
      \<in> measures [\<lambda>(es, stack, seen). card (pending es stack seen), \<lambda>(es, stack, seen). length stack]"
    by auto
  assume "c \<notin> set seen"
  from psubset_card_mono [OF _ pending_visit [OF this, of es stack]]
  show "((es, rev (succs es c) @ stack, seen @ [c]), es, c # stack, seen)
      \<in> measures [\<lambda>(es, stack, seen). card (pending es stack seen), \<lambda>(es, stack, seen). length stack]"
    by simp
qed simp

text \<open>The walk keeps what it has visited, and visits everything on the stack.\<close>

lemma walk_keeps: "set seen \<union> set stack \<subseteq> set (walk es stack seen)"
  by (induction es stack seen rule: walk.induct) auto

lemma walk_distinct: "distinct seen \<Longrightarrow> distinct (walk es stack seen)"
  by (induction es stack seen rule: walk.induct) auto

text \<open>Its invariant: a successor of a visited node is visited or on the stack.\<close>

definition frontier_inv :: "('a \<times> 'a) list \<Rightarrow> 'a list \<Rightarrow> 'a list \<Rightarrow> bool" where
  "frontier_inv es stack seen \<longleftrightarrow> (\<forall>c\<in>set seen. set (succs es c) \<subseteq> set seen \<union> set stack)"

lemma walk_closed:
  "frontier_inv es stack seen \<Longrightarrow> frontier_inv es [] (walk es stack seen)"
proof (induction es stack seen rule: walk.induct)
  case (2 es c stack seen)
  then show ?case
    by (cases "c \<in> set seen") (fastforce simp: frontier_inv_def)+
qed simp

lemma walk_sound:
  "x \<in> set (walk es stack seen) \<Longrightarrow> x \<in> set seen \<or> (\<exists>s\<in>set stack. (s, x) \<in> (set es)\<^sup>*)"
proof (induction es stack seen rule: walk.induct)
  case (2 es c stack seen)
  show ?case
  proof (cases "c \<in> set seen")
    case True
    with 2 show ?thesis by auto
  next
    case False
    with 2 have "x \<in> set (seen @ [c]) \<or> (\<exists>s\<in>set (rev (succs es c) @ stack). (s, x) \<in> (set es)\<^sup>*)"
      by simp
    then consider "x \<in> set seen" | "x = c" | d where "(c, d) \<in> set es" "(d, x) \<in> (set es)\<^sup>*"
      | s where "s \<in> set stack" "(s, x) \<in> (set es)\<^sup>*"
      by (auto simp: set_succs)
    then show ?thesis
      by cases (auto intro: converse_rtrancl_into_rtrancl)
  qed
qed simp

lemma walk_complete:
  assumes "(s, x) \<in> (set es)\<^sup>*" and "s \<in> set (walk es stack [])"
  shows "x \<in> set (walk es stack [])"
proof -
  have "frontier_inv es [] (walk es stack [])"
    by (rule walk_closed) (simp add: frontier_inv_def)
  then have step: "(c, d) \<in> set es \<Longrightarrow> c \<in> set (walk es stack []) \<Longrightarrow> d \<in> set (walk es stack [])" for c d
    by (auto simp: frontier_inv_def set_succs)
  from assms show ?thesis
    by (induction rule: rtrancl_induct) (auto intro: step)
qed

lemma set_walk: "set (walk es stack []) = (set es)\<^sup>* `` set stack"
proof
  show "set (walk es stack []) \<subseteq> (set es)\<^sup>* `` set stack"
    using walk_sound [of _ es stack "[]"] by auto
  show "(set es)\<^sup>* `` set stack \<subseteq> set (walk es stack [])"
    using walk_complete [of _ _ es stack] walk_keeps [of "[]" stack es] by auto
qed

subsection \<open>The walk that stops at a target\<close>

function finds :: "('a \<times> 'a) list \<Rightarrow> 'a \<Rightarrow> 'a list \<Rightarrow> 'a list \<Rightarrow> bool" where
  "finds es t [] seen = False"
| "finds es t (c # stack) seen =
     (if c = t then True
      else if c \<in> set seen then finds es t stack seen
      else finds es t (rev (succs es c) @ stack) (seen @ [c]))"
  by pat_completeness auto
termination
proof (relation "measures [\<lambda>(es, t, stack, seen). card (pending es stack seen), \<lambda>(es, t, stack, seen). length stack]")
  fix es :: "('a \<times> 'a) list" and t c stack seen
  have "card (pending es stack seen) \<le> card (pending es (c # stack) seen)"
    by (intro card_mono pending_pop) simp
  then show "((es, t, stack, seen), es, t, c # stack, seen)
      \<in> measures [\<lambda>(es, t, stack, seen). card (pending es stack seen), \<lambda>(es, t, stack, seen). length stack]"
    by auto
  assume "c \<notin> set seen"
  from psubset_card_mono [OF _ pending_visit [OF this, of es stack]]
  show "((es, t, rev (succs es c) @ stack, seen @ [c]), es, t, c # stack, seen)
      \<in> measures [\<lambda>(es, t, stack, seen). card (pending es stack seen), \<lambda>(es, t, stack, seen). length stack]"
    by simp
qed simp

lemma finds_walk: "t \<notin> set seen \<Longrightarrow> finds es t stack seen \<longleftrightarrow> t \<in> set (walk es stack seen)"
proof (induction es t stack seen rule: finds.induct)
  case (2 es t c stack seen)
  then show ?case
    using walk_keeps [of seen "c # stack" es] by (cases "c = t"; cases "c \<in> set seen") auto
qed simp

definition reaches :: "('a \<times> 'a) list \<Rightarrow> 'a \<Rightarrow> 'a \<Rightarrow> bool" where
  "reaches es a b = finds es b [a] []"

lemma reaches_iff: "reaches es a b \<longleftrightarrow> (a, b) \<in> (set es)\<^sup>*"
  using finds_walk [of b "[]" es "[a]"] set_walk [of es "[a]"]
  by (simp add: reaches_def del: finds.simps walk.simps)

subsection \<open>The contract of a reachability test\<close>

locale reach_check =
  fixes check :: "('a \<times> 'a) list \<Rightarrow> 'a \<Rightarrow> 'a \<Rightarrow> bool"
  assumes check_iff: "check es a b \<longleftrightarrow> (a, b) \<in> (set es)\<^sup>*"
begin

lemma check_refl [simp]: "check es a a"
  by (simp add: check_iff)

lemma check_trans: "check es a b \<Longrightarrow> check es b c \<Longrightarrow> check es a c"
  by (auto simp: check_iff)

lemma check_mono: "set es \<subseteq> set fs \<Longrightarrow> check es a b \<Longrightarrow> check fs a b"
  using rtrancl_mono [of "set es" "set fs"] by (auto simp: check_iff)

text \<open>An edge whose head does not reach its tail closes no cycle.\<close>

lemma insert_acyclic:
  "acyclic (set es) \<Longrightarrow> \<not> check es b a \<Longrightarrow> acyclic (set ((a, b) # es))"
  by (simp add: check_iff acyclic_insert)

lemma insert_cyclic:
  "check es b a \<Longrightarrow> \<not> acyclic (set ((a, b) # es))"
  by (simp add: check_iff acyclic_insert)

end

interpretation stack_walk: reach_check reaches
  by unfold_locales (rule reaches_iff)

end
