(* ===== verification/State_Machine.thy ===== *)
theory State_Machine
  imports Graph_Walk
begin

section \<open>Ticket state machines (src/domain/tickets/state-machine.ts)\<close>

text \<open>
  A state machine is data: a configuration body with states and transitions. This theory has the
  body's types, the validator \<open>validateMachine\<close> (every problem, in the order found), the
  constructor of the \<open>StateMachine\<close> value object with its two lookup tables, and its queries. The
  main lemmas: the validator is empty exactly on well-formed bodies, the tables answer like the
  declared lists, and the states a ticket can reach by transitions are declared states.

  The body is taken with the shape its interface declares. An absent \<open>effects\<close> or \<open>requires\<close> is
  the empty one, an absent flag is false: the code only tests them for truth. A problem is a
  constructor with the values the message interpolates.
\<close>

datatype state_kind = Intake | Active | Paused | Resolved | Terminal

record state_effects =
  eff_pause :: bool
  eff_response_met :: bool
  eff_resolve :: bool
  eff_deploy :: bool
  eff_close :: bool
  eff_cancel :: bool

definition no_effects :: state_effects where
  "no_effects = \<lparr>eff_pause = False, eff_response_met = False, eff_resolve = False,
     eff_deploy = False, eff_close = False, eff_cancel = False\<rparr>"

record state_def =
  st_key :: string
  st_label :: string
  st_kind :: state_kind
  st_effects :: "state_effects option"

datatype requirement =
    Req_pause_reason | Req_resolution | Req_solution_link | Req_time_logged | Req_implementation_plan
  | Req_backout_plan | Req_validation_notes | Req_change_window | Req_workaround_article | Req_approval

record transition_def =
  tr_from :: string
  tr_to :: string
  tr_label :: "string option"
  tr_requires :: "requirement list"
  tr_portal :: bool
  tr_reopen :: bool

record machine_body =
  mb_type :: string
  mb_initial :: string
  mb_states :: "state_def list"
  mb_transitions :: "transition_def list"

datatype actor_kind = Internal | Portal | System

datatype machine_problem =
    No_states
  | Key_not_snake_case string
  | Duplicate_state string
  | Initial_undefined string
  | From_unknown_state string
  | To_unknown_state string
  | Self_transition string
  | Duplicate_transition string
  | No_terminal_state
  | Terminal_has_outgoing string
  | Paused_without_reason string
  | State_unreachable string
  | Terminal_unreachable string

subsection \<open>The validator\<close>

definition when_bad :: "bool \<Rightarrow> 'p \<Rightarrow> 'p list" where
  "when_bad b p = (if b then [p] else [])"

lemma when_bad_Nil [simp]: "when_bad b p = [] \<longleftrightarrow> \<not> b"
  by (simp add: when_bad_def)

fun key_problems :: "string list \<Rightarrow> state_def list \<Rightarrow> machine_problem list" where
  "key_problems keys [] = []"
| "key_problems keys (s # ss) =
     when_bad (\<not> is_snake_case (st_key s)) (Key_not_snake_case (st_key s)) @
     when_bad (st_key s \<in> set keys) (Duplicate_state (st_key s)) @
     key_problems (keys @ [st_key s]) ss"

definition transition_pair :: "transition_def \<Rightarrow> string" where
  "transition_pair t = tr_from t @ ''>'' @ tr_to t"

fun transition_problems :: "string list \<Rightarrow> string list \<Rightarrow> transition_def list \<Rightarrow> machine_problem list" where
  "transition_problems keys seen [] = []"
| "transition_problems keys seen (t # ts) =
     when_bad (tr_from t \<notin> set keys) (From_unknown_state (tr_from t)) @
     when_bad (tr_to t \<notin> set keys) (To_unknown_state (tr_to t)) @
     when_bad (tr_from t = tr_to t) (Self_transition (tr_from t)) @
     when_bad (transition_pair t \<in> set seen) (Duplicate_transition (transition_pair t)) @
     transition_problems keys (seen @ [transition_pair t]) ts"

definition kind_problems :: "transition_def list \<Rightarrow> state_def \<Rightarrow> machine_problem list" where
  "kind_problems ts s =
     when_bad (st_kind s = Terminal \<and> list_ex (\<lambda>t. tr_from t = st_key s) ts)
       (Terminal_has_outgoing (st_key s)) @
     when_bad (st_kind s = Paused \<and>
         \<not> list_all (\<lambda>t. Req_pause_reason \<in> set (tr_requires t)) (filter (\<lambda>t. tr_to t = st_key s) ts))
       (Paused_without_reason (st_key s))"

definition machine_edges :: "machine_body \<Rightarrow> (string \<times> string) list" where
  "machine_edges b = map (\<lambda>t. (tr_from t, tr_to t)) (mb_transitions b)"

definition reachable_states :: "machine_body \<Rightarrow> string list" where
  "reachable_states b = walk (machine_edges b) [mb_initial b] []"

definition validate_machine :: "machine_body \<Rightarrow> machine_problem list" where
  "validate_machine b =
     (if mb_states b = [] then [No_states]
      else
        let keys = uniq (map st_key (mb_states b));
            terminal = map st_key (filter (\<lambda>s. st_kind s = Terminal) (mb_states b));
            reachable = reachable_states b
        in key_problems [] (mb_states b) @
           when_bad (mb_initial b \<notin> set keys) (Initial_undefined (mb_initial b)) @
           transition_problems keys [] (mb_transitions b) @
           when_bad (terminal = []) No_terminal_state @
           concat (map (kind_problems (mb_transitions b)) (mb_states b)) @
           concat (map (\<lambda>k. when_bad (k \<notin> set reachable) (State_unreachable k)) keys) @
           concat (map (\<lambda>k. when_bad (k \<notin> set reachable) (Terminal_unreachable k)) terminal))"

subsection \<open>The value object\<close>

record state_machine =
  sm_body :: machine_body
  sm_states :: "state_def js_map"
  sm_by_from :: "transition_def list js_map"

fun state_table :: "state_def js_map \<Rightarrow> state_def list \<Rightarrow> state_def js_map" where
  "state_table m [] = m"
| "state_table m (s # ss) = state_table (AList.update (st_key s) s m) ss"

fun from_table :: "transition_def list js_map \<Rightarrow> transition_def list \<Rightarrow> transition_def list js_map" where
  "from_table m [] = m"
| "from_table m (t # ts) = from_table (map_adjust (tr_from t) [] (\<lambda>l. l @ [t]) m) ts"

definition make_machine :: "machine_body \<Rightarrow> machine_problem list + state_machine" where
  "make_machine b =
     (let problems = validate_machine b
      in if problems \<noteq> [] then Inl problems
         else Inr \<lparr>sm_body = b, sm_states = state_table [] (mb_states b),
                sm_by_from = from_table [] (mb_transitions b)\<rparr>)"

definition initial_state :: "state_machine \<Rightarrow> string" where
  "initial_state m = mb_initial (sm_body m)"

definition find_state :: "state_machine \<Rightarrow> string \<Rightarrow> state_def option" where
  "find_state m k = map_of (sm_states m) k"

definition is_terminal :: "state_machine \<Rightarrow> string \<Rightarrow> bool" where
  "is_terminal m k = (case find_state m k of None \<Rightarrow> False | Some s \<Rightarrow> st_kind s = Terminal)"

definition find_transition :: "state_machine \<Rightarrow> string \<Rightarrow> string \<Rightarrow> transition_def option" where
  "find_transition m f t =
     (case map_of (sm_by_from m) f of None \<Rightarrow> None | Some l \<Rightarrow> find (\<lambda>c. tr_to c = t) l)"

definition can_transition :: "state_machine \<Rightarrow> string \<Rightarrow> string \<Rightarrow> actor_kind \<Rightarrow> bool" where
  "can_transition m f t a =
     (case find_transition m f t of
        None \<Rightarrow> False
      | Some found \<Rightarrow> if a = Portal then tr_portal found else True)"

definition available :: "state_machine \<Rightarrow> string \<Rightarrow> actor_kind \<Rightarrow> transition_def list" where
  "available m f a =
     filter (\<lambda>c. a \<noteq> Portal \<or> tr_portal c)
       (case map_of (sm_by_from m) f of None \<Rightarrow> [] | Some l \<Rightarrow> l)"

definition requirements :: "state_machine \<Rightarrow> string \<Rightarrow> string \<Rightarrow> requirement list" where
  "requirements m f t = (case find_transition m f t of None \<Rightarrow> [] | Some d \<Rightarrow> tr_requires d)"

definition effects :: "state_machine \<Rightarrow> string \<Rightarrow> state_effects" where
  "effects m t =
     (case find_state m t of None \<Rightarrow> no_effects
      | Some s \<Rightarrow> (case st_effects s of None \<Rightarrow> no_effects | Some e \<Rightarrow> e))"

subsection \<open>Well-formedness, declaratively\<close>

definition wf_machine :: "machine_body \<Rightarrow> bool" where
  "wf_machine b \<longleftrightarrow>
     (let keys = map st_key (mb_states b)
      in keys \<noteq> [] \<and> distinct keys \<and> (\<forall>k\<in>set keys. is_snake_case k) \<and> mb_initial b \<in> set keys \<and>
         (\<forall>t\<in>set (mb_transitions b). tr_from t \<in> set keys \<and> tr_to t \<in> set keys \<and> tr_from t \<noteq> tr_to t) \<and>
         distinct (machine_edges b) \<and>
         (\<exists>s\<in>set (mb_states b). st_kind s = Terminal) \<and>
         (\<forall>s\<in>set (mb_states b). \<forall>t\<in>set (mb_transitions b).
            (st_kind s = Terminal \<longrightarrow> tr_from t \<noteq> st_key s) \<and>
            (st_kind s = Paused \<and> tr_to t = st_key s \<longrightarrow> Req_pause_reason \<in> set (tr_requires t))) \<and>
         (\<forall>k\<in>set keys. (mb_initial b, k) \<in> (set (machine_edges b))\<^sup>*))"

lemma key_problems_Nil:
  "key_problems keys ss = [] \<longleftrightarrow>
     (\<forall>s\<in>set ss. is_snake_case (st_key s)) \<and> distinct (map st_key ss) \<and>
     set keys \<inter> st_key ` set ss = {}"
  by (induction keys ss rule: key_problems.induct) auto

lemma transition_problems_Nil:
  "transition_problems keys seen ts = [] \<longleftrightarrow>
     (\<forall>t\<in>set ts. tr_from t \<in> set keys \<and> tr_to t \<in> set keys \<and> tr_from t \<noteq> tr_to t) \<and>
     distinct (map transition_pair ts) \<and> set seen \<inter> transition_pair ` set ts = {}"
  by (induction keys seen ts rule: transition_problems.induct) auto

lemma kind_problems_Nil:
  "kind_problems ts s = [] \<longleftrightarrow>
     (\<forall>t\<in>set ts. (st_kind s = Terminal \<longrightarrow> tr_from t \<noteq> st_key s) \<and>
        (st_kind s = Paused \<and> tr_to t = st_key s \<longrightarrow> Req_pause_reason \<in> set (tr_requires t)))"
  by (auto simp: kind_problems_def list_ex_iff list_all_iff)

lemma set_reachable_states: "set (reachable_states b) = (set (machine_edges b))\<^sup>* `` {mb_initial b}"
  by (simp add: reachable_states_def set_walk del: walk.simps)

text \<open>The pair string \<open>from>to\<close> identifies the pair, because no key holds the character \<open>>\<close>.\<close>

lemma snake_no_gt: "is_snake_case k \<Longrightarrow> CHR ''>'' \<notin> set k"
proof -
  have "\<not> snake_char CHR ''>''"
    by (simp add: snake_char_def is_lower_letter_def is_digit_def Let_def)
  moreover have "\<not> is_lower_letter CHR ''>''"
    by (simp add: is_lower_letter_def Let_def)
  ultimately show "is_snake_case k \<Longrightarrow> CHR ''>'' \<notin> set k"
    by (auto simp: is_snake_case_def list_all_iff split: list.splits)
qed

lemma append_sep_inj:
  "a \<notin> set xs \<Longrightarrow> a \<notin> set ys \<Longrightarrow> xs @ a # us = ys @ a # vs \<longleftrightarrow> xs = ys \<and> us = vs"
  by (induction xs arbitrary: ys; case_tac ys) auto

lemma transition_pair_inj:
  assumes "\<forall>t\<in>set ts. is_snake_case (tr_from t)"
  shows "distinct (map transition_pair ts) \<longleftrightarrow> distinct (map (\<lambda>t. (tr_from t, tr_to t)) ts)"
  using assms
proof (induction ts)
  case (Cons t ts)
  have "transition_pair t = transition_pair u \<longleftrightarrow> (tr_from t, tr_to t) = (tr_from u, tr_to u)"
    if "u \<in> set ts" for u
    using Cons.prems that by (simp add: transition_pair_def append_sep_inj snake_no_gt)
  then have "transition_pair t \<in> transition_pair ` set ts \<longleftrightarrow>
      (tr_from t, tr_to t) \<in> (\<lambda>t. (tr_from t, tr_to t)) ` set ts"
    by (auto simp: image_iff)
  with Cons show ?case by simp
qed simp

lemma concat_when_bad_Nil: "concat (map (\<lambda>k. when_bad (P k) (p k)) ks) = [] \<longleftrightarrow> (\<forall>k\<in>set ks. \<not> P k)"
  by auto

lemma validate_machine_Nil_iff: "validate_machine b = [] \<longleftrightarrow> wf_machine b"
proof (cases "mb_states b = []")
  case True
  then show ?thesis by (simp add: validate_machine_def wf_machine_def Let_def)
next
  case False
  let ?keys = "map st_key (mb_states b)" and ?ts = "mb_transitions b"
  let ?ends = "\<forall>t\<in>set ?ts. tr_from t \<in> set ?keys \<and> tr_to t \<in> set ?keys \<and> tr_from t \<noteq> tr_to t"
  let ?reach = "\<forall>k\<in>set ?keys. (mb_initial b, k) \<in> (set (machine_edges b))\<^sup>*"
  have "validate_machine b = [] \<longleftrightarrow>
      (\<forall>s\<in>set (mb_states b). is_snake_case (st_key s)) \<and> distinct ?keys \<and> mb_initial b \<in> set ?keys \<and>
      ?ends \<and> distinct (map transition_pair ?ts) \<and> (\<exists>s\<in>set (mb_states b). st_kind s = Terminal) \<and>
      (\<forall>s\<in>set (mb_states b). kind_problems ?ts s = []) \<and> ?reach"
    using False
    by (auto simp: validate_machine_def Let_def key_problems_Nil transition_problems_Nil
        set_reachable_states concat_when_bad_Nil filter_empty_conv)
  moreover have "(\<forall>s\<in>set (mb_states b). is_snake_case (st_key s)) \<Longrightarrow> ?ends \<Longrightarrow>
      distinct (map transition_pair ?ts) \<longleftrightarrow> distinct (machine_edges b)"
    unfolding machine_edges_def by (rule transition_pair_inj) auto
  ultimately show ?thesis
    using False by (auto simp: wf_machine_def Let_def kind_problems_Nil)
qed

subsection \<open>The lookup tables\<close>

lemma find_append_option: "find P (xs @ ys) = (case find P xs of None \<Rightarrow> find P ys | Some x \<Rightarrow> Some x)"
  by (induction xs) auto

lemma state_table_lookup:
  "map_of (state_table m ss) k =
     (case find (\<lambda>s. st_key s = k) (rev ss) of None \<Rightarrow> map_of m k | Some s \<Rightarrow> Some s)"
proof (induction m ss rule: state_table.induct)
  case (2 m s ss)
  then show ?case
    by (simp add: update_conv' find_append_option split: option.splits)
qed simp

lemma from_table_lookup:
  "map_of (from_table m ts) f =
     (if f \<in> dom (map_of m) \<or> (\<exists>t\<in>set ts. tr_from t = f)
      then Some ((case map_of m f of None \<Rightarrow> [] | Some l \<Rightarrow> l) @ filter (\<lambda>t. tr_from t = f) ts) else None)"
proof (induction m ts rule: from_table.induct)
  case (2 m t ts)
  then show ?case
    by (cases "map_of m f") (auto simp: map_of_map_adjust dom_def)
qed (auto simp: dom_def)

lemma from_table_outgoing:
  "(case map_of (from_table [] ts) f of None \<Rightarrow> [] | Some l \<Rightarrow> l) = filter (\<lambda>t. tr_from t = f) ts"
  by (auto simp: from_table_lookup filter_empty_conv)

lemma make_machine_Inr:
  "make_machine b = Inr m \<longleftrightarrow>
     wf_machine b \<and> m = \<lparr>sm_body = b, sm_states = state_table [] (mb_states b),
       sm_by_from = from_table [] (mb_transitions b)\<rparr>"
  by (auto simp: make_machine_def Let_def validate_machine_Nil_iff)

lemma make_machine_Inl: "make_machine b = Inl ps \<longleftrightarrow> \<not> wf_machine b \<and> ps = validate_machine b"
  by (auto simp: make_machine_def Let_def validate_machine_Nil_iff [symmetric])

lemma find_filter: "find P (filter Q xs) = find (\<lambda>x. Q x \<and> P x) xs"
  by (induction xs) auto

lemma find_transition_eq:
  assumes "make_machine b = Inr m"
  shows "find_transition m f t = find (\<lambda>c. tr_from c = f \<and> tr_to c = t) (mb_transitions b)"
proof -
  have "find_transition m f t =
      find (\<lambda>c. tr_to c = t) (case map_of (sm_by_from m) f of None \<Rightarrow> [] | Some l \<Rightarrow> l)"
    by (simp add: find_transition_def split: option.splits)
  with assms show ?thesis
    by (simp add: make_machine_Inr from_table_outgoing find_filter)
qed

lemma available_eq:
  "make_machine b = Inr m \<Longrightarrow>
     available m f a = filter (\<lambda>c. (a \<noteq> Portal \<or> tr_portal c) \<and> tr_from c = f) (mb_transitions b)"
  by (simp add: make_machine_Inr available_def from_table_outgoing conj_commute)

lemma find_unique_key:
  "distinct (map key xs) \<Longrightarrow> find (\<lambda>x. key x = k) xs = Some y \<longleftrightarrow> y \<in> set xs \<and> key y = k"
  by (induction xs) (auto simp: rev_image_eqI)

lemma find_state_iff:
  assumes "make_machine b = Inr m"
  shows "find_state m k = Some s \<longleftrightarrow> s \<in> set (mb_states b) \<and> st_key s = k"
proof -
  from assms have "distinct (map st_key (rev (mb_states b)))" "find_state m k = find (\<lambda>s. st_key s = k) (rev (mb_states b))"
    by (auto simp: make_machine_Inr wf_machine_def Let_def find_state_def state_table_lookup
        simp flip: rev_map split: option.splits)
  then show ?thesis by (simp add: find_unique_key)
qed

lemma find_transition_iff:
  assumes "make_machine b = Inr m"
  shows "find_transition m f t = Some c \<longleftrightarrow> c \<in> set (mb_transitions b) \<and> tr_from c = f \<and> tr_to c = t"
proof -
  from assms have "distinct (map (\<lambda>c. (tr_from c, tr_to c)) (mb_transitions b))"
    by (simp add: make_machine_Inr wf_machine_def Let_def machine_edges_def)
  from find_unique_key [OF this, of "(f, t)" c] assms show ?thesis
    by (simp add: find_transition_eq)
qed

lemma can_transition_iff:
  assumes "make_machine b = Inr m"
  shows "can_transition m f t a \<longleftrightarrow>
    (\<exists>c\<in>set (mb_transitions b). tr_from c = f \<and> tr_to c = t \<and> (a = Portal \<longrightarrow> tr_portal c))"
proof (cases "find_transition m f t")
  case None
  with find_transition_iff [OF assms, of f t] show ?thesis
    by (auto simp: can_transition_def)
next
  case (Some d)
  with find_transition_iff [OF assms, of f t]
  have "c \<in> set (mb_transitions b) \<and> tr_from c = f \<and> tr_to c = t \<longleftrightarrow> c = d" for c
    by (metis option.inject)
  with Some show ?thesis by (simp add: can_transition_def) metis
qed

lemma can_transition_available:
  assumes "make_machine b = Inr m"
  shows "can_transition m f t a \<longleftrightarrow> t \<in> tr_to ` set (available m f a)"
  by (auto simp: can_transition_iff [OF assms] available_eq [OF assms])

subsection \<open>The states a ticket can reach\<close>

inductive visits :: "state_machine \<Rightarrow> actor_kind \<Rightarrow> string \<Rightarrow> bool" for m a where
  start: "visits m a (initial_state m)"
| move: "visits m a f \<Longrightarrow> can_transition m f t a \<Longrightarrow> visits m a t"

lemma visits_declared:
  assumes "make_machine b = Inr m" and "visits m a k"
  shows "k \<in> st_key ` set (mb_states b)"
  using assms(2)
proof (induction rule: visits.induct)
  case start
  from assms(1) show ?case
    by (auto simp: make_machine_Inr wf_machine_def Let_def initial_state_def)
next
  case (move f t)
  moreover have "wf_machine b" using assms(1) by (simp add: make_machine_Inr)
  ultimately show ?case
    by (auto simp: can_transition_iff [OF assms(1)] wf_machine_def Let_def)
qed

lemma visits_internal_all:
  assumes "make_machine b = Inr m" and "k \<in> st_key ` set (mb_states b)"
  shows "visits m Internal k"
proof -
  have "(mb_initial b, k) \<in> (set (machine_edges b))\<^sup>*"
    using assms by (auto simp: make_machine_Inr wf_machine_def Let_def)
  then show ?thesis
  proof (induction rule: rtrancl_induct)
    case base
    show ?case
      using visits.start [of m Internal] assms(1) by (simp add: make_machine_Inr initial_state_def)
  next
    case (step f t)
    then have "can_transition m f t Internal"
      by (force simp: can_transition_iff [OF assms(1)] machine_edges_def)
    with step.IH show ?case by (rule visits.move)
  qed
qed

lemma terminal_stuck:
  assumes "make_machine b = Inr m" and "is_terminal m k"
  shows "\<not> can_transition m k t a"
proof -
  obtain s where "s \<in> set (mb_states b)" "st_key s = k" "st_kind s = Terminal"
    using assms(2) find_state_iff [OF assms(1)] by (auto simp: is_terminal_def split: option.splits)
  moreover have "wf_machine b" using assms(1) by (simp add: make_machine_Inr)
  ultimately show ?thesis
    by (auto simp: can_transition_iff [OF assms(1)] wf_machine_def Let_def)
qed

lemma paused_needs_reason:
  assumes "make_machine b = Inr m" and "can_transition m f t a"
    and "find_state m t = Some s" and "st_kind s = Paused"
  shows "Req_pause_reason \<in> set (requirements m f t)"
proof -
  obtain c where c: "find_transition m f t = Some c"
    using assms(2) by (auto simp: can_transition_def split: option.splits)
  with assms(3) have "c \<in> set (mb_transitions b)" "tr_to c = t" "s \<in> set (mb_states b)" "st_key s = t"
    by (simp_all add: find_transition_iff [OF assms(1)] find_state_iff [OF assms(1)])
  with assms(1,4) c show ?thesis
    by (auto simp: requirements_def make_machine_Inr wf_machine_def Let_def)
qed

subsection \<open>A sample machine\<close>

definition incident_body :: machine_body where
  "incident_body = \<lparr>mb_type = ''incident'', mb_initial = ''new'',
     mb_states =
       [\<lparr>st_key = ''new'', st_label = ''New'', st_kind = Intake, st_effects = None\<rparr>,
        \<lparr>st_key = ''in_progress'', st_label = ''In progress'', st_kind = Active,
          st_effects = Some (no_effects\<lparr>eff_response_met := True\<rparr>)\<rparr>,
        \<lparr>st_key = ''on_hold'', st_label = ''On hold'', st_kind = Paused,
          st_effects = Some (no_effects\<lparr>eff_pause := True\<rparr>)\<rparr>,
        \<lparr>st_key = ''resolved'', st_label = ''Resolved'', st_kind = Resolved,
          st_effects = Some (no_effects\<lparr>eff_resolve := True\<rparr>)\<rparr>,
        \<lparr>st_key = ''closed'', st_label = ''Closed'', st_kind = Terminal,
          st_effects = Some (no_effects\<lparr>eff_close := True\<rparr>)\<rparr>],
     mb_transitions =
       [\<lparr>tr_from = ''new'', tr_to = ''in_progress'', tr_label = None, tr_requires = [], tr_portal = False, tr_reopen = False\<rparr>,
        \<lparr>tr_from = ''in_progress'', tr_to = ''on_hold'', tr_label = None, tr_requires = [Req_pause_reason],
          tr_portal = False, tr_reopen = False\<rparr>,
        \<lparr>tr_from = ''on_hold'', tr_to = ''in_progress'', tr_label = None, tr_requires = [], tr_portal = True, tr_reopen = False\<rparr>,
        \<lparr>tr_from = ''in_progress'', tr_to = ''resolved'', tr_label = None,
          tr_requires = [Req_resolution, Req_solution_link, Req_time_logged], tr_portal = False, tr_reopen = False\<rparr>,
        \<lparr>tr_from = ''resolved'', tr_to = ''in_progress'', tr_label = None, tr_requires = [], tr_portal = True, tr_reopen = True\<rparr>,
        \<lparr>tr_from = ''resolved'', tr_to = ''closed'', tr_label = None, tr_requires = [], tr_portal = True, tr_reopen = False\<rparr>]\<rparr>"

definition incident_machine :: state_machine where
  "incident_machine = \<lparr>sm_body = incident_body, sm_states = state_table [] (mb_states incident_body),
     sm_by_from = from_table [] (mb_transitions incident_body)\<rparr>"

lemma incident_made: "make_machine incident_body = Inr incident_machine"
proof -
  have "validate_machine incident_body = []" by code_simp
  then show ?thesis by (simp add: make_machine_def incident_machine_def)
qed

subsection \<open>Properties\<close>

text \<open>C8: The validator is exact: it finds no problem with a body precisely when the body is well formed, that is,
  its keys are distinct lower snake case names, the initial state and both ends of every transition are
  declared, no transition is a loop or a duplicate, there is a terminal state, terminal states have no
  way out, every transition into a paused state requires a pause reason, and every state is reachable.\<close>

theorem machine_validator_exact:
  "validate_machine b = [] \<longleftrightarrow> wf_machine b"
  by (rule validate_machine_Nil_iff)

text \<open>C9: On an accepted machine, whatever sequence of permitted transitions a ticket goes through, it stays in
  declared states; internal actors can bring it to every declared state; a terminal state lets nobody
  out; and no transition enters a paused state without a pause reason.\<close>

theorem ticket_walk_sound:
  assumes "make_machine b = Inr m"
  shows "(visits m a k \<longrightarrow> k \<in> st_key ` set (mb_states b)) \<and>
    (visits m Internal k \<longleftrightarrow> k \<in> st_key ` set (mb_states b)) \<and>
    (is_terminal m k \<longrightarrow> \<not> can_transition m k t a) \<and>
    (can_transition m f t a \<and> (\<exists>s. find_state m t = Some s \<and> st_kind s = Paused) \<longrightarrow>
       Req_pause_reason \<in> set (requirements m f t))"
proof (intro conjI impI)
  show "visits m Internal k \<longleftrightarrow> k \<in> st_key ` set (mb_states b)"
    using visits_declared [OF assms] visits_internal_all [OF assms] by metis
qed (auto intro: visits_declared [OF assms] paused_needs_reason [OF assms] simp: terminal_stuck [OF assms])

theorem ticket_walk_sound_witness:
  "visits incident_machine Internal ''on_hold'' \<and> \<not> can_transition incident_machine ''closed'' ''new'' Internal \<and>
    Req_pause_reason \<in> set (requirements incident_machine ''in_progress'' ''on_hold'')"
proof -
  have "''on_hold'' \<in> st_key ` set (mb_states incident_body)" "is_terminal incident_machine ''closed''"
    "can_transition incident_machine ''in_progress'' ''on_hold'' Internal"
    "(case find_state incident_machine ''on_hold'' of None \<Rightarrow> False | Some s \<Rightarrow> st_kind s = Paused)"
    by code_simp+
  with ticket_walk_sound [OF incident_made, of Internal "''on_hold''" "''new''" "''in_progress''"]
    ticket_walk_sound [OF incident_made, of Internal "''closed''" "''new''" "''in_progress''"]
    ticket_walk_sound [OF incident_made, of Internal "''new''" "''on_hold''" "''in_progress''"]
  show ?thesis by (auto split: option.splits)
qed

text \<open>The two lookup tables answer like the declared list: the transitions offered to an actor are exactly the
  declared ones from the ticket's state that the actor may take, and a transition is allowed exactly when
  it is offered.\<close>

theorem offered_is_allowed:
  assumes "make_machine b = Inr m"
  shows "set (available m f a) = {c \<in> set (mb_transitions b). tr_from c = f \<and> (a = Portal \<longrightarrow> tr_portal c)} \<and>
    (can_transition m f t a \<longleftrightarrow> t \<in> tr_to ` set (available m f a))"
  using can_transition_available [OF assms] by (auto simp: available_eq [OF assms])

theorem offered_is_allowed_witness:
  "can_transition incident_machine ''on_hold'' ''in_progress'' Portal \<and>
    \<not> can_transition incident_machine ''in_progress'' ''on_hold'' Portal"
proof -
  have "map tr_to (available incident_machine ''on_hold'' Portal) = [''in_progress'']"
    "map tr_to (available incident_machine ''in_progress'' Portal) = []"
    by code_simp+
  then have "tr_to ` set (available incident_machine ''on_hold'' Portal) = {''in_progress''}"
    "tr_to ` set (available incident_machine ''in_progress'' Portal) = {}"
    by (simp_all flip: set_map)
  with offered_is_allowed [OF incident_made, of "''on_hold''" Portal "''in_progress''"]
    offered_is_allowed [OF incident_made, of "''in_progress''" Portal "''on_hold''"]
  show ?thesis by simp
qed

end
