(* ===== verification/Json_Value.thy ===== *)
theory Json_Value
  imports Prelude
begin

section \<open>JSON bodies\<close>

text \<open>
  Values of the type \<open>unknown\<close> that arrive as parsed JSON, with the accessors the validators use on
  them. An object is an association list in the order \<open>Object.entries\<close> yields; \<open>undefined\<close> is a value
  of its own because a missing field reads as it.
\<close>

datatype json =
    JUndef
  | JNull
  | JBool bool
  | JNum rat
  | JStr string
  | JArr "json list"
  | JObj "(string \<times> json) list"

fun jget :: "string \<Rightarrow> json \<Rightarrow> json" where
  "jget k (JObj m) = (case map_of m k of None \<Rightarrow> JUndef | Some v \<Rightarrow> v)"
| "jget k v = JUndef"

fun jhas :: "string \<Rightarrow> json \<Rightarrow> bool" where
  "jhas k (JObj m) = (map_of m k \<noteq> None)"
| "jhas k v = False"

fun truthy :: "json \<Rightarrow> bool" where
  "truthy JUndef = False"
| "truthy JNull = False"
| "truthy (JBool b) = b"
| "truthy (JNum x) = (x \<noteq> 0)"
| "truthy (JStr s) = (s \<noteq> [])"
| "truthy (JArr xs) = True"
| "truthy (JObj m) = True"

text \<open>\<open>typeof v = 'object'\<close> for a truthy \<open>v\<close>, with and without arrays.\<close>

fun is_object :: "json \<Rightarrow> bool" where
  "is_object (JObj m) = True"
| "is_object (JArr xs) = True"
| "is_object v = False"

fun is_plain_object :: "json \<Rightarrow> bool" where
  "is_plain_object (JObj m) = True"
| "is_plain_object v = False"

fun entries :: "json \<Rightarrow> (string \<times> json) list" where
  "entries (JObj m) = m"
| "entries v = []"

definition is_whole :: "rat \<Rightarrow> bool" where
  "is_whole x \<longleftrightarrow> of_int \<lfloor>x\<rfloor> = x"

fun whole_number :: "json \<Rightarrow> int option" where
  "whole_number (JNum x) = (if is_whole x then Some \<lfloor>x\<rfloor> else None)"
| "whole_number v = None"

lemma is_whole_of_int [simp]: "is_whole (of_int n)"
  by (simp add: is_whole_def)

lemma is_whole_iff: "is_whole x \<longleftrightarrow> (\<exists>n. x = of_int n)"
  by (auto simp: is_whole_def intro: sym)

lemma whole_number_Some: "whole_number v = Some n \<longleftrightarrow> v = JNum (of_int n)"
  by (cases v) (auto simp: is_whole_def)

lemma is_plain_object_iff: "is_plain_object v \<longleftrightarrow> (\<exists>m. v = JObj m)"
  by (cases v) auto

end
