(* ===== verification/Close_Discipline.thy ===== *)
theory Close_Discipline
  imports State_Machine Json_Value
begin

section \<open>The close discipline (src/domain/tickets/close-discipline.ts)\<close>

text \<open>
  The gate on resolving transitions: which items a transition's requirements find missing, the bar on
  resolution notes, the exemption vocabulary with its fall back, and the validator of the catalog an
  administrator edits. Sets of codes are lists; a JavaScript number that may be \<open>NaN\<close> or infinite is
  \<open>js_number\<close>.
\<close>

datatype js_number = Finite rat | Not_finite

record resolution_input =
  res_code :: "string option"
  res_notes :: "string option"
  res_article :: "string option"
  res_candidate :: bool
  res_exemption :: "string option"

definition no_resolution :: resolution_input where
  "no_resolution = \<lparr>res_code = None, res_notes = None, res_article = None, res_candidate = False,
     res_exemption = None\<rparr>"

record close_facts =
  logged_minutes :: int
  in_change_window :: bool
  no_solution_codes :: "string list"
  known_codes :: "string list"
  exemptions_configured :: "string list option"
  notes_bar_configured :: "js_number option"

datatype missing_item =
    Missing_resolution_code
  | Unknown_resolution_code
  | Missing_resolution_notes
  | Resolution_notes_too_short
  | Missing_solution_link
  | Missing_time_logged
  | Unknown_exemption_reason
  | Missing_pause_reason
  | Missing_change_window

definition default_exemption_reasons :: "(string \<times> string) list" where
  "default_exemption_reasons =
     [(''duplicate'', ''Duplicate of another ticket''),
      (''cancelled_by_client'', ''Cancelled by the client''),
      (''resolved_by_client'', ''Resolved by the client''),
      (''administrative_close'', ''Administrative close''),
      (''merged'', ''Merged into another ticket'')]"

definition default_min_notes_chars :: int where
  "default_min_notes_chars = 40"

record transition_input =
  ti_pause_reason :: "string option"
  ti_resolution :: "resolution_input option"

text \<open>\<open>undefined\<close>, \<open>null\<close> and the empty string are the falsy texts.\<close>

definition no_text :: "string option \<Rightarrow> bool" where
  "no_text s \<longleftrightarrow> s = None \<or> s = Some []"

definition trimmed :: "string option \<Rightarrow> string" where
  "trimmed s = (case s of None \<Rightarrow> [] | Some t \<Rightarrow> js_trim t)"

definition min_notes_chars :: "js_number option \<Rightarrow> int" where
  "min_notes_chars configured =
     (case configured of
        Some (Finite n) \<Rightarrow> if n < 0 then default_min_notes_chars else \<lfloor>n\<rfloor>
      | _ \<Rightarrow> default_min_notes_chars)"

definition allowed_exemptions :: "string list option \<Rightarrow> string list" where
  "allowed_exemptions configured =
     (case configured of
        None \<Rightarrow> map fst default_exemption_reasons
      | Some ks \<Rightarrow> if ks = [] then map fst default_exemption_reasons else ks)"

definition resolution_missing :: "resolution_input \<Rightarrow> close_facts \<Rightarrow> missing_item list" where
  "resolution_missing r facts =
     (if no_text (res_code r) then [Missing_resolution_code]
      else if the (res_code r) \<notin> set (known_codes facts) then [Unknown_resolution_code] else []) @
     (let notes = trimmed (res_notes r)
      in if notes = [] then [Missing_resolution_notes]
         else if int (length notes) < min_notes_chars (notes_bar_configured facts)
         then [Resolution_notes_too_short] else [])"

definition needs_no_solution :: "resolution_input \<Rightarrow> close_facts \<Rightarrow> bool" where
  "needs_no_solution r facts \<longleftrightarrow>
     \<not> no_text (res_code r) \<and> the (res_code r) \<in> set (no_solution_codes facts)"

definition time_missing :: "resolution_input \<Rightarrow> close_facts \<Rightarrow> missing_item list" where
  "time_missing r facts =
     (if logged_minutes facts \<le> 0 then
        let reason = trimmed (res_exemption r)
        in if reason = [] then [Missing_time_logged]
           else if reason \<notin> set (allowed_exemptions (exemptions_configured facts)) then [Unknown_exemption_reason]
           else []
      else [])"

definition check_requirements ::
    "requirement list \<Rightarrow> transition_input \<Rightarrow> close_facts \<Rightarrow> missing_item list" where
  "check_requirements reqs input facts =
     (let r = (case ti_resolution input of None \<Rightarrow> no_resolution | Some x \<Rightarrow> x)
      in (if Req_pause_reason \<in> set reqs \<and> no_text (ti_pause_reason input) then [Missing_pause_reason] else []) @
         (if Req_resolution \<in> set reqs then resolution_missing r facts else []) @
         (if Req_solution_link \<in> set reqs \<and> \<not> needs_no_solution r facts \<and>
             no_text (res_article r) \<and> \<not> res_candidate r then [Missing_solution_link] else []) @
         (if Req_time_logged \<in> set reqs then time_missing r facts else []) @
         (if Req_change_window \<in> set reqs \<and> \<not> in_change_window facts then [Missing_change_window] else []))"

subsection \<open>The catalog's validator\<close>

datatype discipline_problem =
    Body_not_object
  | Bar_out_of_range
  | Reasons_empty
  | Reason_key_bad nat
  | Reason_key_duplicate nat string
  | Reason_label_bad nat

definition key_ok :: "json \<Rightarrow> bool" where
  "key_ok v = (case v of JStr s \<Rightarrow> is_snake_case s | _ \<Rightarrow> False)"

definition text_of :: "json \<Rightarrow> string" where
  "text_of v = (case v of JStr s \<Rightarrow> s | _ \<Rightarrow> [])"

fun reason_problems :: "nat \<Rightarrow> string list \<Rightarrow> json list \<Rightarrow> discipline_problem list" where
  "reason_problems i seen [] = []"
| "reason_problems i seen (r # rs) =
     (let key = jget ''key'' r; label = jget ''label'' r;
          label_bad = (if js_trim (text_of label) = [] then [Reason_label_bad i] else [])
      in if \<not> key_ok key then Reason_key_bad i # label_bad @ reason_problems (Suc i) seen rs
         else if text_of key \<in> set seen
         then Reason_key_duplicate i (text_of key) # label_bad @ reason_problems (Suc i) seen rs
         else label_bad @ reason_problems (Suc i) (text_of key # seen) rs)"

definition validate_close_discipline :: "json \<Rightarrow> discipline_problem list" where
  "validate_close_discipline body =
     (if \<not> is_object body then [Body_not_object]
      else
        let bar = jget ''min_resolution_notes_chars'' body; reasons = jget ''time_exemption_reasons'' body
        in (if bar = JUndef then []
            else case whole_number bar of
                   None \<Rightarrow> [Bar_out_of_range]
                 | Some n \<Rightarrow> if n < 0 \<or> n > 4000 then [Bar_out_of_range] else []) @
           (case reasons of
              JUndef \<Rightarrow> []
            | JArr rs \<Rightarrow> if rs = [] then [Reasons_empty] else reason_problems 0 [] rs
            | _ \<Rightarrow> [Reasons_empty]))"

subsection \<open>Lemmas\<close>

lemma default_bar [simp]: "min_notes_chars None = 40"
  by (simp add: min_notes_chars_def default_min_notes_chars_def)

lemma min_notes_chars_nonneg: "0 \<le> min_notes_chars c"
  by (auto simp: min_notes_chars_def default_min_notes_chars_def split: option.split js_number.split)

lemma allowed_exemptions_ne: "allowed_exemptions c \<noteq> []"
  by (auto simp: allowed_exemptions_def default_exemption_reasons_def split: option.split)

lemma no_text_trimmed: "no_text s \<Longrightarrow> trimmed s = []"
  by (auto simp: no_text_def trimmed_def)

lemma resolution_missing_Nil_iff:
  "resolution_missing r facts = [] \<longleftrightarrow>
     (\<exists>code. res_code r = Some code \<and> code \<noteq> [] \<and> code \<in> set (known_codes facts)) \<and>
     trimmed (res_notes r) \<noteq> [] \<and>
     min_notes_chars (notes_bar_configured facts) \<le> int (length (trimmed (res_notes r)))"
  by (cases "res_code r") (auto simp: resolution_missing_def no_text_def Let_def)

lemma time_missing_Nil_iff:
  "time_missing r facts = [] \<longleftrightarrow>
     0 < logged_minutes facts \<or>
     trimmed (res_exemption r) \<noteq> [] \<and>
     trimmed (res_exemption r) \<in> set (allowed_exemptions (exemptions_configured facts))"
  by (auto simp: time_missing_def Let_def)

lemma reason_problems_Nil:
  "reason_problems i seen rs = [] \<Longrightarrow>
     (\<forall>r\<in>set rs. is_snake_case (text_of (jget ''key'' r)) \<and> js_trim (text_of (jget ''label'' r)) \<noteq> []) \<and>
     distinct (map (\<lambda>r. text_of (jget ''key'' r)) rs) \<and>
     set (map (\<lambda>r. text_of (jget ''key'' r)) rs) \<inter> set seen = {}"
proof (induction i seen rs rule: reason_problems.induct)
  case (2 i seen r rs)
  let ?k = "text_of (jget ''key'' r)"
  have k: "key_ok (jget ''key'' r)" "?k \<notin> set seen" "js_trim (text_of (jget ''label'' r)) \<noteq> []"
      "reason_problems (Suc i) (?k # seen) rs = []"
    using 2(4) by (auto simp: Let_def split: if_splits)
  have "is_snake_case ?k"
    using k(1) by (auto simp: key_ok_def text_of_def split: json.splits)
  moreover note 2(3) [OF refl refl refl]
  ultimately show ?case using k by auto
qed simp

text \<open>What an accepted catalog configures, as the facts the gate is given.\<close>

definition configured_reasons :: "json \<Rightarrow> string list option" where
  "configured_reasons body =
     (case jget ''time_exemption_reasons'' body of
        JArr rs \<Rightarrow> Some (map (\<lambda>r. text_of (jget ''key'' r)) rs) | _ \<Rightarrow> None)"

lemma accepted_catalog:
  assumes "validate_close_discipline body = []"
  shows "\<forall>k\<in>set (allowed_exemptions (configured_reasons body)). is_snake_case k"
    and "distinct (allowed_exemptions (configured_reasons body))"
proof -
  show "\<forall>k\<in>set (allowed_exemptions (configured_reasons body)). is_snake_case k"
  proof (cases "jget ''time_exemption_reasons'' body")
    case (JArr rs)
    then have "reason_problems 0 [] rs = []" "rs \<noteq> []"
      using assms by (auto simp: validate_close_discipline_def Let_def split: if_splits)
    with reason_problems_Nil [of 0 "[]" rs] JArr show ?thesis
      by (auto simp: configured_reasons_def allowed_exemptions_def)
  qed (simp_all add: configured_reasons_def allowed_exemptions_def default_exemption_reasons_def js_defs Let_def)
  show "distinct (allowed_exemptions (configured_reasons body))"
  proof (cases "jget ''time_exemption_reasons'' body")
    case (JArr rs)
    then have "reason_problems 0 [] rs = []" "rs \<noteq> []"
      using assms by (auto simp: validate_close_discipline_def Let_def split: if_splits)
    with reason_problems_Nil [of 0 "[]" rs] JArr show ?thesis
      by (auto simp: configured_reasons_def allowed_exemptions_def)
  qed (simp_all add: configured_reasons_def allowed_exemptions_def default_exemption_reasons_def)
qed

subsection \<open>Properties\<close>

text \<open>C10: The close discipline (domain invariant 6): the gate lets a transition with the three resolving
  requirements through exactly when the resolution has a known code, notes that reach the bar after
  trimming, a solution link or candidate unless the code needs none, and time logged or, with
  nothing logged, one of the exemption reasons in force.\<close>

theorem close_discipline_gate:
  "check_requirements [Req_resolution, Req_solution_link, Req_time_logged] \<lparr>ti_pause_reason = p, ti_resolution = Some r\<rparr> facts = []
   \<longleftrightarrow>
     (\<exists>code. res_code r = Some code \<and> code \<noteq> [] \<and> code \<in> set (known_codes facts) \<and>
        (code \<in> set (no_solution_codes facts) \<or> (\<exists>a. res_article r = Some a \<and> a \<noteq> []) \<or> res_candidate r)) \<and>
     trimmed (res_notes r) \<noteq> [] \<and>
     min_notes_chars (notes_bar_configured facts) \<le> int (length (trimmed (res_notes r))) \<and>
     (0 < logged_minutes facts \<or>
      trimmed (res_exemption r) \<in> set (allowed_exemptions (exemptions_configured facts)) - {[]})"
  by (cases "res_article r")
    (auto simp: check_requirements_def Let_def resolution_missing_Nil_iff time_missing_Nil_iff
      needs_no_solution_def no_text_def)

text \<open>A missing or malformed catalog never opens the gate: whatever catalog the validator accepted, and
  with none at all, a ticket with no minutes logged passes the time requirement only with one of a
  non-empty list of distinct lower snake case reasons.\<close>

theorem exemption_never_open:
  assumes "validate_close_discipline body = []"
    and "exemptions_configured facts = configured_reasons body \<or> exemptions_configured facts = None"
    and "logged_minutes facts \<le> 0" "Req_time_logged \<in> set reqs"
    and "check_requirements reqs input facts = []"
  shows "\<exists>r k. ti_resolution input = Some r \<and> trimmed (res_exemption r) = k \<and> is_snake_case k \<and>
    k \<in> set (allowed_exemptions (exemptions_configured facts)) \<and>
    distinct (allowed_exemptions (exemptions_configured facts))"
proof -
  have cfg: "(\<forall>k\<in>set (allowed_exemptions (exemptions_configured facts)). is_snake_case k) \<and>
      distinct (allowed_exemptions (exemptions_configured facts))"
    using assms(2)
  proof
    assume "exemptions_configured facts = configured_reasons body"
    with accepted_catalog [OF assms(1)] show ?thesis by simp
  next
    assume "exemptions_configured facts = None"
    then show ?thesis
      by (simp add: allowed_exemptions_def default_exemption_reasons_def js_defs Let_def)
  qed
  obtain r where r: "ti_resolution input = Some r \<or> r = no_resolution" "time_missing r facts = []"
    using assms(4,5) by (cases "ti_resolution input") (auto simp: check_requirements_def Let_def)
  with assms(3) have k: "trimmed (res_exemption r) \<noteq> []"
      "trimmed (res_exemption r) \<in> set (allowed_exemptions (exemptions_configured facts))"
    by (auto simp: time_missing_Nil_iff)
  have "r \<noteq> no_resolution" using k(1) by (auto simp: no_resolution_def trimmed_def)
  with r(1) k cfg show ?thesis by blast
qed

theorem exemption_never_open_witness:
  "\<exists>r k. ti_resolution \<lparr>ti_pause_reason = None, ti_resolution = Some (no_resolution\<lparr>res_exemption := Some '' merged''\<rparr>)\<rparr> = Some r \<and>
    trimmed (res_exemption r) = k \<and> is_snake_case k \<and> k \<in> set (allowed_exemptions None) \<and>
    distinct (allowed_exemptions None)"
  using exemption_never_open [of "JObj [(''min_resolution_notes_chars'', JNum 10)]"
      "\<lparr>logged_minutes = 0, in_change_window = False, no_solution_codes = [], known_codes = [],
        exemptions_configured = None, notes_bar_configured = None\<rparr>" "[Req_time_logged]"
      "\<lparr>ti_pause_reason = None, ti_resolution = Some (no_resolution\<lparr>res_exemption := Some '' merged''\<rparr>)\<rparr>"]
  by (simp add: validate_close_discipline_def is_whole_def check_requirements_def time_missing_def trimmed_def
      js_defs no_resolution_def allowed_exemptions_def default_exemption_reasons_def)

end
