(* ===== verification/Civil_Date.thy ===== *)
theory Civil_Date
  imports Prelude
begin

section \<open>Calendar dates: the ECMAScript date algorithms\<close>

text \<open>
  The sources keep a local date as an ISO string \<open>YYYY-MM-DD\<close> and move it through
  \<open>new Date(`${date}T00:00:00Z`).getTime()\<close>, additions of 86400000 and
  \<open>toISOString().slice(0, 10)\<close>. A date is modelled as the triple the string spells, ordered
  lexicographically (which for four-digit years is the order of the strings), and the language's
  Day, Year, Month, Date, WeekDay and MakeDay functions are written out on day numbers (days since
  1970-01-01). The theorems: the two conversions are inverse on valid dates, the order of the
  triples is the order of the day numbers, and the day loop the sources repeat yields every date of
  the range once, ascending.
\<close>

datatype ymd = Ymd (yr: int) (mon: int) (mday: int)

instantiation ymd :: linorder
begin

definition less_ymd :: "ymd \<Rightarrow> ymd \<Rightarrow> bool" where
  "less_ymd a b \<longleftrightarrow>
     yr a < yr b \<or> (yr a = yr b \<and> (mon a < mon b \<or> (mon a = mon b \<and> mday a < mday b)))"

definition less_eq_ymd :: "ymd \<Rightarrow> ymd \<Rightarrow> bool" where
  "less_eq_ymd a b \<longleftrightarrow> a = b \<or> a < (b :: ymd)"

instance
proof
  fix x y z :: ymd
  show "(x < y) = (x \<le> y \<and> \<not> y \<le> x)"
    by (cases x; cases y) (auto simp: less_ymd_def less_eq_ymd_def)
  show "x \<le> x"
    by (simp add: less_eq_ymd_def)
  show "x \<le> y \<Longrightarrow> y \<le> z \<Longrightarrow> x \<le> z"
    by (cases x; cases y; cases z) (auto simp: less_ymd_def less_eq_ymd_def)
  show "x \<le> y \<Longrightarrow> y \<le> x \<Longrightarrow> x = y"
    by (cases x; cases y) (auto simp: less_ymd_def less_eq_ymd_def)
  show "x \<le> y \<or> y \<le> x"
    by (cases x; cases y) (auto simp: less_ymd_def less_eq_ymd_def)
qed

end

subsection \<open>Years\<close>

definition leap :: "int \<Rightarrow> bool" where
  "leap y \<longleftrightarrow> (y mod 4 = 0 \<and> y mod 100 \<noteq> 0) \<or> y mod 400 = 0"

definition year_length :: "int \<Rightarrow> int" where
  "year_length y = (if leap y then 366 else 365)"

definition day_from_year :: "int \<Rightarrow> int" where
  "day_from_year y = 365 * (y - 1970) + (y - 1969) div 4 - (y - 1901) div 100 + (y - 1601) div 400"

definition year_of_day :: "int \<Rightarrow> int" where
  "year_of_day n =
     (let g = 1970 + (n * 400) div 146097
      in if n < day_from_year g then g - 1
         else if day_from_year (g + 1) \<le> n then g + 1 else g)"

lemma div_succ:
  fixes x n :: int
  assumes "1 < n"
  shows "(x + 1) div n = x div n + (if (x + 1) mod n = 0 then 1 else 0)"
proof -
  have eq: "(x + 1) div n = x div n + (x mod n + 1) div n"
    using assms div_add1_eq [of x 1 n] by simp
  have m: "(x + 1) mod n = (x mod n + 1) mod n"
    by (simp add: mod_add_left_eq)
  have r: "0 \<le> x mod n" "x mod n < n"
    using assms by simp_all
  show ?thesis
  proof (cases "x mod n + 1 = n")
    case True
    then show ?thesis using assms by (simp add: eq m)
  next
    case False
    with r have "x mod n + 1 < n" by simp
    with r show ?thesis by (simp add: eq m)
  qed
qed

lemma mod_shift: "n dvd a \<Longrightarrow> (y - a) mod n = 0 \<longleftrightarrow> y mod n = (0::int)"
  by (metis mod_0_imp_dvd dvd_diff_right_iff dvd_imp_mod_0 mod_eq_0_iff_dvd dvd_diff_commute)

lemma div_step:
  fixes y a n :: int
  assumes "1 < n" "n dvd a"
  shows "(y - a) div n = (y - (a + 1)) div n + (if y mod n = 0 then 1 else 0)"
proof -
  have "y - (a + 1) + 1 = y - a" by simp
  then show ?thesis
    using div_succ [OF assms(1), of "y - (a + 1)"] mod_shift [OF assms(2), of y] by simp
qed

lemma mod_400_100: "y mod 400 = 0 \<Longrightarrow> y mod 100 = (0::int)"
  using dvd_trans [of 100 400 y] by (simp add: mod_eq_0_iff_dvd)

lemma mod_100_4: "y mod 100 = 0 \<Longrightarrow> y mod 4 = (0::int)"
  using dvd_trans [of 4 100 y] by (simp add: mod_eq_0_iff_dvd)

lemma year_step_arith:
  fixes A B C A' B' C' y:: int
  assumes "A = A' + (if p then 1 else 0)" "B = B' + (if q then 1 else 0)" "C = C' + (if r then 1 else 0)"
  "r \<Longrightarrow> q" "q \<Longrightarrow> p"
  shows "365 * (y - 1969) + A - B + C = 365 * (y - 1970) + A' - B' + C' + (if (p \<and> \<not> q) \<or> r then 366 else 365)"
  using assms by (cases p; cases q; cases r) simp_all
lemma day_from_year_Suc: "day_from_year (y + 1) = day_from_year y + year_length y"
proof -
  have "day_from_year (y + 1) = 365 * (y - 1969) + (y - 1968) div 4 - (y - 1900) div 100 + (y - 1600) div 400"
    by (simp add: day_from_year_def)
  also have "\<dots> = 365 * (y - 1970) + (y - (1968 + 1)) div 4 - (y - (1900 + 1)) div 100 + (y - (1600 + 1)) div 400
      + (if (y mod 4 = 0 \<and> \<not> y mod 100 = 0) \<or> y mod 400 = 0 then 366 else 365)"
    by (rule year_step_arith) (rule div_step mod_400_100 mod_100_4; simp)+
  finally show ?thesis
    by (simp only: day_from_year_def [of y] year_length_def leap_def) simp
qed

lemma year_length_pos: "365 \<le> year_length y" "year_length y \<le> 366"
  by (simp_all add: year_length_def)

lemma day_from_year_add: "day_from_year y + int k \<le> day_from_year (y + int k)"
proof (induction k)
  case (Suc k)
  have "day_from_year (y + int (Suc k)) = day_from_year (y + int k) + year_length (y + int k)"
    using day_from_year_Suc [of "y + int k"] by (simp add: algebra_simps)
  with Suc year_length_pos(1) [of "y + int k"] show ?case by simp
qed simp

lemma day_from_year_mono: "x \<le> y \<Longrightarrow> day_from_year x \<le> day_from_year y"
  using day_from_year_add [of x "nat (y - x)"] by simp

lemma mult_div_bounds:
  fixes n x :: int
  assumes "0 < n"
  shows "n * (x div n) \<le> x" "x - n + 1 \<le> n * (x div n)"
  using pos_mod_bound [OF assms, of x] pos_mod_sign [OF assms, of x] by (simp_all flip: minus_mod_eq_mult_div)

lemma day_from_year_estimate:
  "146097 * k - 506 \<le> 400 * day_from_year (1970 + k)"
  "400 * day_from_year (1970 + k) \<le> 146097 * k + 589"
proof -
  have "k - 2 \<le> 4 * ((k + 1) div 4)" "4 * ((k + 1) div 4) \<le> k + 1"
    using mult_div_bounds [of 4 "k + 1"] by simp_all
  moreover have "k - 30 \<le> 100 * ((k + 69) div 100)" "100 * ((k + 69) div 100) \<le> k + 69"
    using mult_div_bounds [of 100 "k + 69"] by simp_all
  moreover have "k - 30 \<le> 400 * ((k + 369) div 400)" "400 * ((k + 369) div 400) \<le> k + 369"
    using mult_div_bounds [of 400 "k + 369"] by simp_all
  moreover have "day_from_year (1970 + k) = 365 * k + (k + 1) div 4 - (k + 69) div 100 + (k + 369) div 400"
    by (simp add: day_from_year_def add.commute)
  ultimately show "146097 * k - 506 \<le> 400 * day_from_year (1970 + k)"
    "400 * day_from_year (1970 + k) \<le> 146097 * k + 589"
    by linarith+
qed

lemma year_of_day_bounds:
  "day_from_year (year_of_day n) \<le> n" "n < day_from_year (year_of_day n + 1)"
proof -
  let ?k = "(n * 400) div 146097" let ?g = "1970 + ?k"
  have k: "146097 * ?k \<le> 400 * n" "400 * n < 146097 * (?k + 1)"
    using mult_div_bounds [of 146097 "n * 400"] by simp_all
  have lo: "day_from_year (?g - 1) \<le> n"
    using day_from_year_estimate(2) [of "?k - 1"] k by (simp add: algebra_simps)
  have hi: "n < day_from_year (?g + 2)"
    using day_from_year_estimate(1) [of "?k + 2"] k by (simp add: algebra_simps)
  show "day_from_year (year_of_day n) \<le> n" "n < day_from_year (year_of_day n + 1)"
    using lo hi by (auto simp: year_of_day_def Let_def add.commute)
qed

lemma year_of_day_unique:
  assumes "day_from_year y \<le> n" and "n < day_from_year (y + 1)"
  shows "year_of_day n = y"
proof (rule ccontr)
  assume "year_of_day n \<noteq> y"
  then consider "year_of_day n + 1 \<le> y" | "y + 1 \<le> year_of_day n" by linarith
  then show False
    using day_from_year_mono year_of_day_bounds [of n] assms by cases fastforce+
qed

subsection \<open>Months\<close>

text \<open>Days of the year before the first of the month (1-based month).\<close>

definition month_start :: "int \<Rightarrow> int \<Rightarrow> int" where
  "month_start y m =
     (if m \<le> 1 then 0 else if m = 2 then 31
      else (if leap y then 1 else 0) +
        (if m = 3 then 59 else if m = 4 then 90 else if m = 5 then 120 else if m = 6 then 151
         else if m = 7 then 181 else if m = 8 then 212 else if m = 9 then 243
         else if m = 10 then 273 else if m = 11 then 304 else if m = 12 then 334 else 365))"

definition month_length :: "int \<Rightarrow> int \<Rightarrow> int" where
  "month_length y m = month_start y (m + 1) - month_start y m"

definition valid_ymd :: "ymd \<Rightarrow> bool" where
  "valid_ymd d \<longleftrightarrow> 1 \<le> mon d \<and> mon d \<le> 12 \<and> 1 \<le> mday d \<and> mday d \<le> month_length (yr d) (mon d)"

definition day_number :: "ymd \<Rightarrow> int" where
  "day_number d = day_from_year (yr d) + month_start (yr d) (mon d) + mday d - 1"

definition month_of :: "int \<Rightarrow> int \<Rightarrow> int" where
  "month_of y r =
     (if r < month_start y 2 then 1 else if r < month_start y 3 then 2
      else if r < month_start y 4 then 3 else if r < month_start y 5 then 4
      else if r < month_start y 6 then 5 else if r < month_start y 7 then 6
      else if r < month_start y 8 then 7 else if r < month_start y 9 then 8
      else if r < month_start y 10 then 9 else if r < month_start y 11 then 10
      else if r < month_start y 12 then 11 else 12)"

definition civil :: "int \<Rightarrow> ymd" where
  "civil n =
     (let y = year_of_day n; r = n - day_from_year y; m = month_of y r
      in Ymd y m (r - month_start y m + 1))"

definition weekday :: "int \<Rightarrow> int" where
  "weekday n = (n + 4) mod 7"
  \<comment> \<open>\<open>getUTCDay\<close>: 0 is Sunday\<close>

lemma month_start_values:
  "month_start y 1 = 0" "month_start y 2 = 31"
  "month_start y 3 = 59 + (if leap y then 1 else 0)" "month_start y 4 = 90 + (if leap y then 1 else 0)"
  "month_start y 5 = 120 + (if leap y then 1 else 0)" "month_start y 6 = 151 + (if leap y then 1 else 0)"
  "month_start y 7 = 181 + (if leap y then 1 else 0)" "month_start y 8 = 212 + (if leap y then 1 else 0)"
  "month_start y 9 = 243 + (if leap y then 1 else 0)" "month_start y 10 = 273 + (if leap y then 1 else 0)"
  "month_start y 11 = 304 + (if leap y then 1 else 0)" "month_start y 12 = 334 + (if leap y then 1 else 0)"
  "month_start y 13 = year_length y"
  by (simp_all add: month_start_def year_length_def)

lemma months_range: "1 \<le> m \<Longrightarrow> m \<le> 12 \<Longrightarrow> m \<in> {1, 2, 3, 4, 5, 6, 7, 8, 9, 10, 11, 12 :: int}"
  by simp arith

lemma month_of_bounds:
  assumes "0 \<le> r" "r < year_length y"
  shows "1 \<le> month_of y r" "month_of y r \<le> 12"
    "month_start y (month_of y r) \<le> r" "r < month_start y (month_of y r + 1)"
  using assms by (auto simp: month_of_def month_start_values)

lemma month_of_unique:
  assumes "1 \<le> m" "m \<le> 12" "month_start y m \<le> r" "r < month_start y (m + 1)"
  shows "month_of y r = m"
  using months_range [OF assms(1,2)] assms(3,4)
  by (auto simp: month_of_def month_start_values split: if_splits)

lemma month_start_in_year:
  assumes "1 \<le> m" "m \<le> 12"
  shows "0 \<le> month_start y m" "month_start y (m + 1) \<le> year_length y"
  using months_range [OF assms] by (auto simp: month_start_values year_length_def)

lemma month_length_bounds: "1 \<le> m \<Longrightarrow> m \<le> 12 \<Longrightarrow> 28 \<le> month_length y m \<and> month_length y m \<le> 31"
  using months_range [of m] by (auto simp: month_length_def month_start_values year_length_def)

subsection \<open>The two conversions\<close>

lemma valid_civil [simp]: "valid_ymd (civil n)"
proof -
  have "0 \<le> n - day_from_year (year_of_day n)" "n - day_from_year (year_of_day n) < year_length (year_of_day n)"
    using year_of_day_bounds [of n] by (simp_all add: day_from_year_Suc)
  from month_of_bounds [OF this] show ?thesis
    by (simp add: civil_def valid_ymd_def Let_def month_length_def)
qed

lemma day_number_civil [simp]: "day_number (civil n) = n"
  by (simp add: civil_def day_number_def Let_def)

lemma day_number_in_year:
  assumes "valid_ymd d"
  shows "day_from_year (yr d) \<le> day_number d" "day_number d < day_from_year (yr d + 1)"
  using assms month_start_in_year [of "mon d" "yr d"]
  by (auto simp: valid_ymd_def day_number_def month_length_def day_from_year_Suc)

lemma civil_day_number [simp]:
  assumes "valid_ymd d"
  shows "civil (day_number d) = d"
proof -
  have y: "year_of_day (day_number d) = yr d"
    using day_number_in_year [OF assms] by (rule year_of_day_unique)
  have "month_of (yr d) (day_number d - day_from_year (yr d)) = mon d"
    using assms by (intro month_of_unique) (auto simp: valid_ymd_def day_number_def month_length_def)
  with y show ?thesis
    by (simp add: civil_def Let_def day_number_def)
qed

lemma day_number_inj: "valid_ymd a \<Longrightarrow> valid_ymd b \<Longrightarrow> day_number a = day_number b \<Longrightarrow> a = b"
  by (metis civil_day_number)

lemma month_start_mono: "1 \<le> a \<Longrightarrow> a < b \<Longrightarrow> b \<le> 12 \<Longrightarrow> month_start y (a + 1) \<le> month_start y b"
  using months_range [of a] months_range [of b] by (auto simp: month_start_values)

lemma day_number_less:
  assumes "valid_ymd a" "valid_ymd b" "a < b"
  shows "day_number a < day_number b"
proof -
  consider "yr a < yr b" | "yr a = yr b" "mon a < mon b" | "yr a = yr b" "mon a = mon b" "mday a < mday b"
    using \<open>a < b\<close> by (auto simp: less_ymd_def)
  then show ?thesis
  proof cases
    case 1
    then show ?thesis
      using day_number_in_year [OF assms(1)] day_number_in_year [OF assms(2)]
        day_from_year_mono [of "yr a + 1" "yr b"] by linarith
  next
    case 2
    then show ?thesis
      using assms(1,2) month_start_mono [of "mon a" "mon b" "yr b"]
      by (auto simp: valid_ymd_def day_number_def month_length_def)
  next
    case 3
    then show ?thesis by (simp add: day_number_def)
  qed
qed

lemma day_number_less_iff: "valid_ymd a \<Longrightarrow> valid_ymd b \<Longrightarrow> day_number a < day_number b \<longleftrightarrow> a < b"
  by (metis day_number_less less_irrefl linorder_neqE order.asym)

lemma day_number_le_iff: "valid_ymd a \<Longrightarrow> valid_ymd b \<Longrightarrow> day_number a \<le> day_number b \<longleftrightarrow> a \<le> b"
  by (meson day_number_less_iff linorder_not_le)

lemma civil_less_iff [simp]: "civil m < civil n \<longleftrightarrow> m < n"
  using day_number_less_iff [of "civil m" "civil n"] by simp

lemma civil_le_iff [simp]: "civil m \<le> civil n \<longleftrightarrow> m \<le> n"
  using day_number_le_iff [of "civil m" "civil n"] by simp

lemma civil_eq_iff [simp]: "civil m = civil n \<longleftrightarrow> m = n"
  by (metis day_number_civil)

subsection \<open>Instants\<close>

definition day_ms :: int where
  "day_ms = 86400000"

definition midnight :: "ymd \<Rightarrow> ms" where
  "midnight d = day_number d * 86400000"
  \<comment> \<open>\<open>new Date(`${d}T00:00:00Z`).getTime()\<close>\<close>

definition iso_day_of :: "ms \<Rightarrow> ymd" where
  "iso_day_of t = civil (t div 86400000)"
  \<comment> \<open>\<open>new Date(t).toISOString().slice(0, 10)\<close>\<close>

definition utc_weekday :: "ms \<Rightarrow> int" where
  "utc_weekday t = weekday (t div 86400000)"

text \<open>\<open>Date.UTC(year, month, day)\<close> with a zero-based month: months and days out of range roll over.\<close>

definition make_day :: "int \<Rightarrow> int \<Rightarrow> int \<Rightarrow> int" where
  "make_day y m d =
     (let ym = y + m div 12; mn = m mod 12 + 1 in day_from_year ym + month_start ym mn + d - 1)"

definition date_utc :: "int \<Rightarrow> int \<Rightarrow> int \<Rightarrow> ms" where
  "date_utc y m d = make_day y m d * 86400000"

lemma iso_day_of_midnight [simp]: "valid_ymd d \<Longrightarrow> iso_day_of (midnight d) = d"
  by (simp add: iso_day_of_def midnight_def)

lemma iso_day_of_midnight_add [simp]:
  "valid_ymd d \<Longrightarrow> iso_day_of (midnight d + k * 86400000) = civil (day_number d + k)"
proof -
  have "day_number d * 86400000 + k * 86400000 = (day_number d + k) * 86400000"
    by (simp add: algebra_simps)
  then show ?thesis by (simp add: iso_day_of_def midnight_def)
qed

lemma valid_iso_day_of [simp]: "valid_ymd (iso_day_of t)"
  by (simp add: iso_day_of_def)

lemma make_day_valid: "valid_ymd (Ymd y m d) \<Longrightarrow> make_day y (m - 1) d = day_number (Ymd y m d)"
  by (auto simp: valid_ymd_def make_day_def day_number_def)

lemma weekday_range: "0 \<le> weekday n" "weekday n < 7"
  by (simp_all add: weekday_def)

subsection \<open>The day loop\<close>

text \<open>
  \<open>while (cursor <= end) { yield iso(cursor); cursor += 86_400_000; }\<close>, which three source files
  repeat.
\<close>

function day_loop :: "ms \<Rightarrow> ms \<Rightarrow> ymd list" where
  "day_loop cursor limit = (if cursor \<le> limit then iso_day_of cursor # day_loop (cursor + 86400000) limit else [])"
  by pat_completeness auto
termination
  by (relation "measure (\<lambda>(cursor, limit). nat (limit - cursor + 1))") auto

declare day_loop.simps [simp del]

lemma day_loop_upto:
  "day_loop (a * 86400000) (b * 86400000) = map civil [a..b]"
proof (induction "nat (b - a + 1)" arbitrary: a)
  case 0
  then show ?case by (simp add: day_loop.simps)
next
  case (Suc k)
  then have "a \<le> b" "nat (b - (a + 1) + 1) = k" by simp_all
  moreover have "a * 86400000 + 86400000 = (a + 1) * 86400000" by simp
  ultimately show ?case
    using Suc(1) [of "a + 1"]
    by (simp add: day_loop.simps [of "a * 86400000"] iso_day_of_def upto_rec1)
qed

lemma day_loop_midnights: "day_loop (midnight f) (midnight t) = map civil [day_number f..day_number t]"
  by (simp add: midnight_def day_loop_upto)

lemma set_day_loop:
  assumes "valid_ymd f" "valid_ymd t"
  shows "set (day_loop (midnight f) (midnight t)) = {d. valid_ymd d \<and> f \<le> d \<and> d \<le> t}"
proof -
  have "d \<in> civil ` {day_number f..day_number t}" if "valid_ymd d" "f \<le> d" "d \<le> t" for d
    using that assms by (intro image_eqI [of _ _ "day_number d"]) (auto simp: day_number_le_iff)
  moreover have "valid_ymd (civil n) \<and> f \<le> civil n \<and> civil n \<le> t" if "n \<in> {day_number f..day_number t}" for n
    using that assms by (metis atLeastAtMost_iff civil_day_number civil_le_iff valid_civil)
  ultimately show ?thesis by (auto simp: day_loop_midnights)
qed

lemma sorted_day_loop: "sorted_wrt (<) (day_loop (midnight f) (midnight t))"
  by (simp add: day_loop_midnights sorted_wrt_map sorted_wrt_upto)

lemma length_day_loop: "length (day_loop (midnight f) (midnight t)) = nat (day_number t - day_number f + 1)"
  by (simp add: day_loop_midnights)

lemma distinct_day_loop: "distinct (day_loop (midnight f) (midnight t))"
  by (simp add: day_loop_midnights distinct_map inj_on_def)

end
