(* ===== verification/Sla_Engine.thy ===== *)
theory Sla_Engine
  imports Prelude
begin

section \<open>The SLA engine (src/domain/sla/engine.ts)\<close>

text \<open>
  Clocks and the operations on them, over a calendar. The \<open>Calendar\<close> interface of the source is the
  record \<open>calendar\<close>; because the business calendar's \<open>addMinutes\<close> may throw, its result is a sum,
  and the operations that call it pass the error on. What the engine relies on from a calendar is
  the locale \<open>working_calendar\<close>, whose parameter is the set of calendars in use; the lemmas that need
  those laws are proved inside it. The wall clock is defined here; the theory of business calendars
  interprets the locale for both.

  A \<open>Date\<close> is its time value; the view's ISO string of the due time is kept as that value.
\<close>

datatype calendar_error = No_working_hours string | No_working_time string

record calendar =
  cal_id :: string
  cal_add :: "ms \<Rightarrow> int \<Rightarrow> calendar_error + ms"
  cal_between :: "ms \<Rightarrow> ms \<Rightarrow> int"

definition wall_clock :: calendar where
  "wall_clock = \<lparr>cal_id = ''24x7'',
     cal_add = (\<lambda>from minutes. Inr (from + minutes * 60000)),
     cal_between = (\<lambda>a b. max 0 ((b - a) div 60000))\<rparr>"

datatype clock_kind = Response | Resolution

record clock =
  ck_kind :: clock_kind
  ck_policy_ref :: string
  ck_calendar_id :: string
  ck_target :: int
  ck_started :: ms
  ck_due :: ms
  ck_paused :: "ms option"
  ck_paused_total :: int
  ck_met :: "ms option"
  ck_breached :: "ms option"

record sla_targets =
  response_minutes :: "int option"
  resolution_minutes :: "int option"

subsection \<open>Operations\<close>

definition make_clock :: "string \<Rightarrow> calendar \<Rightarrow> ms \<Rightarrow> clock_kind \<Rightarrow> int \<Rightarrow> calendar_error + clock" where
  "make_clock policy cal now kind minutes =
     and_then (cal_add cal now minutes) (\<lambda>due. Inr
       \<lparr>ck_kind = kind, ck_policy_ref = policy, ck_calendar_id = cal_id cal, ck_target = minutes,
        ck_started = now, ck_due = due, ck_paused = None, ck_paused_total = 0,
        ck_met = None, ck_breached = None\<rparr>)"

definition positive_target :: "int option \<Rightarrow> int option" where
  "positive_target m = (case m of None \<Rightarrow> None | Some n \<Rightarrow> if n > 0 then Some n else None)"

definition start_clocks :: "sla_targets \<Rightarrow> string \<Rightarrow> calendar \<Rightarrow> ms \<Rightarrow> calendar_error + clock list" where
  "start_clocks targets policy cal now =
     and_then
       (case positive_target (response_minutes targets) of
          None \<Rightarrow> Inr []
        | Some n \<Rightarrow> and_then (make_clock policy cal now Response n) (\<lambda>c. Inr [c]))
       (\<lambda>cs. case positive_target (resolution_minutes targets) of
          None \<Rightarrow> Inr cs
        | Some n \<Rightarrow> and_then (make_clock policy cal now Resolution n) (\<lambda>c. Inr (cs @ [c])))"

definition is_live :: "clock \<Rightarrow> bool" where
  "is_live c \<longleftrightarrow> ck_met c = None \<and> ck_breached c = None"

definition latch :: "clock \<Rightarrow> ms \<Rightarrow> clock \<times> bool" where
  "latch c now =
     (if \<not> is_live c \<or> ck_paused c \<noteq> None then (c, False)
      else if now < ck_due c then (c, False)
      else (c\<lparr>ck_breached := Some now\<rparr>, True))"

definition pause_clock :: "clock \<Rightarrow> ms \<Rightarrow> clock" where
  "pause_clock c now =
     (if \<not> is_live c \<or> ck_paused c \<noteq> None then c else c\<lparr>ck_paused := Some now\<rparr>)"

definition resume_clock :: "clock \<Rightarrow> calendar \<Rightarrow> ms \<Rightarrow> calendar_error + clock \<times> int" where
  "resume_clock c cal now =
     (case ck_paused c of
        None \<Rightarrow> Inr (c, 0)
      | Some p \<Rightarrow>
          (let excluded = cal_between cal p now
           in and_then (cal_add cal (ck_due c) excluded) (\<lambda>due. Inr
                (c\<lparr>ck_paused := None, ck_paused_total := ck_paused_total c + excluded, ck_due := due\<rparr>,
                 excluded))))"

definition mark_met :: "clock \<Rightarrow> ms \<Rightarrow> clock" where
  "mark_met c now = (if ck_met c \<noteq> None then c else c\<lparr>ck_met := Some now\<rparr>)"

definition clock_reference :: "clock \<Rightarrow> ms \<Rightarrow> ms" where
  "clock_reference c now = (case ck_paused c of None \<Rightarrow> now | Some p \<Rightarrow> p)"

definition consumed_minutes :: "clock \<Rightarrow> calendar \<Rightarrow> ms \<Rightarrow> int" where
  "consumed_minutes c cal now =
     cal_between cal (ck_started c) (clock_reference c now) - ck_paused_total c"

definition restamp_for_priority :: "clock \<Rightarrow> int \<Rightarrow> calendar \<Rightarrow> ms \<Rightarrow> calendar_error + clock" where
  "restamp_for_priority c target cal now =
     (if \<not> is_live c then Inr c
      else
        (let remaining = max 0 (target - max 0 (consumed_minutes c cal now))
         in and_then (cal_add cal (clock_reference c now) remaining)
              (\<lambda>due. Inr (c\<lparr>ck_target := target, ck_due := due\<rparr>))))"

record clock_view =
  cv_kind :: clock_kind
  cv_due :: ms
  cv_remaining :: int
  cv_paused :: bool
  cv_breached :: bool
  cv_met :: bool
  cv_target :: int
  cv_paused_total :: int

definition remaining_minutes :: "clock \<Rightarrow> calendar \<Rightarrow> ms \<Rightarrow> int" where
  "remaining_minutes c cal now =
     (let reference = clock_reference c now
      in if ck_due c \<ge> reference then cal_between cal reference (ck_due c)
         else - cal_between cal (ck_due c) reference)"

definition view_clock :: "clock \<Rightarrow> calendar \<Rightarrow> ms \<Rightarrow> clock_view" where
  "view_clock c cal now =
     \<lparr>cv_kind = ck_kind c, cv_due = ck_due c, cv_remaining = remaining_minutes c cal now,
      cv_paused = (ck_paused c \<noteq> None), cv_breached = (ck_breached c \<noteq> None),
      cv_met = (ck_met c \<noteq> None), cv_target = ck_target c, cv_paused_total = ck_paused_total c\<rparr>"

lemmas clock_op_defs =
  latch_def pause_clock_def resume_clock_def mark_met_def restamp_for_priority_def is_live_def

subsection \<open>Latches\<close>

text \<open>A breach once recorded is never moved or cleared, whatever the operation.\<close>

lemma breached_kept [frame_simps]:
  assumes "ck_breached c = Some t"
  shows "ck_breached (fst (latch c now)) = Some t"
    and "ck_breached (pause_clock c now) = Some t"
    and "resume_clock c cal now = Inr (c', n) \<Longrightarrow> ck_breached c' = Some t"
    and "ck_breached (mark_met c now) = Some t"
    and "restamp_for_priority c target cal now = Inr c' \<Longrightarrow> ck_breached c' = Some t"
  using assms by (auto simp: clock_op_defs Let_def and_then_Inr split: option.splits)

lemma met_kept [frame_simps]:
  assumes "ck_met c = Some t"
  shows "ck_met (fst (latch c now)) = Some t"
    and "ck_met (pause_clock c now) = Some t"
    and "resume_clock c cal now = Inr (c', n) \<Longrightarrow> ck_met c' = Some t"
    and "ck_met (mark_met c now') = Some t"
    and "restamp_for_priority c target cal now = Inr c' \<Longrightarrow> ck_met c' = Some t"
  using assms by (auto simp: clock_op_defs Let_def and_then_Inr split: option.splits)

lemma latch_idem: "latch (fst (latch c now)) now' = (fst (latch c now), False)" if "snd (latch c now)"
  using that by (auto simp: latch_def is_live_def split: if_splits)

lemma latch_iff: "snd (latch c now) \<longleftrightarrow> is_live c \<and> ck_paused c = None \<and> ck_due c \<le> now"
  by (auto simp: latch_def)

lemma latch_kind [simp]: "ck_kind (fst (latch c now)) = ck_kind c"
  "ck_kind (pause_clock c now) = ck_kind c" "ck_kind (mark_met c now) = ck_kind c"
  by (simp_all add: clock_op_defs)

lemma resume_kind: "resume_clock c cal now = Inr (c', n) \<Longrightarrow> ck_kind c' = ck_kind c"
  by (auto simp: resume_clock_def Let_def and_then_Inr split: option.splits)

text \<open>The ordering rule: latching before pausing records the breach of an overdue clock, pausing first hides it.\<close>

lemma latch_then_pause_breaches:
  assumes "is_live c" "ck_paused c = None" "ck_due c \<le> now"
  shows "ck_breached (pause_clock (fst (latch c now)) now) = Some now"
    and "ck_paused (pause_clock (fst (latch c now)) now) = None"
  using assms by (simp_all add: latch_def pause_clock_def is_live_def)

lemma pause_then_latch_hides:
  assumes "is_live c" "ck_paused c = None"
  shows "fst (latch (pause_clock c now) now) = pause_clock c now \<and> ck_breached (pause_clock c now) = None"
  using assms by (simp add: latch_def pause_clock_def is_live_def)

subsection \<open>The calendar contract\<close>

locale working_calendar =
  fixes in_use :: "calendar \<Rightarrow> bool"
  assumes between_nonneg: "in_use cal \<Longrightarrow> 0 \<le> cal_between cal a b"
    and between_past: "in_use cal \<Longrightarrow> b \<le> a \<Longrightarrow> cal_between cal a b = 0"
    and add_zero: "in_use cal \<Longrightarrow> cal_add cal t 0 = Inr t"
    and add_forward: "in_use cal \<Longrightarrow> 0 \<le> n \<Longrightarrow> cal_add cal t n = Inr t' \<Longrightarrow> t \<le> t'"
    and between_add: "in_use cal \<Longrightarrow> 0 \<le> n \<Longrightarrow> cal_add cal t n = Inr t' \<Longrightarrow> cal_between cal t t' = n"

subsection \<open>The life of a clock\<close>

datatype clock_op =
    Op_latch ms
  | Op_pause ms
  | Op_resume ms
  | Op_met ms
  | Op_restamp int ms

fun op_time :: "clock_op \<Rightarrow> ms" where
  "op_time (Op_latch now) = now"
| "op_time (Op_pause now) = now"
| "op_time (Op_resume now) = now"
| "op_time (Op_met now) = now"
| "op_time (Op_restamp target now) = now"

fun clock_step :: "calendar \<Rightarrow> clock \<Rightarrow> clock_op \<Rightarrow> calendar_error + clock" where
  "clock_step cal c (Op_latch now) = Inr (fst (latch c now))"
| "clock_step cal c (Op_pause now) = Inr (pause_clock c now)"
| "clock_step cal c (Op_resume now) = and_then (resume_clock c cal now) (\<lambda>r. Inr (fst r))"
| "clock_step cal c (Op_met now) = Inr (mark_met c now)"
| "clock_step cal c (Op_restamp target now) = restamp_for_priority c target cal now"

fun run_clock :: "calendar \<Rightarrow> clock \<Rightarrow> clock_op list \<Rightarrow> calendar_error + clock" where
  "run_clock cal c [] = Inr c"
| "run_clock cal c (x # xs) = and_then (clock_step cal c x) (\<lambda>c'. run_clock cal c' xs)"

text \<open>
  The well-formedness of a clock at an instant: its due time is not before its start, a recorded
  breach is not before the due time, nothing it records lies in the future, a paused clock has not
  breached, and the excluded minutes are never negative.
\<close>

definition clock_inv :: "ms \<Rightarrow> clock \<Rightarrow> bool" where
  "clock_inv now c \<longleftrightarrow>
     ck_started c \<le> now \<and> ck_started c \<le> ck_due c \<and> 0 \<le> ck_paused_total c \<and>
     (\<forall>t. ck_breached c = Some t \<longrightarrow> ck_due c \<le> t \<and> t \<le> now) \<and>
     (\<forall>p. ck_paused c = Some p \<longrightarrow> ck_started c \<le> p \<and> p \<le> now \<and> ck_breached c = None)"

lemma clock_inv_later: "clock_inv now c \<Longrightarrow> now \<le> now' \<Longrightarrow> clock_inv now' c"
  by (fastforce simp: clock_inv_def)

lemma latch_inv [inv_intros]: "clock_inv now c \<Longrightarrow> clock_inv now (fst (latch c now))"
  by (auto simp: clock_inv_def latch_def is_live_def)

lemma pause_inv [inv_intros]: "clock_inv now c \<Longrightarrow> clock_inv now (pause_clock c now)"
  by (auto simp: clock_inv_def pause_clock_def is_live_def)

lemma met_inv [inv_intros]: "clock_inv now c \<Longrightarrow> clock_inv now (mark_met c now)"
  by (auto simp: clock_inv_def mark_met_def)

context working_calendar
begin

lemma make_inv:
  assumes "in_use cal" "0 < n" "make_clock policy cal now kind n = Inr c"
  shows "clock_inv now c \<and> is_live c \<and> ck_paused c = None \<and> 0 < ck_target c \<and>
    cal_between cal (ck_started c) (ck_due c) = ck_target c"
proof -
  from assms(3) obtain due where due: "cal_add cal now n = Inr due"
    and c: "c = \<lparr>ck_kind = kind, ck_policy_ref = policy, ck_calendar_id = cal_id cal, ck_target = n,
        ck_started = now, ck_due = due, ck_paused = None, ck_paused_total = 0,
        ck_met = None, ck_breached = None\<rparr>"
    by (auto simp: make_clock_def and_then_Inr)
  have "now \<le> due" "cal_between cal now due = n"
    using add_forward [OF assms(1) _ due] between_add [OF assms(1) _ due] assms(2) by simp_all
  with assms(2) show ?thesis by (simp add: c clock_inv_def is_live_def)
qed

lemma start_inv:
  assumes "in_use cal" "start_clocks targets policy cal now = Inr cs" "c \<in> set cs"
  shows "clock_inv now c \<and> is_live c \<and> ck_paused c = None \<and> 0 < ck_target c \<and>
    cal_between cal (ck_started c) (ck_due c) = ck_target c"
proof -
  from assms(2,3) obtain kind n where "0 < n" "make_clock policy cal now kind n = Inr c"
    by (auto simp: start_clocks_def positive_target_def and_then_Inr split: option.splits if_splits)
  with make_inv [OF assms(1)] show ?thesis by blast
qed

lemma resume_inv:
  assumes "in_use cal" "clock_inv now c" "resume_clock c cal now = Inr (c', n)"
  shows "clock_inv now c'"
proof (cases "ck_paused c")
  case None
  with assms show ?thesis by (simp add: resume_clock_def)
next
  case (Some p)
  from assms(3) Some obtain due where due: "cal_add cal (ck_due c) (cal_between cal p now) = Inr due"
    and c': "c' = c\<lparr>ck_paused := None, ck_paused_total := ck_paused_total c + cal_between cal p now, ck_due := due\<rparr>"
    by (auto simp: resume_clock_def Let_def and_then_Inr)
  have "ck_due c \<le> due" "0 \<le> cal_between cal p now"
    using add_forward [OF assms(1) _ due] between_nonneg [OF assms(1)] by simp_all
  with assms(2) Some show ?thesis by (auto simp: clock_inv_def c')
qed

lemma restamp_inv:
  assumes "in_use cal" "clock_inv now c" "restamp_for_priority c target cal now = Inr c'"
  shows "clock_inv now c'"
proof (cases "is_live c")
  case False
  with assms show ?thesis by (simp add: restamp_for_priority_def)
next
  case True
  let ?r = "max 0 (target - max 0 (consumed_minutes c cal now))"
  from assms(3) True obtain due where due: "cal_add cal (clock_reference c now) ?r = Inr due"
    and c': "c' = c\<lparr>ck_target := target, ck_due := due\<rparr>"
    by (auto simp: restamp_for_priority_def Let_def and_then_Inr)
  have "clock_reference c now \<le> due"
    using add_forward [OF assms(1) _ due] by simp
  with assms(2) True show ?thesis
    by (auto simp: clock_inv_def c' clock_reference_def is_live_def split: option.splits)
qed

lemma step_inv:
  assumes "in_use cal" "clock_inv t c" "t \<le> op_time x" "clock_step cal c x = Inr c'"
  shows "clock_inv (op_time x) c'"
proof -
  have "clock_inv (op_time x) c" using assms(2,3) by (rule clock_inv_later)
  with assms show ?thesis
    by (cases x) (auto simp: and_then_Inr intro: inv_intros resume_inv restamp_inv)
qed

lemma run_inv:
  "in_use cal \<Longrightarrow> clock_inv t c \<Longrightarrow> sorted (t # map op_time xs) \<Longrightarrow> run_clock cal c xs = Inr c' \<Longrightarrow>
     clock_inv (last (t # map op_time xs)) c'"
proof (induction xs arbitrary: t c)
  case (Cons x xs)
  from Cons.prems obtain d where d: "clock_step cal c x = Inr d" "run_clock cal d xs = Inr c'"
    by (auto simp: and_then_Inr)
  have "clock_inv (op_time x) d"
    using step_inv [OF Cons.prems(1,2) _ d(1)] Cons.prems(3) by simp
  from Cons.IH [OF Cons.prems(1) this _ d(2)] Cons.prems(3) show ?case by simp
qed simp

text \<open>What a restamp leaves on the clock: the new target less the minutes consumed.\<close>

lemma restamp_remaining:
  assumes "in_use cal" "is_live c" "restamp_for_priority c target cal now = Inr c'"
  shows "remaining_minutes c' cal now = max 0 (target - max 0 (consumed_minutes c cal now))"
proof -
  let ?r = "max 0 (target - max 0 (consumed_minutes c cal now))"
  from assms(2,3) obtain due where due: "cal_add cal (clock_reference c now) ?r = Inr due"
    and c': "c' = c\<lparr>ck_target := target, ck_due := due\<rparr>"
    by (auto simp: restamp_for_priority_def Let_def and_then_Inr)
  have "clock_reference c now \<le> due" "cal_between cal (clock_reference c now) due = ?r"
    using add_forward [OF assms(1) _ due] between_add [OF assms(1) _ due] by simp_all
  then show ?thesis
    by (simp add: remaining_minutes_def c' clock_reference_def)
qed

text \<open>What a resume excludes is what the due time moves by, in the calendar's own minutes.\<close>

lemma resume_shift:
  assumes "in_use cal" "resume_clock c cal now = Inr (c', n)"
  shows "0 \<le> n \<and> ck_due c \<le> ck_due c' \<and> cal_between cal (ck_due c) (ck_due c') = n \<and>
    ck_paused_total c' = ck_paused_total c + n \<and> ck_paused c' = None"
proof (cases "ck_paused c")
  case None
  with assms show ?thesis by (simp add: resume_clock_def between_past)
next
  case (Some p)
  with assms(2) obtain due where due: "cal_add cal (ck_due c) (cal_between cal p now) = Inr due"
    and r: "c' = c\<lparr>ck_paused := None, ck_paused_total := ck_paused_total c + cal_between cal p now, ck_due := due\<rparr>"
      "n = cal_between cal p now"
    by (auto simp: resume_clock_def Let_def and_then_Inr)
  have "0 \<le> cal_between cal p now" using assms(1) by (rule between_nonneg)
  with add_forward [OF assms(1) _ due] between_add [OF assms(1) _ due] show ?thesis
    by (simp add: r)
qed

end

lemma step_breached_kept:
  "ck_breached c = Some t \<Longrightarrow> clock_step cal c x = Inr d \<Longrightarrow> ck_breached d = Some t"
  by (cases x) (auto simp: clock_op_defs Let_def and_then_Inr split: option.splits if_splits)

lemma run_breached_kept:
  "ck_breached c = Some t \<Longrightarrow> run_clock cal c xs = Inr c' \<Longrightarrow> ck_breached c' = Some t"
proof (induction xs arbitrary: c)
  case (Cons x xs)
  from Cons.prems obtain d where d: "clock_step cal c x = Inr d" "run_clock cal d xs = Inr c'"
    by (auto simp: and_then_Inr)
  with step_breached_kept [OF Cons.prems(1) d(1)] show ?case by (intro Cons.IH)
qed simp

end
