(* ===== verification/Business_Calendar.thy ===== *)
theory Business_Calendar
  imports Civil_Date Sla_Engine
begin

section \<open>Business calendars (src/domain/calendar/business-calendar.ts)\<close>

text \<open>
  Working hours per weekday in a time zone, a holiday set, and the two operations the SLA engine
  needs. The zone database behind \<open>Intl\<close> is not part of the repository: a zone is a parameter, the
  function from an instant to the UTC offset in whole minutes at that instant, and
  \<open>formatToParts\<close> is the calendar date and minute of the shifted instant. Dates are triples.

  The day loops carry the bound \<open>MAX_DAYS\<close> as fuel: 5000 rounds, after which \<open>addMinutes\<close> throws and
  \<open>minutesBetween\<close> returns what it has. The laws the engine relies on (locale \<open>working_calendar\<close>) are
  proved for zones with a fixed offset and hours the editor's \<open>validateHours\<close> accepts.
\<close>

type_synonym zone = "ms \<Rightarrow> int"

record calendar_hours =
  ch_weekday :: int
  ch_start :: int
  ch_end :: int

record business_spec =
  bs_id :: string
  bs_zone :: zone
  bs_hours :: "calendar_hours list"
  bs_holidays :: "ymd list"

record local_parts =
  lp_year :: int
  lp_month :: int
  lp_day :: int
  lp_weekday :: int
  lp_minute :: int
  lp_date :: ymd

datatype after_hours_class = Standard | After_hours | Weekend | Holiday

definition local_parts :: "ms \<Rightarrow> zone \<Rightarrow> local_parts" where
  "local_parts t off =
     (let l = t + off t * 60000; d = civil (l div 86400000)
      in \<lparr>lp_year = yr d, lp_month = mon d, lp_day = mday d, lp_weekday = weekday (l div 86400000),
          lp_minute = (l div 60000) mod 1440, lp_date = Ymd (yr d) (mon d) (mday d)\<rparr>)"

definition offset_minutes :: "ms \<Rightarrow> zone \<Rightarrow> int" where
  "offset_minutes t off =
     (let l = local_parts t off;
          as_utc = date_utc (lp_year l) (lp_month l - 1) (lp_day l) + lp_minute l * 60000;
          truncated = t div 60000 * 60000
      in js_round (of_int (as_utc - truncated) / 60000))"

definition instant_of :: "int \<Rightarrow> int \<Rightarrow> int \<Rightarrow> int \<Rightarrow> zone \<Rightarrow> ms" where
  "instant_of y m d minute off =
     (let guess = date_utc y (m - 1) d + minute * 60000;
          instant = guess - offset_minutes guess off * 60000;
          corrected = guess - offset_minutes instant off * 60000
      in if corrected \<noteq> instant then corrected else instant)"

definition next_day :: "ymd \<Rightarrow> ymd" where
  "next_day d = iso_day_of (date_utc (yr d) (mon d - 1) (mday d) + 86400000)"

definition max_days :: nat where
  "max_days = 5000"

record business_calendar =
  bc_id :: string
  bc_zone :: zone
  bc_by_weekday :: "(int \<times> calendar_hours list) list"
  bc_holidays :: "ymd list"

fun group_hours :: "(int \<times> calendar_hours list) list \<Rightarrow> calendar_hours list \<Rightarrow> (int \<times> calendar_hours list) list" where
  "group_hours m [] = m"
| "group_hours m (h # hs) =
     (if ch_end h \<le> ch_start h then group_hours m hs
      else group_hours (map_adjust (ch_weekday h) [] (\<lambda>l. l @ [h]) m) hs)"

definition make_business_calendar :: "business_spec \<Rightarrow> calendar_error + business_calendar" where
  "make_business_calendar spec =
     (let by_weekday = map (\<lambda>(d, l). (d, sort_key ch_start l)) (group_hours [] (bs_hours spec))
      in if by_weekday = [] then Inl (No_working_hours (bs_id spec))
         else Inr \<lparr>bc_id = bs_id spec, bc_zone = bs_zone spec, bc_by_weekday = by_weekday,
                bc_holidays = bs_holidays spec\<rparr>)"

definition hours_of_weekday :: "business_calendar \<Rightarrow> int \<Rightarrow> calendar_hours list" where
  "hours_of_weekday bc w = (case map_of (bc_by_weekday bc) w of None \<Rightarrow> [] | Some l \<Rightarrow> l)"

definition intervals :: "business_calendar \<Rightarrow> local_parts \<Rightarrow> calendar_hours list" where
  "intervals bc parts =
     (if lp_date parts \<in> set (bc_holidays bc) then [] else hours_of_weekday bc (lp_weekday parts))"

definition covers :: "int \<Rightarrow> calendar_hours \<Rightarrow> bool" where
  "covers minute h \<longleftrightarrow> ch_start h \<le> minute \<and> minute < ch_end h"

definition is_working_time :: "business_calendar \<Rightarrow> ms \<Rightarrow> bool" where
  "is_working_time bc t =
     (let parts = local_parts t (bc_zone bc) in list_ex (covers (lp_minute parts)) (intervals bc parts))"

definition classify :: "business_calendar \<Rightarrow> ymd \<Rightarrow> int option \<Rightarrow> after_hours_class" where
  "classify bc date minute =
     (if date \<in> set (bc_holidays bc) then Holiday
      else
        let w = utc_weekday (midnight date); hours = hours_of_weekday bc w
        in if hours = [] then (if w = 0 \<or> w = 6 then Weekend else After_hours)
           else case minute of None \<Rightarrow> Standard
             | Some m \<Rightarrow> if list_ex (covers m) hours then Standard else After_hours)"

subsection \<open>Moving along the calendar\<close>

fun scan_next :: "bool \<Rightarrow> int \<Rightarrow> calendar_hours list \<Rightarrow> (unit + int) option" where
  "scan_next first m [] = None"
| "scan_next first m (h # hs) =
     (if ch_end h \<le> m then scan_next first m hs
      else if ch_start h \<le> m \<and> first then Some (Inl ())
      else Some (Inr (max (ch_start h) m)))"

fun next_working :: "nat \<Rightarrow> business_calendar \<Rightarrow> ms \<Rightarrow> bool \<Rightarrow> local_parts \<Rightarrow> int \<Rightarrow> ymd \<Rightarrow> calendar_error + ms" where
  "next_working 0 bc t0 first parts m d = Inl (No_working_time (bc_id bc))"
| "next_working (Suc k) bc t0 first parts m d =
     (case scan_next first m (intervals bc parts) of
        Some (Inl _) \<Rightarrow> Inr t0
      | Some (Inr minute) \<Rightarrow> Inr (instant_of (yr d) (mon d) (mday d) minute (bc_zone bc))
      | None \<Rightarrow>
          (let d' = next_day d
           in next_working k bc t0 False
                (local_parts (instant_of (yr d') (mon d') (mday d') 0 (bc_zone bc)) (bc_zone bc)) 0 d'))"

definition next_working_instant :: "business_calendar \<Rightarrow> ms \<Rightarrow> calendar_error + ms" where
  "next_working_instant bc t =
     (let parts = local_parts t (bc_zone bc)
      in next_working max_days bc t True parts (lp_minute parts) (lp_date parts))"

text \<open>One day's intervals: \<open>Inl\<close> the minute at which the remaining minutes are used up, \<open>Inr\<close> what is left.\<close>

fun scan_add :: "int \<Rightarrow> int \<Rightarrow> calendar_hours list \<Rightarrow> int + int" where
  "scan_add m remaining [] = Inr remaining"
| "scan_add m remaining (h # hs) =
     (if ch_end h \<le> m then scan_add m remaining hs
      else
        let start = max (ch_start h) m; available = ch_end h - start
        in if remaining \<le> available then Inl (start + remaining)
           else scan_add m (remaining - available) hs)"

fun add_days :: "nat \<Rightarrow> business_calendar \<Rightarrow> int \<Rightarrow> local_parts \<Rightarrow> int \<Rightarrow> ymd \<Rightarrow> calendar_error + ms" where
  "add_days 0 bc remaining parts m d = Inl (No_working_time (bc_id bc))"
| "add_days (Suc k) bc remaining parts m d =
     (case scan_add m remaining (intervals bc parts) of
        Inl minute \<Rightarrow> Inr (instant_of (yr d) (mon d) (mday d) minute (bc_zone bc))
      | Inr left \<Rightarrow>
          (let d' = next_day d
           in add_days k bc left
                (local_parts (instant_of (yr d') (mon d') (mday d') 0 (bc_zone bc)) (bc_zone bc)) 0 d'))"

definition add_minutes :: "business_calendar \<Rightarrow> ms \<Rightarrow> int \<Rightarrow> calendar_error + ms" where
  "add_minutes bc from minutes =
     (if minutes \<le> 0 then Inr from
      else let parts = local_parts from (bc_zone bc)
           in add_days max_days bc minutes parts (lp_minute parts) (lp_date parts))"

definition add_overlap :: "int \<Rightarrow> int \<Rightarrow> int \<Rightarrow> calendar_hours \<Rightarrow> int" where
  "add_overlap from to acc h =
     (let overlap = min (ch_end h) to - max (ch_start h) from
      in if overlap > 0 then acc + overlap else acc)"

fun between_days :: "nat \<Rightarrow> business_calendar \<Rightarrow> local_parts \<Rightarrow> int \<Rightarrow> int \<Rightarrow> local_parts \<Rightarrow> ymd \<Rightarrow> int" where
  "between_days 0 bc end_parts from acc parts d = acc"
| "between_days (Suc k) bc end_parts from acc parts d =
     (let last_day = (lp_date parts = lp_date end_parts);
          to = (if last_day then lp_minute end_parts else 1440);
          acc' = foldl (add_overlap from to) acc (intervals bc parts)
      in if last_day then acc'
         else
           let d' = next_day d;
               parts' = local_parts (instant_of (yr d') (mon d') (mday d') 0 (bc_zone bc)) (bc_zone bc)
           in if lp_date parts' > lp_date end_parts then acc'
              else between_days k bc end_parts 0 acc' parts' d')"

definition minutes_between :: "business_calendar \<Rightarrow> ms \<Rightarrow> ms \<Rightarrow> int" where
  "minutes_between bc a b =
     (if b \<le> a then 0
      else
        let start = local_parts a (bc_zone bc); end_parts = local_parts b (bc_zone bc)
        in between_days max_days bc end_parts (lp_minute start) 0 start (lp_date start))"

definition as_calendar :: "business_calendar \<Rightarrow> calendar" where
  "as_calendar bc = \<lparr>cal_id = bc_id bc, cal_add = add_minutes bc, cal_between = minutes_between bc\<rparr>"

subsection \<open>The editor's validation\<close>

datatype hours_problem =
    No_interval
  | Bad_weekday nat
  | Bad_start nat
  | Bad_end nat
  | End_not_after_start nat
  | Intervals_overlap int

definition entry_problems :: "nat \<Rightarrow> calendar_hours \<Rightarrow> hours_problem list" where
  "entry_problems i h =
     (if ch_weekday h < 0 \<or> ch_weekday h > 6 then [Bad_weekday i] else []) @
     (if ch_start h < 0 \<or> ch_start h > 1440 then [Bad_start i] else []) @
     (if ch_end h < 0 \<or> ch_end h > 1440 then [Bad_end i] else []) @
     (if ch_end h \<le> ch_start h then [End_not_after_start i] else [])"

fun overlap_problems :: "int \<Rightarrow> calendar_hours list \<Rightarrow> hours_problem list" where
  "overlap_problems w (a # b # hs) =
     (if ch_start b < ch_end a then [Intervals_overlap w] else []) @ overlap_problems w (b # hs)"
| "overlap_problems w hs = []"

fun group_all :: "(int \<times> calendar_hours list) list \<Rightarrow> calendar_hours list \<Rightarrow> (int \<times> calendar_hours list) list" where
  "group_all m [] = m"
| "group_all m (h # hs) = group_all (map_adjust (ch_weekday h) [] (\<lambda>l. l @ [h]) m) hs"

definition validate_hours :: "calendar_hours list \<Rightarrow> hours_problem list" where
  "validate_hours hours =
     (if hours = [] then [No_interval] else []) @
     concat (map (\<lambda>(i, h). entry_problems i h) (enumerate 0 hours)) @
     concat (map (\<lambda>(w, l). overlap_problems w (sort_key ch_start l)) (group_all [] hours))"

subsection \<open>Offsets\<close>

lemma day_ms_split: "x div 86400000 * 86400000 + (x div 60000) mod 1440 * 60000 = x div 60000 * (60000::int)"
proof -
  have d: "x div 86400000 = x div 60000 div 1440"
    by (simp add: zdiv_zmult2_eq [symmetric])
  have "1440 * (x div 60000 div 1440) + x div 60000 mod 1440 = x div 60000"
    by (rule mult_div_mod_eq)
  then have "x div 60000 * 60000 = (1440 * (x div 60000 div 1440) + x div 60000 mod 1440) * 60000"
    by (rule arg_cong [OF sym])
  also have "\<dots> = x div 60000 div 1440 * 86400000 + x div 60000 mod 1440 * 60000"
    by (simp only: distrib_right)
  finally show ?thesis unfolding d by (rule sym)
qed

lemma js_round_minutes: "js_round (of_int (k * 60000) / 60000) = k"
  by (simp add: js_round_def floor_eq_iff)

lemma make_day_civil: "make_day (yr (civil n)) (mon (civil n) - 1) (mday (civil n)) = n"
  using make_day_valid [of "yr (civil n)" "mon (civil n)" "mday (civil n)"] by simp

lemma ymd_collapse [simp]: "Ymd (yr d) (mon d) (mday d) = d"
  by (cases d) simp

text \<open>Reading the offset back from the formatted parts gives the zone's offset.\<close>

lemma offset_minutes_eq [simp]: "offset_minutes t off = off t"
proof -
  let ?l = "t + off t * 60000"
  have "date_utc (yr (civil (?l div 86400000))) (mon (civil (?l div 86400000)) - 1) (mday (civil (?l div 86400000)))
      = ?l div 86400000 * 86400000"
    by (simp add: date_utc_def make_day_civil)
  moreover have "?l div 60000 = t div 60000 + off t"
    by simp
  ultimately have e: "date_utc (yr (civil (?l div 86400000))) (mon (civil (?l div 86400000)) - 1)
      (mday (civil (?l div 86400000))) + ?l div 60000 mod 1440 * 60000 - t div 60000 * 60000 = off t * 60000"
    using day_ms_split [of ?l] by (simp add: algebra_simps)
  show ?thesis
    unfolding offset_minutes_def local_parts_def Let_def local_parts.simps e by (rule js_round_minutes)
qed

definition fixed_zone :: "int \<Rightarrow> zone" where
  "fixed_zone k = (\<lambda>t. k)"

definition instant :: "int \<Rightarrow> int \<Rightarrow> int \<Rightarrow> ms" where
  "instant k n m = n * 86400000 + m * 60000 - k * 60000"

definition day_parts :: "int \<Rightarrow> int \<Rightarrow> local_parts" where
  "day_parts n m = \<lparr>lp_year = yr (civil n), lp_month = mon (civil n), lp_day = mday (civil n),
     lp_weekday = weekday n, lp_minute = m, lp_date = civil n\<rparr>"

lemma instant_of_fixed:
  "instant_of (yr (civil n)) (mon (civil n)) (mday (civil n)) m (fixed_zone k) = instant k n m"
  by (simp add: instant_of_def Let_def fixed_zone_def date_utc_def make_day_civil instant_def)

lemma local_parts_fixed:
  "local_parts t (fixed_zone k) =
     day_parts ((t + k * 60000) div 86400000) ((t + k * 60000) div 60000 mod 1440)"
  by (simp add: local_parts_def Let_def fixed_zone_def day_parts_def)

lemma local_parts_instant:
  assumes "0 \<le> m" "m < 1440"
  shows "local_parts (instant k n m) (fixed_zone k) = day_parts n m"
proof -
  have "n * 86400000 + m * 60000 = (n * 1440 + m) * 60000" by simp
  then have min: "(instant k n m + k * 60000) div 60000 = n * 1440 + m"
    by (simp add: instant_def)
  have "(n * 86400000 + m * 60000) div 86400000 = n"
    using assms by (simp add: div_pos_pos_trivial)
  then show ?thesis
    using assms by (simp add: local_parts_fixed min instant_def)
qed

lemma instant_1440: "instant k n 1440 = instant k (n + 1) 0"
  by (simp add: instant_def)

lemma next_day_civil: "next_day (civil n) = civil (n + 1)"
  using make_day_civil [of n] by (simp add: next_day_def date_utc_def iso_day_of_def)

subsection \<open>A day's working minutes\<close>

fun hours_ok :: "int \<Rightarrow> calendar_hours list \<Rightarrow> bool" where
  "hours_ok lo [] = True"
| "hours_ok lo (h # hs) =
     (lo \<le> ch_start h \<and> ch_start h < ch_end h \<and> ch_end h \<le> 1440 \<and> hours_ok (ch_end h) hs)"

definition overlap :: "int \<Rightarrow> int \<Rightarrow> calendar_hours \<Rightarrow> int" where
  "overlap from to h = max 0 (min (ch_end h) to - max (ch_start h) from)"

definition worked :: "int \<Rightarrow> int \<Rightarrow> calendar_hours list \<Rightarrow> int" where
  "worked from to hs = sum_list (map (overlap from to) hs)"

lemma worked_simps [simp]:
  "worked from to [] = 0"
  "worked from to (h # hs) = overlap from to h + worked from to hs"
  by (simp_all add: worked_def)

lemma foldl_add_overlap: "foldl (add_overlap from to) acc hs = acc + worked from to hs"
  by (induction hs arbitrary: acc) (auto simp: add_overlap_def Let_def overlap_def)

lemma overlap_nonneg: "0 \<le> overlap from to h"
  by (simp add: overlap_def)

lemma worked_nonneg: "0 \<le> worked from to hs"
  by (induction hs) (simp_all add: overlap_nonneg)

lemma worked_empty: "hours_ok lo hs \<Longrightarrow> to \<le> max lo from \<Longrightarrow> worked from to hs = 0"
proof (induction hs arbitrary: lo)
  case (Cons h hs)
  then have "worked from to hs = 0" by (intro Cons.IH [of "ch_end h"]) auto
  with Cons show ?case by (auto simp: overlap_def)
qed simp

lemma scan_add_found:
  "hours_ok lo hs \<Longrightarrow> 0 < remaining \<Longrightarrow> scan_add m remaining hs = Inl e \<Longrightarrow>
     m < e \<and> e \<le> 1440 \<and> worked m e hs = remaining"
proof (induction hs arbitrary: lo remaining)
  case (Cons h hs)
  show ?case
  proof (cases "ch_end h \<le> m")
    case True
    with Cons have "m < e \<and> e \<le> 1440 \<and> worked m e hs = remaining"
      by (intro Cons.IH [of "ch_end h"]) auto
    with True show ?thesis by (simp add: overlap_def)
  next
    case False
    let ?start = "max (ch_start h) m"
    show ?thesis
    proof (cases "remaining \<le> ch_end h - ?start")
      case True
      with False Cons.prems have e: "e = ?start + remaining" by (simp add: Let_def)
      have "worked m e hs = 0"
        using Cons.prems True e by (intro worked_empty [of "ch_end h"]) auto
      with False True e Cons.prems show ?thesis by (auto simp: overlap_def)
    next
      case r: False
      with False Cons.prems
      have "m < e \<and> e \<le> 1440 \<and> worked m e hs = remaining - (ch_end h - ?start)"
        by (intro Cons.IH [of "ch_end h"]) (auto simp: Let_def)
      moreover have "ch_end h \<le> e"
      proof (rule ccontr)
        assume "\<not> ch_end h \<le> e"
        then have "worked m e hs = 0"
          using Cons.prems by (intro worked_empty [of "ch_end h"]) auto
        with calculation r show False by simp
      qed
      ultimately show ?thesis using False Cons.prems by (auto simp: overlap_def)
    qed
  qed
qed simp

lemma scan_add_left:
  "hours_ok lo hs \<Longrightarrow> 0 < remaining \<Longrightarrow> scan_add m remaining hs = Inr left \<Longrightarrow>
     0 < left \<and> worked m 1440 hs = remaining - left"
proof (induction hs arbitrary: lo remaining)
  case (Cons h hs)
  show ?case
  proof (cases "ch_end h \<le> m")
    case True
    with Cons have "0 < left \<and> worked m 1440 hs = remaining - left"
      by (intro Cons.IH [of "ch_end h"]) auto
    with True show ?thesis by (simp add: overlap_def)
  next
    case False
    let ?available = "ch_end h - max (ch_start h) m"
    have r: "\<not> remaining \<le> ?available"
      using False Cons.prems by (auto simp: Let_def)
    with False Cons.prems have "0 < left \<and> worked m 1440 hs = remaining - ?available - left"
      by (intro Cons.IH [of "ch_end h"]) (auto simp: Let_def)
    with False Cons.prems show ?thesis by (auto simp: overlap_def)
  qed
qed simp

subsection \<open>Days in a fixed zone\<close>

definition day_hours :: "business_calendar \<Rightarrow> int \<Rightarrow> calendar_hours list" where
  "day_hours bc n = intervals bc (day_parts n 0)"

lemma intervals_day_parts [simp]: "intervals bc (day_parts n m) = day_hours bc n"
  by (simp add: day_hours_def intervals_def day_parts_def)

text \<open>The working minutes from minute \<open>from\<close> of day \<open>n\<close> to minute \<open>to\<close> of day \<open>n + j\<close>.\<close>

fun day_span :: "business_calendar \<Rightarrow> nat \<Rightarrow> int \<Rightarrow> int \<Rightarrow> int \<Rightarrow> int" where
  "day_span bc 0 n from to = worked from to (day_hours bc n)"
| "day_span bc (Suc j) n from to = worked from 1440 (day_hours bc n) + day_span bc j (n + 1) 0 to"

definition ordered_hours :: "business_calendar \<Rightarrow> bool" where
  "ordered_hours bc \<longleftrightarrow> (\<forall>w. hours_ok 0 (hours_of_weekday bc w))"

lemma hours_ok_day: "ordered_hours bc \<Longrightarrow> hours_ok 0 (day_hours bc n)"
  by (simp add: ordered_hours_def day_hours_def intervals_def)

lemma day_span_nonneg: "0 \<le> day_span bc j n from to"
  by (induction j arbitrary: n "from") (simp_all add: worked_nonneg add_nonneg_nonneg)

lemma start_of_day:
  assumes "bc_zone bc = fixed_zone k"
  shows "local_parts (instant_of (yr (civil n)) (mon (civil n)) (mday (civil n)) 0 (bc_zone bc)) (bc_zone bc)
    = day_parts n 0"
  by (simp add: assms instant_of_fixed local_parts_instant)

lemma add_days_Suc:
  assumes "bc_zone bc = fixed_zone k"
  shows "add_days (Suc f) bc r (day_parts n p) m (civil n) =
     (case scan_add m r (day_hours bc n) of
        Inl e \<Rightarrow> Inr (instant k n e)
      | Inr left \<Rightarrow> add_days f bc left (day_parts (n + 1) 0) 0 (civil (n + 1)))"
  by (simp add: next_day_civil start_of_day [OF assms] Let_def del: ymd_collapse split: sum.split)
    (simp add: assms instant_of_fixed)

lemma between_days_Suc:
  assumes "bc_zone bc = fixed_zone k" "n \<le> n'"
  shows "between_days (Suc f) bc (day_parts n' e) from acc (day_parts n p) (civil n) =
     (if n = n' then acc + worked from e (day_hours bc n)
      else between_days f bc (day_parts n' e) 0 (acc + worked from 1440 (day_hours bc n))
             (day_parts (n + 1) 0) (civil (n + 1)))"
proof -
  have dates: "lp_date (day_parts n p) = civil n" "lp_minute (day_parts n p) = p" for n p
    by (simp_all add: day_parts_def)
  show ?thesis
    using assms(2)
    by (simp add: next_day_civil start_of_day [OF assms(1)] Let_def dates foldl_add_overlap
        civil_eq_iff civil_less_iff del: ymd_collapse)
qed

lemma add_days_span:
  assumes zone: "bc_zone bc = fixed_zone k" and ok: "ordered_hours bc"
  shows "0 < r \<Longrightarrow> add_days f bc r (day_parts n p) m (civil n) = Inr t' \<Longrightarrow>
    \<exists>j e. j < f \<and> t' = instant k (n + int j) e \<and> (j = 0 \<longrightarrow> m < e) \<and> 0 \<le> e \<and> e \<le> 1440 \<and> day_span bc j n m e = r"
proof (induction f arbitrary: r n p m)
  case (Suc f)
  show ?case
  proof (cases "scan_add m r (day_hours bc n)")
    case (Inl e)
    then have "t' = instant k n e" using Suc.prems(2) unfolding add_days_Suc [OF zone] by simp
    moreover have "m < e \<and> e \<le> 1440 \<and> worked m e (day_hours bc n) = r"
      using scan_add_found [OF hours_ok_day [OF ok] Suc.prems(1) Inl] .
    moreover have "0 \<le> e"
    proof (rule ccontr)
      assume "\<not> 0 \<le> e"
      then have "worked m e (day_hours bc n) = 0"
        using hours_ok_day [OF ok] by (intro worked_empty [of 0]) auto
      with calculation Suc.prems(1) show False by simp
    qed
    ultimately show ?thesis by (intro exI [of _ 0] exI [of _ e]) simp
  next
    case (Inr left)
    then have left: "0 < left" "worked m 1440 (day_hours bc n) = r - left"
      using scan_add_left [OF hours_ok_day [OF ok] Suc.prems(1) Inr] by auto
    have "add_days f bc left (day_parts (n + 1) 0) 0 (civil (n + 1)) = Inr t'"
      using Suc.prems(2) Inr unfolding add_days_Suc [OF zone] by simp
    from Suc.IH [OF left(1) this] obtain j e where
      "j < f" "t' = instant k (n + 1 + int j) e" "0 \<le> e" "e \<le> 1440" "day_span bc j (n + 1) 0 e = left"
      by auto
    then show ?thesis
      using left(2) by (intro exI [of _ "Suc j"] exI [of _ e]) (simp add: add.commute add.left_commute)
  qed
qed simp

lemma between_days_span:
  assumes zone: "bc_zone bc = fixed_zone k"
  shows "j < f \<Longrightarrow> between_days f bc (day_parts (n + int j) e) m acc (day_parts n p) (civil n) = acc + day_span bc j n m e"
proof (induction j arbitrary: f n m p acc)
  case 0
  then obtain f' where "f = Suc f'" by (cases f) auto
  then show ?case by (simp add: between_days_Suc [OF zone] del: between_days.simps)
next
  case (Suc j)
  then obtain f' where f: "f = Suc f'" "j < f'" by (cases f) auto
  have n: "n + int (Suc j) = n + 1 + int j" "n \<le> n + 1 + int j" "n \<noteq> n + 1 + int j" by simp_all
  show ?case
    unfolding f(1) n(1) between_days_Suc [OF zone n(2)] using n(3)
    by (simp add: Suc.IH [OF f(2)])
qed

lemma worked_same [simp]: "worked m m hs = 0"
  by (induction hs) (simp_all add: overlap_def)

lemma between_days_midnight:
  assumes zone: "bc_zone bc = fixed_zone k"
  shows "j < f \<Longrightarrow> between_days f bc (day_parts (n + int j + 1) 0) m acc (day_parts n p) (civil n)
    = acc + day_span bc j n m 1440"
proof (induction j arbitrary: f n m p acc)
  case 0
  then obtain f' where "f = Suc f'" by (cases f) auto
  then show ?case
    by (cases f') (simp_all add: between_days_Suc [OF zone] del: between_days.simps(2))
next
  case (Suc j)
  then obtain f' where f: "f = Suc f'" "j < f'" by (cases f) auto
  have n: "n + int (Suc j) + 1 = n + 1 + int j + 1" "n \<le> n + 1 + int j + 1" "n \<noteq> n + 1 + int j + 1" by simp_all
  show ?case
    unfolding f(1) n(1) between_days_Suc [OF zone n(2)] using n(3)
    by (simp only: if_False Suc.IH [OF f(2)] day_span.simps)
qed

subsection \<open>Adding and measuring working minutes\<close>

lemma local_clock:
  obtains n m where "local_parts t (fixed_zone k) = day_parts n m" "0 \<le> m" "m < 1440"
    "instant k n m \<le> t" "t < instant k n (m + 1)"
proof -
  define l where "l = t + k * 60000"
  have split: "l div 86400000 * 86400000 + (l div 60000) mod 1440 * 60000 = l div 60000 * 60000"
    by (rule day_ms_split)
  have "l div 60000 * 60000 \<le> l" "l < l div 60000 * 60000 + 60000"
    using mult_div_bounds [of 60000 l] by simp_all
  then have "instant k (l div 86400000) (l div 60000 mod 1440) \<le> t"
      "t < instant k (l div 86400000) (l div 60000 mod 1440 + 1)"
    using split by (simp_all add: instant_def l_def algebra_simps)
  then show ?thesis
    using that [of "l div 86400000" "l div 60000 mod 1440"] by (simp add: local_parts_fixed l_def)
qed

lemma add_minutes_cases:
  assumes zone: "bc_zone bc = fixed_zone k" and ok: "ordered_hours bc"
    and pos: "0 < r" and add: "add_minutes bc t r = Inr t'"
  obtains n m j e where "local_parts t (fixed_zone k) = day_parts n m" "instant k n m \<le> t" "t < instant k n (m + 1)"
    "j < max_days" "t' = instant k (n + int j) e" "j = 0 \<longrightarrow> m < e" "m < 1440" "0 \<le> e" "e \<le> 1440"
    "day_span bc j n m e = r"
proof -
  obtain n m where nm: "local_parts t (fixed_zone k) = day_parts n m" "m < 1440"
      "instant k n m \<le> t" "t < instant k n (m + 1)"
    using local_clock by metis
  have "add_days max_days bc r (day_parts n m) m (civil n) = Inr t'"
    using add pos nm(1) zone by (simp add: add_minutes_def Let_def) (simp add: day_parts_def)
  from add_days_span [OF zone ok pos this] show ?thesis
    using that nm by blast
qed

lemma instant_le:
  assumes "m < 1440" "0 \<le> e" "j = 0 \<longrightarrow> m < e"
  shows "instant k n (m + 1) \<le> instant k (n + int j) e"
proof (cases j)
  case (Suc i)
  have "0 \<le> int i * 86400000" by simp
  with assms Suc show ?thesis by (simp add: instant_def algebra_simps)
qed (use assms in \<open>simp add: instant_def\<close>)

lemma add_minutes_later:
  assumes "bc_zone bc = fixed_zone k" "ordered_hours bc" "0 < r" "add_minutes bc t r = Inr t'"
  shows "t < t'"
proof (rule add_minutes_cases [OF assms])
  fix n m j e
  assume "t < instant k n (m + 1)" "t' = instant k (n + int j) e" "j = 0 \<longrightarrow> m < e" "m < 1440" "0 \<le> e"
  then show ?thesis using instant_le [of m e j k n] by simp
qed

lemma between_add_minutes:
  assumes zone: "bc_zone bc = fixed_zone k" and ok: "ordered_hours bc"
    and pos: "0 < r" and add: "add_minutes bc t r = Inr t'"
  shows "minutes_between bc t t' = r"
proof (rule add_minutes_cases [OF assms])
  fix n m j e
  assume parts: "local_parts t (fixed_zone k) = day_parts n m"
    and j: "j < max_days" and t': "t' = instant k (n + int j) e" and e: "0 \<le> e" "e \<le> 1440"
    and r: "day_span bc j n m e = r"
  have later: "t < t'" using add_minutes_later [OF assms] .
  have start: "minutes_between bc t t' =
      between_days max_days bc (local_parts t' (fixed_zone k)) m 0 (day_parts n m) (civil n)"
    using later parts zone by (simp add: minutes_between_def Let_def) (simp add: day_parts_def)
  show ?thesis
  proof (cases "e = 1440")
    case True
    then have "local_parts t' (fixed_zone k) = day_parts (n + int j + 1) 0"
      unfolding t' True instant_1440 by (intro local_parts_instant) simp_all
    then show ?thesis
      using between_days_midnight [OF zone j] r True unfolding start by simp
  next
    case False
    then have "local_parts t' (fixed_zone k) = day_parts (n + int j) e"
      unfolding t' using e by (intro local_parts_instant) simp_all
    then show ?thesis
      using between_days_span [OF zone j] r unfolding start by simp
  qed
qed

lemma between_days_nonneg: "0 \<le> acc \<Longrightarrow> 0 \<le> between_days f bc e m acc parts d"
proof (induction f arbitrary: m acc parts d)
  case (Suc f)
  have "0 \<le> acc + worked m x hs" for x hs
    using Suc.prems worked_nonneg by (simp add: add_nonneg_nonneg)
  then show ?case
    using Suc.IH by (simp add: Let_def foldl_add_overlap del: ymd_collapse)
qed simp

lemma minutes_between_nonneg: "0 \<le> minutes_between bc a b"
  by (simp add: minutes_between_def Let_def between_days_nonneg)

subsection \<open>Hours the editor accepts\<close>

definition hours_at :: "(int \<times> calendar_hours list) list \<Rightarrow> int \<Rightarrow> calendar_hours list" where
  "hours_at m w = (case map_of m w of None \<Rightarrow> [] | Some l \<Rightarrow> l)"

lemma hours_at_adjust:
  "hours_at (map_adjust d [] (\<lambda>l. l @ [h]) m) w = hours_at m w @ (if w = d then [h] else [])"
  by (simp add: hours_at_def map_of_map_adjust split: option.split)

lemma hours_at_group:
  "hours_at (group_hours m hs) w = hours_at m w @ filter (\<lambda>h. ch_weekday h = w \<and> ch_start h < ch_end h) hs"
  by (induction hs arbitrary: m) (auto simp: hours_at_adjust)

lemma hours_at_group_all:
  "hours_at (group_all m hs) w = hours_at m w @ filter (\<lambda>h. ch_weekday h = w) hs"
  by (induction hs arbitrary: m) (auto simp: hours_at_adjust)

lemma hours_of_made:
  assumes "make_business_calendar spec = Inr bc"
  shows "hours_of_weekday bc w =
    sort_key ch_start (filter (\<lambda>h. ch_weekday h = w \<and> ch_start h < ch_end h) (bs_hours spec))"
proof -
  have "bc_by_weekday bc = map (\<lambda>(d, l). (d, sort_key ch_start l)) (group_hours [] (bs_hours spec))"
    using assms by (auto simp: make_business_calendar_def Let_def split: if_splits)
  then have "hours_of_weekday bc w = sort_key ch_start (hours_at (group_hours [] (bs_hours spec)) w)"
    by (simp add: hours_of_weekday_def hours_at_def map_of_map split: option.split)
  then show ?thesis by (simp add: hours_at_group) (simp add: hours_at_def)
qed

lemma accepted_entry:
  assumes "validate_hours hours = []" "h \<in> set hours"
  shows "0 \<le> ch_start h \<and> ch_start h < ch_end h \<and> ch_end h \<le> 1440 \<and> 0 \<le> ch_weekday h \<and> ch_weekday h \<le> 6"
proof -
  from assms(2) obtain i where "i < length hours" "h = hours ! i" by (auto simp: in_set_conv_nth)
  then have "(i, h) \<in> set (enumerate 0 hours)" by (simp add: in_set_enumerate_eq)
  with assms(1) have "entry_problems i h = []" by (auto simp: validate_hours_def)
  then show ?thesis by (auto simp: entry_problems_def split: if_splits)
qed

lemma accepted_overlaps:
  assumes "validate_hours hours = []"
  shows "overlap_problems w (sort_key ch_start (filter (\<lambda>h. ch_weekday h = w) hours)) = []"
proof (cases "map_of (group_all [] hours) w")
  case None
  then have "filter (\<lambda>h. ch_weekday h = w) hours = []"
    using hours_at_group_all [of "[]" hours w] by (simp add: hours_at_def)
  then show ?thesis by simp
next
  case (Some l)
  then have "l = filter (\<lambda>h. ch_weekday h = w) hours"
    using hours_at_group_all [of "[]" hours w] by (simp add: hours_at_def)
  moreover have "overlap_problems w (sort_key ch_start l) = []"
    using assms map_of_SomeD [OF Some] by (auto simp: validate_hours_def)
  ultimately show ?thesis by simp
qed

lemma hours_ok_intro:
  "(\<And>h. h \<in> set hs \<Longrightarrow> ch_start h < ch_end h \<and> ch_end h \<le> 1440) \<Longrightarrow> overlap_problems w hs = [] \<Longrightarrow>
     (\<And>h. h \<in> set hs \<Longrightarrow> lo \<le> ch_start h) \<Longrightarrow> sorted (map ch_start hs) \<Longrightarrow> hours_ok lo hs"
proof (induction w hs arbitrary: lo rule: overlap_problems.induct)
  case (1 w a b hs)
  have "hours_ok (ch_end a) (b # hs)"
    using 1 by (intro 1(1)) (auto split: if_splits intro: order_trans [of "ch_end a" "ch_start b"])
  with 1(2,4) show ?case by simp
qed auto

lemma accepted_ordered:
  assumes "validate_hours (bs_hours spec) = []" "make_business_calendar spec = Inr bc"
  shows "ordered_hours bc"
  unfolding ordered_hours_def
proof
  fix w
  have "filter (\<lambda>h. ch_weekday h = w \<and> ch_start h < ch_end h) (bs_hours spec)
      = filter (\<lambda>h. ch_weekday h = w) (bs_hours spec)"
    using accepted_entry [OF assms(1)] by (intro filter_cong) auto
  then show "hours_ok 0 (hours_of_weekday bc w)"
    unfolding hours_of_made [OF assms(2)]
    using accepted_entry [OF assms(1)] accepted_overlaps [OF assms(1)]
    by (intro hours_ok_intro [of _ w]) auto
qed

subsection \<open>The calendars the engine is given\<close>

definition supported_calendar :: "calendar \<Rightarrow> bool" where
  "supported_calendar cal \<longleftrightarrow> cal = wall_clock \<or>
     (\<exists>spec bc k. validate_hours (bs_hours spec) = [] \<and> bs_zone spec = fixed_zone k \<and>
        make_business_calendar spec = Inr bc \<and> cal = as_calendar bc)"

lemma supported_calendar_cases:
  assumes "supported_calendar cal"
  obtains "cal = wall_clock"
  | bc k where "cal = as_calendar bc" "bc_zone bc = fixed_zone k" "ordered_hours bc"
proof -
  have zone: "bc_zone bc = bs_zone spec" if "make_business_calendar spec = Inr bc" for spec bc
    using that by (auto simp: make_business_calendar_def Let_def split: if_splits)
  from assms show ?thesis
    unfolding supported_calendar_def using that accepted_ordered zone by metis
qed

lemma add_minutes_none: "r \<le> 0 \<Longrightarrow> add_minutes bc t r = Inr t"
  by (simp add: add_minutes_def)

interpretation sla: working_calendar supported_calendar
proof
  fix cal t t' a b n
  assume cal: "supported_calendar cal"
  show "0 \<le> cal_between cal a b"
    by (rule supported_calendar_cases [OF cal]) (simp_all add: wall_clock_def as_calendar_def minutes_between_nonneg)
  show "b \<le> a \<Longrightarrow> cal_between cal a b = 0"
    by (rule supported_calendar_cases [OF cal])
      (auto simp: wall_clock_def as_calendar_def minutes_between_def max_def intro: antisym)
  show "cal_add cal t 0 = Inr t"
    by (rule supported_calendar_cases [OF cal]) (simp_all add: wall_clock_def as_calendar_def add_minutes_none)
  assume n: "0 \<le> n" and add: "cal_add cal t n = Inr t'"
  show "t \<le> t'" "cal_between cal t t' = n"
  proof (rule_tac [!] supported_calendar_cases [OF cal])
    assume "cal = wall_clock"
    with n add show "t \<le> t'" "cal_between cal t t' = n" by (auto simp: wall_clock_def)
  next
    fix bc k
    assume bc: "cal = as_calendar bc" "bc_zone bc = fixed_zone k" "ordered_hours bc"
    show "t \<le> t'" "cal_between cal t t' = n"
    proof -
      consider "n = 0" | "0 < n" using n by linarith
      then have "t \<le> t' \<and> cal_between cal t t' = n"
      proof cases
        case 1
        with add bc(1) show ?thesis by (simp add: as_calendar_def add_minutes_none minutes_between_def)
      next
        case 2
        with add bc(1) have "add_minutes bc t n = Inr t'" by (simp add: as_calendar_def)
        from add_minutes_later [OF bc(2,3) 2 this] between_add_minutes [OF bc(2,3) 2 this] bc(1)
        show ?thesis by (simp add: as_calendar_def)
      qed
      then show "t \<le> t'" "cal_between cal t t' = n" by simp_all
    qed
  qed
qed

subsection \<open>The next working instant\<close>

text \<open>Minutes counted from the epoch's local midnight, and whether one is worked.\<close>

definition works :: "business_calendar \<Rightarrow> int \<Rightarrow> bool" where
  "works bc a = list_ex (covers (a mod 1440)) (day_hours bc (a div 1440))"

lemma instant_flat: "instant k n m = instant k 0 (n * 1440 + m)"
  by (simp add: instant_def)

lemma works_day: "0 \<le> m \<Longrightarrow> m < 1440 \<Longrightarrow> works bc (n * 1440 + m) = list_ex (covers m) (day_hours bc n)"
  by (simp add: works_def)

lemma is_working_time_iff:
  assumes "bc_zone bc = fixed_zone k"
  shows "is_working_time bc t = works bc ((t + k * 60000) div 60000)"
proof -
  have "(t + k * 60000) div 60000 div 1440 = (t + k * 60000) div 86400000"
    by (simp add: zdiv_zmult2_eq [symmetric])
  then show ?thesis
    unfolding is_working_time_def works_def assms local_parts_fixed by (simp add: Let_def day_parts_def day_hours_def intervals_def)
qed

lemma scan_next_None: "scan_next first m hs = None \<Longrightarrow> m \<le> x \<Longrightarrow> \<not> list_ex (covers x) hs"
  by (induction first m hs rule: scan_next.induct) (auto simp: covers_def list_ex_iff split: if_splits)

lemma scan_next_Inl: "scan_next first m hs = Some (Inl u) \<Longrightarrow> first \<and> list_ex (covers m) hs"
  by (induction first m hs rule: scan_next.induct) (auto simp: covers_def list_ex_iff split: if_splits)

lemma uncovered_below: "hours_ok lo hs \<Longrightarrow> x < lo \<Longrightarrow> \<not> list_ex (covers x) hs"
proof (induction hs arbitrary: lo)
  case (Cons h hs)
  then have "\<not> list_ex (covers x) hs" by (intro Cons.IH [of "ch_end h"]) auto
  with Cons.prems show ?case by (auto simp: covers_def list_ex_iff)
qed simp

lemma scan_next_Inr:
  "hours_ok lo hs \<Longrightarrow> scan_next first m hs = Some (Inr e) \<Longrightarrow>
     m \<le> e \<and> (first \<longrightarrow> m < e) \<and> e < 1440 \<and> list_ex (covers e) hs \<and> (\<forall>x. m \<le> x \<and> x < e \<longrightarrow> \<not> list_ex (covers x) hs)"
proof (induction hs arbitrary: lo)
  case (Cons h hs)
  show ?case
  proof (cases "ch_end h \<le> m")
    case True
    with Cons.prems have "m \<le> e \<and> (first \<longrightarrow> m < e) \<and> e < 1440 \<and> list_ex (covers e) hs \<and> (\<forall>x. m \<le> x \<and> x < e \<longrightarrow> \<not> list_ex (covers x) hs)"
      by (intro Cons.IH [of "ch_end h"]) auto
    with True show ?thesis by (auto simp: covers_def list_ex_iff)
  next
    case False
    with Cons.prems have e: "e = max (ch_start h) m" by (auto split: if_splits)
    have "\<not> list_ex (covers x) hs" if "x < e" for x
      using Cons.prems(1) that False e by (intro uncovered_below [of "ch_end h"]) auto
    with False e Cons.prems show ?thesis by (auto simp: covers_def list_ex_iff split: if_splits)
  qed
qed simp

lemma next_working_Suc:
  assumes "bc_zone bc = fixed_zone k"
  shows "next_working (Suc f) bc t0 first (day_parts n p) m (civil n) =
     (case scan_next first m (day_hours bc n) of
        Some (Inl _) \<Rightarrow> Inr t0
      | Some (Inr e) \<Rightarrow> Inr (instant k n e)
      | None \<Rightarrow> next_working f bc t0 False (day_parts (n + 1) 0) 0 (civil (n + 1)))"
proof -
  have "next_working f bc t0 False
      (local_parts (instant_of (yr (civil (n + 1))) (mon (civil (n + 1))) (mday (civil (n + 1))) 0 (bc_zone bc)) (bc_zone bc))
      0 (civil (n + 1)) = next_working f bc t0 False (day_parts (n + 1) 0) 0 (civil (n + 1))"
    by (simp only: start_of_day [OF assms])
  moreover have "instant_of (yr (civil n)) (mon (civil n)) (mday (civil n)) e (bc_zone bc) = instant k n e" for e
    unfolding assms by (rule instant_of_fixed)
  ultimately show ?thesis
    by (simp add: next_day_civil Let_def split: option.split sum.split)
qed

lemma next_working_sound:
  assumes zone: "bc_zone bc = fixed_zone k" and ok: "ordered_hours bc"
  shows "0 \<le> m \<Longrightarrow> m < 1440 \<Longrightarrow> next_working f bc t0 first (day_parts n p) m (civil n) = Inr t' \<Longrightarrow>
    first \<and> t' = t0 \<and> works bc (n * 1440 + m) \<or>
    (\<exists>a. t' = instant k 0 a \<and> n * 1440 + m \<le> a \<and> (first \<longrightarrow> n * 1440 + m < a) \<and> works bc a \<and> (\<forall>b. n * 1440 + m \<le> b \<and> b < a \<longrightarrow> \<not> works bc b))"
proof (induction f arbitrary: n m p first)
  case (Suc f)
  have hs: "hours_ok 0 (day_hours bc n)" using hours_ok_day [OF ok] .
  have day: "works bc b = list_ex (covers (b - n * 1440)) (day_hours bc n)"
    if "n * 1440 \<le> b" "b < (n + 1) * 1440" for b
    using works_day [of "b - n * 1440" bc n] that by (simp add: algebra_simps)
  show ?case
  proof (cases "scan_next first m (day_hours bc n)")
    case None
    have later: "next_working f bc t0 False (day_parts (n + 1) 0) 0 (civil (n + 1)) = Inr t'"
      using Suc.prems(3) None unfolding next_working_Suc [OF zone] by simp
    from Suc.IH [OF _ _ later] obtain a where a: "t' = instant k 0 a" "(n + 1) * 1440 \<le> a" "works bc a"
        "\<forall>b. (n + 1) * 1440 \<le> b \<and> b < a \<longrightarrow> \<not> works bc b"
      by auto
    have "\<not> works bc b" if "n * 1440 + m \<le> b" "b < a" for b
    proof (cases "b < (n + 1) * 1440")
      case True
      with that Suc.prems(1) scan_next_None [OF None, of "b - n * 1440"] show ?thesis by (subst day) auto
    qed (use a(4) that in auto)
    with a Suc.prems(2) show ?thesis by (intro disjI2 exI [of _ a]) auto
  next
    case (Some r)
    show ?thesis
    proof (cases r)
      case (Inl u)
      then have "t' = t0" using Suc.prems(3) Some unfolding next_working_Suc [OF zone] by simp
      moreover have "first \<and> list_ex (covers m) (day_hours bc n)" using scan_next_Inl Some Inl by blast
      ultimately show ?thesis using works_day [OF Suc.prems(1,2)] by blast
    next
      case (Inr e)
      have e: "m \<le> e" "first \<longrightarrow> m < e" "e < 1440" "list_ex (covers e) (day_hours bc n)"
          "\<And>x. m \<le> x \<Longrightarrow> x < e \<Longrightarrow> \<not> list_ex (covers x) (day_hours bc n)"
        using scan_next_Inr [OF hs] Some Inr by blast+
      have "t' = instant k 0 (n * 1440 + e)"
        using Suc.prems(3) Some Inr unfolding next_working_Suc [OF zone] by (simp add: instant_flat [of k n e])
      moreover have "works bc (n * 1440 + e)" using works_day [of e bc n] e Suc.prems(1) by simp
      moreover have "\<not> works bc b" if "n * 1440 + m \<le> b" "b < n * 1440 + e" for b
        using e(5) [of "b - n * 1440"] that e(3) Suc.prems(1) by (subst day) auto
      ultimately show ?thesis using e(1,2) by (intro disjI2 exI [of _ "n * 1440 + e"]) auto
    qed
  qed
qed simp

lemma next_working_instant_spec:
  assumes zone: "bc_zone bc = fixed_zone k" and ok: "ordered_hours bc"
    and found: "next_working_instant bc t = Inr t'"
  shows "is_working_time bc t' \<and> (is_working_time bc t \<longrightarrow> t' = t) \<and> t \<le> t' \<and>
    (\<forall>u. t \<le> u \<and> u < t' \<longrightarrow> \<not> is_working_time bc u)"
proof -
  obtain n m where nm: "local_parts t (fixed_zone k) = day_parts n m" "0 \<le> m" "m < 1440"
      "instant k n m \<le> t" "t < instant k n (m + 1)"
    using local_clock by metis
  have minute: "(u + k * 60000) div 60000 = a" if "instant k 0 a \<le> u" "u < instant k 0 (a + 1)" for u a
    using that by (intro int_div_pos_eq [of _ _ _ "u + k * 60000 - a * 60000"]) (simp_all add: instant_def)
  have t: "is_working_time bc t = works bc (n * 1440 + m)"
    unfolding is_working_time_iff [OF zone] using nm(4,5)
    by (subst minute [of "n * 1440 + m"]) (simp_all add: instant_def)
  have "next_working max_days bc t True (day_parts n m) m (civil n) = Inr t'"
    using found nm(1) zone by (simp add: next_working_instant_def Let_def) (simp add: day_parts_def)
  from next_working_sound [OF zone ok nm(2,3) this]
  consider "t' = t" "works bc (n * 1440 + m)"
    | a where "t' = instant k 0 a" "n * 1440 + m < a" "works bc a" "\<forall>b. n * 1440 + m \<le> b \<and> b < a \<longrightarrow> \<not> works bc b"
    by blast
  then show ?thesis
  proof cases
    case 1
    with t show ?thesis by auto
  next
    case 2
    have "t < t'" using 2(1,2) nm(5) by (simp add: instant_def)
    moreover have "is_working_time bc t'"
      unfolding is_working_time_iff [OF zone] 2(1) using 2(3) by (subst minute [of a]) (simp_all add: instant_def)
    moreover have "\<not> is_working_time bc u" if "t \<le> u" "u < t'" for u
    proof -
      define b where "b = (u + k * 60000) div 60000"
      have "b * 60000 \<le> u + k * 60000" "u + k * 60000 < b * 60000 + 60000"
        using mult_div_bounds [of 60000 "u + k * 60000"] by (simp_all add: b_def)
      with that nm(4) 2(1) have "n * 1440 + m \<le> b" "b < a" by (simp_all add: instant_def)
      with 2(4) show ?thesis unfolding is_working_time_iff [OF zone] b_def [symmetric] by blast
    qed
    ultimately show ?thesis using t 2(2,4) by simp
  qed
qed

subsection \<open>The bound on the day loops is enough\<close>

definition weekday_minutes :: "business_calendar \<Rightarrow> int \<Rightarrow> int" where
  "weekday_minutes bc w = worked 0 1440 (hours_of_weekday bc w)"

lemma day_span_sum:
  "day_span bc j n m 1440 = worked m 1440 (day_hours bc n) + (\<Sum>i<j. worked 0 1440 (day_hours bc (n + 1 + int i)))"
proof (induction j arbitrary: n m)
  case (Suc j)
  have "(\<Sum>i<Suc j. worked 0 1440 (day_hours bc (n + 1 + int i))) =
      worked 0 1440 (day_hours bc (n + 1)) + (\<Sum>i<j. worked 0 1440 (day_hours bc (n + 1 + 1 + int i)))"
    by (subst sum.lessThan_Suc_shift) (simp add: algebra_simps)
  with Suc show ?case by simp
qed simp

lemma day_hours_cases:
  "day_hours bc n = (if civil n \<in> set (bc_holidays bc) then [] else hours_of_weekday bc (weekday n))"
  by (simp add: day_hours_def intervals_def day_parts_def)

text \<open>Each holiday can take one of the days of a given weekday away, no more.\<close>

lemma weekly_minutes:
  assumes "\<And>i. weekday (n + 7 * int i) = w" "length (bc_holidays bc) \<le> h"
  shows "weekday_minutes bc w * int q \<le> (\<Sum>i<q + h. worked 0 1440 (day_hours bc (n + 7 * int i)))"
proof -
  let ?off = "{i \<in> {..<q + h}. civil (n + 7 * int i) \<in> set (bc_holidays bc)}"
  have "card ?off = card ((\<lambda>i. civil (n + 7 * int i)) ` ?off)"
    by (intro card_image [symmetric] inj_onI) simp
  also have "\<dots> \<le> card (set (bc_holidays bc))"
    by (intro card_mono) auto
  also have "\<dots> \<le> h" using card_length assms(2) order_trans by blast
  finally have off: "card ?off \<le> h" .
  have "card ({..<q + h} - ?off) = q + h - card ?off"
    by (subst card_Diff_subset) auto
  with off have q: "q \<le> card ({..<q + h} - ?off)" by simp
  have nonneg: "0 \<le> weekday_minutes bc w" by (simp add: weekday_minutes_def worked_nonneg)
  have "weekday_minutes bc w * int q \<le> weekday_minutes bc w * int (card ({..<q + h} - ?off))"
    using q nonneg by (intro mult_left_mono) simp_all
  also have "\<dots> = (\<Sum>i\<in>{..<q + h} - ?off. worked 0 1440 (day_hours bc (n + 7 * int i)))"
    by (subst sum.cong [OF refl, of _ _ "\<lambda>i. weekday_minutes bc w"])
      (auto simp: day_hours_cases assms(1) weekday_minutes_def)
  also have "\<dots> \<le> (\<Sum>i<q + h. worked 0 1440 (day_hours bc (n + 7 * int i)))"
    by (intro sum_mono2) (auto simp: worked_nonneg)
  finally show ?thesis .
qed

lemma weekday_within_week: "0 \<le> w \<Longrightarrow> w \<le> 6 \<Longrightarrow> \<exists>o'<7. \<forall>i. weekday (n + 1 + int o' + 7 * int i) = w"
proof -
  assume w: "0 \<le> w" "w \<le> 6"
  let ?o = "nat ((w - n - 5) mod 7)"
  have "weekday (n + 1 + int ?o + 7 * int i) = w" for i
  proof -
    have o: "int ?o = w - n - 5 - 7 * ((w - n - 5) div 7)"
      by (simp add: minus_mult_div_eq_mod)
    have "n + 1 + int ?o + 7 * int i + 4 = w + 7 * (int i - (w - n - 5) div 7)"
      unfolding o by (simp add: algebra_simps)
    then have "weekday (n + 1 + int ?o + 7 * int i) = w mod 7"
      unfolding weekday_def by (simp only: mod_mult_self2)
    with w show ?thesis by simp
  qed
  moreover have "?o < 7" by (simp add: nat_less_iff)
  ultimately show ?thesis by blast
qed

lemma window_minutes:
  assumes "0 \<le> w" "w \<le> 6" "length (bc_holidays bc) \<le> h"
  shows "weekday_minutes bc w * int q \<le> day_span bc (7 * (q + h)) n m 1440"
proof -
  obtain d where d: "d < 7" "\<And>i. weekday (n + 1 + int d + 7 * int i) = w"
    using weekday_within_week [OF assms(1,2), of n] by blast
  have "weekday_minutes bc w * int q \<le> (\<Sum>i<q + h. worked 0 1440 (day_hours bc (n + 1 + int d + 7 * int i)))"
    using weekly_minutes [OF d(2) assms(3)] .
  also have "\<dots> = (\<Sum>i\<in>(\<lambda>i. d + 7 * i) ` {..<q + h}. worked 0 1440 (day_hours bc (n + 1 + int i)))"
    by (subst sum.reindex) (auto simp: inj_on_def algebra_simps)
  also have "\<dots> \<le> (\<Sum>i<7 * (q + h). worked 0 1440 (day_hours bc (n + 1 + int i)))"
    using d(1) by (intro sum_mono2) (auto simp: worked_nonneg)
  also have "\<dots> \<le> day_span bc (7 * (q + h)) n m 1440"
    by (simp add: day_span_sum worked_nonneg)
  finally show ?thesis .
qed

lemma add_days_returns:
  assumes zone: "bc_zone bc = fixed_zone k" and ok: "ordered_hours bc"
  shows "j < f \<Longrightarrow> 0 < r \<Longrightarrow> r \<le> day_span bc j n m 1440 \<Longrightarrow>
    \<exists>t'. add_days f bc r (day_parts n p) m (civil n) = Inr t'"
proof (induction j arbitrary: f r n m p)
  case 0
  then obtain f' where f: "f = Suc f'" by (cases f) auto
  show ?case
  proof (cases "scan_add m r (day_hours bc n)")
    case (Inr left)
    with scan_add_left [OF hours_ok_day [OF ok] 0(2) Inr] 0(3) show ?thesis by simp
  qed (simp add: f add_days_Suc [OF zone] del: add_days.simps)
next
  case (Suc j)
  then obtain f' where f: "f = Suc f'" "j < f'" by (cases f) auto
  show ?case
  proof (cases "scan_add m r (day_hours bc n)")
    case (Inr left)
    with scan_add_left [OF hours_ok_day [OF ok] Suc.prems(2) Inr] Suc.prems(3)
    have "0 < left" "left \<le> day_span bc j (n + 1) 0 1440" by simp_all
    from Suc.IH [OF f(2) this] Inr show ?thesis
      by (simp add: f(1) add_days_Suc [OF zone] del: add_days.simps)
  qed (simp add: f add_days_Suc [OF zone] del: add_days.simps)
qed

lemma add_minutes_returns:
  assumes zone: "bc_zone bc = fixed_zone k" and ok: "ordered_hours bc" and w: "0 \<le> w" "w \<le> 6"
    and minutes: "r \<le> weekday_minutes bc w * int q" and days: "7 * (q + length (bc_holidays bc)) < max_days"
  shows "\<exists>t'. add_minutes bc t r = Inr t'"
proof (cases "0 < r")
  case True
  obtain n m where nm: "local_parts t (fixed_zone k) = day_parts n m" using local_clock by metis
  have "r \<le> day_span bc (7 * (q + length (bc_holidays bc))) n m 1440"
    using minutes window_minutes [OF w order_refl, of bc q n m] by (rule order_trans)
  from add_days_returns [OF zone ok days True this] nm True show ?thesis
    by (simp add: add_minutes_def Let_def zone) (simp add: day_parts_def)
qed (simp add: add_minutes_none)

end
