(* ===== verification/Priority_Policy.thy ===== *)
theory Priority_Policy
  imports Json_Value Business_Calendar
begin

section \<open>Priority matrix and SLA policy (src/domain/tickets/priority-matrix.ts, src/domain/sla/policy.ts)\<close>

text \<open>
  Two configuration bodies and their validators: the matrix the server derives a ticket's priority
  with, and the policy that gives a ticket type and priority its response and resolution targets.
  Both validators are modelled on untyped JSON, and what they accept is read back with the types the
  ticket service uses: \<open>derive\<close> always answers a priority, and every target of an accepted policy
  starts clocks.
\<close>

subsection \<open>Priority\<close>

datatype level = High | Medium | Low
datatype priority = P1 | P2 | P3 | P4

definition level_name :: "level \<Rightarrow> string" where
  "level_name l = (case l of High \<Rightarrow> ''high'' | Medium \<Rightarrow> ''medium'' | Low \<Rightarrow> ''low'')"

definition priority_name :: "priority \<Rightarrow> string" where
  "priority_name p = (case p of P1 \<Rightarrow> ''p1'' | P2 \<Rightarrow> ''p2'' | P3 \<Rightarrow> ''p3'' | P4 \<Rightarrow> ''p4'')"

definition levels :: "level list" where
  "levels = [High, Medium, Low]"

definition priorities :: "priority list" where
  "priorities = [P1, P2, P3, P4]"

datatype matrix_problem = No_cells | Bad_cell level level json | Bad_default json

definition is_priority :: "json \<Rightarrow> bool" where
  "is_priority v \<longleftrightarrow> v \<in> JStr ` priority_name ` set priorities"

definition matrix_cell :: "json \<Rightarrow> level \<Rightarrow> level \<Rightarrow> json" where
  "matrix_cell body impact urgency =
     jget (level_name urgency) (jget (level_name impact) (jget ''cells'' body))"

definition validate_matrix :: "json \<Rightarrow> matrix_problem list" where
  "validate_matrix body =
     (if \<not> truthy (jget ''cells'' body) then [No_cells]
      else
        concat (map (\<lambda>impact. concat (map (\<lambda>urgency.
          if is_priority (matrix_cell body impact urgency) then []
          else [Bad_cell impact urgency (matrix_cell body impact urgency)]) levels)) levels) @
        (if is_priority (jget ''default'' body) then [] else [Bad_default (jget ''default'' body)]))"

definition make_matrix :: "json \<Rightarrow> matrix_problem list + json" where
  "make_matrix body = (if validate_matrix body = [] then Inr body else Inl (validate_matrix body))"

definition derive :: "json \<Rightarrow> level option \<Rightarrow> level option \<Rightarrow> json" where
  "derive body impact urgency =
     (case (impact, urgency) of
        (Some i, Some u) \<Rightarrow> matrix_cell body i u
      | _ \<Rightarrow> jget ''default'' body)"

lemma all_levels: "l \<in> set levels"
  by (cases l) (simp_all add: levels_def)

lemma all_priorities: "p \<in> set priorities"
  by (cases p) (simp_all add: priorities_def)

lemma is_priority_iff: "is_priority v \<longleftrightarrow> (\<exists>p. v = JStr (priority_name p))"
  using all_priorities by (auto simp: is_priority_def)

lemma validate_matrix_Nil:
  "validate_matrix body = [] \<Longrightarrow> is_priority (matrix_cell body i u) \<and> is_priority (jget ''default'' body)"
  using all_levels [of i] all_levels [of u]
  by (auto simp: validate_matrix_def split: if_splits)

lemma priority_name_inj: "priority_name p = priority_name q \<Longrightarrow> p = q"
  by (cases p; cases q) (simp_all add: priority_name_def)

subsection \<open>SLA policy\<close>

datatype policy_problem =
    Policy_not_object
  | Bad_calendar
  | Targets_not_object
  | No_ticket_type
  | Bad_type_key string
  | Type_not_object string
  | No_priority string
  | Unknown_priority string string
  | Target_not_object string string
  | Bad_response string string
  | Bad_resolution string string
  | Response_after_resolution string string

definition max_minutes :: int where
  "max_minutes = 60 * 24 * 365"

definition is_minutes :: "json \<Rightarrow> bool" where
  "is_minutes v \<longleftrightarrow> v = JNull \<or>
     (case whole_number v of None \<Rightarrow> False | Some n \<Rightarrow> 0 < n \<and> n \<le> max_minutes)"

fun later_number :: "json \<Rightarrow> json \<Rightarrow> bool" where
  "later_number (JNum a) (JNum b) = (a > b)"
| "later_number a b = False"

definition target_problems :: "string \<Rightarrow> string \<Rightarrow> json \<Rightarrow> policy_problem list" where
  "target_problems type prio target =
     (if prio \<in> priority_name ` set priorities then [] else [Unknown_priority type prio]) @
     (if \<not> is_plain_object target then [Target_not_object type prio]
      else
        let response = jget ''response_minutes'' target; resolution = jget ''resolution_minutes'' target
        in (if \<not> jhas ''response_minutes'' target \<or> \<not> is_minutes response then [Bad_response type prio] else []) @
           (if \<not> jhas ''resolution_minutes'' target \<or> \<not> is_minutes resolution then [Bad_resolution type prio] else []) @
           (if later_number response resolution then [Response_after_resolution type prio] else []))"

definition type_problems :: "string \<Rightarrow> json \<Rightarrow> policy_problem list" where
  "type_problems type by_priority =
     (if is_snake_case type then [] else [Bad_type_key type]) @
     (if \<not> is_plain_object by_priority then [Type_not_object type]
      else
        (if entries by_priority = [] then [No_priority type] else []) @
        concat (map (\<lambda>(p, t). target_problems type p t) (entries by_priority)))"

definition validate_sla_policy :: "json \<Rightarrow> policy_problem list" where
  "validate_sla_policy body =
     (if \<not> is_plain_object body then [Policy_not_object]
      else
        let cal = jget ''calendar'' body; targets = jget ''targets'' body
        in (case cal of JUndef \<Rightarrow> [] | JStr s \<Rightarrow> if s = [] then [Bad_calendar] else [] | _ \<Rightarrow> [Bad_calendar]) @
           (if \<not> is_plain_object targets then [Targets_not_object]
            else
              (if entries targets = [] then [No_ticket_type] else []) @
              concat (map (\<lambda>(ty, bp). type_problems ty bp) (entries targets))))"

text \<open>The targets of a ticket type and priority, as the ticket service reads them from the policy.\<close>

definition minutes_of :: "json \<Rightarrow> int option" where
  "minutes_of v = whole_number v"

definition policy_targets :: "json \<Rightarrow> string \<Rightarrow> string \<Rightarrow> sla_targets option" where
  "policy_targets body type prio =
     (let target = jget prio (jget type (jget ''targets'' body))
      in if is_plain_object target
         then Some \<lparr>response_minutes = minutes_of (jget ''response_minutes'' target),
                resolution_minutes = minutes_of (jget ''resolution_minutes'' target)\<rparr>
         else None)"

definition good_minutes :: "int option \<Rightarrow> bool" where
  "good_minutes m \<longleftrightarrow> (case m of None \<Rightarrow> True | Some n \<Rightarrow> 0 < n \<and> n \<le> max_minutes)"

lemma is_minutes_good: "is_minutes v \<Longrightarrow> good_minutes (minutes_of v)"
  by (auto simp: is_minutes_def good_minutes_def minutes_of_def split: option.splits)

lemma entry_of_jget: "jget k v \<noteq> JUndef \<Longrightarrow> (k, jget k v) \<in> set (entries v)"
  by (cases v) (auto split: option.splits dest: map_of_SomeD)

lemma accepted_target:
  assumes "validate_sla_policy body = []" "policy_targets body type prio = Some targets"
  shows "good_minutes (response_minutes targets) \<and> good_minutes (resolution_minutes targets) \<and>
    (\<forall>a b. response_minutes targets = Some a \<and> resolution_minutes targets = Some b \<longrightarrow> a \<le> b) \<and>
    prio \<in> priority_name ` set priorities"
proof -
  let ?ts = "jget ''targets'' body"
  let ?bp = "jget type ?ts"
  let ?t = "jget prio ?bp"
  have t: "is_plain_object ?t" and targets: "targets = \<lparr>response_minutes = minutes_of (jget ''response_minutes'' ?t),
      resolution_minutes = minutes_of (jget ''resolution_minutes'' ?t)\<rparr>"
    using assms(2) by (auto simp: policy_targets_def Let_def split: if_splits)
  have mem: "(prio, ?t) \<in> set (entries ?bp)" "(type, ?bp) \<in> set (entries ?ts)"
    using t by (intro entry_of_jget; auto)+
  have "is_plain_object ?bp" using mem(1) by (cases ?bp) auto
  moreover have "is_plain_object ?ts" using mem(2) by (cases ?ts) auto
  moreover from this have "is_plain_object body" by (cases body) auto
  ultimately have "type_problems type ?bp = []" "target_problems type prio ?t = []"
    using assms(1) mem
    by (force simp: validate_sla_policy_def type_problems_def Let_def split: if_splits)+
  then have "is_minutes (jget ''response_minutes'' ?t)" "is_minutes (jget ''resolution_minutes'' ?t)"
      "\<not> later_number (jget ''response_minutes'' ?t) (jget ''resolution_minutes'' ?t)"
      "prio \<in> priority_name ` set priorities"
    using t by (auto simp: target_problems_def Let_def split: if_splits)
  then show ?thesis
    by (auto simp: targets is_minutes_good [unfolded minutes_of_def] minutes_of_def whole_number_Some)
qed

subsection \<open>Properties\<close>

text \<open>A priority matrix the constructor accepts is total: whatever impact and urgency a ticket has,
  present or not, \<open>derive\<close> answers one of the four priorities, and the default exactly when one is
  missing.\<close>

theorem derive_total:
  assumes "make_matrix body = Inr m"
  shows "\<exists>p. derive m impact urgency = JStr (priority_name p) \<and>
    (impact = None \<or> urgency = None \<longrightarrow> derive m impact urgency = jget ''default'' body)"
proof -
  have ok: "validate_matrix body = []" "m = body"
    using assms by (auto simp: make_matrix_def split: if_splits)
  have "is_priority (derive m impact urgency)"
    using validate_matrix_Nil [OF ok(1)] ok(2)
    by (auto simp: derive_def split: option.split)
  then show ?thesis
    using ok(2) by (auto simp: is_priority_iff derive_def split: option.split)
qed

definition sample_matrix :: json where
  "sample_matrix = JObj [(''cells'', JObj (map (\<lambda>(i, row). (i, JObj (zip [''high'', ''medium'', ''low''] (map JStr row))))
     [(''high'', [''p1'', ''p2'', ''p3'']), (''medium'', [''p2'', ''p3'', ''p4'']), (''low'', [''p3'', ''p4'', ''p4''])])),
     (''default'', JStr ''p3'')]"

theorem derive_total_witness:
  "\<exists>p. derive sample_matrix (Some High) (Some Low) = JStr (priority_name p) \<and>
    ((Some High :: level option) = None \<or> (Some Low :: level option) = None \<longrightarrow>
       derive sample_matrix (Some High) (Some Low) = jget ''default'' sample_matrix)"
proof (rule derive_total)
  show "make_matrix sample_matrix = Inr sample_matrix"
    by code_simp
qed

text \<open>Every target an accepted SLA policy gives is usable: each is absent or a positive number of minutes
  up to a year, the response target is not later than the resolution target, and starting the clocks
  of a ticket from it on the wall clock gives one running clock per target that is present, each due
  exactly its target's minutes after the start.\<close>

theorem accepted_policy_starts_clocks:
  assumes "validate_sla_policy body = []" "policy_targets body type prio = Some targets"
  shows "good_minutes (response_minutes targets) \<and> good_minutes (resolution_minutes targets) \<and>
    (\<forall>a b. response_minutes targets = Some a \<and> resolution_minutes targets = Some b \<longrightarrow> a \<le> b) \<and>
    (\<exists>cs. start_clocks targets pol wall_clock now = Inr cs \<and>
      map ck_due cs = map (\<lambda>n. now + n * 60000)
        ((case response_minutes targets of None \<Rightarrow> [] | Some n \<Rightarrow> [n]) @
         (case resolution_minutes targets of None \<Rightarrow> [] | Some n \<Rightarrow> [n])))"
  using accepted_target [OF assms]
  by (auto simp: start_clocks_def make_clock_def positive_target_def good_minutes_def wall_clock_def
      and_then_def split: option.splits)

definition sample_policy :: json where
  "sample_policy = JObj [(''targets'', JObj [(''incident'', JObj [(''p1'',
     JObj [(''response_minutes'', JNum 15), (''resolution_minutes'', JNum 240)])])])]"

theorem accepted_policy_starts_clocks_witness:
  "\<exists>cs. start_clocks \<lparr>response_minutes = Some 15, resolution_minutes = Some 240\<rparr> ''pol'' wall_clock 1000 = Inr cs \<and>
    map ck_due cs = [901000, 14401000]"
proof -
  have "validate_sla_policy sample_policy = []"
    by code_simp
  moreover have "policy_targets sample_policy ''incident'' ''p1'' =
      Some \<lparr>response_minutes = Some 15, resolution_minutes = Some 240\<rparr>"
    by code_simp
  ultimately show ?thesis
    using accepted_policy_starts_clocks [of sample_policy "''incident''" "''p1''" _ "''pol''" 1000] by simp
qed

end
