(* ===== verification/Change_Window.thy ===== *)
theory Change_Window
  imports Prelude
begin

section \<open>Change windows (src/domain/tickets/change-window.ts)\<close>

text \<open>
  The span of a change window, half open, and the freeze windows inside or around it. The text of a
  freeze's ends is kept as the time value \<open>Date.parse\<close> reads from it, \<open>None\<close> for \<open>NaN\<close>; the text itself
  plays no other part. The lemmas relate the two questions the callers ask: a span that runs into no
  freeze contains no frozen instant, and two windows share an instant exactly when they overlap.
\<close>

record span =
  sp_start :: ms
  sp_end :: ms

record freeze_window =
  fw_starts :: "ms option"
  fw_ends :: "ms option"
  fw_reason :: "string option"

record change_window =
  cw_id :: string
  cw_name :: string
  cw_starts :: "ms option"
  cw_ends :: "ms option"
  cw_freezes :: "freeze_window list"
  cw_status :: string

definition within_span :: "span \<Rightarrow> ms \<Rightarrow> bool" where
  "within_span s t \<longleftrightarrow> t \<ge> sp_start s \<and> t < sp_end s"

definition spans_overlap :: "span \<Rightarrow> span \<Rightarrow> bool" where
  "spans_overlap a b \<longleftrightarrow> sp_start a < sp_end b \<and> sp_start b < sp_end a"

definition span_of :: "change_window \<Rightarrow> span option" where
  "span_of w =
     (case (cw_starts w, cw_ends w) of
        (Some a, Some b) \<Rightarrow> Some \<lparr>sp_start = a, sp_end = b\<rparr>
      | _ \<Rightarrow> None)"

definition inside_window :: "change_window \<Rightarrow> ms \<Rightarrow> bool" where
  "inside_window w t = (case span_of w of None \<Rightarrow> False | Some s \<Rightarrow> within_span s t)"

definition freeze_span :: "freeze_window \<Rightarrow> span option" where
  "freeze_span f =
     (case (fw_starts f, fw_ends f) of
        (Some a, Some b) \<Rightarrow> Some \<lparr>sp_start = a, sp_end = b\<rparr>
      | _ \<Rightarrow> None)"

definition to_spans :: "freeze_window list \<Rightarrow> span list" where
  "to_spans fs = map the (filter (\<lambda>s. s \<noteq> None) (map freeze_span fs))"

definition first_span :: "freeze_window \<Rightarrow> span option" where
  "first_span f = (case to_spans [f] of [] \<Rightarrow> None | s # _ \<Rightarrow> Some s)"

definition freeze_at :: "change_window \<Rightarrow> ms \<Rightarrow> freeze_window option" where
  "freeze_at w t =
     find (\<lambda>f. case first_span f of None \<Rightarrow> False | Some s \<Rightarrow> within_span s t) (cw_freezes w)"

definition freeze_overlapping :: "change_window \<Rightarrow> span \<Rightarrow> freeze_window option" where
  "freeze_overlapping w s =
     find (\<lambda>f. case first_span f of None \<Rightarrow> False | Some x \<Rightarrow> spans_overlap x s) (cw_freezes w)"

datatype freeze_problem = Freeze_start_not_date nat | Freeze_end_not_date nat | Freeze_end_not_after nat

definition freeze_entry_problems :: "nat \<Rightarrow> freeze_window \<Rightarrow> freeze_problem list" where
  "freeze_entry_problems i f =
     (if fw_starts f = None then [Freeze_start_not_date i] else []) @
     (if fw_ends f = None then [Freeze_end_not_date i] else []) @
     (case (fw_starts f, fw_ends f) of
        (Some a, Some b) \<Rightarrow> if b \<le> a then [Freeze_end_not_after i] else []
      | _ \<Rightarrow> [])"

definition freeze_problems :: "freeze_window list \<Rightarrow> freeze_problem list" where
  "freeze_problems fs = concat (map (\<lambda>(i, f). freeze_entry_problems i f) (enumerate 0 fs))"

subsection \<open>Lemmas\<close>

lemma first_span_eq [simp]: "first_span f = freeze_span f"
  by (cases "freeze_span f") (simp_all add: first_span_def to_spans_def)

lemma find_None_iff_all: "find P xs = None \<longleftrightarrow> (\<forall>x\<in>set xs. \<not> P x)"
  by (auto simp: find_None_iff)

lemma shared_instant_overlap: "within_span a t \<Longrightarrow> within_span b t \<Longrightarrow> spans_overlap a b"
  by (auto simp: within_span_def spans_overlap_def)

lemma overlap_shared_instant:
  "sp_start a < sp_end a \<Longrightarrow> sp_start b < sp_end b \<Longrightarrow> spans_overlap a b \<Longrightarrow>
     within_span a (max (sp_start a) (sp_start b)) \<and> within_span b (max (sp_start a) (sp_start b))"
  by (auto simp: within_span_def spans_overlap_def)

lemma freeze_problems_Nil:
  "freeze_problems fs = [] \<longleftrightarrow> (\<forall>f\<in>set fs. \<exists>a b. fw_starts f = Some a \<and> fw_ends f = Some b \<and> a < b)"
proof -
  have entry: "freeze_entry_problems i f = [] \<longleftrightarrow> (\<exists>a b. fw_starts f = Some a \<and> fw_ends f = Some b \<and> a < b)" for i f
    by (cases "fw_starts f"; cases "fw_ends f") (auto simp: freeze_entry_problems_def)
  have "freeze_problems fs = [] \<longleftrightarrow> (\<forall>x\<in>set (enumerate 0 fs). freeze_entry_problems (fst x) (snd x) = [])"
    by (auto simp: freeze_problems_def)
  also have "\<dots> \<longleftrightarrow> (\<forall>f\<in>set (map snd (enumerate 0 fs)). \<exists>a b. fw_starts f = Some a \<and> fw_ends f = Some b \<and> a < b)"
    unfolding entry set_map by blast
  finally show ?thesis by simp
qed

subsection \<open>Properties\<close>

text \<open>With freezes the validator accepts, scheduling a span that overlaps no freeze is scheduling it
  wholly outside them: the overlap question answers none exactly when no instant of the span is frozen.\<close>

theorem free_span_iff_no_frozen_instant:
  assumes "freeze_problems (cw_freezes w) = []" "sp_start s < sp_end s"
  shows "freeze_overlapping w s = None \<longleftrightarrow> (\<forall>t. within_span s t \<longrightarrow> freeze_at w t = None)"
proof
  assume "freeze_overlapping w s = None"
  then show "\<forall>t. within_span s t \<longrightarrow> freeze_at w t = None"
    by (auto simp: freeze_overlapping_def freeze_at_def find_None_iff_all split: option.splits
        dest: shared_instant_overlap)
next
  assume free: "\<forall>t. within_span s t \<longrightarrow> freeze_at w t = None"
  have "\<not> spans_overlap x s" if f: "f \<in> set (cw_freezes w)" "freeze_span f = Some x" for f x
  proof
    assume o: "spans_overlap x s"
    have "sp_start x < sp_end x"
      using assms(1) f by (force simp: freeze_problems_Nil freeze_span_def split: option.splits)
    from overlap_shared_instant [OF this assms(2) o]
    have "within_span x (max (sp_start x) (sp_start s))" "within_span s (max (sp_start x) (sp_start s))"
      by blast+
    moreover from this(2) free have "freeze_at w (max (sp_start x) (sp_start s)) = None" by blast
    ultimately show False
      using f by (auto simp: freeze_at_def find_None_iff_all dest!: bspec [of _ _ f])
  qed
  then show "freeze_overlapping w s = None"
    by (auto simp: freeze_overlapping_def find_None_iff_all split: option.splits)
qed

definition sample_window :: change_window where
  "sample_window = \<lparr>cw_id = ''w1'', cw_name = ''release'', cw_starts = Some 0, cw_ends = Some 1000,
     cw_freezes = [\<lparr>fw_starts = Some 100, fw_ends = Some 200, fw_reason = None\<rparr>], cw_status = ''active''\<rparr>"

theorem free_span_iff_no_frozen_instant_witness:
  "freeze_overlapping sample_window \<lparr>sp_start = 200, sp_end = 300\<rparr> = None \<longleftrightarrow>
     (\<forall>t. within_span \<lparr>sp_start = 200, sp_end = 300\<rparr> t \<longrightarrow> freeze_at sample_window t = None)"
proof (rule free_span_iff_no_frozen_instant)
  show "freeze_problems (cw_freezes sample_window) = []"
    by code_simp
qed simp

end
