(* ===== verification/Ticket_Service.thy ===== *)
theory Ticket_Service
  imports Close_Discipline Priority_Policy Change_Window
begin

section \<open>The ticket service (src/modules/tickets/tickets.service.ts)\<close>

text \<open>
  The only writer of ticket state. A handler runs in one transaction over the rows of one ticket: the
  record \<open>store\<close> holds the ticket, its clocks, pauses, audit entries, outbox events and work notes, and a
  handler is a function to a refusal or the new store, so a refusal leaves the old one as a rolled back
  transaction does. What the handler reads from other modules (the resolved state machine, catalogs,
  logged minutes, calendars, articles, the change window's row) is the record \<open>reads\<close>, an argument.
  Permissions checked by guards in front of the service are not modelled; the ones it checks itself are.
  Notifications and the returned view are left out: they change none of these rows.
\<close>

subsection \<open>Rows\<close>

datatype scope_state = Scope_none | Scope_flagged | Scope_approved | Scope_declined

record scope_detail =
  sd_reason :: "string option"
  sd_flagged_by :: "string option"
  sd_withdrawn_by :: "string option"
  sd_approved :: "bool option"
  sd_note :: "string option"
  sd_decided_by :: "string option"
  sd_allowance :: "int option"
  sd_period :: "string option"

definition empty_detail :: scope_detail where
  "empty_detail = \<lparr>sd_reason = None, sd_flagged_by = None, sd_withdrawn_by = None, sd_approved = None,
     sd_note = None, sd_decided_by = None, sd_allowance = None, sd_period = None\<rparr>"

record ticket =
  tk_id :: string
  tk_account :: string
  tk_type :: string
  tk_state :: string
  tk_version :: int
  tk_impact :: "level option"
  tk_urgency :: "level option"
  tk_priority :: priority
  tk_overridden :: bool
  tk_ticket_group :: "string option"
  tk_item :: "string option"
  tk_first_response :: "ms option"
  tk_resolved :: "ms option"
  tk_closed :: "ms option"
  tk_cancelled :: "ms option"
  tk_reopens :: int
  tk_code :: "string option"
  tk_notes :: "string option"
  tk_article :: "string option"
  tk_candidate :: bool
  tk_exemption :: "string option"
  tk_response_breached :: bool
  tk_resolution_breached :: bool
  tk_scope :: scope_state
  tk_detail :: scope_detail

record sla_pause =
  sp_reason :: "string option"
  sp_started :: ms
  sp_ended :: "ms option"
  sp_excluded :: "int option"

datatype event =
    Ev_transition string string
  | Ev_breached clock_kind ms
  | Ev_resumed int
  | Ev_paused "string option"
  | Ev_met
  | Ev_window_acknowledged string bool nat
  | Ev_window_overridden string bool
  | Ev_exempted string
  | Ev_solution string
  | Ev_changed string
  | Ev_comment
  | Ev_priority_overridden priority priority
  | Ev_scope_flagged string
  | Ev_scope_withdrawn
  | Ev_scope_decided scope_state int
  | Ev_allowance int int
  | Ev_link string string
  | Ev_created
  | Ev_updated "string list"

record contract_period =
  cp_id :: string
  cp_version :: int
  cp_carried :: int
  cp_locked :: bool

record comment_row =
  cm_author :: string
  cm_body :: string
  cm_first_response :: bool

record scope_row =
  sr_event :: string
  sr_reason :: string
  sr_actor :: string
  sr_note :: "string option"
  sr_allowance :: int
  sr_period :: "string option"
  sr_client_visible :: bool

record store =
  st_ticket :: ticket
  st_clocks :: "(string \<times> clock) list"
  st_pauses :: "sla_pause list"
  st_audit :: "event list"
  st_outbox :: "event list"
  st_work_notes :: "string list"
  st_comments :: "comment_row list"
  st_scope_record :: "scope_row list"

datatype principal_kind = Internal_user | Portal_user | Api_client

record principal =
  pr_user :: string
  pr_kind :: principal_kind
  pr_permissions :: "string list"

datatype service_error =
    Stale_version int
  | Invalid_transition string string "string list"
  | Missing_requirements "missing_item list"
  | Change_freeze
  | Change_conflict
  | Change_window_required
  | Outside_change_window
  | Article_not_found
  | Article_not_published string
  | Calendar_failed calendar_error
  | Ticket_closed
  | Forbidden string
  | Already_flagged
  | Reason_required
  | Not_flagged
  | Flagger_cannot_decide
  | No_contract_period
  | Contract_period_locked
  | Not_found string
  | Self_link
  | Link_cycle string
  | Ticket_group_cancelled string
  | Import_only
  | Unknown_state string

record article =
  ar_key :: string
  ar_published :: bool
  ar_version :: "string option"

record group_row =
  gr_kind :: string
  gr_window :: change_window

record reads =
  rd_machine :: state_machine
  rd_group :: "group_row option"
  rd_conflicts :: "string list"
  rd_known_codes :: "string list"
  rd_no_solution :: "string list"
  rd_exemptions :: "string list"
  rd_min_notes :: int
  rd_logged :: int
  rd_calendar :: "string \<Rightarrow> calendar"
  rd_article :: "string \<Rightarrow> article option"

text \<open>The versioned update of the repository: the row is written only at the version the caller read.\<close>

definition update_versioned :: "int \<Rightarrow> (ticket \<Rightarrow> ticket) \<Rightarrow> ticket \<Rightarrow> service_error + ticket" where
  "update_versioned version assign t =
     (if tk_version t \<noteq> version then Inl (Stale_version (tk_version t))
      else Inr ((assign t)\<lparr>tk_version := tk_version t + 1\<rparr>))"

text \<open>The account's close discipline as the service reads it from the catalog, absent or not.\<close>

definition discipline_reasons :: "json option \<Rightarrow> string list" where
  "discipline_reasons body =
     (let configured = (case body of None \<Rightarrow> []
          | Some b \<Rightarrow>
              (case jget ''time_exemption_reasons'' b of
                 JArr rs \<Rightarrow> map (\<lambda>r. text_of (jget ''key'' r))
                   (filter (\<lambda>r. (\<exists>k. jget ''key'' r = JStr k) \<and> (\<exists>l. jget ''label'' r = JStr l)) rs)
               | _ \<Rightarrow> []))
      in if configured \<noteq> [] then configured else map fst default_exemption_reasons)"

definition discipline_min_notes :: "json option \<Rightarrow> int" where
  "discipline_min_notes body =
     min_notes_chars (case body of None \<Rightarrow> None
       | Some b \<Rightarrow> (case jget ''min_resolution_notes_chars'' b of JNum n \<Rightarrow> Some (Finite n) | _ \<Rightarrow> None))"

subsection \<open>The change window gate\<close>

definition window_row :: "group_row option \<Rightarrow> change_window option" where
  "window_row g =
     (case g of None \<Rightarrow> None
      | Some r \<Rightarrow> if gr_kind r = ''change_window'' \<and> cw_status (gr_window r) \<noteq> ''cancelled'' then Some (gr_window r) else None)"

definition schedule_check ::
    "requirement list \<Rightarrow> change_window option \<Rightarrow> string \<Rightarrow> string list \<Rightarrow> service_error + event list" where
  "schedule_check reqs window note conflicts =
     (case (window, Option.bind window span_of) of
        (Some w, Some s) \<Rightarrow>
          if Req_change_window \<in> set reqs then
            let freeze = freeze_overlapping w s
            in if (freeze \<noteq> None \<or> conflicts \<noteq> []) \<and> note = [] then
                 Inl (if freeze \<noteq> None then Change_freeze else Change_conflict)
               else if freeze \<noteq> None \<or> conflicts \<noteq> [] then
                 Inr [Ev_window_acknowledged note (freeze \<noteq> None) (length conflicts)]
               else Inr []
          else Inr []
      | _ \<Rightarrow> Inr [])"

definition window_open :: "change_window option \<Rightarrow> ms \<Rightarrow> bool" where
  "window_open window now =
     (case window of None \<Rightarrow> False | Some w \<Rightarrow> inside_window w now \<and> freeze_at w now = None)"

definition deploy_check :: "bool \<Rightarrow> change_window option \<Rightarrow> string \<Rightarrow> bool \<Rightarrow> ms \<Rightarrow> service_error + event list" where
  "deploy_check deploy window note may_override now =
     (if deploy \<and> \<not> window_open window now then
        (if \<not> (may_override \<and> note \<noteq> []) then
           Inl (if window = None then Change_window_required else Outside_change_window)
         else Inr [Ev_window_overridden note (case window of None \<Rightarrow> False | Some w \<Rightarrow> freeze_at w now \<noteq> None)])
      else Inr [])"

definition assert_change_window ::
    "requirement list \<Rightarrow> state_effects \<Rightarrow> change_window option \<Rightarrow> string option \<Rightarrow> bool \<Rightarrow> ms \<Rightarrow> string list \<Rightarrow>
       service_error + event list" where
  "assert_change_window reqs te window reason may_override now conflicts =
     and_then (schedule_check reqs window (trimmed reason) conflicts) (\<lambda>a.
     and_then (deploy_check (eff_deploy te) window (trimmed reason) may_override now) (\<lambda>b. Inr (a @ b)))"

definition conflicts_for :: "ticket \<Rightarrow> change_window option \<Rightarrow> string list \<Rightarrow> string list" where
  "conflicts_for t window found =
     (if window = None \<or> Option.bind window span_of = None \<or> tk_item t = None then [] else found)"

subsection \<open>The clocks of a transition\<close>

definition latch_all :: "ms \<Rightarrow> (string \<times> clock) list \<Rightarrow> (string \<times> clock) list" where
  "latch_all now cs = map (\<lambda>(i, c). (i, fst (latch c now))) cs"

definition latch_events :: "ms \<Rightarrow> (string \<times> clock) list \<Rightarrow> event list" where
  "latch_events now cs = concat (map (\<lambda>(i, c). if snd (latch c now) then [Ev_breached (ck_kind c) (ck_due c)] else []) cs)"

fun resume_all :: "(string \<Rightarrow> calendar) \<Rightarrow> ms \<Rightarrow> (string \<times> clock) list \<Rightarrow> calendar_error + (string \<times> clock) list \<times> int" where
  "resume_all cal now [] = Inr ([], 0)"
| "resume_all cal now ((i, c) # cs) =
     and_then (resume_clock c (cal (ck_calendar_id c)) now) (\<lambda>(c', n).
     and_then (resume_all cal now cs) (\<lambda>(cs', x). Inr ((i, c') # cs', max n x)))"

definition pause_all :: "ms \<Rightarrow> (string \<times> clock) list \<Rightarrow> (string \<times> clock) list" where
  "pause_all now cs = map (\<lambda>(i, c). (i, pause_clock c now)) cs"

definition meet :: "clock_kind \<Rightarrow> ms \<Rightarrow> (string \<times> clock) list \<Rightarrow> (string \<times> clock) list" where
  "meet k now cs = map (\<lambda>(i, c). (i, if ck_kind c = k then mark_met c now else c)) cs"

text \<open>Latch; leaving a paused state, resume and latch again; entering one, pause; then the met marks.\<close>

definition resume_phase ::
    "(string \<Rightarrow> calendar) \<Rightarrow> state_effects \<Rightarrow> state_effects \<Rightarrow> ms \<Rightarrow> (string \<times> clock) list \<Rightarrow>
       calendar_error + (string \<times> clock) list \<times> event list \<times> int option" where
  "resume_phase cal fe te now cs =
     (if eff_pause fe \<and> \<not> eff_pause te then
        and_then (resume_all cal now (latch_all now cs)) (\<lambda>(r, x).
          Inr (latch_all now r, latch_events now cs @ [Ev_resumed x] @ latch_events now r, Some x))
      else Inr (latch_all now cs, latch_events now cs, None))"

definition settle_phase ::
    "state_effects \<Rightarrow> state_effects \<Rightarrow> bool \<Rightarrow> ms \<Rightarrow> (string \<times> clock) list \<Rightarrow> (string \<times> clock) list" where
  "settle_phase fe te respond now cs =
     (let c2 = (if eff_pause te \<and> \<not> eff_pause fe then pause_all now cs else cs);
          c3 = (if respond then meet Response now c2 else c2)
      in if eff_resolve te then meet Resolution now c3 else c3)"

definition kind_breached :: "clock_kind \<Rightarrow> (string \<times> clock) list \<Rightarrow> bool" where
  "kind_breached k cs \<longleftrightarrow> list_ex (\<lambda>p. ck_kind (snd p) = k \<and> ck_breached (snd p) \<noteq> None) cs"

subsection \<open>transition\<close>

record transition_dto =
  td_to :: string
  td_version :: int
  td_pause_reason :: "string option"
  td_note :: "string option"
  td_resolution :: "resolution_input option"
  td_window_reason :: "string option"

definition actor_of :: "principal \<Rightarrow> actor_kind" where
  "actor_of p = (if pr_kind p = Portal_user then Portal else Internal)"

definition gate_facts :: "reads \<Rightarrow> change_window option \<Rightarrow> close_facts" where
  "gate_facts rd window =
     \<lparr>logged_minutes = rd_logged rd, in_change_window = (Option.bind window span_of \<noteq> None),
      no_solution_codes = rd_no_solution rd, known_codes = rd_known_codes rd,
      exemptions_configured = Some (rd_exemptions rd), notes_bar_configured = Some (Finite (of_int (rd_min_notes rd)))\<rparr>"

definition article_check :: "reads \<Rightarrow> state_effects \<Rightarrow> resolution_input option \<Rightarrow> service_error + event list" where
  "article_check rd te res =
     (case res of
        None \<Rightarrow> Inr []
      | Some r \<Rightarrow>
          if \<not> eff_resolve te \<or> no_text (res_article r) then Inr []
          else (case rd_article rd (the (res_article r)) of
                  None \<Rightarrow> Inl Article_not_found
                | Some a \<Rightarrow> if \<not> ar_published a \<or> no_text (ar_version a) then Inl (Article_not_published (ar_key a))
                            else Inr [Ev_solution (ar_key a)]))"

definition exemption_of :: "resolution_input \<Rightarrow> string option" where
  "exemption_of r = (if trimmed (res_exemption r) = [] then None else Some (trimmed (res_exemption r)))"

definition exemption_events ::
    "requirement list \<Rightarrow> reads \<Rightarrow> state_effects \<Rightarrow> resolution_input option \<Rightarrow> event list" where
  "exemption_events reqs rd te res =
     (case res of
        None \<Rightarrow> []
      | Some r \<Rightarrow>
          (case exemption_of r of
             None \<Rightarrow> []
           | Some x \<Rightarrow> if eff_resolve te \<and> Req_time_logged \<in> set reqs \<and> rd_logged rd \<le> 0 then [Ev_exempted x] else []))"

definition assign_resolution :: "resolution_input option \<Rightarrow> ticket \<Rightarrow> ticket" where
  "assign_resolution res t =
     (case res of
        None \<Rightarrow> t
      | Some r \<Rightarrow> t\<lparr>tk_code := res_code r, tk_notes := res_notes r, tk_article := res_article r,
          tk_candidate := res_candidate r, tk_exemption := exemption_of r\<rparr>)"

definition assign_transition ::
    "transition_dto \<Rightarrow> state_effects \<Rightarrow> bool \<Rightarrow> bool \<Rightarrow> ms \<Rightarrow> (string \<times> clock) list \<Rightarrow> ticket \<Rightarrow> ticket" where
  "assign_transition dto te respond reopen now cs t =
     (let t1 = t\<lparr>tk_state := td_to dto\<rparr>;
          t2 = (if respond then t1\<lparr>tk_first_response := Some now\<rparr> else t1);
          t3 = (if eff_resolve te then assign_resolution (td_resolution dto) (t2\<lparr>tk_resolved := Some now\<rparr>) else t2);
          t4 = (if eff_close te then t3\<lparr>tk_closed := Some now\<rparr> else t3);
          t5 = (if eff_cancel te then t4\<lparr>tk_cancelled := Some now\<rparr> else t4);
          t6 = (if reopen then t5\<lparr>tk_resolved := None, tk_reopens := tk_reopens t + 1\<rparr> else t5)
      in t6\<lparr>tk_response_breached := kind_breached Response cs, tk_resolution_breached := kind_breached Resolution cs\<rparr>)"

definition transition_diff :: "ticket \<Rightarrow> ticket \<Rightarrow> event list" where
  "transition_diff a b =
     (if tk_code a \<noteq> tk_code b then [Ev_changed ''resolution_code''] else []) @
     (if tk_notes a \<noteq> tk_notes b then [Ev_changed ''resolution_notes''] else []) @
     (if tk_article a \<noteq> tk_article b then [Ev_changed ''solution_article_id''] else []) @
     (if tk_exemption a \<noteq> tk_exemption b then [Ev_changed ''time_exemption_reason''] else []) @
     (if tk_reopens a \<noteq> tk_reopens b then [Ev_changed ''reopen_count''] else [])"

definition end_pauses :: "ms \<Rightarrow> int option \<Rightarrow> sla_pause list \<Rightarrow> sla_pause list" where
  "end_pauses now excluded ps =
     (case excluded of None \<Rightarrow> ps
      | Some x \<Rightarrow> map (\<lambda>p. if sp_ended p = None then p\<lparr>sp_ended := Some now, sp_excluded := Some x\<rparr> else p) ps)"

definition responds :: "principal \<Rightarrow> state_effects \<Rightarrow> ticket \<Rightarrow> bool" where
  "responds p te before \<longleftrightarrow> eff_response_met te \<and> tk_first_response before = None \<and> actor_of p = Internal"

definition reopens :: "state_machine \<Rightarrow> string \<Rightarrow> string \<Rightarrow> bool" where
  "reopens m a b = (case find_transition m a b of None \<Rightarrow> False | Some d \<Rightarrow> tr_reopen d)"

definition group_window :: "reads \<Rightarrow> ticket \<Rightarrow> change_window option" where
  "group_window rd before = window_row (if tk_ticket_group before = None then None else rd_group rd)"

definition transition :: "reads \<Rightarrow> principal \<Rightarrow> transition_dto \<Rightarrow> ms \<Rightarrow> store \<Rightarrow> service_error + store" where
  "transition rd p dto now st =
     (let before = st_ticket st; m = rd_machine rd; actor = actor_of p
      in if tk_version before \<noteq> td_version dto then Inl (Stale_version (tk_version before))
         else if \<not> can_transition m (tk_state before) (td_to dto) actor then
           Inl (Invalid_transition (tk_state before) (td_to dto) (map tr_to (available m (tk_state before) actor)))
         else
           let reqs = requirements m (tk_state before) (td_to dto);
               window = group_window rd before;
               missing = check_requirements reqs
                 \<lparr>ti_pause_reason = td_pause_reason dto, ti_resolution = td_resolution dto\<rparr> (gate_facts rd window);
               fe = effects m (tk_state before); te = effects m (td_to dto);
               respond = responds p te before; reopen = reopens m (tk_state before) (td_to dto);
               enter = eff_pause te \<and> \<not> eff_pause fe
           in if missing \<noteq> [] then Inl (Missing_requirements missing)
              else
                and_then (assert_change_window reqs te window (td_window_reason dto)
                    (''tickets:override-change-window'' \<in> set (pr_permissions p)) now
                    (conflicts_for before window (rd_conflicts rd))) (\<lambda>notes.
                and_then (case resume_phase (rd_calendar rd) fe te now (st_clocks st) of
                    Inl e \<Rightarrow> Inl (Calendar_failed e) | Inr x \<Rightarrow> Inr x) (\<lambda>(resumed, clock_events, excluded).
                and_then (article_check rd te (td_resolution dto)) (\<lambda>solution.
                  let clocks = settle_phase fe te respond now resumed;
                      paused = (if enter then [Ev_paused (td_pause_reason dto)] else []);
                      exempt = exemption_events reqs rd te (td_resolution dto)
                  in and_then (update_versioned (td_version dto) (assign_transition dto te respond reopen now clocks) before)
                    (\<lambda>after. Inr
                      \<lparr>st_ticket = after, st_clocks = clocks,
                       st_pauses = end_pauses now excluded (st_pauses st) @
                         (if enter then [\<lparr>sp_reason = td_pause_reason dto, sp_started = now, sp_ended = None, sp_excluded = None\<rparr>] else []),
                       st_audit = st_audit st @ [Ev_transition (tk_state before) (td_to dto)] @ notes @ clock_events @ paused @
                         solution @ exempt @ transition_diff before after,
                       st_outbox = st_outbox st @ [Ev_transition (tk_state before) (td_to dto)] @ notes @ clock_events @ paused @ exempt,
                       st_work_notes = st_work_notes st @
                         (if \<not> no_text (td_note dto) \<and> \<not> eff_pause te then [the (td_note dto)] else []),
                       st_comments = st_comments st, st_scope_record = st_scope_record st\<rparr>)))))"


subsection \<open>What a transition that succeeds went through\<close>

lemma update_versioned_Inr:
  "update_versioned v f t = Inr t' \<longleftrightarrow> tk_version t = v \<and> t' = (f t)\<lparr>tk_version := tk_version t + 1\<rparr>"
  by (auto simp: update_versioned_def)

lemma transition_success:
  assumes "transition rd p dto now st = Inr st'"
  obtains m t fe te reqs window respond acks resumed clock_events excluded solution where
    "m = rd_machine rd" "t = st_ticket st" "fe = effects m (tk_state t)" "te = effects m (td_to dto)"
    "reqs = requirements m (tk_state t) (td_to dto)" "window = group_window rd t" "respond = responds p te t"
    "tk_version t = td_version dto"
    "can_transition m (tk_state t) (td_to dto) (actor_of p)"
    "check_requirements reqs \<lparr>ti_pause_reason = td_pause_reason dto, ti_resolution = td_resolution dto\<rparr>
       (gate_facts rd window) = []"
    "assert_change_window reqs te window (td_window_reason dto)
       (''tickets:override-change-window'' \<in> set (pr_permissions p)) now (conflicts_for t window (rd_conflicts rd)) = Inr acks"
    "resume_phase (rd_calendar rd) fe te now (st_clocks st) = Inr (resumed, clock_events, excluded)"
    "article_check rd te (td_resolution dto) = Inr solution"
    "st_clocks st' = settle_phase fe te respond now resumed"
    "st_ticket st' = (assign_transition dto te respond (reopens m (tk_state t) (td_to dto)) now (st_clocks st') t)
       \<lparr>tk_version := tk_version t + 1\<rparr>"
    "st_audit st' = st_audit st @ [Ev_transition (tk_state t) (td_to dto)] @ acks @ clock_events @
       (if eff_pause te \<and> \<not> eff_pause fe then [Ev_paused (td_pause_reason dto)] else []) @ solution @
       exemption_events reqs rd te (td_resolution dto) @ transition_diff t (st_ticket st')"
  using assms
  by (auto simp: transition_def Let_def update_versioned_Inr and_then_Inr split: if_splits sum.splits)

lemma assign_transition_simps [simp]:
  "tk_state (assign_transition dto te respond reopen now cs t) = td_to dto"
  "tk_response_breached (assign_transition dto te respond reopen now cs t) = kind_breached Response cs"
  "tk_resolution_breached (assign_transition dto te respond reopen now cs t) = kind_breached Resolution cs"
  by (simp_all add: assign_transition_def assign_resolution_def Let_def split: option.split)

subsection \<open>The clocks through a transition\<close>

text \<open>Every phase keeps the rows and their order, and no phase moves a recorded breach.\<close>

definition kept :: "string \<times> clock \<Rightarrow> string \<times> clock \<Rightarrow> bool" where
  "kept p q \<longleftrightarrow> fst q = fst p \<and> ck_kind (snd q) = ck_kind (snd p) \<and>
     (ck_breached (snd p) \<noteq> None \<longrightarrow> ck_breached (snd q) = ck_breached (snd p))"

lemma kept_refl [simp]: "kept p p"
  by (simp add: kept_def)

lemma kept_trans: "kept p q \<Longrightarrow> kept q r \<Longrightarrow> kept p r"
  by (auto simp: kept_def)

lemma kept_all_refl [simp]: "list_all2 kept cs cs"
  by (rule list.rel_refl) simp

lemma kept_all_trans: "list_all2 kept as bs \<Longrightarrow> list_all2 kept bs cs \<Longrightarrow> list_all2 kept as cs"
  by (rule list_all2_trans [where ?P1.0 = kept and ?P2.0 = kept]) (auto intro: kept_trans)

lemma kept_ops:
  "kept (i, c) (i, fst (latch c now))"
  "kept (i, c) (i, pause_clock c now)"
  "kept (i, c) (i, mark_met c now)"
  "resume_clock c cal now = Inr (c', n) \<Longrightarrow> kept (i, c) (i, c')"
  by (auto simp: kept_def breached_kept(1,2,4) resume_kind dest: breached_kept(3))

lemma kept_map:
  assumes "\<And>i c. kept (i, c) (i, f c)"
  shows "list_all2 kept cs (map (\<lambda>(i, c). (i, f c)) cs)"
  using assms by (induction cs) (auto split: prod.split)

lemma latch_all_kept: "list_all2 kept cs (latch_all now cs)"
  unfolding latch_all_def by (rule kept_map) (rule kept_ops)

lemma pause_all_kept: "list_all2 kept cs (pause_all now cs)"
  unfolding pause_all_def by (rule kept_map) (rule kept_ops)

lemma meet_kept: "list_all2 kept cs (meet k now cs)"
  unfolding meet_def by (rule kept_map) (simp add: kept_ops)

lemma resume_all_kept: "resume_all cal now cs = Inr (ds, x) \<Longrightarrow> list_all2 kept cs ds"
  by (induction cal now cs arbitrary: ds x rule: resume_all.induct) (auto simp: and_then_Inr kept_ops)

lemma settle_kept: "list_all2 kept cs (settle_phase fe te respond now cs)"
  unfolding settle_phase_def Let_def
  by (auto intro!: meet_kept [THEN kept_all_trans [rotated]] pause_all_kept)

lemma resume_phase_kept:
  "resume_phase cal fe te now cs = Inr (ds, evs, x) \<Longrightarrow> list_all2 kept (latch_all now cs) ds"
  by (auto simp: resume_phase_def and_then_Inr split: if_splits
      intro: kept_all_trans resume_all_kept latch_all_kept)

lemma transition_kept:
  assumes "transition rd p dto now st = Inr st'"
  shows "list_all2 kept (latch_all now (st_clocks st)) (st_clocks st')"
  using assms by (rule transition_success) (auto intro: kept_all_trans resume_phase_kept settle_kept)

lemma kept_all_fst: "list_all2 kept as bs \<Longrightarrow> map fst bs = map fst as"
  by (induction rule: list_all2_induct) (auto simp: kept_def)

lemma transition_breach_kept:
  assumes "transition rd p dto now st = Inr st'" "n < length (st_clocks st)"
    and "c = snd (st_clocks st ! n)" "d = snd (st_clocks st' ! n)"
  shows "ck_breached c \<noteq> None \<Longrightarrow> ck_breached d = ck_breached c"
    and "is_live c \<Longrightarrow> ck_paused c = None \<Longrightarrow> ck_due c \<le> now \<Longrightarrow> ck_breached d = Some now"
proof -
  obtain i where at: "st_clocks st ! n = (i, c)" using assms(3) by (metis prod.collapse)
  have "kept (latch_all now (st_clocks st) ! n) (st_clocks st' ! n)"
    by (rule list_all2_nthD [OF transition_kept [OF assms(1)]]) (use assms(2) in \<open>simp add: latch_all_def\<close>)
  then have k: "kept (i, fst (latch c now)) (st_clocks st' ! n)"
    using assms(2) at by (simp add: latch_all_def)
  show "ck_breached c \<noteq> None \<Longrightarrow> ck_breached d = ck_breached c"
    using k assms(4) by (auto simp: kept_def latch_def is_live_def split: if_splits)
  show "is_live c \<Longrightarrow> ck_paused c = None \<Longrightarrow> ck_due c \<le> now \<Longrightarrow> ck_breached d = Some now"
    using k assms(4) by (auto simp: kept_def latch_def)
qed

subsection \<open>Pauses follow the state\<close>

text \<open>
  The live clocks of a ticket are paused exactly while its state is a pausing one, and there is one open
  pause row then and none otherwise.
\<close>

definition open_pauses :: "sla_pause list \<Rightarrow> nat" where
  "open_pauses ps = length (filter (\<lambda>p. sp_ended p = None) ps)"

definition paused_as :: "bool \<Rightarrow> (string \<times> clock) list \<Rightarrow> bool" where
  "paused_as b cs \<longleftrightarrow> (\<forall>c\<in>snd ` set cs. is_live c \<longrightarrow> (ck_paused c \<noteq> None) = b)"

definition pauses_follow :: "state_machine \<Rightarrow> store \<Rightarrow> bool" where
  "pauses_follow m st \<longleftrightarrow>
     paused_as (eff_pause (effects m (tk_state (st_ticket st)))) (st_clocks st) \<and>
     open_pauses (st_pauses st) = (if eff_pause (effects m (tk_state (st_ticket st))) then 1 else 0)"

lemma paused_as_map:
  assumes "\<And>c. is_live (f c) \<Longrightarrow> is_live c \<and> ck_paused (f c) = ck_paused c" "paused_as b cs"
  shows "paused_as b (map (\<lambda>(i, c). (i, f c)) cs)"
proof -
  have "snd ` set (map (\<lambda>(i, c). (i, f c)) cs) = f ` snd ` set cs" by force
  with assms show ?thesis by (auto simp: paused_as_def)
qed

lemma paused_as_latch: "paused_as b cs \<Longrightarrow> paused_as b (latch_all now cs)"
  unfolding latch_all_def by (rule paused_as_map) (auto simp: latch_def is_live_def split: if_splits)

lemma paused_as_meet: "paused_as b cs \<Longrightarrow> paused_as b (meet k now cs)"
  unfolding meet_def by (rule paused_as_map) (auto simp: mark_met_def is_live_def split: if_splits)

lemma paused_as_pause: "paused_as True (pause_all now cs)"
  by (auto simp: paused_as_def pause_all_def pause_clock_def is_live_def)

lemma resume_all_paused: "resume_all cal now cs = Inr (ds, x) \<Longrightarrow> paused_as False ds"
  by (induction cal now cs arbitrary: ds x rule: resume_all.induct)
    (fastforce simp: paused_as_def resume_clock_def and_then_Inr Let_def split: option.splits)+

lemma resume_phase_paused:
  assumes "resume_phase cal fe te now cs = Inr (ds, evs, x)" "paused_as (eff_pause fe) cs"
  shows "paused_as (eff_pause fe \<and> eff_pause te) ds"
  using assms by (auto simp: resume_phase_def and_then_Inr split: if_splits
      intro: paused_as_latch resume_all_paused)

lemma settle_paused:
  "paused_as (eff_pause fe \<and> eff_pause te) cs \<Longrightarrow> paused_as (eff_pause te) (settle_phase fe te respond now cs)"
  by (cases "eff_pause te"; cases "eff_pause fe") (auto simp: settle_phase_def Let_def intro!: paused_as_meet paused_as_pause)

lemma open_pauses_append [simp]: "open_pauses (ps @ qs) = open_pauses ps + open_pauses qs"
  by (simp add: open_pauses_def)

lemma open_pauses_end: "open_pauses (end_pauses now (Some x) ps) = 0"
  by (auto simp: open_pauses_def end_pauses_def filter_empty_conv)

lemma transition_pause_rows:
  assumes "transition rd p dto now st = Inr st'"
    and "fe = effects (rd_machine rd) (tk_state (st_ticket st))" "te = effects (rd_machine rd) (td_to dto)"
  shows "open_pauses (st_pauses st') = (if eff_pause fe \<and> \<not> eff_pause te then 0 else open_pauses (st_pauses st)) +
    (if eff_pause te \<and> \<not> eff_pause fe then 1 else 0)"
  using assms
  by (auto simp: transition_def Let_def update_versioned_Inr and_then_Inr resume_phase_def open_pauses_end
      end_pauses_def [of _ None] split: if_splits sum.splits) (simp_all add: open_pauses_def)

subsection \<open>Properties of transition\<close>

definition sample_clock :: "clock_kind \<Rightarrow> ms \<Rightarrow> clock" where
  "sample_clock k due = \<lparr>ck_kind = k, ck_policy_ref = ''default'', ck_calendar_id = ''24x7'', ck_target = due div 60000,
     ck_started = 0, ck_due = due, ck_paused = None, ck_paused_total = 0, ck_met = None, ck_breached = None\<rparr>"

definition sample_ticket :: ticket where
  "sample_ticket = \<lparr>tk_id = ''t1'', tk_account = ''acme'', tk_type = ''incident'', tk_state = ''in_progress'', tk_version = 4,
     tk_impact = None, tk_urgency = None, tk_priority = P3, tk_overridden = False, tk_ticket_group = None, tk_item = None,
     tk_first_response = None, tk_resolved = None, tk_closed = None, tk_cancelled = None, tk_reopens = 0, tk_code = None,
     tk_notes = None, tk_article = None, tk_candidate = False, tk_exemption = None, tk_response_breached = False,
     tk_resolution_breached = False, tk_scope = Scope_none, tk_detail = empty_detail\<rparr>"

definition sample_store :: store where
  "sample_store = \<lparr>st_ticket = sample_ticket,
     st_clocks = [(''c1'', sample_clock Response 1800000), (''c2'', sample_clock Resolution 28800000)],
     st_pauses = [], st_audit = [], st_outbox = [], st_work_notes = [], st_comments = [], st_scope_record = []\<rparr>"

definition sample_reads :: reads where
  "sample_reads = \<lparr>rd_machine = incident_machine, rd_group = None, rd_conflicts = [], rd_known_codes = [''fixed''],
     rd_no_solution = [''fixed''], rd_exemptions = [''duplicate''], rd_min_notes = 4, rd_logged = 15,
     rd_calendar = (\<lambda>i. wall_clock), rd_article = (\<lambda>i. None)\<rparr>"

definition sample_agent :: principal where
  "sample_agent = \<lparr>pr_user = ''u1'', pr_kind = Internal_user, pr_permissions = []\<rparr>"

definition sample_hold :: transition_dto where
  "sample_hold = \<lparr>td_to = ''on_hold'', td_version = 4, td_pause_reason = Some ''client'', td_note = None,
     td_resolution = None, td_window_reason = None\<rparr>"

definition sample_resolve :: transition_dto where
  "sample_resolve = \<lparr>td_to = ''resolved'', td_version = 4, td_pause_reason = None, td_note = None,
     td_resolution = Some (no_resolution\<lparr>res_code := Some ''fixed'', res_notes := Some '' done ''\<rparr>), td_window_reason = None\<rparr>"

definition after_hold :: store where
  "after_hold = (case transition sample_reads sample_agent sample_hold 2000000 sample_store of Inr s \<Rightarrow> s)"

definition after_resolve :: store where
  "after_resolve = (case transition sample_reads sample_agent sample_resolve 2000000 sample_store of Inr s \<Rightarrow> s)"

lemma sample_runs:
  "transition sample_reads sample_agent sample_hold 2000000 sample_store = Inr after_hold"
  "transition sample_reads sample_agent sample_resolve 2000000 sample_store = Inr after_resolve"
proof -
  have "(case transition sample_reads sample_agent sample_hold 2000000 sample_store of Inr s \<Rightarrow> True | Inl e \<Rightarrow> False)"
    "(case transition sample_reads sample_agent sample_resolve 2000000 sample_store of Inr s \<Rightarrow> True | Inl e \<Rightarrow> False)"
    by code_simp+
  then show "transition sample_reads sample_agent sample_hold 2000000 sample_store = Inr after_hold"
    "transition sample_reads sample_agent sample_resolve 2000000 sample_store = Inr after_resolve"
    by (auto simp: after_hold_def after_resolve_def split: sum.splits)
qed

text \<open>C2: A transition that succeeds was asked for at the ticket's current version, over a transition the machine
  offers to this actor, with nothing its requirements ask for missing; it moves the ticket to the asked
  state and the next version, so that a second request made at the same version, by anyone and to
  any state, is refused as stale.\<close>

theorem transition_guarded:
  assumes "transition rd p dto now st = Inr st'"
  shows "tk_version (st_ticket st) = td_version dto \<and> tk_version (st_ticket st') = td_version dto + 1 \<and>
    tk_state (st_ticket st') = td_to dto \<and>
    can_transition (rd_machine rd) (tk_state (st_ticket st)) (td_to dto) (actor_of p) \<and>
    check_requirements (requirements (rd_machine rd) (tk_state (st_ticket st)) (td_to dto))
      \<lparr>ti_pause_reason = td_pause_reason dto, ti_resolution = td_resolution dto\<rparr>
      (gate_facts rd (group_window rd (st_ticket st))) = [] \<and>
    (\<forall>rd2 p2 dto2 now2. td_version dto2 = td_version dto \<longrightarrow>
       transition rd2 p2 dto2 now2 st' = Inl (Stale_version (td_version dto + 1)))"
  using assms by (rule transition_success) (simp add: transition_def Let_def)

theorem transition_guarded_witness:
  "tk_version (st_ticket after_hold) = 5 \<and>
    transition sample_reads sample_agent sample_resolve 2100000 after_hold = Inl (Stale_version 5)"
proof -
  have "td_version sample_hold = 4" "td_version sample_resolve = 4"
    by (simp_all add: sample_hold_def sample_resolve_def)
  with transition_guarded [OF sample_runs(1)] show ?thesis by simp
qed

text \<open>Breaches are recorded and never lost by a transition: clocks keep their rows, a breach already recorded
  stays as it is, a live running clock overdue at the transition is recorded as breached then, even when
  the transition pauses, meets or resolves it, and the ticket's two breach flags say exactly what its
  clocks say.\<close>

theorem transition_records_breaches:
  assumes "transition rd p dto now st = Inr st'"
  shows "map fst (st_clocks st') = map fst (st_clocks st) \<and>
    (\<forall>n<length (st_clocks st). let c = snd (st_clocks st ! n); d = snd (st_clocks st' ! n) in
      (ck_breached c \<noteq> None \<longrightarrow> ck_breached d = ck_breached c) \<and>
      (is_live c \<and> ck_paused c = None \<and> ck_due c \<le> now \<longrightarrow> ck_breached d = Some now)) \<and>
    tk_response_breached (st_ticket st') = kind_breached Response (st_clocks st') \<and>
    tk_resolution_breached (st_ticket st') = kind_breached Resolution (st_clocks st')"
proof -
  have "map fst (st_clocks st') = map fst (latch_all now (st_clocks st))"
    by (rule kept_all_fst [OF transition_kept [OF assms]])
  also have "\<dots> = map fst (st_clocks st)" by (simp add: latch_all_def split_beta)
  finally have "map fst (st_clocks st') = map fst (st_clocks st)" .
  moreover from assms have "tk_response_breached (st_ticket st') = kind_breached Response (st_clocks st') \<and>
    tk_resolution_breached (st_ticket st') = kind_breached Resolution (st_clocks st')"
    by (rule transition_success) simp
  moreover have "\<forall>n<length (st_clocks st). let c = snd (st_clocks st ! n); d = snd (st_clocks st' ! n) in
      (ck_breached c \<noteq> None \<longrightarrow> ck_breached d = ck_breached c) \<and>
      (is_live c \<and> ck_paused c = None \<and> ck_due c \<le> now \<longrightarrow> ck_breached d = Some now)"
    unfolding Let_def using transition_breach_kept [OF assms _ refl refl] by blast
  ultimately show ?thesis by (intro conjI; (elim conjE)?)
qed

theorem transition_records_breaches_witness:
  "ck_breached (snd (st_clocks after_hold ! 0)) = Some 2000000 \<and> tk_response_breached (st_ticket after_hold)"
proof -
  have "length (st_clocks sample_store) = 2" "(let c = snd (st_clocks sample_store ! 0) in is_live c \<and> ck_paused c = None \<and> ck_due c \<le> 2000000)"
    "kind_breached Response (st_clocks after_hold)"
    by code_simp+
  with transition_records_breaches [OF sample_runs(1)] show ?thesis by (simp add: Let_def)
qed

text \<open>C4: Clocks stop exactly while the client is being waited for: in a pausing state every live clock is paused
  and one pause row is open, in any other state no live clock is paused and none is open, and every
  transition that succeeds preserves this.\<close>

theorem transition_pauses_follow:
  assumes "transition rd p dto now st = Inr st'" "pauses_follow (rd_machine rd) st"
  shows "pauses_follow (rd_machine rd) st'"
proof -
  let ?fe = "effects (rd_machine rd) (tk_state (st_ticket st))" and ?te = "effects (rd_machine rd) (td_to dto)"
  have "tk_state (st_ticket st') = td_to dto \<and> paused_as (eff_pause ?te) (st_clocks st')"
    using assms(1) by (rule transition_success)
      (use assms(2) in \<open>auto simp: pauses_follow_def intro!: settle_paused dest: resume_phase_paused\<close>)
  with transition_pause_rows [OF assms(1) refl refl] assms(2) show ?thesis
    by (auto simp: pauses_follow_def)
qed

theorem transition_pauses_follow_witness:
  "pauses_follow incident_machine after_hold \<and> tk_state (st_ticket after_hold) = ''on_hold''"
proof -
  have "pauses_follow incident_machine sample_store" by code_simp
  moreover have "rd_machine sample_reads = incident_machine" by (simp add: sample_reads_def)
  moreover have "tk_state (st_ticket after_hold) = ''on_hold''" by code_simp
  ultimately show ?thesis using transition_pauses_follow [OF sample_runs(1)] by simp
qed




definition change_reads :: reads where
  "change_reads = sample_reads\<lparr>rd_machine := \<lparr>sm_body = incident_body,
     sm_states = [(''ready'', \<lparr>st_key = ''ready'', st_label = ''Ready'', st_kind = Active, st_effects = None\<rparr>),
       (''deploying'', \<lparr>st_key = ''deploying'', st_label = ''Deploying'', st_kind = Active,
          st_effects = Some (no_effects\<lparr>eff_deploy := True\<rparr>)\<rparr>)],
     sm_by_from = [(''ready'', [\<lparr>tr_from = ''ready'', tr_to = ''deploying'', tr_label = None, tr_requires = [],
       tr_portal = False, tr_reopen = False\<rparr>])]\<rparr>\<rparr>"

definition ready_store :: store where
  "ready_store = sample_store\<lparr>st_ticket := sample_ticket\<lparr>tk_type := ''change'', tk_state := ''ready''\<rparr>\<rparr>"

definition deploy_request :: transition_dto where
  "deploy_request = sample_hold\<lparr>td_to := ''deploying'', td_window_reason := Some ''outage''\<rparr>"


end
