(* ===== verification/After_Hours.thy ===== *)
theory After_Hours
  imports Business_Calendar
begin

section \<open>After-hours classification (src/domain/calendar/after-hours.ts)\<close>

text \<open>
  The class of a time entry from the account's calendar, and the rate multiplier frozen on it. The
  calendar is \<open>None\<close> for the wall clock, which has no \<open>classify\<close>. The main fact is that the class of an
  instant's local date and minute is \<open>standard\<close> exactly when the calendar says the instant is working
  time, whatever the zone; the properties of the calendar itself are stated here too.
\<close>

datatype after_hours_handling = Premium_rate | Comp_time | No_handling

definition digit_value :: "char \<Rightarrow> int" where
  "digit_value c = of_char c - 48"

text \<open>The pattern \<open>/^(\d{2}):(\d{2})$/\<close> and the two range checks.\<close>

fun minute_of_day :: "string option \<Rightarrow> int option" where
  "minute_of_day (Some [a, b, c, d, e]) =
     (if is_digit a \<and> is_digit b \<and> c = CHR '':'' \<and> is_digit d \<and> is_digit e
      then
        let hours = digit_value a * 10 + digit_value b; minutes = digit_value d * 10 + digit_value e
        in if hours > 23 \<or> minutes > 59 then None else Some (hours * 60 + minutes)
      else None)"
| "minute_of_day start = None"

definition classify_performed ::
    "business_calendar option \<Rightarrow> ymd \<Rightarrow> string option \<Rightarrow> bool \<Rightarrow> after_hours_class" where
  "classify_performed cal date start asserted =
     (let minute = minute_of_day start
      in case cal of
           None \<Rightarrow> if asserted then After_hours else Standard
         | Some bc \<Rightarrow>
             (let derived = classify bc date minute
              in if derived = Standard \<and> asserted \<and> minute = None then After_hours else derived))"

definition multiplier_for :: "after_hours_handling \<Rightarrow> rat option \<Rightarrow> after_hours_class \<Rightarrow> rat" where
  "multiplier_for handling multiplier cls =
     (if cls = Standard \<or> handling \<noteq> Premium_rate then 1
      else case multiplier of None \<Rightarrow> 1 | Some m \<Rightarrow> if m \<noteq> 0 \<and> m \<ge> 1 then m else 1)"

subsection \<open>Lemmas\<close>

lemma digit_value_range: "is_digit c \<Longrightarrow> 0 \<le> digit_value c \<and> digit_value c \<le> 9"
proof -
  have "int (of_char c) = (of_char c :: int)" by (rule of_nat_of_char)
  then show "is_digit c \<Longrightarrow> 0 \<le> digit_value c \<and> digit_value c \<le> 9"
    unfolding is_digit_def digit_value_def Let_def by linarith
qed

lemma minute_of_day_range: "minute_of_day s = Some m \<Longrightarrow> 0 \<le> m \<and> m < 1440"
proof (induction s rule: minute_of_day.induct)
  case (1 a b c d e)
  then have "is_digit a" "is_digit b" "is_digit d" "is_digit e"
      and m: "m = (digit_value a * 10 + digit_value b) * 60 + (digit_value d * 10 + digit_value e)"
      "digit_value a * 10 + digit_value b \<le> 23" "digit_value d * 10 + digit_value e \<le> 59"
    by (auto simp: Let_def split: if_splits)
  then show ?case
    using digit_value_range [of a] digit_value_range [of b] digit_value_range [of d] digit_value_range [of e]
    by auto
qed auto

lemma classify_local:
  "classify bc (lp_date (local_parts t z)) (Some (lp_minute (local_parts t z))) = Standard \<longleftrightarrow>
     list_ex (covers (lp_minute (local_parts t z))) (intervals bc (local_parts t z))"
proof -
  have "utc_weekday (midnight (civil n)) = weekday n" for n
    by (simp add: utc_weekday_def midnight_def)
  then show ?thesis
    by (simp add: classify_def local_parts_def intervals_def Let_def)
qed

lemma multiplier_ge_1: "1 \<le> multiplier_for h m c"
  by (simp add: multiplier_for_def split: option.split)

subsection \<open>Properties of the business calendar\<close>

text \<open>C7: For hours the editor accepts, in a zone with a fixed offset, \<open>addMinutes\<close> finds its answer within
  the bound on days whenever the weeks up to the bound hold enough working minutes on some weekday,
  the result is not before the start, and \<open>minutesBetween\<close> reads back exactly the minutes added:
  the pair the SLA due times and remaining times are computed with is a round trip.\<close>

theorem calendar_round_trip:
  assumes "validate_hours (bs_hours spec) = []" "bs_zone spec = fixed_zone k"
    and "make_business_calendar spec = Inr bc" "0 \<le> w" "w \<le> 6" "0 \<le> r"
    and "r \<le> weekday_minutes bc w * int q" "7 * (q + length (bc_holidays bc)) < max_days"
  shows "\<exists>t'. add_minutes bc t r = Inr t' \<and> t \<le> t' \<and> minutes_between bc t t' = r"
proof -
  have zone: "bc_zone bc = fixed_zone k"
    using assms(2,3) by (auto simp: make_business_calendar_def Let_def split: if_splits)
  from add_minutes_returns [OF zone accepted_ordered [OF assms(1,3)] assms(4,5,7,8)]
  obtain t' where t': "add_minutes bc t r = Inr t'" by blast
  have "supported_calendar (as_calendar bc)"
    using assms(1-3) by (auto simp: supported_calendar_def)
  from sla.add_forward [OF this assms(6)] sla.between_add [OF this assms(6)] t'
  show ?thesis by (simp add: as_calendar_def)
qed

definition office_spec :: business_spec where
  "office_spec = \<lparr>bs_id = ''office'', bs_zone = fixed_zone 120,
     bs_hours = map (\<lambda>d. \<lparr>ch_weekday = d, ch_start = 540, ch_end = 1020\<rparr>) [1, 2, 3, 4, 5],
     bs_holidays = [Ymd 2026 1 5]\<rparr>"

definition office :: business_calendar where
  "office = (case make_business_calendar office_spec of Inr bc \<Rightarrow> bc)"

lemma office_made:
  "validate_hours (bs_hours office_spec) = []" "bs_zone office_spec = fixed_zone 120"
  "make_business_calendar office_spec = Inr office"
  "bc_holidays office = [Ymd 2026 1 5]" "weekday_minutes office 1 = 480"
  by code_simp (simp add: office_spec_def, (simp add: office_def make_business_calendar_def Let_def office_spec_def), code_simp+)

theorem calendar_round_trip_witness:
  "\<exists>t'. add_minutes office 1767362400000 3000 = Inr t' \<and> 1767362400000 \<le> t' \<and>
     minutes_between office 1767362400000 t' = 3000"
  by (rule calendar_round_trip [OF office_made(1-3), of 1 _ 100]) (simp_all add: office_made max_days_def)

text \<open>\<open>nextWorkingInstant\<close> answers a working instant, not before the one asked about, with no working
  instant skipped on the way, and answers the instant itself when that is already working time.\<close>

theorem next_working_instant_first:
  assumes "validate_hours (bs_hours spec) = []" "bs_zone spec = fixed_zone k"
    and "make_business_calendar spec = Inr bc" "next_working_instant bc t = Inr t'"
  shows "is_working_time bc t' \<and> t \<le> t' \<and> (is_working_time bc t \<longrightarrow> t' = t) \<and>
    (\<forall>u. t \<le> u \<and> u < t' \<longrightarrow> \<not> is_working_time bc u)"
proof -
  have zone: "bc_zone bc = fixed_zone k"
    using assms(2,3) by (auto simp: make_business_calendar_def Let_def split: if_splits)
  from next_working_instant_spec [OF zone accepted_ordered [OF assms(1,3)] assms(4)]
  show ?thesis by blast
qed

lemma office_next: "next_working_instant office 1767366000000 = Inr 1767682800000"
  by code_simp

theorem next_working_instant_first_witness:
  "is_working_time office 1767682800000 \<and> (1767366000000::int) \<le> 1767682800000 \<and>
    \<not> is_working_time office 1767400000000"
  using next_working_instant_first [OF office_made(1-3) office_next] by auto

text \<open>Classification and the working-time test agree at every instant and in every zone: the class of an
  instant's local date and minute is \<open>standard\<close> exactly when the instant is working time.\<close>

theorem classify_agrees_with_working_time:
  "classify bc (lp_date (local_parts t (bc_zone bc))) (Some (lp_minute (local_parts t (bc_zone bc)))) = Standard
    \<longleftrightarrow> is_working_time bc t"
  unfolding is_working_time_def Let_def by (rule classify_local)

end
