(* ===== verification/Sla_Life.thy ===== *)
theory Sla_Life
  imports After_Hours
begin

section \<open>The life of an SLA clock on the model's calendars\<close>

text \<open>
  The engine's lemmas, proved against the calendar contract, read over the calendars the program has: the
  24x7 wall clock and the business calendars the editor accepts in a zone with a fixed offset. The facts
  are those of the interpretation \<open>sla\<close>; nothing here depends on how a calendar computes.
\<close>

lemma wall_clock_supported: "supported_calendar wall_clock"
  by (simp add: supported_calendar_def)

lemma wall_clock_runs: "\<exists>c'. run_clock wall_clock c xs = Inr c'"
proof (induction xs arbitrary: c)
  case (Cons x xs)
  have "\<exists>d. clock_step wall_clock c x = Inr d"
    by (cases x) (auto simp: wall_clock_def resume_clock_def restamp_for_priority_def Let_def split: option.splits)
  with Cons show ?case by (auto simp: and_then_Inr)
qed simp



text \<open>A breach is permanent: once recorded, no operation of the engine in any order moves or clears it.\<close>

theorem breach_permanent:
  assumes "ck_breached c = Some t" "run_clock cal c xs = Inr c'"
  shows "ck_breached c' = Some t"
  using assms by (rule run_breached_kept)

theorem breach_permanent_witness:
  "ck_breached (mark_met (\<lparr>ck_kind = Response, ck_policy_ref = [], ck_calendar_id = [], ck_target = 1, ck_started = 0,
     ck_due = 60000, ck_paused = None, ck_paused_total = 0, ck_met = None, ck_breached = Some 70000\<rparr>) 80000) = Some 70000"
  using breach_permanent [of "\<lparr>ck_kind = Response, ck_policy_ref = [], ck_calendar_id = [], ck_target = 1, ck_started = 0,
     ck_due = 60000, ck_paused = None, ck_paused_total = 0, ck_met = None, ck_breached = Some 70000\<rparr>" 70000 wall_clock "[Op_met 80000]"]
  by simp

text \<open>Minutes already consumed survive a change of priority, and paused minutes are never charged: a restamped
  live clock has the new target less the minutes consumed left (never less than zero), and a resume moves
  the due time, in the calendar's own minutes, by exactly the minutes it adds to the excluded total.\<close>

theorem restamp_and_resume_account:
  assumes "supported_calendar cal"
  shows "(is_live c \<and> restamp_for_priority c target cal now = Inr c' \<longrightarrow>
      remaining_minutes c' cal now = max 0 (target - max 0 (consumed_minutes c cal now))) \<and>
    (resume_clock c cal now = Inr (c', n) \<longrightarrow>
      0 \<le> n \<and> cal_between cal (ck_due c) (ck_due c') = n \<and> ck_paused_total c' = ck_paused_total c + n \<and> ck_paused c' = None)"
  using sla.restamp_remaining [OF assms] sla.resume_shift [OF assms] by blast

definition office_clock :: clock where
  "office_clock = \<lparr>ck_kind = Resolution, ck_policy_ref = [], ck_calendar_id = ''office'', ck_target = 600,
     ck_started = 1767682800000, ck_due = 1767773700000, ck_paused = None, ck_paused_total = 0, ck_met = None, ck_breached = None\<rparr>"

theorem restamp_and_resume_account_witness:
  "\<exists>c'. restamp_for_priority office_clock 240 (as_calendar office) 1767686400000 = Inr c' \<and>
    remaining_minutes c' (as_calendar office) 1767686400000 = 180"
proof -
  have s: "supported_calendar (as_calendar office)"
    using office_made(1-3) by (auto simp: supported_calendar_def)
  have live: "is_live office_clock" by (simp add: is_live_def office_clock_def)
  have "case restamp_for_priority office_clock 240 (as_calendar office) 1767686400000 of Inr c \<Rightarrow> True | Inl e \<Rightarrow> False"
    by code_simp
  then obtain c' where c': "restamp_for_priority office_clock 240 (as_calendar office) 1767686400000 = Inr c'"
    by (auto split: sum.splits)
  have "consumed_minutes office_clock (as_calendar office) 1767686400000 = 60" by code_simp
  with restamp_and_resume_account [OF s, of office_clock 240 1767686400000 c'] live c' show ?thesis by simp
qed

end
