(* ===== verification/Ticket_Operations.thy ===== *)
theory Ticket_Operations
  imports Ticket_Service Sla_Life
begin

section \<open>The other operations on a ticket (src/modules/tickets/tickets.service.ts)\<close>

text \<open>
  Creation, the priority half of a patch, comments, links, the import of a state, and the out-of-scope
  flag with its decision, over the rows and results of the previous theory. Text columns the model's
  ticket does not have (descriptions, categories, assignees, watchers) are written by the same handlers
  and are left out. Time is an argument.
\<close>

subsection \<open>create\<close>

record create_dto =
  cd_account :: string
  cd_type :: string
  cd_impact :: "level option"
  cd_urgency :: "level option"
  cd_group :: "string option"
  cd_item :: "string option"

record config_reads =
  cr_machine :: state_machine
  cr_matrix :: json
  cr_contract :: string
  cr_contract_policy :: "json option"
  cr_default_policy :: json
  cr_policy_version :: string
  cr_account_calendar :: calendar
  cr_groups :: "string \<Rightarrow> (string \<times> bool) option"
  cr_item_known :: "string \<Rightarrow> string \<Rightarrow> bool"

definition derived_priority :: "json \<Rightarrow> level option \<Rightarrow> level option \<Rightarrow> priority" where
  "derived_priority m impact urgency =
     (case find (\<lambda>p. derive m impact urgency = JStr (priority_name p)) priorities of Some p \<Rightarrow> p | None \<Rightarrow> P4)"

definition targets_for :: "json option \<Rightarrow> json \<Rightarrow> string \<Rightarrow> priority \<Rightarrow> sla_targets" where
  "targets_for contract_policy default_policy type prio =
     (case Option.bind contract_policy (\<lambda>b. policy_targets b type (priority_name prio)) of
        Some t \<Rightarrow> t
      | None \<Rightarrow> (case policy_targets default_policy type (priority_name prio) of
          Some t \<Rightarrow> t | None \<Rightarrow> \<lparr>response_minutes = None, resolution_minutes = None\<rparr>))"

definition assert_group :: "config_reads \<Rightarrow> string \<Rightarrow> string option \<Rightarrow> service_error + unit" where
  "assert_group cr account g =
     (case g of
        None \<Rightarrow> Inr ()
      | Some i \<Rightarrow>
          (case cr_groups cr i of
             None \<Rightarrow> Inl (Not_found ''ticket_group'')
           | Some (a, cancelled) \<Rightarrow>
               if a \<noteq> account then Inl (Not_found ''ticket_group'')
               else if cancelled then Inl (Ticket_group_cancelled i) else Inr ()))"

definition assert_item :: "config_reads \<Rightarrow> string \<Rightarrow> string option \<Rightarrow> service_error + unit" where
  "assert_item cr account i =
     (case i of None \<Rightarrow> Inr ()
      | Some c \<Rightarrow> if cr_item_known cr account c then Inr () else Inl (Not_found ''configuration_item''))"

definition policy_ref :: "config_reads \<Rightarrow> string" where
  "policy_ref cr = (if cr_contract_policy cr \<noteq> None then ''contract:'' @ cr_contract cr
     else ''default:'' @ cr_policy_version cr)"

definition new_ticket :: "config_reads \<Rightarrow> create_dto \<Rightarrow> string \<Rightarrow> ticket" where
  "new_ticket cr dto i =
     \<lparr>tk_id = i, tk_account = cd_account dto, tk_type = cd_type dto, tk_state = initial_state (cr_machine cr), tk_version = 1,
      tk_impact = cd_impact dto, tk_urgency = cd_urgency dto,
      tk_priority = derived_priority (cr_matrix cr) (cd_impact dto) (cd_urgency dto), tk_overridden = False,
      tk_ticket_group = cd_group dto, tk_item = cd_item dto, tk_first_response = None, tk_resolved = None, tk_closed = None,
      tk_cancelled = None, tk_reopens = 0, tk_code = None, tk_notes = None, tk_article = None, tk_candidate = False,
      tk_exemption = None, tk_response_breached = False, tk_resolution_breached = False, tk_scope = Scope_none,
      tk_detail = empty_detail\<rparr>"

definition create ::
    "config_reads \<Rightarrow> string list \<Rightarrow> bool \<Rightarrow> create_dto \<Rightarrow> string \<Rightarrow> (nat \<Rightarrow> string) \<Rightarrow> ms \<Rightarrow> service_error + store" where
  "create cr accounts importing dto i clock_id now =
     (if cd_account dto \<notin> set accounts then Inl (Not_found ''account'')
      else
        and_then (assert_group cr (cd_account dto) (cd_group dto)) (\<lambda>_.
        and_then (assert_item cr (cd_account dto) (cd_item dto)) (\<lambda>_.
          let row = new_ticket cr dto i;
              targets = targets_for (cr_contract_policy cr) (cr_default_policy cr) (cd_type dto) (tk_priority row)
          in and_then
               (if importing then Inr []
                else case start_clocks targets (policy_ref cr) (cr_account_calendar cr) now of
                       Inl e \<Rightarrow> Inl (Calendar_failed e) | Inr cs \<Rightarrow> Inr cs)
               (\<lambda>cs. Inr
                  \<lparr>st_ticket = row, st_clocks = zip (map clock_id [0..<length cs]) cs, st_pauses = [],
                   st_audit = [Ev_created], st_outbox = (if importing then [] else [Ev_created]), st_work_notes = [],
                   st_comments = [], st_scope_record = []\<rparr>))))"

subsection \<open>patch\<close>

text \<open>
  An absent field is \<open>None\<close>; a field sent as \<open>null\<close> is \<open>Some None\<close>, which the request's types admit for
  impact and urgency and which clears the column.
\<close>

record patch_dto =
  pd_version :: int
  pd_impact :: "level option option"
  pd_urgency :: "level option option"
  pd_priority :: "priority option"
  pd_group :: "string option option"
  pd_item :: "string option option"

definition patched :: "'a option option \<Rightarrow> 'a option \<Rightarrow> 'a option" where
  "patched sent before = (case sent of None \<Rightarrow> before | Some v \<Rightarrow> v)"

definition coalesce :: "'a option option \<Rightarrow> 'a option \<Rightarrow> 'a option" where
  "coalesce sent before = (case sent of Some (Some v) \<Rightarrow> Some v | _ \<Rightarrow> before)"

definition patch_derived :: "config_reads \<Rightarrow> patch_dto \<Rightarrow> ticket \<Rightarrow> priority" where
  "patch_derived cr dto t =
     derived_priority (cr_matrix cr) (coalesce (pd_impact dto) (tk_impact t)) (coalesce (pd_urgency dto) (tk_urgency t))"

definition patch_priority :: "config_reads \<Rightarrow> patch_dto \<Rightarrow> ticket \<Rightarrow> priority" where
  "patch_priority cr dto t =
     (case pd_priority dto of
        Some p \<Rightarrow> p
      | None \<Rightarrow> if \<not> tk_overridden t \<and> (pd_impact dto \<noteq> None \<or> pd_urgency dto \<noteq> None)
               then patch_derived cr dto t else tk_priority t)"

definition patch_row :: "config_reads \<Rightarrow> patch_dto \<Rightarrow> ticket \<Rightarrow> ticket" where
  "patch_row cr dto t =
     t\<lparr>tk_impact := patched (pd_impact dto) (tk_impact t), tk_urgency := patched (pd_urgency dto) (tk_urgency t),
       tk_priority := patch_priority cr dto t,
       tk_overridden := (case pd_priority dto of None \<Rightarrow> tk_overridden t | Some p \<Rightarrow> p \<noteq> patch_derived cr dto t),
       tk_ticket_group := patched (pd_group dto) (tk_ticket_group t), tk_item := patched (pd_item dto) (tk_item t)\<rparr>"

definition patch_entries :: "config_reads \<Rightarrow> patch_dto \<Rightarrow> ticket \<Rightarrow> ticket \<Rightarrow> (string \<times> event) list" where
  "patch_entries cr dto before after =
     (let es =
        (if tk_ticket_group after \<noteq> tk_ticket_group before then [(''ticket_group_id'', Ev_changed ''ticket_group_id'')] else []) @
        (case pd_priority dto of None \<Rightarrow> []
         | Some p \<Rightarrow> if p \<noteq> patch_derived cr dto before
                    then [(''priority'', Ev_priority_overridden (patch_derived cr dto before) p)] else []) @
        (if tk_impact after \<noteq> tk_impact before then [(''impact'', Ev_changed ''impact'')] else []) @
        (if tk_urgency after \<noteq> tk_urgency before then [(''urgency'', Ev_changed ''urgency'')] else []) @
        (if tk_priority after \<noteq> tk_priority before then [(''priority'', Ev_changed ''priority'')] else []) @
        (if tk_item after \<noteq> tk_item before then [(''configuration_item_id'', Ev_changed ''configuration_item_id'')] else [])
      in if es = [] then [(''version'', Ev_changed ''version'')] else es)"

definition target_of :: "sla_targets \<Rightarrow> clock_kind \<Rightarrow> int option" where
  "target_of ts k = (case k of Response \<Rightarrow> response_minutes ts | Resolution \<Rightarrow> resolution_minutes ts)"

fun restamp_all ::
    "sla_targets \<Rightarrow> (string \<Rightarrow> calendar) \<Rightarrow> ms \<Rightarrow> (string \<times> clock) list \<Rightarrow> service_error + (string \<times> clock) list" where
  "restamp_all ts cal now [] = Inr []"
| "restamp_all ts cal now ((i, c) # cs) =
     and_then
       (case target_of ts (ck_kind c) of
          None \<Rightarrow> Inr c
        | Some n \<Rightarrow> if n = 0 then Inr c
                   else case restamp_for_priority c n (cal (ck_calendar_id c)) now of
                          Inl e \<Rightarrow> Inl (Calendar_failed e) | Inr d \<Rightarrow> Inr d)
       (\<lambda>d. and_then (restamp_all ts cal now cs) (\<lambda>ds. Inr ((i, d) # ds)))"

definition open_states_excluded :: "string list" where
  "open_states_excluded = [''closed'', ''cancelled'']"

definition changed_to :: "'a option option \<Rightarrow> 'a option \<Rightarrow> 'a option" where
  "changed_to sent before = (case sent of None \<Rightarrow> None | Some v \<Rightarrow> if v = before then None else v)"

text \<open>Whether the update has a column to set. The repository writes no row, and asks for no version, when it has none.\<close>

definition resent :: "'a option option \<Rightarrow> 'a option \<Rightarrow> bool" where
  "resent sent before = (case sent of None \<Rightarrow> False | Some v \<Rightarrow> v \<noteq> before)"

definition patch_assigns :: "patch_dto \<Rightarrow> ticket \<Rightarrow> bool" where
  "patch_assigns dto t \<longleftrightarrow> pd_impact dto \<noteq> None \<or> pd_urgency dto \<noteq> None \<or> pd_priority dto \<noteq> None \<or>
     resent (pd_group dto) (tk_ticket_group t) \<or> resent (pd_item dto) (tk_item t)"

definition patch ::
    "config_reads \<Rightarrow> (string \<Rightarrow> calendar) \<Rightarrow> principal \<Rightarrow> bool \<Rightarrow> patch_dto \<Rightarrow> ms \<Rightarrow> store \<Rightarrow> service_error + store" where
  "patch cr cal p importing dto now st =
     (let before = st_ticket st
      in if tk_state before \<in> set open_states_excluded then Inl Ticket_closed
         else
           and_then (assert_group cr (tk_account before) (changed_to (pd_group dto) (tk_ticket_group before))) (\<lambda>_.
           and_then (assert_item cr (tk_account before) (changed_to (pd_item dto) (tk_item before))) (\<lambda>_.
           and_then (guard_or (pd_priority dto = None \<or> ''tickets:override-priority'' \<in> set (pr_permissions p))
                       (Forbidden ''tickets:override-priority'')) (\<lambda>_.
           and_then (if patch_assigns dto before then update_versioned (pd_version dto) (patch_row cr dto) before else Inr before) (\<lambda>after.
           and_then
             (if tk_priority after \<noteq> tk_priority before
              then restamp_all (targets_for (cr_contract_policy cr) (cr_default_policy cr) (tk_type before) (tk_priority after))
                     cal now (st_clocks st)
              else Inr (st_clocks st)) (\<lambda>clocks.
             let entries = patch_entries cr dto before after
             in Inr (st\<lparr>st_ticket := after, st_clocks := clocks, st_audit := st_audit st @ map snd entries,
                  st_outbox := st_outbox st @ (if importing then [] else [Ev_updated (map fst entries)])\<rparr>)))))))"

subsection \<open>addComment\<close>

definition counts_as_operator :: "bool \<Rightarrow> bool \<Rightarrow> principal \<Rightarrow> bool" where
  "counts_as_operator importing operator_response p =
     (if importing then operator_response else pr_kind p = Internal_user \<or> pr_kind p = Api_client)"

definition respond_clock :: "ms \<Rightarrow> clock \<Rightarrow> clock" where
  "respond_clock now c = (if ck_kind c \<noteq> Response then c else mark_met (fst (latch c now)) now)"

definition respond_events :: "ms \<Rightarrow> clock \<Rightarrow> event list" where
  "respond_events now c =
     (if ck_kind c \<noteq> Response then []
      else (if snd (latch c now) then [Ev_breached Response (ck_due c)] else []) @ [Ev_met])"

definition add_comment :: "principal \<Rightarrow> bool \<Rightarrow> bool \<Rightarrow> string \<Rightarrow> ms \<Rightarrow> store \<Rightarrow> service_error + store" where
  "add_comment p importing operator_response body now st =
     (let t = st_ticket st;
          first = counts_as_operator importing operator_response p \<and> tk_first_response t = None;
          row = \<lparr>cm_author = pr_user p, cm_body = body, cm_first_response = first\<rparr>;
          clocks = (if first then map (\<lambda>(i, c). (i, respond_clock now c)) (st_clocks st) else st_clocks st);
          events = (if first then concat (map (respond_events now \<circ> snd) (st_clocks st)) else [])
      in and_then
           (if first then update_versioned (tk_version t)
              (\<lambda>x. x\<lparr>tk_first_response := Some now, tk_response_breached := False\<rparr>) t
            else Inr t)
           (\<lambda>after. Inr (st\<lparr>st_ticket := after, st_clocks := clocks, st_comments := st_comments st @ [row],
              st_audit := st_audit st @ [Ev_comment] @ events,
              st_outbox := st_outbox st @ (if importing then [] else [Ev_comment])\<rparr>)))"

subsection \<open>importState\<close>

definition import_row :: "state_effects \<Rightarrow> string \<Rightarrow> ms \<Rightarrow> string option \<Rightarrow> ticket \<Rightarrow> ticket" where
  "import_row te state stamp code t =
     (let t1 = t\<lparr>tk_state := state\<rparr>;
          t2 = (if eff_resolve te then t1\<lparr>tk_resolved := Some stamp, tk_code := (if no_text code then tk_code t else code)\<rparr> else t1);
          t3 = (if eff_close te
                then t2\<lparr>tk_resolved := (case tk_resolved t of None \<Rightarrow> Some stamp | Some x \<Rightarrow> Some x), tk_closed := Some stamp\<rparr> else t2)
      in if eff_cancel te then t3\<lparr>tk_cancelled := Some stamp\<rparr> else t3)"

definition import_state ::
    "state_machine \<Rightarrow> bool \<Rightarrow> string \<Rightarrow> ms \<Rightarrow> string option \<Rightarrow> store \<Rightarrow> service_error + store" where
  "import_state m importing state stamp code st =
     (let before = st_ticket st
      in if \<not> importing then Inl Import_only
         else if find_state m state = None then Inl (Unknown_state state)
         else if tk_state before = state then Inr st
         else
           and_then (update_versioned (tk_version before) (import_row (effects m state) state stamp code) before) (\<lambda>after.
             Inr (st\<lparr>st_ticket := after, st_audit := st_audit st @ [Ev_transition (tk_state before) state]\<rparr>)))"

subsection \<open>addLink\<close>

record link =
  lk_from :: string
  lk_to :: string
  lk_type :: string

definition typed_edges :: "string \<Rightarrow> link list \<Rightarrow> (string \<times> string) list" where
  "typed_edges ty ls = map (\<lambda>l. (lk_from l, lk_to l)) (filter (\<lambda>l. lk_type l = ty) ls)"

definition assert_acyclic :: "link list \<Rightarrow> string \<Rightarrow> string \<Rightarrow> string \<Rightarrow> service_error + unit" where
  "assert_acyclic ls a b ty = guard_or (\<not> reaches (typed_edges ty ls) b a) (Link_cycle ty)"

definition add_link :: "ticket \<Rightarrow> ticket \<Rightarrow> string \<Rightarrow> link list \<Rightarrow> service_error + link list" where
  "add_link t target ty ls =
     (if tk_account target \<noteq> tk_account t then Inl (Not_found ''ticket'')
      else if tk_id target = tk_id t then Inl Self_link
      else
        and_then (if ty = ''parent'' \<or> ty = ''blocks'' then assert_acyclic ls (tk_id t) (tk_id target) ty else Inr ())
          (\<lambda>_. Inr (\<lparr>lk_from = tk_id t, lk_to = tk_id target, lk_type = ty\<rparr> # ls)))"

subsection \<open>flagScope and decideScope\<close>

record scope_flag_dto =
  sf_flag :: bool
  sf_reason :: "string option"
  sf_version :: int

record scope_decision_dto =
  sn_approve :: bool
  sn_note :: "string option"
  sn_allowance :: "int option"
  sn_version :: int

definition reason_or_blank :: "scope_detail \<Rightarrow> string" where
  "reason_or_blank d = (case sd_reason d of None \<Rightarrow> [] | Some r \<Rightarrow> r)"

definition flag_scope :: "principal \<Rightarrow> scope_flag_dto \<Rightarrow> store \<Rightarrow> service_error + store" where
  "flag_scope p dto st =
     (let before = st_ticket st; reason = trimmed (sf_reason dto)
      in if tk_state before \<in> set open_states_excluded then Inl Ticket_closed
         else if sf_flag dto then
           (if tk_scope before = Scope_flagged then Inl Already_flagged
            else if reason = [] then Inl Reason_required
            else and_then (update_versioned (sf_version dto)
                   (\<lambda>t. t\<lparr>tk_scope := Scope_flagged,
                          tk_detail := empty_detail\<lparr>sd_reason := Some reason, sd_flagged_by := Some (pr_user p)\<rparr>\<rparr>) before)
                 (\<lambda>after. Inr (st\<lparr>st_ticket := after, st_audit := st_audit st @ [Ev_scope_flagged reason],
                    st_scope_record := st_scope_record st @
                      [\<lparr>sr_event = ''flagged'', sr_reason = reason, sr_actor = pr_user p, sr_note = None, sr_allowance = 0,
                        sr_period = None, sr_client_visible = False\<rparr>],
                    st_outbox := st_outbox st @ [Ev_scope_flagged reason]\<rparr>)))
         else if tk_scope before \<noteq> Scope_flagged then Inl Not_flagged
         else and_then (update_versioned (sf_version dto)
                (\<lambda>t. t\<lparr>tk_scope := Scope_none, tk_detail := (tk_detail t)\<lparr>sd_withdrawn_by := Some (pr_user p)\<rparr>\<rparr>) before)
              (\<lambda>after. Inr (st\<lparr>st_ticket := after, st_audit := st_audit st @ [Ev_scope_withdrawn],
                 st_scope_record := st_scope_record st @
                   [\<lparr>sr_event = ''withdrawn'', sr_reason = reason_or_blank (tk_detail before), sr_actor = pr_user p, sr_note = None,
                     sr_allowance = 0, sr_period = None, sr_client_visible = False\<rparr>],
                 st_outbox := st_outbox st @ [Ev_scope_withdrawn]\<rparr>)))"

definition allowance_of :: "scope_decision_dto \<Rightarrow> int" where
  "allowance_of dto = (if sn_approve dto then (case sn_allowance dto of None \<Rightarrow> 0 | Some n \<Rightarrow> n) else 0)"

definition add_carried_over :: "int \<Rightarrow> contract_period \<Rightarrow> contract_period" where
  "add_carried_over n c = c\<lparr>cp_carried := cp_carried c + n, cp_version := cp_version c + 1\<rparr>"

definition charge_period :: "int \<Rightarrow> contract_period option \<Rightarrow> service_error + contract_period option" where
  "charge_period allowance period =
     (if allowance > 0 then
        (case period of
           None \<Rightarrow> Inl No_contract_period
         | Some c \<Rightarrow> if cp_locked c then Inl Contract_period_locked else Inr (Some (add_carried_over allowance c)))
      else Inr period)"

definition decided_detail :: "principal \<Rightarrow> scope_decision_dto \<Rightarrow> contract_period option \<Rightarrow> scope_detail \<Rightarrow> scope_detail" where
  "decided_detail p dto period d =
     d\<lparr>sd_approved := Some (sn_approve dto),
       sd_note := (if trimmed (sn_note dto) = [] then None else Some (trimmed (sn_note dto))),
       sd_decided_by := Some (pr_user p),
       sd_allowance := (if allowance_of dto > 0 then Some (allowance_of dto) else None),
       sd_period := (if allowance_of dto > 0 then map_option cp_id period else None)\<rparr>"

definition decide_scope ::
    "principal \<Rightarrow> scope_decision_dto \<Rightarrow> contract_period option \<Rightarrow> store \<Rightarrow> service_error + store \<times> contract_period option" where
  "decide_scope p dto period st =
     (let before = st_ticket st; d = tk_detail before; allowance = allowance_of dto;
          state = (if sn_approve dto then Scope_approved else Scope_declined)
      in if tk_scope before \<noteq> Scope_flagged then Inl Not_flagged
         else if \<not> no_text (sd_flagged_by d) \<and> sd_flagged_by d = Some (pr_user p) then Inl Flagger_cannot_decide
         else
           and_then (charge_period allowance period) (\<lambda>period'.
           and_then (update_versioned (sn_version dto)
               (\<lambda>t. t\<lparr>tk_scope := state, tk_detail := decided_detail p dto period d\<rparr>) before) (\<lambda>after.
             let detail = tk_detail after
             in Inr (st\<lparr>st_ticket := after,
                  st_audit := st_audit st @ [Ev_scope_decided state allowance] @
                    (if allowance > 0 then [Ev_allowance (case period of Some c \<Rightarrow> cp_carried c | None \<Rightarrow> 0) allowance] else []),
                  st_scope_record := st_scope_record st @
                    [\<lparr>sr_event = (if sn_approve dto then ''approved'' else ''declined''), sr_reason = reason_or_blank d,
                      sr_actor = pr_user p, sr_note = sd_note detail, sr_allowance = allowance, sr_period = sd_period detail,
                      sr_client_visible = True\<rparr>],
                  st_outbox := st_outbox st @ [Ev_scope_decided state allowance]\<rparr>, period'))))"

subsection \<open>Creation\<close>

lemma find_priority: "find (\<lambda>p. priority_name q = priority_name p) priorities = Some q"
  by (cases q) (simp_all add: priorities_def priority_name_def)

lemma derived_priority_eq:
  assumes "make_matrix body = Inr m"
  shows "derive m impact urgency = JStr (priority_name (derived_priority m impact urgency))"
proof -
  have ok: "validate_matrix body = []" "m = body"
    using assms by (auto simp: make_matrix_def split: if_splits)
  have "is_priority (derive m impact urgency)"
    using validate_matrix_Nil [OF ok(1)] ok(2) by (auto simp: derive_def split: option.split)
  then obtain q where "derive m impact urgency = JStr (priority_name q)"
    by (auto simp: is_priority_iff)
  then show ?thesis by (simp add: derived_priority_def find_priority)
qed

lemma start_clocks_started:
  "start_clocks targets policy cal now = Inr cs \<Longrightarrow> c \<in> set cs \<Longrightarrow> ck_started c = now"
  by (auto simp: start_clocks_def positive_target_def make_clock_def and_then_Inr split: option.splits if_splits)

lemma create_success:
  assumes "create cr accounts importing dto i clock_id now = Inr st"
  obtains cs where
    "cd_account dto \<in> set accounts" "st_ticket st = new_ticket cr dto i"
    "st_clocks st = zip (map clock_id [0..<length cs]) cs" "st_pauses st = []" "st_audit st = [Ev_created]"
    "st_outbox st = (if importing then [] else [Ev_created])"
    "importing \<Longrightarrow> cs = []"
    "\<not> importing \<Longrightarrow> start_clocks (targets_for (cr_contract_policy cr) (cr_default_policy cr) (cd_type dto)
       (tk_priority (new_ticket cr dto i))) (policy_ref cr) (cr_account_calendar cr) now = Inr cs"
  using assms by (auto simp: create_def Let_def and_then_Inr split: if_splits sum.splits)

definition sample_config :: config_reads where
  "sample_config = \<lparr>cr_machine = incident_machine, cr_matrix = sample_matrix, cr_contract = ''k1'', cr_contract_policy = None,
     cr_default_policy = sample_policy, cr_policy_version = ''v1'', cr_account_calendar = wall_clock,
     cr_groups = (\<lambda>g. None), cr_item_known = (\<lambda>a i. False)\<rparr>"

definition sample_create :: create_dto where
  "sample_create = \<lparr>cd_account = ''acme'', cd_type = ''incident'', cd_impact = Some High, cd_urgency = Some High,
     cd_group = None, cd_item = None\<rparr>"

text \<open>A ticket is created only in one of the caller's accounts, at version 1, in the machine's initial state and
  with the priority of the matrix; its clocks are live, unpaused, well formed and due their target in
  working minutes after creation, so the pause invariant holds from the start whenever the
  initial state does not pause; an imported ticket starts no clock and publishes nothing.\<close>

theorem create_sound:
  assumes "create cr accounts importing dto i clock_id now = Inr st"
    and "make_matrix body = Inr (cr_matrix cr)" "supported_calendar (cr_account_calendar cr)"
  shows "cd_account dto \<in> set accounts \<and> tk_version (st_ticket st) = 1 \<and>
    tk_state (st_ticket st) = initial_state (cr_machine cr) \<and>
    derive (cr_matrix cr) (cd_impact dto) (cd_urgency dto) = JStr (priority_name (tk_priority (st_ticket st))) \<and>
    (\<forall>c\<in>snd ` set (st_clocks st). clock_inv now c \<and> is_live c \<and> ck_paused c = None \<and> 0 < ck_target c \<and>
       cal_between (cr_account_calendar cr) now (ck_due c) = ck_target c) \<and>
    (\<not> eff_pause (effects (cr_machine cr) (initial_state (cr_machine cr))) \<longrightarrow> pauses_follow (cr_machine cr) st) \<and>
    (importing \<longrightarrow> st_clocks st = [] \<and> st_outbox st = [])"
  using assms(1)
proof (rule create_success)
  fix cs
  assume *: "cd_account dto \<in> set accounts" "st_ticket st = new_ticket cr dto i"
    "st_clocks st = zip (map clock_id [0..<length cs]) cs" "st_pauses st = []"
    "st_outbox st = (if importing then [] else [Ev_created])" "importing \<Longrightarrow> cs = []"
    "\<not> importing \<Longrightarrow> start_clocks (targets_for (cr_contract_policy cr) (cr_default_policy cr) (cd_type dto)
       (tk_priority (new_ticket cr dto i))) (policy_ref cr) (cr_account_calendar cr) now = Inr cs"
  have snd: "snd ` set (st_clocks st) = set cs"
    using *(3) by (simp flip: set_map)
  have cs: "\<forall>c\<in>set cs. clock_inv now c \<and> is_live c \<and> ck_paused c = None \<and> 0 < ck_target c \<and>
      cal_between (cr_account_calendar cr) (ck_started c) (ck_due c) = ck_target c \<and> ck_started c = now"
    using sla.start_inv [OF assms(3)] *(6,7) start_clocks_started by (cases importing) auto
  have paused: "paused_as False (st_clocks st)" using cs snd by (simp add: paused_as_def)
  have "pauses_follow (cr_machine cr) st" if "\<not> eff_pause (effects (cr_machine cr) (initial_state (cr_machine cr)))"
    using that *(2,4) paused by (simp add: pauses_follow_def open_pauses_def new_ticket_def)
  with * snd cs derived_priority_eq [OF assms(2)] show ?thesis by (auto simp: new_ticket_def)
qed

definition created :: store where
  "created = (case create sample_config [''acme''] False sample_create ''t9'' (\<lambda>n. if n = 0 then ''a'' else ''b'') 0 of Inr s \<Rightarrow> s)"

theorem create_sound_witness:
  "pauses_follow incident_machine created \<and> tk_priority (st_ticket created) = P1 \<and> tk_version (st_ticket created) = 1"
proof -
  have "(case create sample_config [''acme''] False sample_create ''t9'' (\<lambda>n. if n = 0 then ''a'' else ''b'') 0 of Inr s \<Rightarrow> True | Inl e \<Rightarrow> False)"
    and m: "make_matrix sample_matrix = Inr (cr_matrix sample_config)"
    and p: "tk_priority (st_ticket created) = P1" and s: "cr_account_calendar sample_config = wall_clock"
    and q: "\<not> eff_pause (effects incident_machine (initial_state incident_machine))" "cr_machine sample_config = incident_machine"
    by (code_simp, code_simp, code_simp, simp add: sample_config_def, code_simp, simp add: sample_config_def)
  then have "create sample_config [''acme''] False sample_create ''t9'' (\<lambda>n. if n = 0 then ''a'' else ''b'') 0 = Inr created"
    by (auto simp: created_def split: sum.splits)
  from create_sound [OF this m] p q wall_clock_supported s show ?thesis by simp
qed

subsection \<open>Priority under patches\<close>

text \<open>The priority of a ticket nobody overrode is the matrix' for the impact and urgency on its row.\<close>

definition priority_follows :: "json \<Rightarrow> ticket \<Rightarrow> bool" where
  "priority_follows m t \<longleftrightarrow> (\<not> tk_overridden t \<longrightarrow> tk_priority t = derived_priority m (tk_impact t) (tk_urgency t))"

lemma coalesce_patched: "sent \<noteq> Some None \<Longrightarrow> coalesce sent before = patched sent before"
  by (auto simp: coalesce_def patched_def split: option.split)

lemma patch_row_follows:
  assumes "priority_follows (cr_matrix cr) t" "pd_impact dto \<noteq> Some None" "pd_urgency dto \<noteq> Some None"
  shows "priority_follows (cr_matrix cr) (patch_row cr dto t)"
  using assms
  by (auto simp: priority_follows_def patch_row_def patch_priority_def patch_derived_def coalesce_patched
      patched_def [of None] split: option.splits if_splits)

lemma priority_follows_version [simp]: "priority_follows m (t\<lparr>tk_version := v\<rparr>) = priority_follows m t"
  by (simp add: priority_follows_def)

lemma restamp_kept: "restamp_for_priority c n cal now = Inr d \<Longrightarrow> kept (i, c) (i, d)"
  by (auto simp: kept_def restamp_for_priority_def and_then_Inr Let_def split: if_splits)

lemma restamp_all_kept: "restamp_all ts cal now cs = Inr ds \<Longrightarrow> list_all2 kept cs ds"
  by (induction ts cal now cs arbitrary: ds rule: restamp_all.induct)
    (auto simp: and_then_Inr restamp_kept split: option.splits if_splits sum.splits)

lemma if_Inl_Inr: "(if b then Inl e else r) = Inr y \<longleftrightarrow> \<not> b \<and> r = Inr y"
  by simp

lemma patch_row_idle: "\<not> patch_assigns dto t \<Longrightarrow> patch_row cr dto t = t"
  by (cases t) (auto simp: patch_assigns_def resent_def patch_row_def patched_def patch_priority_def split: option.splits)

lemma patch_success:
  assumes "patch cr cal p importing dto now st = Inr st'"
  obtains clocks where
    "tk_state (st_ticket st) \<notin> set open_states_excluded"
    "pd_priority dto = None \<or> ''tickets:override-priority'' \<in> set (pr_permissions p)"
    "patch_assigns dto (st_ticket st) \<Longrightarrow> tk_version (st_ticket st) = pd_version dto"
    "st_ticket st' = (patch_row cr dto (st_ticket st))\<lparr>tk_version := tk_version (st_ticket st) + (if patch_assigns dto (st_ticket st) then 1 else 0)\<rparr>"
    "st_clocks st' = clocks" "list_all2 kept (st_clocks st) clocks"
    "tk_priority (st_ticket st') = tk_priority (st_ticket st) \<Longrightarrow> clocks = st_clocks st"
    "st_audit st' = st_audit st @ map snd (patch_entries cr dto (st_ticket st) (st_ticket st'))"
proof -
  let ?t = "st_ticket st"
  from assms obtain after clocks where
    1: "tk_state ?t \<notin> set open_states_excluded" "pd_priority dto = None \<or> ''tickets:override-priority'' \<in> set (pr_permissions p)"
      "(if patch_assigns dto ?t then update_versioned (pd_version dto) (patch_row cr dto) ?t else Inr ?t) = Inr after"
    and 2: "(if tk_priority after \<noteq> tk_priority ?t
        then restamp_all (targets_for (cr_contract_policy cr) (cr_default_policy cr) (tk_type ?t) (tk_priority after)) cal now (st_clocks st)
        else Inr (st_clocks st)) = Inr clocks"
    and 3: "st' = st\<lparr>st_ticket := after, st_clocks := clocks, st_audit := st_audit st @ map snd (patch_entries cr dto ?t after),
        st_outbox := st_outbox st @ (if importing then [] else [Ev_updated (map fst (patch_entries cr dto ?t after))])\<rparr>"
    unfolding patch_def Let_def and_then_Inr guard_or_Inr if_Inl_Inr by blast
  have "list_all2 kept (st_clocks st) clocks" "tk_priority after = tk_priority ?t \<Longrightarrow> clocks = st_clocks st"
    using 2 restamp_all_kept by (auto split: if_splits)
  with 1 3 patch_row_idle [of dto ?t cr] show ?thesis using that by (cases "patch_assigns dto ?t") (simp_all add: update_versioned_Inr)
qed

text \<open>C32: A patch that succeeds leaves an open ticket in its state, asks for the version and counts it up when it
  changes a column (and only then), keeps every recorded breach and the clock rows, touches the clocks only when the priority changes, sets a
  priority directly only with the permission, and keeps the priority of a ticket nobody overrode equal
  to what the matrix gives for the row, as long as impact and urgency are not cleared.\<close>

theorem patch_sound:
  assumes "patch cr cal p importing dto now st = Inr st'" "priority_follows (cr_matrix cr) (st_ticket st)"
    and "pd_impact dto \<noteq> Some None" "pd_urgency dto \<noteq> Some None"
  shows "tk_state (st_ticket st) \<notin> {''closed'', ''cancelled''} \<and> tk_state (st_ticket st') = tk_state (st_ticket st) \<and>
    (patch_assigns dto (st_ticket st) \<longrightarrow> tk_version (st_ticket st) = pd_version dto \<and> tk_version (st_ticket st') = pd_version dto + 1) \<and>
    (\<not> patch_assigns dto (st_ticket st) \<longrightarrow> st_ticket st' = st_ticket st) \<and>
    priority_follows (cr_matrix cr) (st_ticket st') \<and> list_all2 kept (st_clocks st) (st_clocks st') \<and>
    (tk_priority (st_ticket st') = tk_priority (st_ticket st) \<longrightarrow> st_clocks st' = st_clocks st) \<and>
    (pd_priority dto \<noteq> None \<longrightarrow> ''tickets:override-priority'' \<in> set (pr_permissions p))"
  using assms(1)
proof (rule patch_success)
  fix clocks
  assume *: "tk_state (st_ticket st) \<notin> set open_states_excluded"
    "pd_priority dto = None \<or> ''tickets:override-priority'' \<in> set (pr_permissions p)"
    "patch_assigns dto (st_ticket st) \<Longrightarrow> tk_version (st_ticket st) = pd_version dto"
    "st_ticket st' = (patch_row cr dto (st_ticket st))\<lparr>tk_version := tk_version (st_ticket st) + (if patch_assigns dto (st_ticket st) then 1 else 0)\<rparr>"
    "st_clocks st' = clocks" "list_all2 kept (st_clocks st) clocks"
    "tk_priority (st_ticket st') = tk_priority (st_ticket st) \<Longrightarrow> clocks = st_clocks st"
  have "tk_state (st_ticket st') = tk_state (st_ticket st)" by (simp add: *(4) patch_row_def)
  moreover have "st_ticket st' = st_ticket st" if "\<not> patch_assigns dto (st_ticket st)" using that *(4) by (simp add: patch_row_idle)
  ultimately show ?thesis using * patch_row_follows [OF assms(2-4)] by (auto simp: open_states_excluded_def)
qed

text \<open>A patch that changes no column is not refused at a stale version: it writes an audit entry and an outbox event for it.\<close>

theorem idle_patch_unversioned:
  assumes "tk_state (st_ticket st) \<notin> set open_states_excluded"
  shows "patch cr cal p False \<lparr>pd_version = v, pd_impact = None, pd_urgency = None, pd_priority = None, pd_group = None, pd_item = None\<rparr> now st =
    Inr (st\<lparr>st_audit := st_audit st @ [Ev_changed ''version''], st_outbox := st_outbox st @ [Ev_updated [''version'']]\<rparr>)"
  using assms(1)
  by (simp add: patch_def Let_def patch_assigns_def resent_def changed_to_def assert_group_def assert_item_def guard_or_def patch_entries_def)

definition raise_impact :: patch_dto where
  "raise_impact = \<lparr>pd_version = 1, pd_impact = Some (Some Low), pd_urgency = None, pd_priority = None, pd_group = None, pd_item = None\<rparr>"

definition clear_impact :: patch_dto where
  "clear_impact = raise_impact\<lparr>pd_impact := Some None\<rparr>"

definition lowered :: store where
  "lowered = (case patch sample_config (\<lambda>i. wall_clock) sample_agent False raise_impact 600000 created of Inr s \<Rightarrow> s)"

theorem patch_sound_witness:
  "priority_follows sample_matrix (st_ticket lowered) \<and> tk_priority (st_ticket lowered) = P3 \<and>
    list_all2 kept (st_clocks created) (st_clocks lowered)"
proof -
  have "(case patch sample_config (\<lambda>i. wall_clock) sample_agent False raise_impact 600000 created of Inr s \<Rightarrow> True | Inl e \<Rightarrow> False)"
    and c: "priority_follows (cr_matrix sample_config) (st_ticket created)" "tk_priority (st_ticket lowered) = P3"
    by code_simp+
  then have "patch sample_config (\<lambda>i. wall_clock) sample_agent False raise_impact 600000 created = Inr lowered"
    by (auto simp: lowered_def split: sum.splits)
  from patch_sound [OF this c(1)] c(2) show ?thesis by (simp add: raise_impact_def sample_config_def)
qed

text \<open>Clearing the impact of a ticket does not re-derive its priority from the cleared value: the row's impact is
  gone, the priority is still the one of the old impact, so it no longer follows the matrix (which asks
  for the default when either is missing, as on creation).\<close>

theorem cleared_impact_keeps_priority:
  assumes "pd_impact dto = Some None" "pd_urgency dto = None" "pd_priority dto = None" "\<not> tk_overridden t"
  shows "tk_impact (patch_row cr dto t) = None \<and>
    tk_priority (patch_row cr dto t) = derived_priority (cr_matrix cr) (tk_impact t) (tk_urgency t) \<and>
    (priority_follows (cr_matrix cr) (patch_row cr dto t) \<longleftrightarrow>
       derived_priority (cr_matrix cr) (tk_impact t) (tk_urgency t) = derived_priority (cr_matrix cr) None (tk_urgency t))"
  using assms
  by (simp add: patch_row_def patched_def patch_priority_def patch_derived_def coalesce_def priority_follows_def)

theorem cleared_impact_keeps_priority_witness:
  "tk_impact (patch_row sample_config clear_impact (st_ticket created)) = None \<and>
    tk_priority (patch_row sample_config clear_impact (st_ticket created)) = P1 \<and>
    \<not> priority_follows sample_matrix (patch_row sample_config clear_impact (st_ticket created))"
proof -
  have "\<not> tk_overridden (st_ticket created)"
    "derived_priority (cr_matrix sample_config) (tk_impact (st_ticket created)) (tk_urgency (st_ticket created)) = P1"
    "derived_priority (cr_matrix sample_config) None (tk_urgency (st_ticket created)) = P3"
    by code_simp+
  with cleared_impact_keeps_priority [of clear_impact "st_ticket created" sample_config] show ?thesis
    by (simp add: clear_impact_def raise_impact_def sample_config_def)
qed

subsection \<open>First responses\<close>

lemma add_comment_success:
  assumes "add_comment p importing op body now st = Inr st'"
  defines "first \<equiv> counts_as_operator importing op p \<and> tk_first_response (st_ticket st) = None"
  shows "st_clocks st' = (if first then map (\<lambda>(i, c). (i, respond_clock now c)) (st_clocks st) else st_clocks st)"
    and "st_ticket st' = (if first then (st_ticket st)\<lparr>tk_first_response := Some now, tk_response_breached := False,
      tk_version := tk_version (st_ticket st) + 1\<rparr> else st_ticket st)"
    and "st_comments st' = st_comments st @ [\<lparr>cm_author = pr_user p, cm_body = body, cm_first_response = first\<rparr>]"
  using assms by (auto simp: add_comment_def Let_def and_then_Inr update_versioned_Inr split: if_splits)

definition answered :: "ms \<Rightarrow> string \<times> clock \<Rightarrow> string \<times> clock \<Rightarrow> bool" where
  "answered now p q \<longleftrightarrow> fst q = fst p \<and>
     (if ck_kind (snd p) = Resolution then snd q = snd p
      else ck_met (snd q) \<noteq> None \<and>
        (ck_breached (snd q) \<noteq> None \<longleftrightarrow> ck_breached (snd p) \<noteq> None \<or> snd (latch (snd p) now)))"

lemma mark_met_simps [simp]: "ck_met (mark_met c now) \<noteq> None" "ck_breached (mark_met c now) = ck_breached c"
  by (simp_all add: mark_met_def)

lemma latch_breached: "ck_breached (fst (latch c now)) \<noteq> None \<longleftrightarrow> ck_breached c \<noteq> None \<or> snd (latch c now)"
  by (simp add: latch_def)

lemma answered_respond: "answered now (i, c) (i, respond_clock now c)"
proof (cases "ck_kind c")
  case Response
  then show ?thesis
    unfolding answered_def respond_clock_def using mark_met_simps(1) latch_breached [of c now] by simp
next
  case Resolution
  then show ?thesis by (simp add: answered_def respond_clock_def)
qed

text \<open>The first operator reply, and only it, stops the response clocks: it stamps the first response, marks every
  response clock met after latching it, so that a late reply still records the breach, and keeps the
  resolution clocks; any other comment changes neither the ticket's row nor its clocks.\<close>

theorem first_reply_meets_response:
  assumes "add_comment p importing op body now st = Inr st'"
  shows "(counts_as_operator importing op p \<and> tk_first_response (st_ticket st) = None \<longrightarrow>
      tk_first_response (st_ticket st') = Some now \<and>
      list_all2 (answered now) (st_clocks st) (st_clocks st')) \<and>
    (\<not> (counts_as_operator importing op p \<and> tk_first_response (st_ticket st) = None) \<longrightarrow>
      st_ticket st' = st_ticket st \<and> st_clocks st' = st_clocks st) \<and>
    length (st_comments st') = length (st_comments st) + 1"
proof -
  have all: "list_all2 (answered now) cs (map (\<lambda>(i, c). (i, respond_clock now c)) cs)" for cs
    by (induction cs) (auto intro: answered_respond)
  show ?thesis
  proof (cases "counts_as_operator importing op p \<and> tk_first_response (st_ticket st) = None")
    case True
    then show ?thesis unfolding add_comment_success [OF assms] if_P [OF True] using all by simp
  next
    case False
    then show ?thesis unfolding add_comment_success [OF assms] if_not_P [OF False] by simp
  qed
qed

definition replied :: store where
  "replied = (case add_comment sample_agent False False ''looking'' 2000000 sample_store of Inr s \<Rightarrow> s)"

lemma replied_made: "add_comment sample_agent False False ''looking'' 2000000 sample_store = Inr replied"
proof -
  have "(case add_comment sample_agent False False ''looking'' 2000000 sample_store of Inr s \<Rightarrow> True | Inl e \<Rightarrow> False)"
    by code_simp
  then show ?thesis by (auto simp: replied_def split: sum.splits)
qed

lemma replied_first: "counts_as_operator False False sample_agent" "tk_first_response (st_ticket sample_store) = None"
  by code_simp+

theorem first_reply_meets_response_witness:
  "tk_first_response (st_ticket replied) = Some 2000000 \<and> list_all2 (answered 2000000) (st_clocks sample_store) (st_clocks replied)"
  using first_reply_meets_response [OF replied_made] replied_first by simp

text \<open>The reply that stops a late response clock hides the breach it records: whenever a response clock had
  breached, or was running past its due time, the first operator reply leaves a breached response clock
  on the ticket while the ticket's own breach flag says there is none.\<close>

theorem late_reply_hides_breach:
  assumes "add_comment p importing op body now st = Inr st'"
    and "counts_as_operator importing op p" "tk_first_response (st_ticket st) = None"
    and "(i, c) \<in> set (st_clocks st)" "ck_kind c = Response"
    and "ck_breached c \<noteq> None \<or> is_live c \<and> ck_paused c = None \<and> ck_due c \<le> now"
  shows "kind_breached Response (st_clocks st') \<and> \<not> tk_response_breached (st_ticket st')"
proof -
  have "answered now (i, c) (i, respond_clock now c)" by (rule answered_respond)
  then have "ck_breached (respond_clock now c) \<noteq> None" "ck_kind (respond_clock now c) = Response"
    using assms(5,6) by (auto simp: answered_def latch_iff respond_clock_def)
  moreover have "(i, respond_clock now c) \<in> set (st_clocks st')"
    using assms(2-4) by (force simp: add_comment_success [OF assms(1)])
  ultimately have "kind_breached Response (st_clocks st')"
    unfolding kind_breached_def list_ex_iff by (metis snd_conv)
  with assms(2,3) show ?thesis by (simp add: add_comment_success(2) [OF assms(1)])
qed

theorem late_reply_hides_breach_witness:
  "kind_breached Response (st_clocks replied) \<and> \<not> tk_response_breached (st_ticket replied)"
proof -
  have "(''c1'', sample_clock Response 1800000) \<in> set (st_clocks sample_store)" by (simp add: sample_store_def)
  from late_reply_hides_breach [OF replied_made replied_first this] show ?thesis
    by (simp add: sample_clock_def is_live_def)
qed

subsection \<open>Links\<close>

lemma typed_edges_Cons:
  "typed_edges ty (\<lparr>lk_from = a, lk_to = b, lk_type = u\<rparr> # ls) = (if u = ty then [(a, b)] else []) @ typed_edges ty ls"
  by (simp add: typed_edges_def)

text \<open>Parent and blocking links never form a cycle: a link that is added keeps the links of both types acyclic,
  joins two different tickets of one account, and a link of these types between such tickets is refused
  precisely when it would close a cycle.\<close>

theorem links_stay_acyclic:
  assumes "acyclic (set (typed_edges ''parent'' ls))" "acyclic (set (typed_edges ''blocks'' ls))"
  shows "(\<forall>ls'. add_link t target ty ls = Inr ls' \<longrightarrow>
      acyclic (set (typed_edges ''parent'' ls')) \<and> acyclic (set (typed_edges ''blocks'' ls')) \<and>
      tk_id target \<noteq> tk_id t \<and> tk_account target = tk_account t) \<and>
    (ty \<in> {''parent'', ''blocks''} \<and> tk_id target \<noteq> tk_id t \<and> tk_account target = tk_account t \<longrightarrow>
      (add_link t target ty ls = Inl (Link_cycle ty) \<longleftrightarrow>
       \<not> acyclic (insert (tk_id t, tk_id target) (set (typed_edges ty ls)))))"
proof -
  have cyc: "reaches (typed_edges ty ls) (tk_id target) (tk_id t) \<longleftrightarrow>
      \<not> acyclic (insert (tk_id t, tk_id target) (set (typed_edges ty ls)))" if "ty \<in> {''parent'', ''blocks''}"
  proof -
    have "acyclic (set (typed_edges ty ls))" using assms that by auto
    then show ?thesis
      using stack_walk.insert_acyclic [of "typed_edges ty ls" "tk_id target" "tk_id t"]
        stack_walk.insert_cyclic [of "typed_edges ty ls" "tk_id target" "tk_id t"] by auto
  qed
  then show ?thesis
    using assms by (auto simp: add_link_def assert_acyclic_def guard_or_def typed_edges_Cons split: if_splits)
qed

theorem links_stay_acyclic_witness:
  "add_link (sample_ticket\<lparr>tk_id := ''t2''\<rparr>) sample_ticket ''parent'' [\<lparr>lk_from = ''t1'', lk_to = ''t2'', lk_type = ''parent''\<rparr>] =
     Inl (Link_cycle ''parent'')"
proof -
  let ?ls = "[\<lparr>lk_from = ''t1'', lk_to = ''t2'', lk_type = ''parent''\<rparr>]"
  have e: "typed_edges ''parent'' ?ls = [(''t1'', ''t2'')]" "typed_edges ''blocks'' ?ls = []"
    by (simp_all add: typed_edges_def)
  have "acyclic {(''t1'', ''t2'')}" by (simp add: acyclic_insert wf_acyclic)
  moreover have "\<not> acyclic {(''t2'', ''t1''), (''t1'', ''t2'')}" by (auto simp: acyclic_insert)
  ultimately show ?thesis
    using links_stay_acyclic [of ?ls "sample_ticket\<lparr>tk_id := ''t2''\<rparr>" sample_ticket "''parent''"]
    by (simp add: e sample_ticket_def)
qed

subsection \<open>Scope decisions\<close>

lemma decide_scope_success:
  assumes "decide_scope p dto period st = Inr (st', period')"
  shows "tk_scope (st_ticket st) = Scope_flagged"
    and "no_text (sd_flagged_by (tk_detail (st_ticket st))) \<or> sd_flagged_by (tk_detail (st_ticket st)) \<noteq> Some (pr_user p)"
    and "charge_period (allowance_of dto) period = Inr period'"
    and "tk_version (st_ticket st) = sn_version dto"
    and "st_ticket st' = (st_ticket st)\<lparr>tk_scope := (if sn_approve dto then Scope_approved else Scope_declined),
      tk_detail := decided_detail p dto period (tk_detail (st_ticket st)), tk_version := tk_version (st_ticket st) + 1\<rparr>"
    and "map sr_allowance (st_scope_record st') = map sr_allowance (st_scope_record st) @ [allowance_of dto]"
    and "sr_client_visible (last (st_scope_record st'))"
  using assms
  by (simp_all add: decide_scope_def Let_def and_then_Inr update_versioned_Inr if_Inl_Inr) auto

definition recorded_allowance :: "store \<Rightarrow> int" where
  "recorded_allowance st = sum_list (map sr_allowance (st_scope_record st))"

text \<open>C11: A scope decision answers a flag once: the flag was open and raised by somebody else, the ticket leaves the
  flagged state, and any further decision on it is refused. The contract period grows by exactly the
  allowance written to the scope record, and an allowance is refused without a period or in a
  locked one.\<close>

theorem scope_decision_accounts:
  assumes "decide_scope p dto period st = Inr (st', period')" "0 \<le> allowance_of dto"
  shows "tk_scope (st_ticket st) = Scope_flagged \<and> tk_scope (st_ticket st') \<noteq> Scope_flagged \<and>
    (\<forall>u. sd_flagged_by (tk_detail (st_ticket st)) = Some u \<and> u \<noteq> [] \<longrightarrow> u \<noteq> pr_user p) \<and>
    (\<forall>p2 dto2 period2. decide_scope p2 dto2 period2 st' = Inl Not_flagged) \<and>
    (case period of
       None \<Rightarrow> period' = None \<and> allowance_of dto = 0
     | Some c \<Rightarrow> \<exists>c'. period' = Some c' \<and> cp_carried c' - cp_carried c = recorded_allowance st' - recorded_allowance st \<and>
         (cp_locked c \<longrightarrow> c' = c))"
proof -
  note d = decide_scope_success [OF assms(1)]
  have "recorded_allowance st' - recorded_allowance st = allowance_of dto"
    by (simp add: recorded_allowance_def d(6))
  moreover have "decide_scope p2 dto2 period2 st' = Inl Not_flagged" for p2 dto2 period2
    by (simp add: decide_scope_def Let_def d(5))
  ultimately show ?thesis
    using d(1-3) assms(2)
    by (auto simp: d(5) charge_period_def add_carried_over_def no_text_def split: option.splits if_splits)
qed

definition flagged_store :: store where
  "flagged_store = sample_store\<lparr>st_ticket := sample_ticket\<lparr>tk_scope := Scope_flagged,
     tk_detail := empty_detail\<lparr>sd_reason := Some ''new work'', sd_flagged_by := Some ''u1''\<rparr>\<rparr>\<rparr>"

definition approve_sixty :: scope_decision_dto where
  "approve_sixty = \<lparr>sn_approve = True, sn_note = None, sn_allowance = Some 60, sn_version = 4\<rparr>"

theorem scope_decision_accounts_witness:
  "decide_scope sample_agent approve_sixty None flagged_store = Inl Flagger_cannot_decide \<and>
   (\<exists>st' c'. decide_scope (sample_agent\<lparr>pr_user := ''u2''\<rparr>) approve_sixty
      (Some \<lparr>cp_id = ''p'', cp_version = 1, cp_carried = 30, cp_locked = False\<rparr>) flagged_store = Inr (st', Some c') \<and>
      cp_carried c' = 90 + recorded_allowance st' - 60)"
proof -
  let ?p = "sample_agent\<lparr>pr_user := ''u2''\<rparr>"
  let ?c = "\<lparr>cp_id = ''p'', cp_version = 1, cp_carried = 30, cp_locked = False\<rparr>"
  have "(case decide_scope sample_agent approve_sixty None flagged_store of Inl e \<Rightarrow> e = Flagger_cannot_decide | Inr x \<Rightarrow> False)"
    "(case decide_scope ?p approve_sixty (Some ?c) flagged_store of Inl e \<Rightarrow> False | Inr x \<Rightarrow> True)"
    and r: "recorded_allowance flagged_store = 0" "0 \<le> allowance_of approve_sixty"
    by code_simp+
  then obtain st' q where *: "decide_scope ?p approve_sixty (Some ?c) flagged_store = Inr (st', q)"
    "decide_scope sample_agent approve_sixty None flagged_store = Inl Flagger_cannot_decide"
    by (auto split: sum.splits)
  from scope_decision_accounts [OF *(1) r(2)] r(1) * show ?thesis by auto
qed

text \<open>Flagging and withdrawing are each other's inverse on the flag: a flag is raised only on an open,
  unflagged ticket with a reason that is not blank, and is recorded trimmed and invisible to the client;
  withdrawing needs an open flag; both move the version.\<close>

theorem flag_scope_sound:
  assumes "flag_scope p dto st = Inr st'"
  shows "tk_state (st_ticket st) \<notin> set open_states_excluded \<and> tk_version (st_ticket st) = sf_version dto \<and>
    tk_version (st_ticket st') = sf_version dto + 1 \<and>
    (if sf_flag dto
     then tk_scope (st_ticket st) \<noteq> Scope_flagged \<and> tk_scope (st_ticket st') = Scope_flagged \<and>
       trimmed (sf_reason dto) \<noteq> [] \<and>
       tk_detail (st_ticket st') = empty_detail\<lparr>sd_reason := Some (trimmed (sf_reason dto)), sd_flagged_by := Some (pr_user p)\<rparr>
     else tk_scope (st_ticket st) = Scope_flagged \<and> tk_scope (st_ticket st') = Scope_none) \<and>
    recorded_allowance st' = recorded_allowance st \<and> \<not> sr_client_visible (last (st_scope_record st'))"
  using assms
  by (auto simp: flag_scope_def Let_def and_then_Inr update_versioned_Inr if_Inl_Inr recorded_allowance_def split: if_splits)

theorem flag_scope_sound_witness:
  "\<exists>st'. flag_scope sample_agent \<lparr>sf_flag = True, sf_reason = Some '' extra '', sf_version = 4\<rparr> sample_store = Inr st' \<and>
    tk_scope (st_ticket st') = Scope_flagged \<and> tk_version (st_ticket st') = 5"
proof -
  let ?d = "\<lparr>sf_flag = True, sf_reason = Some '' extra '', sf_version = 4\<rparr>"
  have "(case flag_scope sample_agent ?d sample_store of Inl e \<Rightarrow> False | Inr x \<Rightarrow> True)" by code_simp
  then obtain st' where *: "flag_scope sample_agent ?d sample_store = Inr st'" by (auto split: sum.splits)
  from flag_scope_sound [OF *] * show ?thesis by simp
qed

subsection \<open>Imports\<close>

text \<open>An imported state never runs outside the migration, names a declared state of the ticket's machine, and
  moves no clock, writes no pause and publishes nothing.\<close>

theorem import_state_quiet:
  assumes "import_state m importing state stamp code st = Inr st'"
  shows "importing \<and> (\<exists>s. find_state m state = Some s) \<and> tk_state (st_ticket st') = state \<and>
    st_clocks st' = st_clocks st \<and> st_pauses st' = st_pauses st \<and> st_outbox st' = st_outbox st"
  using assms
  by (auto simp: import_state_def Let_def and_then_Inr update_versioned_Inr if_Inl_Inr import_row_def split: if_splits option.splits)

theorem import_state_quiet_witness:
  "\<exists>st'. import_state incident_machine True ''closed'' 5 None sample_store = Inr st' \<and>
    tk_state (st_ticket st') = ''closed'' \<and> st_outbox st' = []"
proof -
  have "(case import_state incident_machine True ''closed'' 5 None sample_store of Inl e \<Rightarrow> False | Inr x \<Rightarrow> True)" by code_simp
  then obtain st' where *: "import_state incident_machine True ''closed'' 5 None sample_store = Inr st'"
    by (auto split: sum.splits)
  from import_state_quiet [OF *] * show ?thesis by (simp add: sample_store_def)
qed

end
