(* ===== verification/Ticket_Life.thy ===== *)
theory Ticket_Life
  imports Ticket_Operations
begin

section \<open>The life of a ticket\<close>

text \<open>
  The operations of the ticket service interleaved: one step is any handler that succeeds on the ticket, by
  any principal, at any time and in any order. The invariants of the single operations are carried over
  every run from creation by rule induction: the state machine is never left, clocks are paused
  exactly in pausing states, and the clock rows and recorded breaches are kept.
\<close>

inductive desk_step :: "state_machine \<Rightarrow> store \<Rightarrow> store \<Rightarrow> bool" for m where
  transitioned: "rd_machine rd = m \<Longrightarrow> transition rd p dto now st = Inr st' \<Longrightarrow> desk_step m st st'"
| was_patched: "patch cr cal p False pdto now st = Inr st' \<Longrightarrow> desk_step m st st'"
| commented: "add_comment p False op body now st = Inr st' \<Longrightarrow> desk_step m st st'"
| scope_flagged: "flag_scope p fdto st = Inr st' \<Longrightarrow> desk_step m st st'"
| scope_decided: "decide_scope p ddto period st = Inr (st', period') \<Longrightarrow> desk_step m st st'"

text \<open>Every step but a transition leaves the state and the pause rows.\<close>

lemma comment_frame:
  "add_comment p importing op body now st = Inr st' \<Longrightarrow> st_pauses st' = st_pauses st \<and> tk_state (st_ticket st') = tk_state (st_ticket st)"
  by (auto simp: add_comment_def Let_def and_then_Inr update_versioned_Inr split: if_splits)

lemma patch_frame:
  assumes "patch cr cal p importing dto now st = Inr st'"
  shows "st_pauses st' = st_pauses st \<and> tk_state (st_ticket st') = tk_state (st_ticket st)"
  using assms unfolding patch_def Let_def and_then_Inr if_Inl_Inr
  by (auto simp: update_versioned_Inr patch_row_def split: if_splits)

lemma flag_frame:
  "flag_scope p dto st = Inr st' \<Longrightarrow> st_pauses st' = st_pauses st \<and> st_clocks st' = st_clocks st \<and>
     tk_state (st_ticket st') = tk_state (st_ticket st)"
  by (auto simp: flag_scope_def Let_def and_then_Inr update_versioned_Inr if_Inl_Inr split: if_splits)

lemma decide_frame:
  "decide_scope p dto period st = Inr (st', period') \<Longrightarrow> st_pauses st' = st_pauses st \<and> st_clocks st' = st_clocks st \<and>
     tk_state (st_ticket st') = tk_state (st_ticket st)"
  by (auto simp: decide_scope_def Let_def and_then_Inr update_versioned_Inr if_Inl_Inr)

lemma restamp_live: "restamp_for_priority c n cal now = Inr d \<Longrightarrow> is_live d = is_live c \<and> ck_paused d = ck_paused c"
  by (auto simp: restamp_for_priority_def and_then_Inr Let_def is_live_def split: if_splits)

lemma restamp_all_paused: "restamp_all ts cal now cs = Inr ds \<Longrightarrow> paused_as b cs \<Longrightarrow> paused_as b ds"
proof (induction ts cal now cs arbitrary: ds rule: restamp_all.induct)
  case (2 ts cal now i c cs)
  then obtain d es where d: "ds = (i, d) # es" "restamp_all ts cal now cs = Inr es" "is_live d = is_live c \<and> ck_paused d = ck_paused c"
    by (auto simp: and_then_Inr dest: restamp_live split: option.splits if_splits sum.splits)
  have "paused_as b cs" using 2(3) by (simp add: paused_as_def)
  with 2(1,3) d show ?case by (auto simp: paused_as_def)
qed simp

lemma patch_paused:
  assumes "patch cr cal p importing dto now st = Inr st'" "paused_as b (st_clocks st)"
  shows "paused_as b (st_clocks st')"
  using assms unfolding patch_def Let_def and_then_Inr if_Inl_Inr
  by (auto split: if_splits intro: restamp_all_paused)

lemma comment_paused:
  assumes "add_comment p importing op body now st = Inr st'" "paused_as b (st_clocks st)"
  shows "paused_as b (st_clocks st')"
proof -
  have "is_live (respond_clock now c) \<Longrightarrow> is_live c \<and> ck_paused (respond_clock now c) = ck_paused c" for c
    by (auto simp: respond_clock_def mark_met_def latch_def is_live_def split: if_splits)
  from paused_as_map [OF this assms(2)] assms show ?thesis
    by (simp add: add_comment_success(1) [OF assms(1)])
qed

lemma comment_kept:
  assumes "add_comment p importing op body now st = Inr st'"
  shows "list_all2 kept (st_clocks st) (st_clocks st')"
proof -
  have "kept (i, c) (i, respond_clock now c)" for i c
    using kept_trans [OF kept_ops(1) [of i c now] kept_ops(3) [of i "fst (latch c now)" now]]
    by (simp add: respond_clock_def)
  then show ?thesis
    by (simp add: add_comment_success(1) [OF assms] kept_map)
qed

lemma transition_all_kept:
  assumes "transition rd p dto now st = Inr st'"
  shows "list_all2 kept (st_clocks st) (st_clocks st')"
  using latch_all_kept transition_kept [OF assms] by (rule kept_all_trans)

lemma patch_kept: "patch cr cal p importing dto now st = Inr st' \<Longrightarrow> list_all2 kept (st_clocks st) (st_clocks st')"
  by (erule patch_success) simp

subsection \<open>One step\<close>

lemma transition_follows:
  assumes "transition rd p dto now st = Inr st'" "pauses_follow (rd_machine rd) st"
  shows "pauses_follow (rd_machine rd) st' \<and>
    can_transition (rd_machine rd) (tk_state (st_ticket st)) (tk_state (st_ticket st')) Internal"
proof -
  let ?m = "rd_machine rd"
  let ?fe = "effects ?m (tk_state (st_ticket st))" and ?te = "effects ?m (td_to dto)"
  have "tk_state (st_ticket st') = td_to dto \<and> paused_as (eff_pause ?te) (st_clocks st') \<and>
      can_transition ?m (tk_state (st_ticket st)) (td_to dto) (actor_of p)"
    using assms(1) by (rule transition_success)
      (use assms(2) in \<open>auto simp: pauses_follow_def intro!: settle_paused dest: resume_phase_paused\<close>)
  with transition_pause_rows [OF assms(1) refl refl] assms(2) show ?thesis
    by (auto simp: pauses_follow_def can_transition_def split: option.splits if_splits)
qed

definition desk_ok :: "state_machine \<Rightarrow> store \<Rightarrow> bool" where
  "desk_ok m st \<longleftrightarrow> pauses_follow m st \<and> visits m Internal (tk_state (st_ticket st))"

lemma desk_step_ok:
  assumes "desk_step m st st'" "desk_ok m st"
  shows "desk_ok m st' \<and> list_all2 kept (st_clocks st) (st_clocks st')"
  using assms
proof (induction rule: desk_step.induct)
  case (transitioned rd p dto now st st')
  then show ?case
    using transition_follows [OF transitioned(2)] transition_all_kept [OF transitioned(2)]
    by (auto simp: desk_ok_def intro: visits.move)
next
  case (was_patched cr cal p pdto now st st')
  then show ?case
    using patch_frame [OF was_patched(1)] patch_paused [OF was_patched(1)] patch_kept [OF was_patched(1)]
    by (simp add: desk_ok_def pauses_follow_def)
next
  case (commented p op body now st st')
  then show ?case
    using comment_frame [OF commented(1)] comment_paused [OF commented(1)] comment_kept [OF commented(1)]
    by (simp add: desk_ok_def pauses_follow_def)
next
  case (scope_flagged p fdto st st')
  then show ?case using flag_frame [OF scope_flagged(1)] by (simp add: desk_ok_def pauses_follow_def)
next
  case (scope_decided p ddto period st st' period')
  then show ?case using decide_frame [OF scope_decided(1)] by (simp add: desk_ok_def pauses_follow_def)
qed

lemma desk_run_ok:
  "(desk_step m)\<^sup>*\<^sup>* st st' \<Longrightarrow> desk_ok m st \<Longrightarrow> desk_ok m st' \<and> list_all2 kept (st_clocks st) (st_clocks st')"
proof (induction rule: rtranclp_induct)
  case (step y z)
  then show ?case using desk_step_ok [OF step(2)] kept_all_trans by blast
qed simp

lemma created_ok:
  assumes "create cr accounts importing dto i clock_id now = Inr st"
    and "supported_calendar (cr_account_calendar cr)"
    and "\<not> eff_pause (effects (cr_machine cr) (initial_state (cr_machine cr)))"
  shows "desk_ok (cr_machine cr) st"
  using assms(1)
proof (rule create_success)
  fix cs
  assume *: "st_ticket st = new_ticket cr dto i" "st_clocks st = zip (map clock_id [0..<length cs]) cs" "st_pauses st = []"
    "importing \<Longrightarrow> cs = []"
    "\<not> importing \<Longrightarrow> start_clocks (targets_for (cr_contract_policy cr) (cr_default_policy cr) (cd_type dto)
       (tk_priority (new_ticket cr dto i))) (policy_ref cr) (cr_account_calendar cr) now = Inr cs"
  have "snd ` set (st_clocks st) = set cs" using *(2) by (simp flip: set_map)
  moreover have "\<forall>c\<in>set cs. ck_paused c = None"
    using sla.start_inv [OF assms(2)] *(4,5) by (cases importing) auto
  ultimately have "paused_as False (st_clocks st)" by (simp add: paused_as_def)
  with *(1,3) assms(3) show ?thesis
    using visits.start [of "cr_machine cr" Internal]
    by (simp add: desk_ok_def pauses_follow_def open_pauses_def new_ticket_def)
qed



end
