(* ===== verification/Csv.thy ===== *)
theory Csv
  imports Prelude
begin

section \<open>Tabular exports (src/domain/reporting/csv.ts)\<close>

text \<open>
  Formula neutralisation and RFC 4180 rows. A cell is a text, a number or absent; the text of a
  number (\<open>String(n)\<close>) and of an object (\<open>JSON.stringify\<close>) is JavaScript's, so a number cell carries a
  rendering function's result through the parameter \<open>num_text\<close> and an object cell its serialisation.
  The specification side is a reader of RFC 4180 text, a four-state automaton; what the writer
  produces reads back as the neutralised cells, and no cell it writes starts a formula.
\<close>

datatype cell = Text_cell string | Number_cell rat | Empty_cell | Object_cell string

definition formula_start :: "char \<Rightarrow> bool" where
  "formula_start c \<longleftrightarrow> c \<in> set ''=+-@'' \<or> of_char c = (9::nat) \<or> of_char c = (13::nat)"

definition neutralise_formula :: "string \<Rightarrow> string" where
  "neutralise_formula s =
     (case s of [] \<Rightarrow> [] | c # _ \<Rightarrow> if formula_start c then CHR 0x27 # s else s)"

definition neutralise_cell :: "cell \<Rightarrow> cell" where
  "neutralise_cell v = (case v of Text_cell s \<Rightarrow> Text_cell (neutralise_formula s) | _ \<Rightarrow> v)"

definition cell_text :: "(rat \<Rightarrow> string) \<Rightarrow> cell \<Rightarrow> string" where
  "cell_text num_text v =
     (case v of Text_cell s \<Rightarrow> s | Number_cell n \<Rightarrow> num_text n | Empty_cell \<Rightarrow> [] | Object_cell s \<Rightarrow> s)"

definition needs_quotes :: "char \<Rightarrow> bool" where
  "needs_quotes c \<longleftrightarrow> c \<in> {CHR 0x22, CHR '','', CHR 0x0A, CHR 0x0D}"

definition double_quotes :: "string \<Rightarrow> string" where
  "double_quotes s = concat (map (\<lambda>c. if c = CHR 0x22 then [c, c] else [c]) s)"

definition quote_field :: "string \<Rightarrow> string" where
  "quote_field s = (if list_ex needs_quotes s then [CHR 0x22] @ double_quotes s @ [CHR 0x22] else s)"

definition csv_cell :: "(rat \<Rightarrow> string) \<Rightarrow> cell \<Rightarrow> string" where
  "csv_cell num_text v = quote_field (neutralise_formula (cell_text num_text v))"

definition crlf :: string where
  "crlf = [CHR 0x0D, CHR 0x0A]"

definition to_csv_rows :: "(rat \<Rightarrow> string) \<Rightarrow> string list \<Rightarrow> cell list list \<Rightarrow> string" where
  "to_csv_rows num_text columns rows =
     join_with crlf (join_with '','' columns # map (\<lambda>row. join_with '','' (map (csv_cell num_text) row)) rows)"

subsection \<open>A reader of RFC 4180 text\<close>

datatype reading = At_start | In_plain | In_quotes | After_quote

text \<open>The field and the row read so far are kept reversed; a bare carriage return before a line feed ends a row.\<close>

fun read_csv :: "reading \<Rightarrow> string \<Rightarrow> string list \<Rightarrow> string list list \<Rightarrow> string \<Rightarrow> string list list" where
  "read_csv mode field row rows [] = rev (rev (rev field # row) # rows)"
| "read_csv In_quotes field row rows (c # cs) =
     (if c = CHR 0x22 then read_csv After_quote field row rows cs
      else read_csv In_quotes (c # field) row rows cs)"
| "read_csv mode field row rows (c # cs) =
     (if c = CHR '','' then read_csv At_start [] (rev field # row) rows cs
      else if c = CHR 0x0A then read_csv At_start [] [] (rev (rev field # row) # rows) cs
      else if c = CHR 0x0D then read_csv In_plain field row rows cs
      else if c = CHR 0x22 \<and> mode = At_start then read_csv In_quotes field row rows cs
      else if c = CHR 0x22 \<and> mode = After_quote then read_csv In_quotes (c # field) row rows cs
      else read_csv In_plain (c # field) row rows cs)"

definition parse_csv :: "string \<Rightarrow> string list list" where
  "parse_csv text = read_csv At_start [] [] [] text"

lemma read_plain:
  "\<not> list_ex needs_quotes s \<Longrightarrow> s \<noteq> [] \<Longrightarrow> mode = At_start \<or> mode = In_plain \<Longrightarrow>
     read_csv mode field row rows (s @ rest) = read_csv In_plain (rev s @ field) row rows rest"
proof (induction s arbitrary: mode field)
  case (Cons c s)
  have c: "c \<noteq> CHR '',''" "c \<noteq> CHR 0x0A" "c \<noteq> CHR 0x0D" "c \<noteq> CHR 0x22"
    using Cons.prems(1) by (auto simp: needs_quotes_def)
  then have step: "read_csv mode field row rows (c # s @ rest) = read_csv In_plain (c # field) row rows (s @ rest)"
    using Cons.prems(3) by auto
  show ?case
  proof (cases "s = []")
    case False
    with Cons.IH [of In_plain "c # field"] Cons.prems(1) step show ?thesis by simp
  qed (use step in simp)
qed simp

lemma read_quoted:
  "read_csv In_quotes field row rows (double_quotes s @ CHR 0x22 # rest) =
     read_csv After_quote (rev s @ field) row rows rest"
  by (induction s arbitrary: field) (auto simp: double_quotes_def)

text \<open>A written field leaves the reader at its end, in one of the states that treat a separator alike.\<close>

lemma read_field:
  "\<exists>mode. mode \<noteq> In_quotes \<and>
     (\<forall>rest. read_csv At_start [] row rows (quote_field s @ rest) = read_csv mode (rev s) row rows rest)"
proof (cases "list_ex needs_quotes s")
  case True
  then have "read_csv At_start [] row rows (quote_field s @ rest) = read_csv After_quote (rev s) row rows rest" for rest
    using read_quoted [of "[]" row rows s rest] by (simp add: quote_field_def)
  then show ?thesis by (intro exI [of _ After_quote]) simp
next
  case False
  show ?thesis
  proof (cases "s = []")
    case True
    then show ?thesis by (intro exI [of _ At_start]) (simp add: quote_field_def)
  next
    case s: False
    with False read_plain [of s At_start "[]" row rows]
    show ?thesis by (intro exI [of _ In_plain]) (simp add: quote_field_def)
  qed
qed

lemma read_row:
  "fields \<noteq> [] \<Longrightarrow> \<exists>mode. mode \<noteq> In_quotes \<and>
     (\<forall>rest. read_csv At_start [] row rows (join_with '','' (map quote_field fields) @ rest) =
        read_csv mode (rev (last fields)) (rev (butlast fields) @ row) rows rest)"
proof (induction fields arbitrary: row)
  case (Cons s fs)
  from read_field [of row rows s] obtain m where
    m: "m \<noteq> In_quotes" "\<And>rest. read_csv At_start [] row rows (quote_field s @ rest) = read_csv m (rev s) row rows rest"
    by blast
  show ?case
  proof (cases fs)
    case Nil
    with m show ?thesis by auto
  next
    case (Cons f fs')
    with Cons.IH [of "s # row"] obtain m' where
      m': "m' \<noteq> In_quotes" "\<And>rest. read_csv At_start [] (s # row) rows (join_with '','' (map quote_field fs) @ rest) =
        read_csv m' (rev (last fs)) (rev (butlast fs) @ s # row) rows rest"
      by auto
    have "read_csv At_start [] row rows (join_with '','' (map quote_field (s # fs)) @ rest) =
        read_csv m' (rev (last fs)) (rev (butlast fs) @ s # row) rows rest" for rest
      using m(1) m'(2) [of rest] Cons m(2) [of "'','' @ join_with '','' (map quote_field fs) @ rest"]
      by (cases m) simp_all
    with m'(1) Cons show ?thesis by (intro exI [of _ m']) simp
  qed
qed simp

lemma read_row_end:
  assumes "fields \<noteq> []"
  shows "read_csv At_start [] [] rows (join_with '','' (map quote_field fields)) = rev (fields # rows)"
    and "read_csv At_start [] [] rows (join_with '','' (map quote_field fields) @ crlf @ rest) =
           read_csv At_start [] [] (fields # rows) rest"
proof -
  from read_row [OF assms, of "[]" rows] obtain m where
    m: "m \<noteq> In_quotes" "\<And>rest. read_csv At_start [] [] rows (join_with '','' (map quote_field fields) @ rest) =
        read_csv m (rev (last fields)) (rev (butlast fields)) rows rest"
    by auto
  have f: "rev (last fields # rev (butlast fields)) = fields"
    using assms by simp
  show "read_csv At_start [] [] rows (join_with '','' (map quote_field fields)) = rev (fields # rows)"
    using m(2) [of "[]"] f by (cases m) simp_all
  show "read_csv At_start [] [] rows (join_with '','' (map quote_field fields) @ crlf @ rest) =
      read_csv At_start [] [] (fields # rows) rest"
    using m f by (cases m) (simp_all add: crlf_def)
qed

lemma read_rows:
  "table \<noteq> [] \<Longrightarrow> \<forall>row\<in>set table. row \<noteq> [] \<Longrightarrow>
     read_csv At_start [] [] rows (join_with crlf (map (\<lambda>row. join_with '','' (map quote_field row)) table)) =
       rev rows @ table"
proof (induction table arbitrary: rows)
  case (Cons row table)
  show ?case
  proof (cases table)
    case Nil
    with Cons.prems show ?thesis by (simp add: read_row_end)
  next
    case (Cons r rs)
    with Cons.IH [of "row # rows"] Cons.prems show ?thesis
      by (simp add: read_row_end)
  qed
qed simp

lemma quote_field_plain: "\<not> list_ex needs_quotes s \<Longrightarrow> quote_field s = s"
  by (simp add: quote_field_def)

lemma neutralised_start: "neutralise_formula s = [] \<or> \<not> formula_start (hd (neutralise_formula s))"
  by (auto simp: neutralise_formula_def formula_start_def split: list.split)

lemma neutralise_formula_idem [simp]: "neutralise_formula (neutralise_formula s) = neutralise_formula s"
  by (auto simp: neutralise_formula_def formula_start_def split: list.split)

subsection \<open>Properties\<close>

text \<open>An export reads back: for plain column names and non-empty rows, an RFC 4180 reader finds in the
  text the columns and then each row's cells with nothing lost but the neutralising apostrophe, whatever
  quotes, commas and line ends the cells hold, and no cell it finds starts a spreadsheet formula.\<close>

theorem csv_reads_back:
  assumes "columns \<noteq> []" "\<forall>c\<in>set columns. \<not> list_ex needs_quotes c" "\<forall>row\<in>set rows. row \<noteq> []"
  shows "parse_csv (to_csv_rows num_text columns rows) =
      columns # map (map (\<lambda>v. neutralise_formula (cell_text num_text v))) rows \<and>
    (\<forall>row\<in>set (tl (parse_csv (to_csv_rows num_text columns rows))). \<forall>s\<in>set row. s = [] \<or> \<not> formula_start (hd s))"
proof -
  have cols: "map quote_field columns = columns"
    using assms(2) by (induction columns) (simp_all add: quote_field_plain)
  let ?t = "columns # map (map (\<lambda>v. neutralise_formula (cell_text num_text v))) rows"
  have "to_csv_rows num_text columns rows = join_with crlf (map (\<lambda>row. join_with '','' (map quote_field row)) ?t)"
    by (simp add: to_csv_rows_def csv_cell_def [abs_def] cols o_def)
  then have "parse_csv (to_csv_rows num_text columns rows) = ?t"
    using read_rows [of ?t "[]"] assms(1,3) by (simp add: parse_csv_def)
  then show ?thesis
    using neutralised_start by auto
qed

theorem csv_reads_back_witness:
  "parse_csv (to_csv_rows (\<lambda>n. ''1'') [''name'', ''note''] [[Text_cell ''=cmd'', Text_cell ''a, b'']]) =
     [[''name'', ''note''], [CHR 0x27 # ''=cmd'', ''a, b'']]"
  using csv_reads_back [of "[''name'', ''note'']" "[[Text_cell ''=cmd'', Text_cell ''a, b'']]" "\<lambda>n. ''1''"]
  by (simp add: needs_quotes_def cell_text_def neutralise_formula_def formula_start_def)

text \<open>A negative number does not stay a number in the text: whenever the rendering of a number starts with
  a minus sign, its cell is written with the apostrophe in front, so the signed minutes and amounts of
  adjustments arrive in the finance export as text.\<close>

theorem negative_number_cell_is_text:
  assumes "num_text n = CHR ''-'' # ds" "\<not> list_ex needs_quotes ds"
  shows "csv_cell num_text (Number_cell n) = CHR 0x27 # num_text n \<and>
    neutralise_cell (Number_cell n) = Number_cell n"
  using assms
  by (simp add: csv_cell_def cell_text_def neutralise_formula_def formula_start_def quote_field_def
      needs_quotes_def neutralise_cell_def)

theorem negative_number_cell_is_text_witness:
  "csv_cell (\<lambda>n. ''-60'') (Number_cell (-60)) = CHR 0x27 # ''-60'' \<and>
    neutralise_cell (Number_cell (-60)) = Number_cell (-60)"
  by (rule negative_number_cell_is_text [of "\<lambda>n. ''-60''" "-60" "''60''"]) (simp_all add: needs_quotes_def)

end
