(* ===== verification/Billing.thy ===== *)
theory Billing
  imports Csv Civil_Date
begin

section \<open>Billing periods (src/domain/time/billing.ts)\<close>

text \<open>
  The state machine an account's month moves through, the finance export rows, and the summary kept
  with the period. Amounts are exact rationals rounded to the cent where the code rounds. The main
  facts: a locked month can only be exported, and the summary's figures and both its breakdowns add up
  to the cent to the amounts of the export's own rows.
\<close>

datatype billing_state = Open_period | Submitted | Approved | Locked | Exported
datatype billing_action = Submit | Reopen | Approve | Lock | Mark_exported

fun billing_rule :: "billing_action \<Rightarrow> billing_state list \<times> billing_state" where
  "billing_rule Submit = ([Open_period], Submitted)"
| "billing_rule Reopen = ([Submitted], Open_period)"
| "billing_rule Approve = ([Submitted], Approved)"
| "billing_rule Lock = ([Open_period, Submitted, Approved], Locked)"
| "billing_rule Mark_exported = ([Locked], Exported)"

definition billing_actions :: "billing_action list" where
  "billing_actions = [Submit, Reopen, Approve, Lock, Mark_exported]"

definition billing_transition :: "billing_state \<Rightarrow> billing_action \<Rightarrow> billing_action list + billing_state" where
  "billing_transition s a =
     (if s \<in> set (fst (billing_rule a)) then Inr (snd (billing_rule a))
      else Inl (filter (\<lambda>k. s \<in> set (fst (billing_rule k))) billing_actions))"

record finance_line =
  fl_entry :: bool
  fl_id :: string
  fl_entry_id :: string
  fl_account :: string
  fl_contract :: string
  fl_person_id :: string
  fl_person :: string
  fl_role :: "string option"
  fl_performed :: string
  fl_minutes :: int
  fl_activity :: string
  fl_class :: string
  fl_rate :: "rat option"
  fl_multiplier :: rat
  fl_currency :: string
  fl_ticket :: "string option"
  fl_after_hours :: string
  fl_reason :: "string option"

definition finance_columns :: "string list" where
  "finance_columns =
     [''kind'', ''id'', ''entry_id'', ''account'', ''contract'', ''period'', ''person_id'', ''person'',
      ''role'', ''date'', ''minutes'', ''activity'', ''billable_class'', ''rate'', ''multiplier'',
      ''currency'', ''amount'', ''ticket'', ''after_hours_class'', ''reason'']"

definition line_amount :: "finance_line \<Rightarrow> rat option" where
  "line_amount l =
     (case fl_rate l of None \<Rightarrow> None
      | Some r \<Rightarrow> Some (round_to 2 (of_int (fl_minutes l) / 60 * r * fl_multiplier l)))"

definition text_or_blank :: "string option \<Rightarrow> cell" where
  "text_or_blank s = Text_cell (case s of None \<Rightarrow> [] | Some t \<Rightarrow> t)"

definition number_or_null :: "rat option \<Rightarrow> cell" where
  "number_or_null n = (case n of None \<Rightarrow> Empty_cell | Some x \<Rightarrow> Number_cell x)"

definition finance_row :: "string \<Rightarrow> finance_line \<Rightarrow> cell list" where
  "finance_row period l =
     [Text_cell (if fl_entry l then ''entry'' else ''adjustment''), Text_cell (fl_id l), Text_cell (fl_entry_id l),
      Text_cell (fl_account l), Text_cell (fl_contract l), Text_cell period, Text_cell (fl_person_id l),
      Text_cell (fl_person l), text_or_blank (fl_role l), Text_cell (fl_performed l),
      Number_cell (of_int (fl_minutes l)), Text_cell (fl_activity l), Text_cell (fl_class l),
      number_or_null (fl_rate l), Number_cell (fl_multiplier l), Text_cell (fl_currency l),
      number_or_null (line_amount l), text_or_blank (fl_ticket l), Text_cell (fl_after_hours l),
      text_or_blank (fl_reason l)]"

definition finance_rows :: "finance_line list \<Rightarrow> string \<Rightarrow> cell list list" where
  "finance_rows ls period = map (finance_row period) ls"

definition to_csv :: "(rat \<Rightarrow> string) \<Rightarrow> string list \<Rightarrow> cell list list \<Rightarrow> string" where
  "to_csv num_text columns rows = to_csv_rows num_text columns rows"

type_synonym figures = "int \<times> rat"

record period_summary =
  ps_entries :: nat
  ps_adjustments :: nat
  ps_minutes :: int
  ps_amount :: rat
  ps_unrated :: int
  ps_by_class :: "figures js_map"
  ps_by_contract :: "figures js_map"

definition empty_summary :: period_summary where
  "empty_summary = \<lparr>ps_entries = 0, ps_adjustments = 0, ps_minutes = 0, ps_amount = 0, ps_unrated = 0,
     ps_by_class = [], ps_by_contract = []\<rparr>"

definition add_figures :: "string \<Rightarrow> int \<Rightarrow> rat \<Rightarrow> figures js_map \<Rightarrow> figures js_map" where
  "add_figures key m a bucket = map_adjust key (0, 0) (\<lambda>(x, y). (x + m, round_to 2 (y + a))) bucket"

definition add_line :: "period_summary \<Rightarrow> finance_line \<Rightarrow> period_summary" where
  "add_line s l =
     (let value = (case line_amount l of None \<Rightarrow> 0 | Some v \<Rightarrow> v)
      in \<lparr>ps_entries = (if fl_entry l then ps_entries s + 1 else ps_entries s),
          ps_adjustments = (if fl_entry l then ps_adjustments s else ps_adjustments s + 1),
          ps_minutes = ps_minutes s + fl_minutes l,
          ps_amount = round_to 2 (ps_amount s + value),
          ps_unrated = (if fl_rate l = None then ps_unrated s + fl_minutes l else ps_unrated s),
          ps_by_class = add_figures (fl_class l) (fl_minutes l) value (ps_by_class s),
          ps_by_contract = add_figures (fl_contract l) (fl_minutes l) value (ps_by_contract s)\<rparr>)"

definition period_summary :: "finance_line list \<Rightarrow> period_summary" where
  "period_summary ls = foldl add_line empty_summary ls"

subsection \<open>The life of a period\<close>

inductive billing_run :: "billing_state \<Rightarrow> billing_action list \<Rightarrow> billing_state \<Rightarrow> bool" where
  stay: "billing_run s [] s"
| act: "billing_transition s a = Inr s' \<Longrightarrow> billing_run s' as s'' \<Longrightarrow> billing_run s (a # as) s''"

inductive_cases billing_run_ConsE: "billing_run s (a # as) s'"
inductive_cases billing_run_NilE: "billing_run s [] s'"

lemma billing_transition_Inr:
  "billing_transition s a = Inr s' \<longleftrightarrow> s \<in> set (fst (billing_rule a)) \<and> s' = snd (billing_rule a)"
  by (auto simp: billing_transition_def)

lemma exported_stuck: "billing_run s as s' \<Longrightarrow> s = Exported \<Longrightarrow> as = [] \<and> s' = Exported"
proof (induction rule: billing_run.induct)
  case (act s a s' as s'')
  then show ?case by (cases a) (auto simp: billing_transition_Inr)
qed simp

lemma locked_only_exported:
  "billing_run s as s' \<Longrightarrow> s = Locked \<Longrightarrow> as = [] \<and> s' = Locked \<or> as = [Mark_exported] \<and> s' = Exported"
proof (induction rule: billing_run.induct)
  case (act s a s' as s'')
  have "a = Mark_exported" "s' = Exported"
    using act(1,4) by (cases a; simp add: billing_transition_Inr)+
  with exported_stuck [OF act(2)] show ?case by simp
qed simp

lemma reaches_exported_through_lock:
  "billing_run s as s' \<Longrightarrow> s' = Exported \<Longrightarrow> s \<noteq> Exported \<Longrightarrow> s \<noteq> Locked \<Longrightarrow>
     \<exists>before. as = before @ [Lock, Mark_exported]"
proof (induction rule: billing_run.induct)
  case (act s a s' as s'')
  show ?case
  proof (cases "s' = Locked")
    case True
    then have "a = Lock" using act(1) by (cases a) (auto simp: billing_transition_Inr)
    with locked_only_exported [OF act(2) True] act(4) show ?thesis by auto
  next
    case False
    moreover have "s' \<noteq> Exported"
      using act(1,6) by (cases a) (auto simp: billing_transition_Inr)
    ultimately obtain before where "as = before @ [Lock, Mark_exported]"
      using act by blast
    then show ?thesis by (intro exI [of _ "a # before"]) simp
  qed
qed simp

subsection \<open>Adding up to the cent\<close>

definition cents :: "rat \<Rightarrow> bool" where
  "cents x \<longleftrightarrow> round_to 2 x = x"

lemma cents_round [simp]: "cents (round_to k x) \<longleftrightarrow> round_to 2 (round_to k x) = round_to k x"
  by (simp add: cents_def)

lemma cents_iff: "cents x \<longleftrightarrow> (\<exists>n. x * 100 = of_int n)"
proof
  assume "cents x"
  then have "x = of_int (js_round (x * 10\<^sup>2)) / 10\<^sup>2" by (simp add: cents_def round_to_def)
  then have "x * 100 = of_int (js_round (x * 10\<^sup>2))" by (simp add: field_simps)
  then show "\<exists>n. x * 100 = of_int n" by blast
next
  assume "\<exists>n. x * 100 = of_int n"
  then obtain n where n: "x * 10\<^sup>2 = of_int n" by auto
  then have "of_int n / 10\<^sup>2 = x" by (simp add: field_simps)
  then show "cents x" unfolding cents_def round_to_def n js_round_of_int .
qed

lemma cents_add [simp]: "cents x \<Longrightarrow> cents y \<Longrightarrow> cents (x + y)"
  unfolding cents_iff by (metis distrib_right of_int_add)

lemma cents_0 [simp]: "cents 0"
  by (simp add: cents_def)

lemma round_cents: "cents x \<Longrightarrow> round_to 2 x = x"
  by (simp add: cents_def)

definition line_value :: "finance_line \<Rightarrow> rat" where
  "line_value l = (case line_amount l of None \<Rightarrow> 0 | Some v \<Rightarrow> v)"

lemma cents_line_value [simp]: "cents (line_value l)"
  by (simp add: line_value_def line_amount_def cents_def split: option.split)

definition cents_bucket :: "figures js_map \<Rightarrow> bool" where
  "cents_bucket b \<longleftrightarrow> distinct (map fst b) \<and> (\<forall>p\<in>set b. cents (snd (snd p)))"

lemma add_figures_exact:
  assumes "cents_bucket b" "cents a"
  shows "add_figures key m a b = map_adjust key (0, 0) (\<lambda>(x, y). (x + m, y + a)) b"
proof -
  have "cents (snd v)" if "map_of b key = Some v" for v
    using assms(1) map_of_SomeD [OF that] by (force simp: cents_bucket_def)
  then show ?thesis
    using assms(2) by (auto simp: add_figures_def map_adjust_def round_cents split: option.splits)
qed

lemma add_figures_cents:
  assumes "cents_bucket b" "cents a"
  shows "cents_bucket (add_figures key m a b)"
proof -
  have "cents (snd v)" if "map_of b key = Some v" for v
    using assms(1) map_of_SomeD [OF that] by (force simp: cents_bucket_def)
  then have "cents (snd ((\<lambda>(x, y). (x + m, y + a)) (case map_of b key of None \<Rightarrow> (0, 0) | Some v \<Rightarrow> v)))"
    using assms(2) by (auto split: option.splits)
  moreover have "distinct (map fst (add_figures key m a b))"
    using assms(1) by (simp add: cents_bucket_def add_figures_def)
  ultimately show ?thesis
    using assms(1) set_update_alist
    unfolding add_figures_exact [OF assms] cents_bucket_def map_adjust_def by fastforce
qed

definition bucket_minutes :: "figures js_map \<Rightarrow> int" where
  "bucket_minutes b = sum_list (map (\<lambda>p. fst (snd p)) b)"

definition bucket_amount :: "figures js_map \<Rightarrow> rat" where
  "bucket_amount b = sum_list (map (\<lambda>p. snd (snd p)) b)"

lemma bucket_add:
  assumes "cents_bucket b" "cents a"
  shows "bucket_minutes (add_figures key m a b) = bucket_minutes b + m"
    and "bucket_amount (add_figures key m a b) = bucket_amount b + a"
  using assms
  by (auto simp: add_figures_exact bucket_minutes_def bucket_amount_def cents_bucket_def
      sum_list_map_adjust [where g = fst and x = m] sum_list_map_adjust [where g = snd and x = a] split: prod.splits)

definition summary_of :: "finance_line list \<Rightarrow> period_summary \<Rightarrow> bool" where
  "summary_of ls s \<longleftrightarrow>
     ps_entries s = length (filter fl_entry ls) \<and> ps_adjustments s = length (filter (\<lambda>l. \<not> fl_entry l) ls) \<and>
     ps_minutes s = sum_list (map fl_minutes ls) \<and> ps_amount s = sum_list (map line_value ls) \<and>
     ps_unrated s = sum_list (map fl_minutes (filter (\<lambda>l. fl_rate l = None) ls)) \<and>
     cents (ps_amount s) \<and> cents_bucket (ps_by_class s) \<and> cents_bucket (ps_by_contract s) \<and>
     bucket_minutes (ps_by_class s) = ps_minutes s \<and> bucket_amount (ps_by_class s) = ps_amount s \<and>
     bucket_minutes (ps_by_contract s) = ps_minutes s \<and> bucket_amount (ps_by_contract s) = ps_amount s"

lemma add_line_summary:
  assumes "summary_of ls s"
  shows "summary_of (ls @ [l]) (add_line s l)"
proof -
  have v: "(case line_amount l of None \<Rightarrow> 0 | Some v \<Rightarrow> v) = line_value l"
    by (simp add: line_value_def)
  have "cents (ps_amount s)" using assms unfolding summary_of_def by blast
  then have c: "cents (ps_amount s + line_value l)" by simp
  then have a: "round_to 2 (ps_amount s + line_value l) = ps_amount s + line_value l"
    by (rule round_cents)
  note c
  then show ?thesis
    using assms unfolding summary_of_def add_line_def Let_def v a
    by (simp add: bucket_add add_figures_cents)
qed

lemma summary_of_period: "summary_of ls (period_summary ls)"
proof (induction ls rule: rev_induct)
  case Nil
  show ?case
    by (simp add: summary_of_def period_summary_def empty_summary_def cents_bucket_def
        bucket_minutes_def bucket_amount_def)
next
  case (snoc l ls)
  then show ?case
    unfolding period_summary_def by (simp add: add_line_summary)
qed

subsection \<open>Properties\<close>

text \<open>The period summary matches the export to the cent: its amount is the exact sum of the amounts of the
  finance rows, its minutes the sum of theirs, every line is counted once as entry or adjustment, and the
  figures by class and by contract each add up to the same totals.\<close>

theorem summary_matches_export:
  "ps_amount (period_summary ls) = sum_list (map (\<lambda>l. case line_amount l of None \<Rightarrow> 0 | Some v \<Rightarrow> v) ls) \<and>
   ps_minutes (period_summary ls) = sum_list (map fl_minutes ls) \<and>
   ps_entries (period_summary ls) + ps_adjustments (period_summary ls) = length (finance_rows ls period) \<and>
   sum_list (map (\<lambda>(k, m, a). m) (ps_by_class (period_summary ls))) = ps_minutes (period_summary ls) \<and>
   sum_list (map (\<lambda>(k, m, a). a) (ps_by_class (period_summary ls))) = ps_amount (period_summary ls) \<and>
   sum_list (map (\<lambda>(k, m, a). m) (ps_by_contract (period_summary ls))) = ps_minutes (period_summary ls) \<and>
   sum_list (map (\<lambda>(k, m, a). a) (ps_by_contract (period_summary ls))) = ps_amount (period_summary ls)"
  using summary_of_period [of ls] sum_length_filter_compl [of fl_entry ls]
  by (simp add: summary_of_def finance_rows_def line_value_def [abs_def] bucket_minutes_def bucket_amount_def
      case_prod_unfold)

text \<open>A locked month stays what it is: from a period that is not yet locked, the only way to \<open>exported\<close> is a
  sequence of accepted actions ending in lock and mark exported, and once locked nothing but the
  export is accepted, so a locked or exported period is never reopened.\<close>

theorem billing_lock_final:
  assumes "billing_run s as s'"
  shows "(s' = Exported \<and> s \<notin> {Locked, Exported} \<longrightarrow> (\<exists>before. as = before @ [Lock, Mark_exported])) \<and>
    (s = Locked \<longrightarrow> s' = Locked \<and> as = [] \<or> s' = Exported \<and> as = [Mark_exported]) \<and>
    (s = Exported \<longrightarrow> s' = Exported \<and> as = [])"
  using reaches_exported_through_lock [OF assms] locked_only_exported [OF assms] exported_stuck [OF assms]
  by blast

theorem billing_lock_final_witness:
  "\<exists>before. [Submit, Reopen, Lock, Mark_exported] = before @ [Lock, Mark_exported]"
proof -
  have "billing_run Open_period [Submit, Reopen, Lock, Mark_exported] Exported"
    by (intro billing_run.intros | simp add: billing_transition_def)+
  from billing_lock_final [OF this] show ?thesis by simp
qed

end
