(* ===== verification/Budget.thy ===== *)
theory Budget
  imports Billing
begin

section \<open>Budget rules and burn-down (src/domain/time/budget.ts, src/domain/time/burn.ts)\<close>

text \<open>
  The forecast over business days, the thresholds that fire once, the overage decision, the rate in
  force, the carry-over between periods, and a contract's position. Minutes are whole; a run rate is an
  exact fraction. \<open>null\<close> and \<open>undefined\<close> are \<open>None\<close>.
\<close>

datatype overage_rule = Block | Allow_flag | Allow_rate
datatype rollover_rule = No_rollover | Carry_month | Carry_term | Capped

text \<open>The days of a period, first to last; none when the last is before the first.\<close>

definition period_dates :: "ymd \<Rightarrow> ymd \<Rightarrow> ymd list" where
  "period_dates f t = day_loop (midnight f) (midnight t)"

record forecast_input =
  fi_start :: ymd
  fi_end :: ymd
  fi_today :: ymd
  fi_available :: int
  fi_consumed :: int
  fi_by_day :: "(ymd \<times> int) list"
  fi_window :: int
  fi_business_day :: "ymd \<Rightarrow> bool"

record forecast =
  fc_days_total :: nat
  fc_days_elapsed :: nat
  fc_window :: nat
  fc_run_rate :: int
  fc_forecast :: int
  fc_percent :: rat
  fc_to_exhaustion :: "int option"

definition day_minutes :: "(ymd \<times> int) list \<Rightarrow> ymd \<Rightarrow> int" where
  "day_minutes m d = (case map_of m d of None \<Rightarrow> 0 | Some n \<Rightarrow> n)"

definition take_last :: "nat \<Rightarrow> 'a list \<Rightarrow> 'a list" where
  "take_last n xs = drop (length xs - n) xs"

definition run_rate :: "forecast_input \<Rightarrow> nat \<Rightarrow> ymd list \<Rightarrow> rat" where
  "run_rate i window elapsed =
     (if elapsed = [] then 0
      else of_int (sum_list (map (day_minutes (fi_by_day i)) (take_last window elapsed))) / of_nat window)"

definition exhaustion :: "rat \<Rightarrow> int \<Rightarrow> int \<Rightarrow> int option" where
  "exhaustion rate left available =
     (if rate > 0 \<and> left > 0 then Some \<lceil>of_int left / rate\<rceil>
      else if left \<le> 0 \<and> available > 0 then Some 0 else None)"

definition forecast_window :: "forecast_input \<Rightarrow> ymd list \<Rightarrow> nat" where
  "forecast_window i elapsed = nat (min (max 1 (fi_window i)) (max 1 (int (length elapsed))))"

definition make_forecast :: "forecast_input \<Rightarrow> forecast" where
  "make_forecast i =
     (let all = filter (fi_business_day i) (period_dates (fi_start i) (fi_end i));
          elapsed = filter (\<lambda>d. d \<le> fi_today i) all;
          window = forecast_window i elapsed;
          rate = run_rate i window elapsed;
          remaining = length all - length elapsed;
          projected = js_round (of_int (fi_consumed i) + rate * of_nat remaining);
          left = fi_available i - fi_consumed i
      in \<lparr>fc_days_total = length all, fc_days_elapsed = length elapsed, fc_window = window,
          fc_run_rate = js_round rate, fc_forecast = projected,
          fc_percent = (if fi_available i > 0
             then of_int (js_round (of_int projected / of_int (fi_available i) * 1000)) / 10 else 0),
          fc_to_exhaustion = exhaustion rate left (fi_available i)\<rparr>)"

definition thresholds_to_fire :: "rat list \<Rightarrow> rat list \<Rightarrow> int \<Rightarrow> int \<Rightarrow> rat list" where
  "thresholds_to_fire percents fired consumed available =
     (if available \<le> 0 then []
      else sort (filter (\<lambda>p. p > 0 \<and> p \<notin> set fired \<and> of_int consumed \<ge> of_int available * p / 100) (uniq percents)))"

record overage_decision =
  od_blocked :: bool
  od_over :: bool
  od_minutes :: int
  od_multiplier :: rat

definition overage_decision :: "overage_rule \<Rightarrow> int \<Rightarrow> int \<Rightarrow> int \<Rightarrow> rat option \<Rightarrow> overage_decision" where
  "overage_decision rule available consumed new_minutes multiplier =
     (if available \<le> 0 \<or> consumed + new_minutes \<le> available
      then \<lparr>od_blocked = False, od_over = False, od_minutes = 0, od_multiplier = 1\<rparr>
      else
        let over = min new_minutes (consumed + new_minutes - available)
        in case rule of
             Block \<Rightarrow> \<lparr>od_blocked = True, od_over = True, od_minutes = over, od_multiplier = 1\<rparr>
           | Allow_rate \<Rightarrow> \<lparr>od_blocked = False, od_over = True, od_minutes = over,
               od_multiplier = (case multiplier of None \<Rightarrow> 1 | Some m \<Rightarrow> if m \<noteq> 0 \<and> m \<ge> 1 then m else 1)\<rparr>
           | Allow_flag \<Rightarrow> \<lparr>od_blocked = False, od_over = True, od_minutes = over, od_multiplier = 1\<rparr>)"

record rate_entry =
  re_role :: string
  re_bill :: rat
  re_overage :: "rat option"

record rate_card =
  rc_id :: string
  rc_contract :: "string option"
  rc_from :: ymd
  rc_entries :: "rate_entry list"

datatype rate_source = From_contract | From_account

record rate_selection =
  rs_rate :: "rat option"
  rs_overage :: "rat option"
  rs_card :: "string option"
  rs_source :: "rate_source option"

text \<open>The head after sorting by descending start: the latest one. The comparator never answers 0, so among
  entries with one start the order is the engine's; the last listed is taken here.\<close>

fun latest_by :: "('a \<Rightarrow> 'k::linorder) \<Rightarrow> 'a option \<Rightarrow> 'a list \<Rightarrow> 'a option" where
  "latest_by start best [] = best"
| "latest_by start best (c # cs) =
     latest_by start (case best of None \<Rightarrow> Some c | Some b \<Rightarrow> if start c < start b then Some b else Some c) cs"

definition in_force :: "rate_card list \<Rightarrow> ymd \<Rightarrow> bool \<Rightarrow> rate_card option" where
  "in_force cards on scoped =
     latest_by rc_from None (filter (\<lambda>c. rc_from c \<le> on) (filter (\<lambda>c. (rc_contract c \<noteq> None) = scoped) cards))"

definition card_rate :: "rate_card option \<Rightarrow> string \<Rightarrow> rate_source \<Rightarrow> rate_selection option" where
  "card_rate found role source =
     (case found of None \<Rightarrow> None
      | Some c \<Rightarrow>
          (case find (\<lambda>e. re_role e = role) (rc_entries c) of None \<Rightarrow> None
           | Some e \<Rightarrow> Some \<lparr>rs_rate = Some (re_bill e), rs_overage = re_overage e, rs_card = Some (rc_id c),
               rs_source = Some source\<rparr>))"

definition no_rate :: rate_selection where
  "no_rate = \<lparr>rs_rate = None, rs_overage = None, rs_card = None, rs_source = None\<rparr>"

definition rate_for :: "rate_card list \<Rightarrow> string \<Rightarrow> ymd \<Rightarrow> rate_selection" where
  "rate_for cards role on =
     (case card_rate (in_force cards on True) role From_contract of
        Some s \<Rightarrow> s
      | None \<Rightarrow> (case card_rate (in_force cards on False) role From_account of Some s \<Rightarrow> s | None \<Rightarrow> no_rate))"

definition amount_of :: "int \<Rightarrow> rat option \<Rightarrow> rat \<Rightarrow> rat option" where
  "amount_of minutes rate multiplier =
     (case rate of None \<Rightarrow> None | Some r \<Rightarrow> Some (round_to 2 (of_int minutes / 60 * r * multiplier)))"

record previous_period =
  pp_starts :: ymd
  pp_ends :: ymd
  pp_contracted :: int
  pp_carried :: int
  pp_consumed :: int

definition day_after :: "ymd \<Rightarrow> ymd" where
  "day_after d = iso_day_of (midnight d + 86400000)"

definition carry_over :: "rollover_rule \<Rightarrow> rat option \<Rightarrow> previous_period option \<Rightarrow> ymd \<Rightarrow> int" where
  "carry_over rule cap_hours previous next_starts =
     (case previous of None \<Rightarrow> 0
      | Some p \<Rightarrow>
          (let cumulative = max (pp_contracted p + pp_carried p - pp_consumed p) 0
           in case rule of
                No_rollover \<Rightarrow> 0
              | Carry_month \<Rightarrow>
                  if day_after (pp_ends p) \<noteq> next_starts then 0 else max (pp_contracted p - pp_consumed p) 0
              | Capped \<Rightarrow> min cumulative (js_round ((case cap_hours of None \<Rightarrow> 0 | Some h \<Rightarrow> h) * 60))
              | Carry_term \<Rightarrow> cumulative))"

subsection \<open>A contract's position\<close>

record consumption_line =
  cl_activity :: string
  cl_class :: string
  cl_minutes :: int

record class_spec =
  cs_key :: string
  cs_consumes :: bool

record period_input =
  pi_starts :: ymd
  pi_ends :: ymd
  pi_contracted :: int
  pi_carried :: int

datatype position_status = On_track | Watch | Over

record contract_position =
  cp_days_total :: int
  cp_days_elapsed :: int
  cp_available :: int
  cp_consumed :: int
  cp_non_consuming :: int
  cp_remaining :: int
  cp_percent_consumed :: rat
  cp_percent_elapsed :: rat
  cp_projected :: int
  cp_status :: position_status
  cp_by_class :: "int js_map"
  cp_by_activity :: "int js_map"

record consumption_acc =
  ca_by_class :: "int js_map"
  ca_by_activity :: "int js_map"
  ca_consumed :: int
  ca_other :: int

definition consume_line :: "string list \<Rightarrow> consumption_acc \<Rightarrow> consumption_line \<Rightarrow> consumption_acc" where
  "consume_line consuming a l =
     (let a' = a\<lparr>ca_by_class := map_adjust (cl_class l) 0 (\<lambda>n. n + cl_minutes l) (ca_by_class a),
                 ca_by_activity := map_adjust (cl_activity l) 0 (\<lambda>n. n + cl_minutes l) (ca_by_activity a)\<rparr>
      in if cl_class l \<in> set consuming then a'\<lparr>ca_consumed := ca_consumed a' + cl_minutes l\<rparr>
         else a'\<lparr>ca_other := ca_other a' + cl_minutes l\<rparr>)"

definition percent_of :: "int \<Rightarrow> int \<Rightarrow> rat" where
  "percent_of n d = of_int (js_round (of_int n / of_int d * 1000)) / 10"

definition consumption_status :: "int \<Rightarrow> int \<Rightarrow> int \<Rightarrow> rat \<Rightarrow> rat \<Rightarrow> position_status" where
  "consumption_status available consumed projected pc pe =
     (if available = 0 then On_track
      else if consumed > available then Over
      else if projected > available \<or> pc > pe + 15 then Watch
      else On_track)"

definition position :: "period_input \<Rightarrow> consumption_line list \<Rightarrow> class_spec list \<Rightarrow> ms \<Rightarrow> contract_position" where
  "position p lines classes today =
     (let consuming = map cs_key (filter cs_consumes classes);
          a = foldl (consume_line consuming) \<lparr>ca_by_class = [], ca_by_activity = [], ca_consumed = 0, ca_other = 0\<rparr> lines;
          available = pi_contracted p + pi_carried p;
          start = midnight (pi_starts p);
          end_of = midnight (pi_ends p);
          days_total = max 1 (js_round (of_int (end_of - start) / 86400000) + 1);
          days_elapsed = min days_total (max 0 ((today - start) div 86400000 + 1));
          pc = (if available > 0 then percent_of (ca_consumed a) available else 0);
          pe = percent_of days_elapsed days_total;
          projected = (if days_elapsed > 0
             then js_round (of_int (ca_consumed a) / of_int days_elapsed * of_int days_total) else 0)
      in \<lparr>cp_days_total = days_total, cp_days_elapsed = days_elapsed, cp_available = available,
          cp_consumed = ca_consumed a, cp_non_consuming = ca_other a,
          cp_remaining = max 0 (available - ca_consumed a),
          cp_percent_consumed = pc, cp_percent_elapsed = pe, cp_projected = projected,
          cp_status = consumption_status available (ca_consumed a) projected pc pe,
          cp_by_class = ca_by_class a, cp_by_activity = ca_by_activity a\<rparr>)"

subsection \<open>Lemmas\<close>

definition fire_step :: "rat list \<Rightarrow> int \<Rightarrow> rat list \<Rightarrow> int \<Rightarrow> rat list" where
  "fire_step percents available fired consumed = fired @ thresholds_to_fire percents fired consumed available"

definition fire_run :: "rat list \<Rightarrow> int \<Rightarrow> int list \<Rightarrow> rat list" where
  "fire_run percents available history = foldl (fire_step percents available) [] history"

lemma set_thresholds:
  "0 < available \<Longrightarrow> set (thresholds_to_fire percents fired consumed available) =
     {p \<in> set percents. 0 < p \<and> p \<notin> set fired \<and> of_int available * p / 100 \<le> of_int consumed}"
  by (auto simp: thresholds_to_fire_def)

lemma distinct_thresholds: "distinct (thresholds_to_fire percents fired consumed available)"
  by (simp add: thresholds_to_fire_def)

lemma fire_run_set:
  assumes "0 < available"
  shows "distinct (fire_run percents available history) \<and>
    set (fire_run percents available history) =
      {p \<in> set percents. 0 < p \<and> (\<exists>c\<in>set history. of_int available * p / 100 \<le> of_int c)}"
proof (induction history rule: rev_induct)
  case (snoc c cs)
  then show ?case
    using set_thresholds [OF assms, of percents "fire_run percents available cs" c]
      distinct_thresholds [of percents "fire_run percents available cs" c available]
    by (auto simp: fire_run_def fire_step_def)
qed (simp add: fire_run_def)

lemma latest_by_Some:
  "latest_by start best cs = Some c \<Longrightarrow>
     (c \<in> set cs \<or> best = Some c) \<and> (\<forall>d\<in>set cs. start d \<le> start c) \<and> (\<forall>b. best = Some b \<longrightarrow> start b \<le> start c)"
proof (induction cs arbitrary: best)
  case (Cons d cs)
  from Cons.IH [of "case best of None \<Rightarrow> Some d | Some b \<Rightarrow> if start d < start b then Some b else Some d"] Cons.prems
  show ?case by (auto split: option.splits if_splits)
qed simp

lemma latest_by_None: "latest_by start best cs = None \<longleftrightarrow> best = None \<and> cs = []"
  by (induction cs arbitrary: best) (auto split: option.splits if_splits)

lemma line_amount_amount_of: "line_amount l = amount_of (fl_minutes l) (fl_rate l) (fl_multiplier l)"
  by (simp add: line_amount_def amount_of_def)

lemma amount_of_cents: "amount_of m r x = Some v \<Longrightarrow> cents v"
  by (auto simp: amount_of_def cents_def split: option.splits)

lemma in_force_Some:
  assumes "in_force cards on scoped = Some c"
  shows "c \<in> set cards \<and> rc_from c \<le> on \<and> (rc_contract c \<noteq> None) = scoped \<and>
    (\<forall>d\<in>set cards. (rc_contract d \<noteq> None) = scoped \<and> rc_from d \<le> on \<longrightarrow> rc_from d \<le> rc_from c)"
  using latest_by_Some [OF assms [unfolded in_force_def]] by auto

lemma card_rate_Some:
  assumes "card_rate best role source = Some s"
  shows "\<exists>c e. best = Some c \<and> e \<in> set (rc_entries c) \<and> re_role e = role \<and> rs_rate s = Some (re_bill e) \<and>
    rs_overage s = re_overage e \<and> rs_card s = Some (rc_id c) \<and> rs_source s = Some source"
  using assms by (auto simp: card_rate_def find_Some_iff split: option.splits) (metis nth_mem)

definition map_total :: "int js_map \<Rightarrow> int" where
  "map_total m = sum_list (map snd m)"

lemma map_total_add: "distinct (map fst m) \<Longrightarrow> map_total (map_adjust k 0 (\<lambda>n. n + x) m) = map_total m + x"
  using sum_list_map_adjust [of m "\<lambda>n. n" 0 "\<lambda>n. n + x" x k]
  by (simp add: map_total_def)

lemma consume_lines:
  "let a = foldl (consume_line consuming) \<lparr>ca_by_class = [], ca_by_activity = [], ca_consumed = 0, ca_other = 0\<rparr> lines
   in distinct (map fst (ca_by_class a)) \<and> distinct (map fst (ca_by_activity a)) \<and>
      map_total (ca_by_class a) = sum_list (map cl_minutes lines) \<and>
      map_total (ca_by_activity a) = sum_list (map cl_minutes lines) \<and>
      ca_consumed a = sum_list (map cl_minutes (filter (\<lambda>l. cl_class l \<in> set consuming) lines)) \<and>
      ca_other a = sum_list (map cl_minutes (filter (\<lambda>l. cl_class l \<notin> set consuming) lines))"
proof (induction lines rule: rev_induct)
  case (snoc l ls)
  then show ?case
    by (simp add: Let_def consume_line_def map_total_add)
qed (simp add: map_total_def)

lemma ceiling_minimal:
  fixes rate :: rat
  assumes "0 < rate"
  shows "of_int left \<le> of_int \<lceil>of_int left / rate\<rceil> * rate \<and> of_int (\<lceil>of_int left / rate\<rceil> - 1) * rate < of_int left"
proof
  have "of_int left / rate \<le> of_int \<lceil>of_int left / rate\<rceil>" by (rule le_of_int_ceiling)
  with assms show "of_int left \<le> of_int \<lceil>of_int left / rate\<rceil> * rate" by (simp only: pos_divide_le_eq)
  have "of_int (\<lceil>of_int left / rate\<rceil> - 1) < of_int left / rate"
    using ceiling_correct [of "of_int left / rate"] by simp
  with assms show "of_int (\<lceil>of_int left / rate\<rceil> - 1) * rate < of_int left" by (simp only: pos_less_divide_eq)
qed

lemma percent_of_bounds:
  assumes "0 \<le> n" "n \<le> d" "0 < d"
  shows "0 \<le> percent_of n d \<and> percent_of n d \<le> 100"
proof -
  have "0 \<le> (of_int n / of_int d * 1000 :: rat)" using assms by simp
  moreover have "(of_int n :: rat) \<le> of_int d" using assms by simp
  then have "(of_int n / of_int d * 1000 :: rat) \<le> of_int 1000" using assms by (simp add: field_simps)
  ultimately have "0 \<le> js_round (of_int n / of_int d * 1000)" "js_round (of_int n / of_int d * 1000) \<le> 1000"
    using js_round_nonneg js_round_le_of_int by blast+
  then have "(0::rat) \<le> of_int (js_round (of_int n / of_int d * 1000))"
      "of_int (js_round (of_int n / of_int d * 1000)) \<le> (1000::rat)"
    by linarith+
  then show ?thesis by (simp add: percent_of_def)
qed

subsection \<open>Properties\<close>

text \<open>A budget threshold fires exactly once: over any history of consumption figures, with what fired kept as
  the service keeps it, the percentages fired are without repetition exactly the positive configured
  ones that some figure of the history reached.\<close>

theorem thresholds_fire_once:
  assumes "0 < available"
  shows "distinct (fire_run percents available history) \<and>
    set (fire_run percents available history) =
      {p \<in> set percents. 0 < p \<and> (\<exists>c\<in>set history. of_int available * p / 100 \<le> of_int c)} \<and>
    (\<forall>c\<in>set history. thresholds_to_fire percents (fire_run percents available history) c available = [])"
proof -
  have "set (thresholds_to_fire percents (fire_run percents available history) c available) = {}" if "c \<in> set history" for c
    using that fire_run_set [OF assms, of percents history] by (auto simp: set_thresholds [OF assms])
  with fire_run_set [OF assms, of percents history] show ?thesis by auto
qed

theorem thresholds_fire_once_witness:
  "distinct (fire_run [50, 80, 50, 100] 600 [310, 320, 480]) \<and>
    set (fire_run [50, 80, 50, 100] 600 [310, 320, 480]) =
      {p \<in> set [50, 80, 50, 100]. 0 < p \<and> (\<exists>c\<in>set [310, 320, 480]. of_int 600 * p / 100 \<le> of_int c)}"
  using thresholds_fire_once [of 600 "[50, 80, 50, 100]" "[310, 320, 480]"] by simp

text \<open>The overage decision accounts for every minute: with a budget and non-negative figures, the minutes
  flagged as overage are within the entry, the rest of the entry never takes consumption past the
  budget unless it was past it already, only the blocking rule refuses, it refuses exactly the entries
  that do not fit, and the multiplier is never below one.\<close>

theorem overage_accounts:
  assumes "0 \<le> new" "0 < available" "overage_decision rule available consumed new m = d"
  shows "0 \<le> od_minutes d \<and> od_minutes d \<le> new \<and>
    consumed + (new - od_minutes d) \<le> max available consumed \<and>
    (od_over d \<longleftrightarrow> available < consumed + new) \<and> (od_blocked d \<longleftrightarrow> rule = Block \<and> od_over d) \<and> 1 \<le> od_multiplier d"
  using assms
  by (cases rule) (auto simp: overage_decision_def Let_def split: option.splits if_splits)

theorem overage_accounts_witness:
  "od_minutes (overage_decision Allow_rate 600 590 30 (Some (3 / 2))) = 20 \<and>
    0 \<le> od_minutes (overage_decision Allow_rate 600 590 30 (Some (3 / 2)))"
  using overage_accounts [of 30 600 Allow_rate 590 "Some (3 / 2)", OF _ _ refl]
  by (simp add: overage_decision_def)

text \<open>Carry-over never invents minutes: it is never negative, never more than what the previous period left
  unused, never more than its contracted minutes under the monthly rule (so minutes carried into a
  period are not carried again), never more than the cap under the capped rule, and nothing without a
  previous period.\<close>

theorem carry_over_bounds:
  assumes "0 \<le> pp_contracted p" "0 \<le> pp_consumed p" "cap = Some h" "0 \<le> h" "carry_over rule cap (Some p) next = n"
  shows "0 \<le> n \<and> (rule \<noteq> Carry_month \<longrightarrow> n \<le> max (pp_contracted p + pp_carried p - pp_consumed p) 0) \<and>
    (rule = Carry_month \<longrightarrow> n \<le> pp_contracted p \<and> (n \<noteq> 0 \<longrightarrow> day_after (pp_ends p) = next)) \<and>
    (rule = Capped \<longrightarrow> n \<le> js_round (h * 60)) \<and> carry_over rule cap None next = 0"
  using assms js_round_nonneg [of "h * 60"]
  by (cases rule) (auto simp: carry_over_def Let_def split: if_splits)

theorem carry_over_bounds_witness:
  "carry_over Capped (Some 2) (Some \<lparr>pp_starts = Ymd 2026 1 1, pp_ends = Ymd 2026 1 31, pp_contracted = 600,
      pp_carried = 60, pp_consumed = 500\<rparr>) (Ymd 2026 2 1) \<le> js_round (2 * 60)"
  using carry_over_bounds [of "\<lparr>pp_starts = Ymd 2026 1 1, pp_ends = Ymd 2026 1 31, pp_contracted = 600,
      pp_carried = 60, pp_consumed = 500\<rparr>" "Some 2" 2 Capped "Ymd 2026 2 1", OF _ _ refl _ refl] by simp

text \<open>The rate snapshot comes from a card in force: a rate is the entry of that role on a card that has
  started and than which no card of the same scope in force starts later; an account card is used only
  when the contract card in force, if any, has no entry for the role.\<close>

theorem rate_for_in_force:
  "(rate_for cards role on = no_rate \<or>
    (\<exists>c e scoped. c \<in> set cards \<and> e \<in> set (rc_entries c) \<and> re_role e = role \<and> rc_from c \<le> on \<and>
       scoped = (rc_contract c \<noteq> None) \<and> in_force cards on scoped = Some c \<and>
       (\<forall>d\<in>set cards. (rc_contract d \<noteq> None) = scoped \<and> rc_from d \<le> on \<longrightarrow> rc_from d \<le> rc_from c) \<and>
       rate_for cards role on = \<lparr>rs_rate = Some (re_bill e), rs_overage = re_overage e, rs_card = Some (rc_id c),
         rs_source = Some (if scoped then From_contract else From_account)\<rparr> \<and>
       (\<not> scoped \<longrightarrow> (\<forall>k. in_force cards on True = Some k \<longrightarrow> (\<forall>x\<in>set (rc_entries k). re_role x \<noteq> role)))))"
proof (cases "card_rate (in_force cards on True) role From_contract")
  case (Some s)
  from card_rate_Some [OF Some] obtain c e where
    c: "in_force cards on True = Some c" "e \<in> set (rc_entries c)" "re_role e = role"
      "s = \<lparr>rs_rate = Some (re_bill e), rs_overage = re_overage e, rs_card = Some (rc_id c), rs_source = Some From_contract\<rparr>"
    by auto
  from in_force_Some [OF c(1)] c Some show ?thesis
    by (intro disjI2 exI [of _ c] exI [of _ e] exI [of _ True]) (simp add: rate_for_def)
next
  case None
  have none: "\<forall>x\<in>set (rc_entries k). re_role x \<noteq> role" if "in_force cards on True = Some k" for k
    using None that by (auto simp: card_rate_def find_None_iff split: option.splits)
  show ?thesis
  proof (cases "card_rate (in_force cards on False) role From_account")
    case (Some s)
    from card_rate_Some [OF Some] obtain c e where
      c: "in_force cards on False = Some c" "e \<in> set (rc_entries c)" "re_role e = role"
        "s = \<lparr>rs_rate = Some (re_bill e), rs_overage = re_overage e, rs_card = Some (rc_id c), rs_source = Some From_account\<rparr>"
      by auto
    from in_force_Some [OF c(1)] c Some None none show ?thesis
      by (intro disjI2 exI [of _ c] exI [of _ e] exI [of _ False]) (simp add: rate_for_def)
  qed (use None in \<open>simp add: rate_for_def\<close>)
qed

definition sample_cards :: "rate_card list" where
  "sample_cards =
     [\<lparr>rc_id = ''std'', rc_contract = None, rc_from = Ymd 2025 1 1, rc_entries = [\<lparr>re_role = ''dev'', re_bill = 80, re_overage = None\<rparr>]\<rparr>,
      \<lparr>rc_id = ''c1'', rc_contract = Some ''c'', rc_from = Ymd 2026 1 1, rc_entries = [\<lparr>re_role = ''dev'', re_bill = 95, re_overage = None\<rparr>]\<rparr>]"

theorem rate_for_in_force_witness:
  "rate_for sample_cards ''dev'' (Ymd 2026 1 5) = no_rate \<or>
    (\<exists>c e. c \<in> set sample_cards \<and> e \<in> set (rc_entries c) \<and> re_role e = ''dev'' \<and> rc_from c \<le> Ymd 2026 1 5 \<and>
       rs_rate (rate_for sample_cards ''dev'' (Ymd 2026 1 5)) = Some (re_bill e))"
  using rate_for_in_force [of sample_cards "''dev''" "Ymd 2026 1 5"] by fastforce

text \<open>A contract's position accounts for every line: consuming and other minutes add up to the minutes of
  the lines, so do the figures by class and by activity, what remains is never negative, the elapsed
  share lies between 0 and 100 percent, and with a budget the status is \<open>over\<close> exactly when more is
  consumed than available.\<close>

theorem position_accounts:
  assumes "position p lines classes today = c"
  shows "cp_consumed c + cp_non_consuming c = sum_list (map cl_minutes lines) \<and>
    sum_list (map snd (cp_by_class c)) = sum_list (map cl_minutes lines) \<and>
    sum_list (map snd (cp_by_activity c)) = sum_list (map cl_minutes lines) \<and>
    cp_consumed c = sum_list (map cl_minutes (filter (\<lambda>l. \<exists>k\<in>set classes. cs_consumes k \<and> cs_key k = cl_class l) lines)) \<and>
    0 \<le> cp_remaining c \<and> 0 \<le> cp_percent_elapsed c \<and> cp_percent_elapsed c \<le> 100 \<and>
    (cp_available c \<noteq> 0 \<longrightarrow> (cp_status c = Over \<longleftrightarrow> cp_consumed c > cp_available c))"
proof -
  let ?consuming = "map cs_key (filter cs_consumes classes)"
  define a where "a = foldl (consume_line ?consuming) \<lparr>ca_by_class = [], ca_by_activity = [], ca_consumed = 0, ca_other = 0\<rparr> lines"
  have a: "map_total (ca_by_class a) = sum_list (map cl_minutes lines)"
      "map_total (ca_by_activity a) = sum_list (map cl_minutes lines)"
      "ca_consumed a = sum_list (map cl_minutes (filter (\<lambda>l. cl_class l \<in> set ?consuming) lines))"
      "ca_other a = sum_list (map cl_minutes (filter (\<lambda>l. cl_class l \<notin> set ?consuming) lines))"
    using consume_lines [of ?consuming lines] by (simp_all add: a_def Let_def)
  have split: "sum_list (map cl_minutes (filter P lines)) + sum_list (map cl_minutes (filter (\<lambda>l. \<not> P l) lines))
      = sum_list (map cl_minutes lines)" for P
    by (induction lines) auto
  have cons: "cl_class l \<in> set ?consuming \<longleftrightarrow> (\<exists>k\<in>set classes. cs_consumes k \<and> cs_key k = cl_class l)" for l
    by force
  have c: "cp_consumed c = ca_consumed a" "cp_non_consuming c = ca_other a" "cp_by_class c = ca_by_class a"
      "cp_by_activity c = ca_by_activity a" "0 \<le> cp_remaining c"
      "cp_percent_elapsed c = percent_of (cp_days_elapsed c) (cp_days_total c)"
      "0 \<le> cp_days_elapsed c" "cp_days_elapsed c \<le> cp_days_total c" "0 < cp_days_total c"
      "cp_status c = consumption_status (cp_available c) (cp_consumed c) (cp_projected c) (cp_percent_consumed c) (cp_percent_elapsed c)"
    unfolding assms [symmetric] position_def Let_def a_def by simp_all
  have "cp_available c \<noteq> 0 \<longrightarrow> (cp_status c = Over \<longleftrightarrow> cp_consumed c > cp_available c)"
    unfolding c(10) consumption_status_def by simp
  with percent_of_bounds [OF c(7-9)] show ?thesis
    using a split [of "\<lambda>l. cl_class l \<in> set ?consuming"] c(1-6)
    unfolding map_total_def cons [symmetric] by metis
qed

theorem position_accounts_witness:
  "0 \<le> cp_remaining (position \<lparr>pi_starts = Ymd 2026 1 1, pi_ends = Ymd 2026 1 31, pi_contracted = 600, pi_carried = 0\<rparr>
      [\<lparr>cl_activity = ''dev'', cl_class = ''billable'', cl_minutes = 700\<rparr>] [\<lparr>cs_key = ''billable'', cs_consumes = True\<rparr>] 0)"
  using position_accounts [OF refl, of \<open>\<lparr>pi_starts = Ymd 2026 1 1, pi_ends = Ymd 2026 1 31, pi_contracted = 600, pi_carried = 0\<rparr>\<close>
      "[\<lparr>cl_activity = ''dev'', cl_class = ''billable'', cl_minutes = 700\<rparr>]" "[\<lparr>cs_key = ''billable'', cs_consumes = True\<rparr>]" 0]
  by blast

text \<open>The forecast's exhaustion day is the first that is enough: when the run rate is positive and minutes are
  left, the answer is the least number of business days whose minutes at that rate cover what is left.\<close>

theorem exhaustion_least:
  assumes "exhaustion rate left available = Some n" "0 < left"
  shows "of_int left \<le> of_int n * rate \<and> (\<forall>k. k < n \<longrightarrow> of_int k * rate < of_int left)"
proof -
  have rate: "0 < rate" and n: "n = \<lceil>of_int left / rate\<rceil>"
    using assms by (auto simp: exhaustion_def split: if_splits)
  have "of_int k * rate < of_int left" if "k < n" for k
  proof -
    have "(of_int k :: rat) \<le> of_int (n - 1)" using that by simp
    then have "of_int k * rate \<le> of_int (n - 1) * rate" using rate by (simp only: mult_right_mono less_imp_le)
    with ceiling_minimal [OF rate, of left] n show ?thesis by simp
  qed
  with ceiling_minimal [OF rate, of left] n show ?thesis by blast
qed

theorem exhaustion_least_witness: "of_int 100 \<le> of_int 4 * (30::rat)"
proof -
  have "exhaustion 30 100 600 = Some 4" by (simp add: exhaustion_def ceiling_eq_iff)
  from exhaustion_least [OF this] show ?thesis by simp
qed

end
