(* ===== verification/Capacity.thy ===== *)
theory Capacity
  imports Civil_Date Change_Window
begin

section \<open>Capacity, unlogged time and skills (src/domain/capacity, src/domain/time/unlogged.ts)\<close>

text \<open>
  A person's month from calendar, holidays, time off and employment dates; the unlogged minutes of a
  span of days; the coverage of required skills. Dates are triples, day loops are
  \<open>day_loop\<close> of the calendar theory, and the fractions of days off are exact.
\<close>

subsection \<open>A person's month\<close>

record time_off =
  to_starts :: ymd
  to_ends :: ymd
  to_fraction :: rat

record person_month_input =
  pm_month :: ymd
  pm_working_days :: "int list option"
  pm_hours_per_day :: rat
  pm_fte :: rat
  pm_overhead :: rat
  pm_start :: "ymd option"
  pm_end :: "ymd option"
  pm_holidays :: "ymd list"
  pm_pto :: "time_off list"
  pm_allocated :: int
  pm_actual :: int
  pm_warning :: "rat option"

datatype capacity_status = Available | Warning | Over_capacity | No_calendar

record person_month =
  pr_working_days :: nat
  pr_contracted :: int
  pr_pto :: int
  pr_holiday :: int
  pr_overhead :: int
  pr_available :: int
  pr_allocated :: int
  pr_actual :: int
  pr_remaining :: int
  pr_status :: capacity_status

definition month_bounds :: "ymd \<Rightarrow> ymd \<times> ymd" where
  "month_bounds m = (Ymd (yr m) (mon m) 1, iso_day_of (date_utc (yr m) (mon m) 0))"

definition month_of_date :: "ymd \<Rightarrow> ymd" where
  "month_of_date d = Ymd (yr d) (mon d) 1"

definition days_between :: "ymd \<Rightarrow> ymd \<Rightarrow> ymd list" where
  "days_between f t = day_loop (midnight f) (midnight t)"

definition works_on :: "int list \<Rightarrow> ymd \<Rightarrow> bool" where
  "works_on wd date =
     (let d = utc_weekday (midnight date) in d \<in> set wd \<or> d = 0 \<and> 7 \<in> set wd)"

text \<open>The day loop's three counters.\<close>

definition day_off :: "time_off list \<Rightarrow> ymd \<Rightarrow> rat" where
  "day_off pto date =
     foldl (\<lambda>sum row. sum + to_fraction row) 0 (filter (\<lambda>row. date \<ge> to_starts row \<and> date \<le> to_ends row) pto)"

definition counts_day :: "person_month_input \<Rightarrow> int list \<Rightarrow> ymd \<Rightarrow> bool" where
  "counts_day i wd date \<longleftrightarrow>
     \<not> (case pm_start i of None \<Rightarrow> False | Some s \<Rightarrow> date < s) \<and>
     \<not> (case pm_end i of None \<Rightarrow> False | Some e \<Rightarrow> date > e) \<and>
     works_on wd date"

fun count_days :: "person_month_input \<Rightarrow> int list \<Rightarrow> nat \<times> nat \<times> rat \<Rightarrow> ymd list \<Rightarrow> nat \<times> nat \<times> rat" where
  "count_days i wd acc [] = acc"
| "count_days i wd (w, h, p) (date # ds) =
     (if \<not> counts_day i wd date then count_days i wd (w, h, p) ds
      else if date \<in> set (pm_holidays i) then count_days i wd (w + 1, h + 1, p) ds
      else count_days i wd (w + 1, h, p + min 1 (day_off (pm_pto i) date)) ds)"

definition allocation_status :: "int \<Rightarrow> int \<Rightarrow> rat \<Rightarrow> capacity_status" where
  "allocation_status available allocated warning =
     (if available > 0 then
        let ratio = of_int allocated / of_int available
        in if ratio > 1 then Over_capacity else if ratio \<ge> warning then Warning else Available
      else if allocated > 0 then Over_capacity
      else if 0 \<ge> warning then Warning else Available)"

definition person_month :: "person_month_input \<Rightarrow> person_month" where
  "person_month i =
     (case pm_working_days i of
        Some (d # ds) \<Rightarrow>
          if pm_hours_per_day i \<le> 0 then
            \<lparr>pr_working_days = 0, pr_contracted = 0, pr_pto = 0, pr_holiday = 0, pr_overhead = 0, pr_available = 0,
             pr_allocated = pm_allocated i, pr_actual = pm_actual i, pr_remaining = 0, pr_status = No_calendar\<rparr>
          else
            let (f, t) = month_bounds (pm_month i);
                (w, h, p) = count_days i (d # ds) (0, 0, 0) (days_between f t);
                per_day = pm_hours_per_day i * 60;
                fte = pm_fte i / 100;
                contracted = js_round (of_nat w * per_day * fte);
                holiday = js_round (of_nat h * per_day * fte);
                pto = js_round (p * per_day * fte);
                net = max 0 (contracted - holiday - pto);
                overhead = js_round (of_int net * pm_overhead i / 100);
                available = max 0 (net - overhead);
                warning = (case pm_warning i of None \<Rightarrow> 9 / 10 | Some x \<Rightarrow> x)
            in \<lparr>pr_working_days = w, pr_contracted = contracted, pr_pto = pto, pr_holiday = holiday,
                pr_overhead = overhead, pr_available = available, pr_allocated = pm_allocated i,
                pr_actual = pm_actual i, pr_remaining = max 0 (available - pm_allocated i),
                pr_status = allocation_status available (pm_allocated i) warning\<rparr>
      | _ \<Rightarrow>
          \<lparr>pr_working_days = 0, pr_contracted = 0, pr_pto = 0, pr_holiday = 0, pr_overhead = 0, pr_available = 0,
           pr_allocated = pm_allocated i, pr_actual = pm_actual i, pr_remaining = 0, pr_status = No_calendar\<rparr>)"

definition variance :: "int \<Rightarrow> int \<Rightarrow> int \<times> rat option" where
  "variance planned actual =
     (actual - planned,
      if planned > 0 then Some (of_int (js_round (of_int (actual - planned) / of_int planned * 1000)) / 1000) else None)"

subsection \<open>Unlogged time\<close>

record person_calendar =
  pc_working_days :: "int list"
  pc_hours :: rat

record unlogged_day =
  ud_date :: ymd
  ud_weekday :: int
  ud_expected :: int
  ud_logged :: int
  ud_unlogged :: int
  ud_holiday :: bool

definition default_person_calendar :: person_calendar where
  "default_person_calendar = \<lparr>pc_working_days = [1, 2, 3, 4, 5], pc_hours = 8\<rparr>"

definition iso_weekday :: "ymd \<Rightarrow> int" where
  "iso_weekday d = (let w = utc_weekday (midnight d) in if w = 0 then 7 else w)"

definition unlogged_by_day ::
    "ymd \<Rightarrow> ymd \<Rightarrow> person_calendar option \<Rightarrow> ymd list \<Rightarrow> (ymd \<times> rat) list \<Rightarrow> unlogged_day list" where
  "unlogged_by_day f t cal holidays logged =
     (let c = (case cal of None \<Rightarrow> default_person_calendar | Some x \<Rightarrow> x);
          per_day = js_round (pc_hours c * 60)
      in map (\<lambda>date.
           let weekday = iso_weekday date;
               holiday = (date \<in> set holidays);
               expected = (if \<not> holiday \<and> weekday \<in> set (pc_working_days c) then per_day else 0);
               done_minutes = max 0 (js_round (case map_of logged date of None \<Rightarrow> 0 | Some m \<Rightarrow> m))
           in \<lparr>ud_date = date, ud_weekday = weekday, ud_expected = expected, ud_logged = done_minutes,
               ud_unlogged = max 0 (expected - done_minutes), ud_holiday = holiday\<rparr>) (days_between f t))"

text \<open>A week is asked for as \<open>YYYY-Www\<close> or by a day in it.\<close>

datatype week_reference = Iso_week int int | Week_of_day ymd

definition iso_dow :: "ms \<Rightarrow> int" where
  "iso_dow t = (if utc_weekday t = 0 then 7 else utc_weekday t)"

definition week_monday :: "week_reference \<Rightarrow> ms" where
  "week_monday r =
     (case r of
        Iso_week y w \<Rightarrow>
          let fourth = date_utc y 0 4
          in fourth - (iso_dow fourth - 1) * 86400000 + (w - 1) * 7 * 86400000
      | Week_of_day d \<Rightarrow> midnight d - (iso_dow (midnight d) - 1) * 86400000)"

definition week_bounds :: "week_reference \<Rightarrow> ymd \<times> ymd" where
  "week_bounds r = (iso_day_of (week_monday r), iso_day_of (week_monday r + 6 * 86400000))"

subsection \<open>Skills\<close>

record skill_holder =
  sh_person :: string
  sh_code :: string
  sh_level :: int

datatype coverage_status = Covered | Single_point | Gap

record coverage =
  cv_code :: string
  cv_qualified :: "string list"
  cv_status :: coverage_status

definition coverage :: "string list \<Rightarrow> skill_holder list \<Rightarrow> int \<Rightarrow> coverage list" where
  "coverage required holders level =
     map (\<lambda>code.
       let qualified = sort (uniq (map sh_person (filter (\<lambda>r. sh_code r = code \<and> sh_level r \<ge> level) holders)))
       in \<lparr>cv_code = code, cv_qualified = qualified,
           cv_status = (if length qualified = 0 then Gap else if length qualified = 1 then Single_point else Covered)\<rparr>)
     (sort (uniq required))"

definition heat_map :: "string list \<Rightarrow> skill_holder list \<Rightarrow> (string \<times> int js_map) list" where
  "heat_map people holders =
     map (\<lambda>p. (p, foldl (\<lambda>m r. AList.update (sh_code r) (sh_level r) m) []
       (filter (\<lambda>r. sh_person r = p) holders))) people"

subsection \<open>Lemmas\<close>

lemma foldl_plus_map: "foldl (\<lambda>s r. s + f r) (a :: 'n::monoid_add) xs = a + sum_list (map f xs)"
  by (induction xs arbitrary: a) (simp_all add: add.assoc)

lemma day_off_nonneg: "\<forall>r\<in>set pto. 0 \<le> to_fraction r \<Longrightarrow> 0 \<le> day_off pto d"
  unfolding day_off_def foldl_plus_map by (auto intro!: sum_list_nonneg)

lemma count_days_spec:
  assumes "\<forall>r\<in>set (pm_pto i). 0 \<le> to_fraction r"
  shows "count_days i wd (w, h, p) ds = (w', h', p') \<Longrightarrow>
    w' = w + length (filter (counts_day i wd) ds) \<and>
    h' = h + length (filter (\<lambda>d. counts_day i wd d \<and> d \<in> set (pm_holidays i)) ds) \<and>
    p \<le> p' \<and> of_nat h' + p' - (of_nat h + p) \<le> of_nat w' - of_nat w"
proof (induction ds arbitrary: w h p)
  case (Cons d ds)
  have off: "0 \<le> day_off (pm_pto i) d"
    using day_off_nonneg [OF assms] .
  show ?case
  proof (cases "counts_day i wd d")
    case False
    with Cons show ?thesis by simp
  next
    case True
    show ?thesis
    proof (cases "d \<in> set (pm_holidays i)")
      case h: True
      with True Cons.prems have "count_days i wd (w + 1, h + 1, p) ds = (w', h', p')" by simp
      from Cons.IH [OF this] True h show ?thesis by (simp add: algebra_simps)
    next
      case h: False
      with True Cons.prems have "count_days i wd (w + 1, h, p + min 1 (day_off (pm_pto i) d)) ds = (w', h', p')" by simp
      from Cons.IH [OF this] True h off show ?thesis by (auto simp: algebra_simps min_def split: if_splits)
    qed
  qed
qed simp

lemma month_end:
  assumes "1 \<le> m" "m \<le> 12"
  shows "iso_day_of (date_utc y m 0) = Ymd y m (month_length y m)"
proof -
  have v: "valid_ymd (Ymd y m (month_length y m))"
    using assms month_length_bounds [OF assms, of y] by (simp add: valid_ymd_def)
  have "make_day y m 0 = day_number (Ymd y m (month_length y m))"
  proof (cases "m = 12")
    case True
    then show ?thesis
      by (simp add: make_day_def day_number_def month_length_def day_from_year_Suc month_start_values)
  next
    case False
    with assms have "m div 12 = 0" "m mod 12 = m" by (simp_all add: div_pos_pos_trivial mod_pos_pos_trivial)
    then show ?thesis by (simp add: make_day_def day_number_def month_length_def add.commute)
  qed
  then show ?thesis
    using civil_day_number [OF v] by (simp add: date_utc_def iso_day_of_def)
qed

lemma month_days:
  assumes "1 \<le> mon m" "mon m \<le> 12" "month_bounds m = (f, t)"
  shows "set (days_between f t) = {d. valid_ymd d \<and> yr d = yr m \<and> mon d = mon m}"
    and "distinct (days_between f t)"
proof -
  have ft: "f = Ymd (yr m) (mon m) 1" "t = Ymd (yr m) (mon m) (month_length (yr m) (mon m))"
    using assms by (simp_all add: month_bounds_def month_end)
  have v: "valid_ymd f" "valid_ymd t"
    using assms(1,2) month_length_bounds [OF assms(1,2), of "yr m"] by (simp_all add: ft valid_ymd_def)
  have "f \<le> d \<and> d \<le> t \<longleftrightarrow> yr d = yr m \<and> mon d = mon m" if "valid_ymd d" for d
    using that by (cases d) (auto simp: ft valid_ymd_def less_eq_ymd_def less_ymd_def)
  then show "set (days_between f t) = {d. valid_ymd d \<and> yr d = yr m \<and> mon d = mon m}"
    unfolding days_between_def set_day_loop [OF v] by auto
  show "distinct (days_between f t)"
    unfolding days_between_def by (rule distinct_day_loop)
qed

lemma js_round_add_le: "js_round x + js_round y \<le> js_round (x + y) + 1"
  unfolding js_round_def by linarith

lemma allocation_over: "0 \<le> available \<Longrightarrow> allocation_status available allocated w = Over_capacity \<longleftrightarrow> available < allocated"
  by (auto simp: allocation_status_def Let_def)

lemma monday_weekday: "utc_weekday (week_monday r) = 1 \<and> week_monday r mod 86400000 = 0"
proof -
  have monday: "utc_weekday (k * 86400000 - (iso_dow (k * 86400000) - 1) * 86400000 + j * 7 * 86400000) = 1" for k j
  proof -
    have e: "k * 86400000 - (iso_dow (k * 86400000) - 1) * 86400000 + j * 7 * 86400000
        = (k - (iso_dow (k * 86400000) - 1) + j * 7) * 86400000"
      by (simp add: algebra_simps)
    define w where "w = (k + 4) mod 7"
    have k: "k = 7 * ((k + 4) div 7) + w - 4"
      using mult_div_mod_eq [of 7 "k + 4"] by (simp add: w_def)
    have d: "iso_dow (k * 86400000) = (if w = 0 then 7 else w)"
      by (simp add: iso_dow_def utc_weekday_def weekday_def w_def)
    have "\<exists>q. k - (iso_dow (k * 86400000) - 1) + j * 7 + 4 = 1 + 7 * q"
    proof (cases "w = 0")
      case True
      then show ?thesis using k by (intro exI [of _ "(k + 4) div 7 + j - 1"]) (simp add: d)
    next
      case False
      then show ?thesis using k by (intro exI [of _ "(k + 4) div 7 + j"]) (simp add: d)
    qed
    then obtain q where q: "k - (iso_dow (k * 86400000) - 1) + j * 7 + 4 = 1 + 7 * q" by blast
    have "(k - (iso_dow (k * 86400000) - 1) + j * 7 + 4) mod 7 = 1"
      unfolding q by simp
    then show ?thesis unfolding e utc_weekday_def weekday_def nonzero_mult_div_cancel_right [OF zero_neq_numeral [symmetric]] .
  qed
  show ?thesis
  proof (cases r)
    case (Iso_week y w)
    with monday [of "make_day y 0 4" "w - 1"] show ?thesis
      by (simp add: week_monday_def Let_def date_utc_def mod_simps)
  next
    case (Week_of_day d)
    with monday [of "day_number d" 0] show ?thesis
      by (simp add: week_monday_def midnight_def)
  qed
qed

lemma week_monday_day:
  "week_monday r = (case r of
     Iso_week y w \<Rightarrow> (make_day y 0 4 - (iso_dow (make_day y 0 4 * 86400000) - 1) + (w - 1) * 7) * 86400000
   | Week_of_day d \<Rightarrow> (day_number d - (iso_dow (day_number d * 86400000) - 1)) * 86400000)"
  by (simp add: week_monday_def date_utc_def midnight_def Let_def algebra_simps split: week_reference.split)

lemma iso_dow_range: "1 \<le> iso_dow t \<and> iso_dow t \<le> 7"
  using weekday_range [of "t div 86400000"] by (auto simp: iso_dow_def utc_weekday_def)

subsection \<open>Properties\<close>

text \<open>A person's month counts each day once: the working days are the days of that month inside the
  employment dates on which the person works, a holiday inside time off is never taken twice (together
  they take at most the contracted minutes, up to one minute of rounding), the available minutes lie
  between zero and the contracted, and the status is \<open>over\<close> exactly when more is allocated.\<close>

theorem person_month_counts:
  assumes "pm_working_days i = Some (wd # wds)" "0 < pm_hours_per_day i" "0 \<le> pm_fte i" "0 \<le> pm_overhead i"
    and "1 \<le> mon (pm_month i)" "mon (pm_month i) \<le> 12" "\<forall>r\<in>set (pm_pto i). 0 \<le> to_fraction r"
    and "person_month i = m" "0 \<le> pm_allocated i"
  shows "pr_working_days m = card {d. valid_ymd d \<and> yr d = yr (pm_month i) \<and> mon d = mon (pm_month i) \<and> counts_day i (wd # wds) d} \<and>
    pr_holiday m + pr_pto m \<le> pr_contracted m + 1 \<and>
    0 \<le> pr_available m \<and> pr_available m \<le> pr_contracted m \<and> pr_remaining m \<le> pr_available m \<and>
    (pr_status m = Over_capacity \<longleftrightarrow> pr_allocated m > pr_available m)"
proof -
  obtain f t where ft: "month_bounds (pm_month i) = (f, t)" by (cases "month_bounds (pm_month i)")
  obtain w h p where c: "count_days i (wd # wds) (0, 0, 0) (days_between f t) = (w, h, p)"
    by (metis prod_cases3)
  let ?u = "pm_hours_per_day i * 60"
  let ?fte = "pm_fte i / 100"
  let ?net = "max 0 (js_round (of_nat w * ?u * ?fte) - js_round (of_nat h * ?u * ?fte) - js_round (p * ?u * ?fte))"
  let ?over = "js_round (of_int ?net * pm_overhead i / 100)"
  have m: "pr_working_days m = w" "pr_contracted m = js_round (of_nat w * ?u * ?fte)"
      "pr_holiday m = js_round (of_nat h * ?u * ?fte)" "pr_pto m = js_round (p * ?u * ?fte)"
      "pr_available m = max 0 (?net - ?over)" "pr_remaining m = max 0 (pr_available m - pr_allocated m)"
      "pr_allocated m = pm_allocated i"
      "\<exists>wr. pr_status m = allocation_status (pr_available m) (pr_allocated m) wr"
proof -
    have r: "m = \<lparr>pr_working_days = w, pr_contracted = js_round (of_nat w * ?u * ?fte), pr_pto = js_round (p * ?u * ?fte),
        pr_holiday = js_round (of_nat h * ?u * ?fte), pr_overhead = ?over, pr_available = max 0 (?net - ?over), pr_allocated = pm_allocated i,
        pr_actual = pm_actual i, pr_remaining = max 0 (max 0 (?net - ?over) - pm_allocated i),
        pr_status = allocation_status (max 0 (?net - ?over)) (pm_allocated i) (case pm_warning i of None \<Rightarrow> 9 / 10 | Some x \<Rightarrow> x)\<rparr>"
      using assms(1,2) ft c unfolding assms(8) [symmetric] person_month_def Let_def by simp
    show "pr_working_days m = w" "pr_contracted m = js_round (of_nat w * ?u * ?fte)" "pr_holiday m = js_round (of_nat h * ?u * ?fte)"
      "pr_pto m = js_round (p * ?u * ?fte)" "pr_available m = max 0 (?net - ?over)" "pr_remaining m = max 0 (pr_available m - pr_allocated m)"
      "pr_allocated m = pm_allocated i"
      unfolding r by (simp_all only: person_month.simps)
    show "\<exists>wr. pr_status m = allocation_status (pr_available m) (pr_allocated m) wr"
      unfolding r by (simp only: person_month.simps) blast
  qed
  have spec: "w = length (filter (counts_day i (wd # wds)) (days_between f t))" "of_nat h + p \<le> of_nat w"
    using count_days_spec [OF assms(7) c] by simp_all
  have "w = card (set (filter (counts_day i (wd # wds)) (days_between f t)))"
    unfolding spec(1) by (intro distinct_card [symmetric] distinct_filter month_days(2) [OF assms(5,6) ft])
  then have days: "w = card {d. valid_ymd d \<and> yr d = yr (pm_month i) \<and> mon d = mon (pm_month i) \<and> counts_day i (wd # wds) d}"
    unfolding set_filter month_days(1) [OF assms(5,6) ft] by (simp add: conj_assoc)
  have unit: "0 \<le> ?u * ?fte" using assms(2,3) by simp
  then have "(of_nat h + p) * (?u * ?fte) \<le> of_nat w * (?u * ?fte)"
    using spec(2) by (rule mult_right_mono [rotated])
  then have "js_round (of_nat h * ?u * ?fte + p * ?u * ?fte) \<le> js_round (of_nat w * ?u * ?fte)"
    by (intro js_round_mono) (simp add: algebra_simps)
  then have off: "js_round (of_nat h * ?u * ?fte) + js_round (p * ?u * ?fte) \<le> js_round (of_nat w * ?u * ?fte) + 1"
    using js_round_add_le [of "of_nat h * ?u * ?fte" "p * ?u * ?fte"] by simp
  have over: "0 \<le> ?over" using assms(4) by (intro js_round_nonneg) simp
  have "0 \<le> js_round (of_nat w * ?u * ?fte)" "0 \<le> js_round (of_nat h * ?u * ?fte)"
    using assms(2,3) by (intro js_round_nonneg mult_nonneg_nonneg; simp)+
  moreover have "0 \<le> p" using count_days_spec [OF assms(7) c] by simp
  then have "0 \<le> js_round (p * ?u * ?fte)" using assms(2,3) by (intro js_round_nonneg mult_nonneg_nonneg) simp_all
  ultimately have avail: "0 \<le> pr_available m" "pr_available m \<le> pr_contracted m"
    unfolding m using over by auto
  have "pr_remaining m \<le> pr_available m" unfolding m(6,7) using avail(1) assms(9) by simp
  moreover have "pr_holiday m + pr_pto m \<le> pr_contracted m + 1" unfolding m(2-4) by (rule off)
  moreover have "pr_status m = Over_capacity \<longleftrightarrow> pr_allocated m > pr_available m"
    using m(8) allocation_over [OF avail(1)] by metis
  ultimately show ?thesis using trans [OF m(1) days] avail by blast
qed

definition sample_month :: person_month_input where
  "sample_month = \<lparr>pm_month = Ymd 2026 2 1, pm_working_days = Some [1, 2, 3, 4, 5], pm_hours_per_day = 8,
     pm_fte = 100, pm_overhead = 10, pm_start = None, pm_end = None, pm_holidays = [Ymd 2026 2 16],
     pm_pto = [\<lparr>to_starts = Ymd 2026 2 16, to_ends = Ymd 2026 2 17, to_fraction = 1\<rparr>],
     pm_allocated = 100, pm_actual = 0, pm_warning = None\<rparr>"

theorem person_month_counts_witness:
  "pr_holiday (person_month sample_month) + pr_pto (person_month sample_month) \<le> pr_contracted (person_month sample_month) + 1 \<and>
    pr_available (person_month sample_month) \<le> pr_contracted (person_month sample_month)"
  using person_month_counts [OF _ _ _ _ _ _ _ refl, of sample_month 1 "[2, 3, 4, 5]"]
  by (simp add: sample_month_def)

text \<open>The week asked for is a whole ISO week: it starts on a Monday and ends six days later, the week of a day
  contains that day, and the first week of a year contains its fourth of January.\<close>

theorem week_bounds_whole:
  "iso_weekday (fst (week_bounds r)) = 1 \<and>
    day_number (snd (week_bounds r)) = day_number (fst (week_bounds r)) + 6 \<and>
    (case r of
       Week_of_day d \<Rightarrow> day_number (fst (week_bounds r)) \<le> day_number d \<and> day_number d \<le> day_number (snd (week_bounds r))
     | Iso_week y w \<Rightarrow>
         (let fourth = day_number (Ymd y 1 4) + (w - 1) * 7
          in day_number (fst (week_bounds r)) \<le> fourth \<and> fourth \<le> day_number (snd (week_bounds r))))"
proof -
  have "\<exists>n. week_monday r = n * 86400000"
    unfolding week_monday_day by (cases r) (simp only: week_reference.case, blast)+
  then obtain n where n: "week_monday r = n * 86400000" by blast
  have "n * 86400000 + 6 * 86400000 = (n + 6) * 86400000" by simp
  then have from_to: "fst (week_bounds r) = civil n" "snd (week_bounds r) = civil (n + 6)"
    by (simp_all add: week_bounds_def n iso_day_of_def)
  have "weekday n = 1"
    using monday_weekday [of r] by (simp add: n utc_weekday_def)
  then have "iso_weekday (civil n) = 1"
    by (simp add: iso_weekday_def utc_weekday_def midnight_def)
  moreover have "case r of
       Week_of_day d \<Rightarrow> n \<le> day_number d \<and> day_number d \<le> n + 6
     | Iso_week y w \<Rightarrow> n \<le> day_number (Ymd y 1 4) + (w - 1) * 7 \<and> day_number (Ymd y 1 4) + (w - 1) * 7 \<le> n + 6"
  proof (cases r)
    case (Iso_week y w)
    have "make_day y 0 4 = day_number (Ymd y 1 4)" by (simp add: make_day_def day_number_def)
    with n Iso_week have "n = day_number (Ymd y 1 4) - (iso_dow (day_number (Ymd y 1 4) * 86400000) - 1) + (w - 1) * 7"
      by (simp only: week_monday_day week_reference.case mult_cancel_right) simp
    with iso_dow_range [of "day_number (Ymd y 1 4) * 86400000"] show ?thesis by (simp add: Iso_week)
  next
    case (Week_of_day d)
    with n have "n = day_number d - (iso_dow (day_number d * 86400000) - 1)"
      by (simp only: week_monday_day week_reference.case mult_cancel_right) simp
    with iso_dow_range [of "day_number d * 86400000"] show ?thesis by (simp add: Week_of_day)
  qed
  ultimately show ?thesis
    unfolding from_to Let_def by (cases r) simp_all
qed

text \<open>Unlogged time is reported once per day of the span, in order, never negative, and only for a day that
  expects work: on each day it is what was expected beyond what was logged, and a holiday expects nothing.\<close>

theorem unlogged_by_day_accounts:
  assumes "valid_ymd f" "valid_ymd t" "unlogged_by_day f t cal holidays logged = us"
  shows "set (map ud_date us) = {d. valid_ymd d \<and> f \<le> d \<and> d \<le> t} \<and> sorted_wrt (<) (map ud_date us) \<and>
    (\<forall>u\<in>set us. 0 \<le> ud_unlogged u \<and> 0 \<le> ud_logged u \<and> ud_unlogged u = max 0 (ud_expected u - ud_logged u) \<and>
       (ud_date u \<in> set holidays \<longrightarrow> ud_expected u = 0 \<and> ud_unlogged u = 0))"
proof -
  have dates: "map ud_date us = days_between f t"
    unfolding assms(3) [symmetric] unlogged_by_day_def Let_def by (simp add: o_def)
  have "set (map ud_date us) = {d. valid_ymd d \<and> f \<le> d \<and> d \<le> t}" "sorted_wrt (<) (map ud_date us)"
    unfolding dates days_between_def using set_day_loop [OF assms(1,2)] sorted_day_loop [of f t] by simp_all
  moreover have "\<forall>u\<in>set us. 0 \<le> ud_unlogged u \<and> 0 \<le> ud_logged u \<and> ud_unlogged u = max 0 (ud_expected u - ud_logged u) \<and>
       (ud_date u \<in> set holidays \<longrightarrow> ud_expected u = 0 \<and> ud_unlogged u = 0)"
    unfolding assms(3) [symmetric] unlogged_by_day_def Let_def by auto
  ultimately show ?thesis by blast
qed

theorem unlogged_by_day_accounts_witness:
  "set (map ud_date (unlogged_by_day (Ymd 2026 1 5) (Ymd 2026 1 7) None [Ymd 2026 1 6] [(Ymd 2026 1 5, 60)])) =
    {d. valid_ymd d \<and> Ymd 2026 1 5 \<le> d \<and> d \<le> Ymd 2026 1 7}"
  using unlogged_by_day_accounts [OF _ _ refl, of "Ymd 2026 1 5" "Ymd 2026 1 7" None "[Ymd 2026 1 6]" "[(Ymd 2026 1 5, 60)]"]
  by (simp add: valid_ymd_def month_length_def month_start_def)

end
