(* ===== verification/Time_Service.thy ===== *)
theory Time_Service
  imports Billing Budget After_Hours Capacity Ticket_Operations
begin

section \<open>Time entries, adjustments and billing periods (src/modules/time)\<close>

text \<open>
  The writes of \<open>TimeService\<close> over the rows it keeps: immutable entries, append-only adjustments, contract
  periods with the thresholds they fired, billing periods, buckets and rate cards. The queries of
  \<open>time.repository.ts\<close> are functions over the lists of rows; the constraints its tables declare (a
  unique key, minutes of one day at most, a delta that is not zero, billing periods that do not overlap) are
  the error \<open>Database_refused\<close>. Ids and the clock are arguments. The main facts: what an accepted
  entry guarantees, what an adjustment moves, and that over any history of writes a closed billing
  period keeps its lines, so a locked period's summary stays the summary of what its export lists.
\<close>

subsection \<open>Rows\<close>

record time_entry =
  te_id :: string
  te_account :: string
  te_ticket :: "string option"
  te_bucket :: "string option"
  te_contract :: string
  te_person :: string
  te_person_name :: string
  te_performed :: ymd
  te_minutes :: int
  te_activity :: string
  te_class :: string
  te_description :: string
  te_after_hours :: bool
  te_start :: "string option"
  te_after_class :: after_hours_class
  te_multiplier :: rat
  te_rate :: "rat option"
  te_amount :: "rat option"
  te_over :: bool
  te_created_by :: string
  te_created :: ms

datatype adjustment_kind = Correction | Write_off | Reclass

record time_adjustment =
  ad_id :: string
  ad_account :: string
  ad_entry :: string
  ad_contract :: string
  ad_performed :: ymd
  ad_delta :: int
  ad_kind :: adjustment_kind
  ad_class :: "string option"
  ad_reason :: string
  ad_created_by :: string
  ad_created :: ms

record period_row =
  kp_id :: string
  kp_contract :: string
  kp_starts :: ymd
  kp_ends :: ymd
  kp_contracted :: int
  kp_carried :: int
  kp_locked :: bool
  kp_fired :: "rat list"

record contract_row =
  co_id :: string
  co_account :: string
  co_overage :: overage_rule
  co_overage_multiplier :: "rat option"
  co_rollover :: rollover_rule
  co_rollover_cap :: "rat option"
  co_handling :: after_hours_handling
  co_multiplier :: "rat option"
  co_percents :: "rat list"

record billing_row =
  bp_id :: string
  bp_account :: string
  bp_starts :: ymd
  bp_ends :: ymd
  bp_status :: billing_state
  bp_submitted :: "(ms \<times> string) option"
  bp_approved :: "(ms \<times> string) option"
  bp_locked :: "(ms \<times> string) option"
  bp_auto_lock :: "ms option"
  bp_summary :: "period_summary option"
  bp_checksum :: "string option"
  bp_version :: int

datatype bucket_status = Bucket_active | Bucket_retired

record bucket_row =
  bk_id :: string
  bk_account :: string
  bk_label :: string
  bk_code :: string
  bk_class :: string
  bk_contract :: "string option"
  bk_status :: bucket_status
  bk_version :: int

datatype time_event =
    Ev_logged string int
  | Ev_entry_created string
  | Ev_adjusted string int adjustment_kind
  | Ev_crossed string rat int int
  | Ev_fired string "rat list" int int
  | Ev_billing_status string billing_state billing_state
  | Ev_billing_locked string "period_summary option"
  | Ev_billing_created string
  | Ev_exported string nat string

record time_store =
  tm_entries :: "time_entry list"
  tm_adjustments :: "time_adjustment list"
  tm_periods :: "period_row list"
  tm_alerts :: "(string \<times> rat) list"
  tm_billing :: "billing_row list"
  tm_audit :: "time_event list"
  tm_outbox :: "time_event list"

datatype time_error =
    Unknown_activity_type string
  | Unknown_billable_class string
  | Forbidden_adjust
  | Future_date
  | Contract_period_locked
  | Billing_period_locked billing_state
  | Overage_blocked int int int
  | Ticket_closed
  | No_such_row
  | Retired_bucket
  | No_active_contract
  | New_class_required
  | Adjustment_below_zero int
  | Invalid_billing_step billing_state "billing_action list"
  | Stale_billing int
  | Period_not_locked billing_state
  | Duplicate_role
  | Rate_card_exists
  | Database_refused

record time_reads =
  tr_activities :: "(string \<times> string option) list"
  tr_classes :: "class_spec list"
  tr_calendar :: "business_calendar option"
  tr_role :: "string \<Rightarrow> string option"
  tr_cards :: "rate_card list"

subsection \<open>Queries\<close>

definition within_days :: "ymd \<Rightarrow> ymd \<Rightarrow> ymd \<Rightarrow> bool" where
  "within_days f t d \<longleftrightarrow> f \<le> d \<and> d \<le> t"

definition entry_by_id :: "time_store \<Rightarrow> string \<Rightarrow> time_entry option" where
  "entry_by_id st i = find (\<lambda>e. te_id e = i) (tm_entries st)"

definition adjustments_of_entry :: "time_store \<Rightarrow> string \<Rightarrow> time_adjustment list" where
  "adjustments_of_entry st i = filter (\<lambda>a. ad_entry a = i) (tm_adjustments st)"

definition adjusted_minutes :: "time_store \<Rightarrow> time_entry \<Rightarrow> int" where
  "adjusted_minutes st e = te_minutes e + sum_list (map ad_delta (adjustments_of_entry st (te_id e)))"

definition period_for :: "time_store \<Rightarrow> string \<Rightarrow> ymd \<Rightarrow> period_row option" where
  "period_for st contract on =
     find (\<lambda>p. kp_contract p = contract \<and> within_days (kp_starts p) (kp_ends p) on) (tm_periods st)"

definition billing_period_for :: "time_store \<Rightarrow> string \<Rightarrow> ymd \<Rightarrow> billing_row option" where
  "billing_period_for st account on =
     find (\<lambda>b. bp_account b = account \<and> within_days (bp_starts b) (bp_ends b) on) (tm_billing st)"

definition billing_period :: "time_store \<Rightarrow> string \<Rightarrow> billing_row option" where
  "billing_period st i = find (\<lambda>b. bp_id b = i) (tm_billing st)"

text \<open>An adjustment joined to its entry: the class it names, or the entry's.\<close>

definition adjustment_class :: "time_adjustment \<Rightarrow> time_entry \<Rightarrow> string" where
  "adjustment_class a e = (case ad_class a of None \<Rightarrow> te_class e | Some c \<Rightarrow> c)"

definition consumption_lines :: "time_store \<Rightarrow> string \<Rightarrow> ymd \<Rightarrow> ymd \<Rightarrow> consumption_line list" where
  "consumption_lines st contract f t =
     map (\<lambda>e. \<lparr>cl_activity = te_activity e, cl_class = te_class e, cl_minutes = te_minutes e\<rparr>)
       (filter (\<lambda>e. te_contract e = contract \<and> within_days f t (te_performed e)) (tm_entries st)) @
     List.map_filter
       (\<lambda>a. if ad_contract a = contract \<and> within_days f t (ad_performed a)
         then map_option (\<lambda>e. \<lparr>cl_activity = te_activity e, cl_class = adjustment_class a e, cl_minutes = ad_delta a\<rparr>)
           (entry_by_id st (ad_entry a))
         else None)
       (tm_adjustments st)"

text \<open>The grouping of the query only adds up minutes per activity and class before the sum over the consuming ones.\<close>

definition consumed_in :: "time_store \<Rightarrow> string \<Rightarrow> ymd \<Rightarrow> ymd \<Rightarrow> class_spec list \<Rightarrow> int" where
  "consumed_in st contract f t classes =
     (let consuming = map cs_key (filter cs_consumes classes)
      in sum_list (map cl_minutes (filter (\<lambda>l. cl_class l \<in> set consuming) (consumption_lines st contract f t))))"

definition logged_minutes :: "time_store \<Rightarrow> string \<Rightarrow> int" where
  "logged_minutes st ticket =
     max 0 (sum_list (map te_minutes (filter (\<lambda>e. te_ticket e = Some ticket) (tm_entries st))) +
       sum_list (map ad_delta (filter (\<lambda>a. case entry_by_id st (ad_entry a) of
         None \<Rightarrow> False | Some e \<Rightarrow> te_ticket e = Some ticket) (tm_adjustments st))))"

definition period_available :: "period_row \<Rightarrow> int" where
  "period_available p = kp_contracted p + kp_carried p"

subsection \<open>Thresholds\<close>

text \<open>The event table has one row per period and percentage; the first insert wins and marks the period.\<close>

definition fire_threshold :: "string \<Rightarrow> rat \<Rightarrow> time_store \<Rightarrow> bool \<times> time_store" where
  "fire_threshold period percent st =
     (if (period, percent) \<in> set (tm_alerts st) then (False, st)
      else (True, st\<lparr>tm_alerts := tm_alerts st @ [(period, percent)],
             tm_periods := map (\<lambda>p. if kp_id p = period \<and> percent \<notin> set (kp_fired p)
               then p\<lparr>kp_fired := kp_fired p @ [percent]\<rparr> else p) (tm_periods st)\<rparr>))"

fun fire_each :: "string \<Rightarrow> int \<Rightarrow> int \<Rightarrow> rat list \<Rightarrow> rat list \<times> time_store \<Rightarrow> rat list \<times> time_store" where
  "fire_each period consumed avail [] acc = acc"
| "fire_each period consumed avail (x # xs) (fired, st) =
     (case fire_threshold period x st of
        (False, st') \<Rightarrow> fire_each period consumed avail xs (fired, st')
      | (True, st') \<Rightarrow> fire_each period consumed avail xs
          (fired @ [x], st'\<lparr>tm_outbox := tm_outbox st' @ [Ev_crossed period x consumed avail]\<rparr>))"

definition evaluate_thresholds ::
    "contract_row \<Rightarrow> period_row \<Rightarrow> int \<Rightarrow> int \<Rightarrow> time_store \<Rightarrow> rat list \<times> time_store" where
  "evaluate_thresholds c p consumed avail st =
     (let percents = thresholds_to_fire (co_percents c) (kp_fired p) consumed avail
      in if percents = [] then ([], st)
         else
           let (fired, st') = fire_each (kp_id p) consumed avail percents ([], st)
           in (fired, st'\<lparr>tm_audit := tm_audit st' @ [Ev_fired (kp_id p) fired consumed avail]\<rparr>))"

subsection \<open>Logging time\<close>

record log_dto =
  lg_performed :: ymd
  lg_minutes :: int
  lg_activity :: string
  lg_class :: "string option"
  lg_description :: "string option"
  lg_after_hours :: bool
  lg_start :: "string option"
  lg_person :: "string option"

record log_target =
  tg_account :: string
  tg_contract :: contract_row
  tg_ticket :: "string option"
  tg_bucket :: "string option"

definition known_class :: "class_spec list \<Rightarrow> string \<Rightarrow> bool" where
  "known_class classes k \<longleftrightarrow> k \<in> set (map cs_key classes)"

definition class_consumes :: "class_spec list \<Rightarrow> string \<Rightarrow> bool" where
  "class_consumes classes k = (case find (\<lambda>s. cs_key s = k) classes of None \<Rightarrow> False | Some s \<Rightarrow> cs_consumes s)"

definition entry_class :: "log_dto \<Rightarrow> string option \<Rightarrow> string" where
  "entry_class dto of_activity =
     (case lg_class dto of Some c \<Rightarrow> c | None \<Rightarrow> (case of_activity of Some c \<Rightarrow> c | None \<Rightarrow> ''billable''))"

definition open_for_entries :: "billing_row option \<Rightarrow> bool" where
  "open_for_entries b = (case b of None \<Rightarrow> True | Some r \<Rightarrow> bp_status r = Open_period \<or> bp_status r = Submitted)"

definition status_of :: "billing_row option \<Rightarrow> billing_state" where
  "status_of b = (case b of None \<Rightarrow> Open_period | Some r \<Rightarrow> bp_status r)"

definition entry_person :: "principal \<Rightarrow> log_dto \<Rightarrow> string" where
  "entry_person p dto = (case lg_person dto of Some i \<Rightarrow> i | None \<Rightarrow> pr_user p)"

text \<open>What the contract's period and overage rule say of the entry: the minutes used before it, and the decision.\<close>

definition used_before :: "time_reads \<Rightarrow> time_store \<Rightarrow> period_row option \<Rightarrow> contract_row \<Rightarrow> string \<Rightarrow> int" where
  "used_before r st period c cls =
     (case period of
        Some p \<Rightarrow> if class_consumes (tr_classes r) cls then consumed_in st (co_id c) (kp_starts p) (kp_ends p) (tr_classes r) else 0
      | None \<Rightarrow> 0)"

definition entry_overage :: "time_reads \<Rightarrow> period_row option \<Rightarrow> contract_row \<Rightarrow> string \<Rightarrow> int \<Rightarrow> int \<Rightarrow> overage_decision" where
  "entry_overage r period c cls used minutes =
     (case period of
        Some p \<Rightarrow>
          if class_consumes (tr_classes r) cls
          then overage_decision (co_overage c) (period_available p) used minutes (co_overage_multiplier c)
          else \<lparr>od_blocked = False, od_over = False, od_minutes = 0, od_multiplier = 1\<rparr>
      | None \<Rightarrow> \<lparr>od_blocked = False, od_over = False, od_minutes = 0, od_multiplier = 1\<rparr>)"

definition new_entry ::
    "time_reads \<Rightarrow> principal \<Rightarrow> string \<Rightarrow> log_target \<Rightarrow> log_dto \<Rightarrow> string \<Rightarrow> overage_decision \<Rightarrow> string \<Rightarrow> ms \<Rightarrow> time_entry" where
  "new_entry r p name target dto cls d i now =
     (let after = classify_performed (tr_calendar r) (lg_performed dto) (lg_start dto) (lg_after_hours dto);
          own = multiplier_for (co_handling (tg_contract target)) (co_multiplier (tg_contract target)) after;
          role = (case tr_role r (entry_person p dto) of None \<Rightarrow> [] | Some x \<Rightarrow> x);
          rate = rate_for (tr_cards r) role (lg_performed dto);
          snapshot = (if od_over d \<and> rs_overage rate \<noteq> None then rs_overage rate else rs_rate rate);
          multiplier = round_to 3 (own * od_multiplier d)
      in \<lparr>te_id = i, te_account = tg_account target, te_ticket = tg_ticket target, te_bucket = tg_bucket target,
          te_contract = co_id (tg_contract target), te_person = entry_person p dto,
          te_person_name = (if lg_person dto \<noteq> None \<and> lg_person dto \<noteq> Some (pr_user p) then [] else name),
          te_performed = lg_performed dto, te_minutes = lg_minutes dto, te_activity = lg_activity dto, te_class = cls,
          te_description = (case lg_description dto of None \<Rightarrow> [] | Some x \<Rightarrow> x), te_after_hours = (after \<noteq> Standard),
          te_start = lg_start dto, te_after_class = after, te_multiplier = multiplier, te_rate = snapshot,
          te_amount = amount_of (lg_minutes dto) snapshot multiplier, te_over = od_over d,
          te_created_by = pr_user p, te_created = now\<rparr>)"

definition insert_entry ::
    "time_reads \<Rightarrow> principal \<Rightarrow> string \<Rightarrow> log_target \<Rightarrow> log_dto \<Rightarrow> string \<Rightarrow> ms \<Rightarrow> time_store \<Rightarrow> time_error + time_store \<times> time_entry" where
  "insert_entry r p name target dto i now st =
     (case map_of (tr_activities r) (lg_activity dto) of
        None \<Rightarrow> Inl (Unknown_activity_type (lg_activity dto))
      | Some of_activity \<Rightarrow>
          let cls = entry_class dto of_activity;
              c = tg_contract target;
              period = period_for st (co_id c) (lg_performed dto);
              billing = billing_period_for st (tg_account target) (lg_performed dto);
              used = used_before r st period c cls;
              d = entry_overage r period c cls used (lg_minutes dto);
              avail = (case period of None \<Rightarrow> 0 | Some q \<Rightarrow> period_available q);
              e = new_entry r p name target dto cls d i now;
              st' = st\<lparr>tm_entries := tm_entries st @ [e], tm_audit := tm_audit st @ [Ev_entry_created i]\<rparr>
          in if \<not> known_class (tr_classes r) cls then Inl (Unknown_billable_class cls)
             else if lg_person dto \<noteq> None \<and> lg_person dto \<noteq> Some (pr_user p) \<and> ''time:adjust'' \<notin> set (pr_permissions p)
             then Inl Forbidden_adjust
             else if iso_day_of now < lg_performed dto then Inl Future_date
             else if (case period of None \<Rightarrow> False | Some q \<Rightarrow> kp_locked q) then Inl Contract_period_locked
             else if \<not> open_for_entries billing then Inl (Billing_period_locked (status_of billing))
             else if od_blocked d then Inl (Overage_blocked avail used (lg_minutes dto))
             else if i \<in> set (map te_id (tm_entries st)) \<or> lg_minutes dto \<le> 0 \<or> 1440 < lg_minutes dto then Inl Database_refused
             else Inr (case period of
                 Some q \<Rightarrow> if class_consumes (tr_classes r) cls
                   then (snd (evaluate_thresholds c q (used + lg_minutes dto) avail st'), e) else (st', e)
               | None \<Rightarrow> (st', e)))"

definition note_logged :: "time_store \<times> time_entry \<Rightarrow> time_store" where
  "note_logged = (\<lambda>(st, e). st\<lparr>tm_outbox := tm_outbox st @ [Ev_logged (te_id e) (te_minutes e)]\<rparr>)"

definition log_on_ticket ::
    "time_reads \<Rightarrow> principal \<Rightarrow> string \<Rightarrow> ticket \<Rightarrow> contract_row \<Rightarrow> log_dto \<Rightarrow> string \<Rightarrow> ms \<Rightarrow> time_store \<Rightarrow> time_error + time_store" where
  "log_on_ticket r p name t c dto i now st =
     (if tk_state t = ''closed'' \<or> tk_state t = ''cancelled'' then Inl Ticket_closed
      else and_then (insert_entry r p name
          \<lparr>tg_account = tk_account t, tg_contract = c, tg_ticket = Some (tk_id t), tg_bucket = None\<rparr> dto i now st)
        (\<lambda>w. Inr (note_logged w)))"

definition log_on_bucket ::
    "time_reads \<Rightarrow> principal \<Rightarrow> string \<Rightarrow> string \<Rightarrow> bucket_row option \<Rightarrow> (string \<Rightarrow> contract_row) \<Rightarrow> contract_row list \<Rightarrow>
     log_dto \<Rightarrow> string \<Rightarrow> ms \<Rightarrow> time_store \<Rightarrow> time_error + time_store" where
  "log_on_bucket r p name account bucket contract_by_id active dto i now st =
     (case bucket of
        None \<Rightarrow> Inl No_such_row
      | Some b \<Rightarrow>
          if bk_account b \<noteq> account then Inl No_such_row
          else if bk_status b \<noteq> Bucket_active then Inl Retired_bucket
          else
            (case (case bk_contract b of Some c \<Rightarrow> Some (contract_by_id c)
                   | None \<Rightarrow> (case active of [] \<Rightarrow> None | c # _ \<Rightarrow> Some c)) of
               None \<Rightarrow> Inl No_active_contract
             | Some c \<Rightarrow>
                 and_then (insert_entry r p name
                     \<lparr>tg_account = bk_account b, tg_contract = c, tg_ticket = None, tg_bucket = Some (bk_id b)\<rparr>
                     (dto\<lparr>lg_class := (case lg_class dto of Some k \<Rightarrow> Some k | None \<Rightarrow> Some (bk_class b))\<rparr>) i now st)
                   (\<lambda>w. Inr (note_logged w))))"

subsection \<open>Adjusting\<close>

record adjust_dto =
  aj_entry :: string
  aj_delta :: int
  aj_kind :: adjustment_kind
  aj_class :: "string option"
  aj_reason :: string

definition adjustment_day :: "time_store \<Rightarrow> time_entry \<Rightarrow> ms \<Rightarrow> ymd" where
  "adjustment_day st e now =
     (if open_for_entries (billing_period_for st (te_account e) (te_performed e)) then te_performed e else iso_day_of now)"

definition adjust ::
    "time_reads \<Rightarrow> principal \<Rightarrow> (string \<Rightarrow> contract_row) \<Rightarrow> adjust_dto \<Rightarrow> string \<Rightarrow> ms \<Rightarrow> time_store \<Rightarrow> time_error + time_store" where
  "adjust r p contract_by_id dto i now st =
     (case entry_by_id st (aj_entry dto) of
        None \<Rightarrow> Inl No_such_row
      | Some e \<Rightarrow>
          let day = adjustment_day st e now;
              today_period = billing_period_for st (te_account e) day;
              a = \<lparr>ad_id = i, ad_account = te_account e, ad_entry = te_id e, ad_contract = te_contract e, ad_performed = day,
                   ad_delta = aj_delta dto, ad_kind = aj_kind dto, ad_class = aj_class dto, ad_reason = aj_reason dto,
                   ad_created_by = pr_user p, ad_created = now\<rparr>;
              st' = st\<lparr>tm_adjustments := tm_adjustments st @ [a],
                       tm_audit := tm_audit st @ [Ev_adjusted i (aj_delta dto) (aj_kind dto)]\<rparr>
          in if (case aj_class dto of None \<Rightarrow> False | Some k \<Rightarrow> \<not> known_class (tr_classes r) k)
             then Inl (Unknown_billable_class (case aj_class dto of None \<Rightarrow> [] | Some k \<Rightarrow> k))
             else if aj_kind dto = Reclass \<and> aj_class dto = None then Inl New_class_required
             else if adjusted_minutes st e + aj_delta dto < 0 then Inl (Adjustment_below_zero (adjusted_minutes st e))
             else if \<not> open_for_entries today_period then Inl (Billing_period_locked (status_of today_period))
             else if i \<in> set (map ad_id (tm_adjustments st)) \<or> aj_delta dto = 0 then Inl Database_refused
             else Inr (case period_for st (te_contract e) (te_performed e) of
                 None \<Rightarrow> st'
               | Some q \<Rightarrow> snd (evaluate_thresholds (contract_by_id (te_contract e)) q
                   (consumed_in st' (te_contract e) (kp_starts q) (kp_ends q) (tr_classes r)) (period_available q) st')))"

subsection \<open>Reports on one person and one account\<close>

definition total_of_ticket :: "time_store \<Rightarrow> string \<Rightarrow> int" where
  "total_of_ticket st ticket =
     sum_list (map (adjusted_minutes st) (filter (\<lambda>e. te_ticket e = Some ticket) (tm_entries st)))"

text \<open>The minutes logged per day, adjusted, that the unlogged figures of a week start from.\<close>

definition logged_by_day :: "time_store \<Rightarrow> time_entry list \<Rightarrow> (ymd \<times> rat) list" where
  "logged_by_day st es =
     foldl (\<lambda>m e. map_adjust (te_performed e) 0 (\<lambda>n. n + of_int (adjusted_minutes st e)) m) [] es"

definition unlogged_days ::
    "time_store \<Rightarrow> ymd \<Rightarrow> ymd \<Rightarrow> person_calendar option \<Rightarrow> ymd list \<Rightarrow> time_entry list \<Rightarrow> unlogged_day list" where
  "unlogged_days st f t cal holidays es = unlogged_by_day f t cal holidays (logged_by_day st es)"

record comp_row =
  cr_person :: string
  cr_name :: string
  cr_minutes :: int
  cr_entries :: nat

definition comp_time_entries :: "(string \<Rightarrow> contract_row) \<Rightarrow> time_store \<Rightarrow> string \<Rightarrow> ymd \<Rightarrow> ymd \<Rightarrow> time_entry list" where
  "comp_time_entries contract_by_id st account f t =
     sort_key te_performed (sort_key te_created (filter (\<lambda>e. te_account e = account \<and> within_days f t (te_performed e) \<and>
       te_after_class e \<noteq> Standard \<and> te_multiplier e = 1 \<and>
       co_handling (contract_by_id (te_contract e)) = Comp_time) (tm_entries st)))"

definition comp_add :: "comp_row js_map \<Rightarrow> time_entry \<Rightarrow> comp_row js_map" where
  "comp_add m e =
     map_adjust (te_person e) \<lparr>cr_person = te_person e, cr_name = te_person_name e, cr_minutes = 0, cr_entries = 0\<rparr>
       (\<lambda>row. row\<lparr>cr_minutes := cr_minutes row + te_minutes e, cr_entries := cr_entries row + 1\<rparr>) m"

definition comp_time :: "(string \<Rightarrow> contract_row) \<Rightarrow> time_store \<Rightarrow> string \<Rightarrow> ymd \<Rightarrow> ymd \<Rightarrow> int \<times> comp_row list" where
  "comp_time contract_by_id st account f t =
     (let es = comp_time_entries contract_by_id st account f t
      in (sum_list (map te_minutes es), sort_key (\<lambda>row. - cr_minutes row) (map snd (foldl comp_add [] es))))"

text \<open>The next threshold of the budget card, and the minutes it stands for.\<close>

definition next_threshold :: "contract_row \<Rightarrow> period_row \<Rightarrow> int \<Rightarrow> (rat \<times> int) option" where
  "next_threshold c p avail =
     (case sort (filter (\<lambda>x. x \<notin> set (kp_fired p)) (co_percents c)) of
        [] \<Rightarrow> None
      | x # _ \<Rightarrow> Some (x, js_round (of_int avail * x / 100)))"

subsection \<open>Buckets, contract periods and rate cards\<close>

definition internal_class_of :: "class_spec list \<Rightarrow> string" where
  "internal_class_of classes =
     (case find (\<lambda>s. \<not> cs_consumes s) classes of
        Some s \<Rightarrow> cs_key s
      | None \<Rightarrow> (case classes of [] \<Rightarrow> ''non_billable'' | s # _ \<Rightarrow> cs_key s))"

record bucket_dto =
  bd_label :: string
  bd_code :: "string option"
  bd_class :: "string option"
  bd_contract :: "string option"

definition create_bucket ::
    "class_spec list \<Rightarrow> (string \<Rightarrow> contract_row option) \<Rightarrow> string \<Rightarrow> bucket_dto \<Rightarrow> string \<Rightarrow> time_error + bucket_row" where
  "create_bucket classes contract_by_id account dto i =
     (let cls = (case bd_class dto of Some c \<Rightarrow> c | None \<Rightarrow> internal_class_of classes)
      in if \<not> known_class classes cls then Inl (Unknown_billable_class cls)
         else if (case bd_contract dto of None \<Rightarrow> False
             | Some c \<Rightarrow> (case contract_by_id c of None \<Rightarrow> True | Some k \<Rightarrow> co_account k \<noteq> account))
         then Inl No_such_row
         else Inr \<lparr>bk_id = i, bk_account = account, bk_label = bd_label dto,
           bk_code = (case bd_code dto of None \<Rightarrow> ''custom'' | Some c \<Rightarrow> c), bk_class = cls, bk_contract = bd_contract dto,
           bk_status = Bucket_active, bk_version = 1\<rparr>)"

record bucket_patch =
  bq_version :: int
  bq_label :: "string option"
  bq_code :: "string option"
  bq_class :: "string option"
  bq_status :: "bucket_status option"

definition patch_bucket :: "class_spec list \<Rightarrow> string \<Rightarrow> bucket_patch \<Rightarrow> bucket_row \<Rightarrow> time_error + bucket_row" where
  "patch_bucket classes account dto b =
     (if bk_account b \<noteq> account then Inl No_such_row
      else if (case bq_class dto of None \<Rightarrow> False | Some c \<Rightarrow> c \<noteq> [] \<and> \<not> known_class classes c)
      then Inl (Unknown_billable_class (case bq_class dto of None \<Rightarrow> [] | Some c \<Rightarrow> c))
      else if bq_label dto = None \<and> bq_code dto = None \<and> bq_class dto = None \<and> bq_status dto = None then Inr b
      else if bk_version b \<noteq> bq_version dto then Inl (Stale_billing (bk_version b))
      else Inr (b\<lparr>bk_label := (case bq_label dto of None \<Rightarrow> bk_label b | Some x \<Rightarrow> x),
                  bk_code := (case bq_code dto of None \<Rightarrow> bk_code b | Some x \<Rightarrow> x),
                  bk_class := (case bq_class dto of None \<Rightarrow> bk_class b | Some x \<Rightarrow> x),
                  bk_status := (case bq_status dto of None \<Rightarrow> bk_status b | Some x \<Rightarrow> x),
                  bk_version := bk_version b + 1\<rparr>))"

definition previous_row :: "time_store \<Rightarrow> string \<Rightarrow> ymd \<Rightarrow> period_row option" where
  "previous_row st contract starts =
     latest_by kp_ends None (filter (\<lambda>p. kp_contract p = contract \<and> kp_ends p < starts) (tm_periods st))"

record period_dto =
  pd_starts :: ymd
  pd_ends :: ymd
  pd_contracted :: int
  pd_carried :: "int option"

definition carried_for :: "class_spec list \<Rightarrow> contract_row \<Rightarrow> period_dto \<Rightarrow> time_store \<Rightarrow> int" where
  "carried_for classes c dto st =
     (case pd_carried dto of
        Some n \<Rightarrow> n
      | None \<Rightarrow> carry_over (co_rollover c) (co_rollover_cap c)
          (map_option (\<lambda>p. \<lparr>pp_starts = kp_starts p, pp_ends = kp_ends p, pp_contracted = kp_contracted p,
             pp_carried = kp_carried p, pp_consumed = consumed_in st (co_id c) (kp_starts p) (kp_ends p) classes\<rparr>)
            (previous_row st (co_id c) (pd_starts dto)))
          (pd_starts dto))"

definition overlap_days :: "ymd \<Rightarrow> ymd \<Rightarrow> ymd \<Rightarrow> ymd \<Rightarrow> bool" where
  "overlap_days f t f' t' \<longleftrightarrow> f \<le> t' \<and> f' \<le> t"

definition create_period ::
    "class_spec list \<Rightarrow> contract_row \<Rightarrow> string \<Rightarrow> period_dto \<Rightarrow> string \<Rightarrow> time_store \<Rightarrow> time_error + time_store" where
  "create_period classes c account dto i st =
     (if co_account c \<noteq> account then Inl No_such_row
      else if i \<in> set (map kp_id (tm_periods st)) \<or> pd_ends dto < pd_starts dto \<or>
          (\<exists>p\<in>set (tm_periods st). kp_contract p = co_id c \<and> overlap_days (kp_starts p) (kp_ends p) (pd_starts dto) (pd_ends dto))
      then Inl Database_refused
      else Inr (st\<lparr>tm_periods := tm_periods st @ [\<lparr>kp_id = i, kp_contract = co_id c, kp_starts = pd_starts dto, kp_ends = pd_ends dto,
        kp_contracted = pd_contracted dto, kp_carried = carried_for classes c dto st, kp_locked = False, kp_fired = []\<rparr>]\<rparr>))"

text \<open>A rate card version: no role twice on it, no second one of the same scope and day.\<close>

definition create_rate_card :: "rate_card \<Rightarrow> rate_card list \<Rightarrow> time_error + rate_card list" where
  "create_rate_card new_card cards =
     (let roles = map re_role (rc_entries new_card)
      in if length (uniq roles) \<noteq> length roles then Inl Duplicate_role
         else if \<exists>c\<in>set cards. rc_contract c = rc_contract new_card \<and> rc_from c = rc_from new_card then Inl Rate_card_exists
         else Inr (cards @ [new_card]))"

subsection \<open>Billing periods\<close>

text \<open>What the finance file needs from other tables, fixed while the lines are read, and the zone-free date text.\<close>

record finance_names =
  fnm_account :: "string \<Rightarrow> string"
  fnm_contract :: "string \<Rightarrow> string"
  fnm_currency :: "string \<Rightarrow> string"
  fnm_role :: "string \<Rightarrow> string option"
  fnm_ticket :: "string \<Rightarrow> string"

fun pad_digits :: "nat \<Rightarrow> int \<Rightarrow> string" where
  "pad_digits 0 n = []"
| "pad_digits (Suc k) n = pad_digits k (n div 10) @ [char_of (nat (48 + n mod 10))]"

definition iso_text :: "ymd \<Rightarrow> string" where
  "iso_text d = pad_digits 4 (yr d) @ ''-'' @ pad_digits 2 (mon d) @ ''-'' @ pad_digits 2 (mday d)"

fun class_text :: "after_hours_class \<Rightarrow> string" where
  "class_text Standard = ''standard''"
| "class_text After_hours = ''after_hours''"
| "class_text Weekend = ''weekend''"
| "class_text Holiday = ''holiday''"

definition entry_line :: "finance_names \<Rightarrow> time_entry \<Rightarrow> finance_line" where
  "entry_line fnm e =
     \<lparr>fl_entry = True, fl_id = te_id e, fl_entry_id = te_id e, fl_account = fnm_account fnm (te_account e),
      fl_contract = fnm_contract fnm (te_contract e), fl_person_id = te_person e, fl_person = te_person_name e,
      fl_role = fnm_role fnm (te_person e), fl_performed = iso_text (te_performed e), fl_minutes = te_minutes e,
      fl_activity = te_activity e, fl_class = te_class e, fl_rate = te_rate e, fl_multiplier = te_multiplier e,
      fl_currency = fnm_currency fnm (te_contract e), fl_ticket = map_option (fnm_ticket fnm) (te_ticket e),
      fl_after_hours = class_text (te_after_class e), fl_reason = None\<rparr>"

definition adjustment_line :: "finance_names \<Rightarrow> time_adjustment \<Rightarrow> time_entry \<Rightarrow> finance_line" where
  "adjustment_line fnm a e =
     (entry_line fnm e)\<lparr>fl_entry := False, fl_id := ad_id a, fl_account := fnm_account fnm (ad_account a),
       fl_contract := fnm_contract fnm (ad_contract a), fl_performed := iso_text (ad_performed a), fl_minutes := ad_delta a,
       fl_class := adjustment_class a e, fl_currency := fnm_currency fnm (ad_contract a), fl_reason := Some (ad_reason a)\<rparr>"

definition dated_entries :: "finance_names \<Rightarrow> time_store \<Rightarrow> string \<Rightarrow> ymd \<Rightarrow> ymd \<Rightarrow> (ymd \<times> ms \<times> finance_line) list" where
  "dated_entries fnm st account f t =
     map (\<lambda>e. (te_performed e, te_created e, entry_line fnm e))
       (filter (\<lambda>e. te_account e = account \<and> within_days f t (te_performed e)) (tm_entries st))"

definition dated_adjustments :: "finance_names \<Rightarrow> time_store \<Rightarrow> string \<Rightarrow> ymd \<Rightarrow> ymd \<Rightarrow> (ymd \<times> ms \<times> finance_line) list" where
  "dated_adjustments fnm st account f t =
     List.map_filter
       (\<lambda>a. if ad_account a = account \<and> within_days f t (ad_performed a)
         then map_option (\<lambda>e. (ad_performed a, ad_created a, adjustment_line fnm a e)) (entry_by_id st (ad_entry a))
         else None)
       (tm_adjustments st)"

definition finance_lines :: "finance_names \<Rightarrow> time_store \<Rightarrow> string \<Rightarrow> ymd \<Rightarrow> ymd \<Rightarrow> finance_line list" where
  "finance_lines fnm st account f t =
     map (snd \<circ> snd) (sort_key fst (sort_key (fst \<circ> snd) (dated_entries fnm st account f t @ dated_adjustments fnm st account f t)))"

definition create_billing_period :: "string \<Rightarrow> ymd \<Rightarrow> ymd \<Rightarrow> string \<Rightarrow> time_store \<Rightarrow> time_error + time_store" where
  "create_billing_period account f t i st =
     (if i \<in> set (map bp_id (tm_billing st)) \<or> t < f \<or>
         (\<exists>b\<in>set (tm_billing st). bp_account b = account \<and> overlap_days (bp_starts b) (bp_ends b) f t)
      then Inl Database_refused
      else Inr (st\<lparr>tm_billing := tm_billing st @ [\<lparr>bp_id = i, bp_account = account, bp_starts = f, bp_ends = t,
          bp_status = Open_period, bp_submitted = None, bp_approved = None, bp_locked = None, bp_auto_lock = None,
          bp_summary = None, bp_checksum = None, bp_version = 1\<rparr>],
        tm_audit := tm_audit st @ [Ev_billing_created i]\<rparr>))"

definition lines_of :: "finance_names \<Rightarrow> time_store \<Rightarrow> billing_row \<Rightarrow> finance_line list" where
  "lines_of fnm st b = finance_lines fnm st (bp_account b) (bp_starts b) (bp_ends b)"

text \<open>The columns one action assigns; reopen and mark-exported move the status alone.\<close>

definition assign_action ::
    "finance_names \<Rightarrow> time_store \<Rightarrow> string \<Rightarrow> ms \<Rightarrow> billing_action \<Rightarrow> billing_state \<Rightarrow> billing_row \<Rightarrow> billing_row" where
  "assign_action fnm st user now a to b =
     (let b = b\<lparr>bp_status := to\<rparr>
      in case a of
           Submit \<Rightarrow> b\<lparr>bp_submitted := Some (now, user), bp_summary := Some (period_summary (lines_of fnm st b))\<rparr>
         | Approve \<Rightarrow> b\<lparr>bp_approved := Some (now, user), bp_auto_lock := Some (now + 5 * 86400000)\<rparr>
         | Lock \<Rightarrow> b\<lparr>bp_locked := Some (now, user), bp_summary := Some (period_summary (lines_of fnm st b))\<rparr>
         | _ \<Rightarrow> b)"

definition put_billing :: "billing_row \<Rightarrow> time_store \<Rightarrow> time_store" where
  "put_billing b st = st\<lparr>tm_billing := map (\<lambda>x. if bp_id x = bp_id b then b else x) (tm_billing st)\<rparr>"

definition transition_billing_period ::
    "finance_names \<Rightarrow> principal \<Rightarrow> string \<Rightarrow> string \<Rightarrow> billing_action \<Rightarrow> int \<Rightarrow> ms \<Rightarrow> time_store \<Rightarrow> time_error + time_store" where
  "transition_billing_period fnm p account i a version now st =
     (case billing_period st i of
        None \<Rightarrow> Inl No_such_row
      | Some before \<Rightarrow>
          if bp_account before \<noteq> account then Inl No_such_row
          else
            (case billing_transition (bp_status before) a of
               Inl allowed \<Rightarrow> Inl (Invalid_billing_step (bp_status before) allowed)
             | Inr to \<Rightarrow>
                 if bp_version before \<noteq> version then Inl (Stale_billing (bp_version before))
                 else
                   let b = (assign_action fnm st (pr_user p) now a to before)\<lparr>bp_version := bp_version before + 1\<rparr>;
                       st' = put_billing b st;
                       st'' = st'\<lparr>tm_audit := tm_audit st' @ [Ev_billing_status i (bp_status before) (bp_status b)]\<rparr>
                   in Inr (if a = Lock then st''\<lparr>tm_outbox := tm_outbox st'' @ [Ev_billing_locked i (bp_summary b)]\<rparr> else st'')))"

text \<open>The finance file: the rows of the lines, their checksum on the period, and the summary refreshed from the same lines.\<close>

definition label_of :: "billing_row \<Rightarrow> string" where
  "label_of b = take 7 (iso_text (bp_starts b))"

definition produce_finance_file ::
    "finance_names \<Rightarrow> (cell list list \<Rightarrow> string) \<Rightarrow> billing_row \<Rightarrow> time_store \<Rightarrow> time_store \<times> cell list list \<times> string" where
  "produce_finance_file fnm checksum_of b st =
     (let ls = lines_of fnm st b;
          rows = finance_rows ls (label_of b);
          sum = checksum_of rows
      in (put_billing (b\<lparr>bp_checksum := Some sum, bp_summary := Some (period_summary ls), bp_version := bp_version b + 1\<rparr>) st, rows, sum))"

definition export_billing_period ::
    "finance_names \<Rightarrow> (cell list list \<Rightarrow> string) \<Rightarrow> string \<Rightarrow> string \<Rightarrow> time_store \<Rightarrow> time_error + time_store \<times> cell list list" where
  "export_billing_period fnm checksum_of account i st =
     (case billing_period st i of
        None \<Rightarrow> Inl No_such_row
      | Some b \<Rightarrow>
          if bp_account b \<noteq> account then Inl No_such_row
          else if bp_status b \<noteq> Locked \<and> bp_status b \<noteq> Exported then Inl (Period_not_locked (bp_status b))
          else
            let (st', rows, sum) = produce_finance_file fnm checksum_of b st
            in Inr (st'\<lparr>tm_audit := tm_audit st' @ [Ev_exported i (length rows) sum]\<rparr>, rows))"

end
