(* ===== verification/Time_Life.thy ===== *)
theory Time_Life
  imports Time_Service
begin

section \<open>Histories of time writes\<close>

text \<open>
  The rows of \<open>Time_Service\<close> under any sequence of accepted writes: a step relation over the service's
  own operations, the invariant its steps keep, and the properties read off it. The lemmas first say
  what each helper leaves unchanged, then what an accepted write was checked against.
\<close>

subsection \<open>What the helpers leave unchanged\<close>

lemma finance_lines_cong:
  assumes "tm_entries st' = tm_entries st" "tm_adjustments st' = tm_adjustments st"
  shows "finance_lines fnm st' account f t = finance_lines fnm st account f t"
proof -
  have "entry_by_id st' = entry_by_id st" using assms(1) by (simp add: entry_by_id_def [abs_def])
  then show ?thesis by (simp add: finance_lines_def dated_entries_def dated_adjustments_def assms cong: if_cong)
qed

lemma lines_of_cong:
  assumes "tm_entries st' = tm_entries st" "tm_adjustments st' = tm_adjustments st"
    "bp_account b' = bp_account b" "bp_starts b' = bp_starts b" "bp_ends b' = bp_ends b"
  shows "lines_of fnm st' b' = lines_of fnm st b"
  using finance_lines_cong [OF assms(1,2)] assms(3-5) by (simp add: lines_of_def)

lemma fire_threshold_frame [frame_simps]:
  "tm_entries (snd (fire_threshold q x st)) = tm_entries st"
  "tm_adjustments (snd (fire_threshold q x st)) = tm_adjustments st"
  "tm_billing (snd (fire_threshold q x st)) = tm_billing st"
  by (simp_all add: fire_threshold_def)

lemma fire_each_frame:
  "tm_entries (snd (fire_each q n m xs (fired, st))) = tm_entries st \<and>
   tm_adjustments (snd (fire_each q n m xs (fired, st))) = tm_adjustments st \<and>
   tm_billing (snd (fire_each q n m xs (fired, st))) = tm_billing st"
proof (induction xs arbitrary: fired st)
  case (Cons x xs)
  obtain b st' where *: "fire_threshold q x st = (b, st')" by force
  have "tm_entries st' = tm_entries st" "tm_adjustments st' = tm_adjustments st" "tm_billing st' = tm_billing st"
    using fire_threshold_frame [of q x st] * by simp_all
  then show ?case using Cons by (simp add: * split: bool.split)
qed simp

lemma evaluate_frame [frame_simps]:
  "tm_entries (snd (evaluate_thresholds c q n m st)) = tm_entries st"
  "tm_adjustments (snd (evaluate_thresholds c q n m st)) = tm_adjustments st"
  "tm_billing (snd (evaluate_thresholds c q n m st)) = tm_billing st"
  using fire_each_frame [of "kp_id q" n m _ "[]" st]
  by (auto simp: evaluate_thresholds_def Let_def split: prod.split) (metis snd_conv)+

lemma note_logged_frame [frame_simps]:
  "tm_entries (note_logged w) = tm_entries (fst w)" "tm_adjustments (note_logged w) = tm_adjustments (fst w)"
  "tm_billing (note_logged w) = tm_billing (fst w)" "tm_periods (note_logged w) = tm_periods (fst w)"
  "tm_alerts (note_logged w) = tm_alerts (fst w)"
  by (simp_all add: note_logged_def split: prod.split)

subsection \<open>What an accepted write was checked against\<close>

lemma insert_entry_success:
  assumes "insert_entry r p name target dto i now st = Inr (st', e)"
  obtains of_activity cls c period billing used d where
    "map_of (tr_activities r) (lg_activity dto) = Some of_activity" "cls = entry_class dto of_activity"
    "c = tg_contract target" "period = period_for st (co_id c) (lg_performed dto)"
    "billing = billing_period_for st (tg_account target) (lg_performed dto)"
    "used = used_before r st period c cls" "d = entry_overage r period c cls used (lg_minutes dto)"
    "e = new_entry r p name target dto cls d i now"
    "known_class (tr_classes r) cls"
    "lg_person dto = None \<or> lg_person dto = Some (pr_user p) \<or> ''time:adjust'' \<in> set (pr_permissions p)"
    "lg_performed dto \<le> iso_day_of now" "\<forall>q. period = Some q \<longrightarrow> \<not> kp_locked q" "open_for_entries billing" "\<not> od_blocked d"
    "i \<notin> set (map te_id (tm_entries st))" "0 < lg_minutes dto" "lg_minutes dto \<le> 1440"
    "tm_entries st' = tm_entries st @ [e]" "tm_adjustments st' = tm_adjustments st" "tm_billing st' = tm_billing st"
    "st' = (case period of
        Some q \<Rightarrow> if class_consumes (tr_classes r) cls
          then snd (evaluate_thresholds c q (used + lg_minutes dto) (period_available q)
            (st\<lparr>tm_entries := tm_entries st @ [e], tm_audit := tm_audit st @ [Ev_entry_created i]\<rparr>))
          else st\<lparr>tm_entries := tm_entries st @ [e], tm_audit := tm_audit st @ [Ev_entry_created i]\<rparr>
      | None \<Rightarrow> st\<lparr>tm_entries := tm_entries st @ [e], tm_audit := tm_audit st @ [Ev_entry_created i]\<rparr>)"
proof -
  obtain of_activity where a: "map_of (tr_activities r) (lg_activity dto) = Some of_activity"
    using assms by (auto simp: insert_entry_def split: option.splits)
  define cls where "cls = entry_class dto of_activity"
  define c where "c = tg_contract target"
  define period where "period = period_for st (co_id c) (lg_performed dto)"
  define billing where "billing = billing_period_for st (tg_account target) (lg_performed dto)"
  define used where "used = used_before r st period c cls"
  define d where "d = entry_overage r period c cls used (lg_minutes dto)"
  define x where "x = new_entry r p name target dto cls d i now"
  note unfolded = assms [unfolded insert_entry_def a option.case Let_def, folded cls_def, folded c_def,
      folded period_def billing_def, folded used_def, folded d_def, folded x_def]
  have checks: "known_class (tr_classes r) cls"
    "lg_person dto = None \<or> lg_person dto = Some (pr_user p) \<or> ''time:adjust'' \<in> set (pr_permissions p)"
    "lg_performed dto \<le> iso_day_of now" "\<forall>q. period = Some q \<longrightarrow> \<not> kp_locked q" "open_for_entries billing" "\<not> od_blocked d"
    "i \<notin> set (map te_id (tm_entries st))" "0 < lg_minutes dto" "lg_minutes dto \<le> 1440"
    using unfolded by (auto split: if_splits option.splits)
  have "x = e" using unfolded by (auto split: if_splits option.splits)
  then have e: "e = new_entry r p name target dto cls d i now" by (simp add: x_def)
  have st': "st' = (case period of
        Some q \<Rightarrow> if class_consumes (tr_classes r) cls
          then snd (evaluate_thresholds c q (used + lg_minutes dto) (period_available q)
            (st\<lparr>tm_entries := tm_entries st @ [e], tm_audit := tm_audit st @ [Ev_entry_created i]\<rparr>))
          else st\<lparr>tm_entries := tm_entries st @ [e], tm_audit := tm_audit st @ [Ev_entry_created i]\<rparr>
      | None \<Rightarrow> st\<lparr>tm_entries := tm_entries st @ [e], tm_audit := tm_audit st @ [Ev_entry_created i]\<rparr>)"
    using unfolded by (auto split: if_splits option.splits)
  have "tm_entries st' = tm_entries st @ [e]" "tm_adjustments st' = tm_adjustments st" "tm_billing st' = tm_billing st"
    unfolding st' by (simp_all add: frame_simps split: option.split)
  then show thesis
    using that [OF a cls_def c_def period_def billing_def used_def d_def e checks _ _ _ st'] by blast
qed

lemma adjust_success:
  assumes "adjust r p contract_by_id dto i now st = Inr st'"
  obtains e day a where
    "entry_by_id st (aj_entry dto) = Some e" "day = adjustment_day st e now"
    "a = \<lparr>ad_id = i, ad_account = te_account e, ad_entry = te_id e, ad_contract = te_contract e, ad_performed = day,
       ad_delta = aj_delta dto, ad_kind = aj_kind dto, ad_class = aj_class dto, ad_reason = aj_reason dto,
       ad_created_by = pr_user p, ad_created = now\<rparr>"
    "0 \<le> adjusted_minutes st e + aj_delta dto" "open_for_entries (billing_period_for st (te_account e) day)"
    "aj_kind dto = Reclass \<longrightarrow> aj_class dto \<noteq> None" "\<forall>k. aj_class dto = Some k \<longrightarrow> known_class (tr_classes r) k"
    "i \<notin> set (map ad_id (tm_adjustments st))" "aj_delta dto \<noteq> 0"
    "tm_entries st' = tm_entries st" "tm_adjustments st' = tm_adjustments st @ [a]" "tm_billing st' = tm_billing st"
    "st' = (case period_for st (te_contract e) (te_performed e) of
        None \<Rightarrow> st\<lparr>tm_adjustments := tm_adjustments st @ [a], tm_audit := tm_audit st @ [Ev_adjusted i (aj_delta dto) (aj_kind dto)]\<rparr>
      | Some q \<Rightarrow> snd (evaluate_thresholds (contract_by_id (te_contract e)) q
          (consumed_in (st\<lparr>tm_adjustments := tm_adjustments st @ [a], tm_audit := tm_audit st @ [Ev_adjusted i (aj_delta dto) (aj_kind dto)]\<rparr>)
            (te_contract e) (kp_starts q) (kp_ends q) (tr_classes r)) (period_available q)
          (st\<lparr>tm_adjustments := tm_adjustments st @ [a], tm_audit := tm_audit st @ [Ev_adjusted i (aj_delta dto) (aj_kind dto)]\<rparr>)))"
proof -
  obtain e where e: "entry_by_id st (aj_entry dto) = Some e"
    using assms by (auto simp: adjust_def split: option.splits)
  define day where "day = adjustment_day st e now"
  define a where "a = \<lparr>ad_id = i, ad_account = te_account e, ad_entry = te_id e, ad_contract = te_contract e, ad_performed = day,
       ad_delta = aj_delta dto, ad_kind = aj_kind dto, ad_class = aj_class dto, ad_reason = aj_reason dto,
       ad_created_by = pr_user p, ad_created = now\<rparr>"
  define mid where "mid = st\<lparr>tm_adjustments := tm_adjustments st @ [a], tm_audit := tm_audit st @ [Ev_adjusted i (aj_delta dto) (aj_kind dto)]\<rparr>"
  note unfolded = assms [unfolded adjust_def e option.case Let_def, folded day_def, folded a_def, folded mid_def]
  have checks: "0 \<le> adjusted_minutes st e + aj_delta dto" "open_for_entries (billing_period_for st (te_account e) day)"
    "aj_kind dto = Reclass \<longrightarrow> aj_class dto \<noteq> None" "\<forall>k. aj_class dto = Some k \<longrightarrow> known_class (tr_classes r) k"
    "i \<notin> set (map ad_id (tm_adjustments st))" "aj_delta dto \<noteq> 0"
    using unfolded by (auto split: if_splits)
  have st': "st' = (case period_for st (te_contract e) (te_performed e) of
        None \<Rightarrow> mid
      | Some q \<Rightarrow> snd (evaluate_thresholds (contract_by_id (te_contract e)) q
          (consumed_in mid (te_contract e) (kp_starts q) (kp_ends q) (tr_classes r)) (period_available q) mid))"
    using unfolded by (auto split: if_splits option.splits)
  have "tm_entries st' = tm_entries st" "tm_adjustments st' = tm_adjustments st @ [a]" "tm_billing st' = tm_billing st"
    unfolding st' by (simp_all add: frame_simps mid_def split: option.split)
  then show thesis
    by (rule that [OF e day_def a_def checks _ _ _ st' [unfolded mid_def]])
qed

text \<open>The same, read off the row it appends.\<close>

lemma adjust_writes:
  assumes "adjust r p contract_by_id dto i now st = Inr st'"
  obtains e a where
    "entry_by_id st (aj_entry dto) = Some e" "ad_id a = i" "ad_account a = te_account e" "ad_entry a = te_id e"
    "ad_contract a = te_contract e" "ad_performed a = adjustment_day st e now" "ad_delta a = aj_delta dto"
    "ad_class a = aj_class dto" "ad_id a \<notin> set (map ad_id (tm_adjustments st))"
    "0 \<le> adjusted_minutes st e + ad_delta a" "open_for_entries (billing_period_for st (te_account e) (ad_performed a))"
    "tm_entries st' = tm_entries st" "tm_adjustments st' = tm_adjustments st @ [a]" "tm_billing st' = tm_billing st"
proof -
  obtain e day a where *: "entry_by_id st (aj_entry dto) = Some e" "day = adjustment_day st e now"
    "a = \<lparr>ad_id = i, ad_account = te_account e, ad_entry = te_id e, ad_contract = te_contract e, ad_performed = day,
       ad_delta = aj_delta dto, ad_kind = aj_kind dto, ad_class = aj_class dto, ad_reason = aj_reason dto,
       ad_created_by = pr_user p, ad_created = now\<rparr>"
    "0 \<le> adjusted_minutes st e + aj_delta dto" "open_for_entries (billing_period_for st (te_account e) day)"
    "i \<notin> set (map ad_id (tm_adjustments st))"
    "tm_entries st' = tm_entries st" "tm_adjustments st' = tm_adjustments st @ [a]" "tm_billing st' = tm_billing st"
    by (rule adjust_success [OF assms]) blast
  show thesis by (rule that [of e a]) (insert *, simp_all)
qed

lemma transition_billing_success:
  assumes "transition_billing_period fnm p account i a version now st = Inr st'"
  obtains before to b where
    "billing_period st i = Some before" "bp_account before = account" "billing_transition (bp_status before) a = Inr to"
    "bp_version before = version"
    "b = (assign_action fnm st (pr_user p) now a to before)\<lparr>bp_version := bp_version before + 1\<rparr>"
    "tm_billing st' = map (\<lambda>x. if bp_id x = bp_id b then b else x) (tm_billing st)"
    "tm_entries st' = tm_entries st" "tm_adjustments st' = tm_adjustments st" "tm_periods st' = tm_periods st"
    "tm_alerts st' = tm_alerts st"
    "tm_outbox st' = tm_outbox st @ (if a = Lock then [Ev_billing_locked i (bp_summary b)] else [])"
proof -
  obtain before to where *: "billing_period st i = Some before" "bp_account before = account"
      "billing_transition (bp_status before) a = Inr to" "bp_version before = version"
    using assms by (auto simp: transition_billing_period_def split: option.splits if_splits sum.splits)
  then show thesis
    using assms by (intro that [of before to, OF *])
      (auto simp: transition_billing_period_def Let_def put_billing_def)
qed

lemma export_success:
  assumes "export_billing_period fnm checksum_of account i st = Inr (st', rows)"
  obtains b where
    "billing_period st i = Some b" "bp_account b = account" "bp_status b = Locked \<or> bp_status b = Exported"
    "rows = finance_rows (lines_of fnm st b) (label_of b)"
    "tm_billing st' = map (\<lambda>x. if bp_id x = bp_id b then b\<lparr>bp_checksum := Some (checksum_of rows),
       bp_summary := Some (period_summary (lines_of fnm st b)), bp_version := bp_version b + 1\<rparr> else x) (tm_billing st)"
    "tm_entries st' = tm_entries st" "tm_adjustments st' = tm_adjustments st" "tm_periods st' = tm_periods st"
    "tm_alerts st' = tm_alerts st"
proof -
  obtain b where *: "billing_period st i = Some b" "bp_account b = account" "bp_status b = Locked \<or> bp_status b = Exported"
    using assms by (auto simp: export_billing_period_def split: option.splits if_splits)
  then show thesis
    using assms by (intro that [OF *])
      (auto simp: export_billing_period_def produce_finance_file_def Let_def put_billing_def)
qed

subsection \<open>Closed billing periods keep their lines\<close>

definition billing_apart :: "billing_row list \<Rightarrow> bool" where
  "billing_apart bs \<longleftrightarrow> distinct (map bp_id bs) \<and>
     (\<forall>b\<in>set bs. \<forall>c\<in>set bs. bp_account b = bp_account c \<and> overlap_days (bp_starts b) (bp_ends b) (bp_starts c) (bp_ends c) \<longrightarrow> b = c)"

definition closed_period :: "billing_row \<Rightarrow> bool" where
  "closed_period b \<longleftrightarrow> bp_status b \<noteq> Open_period \<and> bp_status b \<noteq> Submitted"

lemma closed_excludes:
  assumes "billing_apart (tm_billing st)" "b \<in> set (tm_billing st)" "closed_period b"
    "open_for_entries (billing_period_for st account d)"
  shows "\<not> (account = bp_account b \<and> within_days (bp_starts b) (bp_ends b) d)"
proof
  assume *: "account = bp_account b \<and> within_days (bp_starts b) (bp_ends b) d"
  with assms(2) obtain c where c: "billing_period_for st account d = Some c"
    unfolding billing_period_for_def by (cases "find (\<lambda>b. bp_account b = account \<and> within_days (bp_starts b) (bp_ends b) d) (tm_billing st)")
      (auto simp: find_None_iff)
  then have "c \<in> set (tm_billing st)" "bp_account c = account" "within_days (bp_starts c) (bp_ends c) d"
    by (auto simp: billing_period_for_def find_Some_iff)
  with * assms(1,2) have "c = b"
    unfolding billing_apart_def overlap_days_def within_days_def
    by (metis order_trans)
  with assms(3,4) c show False by (auto simp: closed_period_def open_for_entries_def)
qed

lemma find_append_list: "find P (xs @ ys) = (case find P xs of None \<Rightarrow> find P ys | Some x \<Rightarrow> Some x)"
  by (induction xs) auto

lemma map_filter_same: "(\<And>x. x \<in> set xs \<Longrightarrow> f x = g x) \<Longrightarrow> List.map_filter f xs = List.map_filter g xs"
  by (induction xs) (auto simp: map_filter_simps split: option.split)

lemma entry_by_id_append:
  "i \<in> set (map te_id (tm_entries st)) \<Longrightarrow> tm_entries st' = tm_entries st @ es \<Longrightarrow> entry_by_id st' i = entry_by_id st i"
  by (auto simp: entry_by_id_def find_append_list split: option.split) (auto simp: find_None_iff)

lemma dated_adjustments_entries:
  assumes "\<forall>a\<in>set (tm_adjustments st). ad_entry a \<in> set (map te_id (tm_entries st))"
    "tm_entries st' = tm_entries st @ es" "tm_adjustments st' = tm_adjustments st"
  shows "dated_adjustments fnm st' account f t = dated_adjustments fnm st account f t"
  unfolding dated_adjustments_def assms(3)
  using assms(1) by (intro map_filter_same) (simp add: entry_by_id_append [OF _ assms(2)] cong: if_cong)

lemma lines_after_entry:
  assumes "\<forall>a\<in>set (tm_adjustments st). ad_entry a \<in> set (map te_id (tm_entries st))"
    "tm_entries st' = tm_entries st @ [e]" "tm_adjustments st' = tm_adjustments st"
    "\<not> (te_account e = bp_account b \<and> within_days (bp_starts b) (bp_ends b) (te_performed e))"
  shows "lines_of fnm st' b = lines_of fnm st b"
  using assms(2,4) dated_adjustments_entries [OF assms(1-3)]
  by (auto simp: lines_of_def finance_lines_def dated_entries_def)

lemma lines_after_adjustment:
  assumes "tm_entries st' = tm_entries st" "tm_adjustments st' = tm_adjustments st @ [a]"
    "\<not> (ad_account a = bp_account b \<and> within_days (bp_starts b) (bp_ends b) (ad_performed a))"
  shows "lines_of fnm st' b = lines_of fnm st b"
proof -
  have "entry_by_id st' = entry_by_id st" using assms(1) by (simp add: entry_by_id_def [abs_def])
  then have "dated_adjustments fnm st' (bp_account b) (bp_starts b) (bp_ends b) =
      dated_adjustments fnm st (bp_account b) (bp_starts b) (bp_ends b)"
    using assms(2,3) by (auto simp: dated_adjustments_def map_filter_def)
  then show ?thesis using assms(1) by (simp add: lines_of_def finance_lines_def dated_entries_def)
qed

subsection \<open>The steps and their invariant\<close>

inductive time_step :: "finance_names \<Rightarrow> time_store \<Rightarrow> time_store \<Rightarrow> bool" for fnm where
  ticket_time: "log_on_ticket r p name t c dto i now st = Inr st' \<Longrightarrow> time_step fnm st st'"
| bucket_time: "log_on_bucket r p name account bucket contract_by_id active dto i now st = Inr st' \<Longrightarrow> time_step fnm st st'"
| adjustment: "adjust r p contract_by_id dto i now st = Inr st' \<Longrightarrow> time_step fnm st st'"
| contract_month: "create_period classes c account pdto i st = Inr st' \<Longrightarrow> time_step fnm st st'"
| billing_month: "create_billing_period account f t i st = Inr st' \<Longrightarrow> time_step fnm st st'"
| billing_action: "transition_billing_period fnm p account i a version now st = Inr st' \<Longrightarrow> time_step fnm st st'"
| finance_export: "export_billing_period fnm checksum_of account i st = Inr (st', rows) \<Longrightarrow> time_step fnm st st'"

text \<open>The two logging routes are the same write of an entry.\<close>

lemma time_step_cases:
  assumes "time_step fnm st st'"
  obtains (logged) r p name target dto i now mid e where
      "insert_entry r p name target dto i now st = Inr (mid, e)" "st' = note_logged (mid, e)"
    | (adjusted) r p contract_by_id dto i now where "adjust r p contract_by_id dto i now st = Inr st'"
    | (period) classes c account pdto i where "create_period classes c account pdto i st = Inr st'"
    | (billing) account f t i where "create_billing_period account f t i st = Inr st'"
    | (action) p account i a version now where "transition_billing_period fnm p account i a version now st = Inr st'"
    | (export) checksum_of account i rows where "export_billing_period fnm checksum_of account i st = Inr (st', rows)"
  using assms
proof (cases rule: time_step.cases)
  case (ticket_time r p name t c dto i now)
  then show thesis by (auto simp: log_on_ticket_def and_then_Inr split: if_splits intro: logged)
next
  case (bucket_time r p name account bucket contract_by_id active dto i now)
  then show thesis
    by (auto simp: log_on_bucket_def and_then_Inr split: if_splits option.splits intro: logged)
qed (blast intro: adjusted period billing action export)+

definition summaries_current :: "finance_names \<Rightarrow> time_store \<Rightarrow> bool" where
  "summaries_current fnm st \<longleftrightarrow>
     (\<forall>b\<in>set (tm_billing st). bp_status b = Locked \<or> bp_status b = Exported \<longrightarrow>
        bp_summary b = Some (period_summary (lines_of fnm st b)))"

definition rows_ok :: "time_store \<Rightarrow> bool" where
  "rows_ok st \<longleftrightarrow>
     distinct (map te_id (tm_entries st)) \<and> distinct (map ad_id (tm_adjustments st)) \<and>
     (\<forall>a\<in>set (tm_adjustments st). ad_entry a \<in> set (map te_id (tm_entries st))) \<and>
     (\<forall>e\<in>set (tm_entries st). 0 < te_minutes e \<and> te_minutes e \<le> 1440 \<and> 0 \<le> adjusted_minutes st e)"

definition time_ok :: "finance_names \<Rightarrow> time_store \<Rightarrow> bool" where
  "time_ok fnm st \<longleftrightarrow> rows_ok st \<and> billing_apart (tm_billing st) \<and> summaries_current fnm st"

lemma rows_ok_entry:
  assumes "rows_ok st" "tm_entries st' = tm_entries st @ [e]" "tm_adjustments st' = tm_adjustments st"
    "te_id e \<notin> set (map te_id (tm_entries st))" "0 < te_minutes e" "te_minutes e \<le> 1440"
  shows "rows_ok st'"
proof -
  have "filter (\<lambda>a. ad_entry a = te_id e) (tm_adjustments st) = []"
    using assms(1,4) by (simp add: rows_ok_def filter_empty_conv) metis
  then show ?thesis
    using assms by (auto simp: rows_ok_def adjusted_minutes_def adjustments_of_entry_def)
qed

lemma rows_ok_adjustment:
  assumes "rows_ok st" "tm_entries st' = tm_entries st" "tm_adjustments st' = tm_adjustments st @ [a]"
    "ad_id a \<notin> set (map ad_id (tm_adjustments st))" "entry_by_id st i = Some e" "ad_entry a = te_id e"
    "0 \<le> adjusted_minutes st e + ad_delta a"
  shows "rows_ok st'"
proof -
  have e: "e \<in> set (tm_entries st)" using assms(5) by (auto simp: entry_by_id_def find_Some_iff)
  have "adjusted_minutes st' x = adjusted_minutes st x + (if te_id x = te_id e then ad_delta a else 0)" for x
    using assms(3,6) by (simp add: adjusted_minutes_def adjustments_of_entry_def)
  moreover have "x = e" if "x \<in> set (tm_entries st)" "te_id x = te_id e" for x
    using that e assms(1) by (auto simp: rows_ok_def distinct_map inj_on_def)
  ultimately show ?thesis
    using assms e by (auto simp: rows_ok_def)
qed

lemma rows_ok_frame:
  "rows_ok st \<Longrightarrow> tm_entries st' = tm_entries st \<Longrightarrow> tm_adjustments st' = tm_adjustments st \<Longrightarrow> rows_ok st'"
  by (simp add: rows_ok_def adjusted_minutes_def adjustments_of_entry_def)

lemma billing_apart_put:
  assumes "billing_apart bs" "before \<in> set bs" "bp_id b = bp_id before" "bp_account b = bp_account before"
    "bp_starts b = bp_starts before" "bp_ends b = bp_ends before"
  shows "billing_apart (map (\<lambda>x. if bp_id x = bp_id b then b else x) bs)"
proof -
  let ?f = "\<lambda>x. if bp_id x = bp_id b then b else x"
  have same: "x = before" if "x \<in> set bs" "bp_id x = bp_id before" for x
    using assms(1,2) that by (auto simp: billing_apart_def distinct_map inj_on_def)
  then have keys: "bp_account (?f x) = bp_account x" "bp_starts (?f x) = bp_starts x" "bp_ends (?f x) = bp_ends x"
      "bp_id (?f x) = bp_id x" if "x \<in> set bs" for x
    using that assms(3-6) by auto
  have "map bp_id (map ?f bs) = map bp_id bs" using keys(4) by simp
  then have "distinct (map bp_id (map ?f bs))"
    using assms(1) by (simp only: billing_apart_def)
  moreover have "?f x = ?f y" if "x \<in> set bs" "y \<in> set bs" "bp_account (?f x) = bp_account (?f y)"
      "overlap_days (bp_starts (?f x)) (bp_ends (?f x)) (bp_starts (?f y)) (bp_ends (?f y))" for x y
  proof -
    have "x = y"
      using assms(1) that(1,2) that(3,4) [unfolded keys [OF that(1)] keys [OF that(2)]]
      by (auto simp: billing_apart_def)
    then show ?thesis by simp
  qed
  ultimately show ?thesis
    unfolding billing_apart_def set_map ball_simps(9) by blast
qed

lemma billing_period_found: "billing_period st i = Some b \<Longrightarrow> b \<in> set (tm_billing st) \<and> bp_id b = i"
  by (auto simp: billing_period_def find_Some_iff)

lemma assign_action_keys [simp]:
  "bp_id (assign_action fnm st u now a to b) = bp_id b" "bp_account (assign_action fnm st u now a to b) = bp_account b"
  "bp_starts (assign_action fnm st u now a to b) = bp_starts b" "bp_ends (assign_action fnm st u now a to b) = bp_ends b"
  "bp_status (assign_action fnm st u now a to b) = to"
  by (simp_all add: assign_action_def Let_def split: billing_action.split)

text \<open>One step keeps a closed period closed, in its place, and its lines as they are.\<close>

lemma step_keeps_closed:
  assumes ok: "rows_ok st" "billing_apart (tm_billing st)" and step: "time_step fnm st st'"
    and b: "b \<in> set (tm_billing st)" "closed_period b"
  shows "\<exists>b'\<in>set (tm_billing st'). bp_id b' = bp_id b \<and> bp_account b' = bp_account b \<and> bp_starts b' = bp_starts b \<and>
    bp_ends b' = bp_ends b \<and> closed_period b' \<and> lines_of fnm st' b' = lines_of fnm st b \<and>
    (bp_status b = Locked \<or> bp_status b = Exported \<longrightarrow> bp_status b' = Locked \<or> bp_status b' = Exported)"
  using step
proof (cases rule: time_step_cases)
  case (logged r p name target dto i now mid e)
  obtain of_activity cls d where
    *: "open_for_entries (billing_period_for st (tg_account target) (lg_performed dto))"
       "e = new_entry r p name target dto cls d i now"
       "tm_entries mid = tm_entries st @ [e]" "tm_adjustments mid = tm_adjustments st" "tm_billing mid = tm_billing st"
    by (rule insert_entry_success [OF logged(1)]) blast
  have "te_account e = tg_account target" "te_performed e = lg_performed dto"
    by (simp_all add: *(2) new_entry_def Let_def)
  then have "lines_of fnm st' b = lines_of fnm st b"
    using ok(1) closed_excludes [OF ok(2) b *(1)]
    by (intro lines_after_entry) (auto simp: rows_ok_def logged(2) frame_simps *)
  with b show ?thesis by (intro bexI [of _ b]) (simp_all add: logged(2) frame_simps *)
next
  case (adjusted r p contract_by_id dto i now)
  obtain e :: time_entry and a where
    *: "open_for_entries (billing_period_for st (te_account e) (ad_performed a))" "ad_account a = te_account e"
       "tm_entries st' = tm_entries st" "tm_adjustments st' = tm_adjustments st @ [a]" "tm_billing st' = tm_billing st"
    by (rule adjust_writes [OF adjusted])
  have "lines_of fnm st' b = lines_of fnm st b"
    using closed_excludes [OF ok(2) b *(1)] by (intro lines_after_adjustment [OF *(3,4)]) (simp add: *)
  with b show ?thesis by (intro bexI [of _ b]) (simp_all add: *)
next
  case (period classes c account pdto i)
  then have "tm_entries st' = tm_entries st" "tm_adjustments st' = tm_adjustments st" "tm_billing st' = tm_billing st"
    by (auto simp: create_period_def split: if_splits)
  with b lines_of_cong [of st' st b b fnm] show ?thesis by (intro bexI [of _ b]) simp_all
next
  case (billing account f t i)
  then have "tm_entries st' = tm_entries st" "tm_adjustments st' = tm_adjustments st" "set (tm_billing st) \<subseteq> set (tm_billing st')"
    by (auto simp: create_billing_period_def split: if_splits)
  with b lines_of_cong [of st' st b b fnm] show ?thesis by (intro bexI [of _ b]) auto
next
  case (action p account i a version now)
  obtain before to c where
    *: "billing_period st i = Some before" "billing_transition (bp_status before) a = Inr to"
      "c = (assign_action fnm st (pr_user p) now a to before)\<lparr>bp_version := bp_version before + 1\<rparr>"
      "tm_billing st' = map (\<lambda>x. if bp_id x = bp_id c then c else x) (tm_billing st)"
      "tm_entries st' = tm_entries st" "tm_adjustments st' = tm_adjustments st"
    by (rule transition_billing_success [OF action]) blast
  show ?thesis
  proof (cases "bp_id b = bp_id c")
    case True
    have before: "before \<in> set (tm_billing st)" "bp_id before = i"
      using billing_period_found [OF *(1)] by simp_all
    then have "b = before"
      using True b(1) ok(2) by (auto simp: *(3) billing_apart_def distinct_map inj_on_def)
    moreover have "closed_period c" "bp_status b = Locked \<or> bp_status b = Exported \<longrightarrow> bp_status c = Locked \<or> bp_status c = Exported"
      using b(2) *(2) \<open>b = before\<close> by (cases a; auto simp: *(3) closed_period_def billing_transition_Inr)+
    moreover have "lines_of fnm st' c = lines_of fnm st before"
      by (rule lines_of_cong) (simp_all add: *(3,5,6))
    moreover have "c \<in> set (tm_billing st')"
      using b(1) True unfolding *(4) by force
    ultimately show ?thesis using True by (intro bexI [of _ c]) (simp_all add: *(3))
  next
    case False
    then have "b \<in> set (tm_billing st')" using b(1) unfolding *(4) by force
    with b(2) lines_of_cong [of st' st b b fnm] * show ?thesis by (intro bexI [of _ b]) simp_all
  qed
next
  case (export checksum_of account i rows)
  obtain c where
    *: "billing_period st i = Some c" "bp_status c = Locked \<or> bp_status c = Exported"
      "tm_billing st' = map (\<lambda>x. if bp_id x = bp_id c then c\<lparr>bp_checksum := Some (checksum_of rows),
       bp_summary := Some (period_summary (lines_of fnm st c)), bp_version := bp_version c + 1\<rparr> else x) (tm_billing st)"
      "tm_entries st' = tm_entries st" "tm_adjustments st' = tm_adjustments st"
    by (rule export_success [OF export]) blast
  let ?d = "c\<lparr>bp_checksum := Some (checksum_of rows), bp_summary := Some (period_summary (lines_of fnm st c)), bp_version := bp_version c + 1\<rparr>"
  show ?thesis
  proof (cases "bp_id b = bp_id c")
    case True
    have "b = c"
      using True b(1) ok(2) billing_period_found [OF *(1)] by (auto simp: billing_apart_def distinct_map inj_on_def)
    moreover have "?d \<in> set (tm_billing st')" using b(1) True unfolding *(3) by force
    moreover have "lines_of fnm st' ?d = lines_of fnm st c" by (rule lines_of_cong) (simp_all add: *(4,5))
    ultimately show ?thesis using b(2) *(2) by (intro bexI [of _ ?d]) (simp_all add: closed_period_def)
  next
    case False
    then have "b \<in> set (tm_billing st')" using b(1) unfolding *(3) by force
    with b(2) lines_of_cong [of st' st b b fnm] *(4,5) show ?thesis by (intro bexI [of _ b]) simp_all
  qed
qed

lemma step_keeps_rows:
  assumes ok: "rows_ok st" "billing_apart (tm_billing st)" and step: "time_step fnm st st'"
  shows "rows_ok st' \<and> billing_apart (tm_billing st')"
  using step
proof (cases rule: time_step_cases)
  case (logged r p name target dto i now mid e)
  obtain cls d where
    *: "e = new_entry r p name target dto cls d i now" "i \<notin> set (map te_id (tm_entries st))" "0 < lg_minutes dto" "lg_minutes dto \<le> 1440"
       "tm_entries mid = tm_entries st @ [e]" "tm_adjustments mid = tm_adjustments st" "tm_billing mid = tm_billing st"
    by (rule insert_entry_success [OF logged(1)]) blast
  have "te_id e = i" "te_minutes e = lg_minutes dto" by (simp_all add: *(1) new_entry_def Let_def)
  then have "rows_ok st'"
    using * by (intro rows_ok_entry [OF ok(1), of _ e]) (simp_all add: logged(2) frame_simps)
  with ok(2) show ?thesis by (simp add: logged(2) frame_simps *)
next
  case (adjusted r p contract_by_id dto i now)
  obtain e :: time_entry and a where
    *: "entry_by_id st (aj_entry dto) = Some e" "ad_entry a = te_id e" "ad_id a \<notin> set (map ad_id (tm_adjustments st))"
      "0 \<le> adjusted_minutes st e + ad_delta a"
      "tm_entries st' = tm_entries st" "tm_adjustments st' = tm_adjustments st @ [a]" "tm_billing st' = tm_billing st"
    by (rule adjust_writes [OF adjusted])
  from rows_ok_adjustment [OF ok(1) *(5,6,3,1,2,4)] ok(2) show ?thesis by (simp add: *)
next
  case (period classes c account pdto i)
  then have "tm_entries st' = tm_entries st" "tm_adjustments st' = tm_adjustments st" "tm_billing st' = tm_billing st"
    by (auto simp: create_period_def split: if_splits)
  with ok rows_ok_frame show ?thesis by auto
next
  case (billing account f t i)
  then have "tm_entries st' = tm_entries st" "tm_adjustments st' = tm_adjustments st"
    by (auto simp: create_billing_period_def split: if_splits)
  moreover have "billing_apart (tm_billing st')"
    using billing ok(2) unfolding create_billing_period_def billing_apart_def overlap_days_def
    by (auto split: if_splits)
  ultimately show ?thesis using ok(1) rows_ok_frame by auto
next
  case (action p account i a version now)
  obtain before to c where
    *: "billing_period st i = Some before"
      "c = (assign_action fnm st (pr_user p) now a to before)\<lparr>bp_version := bp_version before + 1\<rparr>"
      "tm_billing st' = map (\<lambda>x. if bp_id x = bp_id c then c else x) (tm_billing st)"
      "tm_entries st' = tm_entries st" "tm_adjustments st' = tm_adjustments st"
    by (rule transition_billing_success [OF action]) blast
  have "billing_apart (tm_billing st')"
    unfolding *(3) using billing_period_found [OF *(1)]
    by (intro billing_apart_put [OF ok(2)]) (simp_all add: *(2))
  with rows_ok_frame [OF ok(1) *(4,5)] show ?thesis by simp
next
  case (export checksum_of account i rows)
  obtain c where
    *: "billing_period st i = Some c"
      "tm_billing st' = map (\<lambda>x. if bp_id x = bp_id c then c\<lparr>bp_checksum := Some (checksum_of rows),
       bp_summary := Some (period_summary (lines_of fnm st c)), bp_version := bp_version c + 1\<rparr> else x) (tm_billing st)"
      "tm_entries st' = tm_entries st" "tm_adjustments st' = tm_adjustments st"
    by (rule export_success [OF export]) blast
  have "billing_apart (tm_billing st')"
    unfolding *(2) using billing_period_found [OF *(1)]
      billing_apart_put [OF ok(2), of c "c\<lparr>bp_checksum := Some (checksum_of rows),
        bp_summary := Some (period_summary (lines_of fnm st c)), bp_version := bp_version c + 1\<rparr>"] by simp
  with rows_ok_frame [OF ok(1) *(3,4)] show ?thesis by simp
qed

text \<open>A row that is locked or exported after a step was so before with its summary, or got both in the step.\<close>

lemma step_locked_origin:
  assumes step: "time_step fnm st st'" and b': "b' \<in> set (tm_billing st')" "bp_status b' = Locked \<or> bp_status b' = Exported"
  shows "bp_summary b' = Some (period_summary (lines_of fnm st' b')) \<or>
    (\<exists>b\<in>set (tm_billing st). (bp_status b = Locked \<or> bp_status b = Exported) \<and> bp_summary b' = bp_summary b \<and>
      bp_account b' = bp_account b \<and> bp_starts b' = bp_starts b \<and> bp_ends b' = bp_ends b)"
  using step
proof (cases rule: time_step_cases)
  case (logged r p name target dto i now mid e)
  have "tm_billing mid = tm_billing st" by (rule insert_entry_success [OF logged(1)]) blast
  then show ?thesis using b' by (intro disjI2 bexI [of _ b']) (simp_all add: logged(2) frame_simps)
next
  case (adjusted r p contract_by_id dto i now)
  have "tm_billing st' = tm_billing st" by (rule adjust_writes [OF adjusted]) blast
  then show ?thesis using b' by (intro disjI2 bexI [of _ b']) simp_all
next
  case (period classes c account pdto i)
  then have "tm_billing st' = tm_billing st" by (auto simp: create_period_def split: if_splits)
  then show ?thesis using b' by (intro disjI2 bexI [of _ b']) simp_all
next
  case (billing account f t i)
  then have "b' \<in> set (tm_billing st)" using b' by (auto simp: create_billing_period_def split: if_splits)
  then show ?thesis using b' by (intro disjI2 bexI [of _ b']) simp_all
next
  case (action p account i a version now)
  obtain before to c where
    *: "billing_period st i = Some before" "billing_transition (bp_status before) a = Inr to"
      "c = (assign_action fnm st (pr_user p) now a to before)\<lparr>bp_version := bp_version before + 1\<rparr>"
      "tm_billing st' = map (\<lambda>x. if bp_id x = bp_id c then c else x) (tm_billing st)"
      "tm_entries st' = tm_entries st" "tm_adjustments st' = tm_adjustments st"
    by (rule transition_billing_success [OF action]) blast
  show ?thesis
  proof (cases "b' = c")
    case True
    have before: "before \<in> set (tm_billing st)" using billing_period_found [OF *(1)] by simp
    have same: "lines_of fnm st' c = lines_of fnm st before" by (rule lines_of_cong) (simp_all add: *(3,5,6))
    have "a = Lock \<or> a = Mark_exported"
      using b'(2) *(2) True by (cases a) (auto simp: *(3) billing_transition_Inr)
    then show ?thesis
    proof
      assume "a = Lock"
      then have "bp_summary c = Some (period_summary (lines_of fnm st before))"
        by (simp add: *(3) assign_action_def Let_def lines_of_def)
      then show ?thesis by (simp add: True same)
    next
      assume a: "a = Mark_exported"
      then have "bp_status before = Locked" using *(2) by (simp add: billing_transition_Inr)
      moreover have "bp_summary c = bp_summary before" by (simp add: *(3) assign_action_def Let_def a)
      ultimately show ?thesis using before by (intro disjI2 bexI [of _ before]) (simp_all add: True *(3))
    qed
  next
    case False
    then have "b' \<in> set (tm_billing st)" using b'(1) unfolding *(4) by (auto split: if_splits)
    then show ?thesis using b' by (intro disjI2 bexI [of _ b']) simp_all
  qed
next
  case (export checksum_of account i rows)
  obtain c where
    *: "tm_billing st' = map (\<lambda>x. if bp_id x = bp_id c then c\<lparr>bp_checksum := Some (checksum_of rows),
       bp_summary := Some (period_summary (lines_of fnm st c)), bp_version := bp_version c + 1\<rparr> else x) (tm_billing st)"
      "tm_entries st' = tm_entries st" "tm_adjustments st' = tm_adjustments st"
    by (rule export_success [OF export]) blast
  show ?thesis
  proof (cases "b' \<in> set (tm_billing st)")
    case True
    then show ?thesis using b' by (intro disjI2 bexI [of _ b']) simp_all
  next
    case False
    then have "b' = c\<lparr>bp_checksum := Some (checksum_of rows),
       bp_summary := Some (period_summary (lines_of fnm st c)), bp_version := bp_version c + 1\<rparr>"
      using b'(1) unfolding *(1) by (auto split: if_splits)
    moreover from this have "lines_of fnm st' b' = lines_of fnm st c" by (intro lines_of_cong) (simp_all add: *(2,3))
    ultimately show ?thesis by simp
  qed
qed

lemma step_keeps_summaries:
  assumes "time_ok fnm st" "time_step fnm st st'"
  shows "time_ok fnm st'"
proof -
  have ok: "rows_ok st" "billing_apart (tm_billing st)" "summaries_current fnm st"
    using assms(1) by (simp_all add: time_ok_def)
  have ok': "rows_ok st'" "billing_apart (tm_billing st')"
    using step_keeps_rows [OF ok(1,2) assms(2)] by simp_all
  have "bp_summary b' = Some (period_summary (lines_of fnm st' b'))"
    if b': "b' \<in> set (tm_billing st')" "bp_status b' = Locked \<or> bp_status b' = Exported" for b'
  proof -
    from step_locked_origin [OF assms(2) b'] show ?thesis
    proof
      assume "\<exists>b\<in>set (tm_billing st). (bp_status b = Locked \<or> bp_status b = Exported) \<and> bp_summary b' = bp_summary b \<and>
        bp_account b' = bp_account b \<and> bp_starts b' = bp_starts b \<and> bp_ends b' = bp_ends b"
      then obtain b where b: "b \<in> set (tm_billing st)" "bp_status b = Locked \<or> bp_status b = Exported"
        "bp_summary b' = bp_summary b" "bp_account b' = bp_account b" "bp_starts b' = bp_starts b" "bp_ends b' = bp_ends b"
        by blast
      then have "closed_period b" by (auto simp: closed_period_def)
      from step_keeps_closed [OF ok(1,2) assms(2) b(1) this] obtain c where
        "lines_of fnm st' c = lines_of fnm st b" "bp_account c = bp_account b" "bp_starts c = bp_starts b" "bp_ends c = bp_ends b"
        by blast
      then have "lines_of fnm st' b' = lines_of fnm st b" using b(4-6) by (simp add: lines_of_def)
      with ok(3) b(1-3) show ?thesis by (auto simp: summaries_current_def)
    qed
  qed
  with ok' show ?thesis by (simp add: time_ok_def summaries_current_def)
qed

subsection \<open>Thresholds across a history\<close>

fun crossed :: "time_event \<Rightarrow> (string \<times> rat) option" where
  "crossed (Ev_crossed q x n m) = Some (q, x)"
| "crossed ev = None"

definition alerts_ok :: "time_store \<Rightarrow> bool" where
  "alerts_ok st \<longleftrightarrow>
     distinct (tm_alerts st) \<and> List.map_filter crossed (tm_outbox st) = tm_alerts st \<and> distinct (map kp_id (tm_periods st)) \<and>
     (\<forall>a\<in>set (tm_alerts st). fst a \<in> set (map kp_id (tm_periods st))) \<and>
     (\<forall>p\<in>set (tm_periods st). distinct (kp_fired p) \<and> set (kp_fired p) = {x. (kp_id p, x) \<in> set (tm_alerts st)})"

lemma map_filter_append: "List.map_filter f (xs @ ys) = List.map_filter f xs @ List.map_filter f ys"
  by (induction xs) (auto simp: map_filter_simps split: option.split)

lemma alerts_ok_cong:
  "alerts_ok st \<Longrightarrow> tm_alerts st' = tm_alerts st \<Longrightarrow> tm_periods st' = tm_periods st \<Longrightarrow>
     tm_outbox st' = tm_outbox st @ evs \<Longrightarrow> List.map_filter crossed evs = [] \<Longrightarrow> alerts_ok st'"
  by (simp add: alerts_ok_def map_filter_append)

lemma fire_threshold_alerts:
  assumes "alerts_ok st" "q \<in> set (map kp_id (tm_periods st))" "fire_threshold q x st = (True, st')"
  shows "alerts_ok (st'\<lparr>tm_outbox := tm_outbox st' @ [Ev_crossed q x n m]\<rparr>) \<and>
    map kp_id (tm_periods st') = map kp_id (tm_periods st)"
proof -
  have fresh: "(q, x) \<notin> set (tm_alerts st)"
    and st': "st' = st\<lparr>tm_alerts := tm_alerts st @ [(q, x)],
             tm_periods := map (\<lambda>p. if kp_id p = q \<and> x \<notin> set (kp_fired p)
               then p\<lparr>kp_fired := kp_fired p @ [x]\<rparr> else p) (tm_periods st)\<rparr>"
    using assms(3) by (auto simp: fire_threshold_def split: if_splits)
  let ?f = "\<lambda>p. if kp_id p = q \<and> x \<notin> set (kp_fired p) then p\<lparr>kp_fired := kp_fired p @ [x]\<rparr> else p"
  define Q where "Q = map ?f (tm_periods st)"
  have ids: "map kp_id Q = map kp_id (tm_periods st)" by (simp add: Q_def)
  have ok: "distinct (kp_fired p)" "set (kp_fired p) = {y. (kp_id p, y) \<in> set (tm_alerts st)}" if "p \<in> set (tm_periods st)" for p
    using assms(1) that by (auto simp: alerts_ok_def)
  have each: "distinct (kp_fired (?f p)) \<and> set (kp_fired (?f p)) = {y. (kp_id (?f p), y) \<in> set (tm_alerts st @ [(q, x)])}"
    if "p \<in> set (tm_periods st)" for p
    using ok [OF that] fresh by auto
  have "\<forall>p\<in>set Q. distinct (kp_fired p) \<and> set (kp_fired p) = {y. (kp_id p, y) \<in> set (tm_alerts st @ [(q, x)])}"
    unfolding Q_def set_map ball_simps(9) by (rule ballI, rule each)
  moreover have "distinct (tm_alerts st @ [(q, x)])" using assms(1) fresh by (simp add: alerts_ok_def)
  moreover have "List.map_filter crossed (tm_outbox st @ [Ev_crossed q x n m]) = tm_alerts st @ [(q, x)]"
    using assms(1) by (simp add: alerts_ok_def map_filter_append map_filter_simps)
  moreover have "\<forall>a\<in>set (tm_alerts st @ [(q, x)]). fst a \<in> set (map kp_id (tm_periods st))"
    using assms(1,2) by (auto simp: alerts_ok_def)
  ultimately show ?thesis
    using assms(1) ids [THEN arg_cong [of _ _ set]] ids [THEN arg_cong [of _ _ distinct]]
    unfolding alerts_ok_def st' Q_def [symmetric] by (simp add: ids)
qed

lemma fire_each_alerts:
  "alerts_ok st \<Longrightarrow> q \<in> set (map kp_id (tm_periods st)) \<Longrightarrow> alerts_ok (snd (fire_each q n m xs (fired, st)))"
proof (induction xs arbitrary: fired st)
  case (Cons x xs)
  obtain b st' where f: "fire_threshold q x st = (b, st')" by force
  show ?case
  proof (cases b)
    case True
    from f True have "fire_threshold q x st = (True, st')" by simp
    from fire_threshold_alerts [OF Cons(2,3) this]
    show ?thesis
      using Cons(1) [of "st'\<lparr>tm_outbox := tm_outbox st' @ [Ev_crossed q x n m]\<rparr>"] Cons(3)
      by (simp add: f True)
  next
    case False
    then have "st' = st" using f by (auto simp: fire_threshold_def split: if_splits)
    then show ?thesis using Cons by (simp add: f False)
  qed
qed simp

lemma evaluate_alerts:
  assumes "alerts_ok st" "kp_id q \<in> set (map kp_id (tm_periods st))"
  shows "alerts_ok (snd (evaluate_thresholds c q n m st))"
proof -
  obtain fired st' where f: "fire_each (kp_id q) n m (thresholds_to_fire (co_percents c) (kp_fired q) n m) ([], st) = (fired, st')"
    by force
  with fire_each_alerts [OF assms] have "alerts_ok st'" by (metis snd_conv)
  then have "alerts_ok (st'\<lparr>tm_audit := tm_audit st' @ [Ev_fired (kp_id q) fired n m]\<rparr>)"
    by (rule alerts_ok_cong [where evs = "[]"]) (simp_all add: map_filter_simps)
  then show ?thesis
    using assms(1) by (simp add: evaluate_thresholds_def Let_def f)
qed

lemma period_for_id: "period_for st c d = Some q \<Longrightarrow> kp_id q \<in> set (map kp_id (tm_periods st))"
  by (auto simp: period_for_def find_Some_iff)

lemma step_keeps_alerts:
  assumes "alerts_ok st" "time_step fnm st st'"
  shows "alerts_ok st'"
  using assms(2)
proof (cases rule: time_step_cases)
  case (logged r p name target dto i now mid e)
  have "alerts_ok mid"
  proof (rule insert_entry_success [OF logged(1)])
    fix of_activity cls c period billing used d
    let ?s = "st\<lparr>tm_entries := tm_entries st @ [e], tm_audit := tm_audit st @ [Ev_entry_created i]\<rparr>"
    assume period: "period = period_for st (co_id c) (lg_performed dto)"
      and mid: "mid = (case period of
        Some q \<Rightarrow> if class_consumes (tr_classes r) cls
          then snd (evaluate_thresholds c q (used + lg_minutes dto) (period_available q) ?s) else ?s
      | None \<Rightarrow> ?s)"
    have s: "alerts_ok ?s" by (rule alerts_ok_cong [OF assms(1), where evs = "[]"]) (simp_all add: map_filter_simps)
    show ?thesis
    proof (cases period)
      case (Some q)
      with period have "kp_id q \<in> set (map kp_id (tm_periods ?s))" using period_for_id [of st] by simp
      with s Some show ?thesis by (simp add: mid evaluate_alerts)
    qed (use s in \<open>simp add: mid\<close>)
  qed
  then show ?thesis unfolding logged(2)
    by (rule alerts_ok_cong [where evs = "[Ev_logged (te_id e) (te_minutes e)]"]) (simp_all add: note_logged_def map_filter_simps)
next
  case (adjusted r p contract_by_id dto i now)
  show ?thesis
  proof (rule adjust_success [OF adjusted])
    fix e :: time_entry and day a
    let ?s = "st\<lparr>tm_adjustments := tm_adjustments st @ [a], tm_audit := tm_audit st @ [Ev_adjusted i (aj_delta dto) (aj_kind dto)]\<rparr>"
    assume st': "st' = (case period_for st (te_contract e) (te_performed e) of
        None \<Rightarrow> ?s
      | Some q \<Rightarrow> snd (evaluate_thresholds (contract_by_id (te_contract e)) q
          (consumed_in ?s (te_contract e) (kp_starts q) (kp_ends q) (tr_classes r)) (period_available q) ?s))"
    have s: "alerts_ok ?s" by (rule alerts_ok_cong [OF assms(1), where evs = "[]"]) (simp_all add: map_filter_simps)
    show ?thesis
    proof (cases "period_for st (te_contract e) (te_performed e)")
      case (Some q)
      then have "kp_id q \<in> set (map kp_id (tm_periods ?s))" using period_for_id [of st] by simp
      with s Some show ?thesis by (simp add: st' evaluate_alerts)
    qed (use s in \<open>simp add: st'\<close>)
  qed
next
  case (period classes c account pdto i)
  then have st': "tm_alerts st' = tm_alerts st" "tm_outbox st' = tm_outbox st" "i \<notin> set (map kp_id (tm_periods st))"
    "\<exists>q. tm_periods st' = tm_periods st @ [q] \<and> kp_id q = i \<and> kp_fired q = []"
    by (auto simp: create_period_def split: if_splits)
  then obtain q where q: "tm_periods st' = tm_periods st @ [q]" "kp_id q = i" "kp_fired q = []" by blast
  have "{x. (i, x) \<in> set (tm_alerts st)} = {}" using assms(1) st'(3) by (force simp: alerts_ok_def)
  with assms(1) st'(1-3) q show ?thesis by (auto simp: alerts_ok_def)
next
  case (billing account f t i)
  then show ?thesis
    by (intro alerts_ok_cong [OF assms(1), where evs = "[]"]) (auto simp: create_billing_period_def map_filter_simps split: if_splits)
next
  case (action p account i a version now)
  show ?thesis
    by (rule transition_billing_success [OF action], rule alerts_ok_cong [OF assms(1)], assumption+)
      (simp add: map_filter_simps)
next
  case (export checksum_of account i rows)
  then show ?thesis
    by (intro alerts_ok_cong [OF assms(1), where evs = "[]"])
      (auto simp: export_billing_period_def produce_finance_file_def put_billing_def Let_def map_filter_simps split: option.splits if_splits)
qed

subsection \<open>What a write adds to the consumption\<close>

definition class_minutes :: "time_store \<Rightarrow> string \<Rightarrow> ymd \<Rightarrow> ymd \<Rightarrow> string \<Rightarrow> int" where
  "class_minutes st contract f t k =
     sum_list (map cl_minutes (filter (\<lambda>l. cl_class l = k) (consumption_lines st contract f t)))"

lemma map_filter_snoc: "List.map_filter f (xs @ [x]) = List.map_filter f xs @ (case f x of None \<Rightarrow> [] | Some y \<Rightarrow> [y])"
  by (simp add: map_filter_append map_filter_simps split: option.split)

lemma consumption_after_entry:
  assumes "rows_ok st" "tm_entries st' = tm_entries st @ [e]" "tm_adjustments st' = tm_adjustments st"
  shows "\<exists>xs ys. consumption_lines st contract f t = xs @ ys \<and>
    consumption_lines st' contract f t = xs @
      (if te_contract e = contract \<and> within_days f t (te_performed e)
       then [\<lparr>cl_activity = te_activity e, cl_class = te_class e, cl_minutes = te_minutes e\<rparr>] else []) @ ys"
proof -
  let ?g = "\<lambda>st a. if ad_contract a = contract \<and> within_days f t (ad_performed a)
         then map_option (\<lambda>e. \<lparr>cl_activity = te_activity e, cl_class = adjustment_class a e, cl_minutes = ad_delta a\<rparr>)
           (entry_by_id st (ad_entry a))
         else None"
  have same: "List.map_filter (?g st') (tm_adjustments st) = List.map_filter (?g st) (tm_adjustments st)"
    using assms(1) by (intro map_filter_same) (simp add: rows_ok_def entry_by_id_append [OF _ assms(2)] cong: if_cong)
  show ?thesis
    unfolding consumption_lines_def assms(2,3) same by (intro exI conjI, rule refl) simp
qed

lemma consumption_after_adjustment:
  assumes "tm_entries st' = tm_entries st" "tm_adjustments st' = tm_adjustments st @ [a]" "entry_by_id st (ad_entry a) = Some e"
  shows "consumption_lines st' contract f t = consumption_lines st contract f t @
      (if ad_contract a = contract \<and> within_days f t (ad_performed a)
       then [\<lparr>cl_activity = te_activity e, cl_class = adjustment_class a e, cl_minutes = ad_delta a\<rparr>] else [])"
proof -
  have "entry_by_id st' = entry_by_id st" using assms(1) by (simp add: entry_by_id_def [abs_def])
  then show ?thesis
    by (simp add: consumption_lines_def assms map_filter_snoc cong: if_cong)
qed

lemma class_consumes_iff:
  "distinct (map cs_key classes) \<Longrightarrow> class_consumes classes k \<longleftrightarrow> k \<in> set (map cs_key (filter cs_consumes classes))"
  by (induction classes) (auto simp: class_consumes_def)

lemma consumed_after_entry:
  assumes "rows_ok st" "tm_entries st' = tm_entries st @ [e]" "tm_adjustments st' = tm_adjustments st"
    "distinct (map cs_key classes)" "class_consumes classes (te_class e)" "within_days f t (te_performed e)"
  shows "consumed_in st' (te_contract e) f t classes = consumed_in st (te_contract e) f t classes + te_minutes e"
proof -
  obtain xs ys where "consumption_lines st (te_contract e) f t = xs @ ys"
    "consumption_lines st' (te_contract e) f t =
       xs @ [\<lparr>cl_activity = te_activity e, cl_class = te_class e, cl_minutes = te_minutes e\<rparr>] @ ys"
    using consumption_after_entry [OF assms(1-3), of "te_contract e" f t] assms(6) by auto
  then show ?thesis
    using assms(5) by (simp add: consumed_in_def Let_def class_consumes_iff [OF assms(4)])
qed

lemma entry_by_id_id: "entry_by_id st i = Some e \<Longrightarrow> te_id e = i \<and> e \<in> set (tm_entries st)"
  by (auto simp: entry_by_id_def find_Some_iff)

lemma entry_by_id_self: "distinct (map te_id (tm_entries st)) \<Longrightarrow> e \<in> set (tm_entries st) \<Longrightarrow> entry_by_id st (te_id e) = Some e"
  by (cases "entry_by_id st (te_id e)")
    (auto simp: entry_by_id_def find_None_iff find_Some_iff distinct_map inj_on_def)

text \<open>Summing the adjustments per entry is summing them all.\<close>

lemma sum_adjustments_by_entry:
  assumes "distinct (map te_id es)"
  shows "sum_list (map (\<lambda>e. sum_list (map ad_delta (filter (\<lambda>a. ad_entry a = te_id e) as))) es) =
    sum_list (map ad_delta (filter (\<lambda>a. ad_entry a \<in> te_id ` set es) as))"
proof (induction as)
  case (Cons a as)
  have "sum_list (map (\<lambda>e. if ad_entry a = te_id e then ad_delta a else 0) es) =
      (if ad_entry a \<in> te_id ` set es then ad_delta a else 0)"
    using assms by (induction es) auto
  moreover have "sum_list (map (\<lambda>e. sum_list (map ad_delta (filter (\<lambda>b. ad_entry b = te_id e) (a # as)))) es) =
      sum_list (map (\<lambda>e. (if ad_entry a = te_id e then ad_delta a else 0) +
        sum_list (map ad_delta (filter (\<lambda>b. ad_entry b = te_id e) as))) es)"
    by (intro arg_cong [where f = sum_list] map_cong refl) simp
  ultimately show ?case using Cons by (simp add: sum_list_addf)
qed simp

subsection \<open>Reachable stores\<close>

definition no_rows :: time_store where
  "no_rows = \<lparr>tm_entries = [], tm_adjustments = [], tm_periods = [], tm_alerts = [], tm_billing = [], tm_audit = [], tm_outbox = []\<rparr>"

definition time_reached :: "finance_names \<Rightarrow> time_store \<Rightarrow> bool" where
  "time_reached fnm st \<longleftrightarrow> (time_step fnm)\<^sup>*\<^sup>* no_rows st"

lemma reached_step: "time_reached fnm st \<Longrightarrow> time_step fnm st st' \<Longrightarrow> time_reached fnm st'"
  unfolding time_reached_def by (rule rtranclp.rtrancl_into_rtrancl)

lemma reached_ok: "time_reached fnm st \<Longrightarrow> time_ok fnm st \<and> alerts_ok st"
  unfolding time_reached_def
proof (induction rule: rtranclp_induct)
  case base
  show ?case
    by (simp add: no_rows_def time_ok_def rows_ok_def billing_apart_def summaries_current_def alerts_ok_def map_filter_simps)
next
  case (step st st')
  then show ?case using step_keeps_summaries step_keeps_alerts by blast
qed

lemma closed_stays:
  assumes "(time_step fnm)\<^sup>*\<^sup>* st st'" "time_ok fnm st" "b \<in> set (tm_billing st)" "closed_period b"
  shows "\<exists>b'\<in>set (tm_billing st'). bp_id b' = bp_id b \<and> bp_account b' = bp_account b \<and> bp_starts b' = bp_starts b \<and>
    bp_ends b' = bp_ends b \<and> closed_period b' \<and> lines_of fnm st' b' = lines_of fnm st b \<and>
    (bp_status b = Locked \<or> bp_status b = Exported \<longrightarrow> bp_status b' = Locked \<or> bp_status b' = Exported)"
  using assms
proof (induction rule: rtranclp_induct)
  case (step mid st')
  then obtain b' where b': "b' \<in> set (tm_billing mid)" "bp_id b' = bp_id b" "bp_account b' = bp_account b"
    "bp_starts b' = bp_starts b" "bp_ends b' = bp_ends b" "closed_period b'" "lines_of fnm mid b' = lines_of fnm st b"
    "bp_status b = Locked \<or> bp_status b = Exported \<longrightarrow> bp_status b' = Locked \<or> bp_status b' = Exported"
    by blast
  have "time_ok fnm mid"
    using step(1) step.prems(1) by (induction rule: rtranclp_induct) (auto intro: step_keeps_summaries)
  then have "rows_ok mid" "billing_apart (tm_billing mid)" by (simp_all add: time_ok_def)
  from step_keeps_closed [OF this step(2) b'(1,6)] b'(2-8) show ?case by metis
qed blast

subsection \<open>A sample account\<close>

definition sample_names :: finance_names where
  "sample_names = \<lparr>fnm_account = (\<lambda>a. a), fnm_contract = (\<lambda>c. c), fnm_currency = (\<lambda>c. ''USD''), fnm_role = (\<lambda>u. None), fnm_ticket = (\<lambda>t. t)\<rparr>"

definition sample_time :: time_reads where
  "sample_time = \<lparr>tr_activities = [(''dev'', None), (''meeting'', Some ''internal'')],
     tr_classes = [\<lparr>cs_key = ''billable'', cs_consumes = True\<rparr>, \<lparr>cs_key = ''internal'', cs_consumes = False\<rparr>],
     tr_calendar = None, tr_role = (\<lambda>u. Some ''dev''), tr_cards = sample_cards\<rparr>"

definition sample_contract :: contract_row where
  "sample_contract = \<lparr>co_id = ''c'', co_account = ''a'', co_overage = Block, co_overage_multiplier = None, co_rollover = No_rollover,
     co_rollover_cap = None, co_handling = No_handling, co_multiplier = None, co_percents = [50, 80]\<rparr>"

definition sample_bucket :: bucket_row where
  "sample_bucket = \<lparr>bk_id = ''b'', bk_account = ''a'', bk_label = ''QBR'', bk_code = ''qbr_prep'', bk_class = ''billable'',
     bk_contract = Some ''c'', bk_status = Bucket_active, bk_version = 1\<rparr>"

definition sample_log :: log_dto where
  "sample_log = \<lparr>lg_performed = Ymd 2026 1 5, lg_minutes = 360, lg_activity = ''dev'', lg_class = None, lg_description = None,
     lg_after_hours = False, lg_start = None, lg_person = None\<rparr>"

definition sample_now :: ms where
  "sample_now = 1768000000000"

definition month_open :: time_store where
  "month_open = (case create_period (tr_classes sample_time) sample_contract ''a''
       \<lparr>pd_starts = Ymd 2026 1 1, pd_ends = Ymd 2026 1 31, pd_contracted = 600, pd_carried = None\<rparr> ''p'' no_rows of
     Inl e \<Rightarrow> no_rows | Inr st \<Rightarrow> st)"

definition month_billed :: time_store where
  "month_billed = (case create_billing_period ''a'' (Ymd 2026 1 1) (Ymd 2026 1 31) ''bp'' month_open of Inl e \<Rightarrow> no_rows | Inr st \<Rightarrow> st)"

definition log_sample :: "log_dto \<Rightarrow> string \<Rightarrow> time_store \<Rightarrow> time_error + time_store" where
  "log_sample dto i st = log_on_bucket sample_time sample_agent ''Ann'' ''a'' (Some sample_bucket) (\<lambda>c. sample_contract) [] dto i sample_now st"

definition month_logged :: time_store where
  "month_logged = (case log_sample sample_log ''e1'' month_billed of Inl e \<Rightarrow> no_rows | Inr st \<Rightarrow> st)"

definition month_locked :: time_store where
  "month_locked = (case transition_billing_period sample_names sample_agent ''a'' ''bp'' Lock 1 sample_now month_logged of
     Inl e \<Rightarrow> no_rows | Inr st \<Rightarrow> st)"

lemma right_value: "(case x of Inl e \<Rightarrow> False | Inr y \<Rightarrow> True) \<Longrightarrow> x = Inr (case x of Inl e \<Rightarrow> d | Inr y \<Rightarrow> y)"
  by (cases x) simp_all

lemma sample_writes:
  "create_period (tr_classes sample_time) sample_contract ''a''
     \<lparr>pd_starts = Ymd 2026 1 1, pd_ends = Ymd 2026 1 31, pd_contracted = 600, pd_carried = None\<rparr> ''p'' no_rows = Inr month_open"
  "create_billing_period ''a'' (Ymd 2026 1 1) (Ymd 2026 1 31) ''bp'' month_open = Inr month_billed"
  "log_sample sample_log ''e1'' month_billed = Inr month_logged"
  "transition_billing_period sample_names sample_agent ''a'' ''bp'' Lock 1 sample_now month_logged = Inr month_locked"
  unfolding month_locked_def month_logged_def month_billed_def month_open_def by (rule right_value, code_simp)+

lemma sample_values:
  "tm_alerts month_logged = [(''p'', 50)]"
  "map te_amount (tm_entries month_logged) = [Some 570]"
  "map bp_status (tm_billing month_locked) = [Locked]"
  "tm_entries month_locked = tm_entries month_logged"
  by code_simp+

lemma sample_reached:
  "time_reached sample_names month_open" "time_reached sample_names month_billed"
  "time_reached sample_names month_logged" "time_reached sample_names month_locked"
proof -
  show o: "time_reached sample_names month_open"
    using contract_month [OF sample_writes(1)] by (auto simp: time_reached_def)
  show b: "time_reached sample_names month_billed"
    by (rule reached_step [OF o billing_month [OF sample_writes(2)]])
  show l: "time_reached sample_names month_logged"
    by (rule reached_step [OF b bucket_time [OF sample_writes(3) [unfolded log_sample_def]]])
  show "time_reached sample_names month_locked"
    by (rule reached_step [OF l billing_action [OF sample_writes(4)]])
qed

subsection \<open>Properties\<close>

text \<open>C27: Whatever was written, the rows of an account stay consistent: no entry is adjusted below zero minutes or
  holds more than a day, every locked or exported period carries the summary of exactly the lines its
  export lists, and each threshold of a contract period fired once, was recorded on the period and was
  announced by exactly one outbox event.\<close>

theorem time_history_sound:
  assumes "time_reached fnm st"
  shows "(\<forall>e\<in>set (tm_entries st). 0 \<le> adjusted_minutes st e \<and> 0 < te_minutes e \<and> te_minutes e \<le> 1440) \<and>
    (\<forall>b\<in>set (tm_billing st). bp_status b = Locked \<or> bp_status b = Exported \<longrightarrow>
       bp_summary b = Some (period_summary (finance_lines fnm st (bp_account b) (bp_starts b) (bp_ends b)))) \<and>
    distinct (tm_alerts st) \<and> List.map_filter crossed (tm_outbox st) = tm_alerts st \<and>
    (\<forall>p\<in>set (tm_periods st). distinct (kp_fired p) \<and> set (kp_fired p) = {x. (kp_id p, x) \<in> set (tm_alerts st)})"
  using reached_ok [OF assms]
  by (auto simp: time_ok_def rows_ok_def summaries_current_def lines_of_def alerts_ok_def)

theorem time_history_sound_witness:
  "List.map_filter crossed (tm_outbox month_locked) = tm_alerts month_locked \<and>
    (\<exists>b s. tm_billing month_locked = [b] \<and> bp_summary b = Some s \<and> ps_amount s = 570)"
proof -
  have "(case tm_billing month_locked of [b] \<Rightarrow> (case bp_summary b of Some s \<Rightarrow> ps_amount s = 570 | None \<Rightarrow> False) | _ \<Rightarrow> False)"
    by code_simp
  with time_history_sound [OF sample_reached(4)] show ?thesis
    by (auto split: list.splits option.splits)
qed


definition sample_adjust :: adjust_dto where
  "sample_adjust = \<lparr>aj_entry = ''e1'', aj_delta = - 60, aj_kind = Correction, aj_class = None, aj_reason = ''typo''\<rparr>"

definition month_corrected :: time_store where
  "month_corrected = (case adjust sample_time sample_agent (\<lambda>c. sample_contract) sample_adjust ''a1'' 1770000000000 month_locked of
     Inl e \<Rightarrow> no_rows | Inr st \<Rightarrow> st)"

lemma sample_correction:
  "adjust sample_time sample_agent (\<lambda>c. sample_contract) sample_adjust ''a1'' 1770000000000 month_locked = Inr month_corrected"
  unfolding month_corrected_def by (rule right_value, code_simp)


text \<open>C28: The finance file matches the lock: an export is only produced for a locked or exported period, its rows are
  the rows of the period's lines, and in a reachable store they agree to the cent and to the row with the
  summary the period already carries, which the export rewrites unchanged.\<close>

theorem export_matches_lock:
  assumes "time_reached fnm st" "export_billing_period fnm checksum_of account i st = Inr (st', rows)"
  shows "\<exists>b s. billing_period st i = Some b \<and> bp_account b = account \<and> bp_summary b = Some s \<and>
    rows = finance_rows (lines_of fnm st b) (label_of b) \<and> length rows = ps_entries s + ps_adjustments s \<and>
    ps_amount s = sum_list (map (\<lambda>l. case line_amount l of None \<Rightarrow> 0 | Some v \<Rightarrow> v) (lines_of fnm st b)) \<and>
    (\<exists>b'. billing_period st' i = Some b' \<and> bp_summary b' = Some s \<and> bp_checksum b' = Some (checksum_of rows))"
proof -
  obtain b where b: "billing_period st i = Some b" "bp_account b = account" "bp_status b = Locked \<or> bp_status b = Exported"
    "rows = finance_rows (lines_of fnm st b) (label_of b)"
    "tm_billing st' = map (\<lambda>x. if bp_id x = bp_id b then b\<lparr>bp_checksum := Some (checksum_of rows),
       bp_summary := Some (period_summary (lines_of fnm st b)), bp_version := bp_version b + 1\<rparr> else x) (tm_billing st)"
    by (rule export_success [OF assms(2)]) blast
  let ?s = "period_summary (lines_of fnm st b)"
  have "bp_summary b = Some ?s"
    using reached_ok [OF assms(1)] billing_period_found [OF b(1)] b(3) by (auto simp: time_ok_def summaries_current_def)
  moreover have "length rows = ps_entries ?s + ps_adjustments ?s"
    using summary_of_period [of "lines_of fnm st b"] sum_length_filter_compl [of fl_entry "lines_of fnm st b"]
    by (simp add: b(4) summary_of_def finance_rows_def)
  moreover have "ps_amount ?s = sum_list (map (\<lambda>l. case line_amount l of None \<Rightarrow> 0 | Some v \<Rightarrow> v) (lines_of fnm st b))"
    using summary_of_period [of "lines_of fnm st b"] by (simp add: summary_of_def line_value_def [abs_def])
  moreover have "billing_period st' i = Some (b\<lparr>bp_checksum := Some (checksum_of rows),
       bp_summary := Some ?s, bp_version := bp_version b + 1\<rparr>)"
  proof -
    have i: "bp_id b = i" using billing_period_found [OF b(1)] by simp
    have "find (\<lambda>x. bp_id x = i) (map (\<lambda>x. if bp_id x = bp_id b then c else x) bs) = Some c"
      if "bp_id c = i" "find (\<lambda>x. bp_id x = i) bs = Some b" for bs c
      using that by (induction bs) (auto simp: i split: if_splits)
    from this [OF _ b(1) [unfolded billing_period_def]] show ?thesis
      unfolding billing_period_def b(5) by (simp add: i)
  qed
  ultimately show ?thesis using b(1,2,4) by (intro exI [of _ b] exI [of _ ?s]) simp
qed

theorem export_matches_lock_witness:
  "\<exists>st' rows. export_billing_period sample_names (\<lambda>rows. ''sum'') ''a'' ''bp'' month_locked = Inr (st', rows) \<and>
    length rows = 1 \<and> (\<exists>b'. billing_period st' ''bp'' = Some b' \<and> bp_checksum b' = Some ''sum'')"
proof -
  have "(case export_billing_period sample_names (\<lambda>rows. ''sum'') ''a'' ''bp'' month_locked of
      Inl e \<Rightarrow> False | Inr (st', rows) \<Rightarrow> length rows = 1)" by code_simp
  then obtain st' rows where *: "export_billing_period sample_names (\<lambda>rows. ''sum'') ''a'' ''bp'' month_locked = Inr (st', rows)"
      "length rows = 1" by (auto split: sum.splits prod.splits)
  with export_matches_lock [OF sample_reached(4) *(1)] show ?thesis by blast
qed

text \<open>An accepted entry was allowed and is priced as the rules say: its activity and class are known, it is logged
  for oneself unless the caller may adjust, it is not in the future and neither the contract period nor
  the billing period of its day is closed; the row appended carries the minutes asked for and an amount
  of minutes over 60 times its rate times its multiplier, to the cent; and under the blocking rule a
  consuming entry leaves the period within its budget.\<close>

theorem entry_accepted:
  assumes "time_reached fnm st" "insert_entry r p name target dto i now st = Inr (st', e)" "distinct (map cs_key (tr_classes r))"
  shows "lg_activity dto \<in> fst ` set (tr_activities r) \<and> te_class e \<in> set (map cs_key (tr_classes r)) \<and>
    (te_person e = pr_user p \<or> ''time:adjust'' \<in> set (pr_permissions p)) \<and> te_performed e \<le> iso_day_of now \<and>
    (\<forall>b\<in>set (tm_billing st). bp_account b = te_account e \<and> within_days (bp_starts b) (bp_ends b) (te_performed e) \<longrightarrow>
       bp_status b = Open_period \<or> bp_status b = Submitted) \<and>
    tm_entries st' = tm_entries st @ [e] \<and> te_minutes e = lg_minutes dto \<and>
    te_amount e = map_option (\<lambda>x. round_to 2 (of_int (te_minutes e) / 60 * x * te_multiplier e)) (te_rate e) \<and>
    (\<forall>q. period_for st (co_id (tg_contract target)) (lg_performed dto) = Some q \<and> co_overage (tg_contract target) = Block \<and>
       class_consumes (tr_classes r) (te_class e) \<and> 0 < period_available q \<longrightarrow>
       consumed_in st' (te_contract e) (kp_starts q) (kp_ends q) (tr_classes r) \<le> period_available q)"
proof -
  let ?c = "tg_contract target"
  let ?q = "period_for st (co_id ?c) (lg_performed dto)"
  obtain of_activity cls d where
    *: "map_of (tr_activities r) (lg_activity dto) = Some of_activity" "known_class (tr_classes r) cls"
      "e = new_entry r p name target dto cls d i now" "d = entry_overage r ?q ?c cls (used_before r st ?q ?c cls) (lg_minutes dto)"
      "lg_person dto = None \<or> lg_person dto = Some (pr_user p) \<or> ''time:adjust'' \<in> set (pr_permissions p)"
      "lg_performed dto \<le> iso_day_of now" "open_for_entries (billing_period_for st (tg_account target) (lg_performed dto))"
      "\<not> od_blocked d" "tm_entries st' = tm_entries st @ [e]" "tm_adjustments st' = tm_adjustments st"
    by (rule insert_entry_success [OF assms(2)]) blast
  have e: "te_class e = cls" "te_person e = entry_person p dto" "te_performed e = lg_performed dto" "te_minutes e = lg_minutes dto"
      "te_account e = tg_account target" "te_contract e = co_id ?c"
      "te_amount e = amount_of (lg_minutes dto) (te_rate e) (te_multiplier e)"
    by (simp_all add: *(3) new_entry_def Let_def)
  have ok: "rows_ok st" "billing_apart (tm_billing st)"
    using reached_ok [OF assms(1)] by (simp_all add: time_ok_def)
  have "te_person e = pr_user p \<or> ''time:adjust'' \<in> set (pr_permissions p)"
    using *(5) by (auto simp: e(2) entry_person_def)
  moreover have "bp_status b = Open_period \<or> bp_status b = Submitted"
    if "b \<in> set (tm_billing st)" "bp_account b = te_account e" "within_days (bp_starts b) (bp_ends b) (te_performed e)" for b
    using closed_excludes [OF ok(2) that(1) _ *(7)] that(2,3) by (auto simp: closed_period_def e)
  moreover have "consumed_in st' (te_contract e) (kp_starts q) (kp_ends q) (tr_classes r) \<le> period_available q"
    if q: "?q = Some q" "co_overage ?c = Block" "class_consumes (tr_classes r) (te_class e)" "0 < period_available q" for q
  proof -
    have "within_days (kp_starts q) (kp_ends q) (te_performed e)"
      using q(1) by (auto simp: period_for_def find_Some_iff e)
    from consumed_after_entry [OF ok(1) *(9,10) assms(3) q(3) this]
    have "consumed_in st' (te_contract e) (kp_starts q) (kp_ends q) (tr_classes r) =
        consumed_in st (te_contract e) (kp_starts q) (kp_ends q) (tr_classes r) + lg_minutes dto"
      by (simp add: e(4))
    moreover have "\<not> od_blocked (overage_decision Block (period_available q)
        (consumed_in st (te_contract e) (kp_starts q) (kp_ends q) (tr_classes r)) (lg_minutes dto) (co_overage_multiplier ?c))"
      using *(8) q by (simp add: *(4) entry_overage_def used_before_def e)
    ultimately show ?thesis
      using q(4) by (auto simp: overage_decision_def Let_def split: if_splits)
  qed
  ultimately show ?thesis
    using *(1,2,6,9) e
    by (auto simp: known_class_def amount_of_def dest!: map_of_SomeD split: option.splits intro: rev_image_eqI)
qed

theorem entry_accepted_witness:
  "\<exists>st' e. insert_entry sample_time sample_agent ''Ann'' \<lparr>tg_account = ''a'', tg_contract = sample_contract, tg_ticket = None, tg_bucket = Some ''b''\<rparr>
      (sample_log\<lparr>lg_minutes := 240\<rparr>) ''e2'' sample_now month_logged = Inr (st', e) \<and>
    te_amount e = map_option (\<lambda>x. round_to 2 (of_int (te_minutes e) / 60 * x * te_multiplier e)) (te_rate e) \<and>
    insert_entry sample_time sample_agent ''Ann'' \<lparr>tg_account = ''a'', tg_contract = sample_contract, tg_ticket = None, tg_bucket = Some ''b''\<rparr>
      (sample_log\<lparr>lg_minutes := 241\<rparr>) ''e2'' sample_now month_logged = Inl (Overage_blocked 600 360 241)"
proof -
  let ?t = "\<lparr>tg_account = ''a'', tg_contract = sample_contract, tg_ticket = None, tg_bucket = Some ''b''\<rparr>"
  have "(case insert_entry sample_time sample_agent ''Ann'' ?t (sample_log\<lparr>lg_minutes := 240\<rparr>) ''e2'' sample_now month_logged of
      Inl e \<Rightarrow> False | Inr w \<Rightarrow> True)"
    and "(case insert_entry sample_time sample_agent ''Ann'' ?t (sample_log\<lparr>lg_minutes := 241\<rparr>) ''e2'' sample_now month_logged of
      Inl e \<Rightarrow> (case e of Overage_blocked x y z \<Rightarrow> x = 600 \<and> y = 360 \<and> z = 241 | _ \<Rightarrow> False) | Inr w \<Rightarrow> False)"
    and d: "distinct (map cs_key (tr_classes sample_time))"
    by code_simp+
  then obtain st' e where
    *: "insert_entry sample_time sample_agent ''Ann'' ?t (sample_log\<lparr>lg_minutes := 240\<rparr>) ''e2'' sample_now month_logged = Inr (st', e)"
      "insert_entry sample_time sample_agent ''Ann'' ?t (sample_log\<lparr>lg_minutes := 241\<rparr>) ''e2'' sample_now month_logged =
        Inl (Overage_blocked 600 360 241)"
    by (auto split: sum.splits time_error.splits)
  from entry_accepted [OF sample_reached(3) *(1) d] * show ?thesis by blast
qed

text \<open>An adjustment adds its delta to one class and moves nothing: in any span of days, the minutes of a class change
  by the delta when the adjustment is dated in the span and the class is the one it names, or the entry's,
  and not at all otherwise. So a reclassification to another class leaves the minutes of the entry's own
  class as they were.\<close>

theorem adjustment_adds_delta:
  assumes "adjust r p contract_by_id dto i now st = Inr st'"
  shows "\<exists>e. entry_by_id st (aj_entry dto) = Some e \<and>
    (\<forall>f t k. class_minutes st' (te_contract e) f t k = class_minutes st (te_contract e) f t k +
       (if within_days f t (adjustment_day st e now) \<and> k = (case aj_class dto of None \<Rightarrow> te_class e | Some c \<Rightarrow> c)
        then aj_delta dto else 0)) \<and>
    (\<forall>c. aj_kind dto = Reclass \<and> aj_class dto = Some c \<and> c \<noteq> te_class e \<longrightarrow>
       (\<forall>f t. class_minutes st' (te_contract e) f t (te_class e) = class_minutes st (te_contract e) f t (te_class e)))"
proof -
  obtain e :: time_entry and a where
    *: "entry_by_id st (aj_entry dto) = Some e" "ad_entry a = te_id e" "ad_contract a = te_contract e"
      "ad_performed a = adjustment_day st e now" "ad_delta a = aj_delta dto" "ad_class a = aj_class dto"
      "tm_entries st' = tm_entries st" "tm_adjustments st' = tm_adjustments st @ [a]"
    by (rule adjust_writes [OF assms])
  have e: "entry_by_id st (ad_entry a) = Some e" using *(1,2) entry_by_id_id [OF *(1)] by simp
  have k: "class_minutes st' (te_contract e) f t k = class_minutes st (te_contract e) f t k +
       (if within_days f t (adjustment_day st e now) \<and> k = (case aj_class dto of None \<Rightarrow> te_class e | Some c \<Rightarrow> c)
        then aj_delta dto else 0)" for f t k
    unfolding class_minutes_def consumption_after_adjustment [OF *(7,8) e]
    by (auto simp: *(3-6) adjustment_class_def)
  show ?thesis by (intro exI [of _ e] conjI allI impI *(1)) (auto simp: k)
qed

theorem adjustment_adds_delta_witness:
  "\<exists>st'. adjust sample_time sample_agent (\<lambda>c. sample_contract) (sample_adjust\<lparr>aj_kind := Reclass, aj_class := Some ''internal'', aj_delta := 60\<rparr>)
      ''a2'' sample_now month_logged = Inr st' \<and>
    class_minutes st' ''c'' (Ymd 2026 1 1) (Ymd 2026 1 31) ''billable'' = class_minutes month_logged ''c'' (Ymd 2026 1 1) (Ymd 2026 1 31) ''billable''"
proof -
  let ?d = "sample_adjust\<lparr>aj_kind := Reclass, aj_class := Some ''internal'', aj_delta := 60\<rparr>"
  have "(case adjust sample_time sample_agent (\<lambda>c. sample_contract) ?d ''a2'' sample_now month_logged of Inl e \<Rightarrow> False | Inr s \<Rightarrow> True)"
    by code_simp
  then obtain st' where *: "adjust sample_time sample_agent (\<lambda>c. sample_contract) ?d ''a2'' sample_now month_logged = Inr st'"
    by (auto split: sum.splits)
  have "(case entry_by_id month_logged ''e1'' of Some e \<Rightarrow> te_contract e = ''c'' \<and> te_class e = ''billable'' | None \<Rightarrow> False)"
    by code_simp
  with adjustment_adds_delta [OF *] * show ?thesis
    by (auto simp: sample_adjust_def split: option.splits)
qed

text \<open>The minutes the close gate reads are the minutes the ticket shows: over reachable rows the query that adds a
  ticket's entries and the adjustments of them gives the sum of the adjusted minutes entry by entry.\<close>

theorem logged_minutes_total:
  assumes "time_reached fnm st"
  shows "logged_minutes st ticket = total_of_ticket st ticket"
proof -
  have ok: "rows_ok st" using reached_ok [OF assms] by (simp add: time_ok_def)
  let ?es = "filter (\<lambda>e. te_ticket e = Some ticket) (tm_entries st)"
  have d: "distinct (map te_id (tm_entries st))" using ok by (simp add: rows_ok_def)
  then have "distinct (map te_id ?es)" by (simp add: distinct_map_filter)
  from sum_adjustments_by_entry [OF this, of "tm_adjustments st"]
  have "total_of_ticket st ticket = sum_list (map te_minutes ?es) +
      sum_list (map ad_delta (filter (\<lambda>a. ad_entry a \<in> te_id ` set ?es) (tm_adjustments st)))"
    by (simp add: total_of_ticket_def adjusted_minutes_def [abs_def] adjustments_of_entry_def sum_list_addf)
  moreover have "filter (\<lambda>a. ad_entry a \<in> te_id ` set ?es) (tm_adjustments st) =
      filter (\<lambda>a. case entry_by_id st (ad_entry a) of None \<Rightarrow> False | Some e \<Rightarrow> te_ticket e = Some ticket) (tm_adjustments st)"
  proof (rule filter_cong [OF refl])
    fix a assume "a \<in> set (tm_adjustments st)"
    then obtain e where "e \<in> set (tm_entries st)" "ad_entry a = te_id e" using ok by (auto simp: rows_ok_def)
    with entry_by_id_self [OF d this(1)] d
    show "(ad_entry a \<in> te_id ` set ?es) = (case entry_by_id st (ad_entry a) of None \<Rightarrow> False | Some e \<Rightarrow> te_ticket e = Some ticket)"
      by (auto simp: distinct_map inj_on_def)
  qed
  moreover have "0 \<le> total_of_ticket st ticket"
    using ok by (auto simp: total_of_ticket_def rows_ok_def intro!: sum_list_nonneg)
  ultimately show ?thesis by (simp add: logged_minutes_def)
qed

theorem logged_minutes_total_witness: "logged_minutes month_locked ''t1'' = total_of_ticket month_locked ''t1''"
  using logged_minutes_total [OF sample_reached(4)] .

text \<open>The comp-time report loses overage: the report asks for a multiplier of exactly 1, but the multiplier stored
  with an entry is that of the overage rule times that of the after-hours handling, so on a comp-time
  contract an after-hours entry charged at an overage multiplier above one is left out.\<close>

theorem comp_time_loses_overage:
  assumes "insert_entry r p name target dto i now st = Inr (st', e)" "co_handling (tg_contract target) = Comp_time"
    "te_after_class e \<noteq> Standard" "period_for st (co_id (tg_contract target)) (lg_performed dto) = Some q"
    "class_consumes (tr_classes r) (te_class e)" "co_overage (tg_contract target) = Allow_rate"
    "co_overage_multiplier (tg_contract target) = Some m" "1 < round_to 3 m" "0 < period_available q"
    "period_available q < used_before r st (Some q) (tg_contract target) (te_class e) + lg_minutes dto"
  shows "te_multiplier e = round_to 3 m \<and> e \<notin> set (comp_time_entries contract_by_id st' account f t)"
proof -
  let ?q = "period_for st (co_id (tg_contract target)) (lg_performed dto)"
  obtain cls d where
    **: "e = new_entry r p name target dto cls d i now"
      "d = entry_overage r ?q (tg_contract target) cls (used_before r st ?q (tg_contract target) cls) (lg_minutes dto)"
    by (rule insert_entry_success [OF assms(1)]) blast
  note * = ** [unfolded assms(4)]
  have cls: "te_class e = cls" by (simp add: *(1) new_entry_def Let_def)
  have m: "1 \<le> m"
  proof (rule ccontr)
    assume "\<not> 1 \<le> m"
    then have "round_to 3 m \<le> round_to 3 (of_int 1)" by (intro round_to_mono) simp
    with assms(8) show False by (simp only: round_to_of_int)
  qed
  have "od_multiplier d = m"
    using assms(5-7,9,10) m by (simp add: *(2) cls entry_overage_def overage_decision_def Let_def)
  then have "te_multiplier e = round_to 3 m"
    using assms(2) by (simp add: *(1) new_entry_def Let_def multiplier_for_def)
  with assms(8) show ?thesis by (auto simp: comp_time_entries_def)
qed

definition comp_contract :: contract_row where
  "comp_contract = sample_contract\<lparr>co_overage := Allow_rate, co_overage_multiplier := Some (3 / 2), co_handling := Comp_time\<rparr>"

theorem comp_time_loses_overage_witness:
  "\<exists>st' e. insert_entry sample_time sample_agent ''Ann'' \<lparr>tg_account = ''a'', tg_contract = comp_contract, tg_ticket = None, tg_bucket = Some ''b''\<rparr>
      (sample_log\<lparr>lg_after_hours := True\<rparr>) ''e2'' sample_now month_logged = Inr (st', e) \<and> te_after_class e = After_hours \<and>
    e \<notin> set (comp_time_entries (\<lambda>c. comp_contract) st' ''a'' (Ymd 2026 1 1) (Ymd 2026 1 31))"
proof -
  let ?t = "\<lparr>tg_account = ''a'', tg_contract = comp_contract, tg_ticket = None, tg_bucket = Some ''b''\<rparr>"
  let ?d = "sample_log\<lparr>lg_after_hours := True\<rparr>"
  have run: "(case insert_entry sample_time sample_agent ''Ann'' ?t ?d ''e2'' sample_now month_logged of
      Inl e \<Rightarrow> False | Inr (s, e) \<Rightarrow> te_after_class e = After_hours \<and> te_class e = ''billable'')"
    and q: "(case period_for month_logged (co_id (tg_contract ?t)) (lg_performed ?d) of None \<Rightarrow> False
      | Some q \<Rightarrow> 0 < period_available q \<and>
          period_available q < used_before sample_time month_logged (Some q) (tg_contract ?t) ''billable'' + lg_minutes ?d)"
    and c: "co_handling (tg_contract ?t) = Comp_time" "class_consumes (tr_classes sample_time) ''billable''"
      "co_overage (tg_contract ?t) = Allow_rate" "co_overage_multiplier (tg_contract ?t) = Some (3 / 2)" "(1::rat) < round_to 3 (3 / 2)"
    by code_simp+
  from run obtain st' e where *: "insert_entry sample_time sample_agent ''Ann'' ?t ?d ''e2'' sample_now month_logged = Inr (st', e)"
      "te_after_class e = After_hours" "te_class e = ''billable''"
    by (auto split: sum.splits prod.splits)
  from q obtain q where q: "period_for month_logged (co_id (tg_contract ?t)) (lg_performed ?d) = Some q" "0 < period_available q"
      "period_available q < used_before sample_time month_logged (Some q) (tg_contract ?t) (te_class e) + lg_minutes ?d"
    by (auto simp: *(3) split: option.splits)
  from comp_time_loses_overage [OF *(1) c(1) _ q(1) _ c(3-5) q(2,3)] * c(2) show ?thesis by auto
qed

end
