(* ===== verification/Forms.thy ===== *)
theory Forms
  imports Close_Discipline
begin

section \<open>Request forms (src/domain/portal/form-schema.ts, src/modules/portal/forms.module.ts)\<close>

text \<open>
  A form definition arrives as JSON and is checked field by field; a submission is checked against a
  definition and mapped to ticket columns and custom keys. Definitions stay JSON here, as the code
  casts them, so that what the validator accepted is what the submission check reads. A problem is its
  field and its code, the wording is left out; \<open>None\<close> is a \<open>TypeError\<close> the code does not catch. The last
  part is the life of a form's versions: drafts, publication, and what is served.
\<close>

subsection \<open>Kinds and columns\<close>

datatype field_kind =
    Short_text | Long_text | Choice | Multi_choice | Date_field | Number_field | Boolean_field
  | Ci_picker | Contact_picker | Urgency_field | Impact_field | Attachment_field

definition field_kinds :: "(string \<times> field_kind) list" where
  "field_kinds =
     [(''short_text'', Short_text), (''long_text'', Long_text), (''choice'', Choice), (''multi_choice'', Multi_choice),
      (''date'', Date_field), (''number'', Number_field), (''boolean'', Boolean_field), (''ci_picker'', Ci_picker),
      (''contact_picker'', Contact_picker), (''urgency'', Urgency_field), (''impact'', Impact_field), (''attachment'', Attachment_field)]"

definition ticket_columns :: "string list" where
  "ticket_columns = [''short_description'', ''description'', ''category'', ''impact'', ''urgency'', ''configuration_item_id'']"

fun columns_of_kind :: "field_kind \<Rightarrow> string list" where
  "columns_of_kind Short_text = [''short_description'', ''category'']"
| "columns_of_kind Long_text = [''description'']"
| "columns_of_kind Choice = [''category'']"
| "columns_of_kind Ci_picker = [''configuration_item_id'']"
| "columns_of_kind Urgency_field = [''urgency'']"
| "columns_of_kind Impact_field = [''impact'']"
| "columns_of_kind k = []"

definition conditionable :: "field_kind list" where
  "conditionable = [Choice, Multi_choice, Boolean_field, Urgency_field, Impact_field]"

definition form_levels :: "string list" where
  "form_levels = [''high'', ''medium'', ''low'']"

definition kind_of :: "json \<Rightarrow> field_kind option" where
  "kind_of f = (case jget ''kind'' f of JStr s \<Rightarrow> map_of field_kinds s | _ \<Rightarrow> None)"

text \<open>The patterns for keys, dates and identifiers.\<close>

definition form_key :: "string \<Rightarrow> bool" where
  "form_key s \<longleftrightarrow> is_snake_case s \<and> length s \<le> 61"

definition date_shape :: "string \<Rightarrow> bool" where
  "date_shape s \<longleftrightarrow> length s = 10 \<and>
     (\<forall>i\<in>set [0..<10]. if i = 4 \<or> i = 7 then s ! i = CHR ''-'' else is_digit (s ! i))"

definition hex_char :: "char \<Rightarrow> bool" where
  "hex_char c \<longleftrightarrow> is_digit c \<or> js_lower_char c \<in> set ''abcdef''"

definition is_uuid :: "string \<Rightarrow> bool" where
  "is_uuid s \<longleftrightarrow> length s = 36 \<and>
     (\<forall>i\<in>set [0..<36]. if i \<in> {8, 13, 18, 23} then s ! i = CHR ''-''
        else if i = 14 then s ! i \<in> set ''12345''
        else if i = 19 then js_lower_char (s ! i) \<in> set ''89ab''
        else hex_char (s ! i))"

type_synonym form_problem = "string \<times> string"

definition max_problems :: nat where "max_problems = 50"
definition max_fields :: nat where "max_fields = 60"
definition max_label :: nat where "max_label = 160"

subsection \<open>The definition validator\<close>

record form_scan =
  fs_keys :: "string list"
  fs_targets :: "string list"
  fs_by_key :: "(string \<times> json) list"
  fs_attachments :: nat
  fs_problems :: "form_problem list"

definition label_ok :: "json \<Rightarrow> bool" where
  "label_ok v = (case v of JStr s \<Rightarrow> js_trim s \<noteq> [] \<and> length s \<le> max_label | _ \<Rightarrow> False)"

definition help_ok :: "json \<Rightarrow> bool" where
  "help_ok v = (case v of JUndef \<Rightarrow> True | JStr s \<Rightarrow> length s \<le> 400 | _ \<Rightarrow> False)"

definition option_value_ok :: "json \<Rightarrow> bool" where
  "option_value_ok v = (case v of JStr s \<Rightarrow> s \<noteq> [] \<and> length s \<le> 120 | _ \<Rightarrow> False)"

fun option_problems :: "string \<Rightarrow> string list \<Rightarrow> json list \<Rightarrow> form_problem list" where
  "option_problems key seen [] = []"
| "option_problems key seen (opt # opts) =
     (let v = jget ''value'' opt;
          bad = (\<not> option_value_ok v);
          dup = (\<not> bad \<and> text_of v \<in> set seen)
      in (if bad then [(key, ''bad_option'')] else if dup then [(key, ''duplicate_option'')] else []) @
         (if label_ok (jget ''label'' opt) then [] else [(key, ''bad_option'')]) @
         option_problems key (if bad \<or> dup then seen else text_of v # seen) opts)"

definition options_problems :: "string \<Rightarrow> field_kind \<Rightarrow> json \<Rightarrow> form_problem list" where
  "options_problems key kind options =
     (if kind = Choice \<or> kind = Multi_choice then
        (case options of
           JArr xs \<Rightarrow> if xs = [] \<or> length xs > 50 then [(key, ''bad_options'')] else option_problems key [] xs
         | _ \<Rightarrow> [(key, ''bad_options'')])
      else if options \<noteq> JUndef then [(key, ''options_not_allowed'')] else [])"

definition custom_prefix :: string where
  "custom_prefix = ''custom.''"

definition target_problems :: "string \<Rightarrow> field_kind \<Rightarrow> json \<Rightarrow> form_problem list" where
  "target_problems key kind maps_to =
     (let t = text_of maps_to
      in if t = [] then [(key, ''missing_maps_to'')]
         else if starts_with custom_prefix t then
           (if form_key (drop (length custom_prefix) t) then [] else [(key, ''bad_maps_to'')])
         else if t \<notin> set ticket_columns then [(key, ''bad_maps_to'')]
         else if t \<notin> set (columns_of_kind kind) then [(key, ''bad_maps_to'')]
         else [])"

fun some_option :: "string \<Rightarrow> json list \<Rightarrow> bool option" where
  "some_option v [] = Some False"
| "some_option v (opt # opts) =
     (if opt = JNull then None else if jget ''value'' opt = JStr v then Some True else some_option v opts)"

text \<open>\<open>conditionValueAllowed\<close>; \<open>None\<close> where it calls \<open>some\<close> on what is no list, or reads a member of null.\<close>

definition condition_value_allowed :: "json \<Rightarrow> json \<Rightarrow> bool option" where
  "condition_value_allowed controller equals =
     (case kind_of controller of
        Some Boolean_field \<Rightarrow> Some (case equals of JBool b \<Rightarrow> True | _ \<Rightarrow> False)
      | Some k \<Rightarrow>
          if k = Urgency_field \<or> k = Impact_field
          then Some (case equals of JStr s \<Rightarrow> s \<in> set form_levels | _ \<Rightarrow> False)
          else
            (case equals of
               JStr s \<Rightarrow>
                 (case jget ''options'' controller of
                    JUndef \<Rightarrow> Some False | JNull \<Rightarrow> Some False
                  | JArr opts \<Rightarrow> some_option s opts
                  | _ \<Rightarrow> None)
             | _ \<Rightarrow> Some False)
      | None \<Rightarrow> Some False)"

definition condition_problems :: "string \<Rightarrow> (string \<times> json) list \<Rightarrow> json \<Rightarrow> form_problem list option" where
  "condition_problems key by_key condition =
     (if condition = JUndef then Some []
      else
        (case (case jget ''field'' condition of JStr s \<Rightarrow> map_of by_key s | _ \<Rightarrow> None) of
           None \<Rightarrow> Some [(key, ''bad_condition'')]
         | Some controller \<Rightarrow>
             if jget ''key'' controller = JStr key then Some [(key, ''bad_condition'')]
             else if (case kind_of controller of None \<Rightarrow> True | Some k \<Rightarrow> k \<notin> set conditionable) then Some [(key, ''bad_condition'')]
             else
               (case condition_value_allowed controller (jget ''equals'' condition) of
                  None \<Rightarrow> None
                | Some ok \<Rightarrow> Some (if ok then [] else [(key, ''bad_condition'')]))))"

text \<open>One field: the early \<open>continue\<close>s for a bad or repeated key and an unknown kind, then every other check.\<close>

definition scan_field :: "(nat \<Rightarrow> string) \<Rightarrow> nat \<Rightarrow> json \<Rightarrow> form_scan \<Rightarrow> form_scan option" where
  "scan_field num i f s =
     (case jget ''key'' f of
        JStr key \<Rightarrow>
          if \<not> form_key key \<or> key = ''constructor'' then Some (s\<lparr>fs_problems := fs_problems s @ [(key, ''bad_key'')]\<rparr>)
          else if key \<in> set (fs_keys s) then Some (s\<lparr>fs_problems := fs_problems s @ [(key, ''duplicate_key'')]\<rparr>)
          else
            (case kind_of f of
               None \<Rightarrow> Some (s\<lparr>fs_keys := key # fs_keys s, fs_problems := fs_problems s @ [(key, ''bad_kind'')]\<rparr>)
             | Some kind \<Rightarrow>
                 let by_key = fs_by_key s @ [(key, f)];
                     target = text_of (jget ''maps_to'' f)
                 in (case condition_problems key by_key (jget ''visible_when'' f) of
                       None \<Rightarrow> None
                     | Some conditions \<Rightarrow>
                         Some \<lparr>fs_keys = key # fs_keys s,
                           fs_targets = (if target = [] then fs_targets s else target # fs_targets s),
                           fs_by_key = by_key,
                           fs_attachments = (if kind = Attachment_field then fs_attachments s + 1 else fs_attachments s),
                           fs_problems = fs_problems s @
                             (if label_ok (jget ''label'' f) then [] else [(key, ''bad_label'')]) @
                             (if help_ok (jget ''help'' f) then [] else [(key, ''bad_help'')]) @
                             options_problems key kind (jget ''options'' f) @
                             target_problems key kind (jget ''maps_to'' f) @
                             (if target \<noteq> [] \<and> target \<in> set (fs_targets s) then [(key, ''duplicate_maps_to'')] else []) @
                             conditions\<rparr>))
      | _ \<Rightarrow> Some (s\<lparr>fs_problems := fs_problems s @ [(''field '' @ num (i + 1), ''bad_key'')]\<rparr>))"

fun scan_fields :: "(nat \<Rightarrow> string) \<Rightarrow> nat \<Rightarrow> json list \<Rightarrow> form_scan \<Rightarrow> form_scan option" where
  "scan_fields num i [] s = Some s"
| "scan_fields num i (f # fs) s =
     (case scan_field num i f s of None \<Rightarrow> None | Some s' \<Rightarrow> scan_fields num (i + 1) fs s')"

definition empty_scan :: form_scan where
  "empty_scan = \<lparr>fs_keys = [], fs_targets = [], fs_by_key = [], fs_attachments = 0, fs_problems = []\<rparr>"

definition closing_problems :: "form_scan \<Rightarrow> form_problem list" where
  "closing_problems s =
     (if fs_attachments s > 1 then [(''fields'', ''too_many_attachments'')] else []) @
     (if list_ex (\<lambda>p. kind_of (snd p) = Some Urgency_field) (fs_by_key s) \<noteq>
         list_ex (\<lambda>p. kind_of (snd p) = Some Impact_field) (fs_by_key s)
      then [(''fields'', ''urgency_impact_pair'')] else []) @
     map (\<lambda>p. (fst p, ''required_attachment''))
       (filter (\<lambda>p. truthy (jget ''required'' (snd p)) \<and> kind_of (snd p) = Some Attachment_field) (fs_by_key s))"

definition definition_problems :: "(nat \<Rightarrow> string) \<Rightarrow> json \<Rightarrow> form_problem list option" where
  "definition_problems num d =
     (case jget ''fields'' d of
        JArr fds \<Rightarrow>
          if length fds > max_fields then Some [(''fields'', ''too_many'')]
          else
            (case scan_fields num 0 fds
                (empty_scan\<lparr>fs_problems := (if fds = [] then [(''fields'', ''empty'')] else [])\<rparr>) of
               None \<Rightarrow> None
             | Some s \<Rightarrow> Some (fs_problems s @ closing_problems s))
      | _ \<Rightarrow> Some [(''fields'', ''not_a_list'')])"

subsection \<open>Submissions\<close>

record submission_scan =
  ss_problems :: "form_problem list"
  ss_columns :: "json js_map"
  ss_custom :: "json js_map"
  ss_hidden :: "string list"
  ss_visible :: "(string \<times> json) list"

definition condition_holds :: "json \<Rightarrow> (string \<times> json) list \<Rightarrow> bool" where
  "condition_holds condition visible =
     (case map_of visible (text_of (jget ''field'' condition)) of
        None \<Rightarrow> False
      | Some (JArr xs) \<Rightarrow> jget ''equals'' condition \<in> set xs
      | Some a \<Rightarrow> a = jget ''equals'' condition)"

fun is_blank :: "json \<Rightarrow> bool" where
  "is_blank JUndef = True"
| "is_blank JNull = True"
| "is_blank (JStr s) = (js_trim s = [])"
| "is_blank (JArr xs) = (xs = [])"
| "is_blank v = False"

definition option_values :: "json \<Rightarrow> json list" where
  "option_values f = (case jget ''options'' f of JArr xs \<Rightarrow> map (jget ''value'') xs | _ \<Rightarrow> [])"

fun multi_problem :: "json list \<Rightarrow> json list \<Rightarrow> json list \<Rightarrow> string option" where
  "multi_problem values seen [] = None"
| "multi_problem values seen (x # xs) =
     (if (case x of JStr s \<Rightarrow> x \<notin> set values | _ \<Rightarrow> True) then Some ''not_an_option''
      else if x \<in> set seen then Some ''bad_value''
      else multi_problem values (x # seen) xs)"

definition uuid_answer :: "json \<Rightarrow> bool" where
  "uuid_answer v = (case v of JStr s \<Rightarrow> is_uuid s | _ \<Rightarrow> False)"

definition kind_problem :: "(string \<Rightarrow> bool) \<Rightarrow> json \<Rightarrow> json \<Rightarrow> string option" where
  "kind_problem date_parses f a =
     (let bad_unless = (\<lambda>ok. if ok then None else Some ''bad_value'')
      in case kind_of f of
           None \<Rightarrow> None
         | Some Short_text \<Rightarrow> bad_unless (case a of JStr s \<Rightarrow> length s \<le> 300 | _ \<Rightarrow> False)
         | Some Long_text \<Rightarrow> bad_unless (case a of JStr s \<Rightarrow> length s \<le> 50000 | _ \<Rightarrow> False)
         | Some Choice \<Rightarrow> if (case a of JStr s \<Rightarrow> a \<in> set (option_values f) | _ \<Rightarrow> False) then None else Some ''not_an_option''
         | Some Multi_choice \<Rightarrow>
             (case a of
                JArr xs \<Rightarrow> if length xs > length (option_values f) then Some ''bad_value'' else multi_problem (option_values f) [] xs
              | _ \<Rightarrow> Some ''bad_value'')
         | Some Date_field \<Rightarrow> bad_unless (case a of JStr s \<Rightarrow> date_shape s \<and> date_parses s | _ \<Rightarrow> False)
         | Some Number_field \<Rightarrow> bad_unless (case a of JNum x \<Rightarrow> True | _ \<Rightarrow> False)
         | Some Boolean_field \<Rightarrow> bad_unless (case a of JBool b \<Rightarrow> True | _ \<Rightarrow> False)
         | Some Ci_picker \<Rightarrow> bad_unless (uuid_answer a)
         | Some Contact_picker \<Rightarrow> bad_unless (uuid_answer a)
         | Some Urgency_field \<Rightarrow> bad_unless (case a of JStr s \<Rightarrow> s \<in> set form_levels | _ \<Rightarrow> False)
         | Some Impact_field \<Rightarrow> bad_unless (case a of JStr s \<Rightarrow> s \<in> set form_levels | _ \<Rightarrow> False)
         | Some Attachment_field \<Rightarrow> bad_unless (case a of JArr xs \<Rightarrow> length xs \<le> 20 \<and> list_all uuid_answer xs | _ \<Rightarrow> False))"

definition column_allowed :: "json \<Rightarrow> string \<Rightarrow> bool" where
  "column_allowed f target \<longleftrightarrow> target \<in> set ticket_columns \<and>
     (case kind_of f of None \<Rightarrow> False | Some k \<Rightarrow> target \<in> set (columns_of_kind k))"

definition form_field_key :: "json \<Rightarrow> string" where
  "form_field_key f = text_of (jget ''key'' f)"

definition check_field :: "(string \<Rightarrow> bool) \<Rightarrow> json js_map \<Rightarrow> submission_scan \<Rightarrow> json \<Rightarrow> submission_scan" where
  "check_field date_parses answers s f =
     (let key = form_field_key f; condition = jget ''visible_when'' f; target = text_of (jget ''maps_to'' f)
      in if truthy condition \<and> \<not> condition_holds condition (ss_visible s) then s\<lparr>ss_hidden := ss_hidden s @ [key]\<rparr>
         else
           let answer = (case map_of answers key of None \<Rightarrow> JUndef | Some v \<Rightarrow> v);
               unanswered = s\<lparr>ss_visible := AList.update key JUndef (ss_visible s)\<rparr>
           in if is_blank answer
              then (if truthy (jget ''required'' f)
                    then unanswered\<lparr>ss_problems := ss_problems s @ [(key, ''required'')]\<rparr> else unanswered)
              else
                (case kind_problem date_parses f answer of
                   Some code \<Rightarrow> unanswered\<lparr>ss_problems := ss_problems s @ [(key, code)]\<rparr>
                 | None \<Rightarrow>
                     let s' = s\<lparr>ss_visible := AList.update key answer (ss_visible s)\<rparr>
                     in if starts_with custom_prefix target
                        then s'\<lparr>ss_custom := AList.update (drop (length custom_prefix) target) answer (ss_custom s)\<rparr>
                        else if \<not> column_allowed f target then s'\<lparr>ss_problems := ss_problems s @ [(key, ''bad_maps_to'')]\<rparr>
                        else s'\<lparr>ss_columns := AList.update target answer (ss_columns s)\<rparr>))"

definition unknown_keys :: "json list \<Rightarrow> json js_map \<Rightarrow> string list" where
  "unknown_keys fds answers = filter (\<lambda>k. k \<notin> set (map form_field_key fds)) (map fst answers)"

definition unknown_problems :: "string list \<Rightarrow> form_problem list" where
  "unknown_problems ks =
     map (\<lambda>k. (k, ''unknown_field'')) (take max_problems ks) @
     (if length ks > max_problems then [(''answers'', ''too_many_unknown_fields'')] else [])"

definition validate_submission :: "(string \<Rightarrow> bool) \<Rightarrow> json list \<Rightarrow> json js_map \<Rightarrow> submission_scan" where
  "validate_submission date_parses fds answers =
     (let s = foldl (check_field date_parses answers)
            \<lparr>ss_problems = [], ss_columns = [], ss_custom = [], ss_hidden = [], ss_visible = []\<rparr> fds
      in s\<lparr>ss_problems := ss_problems s @ unknown_problems (unknown_keys fds answers)\<rparr>)"

text \<open>The form served when an account has published none.\<close>

definition plain_field :: "string \<Rightarrow> string \<Rightarrow> string \<Rightarrow> json" where
  "plain_field key kind label = JObj [(''key'', JStr key), (''kind'', JStr kind), (''label'', JStr label), (''maps_to'', JStr key)]"

definition default_fields :: "bool \<Rightarrow> json list" where
  "default_fields incident =
     [JObj [(''key'', JStr ''short_description''), (''kind'', JStr ''short_text''),
        (''label'', JStr (if incident then ''What went wrong?'' else ''What do you need?'')), (''required'', JBool True),
        (''maps_to'', JStr ''short_description'')],
      JObj [(''key'', JStr ''description''), (''kind'', JStr ''long_text''), (''label'', JStr ''Tell us more''),
        (''help'', JStr ''Anything that helps us start: what you expected, what happened, who is affected.''),
        (''maps_to'', JStr ''description'')],
      plain_field ''category'' ''short_text'' ''Category'',
      plain_field ''impact'' ''impact'' ''How many people does this affect?'',
      plain_field ''urgency'' ''urgency'' ''How soon do you need it?'']"

subsection \<open>What an accepted definition is\<close>

definition form_target :: "json \<Rightarrow> string" where
  "form_target f = text_of (jget ''maps_to'' f)"

definition field_ok :: "json \<Rightarrow> bool" where
  "field_ok f \<longleftrightarrow> form_key (form_field_key f) \<and>
     (\<exists>k. kind_of f = Some k \<and> target_problems (form_field_key f) k (jget ''maps_to'' f) = [])"

lemma scan_field_clean:
  assumes "scan_field num i f s = Some s'" "fs_problems s' = []"
  shows "fs_problems s = [] \<and> field_ok f \<and> form_field_key f \<notin> set (fs_keys s) \<and> form_target f \<notin> set (fs_targets s) \<and>
    fs_keys s' = form_field_key f # fs_keys s \<and> fs_targets s' = form_target f # fs_targets s"
proof -
  obtain key where key: "jget ''key'' f = JStr key"
    using assms by (auto simp: scan_field_def split: json.splits)
  have ok: "form_key key" "key \<noteq> ''constructor''" "key \<notin> set (fs_keys s)"
    using assms by (auto simp: scan_field_def key split: if_splits)
  obtain kind where kind: "kind_of f = Some kind"
    using assms ok by (auto simp: scan_field_def key split: if_splits option.splits)
  obtain conditions where c: "condition_problems key (fs_by_key s @ [(key, f)]) (jget ''visible_when'' f) = Some conditions"
    using assms(1) ok by (auto simp: scan_field_def key kind Let_def split: option.splits)
  have t: "target_problems key kind (jget ''maps_to'' f) = []"
    using assms ok by (auto simp: scan_field_def key kind c Let_def)
  then have "text_of (jget ''maps_to'' f) \<noteq> []" by (auto simp: target_problems_def Let_def)
  then show ?thesis
    using assms ok t by (auto simp: scan_field_def key kind c Let_def field_ok_def form_field_key_def form_target_def text_of_def split: if_splits)
qed

lemma scan_fields_clean:
  assumes "scan_fields num i fs s = Some s'" "fs_problems s' = []"
  shows "fs_problems s = [] \<and> list_all field_ok fs \<and> distinct (map form_field_key fs) \<and> distinct (map form_target fs) \<and>
    set (map form_field_key fs) \<inter> set (fs_keys s) = {} \<and> set (map form_target fs) \<inter> set (fs_targets s) = {}"
  using assms
proof (induction fs arbitrary: i s)
  case (Cons f fs)
  then obtain mid where mid: "scan_field num i f s = Some mid" "scan_fields num (i + 1) fs mid = Some s'"
    by (auto split: option.splits)
  from Cons.IH [OF mid(2) Cons.prems(2)] have ih: "fs_problems mid = []" "list_all field_ok fs" "distinct (map form_field_key fs)"
    "distinct (map form_target fs)" "set (map form_field_key fs) \<inter> set (fs_keys mid) = {}" "set (map form_target fs) \<inter> set (fs_targets mid) = {}"
    by blast+
  from scan_field_clean [OF mid(1) ih(1)] ih show ?case by auto
qed simp

lemma accepted_fields:
  assumes "definition_problems num d = Some []" "jget ''fields'' d = JArr fds"
  shows "list_all field_ok fds \<and> distinct (map form_field_key fds) \<and> distinct (map form_target fds) \<and> length fds \<le> max_fields"
proof -
  from assms obtain s where "scan_fields num 0 fds (empty_scan\<lparr>fs_problems := (if fds = [] then [(''fields'', ''empty'')] else [])\<rparr>) = Some s"
      "fs_problems s = []" "length fds \<le> max_fields"
    by (auto simp: definition_problems_def split: option.splits if_splits)
  then show ?thesis using scan_fields_clean by blast
qed

lemma field_ok_target: "field_ok f \<Longrightarrow> starts_with custom_prefix (form_target f) \<or> column_allowed f (form_target f)"
  by (auto simp: field_ok_def target_problems_def column_allowed_def form_target_def Let_def split: if_splits)

subsection \<open>What a submission stores\<close>

definition run_fields :: "(string \<Rightarrow> bool) \<Rightarrow> json js_map \<Rightarrow> json list \<Rightarrow> submission_scan" where
  "run_fields date_parses answers fs = foldl (check_field date_parses answers)
     \<lparr>ss_problems = [], ss_columns = [], ss_custom = [], ss_hidden = [], ss_visible = []\<rparr> fs"

lemma run_fields_snoc: "run_fields dp answers (fs @ [f]) = check_field dp answers (run_fields dp answers fs) f"
  by (simp add: run_fields_def)

lemma validate_run:
  "ss_problems (validate_submission dp fds answers) = ss_problems (run_fields dp answers fds) @ unknown_problems (unknown_keys fds answers)"
  "ss_columns (validate_submission dp fds answers) = ss_columns (run_fields dp answers fds)"
  "ss_custom (validate_submission dp fds answers) = ss_custom (run_fields dp answers fds)"
  "ss_hidden (validate_submission dp fds answers) = ss_hidden (run_fields dp answers fds)"
  by (simp_all add: validate_submission_def run_fields_def Let_def)

definition field_codes :: "string list" where
  "field_codes = [''required'', ''bad_value'', ''not_an_option'']"

lemma multi_problem_code: "multi_problem vs seen xs = Some c \<Longrightarrow> c \<in> set field_codes"
  by (induction vs seen xs rule: multi_problem.induct) (auto simp: field_codes_def split: if_splits json.splits)

lemma kind_problem_code: "kind_problem dp f a = Some c \<Longrightarrow> c \<in> set field_codes"
  using multi_problem_code
  by (auto simp: kind_problem_def Let_def field_codes_def split: option.splits field_kind.splits json.splits if_splits)

text \<open>Each field adds at most one problem, and on an accepted definition never one about where it writes.\<close>

lemma check_field_problems:
  "\<exists>ps. ss_problems (check_field dp answers s f) = ss_problems s @ ps \<and> length ps \<le> 1 \<and>
     (field_ok f \<longrightarrow> (\<forall>p\<in>set ps. fst p = form_field_key f \<and> snd p \<in> set field_codes))"
  using kind_problem_code [of dp f] field_ok_target [of f]
  by (auto simp: check_field_def Let_def field_codes_def form_target_def [symmetric] split: option.splits if_splits)

lemma run_fields_problems:
  "length (ss_problems (run_fields dp answers fs)) \<le> length fs \<and>
   (list_all field_ok fs \<longrightarrow> (\<forall>p\<in>set (ss_problems (run_fields dp answers fs)). fst p \<in> form_field_key ` set fs \<and> snd p \<in> set field_codes))"
proof (induction fs rule: rev_induct)
  case (snoc f fs)
  from check_field_problems [of dp answers "run_fields dp answers fs" f] obtain ps where
    "ss_problems (run_fields dp answers (fs @ [f])) = ss_problems (run_fields dp answers fs) @ ps" "length ps \<le> 1"
    "field_ok f \<longrightarrow> (\<forall>p\<in>set ps. fst p = form_field_key f \<and> snd p \<in> set field_codes)"
    by (auto simp: run_fields_snoc)
  with snoc show ?case by auto
qed (simp add: run_fields_def)

definition answered_by :: "json js_map \<Rightarrow> string list \<Rightarrow> json list \<Rightarrow> string \<Rightarrow> json \<Rightarrow> bool" where
  "answered_by answers hidden fs target v \<longleftrightarrow>
     (\<exists>f\<in>set fs. form_field_key f \<notin> set hidden \<and> form_target f = target \<and> map_of answers (form_field_key f) = Some v \<and> \<not> is_blank v)"

lemma answered_snoc:
  "answered_by answers hs (fs @ [f]) t v \<longleftrightarrow> answered_by answers hs fs t v \<or>
     form_field_key f \<notin> set hs \<and> form_target f = t \<and> map_of answers (form_field_key f) = Some v \<and> \<not> is_blank v"
  by (auto simp: answered_by_def)

lemma answered_target: "answered_by answers hs fs t v \<Longrightarrow> t \<in> form_target ` set fs"
  by (auto simp: answered_by_def)

lemma run_fields_mapped:
  assumes "list_all field_ok fs" "distinct (map form_field_key fs)" "distinct (map form_target fs)"
    "ss_problems (run_fields dp answers fs) = []"
  shows "(\<forall>t v. map_of (ss_columns (run_fields dp answers fs)) t = Some v \<longleftrightarrow>
        \<not> starts_with custom_prefix t \<and> answered_by answers (ss_hidden (run_fields dp answers fs)) fs t v) \<and>
    (\<forall>c v. map_of (ss_custom (run_fields dp answers fs)) c = Some v \<longleftrightarrow>
        answered_by answers (ss_hidden (run_fields dp answers fs)) fs (custom_prefix @ c) v) \<and>
    set (ss_hidden (run_fields dp answers fs)) \<subseteq> form_field_key ` set fs \<and>
    (\<forall>f\<in>set fs. truthy (jget ''required'' f) \<and> form_field_key f \<notin> set (ss_hidden (run_fields dp answers fs)) \<longrightarrow>
        (\<exists>v. map_of answers (form_field_key f) = Some v \<and> \<not> is_blank v))"
  using assms
proof (induction fs rule: rev_induct)
  case Nil
  show ?case by (simp add: run_fields_def answered_by_def)
next
  case (snoc f fs)
  let ?s = "run_fields dp answers fs"
  let ?s' = "check_field dp answers ?s f"
  have fresh: "form_field_key f \<notin> form_field_key ` set fs" "form_target f \<notin> form_target ` set fs" using snoc.prems(2,3) by auto
  have s': "ss_problems ?s' = []" using snoc.prems(4) by (simp add: run_fields_snoc)
  then have "ss_problems ?s = []" using check_field_problems [of dp answers ?s f] by auto
  with snoc have ih: "\<And>t v. map_of (ss_columns ?s) t = Some v \<longleftrightarrow> \<not> starts_with custom_prefix t \<and> answered_by answers (ss_hidden ?s) fs t v"
      "\<And>c v. map_of (ss_custom ?s) c = Some v \<longleftrightarrow> answered_by answers (ss_hidden ?s) fs (custom_prefix @ c) v"
      "set (ss_hidden ?s) \<subseteq> form_field_key ` set fs"
      "\<And>g. g \<in> set fs \<Longrightarrow> truthy (jget ''required'' g) \<Longrightarrow> form_field_key g \<notin> set (ss_hidden ?s) \<Longrightarrow>
        \<exists>v. map_of answers (form_field_key g) = Some v \<and> \<not> is_blank v"
    by simp_all
  have old: "answered_by answers (ss_hidden ?s @ hs) fs t v = answered_by answers (ss_hidden ?s) fs t v"
    if "set hs \<subseteq> {form_field_key f}" for hs t v
  proof -
    have "form_field_key g \<notin> set hs" if "g \<in> set fs" for g
      using that fresh(1) \<open>set hs \<subseteq> {form_field_key f}\<close> by (metis image_eqI singletonD subsetD)
    then show ?thesis unfolding answered_by_def by (auto intro!: bex_cong)
  qed
  let ?a = "case map_of answers (form_field_key f) of None \<Rightarrow> JUndef | Some v \<Rightarrow> v"
  consider (hidden) "ss_columns ?s' = ss_columns ?s" "ss_custom ?s' = ss_custom ?s" "ss_hidden ?s' = ss_hidden ?s @ [form_field_key f]"
    | (blank) "ss_columns ?s' = ss_columns ?s" "ss_custom ?s' = ss_custom ?s" "ss_hidden ?s' = ss_hidden ?s" "is_blank ?a"
        "\<not> truthy (jget ''required'' f)"
    | (custom) "starts_with custom_prefix (form_target f)" "ss_columns ?s' = ss_columns ?s"
        "ss_custom ?s' = AList.update (drop (length custom_prefix) (form_target f)) ?a (ss_custom ?s)" "ss_hidden ?s' = ss_hidden ?s" "\<not> is_blank ?a"
    | (column) "\<not> starts_with custom_prefix (form_target f)" "ss_columns ?s' = AList.update (form_target f) ?a (ss_columns ?s)"
        "ss_custom ?s' = ss_custom ?s" "ss_hidden ?s' = ss_hidden ?s" "\<not> is_blank ?a"
    using s' unfolding check_field_def Let_def form_target_def
    by (force split: if_splits option.splits)
  then show ?case
  proof cases
    case hidden
    show ?thesis
      unfolding run_fields_snoc hidden answered_snoc using ih old [of "[form_field_key f]"] by auto
  next
    case blank
    have no: "\<not> (map_of answers (form_field_key f) = Some v \<and> \<not> is_blank v)" for v
      using blank(4) by auto
    show ?thesis
      unfolding run_fields_snoc blank(1-3) answered_snoc using ih no blank(5) by auto
  next
    case custom
    obtain c where c: "form_target f = custom_prefix @ c" using custom(1) by (auto simp: starts_with_iff)
    obtain v where v: "map_of answers (form_field_key f) = Some v" "\<not> is_blank v"
      using custom(5) by (auto split: option.splits)
    have own: "form_field_key f \<notin> set (ss_hidden ?s)" using ih(3) fresh(1) by blast
    have new: "\<not> answered_by answers (ss_hidden ?s) fs (custom_prefix @ c) w" for w
      using answered_target fresh(2) unfolding c by blast
    have "map_of (ss_custom ?s') = (map_of (ss_custom ?s))(c \<mapsto> v)"
      using custom(3) v(1) c by (simp add: update_conv')
    then have "map_of (ss_custom ?s') d = Some w \<longleftrightarrow> answered_by answers (ss_hidden ?s) (fs @ [f]) (custom_prefix @ d) w" for d w
      using ih(2) new own v unfolding answered_snoc c by auto
    moreover have "map_of (ss_columns ?s') t = Some w \<longleftrightarrow>
        \<not> starts_with custom_prefix t \<and> answered_by answers (ss_hidden ?s) (fs @ [f]) t w" for t w
      using ih(1) custom(1) unfolding custom(2) answered_snoc by auto
    ultimately show ?thesis
      unfolding run_fields_snoc custom(4) using ih(3,4) v by auto
  next
    case column
    obtain v where v: "map_of answers (form_field_key f) = Some v" "\<not> is_blank v"
      using column(5) by (auto split: option.splits)
    have own: "form_field_key f \<notin> set (ss_hidden ?s)" using ih(3) fresh(1) by blast
    have new: "\<not> answered_by answers (ss_hidden ?s) fs (form_target f) w" for w
      using answered_target fresh(2) by blast
    have "map_of (ss_columns ?s') = (map_of (ss_columns ?s))(form_target f \<mapsto> v)"
      using column(2) v(1) by (simp add: update_conv')
    then have "map_of (ss_columns ?s') t = Some w \<longleftrightarrow>
        \<not> starts_with custom_prefix t \<and> answered_by answers (ss_hidden ?s) (fs @ [f]) t w" for t w
      using ih(1) new own v column(1) unfolding answered_snoc by auto
    moreover have "map_of (ss_custom ?s') d = Some w \<longleftrightarrow> answered_by answers (ss_hidden ?s) (fs @ [f]) (custom_prefix @ d) w" for d w
      using ih(2) column(1) starts_with_append [of custom_prefix d] unfolding column(3) answered_snoc by auto
    ultimately show ?thesis
      unfolding run_fields_snoc column(4) using ih(3,4) v by auto
  qed
qed

subsection \<open>Forms and their versions\<close>

record form_version =
  fv_id :: string
  fv_form :: string
  fv_no :: nat
  fv_definition :: json
  fv_published :: bool

record form_row =
  fr_id :: string
  fr_account :: string
  fr_type :: string
  fr_name :: string
  fr_current :: "string option"
  fr_active :: bool
  fr_visible :: bool
  fr_version :: int

record form_store =
  fo_forms :: "form_row list"
  fo_versions :: "form_version list"

datatype form_error =
    Form_not_found
  | Form_already_exists
  | Form_version_published nat
  | Invalid_form_definition "form_problem list"
  | Definition_check_throws
  | Stale_form int
  | Form_refused_by_index

definition assert_definition :: "(nat \<Rightarrow> string) \<Rightarrow> json \<Rightarrow> form_error + unit" where
  "assert_definition num d =
     (case definition_problems num d of
        None \<Rightarrow> Inl Definition_check_throws
      | Some [] \<Rightarrow> Inr ()
      | Some ps \<Rightarrow> Inl (Invalid_form_definition ps))"

definition form_by_id :: "form_store \<Rightarrow> string \<Rightarrow> string \<Rightarrow> form_row option" where
  "form_by_id st account i = find (\<lambda>f. fr_id f = i \<and> fr_account f = account) (fo_forms st)"

definition version_by_id :: "form_store \<Rightarrow> string \<Rightarrow> string \<Rightarrow> form_version option" where
  "version_by_id st form i = find (\<lambda>v. fv_id v = i \<and> fv_form v = form) (fo_versions st)"

definition next_version_no :: "form_store \<Rightarrow> string \<Rightarrow> nat" where
  "next_version_no st form = foldl max 0 (map fv_no (filter (\<lambda>v. fv_form v = form) (fo_versions st))) + 1"

definition new_version :: "form_store \<Rightarrow> string \<Rightarrow> string \<Rightarrow> json \<Rightarrow> form_version" where
  "new_version st form i d = \<lparr>fv_id = i, fv_form = form, fv_no = next_version_no st form, fv_definition = d, fv_published = False\<rparr>"

record form_dto =
  fd_type :: string
  fd_name :: string
  fd_visible :: "bool option"
  fd_definition :: "json option"

definition default_definition :: "string \<Rightarrow> json" where
  "default_definition ty = JObj [(''fields'', JArr (default_fields (ty = ''incident'')))]"

definition create_form ::
    "(nat \<Rightarrow> string) \<Rightarrow> string list \<Rightarrow> string \<Rightarrow> form_dto \<Rightarrow> string \<Rightarrow> string \<Rightarrow> form_store \<Rightarrow> form_error + form_store" where
  "create_form num granted account dto i vi st =
     (let d = (case fd_definition dto of Some d \<Rightarrow> d | None \<Rightarrow> default_definition (fd_type dto))
      in if account \<notin> set granted then Inl Form_not_found
         else and_then (assert_definition num d) (\<lambda>_.
           if \<exists>f\<in>set (fo_forms st). fr_account f = account \<and> fr_active f \<and> fr_type f = fd_type dto then Inl Form_already_exists
           else if i \<in> set (map fr_id (fo_forms st)) \<or> vi \<in> set (map fv_id (fo_versions st)) then Inl Form_refused_by_index
           else Inr \<lparr>fo_forms = fo_forms st @ [\<lparr>fr_id = i, fr_account = account, fr_type = fd_type dto, fr_name = fd_name dto,
                  fr_current = None, fr_active = True, fr_visible = (case fd_visible dto of None \<Rightarrow> True | Some b \<Rightarrow> b), fr_version = 1\<rparr>],
                fo_versions = fo_versions st @ [new_version st i vi d]\<rparr>))"

definition put_form :: "form_row \<Rightarrow> form_store \<Rightarrow> form_store" where
  "put_form f st = st\<lparr>fo_forms := map (\<lambda>x. if fr_id x = fr_id f then f else x) (fo_forms st)\<rparr>"

definition put_version :: "form_version \<Rightarrow> form_store \<Rightarrow> form_store" where
  "put_version v st = st\<lparr>fo_versions := map (\<lambda>x. if fv_id x = fv_id v then v else x) (fo_versions st)\<rparr>"

record form_patch =
  fp_version :: int
  fp_name :: "string option"
  fp_visible :: "bool option"
  fp_active :: "bool option"

definition patch_form :: "string list \<Rightarrow> string \<Rightarrow> string \<Rightarrow> form_patch \<Rightarrow> form_store \<Rightarrow> form_error + form_store" where
  "patch_form granted account i dto st =
     (if account \<notin> set granted then Inl Form_not_found
      else
        (case form_by_id st account i of
           None \<Rightarrow> Inl Form_not_found
         | Some before \<Rightarrow>
             if fp_name dto = None \<and> fp_visible dto = None \<and> fp_active dto = None then Inr st
             else if fr_version before \<noteq> fp_version dto then Inl (Stale_form (fr_version before))
             else
               let f = before\<lparr>fr_name := (case fp_name dto of None \<Rightarrow> fr_name before | Some x \<Rightarrow> x),
                     fr_visible := (case fp_visible dto of None \<Rightarrow> fr_visible before | Some x \<Rightarrow> x),
                     fr_active := (case fp_active dto of None \<Rightarrow> fr_active before | Some x \<Rightarrow> x),
                     fr_version := fr_version before + 1\<rparr>
               in if fr_active f \<and> (\<exists>g\<in>set (fo_forms st). fr_id g \<noteq> i \<and> fr_account g = account \<and> fr_type g = fr_type f \<and> fr_active g)
                  then Inl Form_refused_by_index
                  else Inr (put_form f st)))"

definition add_version :: "(nat \<Rightarrow> string) \<Rightarrow> string list \<Rightarrow> string \<Rightarrow> string \<Rightarrow> json \<Rightarrow> string \<Rightarrow> form_store \<Rightarrow> form_error + form_store" where
  "add_version num granted account i d vi st =
     (if account \<notin> set granted then Inl Form_not_found
      else and_then (assert_definition num d) (\<lambda>_.
        case form_by_id st account i of
          None \<Rightarrow> Inl Form_not_found
        | Some f \<Rightarrow>
            if vi \<in> set (map fv_id (fo_versions st)) then Inl Form_refused_by_index
            else Inr (st\<lparr>fo_versions := fo_versions st @ [new_version st i vi d]\<rparr>)))"

definition edit_version :: "(nat \<Rightarrow> string) \<Rightarrow> string list \<Rightarrow> string \<Rightarrow> string \<Rightarrow> string \<Rightarrow> json \<Rightarrow> form_store \<Rightarrow> form_error + form_store" where
  "edit_version num granted account i vi d st =
     (if account \<notin> set granted then Inl Form_not_found
      else and_then (assert_definition num d) (\<lambda>_.
        case form_by_id st account i of
          None \<Rightarrow> Inl Form_not_found
        | Some f \<Rightarrow>
            (case version_by_id st i vi of
               None \<Rightarrow> Inl Form_not_found
             | Some v \<Rightarrow>
                 if fv_published v then Inl (Form_version_published (fv_no v))
                 else Inr (put_version (v\<lparr>fv_definition := d\<rparr>) st))))"

definition publish_form :: "(nat \<Rightarrow> string) \<Rightarrow> string list \<Rightarrow> string \<Rightarrow> string \<Rightarrow> string \<Rightarrow> form_store \<Rightarrow> form_error + form_store" where
  "publish_form num granted account i vi st =
     (if account \<notin> set granted then Inl Form_not_found
      else
        (case form_by_id st account i of
           None \<Rightarrow> Inl Form_not_found
         | Some f \<Rightarrow>
             (case version_by_id st i vi of
                None \<Rightarrow> Inl Form_not_found
              | Some v \<Rightarrow>
                  if fv_published v then Inl (Form_version_published (fv_no v))
                  else and_then (assert_definition num (fv_definition v)) (\<lambda>_.
                    Inr (put_form (f\<lparr>fr_current := Some vi, fr_version := fr_version f + 1\<rparr>)
                      (put_version (v\<lparr>fv_published := True\<rparr>) st))))))"

text \<open>What the portal is served: the published current version of the active, client-visible form of a type.\<close>

definition served_by :: "form_store \<Rightarrow> string \<Rightarrow> string \<Rightarrow> form_row \<Rightarrow> bool" where
  "served_by st account ty f \<longleftrightarrow> fr_account f = account \<and> fr_type f = ty \<and> fr_active f \<and> fr_visible f"

definition current_version :: "form_store \<Rightarrow> form_row \<Rightarrow> form_version option" where
  "current_version st f = find (\<lambda>v. fr_current f = Some (fv_id v) \<and> fv_published v) (fo_versions st)"

definition published_for :: "form_store \<Rightarrow> string \<Rightarrow> string \<Rightarrow> form_version option" where
  "published_for st account ty =
     (case find (\<lambda>f. served_by st account ty f \<and> current_version st f \<noteq> None) (fo_forms st) of
        None \<Rightarrow> None
      | Some f \<Rightarrow> current_version st f)"

subsection \<open>The life of a form\<close>

inductive form_step :: "(nat \<Rightarrow> string) \<Rightarrow> form_store \<Rightarrow> form_store \<Rightarrow> bool" for num where
  created: "create_form num granted account dto i vi st = Inr st' \<Longrightarrow> form_step num st st'"
| patched: "patch_form granted account i pdto st = Inr st' \<Longrightarrow> form_step num st st'"
| drafted: "add_version num granted account i d vi st = Inr st' \<Longrightarrow> form_step num st st'"
| edited: "edit_version num granted account i vi d st = Inr st' \<Longrightarrow> form_step num st st'"
| published: "publish_form num granted account i vi st = Inr st' \<Longrightarrow> form_step num st st'"

definition definition_accepted :: "(nat \<Rightarrow> string) \<Rightarrow> json \<Rightarrow> bool" where
  "definition_accepted num d \<longleftrightarrow> definition_problems num d = Some []"

lemma assert_definition_Inr: "assert_definition num d = Inr u \<longleftrightarrow> definition_accepted num d"
  by (auto simp: assert_definition_def definition_accepted_def split: option.split list.split)

lemma version_by_id_found: "version_by_id st i vi = Some v \<Longrightarrow> v \<in> set (fo_versions st) \<and> fv_id v = vi \<and> fv_form v = i"
  by (auto simp: version_by_id_def find_Some_iff)

text \<open>One version of every form was accepted when written; a published row stays as it is.\<close>

lemma form_step_versions:
  assumes "form_step num st st'" "distinct (map fv_id (fo_versions st))" "\<forall>v\<in>set (fo_versions st). definition_accepted num (fv_definition v)"
  shows "distinct (map fv_id (fo_versions st')) \<and> (\<forall>v\<in>set (fo_versions st'). definition_accepted num (fv_definition v)) \<and>
    (\<forall>v\<in>set (fo_versions st). fv_published v \<longrightarrow> v \<in> set (fo_versions st'))"
  using assms(1)
proof cases
  case (created granted account dto i vi)
  then show ?thesis
    using assms(2,3)
    by (auto simp: create_form_def Let_def and_then_Inr assert_definition_Inr new_version_def split: if_splits)
next
  case (patched granted account i pdto)
  then have "fo_versions st' = fo_versions st" by (auto simp: patch_form_def put_form_def Let_def split: if_splits option.splits)
  with assms(2,3) show ?thesis by simp
next
  case (drafted granted account i d vi)
  then show ?thesis
    using assms(2,3)
    by (auto simp: add_version_def and_then_Inr assert_definition_Inr new_version_def split: if_splits option.splits)
next
  case (edited granted account i vi d)
  then obtain v where found: "version_by_id st i vi = Some v" and v': "\<not> fv_published v" "definition_accepted num d"
      "fo_versions st' = map (\<lambda>x. if fv_id x = fv_id v then v\<lparr>fv_definition := d\<rparr> else x) (fo_versions st)"
    by (auto simp: edit_version_def and_then_Inr assert_definition_Inr put_version_def split: if_splits option.splits)
  note v = version_by_id_found [OF found, THEN conjunct1] v'
  have "map fv_id (fo_versions st') = map fv_id (fo_versions st)" by (simp add: v(4))
  with assms(2) have "distinct (map fv_id (fo_versions st'))" by simp
  moreover have "\<forall>x\<in>set (fo_versions st'). definition_accepted num (fv_definition x)"
    using assms(3) v(3) by (auto simp: v(4))
  moreover have "x \<in> set (fo_versions st')" if "x \<in> set (fo_versions st)" "fv_published x" for x
  proof -
    have "fv_id x \<noteq> fv_id v" using that v(1,2) assms(2) by (auto simp: distinct_map inj_on_def)
    with that(1) show ?thesis unfolding v(4) by force
  qed
  ultimately show ?thesis by blast
next
  case (published granted account i vi)
  then obtain v where found: "version_by_id st i vi = Some v" and v': "\<not> fv_published v"
      "fo_versions st' = map (\<lambda>x. if fv_id x = fv_id v then v\<lparr>fv_published := True\<rparr> else x) (fo_versions st)"
    by (auto simp: publish_form_def and_then_Inr put_version_def put_form_def split: if_splits option.splits)
  note v = version_by_id_found [OF found, THEN conjunct1] v'
  have "map fv_id (fo_versions st') = map fv_id (fo_versions st)" by (simp add: v(3))
  with assms(2) have "distinct (map fv_id (fo_versions st'))" by simp
  moreover have "\<forall>x\<in>set (fo_versions st'). definition_accepted num (fv_definition x)"
    using assms(3) v(1) by (auto simp: v(3))
  moreover have "x \<in> set (fo_versions st')" if "x \<in> set (fo_versions st)" "fv_published x" for x
  proof -
    have "fv_id x \<noteq> fv_id v" using that v(1,2) assms(2) by (auto simp: distinct_map inj_on_def)
    with that(1) show ?thesis unfolding v(3) by force
  qed
  ultimately show ?thesis by blast
qed

lemma form_steps_versions:
  assumes "(form_step num)\<^sup>*\<^sup>* st st'" "distinct (map fv_id (fo_versions st))" "\<forall>v\<in>set (fo_versions st). definition_accepted num (fv_definition v)"
  shows "distinct (map fv_id (fo_versions st')) \<and> (\<forall>v\<in>set (fo_versions st'). definition_accepted num (fv_definition v)) \<and>
    (\<forall>v\<in>set (fo_versions st). fv_published v \<longrightarrow> v \<in> set (fo_versions st'))"
  using assms
proof (induction rule: rtranclp_induct)
  case (step mid st')
  then have "distinct (map fv_id (fo_versions mid))" "\<forall>v\<in>set (fo_versions mid). definition_accepted num (fv_definition v)"
    "\<forall>v\<in>set (fo_versions st). fv_published v \<longrightarrow> v \<in> set (fo_versions mid)" by blast+
  with form_step_versions [OF step(2)] show ?case by blast
qed blast

definition no_forms :: form_store where
  "no_forms = \<lparr>fo_forms = [], fo_versions = []\<rparr>"

subsection \<open>Properties\<close>

definition digit_text :: "nat \<Rightarrow> string" where
  "digit_text n = [char_of (48 + n)]"

text \<open>C29: The form a client is served is one the server can enforce: whatever was created, drafted, edited, patched and
  published, the definition served for a type is one the validator accepts, so no submission to it is
  ever refused for where a field writes; and a version once published stays word for word as it is.\<close>

theorem served_form_enforceable:
  assumes "(form_step num)\<^sup>*\<^sup>* no_forms st" "(form_step num)\<^sup>*\<^sup>* st st'" "published_for st account ty = Some v"
    "jget ''fields'' (fv_definition v) = JArr fds"
  shows "definition_problems num (fv_definition v) = Some [] \<and>
    (\<forall>p\<in>set (ss_problems (validate_submission dp fds answers)).
       fst p \<in> form_field_key ` set fds \<and> snd p \<in> {''required'', ''bad_value'', ''not_an_option''} \<or>
       snd p \<in> {''unknown_field'', ''too_many_unknown_fields''}) \<and>
    v \<in> set (fo_versions st')"
proof -
  have v: "v \<in> set (fo_versions st)" "fv_published v"
    using assms(3) by (auto simp: published_for_def current_version_def find_Some_iff split: option.splits)
  have ok: "distinct (map fv_id (fo_versions st))" "\<forall>v\<in>set (fo_versions st). definition_accepted num (fv_definition v)"
    using form_steps_versions [OF assms(1)] by (simp_all add: no_forms_def)
  then have accepted: "definition_problems num (fv_definition v) = Some []"
    using v(1) by (simp add: definition_accepted_def)
  then have "list_all field_ok fds" using accepted_fields [OF _ assms(4)] by blast
  then have "\<forall>p\<in>set (ss_problems (run_fields dp answers fds)). fst p \<in> form_field_key ` set fds \<and> snd p \<in> set field_codes"
    using run_fields_problems by blast
  moreover have "\<forall>p\<in>set (unknown_problems ks). snd p \<in> {''unknown_field'', ''too_many_unknown_fields''}" for ks
    by (auto simp: unknown_problems_def)
  ultimately have "\<forall>p\<in>set (ss_problems (validate_submission dp fds answers)).
       fst p \<in> form_field_key ` set fds \<and> snd p \<in> {''required'', ''bad_value'', ''not_an_option''} \<or>
       snd p \<in> {''unknown_field'', ''too_many_unknown_fields''}"
    unfolding validate_run field_codes_def by auto
  moreover have "v \<in> set (fo_versions st')" using form_steps_versions [OF assms(2) ok] v by blast
  ultimately show ?thesis using accepted by blast
qed

definition sample_form_dto :: form_dto where
  "sample_form_dto = \<lparr>fd_type = ''incident'', fd_name = ''Incident'', fd_visible = None, fd_definition = None\<rparr>"

definition form_drafted :: form_store where
  "form_drafted = (case create_form digit_text [''a''] ''a'' sample_form_dto ''f'' ''v1'' no_forms of Inl e \<Rightarrow> no_forms | Inr st \<Rightarrow> st)"

definition form_live :: form_store where
  "form_live = (case publish_form digit_text [''a''] ''a'' ''f'' ''v1'' form_drafted of Inl e \<Rightarrow> no_forms | Inr st \<Rightarrow> st)"

lemma sum_value: "(case x of Inl e \<Rightarrow> False | Inr y \<Rightarrow> True) \<Longrightarrow> x = Inr (case x of Inl e \<Rightarrow> d | Inr y \<Rightarrow> y)"
  by (cases x) simp_all

lemma sample_forms:
  "create_form digit_text [''a''] ''a'' sample_form_dto ''f'' ''v1'' no_forms = Inr form_drafted"
  "publish_form digit_text [''a''] ''a'' ''f'' ''v1'' form_drafted = Inr form_live"
  unfolding form_live_def form_drafted_def by (rule sum_value, code_simp)+

theorem served_form_enforceable_witness:
  "\<exists>v. published_for form_live ''a'' ''incident'' = Some v \<and> fv_no v = 1 \<and> definition_problems digit_text (fv_definition v) = Some []"
proof -
  have reach: "(form_step digit_text)\<^sup>*\<^sup>* no_forms form_live"
    using form_step.created [OF sample_forms(1)] form_step.published [OF sample_forms(2)] by (meson converse_rtranclp_into_rtranclp r_into_rtranclp)
  have "(case published_for form_live ''a'' ''incident'' of None \<Rightarrow> False
      | Some v \<Rightarrow> fv_no v = 1 \<and> (case jget ''fields'' (fv_definition v) of JArr fs \<Rightarrow> True | _ \<Rightarrow> False))" by code_simp
  then obtain v fs where v: "published_for form_live ''a'' ''incident'' = Some v" "fv_no v = 1" "jget ''fields'' (fv_definition v) = JArr fs"
    by (auto split: option.splits json.splits)
  from served_form_enforceable [OF reach rtranclp.rtrancl_refl v(1,3)] v show ?thesis by blast
qed

text \<open>A submission stores exactly what was asked: on an accepted definition and with no problem found, a ticket column
  or a custom key gets a value precisely when some field that no condition hid writes there and the
  client gave that value for it; every required field shown has an answer, every answer belongs to a
  field, and a hidden field's answer is stored nowhere.\<close>

theorem submission_stores_what_was_asked:
  assumes "definition_problems num d = Some []" "jget ''fields'' d = JArr fds"
    "validate_submission dp fds answers = s" "ss_problems s = []"
  shows "(\<forall>t v. map_of (ss_columns s) t = Some v \<longleftrightarrow> \<not> starts_with ''custom.'' t \<and>
       (\<exists>f\<in>set fds. form_field_key f \<notin> set (ss_hidden s) \<and> form_target f = t \<and> map_of answers (form_field_key f) = Some v \<and> \<not> is_blank v)) \<and>
    (\<forall>c v. map_of (ss_custom s) c = Some v \<longleftrightarrow>
       (\<exists>f\<in>set fds. form_field_key f \<notin> set (ss_hidden s) \<and> form_target f = ''custom.'' @ c \<and> map_of answers (form_field_key f) = Some v \<and> \<not> is_blank v)) \<and>
    fst ` set (ss_columns s) \<subseteq> set ticket_columns \<and> fst ` set answers \<subseteq> form_field_key ` set fds \<and>
    (\<forall>f\<in>set fds. truthy (jget ''required'' f) \<and> form_field_key f \<notin> set (ss_hidden s) \<longrightarrow>
       (\<exists>v. map_of answers (form_field_key f) = Some v \<and> \<not> is_blank v))"
proof -
  from accepted_fields [OF assms(1,2)] have ok: "list_all field_ok fds" "distinct (map form_field_key fds)" "distinct (map form_target fds)"
    by blast+
  have p: "ss_problems (run_fields dp answers fds) = []" "unknown_problems (unknown_keys fds answers) = []"
    using assms(3,4) validate_run(1) [of dp fds answers] by auto
  have s: "ss_columns s = ss_columns (run_fields dp answers fds)" "ss_custom s = ss_custom (run_fields dp answers fds)"
      "ss_hidden s = ss_hidden (run_fields dp answers fds)"
    unfolding assms(3) [symmetric] by (simp_all add: validate_run)
  note mapped = run_fields_mapped [OF ok p(1), folded s]
  have "unknown_keys fds answers = []"
    using p(2) by (cases "unknown_keys fds answers") (auto simp: unknown_problems_def max_problems_def)
  then have "fst ` set answers \<subseteq> form_field_key ` set fds"
    by (auto simp: unknown_keys_def filter_empty_conv)
  moreover have "fst ` set (ss_columns s) \<subseteq> set ticket_columns"
  proof
    fix t assume "t \<in> fst ` set (ss_columns s)"
    then obtain v where "map_of (ss_columns s) t = Some v" by (metis domD dom_map_of_conv_image_fst)
    with mapped obtain f where "f \<in> set fds" "form_target f = t" "\<not> starts_with custom_prefix t" unfolding answered_by_def by blast
    with field_ok_target [of f] ok(1) show "t \<in> set ticket_columns" by (auto simp: list_all_iff column_allowed_def)
  qed
  ultimately show ?thesis
    using mapped unfolding answered_by_def custom_prefix_def by blast
qed

theorem submission_stores_what_was_asked_witness:
  "map_of (ss_columns (validate_submission (\<lambda>x. True) (default_fields True) [(''short_description'', JStr ''VPN down''), (''impact'', JStr ''high'')])) ''impact'' =
    Some (JStr ''high'')"
proof -
  let ?d = "JObj [(''fields'', JArr (default_fields True))]"
  let ?a = "[(''short_description'', JStr ''VPN down''), (''impact'', JStr ''high'')]"
  have d: "definition_problems digit_text ?d = Some []" and p: "ss_problems (validate_submission (\<lambda>x. True) (default_fields True) ?a) = []"
    and h: "ss_hidden (validate_submission (\<lambda>x. True) (default_fields True) ?a) = []"
    by code_simp+
  have "\<exists>f\<in>set (default_fields True). form_field_key f = ''impact'' \<and> form_target f = ''impact''"
    by (simp add: default_fields_def plain_field_def form_field_key_def form_target_def text_of_def)
  moreover have "\<not> starts_with ''custom.'' ''impact''" "map_of ?a ''impact'' = Some (JStr ''high'')" "\<not> is_blank (JStr ''high'')"
    by code_simp+
  ultimately show ?thesis
    using submission_stores_what_was_asked [OF d _ refl p] h by auto
qed

text \<open>A refusal stays small: however many keys a client posts, a submission to a form of at most 60 fields is refused
  with at most 111 worded problems, one per field and 50 unknown keys with a count of the rest.\<close>

theorem refusal_bounded:
  assumes "length fds \<le> max_fields"
  shows "length (ss_problems (validate_submission dp fds answers)) \<le> 111"
proof -
  have "length (ss_problems (run_fields dp answers fds)) \<le> length fds" using run_fields_problems by blast
  moreover
  have "length (unknown_problems ks) \<le> 51" for ks
    by (simp add: unknown_problems_def max_problems_def)
  from this [of "unknown_keys fds answers"] calculation show ?thesis
    using assms by (simp add: validate_run max_fields_def)
qed

theorem refusal_bounded_witness:
  "length (ss_problems (validate_submission (\<lambda>x. True) (default_fields True) [(''x'', JNull), (''y'', JNull)])) \<le> 111"
  by (rule refusal_bounded) code_simp

text \<open>A malformed choice field makes the validator throw: when its options are not a list, a later field's condition on
  it is looked up in them all the same, and the check ends in a \<open>TypeError\<close> instead of the problem list the
  first field already earned.\<close>

theorem malformed_options_throw:
  assumes "options = JStr s \<or> options = JObj m \<or> options = JBool b \<or> options = JNum n"
  shows "definition_problems num (JObj [(''fields'', JArr
      [JObj [(''key'', JStr ''area''), (''kind'', JStr ''choice''), (''label'', JStr ''Area''), (''options'', options), (''maps_to'', JStr ''category'')],
       JObj [(''key'', JStr ''note''), (''kind'', JStr ''long_text''), (''label'', JStr ''Note''), (''maps_to'', JStr ''description''),
         (''visible_when'', JObj [(''field'', JStr ''area''), (''equals'', JStr ''vpn'')])]])]) = None"
  using assms by (elim disjE; hypsubst; code_simp)

theorem malformed_options_throw_witness:
  "definition_problems digit_text (JObj [(''fields'', JArr
      [JObj [(''key'', JStr ''area''), (''kind'', JStr ''choice''), (''label'', JStr ''Area''), (''options'', JStr ''vpn''), (''maps_to'', JStr ''category'')],
       JObj [(''key'', JStr ''note''), (''kind'', JStr ''long_text''), (''label'', JStr ''Note''), (''maps_to'', JStr ''description''),
         (''visible_when'', JObj [(''field'', JStr ''area''), (''equals'', JStr ''vpn'')])]])]) = None"
  by (rule malformed_options_throw) simp

end
