(* ===== verification/Csat.thy ===== *)
theory Csat
  imports Budget After_Hours Close_Discipline Ticket_Operations
begin

section \<open>Satisfaction surveys (src/domain/portal/csat.ts, src/modules/portal/csat.module.ts)\<close>

text \<open>
  The two surveys, when one is due, its reminders and expiry, the answer and its summaries, as functions;
  then the rows of an account's surveys and responses under the close hook, the two worker ticks and the
  answer routes. Hashing and \<open>Number\<close> of a text are parameters. Mail, notifications and audit rows are
  left out: none of them is read back by these operations.
\<close>

datatype survey_kind = Ticket_close | Quarterly
datatype suppression = Sup_cancelled | Sup_duplicate | Sup_too_fast | Sup_daily_cap
datatype survey_status = Sv_sent | Sv_reminded | Sv_answered | Sv_expired | Sv_suppressed

definition quarterly_keys :: "string list" where
  "quarterly_keys = [''responsiveness'', ''quality'', ''communication'', ''value'', ''recommend'']"

record closed_facts =
  cf_state :: string
  cf_code :: "string option"
  cf_created :: ms
  cf_closed :: "ms option"
  cf_cancelled :: "ms option"

definition suppression_reason :: "closed_facts \<Rightarrow> bool \<Rightarrow> ms \<Rightarrow> suppression option" where
  "suppression_reason t surveyed_today now =
     (if cf_state t = ''cancelled'' \<or> cf_cancelled t \<noteq> None then Some Sup_cancelled
      else if (case cf_code t of None \<Rightarrow> False | Some c \<Rightarrow> includes_str ''duplicate'' (js_lower c)) then Some Sup_duplicate
      else if (case cf_closed t of None \<Rightarrow> now | Some c \<Rightarrow> c) - cf_created t < 15 * 60000 then Some Sup_too_fast
      else if surveyed_today then Some Sup_daily_cap
      else None)"

fun remind_days :: "survey_kind \<Rightarrow> int list" where
  "remind_days Ticket_close = [3]"
| "remind_days Quarterly = [7, 14]"

fun expire_days :: "survey_kind \<Rightarrow> int" where
  "expire_days Ticket_close = 10"
| "expire_days Quarterly = 21"

definition survey_timings :: "ms \<Rightarrow> survey_kind \<Rightarrow> ms \<times> ms" where
  "survey_timings sent kind = (sent + hd (remind_days kind) * 86400000, sent + expire_days kind * 86400000)"

definition next_remind_at :: "survey_kind \<Rightarrow> ms \<Rightarrow> ms \<Rightarrow> ms option" where
  "next_remind_at kind sent after = find (\<lambda>t. t > after) (map (\<lambda>d. sent + d * 86400000) (remind_days kind))"

subsection \<open>The quarterly cycle\<close>

definition quarter_ended_before :: "ms \<Rightarrow> (int \<times> int) \<times> ymd" where
  "quarter_ended_before on =
     (let d = iso_day_of on;
          quarter = (mon d - 1) div 3 + 1;
          (y, q) = (if quarter = 1 then (yr d - 1, 4) else (yr d, quarter - 1))
      in ((y, q), iso_day_of (date_utc y (q * 3) 0)))"

definition shift_days :: "ymd \<Rightarrow> int \<Rightarrow> ymd" where
  "shift_days d n = iso_day_of (midnight d + 43200000 + n * 86400000)"

fun search_business_day :: "(ymd \<Rightarrow> bool) \<Rightarrow> nat \<Rightarrow> ymd \<Rightarrow> ymd option" where
  "search_business_day open_on 0 d = None"
| "search_business_day open_on (Suc k) d = (if open_on d then Some d else search_business_day open_on k (shift_days d 1))"

definition first_business_day_after :: "ymd \<Rightarrow> (ymd \<Rightarrow> bool) \<Rightarrow> ymd" where
  "first_business_day_after d open_on =
     (case search_business_day open_on 14 (shift_days d 1) of None \<Rightarrow> shift_days d 1 | Some x \<Rightarrow> x)"

definition is_week_day :: "ymd \<Rightarrow> bool" where
  "is_week_day d \<longleftrightarrow> (let w = utc_weekday (midnight d + 43200000) in 1 \<le> w \<and> w \<le> 5)"

definition survey_working_day :: "calendar \<Rightarrow> ymd \<Rightarrow> bool" where
  "survey_working_day cal d \<longleftrightarrow>
     (if cal_id cal = cal_id wall_clock then is_week_day d
      else cal_between cal (midnight d) (midnight d + 86399000) > 0)"

subsection \<open>Scores\<close>

definition is_low_score :: "rat \<Rightarrow> bool" where
  "is_low_score s \<longleftrightarrow> s \<le> 2"

definition mean_of :: "rat list \<Rightarrow> rat option" where
  "mean_of xs = (if xs = [] then None else Some (round_to 2 (sum_list xs / of_nat (length xs))))"

record score_summary =
  sm_responses :: nat
  sm_average :: "rat option"
  sm_distribution :: "(int \<times> nat) list"
  sm_low :: nat

definition score_bucket :: "rat \<Rightarrow> int" where
  "score_bucket s = min 5 (max 1 (js_round s))"

definition bump :: "int \<Rightarrow> (int \<times> nat) list \<Rightarrow> (int \<times> nat) list" where
  "bump k m = map (\<lambda>(i, n). if i = k then (i, n + 1) else (i, n)) m"

definition summarise_scores :: "rat list \<Rightarrow> score_summary" where
  "summarise_scores scores =
     \<lparr>sm_responses = length scores, sm_average = mean_of scores,
      sm_distribution = foldl (\<lambda>m s. bump (score_bucket s) m) [(1, 0), (2, 0), (3, 0), (4, 0), (5, 0)] scores,
      sm_low = length (filter is_low_score scores)\<rparr>"

definition number_of :: "(string \<Rightarrow> rat option) \<Rightarrow> json \<Rightarrow> rat option" where
  "number_of parse v = (case v of JNum n \<Rightarrow> Some n | JStr s \<Rightarrow> parse s | _ \<Rightarrow> None)"

definition present :: "'a option list \<Rightarrow> 'a list" where
  "present xs = map the (filter (\<lambda>x. x \<noteq> None) xs)"

definition answer_mean :: "(string \<Rightarrow> rat option) \<Rightarrow> string list \<Rightarrow> json list \<Rightarrow> rat option" where
  "answer_mean parse keys answers = mean_of (present (concat (map (\<lambda>a. map (\<lambda>k. number_of parse (jget k a)) keys) answers)))"

record quarterly_summary =
  qs_latest :: "string option"
  qs_responses :: nat
  qs_averages :: "(string \<times> rat option) list"
  qs_average :: "rat option"
  qs_trend :: "(string \<times> nat \<times> rat option) list"

definition by_period :: "(string \<times> json) list \<Rightarrow> json list js_map" where
  "by_period rows = foldl (\<lambda>m (p, a). map_adjust p [] (\<lambda>l. l @ [a]) m) [] rows"

definition answers_of :: "json list js_map \<Rightarrow> string \<Rightarrow> json list" where
  "answers_of m p = (case map_of m p of None \<Rightarrow> [] | Some l \<Rightarrow> l)"

definition summarise_quarterly :: "(string \<Rightarrow> rat option) \<Rightarrow> nat \<Rightarrow> (string \<times> json) list \<Rightarrow> quarterly_summary" where
  "summarise_quarterly parse periods rows =
     (let m = by_period rows;
          kept_periods = take_last periods (sort (map fst m));
          trend = map (\<lambda>p. (p, length (answers_of m p), answer_mean parse quarterly_keys (answers_of m p))) kept_periods;
          latest = (if kept_periods = [] then None else Some (last kept_periods));
          latest_answers = (case latest of None \<Rightarrow> [] | Some p \<Rightarrow> answers_of m p)
      in \<lparr>qs_latest = latest, qs_responses = length latest_answers,
          qs_averages = map (\<lambda>k. (k, answer_mean parse [k] latest_answers)) quarterly_keys,
          qs_average = (if trend = [] then None else snd (snd (last trend))), qs_trend = trend\<rparr>)"

subsection \<open>Surveys and answers\<close>

record survey =
  sv_id :: string
  sv_kind :: survey_kind
  sv_ticket :: "string option"
  sv_period :: "(int \<times> int) option"
  sv_contact :: string
  sv_hash :: string
  sv_status :: survey_status
  sv_sent :: ms
  sv_remind :: "ms option"
  sv_expires :: "ms option"
  sv_answered :: "ms option"
  sv_reason :: "suppression option"

record response =
  sr_survey :: string
  sr_answers :: "(string \<times> int) list"
  sr_comment :: "string option"

record survey_store =
  cs_surveys :: "survey list"
  cs_responses :: "response list"
  cs_low :: "(string \<times> rat) list"

datatype survey_error =
    Survey_not_found
  | Already_answered
  | Survey_closed survey_status
  | Scores_required
  | Score_required

record answer_dto =
  an_score :: "int option"
  an_scores :: "(string \<Rightarrow> int) option"
  an_comment :: "string option"

definition answers_for :: "survey_kind \<Rightarrow> answer_dto \<Rightarrow> survey_error + (string \<times> int) list" where
  "answers_for kind dto =
     (case kind of
        Quarterly \<Rightarrow> (case an_scores dto of None \<Rightarrow> Inl Scores_required | Some f \<Rightarrow> Inr (map (\<lambda>k. (k, f k)) quarterly_keys))
      | Ticket_close \<Rightarrow> (case an_score dto of None \<Rightarrow> Inl Score_required | Some n \<Rightarrow> Inr [(''score'', n)]))"

definition overall_score :: "(string \<times> int) list \<Rightarrow> rat" where
  "overall_score answers = round_to 2 (of_int (sum_list (map snd answers)) / of_nat (length answers))"

definition survey_by_id :: "survey_store \<Rightarrow> string \<Rightarrow> survey option" where
  "survey_by_id st i = find (\<lambda>s. sv_id s = i) (cs_surveys st)"

definition put_survey :: "survey \<Rightarrow> survey_store \<Rightarrow> survey_store" where
  "put_survey s st = st\<lparr>cs_surveys := map (\<lambda>x. if sv_id x = sv_id s then s else x) (cs_surveys st)\<rparr>"

text \<open>The expired status written before the last refusal goes with the transaction the exception rolls back.\<close>

definition record_answer :: "survey \<Rightarrow> answer_dto \<Rightarrow> ms \<Rightarrow> survey_store \<Rightarrow> survey_error + survey_store" where
  "record_answer s dto now st =
     (if sv_status s = Sv_answered then Inl Already_answered
      else if sv_status s = Sv_expired \<or> sv_status s = Sv_suppressed then Inl (Survey_closed (sv_status s))
      else if (case sv_expires s of None \<Rightarrow> False | Some t \<Rightarrow> t < now) then Inl (Survey_closed Sv_expired)
      else and_then (answers_for (sv_kind s) dto) (\<lambda>answers.
        let comment = (case an_comment dto of None \<Rightarrow> None | Some c \<Rightarrow> if js_trim c = [] then None else Some (js_trim c));
            score = overall_score answers;
            st' = put_survey (s\<lparr>sv_status := Sv_answered, sv_answered := Some now\<rparr>)
              (st\<lparr>cs_responses := cs_responses st @ [\<lparr>sr_survey = sv_id s, sr_answers = answers, sr_comment = comment\<rparr>]\<rparr>)
        in Inr (if is_low_score score then st'\<lparr>cs_low := cs_low st' @ [(sv_id s, score)]\<rparr> else st')))"

definition answer_as_contact :: "string option \<Rightarrow> string \<Rightarrow> answer_dto \<Rightarrow> ms \<Rightarrow> survey_store \<Rightarrow> survey_error + survey_store" where
  "answer_as_contact contact i dto now st =
     (case survey_by_id st i of
        None \<Rightarrow> Inl Survey_not_found
      | Some s \<Rightarrow> if contact \<noteq> Some (sv_contact s) then Inl Survey_not_found else record_answer s dto now st)"

definition answer_with_token :: "(string \<Rightarrow> string) \<Rightarrow> string \<Rightarrow> string \<Rightarrow> answer_dto \<Rightarrow> ms \<Rightarrow> survey_store \<Rightarrow> survey_error + survey_store" where
  "answer_with_token hash i token dto now st =
     (case survey_by_id st i of
        None \<Rightarrow> Inl Survey_not_found
      | Some s \<Rightarrow> if sv_hash s \<noteq> hash token then Inl Survey_not_found else record_answer s dto now st)"

subsection \<open>The close hook and the ticks\<close>

definition surveyed_today :: "survey_store \<Rightarrow> string \<Rightarrow> ms \<Rightarrow> bool" where
  "surveyed_today st contact now \<longleftrightarrow>
     (\<exists>s\<in>set (cs_surveys st). sv_contact s = contact \<and> sv_status s \<noteq> Sv_suppressed \<and> iso_day_of (sv_sent s) = iso_day_of now)"

definition survey_for_ticket :: "survey_store \<Rightarrow> string \<Rightarrow> string \<Rightarrow> survey option" where
  "survey_for_ticket st ticket contact =
     find (\<lambda>s. sv_kind s = Ticket_close \<and> sv_ticket s = Some ticket \<and> sv_contact s = contact) (cs_surveys st)"

definition survey_for_period :: "survey_store \<Rightarrow> int \<times> int \<Rightarrow> string \<Rightarrow> survey option" where
  "survey_for_period st period contact =
     find (\<lambda>s. sv_kind s = Quarterly \<and> sv_period s = Some period \<and> sv_contact s = contact) (cs_surveys st)"

definition on_closed ::
    "bool \<Rightarrow> string \<Rightarrow> string option \<Rightarrow> closed_facts \<Rightarrow> string \<Rightarrow> string \<Rightarrow> ms \<Rightarrow> survey_store \<Rightarrow> survey_store" where
  "on_closed enabled ticket requester facts i hash now st =
     (case requester of
        None \<Rightarrow> st
      | Some contact \<Rightarrow>
          if \<not> enabled \<or> survey_for_ticket st ticket contact \<noteq> None \<or> i \<in> set (map sv_id (cs_surveys st)) then st
          else
            let reason = suppression_reason facts (surveyed_today st contact now) now;
                (remind, expires) = survey_timings now Ticket_close
            in st\<lparr>cs_surveys := cs_surveys st @ [\<lparr>sv_id = i, sv_kind = Ticket_close, sv_ticket = Some ticket, sv_period = None,
                sv_contact = contact, sv_hash = hash, sv_status = (if reason = None then Sv_sent else Sv_suppressed), sv_sent = now,
                sv_remind = (if reason = None then Some remind else None), sv_expires = (if reason = None then Some expires else None),
                sv_answered = None, sv_reason = reason\<rparr>]\<rparr>)"

definition due_survey :: "ms \<Rightarrow> survey \<Rightarrow> bool" where
  "due_survey now s \<longleftrightarrow> (sv_status s = Sv_sent \<or> sv_status s = Sv_reminded) \<and>
     ((case sv_remind s of None \<Rightarrow> False | Some t \<Rightarrow> t \<le> now) \<or> (case sv_expires s of None \<Rightarrow> False | Some t \<Rightarrow> t \<le> now))"

definition tick_survey :: "ms \<Rightarrow> survey \<Rightarrow> survey" where
  "tick_survey now s =
     (if (case sv_expires s of None \<Rightarrow> False | Some t \<Rightarrow> t \<le> now) then s\<lparr>sv_status := Sv_expired\<rparr>
      else if (case sv_remind s of None \<Rightarrow> True | Some t \<Rightarrow> t > now) then s
      else s\<lparr>sv_status := Sv_reminded, sv_remind := next_remind_at (sv_kind s) (sv_sent s) now\<rparr>)"

definition due_surveys :: "ms \<Rightarrow> nat \<Rightarrow> survey_store \<Rightarrow> survey list" where
  "due_surveys now batch st = take batch (sort_key sv_sent (filter (due_survey now) (cs_surveys st)))"

definition reminder_tick :: "ms \<Rightarrow> nat \<Rightarrow> survey_store \<Rightarrow> survey_store" where
  "reminder_tick now batch st = foldl (\<lambda>st s. put_survey (tick_survey now s) st) st (due_surveys now batch st)"

definition send_quarterly :: "ms \<Rightarrow> int \<times> int \<Rightarrow> survey_store \<Rightarrow> string \<times> string \<times> string \<Rightarrow> survey_store" where
  "send_quarterly now period st =
     (\<lambda>(contact, i, hash).
        if survey_for_period st period contact \<noteq> None \<or> i \<in> set (map sv_id (cs_surveys st)) then st
        else
          let (remind, expires) = survey_timings now Quarterly
          in st\<lparr>cs_surveys := cs_surveys st @ [\<lparr>sv_id = i, sv_kind = Quarterly, sv_ticket = None, sv_period = Some period,
              sv_contact = contact, sv_hash = hash, sv_status = Sv_sent, sv_sent = now, sv_remind = Some remind,
              sv_expires = Some expires, sv_answered = None, sv_reason = None\<rparr>]\<rparr>)"

text \<open>The recipients are contacts, each with the id and the hash its survey would get.\<close>

definition quarterly_tick :: "bool \<Rightarrow> calendar \<Rightarrow> (string \<times> string \<times> string) list \<Rightarrow> ms \<Rightarrow> survey_store \<Rightarrow> survey_store" where
  "quarterly_tick enabled cal recipients now st =
     (let (period, ends) = quarter_ended_before now
      in if \<not> enabled \<or> iso_day_of now < first_business_day_after ends (survey_working_day cal) then st
         else foldl (send_quarterly now period) st recipients)"

text \<open>Account admins first, then executive sponsors; one entry per contact.\<close>

definition quarterly_recipients :: "string list \<Rightarrow> string list \<Rightarrow> string list" where
  "quarterly_recipients admins sponsors = uniq (admins @ sponsors)"

subsection \<open>Reminders run out\<close>

text \<open>One survey under a sequence of ticks: how many reminders it gets.\<close>

definition tick_one :: "ms \<Rightarrow> survey \<Rightarrow> survey" where
  "tick_one now s = (if due_survey now s then tick_survey now s else s)"

definition reminds :: "ms \<Rightarrow> survey \<Rightarrow> bool" where
  "reminds now s \<longleftrightarrow> due_survey now s \<and> \<not> (case sv_expires s of None \<Rightarrow> False | Some t \<Rightarrow> t \<le> now) \<and>
     (case sv_remind s of None \<Rightarrow> False | Some t \<Rightarrow> t \<le> now)"

fun reminder_count :: "survey \<Rightarrow> ms list \<Rightarrow> nat" where
  "reminder_count s [] = 0"
| "reminder_count s (t # ts) = (if reminds t s then 1 else 0) + reminder_count (tick_one t s) ts"

definition reminders_left :: "survey \<Rightarrow> nat" where
  "reminders_left s =
     (case sv_remind s of None \<Rightarrow> 0
      | Some r \<Rightarrow> length (filter (\<lambda>d. r \<le> sv_sent s + d * 86400000) (remind_days (sv_kind s))))"

lemma next_remind_later:
  "next_remind_at kind sent t = Some n \<Longrightarrow> t < n \<and> (\<exists>d\<in>set (remind_days kind). n = sent + d * 86400000)"
  by (auto simp: next_remind_at_def find_Some_iff)

lemma filter_later_less:
  fixes g :: "'a \<Rightarrow> int"
  assumes "d \<in> set xs" "r \<le> g d" "g d < n"
  shows "length (filter (\<lambda>d. n \<le> g d) xs) < length (filter (\<lambda>d. r \<le> g d) xs)"
  using assms
proof (induction xs)
  case (Cons x xs)
  have le: "length (filter (\<lambda>d. n \<le> g d) ys) \<le> length (filter (\<lambda>d. r \<le> g d) ys)" for ys
    using Cons.prems(2,3) by (induction ys) auto
  from Cons show ?case using le [of xs] by (auto simp: less_Suc_eq_le)
qed simp

lemma tick_one_left:
  assumes "sv_remind s = None \<or> (\<exists>d\<in>set (remind_days (sv_kind s)). sv_remind s = Some (sv_sent s + d * 86400000))"
  shows "(if reminds t s then 1 else 0) + reminders_left (tick_one t s) \<le> reminders_left s \<and>
    (sv_remind (tick_one t s) = None \<or>
      (\<exists>d\<in>set (remind_days (sv_kind (tick_one t s))). sv_remind (tick_one t s) = Some (sv_sent (tick_one t s) + d * 86400000)))"
proof (cases "reminds t s")
  case True
  then obtain r where r: "sv_remind s = Some r" "r \<le> t" by (auto simp: reminds_def split: option.splits)
  then obtain d where d: "d \<in> set (remind_days (sv_kind s))" "r = sv_sent s + d * 86400000" using assms by auto
  have tick: "tick_one t s = s\<lparr>sv_status := Sv_reminded, sv_remind := next_remind_at (sv_kind s) (sv_sent s) t\<rparr>"
    using True r by (auto simp: reminds_def tick_one_def tick_survey_def)
  show ?thesis
  proof (cases "next_remind_at (sv_kind s) (sv_sent s) t")
    case None
    have "0 < length (filter (\<lambda>d. r \<le> sv_sent s + d * 86400000) (remind_days (sv_kind s)))"
      using d by (auto simp: length_greater_0_conv filter_empty_conv)
    then show ?thesis by (simp add: tick None reminders_left_def r True Suc_le_eq)
  next
    case (Some n)
    from next_remind_later [OF this] r(2) have "r < n" by simp
    then have "length (filter (\<lambda>d. n \<le> sv_sent s + d * 86400000) (remind_days (sv_kind s))) <
        length (filter (\<lambda>d. r \<le> sv_sent s + d * 86400000) (remind_days (sv_kind s)))"
      using d by (intro filter_later_less [where d = d]) auto
    with next_remind_later [OF Some] show ?thesis by (simp add: tick Some reminders_left_def r True)
  qed
next
  case False
  then have "sv_remind (tick_one t s) = sv_remind s \<and> sv_sent (tick_one t s) = sv_sent s \<and> sv_kind (tick_one t s) = sv_kind s"
    by (auto simp: reminds_def tick_one_def tick_survey_def split: option.splits)
  then have *: "sv_remind (tick_one t s) = sv_remind s" "sv_sent (tick_one t s) = sv_sent s" "sv_kind (tick_one t s) = sv_kind s"
    by blast+
  show ?thesis using False assms unfolding reminders_left_def * by simp
qed

lemma reminder_count_left:
  "sv_remind s = None \<or> (\<exists>d\<in>set (remind_days (sv_kind s)). sv_remind s = Some (sv_sent s + d * 86400000)) \<Longrightarrow>
     reminder_count s ts \<le> reminders_left s"
proof (induction ts arbitrary: s)
  case (Cons t ts)
  from tick_one_left [OF Cons.prems, of t] Cons.IH [of "tick_one t s"] show ?case by simp
qed simp

subsection \<open>The life of the rows\<close>

inductive survey_step :: "survey_store \<Rightarrow> survey_store \<Rightarrow> bool" where
  close_hook: "survey_step st (on_closed enabled ticket requester facts i hash now st)"
| reminders: "survey_step st (reminder_tick now batch st)"
| quarter: "survey_step st (quarterly_tick enabled cal recipients now st)"
| portal_answer: "answer_as_contact contact i dto now st = Inr st' \<Longrightarrow> survey_step st st'"
| link_answer: "answer_with_token digest i token dto now st = Inr st' \<Longrightarrow> survey_step st st'"

definition survey_key :: "survey \<Rightarrow> survey_kind \<times> string option \<times> (int \<times> int) option \<times> string" where
  "survey_key s = (sv_kind s, sv_ticket s, sv_period s, sv_contact s)"

definition surveys_ok :: "survey_store \<Rightarrow> bool" where
  "surveys_ok st \<longleftrightarrow>
     distinct (map sv_id (cs_surveys st)) \<and> distinct (map survey_key (cs_surveys st)) \<and>
     distinct (map sr_survey (cs_responses st)) \<and>
     set (map sr_survey (cs_responses st)) = sv_id ` {s \<in> set (cs_surveys st). sv_status s = Sv_answered} \<and>
     (\<forall>s\<in>set (cs_surveys st). (sv_kind s = Ticket_close \<longrightarrow> sv_period s = None) \<and> (sv_kind s = Quarterly \<longrightarrow> sv_ticket s = None) \<and>
        (sv_remind s = None \<or> (\<exists>d\<in>set (remind_days (sv_kind s)). sv_remind s = Some (sv_sent s + d * 86400000))))"

lemma map_put:
  assumes "distinct (map sv_id xs)" "s \<in> set xs" "sv_id s' = sv_id s" "g s' = g s"
  shows "map g (map (\<lambda>x. if sv_id x = sv_id s' then s' else x) xs) = map g xs"
proof -
  have "x = s" if "x \<in> set xs" "sv_id x = sv_id s" for x
    using assms(1,2) that by (auto simp: distinct_map inj_on_def)
  then show ?thesis using assms(3,4) by (auto simp: map_eq_conv)
qed

lemma set_put:
  assumes "distinct (map sv_id xs)" "s \<in> set xs" "sv_id s' = sv_id s"
  shows "set (map (\<lambda>x. if sv_id x = sv_id s' then s' else x) xs) = insert s' (set xs - {s})"
proof -
  have "x = s" if "x \<in> set xs" "sv_id x = sv_id s" for x
    using assms(1,2) that by (auto simp: distinct_map inj_on_def)
  then show ?thesis using assms(2,3) by (auto simp: image_iff split: if_splits)
qed

lemma survey_by_id_found: "survey_by_id st i = Some s \<Longrightarrow> s \<in> set (cs_surveys st) \<and> sv_id s = i"
  by (auto simp: survey_by_id_def find_Some_iff)

text \<open>Replacing one row by one with its keys, neither of them answered, keeps the invariant.\<close>

lemma put_keeps:
  assumes ok: "surveys_ok st" and s: "s \<in> set (cs_surveys st)" "sv_id s' = sv_id s" "survey_key s' = survey_key s"
    "sv_status s \<noteq> Sv_answered" "sv_status s' \<noteq> Sv_answered"
    "sv_remind s' = None \<or> (\<exists>d\<in>set (remind_days (sv_kind s')). sv_remind s' = Some (sv_sent s' + d * 86400000))"
  shows "surveys_ok (put_survey s' st)"
proof -
  have d: "distinct (map sv_id (cs_surveys st))" using ok by (simp add: surveys_ok_def)
  have k: "sv_kind s' = sv_kind s" "sv_ticket s' = sv_ticket s" "sv_period s' = sv_period s"
    using s(3) by (simp_all add: survey_key_def)
  have row: "(sv_kind s = Ticket_close \<longrightarrow> sv_period s = None) \<and> (sv_kind s = Quarterly \<longrightarrow> sv_ticket s = None)"
    using ok s(1) by (simp add: surveys_ok_def)
  have set': "set (cs_surveys (put_survey s' st)) = insert s' (set (cs_surveys st) - {s})"
    using set_put [OF d s(1,2)] by (simp add: put_survey_def)
  have "{x \<in> insert s' (set (cs_surveys st) - {s}). sv_status x = Sv_answered} = {x \<in> set (cs_surveys st). sv_status x = Sv_answered}"
    using s(4,5) by auto
  moreover have "map sv_id (cs_surveys (put_survey s' st)) = map sv_id (cs_surveys st)"
    "map survey_key (cs_surveys (put_survey s' st)) = map survey_key (cs_surveys st)"
    "cs_responses (put_survey s' st) = cs_responses st"
    using map_put [OF d s(1,2), of sv_id, OF s(2)] map_put [OF d s(1,2), of survey_key, OF s(3)] by (simp_all add: put_survey_def)
  ultimately show ?thesis
    using ok s(6) row unfolding surveys_ok_def set' by (simp add: k)
qed

lemma put_answered:
  assumes ok: "surveys_ok st" and s: "s \<in> set (cs_surveys st)" "sv_status s \<noteq> Sv_answered" "sr_survey r = sv_id s"
    and st': "st' = put_survey (s\<lparr>sv_status := Sv_answered, sv_answered := t\<rparr>) (st\<lparr>cs_responses := cs_responses st @ [r]\<rparr>)"
  shows "surveys_ok (st'\<lparr>cs_low := low\<rparr>)"
proof -
  let ?s = "s\<lparr>sv_status := Sv_answered, sv_answered := t\<rparr>"
  have d: "distinct (map sv_id (cs_surveys st))" using ok by (simp add: surveys_ok_def)
  have set': "set (cs_surveys st') = insert ?s (set (cs_surveys st) - {s})"
    using set_put [OF d s(1), of ?s] by (simp add: st' put_survey_def)
  have fresh: "sv_id s \<notin> set (map sr_survey (cs_responses st))"
    using ok s(1,2) d by (auto simp: surveys_ok_def distinct_map inj_on_def)
  have "sv_id ` {x \<in> insert ?s (set (cs_surveys st) - {s}). sv_status x = Sv_answered} =
      insert (sv_id s) (sv_id ` {x \<in> set (cs_surveys st). sv_status x = Sv_answered})"
  proof -
    have "{x \<in> insert ?s (set (cs_surveys st) - {s}). sv_status x = Sv_answered} =
        insert ?s {x \<in> set (cs_surveys st). sv_status x = Sv_answered}"
      using s(1,2) by auto
    then show ?thesis by simp
  qed
  moreover have "map sv_id (cs_surveys st') = map sv_id (cs_surveys st)" "map survey_key (cs_surveys st') = map survey_key (cs_surveys st)"
    using map_put [OF d s(1), of ?s sv_id] map_put [OF d s(1), of ?s survey_key]
    by (simp_all add: st' put_survey_def survey_key_def [of s] survey_key_def [of ?s] del: map_map map_eq_conv)
  moreover have "cs_responses st' = cs_responses st @ [r]" by (simp add: st' put_survey_def)
  ultimately show ?thesis
    using ok fresh s(1,3) set' unfolding surveys_ok_def by simp
qed

lemma append_keeps:
  assumes "surveys_ok st" "sv_id s \<notin> set (map sv_id (cs_surveys st))" "survey_key s \<notin> set (map survey_key (cs_surveys st))"
    "sv_status s \<noteq> Sv_answered" "sv_kind s = Ticket_close \<longrightarrow> sv_period s = None" "sv_kind s = Quarterly \<longrightarrow> sv_ticket s = None"
    "sv_remind s = None \<or> (\<exists>d\<in>set (remind_days (sv_kind s)). sv_remind s = Some (sv_sent s + d * 86400000))"
  shows "surveys_ok (st\<lparr>cs_surveys := cs_surveys st @ [s]\<rparr>)"
proof -
  have "{x \<in> set (cs_surveys st @ [s]). sv_status x = Sv_answered} = {x \<in> set (cs_surveys st). sv_status x = Sv_answered}"
    using assms(4) by auto
  with assms show ?thesis unfolding surveys_ok_def by auto
qed

lemma tick_survey_keys:
  "sv_id (tick_survey t s) = sv_id s \<and> survey_key (tick_survey t s) = survey_key s \<and>
   sv_status (tick_survey t s) \<in> {sv_status s, Sv_expired, Sv_reminded}"
  by (auto simp: tick_survey_def survey_key_def split: option.splits)

lemma tick_keeps:
  assumes "surveys_ok st" "s \<in> set (cs_surveys st)" "due_survey now s"
  shows "surveys_ok (put_survey (tick_survey now s) st)"
proof -
  have "sv_remind s = None \<or> (\<exists>d\<in>set (remind_days (sv_kind s)). sv_remind s = Some (sv_sent s + d * 86400000))"
    using assms(1,2) by (simp add: surveys_ok_def)
  from tick_one_left [OF this, of now] assms(3) have
    "sv_remind (tick_survey now s) = None \<or> (\<exists>d\<in>set (remind_days (sv_kind (tick_survey now s))).
       sv_remind (tick_survey now s) = Some (sv_sent (tick_survey now s) + d * 86400000))"
    by (simp add: tick_one_def)
  then show ?thesis
    using tick_survey_keys [of now s] assms(3)
    by (intro put_keeps [OF assms(1,2)]) (auto simp: due_survey_def)
qed

lemma reminder_tick_keeps:
  assumes "surveys_ok st"
  shows "surveys_ok (reminder_tick now batch st)"
proof -
  have "surveys_ok (foldl (\<lambda>st s. put_survey (tick_survey now s) st) mid ss)"
    if "surveys_ok mid" "set ss \<subseteq> set (cs_surveys mid)" "distinct (map sv_id ss)" "\<forall>s\<in>set ss. due_survey now s" for mid ss
    using that
  proof (induction ss arbitrary: mid)
    case (Cons s ss)
    have d: "distinct (map sv_id (cs_surveys mid))" using Cons.prems(1) by (simp add: surveys_ok_def)
    have "set ss \<subseteq> set (cs_surveys (put_survey (tick_survey now s) mid))"
      using Cons.prems(2,3) set_put [OF d, of s "tick_survey now s"] tick_survey_keys [of now s]
      by (auto simp: put_survey_def)
    then show ?case using Cons tick_keeps by simp
  qed simp
  moreover have "set (due_surveys now batch st) \<subseteq> set (cs_surveys st)" "\<forall>s\<in>set (due_surveys now batch st). due_survey now s"
    unfolding due_surveys_def by (auto dest!: in_set_takeD)
  moreover have "distinct (map sv_id (due_surveys now batch st))"
  proof -
    have "inj_on sv_id (set (cs_surveys st))" "distinct (cs_surveys st)"
      using assms by (simp_all add: surveys_ok_def distinct_map)
    then show ?thesis
      unfolding due_surveys_def distinct_map
      by (auto intro!: distinct_take intro: inj_on_subset dest!: in_set_takeD)
  qed
  ultimately show ?thesis unfolding reminder_tick_def using assms by blast
qed

lemma key_fresh_ticket:
  assumes "surveys_ok st" "survey_for_ticket st t c = None" "sv_kind s = Ticket_close" "sv_ticket s = Some t" "sv_period s = None" "sv_contact s = c"
  shows "survey_key s \<notin> set (map survey_key (cs_surveys st))"
  using assms(2-6) by (auto simp: survey_for_ticket_def find_None_iff survey_key_def)

lemma key_fresh_period:
  assumes "surveys_ok st" "survey_for_period st q c = None" "sv_kind s = Quarterly" "sv_ticket s = None" "sv_period s = Some q" "sv_contact s = c"
  shows "survey_key s \<notin> set (map survey_key (cs_surveys st))"
  using assms(2-6) by (auto simp: survey_for_period_def find_None_iff survey_key_def)

lemma on_closed_keeps:
  assumes "surveys_ok st"
  shows "surveys_ok (on_closed enabled ticket requester facts i hash now st)"
proof (cases requester)
  case (Some contact)
  show ?thesis
  proof (cases "\<not> enabled \<or> survey_for_ticket st ticket contact \<noteq> None \<or> i \<in> set (map sv_id (cs_surveys st))")
    case False
    obtain s where s: "on_closed enabled ticket requester facts i hash now st = st\<lparr>cs_surveys := cs_surveys st @ [s]\<rparr>"
      "sv_id s = i" "sv_kind s = Ticket_close" "sv_ticket s = Some ticket" "sv_period s = None" "sv_contact s = contact"
      "sv_status s \<noteq> Sv_answered" "sv_remind s = None \<or> (\<exists>d\<in>set (remind_days (sv_kind s)). sv_remind s = Some (sv_sent s + d * 86400000))"
      using False by (auto simp: on_closed_def Some Let_def survey_timings_def split: if_splits)
    show ?thesis
      unfolding s(1) using False s key_fresh_ticket [OF assms, of ticket contact s]
      by (intro append_keeps [OF assms]) auto
  next
    case True
    then show ?thesis using assms by (auto simp: on_closed_def Some)
  qed
qed (use assms in \<open>simp add: on_closed_def\<close>)

lemma send_quarterly_keeps:
  assumes "surveys_ok st"
  shows "surveys_ok (send_quarterly now period st r)"
proof -
  obtain contact i hash where r: "r = (contact, i, hash)" by (cases r)
  show ?thesis
  proof (cases "survey_for_period st period contact \<noteq> None \<or> i \<in> set (map sv_id (cs_surveys st))")
    case False
    obtain s where s: "send_quarterly now period st r = st\<lparr>cs_surveys := cs_surveys st @ [s]\<rparr>"
      "sv_id s = i" "sv_kind s = Quarterly" "sv_ticket s = None" "sv_period s = Some period" "sv_contact s = contact"
      "sv_status s \<noteq> Sv_answered" "sv_remind s = None \<or> (\<exists>d\<in>set (remind_days (sv_kind s)). sv_remind s = Some (sv_sent s + d * 86400000))"
      using False by (auto simp: send_quarterly_def r Let_def survey_timings_def split: if_splits)
    show ?thesis
      unfolding s(1) using False s key_fresh_period [OF assms, of period contact s]
      by (intro append_keeps [OF assms]) auto
  next
    case True
    then have "send_quarterly now period st r = st" by (auto simp: send_quarterly_def r)
    with assms show ?thesis by simp
  qed
qed

lemma record_answer_keeps:
  assumes "surveys_ok st" "s \<in> set (cs_surveys st)" "record_answer s dto now st = Inr st'"
  shows "surveys_ok st'"
proof -
  from assms(3) obtain answers where a: "sv_status s \<noteq> Sv_answered" "answers_for (sv_kind s) dto = Inr answers"
    by (auto simp: record_answer_def and_then_Inr split: if_splits)
  define r where "r = \<lparr>sr_survey = sv_id s, sr_answers = answers,
    sr_comment = (case an_comment dto of None \<Rightarrow> None | Some c \<Rightarrow> if js_trim c = [] then None else Some (js_trim c))\<rparr>"
  define mid where "mid = put_survey (s\<lparr>sv_status := Sv_answered, sv_answered := Some now\<rparr>) (st\<lparr>cs_responses := cs_responses st @ [r]\<rparr>)"
  have "surveys_ok (mid\<lparr>cs_low := low\<rparr>)" for low
    by (rule put_answered [OF assms(1,2) a(1) _ mid_def]) (simp add: r_def)
  moreover have "st' = mid \<or> (\<exists>low. st' = mid\<lparr>cs_low := low\<rparr>)"
    using assms(3) a by (auto simp: record_answer_def and_then_Inr Let_def mid_def r_def split: if_splits)
  moreover have "mid = mid\<lparr>cs_low := cs_low mid\<rparr>" by simp
  ultimately show ?thesis by metis
qed

lemma survey_step_keeps: "survey_step st st' \<Longrightarrow> surveys_ok st \<Longrightarrow> surveys_ok st'"
proof (induction rule: survey_step.induct)
  case (quarter st enabled cal recipients now)
  have "surveys_ok (foldl (send_quarterly now p) st rs)" for p rs
    using quarter by (induction rs arbitrary: st) (auto intro: send_quarterly_keeps)
  then show ?case using quarter by (auto simp: quarterly_tick_def Let_def split: prod.split)
next
  case (portal_answer contact i dto now st st')
  then show ?case
    by (auto simp: answer_as_contact_def split: option.splits if_splits intro: record_answer_keeps dest: survey_by_id_found)
next
  case (link_answer digest i token dto now st st')
  then show ?case
    by (auto simp: answer_with_token_def split: option.splits if_splits intro: record_answer_keeps dest: survey_by_id_found)
qed (auto intro: on_closed_keeps reminder_tick_keeps)

definition no_surveys :: survey_store where
  "no_surveys = \<lparr>cs_surveys = [], cs_responses = [], cs_low = []\<rparr>"

lemma surveys_reached: "survey_step\<^sup>*\<^sup>* no_surveys st \<Longrightarrow> surveys_ok st"
proof (induction rule: rtranclp_induct)
  case base
  show ?case by (simp add: surveys_ok_def no_surveys_def)
qed (rule survey_step_keeps)

subsection \<open>Adding up\<close>

lemma bump_count: "sum_list (map snd (bump k m)) = sum_list (map snd m) + length (filter (\<lambda>p. fst p = k) m)"
  by (induction m) (auto simp: bump_def)

lemma key_once: "k \<in> fst ` set m \<Longrightarrow> distinct (map fst m) \<Longrightarrow> length (filter (\<lambda>p. fst p = k) m) = 1"
  by (induction m) (auto simp: filter_empty_conv, metis fst_conv image_eqI)

lemma bump_total: "k \<in> fst ` set m \<Longrightarrow> distinct (map fst m) \<Longrightarrow> sum_list (map snd (bump k m)) = sum_list (map snd m) + 1"
  by (simp only: bump_count key_once)

lemma bump_keys: "map fst (bump k m) = map fst m"
  by (induction m) (auto simp: bump_def)

lemma score_bucket_range: "1 \<le> score_bucket s \<and> score_bucket s \<le> 5"
  by (simp add: score_bucket_def)

lemma distribution_total:
  assumes "map fst m = [1, 2, 3, 4, 5]"
  shows "map fst (foldl (\<lambda>m s. bump (score_bucket s) m) m scores) = [1, 2, 3, 4, 5] \<and>
    sum_list (map snd (foldl (\<lambda>m s. bump (score_bucket s) m) m scores)) = sum_list (map snd m) + length scores"
  using assms
proof (induction scores arbitrary: m)
  case (Cons s scores)
  have "score_bucket s \<in> {1, 2, 3, 4, 5}" using score_bucket_range [of s] by auto
  then have "score_bucket s \<in> fst ` set m" using Cons.prems by (metis list.set(1,2) list.set_map)
  then have "sum_list (map snd (bump (score_bucket s) m)) = sum_list (map snd m) + 1"
    by (rule bump_total) (simp add: Cons.prems)
  with Cons.IH [of "bump (score_bucket s) m"] Cons.prems show ?case by (simp add: bump_keys)
qed simp

lemma mean_bounds:
  assumes "xs \<noteq> []" "\<forall>x\<in>set xs. of_int a \<le> x \<and> x \<le> of_int b"
  shows "\<exists>m. mean_of xs = Some m \<and> of_int a \<le> m \<and> m \<le> of_int b"
proof -
  have n: "(0::rat) < of_nat (length xs)" using assms(1) by simp
  have "of_int a * of_nat (length xs) \<le> sum_list xs \<and> sum_list xs \<le> of_int b * of_nat (length xs)"
    using assms(2) by (induction xs) (auto simp: algebra_simps)
  then have "of_int a \<le> sum_list xs / of_nat (length xs)" "sum_list xs / of_nat (length xs) \<le> of_int b"
    using n by (simp_all add: pos_le_divide_eq pos_divide_le_eq)
  from round_to_bounds [OF this, of 2] assms(1) show ?thesis by (simp add: mean_of_def)
qed

lemma map_of_by_period:
  "answers_of (by_period rows) p = map snd (filter (\<lambda>r. fst r = p) rows) \<and>
   set (map fst (by_period rows)) = fst ` set rows \<and> distinct (map fst (by_period rows))"
proof (induction rows rule: rev_induct)
  case (snoc r rows)
  obtain q a where r: "r = (q, a)" by force
  have "by_period (rows @ [r]) = map_adjust q [] (\<lambda>l. l @ [a]) (by_period rows)" by (simp add: by_period_def r)
  then have m: "map_of (by_period (rows @ [r])) = (map_of (by_period rows))(q \<mapsto> answers_of (by_period rows) q @ [a])"
    and d: "distinct (map fst (by_period (rows @ [r])))"
    using snoc by (simp_all add: map_of_map_adjust answers_of_def)
  have "set (map fst (by_period (rows @ [r]))) = insert q (set (map fst (by_period rows)))"
    using arg_cong [OF m, of dom] by (simp add: dom_map_of_conv_image_fst)
  moreover have "answers_of (by_period (rows @ [r])) p = (if p = q then answers_of (by_period rows) q @ [a] else answers_of (by_period rows) p)"
    by (simp add: answers_of_def [of "by_period (rows @ [r])"] m answers_of_def [of _ p])
  ultimately show ?case using snoc d by (auto simp: r)
qed (simp add: by_period_def answers_of_def)

lemma set_take_last: "set (take_last n xs) \<subseteq> set xs"
  by (simp add: take_last_def set_drop_subset)

lemma last_take_last: "take_last n xs \<noteq> [] \<Longrightarrow> last (take_last n xs) = last xs"
  by (simp add: take_last_def)

lemma sorted_le_last: "sorted xs \<Longrightarrow> x \<in> set xs \<Longrightarrow> x \<le> last xs"
  by (induction xs) auto

lemma present_some: "v \<in> set (present xs) \<longleftrightarrow> Some v \<in> set xs"
  by (force simp: present_def)

lemma answer_mean_bounds:
  assumes "\<forall>a\<in>set answers. \<forall>k\<in>set keys. \<forall>v. number_of parse (jget k a) = Some v \<longrightarrow> 1 \<le> v \<and> v \<le> 5" "answer_mean parse keys answers = Some m"
  shows "1 \<le> m \<and> m \<le> 5"
proof -
  let ?xs = "present (concat (map (\<lambda>a. map (\<lambda>k. number_of parse (jget k a)) keys) answers))"
  have "?xs \<noteq> []" using assms(2) by (auto simp: answer_mean_def mean_of_def split: if_splits)
  moreover have "\<forall>x\<in>set ?xs. of_int 1 \<le> x \<and> x \<le> of_int 5"
    using assms(1) by (auto simp: present_some)
  ultimately show ?thesis using mean_bounds [of ?xs 1 5] assms(2) by (simp add: answer_mean_def)
qed

subsection \<open>Properties\<close>

text \<open>C30: Surveys stay in step with answers: whatever closes, ticks and answers happened, a ticket's requester has at most
  one survey for that ticket and a recipient at most one per quarter, a survey is marked answered exactly
  when it has a response, and it never has two.\<close>

theorem surveys_answered_once:
  assumes "survey_step\<^sup>*\<^sup>* no_surveys st"
  shows "distinct (map (\<lambda>s. (sv_kind s, sv_ticket s, sv_period s, sv_contact s)) (cs_surveys st)) \<and>
    distinct (map sr_survey (cs_responses st)) \<and>
    (\<forall>s\<in>set (cs_surveys st). sv_status s = Sv_answered \<longleftrightarrow> (\<exists>r\<in>set (cs_responses st). sr_survey r = sv_id s))"
proof -
  from surveys_reached [OF assms] have ok: "surveys_ok st" .
  then have "distinct (map sv_id (cs_surveys st))"
    and r: "set (map sr_survey (cs_responses st)) = sv_id ` {s \<in> set (cs_surveys st). sv_status s = Sv_answered}"
    by (simp_all add: surveys_ok_def)
  then have inj: "t = s" if "t \<in> set (cs_surveys st)" "s \<in> set (cs_surveys st)" "sv_id t = sv_id s" for s t
    using that by (auto simp: distinct_map inj_on_def)
  have "sv_status s = Sv_answered \<longleftrightarrow> sv_id s \<in> set (map sr_survey (cs_responses st))" if "s \<in> set (cs_surveys st)" for s
  proof
    assume "sv_status s = Sv_answered"
    with that show "sv_id s \<in> set (map sr_survey (cs_responses st))" unfolding r by blast
  next
    assume "sv_id s \<in> set (map sr_survey (cs_responses st))"
    then obtain t where "t \<in> set (cs_surveys st)" "sv_status t = Sv_answered" "sv_id t = sv_id s" unfolding r by auto
    with inj [OF _ that] show "sv_status s = Sv_answered" by metis
  qed
  then have "\<forall>s\<in>set (cs_surveys st). sv_status s = Sv_answered \<longleftrightarrow> (\<exists>r\<in>set (cs_responses st). sr_survey r = sv_id s)"
    by (simp add: image_iff) metis
  with ok show ?thesis by (simp add: surveys_ok_def survey_key_def [abs_def])
qed

definition closed_sample :: closed_facts where
  "closed_sample = \<lparr>cf_state = ''closed'', cf_code = Some ''fixed'', cf_created = 0, cf_closed = Some 3600000, cf_cancelled = None\<rparr>"

definition surveyed_store :: survey_store where
  "surveyed_store = on_closed True ''t1'' (Some ''c1'') closed_sample ''s1'' ''hash'' 3600000 no_surveys"

definition answered_store :: survey_store where
  "answered_store = (case answer_with_token (\<lambda>t. ''hash'') ''s1'' ''token'' \<lparr>an_score = Some 2, an_scores = None, an_comment = None\<rparr> 7200000 surveyed_store of
     Inl e \<Rightarrow> no_surveys | Inr st \<Rightarrow> st)"

lemma answered_run: "answer_with_token (\<lambda>t. ''hash'') ''s1'' ''token'' \<lparr>an_score = Some 2, an_scores = None, an_comment = None\<rparr> 7200000 surveyed_store = Inr answered_store"
proof -
  have "(case answer_with_token (\<lambda>t. ''hash'') ''s1'' ''token'' \<lparr>an_score = Some 2, an_scores = None, an_comment = None\<rparr> 7200000 surveyed_store of
     Inl e \<Rightarrow> False | Inr st \<Rightarrow> True)" by code_simp
  then show ?thesis by (auto simp: answered_store_def split: sum.splits)
qed

theorem surveys_answered_once_witness:
  "distinct (map sr_survey (cs_responses answered_store)) \<and> length (cs_responses answered_store) = 1 \<and>
    map fst (cs_low answered_store) = [''s1'']"
proof -
  have "survey_step no_surveys surveyed_store" unfolding surveyed_store_def by (rule close_hook)
  moreover have "survey_step surveyed_store answered_store" by (rule link_answer [OF answered_run])
  ultimately have "survey_step\<^sup>*\<^sup>* no_surveys answered_store" by (meson converse_rtranclp_into_rtranclp r_into_rtranclp)
  from surveys_answered_once [OF this] show ?thesis by simp code_simp
qed


definition quarterly_sample :: survey where
  "quarterly_sample = \<lparr>sv_id = ''q'', sv_kind = Quarterly, sv_ticket = None, sv_period = Some (2026, 1), sv_contact = ''c1'', sv_hash = ''h'',
     sv_status = Sv_sent, sv_sent = 0, sv_remind = Some (7 * 86400000), sv_expires = Some (21 * 86400000), sv_answered = None, sv_reason = None\<rparr>"


text \<open>The score summary accounts for every response: the five buckets add up to the responses, the low ones are counted
  once, and with scores between 1 and 5 so is the average.\<close>

theorem score_summary_accounts:
  "sum_list (map snd (sm_distribution (summarise_scores scores))) = sm_responses (summarise_scores scores) \<and>
   map fst (sm_distribution (summarise_scores scores)) = [1, 2, 3, 4, 5] \<and>
   sm_low (summarise_scores scores) = length (filter (\<lambda>s. s \<le> 2) scores) \<and>
   (scores \<noteq> [] \<and> list_all (\<lambda>s. 1 \<le> s \<and> s \<le> 5) scores \<longrightarrow>
     (\<exists>m. sm_average (summarise_scores scores) = Some m \<and> 1 \<le> m \<and> m \<le> 5))"
  using distribution_total [of "[(1, 0), (2, 0), (3, 0), (4, 0), (5, 0)]" scores] mean_bounds [of scores 1 5]
  by (auto simp: summarise_scores_def is_low_score_def [abs_def] list_all_iff)

theorem score_summary_accounts_witness:
  "\<exists>m. sm_average (summarise_scores [5, 4, 2]) = Some m \<and> 1 \<le> m \<and> m \<le> 5"
  using score_summary_accounts [of "[5, 4, 2]"] by simp

text \<open>The quarterly trend is the last periods answered, oldest first: at most the number asked for, strictly ascending,
  each with all of its responses, none before it left out for an older one, and the latest period is the
  greatest of all; with answers between 1 and 5 every average is between 1 and 5.\<close>

theorem quarterly_trend_sound:
  assumes "summarise_quarterly parse periods rows = q"
  shows "length (qs_trend q) \<le> periods \<and> sorted_wrt (<) (map fst (qs_trend q)) \<and>
    (\<forall>(p, n, a)\<in>set (qs_trend q). n = length (filter (\<lambda>r. fst r = p) rows) \<and> 0 < n) \<and>
    (\<forall>l. qs_latest q = Some l \<longrightarrow> l \<in> fst ` set rows \<and> (\<forall>r\<in>set rows. fst r \<le> l) \<and> qs_responses q = length (filter (\<lambda>r. fst r = l) rows)) \<and>
    ((\<forall>r\<in>set rows. \<forall>k\<in>set quarterly_keys. \<forall>v. number_of parse (jget k (snd r)) = Some v \<longrightarrow> 1 \<le> v \<and> v \<le> 5) \<longrightarrow>
      (\<forall>(k, a)\<in>set (qs_averages q). \<forall>m. a = Some m \<longrightarrow> 1 \<le> m \<and> m \<le> 5))"
proof -
  let ?m = "by_period rows"
  let ?kept = "take_last periods (sort (map fst ?m))"
  have m: "answers_of ?m p = map snd (filter (\<lambda>r. fst r = p) rows)" "set (map fst ?m) = fst ` set rows" "distinct (map fst ?m)" for p
    using map_of_by_period by blast+
  have kept: "set ?kept \<subseteq> fst ` set rows" using set_take_last [of periods "sort (map fst ?m)"] m(2) by simp
  have sorted: "sorted_wrt (<) ?kept"
    unfolding take_last_def using m(3) by (simp add: sorted_wrt_drop strict_sorted_iff)
  have trend: "qs_trend q = map (\<lambda>p. (p, length (answers_of ?m p), answer_mean parse quarterly_keys (answers_of ?m p))) ?kept"
    and latest: "qs_latest q = (if ?kept = [] then None else Some (last ?kept))"
    and responses: "qs_responses q = length (case qs_latest q of None \<Rightarrow> [] | Some p \<Rightarrow> answers_of ?m p)"
    and averages: "qs_averages q = map (\<lambda>k. (k, answer_mean parse [k] (case qs_latest q of None \<Rightarrow> [] | Some p \<Rightarrow> answers_of ?m p))) quarterly_keys"
    unfolding assms [symmetric] summarise_quarterly_def Let_def by simp_all
  have len: "length (qs_trend q) \<le> periods" by (simp add: trend take_last_def)
  have fst_trend: "map fst (qs_trend q) = ?kept" by (simp add: trend o_def)
  have counts: "\<forall>(p, n, a)\<in>set (qs_trend q). n = length (filter (\<lambda>r. fst r = p) rows) \<and> 0 < n"
    using kept by (auto simp: trend m(1) filter_empty_conv)
  have last_one: "l \<in> fst ` set rows \<and> (\<forall>r\<in>set rows. fst r \<le> l) \<and> qs_responses q = length (filter (\<lambda>r. fst r = l) rows)"
    if l: "qs_latest q = Some l" for l
  proof -
    have ne: "?kept \<noteq> []" and "l = last ?kept" using l by (auto simp: latest split: if_splits)
    then have last: "l = last (sort (map fst ?m))" using last_take_last [OF ne] by simp
    have "l \<in> set ?kept" using ne \<open>l = last ?kept\<close> by simp
    moreover have "fst r \<le> l" if "r \<in> set rows" for r
    proof -
      have "fst r \<in> set (sort (map fst ?m))" using m(2) that by simp
      then show ?thesis unfolding last by (intro sorted_le_last) simp_all
    qed
    ultimately show ?thesis using kept by (auto simp: responses l m(1))
  qed
  have bounded: "1 \<le> x \<and> x \<le> 5"
    if "\<forall>r\<in>set rows. \<forall>k\<in>set quarterly_keys. \<forall>v. number_of parse (jget k (snd r)) = Some v \<longrightarrow> 1 \<le> v \<and> v \<le> 5"
      "(k, Some x) \<in> set (qs_averages q)" for k x
  proof -
    let ?as = "case qs_latest q of None \<Rightarrow> [] | Some p \<Rightarrow> answers_of ?m p"
    have k: "k \<in> set quarterly_keys" "answer_mean parse [k] ?as = Some x" using that(2) by (auto simp: averages)
    have "set ?as \<subseteq> snd ` set rows" by (auto simp: m(1) split: option.split)
    then have "\<forall>a\<in>set ?as. \<forall>k\<in>set [k]. \<forall>v. number_of parse (jget k a) = Some v \<longrightarrow> 1 \<le> v \<and> v \<le> 5"
      using that(1) k(1) by fastforce
    from answer_mean_bounds [OF this k(2)] show ?thesis .
  qed
  have b: "(\<forall>r\<in>set rows. \<forall>k\<in>set quarterly_keys. \<forall>v. number_of parse (jget k (snd r)) = Some v \<longrightarrow> 1 \<le> v \<and> v \<le> 5) \<longrightarrow>
      (\<forall>(k, a)\<in>set (qs_averages q). \<forall>m. a = Some m \<longrightarrow> 1 \<le> m \<and> m \<le> 5)"
    by (rule impI, rule ballI, clarify) (rule bounded)
  have l: "\<forall>l. qs_latest q = Some l \<longrightarrow> l \<in> fst ` set rows \<and> (\<forall>r\<in>set rows. fst r \<le> l) \<and>
      qs_responses q = length (filter (\<lambda>r. fst r = l) rows)"
    using last_one by blast
  show ?thesis
    unfolding fst_trend by (rule conjI [OF len conjI [OF sorted conjI [OF counts conjI [OF l b]]]])
qed

theorem quarterly_trend_sound_witness:
  "length (qs_trend (summarise_quarterly (\<lambda>s. None) 2
      [(''2025-Q4'', JObj [(''quality'', JNum 4)]), (''2026-Q1'', JObj [(''quality'', JNum 5)]), (''2025-Q3'', JObj [])])) \<le> 2"
  using quarterly_trend_sound [OF refl] by blast

lemma quarter_ended_exact:
  assumes "iso_day_of on = Ymd y m d" "quarter_ended_before on = (per, e)"
  shows "day_number e = day_number (Ymd y (3 * ((m - 1) div 3) + 1) 1) - 1 \<and> valid_ymd e \<and> per = (yr e, (mon e - 1) div 3 + 1) \<and>
    e < iso_day_of on"
proof -
  have v: "valid_ymd (Ymd y m d)" using valid_iso_day_of [of on] assms(1) by simp
  then have m: "1 \<le> m" "m \<le> 12" "1 \<le> d" by (auto simp: valid_ymd_def)
  define k where "k = (m - 1) div 3"
  have k: "k \<in> {0, 1, 2, 3}" using m by (auto simp: k_def)
  let ?last = "if k = 0 then Ymd (y - 1) 12 31 else Ymd y (3 * k) (month_length y (3 * k))"
  have vl: "valid_ymd ?last"
    using k by (auto simp: valid_ymd_def month_length_def month_start_def)
  have step: "day_number ?last = day_number (Ymd y (3 * k + 1) 1) - 1"
    using k day_from_year_Suc [of "y - 1"] by (auto simp: day_number_def month_length_def month_start_def year_length_def)
  have e: "e = civil (day_number (Ymd y (3 * k + 1) 1) - 1)" and per: "per = (if k = 0 then (y - 1, 4) else (y, k))"
    using assms k by (auto simp: quarter_ended_before_def Let_def k_def [symmetric] date_utc_def make_day_def iso_day_of_def day_number_def)
  have el: "e = ?last" unfolding e step [symmetric] using vl by simp
  have first: "valid_ymd (Ymd y (3 * k + 1) 1)" using k by (auto simp: valid_ymd_def month_length_def month_start_def)
  have "3 * k + 1 \<le> m" unfolding k_def using m by linarith
  then have "Ymd y (3 * k + 1) 1 \<le> Ymd y m d" using m by (auto simp: less_eq_ymd_def less_ymd_def)
  then have "day_number (Ymd y (3 * k + 1) 1) \<le> day_number (Ymd y m d)" using first v by (simp add: day_number_le_iff)
  then have "e < Ymd y m d" using vl v by (simp add: day_number_less_iff [symmetric] el step)
  moreover have "per = (yr e, (mon e - 1) div 3 + 1)" using k by (auto simp: per el)
  ultimately show ?thesis using vl step by (simp add: el k_def [symmetric] assms(1))
qed

lemma shift_days_civil: "shift_days d n = civil (day_number d + n)"
proof -
  have "(day_number d * 86400000 + 43200000 + n * 86400000) = 43200000 + (day_number d + n) * 86400000"
    by (simp add: algebra_simps)
  then have "(day_number d * 86400000 + 43200000 + n * 86400000) div 86400000 = day_number d + n"
    by (simp only: div_mult_self1)
  then show ?thesis by (simp add: shift_days_def iso_day_of_def midnight_def)
qed

lemma search_business_day_exact:
  "(case search_business_day p k (civil n) of
      None \<Rightarrow> \<forall>i<k. \<not> p (civil (n + int i))
    | Some d \<Rightarrow> \<exists>i<k. d = civil (n + int i) \<and> p d \<and> (\<forall>j<i. \<not> p (civil (n + int j))))"
proof (induction k arbitrary: n)
  case (Suc k)
  show ?case
  proof (cases "p (civil n)")
    case True
    then show ?thesis by (auto intro!: exI [of _ 0])
  next
    case False
    have next_day: "shift_days (civil n) 1 = civil (n + 1)" by (simp add: shift_days_civil)
    show ?thesis
    proof (cases "search_business_day p k (civil (n + 1))")
      case None
      with Suc.IH [of "n + 1"] False show ?thesis
        by (auto simp: next_day less_Suc_eq_0_disj algebra_simps)
    next
      case (Some d)
      with Suc.IH [of "n + 1"] obtain i where i: "i < k" "d = civil (n + 1 + int i)" "p d" "\<forall>j<i. \<not> p (civil (n + 1 + int j))" by auto
      have "\<forall>j<Suc i. \<not> p (civil (n + int j))"
        using i(4) False by (auto simp: less_Suc_eq_0_disj algebra_simps)
      with i Some False show ?thesis
        by (auto simp: next_day algebra_simps intro!: exI [of _ "Suc i"])
    qed
  qed
qed simp

text \<open>The quarterly survey opens on the first business day after the quarter: the period asked about is the last
  quarter that ended before the day, its last day is the day before the current quarter began, and the
  survey opens on the first day after it that works, within a fortnight, or on the day after when none does.\<close>

theorem quarter_opens_first_business_day:
  assumes "quarter_ended_before on = (per, e)" "first_business_day_after e open_on = d"
  shows "e < iso_day_of on \<and> per = (yr e, (mon e - 1) div 3 + 1) \<and>
    day_number e + 1 = day_number (Ymd (yr (iso_day_of on)) (3 * ((mon (iso_day_of on) - 1) div 3) + 1) 1) \<and>
    (if \<exists>i\<in>{1..14}. open_on (civil (day_number e + i))
     then \<exists>i\<in>{1..14}. d = civil (day_number e + i) \<and> open_on d \<and> (\<forall>j\<in>{1..<i}. \<not> open_on (civil (day_number e + j)))
     else d = civil (day_number e + 1))"
proof -
  obtain y m dd where ymd: "iso_day_of on = Ymd y m dd" by (cases "iso_day_of on")
  note q = quarter_ended_exact [OF ymd assms(1)]
  have start: "shift_days e 1 = civil (day_number e + 1)" using q by (simp add: shift_days_civil)
  have shift: "(\<exists>i\<in>{1..14}. P i) \<longleftrightarrow> (\<exists>i<14. P (1 + int i))" for P :: "int \<Rightarrow> bool"
  proof
    assume "\<exists>i\<in>{1..14}. P i"
    then obtain i where "1 \<le> i" "i \<le> 14" "P i" by auto
    then show "\<exists>i<14. P (1 + int i)" by (intro exI [of _ "nat (i - 1)"]) auto
  next
    assume "\<exists>i<14. P (1 + int i)"
    then obtain i where "i < 14" "P (1 + int i)" by auto
    then show "\<exists>i\<in>{1..14}. P i" by (intro bexI [of _ "1 + int i"]) auto
  qed
  show ?thesis
  proof (cases "search_business_day open_on 14 (civil (day_number e + 1))")
    case None
    with search_business_day_exact [where p = open_on and k = 14 and n = "day_number e + 1"]
    have none: "\<forall>i<14. \<not> open_on (civil (day_number e + (1 + int i)))" by (simp add: algebra_simps)
    have "d = civil (day_number e + 1)" using assms(2) None by (simp add: first_business_day_after_def start)
    with none q show ?thesis unfolding shift by (auto simp: ymd)
  next
    case (Some x)
    with search_business_day_exact [where p = open_on and k = 14 and n = "day_number e + 1"] obtain i where
      i: "i < 14" "x = civil (day_number e + (1 + int i))" "open_on x" "\<forall>j<i. \<not> open_on (civil (day_number e + (1 + int j)))"
      by (auto simp: algebra_simps)
    have "d = x" using assms(2) Some by (simp add: first_business_day_after_def start)
    moreover have "\<not> open_on (civil (day_number e + j))" if "j \<in> {1..<1 + int i}" for j
    proof -
      have "nat (j - 1) < i" "1 + int (nat (j - 1)) = j" using that by auto
      with i(4) show ?thesis by metis
    qed
    ultimately have "\<exists>i<14. d = civil (day_number e + (1 + int i)) \<and> open_on d \<and> (\<forall>j\<in>{1..<1 + int i}. \<not> open_on (civil (day_number e + j)))"
      using i by (intro exI [of _ i]) blast
    moreover have "\<exists>i<14. open_on (civil (day_number e + (1 + int i)))" using i by metis
    ultimately show ?thesis using q unfolding shift by (simp add: ymd)
  qed
qed

theorem quarter_opens_first_business_day_witness:
  "\<exists>e. quarter_ended_before 1767571200000 = ((2025, 4), e) \<and> e = Ymd 2025 12 31 \<and> first_business_day_after e is_week_day = Ymd 2026 1 1 \<and>
    e < iso_day_of 1767571200000"
proof -
  have "iso_day_of 1767571200000 = Ymd 2026 1 5" "iso_day_of (date_utc 2025 12 0) = Ymd 2025 12 31" by code_simp+
  then have "quarter_ended_before 1767571200000 = ((2025, 4), Ymd 2025 12 31)" by (simp add: quarter_ended_before_def)
  moreover have "first_business_day_after (Ymd 2025 12 31) is_week_day = Ymd 2026 1 1"
  proof -
    have "shift_days (Ymd 2025 12 31) 1 = Ymd 2026 1 1" "is_week_day (Ymd 2026 1 1)" by code_simp+
    then show ?thesis by (simp add: first_business_day_after_def eval_nat_numeral)
  qed
  ultimately have "quarter_ended_before 1767571200000 = ((2025, 4), Ymd 2025 12 31)"
    "first_business_day_after (Ymd 2025 12 31) is_week_day = Ymd 2026 1 1" .
  with quarter_opens_first_business_day [OF this] show ?thesis by blast
qed

text \<open>A day is judged by its UTC span, not the account's: with a calendar thirteen hours ahead of UTC that works Monday
  to Friday, the Sunday counts as a business day, because the Monday morning falls in it.\<close>

definition far_east_spec :: business_spec where
  "far_east_spec = office_spec\<lparr>bs_zone := fixed_zone 780, bs_holidays := []\<rparr>"

theorem sunday_counts_as_business_day:
  "\<exists>bc. make_business_calendar far_east_spec = Inr bc \<and> (\<forall>h\<in>set (bs_hours far_east_spec). 1 \<le> ch_weekday h \<and> ch_weekday h \<le> 5) \<and>
     \<not> is_week_day (Ymd 2026 1 4) \<and> survey_working_day (as_calendar bc) (Ymd 2026 1 4)"
proof -
  have "(case make_business_calendar far_east_spec of Inl e \<Rightarrow> False | Inr bc \<Rightarrow> survey_working_day (as_calendar bc) (Ymd 2026 1 4))"
    and "\<forall>h\<in>set (bs_hours far_east_spec). 1 \<le> ch_weekday h \<and> ch_weekday h \<le> 5" and "\<not> is_week_day (Ymd 2026 1 4)"
    by code_simp+
  then show ?thesis by (auto split: sum.splits)
qed

end
