(* ===== verification/Profitability.thy ===== *)
theory Profitability
  imports Budget "HOL-Library.Multiset"
begin

section \<open>Account profitability (src/domain/time/profitability.ts)\<close>

text \<open>
  Revenue, cost and margin over the finance lines, in total, by role and by person. The three buckets
  a line falls in are updated alike, so one function \<open>weigh\<close> models the four inner loops, and one lemma
  on an additive figure gives that every breakdown adds up to the total.
\<close>

record cost_rate =
  cr_person :: string
  cr_from :: ymd
  cr_rate :: rat
  cr_currency :: string

record margin_input =
  mi_person :: string
  mi_name :: string
  mi_role :: "string option"
  mi_performed :: ymd
  mi_minutes :: int
  mi_rate :: "rat option"
  mi_multiplier :: rat
  mi_currency :: string

record margin_line =
  ml_key :: string
  ml_label :: string
  ml_minutes :: int
  ml_revenue :: "rat option"
  ml_cost :: "rat option"
  ml_margin :: "rat option"
  ml_percent :: "rat option"
  ml_without_cost :: int
  ml_without_rate :: int

record profitability =
  pf_total :: margin_line
  pf_by_role :: "margin_line list"
  pf_by_person :: "margin_line list"
  pf_currencies :: "string list"

definition cost_for :: "cost_rate list \<Rightarrow> string \<Rightarrow> ymd \<Rightarrow> cost_rate option" where
  "cost_for rates person on =
     latest_by cr_from None (filter (\<lambda>r. cr_person r = person \<and> cr_from r \<le> on) rates)"

record bucket =
  bk_key :: string
  bk_label :: string
  bk_minutes :: int
  bk_revenue :: rat
  bk_cost :: rat
  bk_has_revenue :: bool
  bk_has_cost :: bool
  bk_without_cost :: int
  bk_without_rate :: int

definition empty_bucket :: "string \<Rightarrow> string \<Rightarrow> bucket" where
  "empty_bucket key label = \<lparr>bk_key = key, bk_label = label, bk_minutes = 0, bk_revenue = 0, bk_cost = 0,
     bk_has_revenue = False, bk_has_cost = False, bk_without_cost = 0, bk_without_rate = 0\<rparr>"

definition finish :: "bucket \<Rightarrow> margin_line" where
  "finish b =
     (let revenue = (if bk_has_revenue b then Some (round_to 2 (bk_revenue b)) else None);
          cost = (if bk_has_cost b then Some (round_to 2 (bk_cost b)) else None);
          margin = (case (revenue, cost) of (Some r, Some c) \<Rightarrow> Some (round_to 2 (r - c)) | _ \<Rightarrow> None)
      in \<lparr>ml_key = bk_key b, ml_label = bk_label b, ml_minutes = bk_minutes b, ml_revenue = revenue,
          ml_cost = cost, ml_margin = margin,
          ml_percent = (case (margin, revenue) of
             (Some m, Some r) \<Rightarrow> if r > 0 then Some (of_int (js_round (m / r * 1000)) / 10) else None
           | _ \<Rightarrow> None),
          ml_without_cost = bk_without_cost b, ml_without_rate = bk_without_rate b\<rparr>)"

definition cost_of :: "int \<Rightarrow> rat option \<Rightarrow> rat option" where
  "cost_of minutes rate =
     (case rate of None \<Rightarrow> None | Some r \<Rightarrow> Some (round_to 2 (of_int minutes / 60 * r)))"

definition line_revenue :: "margin_input \<Rightarrow> rat option" where
  "line_revenue l = amount_of (mi_minutes l) (mi_rate l) (mi_multiplier l)"

definition line_cost_rate :: "cost_rate list \<Rightarrow> margin_input \<Rightarrow> cost_rate option" where
  "line_cost_rate costs l = cost_for costs (mi_person l) (mi_performed l)"

definition line_cost :: "cost_rate list \<Rightarrow> margin_input \<Rightarrow> rat option" where
  "line_cost costs l = cost_of (mi_minutes l) (map_option cr_rate (line_cost_rate costs l))"

definition weigh :: "cost_rate list \<Rightarrow> margin_input \<Rightarrow> bucket \<Rightarrow> bucket" where
  "weigh costs l b =
     (let b1 = b\<lparr>bk_minutes := bk_minutes b + mi_minutes l\<rparr>;
          b2 = (case line_revenue l of
                  None \<Rightarrow> b1\<lparr>bk_without_rate := bk_without_rate b1 + mi_minutes l\<rparr>
                | Some r \<Rightarrow> b1\<lparr>bk_revenue := bk_revenue b1 + r, bk_has_revenue := True\<rparr>)
      in case line_cost costs l of
           None \<Rightarrow> b2\<lparr>bk_without_cost := bk_without_cost b2 + mi_minutes l\<rparr>
         | Some c \<Rightarrow> b2\<lparr>bk_cost := bk_cost b2 + c, bk_has_cost := True\<rparr>)"

definition line_currencies :: "cost_rate list \<Rightarrow> margin_input \<Rightarrow> string list" where
  "line_currencies costs l =
     (if line_revenue l = None then [] else [mi_currency l]) @
     (case line_cost_rate costs l of None \<Rightarrow> [] | Some r \<Rightarrow> [cr_currency r])"

record margin_state =
  ms_total :: bucket
  ms_roles :: "bucket js_map"
  ms_people :: "bucket js_map"
  ms_currencies :: "string list"

definition role_key :: "margin_input \<Rightarrow> string" where
  "role_key l = (case mi_role l of None \<Rightarrow> ''unknown'' | Some r \<Rightarrow> r)"

definition role_label :: "margin_input \<Rightarrow> string" where
  "role_label l = (case mi_role l of None \<Rightarrow> ''No role on file'' | Some r \<Rightarrow> r)"

definition margin_step :: "cost_rate list \<Rightarrow> margin_state \<Rightarrow> margin_input \<Rightarrow> margin_state" where
  "margin_step costs s l =
     \<lparr>ms_total = weigh costs l (ms_total s),
      ms_roles = map_adjust (role_key l) (empty_bucket (role_key l) (role_label l)) (weigh costs l) (ms_roles s),
      ms_people = map_adjust (mi_person l) (empty_bucket (mi_person l) (mi_name l)) (weigh costs l) (ms_people s),
      ms_currencies = uniq (ms_currencies s @ line_currencies costs l)\<rparr>"

definition margin_start :: margin_state where
  "margin_start = \<lparr>ms_total = empty_bucket ''total'' ''Total'', ms_roles = [], ms_people = [], ms_currencies = []\<rparr>"

text \<open>The comparator on margins with an unknown margin as infinity: stable, ascending, unknown last.\<close>

definition sort_by_margin :: "margin_line list \<Rightarrow> margin_line list" where
  "sort_by_margin ls =
     sort_key (\<lambda>l. the (ml_margin l)) (filter (\<lambda>l. ml_margin l \<noteq> None) ls) @ filter (\<lambda>l. ml_margin l = None) ls"

definition profitability :: "margin_input list \<Rightarrow> cost_rate list \<Rightarrow> profitability" where
  "profitability lines costs =
     (let s = foldl (margin_step costs) margin_start lines
      in \<lparr>pf_total = finish (ms_total s),
          pf_by_role = sort_by_margin (map (\<lambda>p. finish (snd p)) (ms_roles s)),
          pf_by_person = sort_by_margin (map (\<lambda>p. finish (snd p)) (ms_people s)),
          pf_currencies = sort (ms_currencies s)\<rparr>)"

subsection \<open>Additive figures\<close>

definition or_zero :: "rat option \<Rightarrow> rat" where
  "or_zero x = (case x of None \<Rightarrow> 0 | Some v \<Rightarrow> v)"

definition bucket_ok :: "bucket \<Rightarrow> bool" where
  "bucket_ok b \<longleftrightarrow> cents (bk_revenue b) \<and> cents (bk_cost b) \<and>
     (\<not> bk_has_revenue b \<longrightarrow> bk_revenue b = 0) \<and> (\<not> bk_has_cost b \<longrightarrow> bk_cost b = 0)"

lemma empty_bucket_ok [simp]: "bucket_ok (empty_bucket k l)"
  by (simp add: bucket_ok_def empty_bucket_def)

lemma line_cost_cents: "line_cost costs l = Some c \<Longrightarrow> cents c"
  by (auto simp: line_cost_def cost_of_def cents_def split: option.splits)

lemma weigh_ok: "bucket_ok b \<Longrightarrow> bucket_ok (weigh costs l b)"
  using amount_of_cents line_cost_cents [of costs l]
  by (auto simp: bucket_ok_def weigh_def Let_def line_revenue_def split: option.split)

lemma weigh_figures [simp]:
  "bk_minutes (weigh costs l b) = bk_minutes b + mi_minutes l"
  "bk_revenue (weigh costs l b) = bk_revenue b + or_zero (line_revenue l)"
  "bk_cost (weigh costs l b) = bk_cost b + or_zero (line_cost costs l)"
  "bk_without_rate (weigh costs l b) = bk_without_rate b + (if line_revenue l = None then mi_minutes l else 0)"
  "bk_without_cost (weigh costs l b) = bk_without_cost b + (if line_cost costs l = None then mi_minutes l else 0)"
  "bk_has_revenue (weigh costs l b) \<longleftrightarrow> bk_has_revenue b \<or> line_revenue l \<noteq> None"
  "bk_has_cost (weigh costs l b) \<longleftrightarrow> bk_has_cost b \<or> line_cost costs l \<noteq> None"
  by (auto simp: weigh_def Let_def or_zero_def split: option.split)

definition map_ok :: "bucket js_map \<Rightarrow> bool" where
  "map_ok m \<longleftrightarrow> distinct (map fst m) \<and> (\<forall>p\<in>set m. bucket_ok (snd p))"

lemma map_ok_adjust:
  assumes "map_ok m"
  shows "map_ok (map_adjust k (empty_bucket a b) (weigh costs l) m)"
proof -
  have "bucket_ok v" if "map_of m k = Some v" for v
    using assms map_of_SomeD [OF that] by (force simp: map_ok_def)
  then have "bucket_ok (weigh costs l (case map_of m k of None \<Rightarrow> empty_bucket a b | Some v \<Rightarrow> v))"
    by (intro weigh_ok) (simp split: option.split)
  moreover have "distinct (map fst (map_adjust k (empty_bucket a b) (weigh costs l) m))"
    using assms by (simp add: map_ok_def)
  ultimately show ?thesis
    using assms set_update_alist unfolding map_ok_def map_adjust_def by fastforce
qed

definition margin_run :: "margin_input list \<Rightarrow> cost_rate list \<Rightarrow> margin_state" where
  "margin_run lines costs = foldl (margin_step costs) margin_start lines"

lemma margin_run_snoc: "margin_run (ls @ [l]) costs = margin_step costs (margin_run ls costs) l"
  by (simp add: margin_run_def)

lemma margin_run_ok:
  "bucket_ok (ms_total (margin_run ls costs)) \<and> map_ok (ms_roles (margin_run ls costs)) \<and> map_ok (ms_people (margin_run ls costs))"
proof (induction ls rule: rev_induct)
  case (snoc l ls)
  then show ?case by (simp add: margin_run_snoc margin_step_def weigh_ok map_ok_adjust)
qed (simp add: margin_run_def margin_start_def map_ok_def)

lemma margin_run_figure:
  fixes g :: "bucket \<Rightarrow> 'n::comm_ring_1"
  assumes "\<And>k l. g (empty_bucket k l) = 0" "\<And>l b. g (weigh costs l b) = g b + x l"
  shows "g (ms_total (margin_run ls costs)) = sum_list (map x ls) \<and>
    sum_list (map (\<lambda>p. g (snd p)) (ms_roles (margin_run ls costs))) = sum_list (map x ls) \<and>
    sum_list (map (\<lambda>p. g (snd p)) (ms_people (margin_run ls costs))) = sum_list (map x ls)"
proof (induction ls rule: rev_induct)
  case (snoc l ls)
  have "distinct (map fst (ms_roles (margin_run ls costs)))" "distinct (map fst (ms_people (margin_run ls costs)))"
    using margin_run_ok [of ls costs] by (simp_all add: map_ok_def)
  with snoc show ?case
    by (simp add: margin_run_snoc margin_step_def assms sum_list_map_adjust [where g = g and x = "x l"])
qed (simp add: margin_run_def margin_start_def assms)

lemma mset_sort_by_margin [simp]: "mset (sort_by_margin ls) = mset ls"
  by (simp add: sort_by_margin_def)

lemma sum_list_sort_by_margin:
  "sum_list (map f (sort_by_margin ls)) = (sum_list (map f ls) :: 'n::comm_monoid_add)"
  by (metis mset_map mset_sort_by_margin sum_mset_sum_list)

lemma finish_figures:
  assumes "bucket_ok b"
  shows "or_zero (ml_revenue (finish b)) = bk_revenue b" "or_zero (ml_cost (finish b)) = bk_cost b"
    "ml_minutes (finish b) = bk_minutes b"
  using assms by (auto simp: finish_def Let_def or_zero_def bucket_ok_def cents_def)

lemma cents_diff: "cents x \<Longrightarrow> cents y \<Longrightarrow> cents (x - y)"
  unfolding cents_iff by (metis left_diff_distrib of_int_diff)

lemma finish_margin:
  "ml_margin (finish b) = Some m \<longleftrightarrow>
     (\<exists>r c. ml_revenue (finish b) = Some r \<and> ml_cost (finish b) = Some c \<and> m = r - c)"
proof -
  have "round_to 2 (round_to 2 x - round_to 2 y) = round_to 2 x - round_to 2 y" for x y
    using cents_diff [of "round_to 2 x" "round_to 2 y"] by (simp add: cents_def)
  then show ?thesis by (auto simp: finish_def Let_def)
qed

lemma breakdown_sum:
  assumes "\<forall>p\<in>set m. bucket_ok (snd p)" "\<And>b. bucket_ok b \<Longrightarrow> f (finish b) = g b"
  shows "sum_list (map f (sort_by_margin (map (\<lambda>p. finish (snd p)) m))) = (sum_list (map (\<lambda>p. g (snd p)) m) :: 'n::comm_monoid_add)"
proof -
  have "map f (map (\<lambda>p. finish (snd p)) m) = map (\<lambda>p. g (snd p)) m"
    using assms by simp
  then show ?thesis unfolding sum_list_sort_by_margin by (simp only:)
qed

subsection \<open>Properties\<close>

text \<open>Profitability adds up: the total's minutes, revenue and cost are to the cent the sums over the lines of
  their minutes, revenue and cost, and both breakdowns sum to the same; a margin is stated exactly when
  both halves are known, as their difference.\<close>

theorem profitability_adds_up:
  assumes "profitability lines costs = p" "view \<in> {[pf_total p], pf_by_role p, pf_by_person p}"
  shows "sum_list (map ml_minutes view) = sum_list (map mi_minutes lines) \<and>
    sum_list (map (\<lambda>l. or_zero (ml_revenue l)) view) = sum_list (map (\<lambda>l. or_zero (line_revenue l)) lines) \<and>
    sum_list (map (\<lambda>l. or_zero (ml_cost l)) view) = sum_list (map (\<lambda>l. or_zero (line_cost costs l)) lines) \<and>
    (\<forall>l\<in>set view. \<forall>m. ml_margin l = Some m \<longleftrightarrow>
       (\<exists>r c. ml_revenue l = Some r \<and> ml_cost l = Some c \<and> m = r - c))"
proof -
  let ?s = "margin_run lines costs"
  have ok: "bucket_ok (ms_total ?s)" "\<forall>p\<in>set (ms_roles ?s). bucket_ok (snd p)" "\<forall>p\<in>set (ms_people ?s). bucket_ok (snd p)"
    using margin_run_ok [of lines costs] by (simp_all add: map_ok_def)
  have p: "pf_total p = finish (ms_total ?s)"
      "pf_by_role p = sort_by_margin (map (\<lambda>p. finish (snd p)) (ms_roles ?s))"
      "pf_by_person p = sort_by_margin (map (\<lambda>p. finish (snd p)) (ms_people ?s))"
    using assms(1) by (auto simp: profitability_def margin_run_def Let_def)
  have fig: "sum_list (map f view) = sum_list (map x lines)"
    if "\<And>b. bucket_ok b \<Longrightarrow> f (finish b) = g b" "\<And>k l. g (empty_bucket k l) = 0"
      "\<And>l b. g (weigh costs l b) = g b + x l"
    for f g and x :: "margin_input \<Rightarrow> 'n::comm_ring_1"
    using margin_run_figure [of g costs x lines, OF that(2,3)] assms(2) ok(1)
      breakdown_sum [OF ok(2), of f g] breakdown_sum [OF ok(3), of f g] that(1)
    by (auto simp: p)
  have "l \<in> range finish" if "l \<in> set view" for l
  proof -
    have "set (sort_by_margin ls) = set ls" for ls by (metis mset_sort_by_margin set_mset_mset)
    with that assms(2) show ?thesis by (auto simp: p)
  qed
  then have "\<forall>l\<in>set view. \<forall>m. ml_margin l = Some m \<longleftrightarrow>
       (\<exists>r c. ml_revenue l = Some r \<and> ml_cost l = Some c \<and> m = r - c)"
    using finish_margin by blast
  moreover have "sum_list (map ml_minutes view) = sum_list (map mi_minutes lines)"
    by (rule fig [of _ bk_minutes]) (simp_all add: finish_figures empty_bucket_def)
  moreover have "sum_list (map (\<lambda>l. or_zero (ml_revenue l)) view) = sum_list (map (\<lambda>l. or_zero (line_revenue l)) lines)"
    by (rule fig [of _ bk_revenue]) (simp_all add: finish_figures empty_bucket_def)
  moreover have "sum_list (map (\<lambda>l. or_zero (ml_cost l)) view) = sum_list (map (\<lambda>l. or_zero (line_cost costs l)) lines)"
    by (rule fig [of _ bk_cost]) (simp_all add: finish_figures empty_bucket_def)
  ultimately show ?thesis by blast
qed

definition sample_margin_lines :: "margin_input list" where
  "sample_margin_lines =
     [\<lparr>mi_person = ''ana'', mi_name = ''Ana'', mi_role = Some ''dev'', mi_performed = Ymd 2026 1 5, mi_minutes = 90,
        mi_rate = Some 100, mi_multiplier = 1, mi_currency = ''EUR''\<rparr>,
      \<lparr>mi_person = ''bo'', mi_name = ''Bo'', mi_role = None, mi_performed = Ymd 2026 1 6, mi_minutes = 30,
        mi_rate = None, mi_multiplier = 1, mi_currency = ''EUR''\<rparr>]"

theorem profitability_adds_up_witness:
  "sum_list (map ml_minutes (pf_by_person (profitability sample_margin_lines
     [\<lparr>cr_person = ''ana'', cr_from = Ymd 2026 1 1, cr_rate = 40, cr_currency = ''EUR''\<rparr>]))) = 120"
  using profitability_adds_up [OF refl, of _ sample_margin_lines
      "[\<lparr>cr_person = ''ana'', cr_from = Ymd 2026 1 1, cr_rate = 40, cr_currency = ''EUR''\<rparr>]"]
  by (simp add: sample_margin_lines_def)

end
