(* ===== verification/Demand.thy ===== *)
theory Demand
  imports Csv
begin

section \<open>Forward demand (src/domain/capacity/demand.ts)\<close>

text \<open>
  Weighted demand totals and the parser of the import template. The conversion of a cell to a number is
  JavaScript's \<open>Number\<close>, a parameter \<open>to_num\<close> answering \<open>None\<close> where the result is not finite; every
  other step, from line splitting to the bounds, is written out. The parser's main facts: a file with
  any problem imports nothing, and every imported row is within the bounds.
\<close>

datatype demand_source = Pipeline | Project

record demand_line =
  dl_project :: bool
  dl_hours :: rat
  dl_probability :: rat

record demand_totals =
  dt_pipeline :: int
  dt_project :: int
  dt_total :: int

definition add_demand :: "rat \<times> rat \<Rightarrow> demand_line \<Rightarrow> rat \<times> rat" where
  "add_demand acc l =
     (let minutes = dl_hours l * 60
      in if dl_project l then (fst acc, snd acc + minutes) else (fst acc + minutes * dl_probability l, snd acc))"

definition demand_totals :: "demand_line list \<Rightarrow> demand_totals" where
  "demand_totals ls =
     (let (pipeline, project) = foldl add_demand (0, 0) ls
      in \<lparr>dt_pipeline = js_round pipeline, dt_project = js_round project, dt_total = js_round (pipeline + project)\<rparr>)"

record demand_row =
  dr_line :: nat
  dr_source :: demand_source
  dr_account :: "string option"
  dr_prospect :: "string option"
  dr_month :: string
  dr_hours :: "rat option"
  dr_probability :: "rat option"
  dr_role :: "string option"

datatype demand_problem =
    File_empty
  | Too_many_rows
  | Missing_column string
  | Bad_source string
  | No_account_or_prospect
  | Bad_month string
  | Prospect_too_long
  | Bad_hours string
  | Bad_probability string
  | Bad_role string
  | And_more nat

record parsed_demand =
  pd_rows :: "demand_row list"
  pd_problems :: "(nat \<times> demand_problem) list"

definition template_columns :: "string list" where
  "template_columns = [''source'', ''account'', ''prospect'', ''month'', ''hours'', ''probability'', ''role'']"

definition max_demand_rows :: nat where "max_demand_rows = 5000"
definition max_demand_problems :: nat where "max_demand_problems = 100"
definition max_demand_hours :: rat where "max_demand_hours = 100000"
definition max_prospect_name :: nat where "max_prospect_name = 160"

fun split_cells :: "bool \<Rightarrow> string \<Rightarrow> string list \<Rightarrow> string \<Rightarrow> string list" where
  "split_cells quoted current cells [] = cells @ [rev current]"
| "split_cells True current cells (c # cs) =
     (if c = CHR 0x22 then
        (case cs of
           d # ds \<Rightarrow> if d = CHR 0x22 then split_cells True (CHR 0x22 # current) cells ds
                     else split_cells False current cells cs
         | [] \<Rightarrow> split_cells False current cells cs)
      else split_cells True (c # current) cells cs)"
| "split_cells False current cells (c # cs) =
     (if c = CHR 0x22 then split_cells True current cells cs
      else if c = CHR '','' then split_cells False [] (cells @ [rev current]) cs
      else split_cells False (c # current) cells cs)"

definition split_csv_line :: "string \<Rightarrow> string list" where
  "split_csv_line text = map js_trim (split_cells False [] [] text)"

text \<open>\<open>content.split(/\r?\n/)\<close>.\<close>

fun split_lines_acc :: "string \<Rightarrow> string \<Rightarrow> string list" where
  "split_lines_acc current [] = [rev current]"
| "split_lines_acc current (c # cs) =
     (if c = CHR 0x0A then rev current # split_lines_acc [] cs
      else if c = CHR 0x0D \<and> (case cs of [] \<Rightarrow> False | d # _ \<Rightarrow> d = CHR 0x0A)
      then rev current # split_lines_acc [] (tl cs)
      else split_lines_acc (c # current) cs)"

definition split_lines :: "string \<Rightarrow> string list" where
  "split_lines s = split_lines_acc [] s"

fun index_of :: "string \<Rightarrow> string list \<Rightarrow> nat option" where
  "index_of x [] = None"
| "index_of x (y # ys) = (if x = y then Some 0 else map_option Suc (index_of x ys))"

definition cell_at :: "string list \<Rightarrow> string list \<Rightarrow> string \<Rightarrow> string" where
  "cell_at header cells column =
     (case index_of column header of
        None \<Rightarrow> []
      | Some i \<Rightarrow> if i < length cells then cells ! i else [])"

definition text_or_none :: "string \<Rightarrow> string option" where
  "text_or_none s = (if s = [] then None else Some s)"

text \<open>The pattern \<open>/^\d{4}-(0[1-9]|1[0-2])(-01)?$/\<close>.\<close>

definition is_month :: "string \<Rightarrow> bool" where
  "is_month s \<longleftrightarrow>
     7 \<le> length s \<and> list_all is_digit (take 4 s) \<and> s ! 4 = CHR ''-'' \<and>
     take 2 (drop 5 s) \<in> set [''01'', ''02'', ''03'', ''04'', ''05'', ''06'', ''07'', ''08'', ''09'', ''10'', ''11'', ''12''] \<and>
     (drop 7 s = [] \<or> drop 7 s = ''-01'')"

text \<open>The pattern \<open>/^[a-z][a-z0-9_]{1,39}$/\<close>.\<close>

definition is_role_code :: "string \<Rightarrow> bool" where
  "is_role_code s \<longleftrightarrow> is_snake_case s \<and> 2 \<le> length s \<and> length s \<le> 40"

definition remove_percent :: "string \<Rightarrow> string" where
  "remove_percent s = remove1 CHR ''%'' s"

definition probability_of :: "(string \<Rightarrow> rat option) \<Rightarrow> string \<Rightarrow> rat option" where
  "probability_of to_num raw =
     (if raw = [] then Some 1
      else map_option (\<lambda>p. p / (if CHR ''%'' \<in> set raw then 100 else 1)) (to_num (remove_percent raw)))"

definition good_hours :: "rat option \<Rightarrow> bool" where
  "good_hours h = (case h of None \<Rightarrow> False | Some x \<Rightarrow> \<not> x < 0 \<and> \<not> x > max_demand_hours)"

definition good_probability :: "rat option \<Rightarrow> bool" where
  "good_probability p = (case p of None \<Rightarrow> False | Some x \<Rightarrow> \<not> x \<le> 0 \<and> \<not> x > 1)"

definition row_problems :: "(string \<Rightarrow> rat option) \<Rightarrow> string list \<Rightarrow> string list \<Rightarrow> demand_problem list" where
  "row_problems to_num header cells =
     (let cell = cell_at header cells;
          source = js_lower (cell ''source'');
          prospect = text_or_none (cell ''prospect'');
          role = text_or_none (js_lower (cell ''role''))
      in (if source \<noteq> ''pipeline'' \<and> source \<noteq> ''project'' then [Bad_source source] else []) @
         (if text_or_none (cell ''account'') = None \<and> prospect = None then [No_account_or_prospect] else []) @
         (if \<not> is_month (cell ''month'') then [Bad_month (cell ''month'')] else []) @
         (if (case prospect of None \<Rightarrow> False | Some p \<Rightarrow> length p > max_prospect_name) then [Prospect_too_long] else []) @
         (if \<not> good_hours (to_num (cell ''hours'')) then [Bad_hours (cell ''hours'')] else []) @
         (if \<not> good_probability (probability_of to_num (cell ''probability''))
          then [Bad_probability (cell ''probability'')] else []) @
         (case role of None \<Rightarrow> [] | Some r \<Rightarrow> if is_role_code r then [] else [Bad_role r]))"

definition parse_row :: "(string \<Rightarrow> rat option) \<Rightarrow> string list \<Rightarrow> nat \<Rightarrow> string list \<Rightarrow> demand_row" where
  "parse_row to_num header line cells =
     (let cell = cell_at header cells; source = js_lower (cell ''source'')
      in \<lparr>dr_line = line,
          dr_source = (if source = ''project'' then Project else Pipeline),
          dr_account = map_option js_upper (text_or_none (cell ''account'')),
          dr_prospect = text_or_none (cell ''prospect''),
          dr_month = take 7 (cell ''month'') @ ''-01'',
          dr_hours = to_num (cell ''hours''),
          dr_probability = (if source = ''project'' then Some 1 else probability_of to_num (cell ''probability'')),
          dr_role = text_or_none (js_lower (cell ''role''))\<rparr>)"

definition missing_columns :: "string list \<Rightarrow> (nat \<times> demand_problem) list" where
  "missing_columns header =
     map (\<lambda>c. (1, Missing_column c)) (filter (\<lambda>c. index_of c header = None) [''source'', ''month'', ''hours''])"

definition parse_demand_csv :: "(string \<Rightarrow> rat option) \<Rightarrow> string \<Rightarrow> parsed_demand" where
  "parse_demand_csv to_num content =
     (let lines = filter (\<lambda>l. js_trim l \<noteq> []) (split_lines content)
      in case lines of
           [] \<Rightarrow> \<lparr>pd_rows = [], pd_problems = [(0, File_empty)]\<rparr>
         | head # body \<Rightarrow>
             if length body > max_demand_rows then \<lparr>pd_rows = [], pd_problems = [(0, Too_many_rows)]\<rparr>
             else
               let header = map js_lower (split_csv_line head)
               in if missing_columns header \<noteq> [] then \<lparr>pd_rows = [], pd_problems = missing_columns header\<rparr>
                  else
                    let numbered = map (\<lambda>(i, l). (i, split_csv_line l)) (enumerate 2 body);
                        problems = concat (map (\<lambda>(i, cells). map (\<lambda>p. (i, p)) (row_problems to_num header cells)) numbered);
                        rows = map (\<lambda>(i, cells). parse_row to_num header i cells) numbered
                    in \<lparr>pd_rows = (if problems \<noteq> [] then [] else rows),
                        pd_problems = (if length problems > max_demand_problems
                          then take max_demand_problems problems @ [(0, And_more (length problems - max_demand_problems))]
                          else problems)\<rparr>)"

subsection \<open>Lemmas\<close>

definition good_row :: "demand_row \<Rightarrow> bool" where
  "good_row r \<longleftrightarrow>
     (\<exists>h. dr_hours r = Some h \<and> 0 \<le> h \<and> h \<le> max_demand_hours) \<and>
     (\<exists>p. dr_probability r = Some p \<and> 0 < p \<and> p \<le> 1) \<and>
     (dr_source r = Project \<longrightarrow> dr_probability r = Some 1) \<and>
     (dr_account r \<noteq> None \<or> dr_prospect r \<noteq> None) \<and>
     (\<forall>x. dr_prospect r = Some x \<longrightarrow> length x \<le> max_prospect_name) \<and>
     (\<forall>x. dr_role r = Some x \<longrightarrow> is_role_code x) \<and>
     is_month (take 7 (dr_month r)) \<and> drop 7 (dr_month r) = ''-01''"

lemma is_month_prefix: "is_month s \<Longrightarrow> is_month (take 7 s) \<and> length (take 7 s) = 7"
  by (auto simp: is_month_def drop_take min_def)

lemma row_problems_good:
  assumes "row_problems to_num header cells = []"
  shows "good_row (parse_row to_num header i cells)"
proof -
  have "is_month (cell_at header cells ''month'')"
    using assms by (auto simp: row_problems_def Let_def split: if_splits)
  with assms show ?thesis
    using is_month_prefix [of "cell_at header cells ''month''"]
    by (auto simp: row_problems_def parse_row_def good_row_def Let_def good_hours_def good_probability_def
        split: if_splits option.splits)
qed

lemma split_plain:
  "\<not> list_ex needs_quotes s \<Longrightarrow>
     split_cells False current cells (s @ rest) = split_cells False (rev s @ current) cells rest"
  by (induction s arbitrary: current) (auto simp: needs_quotes_def)

lemma split_quoted:
  "rest = [] \<or> hd rest \<noteq> CHR 0x22 \<Longrightarrow>
     split_cells True current cells (double_quotes s @ CHR 0x22 # rest) = split_cells False (rev s @ current) cells rest"
proof (induction s arbitrary: current)
  case Nil
  then show ?case by (cases rest) (auto simp: double_quotes_def)
next
  case (Cons c s)
  then show ?case by (auto simp: double_quotes_def)
qed

lemma split_field:
  assumes "rest = [] \<or> hd rest \<noteq> CHR 0x22"
  shows "split_cells False [] cells (quote_field s @ rest) = split_cells False (rev s) cells rest"
  using split_quoted [OF assms, of "[]" cells s] split_plain [of s "[]" cells rest]
  by (auto simp: quote_field_def)

lemma split_row:
  "parts \<noteq> [] \<Longrightarrow> split_cells False [] cells (join_with '','' (map quote_field parts)) = cells @ parts"
proof (induction parts arbitrary: cells)
  case (Cons s fs)
  show ?case
  proof (cases fs)
    case Nil
    then show ?thesis using split_field [of "[]" cells s] by simp
  next
    case (Cons f fs')
    have "split_cells False [] cells (join_with '','' (map quote_field (s # fs)))
        = split_cells False [] cells (quote_field s @ '','' @ join_with '','' (map quote_field fs))"
      using Cons by simp
    also have "\<dots> = split_cells False (rev s) cells ('','' @ join_with '','' (map quote_field fs))"
      by (rule split_field) simp
    also have "\<dots> = split_cells False [] (cells @ [s]) (join_with '','' (map quote_field fs))"
      by simp
    finally show ?thesis using Cons.IH [of "cells @ [s]"] Cons by simp
  qed
qed simp

lemma import_shape:
  assumes "pd_rows r = (if P \<noteq> [] then [] else R)"
    and "pd_problems r = (if length P > max_demand_problems
      then take max_demand_problems P @ [(0, And_more (length P - max_demand_problems))] else P)"
    and "map dr_line R = L" "\<And>row. P = [] \<Longrightarrow> row \<in> set R \<Longrightarrow> good_row row"
  shows "(pd_problems r \<noteq> [] \<longrightarrow> pd_rows r = []) \<and> length (pd_problems r) \<le> max_demand_problems + 1 \<and>
    (pd_problems r = [] \<longrightarrow> map dr_line (pd_rows r) = L) \<and> (\<forall>row\<in>set (pd_rows r). good_row row)"
  using assms(3,4) unfolding assms(1,2) by (cases "P = []") auto

subsection \<open>Properties\<close>

text \<open>A demand import is all or nothing and in bounds: whatever the file, rows come only with no problem at
  all, there is then one row per data line with its line number, and every row has hours and a
  probability within the bounds, a committed project counts in full, and names somebody; the problem
  list never exceeds its cap by more than the closing entry.\<close>

theorem demand_import_sound:
  assumes "parse_demand_csv to_num content = r"
  shows "(pd_problems r \<noteq> [] \<longrightarrow> pd_rows r = []) \<and> length (pd_problems r) \<le> max_demand_problems + 1 \<and>
    (pd_problems r = [] \<longrightarrow>
       map dr_line (pd_rows r) = [2..<2 + length (tl (filter (\<lambda>l. js_trim l \<noteq> []) (split_lines content)))]) \<and>
    (\<forall>row\<in>set (pd_rows r). good_row row)"
proof (cases "filter (\<lambda>l. js_trim l \<noteq> []) (split_lines content)")
  case Nil
  with assms show ?thesis by (auto simp: parse_demand_csv_def max_demand_problems_def)
next
  case (Cons head body)
  let ?header = "map js_lower (split_csv_line head)"
  consider "length body > max_demand_rows" | "\<not> length body > max_demand_rows" "missing_columns ?header \<noteq> []"
    | "\<not> length body > max_demand_rows" "missing_columns ?header = []" by blast
  then show ?thesis
  proof cases
    case 1
    with assms Cons show ?thesis by (auto simp: parse_demand_csv_def max_demand_problems_def)
  next
    case 2
    have "length (missing_columns ?header) \<le> 3"
      unfolding missing_columns_def length_map by (rule order_trans [OF length_filter_le]) simp
    with 2 assms Cons show ?thesis by (auto simp: parse_demand_csv_def max_demand_problems_def)
  next
    case 3
    let ?numbered = "map (\<lambda>(i, l). (i, split_csv_line l)) (enumerate 2 body)"
    let ?problems = "concat (map (\<lambda>(i, cells). map (\<lambda>p. (i, p)) (row_problems to_num ?header cells)) ?numbered)"
    let ?rows = "map (\<lambda>(i, cells). parse_row to_num ?header i cells) ?numbered"
    have r: "pd_rows r = (if ?problems \<noteq> [] then [] else ?rows)"
        "pd_problems r = (if length ?problems > max_demand_problems
          then take max_demand_problems ?problems @ [(0, And_more (length ?problems - max_demand_problems))]
          else ?problems)"
      unfolding assms [symmetric] parse_demand_csv_def using 3 Cons by (simp_all add: Let_def)
    have lines: "map dr_line ?rows = [2..<2 + length body]"
    proof -
      have "map dr_line ?rows = map fst (enumerate 2 body)"
        by (simp add: o_def case_prod_unfold parse_row_def Let_def)
      then show ?thesis by simp
    qed
    have "good_row row" if "?problems = []" "row \<in> set ?rows" for row
    proof -
      from that(2) obtain x where x: "x \<in> set ?numbered" "row = (\<lambda>(i, cells). parse_row to_num ?header i cells) x"
        unfolding set_map by (rule imageE)
      obtain i cells where "x = (i, cells)" by (rule prod.exhaust)
      with x have ic: "(i, cells) \<in> set ?numbered" "row = parse_row to_num ?header i cells"
        by simp_all
      with that(1) have "row_problems to_num ?header cells = []" by fastforce
      from row_problems_good [OF this] ic(2) show ?thesis by simp
    qed
    from import_shape [OF r lines this] show ?thesis
      unfolding Cons list.sel .
  qed
qed

theorem demand_import_sound_witness:
  "pd_problems (parse_demand_csv (\<lambda>s. if s = ''8'' then Some 8 else None) (''source,month,hours'' @ [CHR 0x0A] @ ''pipeline,2026-02,8'')) \<noteq> [] \<and>
   pd_rows (parse_demand_csv (\<lambda>s. if s = ''8'' then Some 8 else None) (''source,month,hours'' @ [CHR 0x0A] @ ''pipeline,2026-02,8'')) = []"
proof -
  have "pd_problems (parse_demand_csv (\<lambda>s. if s = ''8'' then Some 8 else None) (''source,month,hours'' @ [CHR 0x0A] @ ''pipeline,2026-02,8'')) \<noteq> []"
    by code_simp
  with demand_import_sound [OF refl] show ?thesis by blast
qed

text \<open>The template reads what the exports write: a line of cells written with the export's own quoting splits
  back into exactly those cells, trimmed, commas and quotes included.\<close>

theorem template_reads_export:
  assumes "parts \<noteq> []"
  shows "split_csv_line (join_with '','' (map quote_field parts)) = map js_trim parts"
  using split_row [OF assms, of "[]"] by (simp add: split_csv_line_def)

theorem template_reads_export_witness:
  "split_csv_line (join_with '','' (map quote_field [''ACME, Inc'', ''say '' @ [CHR 0x22], '' 8 ''])) =
     map js_trim [''ACME, Inc'', ''say '' @ [CHR 0x22], '' 8 '']"
  by (rule template_reads_export) simp

end
