(* ===== verification/Retry.thy ===== *)
theory Retry
  imports Prelude
begin

section \<open>Retry schedules\<close>

text \<open>
  Three places of the program retry a delivery: the outbound connector rows
  (\<open>outboundNextAttempt\<close>), the webhook deliveries (\<open>nextAttemptAt\<close>) and the jobs that call them. What
  a caller relies on is the locale below: a schedule says when a delivery that has made \<open>n\<close> attempts
  is due again, strictly later, or that it was the last. The theorems on a delivery that keeps failing
  are proved once inside it; each component interprets it on its own function.
\<close>

fun failing_run :: "(nat \<Rightarrow> ms \<Rightarrow> ms option) \<Rightarrow> nat \<Rightarrow> nat \<Rightarrow> ms \<Rightarrow> ms list" where
  "failing_run next_at 0 n t = []"
| "failing_run next_at (Suc fuel) n t =
     t # (case next_at n t of None \<Rightarrow> [] | Some t' \<Rightarrow> failing_run next_at fuel (Suc n) t')"

text \<open>
  \<open>failing_run next_at fuel n t\<close> are the instants of the attempts of a delivery whose \<open>n\<close>-th attempt is made
  at \<open>t\<close> and which fails every time, each attempt made when it is due.
\<close>

locale retry_schedule =
  fixes next_at :: "nat \<Rightarrow> ms \<Rightarrow> ms option" and attempts :: nat and longest :: int
  assumes attempts_pos: "0 < attempts"
    and exhausted: "attempts \<le> n \<Longrightarrow> next_at n t = None"
    and due: "1 \<le> n \<Longrightarrow> n < attempts \<Longrightarrow> \<exists>d. next_at n t = Some (t + d) \<and> 0 < d \<and> d \<le> longest"
begin

lemma run_length:
  "1 \<le> n \<Longrightarrow> n \<le> attempts \<Longrightarrow> attempts - n < fuel \<Longrightarrow> length (failing_run next_at fuel n t) = attempts - n + 1"
proof (induction fuel arbitrary: n t)
  case (Suc fuel)
  show ?case
  proof (cases "n = attempts")
    case True
    then show ?thesis by (simp add: exhausted)
  next
    case False
    with Suc.prems obtain d where d: "next_at n t = Some (t + d)" using due [of n t] by auto
    have "length (failing_run next_at fuel (Suc n) (t + d)) = attempts - Suc n + 1"
      using Suc.prems False by (intro Suc.IH) auto
    with d Suc.prems False show ?thesis by simp
  qed
qed simp

lemma run_sorted: "1 \<le> n \<Longrightarrow> sorted_wrt (<) (failing_run next_at fuel n t) \<and> (\<forall>u\<in>set (failing_run next_at fuel n t). t \<le> u)"
proof (induction fuel arbitrary: n t)
  case (Suc fuel)
  show ?case
  proof (cases "n < attempts")
    case True
    with Suc.prems obtain d where d: "next_at n t = Some (t + d)" "0 < d" using due [of n t] by auto
    with Suc.IH [of "Suc n" "t + d"] show ?thesis by force
  qed (simp add: exhausted)
qed simp

lemma run_bounded:
  "1 \<le> n \<Longrightarrow> u \<in> set (failing_run next_at fuel n t) \<Longrightarrow> u \<le> t + int (attempts - n) * longest"
proof (induction fuel arbitrary: n t)
  case (Suc fuel)
  show ?case
  proof (cases "n < attempts")
    case True
    with Suc.prems obtain d where d: "next_at n t = Some (t + d)" "0 < d" "d \<le> longest" using due [of n t] by auto
    then have long: "0 \<le> longest" by simp
    have split: "int (attempts - n) = int (attempts - Suc n) + 1" using True by simp
    show ?thesis
    proof (cases "u = t")
      case True
      with long show ?thesis by simp
    next
      case False
      with Suc.prems d have "u \<in> set (failing_run next_at fuel (Suc n) (t + d))" by auto
      from Suc.IH [OF _ this] d split show ?thesis by (simp add: algebra_simps)
    qed
  next
    case False
    with Suc.prems show ?thesis by (simp add: exhausted)
  qed
qed simp

text \<open>A delivery that keeps failing makes all its attempts and no more, each later than the last.\<close>

lemma failing_delivery:
  "length (failing_run next_at attempts 1 t) = attempts \<and> sorted_wrt (<) (failing_run next_at attempts 1 t) \<and>
   (\<forall>u\<in>set (failing_run next_at attempts 1 t). t \<le> u \<and> u \<le> t + int (attempts - 1) * longest) \<and>
   next_at attempts u' = None"
  using run_length [of 1 attempts t] run_sorted [of 1 attempts t] run_bounded [of 1 _ attempts t] attempts_pos exhausted
  by auto

end

end
