(* ===== verification/Sync_Rules.thy ===== *)
theory Sync_Rules
  imports Retry Json_Value "HOL-Library.Multiset"
begin

section \<open>Loop and conflict rules of the connector sync (src/domain/sync/rules.ts)\<close>

text \<open>
  Pure decisions of the ServiceNow sync: the canonical text the outbound hash is taken over, the
  reflection rule, the journal marker, the per-field decisions in both directions, the enqueue rule and
  the retry schedule. Field values are JSON values; \<open>String(v)\<close> is \<open>js_string\<close>, with the rendering of a
  number a parameter. SHA-256 is a parameter too (\<open>digest\<close>); the theorems that need it assume only that
  it does not collide on the texts compared.
\<close>

datatype system_of_record =
    Sor_xms | Sor_external | Sor_newest | Sor_merge | Sor_at_create | Sor_none

subsection \<open>Values as text\<close>

fun js_string :: "(rat \<Rightarrow> string) \<Rightarrow> json \<Rightarrow> string" where
  "js_string num JUndef = ''undefined''"
| "js_string num JNull = ''null''"
| "js_string num (JBool b) = (if b then ''true'' else ''false'')"
| "js_string num (JNum x) = num x"
| "js_string num (JStr s) = s"
| "js_string num (JArr xs) =
     join_with '','' (map (\<lambda>x. if x = JNull \<or> x = JUndef then [] else js_string num x) xs)"
| "js_string num (JObj m) = ''[object Object]''"

definition is_nullish :: "json \<Rightarrow> bool" where
  "is_nullish v \<longleftrightarrow> v = JNull \<or> v = JUndef"

definition text_or_empty :: "(rat \<Rightarrow> string) \<Rightarrow> json \<Rightarrow> string" where
  "text_or_empty num v = (if is_nullish v then [] else js_string num v)"

definition normalise :: "(rat \<Rightarrow> string) \<Rightarrow> json \<Rightarrow> string" where
  "normalise num v = (if is_nullish v then [] else js_trim (js_string num v))"

subsection \<open>Reflection\<close>

definition canonical_line :: "(rat \<Rightarrow> string) \<Rightarrow> string \<times> json \<Rightarrow> string" where
  "canonical_line num p = fst p @ ''='' @ text_or_empty num (snd p)"

definition canonical_fields :: "(rat \<Rightarrow> string) \<Rightarrow> json js_map \<Rightarrow> string" where
  "canonical_fields num fs = join_with [CHR 0x0A] (map (canonical_line num) (sort_key fst fs))"

definition outbound_hash :: "(rat \<Rightarrow> string) \<Rightarrow> (string \<Rightarrow> string) \<Rightarrow> json js_map \<Rightarrow> string" where
  "outbound_hash num digest fs = digest (canonical_fields num fs)"

record reflection_input =
  rf_outbound_at :: "ms option"
  rf_outbound_hash :: "string option"
  rf_updated_on :: ms
  rf_inbound_hash :: string
  rf_tolerance :: "int option"

definition is_reflection :: "reflection_input \<Rightarrow> bool" where
  "is_reflection i =
     (case (rf_outbound_at i, rf_outbound_hash i) of
        (Some sent, Some hash) \<Rightarrow>
          if hash = [] then False
          else
            let tolerance = (case rf_tolerance i of None \<Rightarrow> 5 | Some s \<Rightarrow> s) * 1000
            in if rf_updated_on i > sent + tolerance then False else rf_inbound_hash i = hash
      | _ \<Rightarrow> False)"

subsection \<open>Journal markers\<close>

definition journal_marker :: "string \<Rightarrow> string" where
  "journal_marker comment_id = ''[XMS:'' @ take 8 (filter (\<lambda>c. c \<noteq> CHR ''-'') comment_id) @ '']''"

definition is_hex :: "char \<Rightarrow> bool" where
  "is_hex c \<longleftrightarrow> is_digit c \<or> js_lower_char c \<in> set ''abcdef''"

text \<open>The pattern \<open>/^\s*\[XMS:[0-9a-f]{8}\]/i\<close>; the answer is what follows the bracket.\<close>

definition after_marker :: "string \<Rightarrow> string option" where
  "after_marker text =
     (let s = js_trim_start text
      in if js_lower (take 5 s) = ''[xms:'' \<and> length (take 8 (drop 5 s)) = 8 \<and> list_all is_hex (take 8 (drop 5 s)) \<and>
            take 1 (drop 13 s) = '']''
         then Some (drop 14 s) else None)"

definition has_journal_marker :: "string \<Rightarrow> bool" where
  "has_journal_marker text \<longleftrightarrow> after_marker text \<noteq> None"

definition strip_journal_marker :: "string \<Rightarrow> string" where
  "strip_journal_marker text = js_trim (case after_marker text of None \<Rightarrow> text | Some rest \<Rightarrow> rest)"

subsection \<open>Per-field decisions\<close>

record conflict_input =
  ci_policy :: system_of_record
  ci_create :: bool
  ci_xms :: json
  ci_external :: json
  ci_xms_at :: "ms option"
  ci_external_at :: "ms option"

datatype inbound_reason = In_create | In_external | In_newest | In_merge | In_unchanged
datatype inbound_refusal = Xms_owned | Older_inbound | No_policy | Same_inbound

definition stamp_or_zero :: "ms option \<Rightarrow> ms" where
  "stamp_or_zero t = (case t of None \<Rightarrow> 0 | Some x \<Rightarrow> x)"

definition decide_inbound :: "(rat \<Rightarrow> string) \<Rightarrow> conflict_input \<Rightarrow> inbound_refusal + inbound_reason" where
  "decide_inbound num i =
     (let same = (normalise num (ci_xms i) = normalise num (ci_external i))
      in case ci_policy i of
           Sor_none \<Rightarrow> Inl No_policy
         | Sor_external \<Rightarrow> if same then Inl Same_inbound else Inr In_external
         | Sor_merge \<Rightarrow> Inr In_merge
         | Sor_at_create \<Rightarrow> if ci_create i then Inr In_create else if same then Inl Same_inbound else Inl Xms_owned
         | Sor_xms \<Rightarrow> if ci_create i then Inr In_create else if same then Inl Same_inbound else Inl Xms_owned
         | Sor_newest \<Rightarrow>
             if ci_create i then Inr In_create
             else if same then Inl Same_inbound
             else if stamp_or_zero (ci_external_at i) > stamp_or_zero (ci_xms_at i) then Inr In_newest
             else Inl Older_inbound)"

record outbound_conflict =
  oc_policy :: system_of_record
  oc_external_changed :: bool
  oc_xms :: json
  oc_external :: json
  oc_xms_at :: "ms option"
  oc_external_at :: "ms option"

datatype outbound_reason = Uncontested | Out_xms_owned | Out_merge | Out_newest
datatype outbound_refusal = External_owned | Older_outbound | Out_none | Same_outbound

definition decide_outbound :: "(rat \<Rightarrow> string) \<Rightarrow> outbound_conflict \<Rightarrow> outbound_refusal + outbound_reason" where
  "decide_outbound num i =
     (if oc_policy i = Sor_none then Inl Out_none
      else if normalise num (oc_xms i) = normalise num (oc_external i) then Inl Same_outbound
      else if oc_policy i = Sor_external then Inl External_owned
      else if oc_policy i = Sor_merge then Inr Out_merge
      else if oc_policy i = Sor_newest then
        (if \<not> oc_external_changed i then Inr Out_newest
         else if stamp_or_zero (oc_xms_at i) > stamp_or_zero (oc_external_at i) then Inr Out_newest
         else Inl Older_outbound)
      else Inr (if oc_external_changed i then Out_xms_owned else Uncontested))"

subsection \<open>Queueing\<close>

definition outbound_events :: "string list" where
  "outbound_events = [''ticket.updated'', ''ticket.transitioned'', ''comment.created'', ''work_note.created'',
     ''attachment.scanned'']"

definition is_outbound_event :: "string \<Rightarrow> bool" where
  "is_outbound_event e \<longleftrightarrow> e \<in> set outbound_events"

definition sync_origin :: "string \<Rightarrow> string" where
  "sync_origin instance_id = ''sync:'' @ instance_id"

datatype sync_mode = Mode_off | Ingest_only | Bidirectional

record enqueue_input =
  eq_event :: string
  eq_origin :: "string option"
  eq_instance :: string
  eq_mode :: sync_mode
  eq_subscribed :: "string list"
  eq_has_link :: bool
  eq_work_notes :: bool
  eq_visibility :: "string option"

datatype enqueue_refusal = Own_origin | Wrong_mode | Unsubscribed | Work_notes_off | Internal_attachment | No_link

definition decide_enqueue :: "enqueue_input \<Rightarrow> enqueue_refusal + unit" where
  "decide_enqueue i =
     (if eq_origin i = Some (sync_origin (eq_instance i)) then Inl Own_origin
      else if eq_mode i \<noteq> Bidirectional then Inl Wrong_mode
      else if eq_event i \<notin> set (eq_subscribed i) then Inl Unsubscribed
      else if eq_event i = ''work_note.created'' \<and> \<not> eq_work_notes i then Inl Work_notes_off
      else if eq_event i = ''attachment.scanned'' \<and> eq_visibility i \<noteq> Some ''public'' then Inl Internal_attachment
      else if \<not> eq_has_link i then Inl No_link
      else Inr ())"

definition external_changed_since :: "ms option \<Rightarrow> ms \<Rightarrow> int \<Rightarrow> bool" where
  "external_changed_since last_known updated_on tolerance =
     (case last_known of None \<Rightarrow> False | Some k \<Rightarrow> updated_on > k + tolerance * 1000)"

subsection \<open>Retrying\<close>

definition max_outbound_attempts :: nat where
  "max_outbound_attempts = 5"

definition outbound_backoff_seconds :: "int list" where
  "outbound_backoff_seconds = [5, 30, 120, 600]"

definition outbound_next_attempt :: "nat \<Rightarrow> ms \<Rightarrow> ms option" where
  "outbound_next_attempt attempt t =
     (if attempt \<ge> max_outbound_attempts then None
      else Some (t + outbound_backoff_seconds ! (min attempt (length outbound_backoff_seconds) - 1) * 1000))"

datatype error_class = Retryable | Terminal_error

definition classify_http_status :: "int \<Rightarrow> error_class" where
  "classify_http_status s = (if s = 429 \<or> s \<ge> 500 \<or> s = 0 then Retryable else Terminal_error)"

interpretation outbound: retry_schedule outbound_next_attempt max_outbound_attempts 600000
proof
  fix n t
  show "0 < max_outbound_attempts" by (simp add: max_outbound_attempts_def)
  show "max_outbound_attempts \<le> n \<Longrightarrow> outbound_next_attempt n t = None"
    by (simp add: outbound_next_attempt_def)
  assume "1 \<le> n" "n < max_outbound_attempts"
  then have "n = 1 \<or> n = 2 \<or> n = 3 \<or> n = 4" by (auto simp: max_outbound_attempts_def)
  then show "\<exists>d. outbound_next_attempt n t = Some (t + d) \<and> 0 < d \<and> d \<le> 600000"
    by (auto simp: outbound_next_attempt_def max_outbound_attempts_def outbound_backoff_seconds_def)
qed

subsection \<open>Lemmas\<close>

lemma canonical_order:
  assumes "mset fs = mset gs" "distinct (map fst fs)"
  shows "canonical_fields num fs = canonical_fields num gs"
proof -
  have "inj_on fst (set fs)" using assms(2) by (simp add: distinct_map)
  then have "sort_key fst fs = sort_key fst gs" by (rule sort_key_eq_sort_key [OF assms(1)])
  then show ?thesis by (simp add: canonical_fields_def)
qed

lemma split_char_piece: "c \<notin> set x \<Longrightarrow> split_char c (x @ c # s) = x # split_char c s"
  by (induction x) auto

lemma split_char_plain: "c \<notin> set x \<Longrightarrow> split_char c x = [x]"
  by (induction x) auto

lemma split_join_char: "xs \<noteq> [] \<Longrightarrow> \<forall>x\<in>set xs. c \<notin> set x \<Longrightarrow> split_char c (join_with [c] xs) = xs"
proof (induction xs)
  case (Cons x xs)
  then show ?case by (cases xs) (auto simp: split_char_plain split_char_piece)
qed simp

definition line_free :: "(rat \<Rightarrow> string) \<Rightarrow> json js_map \<Rightarrow> bool" where
  "line_free num fs \<longleftrightarrow> (\<forall>p\<in>set fs. CHR 0x0A \<notin> set (fst p) \<and> CHR 0x0A \<notin> set (text_or_empty num (snd p)))"

lemma canonical_lines:
  assumes "line_free num fs" "line_free num gs" "fs \<noteq> []" "gs \<noteq> []"
    and "canonical_fields num fs = canonical_fields num gs"
  shows "map (canonical_line num) (sort_key fst fs) = map (canonical_line num) (sort_key fst gs)"
proof -
  have split: "split_char (CHR 0x0A) (canonical_fields num hs) = map (canonical_line num) (sort_key fst hs)"
    if "line_free num hs" "hs \<noteq> []" for hs
  proof -
    have "sort_key fst hs \<noteq> []" using that(2) by (metis length_0_conv length_sort)
    with that(1) show ?thesis
      unfolding canonical_fields_def
      by (intro split_join_char) (auto simp: line_free_def canonical_line_def)
  qed
  show ?thesis using split [OF assms(1,3)] split [OF assms(2,4)] assms(5) by simp
qed

lemma map_texts:
  "map fst fs = map fst gs \<Longrightarrow> map (canonical_line num) fs = map (canonical_line num) gs \<Longrightarrow>
     map (\<lambda>p. text_or_empty num (snd p)) fs = map (\<lambda>p. text_or_empty num (snd p)) gs"
proof (induction fs arbitrary: gs)
  case (Cons f fs)
  then obtain g gs' where gs: "gs = g # gs'" by (cases gs) auto
  with Cons.prems have "fst f = fst g" "canonical_line num f = canonical_line num g"
      "map fst fs = map fst gs'" "map (canonical_line num) fs = map (canonical_line num) gs'"
    by simp_all
  moreover from this(1,2) have "text_or_empty num (snd f) = text_or_empty num (snd g)"
    by (simp add: canonical_line_def)
  ultimately show ?case using Cons.IH [of gs'] gs by simp
qed simp

lemma hex_marker: "strip_journal_marker (journal_marker c @ '' '' @ t) = js_trim t"
  if "length (filter (\<lambda>x. x \<noteq> CHR ''-'') c) \<ge> 8" "list_all is_hex (take 8 (filter (\<lambda>x. x \<noteq> CHR ''-'') c))"
proof -
  define h where "h = take 8 (filter (\<lambda>x. x \<noteq> CHR ''-'') c)"
  have h: "length h = 8" "list_all is_hex h" using that by (simp_all add: h_def min_def)
  have "js_trim_start (journal_marker c @ '' '' @ t) = journal_marker c @ '' '' @ t"
    by (simp add: js_trim_start_def journal_marker_def js_space_def)
  moreover have "journal_marker c @ '' '' @ t = ''[XMS:'' @ h @ ''] '' @ t"
    by (simp add: journal_marker_def h_def)
  moreover have "take 8 (drop 5 (''[XMS:'' @ h @ ''] '' @ t)) = h" "drop 13 (''[XMS:'' @ h @ ''] '' @ t) = ''] '' @ t"
      "drop 14 (''[XMS:'' @ h @ ''] '' @ t) = '' '' @ t"
    using h(1) by simp_all
  moreover have "js_lower ''[XMS:'' = ''[xms:''" by code_simp
  ultimately have "after_marker (journal_marker c @ '' '' @ t) = Some ('' '' @ t)"
    using h by (simp add: after_marker_def Let_def js_lower_def)
  moreover have "js_trim ('' '' @ t) = js_trim t"
    by (simp add: js_trim_def js_trim_start_def js_space_def)
  ultimately show ?thesis by (simp add: strip_journal_marker_def)
qed

subsection \<open>Properties\<close>

text \<open>The reflection rule recognises an echo and nothing else: for fields without line breaks and a digest
  that does not collide on the two texts, an update carrying the hash of what came back is taken as our
  own write exactly when it is no later than that write plus the tolerance and, field by field, carries
  the texts we sent, in whatever order the keys come.\<close>

theorem reflection_is_echo:
  assumes "line_free num sent" "line_free num received" "sent \<noteq> []" "received \<noteq> []"
    and "sorted_wrt (<) (map fst sent)" "distinct (map fst received)" "set (map fst received) = set (map fst sent)"
    and "inj_on digest {canonical_fields num sent, canonical_fields num received}"
    and "outbound_hash num digest sent \<noteq> []"
  shows "is_reflection \<lparr>rf_outbound_at = Some t, rf_outbound_hash = Some (outbound_hash num digest sent),
      rf_updated_on = u, rf_inbound_hash = outbound_hash num digest received, rf_tolerance = tol\<rparr> \<longleftrightarrow>
    u \<le> t + (case tol of None \<Rightarrow> 5 | Some s \<Rightarrow> s) * 1000 \<and>
    map (\<lambda>p. text_or_empty num (snd p)) (sort_key fst received) = map (\<lambda>p. text_or_empty num (snd p)) sent"
proof -
  have ds: "distinct (map fst sent)" "sorted (map fst sent)"
    using assms(5) by (simp_all add: strict_sorted_iff)
  have sent: "sort_key fst sent = sent"
    using ds(2) by (simp add: sorted_sort_id sort_key_id_if_sorted)
  have keys: "map fst (sort_key fst received) = map fst sent"
  proof (rule sorted_distinct_set_unique)
    show "sorted (map fst (sort_key fst received))" by simp
    show "distinct (map fst (sort_key fst received))"
      using assms(6) by (metis mset_eq_imp_distinct_iff mset_map mset_sort)
    show "set (map fst (sort_key fst received)) = set (map fst sent)" using assms(7) by simp
  qed (use ds in simp_all)
  have "outbound_hash num digest received = outbound_hash num digest sent \<longleftrightarrow>
      canonical_fields num received = canonical_fields num sent"
    using assms(8) by (auto simp: outbound_hash_def inj_on_def)
  also have "\<dots> \<longleftrightarrow> map (\<lambda>p. text_or_empty num (snd p)) (sort_key fst received) = map (\<lambda>p. text_or_empty num (snd p)) sent"
  proof
    assume "canonical_fields num received = canonical_fields num sent"
    from map_texts [OF keys canonical_lines [OF assms(2,1,4,3) this, unfolded sent]]
    show "map (\<lambda>p. text_or_empty num (snd p)) (sort_key fst received) = map (\<lambda>p. text_or_empty num (snd p)) sent" .
  next
    assume texts: "map (\<lambda>p. text_or_empty num (snd p)) (sort_key fst received) = map (\<lambda>p. text_or_empty num (snd p)) sent"
    have "map (canonical_line num) hs = map2 (\<lambda>k v. k @ ''='' @ v) (map fst hs) (map (\<lambda>p. text_or_empty num (snd p)) hs)" for hs
      by (induction hs) (simp_all add: canonical_line_def)
    then have "map (canonical_line num) (sort_key fst received) = map (canonical_line num) sent"
      using keys texts by metis
    then show "canonical_fields num received = canonical_fields num sent"
      by (simp add: canonical_fields_def sent)
  qed
  finally show ?thesis
    using assms(9) by (auto simp: is_reflection_def Let_def)
qed

theorem reflection_is_echo_witness:
  "is_reflection \<lparr>rf_outbound_at = Some 1000, rf_outbound_hash = Some (outbound_hash (\<lambda>n. ''1'') (\<lambda>s. s) [(''a'', JStr ''x''), (''b'', JNull)]),
      rf_updated_on = 6000, rf_inbound_hash = outbound_hash (\<lambda>n. ''1'') (\<lambda>s. s) [(''b'', JStr []), (''a'', JStr ''x'')],
      rf_tolerance = None\<rparr>"
  by (subst reflection_is_echo)
    (auto simp: line_free_def text_or_empty_def is_nullish_def inj_on_def outbound_hash_def canonical_fields_def canonical_line_def)

text \<open>The canonical text does not mark where a value ends: with a line break inside a value, two different
  sets of values of the same two fields have one canonical text and so one hash, whatever the digest.\<close>

theorem hash_merges_values_across_lines:
  "outbound_hash num digest [(''a'', JStr (''1'' @ [CHR 0x0A] @ ''b=2'')), (''b'', JStr ''3'')] =
     outbound_hash num digest [(''a'', JStr ''1''), (''b'', JStr (''2'' @ [CHR 0x0A] @ ''b=3''))]"
  by (simp add: outbound_hash_def canonical_fields_def canonical_line_def text_or_empty_def is_nullish_def)

text \<open>No field ping-pongs: when both sides have changed an existing record and the values differ, an inbound
  value that is applied is never also sent out over, under every policy but the merging one; and a field
  whose values agree is neither applied nor sent, merging inbound apart.\<close>

theorem decisions_never_cross:
  assumes "\<not> ci_create i" "oc_policy k = ci_policy i" "oc_xms k = ci_xms i" "oc_external k = ci_external i"
    and "oc_xms_at k = ci_xms_at i" "oc_external_at k = ci_external_at i" "oc_external_changed k"
    and "ci_policy i \<noteq> Sor_merge"
  shows "\<not> ((\<exists>r. decide_inbound num i = Inr r) \<and> (\<exists>r. decide_outbound num k = Inr r)) \<and>
    (normalise num (ci_xms i) = normalise num (ci_external i) \<longrightarrow>
       (\<exists>r. decide_inbound num i = Inl r) \<and> (\<exists>r. decide_outbound num k = Inl r))"
  using assms
  by (cases "ci_policy i") (auto simp: decide_inbound_def decide_outbound_def Let_def split: if_splits)

theorem decisions_never_cross_witness:
  "\<not> ((\<exists>r. decide_inbound (\<lambda>n. ''1'') \<lparr>ci_policy = Sor_newest, ci_create = False, ci_xms = JStr ''a'', ci_external = JStr ''b'',
        ci_xms_at = Some 1, ci_external_at = Some 2\<rparr> = Inr r) \<and>
      (\<exists>r. decide_outbound (\<lambda>n. ''1'') \<lparr>oc_policy = Sor_newest, oc_external_changed = True, oc_xms = JStr ''a'',
        oc_external = JStr ''b'', oc_xms_at = Some 1, oc_external_at = Some 2\<rparr> = Inr r))"
  using decisions_never_cross [of "\<lparr>ci_policy = Sor_newest, ci_create = False, ci_xms = JStr ''a'', ci_external = JStr ''b'',
        ci_xms_at = Some 1, ci_external_at = Some 2\<rparr>" "\<lparr>oc_policy = Sor_newest, oc_external_changed = True, oc_xms = JStr ''a'',
        oc_external = JStr ''b'', oc_xms_at = Some 1, oc_external_at = Some 2\<rparr>" "\<lambda>n. ''1''"] by simp

text \<open>The sync does not loop: a change the apply handler of an instance wrote is never queued back to that
  instance, a change of any other origin is queued exactly when the instance is bidirectional and linked
  and subscribes to the event, internal files and switched-off work notes apart.\<close>

theorem enqueue_no_loop:
  "(eq_origin i = Some (sync_origin (eq_instance i)) \<longrightarrow> decide_enqueue i = Inl Own_origin) \<and>
   (decide_enqueue i = Inr () \<longleftrightarrow>
     eq_origin i \<noteq> Some (sync_origin (eq_instance i)) \<and> eq_mode i = Bidirectional \<and> eq_has_link i \<and>
     eq_event i \<in> set (eq_subscribed i) \<and>
     \<not> (eq_event i = ''work_note.created'' \<and> \<not> eq_work_notes i) \<and>
     \<not> (eq_event i = ''attachment.scanned'' \<and> eq_visibility i \<noteq> Some ''public''))"
  by (simp add: decide_enqueue_def)

theorem enqueue_no_loop_witness:
  "decide_enqueue \<lparr>eq_event = ''comment.created'', eq_origin = Some ''user'', eq_instance = ''i1'', eq_mode = Bidirectional,
     eq_subscribed = [''comment.created''], eq_has_link = True, eq_work_notes = False, eq_visibility = None\<rparr> = Inr ()"
  by (subst enqueue_no_loop [THEN conjunct2]) (simp add: sync_origin_def)

text \<open>A row that keeps failing is attempted exactly five times, each attempt later than the one before and all
  within forty minutes of the first, and is then not due again.\<close>

theorem outbound_attempts:
  "length (failing_run outbound_next_attempt max_outbound_attempts 1 t) = 5 \<and>
   sorted_wrt (<) (failing_run outbound_next_attempt max_outbound_attempts 1 t) \<and>
   (\<forall>u\<in>set (failing_run outbound_next_attempt max_outbound_attempts 1 t). t \<le> u \<and> u \<le> t + 2400000) \<and>
   outbound_next_attempt max_outbound_attempts u' = None"
  using outbound.failing_delivery [of t u'] by (simp add: max_outbound_attempts_def)

theorem outbound_attempts_witness:
  "set (failing_run outbound_next_attempt max_outbound_attempts 1 0) \<subseteq> {0..2400000} \<and>
   outbound_next_attempt max_outbound_attempts 7 = None"
  using outbound_attempts [of 0 7] by auto

end
