(* ===== verification/Sync_Maps.thy ===== *)
theory Sync_Maps
  imports Sync_Rules
begin

section \<open>Field and state maps (src/domain/sync/maps.ts)\<close>

text \<open>
  Field and state maps as data: the transforms and their reverse, the translation of an external record
  into a ticket patch and of ticket values into an external body, the validation reports, and the
  resolution of states in both directions. Records and maps are association lists, values are JSON, and
  \<open>String\<close> of a number is the parameter \<open>num\<close>. A name inherited from \<open>Object.prototype\<close> is not a key.
\<close>

datatype direction = Dir_in | Dir_out | Dir_both

datatype transform =
    No_transform
  | Lookup "string js_map" "string option"
  | Template string
  | Truncate int

record field_entry =
  fe_external :: string
  fe_xms :: string
  fe_direction :: direction
  fe_transform :: transform
  fe_sor :: "system_of_record option"

definition xms_fields :: "(string \<times> bool \<times> system_of_record) list" where
  "xms_fields =
     [(''short_description'', True, Sor_at_create), (''description'', False, Sor_at_create),
      (''requester_email'', True, Sor_at_create), (''requester_name'', False, Sor_at_create),
      (''category'', False, Sor_xms), (''impact'', False, Sor_at_create), (''urgency'', False, Sor_at_create),
      (''external_ref'', False, Sor_external), (''client_reference'', False, Sor_external),
      (''client_notes'', False, Sor_newest)]"

definition sync_levels :: "string list" where
  "sync_levels = [''high'', ''medium'', ''low'']"

definition default_sor :: "string \<Rightarrow> system_of_record option" where
  "default_sor field = map_option snd (map_of xms_fields field)"

subsection \<open>Transforms\<close>

definition name_char :: "char \<Rightarrow> bool" where
  "name_char c \<longleftrightarrow> is_lower_letter c \<or> is_upper_letter c \<or> is_digit c \<or> c = CHR ''_'' \<or> c = CHR ''.''"

text \<open>One match of \<open>/\{\{\s*([A-Za-z0-9_.]+)\s*\}\}/\<close> at the head of the text: the name and what follows.\<close>

definition placeholder :: "string \<Rightarrow> (string \<times> string) option" where
  "placeholder s =
     (if take 2 s = ''{{'' then
        let t = js_trim_start (drop 2 s); name = takeWhile name_char t; r = js_trim_start (dropWhile name_char t)
        in if name \<noteq> [] \<and> take 2 r = ''}}'' then Some (name, drop 2 r) else None
      else None)"

lemma placeholder_shorter: "placeholder s = Some (n, r) \<Longrightarrow> length r < length s"
proof -
  assume "placeholder s = Some (n, r)"
  then have s: "take 2 s = ''{{''" and r: "r = drop 2 (js_trim_start (dropWhile name_char (js_trim_start (drop 2 s))))"
    by (auto simp: placeholder_def Let_def split: if_splits)
  have trim: "length (js_trim_start t) \<le> length t" for t
    unfolding js_trim_start_def by (rule length_dropWhile_le)
  have "length r \<le> length (js_trim_start (dropWhile name_char (js_trim_start (drop 2 s))))" by (simp add: r)
  also have "\<dots> \<le> length (dropWhile name_char (js_trim_start (drop 2 s)))" by (rule trim)
  also have "\<dots> \<le> length (js_trim_start (drop 2 s))" by (rule length_dropWhile_le)
  also have "\<dots> \<le> length (drop 2 s)" by (rule trim)
  also have "\<dots> < length s" using s by (cases s) auto
  finally show ?thesis .
qed

function expand_template :: "(string \<Rightarrow> string) \<Rightarrow> string \<Rightarrow> string" where
  "expand_template value s =
     (case placeholder s of
        Some (n, r) \<Rightarrow> value n @ expand_template value r
      | None \<Rightarrow> (case s of [] \<Rightarrow> [] | c # cs \<Rightarrow> c # expand_template value cs))"
  by pat_completeness auto
termination
  by (relation "measure (\<lambda>(v, s). length s)") (auto simp: placeholder_shorter)

declare expand_template.simps [simp del]

definition field_of :: "json js_map \<Rightarrow> string \<Rightarrow> json" where
  "field_of r k = (case map_of r k of None \<Rightarrow> JUndef | Some v \<Rightarrow> v)"

definition cut_text :: "(rat \<Rightarrow> string) \<Rightarrow> json \<Rightarrow> int \<Rightarrow> json" where
  "cut_text num value n =
     (if is_nullish value then value
      else let text = js_string num value
           in JStr (if int (length text) > n
             then (if n \<ge> 0 then take (nat n) text else take (length text - nat (- n)) text) else text))"

definition apply_transform :: "(rat \<Rightarrow> string) \<Rightarrow> json \<Rightarrow> transform \<Rightarrow> json js_map \<Rightarrow> json" where
  "apply_transform num value t record =
     (case t of
        No_transform \<Rightarrow> value
      | Lookup values fallback \<Rightarrow>
          (case map_of values (text_or_empty num value) of
             Some v \<Rightarrow> JStr v
           | None \<Rightarrow> (case fallback of Some f \<Rightarrow> JStr f | None \<Rightarrow> JUndef))
      | Template tpl \<Rightarrow> JStr (expand_template (\<lambda>n. text_or_empty num (field_of record n)) tpl)
      | Truncate n \<Rightarrow> cut_text num value n)"

text \<open>ServiceNow reference fields arrive as an object with a display value, or plain.\<close>

definition pick :: "json js_map \<Rightarrow> string \<Rightarrow> json" where
  "pick record field =
     (let raw = field_of record field
      in if is_plain_object raw then
           (if is_nullish (jget ''display_value'' raw) then jget ''value'' raw else jget ''display_value'' raw)
         else raw)"

definition reverse_transform :: "(rat \<Rightarrow> string) \<Rightarrow> json \<Rightarrow> transform \<Rightarrow> json" where
  "reverse_transform num value t =
     (case t of
        No_transform \<Rightarrow> value
      | Lookup values fallback \<Rightarrow>
          (case sort (map fst (filter (\<lambda>p. snd p = text_or_empty num value) values)) of
             [] \<Rightarrow> JUndef | k # _ \<Rightarrow> JStr k)
      | Truncate n \<Rightarrow> cut_text num value n
      | Template tpl \<Rightarrow> JUndef)"

subsection \<open>Inbound\<close>

definition system_fields :: "string list" where
  "system_fields = [''sys_id'', ''sys_updated_on'', ''sys_created_on'', ''sys_updated_by'', ''sys_created_by'', ''sys_mod_count'']"

record inbound_translation =
  it_patch :: "json js_map"
  it_unmapped :: "string list"
  it_missing :: "string list"

definition is_level_field :: "string \<Rightarrow> bool" where
  "is_level_field f \<longleftrightarrow> f = ''impact'' \<or> f = ''urgency''"

definition inbound_value :: "(rat \<Rightarrow> string) \<Rightarrow> json js_map \<Rightarrow> field_entry \<Rightarrow> json" where
  "inbound_value num record e = apply_transform num (pick record (fe_external e)) (fe_transform e) record"

definition inbound_step ::
    "(rat \<Rightarrow> string) \<Rightarrow> json js_map \<Rightarrow> json js_map \<times> string list \<Rightarrow> field_entry \<Rightarrow> json js_map \<times> string list" where
  "inbound_step num record acc e =
     (if fe_direction e = Dir_out then acc
      else if pick record (fe_external e) = JUndef then (fst acc, snd acc @ [fe_external e])
      else
        let value = inbound_value num record e
        in if is_level_field (fe_xms e) then
             let level = js_lower (text_or_empty num value)
             in if level \<in> set sync_levels then (AList.update (fe_xms e) (JStr level) (fst acc), snd acc) else acc
           else (AList.update (fe_xms e) value (fst acc), snd acc))"

definition translate_inbound :: "(rat \<Rightarrow> string) \<Rightarrow> field_entry list \<Rightarrow> json js_map \<Rightarrow> inbound_translation" where
  "translate_inbound num ents record =
     (let (patch, missing) = foldl (inbound_step num record) ([], []) ents;
          mapped = map fe_external (filter (\<lambda>e. fe_direction e \<noteq> Dir_out) ents)
      in \<lparr>it_patch = patch,
          it_unmapped = filter (\<lambda>k. k \<notin> set mapped \<and> k \<notin> set system_fields \<and> \<not> starts_with ''sys_'' k) (map fst record),
          it_missing = missing\<rparr>)"

subsection \<open>Outbound\<close>

record outbound_translation =
  ot_body :: "string js_map"
  ot_sent :: "json js_map"
  ot_unmapped :: "string list"

definition outbound_step ::
    "(rat \<Rightarrow> string) \<Rightarrow> json js_map \<Rightarrow> string list option \<Rightarrow> outbound_translation \<Rightarrow> field_entry \<Rightarrow> outbound_translation" where
  "outbound_step num values only acc e =
     (if fe_direction e = Dir_in \<or> (case only of None \<Rightarrow> False | Some fs \<Rightarrow> fe_xms e \<notin> set fs) then acc
      else
        let value = field_of values (fe_xms e)
        in if value = JUndef then acc
           else
             let reversed = reverse_transform num value (fe_transform e)
             in if reversed = JUndef then acc\<lparr>ot_unmapped := ot_unmapped acc @ [fe_xms e]\<rparr>
                else acc\<lparr>ot_body := AList.update (fe_external e) (text_or_empty num reversed) (ot_body acc),
                         ot_sent := AList.update (fe_xms e) value (ot_sent acc)\<rparr>)"

definition translate_outbound ::
    "(rat \<Rightarrow> string) \<Rightarrow> field_entry list \<Rightarrow> json js_map \<Rightarrow> string list option \<Rightarrow> outbound_translation" where
  "translate_outbound num ents values only =
     foldl (outbound_step num values only) \<lparr>ot_body = [], ot_sent = [], ot_unmapped = []\<rparr> ents"

subsection \<open>Validation of field maps\<close>

record dictionary_field =
  df_name :: string
  df_mandatory :: bool

datatype map_problem =
    Unknown_xms_field nat string
  | Not_in_dictionary nat string
  | Truncate_not_positive nat
  | Lookup_gap nat "string list"
  | Required_unmapped string
  | Inbound_twice string
  | Outbound_twice string

datatype map_warning = Mandatory_unmapped string | Sample_without string

record 'p validation_report =
  vr_ok :: bool
  vr_problems :: "'p list"
  vr_samples :: nat

definition lookup_gaps :: "(rat \<Rightarrow> string) \<Rightarrow> json js_map list \<Rightarrow> field_entry \<Rightarrow> string js_map \<Rightarrow> string list" where
  "lookup_gaps num samples e values =
     filter (\<lambda>v. map_of values v = None)
       (uniq (map (js_string num) (filter (\<lambda>v. \<not> is_nullish v) (map (\<lambda>s. pick s (fe_external e)) samples))))"

definition field_entry_problems ::
    "(rat \<Rightarrow> string) \<Rightarrow> string list \<Rightarrow> json js_map list \<Rightarrow> nat \<Rightarrow> field_entry \<Rightarrow> map_problem list" where
  "field_entry_problems num known samples i e =
     (if map_of xms_fields (fe_xms e) = None then [Unknown_xms_field i (fe_xms e)] else []) @
     (if known \<noteq> [] \<and> fe_external e \<notin> set known then [Not_in_dictionary i (fe_external e)] else []) @
     (case fe_transform e of
        Truncate n \<Rightarrow> if \<not> n > 0 then [Truncate_not_positive i] else []
      | Lookup values fallback \<Rightarrow>
          let gaps = lookup_gaps num samples e values
          in if gaps \<noteq> [] \<and> fallback = None then [Lookup_gap i gaps] else []
      | _ \<Rightarrow> [])"

definition inbound_targets :: "field_entry list \<Rightarrow> string list" where
  "inbound_targets ents = map fe_xms (filter (\<lambda>e. fe_direction e \<noteq> Dir_out) ents)"

definition outbound_targets :: "field_entry list \<Rightarrow> string list" where
  "outbound_targets ents = map fe_xms (filter (\<lambda>e. fe_direction e \<noteq> Dir_in) ents)"

definition repeated :: "string list \<Rightarrow> string list" where
  "repeated xs = filter (\<lambda>x. count_list xs x > 1) (uniq xs)"

definition field_map_problems ::
    "(rat \<Rightarrow> string) \<Rightarrow> field_entry list \<Rightarrow> dictionary_field list \<Rightarrow> json js_map list \<Rightarrow> map_problem list" where
  "field_map_problems num ents dictionary samples =
     concat (map (\<lambda>(i, e). field_entry_problems num (map df_name dictionary) samples i e) (enumerate 0 ents)) @
     map Required_unmapped (filter (\<lambda>f. f \<notin> set (inbound_targets ents)) (map fst (filter (fst \<circ> snd) xms_fields))) @
     map Inbound_twice (repeated (inbound_targets ents)) @
     map Outbound_twice (repeated (outbound_targets ents))"

definition field_map_warnings ::
    "(rat \<Rightarrow> string) \<Rightarrow> field_entry list \<Rightarrow> dictionary_field list \<Rightarrow> json js_map list \<Rightarrow> map_warning list" where
  "field_map_warnings num ents dictionary samples =
     uniq (map Mandatory_unmapped
         (map df_name (filter (\<lambda>d. df_mandatory d \<and> \<not> list_ex (\<lambda>e. fe_external e = df_name d \<and> fe_direction e \<noteq> Dir_in) ents)
           dictionary)) @
       concat (map (\<lambda>s. map Sample_without (it_missing (translate_inbound num ents s))) samples))"

definition validate_field_map ::
    "(rat \<Rightarrow> string) \<Rightarrow> field_entry list \<Rightarrow> dictionary_field list \<Rightarrow> json js_map list \<Rightarrow> map_problem validation_report" where
  "validate_field_map num ents dictionary samples =
     (let problems = field_map_problems num ents dictionary samples
      in \<lparr>vr_ok = (problems = []), vr_problems = uniq problems, vr_samples = length samples\<rparr>)"

subsection \<open>State maps\<close>

record state_map =
  sm_inbound :: "string js_map"
  sm_outbound :: "string js_map"
  sm_accept :: "string list option"
  sm_fallback :: "string js_map option"

datatype state_problem =
    No_type_mapped
  | Unknown_type string
  | External_unmapped string string
  | Inbound_unknown_state string string string
  | Outbound_not_state string string
  | Outbound_shared string "string list" string
  | Accept_unknown_state string string

definition sharing :: "string js_map \<Rightarrow> (string \<times> string list) list" where
  "sharing outbound = foldl (\<lambda>m (xms, ext). map_adjust ext [] (\<lambda>l. l @ [xms]) m) [] outbound"

definition fallback_has :: "state_map \<Rightarrow> string \<Rightarrow> bool" where
  "fallback_has e k = (case sm_fallback e of None \<Rightarrow> False | Some f \<Rightarrow> map_of f k \<noteq> None)"

definition state_type_problems :: "string list \<Rightarrow> string list js_map \<Rightarrow> string \<times> state_map \<Rightarrow> state_problem list" where
  "state_type_problems externals machines te =
     (let ty = fst te; e = snd te
      in case map_of machines ty of
           None \<Rightarrow> [Unknown_type ty]
         | Some states \<Rightarrow>
             map (External_unmapped ty) (filter (\<lambda>x. map_of (sm_inbound e) x = None) externals) @
             map (\<lambda>(x, s). Inbound_unknown_state ty x s) (filter (\<lambda>(x, s). s \<notin> set states) (sm_inbound e)) @
             map (\<lambda>(s, x). Outbound_not_state ty s) (filter (\<lambda>(s, x). s \<notin> set states) (sm_outbound e)) @
             map (\<lambda>(x, ss). Outbound_shared ty ss x)
               (filter (\<lambda>(x, ss). length ss > 1 \<and> \<not> fallback_has e x) (sharing (sm_outbound e))) @
             map (Accept_unknown_state ty)
               (filter (\<lambda>s. s \<notin> set states) (case sm_accept e of None \<Rightarrow> [] | Some l \<Rightarrow> l)))"

definition state_map_problems ::
    "(string \<times> state_map) list \<Rightarrow> string list \<Rightarrow> string list js_map \<Rightarrow> state_problem list" where
  "state_map_problems m externals machines =
     (if m = [] then [No_type_mapped] else []) @ concat (map (state_type_problems externals machines) m)"

definition validate_state_map ::
    "(string \<times> state_map) list \<Rightarrow> string list \<Rightarrow> string list js_map \<Rightarrow> state_problem validation_report" where
  "validate_state_map m externals machines =
     (let problems = state_map_problems m externals machines
      in \<lparr>vr_ok = (problems = []), vr_problems = uniq problems, vr_samples = 0\<rparr>)"

datatype inbound_via = Direct | Fallback
datatype inbound_miss = Unmapped | Not_accepted | Unreachable | Same_state

definition resolve_inbound_state ::
    "state_map \<Rightarrow> string \<Rightarrow> string \<Rightarrow> string list \<Rightarrow> inbound_miss + string \<times> inbound_via" where
  "resolve_inbound_state e external current allowed =
     (case map_of (sm_inbound e) external of
        None \<Rightarrow> Inl Unmapped
      | Some mapped \<Rightarrow>
          if mapped = [] then Inl Unmapped
          else if mapped = current then Inl Same_state
          else if (case sm_accept e of None \<Rightarrow> False | Some l \<Rightarrow> mapped \<notin> set l) then Inl Not_accepted
          else if mapped \<in> set allowed then Inr (mapped, Direct)
          else (case Option.bind (sm_fallback e) (\<lambda>f. map_of f mapped) of
                  None \<Rightarrow> Inl Unreachable
                | Some fb \<Rightarrow> if fb \<noteq> [] \<and> fb \<in> set allowed then Inr (fb, Fallback) else Inl Unreachable))"

record outbound_state =
  os_value :: string
  os_shared :: "string list"
  os_canonical :: "string option"

definition resolve_outbound_state :: "state_map \<Rightarrow> string \<Rightarrow> outbound_state option" where
  "resolve_outbound_state e xms =
     (case map_of (sm_outbound e) xms of
        None \<Rightarrow> None
      | Some value \<Rightarrow>
          (let shared = map fst (filter (\<lambda>(s, x). x = value \<and> s \<noteq> xms) (sm_outbound e))
           in Some \<lparr>os_value = value, os_shared = shared,
                os_canonical = (if shared = [] then None
                  else case Option.bind (sm_fallback e) (\<lambda>f. map_of f value) of
                    None \<Rightarrow> None | Some c \<Rightarrow> if c = [] then None else Some c)\<rparr>))"

subsection \<open>Lemmas\<close>

lemma lookup_reversed:
  assumes "reverse_transform num v (Lookup values fb) = JStr k"
  shows "(k, text_or_empty num v) \<in> set values \<and> (\<forall>k'. (k', text_or_empty num v) \<in> set values \<longrightarrow> k \<le> k')"
proof -
  let ?ks = "map fst (filter (\<lambda>p. snd p = text_or_empty num v) values)"
  obtain ks where s: "sort ?ks = k # ks"
    using assms by (auto simp: reverse_transform_def split: list.splits)
  have "sorted (k # ks)" unfolding s [symmetric] by (rule sorted_sort)
  moreover have "set (k # ks) = set ?ks" unfolding s [symmetric] by (rule set_sort)
  moreover have "x \<in> set ?ks \<longleftrightarrow> (x, text_or_empty num v) \<in> set values" for x by force
  ultimately show ?thesis by (metis list.set_intros(1) set_ConsD sorted_wrt.simps(2) order_refl)
qed

lemma inbound_frame:
  "f \<notin> set (inbound_targets es) \<Longrightarrow>
     map_of (fst (foldl (inbound_step num record) acc es)) f = map_of (fst acc) f"
proof (induction es arbitrary: acc)
  case (Cons e es)
  have "map_of (fst (inbound_step num record acc e)) f = map_of (fst acc) f"
    using Cons.prems by (auto simp: inbound_targets_def inbound_step_def Let_def update_conv')
  with Cons show ?case by (simp add: inbound_targets_def split: if_splits)
qed simp

lemma count_one: "count_list xs x \<le> 1 \<Longrightarrow> xs = us @ x # vs \<Longrightarrow> x \<notin> set us \<and> x \<notin> set vs"
  by (auto simp: count_list_append) (metis Suc_le_mono add_is_0 count_list_0_iff le_zero_eq not_less_eq_eq One_nat_def add_Suc_right)+

lemma not_repeated: "repeated xs = [] \<Longrightarrow> count_list xs x \<le> 1"
proof -
  assume "repeated xs = []"
  then have "\<forall>x\<in>set xs. \<not> count_list xs x > 1" by (simp add: repeated_def filter_empty_conv)
  moreover have "x \<notin> set xs \<Longrightarrow> count_list xs x = 0" by (rule count_notin)
  ultimately show ?thesis by (cases "x \<in> set xs") (auto simp: not_less)
qed

lemma inbound_unique:
  assumes "field_map_problems num es dictionary samples = []" "e \<in> set es" "fe_direction e \<noteq> Dir_out"
    and "\<not> is_level_field (fe_xms e)" "pick record (fe_external e) \<noteq> JUndef"
  shows "map_of (it_patch (translate_inbound num es record)) (fe_xms e) = Some (inbound_value num record e)"
proof -
  obtain us vs where es: "es = us @ e # vs" using split_list [OF assms(2)] by blast
  have "repeated (inbound_targets es) = []" using assms(1) by (simp add: field_map_problems_def)
  from not_repeated [OF this, of "fe_xms e"]
  have "fe_xms e \<notin> set (inbound_targets vs)"
    using count_one [of "inbound_targets es" "fe_xms e" "inbound_targets us" "inbound_targets vs"] assms(3)
    by (simp add: es inbound_targets_def)
  then have "map_of (fst (foldl (inbound_step num record) (inbound_step num record acc e) vs)) (fe_xms e)
      = map_of (fst (inbound_step num record acc e)) (fe_xms e)" for acc
    by (rule inbound_frame)
  moreover have "map_of (fst (inbound_step num record acc e)) (fe_xms e) = Some (inbound_value num record e)" for acc
    using assms(3-5) by (simp add: inbound_step_def Let_def update_conv')
  ultimately show ?thesis
    by (simp add: translate_inbound_def es split: prod.split) (metis fst_conv)
qed

subsection \<open>Properties\<close>

text \<open>A lookup survives the round trip: the external value an XMS value leaves as maps back to that XMS value, and
  when several external values share it the lowest key is the one that leaves.\<close>

theorem lookup_round_trip:
  assumes "distinct (map fst values)" "reverse_transform num v (Lookup values fallback) = JStr k"
  shows "apply_transform num (JStr k) (Lookup values fallback) record = JStr (text_or_empty num v) \<and>
    (\<forall>k'. (k', text_or_empty num v) \<in> set values \<longrightarrow> k \<le> k')"
  using lookup_reversed [OF assms(2)] map_of_is_SomeI [OF assms(1) lookup_reversed [OF assms(2), THEN conjunct1]]
  by (simp add: apply_transform_def text_or_empty_def [of num "JStr k"] is_nullish_def)

theorem lookup_round_trip_witness:
  "apply_transform (\<lambda>n. ''1'') (JStr ''1'') (Lookup [(''2'', ''high''), (''1'', ''high'')] None) [] = JStr ''high''"
proof -
  have "reverse_transform (\<lambda>n. ''1'') (JStr ''high'') (Lookup [(''2'', ''high''), (''1'', ''high'')] None) = JStr ''1''"
    by code_simp
  from lookup_round_trip [OF _ this, of "[]"] show ?thesis by (simp add: text_or_empty_def is_nullish_def)
qed

text \<open>A field map the validator passes translates every record alike: each required ticket field has an inbound
  entry, and for any record that holds its external field the patch holds for it exactly that entry's
  transformed value, whatever the order of the entries.\<close>

theorem validated_map_translates:
  assumes "vr_ok (validate_field_map num es dictionary samples)" "(f, True, sor) \<in> set xms_fields"
  shows "\<exists>e\<in>set es. fe_xms e = f \<and> fe_direction e \<noteq> Dir_out \<and>
    (\<forall>record. pick record (fe_external e) \<noteq> JUndef \<longrightarrow>
       map_of (it_patch (translate_inbound num es record)) f = Some (inbound_value num record e))"
proof -
  have ok: "field_map_problems num es dictionary samples = []"
    using assms(1) by (simp add: validate_field_map_def Let_def)
  have "f \<in> set (inbound_targets es)"
    using ok assms(2) by (force simp: field_map_problems_def filter_empty_conv)
  then obtain e where e: "e \<in> set es" "fe_xms e = f" "fe_direction e \<noteq> Dir_out"
    by (auto simp: inbound_targets_def)
  moreover have "\<not> is_level_field f" using assms(2) by (auto simp: xms_fields_def is_level_field_def)
  ultimately show ?thesis using inbound_unique [OF ok e(1,3)] by blast
qed

definition sample_map :: "field_entry list" where
  "sample_map =
     [\<lparr>fe_external = ''short_description'', fe_xms = ''short_description'', fe_direction = Dir_both, fe_transform = Truncate 20, fe_sor = None\<rparr>,
      \<lparr>fe_external = ''caller'', fe_xms = ''requester_email'', fe_direction = Dir_in, fe_transform = No_transform, fe_sor = None\<rparr>]"

theorem validated_map_translates_witness:
  "map_of (it_patch (translate_inbound (\<lambda>n. ''1'') sample_map [(''caller'', JStr ''a@b'')])) ''requester_email'' = Some (JStr ''a@b'')"
proof -
  have "vr_ok (validate_field_map (\<lambda>n. ''1'') sample_map [] [])" by code_simp
  from validated_map_translates [OF this, of "''requester_email''" Sor_at_create]
  obtain e where e: "e \<in> set sample_map" "fe_xms e = ''requester_email''"
    and t: "pick [(''caller'', JStr ''a@b'')] (fe_external e) \<noteq> JUndef \<Longrightarrow>
       map_of (it_patch (translate_inbound (\<lambda>n. ''1'') sample_map [(''caller'', JStr ''a@b'')])) ''requester_email'' =
         Some (inbound_value (\<lambda>n. ''1'') [(''caller'', JStr ''a@b'')] e)"
    by (auto simp: xms_fields_def)
  from e have "fe_external e = ''caller''" "fe_transform e = No_transform" by (auto simp: sample_map_def)
  with t show ?thesis by (simp add: pick_def field_of_def inbound_value_def apply_transform_def)
qed

text \<open>An inbound state change only goes where the state machine lets it: the target is one of the states allowed
  from the current one, and when it is the mapped state itself it is accepted by the map, differs from
  the current state, and, for a map the validator passes, is a state of the ticket type.\<close>

theorem inbound_state_allowed:
  assumes "resolve_inbound_state e external current allowed = Inr (target, via)"
  shows "target \<in> set allowed \<and>
    (via = Direct \<longrightarrow> map_of (sm_inbound e) external = Some target \<and> target \<noteq> current \<and>
       (\<forall>l. sm_accept e = Some l \<longrightarrow> target \<in> set l) \<and>
       (\<forall>machines states ty externals. map_of machines ty = Some states \<and>
          state_type_problems externals machines (ty, e) = [] \<longrightarrow> target \<in> set states))"
proof -
  have "target \<in> set allowed \<and>
    (via = Direct \<longrightarrow> map_of (sm_inbound e) external = Some target \<and> target \<noteq> current \<and>
       (\<forall>l. sm_accept e = Some l \<longrightarrow> target \<in> set l))"
    using assms by (auto simp: resolve_inbound_state_def split: option.splits if_splits)
  moreover have "target \<in> set states"
    if "map_of (sm_inbound e) external = Some target" "map_of machines ty = Some states"
      "state_type_problems externals machines (ty, e) = []" for machines ty states externals
    using that map_of_SomeD [OF that(1)] by (auto simp: state_type_problems_def Let_def filter_empty_conv)
  ultimately show ?thesis by blast
qed

theorem inbound_state_allowed_witness:
  "''reopened'' \<in> set [''reopened'', ''closed'']"
proof -
  have "resolve_inbound_state \<lparr>sm_inbound = [(''6'', ''reopened'')], sm_outbound = [], sm_accept = Some [''reopened''], sm_fallback = None\<rparr>
      ''6'' ''resolved'' [''reopened'', ''closed''] = Inr (''reopened'', Direct)"
    by code_simp
  from inbound_state_allowed [OF this] show ?thesis by blast
qed

text \<open>The list of states an inbound change may move a ticket into does not bind the fallback: a map the
  validator passes can move a ticket, through its fallback, into a state its accept list leaves out.\<close>

theorem fallback_skips_accept_list:
  "vr_ok (validate_state_map [(''incident'', \<lparr>sm_inbound = [(''7'', ''closed'')], sm_outbound = [(''resolved'', ''6'')],
       sm_accept = Some [''closed''], sm_fallback = Some [(''closed'', ''resolved'')]\<rparr>)] [''7'']
     [(''incident'', [''new'', ''resolved'', ''closed''])]) \<and>
   resolve_inbound_state \<lparr>sm_inbound = [(''7'', ''closed'')], sm_outbound = [(''resolved'', ''6'')],
       sm_accept = Some [''closed''], sm_fallback = Some [(''closed'', ''resolved'')]\<rparr> ''7'' ''new'' [''resolved'']
     = Inr (''resolved'', Fallback) \<and> ''resolved'' \<notin> set [''closed'']"
  by code_simp

end
