(* ===== verification/Webhooks.thy ===== *)
theory Webhooks
  imports Retry
begin

section \<open>Outbound webhooks and the network guard (src/domain/integrations/webhooks.ts, src/common/http/outbound.ts)\<close>

text \<open>
  The event catalog, the signature header and its verification, the guard on destinations at registration
  and at delivery, the capped reading of an answer, the retry schedule and the sealed secret. What is
  cryptography is a parameter: the keyed hash (\<open>mac secret text\<close>, 64 lower-case hex digits), the cipher, the
  base64url coding. So is the URL parser, whose result is a record, and the name lookup. Addresses are
  text, and \<open>isIP\<close> is written out for addresses without a zone suffix.
\<close>

subsection \<open>Events and signatures\<close>

definition public_event_types :: "string list" where
  "public_event_types = [''ticket.created'', ''ticket.updated'', ''ticket.transitioned'', ''comment.created'',
     ''time_entry.created'', ''billing_period.locked'']"

definition outbox_to_public :: "string js_map" where
  "outbox_to_public = [(''ticket.created'', ''ticket.created''), (''ticket.updated'', ''ticket.updated''),
     (''ticket.transitioned'', ''ticket.transitioned''), (''comment.created'', ''comment.created''),
     (''time.logged'', ''time_entry.created''), (''billing_period.locked'', ''billing_period.locked'')]"

definition is_public_event_type :: "string \<Rightarrow> bool" where
  "is_public_event_type v \<longleftrightarrow> v \<in> set public_event_types"

definition sign :: "(string \<Rightarrow> string \<Rightarrow> string) \<Rightarrow> string \<Rightarrow> string \<Rightarrow> string \<Rightarrow> string" where
  "sign mac secret timestamp body = mac secret (timestamp @ ''.'' @ body)"

definition signature_header :: "(string \<Rightarrow> string \<Rightarrow> string) \<Rightarrow> string \<Rightarrow> string \<Rightarrow> string \<Rightarrow> string \<Rightarrow> string" where
  "signature_header mac kid secret timestamp body = ''kid='' @ kid @ '', v1='' @ sign mac secret timestamp body"

definition hex_digit :: "char \<Rightarrow> bool" where
  "hex_digit c \<longleftrightarrow> is_digit c \<or> c \<in> set ''abcdef''"

text \<open>The first match of \<open>/v1=([0-9a-f]{64})/\<close>.\<close>

fun find_v1 :: "string \<Rightarrow> string option" where
  "find_v1 [] = None"
| "find_v1 (c # cs) =
     (if starts_with ''v1='' (c # cs) \<and> length (take 64 (drop 2 cs)) = 64 \<and> list_all hex_digit (take 64 (drop 2 cs))
      then Some (take 64 (drop 2 cs)) else find_v1 cs)"

definition verify_signature ::
    "(string \<Rightarrow> string \<Rightarrow> string) \<Rightarrow> (string \<Rightarrow> rat option) \<Rightarrow> string \<Rightarrow> string \<Rightarrow> string \<Rightarrow> string \<Rightarrow> ms \<Rightarrow> int \<Rightarrow> bool" where
  "verify_signature mac to_num header secret timestamp body now skew =
     (case find_v1 header of
        None \<Rightarrow> False
      | Some given \<Rightarrow>
          (case to_num timestamp of
             None \<Rightarrow> False
           | Some ts \<Rightarrow>
               if \<bar>of_int now / 1000 - ts\<bar> > of_int skew then False
               else sign mac secret timestamp body = given))"

subsection \<open>Addresses\<close>

definition octet :: "string \<Rightarrow> nat option" where
  "octet s =
     (let n = foldl (\<lambda>a c. a * 10 + (of_char c - 48)) 0 s
      in if s \<noteq> [] \<and> length s \<le> 3 \<and> list_all is_digit s \<and> (length s = 1 \<or> hd s \<noteq> CHR ''0'') \<and> n \<le> 255 then Some n else None)"

definition ipv4_octets :: "string \<Rightarrow> nat list option" where
  "ipv4_octets s =
     (case map octet (split_char CHR ''.'' s) of
        [Some a, Some b, Some c, Some d] \<Rightarrow> Some [a, b, c, d]
      | _ \<Rightarrow> None)"

definition is_ipv4 :: "string \<Rightarrow> bool" where
  "is_ipv4 s \<longleftrightarrow> ipv4_octets s \<noteq> None"

definition v6_group :: "string \<Rightarrow> bool" where
  "v6_group s \<longleftrightarrow> s \<noteq> [] \<and> length s \<le> 4 \<and> list_all (\<lambda>c. hex_digit (js_lower_char c)) s"

text \<open>The number of 16-bit groups a colon-separated list stands for; a dotted quad may close it.\<close>

fun v6_count :: "string list \<Rightarrow> nat option" where
  "v6_count [] = Some 0"
| "v6_count [g] = (if v6_group g then Some 1 else if is_ipv4 g then Some 2 else None)"
| "v6_count (g # gs) = (if v6_group g then map_option Suc (v6_count gs) else None)"

fun split_double_colon :: "string \<Rightarrow> string \<Rightarrow> (string \<times> string) option" where
  "split_double_colon before (c # d # cs) =
     (if c = CHR '':'' \<and> d = CHR '':'' then Some (rev before, cs) else split_double_colon (c # before) (d # cs))"
| "split_double_colon before cs = None"

definition v6_groups :: "string \<Rightarrow> nat option" where
  "v6_groups s = (if s = [] then Some 0 else v6_count (split_char CHR '':'' s))"

definition no_quad :: "string \<Rightarrow> bool" where
  "no_quad s \<longleftrightarrow> CHR ''.'' \<notin> set s"

definition is_ipv6 :: "string \<Rightarrow> bool" where
  "is_ipv6 s =
     (case split_double_colon [] s of
        None \<Rightarrow> v6_groups s = Some 8 \<and> s \<noteq> []
      | Some (l, r) \<Rightarrow>
          no_quad l \<and> (case (v6_groups l, v6_groups r) of (Some a, Some b) \<Rightarrow> a + b \<le> 7 | _ \<Rightarrow> False))"

definition is_ip :: "string \<Rightarrow> nat" where
  "is_ip s = (if is_ipv4 s then 4 else if is_ipv6 s then 6 else 0)"

definition private_octets :: "nat list \<Rightarrow> bool" where
  "private_octets os =
     (case os of
        a # b # _ \<Rightarrow> a = 10 \<or> a = 127 \<or> a = 169 \<and> b = 254 \<or> a = 172 \<and> 16 \<le> b \<and> b \<le> 31 \<or> a = 192 \<and> b = 168 \<or>
          a = 0 \<or> a = 100 \<and> 64 \<le> b \<and> b \<le> 127
      | _ \<Rightarrow> False)"

definition private_v4 :: "string \<Rightarrow> bool" where
  "private_v4 s = (case ipv4_octets s of None \<Rightarrow> False | Some os \<Rightarrow> private_octets os)"

definition unbracket :: "string \<Rightarrow> string" where
  "unbracket s =
     (let a = (if starts_with ''['' s then tl s else s)
      in if a \<noteq> [] \<and> last a = CHR '']'' then butlast a else a)"

definition local_name :: "string \<Rightarrow> bool" where
  "local_name bare \<longleftrightarrow> bare = ''localhost'' \<or> ends_with ''.localhost'' bare \<or> ends_with ''.local'' bare \<or>
     ends_with ''.internal'' bare"

lemma unbracket_length: "length (unbracket s) \<le> length s"
  by (auto simp: unbracket_def Let_def starts_with_def)

text \<open>The branches of \<open>isPrivateAddress\<close> that decide without recursion, and the one that recurs.\<close>

definition plainly_private :: "string \<Rightarrow> bool" where
  "plainly_private bare \<longleftrightarrow>
     local_name bare \<or>
     (if is_ip bare = 4 then private_v4 bare
      else is_ip bare = 6 \<and>
        (bare = ''::1'' \<or> bare = ''::'' \<or> starts_with ''fc'' bare \<or> starts_with ''fd'' bare \<or>
         starts_with ''fe'' bare \<and> list_ex (\<lambda>c. c \<in> set ''89ab'') (take 1 (drop 2 bare))))"

definition mapped_v4 :: "string \<Rightarrow> bool" where
  "mapped_v4 bare \<longleftrightarrow> is_ip bare = 6 \<and> starts_with ''::ffff:'' bare"

definition bare_host :: "string \<Rightarrow> string" where
  "bare_host host = js_lower (unbracket host)"

lemma mapped_shorter: "mapped_v4 (bare_host host) \<Longrightarrow> length (bare_host host) - 7 < length host"
proof -
  assume "mapped_v4 (bare_host host)"
  then have "7 \<le> length (bare_host host)" by (auto simp: mapped_v4_def starts_with_iff)
  moreover have "length (bare_host host) \<le> length host" by (simp add: bare_host_def unbracket_length)
  ultimately show ?thesis by linarith
qed

function is_private_address :: "string \<Rightarrow> bool" where
  "is_private_address host =
     (if plainly_private (bare_host host) then True
      else if mapped_v4 (bare_host host) then is_private_address (drop 7 (bare_host host))
      else False)"
  by pat_completeness auto
termination
  by (relation "measure length") (simp_all add: mapped_shorter)

declare is_private_address.simps [simp del]

definition label_ok :: "string \<Rightarrow> bool" where
  "label_ok s \<longleftrightarrow> s \<noteq> [] \<and> length s \<le> 63 \<and> hd s \<noteq> CHR ''-'' \<and> last s \<noteq> CHR ''-'' \<and>
     list_all (\<lambda>c. is_lower_letter (js_lower_char c) \<and> of_char c < (128::nat) \<or> is_digit c \<or> c = CHR ''-'') s"

definition top_label :: "string \<Rightarrow> bool" where
  "top_label s \<longleftrightarrow> 2 \<le> length s \<and> length s \<le> 63 \<and> list_all (\<lambda>c. is_lower_letter (js_lower_char c) \<and> of_char c < (128::nat)) s"

definition domain_name :: "string \<Rightarrow> bool" where
  "domain_name s =
     (let bare = (if s \<noteq> [] \<and> last s = CHR ''.'' then butlast s else s); labels = split_char CHR ''.'' bare
      in 1 \<le> length bare \<and> length bare \<le> 253 \<and> 2 \<le> length labels \<and> list_all label_ok (butlast labels) \<and> top_label (last labels))"

definition is_addressable_host :: "string \<Rightarrow> bool" where
  "is_addressable_host host =
     (let bare = unbracket host in if is_ip bare \<noteq> 0 then True else domain_name bare)"

record parsed_url =
  url_protocol :: string
  url_hostname :: string
  url_username :: string
  url_password :: string

datatype endpoint_problem = Not_https | Private_host | Invalid_host | Invalid_url | Unresolved_host | Private_resolved

definition endpoint_problem :: "parsed_url option \<Rightarrow> bool \<Rightarrow> endpoint_problem option" where
  "endpoint_problem url allow_private =
     (case url of
        None \<Rightarrow> Some Invalid_url
      | Some u \<Rightarrow>
          if url_protocol u \<noteq> ''https:'' \<and> \<not> (allow_private \<and> url_protocol u = ''http:'') then Some Not_https
          else if \<not> allow_private \<and> is_private_address (url_hostname u) then Some Private_host
          else if \<not> allow_private \<and> \<not> is_addressable_host (url_hostname u) then Some Invalid_host
          else if url_username u \<noteq> [] \<or> url_password u \<noteq> [] then Some Invalid_url
          else None)"

text \<open>The lookup answers \<open>None\<close> where it throws.\<close>

definition outbound_problem ::
    "parsed_url option \<Rightarrow> bool \<Rightarrow> (string \<Rightarrow> string list option) \<Rightarrow> endpoint_problem option" where
  "outbound_problem url allow_private lookup =
     (case endpoint_problem url allow_private of
        Some p \<Rightarrow> Some p
      | None \<Rightarrow>
          if allow_private then None
          else
            let hostname = (case url of None \<Rightarrow> [] | Some u \<Rightarrow> unbracket (url_hostname u))
            in if is_ip hostname \<noteq> 0 then None
               else case lookup hostname of
                      None \<Rightarrow> Some Unresolved_host
                    | Some addresses \<Rightarrow>
                        if addresses = [] then Some Unresolved_host
                        else if list_ex is_private_address addresses then Some Private_resolved else None)"

subsection \<open>Capped answers\<close>

fun read_chunks :: "nat \<Rightarrow> nat \<Rightarrow> string \<Rightarrow> string list \<Rightarrow> nat + string" where
  "read_chunks limit n acc [] = Inr acc"
| "read_chunks limit n acc (c # cs) =
     (let size' = n + length c
      in if size' > limit then Inl limit else read_chunks limit size' (acc @ c) cs)"

text \<open>The declared length is \<open>None\<close> where the header is absent or not a finite number; a missing body is \<open>None\<close>.\<close>

definition read_capped_bytes :: "nat \<Rightarrow> nat option \<Rightarrow> string list option \<Rightarrow> nat + string" where
  "read_capped_bytes limit declared body =
     (if (case declared of None \<Rightarrow> False | Some n \<Rightarrow> n > limit) then Inl limit
      else case body of None \<Rightarrow> Inr [] | Some chunks \<Rightarrow> read_chunks limit 0 [] chunks)"

subsection \<open>Retrying\<close>

definition max_attempts :: nat where
  "max_attempts = 5"

definition backoff_minutes :: "int list" where
  "backoff_minutes = [1, 5, 30, 120]"

definition next_attempt_at :: "nat \<Rightarrow> ms \<Rightarrow> ms option" where
  "next_attempt_at attempt t =
     (if attempt \<ge> max_attempts then None
      else Some (t + backoff_minutes ! (min attempt (length backoff_minutes) - 1) * 60000))"

definition pause_after_failures :: nat where
  "pause_after_failures = 3"

interpretation webhook: retry_schedule next_attempt_at max_attempts 7200000
proof
  fix n t
  show "0 < max_attempts" by (simp add: max_attempts_def)
  show "max_attempts \<le> n \<Longrightarrow> next_attempt_at n t = None" by (simp add: next_attempt_at_def)
  assume "1 \<le> n" "n < max_attempts"
  then have "n = 1 \<or> n = 2 \<or> n = 3 \<or> n = 4" by (auto simp: max_attempts_def)
  then show "\<exists>d. next_attempt_at n t = Some (t + d) \<and> 0 < d \<and> d \<le> 7200000"
    by (auto simp: next_attempt_at_def max_attempts_def backoff_minutes_def)
qed

subsection \<open>The secret at rest\<close>

definition seal_secret ::
    "(string \<Rightarrow> string) \<Rightarrow> (string \<Rightarrow> string \<Rightarrow> string \<Rightarrow> string \<times> string) \<Rightarrow> string \<Rightarrow> string \<Rightarrow> string \<Rightarrow> string" where
  "seal_secret b64 encrypt key_bytes iv secret =
     (let (body, tag) = encrypt key_bytes iv secret
      in ''v1.'' @ b64 iv @ ''.'' @ b64 body @ ''.'' @ b64 tag)"

datatype open_error = Unknown_shape | Bad_cipher

definition open_secret ::
    "(string \<Rightarrow> string) \<Rightarrow> (string \<Rightarrow> string \<Rightarrow> string \<Rightarrow> string \<Rightarrow> string option) \<Rightarrow> string \<Rightarrow> string \<Rightarrow> open_error + string" where
  "open_secret unb64 decrypt key_bytes sealed =
     (case split_char CHR ''.'' sealed of
        version # iv # body # tag # _ \<Rightarrow>
          if version \<noteq> ''v1'' \<or> iv = [] \<or> body = [] \<or> tag = [] then Inl Unknown_shape
          else (case decrypt key_bytes (unb64 iv) (unb64 body) (unb64 tag) of
                  None \<Rightarrow> Inl Bad_cipher | Some s \<Rightarrow> Inr s)
      | _ \<Rightarrow> Inl Unknown_shape)"

subsection \<open>Lemmas\<close>

lemmas host_eval = is_private_address.simps bare_host_def unbracket_def plainly_private_def mapped_v4_def is_ip_def
  is_ipv4_def is_ipv6_def ipv4_octets_def octet_def v6_groups_def v6_group_def no_quad_def private_v4_def
  private_octets_def local_name_def hex_digit_def js_lower_def js_lower_char_def is_digit_def ends_with_def
  starts_with_def is_addressable_host_def domain_name_def label_ok_def top_label_def is_lower_letter_def
  endpoint_problem_def

lemma find_v1_skip: "CHR ''v'' \<notin> set s \<Longrightarrow> find_v1 (s @ t) = find_v1 t"
  by (induction s) (auto simp: starts_with_def)

lemma find_v1_here: "length s = 64 \<Longrightarrow> list_all hex_digit s \<Longrightarrow> find_v1 (''v1='' @ s) = Some s"
  by (simp add: starts_with_def)

lemma find_v1_own:
  assumes "CHR ''v'' \<notin> set kid" "length s = 64" "list_all hex_digit s"
  shows "find_v1 (''kid='' @ kid @ '', v1='' @ s) = Some s"
proof -
  have "''kid='' @ kid @ '', v1='' @ s = (''kid='' @ kid @ '', '') @ (''v1='' @ s)" by simp
  then have "find_v1 (''kid='' @ kid @ '', v1='' @ s) = find_v1 (''v1='' @ s)"
    using find_v1_skip [of "''kid='' @ kid @ '', ''" "''v1='' @ s"] assms(1) by simp
  with find_v1_here [OF assms(2,3)] show ?thesis by simp
qed

lemma find_v1_Some: "find_v1 header = Some s \<Longrightarrow> \<exists>before after. header = before @ ''v1='' @ s @ after"
proof (induction header)
  case (Cons c cs)
  show ?case
  proof (cases "starts_with ''v1='' (c # cs) \<and> length (take 64 (drop 2 cs)) = 64 \<and> list_all hex_digit (take 64 (drop 2 cs))")
    case True
    then have "c # cs = [] @ ''v1='' @ s @ drop 64 (drop 2 cs)"
      using Cons.prems by (auto simp: starts_with_iff)
    then show ?thesis by blast
  next
    case False
    with Cons.prems have "find_v1 cs = Some s" by (auto split: if_splits)
    from Cons.IH [OF this] obtain before after where "cs = before @ ''v1='' @ s @ after" by blast
    then have "c # cs = (c # before) @ ''v1='' @ s @ after" by simp
    then show ?thesis by blast
  qed
qed simp

lemma read_chunks_spec:
  "read_chunks limit (length acc) acc cs =
     (if length acc + length (concat cs) \<le> limit \<or> cs = [] then Inr (acc @ concat cs) else Inl limit)"
proof (induction cs arbitrary: acc)
  case (Cons c cs)
  from Cons.IH [of "acc @ c"] show ?case by (auto simp: Let_def)
qed simp

lemma split_char_dot: "CHR ''.'' \<notin> set x \<Longrightarrow> split_char CHR ''.'' (x @ CHR ''.'' # s) = x # split_char CHR ''.'' s"
  by (induction x) auto

lemma split_char_no_dot: "CHR ''.'' \<notin> set x \<Longrightarrow> split_char CHR ''.'' x = [x]"
  by (induction x) auto

subsection \<open>Properties\<close>

text \<open>The signature header verifies exactly when it should: the header the sender writes is accepted exactly
  within the allowed skew, and any header a receiver accepts carries the keyed hash of that very secret,
  timestamp and body, whatever else it holds.\<close>

theorem signature_verifies:
  assumes "\<And>k t. length (mac k t) = 64 \<and> list_all hex_digit (mac k t)" "CHR ''v'' \<notin> set kid" "to_num timestamp = Some ts"
  shows "(verify_signature mac to_num (signature_header mac kid secret timestamp body) secret timestamp body now skew
      \<longleftrightarrow> \<bar>of_int now / 1000 - ts\<bar> \<le> of_int skew) \<and>
    (\<forall>header. verify_signature mac to_num header secret timestamp body now skew \<longrightarrow>
       (\<exists>before after. header = before @ ''v1='' @ mac secret (timestamp @ ''.'' @ body) @ after) \<and>
       \<bar>of_int now / 1000 - ts\<bar> \<le> of_int skew)"
proof -
  have "find_v1 (signature_header mac kid secret timestamp body) = Some (sign mac secret timestamp body)"
    unfolding signature_header_def using assms(1,2) by (intro find_v1_own) (simp_all add: sign_def)
  moreover have "\<exists>before after. header = before @ ''v1='' @ mac secret (timestamp @ ''.'' @ body) @ after"
    if "find_v1 header = Some (sign mac secret timestamp body)" for header
    using find_v1_Some [OF that] by (simp add: sign_def)
  ultimately show ?thesis
    using assms(3) by (auto simp: verify_signature_def split: option.splits)
qed

theorem signature_verifies_witness:
  "verify_signature (\<lambda>k t. replicate 64 CHR ''a'') (\<lambda>s. Some 100) (signature_header (\<lambda>k t. replicate 64 CHR ''a'') ''k1'' ''s'' ''100'' ''b'')
     ''s'' ''100'' ''b'' 200000 300"
  using signature_verifies [of "\<lambda>k t. replicate 64 CHR ''a''" "''k1''" "\<lambda>s. Some 100" "''100''" 100 "''s''" "''b''" 200000 300]
  by (simp add: hex_digit_def list_all_iff)

text \<open>The delivery guard: a destination it lets through is HTTPS without credentials, is not a local name or a
  private literal the address test recognises, and, when it is a name, resolves to at least one address
  and to none the test recognises as private, whatever the lookup answers.\<close>

theorem outbound_guard:
  assumes "outbound_problem (Some u) False lookup = None"
  shows "url_protocol u = ''https:'' \<and> url_username u = [] \<and> url_password u = [] \<and>
    \<not> local_name (bare_host (url_hostname u)) \<and> \<not> private_v4 (bare_host (url_hostname u)) \<and>
    is_addressable_host (url_hostname u) \<and>
    (is_ip (unbracket (url_hostname u)) = 0 \<longrightarrow>
       (\<exists>addresses. lookup (unbracket (url_hostname u)) = Some addresses \<and> addresses \<noteq> [] \<and>
          (\<forall>a\<in>set addresses. \<not> is_private_address a)))"
proof -
  have e: "endpoint_problem (Some u) False = None"
    using assms by (auto simp: outbound_problem_def split: option.splits)
  then have "\<not> is_private_address (url_hostname u)"
    by (auto simp: endpoint_problem_def split: if_splits)
  then have "\<not> plainly_private (bare_host (url_hostname u))"
    by (simp add: is_private_address.simps split: if_splits)
  then have "\<not> local_name (bare_host (url_hostname u)) \<and> \<not> private_v4 (bare_host (url_hostname u))"
    by (auto simp: plainly_private_def is_ip_def is_ipv4_def private_v4_def split: if_splits option.splits)
  then show ?thesis
    using assms e
    by (auto simp: outbound_problem_def endpoint_problem_def Let_def list_ex_iff split: if_splits option.splits)
qed

theorem outbound_guard_witness:
  "is_addressable_host ''hooks.example.com'' \<and> \<not> local_name (bare_host ''hooks.example.com'')"
proof -
  have "outbound_problem (Some \<lparr>url_protocol = ''https:'', url_hostname = ''hooks.example.com'', url_username = [],
      url_password = []\<rparr>) False (\<lambda>h. Some [''93.184.216.34'']) = None"
    by (simp add: host_eval outbound_problem_def)
  from outbound_guard [OF this] show ?thesis by simp
qed

text \<open>The guard has a hole: the loopback address in the IPv4-mapped form a URL parser writes it in
  (\<open>https://[::ffff:7f00:1]/\<close> is what \<open>[::ffff:127.0.0.1]\<close> parses to) passes registration and delivery,
  although the plain address and the dotted mapped form are refused.\<close>

theorem mapped_loopback_passes:
  "outbound_problem (Some \<lparr>url_protocol = ''https:'', url_hostname = ''[::ffff:7f00:1]'', url_username = [], url_password = []\<rparr>)
      False lookup = None \<and>
   endpoint_problem (Some \<lparr>url_protocol = ''https:'', url_hostname = ''127.0.0.1'', url_username = [], url_password = []\<rparr>) False
      = Some Private_host \<and>
   is_private_address ''::ffff:127.0.0.1''"
proof -
  have e: "endpoint_problem (Some \<lparr>url_protocol = ''https:'', url_hostname = ''[::ffff:7f00:1]'', url_username = [], url_password = []\<rparr>) False = None"
      "is_ip (unbracket ''[::ffff:7f00:1]'') = 6"
      "endpoint_problem (Some \<lparr>url_protocol = ''https:'', url_hostname = ''127.0.0.1'', url_username = [], url_password = []\<rparr>) False
        = Some Private_host"
      "is_private_address ''::ffff:127.0.0.1''"
    by (simp_all add: host_eval)
  from e(1,2) have "outbound_problem (Some \<lparr>url_protocol = ''https:'', url_hostname = ''[::ffff:7f00:1]'', url_username = [], url_password = []\<rparr>)
      False lookup = None"
    by (simp add: outbound_problem_def Let_def)
  with e(3,4) show ?thesis by blast
qed

text \<open>An answer is read within its cap: what is read is the whole body exactly when neither the declared length
  nor the body exceeds the limit, and is refused otherwise; no more than the limit is ever returned.\<close>

theorem capped_reading:
  "read_capped_bytes limit declared (Some chunks) =
     (if (\<exists>n. declared = Some n \<and> n > limit) \<or> length (concat chunks) > limit then Inl limit else Inr (concat chunks))"
proof -
  from read_chunks_spec [of limit "[]" chunks]
  have "read_chunks limit 0 [] chunks = (if length (concat chunks) \<le> limit then Inr (concat chunks) else Inl limit)"
    by (cases chunks) simp_all
  then show ?thesis by (auto simp: read_capped_bytes_def split: option.splits)
qed

text \<open>A sealed signing secret opens to itself under the same key, for any cipher that decrypts what it
  encrypted and any coding that decodes what it encoded and whose output is neither empty nor holds a dot.\<close>

theorem sealed_secret_opens:
  assumes "\<And>x. unb64 (b64 x) = x" "\<And>x. CHR ''.'' \<notin> set (b64 x)" "\<And>x. x \<noteq> [] \<Longrightarrow> b64 x \<noteq> []"
    and "\<And>k iv s body tag. encrypt k iv s = (body, tag) \<Longrightarrow> decrypt k iv body tag = Some s \<and> tag \<noteq> [] \<and> (s \<noteq> [] \<longrightarrow> body \<noteq> [])"
    and "iv \<noteq> []" "secret \<noteq> []"
  shows "open_secret unb64 decrypt key (seal_secret b64 encrypt key iv secret) = Inr secret"
proof -
  obtain body tag where e: "encrypt key iv secret = (body, tag)" by (cases "encrypt key iv secret")
  have "split_char CHR ''.'' (seal_secret b64 encrypt key iv secret) = [''v1'', b64 iv, b64 body, b64 tag]"
    using split_char_dot [of "''v1''"] split_char_dot [OF assms(2)] split_char_no_dot [OF assms(2)]
    by (simp add: seal_secret_def e)
  then show ?thesis
    using assms(4) [OF e] assms(1,3,5,6) by (simp add: open_secret_def)
qed

fun escape_dots :: "string \<Rightarrow> string" where
  "escape_dots [] = []"
| "escape_dots (c # cs) =
     (if c = CHR ''.'' then ''_d'' else if c = CHR ''_'' then ''_u'' else [c]) @ escape_dots cs"

fun unescape_dots :: "string \<Rightarrow> string" where
  "unescape_dots (c # d # cs) =
     (if c = CHR ''_'' then (if d = CHR ''d'' then CHR ''.'' else CHR ''_'') # unescape_dots cs
      else c # unescape_dots (d # cs))"
| "unescape_dots cs = cs"

lemma unescape_plain: "c \<noteq> CHR ''_'' \<Longrightarrow> unescape_dots (c # cs) = c # unescape_dots cs"
  by (cases cs) simp_all

lemma unescape_escape: "unescape_dots (escape_dots s) = s"
  by (induction s) (simp_all add: unescape_plain)

lemma escape_dots_free: "CHR ''.'' \<notin> set (escape_dots s)"
  by (induction s) auto

lemma escape_dots_ne: "s \<noteq> [] \<Longrightarrow> escape_dots s \<noteq> []"
  by (cases s) auto

theorem sealed_secret_opens_witness:
  "open_secret unescape_dots (\<lambda>k iv body tag. Some body) ''k''
     (seal_secret escape_dots (\<lambda>k iv s. (s, ''tag'')) ''k'' ''iv'' ''s.1'') = Inr ''s.1''"
  by (rule sealed_secret_opens) (auto simp: unescape_escape escape_dots_free escape_dots_ne)

end
