(* ===== verification/Permissions.thy ===== *)
theory Permissions
  imports Graph_Walk
begin

section \<open>The permission catalog\<close>

text \<open>
  \<open>contracts/permissions.ts\<close>: the two catalogs of permission keys, the implications between them, the
  loop of \<open>expandPermissions\<close> that closes a list of granted keys under the implications, and the system
  roles seeded at bootstrap. Keys are strings, as in the source; the labels of the catalogs are text for
  the screens and are left out. The loop is the worklist walk of \<open>Graph_Walk\<close> with one difference (it
  does not push a key it has already collected), which is shown to make none to the result.
\<close>

definition operator_permissions :: "string list" where
  "operator_permissions =
     [''tickets:view'', ''tickets:create'', ''tickets:work'', ''tickets:resolve'', ''tickets:override-priority'',
      ''tickets:approve-scope'', ''tickets:override-change-window'', ''time:log'', ''time:adjust'', ''time:lock-period'',
      ''contracts:view'', ''contracts:manage'', ''finance:view-margin'', ''finance:manage-cost'', ''capacity:view'',
      ''capacity:manage'', ''reports:view-portfolio'', ''reports:manage'', ''kb:author'', ''kb:publish'', ''ai:use'',
      ''ai:configure'', ''audit:read'', ''audit:export'', ''analytics:read'', ''analytics:read-individual'',
      ''admin:accounts'', ''admin:users'', ''admin:config'', ''admin:connectors'', ''admin:migration'',
      ''webhooks:manage'', ''exports:read'', ''admin:api-clients'']"

definition portal_permissions :: "string list" where
  "portal_permissions =
     [''portal:submit'', ''portal:view-org-tickets'', ''portal:comment'', ''portal:view-consumption'',
      ''portal:manage-users'', ''portal:kb'']"

datatype permission_catalog = Operator_catalog | Portal_catalog

definition permission_implications :: "string list js_map" where
  "permission_implications =
     [(''tickets:create'', [''tickets:view'']),
      (''tickets:work'', [''tickets:view'', ''tickets:create'']),
      (''tickets:resolve'', [''tickets:work'']),
      (''tickets:override-priority'', [''tickets:work'']),
      (''tickets:approve-scope'', [''tickets:work'']),
      (''tickets:override-change-window'', [''tickets:work'']),
      (''time:adjust'', [''time:log'']),
      (''time:lock-period'', [''time:adjust'']),
      (''capacity:manage'', [''capacity:view'']),
      (''contracts:view'', [''tickets:view'']),
      (''contracts:manage'', [''contracts:view'']),
      (''finance:view-margin'', [''contracts:view'']),
      (''finance:manage-cost'', [''finance:view-margin'']),
      (''reports:manage'', [''reports:view-portfolio'']),
      (''kb:publish'', [''kb:author'']),
      (''ai:configure'', [''ai:use'']),
      (''audit:export'', [''audit:read'']),
      (''analytics:read-individual'', [''analytics:read'']),
      (''admin:users'', [''admin:api-clients'']),
      (''admin:api-clients'', [''webhooks:manage'', ''exports:read'']),
      (''portal:view-org-tickets'', [''portal:submit'']),
      (''portal:comment'', [''portal:submit'']),
      (''portal:manage-users'', [''portal:view-org-tickets''])]"

definition all_permissions :: "string list" where
  "all_permissions = operator_permissions @ portal_permissions"

definition is_permission :: "string \<Rightarrow> bool" where
  "is_permission k \<longleftrightarrow> k \<in> set all_permissions"

definition catalog_of :: "string \<Rightarrow> permission_catalog" where
  "catalog_of k = (if k \<in> set portal_permissions then Portal_catalog else Operator_catalog)"

definition implied_by :: "string \<Rightarrow> string list" where
  "implied_by k = (case map_of permission_implications k of None \<Rightarrow> [] | Some ks \<Rightarrow> ks)"

text \<open>A row of the catalog for the screens, without its label: the key and what it implies.\<close>

definition describe_catalog :: "permission_catalog \<Rightarrow> (string \<times> string list) list" where
  "describe_catalog c = map (\<lambda>k. (k, implied_by k))
     (case c of Portal_catalog \<Rightarrow> portal_permissions | Operator_catalog \<Rightarrow> operator_permissions)"

subsection \<open>The closure loop\<close>

text \<open>The edges of the implications, for the walk the loop is compared with.\<close>

definition implication_edges :: "(string \<times> string) list" where
  "implication_edges = concat (map (\<lambda>(k, ks). map (Pair k) ks) permission_implications)"

lemma succs_concat_edges:
  "distinct (map fst m) \<Longrightarrow>
     succs (concat (map (\<lambda>(k, ks). map (Pair k) ks) m)) c = (case map_of m c of None \<Rightarrow> [] | Some ks \<Rightarrow> ks)"
proof (induction m)
  case (Cons e m)
  obtain k ks where e: "e = (k, ks)" by (cases e)
  have *: "filter (\<lambda>e. fst e = c) (map (Pair k) ks) = (if k = c then map (Pair k) ks else [])"
    by (induction ks) auto
  have none: "map_of m k = None" using Cons.prems e by (simp add: map_of_eq_None_iff)
  from Cons e show ?case
    by (auto simp: succs_def * none comp_def split: option.splits)
qed (simp add: succs_def)

lemma implied_by_succs: "implied_by c = succs implication_edges c"
proof -
  have "distinct (map fst permission_implications)" by code_simp
  from succs_concat_edges [OF this] show ?thesis by (simp add: implied_by_def implication_edges_def)
qed

text \<open>The loop: the head of the list is the top of the stack.\<close>

function expand_loop :: "string list \<Rightarrow> string list \<Rightarrow> string list" where
  "expand_loop [] result = result"
| "expand_loop (current # stack) result =
     (if current \<in> set result then expand_loop stack result
      else expand_loop (rev (filter (\<lambda>p. p \<notin> set (result @ [current])) (implied_by current)) @ stack) (result @ [current]))"
  by pat_completeness auto
termination
proof (relation "measures [\<lambda>(stack, result). card (pending implication_edges stack result), \<lambda>(stack, result). length stack]")
  fix current stack and result :: "string list"
  have "card (pending implication_edges stack result) \<le> card (pending implication_edges (current # stack) result)"
    by (intro card_mono pending_pop) simp
  then show "((stack, result), current # stack, result)
      \<in> measures [\<lambda>(stack, result). card (pending implication_edges stack result), \<lambda>(stack, result). length stack]"
    by auto
  let ?pushed = "rev (filter (\<lambda>p. p \<notin> set (result @ [current])) (implied_by current)) @ stack"
  have "pending implication_edges ?pushed (result @ [current])
      \<subseteq> pending implication_edges (rev (succs implication_edges current) @ stack) (result @ [current])"
    by (auto simp: pending_def implied_by_succs)
  note subset = this
  assume "current \<notin> set result"
  note subset_psubset_trans [OF subset pending_visit [OF this]]
  then have "card (pending implication_edges ?pushed (result @ [current])) < card (pending implication_edges (current # stack) result)"
    by (intro psubset_card_mono) simp_all
  then show "((?pushed, result @ [current]), current # stack, result)
      \<in> measures [\<lambda>(stack, result). card (pending implication_edges stack result), \<lambda>(stack, result). length stack]"
    by simp
qed simp

definition expand_permissions :: "string list \<Rightarrow> string list" where
  "expand_permissions granted = expand_loop (rev (filter is_permission granted)) []"

text \<open>What is already collected may be left off the stack of the walk.\<close>

lemma walk_filter_seen: "walk es (filter (\<lambda>c. c \<notin> set seen) stack) seen = walk es stack seen"
proof (induction "card (pending es stack seen)" arbitrary: stack seen rule: less_induct)
  case less
  note more = less
  have drop: "walk es s seen = walk es (dropWhile (\<lambda>c. c \<in> set seen) s) seen" for s
    by (induction s) auto
  show ?case
  proof (cases "dropWhile (\<lambda>c. c \<in> set seen) stack")
    case Nil
    then have "filter (\<lambda>c. c \<notin> set seen) stack = []" by (simp add: dropWhile_eq_Nil_conv filter_empty_conv)
    moreover have "walk es stack seen = seen" using drop [of stack] Nil by simp
    ultimately show ?thesis by (simp only: walk.simps)
  next
    case (Cons c rest)
    then have c: "c \<notin> set seen" by (metis hd_dropWhile list.discI list.sel(1))
    have stack: "stack = takeWhile (\<lambda>c. c \<in> set seen) stack @ c # rest"
      using Cons by (metis takeWhile_dropWhile_id)
    then have f: "filter (\<lambda>c. c \<notin> set seen) stack = c # filter (\<lambda>c. c \<notin> set seen) rest"
      using c by (metis (no_types, lifting) append_Nil filter.simps(2) filter_append filter_False set_takeWhileD)
    have less: "card (pending es (rev (succs es c) @ s) (seen @ [c])) < card (pending es stack seen)"
      if "set s \<subseteq> set stack" "c \<in> set stack" for s
      using that c psubset_card_mono [OF _ pending_visit [OF c, of es s]] card_mono [of "pending es stack seen" "pending es (c # s) seen"]
      by (fastforce simp: pending_def)
    let ?kept = "filter (\<lambda>d. d \<notin> set (seen @ [c]))"
    have in_stack: "c \<in> set stack" "set rest \<subseteq> set stack" by (subst stack, auto)+
    have "?kept (rev (succs es c) @ filter (\<lambda>c. c \<notin> set seen) rest) = ?kept (rev (succs es c) @ rest)"
      by (simp add: conj_commute cong: conj_cong)
    moreover have "walk es (?kept (rev (succs es c) @ s)) (seen @ [c]) = walk es (rev (succs es c) @ s) (seen @ [c])"
      if "set s \<subseteq> set stack" for s
      using more [OF less [OF that in_stack(1)]] .
    ultimately have "walk es (rev (succs es c) @ filter (\<lambda>c. c \<notin> set seen) rest) (seen @ [c]) = walk es (rev (succs es c) @ rest) (seen @ [c])"
      using in_stack(2) by (metis (no_types, lifting) filter_is_subset order_trans)
    with c f Cons drop [of stack] show ?thesis by simp
  qed
qed

lemma expand_loop_walk: "expand_loop stack result = walk implication_edges stack result"
proof (induction stack result rule: expand_loop.induct)
  case (2 c stack result)
  let ?seen = "result @ [c]"
  let ?keep = "filter (\<lambda>p. p \<notin> set ?seen)"
  show ?case
  proof (cases "c \<in> set result")
    case False
    have "walk implication_edges (rev (?keep (implied_by c)) @ stack) ?seen
        = walk implication_edges (?keep (rev (?keep (implied_by c)) @ stack)) ?seen"
      by (simp only: walk_filter_seen)
    also have "?keep (rev (?keep (implied_by c)) @ stack) = ?keep (rev (succs implication_edges c) @ stack)"
      by (simp add: implied_by_succs rev_filter)
    also have "walk implication_edges (?keep (rev (succs implication_edges c) @ stack)) ?seen
        = walk implication_edges (rev (succs implication_edges c) @ stack) ?seen"
      by (simp only: walk_filter_seen)
    finally show ?thesis using False 2 by simp
  qed (use 2 in simp)
qed simp

text \<open>The closure is the set of keys reachable from the granted ones, and never leaves the catalog.\<close>

lemma set_expand_permissions:
  "set (expand_permissions granted) = (set implication_edges)\<^sup>* `` {k \<in> set granted. is_permission k}"
  by (simp add: expand_permissions_def expand_loop_walk set_walk)

lemma expand_mono: "set xs \<subseteq> set ys \<Longrightarrow> set (expand_permissions xs) \<subseteq> set (expand_permissions ys)"
  by (auto simp: set_expand_permissions)

lemma implications_in_catalog: "(k, p) \<in> set implication_edges \<Longrightarrow> is_permission k \<and> is_permission p \<and> catalog_of k = catalog_of p"
proof -
  have "list_all (\<lambda>(k, p). is_permission k \<and> is_permission p \<and> catalog_of k = catalog_of p) implication_edges" by code_simp
  then show "(k, p) \<in> set implication_edges \<Longrightarrow> is_permission k \<and> is_permission p \<and> catalog_of k = catalog_of p"
    by (auto simp: list_all_iff)
qed

lemma closure_in_catalog:
  "(k, p) \<in> (set implication_edges)\<^sup>* \<Longrightarrow> is_permission k \<Longrightarrow> is_permission p \<and> catalog_of p = catalog_of k"
  by (induction rule: rtrancl_induct) (auto dest: implications_in_catalog)

subsection \<open>The system roles\<close>

definition system_roles :: "permission_catalog \<Rightarrow> string list js_map" where
  "system_roles c = (case c of
     Operator_catalog \<Rightarrow>
       [(''Administrator'', [''tickets:resolve'', ''tickets:override-priority'', ''tickets:approve-scope'',
           ''tickets:override-change-window'', ''time:lock-period'', ''contracts:manage'', ''capacity:manage'',
           ''reports:manage'', ''kb:publish'', ''ai:configure'', ''audit:export'', ''analytics:read-individual'',
           ''admin:accounts'', ''admin:users'', ''admin:config'', ''admin:connectors'', ''admin:migration'',
           ''finance:manage-cost'']),
        (''Consultant'', [''tickets:resolve'', ''time:log'', ''kb:author'', ''ai:use'']),
        (''Dispatcher'', [''tickets:work'', ''tickets:override-priority'', ''reports:view-portfolio'', ''capacity:view'', ''ai:use'']),
        (''Account Owner'', [''tickets:resolve'', ''tickets:override-priority'', ''tickets:approve-scope'',
           ''tickets:override-change-window'', ''time:adjust'', ''contracts:manage'', ''reports:manage'', ''kb:publish'',
           ''capacity:view'', ''ai:use'', ''analytics:read'']),
        (''Finance'', [''time:lock-period'', ''contracts:manage'', ''reports:view-portfolio'', ''capacity:view'', ''finance:manage-cost''])]
   | Portal_catalog \<Rightarrow>
       [(''Requester'', [''portal:submit'', ''portal:kb'']),
        (''Account Admin'', [''portal:manage-users'', ''portal:comment'', ''portal:view-consumption'', ''portal:kb'']),
        (''Read Only'', [''portal:view-org-tickets'', ''portal:kb''])])"

subsection \<open>Properties\<close>

text \<open>C34: The closure is exact, and the seeded roles are what they are meant to be: a key is in the closure exactly when a
  granted key of the catalog implies it in any number of steps; keys outside the catalog are dropped and no
  implication leads from one catalog into the other; the administrator's closure is the whole operator
  catalog, and no other operator role reaches the administration of accounts, users or configuration.\<close>

theorem permission_closure_exact:
  "(p \<in> set (expand_permissions granted) \<longleftrightarrow>
      (\<exists>k\<in>set granted. is_permission k \<and> (k, p) \<in> (set implication_edges)\<^sup>*)) \<and>
   distinct (expand_permissions granted) \<and>
   set (expand_permissions (expand_permissions granted)) = set (expand_permissions granted) \<and>
   (p \<in> set (expand_permissions granted) \<longrightarrow> is_permission p \<and> (\<exists>k\<in>set granted. is_permission k \<and> catalog_of k = catalog_of p)) \<and>
   (\<forall>role ks. map_of (system_roles Operator_catalog) role = Some ks \<longrightarrow>
      (role = ''Administrator'' \<longrightarrow> set (expand_permissions ks) = set operator_permissions) \<and>
      (role \<noteq> ''Administrator'' \<longrightarrow> set (expand_permissions ks) \<inter> {''admin:accounts'', ''admin:users'', ''admin:config''} = {}))"
proof -
  have "(set implication_edges)\<^sup>* `` {k \<in> set (expand_permissions granted). is_permission k} = set (expand_permissions granted)"
    by (auto simp: set_expand_permissions dest: rtrancl_trans closure_in_catalog)
  then have idem: "set (expand_permissions (expand_permissions granted)) = set (expand_permissions granted)"
    by (simp add: set_expand_permissions [of "expand_permissions granted"])
  have "list_all (\<lambda>(role, ks). if role = ''Administrator'' then set (expand_permissions ks) = set operator_permissions
      else list_all (\<lambda>k. k \<notin> set (expand_permissions ks)) [''admin:accounts'', ''admin:users'', ''admin:config'']) (system_roles Operator_catalog)"
    by code_simp
  then have roles: "map_of (system_roles Operator_catalog) role = Some ks \<Longrightarrow>
      (role = ''Administrator'' \<longrightarrow> set (expand_permissions ks) = set operator_permissions) \<and>
      (role \<noteq> ''Administrator'' \<longrightarrow> set (expand_permissions ks) \<inter> {''admin:accounts'', ''admin:users'', ''admin:config''} = {})" for role ks
    by (fastforce simp: list_all_iff dest!: map_of_SomeD)
  have "distinct (expand_permissions granted)"
    by (simp add: expand_permissions_def expand_loop_walk walk_distinct)
  moreover have "p \<in> set (expand_permissions granted) \<longleftrightarrow> (\<exists>k\<in>set granted. is_permission k \<and> (k, p) \<in> (set implication_edges)\<^sup>*)"
    by (auto simp: set_expand_permissions)
  moreover from this have "p \<in> set (expand_permissions granted) \<longrightarrow>
      is_permission p \<and> (\<exists>k\<in>set granted. is_permission k \<and> catalog_of k = catalog_of p)"
    by (metis closure_in_catalog)
  ultimately show ?thesis using idem roles by blast
qed

theorem permission_closure_exact_witness:
  "set (expand_permissions [''kb:publish'', ''nonsense'']) = {''kb:publish'', ''kb:author''} \<and>
   distinct (expand_permissions [''kb:publish'', ''nonsense''])"
proof -
  have "expand_permissions [''kb:publish'', ''nonsense''] = [''kb:publish'', ''kb:author'']" by code_simp
  then show ?thesis using permission_closure_exact [of "''kb:author''" "[''kb:publish'', ''nonsense'']"] by simp
qed

end
