(* ===== verification/Access.thy ===== *)
theory Access
  imports Permissions Json_Value
begin

section \<open>The guard\<close>

text \<open>
  The one guard every request passes (\<open>common/auth/auth.guard.ts\<close>), with what it is made of: the token
  verifiers (\<open>token-verifier.ts\<close>), the reads and writes of the operator tables
  (\<open>principal.repository.ts\<close>), the principal and the database binding derived from it (\<open>principal.ts\<close>),
  the startup check of the route table (\<open>route-table.ts\<close>) and the rule on the last administrator
  (\<open>domain/identity/last-admin.ts\<close>).

  The state is what the guard reads and writes: the operator tables, the map of seen sessions in
  insertion order, and the security events in the order they are written. A handler returns its outcome
  (an error as the thrown exception, or a principal) with the state, since an event written before a
  throw stays written. The third-party \<open>jose\<close> and \<open>bcryptjs\<close> packages and the hash of \<open>node:crypto\<close> are
  parameters in the record \<open>guard_config\<close>. The request id, the IP hash and the user agent, which the
  events carry along, are left out.
\<close>

subsection \<open>The operator tables\<close>

datatype user_kind = Internal_kind | Portal_kind | Service_kind

datatype user_status = Invited | Active_user | Deactivated

record user_row =
  ur_id :: string
  ur_kind :: user_kind
  ur_account :: "string option"
  ur_email :: string
  ur_first :: string
  ur_last :: string
  ur_status :: user_status
  ur_clerk :: "string option"
  ur_signed_in :: "ms option"

record account_row =
  ac_id :: string
  ac_key :: string
  ac_status :: string

record role_row =
  ro_id :: string
  ro_permissions :: "string list"
  ro_active :: bool
  ro_catalog :: permission_catalog

record role_assignment =
  ra_user :: string
  ra_role :: string
  ra_account :: "string option"

record api_client_row =
  ak_id :: string
  ak_name :: string
  ak_user :: string
  ak_lookup :: string
  ak_secret :: string
  ak_scopes :: "string list"
  ak_expires :: "ms option"
  ak_active :: bool
  ak_rate :: int
  ak_used :: "ms option"

record directory =
  di_users :: "user_row list"
  di_accounts :: "account_row list"
  di_grants :: "(string \<times> string) list"
  di_roles :: "role_row list"
  di_assignments :: "role_assignment list"
  di_clients :: "api_client_row list"
  di_client_grants :: "(string \<times> string) list"

definition global_account_id :: string where
  "global_account_id = ''00000000-0000-4000-8000-000000000001''"

definition api_key_prefix :: string where
  "api_key_prefix = ''xms_live_''"

definition user_by_clerk :: "directory \<Rightarrow> string \<Rightarrow> user_row option" where
  "user_by_clerk d subject = find (\<lambda>u. ur_clerk u = Some subject) (di_users d)"

definition user_by_email :: "directory \<Rightarrow> string \<Rightarrow> user_row option" where
  "user_by_email d email = find (\<lambda>u. ur_email u = email) (di_users d)"

definition user_by_id :: "directory \<Rightarrow> string \<Rightarrow> user_row option" where
  "user_by_id d i = find (\<lambda>u. ur_id u = i) (di_users d)"

definition account_key :: "directory \<Rightarrow> string \<Rightarrow> string option" where
  "account_key d i = map_option ac_key (find (\<lambda>a. ac_id a = i) (di_accounts d))"

text \<open>The update binds a row that has no subject yet.\<close>

definition attach_clerk_id :: "string \<Rightarrow> string \<Rightarrow> ms \<Rightarrow> directory \<Rightarrow> directory" where
  "attach_clerk_id i subject now d = d\<lparr>di_users := map (\<lambda>u.
     if ur_id u = i \<and> ur_clerk u = None
     then u\<lparr>ur_clerk := Some subject, ur_status := if ur_status u = Invited then Active_user else ur_status u, ur_signed_in := Some now\<rparr>
     else u) (di_users d)\<rparr>"

definition touch_sign_in :: "string \<Rightarrow> ms \<Rightarrow> directory \<Rightarrow> directory" where
  "touch_sign_in i now d = d\<lparr>di_users := map (\<lambda>u. if ur_id u = i then u\<lparr>ur_signed_in := Some now\<rparr> else u) (di_users d)\<rparr>"

definition touch_api_client :: "string \<Rightarrow> ms \<Rightarrow> directory \<Rightarrow> directory" where
  "touch_api_client i now d = d\<lparr>di_clients := map (\<lambda>c. if ak_id c = i then c\<lparr>ak_used := Some now\<rparr> else c) (di_clients d)\<rparr>"

subsection \<open>Grants and permissions of a user\<close>

definition accounts_in :: "string list \<Rightarrow> directory \<Rightarrow> string list" where
  "accounts_in statuses d = map ac_id (filter (\<lambda>a. ac_status a \<in> set statuses) (di_accounts d))"

text \<open>The join of the grants of a user with the live accounts, one row per pair.\<close>

definition granted_accounts :: "directory \<Rightarrow> user_row \<Rightarrow> string list" where
  "granted_accounts d u = (if ur_kind u = Portal_kind
     then (case ur_account u of None \<Rightarrow> [] | Some a \<Rightarrow> if a = [] then [] else [a])
     else concat (map (\<lambda>g. filter (\<lambda>a. a = snd g) (accounts_in [''onboarding'', ''active''] d))
            (filter (\<lambda>g. fst g = ur_id u) (di_grants d))))"

definition granted_roles :: "directory \<Rightarrow> user_row \<Rightarrow> (string list \<times> string option) list" where
  "granted_roles d u = concat (map (\<lambda>ra. map (\<lambda>r. (ro_permissions r, ra_account ra))
       (filter (\<lambda>r. ro_id r = ra_role ra \<and> ro_active r \<and>
          ro_catalog r = (if ur_kind u = Portal_kind then Portal_catalog else Operator_catalog)) (di_roles d)))
     (filter (\<lambda>ra. ra_user ra = ur_id u) (di_assignments d)))"

definition is_administrator :: "directory \<Rightarrow> user_row \<Rightarrow> bool" where
  "is_administrator d u \<longleftrightarrow> ''admin:accounts'' \<in>
     set (expand_permissions (concat (map (\<lambda>(ks, scope). if scope = None then ks else []) (granted_roles d u))))"

definition resolve_access :: "directory \<Rightarrow> user_row \<Rightarrow> string list \<times> string list" where
  "resolve_access d u =
     (let account_ids = granted_accounts d u;
          bound = if is_administrator d u then accounts_in [''onboarding'', ''active'', ''suspended'', ''offboarding''] d else account_ids;
          keys = concat (map (\<lambda>(ks, scope). case scope of None \<Rightarrow> ks | Some a \<Rightarrow> if a \<in> set account_ids then ks else [])
                   (granted_roles d u));
          with_global = if ur_kind u = Internal_kind \<and> global_account_id \<notin> set bound then bound @ [global_account_id] else bound
      in (with_global, expand_permissions keys))"

subsection \<open>Verifying a token\<close>

datatype token_type = Clerk | Clerk_agents | Harness_token | Dev_token | Api_key_token

fun token_type_text :: "token_type \<Rightarrow> string" where
  "token_type_text Clerk = ''clerk''"
| "token_type_text Clerk_agents = ''clerk_agents''"
| "token_type_text Harness_token = ''harness''"
| "token_type_text Dev_token = ''dev''"
| "token_type_text Api_key_token = ''api_key''"

datatype token_reason = Garbage | Expired | Bad_issuer | Bad_audience | Bad_signature | Bad_party | Bad_type

fun token_reason_text :: "token_reason \<Rightarrow> string" where
  "token_reason_text Garbage = ''garbage''"
| "token_reason_text Expired = ''expired''"
| "token_reason_text Bad_issuer = ''bad_issuer''"
| "token_reason_text Bad_audience = ''bad_audience''"
| "token_reason_text Bad_signature = ''bad_signature''"
| "token_reason_text Bad_party = ''bad_party''"
| "token_reason_text Bad_type = ''bad_type''"

record verified_token =
  vt_type :: token_type
  vt_subject :: string
  vt_email :: "string option"
  vt_session :: "string option"
  vt_org :: "string option"
  vt_audience :: json
  vt_claims :: json

record clerk_options =
  cl_issuer :: string
  cl_parties :: "string list"
  cl_agents_audience :: "string option"

record verifier_options =
  vo_clerk :: "clerk_options option"
  vo_harness_secret :: "string option"
  vo_dev_secret :: "string option"

text \<open>
  The \<open>jose\<close> package: reading the protected header's \<open>alg\<close> and the claims without verifying
  (\<open>None\<close> when they throw), and \<open>jwtVerify\<close> with a key, the algorithm it allows and the issuer it
  requires, which throws an error with a code and a claim name or gives the payload.
\<close>

datatype jwt_key = Clerk_keys | Secret string

record jwt_failure =
  jf_code :: string
  jf_claim :: "string option"

record jose =
  jo_alg :: "string \<Rightarrow> string option option"
  jo_claims :: "string \<Rightarrow> json option"
  jo_verify :: "jwt_key \<Rightarrow> string \<Rightarrow> string option \<Rightarrow> string \<Rightarrow> jwt_failure + json"

definition is_set :: "string option \<Rightarrow> bool" where
  "is_set v = (case v of None \<Rightarrow> False | Some s \<Rightarrow> s \<noteq> [])"

definition dev_issuer :: string where
  "dev_issuer = ''xms-dev''"

definition classify_failure :: "jwt_failure \<Rightarrow> token_reason" where
  "classify_failure e =
     (if jf_code e = ''ERR_JWT_EXPIRED'' then Expired
      else if jf_code e = ''ERR_JWT_CLAIM_VALIDATION_FAILED'' then
        (if jf_claim e = Some ''iss'' then Bad_issuer else if jf_claim e = Some ''aud'' then Bad_audience else Garbage)
      else if jf_code e = ''ERR_JWS_SIGNATURE_VERIFICATION_FAILED'' \<or> jf_code e = ''ERR_JWKS_NO_MATCHING_KEY'' then Bad_signature
      else Garbage)"

definition checked :: "jwt_failure + json \<Rightarrow> token_reason + json" where
  "checked r = (case r of Inl e \<Rightarrow> Inl (classify_failure e) | Inr payload \<Rightarrow> Inr payload)"

definition require_subject :: "json \<Rightarrow> token_reason + string" where
  "require_subject payload = (case jget ''sub'' payload of JStr s \<Rightarrow> if s = [] then Inl Garbage else Inr s | _ \<Rightarrow> Inl Garbage)"

definition string_claim :: "json \<Rightarrow> string \<Rightarrow> string option" where
  "string_claim payload name = (case jget name payload of JStr s \<Rightarrow> if s = [] then None else Some s | _ \<Rightarrow> None)"

definition audience_of :: "json \<Rightarrow> json" where
  "audience_of payload = (case jget ''aud'' payload of JStr s \<Rightarrow> JStr s | JArr [a] \<Rightarrow> a | _ \<Rightarrow> JUndef)"

definition verify_clerk :: "jose \<Rightarrow> clerk_options \<Rightarrow> string \<Rightarrow> token_reason + verified_token" where
  "verify_clerk j clerk token =
     and_then (checked (jo_verify j Clerk_keys ''RS256'' (Some (cl_issuer clerk)) token)) (\<lambda>payload.
     and_then (guard_or (\<exists>party\<in>set (cl_parties clerk). jget ''azp'' payload = JStr party) Bad_party) (\<lambda>_.
     let audience = audience_of payload;
         agents = truthy audience \<and> is_set (cl_agents_audience clerk) \<and> audience = JStr (the (cl_agents_audience clerk))
     in and_then (guard_or (\<not> (truthy audience \<and> \<not> agents)) Bad_audience) (\<lambda>_.
        and_then (require_subject payload) (\<lambda>subject.
        Inr \<lparr>vt_type = if agents then Clerk_agents else Clerk, vt_subject = subject, vt_email = string_claim payload ''email'',
             vt_session = string_claim payload ''sid'', vt_org = string_claim payload ''org_slug'',
             vt_audience = audience, vt_claims = payload\<rparr>))))"

definition verify_harness :: "jose \<Rightarrow> string \<Rightarrow> string \<Rightarrow> token_reason + verified_token" where
  "verify_harness j secret token =
     and_then (checked (jo_verify j (Secret secret) ''HS256'' None token)) (\<lambda>payload.
     and_then (guard_or (jget ''type'' payload = JStr ''session'') Bad_type) (\<lambda>_.
     and_then (require_subject payload) (\<lambda>subject.
     Inr \<lparr>vt_type = Harness_token, vt_subject = subject, vt_email = string_claim payload ''email'',
          vt_session = (case string_claim payload ''session_id'' of None \<Rightarrow> string_claim payload ''sid'' | Some s \<Rightarrow> Some s),
          vt_org = None, vt_audience = JUndef, vt_claims = payload\<rparr>)))"

definition verify_dev :: "jose \<Rightarrow> string \<Rightarrow> string \<Rightarrow> token_reason + verified_token" where
  "verify_dev j secret token =
     and_then (checked (jo_verify j (Secret secret) ''HS256'' (Some dev_issuer) token)) (\<lambda>payload.
     and_then (require_subject payload) (\<lambda>subject.
     Inr \<lparr>vt_type = Dev_token, vt_subject = subject, vt_email = string_claim payload ''email'',
          vt_session = string_claim payload ''sid'', vt_org = string_claim payload ''org_slug'',
          vt_audience = audience_of payload, vt_claims = payload\<rparr>))"

text \<open>Choosing the verifier by the unverified claims, and running it.\<close>

definition verify_selected :: "jose \<Rightarrow> verifier_options \<Rightarrow> string option \<Rightarrow> json \<Rightarrow> string \<Rightarrow> token_reason + verified_token" where
  "verify_selected j vo alg claims token =
     (if jget ''iss'' claims = JStr dev_issuer then
        (if is_set (vo_dev_secret vo) then verify_dev j (the (vo_dev_secret vo)) token else Inl Bad_issuer)
      else if jget ''type'' claims = JStr ''session'' then
        (if is_set (vo_harness_secret vo) then verify_harness j (the (vo_harness_secret vo)) token else Inl Bad_issuer)
      else case vo_clerk vo of
        None \<Rightarrow> Inl Bad_issuer
      | Some clerk \<Rightarrow> if alg = Some ''RS256'' then verify_clerk j clerk token else Inl Bad_issuer)"

definition verify_token :: "jose \<Rightarrow> verifier_options \<Rightarrow> string \<Rightarrow> token_reason + verified_token" where
  "verify_token j vo token = (case jo_alg j token of
     None \<Rightarrow> Inl Garbage
   | Some alg \<Rightarrow> (case jo_claims j token of None \<Rightarrow> Inl Garbage | Some claims \<Rightarrow> verify_selected j vo alg claims token))"

subsection \<open>The principal\<close>

datatype realm_kind = Internal_realm | Portal_realm | Api_client_realm | Harness_realm

record auth_principal =
  ap_kind :: realm_kind
  ap_user :: string
  ap_email :: string
  ap_name :: string
  ap_accounts :: "string list"
  ap_permissions :: "string list"
  ap_session :: "string option"
  ap_token :: token_type
  ap_rate :: "int option"

definition actor_kind_of :: "auth_principal \<Rightarrow> string" where
  "actor_kind_of p = (case ap_kind p of Portal_realm \<Rightarrow> ''portal_user'' | Api_client_realm \<Rightarrow> ''api_client'' | _ \<Rightarrow> ''user'')"

datatype account_binding = Bind_none | Bind_portal string | Bind_operator "string list"

definition binding_of :: "auth_principal \<Rightarrow> account_binding" where
  "binding_of p = (if ap_kind p = Portal_realm
     then (case ap_accounts p of [] \<Rightarrow> Bind_none | a # _ \<Rightarrow> if a = [] then Bind_none else Bind_portal a)
     else Bind_operator (ap_accounts p))"

datatype db_role = App_role | Portal_role

definition db_role_of :: "auth_principal \<Rightarrow> db_role" where
  "db_role_of p = (if ap_kind p = Portal_realm then Portal_role else App_role)"

subsection \<open>Events and the state of the guard\<close>

record security_event =
  se_type :: string
  se_denied :: bool
  se_actor_kind :: string
  se_actor :: "string option"
  se_account :: "string option"
  se_session :: "string option"
  se_attrs :: "string js_map"

record guard_state =
  gs_directory :: directory
  gs_seen :: "string list"
  gs_events :: "security_event list"

record guard_config =
  gc_jose :: jose
  gc_options :: verifier_options
  gc_internal_org :: string
  gc_lookup_hash :: "string \<Rightarrow> string"
  gc_confirm :: "string \<Rightarrow> string \<Rightarrow> bool"

datatype auth_error =
    Unauthenticated
  | Invalid_token
  | Unknown_user
  | User_inactive
  | Wrong_organisation
  | Invalid_api_key
  | Wrong_realm
  | Route_without_permission string
  | Forbidden string

definition write_event :: "security_event \<Rightarrow> guard_state \<Rightarrow> guard_state" where
  "write_event e s = s\<lparr>gs_events := gs_events s @ [e]\<rparr>"

definition denied_event :: "string \<Rightarrow> string \<Rightarrow> string option \<Rightarrow> string js_map \<Rightarrow> security_event" where
  "denied_event type_name kind actor attrs =
     \<lparr>se_type = type_name, se_denied = True, se_actor_kind = kind, se_actor = actor, se_account = None, se_session = None, se_attrs = attrs\<rparr>"

definition principal_denied :: "string \<Rightarrow> auth_principal \<Rightarrow> string js_map \<Rightarrow> security_event" where
  "principal_denied type_name p attrs =
     \<lparr>se_type = type_name, se_denied = True, se_actor_kind = actor_kind_of p, se_actor = Some (ap_user p), se_account = None,
      se_session = ap_session p, se_attrs = attrs\<rparr>"

definition refuse :: "auth_error \<Rightarrow> security_event \<Rightarrow> guard_state \<Rightarrow> (auth_error + 'a) \<times> guard_state" where
  "refuse e ev s = (Inl e, write_event ev s)"

definition on_directory :: "(directory \<Rightarrow> directory) \<Rightarrow> guard_state \<Rightarrow> guard_state" where
  "on_directory f s = s\<lparr>gs_directory := f (gs_directory s)\<rparr>"

subsection \<open>The steps of the guard\<close>

definition bearer_of :: "string option \<Rightarrow> string option" where
  "bearer_of header = (case header of
     None \<Rightarrow> None
   | Some h \<Rightarrow> if h = [] then None else
      (case split_char CHR '' '' h of
         scheme # value # _ \<Rightarrow> if js_lower scheme \<noteq> ''bearer'' \<or> value = [] then None else Some (js_trim value)
       | _ \<Rightarrow> None))"

definition is_clerk :: "token_type \<Rightarrow> bool" where
  "is_clerk t \<longleftrightarrow> t = Clerk \<or> t = Clerk_agents"

definition organisation_matches :: "guard_config \<Rightarrow> directory \<Rightarrow> user_row \<Rightarrow> string option \<Rightarrow> bool" where
  "organisation_matches cfg d u org =
     (if \<not> is_set org then False
      else if ur_kind u \<noteq> Portal_kind then org = Some (gc_internal_org cfg)
      else if \<not> is_set (ur_account u) then False
      else (case account_key d (the (ur_account u)) of
              None \<Rightarrow> False
            | Some key \<Rightarrow> js_lower (the org) = ''acct-'' @ js_lower key))"

text \<open>The user a token names, and whether the row is to be bound to its subject.\<close>

definition find_user :: "directory \<Rightarrow> verified_token \<Rightarrow> (user_row \<times> bool) option" where
  "find_user d v =
     (if vt_type v = Harness_token then
        (if is_set (vt_email v) then map_option (\<lambda>u. (u, False)) (user_by_email d (the (vt_email v))) else None)
      else case user_by_clerk d (vt_subject v) of
        Some u \<Rightarrow> Some (u, False)
      | None \<Rightarrow>
          if \<not> is_set (vt_email v) then None
          else map_option (\<lambda>u. (if ur_status u = Invited then u\<lparr>ur_status := Active_user\<rparr> else u, True))
                 (user_by_email d (the (vt_email v))))"

definition user_actor_kind :: "user_row \<Rightarrow> string" where
  "user_actor_kind u = (if ur_kind u = Portal_kind then ''portal_user'' else ''user'')"

definition session_key :: "auth_principal \<Rightarrow> string" where
  "session_key p = (case ap_session p of Some s \<Rightarrow> s | None \<Rightarrow> ap_user p @ '':'' @ token_type_text (ap_token p))"

definition max_seen :: nat where
  "max_seen = 5000"

definition note_session :: "auth_principal \<Rightarrow> string js_map \<Rightarrow> ms \<Rightarrow> guard_state \<Rightarrow> guard_state" where
  "note_session p attrs now s =
     (let key = session_key p in
      if key \<in> set (gs_seen s) then s
      else let kept = (if max_seen < length (gs_seen s) \<and> hd (gs_seen s) \<noteq> [] then tl (gs_seen s) else gs_seen s);
               s1 = on_directory (touch_sign_in (ap_user p) now) (s\<lparr>gs_seen := kept @ [key]\<rparr>)
           in write_event \<lparr>se_type = ''auth.signin.success'', se_denied = False, se_actor_kind = actor_kind_of p, se_actor = Some (ap_user p),
                se_account = (if ap_kind p = Portal_realm then (case ap_accounts p of [] \<Rightarrow> None | a # _ \<Rightarrow> Some a) else None),
                se_session = ap_session p, se_attrs = attrs @ [(''tokenType'', token_type_text (ap_token p))]\<rparr> s1)"

definition display_name :: "user_row \<Rightarrow> string" where
  "display_name u = (let full = js_trim (ur_first u @ '' '' @ ur_last u) in if full = [] then ur_email u else full)"

definition token_principal :: "directory \<Rightarrow> user_row \<Rightarrow> verified_token \<Rightarrow> auth_principal" where
  "token_principal d u v =
     \<lparr>ap_kind = (if ur_kind u = Portal_kind then Portal_realm else if vt_type v = Harness_token then Harness_realm else Internal_realm),
      ap_user = ur_id u, ap_email = ur_email u, ap_name = display_name u,
      ap_accounts = fst (resolve_access d u), ap_permissions = snd (resolve_access d u),
      ap_session = vt_session v, ap_token = vt_type v, ap_rate = None\<rparr>"

definition resolve_token :: "guard_config \<Rightarrow> string \<Rightarrow> bool \<Rightarrow> string js_map \<Rightarrow> ms \<Rightarrow> guard_state \<Rightarrow> (auth_error + auth_principal) \<times> guard_state" where
  "resolve_token cfg token axel attrs now s =
     (case verify_token (gc_jose cfg) (gc_options cfg) token of
        Inl reason \<Rightarrow> refuse Invalid_token (denied_event ''auth.token.rejected'' ''anonymous'' None (attrs @ [(''reason'', token_reason_text reason)])) s
      | Inr v \<Rightarrow>
        if vt_type v = Clerk_agents \<and> \<not> axel then
          refuse Invalid_token (denied_event ''auth.token.rejected'' ''anonymous'' (Some (vt_subject v)) (attrs @ [(''reason'', ''bad_audience'')])) s
        else case find_user (gs_directory s) v of
          None \<Rightarrow> refuse Unknown_user (denied_event ''auth.signin.failed'' ''anonymous'' (Some (vt_subject v))
                    (attrs @ [(''reason'', ''unknown_user''), (''tokenType'', token_type_text (vt_type v))])) s
        | Some (u, bind) \<Rightarrow>
          if ur_status u = Deactivated \<or> ur_kind u = Service_kind then
            refuse User_inactive (denied_event ''auth.signin.failed'' (user_actor_kind u) (Some (ur_id u))
              (attrs @ [(''reason'', if ur_status u = Deactivated then ''deactivated'' else ''service_user'')])) s
          else if is_clerk (vt_type v) \<and> \<not> organisation_matches cfg (gs_directory s) u (vt_org v) then
            refuse Wrong_organisation (denied_event ''auth.signin.failed'' (user_actor_kind u) (Some (ur_id u))
              (attrs @ [(''reason'', ''wrong_organisation'')])) s
          else let s1 = (if bind then on_directory (attach_clerk_id (ur_id u) (vt_subject v) now) s else s);
                   p = token_principal (gs_directory s1) u v
               in (Inr p, note_session p attrs now s1))"

definition client_by_key :: "guard_config \<Rightarrow> directory \<Rightarrow> string \<Rightarrow> api_client_row option" where
  "client_by_key cfg d key =
     (if \<not> starts_with api_key_prefix key then None
      else case find (\<lambda>c. ak_lookup c = gc_lookup_hash cfg key) (di_clients d) of
        None \<Rightarrow> None
      | Some c \<Rightarrow> if gc_confirm cfg key (ak_secret c) then Some c else None)"

definition client_accounts :: "directory \<Rightarrow> api_client_row \<Rightarrow> string list" where
  "client_accounts d c = map snd (filter (\<lambda>g. fst g = ak_id c) (di_client_grants d))"

definition client_expired :: "ms \<Rightarrow> api_client_row \<Rightarrow> bool" where
  "client_expired now c \<longleftrightarrow> (case ak_expires c of None \<Rightarrow> False | Some t \<Rightarrow> t < now)"

definition client_principal :: "directory \<Rightarrow> user_row \<Rightarrow> api_client_row \<Rightarrow> auth_principal" where
  "client_principal d u c =
     \<lparr>ap_kind = Api_client_realm, ap_user = ur_id u, ap_email = ur_email u, ap_name = ak_name c,
      ap_accounts = client_accounts d c, ap_permissions = filter is_permission (ak_scopes c),
      ap_session = Some (ak_id c), ap_token = Api_key_token, ap_rate = Some (ak_rate c)\<rparr>"

definition resolve_api_client :: "guard_config \<Rightarrow> string \<Rightarrow> string js_map \<Rightarrow> ms \<Rightarrow> guard_state \<Rightarrow> (auth_error + auth_principal) \<times> guard_state" where
  "resolve_api_client cfg token attrs now s =
     (let client = client_by_key cfg (gs_directory s) token;
          expired = (case client of None \<Rightarrow> False | Some c \<Rightarrow> client_expired now c);
          reason = (if client = None then ''unknown'' else if expired then ''expired'' else ''revoked'');
          no = refuse Invalid_api_key (denied_event ''auth.apikey.rejected'' ''anonymous'' None
                 (attrs @ [(''reason'', reason), (''prefix'', take 12 token)])) s
      in case client of
           None \<Rightarrow> no
         | Some c \<Rightarrow> if \<not> ak_active c \<or> expired then no
           else case user_by_id (gs_directory s) (ak_user c) of
             None \<Rightarrow> (Inl Invalid_api_key, s)
           | Some u \<Rightarrow>
             let s1 = on_directory (touch_api_client (ak_id c) now) s;
                 p = client_principal (gs_directory s) u c
             in (Inr p, write_event \<lparr>se_type = ''auth.apikey.used'', se_denied = False, se_actor_kind = actor_kind_of p, se_actor = Some (ap_user p),
                   se_account = None, se_session = ap_session p, se_attrs = attrs @ [(''apiClientId'', ak_id c)]\<rparr> s1))"

subsection \<open>The whole guard\<close>

datatype route_realm = Realm_internal | Realm_portal | Realm_any

fun realm_text :: "route_realm \<Rightarrow> string" where
  "realm_text Realm_internal = ''internal''"
| "realm_text Realm_portal = ''portal''"
| "realm_text Realm_any = ''any''"

text \<open>What the decorators put on a route; \<open>rt_public\<close> is the reason a route is public.\<close>

record route_entry =
  rt_route :: string
  rt_realm :: "route_realm option"
  rt_permission :: "string option"
  rt_public :: "string option"
  rt_axel :: bool

definition undeclared_routes :: "route_entry list \<Rightarrow> route_entry list" where
  "undeclared_routes table = filter (\<lambda>e. rt_permission e = None \<and> rt_public e = None) table"

definition realm_ok :: "route_realm \<Rightarrow> auth_principal \<Rightarrow> bool" where
  "realm_ok realm p = (case realm of Realm_any \<Rightarrow> True | Realm_portal \<Rightarrow> ap_kind p = Portal_realm | Realm_internal \<Rightarrow> ap_kind p \<noteq> Portal_realm)"

text \<open>\<open>canActivate\<close>: \<open>Inr None\<close> is a public route, \<open>Inr (Some p)\<close> attaches the principal to the request.\<close>

definition authenticate :: "guard_config \<Rightarrow> route_entry \<Rightarrow> string option \<Rightarrow> ms \<Rightarrow> guard_state \<Rightarrow> (auth_error + auth_principal) \<times> guard_state" where
  "authenticate cfg rt header now s =
     (let attrs = [(''route'', rt_route rt)] in
      case bearer_of header of
        None \<Rightarrow> refuse Unauthenticated (denied_event ''auth.token.rejected'' ''anonymous'' None (attrs @ [(''reason'', ''missing'')])) s
      | Some token \<Rightarrow>
          if token = [] then refuse Unauthenticated (denied_event ''auth.token.rejected'' ''anonymous'' None (attrs @ [(''reason'', ''missing'')])) s
          else if starts_with api_key_prefix token then resolve_api_client cfg token attrs now s
          else resolve_token cfg token (rt_axel rt) attrs now s)"

definition authorise :: "route_entry \<Rightarrow> auth_principal \<Rightarrow> guard_state \<Rightarrow> (auth_error + auth_principal) \<times> guard_state" where
  "authorise rt p s =
     (let attrs = [(''route'', rt_route rt)];
          realm = (case rt_realm rt of None \<Rightarrow> Realm_internal | Some r \<Rightarrow> r)
      in if \<not> realm_ok realm p then
           refuse Wrong_realm (principal_denied ''authz.realm.denied'' p (attrs @ [(''realm'', realm_text realm)])) s
         else if \<not> is_set (rt_permission rt) then (Inl (Route_without_permission (rt_route rt)), s)
         else let required = the (rt_permission rt) in
           if required \<noteq> ''authenticated'' \<and> required \<notin> set (ap_permissions p) then
             refuse (Forbidden required) (principal_denied ''authz.permission.denied'' p (attrs @ [(''permission'', required)])) s
           else (Inr p, s))"

definition can_activate :: "guard_config \<Rightarrow> route_entry \<Rightarrow> string option \<Rightarrow> ms \<Rightarrow> guard_state \<Rightarrow> (auth_error + auth_principal option) \<times> guard_state" where
  "can_activate cfg rt header now s =
     (if is_set (rt_public rt) then (Inr None, s)
      else case authenticate cfg rt header now s of
        (Inl e, s1) \<Rightarrow> (Inl e, s1)
      | (Inr p, s1) \<Rightarrow> (case authorise rt p s1 of
            (Inl e, s2) \<Rightarrow> (Inl e, s2)
          | (Inr q, s2) \<Rightarrow> (Inr (Some q), s2)))"

subsection \<open>The last administrator\<close>

record admin_candidate =
  an_user :: string
  an_active :: bool
  an_administrator :: bool

datatype last_admin_error = Last_administrator

definition assert_not_last_admin :: "admin_candidate list \<Rightarrow> last_admin_error + unit" where
  "assert_not_last_admin after = guard_or (filter (\<lambda>c. an_active c \<and> an_administrator c) after \<noteq> []) Last_administrator"

end
