(* ===== verification/Access_Life.thy ===== *)
theory Access_Life
  imports Access
begin

section \<open>What the guard lets in\<close>

text \<open>
  The inversion of an admitted request into what was presented, the confinement of portal and operator
  principals to their accounts and catalogs, the record a refusal leaves, and the invariants of the
  operator tables and of the session map over any sequence of requests.
\<close>

subsection \<open>Verified tokens\<close>

lemma checked_Inr [simp]: "checked r = Inr payload \<longleftrightarrow> r = Inr payload"
  by (cases r) (auto simp: checked_def)

lemma string_claim_ne [simp]: "string_claim payload name \<noteq> Some []"
  by (auto simp: string_claim_def split: json.splits if_splits)

lemma verified_session_ne:
  assumes "verify_token j vo token = Inr v" "vt_session v = Some s"
  shows "s \<noteq> []"
  using assms
  by (auto simp: verify_token_def verify_selected_def verify_dev_def verify_harness_def verify_clerk_def and_then_Inr Let_def
      split: option.splits if_splits)

lemma verified_type:
  assumes "verify_token j vo token = Inr v"
  shows "vt_type v \<noteq> Api_key_token"
  using assms
  by (auto simp: verify_token_def verify_selected_def verify_dev_def verify_harness_def verify_clerk_def and_then_Inr Let_def
      split: option.splits if_splits)

text \<open>What each accepted type of token stands on.\<close>

lemma verify_clerk_accepts:
  assumes "verify_clerk j clerk token = Inr v"
  obtains party where "jo_verify j Clerk_keys ''RS256'' (Some (cl_issuer clerk)) token = Inr (vt_claims v)"
    "party \<in> set (cl_parties clerk)" "jget ''azp'' (vt_claims v) = JStr party"
    "vt_type v = Clerk_agents \<longrightarrow> is_set (cl_agents_audience clerk) \<and> vt_audience v = JStr (the (cl_agents_audience clerk))"
    "vt_type v \<noteq> Clerk_agents \<longrightarrow> \<not> truthy (vt_audience v)" "is_clerk (vt_type v)"
  using assms by (auto simp: verify_clerk_def and_then_Inr Let_def is_clerk_def split: if_splits)

lemma verify_token_accepts:
  assumes "verify_token j vo token = Inr v"
  shows "(vt_type v = Dev_token \<longrightarrow> (\<exists>secret. vo_dev_secret vo = Some secret \<and> secret \<noteq> [] \<and>
      jo_verify j (Secret secret) ''HS256'' (Some dev_issuer) token = Inr (vt_claims v))) \<and>
    (vt_type v = Harness_token \<longrightarrow> (\<exists>secret. vo_harness_secret vo = Some secret \<and> secret \<noteq> [] \<and>
      jo_verify j (Secret secret) ''HS256'' None token = Inr (vt_claims v) \<and> jget ''type'' (vt_claims v) = JStr ''session'')) \<and>
    (is_clerk (vt_type v) \<longrightarrow> (\<exists>clerk. vo_clerk vo = Some clerk \<and> jo_alg j token = Some (Some ''RS256'') \<and> verify_clerk j clerk token = Inr v))"
  using assms
  by (auto simp: verify_token_def verify_selected_def verify_dev_def verify_harness_def and_then_Inr is_set_def is_clerk_def
      elim: verify_clerk_accepts split: option.splits if_splits)

subsection \<open>Inversion of an admitted request\<close>

lemma user_found:
  "user_by_clerk d subject = Some r \<Longrightarrow> r \<in> set (di_users d) \<and> ur_clerk r = Some subject"
  "user_by_email d email = Some r \<Longrightarrow> r \<in> set (di_users d) \<and> ur_email r = email"
  "user_by_id d i = Some r \<Longrightarrow> r \<in> set (di_users d) \<and> ur_id r = i"
  by (auto simp: user_by_clerk_def user_by_email_def user_by_id_def find_Some_iff)

text \<open>The row a token names, before the local change of an invited one to active.\<close>

lemma find_user_row:
  assumes "find_user d v = Some (u, bind)"
  obtains r where "r \<in> set (di_users d)" "u = r \<or> bind \<and> ur_status r = Invited \<and> u = r\<lparr>ur_status := Active_user\<rparr>"
    "bind \<longrightarrow> vt_type v \<noteq> Harness_token \<and> user_by_clerk d (vt_subject v) = None \<and> vt_email v = Some (ur_email r)"
    "\<not> bind \<longrightarrow> (if vt_type v = Harness_token then vt_email v = Some (ur_email r) else ur_clerk r = Some (vt_subject v))"
proof (cases "vt_type v = Harness_token")
  case True
  then obtain e where e: "vt_email v = Some e" "user_by_email d e = Some u" "\<not> bind"
    using assms by (auto simp: find_user_def is_set_def split: if_splits option.splits)
  then show thesis using user_found(2) [OF e(2)] True that [of u] by simp
next
  case False
  note harness = this
  show thesis
  proof (cases "user_by_clerk d (vt_subject v)")
    case None
    then obtain e r where e: "vt_email v = Some e" "user_by_email d e = Some r" bind
      "u = (if ur_status r = Invited then r\<lparr>ur_status := Active_user\<rparr> else r)"
      using assms harness by (auto simp: find_user_def is_set_def split: if_splits option.splits)
    then show thesis using user_found(2) [OF e(2)] harness None that [of r] by simp
  next
    case (Some r)
    then have "u = r" "\<not> bind" using assms harness by (simp_all add: find_user_def)
    then show thesis using user_found(1) [OF Some] harness that [of r] by simp
  qed
qed

lemma resolve_token_admits:
  assumes "resolve_token cfg token axel attrs now s = (Inr p, s')"
  obtains v u bind s1 where "verify_token (gc_jose cfg) (gc_options cfg) token = Inr v" "vt_type v = Clerk_agents \<longrightarrow> axel"
    "find_user (gs_directory s) v = Some (u, bind)" "ur_status u \<noteq> Deactivated" "ur_kind u \<noteq> Service_kind"
    "is_clerk (vt_type v) \<longrightarrow> organisation_matches cfg (gs_directory s) u (vt_org v)"
    "s1 = (if bind then on_directory (attach_clerk_id (ur_id u) (vt_subject v) now) s else s)"
    "p = token_principal (gs_directory s1) u v" "s' = note_session p attrs now s1"
  using assms
  by (auto simp: resolve_token_def refuse_def Let_def split: sum.splits option.splits prod.splits if_splits)

lemma resolve_token_refuses:
  assumes "resolve_token cfg token axel attrs now s = (Inl e, s')"
  obtains ev where "s' = write_event ev s" "se_denied ev" "e \<in> {Invalid_token, Unknown_user, User_inactive, Wrong_organisation}"
  using assms
  by (auto simp: resolve_token_def refuse_def denied_event_def Let_def split: sum.splits option.splits prod.splits if_splits)

lemma resolve_api_client_admits:
  assumes "resolve_api_client cfg token attrs now s = (Inr p, s')"
  obtains c u ev where "client_by_key cfg (gs_directory s) token = Some c" "ak_active c" "\<not> client_expired now c"
    "user_by_id (gs_directory s) (ak_user c) = Some u" "p = client_principal (gs_directory s) u c"
    "s' = write_event ev (on_directory (touch_api_client (ak_id c) now) s)" "\<not> se_denied ev"
  using assms
  by (auto simp: resolve_api_client_def refuse_def Let_def split: option.splits if_splits)

lemma resolve_api_client_refuses:
  assumes "resolve_api_client cfg token attrs now s = (Inl e, s')"
  shows "e = Invalid_api_key \<and>
    ((\<exists>ev. s' = write_event ev s \<and> se_denied ev) \<and>
       \<not> (\<exists>c. client_by_key cfg (gs_directory s) token = Some c \<and> ak_active c \<and> \<not> client_expired now c) \<or>
     s' = s \<and> (\<exists>c. client_by_key cfg (gs_directory s) token = Some c \<and> ak_active c \<and> \<not> client_expired now c \<and>
       user_by_id (gs_directory s) (ak_user c) = None))"
  using assms
  by (auto simp: resolve_api_client_def refuse_def denied_event_def Let_def split: option.splits if_splits)

lemma can_activate_admits:
  assumes "can_activate cfg rt header now s = (Inr (Some p), s')"
  obtains "authenticate cfg rt header now s = (Inr p, s')" "\<not> is_set (rt_public rt)"
    "realm_ok (case rt_realm rt of None \<Rightarrow> Realm_internal | Some r \<Rightarrow> r) p" "is_set (rt_permission rt)"
    "the (rt_permission rt) = ''authenticated'' \<or> the (rt_permission rt) \<in> set (ap_permissions p)"
  using assms
  by (auto simp: can_activate_def authorise_def refuse_def Let_def split: if_splits prod.splits sum.splits)

lemma authenticate_admits:
  assumes "authenticate cfg rt header now s = (Inr p, s')"
  obtains token where "bearer_of header = Some token" "token \<noteq> []"
    "if starts_with api_key_prefix token then resolve_api_client cfg token [(''route'', rt_route rt)] now s = (Inr p, s')
     else resolve_token cfg token (rt_axel rt) [(''route'', rt_route rt)] now s = (Inr p, s')"
  using assms by (auto simp: authenticate_def refuse_def Let_def split: option.splits if_splits)

lemmas principal_defs = token_principal_def client_principal_def

lemma admitted_token_type:
  assumes "authenticate cfg rt header now s = (Inr p, s')"
  shows "(ap_token p = Api_key_token \<longleftrightarrow> (\<exists>token. bearer_of header = Some token \<and> starts_with api_key_prefix token)) \<and>
    (ap_kind p = Api_client_realm \<longleftrightarrow> ap_token p = Api_key_token)"
  using authenticate_admits [OF assms]
proof (cases rule: authenticate_admits [OF assms])
  case (1 token)
  show ?thesis
  proof (cases "starts_with api_key_prefix token")
    case True
    with 1 show ?thesis by (auto elim!: resolve_api_client_admits simp: client_principal_def)
  next
    case False
    with 1 have "resolve_token cfg token (rt_axel rt) [(''route'', rt_route rt)] now s = (Inr p, s')" by simp
    from resolve_token_admits [OF this] show ?thesis
      using verified_type 1(1) False by (cases) (auto simp: token_principal_def)
  qed
qed

subsection \<open>Accounts and permissions of an admitted user\<close>

text \<open>What the administration of roles keeps: a role lists keys of its own catalog.\<close>

definition roles_in_catalog :: "directory \<Rightarrow> bool" where
  "roles_in_catalog d \<longleftrightarrow> (\<forall>r\<in>set (di_roles d). \<forall>k\<in>set (ro_permissions r). is_permission k \<longrightarrow> catalog_of k = ro_catalog r)"

definition user_catalog :: "user_row \<Rightarrow> permission_catalog" where
  "user_catalog u = (if ur_kind u = Portal_kind then Portal_catalog else Operator_catalog)"

lemma granted_roles_row:
  "(ks, scope) \<in> set (granted_roles d u) \<Longrightarrow> \<exists>r\<in>set (di_roles d). ks = ro_permissions r \<and> ro_catalog r = user_catalog u"
  by (auto simp: granted_roles_def user_catalog_def)

lemma expand_in_catalog:
  assumes "roles_in_catalog d" "set keys \<subseteq> (\<Union>(ks, scope)\<in>set (granted_roles d u). set ks)" "k \<in> set (expand_permissions keys)"
  shows "is_permission k \<and> catalog_of k = user_catalog u"
proof -
  from assms(3) obtain g where g: "g \<in> set keys" "is_permission g" "(g, k) \<in> (set implication_edges)\<^sup>*"
    by (auto simp: set_expand_permissions)
  with assms(2) obtain ks scope where "(ks, scope) \<in> set (granted_roles d u)" "g \<in> set ks" by blast
  with assms(1) g(2) have "catalog_of g = user_catalog u"
    by (fastforce dest!: granted_roles_row simp: roles_in_catalog_def)
  with closure_in_catalog [OF g(3,2)] show ?thesis by simp
qed

lemma permissions_in_catalog:
  assumes "roles_in_catalog d" "k \<in> set (snd (resolve_access d u))"
  shows "is_permission k \<and> catalog_of k = user_catalog u"
  using assms(2) by (intro expand_in_catalog [OF assms(1)]) (auto simp: resolve_access_def Let_def split: option.splits if_splits)

lemma administrator_is_operator:
  assumes "roles_in_catalog d" "is_administrator d u"
  shows "ur_kind u \<noteq> Portal_kind"
proof -
  have "catalog_of ''admin:accounts'' = user_catalog u"
    using assms(2) unfolding is_administrator_def
    by (rule conjunct2 [OF expand_in_catalog [OF assms(1)], rotated]) (auto split: if_splits)
  moreover have "catalog_of ''admin:accounts'' = Operator_catalog" by code_simp
  ultimately show ?thesis by (auto simp: user_catalog_def)
qed

lemma portal_accounts:
  assumes "roles_in_catalog d" "ur_kind u = Portal_kind"
  shows "fst (resolve_access d u) = (case ur_account u of None \<Rightarrow> [] | Some a \<Rightarrow> if a = [] then [] else [a])"
  using assms administrator_is_operator [OF assms(1), of u] by (auto simp: resolve_access_def granted_accounts_def Let_def)

lemma operator_accounts:
  assumes "a \<in> set (fst (resolve_access d u))" "ur_kind u \<noteq> Portal_kind"
  shows "(ur_id u, a) \<in> set (di_grants d) \<and> a \<in> set (accounts_in [''onboarding'', ''active''] d) \<or>
    is_administrator d u \<and> a \<in> set (accounts_in [''onboarding'', ''active'', ''suspended'', ''offboarding''] d) \<or>
    ur_kind u = Internal_kind \<and> a = global_account_id"
  using assms by (auto simp: resolve_access_def granted_accounts_def Let_def split: if_splits)

lemma attach_keeps_access [simp]:
  "resolve_access (attach_clerk_id i subject now d) u = resolve_access d u"
  "di_roles (attach_clerk_id i subject now d) = di_roles d"
  by (simp_all add: attach_clerk_id_def resolve_access_def granted_accounts_def granted_roles_def is_administrator_def accounts_in_def)

lemma resolve_access_status [simp]: "resolve_access d (u\<lparr>ur_status := x\<rparr>) = resolve_access d u"
  by (simp add: resolve_access_def granted_accounts_def granted_roles_def is_administrator_def)

lemma organisation_status [simp]: "organisation_matches cfg d (u\<lparr>ur_status := x\<rparr>) org = organisation_matches cfg d u org"
  by (simp add: organisation_matches_def)

text \<open>The admitted holder of a token, as a row of the table.\<close>

lemma token_holder:
  assumes "resolve_token cfg token axel attrs now s = (Inr p, s')"
  obtains r v where "r \<in> set (di_users (gs_directory s))" "verify_token (gc_jose cfg) (gc_options cfg) token = Inr v"
    "vt_type v = Clerk_agents \<longrightarrow> axel" "ap_user p = ur_id r" "ur_status r \<noteq> Deactivated" "ur_kind r \<noteq> Service_kind"
    "is_clerk (vt_type v) \<longrightarrow> organisation_matches cfg (gs_directory s) r (vt_org v)"
    "ap_accounts p = fst (resolve_access (gs_directory s) r)" "ap_permissions p = snd (resolve_access (gs_directory s) r)"
    "ap_kind p = Portal_realm \<longleftrightarrow> ur_kind r = Portal_kind" "ap_token p = vt_type v"
    "vt_email v = Some (ur_email r) \<or> ur_clerk r = Some (vt_subject v)"
proof -
  obtain v u bind s1 where
    v: "verify_token (gc_jose cfg) (gc_options cfg) token = Inr v" "vt_type v = Clerk_agents \<longrightarrow> axel"
    "find_user (gs_directory s) v = Some (u, bind)" "ur_status u \<noteq> Deactivated" "ur_kind u \<noteq> Service_kind"
    "is_clerk (vt_type v) \<longrightarrow> organisation_matches cfg (gs_directory s) u (vt_org v)"
    "s1 = (if bind then on_directory (attach_clerk_id (ur_id u) (vt_subject v) now) s else s)"
    "p = token_principal (gs_directory s1) u v" "s' = note_session p attrs now s1"
    by (rule resolve_token_admits [OF assms])
  obtain r where r: "r \<in> set (di_users (gs_directory s))"
    "u = r \<or> bind \<and> ur_status r = Invited \<and> u = r\<lparr>ur_status := Active_user\<rparr>"
    "bind \<longrightarrow> vt_email v = Some (ur_email r)"
    "\<not> bind \<longrightarrow> (if vt_type v = Harness_token then vt_email v = Some (ur_email r) else ur_clerk r = Some (vt_subject v))"
    by (rule find_user_row [OF v(3)]) blast
  from v r that [of r v] show thesis
    by (auto simp: token_principal_def on_directory_def split: if_splits)
qed

subsection \<open>Properties\<close>

text \<open>What an admitted key and an admitted token stand on.\<close>

definition client_admitted :: "guard_config \<Rightarrow> directory \<Rightarrow> ms \<Rightarrow> string \<Rightarrow> auth_principal \<Rightarrow> bool" where
  "client_admitted cfg d now token p \<longleftrightarrow>
     (\<exists>c\<in>set (di_clients d). ak_lookup c = gc_lookup_hash cfg token \<and> gc_confirm cfg token (ak_secret c) \<and>
        ak_active c \<and> (\<forall>t. ak_expires c = Some t \<longrightarrow> now \<le> t) \<and>
        set (ap_permissions p) = {k \<in> set (ak_scopes c). is_permission k} \<and>
        set (ap_accounts p) = {a. (ak_id c, a) \<in> set (di_client_grants d)})"

definition holder_admitted :: "guard_config \<Rightarrow> directory \<Rightarrow> bool \<Rightarrow> string \<Rightarrow> auth_principal \<Rightarrow> bool" where
  "holder_admitted cfg d axel token p \<longleftrightarrow>
     (\<exists>r\<in>set (di_users d). \<exists>v. verify_token (gc_jose cfg) (gc_options cfg) token = Inr v \<and>
        ap_user p = ur_id r \<and> ur_status r \<noteq> Deactivated \<and> ur_kind r \<noteq> Service_kind \<and>
        (ur_clerk r = Some (vt_subject v) \<or> vt_email v = Some (ur_email r)) \<and>
        (vt_type v = Clerk_agents \<longrightarrow> axel) \<and>
        (is_clerk (vt_type v) \<longrightarrow> organisation_matches cfg d r (vt_org v)) \<and>
        (ur_kind r \<noteq> Portal_kind \<longrightarrow> (\<forall>a\<in>set (ap_accounts p).
           (ur_id r, a) \<in> set (di_grants d) \<and> a \<in> set (accounts_in [''onboarding'', ''active''] d) \<or>
           is_administrator d r \<or> a = global_account_id)))"

lemma api_client_admitted:
  assumes "resolve_api_client cfg token attrs now s = (Inr p, s')"
  shows "client_admitted cfg (gs_directory s) now token p"
proof -
  obtain c u where
    c: "client_by_key cfg (gs_directory s) token = Some c" "ak_active c" "\<not> client_expired now c"
      "p = client_principal (gs_directory s) u c" by (rule resolve_api_client_admits [OF assms]) blast
  then have "c \<in> set (di_clients (gs_directory s))" "ak_lookup c = gc_lookup_hash cfg token" "gc_confirm cfg token (ak_secret c)"
    by (auto simp: client_by_key_def find_Some_iff split: if_splits option.splits)
  moreover have "set (ap_accounts p) = {a. (ak_id c, a) \<in> set (di_client_grants (gs_directory s))}"
    using c(4) by (force simp: client_principal_def client_accounts_def)
  moreover have "\<forall>t. ak_expires c = Some t \<longrightarrow> now \<le> t" using c(3) by (auto simp: client_expired_def)
  moreover have "set (ap_permissions p) = {k \<in> set (ak_scopes c). is_permission k}"
    using c(4) by (auto simp: client_principal_def)
  ultimately show ?thesis using c(2) unfolding client_admitted_def by blast
qed

lemma token_holder_admitted:
  assumes "resolve_token cfg token axel attrs now s = (Inr p, s')"
  shows "holder_admitted cfg (gs_directory s) axel token p"
proof -
  obtain r v where r: "r \<in> set (di_users (gs_directory s))" "verify_token (gc_jose cfg) (gc_options cfg) token = Inr v"
    "vt_type v = Clerk_agents \<longrightarrow> axel" "ap_user p = ur_id r" "ur_status r \<noteq> Deactivated" "ur_kind r \<noteq> Service_kind"
    "is_clerk (vt_type v) \<longrightarrow> organisation_matches cfg (gs_directory s) r (vt_org v)"
    "ap_accounts p = fst (resolve_access (gs_directory s) r)" "vt_email v = Some (ur_email r) \<or> ur_clerk r = Some (vt_subject v)"
    by (rule token_holder [OF assms])
  have "ur_kind r \<noteq> Portal_kind \<longrightarrow> (\<forall>a\<in>set (ap_accounts p).
      (ur_id r, a) \<in> set (di_grants (gs_directory s)) \<and> a \<in> set (accounts_in [''onboarding'', ''active''] (gs_directory s)) \<or>
      is_administrator (gs_directory s) r \<or> a = global_account_id)"
    using r(8) operator_accounts [of _ "gs_directory s" r] by auto
  moreover from r(9) have "ur_clerk r = Some (vt_subject v) \<or> vt_email v = Some (ur_email r)" by blast
  ultimately show ?thesis unfolding holder_admitted_def
    using r(2-7) by (intro bexI [OF _ r(1)] exI [of _ v] conjI)
qed


text \<open>A portal request is confined to one account: when the roles list keys of their own catalog, a principal that runs
  on the portal database role came by a token, on a route open to the portal, is bound to the account of
  its own row and to nothing else (or to none), holds portal keys only, and a Clerk token of it names the
  organisation of that very account; and no principal of the application role holds a portal key through a
  role or enters a portal route.\<close>

theorem portal_request_confined:
  assumes "can_activate cfg rt header now s = (Inr (Some p), s')" "roles_in_catalog (gs_directory s)"
  shows "if db_role_of p = Portal_role then
      rt_realm rt \<in> {Some Realm_portal, Some Realm_any} \<and> (\<forall>k\<in>set (ap_permissions p). catalog_of k = Portal_catalog) \<and>
      (\<exists>r\<in>set (di_users (gs_directory s)). ur_id r = ap_user p \<and> ur_kind r = Portal_kind \<and>
         binding_of p = (case ur_account r of None \<Rightarrow> Bind_none | Some a \<Rightarrow> if a = [] then Bind_none else Bind_portal a) \<and>
         (is_clerk (ap_token p) \<longrightarrow> (\<exists>a key token v. ur_account r = Some a \<and> binding_of p = Bind_portal a \<and>
            account_key (gs_directory s) a = Some key \<and> bearer_of header = Some token \<and>
            verify_token (gc_jose cfg) (gc_options cfg) token = Inr v \<and>
            map_option js_lower (vt_org v) = Some (''acct-'' @ js_lower key))))
    else rt_realm rt \<noteq> Some Realm_portal \<and> binding_of p = Bind_operator (ap_accounts p) \<and>
      (ap_token p \<noteq> Api_key_token \<longrightarrow> (\<forall>k\<in>set (ap_permissions p). catalog_of k = Operator_catalog))"
proof -
  have auth: "authenticate cfg rt header now s = (Inr p, s')"
    and realm: "realm_ok (case rt_realm rt of None \<Rightarrow> Realm_internal | Some r \<Rightarrow> r) p"
    by (rule can_activate_admits [OF assms(1)], assumption)+
  obtain token where token: "bearer_of header = Some token"
    "if starts_with api_key_prefix token then resolve_api_client cfg token [(''route'', rt_route rt)] now s = (Inr p, s')
     else resolve_token cfg token (rt_axel rt) [(''route'', rt_route rt)] now s = (Inr p, s')"
    by (rule authenticate_admits [OF auth])
  note kind = admitted_token_type [OF auth]
  have portal: "db_role_of p = Portal_role \<longleftrightarrow> ap_kind p = Portal_realm" by (simp add: db_role_of_def)
  show ?thesis
  proof (cases "starts_with api_key_prefix token")
    case True
    with kind token(1) have "ap_kind p = Api_client_realm" "ap_token p = Api_key_token" by auto
    with realm show ?thesis by (auto simp: portal realm_ok_def binding_of_def)
  next
    case False
    with token have t: "resolve_token cfg token (rt_axel rt) [(''route'', rt_route rt)] now s = (Inr p, s')" by simp
    obtain r v where r: "r \<in> set (di_users (gs_directory s))" "verify_token (gc_jose cfg) (gc_options cfg) token = Inr v"
      "vt_type v = Clerk_agents \<longrightarrow> rt_axel rt" "ap_user p = ur_id r" "ur_status r \<noteq> Deactivated" "ur_kind r \<noteq> Service_kind"
      "is_clerk (vt_type v) \<longrightarrow> organisation_matches cfg (gs_directory s) r (vt_org v)"
      "ap_accounts p = fst (resolve_access (gs_directory s) r)" "ap_permissions p = snd (resolve_access (gs_directory s) r)"
      "ap_kind p = Portal_realm \<longleftrightarrow> ur_kind r = Portal_kind" "ap_token p = vt_type v"
      by (rule token_holder [OF t])
    have perms: "\<forall>k\<in>set (ap_permissions p). catalog_of k = user_catalog r"
      using permissions_in_catalog [OF assms(2)] r(9) by auto
    show ?thesis
    proof (cases "ur_kind r = Portal_kind")
      case True
      with r(10) have k: "ap_kind p = Portal_realm" by simp
      with r(8) portal_accounts [OF assms(2) True]
      have b: "binding_of p = (case ur_account r of None \<Rightarrow> Bind_none | Some a \<Rightarrow> if a = [] then Bind_none else Bind_portal a)"
        by (auto simp: binding_of_def split: option.splits)
      have "is_clerk (ap_token p) \<longrightarrow> (\<exists>a key token v. ur_account r = Some a \<and> binding_of p = Bind_portal a \<and>
          account_key (gs_directory s) a = Some key \<and> bearer_of header = Some token \<and>
          verify_token (gc_jose cfg) (gc_options cfg) token = Inr v \<and>
          map_option js_lower (vt_org v) = Some (''acct-'' @ js_lower key))"
      proof
        assume "is_clerk (ap_token p)"
        with r(7,11) True have "organisation_matches cfg (gs_directory s) r (vt_org v)" by simp
        with True obtain a key org where "ur_account r = Some a" "a \<noteq> []" "account_key (gs_directory s) a = Some key"
            "vt_org v = Some org" "js_lower org = ''acct-'' @ js_lower key"
          by (auto simp: organisation_matches_def is_set_def split: if_splits option.splits)
        with b r(2) token(1) show "\<exists>a key token v. ur_account r = Some a \<and> binding_of p = Bind_portal a \<and>
            account_key (gs_directory s) a = Some key \<and> bearer_of header = Some token \<and>
            verify_token (gc_jose cfg) (gc_options cfg) token = Inr v \<and>
            map_option js_lower (vt_org v) = Some (''acct-'' @ js_lower key)" by auto
      qed
      moreover have "rt_realm rt \<in> {Some Realm_portal, Some Realm_any}"
        using realm k by (auto simp: realm_ok_def split: option.splits route_realm.splits)
      ultimately show ?thesis
        using k b perms True r(1,4) by (auto simp: portal user_catalog_def)
    next
      case False
      with r(10) have k: "ap_kind p \<noteq> Portal_realm" by simp
      with perms realm False show ?thesis by (auto simp: portal binding_of_def user_catalog_def realm_ok_def)
    qed
  qed
qed

text \<open>A good API key whose service user has no row.\<close>

definition service_user_missing :: "guard_config \<Rightarrow> directory \<Rightarrow> ms \<Rightarrow> string option \<Rightarrow> bool" where
  "service_user_missing cfg d now header \<longleftrightarrow> (\<exists>token c. bearer_of header = Some token \<and> client_by_key cfg d token = Some c \<and>
     ak_active c \<and> \<not> client_expired now c \<and> user_by_id d (ak_user c) = None)"

definition denials :: "guard_state \<Rightarrow> security_event list" where
  "denials s = filter se_denied (gs_events s)"

lemma client_key_prefix: "client_by_key cfg d token = Some c \<Longrightarrow> starts_with api_key_prefix token"
  by (auto simp: client_by_key_def split: if_splits)

lemma prefix_ne [simp]: "\<not> starts_with api_key_prefix []"
  by (simp add: starts_with_iff api_key_prefix_def)

lemma refused: "refuse e (denied_event a b c d) s = (Inl e', s') \<Longrightarrow> e' = e \<and> (\<exists>ev. se_denied ev \<and> s' = write_event ev s)"
  by (auto simp: refuse_def intro!: exI [of _ "denied_event a b c d"] simp: denied_event_def)

lemma authenticate_refuses:
  assumes "authenticate cfg rt header now s = (Inl e, s')"
  shows "(if service_user_missing cfg (gs_directory s) now header then e = Invalid_api_key \<and> s' = s
      else \<exists>ev. se_denied ev \<and> s' = write_event ev s) \<and>
    e \<in> {Unauthenticated, Invalid_token, Unknown_user, User_inactive, Wrong_organisation, Invalid_api_key}"
proof (cases "bearer_of header")
  case None
  with assms show ?thesis by (auto simp: authenticate_def service_user_missing_def Let_def dest!: refused)
next
  case (Some token)
  show ?thesis
  proof (cases "starts_with api_key_prefix token")
    case True
    with Some assms have "resolve_api_client cfg token [(''route'', rt_route rt)] now s = (Inl e, s')"
      by (auto simp: authenticate_def Let_def split: if_splits)
    from resolve_api_client_refuses [OF this] Some show ?thesis by (auto simp: service_user_missing_def)
  next
    case False
    then have "\<not> service_user_missing cfg (gs_directory s) now header"
      using Some by (auto simp: service_user_missing_def dest: client_key_prefix)
    moreover consider "token = []" | "resolve_token cfg token (rt_axel rt) [(''route'', rt_route rt)] now s = (Inl e, s')"
      using False Some assms by (auto simp: authenticate_def Let_def split: if_splits)
    then have "(\<exists>ev. se_denied ev \<and> s' = write_event ev s) \<and> e \<in> {Unauthenticated, Invalid_token, Unknown_user, User_inactive, Wrong_organisation, Invalid_api_key}"
      using Some assms
      by cases (auto simp: authenticate_def Let_def dest!: refused elim!: resolve_token_refuses)
    ultimately show ?thesis by simp
  qed
qed

lemma note_session_denials [simp]: "denials (note_session p attrs now s) = denials s"
  by (simp add: note_session_def denials_def Let_def write_event_def on_directory_def)

lemma authenticate_admits_denials:
  assumes "authenticate cfg rt header now s = (Inr p, s')"
  shows "denials s' = denials s"
proof -
  obtain token where token: 
    "if starts_with api_key_prefix token then resolve_api_client cfg token [(''route'', rt_route rt)] now s = (Inr p, s')
     else resolve_token cfg token (rt_axel rt) [(''route'', rt_route rt)] now s = (Inr p, s')"
    by (rule authenticate_admits [OF assms])
  show ?thesis
  proof (cases "starts_with api_key_prefix token")
    case True
    with token have "resolve_api_client cfg token [(''route'', rt_route rt)] now s = (Inr p, s')" by simp
    then show ?thesis by (auto elim!: resolve_api_client_admits simp: denials_def write_event_def on_directory_def)
  next
    case False
    with token have t: "resolve_token cfg token (rt_axel rt) [(''route'', rt_route rt)] now s = (Inr p, s')" by simp
    show ?thesis
    proof (rule resolve_token_admits [OF t])
      fix v u bind s1
      assume "s1 = (if bind then on_directory (attach_clerk_id (ur_id u) (vt_subject v) now) s else s)"
        and s': "s' = note_session p [(''route'', rt_route rt)] now s1"
      then have "denials s1 = denials s" by (simp add: denials_def on_directory_def)
      with s' show ?thesis by simp
    qed
  qed
qed

text \<open>C21: Every refusal leaves a record, with two exceptions: a request the guard refuses adds exactly one denied event,
  except when the route declares no permission, and when the service user of a good API key is missing
  (the header of the guard promises an event for every denial); and a request refused before it is
  authorised changes nothing else.\<close>

theorem refusals_recorded:
  assumes "can_activate cfg rt header now s = (Inl e, s')"
  shows "(if e = Route_without_permission (rt_route rt) \<or> service_user_missing cfg (gs_directory s) now header \<and> e = Invalid_api_key
      then denials s' = denials s
      else \<exists>ev. se_denied ev \<and> denials s' = denials s @ [ev]) \<and>
    (e \<in> {Unauthenticated, Invalid_token, Unknown_user, User_inactive, Wrong_organisation, Invalid_api_key} \<longrightarrow>
      gs_directory s' = gs_directory s \<and> gs_seen s' = gs_seen s)"
proof (cases "authenticate cfg rt header now s")
  case (Pair r s1)
  show ?thesis
  proof (cases r)
    case (Inl e')
    with Pair assms have "authenticate cfg rt header now s = (Inl e, s')" by (auto simp: can_activate_def split: if_splits)
    from authenticate_refuses [OF this] show ?thesis by (auto simp: denials_def write_event_def split: if_splits)
  next
    case (Inr p)
    with Pair have a: "authenticate cfg rt header now s = (Inr p, s1)" by simp
    with assms have "authorise rt p s1 = (Inl e, s')" by (auto simp: can_activate_def split: if_splits prod.splits sum.splits)
    then show ?thesis using authenticate_admits_denials [OF a]
      by (auto simp: authorise_def refuse_def principal_denied_def denials_def write_event_def Let_def split: if_splits)
  qed
qed

subsection \<open>Sequences of requests\<close>

inductive guard_step :: "guard_config \<Rightarrow> guard_state \<Rightarrow> guard_state \<Rightarrow> bool" for cfg where
  request: "can_activate cfg rt header now s = (r, s') \<Longrightarrow> guard_step cfg s s'"

text \<open>What a request may do to a row: stamp a sign-in, and bind the subject of a row that had none.\<close>

definition row_kept :: "user_row \<Rightarrow> user_row \<Rightarrow> bool" where
  "row_kept u u' \<longleftrightarrow> ur_id u' = ur_id u \<and> ur_kind u' = ur_kind u \<and> ur_account u' = ur_account u \<and> ur_email u' = ur_email u \<and>
     (ur_clerk u = None \<or> ur_clerk u' = ur_clerk u) \<and>
     (ur_status u' = ur_status u \<or> ur_status u = Invited \<and> ur_status u' = Active_user \<and> ur_clerk u = None \<and> ur_clerk u' \<noteq> None)"

lemma row_kept_refl [simp]: "row_kept u u"
  by (simp add: row_kept_def)

lemma row_kept_trans: "row_kept u v \<Longrightarrow> row_kept v w \<Longrightarrow> row_kept u w"
  by (auto simp: row_kept_def)

definition rows_kept :: "directory \<Rightarrow> directory \<Rightarrow> bool" where
  "rows_kept d d' \<longleftrightarrow> list_all2 row_kept (di_users d) (di_users d') \<and> di_accounts d' = di_accounts d \<and> di_grants d' = di_grants d \<and>
     di_roles d' = di_roles d \<and> di_assignments d' = di_assignments d \<and> di_client_grants d' = di_client_grants d"

lemma rows_kept_refl [simp]: "rows_kept d d"
  by (simp add: rows_kept_def list_all2_refl)

lemma rows_kept_trans: "rows_kept d e \<Longrightarrow> rows_kept e f \<Longrightarrow> rows_kept d f"
  unfolding rows_kept_def using list_all2_trans [of row_kept row_kept row_kept "di_users d" "di_users e" "di_users f"] row_kept_trans
  by (metis (no_types, lifting))

lemma touches_keep_rows [simp]:
  "rows_kept d (touch_sign_in i now d)" "rows_kept d (touch_api_client c now d)" "rows_kept d (attach_clerk_id i subject now d)"
  by (auto simp: rows_kept_def touch_sign_in_def touch_api_client_def attach_clerk_id_def list_all2_map2 row_kept_def
      intro!: list_all2_same [THEN iffD2])

text \<open>The bound subjects of the table; the data model keeps both columns unique.\<close>

definition subjects_unique :: "directory \<Rightarrow> bool" where
  "subjects_unique d \<longleftrightarrow> distinct (map ur_id (di_users d)) \<and> distinct (List.map_filter ur_clerk (di_users d))"

lemma subjects_update:
  assumes "\<And>u. ur_clerk (f u) = ur_clerk u"
  shows "List.map_filter ur_clerk (map f us) = List.map_filter ur_clerk us"
  by (induction us) (simp_all add: List.map_filter_simps assms split: option.split)

lemma touches_keep_subjects [simp]:
  "subjects_unique (touch_sign_in i now d) = subjects_unique d" "subjects_unique (touch_api_client c now d) = subjects_unique d"
  by (auto simp: subjects_unique_def touch_sign_in_def touch_api_client_def subjects_update comp_def if_distrib cong: if_cong)

lemma bind_one_subject:
  assumes "distinct (map ur_id us)" "distinct (List.map_filter ur_clerk us)" "\<forall>u\<in>set us. ur_clerk u \<noteq> Some subject"
    and g: "\<And>u. ur_clerk (g u) = Some subject"
  shows "distinct (List.map_filter ur_clerk (map (\<lambda>u. if ur_id u = i \<and> ur_clerk u = None then g u else u) us)) \<and>
    set (List.map_filter ur_clerk (map (\<lambda>u. if ur_id u = i \<and> ur_clerk u = None then g u else u) us))
      \<subseteq> set (List.map_filter ur_clerk us) \<union> (if i \<in> ur_id ` set us then {subject} else {})"
  using assms(1-3)
proof (induction us)
  case (Cons u us)
  have other: "map (\<lambda>u. if ur_id u = i \<and> ur_clerk u = None then g u else u) us = us" if "i \<notin> ur_id ` set us"
    using that by (auto intro!: map_idI)
  have rest: "subject \<notin> set (List.map_filter ur_clerk us)"
    using Cons.prems(3) by (auto simp: List.map_filter_def)
  show ?case
  proof (cases "ur_id u = i")
    case True
    with Cons.prems have "i \<notin> ur_id ` set us" by auto
    with other rest Cons.prems True show ?thesis by (auto simp: List.map_filter_simps g split: option.splits)
  next
    case False
    with Cons show ?thesis by (auto simp: List.map_filter_simps split: option.splits if_splits)
  qed
qed (simp add: List.map_filter_simps)

lemma attach_keeps_subjects:
  assumes "subjects_unique d" "user_by_clerk d subject = None"
  shows "subjects_unique (attach_clerk_id i subject now d)"
proof -
  let ?g = "\<lambda>u. u\<lparr>ur_clerk := Some subject, ur_status := if ur_status u = Invited then Active_user else ur_status u, ur_signed_in := Some now\<rparr>"
  let ?f = "\<lambda>u. if ur_id u = i \<and> ur_clerk u = None then ?g u else u"
  have "\<forall>u\<in>set (di_users d). ur_clerk u \<noteq> Some subject"
    using assms(2) by (auto simp: user_by_clerk_def find_None_iff)
  with assms(1) have "distinct (List.map_filter ur_clerk (map ?f (di_users d)))"
    by (intro conjunct1 [OF bind_one_subject]) (simp_all add: subjects_unique_def)
  moreover have "map ur_id (map ?f (di_users d)) = map ur_id (di_users d)" by simp
  moreover have "di_users (attach_clerk_id i subject now d) = map ?f (di_users d)" by (simp add: attach_clerk_id_def)
  ultimately show ?thesis using assms(1) by (simp only: subjects_unique_def simp_thms)
qed

text \<open>The remembered sessions: distinct, not empty, and never more than one past the bound.\<close>

definition sessions_bounded :: "string list \<Rightarrow> bool" where
  "sessions_bounded seen \<longleftrightarrow> distinct seen \<and> [] \<notin> set seen \<and> length seen \<le> Suc max_seen"

lemma note_session_seen:
  assumes "sessions_bounded (gs_seen s)" "session_key p \<noteq> []"
  shows "sessions_bounded (gs_seen (note_session p attrs now s))"
proof (cases "gs_seen s")
  case Nil
  with assms show ?thesis by (simp add: note_session_def Let_def write_event_def on_directory_def sessions_bounded_def max_seen_def)
next
  case (Cons k ks)
  with assms show ?thesis
    by (auto simp: note_session_def Let_def write_event_def on_directory_def sessions_bounded_def)
qed

lemma note_session_directory:
  "rows_kept (gs_directory s) (gs_directory (note_session p attrs now s))"
  "subjects_unique (gs_directory (note_session p attrs now s)) = subjects_unique (gs_directory s)"
  by (simp_all add: note_session_def Let_def write_event_def on_directory_def)

definition guard_ok :: "guard_state \<Rightarrow> bool" where
  "guard_ok s \<longleftrightarrow> subjects_unique (gs_directory s) \<and> sessions_bounded (gs_seen s)"

lemma resolve_token_keeps:
  assumes "resolve_token cfg token axel attrs now s = (Inr p, s')" "guard_ok s"
  shows "guard_ok s' \<and> rows_kept (gs_directory s) (gs_directory s')"
proof -
  obtain v u bind s1 where
    v: "verify_token (gc_jose cfg) (gc_options cfg) token = Inr v" "vt_type v = Clerk_agents \<longrightarrow> axel"
    "find_user (gs_directory s) v = Some (u, bind)" "ur_status u \<noteq> Deactivated" "ur_kind u \<noteq> Service_kind"
    "is_clerk (vt_type v) \<longrightarrow> organisation_matches cfg (gs_directory s) u (vt_org v)"
    "s1 = (if bind then on_directory (attach_clerk_id (ur_id u) (vt_subject v) now) s else s)"
    "p = token_principal (gs_directory s1) u v" "s' = note_session p attrs now s1"
    by (rule resolve_token_admits [OF assms(1)])
  have fresh: "bind \<longrightarrow> user_by_clerk (gs_directory s) (vt_subject v) = None"
    by (rule find_user_row [OF v(3)]) simp
  have key: "session_key p \<noteq> []"
    using verified_session_ne [OF v(1)] v(8) by (auto simp: session_key_def token_principal_def split: option.splits)
  have "guard_ok s1" "rows_kept (gs_directory s) (gs_directory s1)" "gs_seen s1 = gs_seen s"
    using assms(2) fresh v(7) attach_keeps_subjects [of "gs_directory s" "vt_subject v"]
    by (auto simp: guard_ok_def on_directory_def)
  with key v(9) note_session_seen [of s1 p] rows_kept_trans [OF _ note_session_directory(1)] show ?thesis
    by (auto simp: guard_ok_def note_session_directory(2))
qed

lemma guard_step_keeps:
  assumes "guard_step cfg s s'" "guard_ok s"
  shows "guard_ok s' \<and> rows_kept (gs_directory s) (gs_directory s')"
proof -
  from assms(1) obtain rt header now r where run: "can_activate cfg rt header now s = (r, s')" by cases auto
  have same: "guard_ok s2 \<and> rows_kept (gs_directory s) (gs_directory s2)"
    if "guard_ok s1 \<and> rows_kept (gs_directory s) (gs_directory s1)" "s2 = s1 \<or> (\<exists>ev. s2 = write_event ev s1)" for s1 s2
    using that by (auto simp: guard_ok_def write_event_def)
  have authorised: "s2 = s1 \<or> (\<exists>ev. s2 = write_event ev s1)" if "authorise rt p s1 = (q, s2)" for p q s1 s2
    using that by (auto simp: authorise_def refuse_def Let_def split: if_splits)
  have authenticated: "guard_ok s1 \<and> rows_kept (gs_directory s) (gs_directory s1)" if a: "authenticate cfg rt header now s = (q, s1)" for q s1
  proof (cases q)
    case (Inl e)
    with a authenticate_refuses [of cfg rt header now s e s1] have "s1 = s \<or> (\<exists>ev. s1 = write_event ev s)"
      by (auto split: if_splits)
    with same [of s s1] assms(2) show ?thesis by simp
  next
    case (Inr p)
    with a have a: "authenticate cfg rt header now s = (Inr p, s1)" by simp
    obtain token where token:
      "if starts_with api_key_prefix token then resolve_api_client cfg token [(''route'', rt_route rt)] now s = (Inr p, s1)
       else resolve_token cfg token (rt_axel rt) [(''route'', rt_route rt)] now s = (Inr p, s1)"
      by (rule authenticate_admits [OF a])
    show ?thesis
    proof (cases "starts_with api_key_prefix token")
      case True
      with token have "resolve_api_client cfg token [(''route'', rt_route rt)] now s = (Inr p, s1)" by simp
      then show ?thesis using assms(2) by (auto elim!: resolve_api_client_admits simp: guard_ok_def write_event_def on_directory_def)
    qed (use token resolve_token_keeps assms(2) in auto)
  qed
  show ?thesis
  proof (cases "is_set (rt_public rt)")
    case True
    with run assms(2) show ?thesis by (simp add: can_activate_def)
  next
    case False
    obtain q s1 where q: "authenticate cfg rt header now s = (q, s1)" by (cases "authenticate cfg rt header now s")
    note ok = authenticated [OF q]
    show ?thesis
    proof (cases q)
      case (Inl e)
      with q run False ok show ?thesis by (simp add: can_activate_def)
    next
      case (Inr p)
      obtain r2 s2 where a: "authorise rt p s1 = (r2, s2)" by (cases "authorise rt p s1")
      with q run False Inr have "s' = s2" by (auto simp: can_activate_def split: sum.splits)
      with same [OF ok authorised [OF a]] show ?thesis by simp
    qed
  qed
qed

text \<open>C22: No sequence of requests takes a row over: from tables whose ids and subjects are unique, the rows stay the same in
  order, id, kind, account and email, a bound subject is never changed, only an unbound invited row becomes
  active (with its subject), a deactivated one stays so, no subject is ever bound to two rows, grants, roles and
  accounts are untouched, and the guard remembers at most 5001 distinct sessions.\<close>

theorem guard_history_sound:
  assumes "(guard_step cfg)\<^sup>*\<^sup>* s s'" "guard_ok s"
  shows "guard_ok s' \<and> rows_kept (gs_directory s) (gs_directory s') \<and> length (gs_seen s') \<le> 5001"
proof -
  from assms have "guard_ok s' \<and> rows_kept (gs_directory s) (gs_directory s')"
    by (induction rule: rtranclp_induct) (auto intro: rows_kept_trans dest: guard_step_keeps)
  then show ?thesis by (simp add: guard_ok_def sessions_bounded_def max_seen_def)
qed

subsection \<open>Requests at a sample directory\<close>

definition clerk_claims :: "string \<Rightarrow> string \<Rightarrow> string \<Rightarrow> json" where
  "clerk_claims subject email org = JObj [(''iss'', JStr ''https://clerk''), (''azp'', JStr ''web''), (''sub'', JStr subject),
     (''email'', JStr email), (''sid'', JStr (''sess-'' @ subject)), (''org_slug'', JStr org)]"

definition sample_claims :: "json js_map" where
  "sample_claims =
     [(''ann'', clerk_claims ''s1'' ''ann@xms'' ''xms''),
      (''pat'', clerk_claims ''s2'' ''pat@acme'' ''ACCT-acme''),
      (''mal'', clerk_claims ''s3'' ''pat@acme'' ''acct-other''),
      (''new'', clerk_claims ''s9'' ''ann@xms'' ''xms'')]"

definition sample_guard :: guard_config where
  "sample_guard = \<lparr>gc_jose = \<lparr>jo_alg = \<lambda>t. if map_of sample_claims t = None then None else Some (Some ''RS256''),
       jo_claims = map_of sample_claims,
       jo_verify = \<lambda>key alg issuer t. case map_of sample_claims t of None \<Rightarrow> Inl \<lparr>jf_code = ''ERR_JWT_EXPIRED'', jf_claim = None\<rparr> | Some c \<Rightarrow> Inr c\<rparr>,
     gc_options = \<lparr>vo_clerk = Some \<lparr>cl_issuer = ''https://clerk'', cl_parties = [''web''], cl_agents_audience = None\<rparr>,
       vo_harness_secret = None, vo_dev_secret = None\<rparr>,
     gc_internal_org = ''xms'', gc_lookup_hash = rev, gc_confirm = \<lambda>key secret. key = secret\<rparr>"

definition sample_user :: "string \<Rightarrow> user_kind \<Rightarrow> string \<Rightarrow> user_row" where
  "sample_user i kind email = \<lparr>ur_id = i, ur_kind = kind, ur_account = if kind = Portal_kind then Some ''a1'' else None, ur_email = email,
     ur_first = [], ur_last = [], ur_status = Active_user, ur_clerk = None, ur_signed_in = None\<rparr>"

definition sample_key :: string where
  "sample_key = ''xms_live_1''"

definition sample_directory :: directory where
  "sample_directory = \<lparr>di_users = [(sample_user ''u1'' Internal_kind ''ann@xms'')\<lparr>ur_clerk := Some ''s1''\<rparr>,
       (sample_user ''u2'' Portal_kind ''pat@acme'')\<lparr>ur_status := Invited\<rparr>, sample_user ''u3'' Service_kind ''svc''],
     di_accounts = [\<lparr>ac_id = ''a1'', ac_key = ''acme'', ac_status = ''active''\<rparr>], di_grants = [(''u1'', ''a1'')],
     di_roles = [\<lparr>ro_id = ''r1'', ro_permissions = [''admin:users''], ro_active = True, ro_catalog = Operator_catalog\<rparr>,
       \<lparr>ro_id = ''r2'', ro_permissions = [''portal:manage-users''], ro_active = True, ro_catalog = Portal_catalog\<rparr>],
     di_assignments = [\<lparr>ra_user = ''u1'', ra_role = ''r1'', ra_account = None\<rparr>, \<lparr>ra_user = ''u2'', ra_role = ''r2'', ra_account = None\<rparr>],
     di_clients = [\<lparr>ak_id = ''k1'', ak_name = ''erp'', ak_user = ''u3'', ak_lookup = rev sample_key, ak_secret = sample_key,
       ak_scopes = [''admin:users'', ''nonsense''], ak_expires = Some 100, ak_active = True, ak_rate = 600, ak_used = None\<rparr>],
     di_client_grants = [(''k1'', ''a1'')]\<rparr>"

definition sample_state :: guard_state where
  "sample_state = \<lparr>gs_directory = sample_directory, gs_seen = [], gs_events = []\<rparr>"

definition sample_route :: "route_realm \<Rightarrow> string \<Rightarrow> route_entry" where
  "sample_route realm perm = \<lparr>rt_route = ''GET /x'', rt_realm = Some realm, rt_permission = Some perm, rt_public = None, rt_axel = False\<rparr>"

abbreviation ask :: "route_realm \<Rightarrow> string \<Rightarrow> string \<Rightarrow> (auth_error + auth_principal option) \<times> guard_state" where
  "ask realm perm token \<equiv> can_activate sample_guard (sample_route realm perm) (Some (''Bearer '' @ token)) 50 sample_state"

lemma pair_value:
  "(case r of (Inl e, t) \<Rightarrow> False | (Inr q, t) \<Rightarrow> (case q of None \<Rightarrow> False | Some p \<Rightarrow> P p t)) \<Longrightarrow> \<exists>p t. r = (Inr (Some p), t) \<and> P p t"
  by (auto split: prod.splits sum.splits option.splits)

lemma sample_ok: "guard_ok sample_state" "roles_in_catalog (gs_directory sample_state)"
proof -
  show "guard_ok sample_state"
    by (simp add: guard_ok_def subjects_unique_def sessions_bounded_def sample_state_def sample_directory_def sample_user_def List.map_filter_simps)
  have "list_all (\<lambda>r. list_all (\<lambda>k. is_permission k \<longrightarrow> catalog_of k = ro_catalog r) (ro_permissions r)) (di_roles (gs_directory sample_state))"
    by code_simp
  then show "roles_in_catalog (gs_directory sample_state)" by (simp add: roles_in_catalog_def list_all_iff)
qed

lemma pat_enters:
  obtains p t where "ask Realm_portal ''portal:submit'' ''pat'' = (Inr (Some p), t)" "ap_accounts p = [''a1'']" "db_role_of p = Portal_role"
    "ap_user p = ''u2''" "ap_token p = Clerk" "map ur_clerk (di_users (gs_directory t)) = [Some ''s1'', Some ''s2'', None]"
proof -
  have "(case ask Realm_portal ''portal:submit'' ''pat'' of (Inl e, t) \<Rightarrow> False | (Inr q, t) \<Rightarrow> (case q of None \<Rightarrow> False | Some p \<Rightarrow>
      ap_accounts p = [''a1''] \<and> db_role_of p = Portal_role \<and> ap_user p = ''u2'' \<and> ap_token p = Clerk \<and>
      map ur_clerk (di_users (gs_directory t)) = [Some ''s1'', Some ''s2'', None]))" by code_simp
  with that show thesis by (auto dest!: pair_value)
qed


theorem portal_request_confined_witness:
  "\<exists>p t. ask Realm_portal ''portal:submit'' ''pat'' = (Inr (Some p), t) \<and> binding_of p = Bind_portal ''a1'' \<and>
     (\<exists>key. account_key sample_directory ''a1'' = Some key \<and> key = ''acme'')"
proof -
  obtain p t where p: "ask Realm_portal ''portal:submit'' ''pat'' = (Inr (Some p), t)" "ap_accounts p = [''a1'']"
    "db_role_of p = Portal_role" "ap_token p = Clerk" by (rule pat_enters)
  have a: "account_key sample_directory ''a1'' = Some ''acme''" by code_simp
  from portal_request_confined [OF p(1) sample_ok(2)] p(3,4)
  obtain a where "binding_of p = Bind_portal a" by (auto simp: is_clerk_def)
  with p(2) have "binding_of p = Bind_portal ''a1''" by (auto simp: binding_of_def split: if_splits)
  with p(1) a show ?thesis by blast
qed

theorem refusals_recorded_witness:
  "\<exists>t ev. ask Realm_portal ''portal:submit'' ''mal'' = (Inl Wrong_organisation, t) \<and> denials t = [ev] \<and> gs_directory t = sample_directory"
proof -
  have "(case ask Realm_portal ''portal:submit'' ''mal'' of (Inl e, t) \<Rightarrow> e = Wrong_organisation | (Inr q, t) \<Rightarrow> False)" by code_simp
  then obtain t where t: "ask Realm_portal ''portal:submit'' ''mal'' = (Inl Wrong_organisation, t)"
    by (auto split: prod.splits sum.splits)
  from refusals_recorded [OF t] show ?thesis using t by (auto simp: sample_state_def denials_def)
qed

theorem guard_history_sound_witness:
  "\<exists>t. (guard_step sample_guard)\<^sup>*\<^sup>* sample_state t \<and> map ur_clerk (di_users (gs_directory t)) = [Some ''s1'', Some ''s2'', None] \<and>
     rows_kept sample_directory (gs_directory t)"
proof -
  obtain p t where p: "ask Realm_portal ''portal:submit'' ''pat'' = (Inr (Some p), t)"
    "map ur_clerk (di_users (gs_directory t)) = [Some ''s1'', Some ''s2'', None]" by (rule pat_enters)
  have step: "(guard_step sample_guard)\<^sup>*\<^sup>* sample_state t"
    by (rule r_into_rtranclp) (rule guard_step.request [OF p(1)])
  from guard_history_sound [OF step sample_ok(1)] step p(2) show ?thesis by (auto simp: sample_state_def)
qed

text \<open>The scopes of an API client are not closed under the implications, against the comment on the principal: the same
  key, administering users, opens the routes on API clients to a user who has it through a role and not to
  a client that has it as a scope.\<close>

theorem api_scopes_not_closed:
  "(\<exists>p t. ask Realm_internal ''admin:api-clients'' ''ann'' = (Inr (Some p), t)) \<and>
   (\<exists>p t. ask Realm_internal ''admin:users'' sample_key = (Inr (Some p), t) \<and> ap_permissions p = [''admin:users'']) \<and>
   fst (ask Realm_internal ''admin:api-clients'' sample_key) = Inl (Forbidden ''admin:api-clients'')"
proof -
  have "(case ask Realm_internal ''admin:api-clients'' ''ann'' of (Inl e, t) \<Rightarrow> False | (Inr q, t) \<Rightarrow> (case q of None \<Rightarrow> False | Some p \<Rightarrow> True))"
    and "(case ask Realm_internal ''admin:users'' sample_key of (Inl e, t) \<Rightarrow> False | (Inr q, t) \<Rightarrow>
      (case q of None \<Rightarrow> False | Some p \<Rightarrow> ap_permissions p = [''admin:users'']))"
    and "(case ask Realm_internal ''admin:api-clients'' sample_key of (Inl e, t) \<Rightarrow> e = Forbidden ''admin:api-clients'' | (Inr q, t) \<Rightarrow> False)"
    by code_simp+
  then show ?thesis by (auto split: prod.splits sum.splits option.splits)
qed

text \<open>An email opens a row that is already bound: the comment on the binding speaks of a pre-invited user matched by email,
  but a token with another subject and the same email and organisation is admitted as the user of a row
  that is bound to somebody else's subject, which stays bound to it.\<close>

theorem bound_row_entered_by_email:
  "\<exists>p t. ask Realm_internal ''admin:users'' ''new'' = (Inr (Some p), t) \<and> ap_user p = ''u1'' \<and>
     map ur_clerk (di_users (gs_directory t)) = [Some ''s1'', None, None]"
proof -
  have "(case ask Realm_internal ''admin:users'' ''new'' of (Inl e, t) \<Rightarrow> False | (Inr q, t) \<Rightarrow> (case q of None \<Rightarrow> False | Some p \<Rightarrow>
      ap_user p = ''u1'' \<and> map ur_clerk (di_users (gs_directory t)) = [Some ''s1'', None, None]))" by code_simp
  then show ?thesis by (rule pair_value)
qed

end
