(* ===== verification/Rate_Limit.thy ===== *)
theory Rate_Limit
  imports Access
begin

section \<open>Rate limiting\<close>

text \<open>
  \<open>common/rate-limit\<close>: the fixed-window counter per key (\<open>rate-limiter.ts\<close>), the middleware that keys on
  the caller for the outward-facing paths, and the interceptor that keys on the API client the guard
  admitted. The limiter is the state (its map of windows, and when it was last pruned); the clock is an
  argument of each hit. The response headers and the refusal event are part of the outcome. All callers
  use one window length, the constant of one minute.
\<close>

record window =
  wi_count :: int
  wi_started :: ms
  wi_refused :: bool

record limiter =
  li_windows :: "window js_map"
  li_pruned :: ms

record limit_decision =
  ld_allowed :: bool
  ld_remaining :: int
  ld_retry :: int
  ld_first_refusal :: bool

definition new_limiter :: limiter where
  "new_limiter = \<lparr>li_windows = [], li_pruned = 0\<rparr>"

definition prune :: "ms \<Rightarrow> ms \<Rightarrow> limiter \<Rightarrow> limiter" where
  "prune t w l = (if t - li_pruned l < w then l
     else l\<lparr>li_pruned := t, li_windows := filter (\<lambda>(k, v). t - wi_started v < w) (li_windows l)\<rparr>)"

definition fresh_window :: "ms \<Rightarrow> window" where
  "fresh_window t = \<lparr>wi_count = 0, wi_started = t, wi_refused = False\<rparr>"

definition current_window :: "ms \<Rightarrow> ms \<Rightarrow> window option \<Rightarrow> window" where
  "current_window t w v = (case v of None \<Rightarrow> fresh_window t | Some v \<Rightarrow> if t - wi_started v \<ge> w then fresh_window t else v)"

text \<open>Counting one hit in its window.\<close>

definition count_hit :: "int \<Rightarrow> ms \<Rightarrow> ms \<Rightarrow> window \<Rightarrow> limit_decision \<times> window" where
  "count_hit max_hits w t v =
     (let n = wi_count v + 1;
          retry = max 1 \<lceil>of_int (wi_started v + w - t) / (1000 :: rat)\<rceil>
      in if max_hits < n
         then (\<lparr>ld_allowed = False, ld_remaining = 0, ld_retry = retry, ld_first_refusal = \<not> wi_refused v\<rparr>, v\<lparr>wi_count := n, wi_refused := True\<rparr>)
         else (\<lparr>ld_allowed = True, ld_remaining = max_hits - n, ld_retry = retry, ld_first_refusal = False\<rparr>, v\<lparr>wi_count := n\<rparr>))"

definition hit :: "string \<Rightarrow> int \<Rightarrow> ms \<Rightarrow> ms \<Rightarrow> limiter \<Rightarrow> limit_decision \<times> limiter" where
  "hit key max_hits w t l =
     (let l1 = prune t w l;
          (d, v) = count_hit max_hits w t (current_window t w (map_of (li_windows l1) key))
      in (d, l1\<lparr>li_windows := AList.update key v (li_windows l1)\<rparr>))"

subsection \<open>The policies of the middleware\<close>

definition window_ms :: ms where
  "window_ms = 60000"

datatype policy_name = Policy_portal | Policy_webhook | Policy_public

fun policy_text :: "policy_name \<Rightarrow> string" where
  "policy_text Policy_portal = ''portal''"
| "policy_text Policy_webhook = ''webhook''"
| "policy_text Policy_public = ''public''"

text \<open>What follows \<open>/v\<close> and one or more digits at the start of a path.\<close>

definition after_version :: "string \<Rightarrow> string option" where
  "after_version path = (if starts_with ''/v'' path
     then (let rest = drop 2 path in if takeWhile is_digit rest = [] then None else Some (dropWhile is_digit rest))
     else None)"

text \<open>A segment, ended by a slash or by the end of the path.\<close>

definition has_segment :: "string \<Rightarrow> string \<Rightarrow> bool" where
  "has_segment name rest \<longleftrightarrow> starts_with (''/'' @ name) rest \<and>
     (case drop (Suc (length name)) rest of [] \<Rightarrow> True | c # _ \<Rightarrow> c = CHR ''/'')"

definition public_names :: "string list" where
  "public_names = [''bootstrap'', ''telemetry'', ''storage'', ''dev'', ''csp-report'', ''csat'', ''calendar-feed'']"

definition policy_matches :: "policy_name \<Rightarrow> string \<Rightarrow> bool" where
  "policy_matches p path = (case after_version path of None \<Rightarrow> False | Some rest \<Rightarrow>
     (case p of Policy_webhook \<Rightarrow> starts_with ''/webhooks/'' rest
        | Policy_portal \<Rightarrow> has_segment ''portal'' rest
        | Policy_public \<Rightarrow> list_ex (\<lambda>n. has_segment n rest) public_names))"

record rate_limits =
  rl_webhook :: int
  rl_portal :: int
  rl_public :: int

definition policies_from_env :: "rate_limits \<Rightarrow> (policy_name \<times> int) list" where
  "policies_from_env env = [(Policy_webhook, rl_webhook env), (Policy_portal, rl_portal env), (Policy_public, rl_public env)]"

datatype limit_outcome = Passed | Counted int int | Refused int int bool

text \<open>
  \<open>Counted limit remaining\<close> goes on with the two headers; \<open>Refused limit retry event\<close> is the 429, with
  whether an event was written.
\<close>

definition outcome_of :: "int \<Rightarrow> limit_decision \<Rightarrow> limit_outcome" where
  "outcome_of limit d = (if ld_allowed d then Counted limit (ld_remaining d) else Refused limit (ld_retry d) (ld_first_refusal d))"

definition limit_request :: "(policy_name \<times> int) list \<Rightarrow> string \<Rightarrow> string option \<Rightarrow> string option \<Rightarrow> ms \<Rightarrow> limiter \<Rightarrow> limit_outcome \<times> limiter" where
  "limit_request policies url ip_hash ip t l =
     (let path = takeWhile (\<lambda>c. c \<noteq> CHR ''?'') url
      in case find (\<lambda>(p, per_minute). 0 < per_minute \<and> policy_matches p path) policies of
           None \<Rightarrow> (Passed, l)
         | Some (p, per_minute) \<Rightarrow>
             let caller = (case ip_hash of Some h \<Rightarrow> h | None \<Rightarrow> (case ip of Some a \<Rightarrow> a | None \<Rightarrow> ''unknown''));
                 (d, l') = hit (policy_text p @ '':'' @ caller) per_minute window_ms t l
             in (outcome_of per_minute d, l'))"

definition default_api_client_per_minute :: int where
  "default_api_client_per_minute = 600"

definition limit_api_client :: "auth_principal option \<Rightarrow> ms \<Rightarrow> limiter \<Rightarrow> limit_outcome \<times> limiter" where
  "limit_api_client who t l = (case who of
     None \<Rightarrow> (Passed, l)
   | Some p \<Rightarrow>
       if ap_token p \<noteq> Api_key_token \<or> \<not> is_set (ap_session p) then (Passed, l)
       else let limit = (case ap_rate p of None \<Rightarrow> default_api_client_per_minute | Some n \<Rightarrow> n);
                (d, l') = hit (''api_client:'' @ the (ap_session p)) limit window_ms t l
            in (outcome_of limit d, l'))"

subsection \<open>A run of hits, seen from one key\<close>

text \<open>A hit of a run: the key, its maximum and the time; its entry in the trace adds the decision.\<close>

record hit_entry =
  he_key :: string
  he_max :: int
  he_time :: ms
  he_decision :: limit_decision

fun run_hits :: "ms \<Rightarrow> limiter \<Rightarrow> (string \<times> int \<times> ms) list \<Rightarrow> hit_entry list \<times> limiter" where
  "run_hits w l [] = ([], l)"
| "run_hits w l ((k, m, t) # hs) =
     (let (d, l1) = hit k m w t l; (es, l2) = run_hits w l1 hs
      in (\<lparr>he_key = k, he_max = m, he_time = t, he_decision = d\<rparr> # es, l2))"

text \<open>The counter of one key on its own: the reference the limiter is compared with.\<close>

fun run_key :: "int \<Rightarrow> ms \<Rightarrow> window option \<Rightarrow> ms list \<Rightarrow> (ms \<times> limit_decision) list" where
  "run_key m w v [] = []"
| "run_key m w v (t # ts) = (let (d, v') = count_hit m w t (current_window t w v) in (t, d) # run_key m w (Some v') ts)"

text \<open>A window as it counts at a time: an expired one is as good as none.\<close>

definition live :: "ms \<Rightarrow> ms \<Rightarrow> window option \<Rightarrow> window option" where
  "live t w v = (case v of None \<Rightarrow> None | Some v \<Rightarrow> if t - wi_started v \<ge> w then None else Some v)"

abbreviation window_of :: "limiter \<Rightarrow> string \<Rightarrow> window option" where
  "window_of l k \<equiv> map_of (li_windows l) k"

lemma current_window_live [simp]: "t \<le> t' \<Longrightarrow> current_window t' w (live t w v) = current_window t' w v"
  by (auto simp: current_window_def live_def split: option.splits)

lemma run_key_live: "\<forall>t'\<in>set ts. t \<le> t' \<Longrightarrow> run_key m w (live t w v) ts = run_key m w v ts"
  by (cases ts) simp_all

lemma map_of_filter_values:
  assumes "distinct (map fst m)"
  shows "map_of (filter (\<lambda>(k, v). P v) m) k = (case map_of m k of None \<Rightarrow> None | Some v \<Rightarrow> if P v then Some v else None)"
  using assms
proof (induction m)
  case (Cons e m)
  moreover have "map_of m (fst e) = None" using Cons.prems by (simp add: map_of_eq_None_iff)
  ultimately show ?case by (cases e) (auto split: option.splits)
qed simp

definition keys_distinct :: "limiter \<Rightarrow> bool" where
  "keys_distinct l \<longleftrightarrow> distinct (map fst (li_windows l))"

lemma prune_keys: "keys_distinct l \<Longrightarrow> keys_distinct (prune t w l)"
  by (auto simp: prune_def keys_distinct_def distinct_map_filter)

lemma prune_live:
  assumes "keys_distinct l" "t \<le> t'"
  shows "live t' w (window_of (prune t w l) k) = live t' w (window_of l k)"
  using assms by (auto simp: live_def prune_def keys_distinct_def map_of_filter_values split: option.splits)

lemma hit_keys: "keys_distinct l \<Longrightarrow> keys_distinct (snd (hit k m w t l))"
  using prune_keys [of l t w] by (simp add: hit_def Let_def case_prod_beta keys_distinct_def distinct_update)

lemma prune_current: "keys_distinct l \<Longrightarrow> current_window t w (window_of (prune t w l) k) = current_window t w (window_of l k)"
  using prune_live [of l t t w k] current_window_live [of t t w] by (metis order_refl)

lemma hit_decision: "keys_distinct l \<Longrightarrow> fst (hit k m w t l) = fst (count_hit m w t (current_window t w (window_of l k)))"
  by (simp add: hit_def Let_def case_prod_beta prune_current)

lemma hit_own: "keys_distinct l \<Longrightarrow> window_of (snd (hit k m w t l)) k = Some (snd (count_hit m w t (current_window t w (window_of l k))))"
  by (simp add: hit_def Let_def case_prod_beta prune_current AList.update_conv')

lemma hit_other: "keys_distinct l \<Longrightarrow> k' \<noteq> k \<Longrightarrow> live t w (window_of (snd (hit k m w t l)) k') = live t w (window_of l k')"
  using prune_live [of l t t w k'] by (simp add: hit_def Let_def case_prod_beta AList.update_conv')

definition times_of :: "string \<Rightarrow> (string \<times> int \<times> ms) list \<Rightarrow> ms list" where
  "times_of k hs = map (\<lambda>(k, m, t). t) (filter (\<lambda>h. fst h = k) hs)"

definition trace_of :: "string \<Rightarrow> hit_entry list \<Rightarrow> (ms \<times> limit_decision) list" where
  "trace_of k es = map (\<lambda>e. (he_time e, he_decision e)) (filter (\<lambda>e. he_key e = k) es)"

lemma times_of_subset: "set (times_of k hs) \<subseteq> (\<lambda>(k, m, t). t) ` set hs"
  by (force simp: times_of_def)

text \<open>The limiter is one counter per key: pruning and the other keys do not show.\<close>

lemma run_hits_per_key:
  assumes "keys_distinct l" "sorted (map (\<lambda>(k, m, t). t) hs)" "\<forall>h\<in>set hs. fst h = k \<longrightarrow> fst (snd h) = m"
  shows "trace_of k (fst (run_hits w l hs)) = run_key m w (window_of l k) (times_of k hs)"
  using assms
proof (induction hs arbitrary: l)
  case (Cons h hs)
  obtain k1 m1 t where h: "h = (k1, m1, t)" by (cases h)
  let ?l1 = "snd (hit k1 m1 w t l)"
  have later: "\<forall>t'\<in>set (times_of k hs). t \<le> t'"
    using Cons.prems(2) times_of_subset [of k hs] by (auto simp: h)
  have rest: "trace_of k (fst (run_hits w ?l1 hs)) = run_key m w (window_of ?l1 k) (times_of k hs)"
    using Cons by (intro Cons.IH hit_keys) auto
  show ?case
  proof (cases "k1 = k")
    case True
    with Cons.prems(3) h have "m1 = m" by simp
    with True h rest Cons.prems(1) show ?thesis
      by (simp add: trace_of_def times_of_def case_prod_beta Let_def hit_decision hit_own)
  next
    case False
    have "run_key m w (window_of ?l1 k) (times_of k hs) = run_key m w (live t w (window_of ?l1 k)) (times_of k hs)"
      using run_key_live [OF later] by metis
    also have "\<dots> = run_key m w (window_of l k) (times_of k hs)"
      using hit_other [OF Cons.prems(1), of k k1 t w m1] False run_key_live [OF later] by metis
    finally show ?thesis using False h rest by (simp add: trace_of_def times_of_def case_prod_beta Let_def)
  qed
qed (simp add: trace_of_def times_of_def)

subsection \<open>Bounds on one key\<close>

definition allowed_within :: "ms \<Rightarrow> ms \<Rightarrow> (ms \<times> limit_decision) list \<Rightarrow> int" where
  "allowed_within a b es = int (length (filter (\<lambda>(t, d). a \<le> t \<and> t < b \<and> ld_allowed d) es))"

definition refusals_announced :: "ms \<Rightarrow> ms \<Rightarrow> (ms \<times> limit_decision) list \<Rightarrow> int" where
  "refusals_announced a b es = int (length (filter (\<lambda>(t, d). a \<le> t \<and> t < b \<and> ld_first_refusal d) es))"

text \<open>What is left to allow, or to announce, in an interval of one window's length, given the current window.\<close>

definition room :: "int \<Rightarrow> int \<Rightarrow> ms \<Rightarrow> ms \<Rightarrow> int \<Rightarrow> window option \<Rightarrow> int" where
  "room full m w a left v = (case v of None \<Rightarrow> full | Some v \<Rightarrow>
     if wi_started v \<ge> a + w then 0 else if wi_started v \<ge> a then left else if wi_started v > a - w then left + m else full)"

abbreviation allow_room :: "int \<Rightarrow> ms \<Rightarrow> ms \<Rightarrow> window option \<Rightarrow> int" where
  "allow_room m w a v \<equiv> room (2 * m - 1) m w a (case v of None \<Rightarrow> 0 | Some v \<Rightarrow> max 0 (m - wi_count v)) v"

abbreviation announce_room :: "ms \<Rightarrow> ms \<Rightarrow> window option \<Rightarrow> int" where
  "announce_room w a v \<equiv> room 2 1 w a (case v of None \<Rightarrow> 0 | Some v \<Rightarrow> if wi_refused v then 0 else 1) v"

lemma allowed_Cons: "allowed_within a b ((t, d) # es) = (if a \<le> t \<and> t < b then (if ld_allowed d then 1 else 0) else 0) + allowed_within a b es"
  by (simp add: allowed_within_def)

lemma announced_Cons: "refusals_announced a b ((t, d) # es) = (if a \<le> t \<and> t < b then (if ld_first_refusal d then 1 else 0) else 0) + refusals_announced a b es"
  by (simp add: refusals_announced_def)

text \<open>One hit takes what it uses out of the room.\<close>

lemma room_step:
  assumes "0 < w" "m \<le> full" "s \<le> t" "t < s + w" "v = None \<and> s = t \<and> left' + used \<le> m \<and> left' + m \<le> full \<or>
      (\<exists>x. v = Some x \<and> (wi_started x + w \<le> t \<and> s = t \<and> left' + used \<le> m \<and> left' + m \<le> full \<or> wi_started x = s \<and> left' + used \<le> left))"
    "wi_started v' = s" "0 \<le> left'" "0 \<le> used" "0 \<le> left"
  shows "(if a \<le> t \<and> t < a + w then used else 0) + room full m w a left' (Some v') \<le> room full m w a left v"
  using assms by (auto simp: room_def split: option.splits)

lemma run_key_bounds:
  assumes "0 < w" "1 \<le> m" "sorted ts" "\<forall>x. v = Some x \<longrightarrow> 0 \<le> wi_count x \<and> (\<forall>t\<in>set ts. wi_started x \<le> t)"
  shows "allowed_within a (a + w) (run_key m w v ts) \<le> allow_room m w a v \<and>
    refusals_announced a (a + w) (run_key m w v ts) \<le> announce_room w a v"
  using assms(3,4)
proof (induction ts arbitrary: v)
  case Nil
  then show ?case using assms(1,2) by (auto simp: allowed_within_def refusals_announced_def room_def split: option.splits)
next
  case (Cons t ts)
  let ?v = "current_window t w v"
  obtain d v' where c: "count_hit m w t ?v = (d, v')" by (cases "count_hit m w t ?v")
  have v': "wi_started v' = wi_started ?v" "wi_count v' = wi_count ?v + 1"
    "ld_allowed d \<longleftrightarrow> wi_count ?v + 1 \<le> m" "ld_first_refusal d \<longleftrightarrow> m < wi_count ?v + 1 \<and> \<not> wi_refused ?v"
    "wi_refused v' \<longleftrightarrow> wi_refused ?v \<or> m < wi_count ?v + 1"
    using c by (auto simp: count_hit_def Let_def split: if_splits)
  have st: "wi_started ?v \<le> t" "t < wi_started ?v + w" "0 \<le> wi_count ?v"
    using Cons.prems(2) assms(1) by (auto simp: current_window_def fresh_window_def split: option.splits if_splits)
  have "\<forall>x. Some v' = Some x \<longrightarrow> 0 \<le> wi_count x \<and> (\<forall>t\<in>set ts. wi_started x \<le> t)"
    using v' st Cons.prems(1) by auto
  from Cons.IH [OF _ this] Cons.prems(1)
  have ih: "allowed_within a (a + w) (run_key m w (Some v') ts) \<le> allow_room m w a (Some v')"
    "refusals_announced a (a + w) (run_key m w (Some v') ts) \<le> announce_room w a (Some v')" by auto
  have window: "v = None \<and> ?v = fresh_window t \<or> (\<exists>x. v = Some x \<and> (wi_started x + w \<le> t \<and> ?v = fresh_window t \<or> ?v = x))"
    by (auto simp: current_window_def split: option.splits)
  have "(if a \<le> t \<and> t < a + w then (if ld_allowed d then 1 else 0) else 0) + allow_room m w a (Some v') \<le> allow_room m w a v"
    using window v' st(3) assms(2)
    by (intro room_step [OF assms(1) _ st(1,2) _ v'(1)]) (auto simp: fresh_window_def)
  moreover have "(if a \<le> t \<and> t < a + w then (if ld_first_refusal d then 1 else 0) else 0) + announce_room w a (Some v') \<le> announce_room w a v"
    using window v' st(3)
    by (intro room_step [OF assms(1) _ st(1,2) _ v'(1)]) (auto simp: fresh_window_def split: if_splits)
  moreover have "run_key m w v (t # ts) = (t, d) # run_key m w (Some v') ts" using c by (simp add: Let_def)
  ultimately show ?case using ih by (simp only: allowed_Cons announced_Cons) linarith
qed

text \<open>Every refusal is earned: at a refused hit its window holds as many allowed hits as the maximum.\<close>

lemma run_key_refused:
  assumes "0 < w" "run_key m w v ts = xs @ (t, d) # ys" "\<not> ld_allowed d" "0 \<le> m" "sorted ts"
    "\<forall>x. v = Some x \<longrightarrow> (\<forall>t\<in>set ts. wi_started x \<le> t)"
  shows "\<exists>s. t - w < s \<and> s \<le> t \<and> (m \<le> allowed_within s (t + 1) xs \<or>
     (\<exists>x. v = Some x \<and> s = wi_started x \<and> m \<le> wi_count x + allowed_within s (t + 1) xs))"
  using assms(2,5,6)
proof (induction ts arbitrary: v xs)
  case (Cons u ts)
  let ?v = "current_window u w v"
  obtain e v' where c: "count_hit m w u ?v = (e, v')" by (cases "count_hit m w u ?v")
  then have run: "run_key m w v (u # ts) = (u, e) # run_key m w (Some v') ts" by (simp add: Let_def)
  have v': "wi_started v' = wi_started ?v" "wi_count v' = wi_count ?v + 1" "ld_allowed e \<longleftrightarrow> wi_count ?v + 1 \<le> m"
    using c by (auto simp: count_hit_def Let_def split: if_splits)
  have window: "v = None \<and> ?v = fresh_window u \<or> (\<exists>x. v = Some x \<and> (wi_started x + w \<le> u \<and> ?v = fresh_window u \<or> ?v = x \<and> u < wi_started x + w))"
    by (auto simp: current_window_def split: option.splits)
  have st: "wi_started ?v \<le> u" "u < wi_started ?v + w"
    using window Cons.prems(3) assms(1) by (auto simp: fresh_window_def)
  show ?case
  proof (cases xs)
    case Nil
    with Cons.prems(1) run have "t = u" "d = e" by auto
    with assms(3) v'(3) have "m \<le> wi_count ?v" by simp
    with window st assms(4) \<open>t = u\<close> show ?thesis
      by (intro exI [of _ "wi_started ?v"]) (auto simp: allowed_within_def Nil fresh_window_def)
  next
    case (Cons z zs)
    with \<open>run_key m w v (u # ts) = xs @ (t, d) # ys\<close> run have z: "z = (u, e)" and rest: "run_key m w (Some v') ts = zs @ (t, d) # ys" by auto
    have "(t, d) \<in> set (run_key m w (Some v') ts)" by (simp add: rest)
    moreover have "fst ` set (run_key m w v0 us) \<subseteq> set us" for v0 us
      by (induction us arbitrary: v0) (auto simp: Let_def case_prod_beta)
    ultimately have "t \<in> set ts" by force
    with Cons.prems(2) have ut: "u \<le> t" by simp
    have "\<forall>x. Some v' = Some x \<longrightarrow> (\<forall>t\<in>set ts. wi_started x \<le> t)" using st(1) v'(1) Cons.prems(2) by auto
    from Cons.IH [OF rest _ this] Cons.prems(2) obtain s where s: "t - w < s" "s \<le> t"
      "m \<le> allowed_within s (t + 1) zs \<or> s = wi_started v' \<and> m \<le> wi_count v' + allowed_within s (t + 1) zs" by auto
    have mono: "allowed_within s (t + 1) zs \<le> allowed_within s (t + 1) xs"
      by (simp add: Cons z allowed_Cons)
    show ?thesis
    proof (cases "m \<le> allowed_within s (t + 1) zs")
      case True
      with s mono show ?thesis by (intro exI [of _ s]) auto
    next
      case False
      with s have s': "s = wi_started ?v" "m \<le> wi_count ?v + 1 + allowed_within s (t + 1) zs" using v' by auto
      have "m \<le> wi_count ?v + allowed_within s (t + 1) xs"
      proof (cases "ld_allowed e")
        case True
        then show ?thesis using s' st(1) ut by (simp add: Cons z allowed_Cons)
      next
        case False
        then have "m \<le> wi_count ?v" using v'(3) by simp
        then show ?thesis by (simp add: allowed_within_def)
      qed
      with window s s' show ?thesis by (intro exI [of _ s]) (auto simp: fresh_window_def)
    qed
  qed
qed simp

subsection \<open>The size of the map\<close>

lemma prune_pruned:
  "0 < w \<Longrightarrow> t - li_pruned (prune t w l) < w"
  by (simp add: prune_def)

text \<open>After a hit at a time, a window belongs to a hit less than two window lengths ago.\<close>

definition recent :: "ms \<Rightarrow> ms \<Rightarrow> (string \<times> int \<times> ms) list \<Rightarrow> limiter \<Rightarrow> bool" where
  "recent w t hs l \<longleftrightarrow> keys_distinct l \<and> li_pruned l \<le> t \<and>
     (\<forall>(k, v)\<in>set (li_windows l). li_pruned l - w < wi_started v \<and> wi_started v \<le> t \<and> (\<exists>m. (k, m, wi_started v) \<in> set hs))"

lemma hit_recent:
  assumes "recent w t0 hs l" "0 < w" "t0 \<le> t" "(k, m, t) \<in> set hs"
  shows "recent w t hs (snd (hit k m w t l)) \<and> t - li_pruned (snd (hit k m w t l)) < w"
proof -
  let ?p = "prune t w l"
  have pruned: "li_pruned ?p \<le> t" "t - li_pruned ?p < w"
    using assms(1-3) by (auto simp: prune_def recent_def)
  have old: "\<forall>(k, v)\<in>set (li_windows ?p). li_pruned ?p - w < wi_started v \<and> wi_started v \<le> t \<and> (\<exists>m. (k, m, wi_started v) \<in> set hs)"
  proof (cases "t - li_pruned l < w")
    case True
    with assms(1,3) show ?thesis by (force simp: prune_def recent_def)
  next
    case False
    with assms(1,3) show ?thesis by (force simp: prune_def recent_def)
  qed
  let ?c = "current_window t w (window_of ?p k)"
  let ?v = "snd (count_hit m w t ?c)"
  have started: "wi_started (snd (count_hit m w t v)) = wi_started v" for v by (simp add: count_hit_def Let_def)
  have "?c = fresh_window t \<or> window_of ?p k = Some ?c"
    by (auto simp: current_window_def split: option.splits)
  then have new: "li_pruned ?p - w < wi_started ?v \<and> wi_started ?v \<le> t \<and> (\<exists>m. (k, m, wi_started ?v) \<in> set hs)"
  proof
    assume "?c = fresh_window t"
    with pruned(1) assms(2,4) show ?thesis by (auto simp: started fresh_window_def)
  next
    assume "window_of ?p k = Some ?c"
    with old started show ?thesis by (auto dest: map_of_SomeD)
  qed
  have "keys_distinct (snd (hit k m w t l))" using assms(1) by (intro hit_keys) (simp add: recent_def)
  moreover have "li_windows (snd (hit k m w t l)) = AList.update k ?v (li_windows ?p)" "li_pruned (snd (hit k m w t l)) = li_pruned ?p"
    by (simp_all add: hit_def Let_def case_prod_beta)
  ultimately show ?thesis
    using set_update_alist [of k ?v "li_windows ?p"] old new pruned unfolding recent_def by fastforce
qed

lemma run_hits_recent:
  assumes "recent w t0 hs l" "0 < w" "sorted (t0 # map (\<lambda>(k, m, t). t) gs)" "set gs \<subseteq> set hs" "gs \<noteq> []"
  shows "recent w (snd (snd (last gs))) hs (snd (run_hits w l gs)) \<and> snd (snd (last gs)) - li_pruned (snd (run_hits w l gs)) < w"
  using assms(1,3-5)
proof (induction gs arbitrary: l t0)
  case (Cons g gs)
  obtain k m t where g: "g = (k, m, t)" by (cases g)
  with Cons.prems have step: "recent w t hs (snd (hit k m w t l)) \<and> t - li_pruned (snd (hit k m w t l)) < w"
    by (intro hit_recent [OF Cons.prems(1) assms(2)]) auto
  show ?case
  proof (cases "gs = []")
    case True
    with step g show ?thesis by (simp add: case_prod_beta)
  next
    case False
    with Cons.IH [of t "snd (hit k m w t l)"] step Cons.prems g show ?thesis by (simp add: case_prod_beta)
  qed
qed simp

subsection \<open>Properties\<close>

text \<open>C35: The limiter keeps its limit: over any sequence of hits in time order, whatever the other keys do and whenever the
  map is pruned, a key with a maximum of m is allowed at most 2 m - 1 times in any interval of one window's
  length (the window is fixed, so two of them can meet in it), announces at most two refusals there, and
  is never refused unless its own window already holds m allowed hits.\<close>

theorem limiter_bounds:
  assumes "0 < w" "1 \<le> m" "sorted (map (\<lambda>(k, m, t). t) hs)" "\<forall>h\<in>set hs. fst h = k \<longrightarrow> fst (snd h) = m"
    "es = trace_of k (fst (run_hits w new_limiter hs))"
  shows "allowed_within a (a + w) es \<le> 2 * m - 1 \<and> refusals_announced a (a + w) es \<le> 2 \<and>
    (\<forall>xs t d ys. es = xs @ (t, d) # ys \<longrightarrow> ld_allowed d \<or> (\<exists>s. t - w < s \<and> s \<le> t \<and> m \<le> allowed_within s (t + 1) xs))"
proof -
  have es: "es = run_key m w None (times_of k hs)"
    using run_hits_per_key [OF _ assms(3,4), of new_limiter w] assms(5) by (simp add: keys_distinct_def new_limiter_def)
  have sorted: "sorted (times_of k hs)"
    using assms(3) by (simp add: times_of_def sorted_wrt_map sorted_wrt_filter)
  have "\<exists>s. t - w < s \<and> s \<le> t \<and> m \<le> allowed_within s (t + 1) xs" if "es = xs @ (t, d) # ys" "\<not> ld_allowed d" for xs t d ys
    using run_key_refused [OF assms(1) that(1) [unfolded es] that(2) _ sorted] assms(2) by simp
  with run_key_bounds [OF assms(1,2) sorted, of None a] show ?thesis
    by (auto simp: es room_def)
qed

theorem limiter_bounds_witness:
  "allowed_within 10 70 (trace_of ''a'' (fst (run_hits 60 new_limiter
      [(''a'', 2, 0), (''a'', 2, 59), (''b'', 9, 60), (''a'', 2, 60), (''a'', 2, 61), (''a'', 2, 62)]))) = 3 \<and>
   refusals_announced 10 70 (trace_of ''a'' (fst (run_hits 60 new_limiter
      [(''a'', 2, 0), (''a'', 2, 59), (''b'', 9, 60), (''a'', 2, 60), (''a'', 2, 61), (''a'', 2, 62)]))) = 1"
  (is "allowed_within 10 70 ?es = 3 \<and> refusals_announced 10 70 ?es = 1")
proof -
  have "allowed_within 10 (10 + 60) ?es \<le> 2 * 2 - 1"
    using limiter_bounds [of 60 2 "[(''a'', 2, 0), (''a'', 2, 59), (''b'', 9, 60), (''a'', 2, 60), (''a'', 2, 61), (''a'', 2, 62)]" "''a''" ?es 10]
    by simp
  moreover have "3 \<le> allowed_within 10 70 ?es" "refusals_announced 10 70 ?es = 1" by code_simp+
  ultimately show ?thesis by simp
qed

text \<open>The map stays bounded: after any sequence of hits in time order there is one window per key, and every window
  belongs to a key that was hit less than two window lengths before the last hit (the comment on the
  limiter says one), so the map has no more entries than callers in that time.\<close>

theorem limiter_map_bounded:
  assumes "0 < w" "hs \<noteq> []" "sorted (0 # map (\<lambda>(k, m, t). t) hs)" "T = snd (snd (last hs))"
  shows "length (li_windows (snd (run_hits w new_limiter hs))) \<le> card {k. \<exists>m t. (k, m, t) \<in> set hs \<and> T - 2 * w < t}"
proof -
  let ?l = "snd (run_hits w new_limiter hs)"
  have "recent w 0 hs new_limiter" by (simp add: recent_def new_limiter_def keys_distinct_def)
  from run_hits_recent [OF this assms(1,3) subset_refl assms(2)] assms(4)
  have r: "recent w T hs ?l" "T - li_pruned ?l < w" by simp_all
  then have "fst ` set (li_windows ?l) \<subseteq> {k. \<exists>m t. (k, m, t) \<in> set hs \<and> T - 2 * w < t}"
    by (fastforce simp: recent_def)
  moreover have "finite {k. \<exists>m t. (k, m, t) \<in> set hs \<and> T - 2 * w < t}"
    by (rule finite_subset [of _ "fst ` set hs"]) (force, simp)
  ultimately have "card (fst ` set (li_windows ?l)) \<le> card {k. \<exists>m t. (k, m, t) \<in> set hs \<and> T - 2 * w < t}"
    by (rule card_mono [rotated])
  moreover have "card (fst ` set (li_windows ?l)) = length (li_windows ?l)"
    using r(1) distinct_card [of "map fst (li_windows ?l)"] by (simp add: recent_def keys_distinct_def)
  ultimately show ?thesis by simp
qed

theorem limiter_map_bounded_witness:
  "length (li_windows (snd (run_hits 60 new_limiter [(''a'', 2, 0), (''b'', 2, 100), (''c'', 2, 120)]))) \<le>
     card {k. \<exists>m t. (k, m, t) \<in> set [(''a'', 2 :: int, 0 :: int), (''b'', 2, 100), (''c'', 2, 120)] \<and> 120 - 2 * 60 < t}"
  by (rule limiter_map_bounded) simp_all

end
