(* ===== verification/Unit_Of_Work.thy ===== *)
theory Unit_Of_Work
  imports Access
begin

section \<open>Units of work\<close>

text \<open>
  \<open>db/unit-of-work.ts\<close>: which accounts a transaction is bound to, derived from the principal, and the sweep
  over accounts the worker makes. The row policies of the database show a transaction the rows of the
  accounts it is bound to and no other; a service model takes the bound accounts as an argument and
  looks up account-scoped rows among them only. A transaction that throws leaves the state as it was.
\<close>

definition visible_accounts :: "account_binding \<Rightarrow> string list" where
  "visible_accounts b = (case b of Bind_none \<Rightarrow> [] | Bind_portal a \<Rightarrow> [a] | Bind_operator as \<Rightarrow> as)"

definition run_accounts :: "auth_principal \<Rightarrow> string list" where
  "run_accounts p = visible_accounts (binding_of p)"

datatype work_error = Portal_cannot_widen | Not_a_portal_principal | Portal_without_account

definition widened_accounts :: "auth_principal \<Rightarrow> string list \<Rightarrow> work_error + string list" where
  "widened_accounts p extra = (if ap_kind p = Portal_realm then Inl Portal_cannot_widen else Inr (uniq (ap_accounts p @ extra)))"

definition portal_write_accounts :: "auth_principal \<Rightarrow> work_error + string list" where
  "portal_write_accounts p =
     (if ap_kind p \<noteq> Portal_realm then Inl Not_a_portal_principal
      else case ap_accounts p of [] \<Rightarrow> Inl Portal_without_account | a # _ \<Rightarrow> if a = [] then Inl Portal_without_account else Inr [a])"

text \<open>The sweep: one transaction per account, all attempted; the first failure is rethrown at the end.\<close>

fun per_account :: "(string \<Rightarrow> 's \<Rightarrow> 'e + 's) \<Rightarrow> string list \<Rightarrow> 's \<Rightarrow> 'e option \<times> 's" where
  "per_account f [] s = (None, s)"
| "per_account f (a # as) s =
     (case f a s of
        Inr s1 \<Rightarrow> per_account f as s1
      | Inl e \<Rightarrow> (Some e, snd (per_account f as s)))"

lemma per_account_ok: "(\<And>a s. a \<in> set as \<Longrightarrow> f a s = Inr (g a s)) \<Longrightarrow> per_account f as s = (None, fold g as s)"
  by (induction as arbitrary: s) simp_all

text \<open>A property kept by every transaction that commits is kept by the sweep, whatever fails.\<close>

lemma per_account_keeps:
  assumes "\<And>a s s'. a \<in> set as \<Longrightarrow> f a s = Inr s' \<Longrightarrow> P s \<Longrightarrow> P s'" "P s"
  shows "P (snd (per_account f as s))"
  using assms by (induction as arbitrary: s) (auto split: sum.splits)

lemma portal_write_bound:
  "portal_write_accounts p = Inr as \<Longrightarrow> as = run_accounts p"
  by (auto simp: portal_write_accounts_def run_accounts_def visible_accounts_def binding_of_def split: if_splits list.splits)

end
