(* ===== verification/Webhook_Service.thy ===== *)
theory Webhook_Service
  imports Unit_Of_Work Webhooks
begin

section \<open>API clients, webhook subscriptions and their deliveries\<close>

text \<open>
  \<open>modules/integrations/webhooks.module.ts\<close>: the life of an API client's subscriptions (registration,
  rotation, pause, resume, removal, revocation of the client), the worker that renders an outbox row,
  signs it, sends it and records every attempt, the retry sweep and the replay of dead letters.

  The state is the operator tables of \<open>Access\<close> (the clients, their grants and the accounts), the
  subscription rows, the append-only delivery rows in the order they are written, and the audit events.
  Ids of new rows are arguments; a delivery's id is its place in the table. The endpoint, the clock, the
  name resolution and the cryptography are in the record \<open>hook_env\<close>; what the endpoint answers is a
  function of the request it is sent.
\<close>

datatype subscription_status = Sub_active | Sub_paused | Sub_deleted

datatype pause_reason = Continuous_failure | Owner | Client_revoked

record subscription =
  sb_id :: string
  sb_account :: string
  sb_client :: string
  sb_endpoint :: string
  sb_events :: "string list"
  sb_ciphertext :: string
  sb_kid :: string
  sb_status :: subscription_status
  sb_reason :: "pause_reason option"
  sb_note :: "string option"
  sb_failures :: nat
  sb_version :: int

record envelope =
  en_id :: string
  en_type :: string
  en_occurred :: ms
  en_account :: string
  en_data :: json

datatype delivery_status = Dv_delivered | Dv_retrying | Dv_dead_lettered | Dv_replayed

datatype delivery_error =
    Secret_unavailable
  | Endpoint_refused endpoint_problem
  | Redirect_refused int
  | Http_status int
  | Caught string

record delivery =
  dv_id :: nat
  dv_account :: string
  dv_subscription :: string
  dv_outbox :: string
  dv_type :: string
  dv_attempt :: nat
  dv_status :: delivery_status
  dv_response :: "int option"
  dv_error :: "delivery_error option"
  dv_next :: "ms option"
  dv_envelope :: envelope

record hook_audit =
  ha_entity :: string
  ha_event :: string

record hook_state =
  hk_directory :: directory
  hk_subscriptions :: "subscription list"
  hk_deliveries :: "delivery list"
  hk_audit :: "hook_audit list"

datatype hook_error =
    Not_found string
  | Invalid_endpoint endpoint_problem
  | Webhooks_unconfigured
  | Endpoint_exists
  | Reason_required
  | Already_paused "pause_reason option"
  | Not_paused
  | Not_dead_lettered
  | Subscription_not_active
  | Already_revoked
  | Work work_error

record signed_request =
  rq_url :: string
  rq_event :: string
  rq_delivery :: string
  rq_timestamp :: string
  rq_signature :: string
  rq_body :: string

datatype fetched = Threw string | Answered int

record hook_env =
  he_key :: "string option"
  he_allow_private :: bool
  he_unb64 :: "string \<Rightarrow> string"
  he_decrypt :: "string \<Rightarrow> string \<Rightarrow> string \<Rightarrow> string \<Rightarrow> string option"
  he_key_bytes :: "string \<Rightarrow> string"
  he_mac :: "string \<Rightarrow> string \<Rightarrow> string"
  he_parse_url :: "string \<Rightarrow> parsed_url option"
  he_lookup :: "string \<Rightarrow> string list option"
  he_timestamp :: "ms \<Rightarrow> string"
  he_body :: "envelope \<Rightarrow> string"
  he_fetch :: "signed_request \<Rightarrow> fetched"

subsection \<open>The repository\<close>

definition log_event :: "string \<Rightarrow> string \<Rightarrow> hook_state \<Rightarrow> hook_state" where
  "log_event i event st = st\<lparr>hk_audit := hk_audit st @ [\<lparr>ha_entity = i, ha_event = event\<rparr>]\<rparr>"

definition subscription_by_id :: "string list \<Rightarrow> hook_state \<Rightarrow> string \<Rightarrow> subscription option" where
  "subscription_by_id bound st i = find (\<lambda>s. sb_id s = i \<and> sb_account s \<in> set bound) (hk_subscriptions st)"

definition on_subscription :: "string \<Rightarrow> (subscription \<Rightarrow> subscription) \<Rightarrow> hook_state \<Rightarrow> hook_state" where
  "on_subscription i f st = st\<lparr>hk_subscriptions := map (\<lambda>s. if sb_id s = i then f s else s) (hk_subscriptions st)\<rparr>"

definition set_status :: "string \<Rightarrow> subscription_status \<Rightarrow> pause_reason option \<Rightarrow> string option \<Rightarrow> hook_state \<Rightarrow> hook_state" where
  "set_status i status reason typed =
     on_subscription i (\<lambda>s. s\<lparr>sb_status := status, sb_reason := reason, sb_note := typed, sb_version := sb_version s + 1\<rparr>)"

definition reset_failures :: "string \<Rightarrow> hook_state \<Rightarrow> hook_state" where
  "reset_failures i = on_subscription i (\<lambda>s. s\<lparr>sb_failures := 0\<rparr>)"

definition record_outcome :: "string \<Rightarrow> bool \<Rightarrow> hook_state \<Rightarrow> nat \<times> hook_state" where
  "record_outcome i delivered st =
     (let st' = on_subscription i (\<lambda>s. s\<lparr>sb_failures := if delivered then 0 else sb_failures s + 1\<rparr>) st
      in (case find (\<lambda>s. sb_id s = i) (hk_subscriptions st') of None \<Rightarrow> 0 | Some s \<Rightarrow> sb_failures s, st'))"

definition rotate_secret :: "string \<Rightarrow> string \<Rightarrow> string \<Rightarrow> hook_state \<Rightarrow> hook_state" where
  "rotate_secret i ciphertext kid =
     on_subscription i (\<lambda>s. s\<lparr>sb_ciphertext := ciphertext, sb_kid := kid, sb_version := sb_version s + 1\<rparr>)"

definition client_active :: "hook_state \<Rightarrow> string \<Rightarrow> bool" where
  "client_active st c \<longleftrightarrow> (\<exists>k\<in>set (di_clients (hk_directory st)). ak_id k = c \<and> ak_active k)"

definition active_for_event :: "hook_state \<Rightarrow> string \<Rightarrow> string \<Rightarrow> subscription list" where
  "active_for_event st account ty = filter (\<lambda>s. sb_account s = account \<and> sb_status s = Sub_active \<and>
     client_active st (sb_client s) \<and> ty \<in> set (sb_events s)) (hk_subscriptions st)"

definition has_delivery :: "hook_state \<Rightarrow> string \<Rightarrow> string \<Rightarrow> bool" where
  "has_delivery st s e \<longleftrightarrow> (\<exists>d\<in>set (hk_deliveries st). dv_subscription d = s \<and> dv_outbox d = e)"

text \<open>Retries due in one account, the earliest first: the latest retrying attempt of each event.\<close>

definition due_retries :: "hook_state \<Rightarrow> string \<Rightarrow> ms \<Rightarrow> nat \<Rightarrow> delivery list" where
  "due_retries st account now batch = take batch (sort_key (\<lambda>d. the (dv_next d))
     (filter (\<lambda>d. dv_account d = account \<and> dv_status d = Dv_retrying \<and> (case dv_next d of None \<Rightarrow> False | Some t \<Rightarrow> t \<le> now) \<and>
        \<not> (\<exists>l\<in>set (hk_deliveries st). dv_subscription l = dv_subscription d \<and> dv_outbox l = dv_outbox d \<and> dv_attempt d < dv_attempt l))
      (hk_deliveries st)))"

definition restate :: "nat \<Rightarrow> delivery_status \<Rightarrow> hook_state \<Rightarrow> hook_state" where
  "restate i from st = st\<lparr>hk_deliveries := map (\<lambda>d. if dv_id d = i \<and> dv_status d = from then d\<lparr>dv_status := Dv_replayed\<rparr> else d) (hk_deliveries st)\<rparr>"

definition mark_retried :: "nat \<Rightarrow> hook_state \<Rightarrow> hook_state" where
  "mark_retried i = restate i Dv_retrying"

definition claim_dead_letter :: "nat \<Rightarrow> hook_state \<Rightarrow> (bool \<times> hook_state)" where
  "claim_dead_letter i st = (\<exists>d\<in>set (hk_deliveries st). dv_id d = i \<and> dv_status d = Dv_dead_lettered, restate i Dv_dead_lettered st)"

definition insert_delivery :: "delivery \<Rightarrow> hook_state \<Rightarrow> hook_state" where
  "insert_delivery d st = st\<lparr>hk_deliveries := hk_deliveries st @ [d]\<rparr>"

subsection \<open>One attempt\<close>

definition secret_of :: "hook_env \<Rightarrow> subscription \<Rightarrow> string option" where
  "secret_of env s =
     (if is_set (he_key env) then
        (case open_secret (he_unb64 env) (he_decrypt env) (he_key_bytes env (the (he_key env))) (sb_ciphertext s) of
           Inl e \<Rightarrow> None | Inr v \<Rightarrow> if v = [] then None else Some v)
      else None)"

definition sign_request :: "hook_env \<Rightarrow> subscription \<Rightarrow> string \<Rightarrow> ms \<Rightarrow> envelope \<Rightarrow> signed_request" where
  "sign_request env s secret now e =
     (let stamp = he_timestamp env (now div 1000); body = he_body env e
      in \<lparr>rq_url = sb_endpoint s, rq_event = en_type e, rq_delivery = en_id e, rq_timestamp = stamp,
          rq_signature = signature_header (he_mac env) (sb_kid s) secret stamp body, rq_body = body\<rparr>)"

text \<open>What the endpoint answered, and the error: none means delivered.\<close>

definition send_outcome :: "hook_env \<Rightarrow> subscription \<Rightarrow> ms \<Rightarrow> envelope \<Rightarrow> int option \<times> delivery_error option" where
  "send_outcome env s now e =
     (case secret_of env s of
        None \<Rightarrow> (None, Some Secret_unavailable)
      | Some secret \<Rightarrow>
         (case outbound_problem (he_parse_url env (sb_endpoint s)) (he_allow_private env) (he_lookup env) of
            Some problem \<Rightarrow> (None, Some (Endpoint_refused problem))
          | None \<Rightarrow>
             (case he_fetch env (sign_request env s secret now e) of
                Threw message \<Rightarrow> (None, Some (Caught (take 300 message)))
              | Answered status \<Rightarrow>
                 (Some status,
                  if 300 \<le> status \<and> status < 400 then Some (Redirect_refused status)
                  else if status < 200 \<or> 300 \<le> status then Some (Http_status status) else None))))"

definition attempt :: "hook_env \<Rightarrow> ms \<Rightarrow> subscription \<Rightarrow> envelope \<Rightarrow> nat \<Rightarrow> hook_state \<Rightarrow> delivery \<times> hook_state" where
  "attempt env now s e n st =
     (let (response, problem) = send_outcome env s now e;
          delivered = (problem = None);
          final = (\<not> delivered \<and> max_attempts \<le> n);
          next_at = (if delivered \<or> final then None else next_attempt_at n now);
          row = \<lparr>dv_id = length (hk_deliveries st), dv_account = sb_account s, dv_subscription = sb_id s, dv_outbox = en_id e,
             dv_type = en_type e, dv_attempt = n,
             dv_status = (if delivered then Dv_delivered else if final then Dv_dead_lettered else Dv_retrying),
             dv_response = response, dv_error = problem, dv_next = next_at, dv_envelope = e\<rparr>;
          st1 = insert_delivery row st
      in if delivered \<or> final then
           (let (failures, st2) = record_outcome (sb_id s) delivered st1
            in (row, if \<not> delivered \<and> pause_after_failures \<le> failures
                     then log_event (sb_id s) ''webhook.paused'' (set_status (sb_id s) Sub_paused (Some Continuous_failure) None st2)
                     else st2))
         else (row, st1))"

subsection \<open>The worker\<close>

record hook_ticket =
  ht_key :: string
  ht_type :: string
  ht_state :: string
  ht_priority :: string
  ht_short :: string
  ht_assignee :: "string option"
  ht_updated :: string

definition ticket_data :: "hook_ticket \<Rightarrow> json" where
  "ticket_data t = JObj [(''key'', JStr (ht_key t)), (''type'', JStr (ht_type t)), (''state'', JStr (ht_state t)),
     (''priority'', JStr (ht_priority t)), (''short_description'', JStr (ht_short t)),
     (''assignee'', case ht_assignee t of None \<Rightarrow> JNull | Some a \<Rightarrow> JStr a), (''updated_at'', JStr (ht_updated t))]"

record outbox_row =
  ob_id :: string
  ob_type :: string
  ob_account :: string
  ob_aggregate :: string
  ob_payload :: json
  ob_created :: ms

definition or_null :: "json \<Rightarrow> json" where
  "or_null v = (if v = JUndef then JNull else v)"

text \<open>A ticket id that is no string names no ticket, whatever its text.\<close>

definition public_data :: "(string \<Rightarrow> hook_ticket option) \<Rightarrow> outbox_row \<Rightarrow> string \<Rightarrow> json option" where
  "public_data tickets row ty =
     (let payload = ob_payload row in
      if ty = ''billing_period.locked'' then
        Some (JObj [(''period_id'', JStr (ob_aggregate row)), (''starts_on'', jget ''starts_on'' payload), (''ends_on'', jget ''ends_on'' payload)])
      else
        let named = jget ''ticket_id'' payload;
            ticket_id = (if (ty = ''comment.created'' \<or> ty = ''time_entry.created'') \<and> named \<noteq> JUndef \<and> named \<noteq> JNull
                         then (case named of JStr s \<Rightarrow> s | _ \<Rightarrow> []) else ob_aggregate row)
        in case tickets ticket_id of
             None \<Rightarrow> None
           | Some t \<Rightarrow>
               let base = ticket_data t in
               if ty = ''comment.created'' then
                 (let source = jget ''source'' payload in
                  if source \<noteq> JStr ''internal'' \<and> source \<noteq> JStr ''portal'' then None
                  else Some (JObj [(''ticket'', base), (''comment_id'', jget ''comment_id'' payload), (''source'', source)]))
               else if ty = ''time_entry.created'' then
                 Some (JObj [(''ticket'', base), (''minutes'', or_null (jget ''minutes'' payload)),
                   (''activity_type'', or_null (jget ''activity_type'' payload)), (''billable_class'', or_null (jget ''billable_class'' payload))])
               else if ty = ''ticket.transitioned'' then
                 Some (JObj [(''ticket'', base), (''from'', or_null (jget ''from'' payload)), (''to'', or_null (jget ''to'' payload))])
               else Some (JObj [(''ticket'', base)]))"

definition first_attempt :: "hook_env \<Rightarrow> ms \<Rightarrow> envelope \<Rightarrow> subscription \<Rightarrow> hook_state \<Rightarrow> hook_state" where
  "first_attempt env now e s st = (if has_delivery st (sb_id s) (en_id e) then st else snd (attempt env now s e 1 st))"

definition on_outbox :: "hook_env \<Rightarrow> (string \<Rightarrow> hook_ticket option) \<Rightarrow> ms \<Rightarrow> outbox_row \<Rightarrow> hook_state \<Rightarrow> hook_state" where
  "on_outbox env tickets now row st =
     (case map_of outbox_to_public (ob_type row) of
        None \<Rightarrow> st
      | Some ty \<Rightarrow>
          let subs = active_for_event st (ob_account row) ty in
          if subs = [] then st
          else (case public_data tickets row ty of
              None \<Rightarrow> st
            | Some data \<Rightarrow>
                fold (first_attempt env now \<lparr>en_id = ob_id row, en_type = ty, en_occurred = ob_created row, en_account = ob_account row, en_data = data\<rparr>)
                  subs st))"

definition retry_one :: "hook_env \<Rightarrow> ms \<Rightarrow> string \<Rightarrow> delivery \<Rightarrow> hook_state \<Rightarrow> hook_state" where
  "retry_one env now account due st =
     (let s = subscription_by_id [account] st (dv_subscription due); st1 = mark_retried (dv_id due) st
      in case s of
           None \<Rightarrow> st1
         | Some s \<Rightarrow> if sb_status s \<noteq> Sub_active then st1 else snd (attempt env now s (dv_envelope due) (dv_attempt due + 1) st1))"

definition retry_account :: "hook_env \<Rightarrow> ms \<Rightarrow> nat \<Rightarrow> string \<Rightarrow> hook_state \<Rightarrow> hook_state" where
  "retry_account env now batch account st = fold (retry_one env now account) (due_retries st account now batch) st"

definition retry_due :: "hook_env \<Rightarrow> ms \<Rightarrow> nat \<Rightarrow> hook_state \<Rightarrow> hook_state" where
  "retry_due env now batch st =
     fold (retry_account env now batch) (accounts_in [''active'', ''onboarding'', ''offboarding''] (hk_directory st)) st"

subsection \<open>API clients\<close>

definition api_scopes :: "string list" where
  "api_scopes = filter is_permission [''tickets:view'', ''tickets:create'', ''tickets:work'', ''time:log'', ''kb:read'', ''exports:read'', ''webhooks:manage'']"

record client_dto =
  cd_name :: string
  cd_scopes :: "string list"
  cd_accounts :: "string list"
  cd_expires :: "ms option"
  cd_rate :: "int option"

text \<open>
  \<open>ApiClientsService.create\<close>: the key, the ids and the email of the service user are drawn by the runtime
  and given; \<open>lookup_hash\<close> and \<open>secret_hash\<close> are the two hashes of the key.
\<close>

definition create_client :: "auth_principal \<Rightarrow> client_dto \<Rightarrow> string \<Rightarrow> string \<Rightarrow> string \<Rightarrow> string \<Rightarrow> (string \<Rightarrow> string) \<Rightarrow> (string \<Rightarrow> string) \<Rightarrow>
    hook_state \<Rightarrow> hook_error + hook_state" where
  "create_client p dto key user_id client_id email lookup_hash secret_hash st =
     and_then (guard_or (set (cd_accounts dto) \<subseteq> set (ap_accounts p)) (Not_found ''account'')) (\<lambda>_.
     let d = hk_directory st;
         user = \<lparr>ur_id = user_id, ur_kind = Service_kind, ur_account = None, ur_email = email, ur_first = cd_name dto, ur_last = ''API'',
            ur_status = Active_user, ur_clerk = None, ur_signed_in = None\<rparr>;
         client = \<lparr>ak_id = client_id, ak_name = cd_name dto, ak_user = user_id, ak_lookup = lookup_hash key, ak_secret = secret_hash key,
            ak_scopes = cd_scopes dto, ak_expires = cd_expires dto, ak_active = True,
            ak_rate = (case cd_rate dto of None \<Rightarrow> 600 | Some n \<Rightarrow> n), ak_used = None\<rparr>
     in Inr (log_event client_id ''admin.api_client.created'' (st\<lparr>hk_directory := d\<lparr>di_users := di_users d @ [user], di_clients := di_clients d @ [client],
          di_client_grants := di_client_grants d @ map (Pair client_id) (uniq (cd_accounts dto))\<rparr>\<rparr>)))"

definition granted_to :: "hook_state \<Rightarrow> string \<Rightarrow> string list" where
  "granted_to st c = map snd (filter (\<lambda>g. fst g = c) (di_client_grants (hk_directory st)))"

definition revoke_client :: "string list \<Rightarrow> string \<Rightarrow> hook_state \<Rightarrow> hook_state" where
  "revoke_client bound c st =
     (let d = hk_directory st in
      st\<lparr>hk_directory := d\<lparr>di_clients := map (\<lambda>k. if ak_id k = c then k\<lparr>ak_active := False\<rparr> else k) (di_clients d)\<rparr>,
         hk_subscriptions := map (\<lambda>s. if sb_client s = c \<and> sb_status s = Sub_active \<and> sb_account s \<in> set bound
            then s\<lparr>sb_status := Sub_paused, sb_reason := Some Client_revoked\<rparr> else s) (hk_subscriptions st)\<rparr>)"

definition revoke :: "auth_principal \<Rightarrow> string \<Rightarrow> hook_state \<Rightarrow> hook_error + hook_state" where
  "revoke p c st =
     (case widened_accounts p (granted_to st c) of
        Inl e \<Rightarrow> Inl (Work e)
      | Inr bound \<Rightarrow>
         (case find (\<lambda>k. ak_id k = c) (di_clients (hk_directory st)) of
            None \<Rightarrow> Inl (Not_found ''api_client'')
          | Some k \<Rightarrow>
              and_then (guard_or (ak_active k) Already_revoked) (\<lambda>_.
              Inr (log_event c ''admin.api_client.revoked'' (revoke_client bound c st)))))"

subsection \<open>Subscriptions, from the client and from the console\<close>

record subscription_dto =
  sd_account :: string
  sd_client :: string
  sd_endpoint :: string
  sd_events :: "string list"

definition endpoint_taken :: "hook_state \<Rightarrow> string \<Rightarrow> string \<Rightarrow> string \<Rightarrow> bool" where
  "endpoint_taken st c account url \<longleftrightarrow>
     (\<exists>s\<in>set (hk_subscriptions st). sb_client s = c \<and> sb_account s = account \<and> sb_endpoint s = url \<and> sb_status s \<noteq> Sub_deleted)"

text \<open>The part both registrations share: the unique index, the insert and its audit row.\<close>

definition insert_subscription :: "string \<Rightarrow> string \<Rightarrow> string \<Rightarrow> string list \<Rightarrow> string \<Rightarrow> string \<Rightarrow> string \<Rightarrow> hook_state \<Rightarrow> hook_error + hook_state" where
  "insert_subscription account c url events ciphertext kid i st =
     and_then (guard_or (\<not> endpoint_taken st c account url) Endpoint_exists) (\<lambda>_.
     Inr (log_event i ''webhook.subscribed'' (st\<lparr>hk_subscriptions := hk_subscriptions st @
       [\<lparr>sb_id = i, sb_account = account, sb_client = c, sb_endpoint = url, sb_events = uniq events, sb_ciphertext = ciphertext,
         sb_kid = kid, sb_status = Sub_active, sb_reason = None, sb_note = None, sb_failures = 0, sb_version = 1\<rparr>]\<rparr>)))"

definition client_of :: "auth_principal \<Rightarrow> hook_error + string" where
  "client_of p = (if ap_kind p \<noteq> Api_client_realm \<or> \<not> is_set (ap_session p) then Inl (Not_found ''api_client'') else Inr (the (ap_session p)))"

definition create_subscription :: "hook_env \<Rightarrow> auth_principal \<Rightarrow> subscription_dto \<Rightarrow> string \<Rightarrow> string \<Rightarrow> string \<Rightarrow> hook_state \<Rightarrow> hook_error + hook_state" where
  "create_subscription env p dto ciphertext kid i st =
     and_then (client_of p) (\<lambda>c.
     and_then (guard_or (sd_account dto \<in> set (ap_accounts p)) (Not_found ''account'')) (\<lambda>_.
     case endpoint_problem (he_parse_url env (sd_endpoint dto)) (he_allow_private env) of
       Some problem \<Rightarrow> Inl (Invalid_endpoint problem)
     | None \<Rightarrow>
        and_then (guard_or (is_set (he_key env)) Webhooks_unconfigured) (\<lambda>_.
        insert_subscription (sd_account dto) c (sd_endpoint dto) (sd_events dto) ciphertext kid i st)))"

definition own_subscription :: "auth_principal \<Rightarrow> string \<Rightarrow> string \<Rightarrow> hook_state \<Rightarrow> hook_error + subscription" where
  "own_subscription p c i st = (case subscription_by_id (run_accounts p) st i of
     None \<Rightarrow> Inl (Not_found ''webhook_subscription'')
   | Some s \<Rightarrow> if sb_client s \<noteq> c \<or> sb_status s = Sub_deleted then Inl (Not_found ''webhook_subscription'') else Inr s)"

definition rotate_own :: "hook_env \<Rightarrow> auth_principal \<Rightarrow> string \<Rightarrow> string \<Rightarrow> string \<Rightarrow> hook_state \<Rightarrow> hook_error + hook_state" where
  "rotate_own env p i ciphertext kid st =
     and_then (client_of p) (\<lambda>c.
     and_then (guard_or (is_set (he_key env)) Webhooks_unconfigured) (\<lambda>_.
     and_then (own_subscription p c i st) (\<lambda>s.
     Inr (log_event i ''webhook.secret_rotated'' (rotate_secret i ciphertext kid st)))))"

definition remove_own :: "auth_principal \<Rightarrow> string \<Rightarrow> hook_state \<Rightarrow> hook_error + hook_state" where
  "remove_own p i st =
     and_then (client_of p) (\<lambda>c.
     and_then (own_subscription p c i st) (\<lambda>s.
     Inr (log_event i ''webhook.unsubscribed'' (set_status i Sub_deleted None None st))))"

definition assert_account :: "auth_principal \<Rightarrow> string \<Rightarrow> hook_error + unit" where
  "assert_account p account = guard_or (ap_kind p \<noteq> Api_client_realm \<and> account \<in> set (ap_accounts p)) (Not_found ''account'')"

definition live_subscription :: "auth_principal \<Rightarrow> string \<Rightarrow> string \<Rightarrow> hook_state \<Rightarrow> hook_error + subscription" where
  "live_subscription p account i st = (case subscription_by_id (run_accounts p) st i of
     None \<Rightarrow> Inl (Not_found ''webhook_subscription'')
   | Some s \<Rightarrow> if sb_account s \<noteq> account \<or> sb_status s = Sub_deleted then Inl (Not_found ''webhook_subscription'') else Inr s)"

definition client_granted :: "hook_state \<Rightarrow> string \<Rightarrow> string \<Rightarrow> bool" where
  "client_granted st c account \<longleftrightarrow> client_active st c \<and> (c, account) \<in> set (di_client_grants (hk_directory st))"

definition register_endpoint :: "hook_env \<Rightarrow> auth_principal \<Rightarrow> string \<Rightarrow> subscription_dto \<Rightarrow> string \<Rightarrow> string \<Rightarrow> string \<Rightarrow> hook_state \<Rightarrow> hook_error + hook_state" where
  "register_endpoint env p account dto ciphertext kid i st =
     and_then (assert_account p account) (\<lambda>_.
     case endpoint_problem (he_parse_url env (sd_endpoint dto)) (he_allow_private env) of
       Some problem \<Rightarrow> Inl (Invalid_endpoint problem)
     | None \<Rightarrow>
        and_then (guard_or (is_set (he_key env)) Webhooks_unconfigured) (\<lambda>_.
        and_then (guard_or (client_granted st (sd_client dto) account) (Not_found ''api_client'')) (\<lambda>_.
        insert_subscription account (sd_client dto) (sd_endpoint dto) (sd_events dto) ciphertext kid i st)))"

definition rotate_endpoint :: "hook_env \<Rightarrow> auth_principal \<Rightarrow> string \<Rightarrow> string \<Rightarrow> string \<Rightarrow> string \<Rightarrow> hook_state \<Rightarrow> hook_error + hook_state" where
  "rotate_endpoint env p account i ciphertext kid st =
     and_then (assert_account p account) (\<lambda>_.
     and_then (guard_or (is_set (he_key env)) Webhooks_unconfigured) (\<lambda>_.
     and_then (live_subscription p account i st) (\<lambda>s.
     Inr (log_event i ''webhook.secret_rotated'' (rotate_secret i ciphertext kid st)))))"

definition pause_endpoint :: "auth_principal \<Rightarrow> string \<Rightarrow> string \<Rightarrow> string option \<Rightarrow> hook_state \<Rightarrow> hook_error + hook_state" where
  "pause_endpoint p account i typed st =
     (let reason = js_trim (case typed of None \<Rightarrow> [] | Some t \<Rightarrow> t) in
      and_then (guard_or (reason \<noteq> []) Reason_required) (\<lambda>_.
      and_then (assert_account p account) (\<lambda>_.
      and_then (live_subscription p account i st) (\<lambda>s.
      and_then (guard_or (sb_status s \<noteq> Sub_paused) (Already_paused (sb_reason s))) (\<lambda>_.
      Inr (log_event i ''webhook.paused'' (set_status i Sub_paused (Some Owner) (Some reason) st)))))))"

definition resume_endpoint :: "auth_principal \<Rightarrow> string \<Rightarrow> string \<Rightarrow> hook_state \<Rightarrow> hook_error + hook_state" where
  "resume_endpoint p account i st =
     and_then (assert_account p account) (\<lambda>_.
     and_then (live_subscription p account i st) (\<lambda>s.
     and_then (guard_or (sb_status s = Sub_paused) Not_paused) (\<lambda>_.
     Inr (log_event i ''webhook.resumed'' (reset_failures i (set_status i Sub_active None None st))))))"

definition remove_endpoint :: "auth_principal \<Rightarrow> string \<Rightarrow> string \<Rightarrow> hook_state \<Rightarrow> hook_error + hook_state" where
  "remove_endpoint p account i st =
     and_then (assert_account p account) (\<lambda>_.
     and_then (live_subscription p account i st) (\<lambda>s.
     Inr (log_event i ''webhook.unsubscribed'' (set_status i Sub_deleted None None st))))"

definition delivery_by_id :: "string list \<Rightarrow> hook_state \<Rightarrow> nat \<Rightarrow> delivery option" where
  "delivery_by_id bound st i = find (\<lambda>d. dv_id d = i \<and> dv_account d \<in> set bound) (hk_deliveries st)"

definition replay_dead_letter :: "hook_env \<Rightarrow> ms \<Rightarrow> auth_principal \<Rightarrow> string \<Rightarrow> nat \<Rightarrow> hook_state \<Rightarrow> hook_error + hook_state" where
  "replay_dead_letter env now p account i st =
     and_then (assert_account p account) (\<lambda>_.
     case delivery_by_id (run_accounts p) st i of
       None \<Rightarrow> Inl (Not_found ''webhook_delivery'')
     | Some dead \<Rightarrow>
        and_then (guard_or (dv_account dead = account) (Not_found ''webhook_delivery'')) (\<lambda>_.
        and_then (guard_or (dv_status dead = Dv_dead_lettered) Not_dead_lettered) (\<lambda>_.
        and_then (live_subscription p account (dv_subscription dead) st) (\<lambda>s.
        and_then (guard_or (sb_status s = Sub_active) Subscription_not_active) (\<lambda>_.
        let (claimed, st1) = claim_dead_letter i st in
        and_then (guard_or claimed Not_dead_lettered) (\<lambda>_.
        Inr (log_event (sb_id s) ''webhook.replayed'' (snd (attempt env now s (dv_envelope dead) (dv_attempt dead + 1) st1)))))))))"

definition dead_letters :: "auth_principal \<Rightarrow> string \<Rightarrow> string option \<Rightarrow> hook_state \<Rightarrow> hook_error + delivery list" where
  "dead_letters p account only st =
     and_then (assert_account p account) (\<lambda>_.
     Inr (take 100 (rev (filter (\<lambda>d. dv_account d = account \<and> dv_account d \<in> set (run_accounts p) \<and> dv_status d = Dv_dead_lettered \<and>
       (case only of None \<Rightarrow> True | Some s \<Rightarrow> dv_subscription d = s)) (hk_deliveries st)))))"

end
