(* ===== verification/Webhook_Life.thy ===== *)
theory Webhook_Life
  imports Webhook_Service
begin

section \<open>The life of webhook deliveries\<close>

text \<open>
  The step relation over every write of the component, its invariant (the attempts of an event at a
  subscription form one ladder with one live end, no event crosses accounts, no active subscription
  stands at the failure threshold), the measure that ends the retries, and two runs that show what the
  component does not promise.
\<close>

subsection \<open>Ladders\<close>

definition rows :: "delivery list \<Rightarrow> string \<Rightarrow> string \<Rightarrow> delivery list" where
  "rows ds s e = filter (\<lambda>d. dv_subscription d = s \<and> dv_outbox d = e) ds"

abbreviation rows_of :: "delivery list \<Rightarrow> delivery \<Rightarrow> delivery list" where
  "rows_of ds d \<equiv> rows ds (dv_subscription d) (dv_outbox d)"

definition ladder :: "delivery list \<Rightarrow> bool" where
  "ladder rs \<longleftrightarrow> map dv_attempt rs = [1..<Suc (length rs)] \<and> (\<forall>d\<in>set (butlast rs). dv_status d = Dv_replayed)"

definition ladders :: "delivery list \<Rightarrow> bool" where
  "ladders ds \<longleftrightarrow> (\<forall>s e. ladder (rows ds s e)) \<and> distinct (map dv_id ds)"

definition exhausted :: "delivery list \<Rightarrow> bool" where
  "exhausted rs \<longleftrightarrow> (\<forall>d\<in>set rs. dv_status d = Dv_replayed)"

definition tip :: "delivery list \<Rightarrow> delivery \<Rightarrow> bool" where
  "tip ds d \<longleftrightarrow> rows_of ds d \<noteq> [] \<and> last (rows_of ds d) = d"

lemma rows_append: "rows (ds @ es) s e = rows ds s e @ rows es s e"
  by (simp add: rows_def)

lemma rows_single: "rows [d] s e = (if dv_subscription d = s \<and> dv_outbox d = e then [d] else [])"
  by (simp add: rows_def)

definition put_replayed :: "nat \<Rightarrow> delivery_status \<Rightarrow> delivery \<Rightarrow> delivery" where
  "put_replayed i from d = (if dv_id d = i \<and> dv_status d = from then d\<lparr>dv_status := Dv_replayed\<rparr> else d)"

lemma put_replayed_simps [simp]:
  "dv_id (put_replayed i from d) = dv_id d" "dv_subscription (put_replayed i from d) = dv_subscription d"
  "dv_outbox (put_replayed i from d) = dv_outbox d" "dv_attempt (put_replayed i from d) = dv_attempt d"
  "dv_account (put_replayed i from d) = dv_account d" "dv_type (put_replayed i from d) = dv_type d"
  "dv_envelope (put_replayed i from d) = dv_envelope d" "dv_error (put_replayed i from d) = dv_error d"
  "dv_response (put_replayed i from d) = dv_response d" "dv_next (put_replayed i from d) = dv_next d"
  "dv_status d = Dv_replayed \<Longrightarrow> dv_status (put_replayed i from d) = Dv_replayed"
  by (simp_all add: put_replayed_def)

lemma restate_deliveries: "hk_deliveries (restate i from st) = map (put_replayed i from) (hk_deliveries st)"
  by (simp add: restate_def put_replayed_def [abs_def])

lemma restate_rest [simp]:
  "hk_subscriptions (restate i from st) = hk_subscriptions st" "hk_directory (restate i from st) = hk_directory st"
  by (simp_all add: restate_def)

lemma rows_restate: "rows (map (put_replayed i from) ds) s e = map (put_replayed i from) (rows ds s e)"
  by (induction ds) (auto simp: rows_def)

lemma ladder_restate: "ladder rs \<Longrightarrow> ladder (map (put_replayed i from) rs)"
  by (auto simp: ladder_def map_butlast [symmetric] comp_def)

lemma ladders_restate: "ladders ds \<Longrightarrow> ladders (map (put_replayed i from) ds)"
  by (simp add: ladders_def rows_restate ladder_restate comp_def)

lemma ladders_insert:
  assumes "ladders ds" "exhausted (rows_of ds d)" "dv_attempt d = Suc (length (rows_of ds d))" "dv_id d \<notin> dv_id ` set ds"
  shows "ladders (ds @ [d])"
proof -
  have "ladder (rows (ds @ [d]) s e)" for s e
  proof (cases "dv_subscription d = s \<and> dv_outbox d = e")
    case True
    with assms(1) have "ladder (rows ds s e)" by (simp add: ladders_def)
    with True assms(2,3) show ?thesis
      unfolding ladder_def exhausted_def rows_append rows_single by (auto simp del: upt_Suc simp: upt_Suc_append)
  qed (use assms(1) in \<open>auto simp: ladders_def rows_append rows_single\<close>)
  with assms(1,4) show ?thesis by (simp add: ladders_def)
qed

lemma ladder_nth: "ladder rs \<Longrightarrow> i < length rs \<Longrightarrow> dv_attempt (rs ! i) = Suc i"
  by (drule ladder_def [THEN iffD1, THEN conjunct1, THEN arg_cong [of _ _ "\<lambda>xs. xs ! i"]]) (simp del: upt_Suc)

lemma ladder_last_attempt: "ladder rs \<Longrightarrow> rs \<noteq> [] \<Longrightarrow> dv_attempt (last rs) = length rs"
  using ladder_nth [of rs "length rs - 1"] by (simp add: last_conv_nth)

text \<open>A row without a later attempt is the tip of its ladder; a row that is not replayed is.\<close>

lemma latest_is_tip:
  assumes "ladders ds" "d \<in> set ds" "\<forall>l\<in>set (rows_of ds d). dv_attempt l \<le> dv_attempt d"
  shows "tip ds d"
proof -
  let ?rs = "rows_of ds d"
  have l: "ladder ?rs" using assms(1) by (simp add: ladders_def)
  have "d \<in> set ?rs" using assms(2) by (simp add: rows_def)
  then obtain i where i: "i < length ?rs" "d = ?rs ! i" by (metis in_set_conv_nth)
  then have "?rs \<noteq> []" by auto
  moreover have "dv_attempt (last ?rs) \<le> dv_attempt d" using assms(3) \<open>?rs \<noteq> []\<close> by simp
  then have "length ?rs \<le> Suc i" using ladder_last_attempt [OF l \<open>?rs \<noteq> []\<close>] ladder_nth [OF l i(1)] i(2) by simp
  moreover from this have "i = length ?rs - 1" using i(1) by linarith
  ultimately show ?thesis using i by (simp add: tip_def last_conv_nth)
qed

lemma live_is_tip:
  assumes "ladders ds" "d \<in> set ds" "dv_status d \<noteq> Dv_replayed"
  shows "tip ds d"
proof -
  let ?rs = "rows_of ds d"
  have l: "ladder ?rs" using assms(1) by (simp add: ladders_def)
  have d: "d \<in> set ?rs" using assms(2) by (simp add: rows_def)
  then have ne: "?rs \<noteq> []" by auto
  then have "set ?rs = insert (last ?rs) (set (butlast ?rs))"
    by (metis append_butlast_last_id list.simps(15) rotate1.simps(2) set_rotate1)
  moreover have "d \<notin> set (butlast ?rs)" using l assms(3) by (auto simp: ladder_def)
  ultimately show ?thesis using d ne by (auto simp: tip_def)
qed

lemma tip_length: "ladders ds \<Longrightarrow> tip ds d \<Longrightarrow> length (rows_of ds d) = dv_attempt d"
  using ladder_last_attempt [of "rows_of ds d"] by (auto simp: ladders_def tip_def)

text \<open>Marking the tip of a ladder exhausts it; other ladders keep their tips.\<close>

lemma exhausted_restate:
  assumes "ladders ds" "tip ds d" "dv_status d = from"
  shows "exhausted (map (put_replayed (dv_id d) from) (rows_of ds d))"
proof -
  let ?rs = "rows_of ds d"
  have "?rs = butlast ?rs @ [d]" using assms(2) by (metis append_butlast_last_id tip_def)
  moreover have "\<forall>x\<in>set (butlast ?rs). dv_status x = Dv_replayed" using assms(1) by (simp add: ladders_def ladder_def)
  ultimately have "\<forall>x\<in>set ?rs. x = d \<or> dv_status x = Dv_replayed"
    by (metis Un_iff empty_iff insert_iff list.set(1) list.simps(15) set_append)
  with assms(3) show ?thesis by (auto simp: exhausted_def put_replayed_def)
qed

subsection \<open>Subscriptions\<close>

definition sub_key :: "subscription \<Rightarrow> string \<times> string \<times> string \<times> string list" where
  "sub_key s = (sb_id s, sb_account s, sb_client s, sb_events s)"

definition keys_of :: "hook_state \<Rightarrow> (string \<times> string \<times> string \<times> string list) list" where
  "keys_of st = map sub_key (hk_subscriptions st)"

lemma on_subscription_keys:
  assumes "\<And>s. sub_key (f s) = sub_key s"
  shows "keys_of (on_subscription i f st) = keys_of st"
  by (auto simp: keys_of_def on_subscription_def assms)

lemma on_subscription_rest [simp]:
  "hk_deliveries (on_subscription i f st) = hk_deliveries st" "hk_directory (on_subscription i f st) = hk_directory st"
  by (simp_all add: on_subscription_def)

lemma log_event_simps [simp]:
  "hk_deliveries (log_event i e st) = hk_deliveries st" "hk_subscriptions (log_event i e st) = hk_subscriptions st"
  "hk_directory (log_event i e st) = hk_directory st" "keys_of (log_event i e st) = keys_of st"
  by (simp_all add: log_event_def keys_of_def)

lemmas status_ops = set_status_def reset_failures_def rotate_secret_def

lemma status_ops_keys [simp]:
  "keys_of (set_status i status reason typed st) = keys_of st" "keys_of (reset_failures i st) = keys_of st"
  "keys_of (rotate_secret i ciphertext kid st) = keys_of st"
  by (simp_all add: status_ops on_subscription_keys sub_key_def)

lemma status_ops_rest [simp]:
  "hk_deliveries (set_status i status reason typed st) = hk_deliveries st" "hk_deliveries (reset_failures i st) = hk_deliveries st"
  "hk_deliveries (rotate_secret i ciphertext kid st) = hk_deliveries st"
  by (simp_all add: status_ops)

definition subs_ok :: "subscription list \<Rightarrow> bool" where
  "subs_ok ss \<longleftrightarrow> distinct (map sb_id ss) \<and> (\<forall>s\<in>set ss. sb_status s = Sub_active \<longrightarrow> sb_failures s < pause_after_failures)"

lemma subs_ok_map:
  assumes "subs_ok (hk_subscriptions st)" "\<And>s. sb_id (f s) = sb_id s"
    "\<And>s. s \<in> set (hk_subscriptions st) \<Longrightarrow> sb_id s = i \<Longrightarrow> sb_status (f s) = Sub_active \<Longrightarrow> sb_failures (f s) < pause_after_failures"
  shows "subs_ok (hk_subscriptions (on_subscription i f st))"
proof -
  have "hk_subscriptions (on_subscription i f st) = map (\<lambda>s. if sb_id s = i then f s else s) (hk_subscriptions st)"
    by (simp add: on_subscription_def)
  moreover have "map sb_id (map (\<lambda>s. if sb_id s = i then f s else s) (hk_subscriptions st)) = map sb_id (hk_subscriptions st)"
    using assms(2) by auto
  ultimately have "distinct (map sb_id (hk_subscriptions (on_subscription i f st)))"
    using assms(1) by (simp only: subs_ok_def)
  with assms(1,3) show ?thesis by (auto simp: subs_ok_def on_subscription_def)
qed

lemma found_unique:
  assumes "distinct (map sb_id ss)" "s \<in> set ss"
  shows "find (\<lambda>x. sb_id x = sb_id s) ss = Some s"
  using assms by (induction ss) (auto simp: image_iff)

subsection \<open>The invariant\<close>

definition row_ok :: "hook_state \<Rightarrow> delivery \<Rightarrow> bool" where
  "row_ok st d \<longleftrightarrow>
     (\<exists>c events. (dv_subscription d, dv_account d, c, events) \<in> set (keys_of st) \<and> dv_type d \<in> set events) \<and>
     en_account (dv_envelope d) = dv_account d \<and> en_id (dv_envelope d) = dv_outbox d \<and> en_type (dv_envelope d) = dv_type d \<and>
     (dv_status d = Dv_delivered \<longrightarrow> (\<exists>code. dv_response d = Some code \<and> 200 \<le> code \<and> code < 300)) \<and>
     (dv_status d = Dv_retrying \<longrightarrow> dv_attempt d < max_attempts \<and> dv_next d \<noteq> None) \<and>
     (dv_status d = Dv_dead_lettered \<longrightarrow> max_attempts \<le> dv_attempt d)"

definition hooks_ok :: "hook_state \<Rightarrow> bool" where
  "hooks_ok st \<longleftrightarrow> ladders (hk_deliveries st) \<and> subs_ok (hk_subscriptions st) \<and> (\<forall>d\<in>set (hk_deliveries st). row_ok st d \<and> dv_id d < length (hk_deliveries st))"

lemma row_ok_mono: "row_ok st d \<Longrightarrow> set (keys_of st) \<subseteq> set (keys_of st') \<Longrightarrow> row_ok st' d"
  unfolding row_ok_def by blast

lemma row_ok_restated: "row_ok st d \<Longrightarrow> row_ok st (put_replayed i from d)"
  by (auto simp: row_ok_def put_replayed_def)

lemma hooks_ok_frame:
  assumes "hooks_ok st" "hk_deliveries st' = hk_deliveries st" "set (keys_of st) \<subseteq> set (keys_of st')" "subs_ok (hk_subscriptions st')"
  shows "hooks_ok st'"
  using assms row_ok_mono unfolding hooks_ok_def by metis

lemma hooks_ok_restate: "hooks_ok st \<Longrightarrow> hooks_ok (restate i from st)"
  using row_ok_mono [of st _ "restate i from st"]
  by (auto simp: hooks_ok_def restate_deliveries ladders_restate keys_of_def row_ok_restated)

lemma hooks_ok_log [simp]: "hooks_ok (log_event i e st) \<longleftrightarrow> hooks_ok st"
  by (simp add: hooks_ok_def row_ok_def)

subsection \<open>An attempt keeps it\<close>

lemma record_outcome_spec:
  assumes "distinct (map sb_id (hk_subscriptions st))"
  shows "\<forall>s\<in>set (hk_subscriptions (snd (record_outcome i delivered st))). sb_id s = i \<longrightarrow> sb_failures s = fst (record_outcome i delivered st)"
proof -
  let ?ss = "hk_subscriptions (snd (record_outcome i delivered st))"
  have "map sb_id ?ss = map sb_id (hk_subscriptions st)"
    by (auto simp: record_outcome_def on_subscription_def Let_def)
  with assms have "distinct (map sb_id ?ss)" by (simp only:)
  from found_unique [OF this] show ?thesis by (auto simp: record_outcome_def Let_def)
qed

lemma record_outcome_simps [simp]:
  "hk_deliveries (snd (record_outcome i delivered st)) = hk_deliveries st" "hk_directory (snd (record_outcome i delivered st)) = hk_directory st"
  "keys_of (snd (record_outcome i delivered st)) = keys_of st"
  by (simp_all add: record_outcome_def Let_def on_subscription_keys sub_key_def)

text \<open>What one attempt writes.\<close>

lemma attempt_writes:
  obtains st' d where "attempt env now s e n st = (d, st')" "hk_deliveries st' = hk_deliveries st @ [d]" "keys_of st' = keys_of st"
    "hk_directory st' = hk_directory st" "dv_id d = length (hk_deliveries st)" "dv_account d = sb_account s" "dv_subscription d = sb_id s"
    "dv_outbox d = en_id e" "dv_type d = en_type e" "dv_attempt d = n" "dv_envelope d = e" "dv_status d \<noteq> Dv_replayed"
    "dv_status d = Dv_retrying \<longrightarrow> n < max_attempts \<and> dv_next d = next_attempt_at n now \<and> hk_subscriptions st' = hk_subscriptions st"
    "dv_status d = Dv_dead_lettered \<longrightarrow> max_attempts \<le> n"
    "dv_status d = Dv_delivered \<longleftrightarrow> snd (send_outcome env s now e) = None" "dv_response d = fst (send_outcome env s now e)"
    "subs_ok (hk_subscriptions st) \<longrightarrow> subs_ok (hk_subscriptions st')"
proof -
  define d where "d = fst (attempt env now s e n st)"
  define st' where "st' = snd (attempt env now s e n st)"
  obtain response problem where out: "send_outcome env s now e = (response, problem)" by (cases "send_outcome env s now e")
  note defs = d_def st'_def attempt_def out Let_def case_prod_beta
  let ?st1 = "insert_delivery d st"
  have d: "dv_id d = length (hk_deliveries st)" "dv_account d = sb_account s" "dv_subscription d = sb_id s"
    "dv_outbox d = en_id e" "dv_type d = en_type e" "dv_attempt d = n" "dv_envelope d = e" "dv_response d = response"
    "dv_status d = (if problem = None then Dv_delivered else if max_attempts \<le> n then Dv_dead_lettered else Dv_retrying)"
    "dv_next d = (if problem = None \<or> max_attempts \<le> n then None else next_attempt_at n now)"
    by (simp_all add: defs)
  have st1: "hk_deliveries ?st1 = hk_deliveries st @ [d]" "keys_of ?st1 = keys_of st" "hk_directory ?st1 = hk_directory st"
    "hk_subscriptions ?st1 = hk_subscriptions st"
    by (simp_all add: insert_delivery_def keys_of_def)
  let ?r = "record_outcome (sb_id s) (problem = None) ?st1"
  have st': "st' = (if problem = None \<or> max_attempts \<le> n then
      (if problem \<noteq> None \<and> pause_after_failures \<le> fst ?r
       then log_event (sb_id s) ''webhook.paused'' (set_status (sb_id s) Sub_paused (Some Continuous_failure) None (snd ?r)) else snd ?r)
     else ?st1)"
    by (simp add: defs)
  have rest: "hk_deliveries st' = hk_deliveries st @ [d]" "keys_of st' = keys_of st" "hk_directory st' = hk_directory st"
    "dv_status d = Dv_retrying \<longrightarrow> hk_subscriptions st' = hk_subscriptions st"
    using st1 d(9) by (auto simp: st' set_status_def on_subscription_keys sub_key_def)
  have "subs_ok (hk_subscriptions st')" if ok: "subs_ok (hk_subscriptions st)"
  proof -
    have out: "\<forall>x\<in>set (hk_subscriptions (snd ?r)). sb_id x = sb_id s \<longrightarrow> sb_failures x = fst ?r"
      by (rule record_outcome_spec) (use ok st1(4) in \<open>simp add: subs_ok_def\<close>)
    have other: "\<forall>x\<in>set (hk_subscriptions (snd ?r)). sb_id x \<noteq> sb_id s \<longrightarrow> x \<in> set (hk_subscriptions st)"
      by (auto simp: record_outcome_def on_subscription_def Let_def st1 split: if_splits)
    have zero: "problem = None \<Longrightarrow> \<forall>x\<in>set (hk_subscriptions (snd ?r)). sb_id x = sb_id s \<longrightarrow> sb_failures x = 0"
      by (auto simp: record_outcome_def on_subscription_def Let_def)
    have ids: "distinct (map sb_id (hk_subscriptions (snd ?r)))"
    proof -
      have "map sb_id (hk_subscriptions (snd ?r)) = map sb_id (hk_subscriptions st)"
        by (auto simp: record_outcome_def on_subscription_def Let_def st1)
      with ok show ?thesis by (simp only: subs_ok_def)
    qed
    show ?thesis
    proof (cases "problem = None \<or> max_attempts \<le> n")
      case False
      then have "st' = ?st1" by (simp only: st' if_False)
      with ok st1(4) show ?thesis by simp
    next
      case True
      note settled = this
      show ?thesis
      proof (cases "problem \<noteq> None \<and> pause_after_failures \<le> fst ?r")
        case True
        have "subs_ok (map (\<lambda>x. if sb_id x = sb_id s then x\<lparr>sb_status := Sub_paused, sb_reason := Some Continuous_failure, sb_note := None,
            sb_version := sb_version x + 1\<rparr> else x) (hk_subscriptions (snd ?r)))" (is "subs_ok (map ?f ?ss)")
        proof -
          have "map sb_id (map ?f ?ss) = map sb_id ?ss" by auto
          with ids have "distinct (map sb_id (map ?f ?ss))" by (simp only:)
          moreover have "\<forall>x\<in>set (map ?f ?ss). sb_status x = Sub_active \<longrightarrow> sb_failures x < pause_after_failures"
            using ok other by (auto simp: subs_ok_def)
          ultimately show ?thesis by (simp only: subs_ok_def)
        qed
        with settled True show ?thesis by (simp add: st' set_status_def on_subscription_def)
      next
        case False
        have "pause_after_failures > 0" by (simp add: pause_after_failures_def)
        with settled False ids out other ok zero show ?thesis by (auto simp: st' subs_ok_def not_le)
      qed
    qed
  qed
  with that [of d st'] d rest out show thesis
    by (auto simp: d_def st'_def)
qed

lemma next_attempt_some: "n < max_attempts \<Longrightarrow> next_attempt_at n now \<noteq> None"
  by (simp add: next_attempt_at_def)

lemma send_outcome_ok: "snd (send_outcome env s now e) = None \<Longrightarrow> \<exists>code. fst (send_outcome env s now e) = Some code \<and> 200 \<le> code \<and> code < 300"
  by (auto simp: send_outcome_def not_le split: option.splits fetched.splits if_splits)

lemma attempt_keeps:
  assumes "hooks_ok st" "exhausted (rows (hk_deliveries st) (sb_id s) (en_id e))"
    "n = Suc (length (rows (hk_deliveries st) (sb_id s) (en_id e)))"
    "sub_key s \<in> set (keys_of st)" "en_type e \<in> set (sb_events s)" "en_account e = sb_account s"
  shows "hooks_ok (snd (attempt env now s e n st))"
proof (rule attempt_writes [of env now s e n st])
  fix st' d
  assume w: "attempt env now s e n st = (d, st')" "hk_deliveries st' = hk_deliveries st @ [d]" "keys_of st' = keys_of st"
    "dv_id d = length (hk_deliveries st)" "dv_account d = sb_account s" "dv_subscription d = sb_id s"
    "dv_outbox d = en_id e" "dv_type d = en_type e" "dv_attempt d = n" "dv_envelope d = e"
    "dv_status d = Dv_retrying \<longrightarrow> n < max_attempts \<and> dv_next d = next_attempt_at n now \<and> hk_subscriptions st' = hk_subscriptions st"
    "dv_status d = Dv_dead_lettered \<longrightarrow> max_attempts \<le> n"
    "dv_status d = Dv_delivered \<longleftrightarrow> snd (send_outcome env s now e) = None" "dv_response d = fst (send_outcome env s now e)"
    "subs_ok (hk_subscriptions st) \<longrightarrow> subs_ok (hk_subscriptions st')"
  have "row_ok st' d"
    using w(3-14) assms(4-6) next_attempt_some [of n now] send_outcome_ok [of env s now e]
    by (auto simp: row_ok_def sub_key_def)
  moreover have "\<forall>x\<in>set (hk_deliveries st). row_ok st' x" 
    using assms(1) row_ok_mono [of st _ st'] w(3) by (simp add: hooks_ok_def)
  moreover have "ladders (hk_deliveries st @ [d])"
    using assms(1-3) w by (intro ladders_insert) (auto simp: hooks_ok_def)
  ultimately show "hooks_ok (snd (attempt env now s e n st))"
    using assms(1) w by (auto simp: hooks_ok_def)
qed

subsection \<open>The worker keeps it\<close>

lemma key_owner:
  assumes "subs_ok (hk_subscriptions st)" "(i, a, c, events) \<in> set (keys_of st)" "s \<in> set (hk_subscriptions st)" "sb_id s = i"
  shows "sb_account s = a \<and> sb_client s = c \<and> sb_events s = events"
proof -
  obtain x where x: "x \<in> set (hk_subscriptions st)" "sub_key x = (i, a, c, events)" using assms(2) by (auto simp: keys_of_def)
  with assms(1,3,4) have "x = s" by (auto simp: subs_ok_def sub_key_def distinct_map inj_on_def)
  with x show ?thesis by (simp add: sub_key_def)
qed

lemma subscription_found:
  "subscription_by_id bound st i = Some s \<Longrightarrow> s \<in> set (hk_subscriptions st) \<and> sb_id s = i \<and> sb_account s \<in> set bound"
  by (auto simp: subscription_by_id_def find_Some_iff)

lemma marked_others:
  assumes "distinct (map dv_id (hk_deliveries st))" "d \<in> set (hk_deliveries st)" "x \<in> set (hk_deliveries st)" "x \<noteq> d"
  shows "x \<in> set (hk_deliveries (restate (dv_id d) from st))"
proof -
  have "dv_id x \<noteq> dv_id d" using assms by (auto simp: distinct_map inj_on_def)
  then have "put_replayed (dv_id d) from x = x" by (simp add: put_replayed_def)
  with assms(3) show ?thesis by (auto simp: restate_deliveries intro: rev_image_eqI)
qed

text \<open>Sending the tip of a ladder again, as the sweep and the replay do.\<close>

lemma resend_keeps:
  assumes "hooks_ok st" "d \<in> set (hk_deliveries st)" "dv_status d = from" "from \<noteq> Dv_replayed"
    "s \<in> set (hk_subscriptions st)" "sb_id s = dv_subscription d"
  shows "hooks_ok (snd (attempt env now s (dv_envelope d) (dv_attempt d + 1) (restate (dv_id d) from st)))"
proof -
  let ?st1 = "restate (dv_id d) from st"
  from assms(1,2) have row: "row_ok st d" and l: "ladders (hk_deliveries st)" and subs: "subs_ok (hk_subscriptions st)"
    by (auto simp: hooks_ok_def)
  then obtain c events where k: "(dv_subscription d, dv_account d, c, events) \<in> set (keys_of st)" "dv_type d \<in> set events"
      "en_account (dv_envelope d) = dv_account d" "en_id (dv_envelope d) = dv_outbox d" "en_type (dv_envelope d) = dv_type d"
    by (auto simp: row_ok_def)
  from key_owner [OF subs k(1) assms(5,6)] have own: "sb_account s = dv_account d" "sb_events s = events" by auto
  have tip: "tip (hk_deliveries st) d" using live_is_tip [OF l assms(2)] assms(3,4) by simp
  have rows: "rows (hk_deliveries ?st1) (sb_id s) (en_id (dv_envelope d)) = map (put_replayed (dv_id d) from) (rows_of (hk_deliveries st) d)"
    using assms(6) k(4) by (simp add: restate_deliveries rows_restate)
  show ?thesis
  proof (rule attempt_keeps)
    show "hooks_ok ?st1" by (rule hooks_ok_restate [OF assms(1)])
    show "exhausted (rows (hk_deliveries ?st1) (sb_id s) (en_id (dv_envelope d)))"
      unfolding rows by (rule exhausted_restate [OF l tip assms(3)])
    show "dv_attempt d + 1 = Suc (length (rows (hk_deliveries ?st1) (sb_id s) (en_id (dv_envelope d))))"
      unfolding rows using tip_length [OF l tip] by simp
    show "sub_key s \<in> set (keys_of ?st1)" using assms(5) by (simp add: keys_of_def)
  qed (use own k in simp_all)
qed

lemma retry_one_keeps:
  assumes "hooks_ok st" "d \<in> set (hk_deliveries st)" "dv_status d = Dv_retrying"
  shows "hooks_ok (retry_one env now account d st) \<and>
    (\<forall>x\<in>set (hk_deliveries st). x \<noteq> d \<longrightarrow> x \<in> set (hk_deliveries (retry_one env now account d st)))"
proof -
  have ids: "distinct (map dv_id (hk_deliveries st))" using assms(1) by (simp add: hooks_ok_def ladders_def)
  have others: "\<forall>x\<in>set (hk_deliveries st). x \<noteq> d \<longrightarrow> x \<in> set (hk_deliveries (mark_retried (dv_id d) st))"
    using marked_others [OF ids assms(2)] by (simp add: mark_retried_def)
  have grows: "set (hk_deliveries st1) \<subseteq> set (hk_deliveries (snd (attempt env now s e n st1)))" for s e n st1
    by (rule attempt_writes [of env now s e n st1]) auto
  show ?thesis
  proof (cases "subscription_by_id [account] st (dv_subscription d)")
    case None
    with others hooks_ok_restate [OF assms(1)] show ?thesis by (simp add: retry_one_def mark_retried_def)
  next
    case (Some s)
    show ?thesis
    proof (cases "sb_status s = Sub_active")
      case True
      from subscription_found [OF Some] resend_keeps [OF assms(1,2,3)]
      have "hooks_ok (snd (attempt env now s (dv_envelope d) (dv_attempt d + 1) (mark_retried (dv_id d) st)))"
        by (simp add: mark_retried_def)
      moreover have "set (hk_deliveries (mark_retried (dv_id d) st))
          \<subseteq> set (hk_deliveries (snd (attempt env now s (dv_envelope d) (dv_attempt d + 1) (mark_retried (dv_id d) st))))"
        by (rule grows)
      ultimately show ?thesis using Some True others by (auto simp: retry_one_def)
    next
      case False
      with Some others hooks_ok_restate [OF assms(1)] show ?thesis by (simp add: retry_one_def mark_retried_def)
    qed
  qed
qed

lemma retry_fold_keeps:
  assumes "hooks_ok st" "distinct ds" "\<forall>d\<in>set ds. d \<in> set (hk_deliveries st) \<and> dv_status d = Dv_retrying"
  shows "hooks_ok (fold (retry_one env now account) ds st)"
  using assms
proof (induction ds arbitrary: st)
  case (Cons d ds)
  from retry_one_keeps [of st d env now account] Cons.prems show ?case
    by (auto intro!: Cons.IH)
qed simp

lemma due_retries_live:
  "set (due_retries st account now batch) \<subseteq> {d \<in> set (hk_deliveries st). dv_account d = account \<and> dv_status d = Dv_retrying}"
  by (auto simp: due_retries_def dest!: in_set_takeD)

lemma nothing_due:
  assumes "\<forall>d\<in>set (hk_deliveries st). dv_status d = Dv_replayed"
  shows "due_retries st account now batch = []"
proof -
  have "d \<notin> set (due_retries st account now batch)" for d
    using assms due_retries_live [of st account now batch] by auto
  then show ?thesis by (meson last_in_set)
qed

lemma due_retries_distinct: "distinct (map dv_id (hk_deliveries st)) \<Longrightarrow> distinct (due_retries st account now batch)"
  by (auto simp: due_retries_def distinct_map intro!: distinct_take distinct_filter)

lemma retry_account_keeps:
  assumes "hooks_ok st"
  shows "hooks_ok (retry_account env now batch account st)"
proof -
  from assms have "distinct (map dv_id (hk_deliveries st))" by (simp add: hooks_ok_def ladders_def)
  from retry_fold_keeps [OF assms due_retries_distinct [OF this]] due_retries_live [of st account now batch] show ?thesis
    unfolding retry_account_def by blast
qed

lemma retry_due_keeps: "hooks_ok st \<Longrightarrow> hooks_ok (retry_due env now batch st)"
proof -
  have "hooks_ok (fold (retry_account env now batch) as st)" if "hooks_ok st" for as
    using that by (induction as arbitrary: st) (auto intro: retry_account_keeps)
  then show "hooks_ok st \<Longrightarrow> hooks_ok (retry_due env now batch st)" by (simp add: retry_due_def)
qed

lemma first_attempt_keeps:
  assumes "hooks_ok st" "sub_key s \<in> set (keys_of st)" "en_type e \<in> set (sb_events s)" "en_account e = sb_account s"
  shows "hooks_ok (first_attempt env now e s st) \<and> keys_of (first_attempt env now e s st) = keys_of st"
proof (cases "has_delivery st (sb_id s) (en_id e)")
  case False
  then have "rows (hk_deliveries st) (sb_id s) (en_id e) = []" by (auto simp: has_delivery_def rows_def filter_empty_conv)
  with assms have "hooks_ok (snd (attempt env now s e 1 st))" by (intro attempt_keeps) (simp_all add: exhausted_def)
  moreover have "keys_of (snd (attempt env now s e 1 st)) = keys_of st" by (rule attempt_writes [of env now s e 1 st]) simp
  ultimately show ?thesis using False by (simp add: first_attempt_def)
qed (use assms in \<open>simp add: first_attempt_def\<close>)

lemma on_outbox_keeps:
  assumes "hooks_ok st"
  shows "hooks_ok (on_outbox env tickets now row st)"
proof -
  have run: "hooks_ok (fold (first_attempt env now e) ss st0)"
    if "hooks_ok st0" "\<forall>s\<in>set ss. sub_key s \<in> set (keys_of st0) \<and> en_type e \<in> set (sb_events s) \<and> en_account e = sb_account s" for ss st0 e
    using that
  proof (induction ss arbitrary: st0)
    case (Cons s ss)
    then show ?case using first_attempt_keeps [of st0 s e env now] by simp
  qed simp
  have "\<forall>s\<in>set (active_for_event st account ty). sub_key s \<in> set (keys_of st) \<and> ty \<in> set (sb_events s) \<and> account = sb_account s" for account ty
    by (auto simp: active_for_event_def keys_of_def)
  with assms show ?thesis by (auto simp: on_outbox_def Let_def split: option.splits intro!: run)
qed

subsection \<open>The services keep it\<close>

lemma status_change_keeps:
  assumes "hooks_ok st" "\<And>s. sub_key (f s) = sub_key s"
    "\<And>s. s \<in> set (hk_subscriptions st) \<Longrightarrow> sb_id s = i \<Longrightarrow> sb_status (f s) = Sub_active \<Longrightarrow> sb_failures (f s) < pause_after_failures"
  shows "hooks_ok (on_subscription i f st)"
proof (rule hooks_ok_frame [OF assms(1)])
  have "sb_id (f s) = sb_id s" for s using assms(2) [of s] by (simp add: sub_key_def)
  with assms(1,3) show "subs_ok (hk_subscriptions (on_subscription i f st))"
    by (intro subs_ok_map) (auto simp: hooks_ok_def)
qed (simp_all add: on_subscription_keys assms(2))

lemma active_below: "hooks_ok st \<Longrightarrow> s \<in> set (hk_subscriptions st) \<Longrightarrow> sb_status s = Sub_active \<Longrightarrow> sb_failures s < pause_after_failures"
  by (simp add: hooks_ok_def subs_ok_def)

lemma set_status_keeps: "hooks_ok st \<Longrightarrow> status \<noteq> Sub_active \<Longrightarrow> hooks_ok (set_status i status reason typed st)"
  unfolding set_status_def by (rule status_change_keeps) (simp_all add: sub_key_def)

lemma rotate_keeps: "hooks_ok st \<Longrightarrow> hooks_ok (rotate_secret i ciphertext kid st)"
  unfolding rotate_secret_def by (rule status_change_keeps) (auto simp: sub_key_def active_below)

lemma resume_keeps: "hooks_ok st \<Longrightarrow> hooks_ok (reset_failures i (set_status i Sub_active None None st))"
proof -
  assume ok: "hooks_ok st"
  have "reset_failures i (set_status i Sub_active None None st) = on_subscription i (\<lambda>s. s\<lparr>sb_status := Sub_active, sb_reason := None,
      sb_note := None, sb_version := sb_version s + 1, sb_failures := 0\<rparr>) st"
    by (simp add: status_ops on_subscription_def)
  moreover have "hooks_ok (on_subscription i (\<lambda>s. s\<lparr>sb_status := Sub_active, sb_reason := None,
      sb_note := None, sb_version := sb_version s + 1, sb_failures := 0\<rparr>) st)"
    by (rule status_change_keeps [OF ok]) (simp_all add: sub_key_def pause_after_failures_def)
  ultimately show ?thesis by simp
qed

lemma insert_subscription_keeps:
  assumes "hooks_ok st" "insert_subscription account c url events ciphertext kid i st = Inr st'" "i \<notin> sb_id ` set (hk_subscriptions st)"
  shows "hooks_ok st'"
  using assms(2,3) assms(1)
  by (intro hooks_ok_frame [OF assms(1)])
    (auto simp: insert_subscription_def and_then_Inr keys_of_def hooks_ok_def subs_ok_def pause_after_failures_def log_event_def)

lemma revoke_client_keeps: "hooks_ok st \<Longrightarrow> hooks_ok (revoke_client bound c st)"
proof (rule hooks_ok_frame)
  assume ok: "hooks_ok st"
  let ?f = "\<lambda>s. if sb_client s = c \<and> sb_status s = Sub_active \<and> sb_account s \<in> set bound
      then s\<lparr>sb_status := Sub_paused, sb_reason := Some Client_revoked\<rparr> else s"
  have "map sb_id (map ?f (hk_subscriptions st)) = map sb_id (hk_subscriptions st)" by auto
  with ok have "distinct (map sb_id (map ?f (hk_subscriptions st)))" by (simp only: hooks_ok_def subs_ok_def)
  moreover have "\<forall>s\<in>set (map ?f (hk_subscriptions st)). sb_status s = Sub_active \<longrightarrow> sb_failures s < pause_after_failures"
    using active_below [OF ok] by auto
  ultimately have "subs_ok (map ?f (hk_subscriptions st))" by (simp only: subs_ok_def)
  then show "subs_ok (hk_subscriptions (revoke_client bound c st))" by (simp add: revoke_client_def Let_def)
  have "map sub_key (map ?f (hk_subscriptions st)) = map sub_key (hk_subscriptions st)" by (auto simp: sub_key_def)
  then show "set (keys_of st) \<subseteq> set (keys_of (revoke_client bound c st))" by (simp add: keys_of_def revoke_client_def Let_def)
qed (simp_all add: revoke_client_def Let_def)

subsection \<open>Histories\<close>

inductive hook_step :: "hook_env \<Rightarrow> hook_state \<Rightarrow> hook_state \<Rightarrow> bool" for env where
  outbox: "hook_step env st (on_outbox env tickets now row st)"
| sweep: "hook_step env st (retry_due env now batch st)"
| replay: "replay_dead_letter env now p account i st = Inr st' \<Longrightarrow> hook_step env st st'"
| client: "create_client p dto key user_id client_id email lookup_hash secret_hash st = Inr st' \<Longrightarrow> hook_step env st st'"
| revocation: "revoke p c st = Inr st' \<Longrightarrow> hook_step env st st'"
| subscribe: "create_subscription env p sub ciphertext kid i st = Inr st' \<Longrightarrow> i \<notin> sb_id ` set (hk_subscriptions st) \<Longrightarrow> hook_step env st st'"
| register: "register_endpoint env p account sub ciphertext kid i st = Inr st' \<Longrightarrow> i \<notin> sb_id ` set (hk_subscriptions st) \<Longrightarrow> hook_step env st st'"
| rotate: "rotate_own env p s ciphertext kid st = Inr st' \<Longrightarrow> hook_step env st st'"
| rotate_console: "rotate_endpoint env p account s ciphertext kid st = Inr st' \<Longrightarrow> hook_step env st st'"
| remove: "remove_own p s st = Inr st' \<Longrightarrow> hook_step env st st'"
| remove_console: "remove_endpoint p account s st = Inr st' \<Longrightarrow> hook_step env st st'"
| pause: "pause_endpoint p account s typed st = Inr st' \<Longrightarrow> hook_step env st st'"
| resume: "resume_endpoint p account s st = Inr st' \<Longrightarrow> hook_step env st st'"

lemma replay_success:
  assumes "replay_dead_letter env now p account i st = Inr st'"
  obtains d s where "d \<in> set (hk_deliveries st)" "dv_id d = i" "dv_account d = account" "dv_status d = Dv_dead_lettered"
    "s \<in> set (hk_subscriptions st)" "sb_id s = dv_subscription d" "sb_status s = Sub_active" "sb_account s = account"
    "st' = log_event (sb_id s) ''webhook.replayed'' (snd (attempt env now s (dv_envelope d) (dv_attempt d + 1) (restate (dv_id d) Dv_dead_lettered st)))"
proof -
  obtain d s where *: "delivery_by_id (run_accounts p) st i = Some d" "dv_account d = account" "dv_status d = Dv_dead_lettered"
    "subscription_by_id (run_accounts p) st (dv_subscription d) = Some s" "sb_account s = account" "sb_status s = Sub_active"
    "st' = log_event (sb_id s) ''webhook.replayed'' (snd (attempt env now s (dv_envelope d) (dv_attempt d + 1) (restate i Dv_dead_lettered st)))"
    using assms by (auto simp: replay_dead_letter_def and_then_Inr live_subscription_def claim_dead_letter_def Let_def split: option.splits if_splits)
  have "d \<in> set (hk_deliveries st)" "dv_id d = i" using *(1) by (auto simp: delivery_by_id_def find_Some_iff)
  with * subscription_found [OF *(4)] that [of d s] show thesis by simp
qed

lemma hook_step_keeps:
  assumes "hook_step env st st'" "hooks_ok st"
  shows "hooks_ok st'"
  using assms
proof cases
  case (replay now p account i)
  then show ?thesis
  proof (rule replay_success)
    fix d s
    assume d: "d \<in> set (hk_deliveries st)" "dv_status d = Dv_dead_lettered" "s \<in> set (hk_subscriptions st)" "sb_id s = dv_subscription d"
      and st': "st' = log_event (sb_id s) ''webhook.replayed'' (snd (attempt env now s (dv_envelope d) (dv_attempt d + 1) (restate (dv_id d) Dv_dead_lettered st)))"
    then show ?thesis using resend_keeps [OF assms(2) d(1,2) _ d(3,4)] by simp
  qed
next
  case (client p dto key user_id client_id email lookup_hash secret_hash)
  then have "hk_deliveries st' = hk_deliveries st" "hk_subscriptions st' = hk_subscriptions st"
    by (auto simp: create_client_def and_then_Inr Let_def)
  with assms(2) show ?thesis by (intro hooks_ok_frame [OF assms(2)]) (simp_all add: keys_of_def hooks_ok_def)
next
  case (revocation p c)
  then obtain bound where "st' = log_event c ''admin.api_client.revoked'' (revoke_client bound c st)"
    by (auto simp: revoke_def and_then_Inr split: sum.splits option.splits)
  with revoke_client_keeps [OF assms(2)] show ?thesis by simp
next
  case (subscribe p sub ciphertext kid i)
  then show ?thesis using insert_subscription_keeps [OF assms(2)]
    by (auto simp: create_subscription_def and_then_Inr split: option.splits)
next
  case (register p account sub ciphertext kid i)
  then show ?thesis using insert_subscription_keeps [OF assms(2)]
    by (auto simp: register_endpoint_def and_then_Inr split: option.splits)
qed (auto simp: on_outbox_keeps retry_due_keeps rotate_keeps set_status_keeps resume_keeps rotate_own_def rotate_endpoint_def remove_own_def
    remove_endpoint_def pause_endpoint_def resume_endpoint_def and_then_Inr Let_def)

definition no_hooks :: "directory \<Rightarrow> hook_state" where
  "no_hooks d = \<lparr>hk_directory = d, hk_subscriptions = [], hk_deliveries = [], hk_audit = []\<rparr>"

lemma hooks_reached: "(hook_step env)\<^sup>*\<^sup>* (no_hooks d) st \<Longrightarrow> hooks_ok st"
proof (induction rule: rtranclp_induct)
  case base
  show ?case by (simp add: no_hooks_def hooks_ok_def ladders_def ladder_def rows_def subs_ok_def)
qed (rule hook_step_keeps)

subsection \<open>Retries end\<close>

text \<open>What is left to retry: the attempts the retrying rows may still make.\<close>

definition retry_work :: "hook_state \<Rightarrow> nat" where
  "retry_work st = sum_list (map (\<lambda>d. if dv_status d = Dv_retrying then max_attempts - dv_attempt d else 0) (hk_deliveries st))"

lemma sum_put_replayed:
  fixes w :: "delivery \<Rightarrow> nat"
  assumes "distinct (map dv_id ds)" "d \<in> set ds" "dv_status d = from"
  shows "sum_list (map w (map (put_replayed (dv_id d) from) ds)) + w d = sum_list (map w ds) + w (d\<lparr>dv_status := Dv_replayed\<rparr>)"
  using assms
proof (induction ds)
  case (Cons x ds)
  show ?case
  proof (cases "x = d")
    case True
    with Cons.prems have "map (put_replayed (dv_id d) from) ds = ds" by (auto simp: put_replayed_def image_iff intro!: map_idI)
    moreover have "put_replayed (dv_id d) from x = d\<lparr>dv_status := Dv_replayed\<rparr>" using True Cons.prems(3) by (simp add: put_replayed_def)
    ultimately have "map (put_replayed (dv_id d) from) (x # ds) = d\<lparr>dv_status := Dv_replayed\<rparr> # ds" by simp
    with True show ?thesis by (simp only: list.map sum_list.Cons)
  next
    case False
    with Cons.prems have "dv_id x \<noteq> dv_id d" by (auto simp: image_iff)
    with False Cons show ?thesis by (simp add: put_replayed_def)
  qed
qed simp

lemma retry_one_work:
  assumes "hooks_ok st" "d \<in> set (hk_deliveries st)" "dv_status d = Dv_retrying"
  shows "retry_work (retry_one env now account d st) < retry_work st"
proof -
  let ?w = "\<lambda>d. if dv_status d = Dv_retrying then max_attempts - dv_attempt d else 0"
  from assms have d: "dv_attempt d < max_attempts" "distinct (map dv_id (hk_deliveries st))"
    by (auto simp: hooks_ok_def row_ok_def ladders_def)
  from sum_put_replayed [OF d(2) assms(2,3), of ?w]
  have mark: "retry_work (mark_retried (dv_id d) st) + (max_attempts - dv_attempt d) = retry_work st"
    using assms(3) by (simp add: retry_work_def mark_retried_def restate_deliveries)
  have "retry_work (snd (attempt env now s (dv_envelope d) (dv_attempt d + 1) st1)) \<le> retry_work st1 + (max_attempts - (dv_attempt d + 1))" for s st1
    by (rule attempt_writes [of env now s "dv_envelope d" "dv_attempt d + 1" st1]) (simp add: retry_work_def)
  note attempt_work = this [of _ "mark_retried (dv_id d) st"]
  show ?thesis
  proof (cases "subscription_by_id [account] st (dv_subscription d)")
    case (Some s)
    have "max_attempts - (dv_attempt d + 1) < max_attempts - dv_attempt d" using d(1) by simp
    with attempt_work [of s] mark
    have "retry_work (snd (attempt env now s (dv_envelope d) (dv_attempt d + 1) (mark_retried (dv_id d) st))) < retry_work st"
      "retry_work (mark_retried (dv_id d) st) < retry_work st" by linarith+
    with Some show ?thesis by (simp add: retry_one_def Let_def)
  qed (use mark d(1) in \<open>simp add: retry_one_def Let_def\<close>)
qed

lemma retry_fold_work:
  assumes "hooks_ok st" "distinct ds" "\<forall>d\<in>set ds. d \<in> set (hk_deliveries st) \<and> dv_status d = Dv_retrying"
  shows "retry_work (fold (retry_one env now account) ds st) + length ds \<le> retry_work st"
  using assms
proof (induction ds arbitrary: st)
  case (Cons d ds)
  have d: "d \<in> set (hk_deliveries st)" "dv_status d = Dv_retrying" using Cons.prems(3) by auto
  have "\<forall>x\<in>set ds. x \<noteq> d" using Cons.prems(2) by auto
  with retry_one_keeps [OF Cons.prems(1) d, of env now account] Cons.prems
  have "retry_work (fold (retry_one env now account) ds (retry_one env now account d st)) + length ds \<le> retry_work (retry_one env now account d st)"
    by (intro Cons.IH) simp_all
  with retry_one_work [OF Cons.prems(1) d, of env now account] show ?case by simp
qed simp

definition due_in :: "hook_state \<Rightarrow> string list \<Rightarrow> ms \<Rightarrow> nat \<Rightarrow> bool" where
  "due_in st as now batch \<longleftrightarrow> (\<exists>a\<in>set as. due_retries st a now batch \<noteq> [])"

lemma retry_account_work:
  assumes "hooks_ok st"
  shows "retry_work (retry_account env now batch account st) + length (due_retries st account now batch) \<le> retry_work st"
proof -
  from assms have "distinct (map dv_id (hk_deliveries st))" by (simp add: hooks_ok_def ladders_def)
  from retry_fold_work [OF assms due_retries_distinct [OF this]] due_retries_live [of st account now batch] show ?thesis
    unfolding retry_account_def by blast
qed

lemma retry_sweep_work:
  assumes "hooks_ok st"
  shows "retry_work (fold (retry_account env now batch) as st) \<le> retry_work st \<and>
    (due_in st as now batch \<longrightarrow> retry_work (fold (retry_account env now batch) as st) < retry_work st) \<and>
    (\<not> due_in st as now batch \<longrightarrow> fold (retry_account env now batch) as st = st)"
  using assms
proof (induction as arbitrary: st)
  case (Cons a as)
  let ?st1 = "retry_account env now batch a st"
  from Cons.IH [OF retry_account_keeps [OF Cons.prems]] have ih: "retry_work (fold (retry_account env now batch) as ?st1) \<le> retry_work ?st1" by blast
  show ?case
  proof (cases "due_retries st a now batch = []")
    case True
    then have "?st1 = st" by (simp add: retry_account_def)
    with True Cons show ?thesis by (simp add: due_in_def)
  next
    case False
    then have "retry_work ?st1 < retry_work st" using retry_account_work [OF Cons.prems, of env now batch a] by (cases "due_retries st a now batch") auto
    with ih False show ?thesis by (simp add: due_in_def)
  qed
qed (simp add: due_in_def)

subsection \<open>Properties\<close>


text \<open>How many of a sequence of sweeps find a row that is due.\<close>

fun busy_sweeps :: "hook_env \<Rightarrow> nat \<Rightarrow> hook_state \<Rightarrow> ms list \<Rightarrow> nat" where
  "busy_sweeps env batch st [] = 0"
| "busy_sweeps env batch st (t # ts) =
     (if due_in st (accounts_in [''active'', ''onboarding'', ''offboarding''] (hk_directory st)) t batch then 1 else 0) +
     busy_sweeps env batch (retry_due env t batch st) ts"

text \<open>C40: The retries end: with nothing new arriving, the sweeps can find something due in only so many rounds. The measure
  is the number of attempts the retrying rows may still make, four for each fresh failure; every sweep
  that finds a row due lowers it, a sweep that finds none changes nothing, so among any sequence of sweeps,
  whenever they run and whatever the endpoints answer, at most that many do any work.\<close>

theorem retries_end:
  assumes "(hook_step env)\<^sup>*\<^sup>* (no_hooks dir) st"
  shows "busy_sweeps env batch st ts \<le> retry_work st \<and> retry_work st \<le> 4 * length (filter (\<lambda>d. dv_status d = Dv_retrying) (hk_deliveries st))"
proof -
  have ok: "hooks_ok st" by (rule hooks_reached [OF assms])
  then have "busy_sweeps env batch st ts \<le> retry_work st"
  proof (induction ts arbitrary: st)
    case (Cons t ts)
    let ?as = "accounts_in [''active'', ''onboarding'', ''offboarding''] (hk_directory st)"
    have sweep: "retry_work (retry_due env t batch st) \<le> retry_work st"
      "due_in st ?as t batch \<Longrightarrow> retry_work (retry_due env t batch st) < retry_work st"
      using retry_sweep_work [OF Cons.prems, of env t batch ?as] by (auto simp: retry_due_def)
    have "busy_sweeps env batch (retry_due env t batch st) ts \<le> retry_work (retry_due env t batch st)"
      by (rule Cons.IH [OF retry_due_keeps [OF Cons.prems]])
    with sweep show ?case by (cases "due_in st ?as t batch") auto
  qed simp
  moreover have "\<forall>d\<in>set ds. 1 \<le> dv_attempt d \<Longrightarrow>
      sum_list (map (\<lambda>d. if dv_status d = Dv_retrying then max_attempts - dv_attempt d else 0) ds)
        \<le> 4 * length (filter (\<lambda>d. dv_status d = Dv_retrying) ds)" for ds
    by (induction ds) (auto simp: max_attempts_def)
  moreover have "\<forall>d\<in>set (hk_deliveries st). 1 \<le> dv_attempt d"
  proof
    fix d assume "d \<in> set (hk_deliveries st)"
    then have "dv_attempt d \<in> set (map dv_attempt (rows_of (hk_deliveries st) d))" by (simp add: rows_def)
    also have "map dv_attempt (rows_of (hk_deliveries st) d) = [1..<Suc (length (rows_of (hk_deliveries st) d))]"
      using ok by (simp add: hooks_ok_def ladders_def ladder_def)
    finally show "1 \<le> dv_attempt d" by (simp del: upt_Suc)
  qed
  ultimately show ?thesis by (simp add: retry_work_def)
qed

subsection \<open>Runs at a sample endpoint\<close>

text \<open>An endpoint that answers as told, at an account with one client and one subscription.\<close>

definition sample_env :: "int \<Rightarrow> hook_env" where
  "sample_env code = \<lparr>he_key = Some ''k'', he_allow_private = True, he_unb64 = id, he_decrypt = \<lambda>k iv body tag. Some ''secret'',
     he_key_bytes = id, he_mac = \<lambda>k t. replicate 64 CHR ''a'',
     he_parse_url = \<lambda>u. Some \<lparr>url_protocol = ''https:'', url_hostname = ''hooks.example.com'', url_username = [], url_password = []\<rparr>,
     he_lookup = \<lambda>h. Some [''93.184.216.34''], he_timestamp = \<lambda>t. ''1'', he_body = \<lambda>e. ''{}'', he_fetch = \<lambda>r. Answered code\<rparr>"

definition hook_client :: api_client_row where
  "hook_client = \<lparr>ak_id = ''c'', ak_name = ''erp'', ak_user = ''u'', ak_lookup = ''h'', ak_secret = ''h'', ak_scopes = [''webhooks:manage''],
     ak_expires = None, ak_active = True, ak_rate = 600, ak_used = None\<rparr>"

definition hook_directory :: directory where
  "hook_directory = \<lparr>di_users = [], di_accounts = [\<lparr>ac_id = ''a'', ac_key = ''acme'', ac_status = ''active''\<rparr>], di_grants = [],
     di_roles = [], di_assignments = [], di_clients = [hook_client], di_client_grants = [(''c'', ''a'')]\<rparr>"

definition hook_operator :: auth_principal where
  "hook_operator = \<lparr>ap_kind = Internal_realm, ap_user = ''u1'', ap_email = ''ann@xms'', ap_name = ''Ann'', ap_accounts = [''a''],
     ap_permissions = [''webhooks:manage''], ap_session = None, ap_token = Clerk, ap_rate = None\<rparr>"

definition sample_row :: outbox_row where
  "sample_row = \<lparr>ob_id = ''1'', ob_type = ''billing_period.locked'', ob_account = ''a'', ob_aggregate = ''p'', ob_payload = JObj [], ob_created = 0\<rparr>"

definition unwrap :: "hook_error + hook_state \<Rightarrow> hook_state" where
  "unwrap r = (case r of Inl e \<Rightarrow> no_hooks hook_directory | Inr st \<Rightarrow> st)"

lemma unwrapped: "(case r of Inl e \<Rightarrow> False | Inr st \<Rightarrow> True) \<Longrightarrow> r = Inr (unwrap r)"
  by (auto simp: unwrap_def split: sum.splits)

definition hook_registered :: hook_state where
  "hook_registered = unwrap (register_endpoint (sample_env 500) hook_operator ''a''
     \<lparr>sd_account = ''a'', sd_client = ''c'', sd_endpoint = ''https://hooks.example.com'', sd_events = [''billing_period.locked'']\<rparr>
     ''v1.y.z.w'' ''k1'' ''s'' (no_hooks hook_directory))"

definition hook_failed :: hook_state where
  "hook_failed = on_outbox (sample_env 500) (\<lambda>t. None) 0 sample_row hook_registered"

definition hook_paused :: hook_state where
  "hook_paused = unwrap (pause_endpoint hook_operator ''a'' ''s'' (Some ''maintenance'') hook_failed)"

lemma sample_registered: "(hook_step (sample_env 500))\<^sup>*\<^sup>* (no_hooks hook_directory) hook_registered"
proof (rule r_into_rtranclp, rule hook_step.register)
  show "register_endpoint (sample_env 500) hook_operator ''a''
     \<lparr>sd_account = ''a'', sd_client = ''c'', sd_endpoint = ''https://hooks.example.com'', sd_events = [''billing_period.locked'']\<rparr>
     ''v1.y.z.w'' ''k1'' ''s'' (no_hooks hook_directory) = Inr hook_registered"
    unfolding hook_registered_def by (rule unwrapped) code_simp
qed (simp add: no_hooks_def)

lemma sample_failed: "(hook_step (sample_env 500))\<^sup>*\<^sup>* (no_hooks hook_directory) hook_failed"
  unfolding hook_failed_def using sample_registered by (rule rtranclp.rtrancl_into_rtrancl) (rule hook_step.outbox)


theorem retries_end_witness:
  "busy_sweeps (sample_env 500) 50 hook_failed [60000, 360000, 2160000, 9360000, 99999999999, 999999999999] = 4 \<and> retry_work hook_failed = 4"
proof -
  have "busy_sweeps (sample_env 500) 50 hook_failed [60000, 360000, 2160000, 9360000, 99999999999, 999999999999] = 4"
    "length (filter (\<lambda>d. dv_status d = Dv_retrying) (hk_deliveries hook_failed)) = 1" by code_simp+
  with retries_end [OF sample_failed, of 50 "[60000, 360000, 2160000, 9360000, 99999999999, 999999999999]"] show ?thesis by simp
qed

text \<open>A pause loses events: when the retry of an event falls due while its subscription is paused, the sweep marks the
  row replayed and makes no attempt; the event is neither delivered nor dead-lettered, and after the
  subscription resumes neither a later sweep nor a redelivery of the outbox row sends it.\<close>

theorem pause_drops_event:
  "\<exists>st. (hook_step (sample_env 500))\<^sup>*\<^sup>* (no_hooks hook_directory) hook_paused \<and>
     resume_endpoint hook_operator ''a'' ''s'' (retry_due (sample_env 500) 60000 50 hook_paused) = Inr st \<and>
     map dv_status (hk_deliveries st) = [Dv_replayed] \<and> map dv_attempt (hk_deliveries st) = [1] \<and>
     map sb_status (hk_subscriptions st) = [Sub_active] \<and>
     (\<forall>env now batch. retry_due env now batch st = st) \<and>
     on_outbox (sample_env 200) (\<lambda>t. None) 120000 sample_row st = st"
proof -
  have p: "pause_endpoint hook_operator ''a'' ''s'' (Some ''maintenance'') hook_failed = Inr hook_paused"
    unfolding hook_paused_def by (rule unwrapped) code_simp
  have reach: "(hook_step (sample_env 500))\<^sup>*\<^sup>* (no_hooks hook_directory) hook_paused"
    using sample_failed by (rule rtranclp.rtrancl_into_rtrancl) (rule hook_step.pause [OF p])
  let ?r = "resume_endpoint hook_operator ''a'' ''s'' (retry_due (sample_env 500) 60000 50 hook_paused)"
  have r: "?r = Inr (unwrap ?r)" by (rule unwrapped) code_simp
  have rows: "map dv_status (hk_deliveries (unwrap ?r)) = [Dv_replayed]" "map dv_attempt (hk_deliveries (unwrap ?r)) = [1]"
    "map sb_status (hk_subscriptions (unwrap ?r)) = [Sub_active]" by code_simp+
  then have "\<forall>d\<in>set (hk_deliveries (unwrap ?r)). dv_status d = Dv_replayed"
    by (cases "hk_deliveries (unwrap ?r)") auto
  then have "due_retries (unwrap ?r) a now batch = []" for a now batch
    by (rule nothing_due)
  then have "fold (retry_account env now batch) as (unwrap ?r) = unwrap ?r" for env now batch as
    by (induction as) (simp_all add: retry_account_def)
  then have "retry_due env now batch (unwrap ?r) = unwrap ?r" for env now batch by (simp add: retry_due_def)
  moreover have "on_outbox (sample_env 200) (\<lambda>t. None) 120000 sample_row (unwrap ?r) = unwrap ?r" by code_simp
  ultimately show ?thesis using r rows reach by (intro exI [of _ "unwrap ?r"] conjI allI)
qed

text \<open>A revoked client can still receive: revoking a client pauses its subscriptions, but resuming one does not ask whether
  its client is revoked, and neither the sweep nor the replay does, so an event that failed before is
  delivered to the endpoint of a revoked client (a new event is not).\<close>

theorem revoked_client_receives:
  "\<exists>st1 st2. revoke hook_operator ''c'' hook_failed = Inr st1 \<and> map sb_status (hk_subscriptions st1) = [Sub_paused] \<and>
     resume_endpoint hook_operator ''a'' ''s'' st1 = Inr st2 \<and> \<not> client_active st2 ''c'' \<and>
     active_for_event st2 ''a'' ''billing_period.locked'' = [] \<and>
     map dv_status (hk_deliveries (retry_due (sample_env 200) 60000 50 st2)) = [Dv_replayed, Dv_delivered]"
proof -
  let ?st1 = "unwrap (revoke hook_operator ''c'' hook_failed)"
  let ?st2 = "unwrap (resume_endpoint hook_operator ''a'' ''s'' ?st1)"
  have "revoke hook_operator ''c'' hook_failed = Inr ?st1" "resume_endpoint hook_operator ''a'' ''s'' ?st1 = Inr ?st2"
    by (rule unwrapped, code_simp)+
  moreover have "map sb_status (hk_subscriptions ?st1) = [Sub_paused]" by code_simp
  moreover have "\<not> client_active ?st2 ''c''" by code_simp
  moreover have
    "active_for_event ?st2 ''a'' ''billing_period.locked'' = []" by code_simp
  moreover have
    "map dv_status (hk_deliveries (retry_due (sample_env 200) 60000 50 ?st2)) = [Dv_replayed, Dv_delivered]" by code_simp
  ultimately show ?thesis by (intro exI [of _ ?st1] exI [of _ ?st2] conjI)
qed

end
