(* ===== verification/Sync_Store.thy ===== *)
theory Sync_Store
  imports Sync_Rules Sync_Maps Webhooks
begin

section \<open>The tables of the connector sync (src/modules/connectors/connectors.repository.ts)\<close>

text \<open>
  The rows the sync worker keeps: instances with their watermark and switch, the inbox of polled records,
  the links between tickets and external records, the links of journal entries and files, the outbound
  queue, the runs and the dead letters. Ids are positions. The error of a row or a run is the fault itself
  where the code keeps its text. Two outside parties are records of functions: \<open>snow\<close>, the client of the
  external system, and \<open>desk\<close>, the ticket service as the worker calls it over a state of its own.
\<close>

subsection \<open>Faults\<close>

text \<open>A refusal of a service (a bad request, a conflict, something not found), an answer of the external
  system by status and text, or anything else thrown.\<close>

datatype sync_fault = Refused string | Snow_fault int string | Thrown string

definition fault_class :: "sync_fault \<Rightarrow> error_class" where
  "fault_class f = (case f of Snow_fault s t \<Rightarrow> classify_http_status s | _ \<Rightarrow> Retryable)"

definition is_credential_fault :: "sync_fault \<Rightarrow> bool" where
  "is_credential_fault f = (case f of Snow_fault s t \<Rightarrow> s = 401 \<or> s = 403 | _ \<Rightarrow> False)"

subsection \<open>Rows\<close>

datatype credential_state = Unknown_credential | Valid_credential | Invalid_credential
datatype sync_health = Healthy | Degraded | Failing | Health_tripped

record instance_row =
  in_id :: string
  in_account :: string
  in_type :: string
  in_name :: string
  in_table :: string
  in_credential :: credential_state
  in_mode :: sync_mode
  in_tripped :: bool
  in_trip_reason :: "string option"
  in_poll_seconds :: int
  in_next_poll :: ms
  in_watermark :: ms
  in_watermark_id :: "string option"
  in_field_map :: "string option"
  in_state_map :: "string option"
  in_journal :: string
  in_work_notes :: bool
  in_file_limit :: int
  in_over_link :: bool
  in_trip_ratio :: rat
  in_trip_window :: int
  in_trip_attempts :: int
  in_tolerance :: int
  in_health :: sync_health
  in_success :: "ms option"
  in_error :: "sync_fault option"
  in_version :: int
  in_created :: ms

record snow_record =
  sr_sys :: string
  sr_updated :: string
  sr_fields :: "json js_map"

record journal_entry =
  je_sys :: string
  je_element :: string
  je_record :: string
  je_value :: string

record snow_file =
  sf_sys :: string
  sf_name :: string
  sf_content :: string
  sf_size :: int

datatype inbox_outcome = Inbox_applied | Inbox_reflection | Inbox_failed

record inbox_row =
  ix_id :: nat
  ix_instance :: string
  ix_external :: string
  ix_version :: string
  ix_record :: snow_record
  ix_journal :: "journal_entry list"
  ix_files :: "snow_file list"
  ix_outcome :: "inbox_outcome option"
  ix_error :: "sync_fault option"
  ix_attempts :: nat

datatype link_state = Linked | Link_conflict | Unlinked

record link_conflict =
  cf_inbound :: bool
  cf_values :: "json js_map"
  cf_resolved :: "(string \<times> bool \<times> string) list"
  cf_at :: ms
  cf_updated :: string

record link_row =
  ln_id :: nat
  ln_instance :: string
  ln_ticket :: string
  ln_sys :: string
  ln_number :: string
  ln_state :: link_state
  ln_out_at :: "ms option"
  ln_out_hash :: "string option"
  ln_in_at :: "ms option"
  ln_in_updated :: "ms option"
  ln_overrides :: "system_of_record js_map"
  ln_conflict :: "link_conflict option"

datatype message_kind = Comment_kind | Note_kind

record journal_link =
  jl_instance :: string
  jl_ticket :: string
  jl_kind :: message_kind
  jl_xms :: string
  jl_external :: string
  jl_inbound :: bool

datatype file_outcome = File_copied | File_linked | File_skipped

record file_link =
  fl_instance :: string
  fl_ticket :: string
  fl_file :: "string option"
  fl_external :: string
  fl_inbound :: bool
  fl_outcome :: file_outcome

datatype outbound_status = Ob_pending | Ob_sent | Ob_dead_lettered | Ob_skipped

record outbound_row =
  og_id :: nat
  og_instance :: string
  og_ticket :: string
  og_event :: string
  og_outbox :: string
  og_payload :: json
  og_origin :: "string option"
  og_status :: outbound_status
  og_attempts :: nat
  og_next :: ms
  og_error :: "sync_fault option"
  og_conflict :: bool

datatype run_direction = Run_in | Run_out | Run_poll
datatype run_outcome = Run_success | Run_retried | Run_dead | Run_reflection | Run_policy | Run_noop

record run_row =
  rn_instance :: string
  rn_direction :: run_direction
  rn_ticket :: "string option"
  rn_row :: "nat option"
  rn_attempt :: nat
  rn_outcome :: run_outcome
  rn_class :: "error_class option"
  rn_error :: "sync_fault option"
  rn_at :: ms

datatype letter_queue = Inbox_letter | Outbound_letter

record sync_letter =
  sl_queue :: letter_queue
  sl_instance :: string
  sl_row :: nat
  sl_error :: sync_fault
  sl_attempts :: nat
  sl_open :: bool

datatype sync_event = Sync_applied string | Sync_pushed string | Sync_conflicted string | Switch_tripped string

datatype map_kind = Field_kind | State_kind
datatype map_stage = Draft_map | Validated_map | Active_map | Retired_map

text \<open>A version of a map: its entries are the fields or the states, by its kind.\<close>

record map_row =
  mr_id :: string
  mr_kind :: map_kind
  mr_instance :: string
  mr_version :: nat
  mr_stage :: map_stage
  mr_fields :: "field_entry list"
  mr_states :: "state_map js_map"
  mr_samples :: "json js_map list"
  mr_report :: "bool option"

record sync_state =
  sy_accounts :: "(string \<times> string) list"
  sy_subscribed :: "string list js_map"
  sy_instances :: "instance_row list"
  sy_maps :: "map_row list"
  sy_inbox :: "inbox_row list"
  sy_links :: "link_row list"
  sy_journal :: "journal_link list"
  sy_files :: "file_link list"
  sy_outbound :: "outbound_row list"
  sy_runs :: "run_row list"
  sy_letters :: "sync_letter list"
  sy_audit :: "sync_event list"

subsection \<open>Instances and maps\<close>

definition live_accounts :: "sync_state \<Rightarrow> string list" where
  "live_accounts st = map fst (filter (\<lambda>a. snd a \<noteq> ''system'') (sy_accounts st))"

definition instances_of :: "sync_state \<Rightarrow> string \<Rightarrow> instance_row list" where
  "instances_of st account = sort_key in_name (filter (\<lambda>i. in_account i = account) (sy_instances st))"

definition instance_by_id :: "sync_state \<Rightarrow> string \<Rightarrow> instance_row option" where
  "instance_by_id st i = find (\<lambda>r. in_id r = i) (sy_instances st)"

definition touch_instance :: "string \<Rightarrow> (instance_row \<Rightarrow> instance_row) \<Rightarrow> sync_state \<Rightarrow> sync_state" where
  "touch_instance i f st = st\<lparr>sy_instances := map (\<lambda>r. if in_id r = i then f r else r) (sy_instances st)\<rparr>"

text \<open>\<open>claimDue\<close>: the instances whose poll is due, the longest due first, ten at a time.\<close>

definition claim_due :: "sync_state \<Rightarrow> string \<Rightarrow> ms \<Rightarrow> instance_row list" where
  "claim_due st account now = take 10 (sort_key in_next_poll
     (filter (\<lambda>i. in_account i = account \<and> in_mode i \<noteq> Mode_off \<and> \<not> in_tripped i \<and> in_next_poll i \<le> now) (sy_instances st)))"

definition map_by_id :: "sync_state \<Rightarrow> map_kind \<Rightarrow> string \<Rightarrow> map_row option" where
  "map_by_id st k m = find (\<lambda>r. mr_kind r = k \<and> mr_id r = m) (sy_maps st)"

definition field_map_of :: "sync_state \<Rightarrow> instance_row \<Rightarrow> sync_fault + field_entry list" where
  "field_map_of st i =
     (case in_field_map i of
        None \<Rightarrow> Inl (Refused ''no_active_field_map'')
      | Some m \<Rightarrow> (case map_by_id st Field_kind m of None \<Rightarrow> Inl (Refused ''field_map'') | Some r \<Rightarrow> Inr (mr_fields r)))"

definition state_map_of :: "sync_state \<Rightarrow> instance_row \<Rightarrow> sync_fault + state_map js_map option" where
  "state_map_of st i =
     (case in_state_map i of
        None \<Rightarrow> Inr None
      | Some m \<Rightarrow> (case map_by_id st State_kind m of None \<Rightarrow> Inl (Refused ''state_map'') | Some r \<Rightarrow> Inr (Some (mr_states r))))"

subsection \<open>Links\<close>

definition link_by_external :: "sync_state \<Rightarrow> string \<Rightarrow> string \<Rightarrow> link_row option" where
  "link_by_external st i sys = find (\<lambda>l. ln_instance l = i \<and> ln_sys l = sys) (sy_links st)"

definition link_by_ticket :: "sync_state \<Rightarrow> string \<Rightarrow> string \<Rightarrow> link_row option" where
  "link_by_ticket st i ticket = find (\<lambda>l. ln_instance l = i \<and> ln_ticket l = ticket) (sy_links st)"

definition new_link :: "sync_state \<Rightarrow> string \<Rightarrow> string \<Rightarrow> string \<Rightarrow> string \<Rightarrow> ms \<Rightarrow> ms \<Rightarrow> link_row" where
  "new_link st i ticket sys number updated now =
     \<lparr>ln_id = length (sy_links st), ln_instance = i, ln_ticket = ticket, ln_sys = sys, ln_number = number, ln_state = Linked,
      ln_out_at = None, ln_out_hash = None, ln_in_at = Some now, ln_in_updated = Some updated, ln_overrides = [], ln_conflict = None\<rparr>"

definition touch_link :: "nat \<Rightarrow> (link_row \<Rightarrow> link_row) \<Rightarrow> sync_state \<Rightarrow> sync_state" where
  "touch_link i f st = st\<lparr>sy_links := map (\<lambda>l. if ln_id l = i then f l else l) (sy_links st)\<rparr>"

definition journal_linked :: "sync_state \<Rightarrow> string \<Rightarrow> string \<Rightarrow> bool" where
  "journal_linked st i external \<longleftrightarrow> (\<exists>l\<in>set (sy_journal st). jl_instance l = i \<and> jl_external l = external)"

definition message_linked :: "sync_state \<Rightarrow> string \<Rightarrow> message_kind \<Rightarrow> string \<Rightarrow> bool" where
  "message_linked st i k xms \<longleftrightarrow> (\<exists>l\<in>set (sy_journal st). jl_instance l = i \<and> jl_kind l = k \<and> jl_xms l = xms)"

text \<open>The tables refuse a second link of an external entry and of a message, silently.\<close>

definition insert_journal_link :: "journal_link \<Rightarrow> sync_state \<Rightarrow> sync_state" where
  "insert_journal_link l st =
     (if journal_linked st (jl_instance l) (jl_external l) \<or> message_linked st (jl_instance l) (jl_kind l) (jl_xms l) then st
      else st\<lparr>sy_journal := sy_journal st @ [l]\<rparr>)"

definition file_linked :: "sync_state \<Rightarrow> string \<Rightarrow> string \<Rightarrow> bool" where
  "file_linked st i external \<longleftrightarrow> (\<exists>l\<in>set (sy_files st). fl_instance l = i \<and> fl_external l = external)"

definition own_file_linked :: "sync_state \<Rightarrow> string \<Rightarrow> string \<Rightarrow> bool" where
  "own_file_linked st i file \<longleftrightarrow> (\<exists>l\<in>set (sy_files st). fl_instance l = i \<and> fl_file l = Some file)"

definition insert_file_link :: "file_link \<Rightarrow> sync_state \<Rightarrow> sync_state" where
  "insert_file_link l st =
     (if file_linked st (fl_instance l) (fl_external l) \<or>
         (case fl_file l of None \<Rightarrow> False | Some f \<Rightarrow> own_file_linked st (fl_instance l) f) then st else st\<lparr>sy_files := sy_files st @ [l]\<rparr>)"

subsection \<open>Runs, inbox, letters\<close>

definition insert_run :: "run_row \<Rightarrow> sync_state \<Rightarrow> sync_state" where
  "insert_run r st = st\<lparr>sy_runs := sy_runs st @ [r]\<rparr>"

definition in_inbox :: "sync_state \<Rightarrow> string \<Rightarrow> string \<Rightarrow> string \<Rightarrow> bool" where
  "in_inbox st i external version \<longleftrightarrow>
     (\<exists>x\<in>set (sy_inbox st). ix_instance x = i \<and> ix_external x = external \<and> ix_version x = version)"

definition insert_inbox :: "instance_row \<Rightarrow> snow_record \<Rightarrow> journal_entry list \<Rightarrow> snow_file list \<Rightarrow> sync_state \<Rightarrow> sync_state" where
  "insert_inbox i r js fs st =
     (if in_inbox st (in_id i) (sr_sys r) (sr_updated r) then st
      else st\<lparr>sy_inbox := sy_inbox st @ [\<lparr>ix_id = length (sy_inbox st), ix_instance = in_id i, ix_external = sr_sys r, ix_version = sr_updated r,
         ix_record = r, ix_journal = js, ix_files = fs, ix_outcome = None, ix_error = None, ix_attempts = 0\<rparr>]\<rparr>)"

definition pending_inbox :: "sync_state \<Rightarrow> string \<Rightarrow> inbox_row list" where
  "pending_inbox st i = take 50 (filter (\<lambda>x. ix_instance x = i \<and> ix_outcome x = None) (sy_inbox st))"

definition touch_inbox :: "nat \<Rightarrow> (inbox_row \<Rightarrow> inbox_row) \<Rightarrow> sync_state \<Rightarrow> sync_state" where
  "touch_inbox n f st = st\<lparr>sy_inbox := map (\<lambda>x. if ix_id x = n then f x else x) (sy_inbox st)\<rparr>"

definition settle_inbox :: "nat \<Rightarrow> inbox_outcome \<Rightarrow> sync_fault option \<Rightarrow> sync_state \<Rightarrow> sync_state" where
  "settle_inbox n out err = touch_inbox n (\<lambda>x. x\<lparr>ix_outcome := Some out, ix_error := err\<rparr>)"

definition retry_inbox :: "nat \<Rightarrow> sync_fault \<Rightarrow> sync_state \<Rightarrow> sync_state" where
  "retry_inbox n err = touch_inbox n (\<lambda>x. x\<lparr>ix_attempts := ix_attempts x + 1, ix_error := Some err\<rparr>)"

definition reopen_inbox :: "nat \<Rightarrow> sync_state \<Rightarrow> sync_state" where
  "reopen_inbox n = touch_inbox n (\<lambda>x. x\<lparr>ix_outcome := None, ix_error := None, ix_attempts := 0\<rparr>)"

definition insert_letter :: "sync_letter \<Rightarrow> sync_state \<Rightarrow> sync_state" where
  "insert_letter l st = st\<lparr>sy_letters := sy_letters st @ [l]\<rparr>"

definition audit_sync :: "sync_event \<Rightarrow> sync_state \<Rightarrow> sync_state" where
  "audit_sync e st = st\<lparr>sy_audit := sy_audit st @ [e]\<rparr>"

subsection \<open>The outbound queue\<close>

definition insert_outbound :: "outbound_row \<Rightarrow> sync_state \<Rightarrow> sync_state" where
  "insert_outbound r st =
     (if \<exists>q\<in>set (sy_outbound st). og_instance q = og_instance r \<and> og_outbox q = og_outbox r then st
      else st\<lparr>sy_outbound := sy_outbound st @ [r\<lparr>og_id := length (sy_outbound st)\<rparr>]\<rparr>)"

definition claim_outbound :: "sync_state \<Rightarrow> string \<Rightarrow> ms \<Rightarrow> outbound_row list" where
  "claim_outbound st i now =
     (case instance_by_id st i of
        None \<Rightarrow> []
      | Some r \<Rightarrow> if in_mode r = Bidirectional \<and> \<not> in_tripped r
          then take 50 (filter (\<lambda>q. og_instance q = i \<and> og_status q = Ob_pending \<and> og_next q \<le> now) (sy_outbound st)) else [])"

definition settle_outbound :: "nat \<Rightarrow> (outbound_row \<Rightarrow> outbound_row) \<Rightarrow> sync_state \<Rightarrow> sync_state" where
  "settle_outbound n f st = st\<lparr>sy_outbound := map (\<lambda>q. if og_id q = n then f q else q) (sy_outbound st)\<rparr>"

definition reopen_outbound :: "nat \<Rightarrow> ms \<Rightarrow> sync_state \<Rightarrow> sync_state" where
  "reopen_outbound n now = settle_outbound n (\<lambda>x. x\<lparr>og_status := Ob_pending, og_attempts := 0, og_next := now, og_error := None\<rparr>)"

text \<open>\<open>resolveDeadLetter\<close>: a letter is named by its position, and only an open one is resolved.\<close>

definition close_letter :: "nat \<Rightarrow> sync_state \<Rightarrow> sync_state" where
  "close_letter n st = st\<lparr>sy_letters := (sy_letters st)[n := (sy_letters st ! n)\<lparr>sl_open := False\<rparr>]\<rparr>"

subsection \<open>Counts\<close>

text \<open>\<open>windowStats\<close>: the attempts of the last minutes and the ones that failed.\<close>

definition window_runs :: "sync_state \<Rightarrow> string \<Rightarrow> int \<Rightarrow> ms \<Rightarrow> run_row list" where
  "window_runs st i minutes now = filter (\<lambda>r. rn_instance r = i \<and> now - minutes * 60000 \<le> rn_at r) (sy_runs st)"

definition window_stats :: "sync_state \<Rightarrow> string \<Rightarrow> int \<Rightarrow> ms \<Rightarrow> nat \<times> nat" where
  "window_stats st i minutes now =
     (let rs = window_runs st i minutes now
      in (length (filter (\<lambda>r. rn_outcome r \<in> {Run_success, Run_retried, Run_dead}) rs),
          length (filter (\<lambda>r. rn_outcome r \<in> {Run_retried, Run_dead}) rs)))"

definition open_letter_count :: "sync_state \<Rightarrow> string \<Rightarrow> nat" where
  "open_letter_count st i = length (filter (\<lambda>l. sl_instance l = i \<and> sl_open l) (sy_letters st))"

definition pending_inbox_count :: "sync_state \<Rightarrow> string \<Rightarrow> nat" where
  "pending_inbox_count st i = length (filter (\<lambda>x. ix_instance x = i \<and> ix_outcome x = None) (sy_inbox st))"

subsection \<open>The external system and the ticket service\<close>

text \<open>What the external system answers to the calls of one pass; a call that writes may answer by what was
  written before, given as the list of writes so far.\<close>

datatype snow_write =
    Wrote_update string string "string js_map"
  | Wrote_journal string string string string
  | Wrote_file string string string

record snow =
  sn_connect :: "instance_row \<Rightarrow> sync_fault + unit"
  sn_changed :: "string \<Rightarrow> ms \<Rightarrow> string option \<Rightarrow> nat \<Rightarrow> sync_fault + snow_record list"
  sn_journal :: "string \<Rightarrow> ms option \<Rightarrow> sync_fault + journal_entry list"
  sn_files :: "string \<Rightarrow> sync_fault + snow_file list"
  sn_get :: "string \<Rightarrow> string \<Rightarrow> sync_fault + snow_record option"
  sn_download :: "string \<Rightarrow> int \<Rightarrow> sync_fault + string"
  sn_update :: "snow_write list \<Rightarrow> string \<Rightarrow> string \<Rightarrow> string js_map \<Rightarrow> sync_fault + snow_record"
  sn_latest :: "snow_write list \<Rightarrow> string \<Rightarrow> string \<Rightarrow> sync_fault + journal_entry option"
  sn_upload :: "snow_write list \<Rightarrow> string \<Rightarrow> string \<Rightarrow> string \<Rightarrow> string \<Rightarrow> sync_fault + snow_file"

text \<open>A ticket as the service shows it: the requester's email and name, the external references, and the
  columns by name.\<close>

record ticket_view =
  tv_id :: string
  tv_key :: string
  tv_version :: int
  tv_type :: string
  tv_state :: string
  tv_updated :: ms
  tv_requester :: "(string \<times> string) option"
  tv_refs :: "json js_map"
  tv_columns :: "json js_map"

record ticket_request =
  tr_account :: string
  tr_type :: string
  tr_columns :: "json js_map"
  tr_email :: string
  tr_name :: "string option"

record ticket_patch =
  tp_version :: int
  tp_refs :: "json js_map option"
  tp_columns :: "json js_map"

record ticket_move =
  tm_version :: int
  tm_to :: string
  tm_pause :: "string option"

text \<open>The calls of the ticket and attachment services; the first argument of a write is the origin every
  change of the worker carries. A file arrives with its name, type and bytes.\<close>

record 'd desk =
  dk_create :: "string \<Rightarrow> ticket_request \<Rightarrow> 'd \<Rightarrow> sync_fault + (ticket_view \<times> 'd)"
  dk_patch :: "string \<Rightarrow> string \<Rightarrow> ticket_patch \<Rightarrow> 'd \<Rightarrow> sync_fault + (ticket_view \<times> 'd)"
  dk_get :: "string \<Rightarrow> 'd \<Rightarrow> sync_fault + ticket_view"
  dk_allowed :: "string \<Rightarrow> 'd \<Rightarrow> sync_fault + (string \<times> string list) list"
  dk_move :: "string \<Rightarrow> string \<Rightarrow> ticket_move \<Rightarrow> 'd \<Rightarrow> sync_fault + (ticket_view \<times> 'd)"
  dk_message :: "string \<Rightarrow> message_kind \<Rightarrow> string \<Rightarrow> string \<Rightarrow> 'd \<Rightarrow> sync_fault + (string \<times> 'd)"
  dk_ingest :: "string \<Rightarrow> string \<Rightarrow> string \<times> string \<times> string \<Rightarrow> 'd \<Rightarrow> sync_fault + (string \<times> 'd)"

record stored_message =
  sm_source :: string
  sm_author :: string
  sm_body :: string

record stored_file =
  sx_name :: string
  sx_content :: string
  sx_size :: int
  sx_key :: string
  sx_scan :: string
  sx_visibility :: string

text \<open>What the worker takes from its surroundings: number rendering, the hash, the date parser, the reads of
  the message and attachment tables and the object store.\<close>

record 'd sync_env =
  ev_number :: "rat \<Rightarrow> string"
  ev_digest :: "string \<Rightarrow> string"
  ev_parse :: "string \<Rightarrow> ms"
  ev_message :: "message_kind \<Rightarrow> string \<Rightarrow> 'd \<Rightarrow> stored_message option"
  ev_file :: "string \<Rightarrow> 'd \<Rightarrow> stored_file option"
  ev_object :: "string \<Rightarrow> sync_fault + string"
  ev_snow :: snow
  ev_desk :: "'d desk"

definition from_snow_time :: "(string \<Rightarrow> ms) \<Rightarrow> string \<Rightarrow> ms" where
  "from_snow_time parse v =
     (if v = [] then 0
      else parse (takeWhile (\<lambda>c. c \<noteq> CHR '' '') v @
        (case dropWhile (\<lambda>c. c \<noteq> CHR '' '') v of [] \<Rightarrow> [] | _ # rest \<Rightarrow> CHR ''T'' # rest) @ ''Z''))"

end
