(* ===== verification/Sync_Inbox.thy ===== *)
theory Sync_Inbox
  imports Sync_Store
begin

section \<open>Polling and applying (src/modules/connectors/sync.worker.ts)\<close>

text \<open>
  The poller stores the changed records of an instance in the inbox and moves the watermark only after the
  page is stored; the apply handler turns one inbox row into calls of the ticket service in one
  transaction, or counts the attempt and, at a refusal or the fifth failure, settles the row with a dead
  letter. A transaction is a function to a fault or the new state, so a fault leaves the old one. The
  summaries the jobs log, the JSON details of runs and audit rows and the timing of runs are left out.
\<close>

definition max_inbox_attempts :: nat where
  "max_inbox_attempts = 5"

definition page :: nat where
  "page = 200"

subsection \<open>Polling\<close>

text \<open>Storing a page: the rows stored before a fault stay, as the handler catches it inside the transaction.\<close>

fun store_page :: "snow \<Rightarrow> instance_row \<Rightarrow> snow_record list \<Rightarrow> sync_state \<Rightarrow> sync_fault option \<times> sync_state" where
  "store_page sn i [] st = (None, st)"
| "store_page sn i (r # rs) st =
     (case sn_journal sn (sr_sys r) (if in_watermark i > 0 then Some (in_watermark i) else None) of
        Inl e \<Rightarrow> (Some e, st)
      | Inr journal \<Rightarrow>
          (case sn_files sn (sr_sys r) of
             Inl e \<Rightarrow> (Some e, st)
           | Inr files \<Rightarrow> store_page sn i rs (insert_inbox i r journal files st)))"

definition poll_run :: "instance_row \<Rightarrow> run_outcome \<Rightarrow> sync_fault option \<Rightarrow> ms \<Rightarrow> run_row" where
  "poll_run i out err now = \<lparr>rn_instance = in_id i, rn_direction = Run_poll, rn_ticket = None, rn_row = None, rn_attempt = 1, rn_outcome = out,
     rn_class = map_option (\<lambda>e. case e of Snow_fault s t \<Rightarrow> classify_http_status s | _ \<Rightarrow> Retryable) err, rn_error = err, rn_at = now\<rparr>"

definition poll_failed :: "instance_row \<Rightarrow> sync_fault \<Rightarrow> ms \<Rightarrow> sync_state \<Rightarrow> sync_state" where
  "poll_failed i e now st =
     insert_run (poll_run i Run_retried (Some e) now)
       (touch_instance (in_id i) (\<lambda>r. r\<lparr>in_next_poll := now + in_poll_seconds i * 1000, in_error := Some e,
          in_credential := if is_credential_fault e then Invalid_credential else in_credential r\<rparr>) st)"

definition poll_succeeded :: "'d sync_env \<Rightarrow> instance_row \<Rightarrow> snow_record list \<Rightarrow> ms \<Rightarrow> sync_state \<Rightarrow> sync_state" where
  "poll_succeeded ev i rs now st =
     insert_run (poll_run i Run_success None now)
       (touch_instance (in_id i) (\<lambda>r. (if rs = [] then r
            else r\<lparr>in_watermark := from_snow_time (ev_parse ev) (sr_updated (last rs)), in_watermark_id := Some (sr_sys (last rs))\<rparr>)
          \<lparr>in_next_poll := now + in_poll_seconds i * 1000, in_success := Some now, in_error := None, in_credential := Valid_credential\<rparr>) st)"

definition poll_one :: "'d sync_env \<Rightarrow> ms \<Rightarrow> instance_row \<Rightarrow> sync_state \<Rightarrow> sync_state" where
  "poll_one ev now i st =
     (let sn = ev_snow ev in
      case sn_connect sn i of
        Inl e \<Rightarrow> poll_failed i e now st
      | Inr _ \<Rightarrow>
          (case sn_changed sn (in_table i) (in_watermark i) (in_watermark_id i) page of
             Inl e \<Rightarrow> poll_failed i e now st
           | Inr records \<Rightarrow>
               (case store_page sn i records st of
                  (Some e, st1) \<Rightarrow> poll_failed i e now st1
                | (None, st1) \<Rightarrow> poll_succeeded ev i records now st1)))"

definition poll_account :: "'d sync_env \<Rightarrow> ms \<Rightarrow> string \<Rightarrow> sync_state \<Rightarrow> sync_state" where
  "poll_account ev now account st = fold (poll_one ev now) (claim_due st account now) st"

definition poll_due :: "'d sync_env \<Rightarrow> ms \<Rightarrow> sync_state \<Rightarrow> sync_state" where
  "poll_due ev now st = fold (poll_account ev now) (live_accounts st) st"

subsection \<open>Values of a ticket\<close>

definition or_null_json :: "json \<Rightarrow> json" where
  "or_null_json v = (if is_nullish v then JNull else v)"

definition ticket_value :: "ticket_view \<Rightarrow> string \<Rightarrow> json" where
  "ticket_value t f =
     (if f = ''requester_email'' then (case tv_requester t of None \<Rightarrow> JNull | Some (e, n) \<Rightarrow> JStr e)
      else if f = ''requester_name'' then (case tv_requester t of None \<Rightarrow> JNull | Some (e, n) \<Rightarrow> JStr n)
      else if f = ''client_reference'' then or_null_json (field_of (tv_refs t) ''client_reference'')
      else if f = ''client_notes'' then or_null_json (field_of (tv_refs t) ''client_notes'')
      else if f = ''external_ref'' then or_null_json (field_of (tv_refs t) ''servicenow'')
      else or_null_json (field_of (tv_columns t) f))"

definition pick_value :: "json \<Rightarrow> json" where
  "pick_value v = (if jhas ''value'' v then jget ''value'' v else v)"

definition policy_of :: "link_row \<Rightarrow> field_entry \<Rightarrow> sync_fault + system_of_record" where
  "policy_of l e =
     (case map_of (ln_overrides l) (fe_xms e) of
        Some p \<Rightarrow> Inr p
      | None \<Rightarrow> (case fe_sor e of
          Some p \<Rightarrow> Inr p
        | None \<Rightarrow> (case default_sor (fe_xms e) of Some p \<Rightarrow> Inr p | None \<Rightarrow> Inl (Thrown ''sor''))))"

definition truthy_field :: "json js_map \<Rightarrow> string \<Rightarrow> bool" where
  "truthy_field patch f = truthy (field_of patch f)"

subsection \<open>Creating\<close>

text \<open>What \<open>String(x).slice\<close> keeps, and the text of a field that is present.\<close>

definition cut_string :: "(rat \<Rightarrow> string) \<Rightarrow> nat \<Rightarrow> json \<Rightarrow> json" where
  "cut_string num n v = JStr (take n (js_string num v))"

definition create_columns :: "(rat \<Rightarrow> string) \<Rightarrow> json js_map \<Rightarrow> json js_map" where
  "create_columns num patch =
     [(''short_description'', cut_string num 300 (field_of patch ''short_description''))] @
     concat (map (\<lambda>f. if field_of patch f = JUndef then [] else [(f, JStr (js_string num (field_of patch f)))]) [''description'', ''category'']) @
     concat (map (\<lambda>f. if field_of patch f = JUndef then [] else [(f, field_of patch f)]) [''impact'', ''urgency''])"

definition create_request :: "(rat \<Rightarrow> string) \<Rightarrow> instance_row \<Rightarrow> state_map js_map option \<Rightarrow> json js_map \<Rightarrow> ticket_request" where
  "create_request num i sm patch =
     \<lparr>tr_account = in_account i,
      tr_type = (case sm of Some [(ty, m)] \<Rightarrow> ty | _ \<Rightarrow> ''incident''),
      tr_columns = create_columns num patch,
      tr_email = js_string num (field_of patch ''requester_email''),
      tr_name = (if field_of patch ''requester_name'' = JUndef then None else Some (js_string num (field_of patch ''requester_name'')))\<rparr>"

definition external_refs :: "(rat \<Rightarrow> string) \<Rightarrow> ticket_view \<Rightarrow> string \<Rightarrow> snow_record \<Rightarrow> json js_map \<Rightarrow> json js_map" where
  "external_refs num t number r patch =
     (let refs = AList.update ''servicenow_sys_id'' (JStr (sr_sys r)) (AList.update ''servicenow'' (JStr number) (tv_refs t))
      in if field_of patch ''client_reference'' = JUndef then refs
         else AList.update ''client_reference'' (JStr (js_string num (field_of patch ''client_reference''))) refs)"

definition create_from :: "'d sync_env \<Rightarrow> ms \<Rightarrow> instance_row \<Rightarrow> state_map js_map option \<Rightarrow> snow_record \<Rightarrow> string \<Rightarrow> json js_map \<Rightarrow>
    sync_state \<times> 'd \<Rightarrow> sync_fault + (ticket_view \<times> nat \<times> sync_state \<times> 'd)" where
  "create_from ev now i sm r number patch w =
     (let num = ev_number ev; dk = ev_desk ev; origin = sync_origin (in_id i) in
      and_then (guard_or (truthy_field patch ''short_description'' \<and> truthy_field patch ''requester_email'') (Refused ''mapping_incomplete'')) (\<lambda>_.
      and_then (dk_create dk origin (create_request num i sm patch) (snd w)) (\<lambda>(t0, d0).
      and_then (dk_patch dk origin (tv_id t0) \<lparr>tp_version = tv_version t0, tp_refs = Some (external_refs num t0 number r patch), tp_columns = []\<rparr> d0) (\<lambda>(t, d).
      let st = fst w; l = new_link st (in_id i) (tv_id t) (sr_sys r) number (from_snow_time (ev_parse ev) (sr_updated r)) now in
      and_then (guard_or (link_by_ticket st (in_id i) (tv_id t) = None \<and> link_by_external st (in_id i) (sr_sys r) = None) (Thrown ''duplicate link'')) (\<lambda>_.
      Inr (t, ln_id l, st\<lparr>sy_links := sy_links st @ [l]\<rparr>, d))))))"

subsection \<open>Patching a linked ticket\<close>

definition text_column :: "string \<Rightarrow> bool" where
  "text_column f \<longleftrightarrow> f = ''short_description'' \<or> f = ''description'' \<or> f = ''category''"

text \<open>One mapped field: the columns to write and the fields the policy keeps from the client.\<close>

definition field_step :: "'d sync_env \<Rightarrow> link_row \<Rightarrow> ticket_view \<Rightarrow> snow_record \<Rightarrow> json js_map \<Rightarrow> field_entry \<Rightarrow>
    json js_map \<times> string list \<Rightarrow> sync_fault + json js_map \<times> string list" where
  "field_step ev l t r patch e acc =
     (if fe_direction e = Dir_out \<or> map_of patch (fe_xms e) = None then Inr acc
      else and_then (policy_of l e) (\<lambda>p.
        let f = fe_xms e; v = field_of patch f in
        case decide_inbound (ev_number ev) \<lparr>ci_policy = p, ci_create = False, ci_xms = ticket_value t f, ci_external = v,
            ci_xms_at = Some (tv_updated t), ci_external_at = Some (from_snow_time (ev_parse ev) (sr_updated r))\<rparr> of
          Inl Xms_owned \<Rightarrow> Inr (fst acc, snd acc @ [f])
        | Inl _ \<Rightarrow> Inr acc
        | Inr _ \<Rightarrow>
            Inr (if text_column f then AList.update f (cut_string (ev_number ev) (if f = ''short_description'' then 300 else 50000) v) (fst acc)
                 else if is_level_field f then AList.update f v (fst acc) else fst acc, snd acc)))"

fun field_steps :: "'d sync_env \<Rightarrow> link_row \<Rightarrow> ticket_view \<Rightarrow> snow_record \<Rightarrow> json js_map \<Rightarrow> field_entry list \<Rightarrow>
    json js_map \<times> string list \<Rightarrow> sync_fault + json js_map \<times> string list" where
  "field_steps ev l t r patch [] acc = Inr acc"
| "field_steps ev l t r patch (e # es) acc = and_then (field_step ev l t r patch e acc) (field_steps ev l t r patch es)"

definition in_run :: "instance_row \<Rightarrow> inbox_row \<Rightarrow> string option \<Rightarrow> nat \<Rightarrow> run_outcome \<Rightarrow> error_class option \<Rightarrow> sync_fault option \<Rightarrow> ms \<Rightarrow> run_row" where
  "in_run i row ticket n out c err now = \<lparr>rn_instance = in_id i, rn_direction = Run_in, rn_ticket = ticket, rn_row = Some (ix_id row), rn_attempt = n,
     rn_outcome = out, rn_class = c, rn_error = err, rn_at = now\<rparr>"

definition note_conflict :: "instance_row \<Rightarrow> inbox_row \<Rightarrow> nat \<Rightarrow> string \<Rightarrow> string list \<Rightarrow> json js_map \<Rightarrow> ms \<Rightarrow> sync_state \<Rightarrow> sync_state" where
  "note_conflict i row l ticket skipped patch now st =
     (if skipped = [] then st
      else insert_run (in_run i row (Some ticket) 1 Run_policy None None now)
        (touch_link l (\<lambda>x. x\<lparr>ln_state := Link_conflict, ln_conflict := Some \<lparr>cf_inbound = True,
           cf_values = map (\<lambda>f. (f, or_null_json (field_of patch f))) skipped, cf_resolved = [], cf_at = now, cf_updated = sr_updated (ix_record row)\<rparr>\<rparr>) st))"

definition patch_linked :: "'d sync_env \<Rightarrow> ms \<Rightarrow> instance_row \<Rightarrow> field_entry list \<Rightarrow> inbox_row \<Rightarrow> link_row \<Rightarrow> json js_map \<Rightarrow>
    sync_state \<times> 'd \<Rightarrow> sync_fault + (ticket_view \<times> nat \<times> sync_state \<times> 'd)" where
  "patch_linked ev now i ents row l patch w =
     (let dk = ev_desk ev; r = ix_record row in
      and_then (dk_get dk (ln_ticket l) (snd w)) (\<lambda>t.
      and_then (field_steps ev l t r patch ents ([], [])) (\<lambda>(columns, skipped).
      let st = note_conflict i row (ln_id l) (tv_id t) skipped patch now (fst w) in
      if columns \<noteq> [] \<and> tv_state t \<notin> {''closed'', ''cancelled''} then
        and_then (dk_patch dk (sync_origin (in_id i)) (tv_id t) \<lparr>tp_version = tv_version t, tp_refs = None, tp_columns = columns\<rparr> (snd w)) (\<lambda>(t', d).
        Inr (t', ln_id l, st, d))
      else Inr (t, ln_id l, st, snd w))))"

subsection \<open>The state\<close>

definition pause_reason_for :: "string \<Rightarrow> string list \<Rightarrow> string option" where
  "pause_reason_for to requires =
     (if ''pause_reason'' \<in> set requires
      then Some (if to = ''awaiting_third_party'' then ''awaiting_third_party'' else ''awaiting_client'') else None)"

definition move_state :: "'d sync_env \<Rightarrow> instance_row \<Rightarrow> state_map js_map option \<Rightarrow> snow_record \<Rightarrow> ticket_view \<Rightarrow> 'd \<Rightarrow> sync_fault + (ticket_view \<times> 'd)" where
  "move_state ev i sm r t d =
     (let external = field_of (sr_fields r) ''state''; dk = ev_desk ev in
      if is_nullish external then Inr (t, d)
      else case Option.bind sm (\<lambda>m. map_of m (tv_type t)) of
        None \<Rightarrow> Inr (t, d)
      | Some entry \<Rightarrow>
          and_then (dk_allowed dk (tv_id t) d) (\<lambda>allowed.
          case resolve_inbound_state entry (js_string (ev_number ev) (pick_value external)) (tv_state t) (map fst allowed) of
            Inl _ \<Rightarrow> Inr (t, d)
          | Inr (to, via) \<Rightarrow>
              let requires = (case map_of allowed to of None \<Rightarrow> [] | Some q \<Rightarrow> q) in
              if ''resolution'' \<in> set requires \<or> ''time_logged'' \<in> set requires then Inr (t, d)
              else dk_move dk (sync_origin (in_id i)) (tv_id t) \<lparr>tm_version = tv_version t, tm_to = to, tm_pause = pause_reason_for to requires\<rparr> d))"

subsection \<open>Journal and files\<close>

definition entry_kind :: "instance_row \<Rightarrow> journal_entry \<Rightarrow> message_kind option" where
  "entry_kind i e = (if je_element e = in_journal i then Some Comment_kind else if je_element e = ''work_notes'' then Some Note_kind else None)"

definition take_entry :: "'d sync_env \<Rightarrow> instance_row \<Rightarrow> string \<Rightarrow> journal_entry \<Rightarrow> sync_state \<times> 'd \<Rightarrow> sync_fault + (sync_state \<times> 'd)" where
  "take_entry ev i ticket e w =
     (case entry_kind i e of
        None \<Rightarrow> Inr w
      | Some k \<Rightarrow>
          if k = Note_kind \<and> \<not> in_work_notes i then Inr w
          else if has_journal_marker (je_value e) then Inr w
          else if journal_linked (fst w) (in_id i) (je_sys e) then Inr w
          else if js_trim (je_value e) = [] then Inr w
          else and_then (dk_message (ev_desk ev) (sync_origin (in_id i)) k ticket (js_trim (je_value e)) (snd w)) (\<lambda>(m, d).
            Inr (insert_journal_link \<lparr>jl_instance = in_id i, jl_ticket = ticket, jl_kind = k, jl_xms = m, jl_external = je_sys e, jl_inbound = True\<rparr> (fst w), d)))"

fun take_entries :: "'d sync_env \<Rightarrow> instance_row \<Rightarrow> string \<Rightarrow> journal_entry list \<Rightarrow> sync_state \<times> 'd \<Rightarrow> sync_fault + (sync_state \<times> 'd)" where
  "take_entries ev i ticket [] w = Inr w"
| "take_entries ev i ticket (e # es) w = and_then (take_entry ev i ticket e w) (take_entries ev i ticket es)"

text \<open>The text of the note about a file over the limit is a parameter of its numbers; the note names the file.\<close>

definition over_limit_note :: "(rat \<Rightarrow> string) \<Rightarrow> instance_row \<Rightarrow> ticket_view \<Rightarrow> snow_file \<Rightarrow> string" where
  "over_limit_note num i t f =
     sf_name f @ '' ('' @ num (of_int (sf_size f)) @ '' bytes) is attached to '' @
     (let ref = field_of (tv_refs t) ''servicenow'' in if is_nullish ref then ''the case'' else js_string num ref) @
     '' in ServiceNow and is over the '' @ num (of_int (in_file_limit i)) @ '' byte copy limit. Open it in the client instance.''"

definition take_file :: "'d sync_env \<Rightarrow> instance_row \<Rightarrow> ticket_view \<Rightarrow> snow_file \<Rightarrow> sync_state \<times> 'd \<Rightarrow> sync_fault + (sync_state \<times> 'd)" where
  "take_file ev i t f w =
     (let dk = ev_desk ev; origin = sync_origin (in_id i);
          link = (\<lambda>file out. insert_file_link \<lparr>fl_instance = in_id i, fl_ticket = tv_id t, fl_file = file, fl_external = sf_sys f,
                    fl_inbound = True, fl_outcome = out\<rparr>) in
      if sf_sys f = [] \<or> file_linked (fst w) (in_id i) (sf_sys f) then Inr w
      else if sf_size f > in_file_limit i then
        (if in_over_link i then
           and_then (dk_message dk origin Note_kind (tv_id t) (over_limit_note (ev_number ev) i t f) (snd w)) (\<lambda>(m, d).
           Inr (link None File_linked (fst w), d))
         else Inr (link None File_skipped (fst w), snd w))
      else
        and_then (sn_connect (ev_snow ev) i) (\<lambda>_.
        and_then (sn_download (ev_snow ev) (sf_sys f) (in_file_limit i)) (\<lambda>bytes.
        and_then (dk_ingest dk origin (tv_id t) (sf_name f, if sf_content f = [] then ''application/octet-stream'' else sf_content f, bytes) (snd w)) (\<lambda>(file, d).
        Inr (link (Some file) File_copied (fst w), d)))))"

fun take_files :: "'d sync_env \<Rightarrow> instance_row \<Rightarrow> ticket_view \<Rightarrow> snow_file list \<Rightarrow> sync_state \<times> 'd \<Rightarrow> sync_fault + (sync_state \<times> 'd)" where
  "take_files ev i t [] w = Inr w"
| "take_files ev i t (f # fs) w = and_then (take_file ev i t f w) (take_files ev i t fs)"

subsection \<open>One inbox row\<close>

definition mapped_out :: "field_entry list \<Rightarrow> json js_map \<Rightarrow> json js_map" where
  "mapped_out ents patch =
     foldl (\<lambda>m e. AList.update (fe_xms e) (field_of patch (fe_xms e)) m) [] (filter (\<lambda>e. fe_direction e \<noteq> Dir_in) ents)"

definition reflects :: "'d sync_env \<Rightarrow> instance_row \<Rightarrow> field_entry list \<Rightarrow> snow_record \<Rightarrow> json js_map \<Rightarrow> link_row \<Rightarrow> bool" where
  "reflects ev i ents r patch l =
     is_reflection \<lparr>rf_outbound_at = ln_out_at l, rf_outbound_hash = ln_out_hash l, rf_updated_on = from_snow_time (ev_parse ev) (sr_updated r),
       rf_inbound_hash = outbound_hash (ev_number ev) (ev_digest ev) (mapped_out ents patch), rf_tolerance = Some (in_tolerance i)\<rparr>"

datatype apply_result = Applied | Dropped | Apply_failed | Apply_retry

definition external_number :: "(rat \<Rightarrow> string) \<Rightarrow> snow_record \<Rightarrow> string" where
  "external_number num r = (let n = field_of (sr_fields r) ''number'' in if is_nullish n then sr_sys r else js_string num n)"

definition finish_apply :: "'d sync_env \<Rightarrow> ms \<Rightarrow> instance_row \<Rightarrow> inbox_row \<Rightarrow> nat \<Rightarrow> ticket_view \<Rightarrow> sync_state \<Rightarrow> sync_state" where
  "finish_apply ev now i row l t st =
     (let r = ix_record row; number = external_number (ev_number ev) r in
      audit_sync (Sync_applied (tv_id t))
        (insert_run (in_run i row (Some (tv_id t)) (ix_attempts row + 1) Run_success None None now)
          (settle_inbox (ix_id row) Inbox_applied None
            (touch_link l (\<lambda>x. x\<lparr>ln_in_at := Some now, ln_in_updated := Some (from_snow_time (ev_parse ev) (sr_updated r)), ln_number := number\<rparr>) st))))"

definition apply_record :: "'d sync_env \<Rightarrow> ms \<Rightarrow> instance_row \<Rightarrow> inbox_row \<Rightarrow> sync_state \<times> 'd \<Rightarrow> sync_fault + (apply_result \<times> sync_state \<times> 'd)" where
  "apply_record ev now i row w =
     (let num = ev_number ev; r = ix_record row; st = fst w; journal = filter (\<lambda>e. je_record e = sr_sys r) (ix_journal row) in
      and_then (field_map_of st i) (\<lambda>ents.
      and_then (state_map_of st i) (\<lambda>sm.
      let patch = it_patch (translate_inbound num ents (sr_fields r)); number = external_number num r in
      case link_by_external st (in_id i) (sr_sys r) of
        Some l \<Rightarrow>
          if reflects ev i ents r patch l then
            Inr (Dropped, insert_run (in_run i row (Some (ln_ticket l)) 1 Run_reflection None None now) (settle_inbox (ix_id row) Inbox_reflection None st), snd w)
          else
            and_then (patch_linked ev now i ents row l patch w) (\<lambda>(t, li, st1, d1).
            and_then (move_state ev i sm r t d1) (\<lambda>(t2, d2).
            and_then (take_entries ev i (tv_id t2) journal (st1, d2)) (\<lambda>w3.
            and_then (take_files ev i t2 (ix_files row) w3) (\<lambda>(st4, d4).
            Inr (Applied, finish_apply ev now i row li t2 st4, d4)))))
      | None \<Rightarrow>
          and_then (create_from ev now i sm r number patch w) (\<lambda>(t, li, st1, d1).
          and_then (move_state ev i sm r t d1) (\<lambda>(t2, d2).
          and_then (take_entries ev i (tv_id t2) journal (st1, d2)) (\<lambda>w3.
          and_then (take_files ev i t2 (ix_files row) w3) (\<lambda>(st4, d4).
          Inr (Applied, finish_apply ev now i row li t2 st4, d4))))))))"

definition is_refusal :: "sync_fault \<Rightarrow> bool" where
  "is_refusal e = (case e of Refused m \<Rightarrow> True | _ \<Rightarrow> False)"

text \<open>The row after a fault: the attempt is counted, and a refusal or the last attempt ends in a dead letter.\<close>

definition apply_fault :: "ms \<Rightarrow> instance_row \<Rightarrow> inbox_row \<Rightarrow> sync_fault \<Rightarrow> sync_state \<Rightarrow> apply_result \<times> sync_state" where
  "apply_fault now i row e st =
     (let st1 = retry_inbox (ix_id row) e st;
          attempts = (case find (\<lambda>x. ix_id x = ix_id row) (sy_inbox st1) of None \<Rightarrow> 0 | Some x \<Rightarrow> ix_attempts x)
      in if is_refusal e \<or> max_inbox_attempts \<le> attempts then
           (Apply_failed,
            touch_instance (in_id i) (\<lambda>r. r\<lparr>in_error := Some e\<rparr>)
              (insert_run (in_run i row None attempts Run_dead (Some Terminal_error) (Some e) now)
                (settle_inbox (ix_id row) Inbox_failed (Some e)
                  (insert_letter \<lparr>sl_queue = Inbox_letter, sl_instance = in_id i, sl_row = ix_id row, sl_error = e, sl_attempts = attempts, sl_open = True\<rparr> st1))))
         else (Apply_retry, insert_run (in_run i row None attempts Run_retried (Some Retryable) (Some e) now) st1))"

definition apply_one :: "'d sync_env \<Rightarrow> ms \<Rightarrow> instance_row \<Rightarrow> inbox_row \<Rightarrow> sync_state \<times> 'd \<Rightarrow> apply_result \<times> sync_state \<times> 'd" where
  "apply_one ev now i row w =
     (case (case instance_by_id (fst w) (in_id i) of
              None \<Rightarrow> Inl (Refused ''connector_instance'')
            | Some fresh \<Rightarrow> if in_mode fresh = Mode_off \<or> in_tripped fresh then Inr (Apply_retry, w) else apply_record ev now fresh row w) of
        Inr (res, w') \<Rightarrow> (res, w')
      | Inl e \<Rightarrow> (let (res, st') = apply_fault now i row e (fst w) in (res, st', snd w)))"

definition apply_row :: "'d sync_env \<Rightarrow> ms \<Rightarrow> instance_row \<Rightarrow> inbox_row \<Rightarrow> sync_state \<times> 'd \<Rightarrow> sync_state \<times> 'd" where
  "apply_row ev now i row w = snd (apply_one ev now i row w)"

definition apply_instance :: "'d sync_env \<Rightarrow> ms \<Rightarrow> instance_row \<Rightarrow> sync_state \<times> 'd \<Rightarrow> sync_state \<times> 'd" where
  "apply_instance ev now i w =
     (if in_mode i = Mode_off \<or> in_tripped i then w
      else fold (apply_row ev now i) (pending_inbox (fst w) (in_id i)) w)"

definition apply_pending :: "'d sync_env \<Rightarrow> ms \<Rightarrow> sync_state \<times> 'd \<Rightarrow> sync_state \<times> 'd" where
  "apply_pending ev now w =
     fold (apply_instance ev now) (concat (map (instances_of (fst w)) (live_accounts (fst w)))) w"

end
