(* ===== verification/Sync_Outbound.thy ===== *)
theory Sync_Outbound
  imports Sync_Inbox
begin

section \<open>Queueing, delivery and health (src/modules/connectors/sync.worker.ts)\<close>

text \<open>
  One change of a ticket becomes one queued row for each instance that wants it; delivery pushes the rows
  of an armed bidirectional instance, each in one transaction; the health job derives the state of an
  instance from its runs and trips the switch. What was written to the external system is a log of its
  own: a transaction that fails leaves the tables as they were and the log as it is.
\<close>

subsection \<open>Queueing\<close>

record change_row =
  cg_id :: string
  cg_event :: string
  cg_account :: string
  cg_ticket :: string
  cg_origin :: "string option"
  cg_payload :: json

definition out_run :: "instance_row \<Rightarrow> string \<Rightarrow> nat option \<Rightarrow> nat \<Rightarrow> run_outcome \<Rightarrow> error_class option \<Rightarrow> sync_fault option \<Rightarrow> ms \<Rightarrow> run_row" where
  "out_run i ticket row n out c err now = \<lparr>rn_instance = in_id i, rn_direction = Run_out, rn_ticket = Some ticket, rn_row = row, rn_attempt = n,
     rn_outcome = out, rn_class = c, rn_error = err, rn_at = now\<rparr>"

definition new_outbound :: "instance_row \<Rightarrow> change_row \<Rightarrow> ms \<Rightarrow> outbound_row" where
  "new_outbound i c now = \<lparr>og_id = 0, og_instance = in_id i, og_ticket = cg_ticket c, og_event = cg_event c, og_outbox = cg_id c,
     og_payload = cg_payload c, og_origin = cg_origin c, og_status = Ob_pending, og_attempts = 0, og_next = now, og_error = None, og_conflict = False\<rparr>"

definition enqueue_for :: "(rat \<Rightarrow> string) \<Rightarrow> ms \<Rightarrow> change_row \<Rightarrow> instance_row \<Rightarrow> sync_state \<Rightarrow> sync_state" where
  "enqueue_for num now c i st =
     (let link = link_by_ticket st (in_id i) (cg_ticket c);
          decision = decide_enqueue \<lparr>eq_event = cg_event c, eq_origin = cg_origin c, eq_instance = in_id i, eq_mode = in_mode i,
            eq_subscribed = (case map_of (sy_subscribed st) (in_type i) of None \<Rightarrow> [] | Some es \<Rightarrow> es), eq_has_link = (link \<noteq> None),
            eq_work_notes = in_work_notes i, eq_visibility = Some (text_or_empty num (jget ''visibility'' (cg_payload c)))\<rparr>
      in case decision of
           Inr _ \<Rightarrow> insert_outbound (new_outbound i c now) st
         | Inl Own_origin \<Rightarrow> insert_run (out_run i (cg_ticket c) None 1 Run_reflection None None now) st
         | Inl Work_notes_off \<Rightarrow> insert_run (out_run i (cg_ticket c) None 1 Run_policy None None now) st
         | Inl Internal_attachment \<Rightarrow> insert_run (out_run i (cg_ticket c) None 1 Run_policy None None now) st
         | Inl _ \<Rightarrow> st)"

definition on_change :: "(rat \<Rightarrow> string) \<Rightarrow> ms \<Rightarrow> change_row \<Rightarrow> sync_state \<Rightarrow> sync_state" where
  "on_change num now c st =
     (if is_outbound_event (cg_event c) then fold (enqueue_for num now c) (instances_of st (cg_account c)) st else st)"

subsection \<open>Settling\<close>

datatype push_result = Sent | Skipped | Push_failed | Push_retry | Deferred

text \<open>A push answers with the tables and the writes so far; a fault keeps the writes.\<close>

type_synonym pushed = "(sync_fault + (push_result \<times> sync_state)) \<times> snow_write list"

definition settle_sent :: "ms \<Rightarrow> instance_row \<Rightarrow> outbound_row \<Rightarrow> ticket_view \<Rightarrow> bool \<Rightarrow> sync_state \<Rightarrow> sync_state" where
  "settle_sent now i row t conflict st =
     audit_sync (if conflict then Sync_conflicted (tv_id t) else Sync_pushed (tv_id t))
       (touch_instance (in_id i) (\<lambda>r. r\<lparr>in_success := Some now, in_error := None\<rparr>)
         (insert_run (out_run i (og_ticket row) (Some (og_id row)) (og_attempts row + 1) Run_success None None now)
           (settle_outbound (og_id row) (\<lambda>x. x\<lparr>og_status := Ob_sent, og_attempts := og_attempts row + 1, og_error := None, og_conflict := conflict\<rparr>) st)))"

definition settle_skip :: "ms \<Rightarrow> instance_row \<Rightarrow> outbound_row \<Rightarrow> run_outcome \<Rightarrow> bool \<Rightarrow> sync_state \<Rightarrow> sync_state" where
  "settle_skip now i row out conflict st =
     insert_run (out_run i (og_ticket row) (Some (og_id row)) (og_attempts row + 1) out None None now)
       (settle_outbound (og_id row) (\<lambda>x. x\<lparr>og_status := Ob_skipped, og_attempts := og_attempts row + 1, og_conflict := conflict\<rparr>) st)"

definition skip :: "ms \<Rightarrow> instance_row \<Rightarrow> outbound_row \<Rightarrow> run_outcome \<Rightarrow> bool \<Rightarrow> sync_state \<Rightarrow> snow_write list \<Rightarrow> pushed" where
  "skip now i row out conflict st ws = (Inr (Skipped, settle_skip now i row out conflict st), ws)"

definition echo_guard :: "'d sync_env \<Rightarrow> ms \<Rightarrow> nat \<Rightarrow> field_entry list \<Rightarrow> snow_record \<Rightarrow> sync_state \<Rightarrow> sync_state" where
  "echo_guard ev now l ents r =
     (let after = it_patch (translate_inbound (ev_number ev) ents (sr_fields r)) in
      touch_link l (\<lambda>x. x\<lparr>ln_out_at := Some now, ln_out_hash := Some (outbound_hash (ev_number ev) (ev_digest ev) (mapped_out ents after)),
        ln_in_updated := Some (from_snow_time (ev_parse ev) (sr_updated r))\<rparr>))"

subsection \<open>Messages\<close>

definition journal_element :: "string \<Rightarrow> string" where
  "journal_element configured = (if configured = ''work_notes'' then ''work_notes'' else ''comments'')"

text \<open>\<open>payload.a ?? payload.b ?? ''\<close>, as text.\<close>

definition payload_text :: "(rat \<Rightarrow> string) \<Rightarrow> json \<Rightarrow> string list \<Rightarrow> string" where
  "payload_text num p names =
     (case filter (\<lambda>v. \<not> is_nullish v) (map (\<lambda>n. jget n p) names) of [] \<Rightarrow> [] | v # _ \<Rightarrow> js_string num v)"

text \<open>\<open>SnowClient.createJournal\<close>: the entry is written first and read back after, so a fault may come after the write.\<close>

definition assert_sys_id :: "string \<Rightarrow> sync_fault + unit" where
  "assert_sys_id s =
     guard_or (length s = 32 \<and> list_all (\<lambda>c. is_digit c \<or> c \<in> set ''abcdef'') s) (Snow_fault 0 ''not a ServiceNow record id'')"

definition create_journal :: "'d sync_env \<Rightarrow> instance_row \<Rightarrow> link_row \<Rightarrow> string \<Rightarrow> string \<Rightarrow> string \<Rightarrow> snow_write list \<Rightarrow>
    (sync_fault + (journal_entry \<times> snow_record)) \<times> snow_write list" where
  "create_journal ev i l element m text ws =
     (case and_then (assert_sys_id (ln_sys l)) (\<lambda>_. sn_update (ev_snow ev) ws (in_table i) (ln_sys l) [(element, text)]) of
        Inl e \<Rightarrow> (Inl e, ws)
      | Inr r \<Rightarrow>
          let ws1 = ws @ [Wrote_journal (in_id i) (ln_sys l) element m]
          in case sn_latest (ev_snow ev) ws1 (ln_sys l) element of
               Inl e \<Rightarrow> (Inl e, ws1)
             | Inr None \<Rightarrow> (Inl (Snow_fault 0 ''journal entry not returned''), ws1)
             | Inr (Some entry) \<Rightarrow> (Inr (entry, r), ws1))"

definition push_message :: "'d sync_env \<Rightarrow> ms \<Rightarrow> instance_row \<Rightarrow> outbound_row \<Rightarrow> link_row \<Rightarrow> field_entry list \<Rightarrow> ticket_view \<Rightarrow> 'd \<Rightarrow>
    sync_state \<Rightarrow> snow_write list \<Rightarrow> pushed" where
  "push_message ev now i row l ents t d st ws =
     (let kind = (if og_event row = ''comment.created'' then Comment_kind else Note_kind);
          m = payload_text (ev_number ev) (og_payload row) [''comment_id'', ''work_note_id'']
      in if m = [] then (Inl (Refused ''message_missing''), ws)
         else if message_linked st (in_id i) kind m then skip now i row Run_noop False st ws
         else case ev_message ev kind m d of
           None \<Rightarrow> (Inl (Refused ''message''), ws)
         | Some msg \<Rightarrow>
             if sm_source msg = ''sync'' then skip now i row Run_reflection False st ws
             else
               let element = (if kind = Comment_kind then journal_element (in_journal i) else ''work_notes'');
                   text = journal_marker m @ '' '' @ tv_key t @ '' '' @ sm_author msg @ '': '' @ sm_body msg
               in case create_journal ev i l element m text ws of
                    (Inl e, ws1) \<Rightarrow> (Inl e, ws1)
                  | (Inr (entry, r), ws1) \<Rightarrow>
                      (Inr (Sent, settle_sent now i row t False (echo_guard ev now (ln_id l) ents r
                         (insert_journal_link \<lparr>jl_instance = in_id i, jl_ticket = og_ticket row, jl_kind = kind, jl_xms = m,
                            jl_external = je_sys entry, jl_inbound = False\<rparr> st))), ws1))"

subsection \<open>Files\<close>

definition over_limit_text :: "(rat \<Rightarrow> string) \<Rightarrow> instance_row \<Rightarrow> ticket_view \<Rightarrow> string \<Rightarrow> stored_file \<Rightarrow> string" where
  "over_limit_text num i t m f = journal_marker m @ '' '' @ tv_key t @ '': '' @ sx_name f @ '' ('' @ num (of_int (sx_size f)) @
     '' bytes) is over the '' @ num (of_int (in_file_limit i)) @ '' byte copy limit and stays in XMS.''"

definition out_file_link :: "instance_row \<Rightarrow> outbound_row \<Rightarrow> string \<Rightarrow> string \<Rightarrow> file_outcome \<Rightarrow> file_link" where
  "out_file_link i row m external out =
     \<lparr>fl_instance = in_id i, fl_ticket = og_ticket row, fl_file = Some m, fl_external = external, fl_inbound = False, fl_outcome = out\<rparr>"

definition push_file :: "'d sync_env \<Rightarrow> ms \<Rightarrow> instance_row \<Rightarrow> outbound_row \<Rightarrow> link_row \<Rightarrow> ticket_view \<Rightarrow> 'd \<Rightarrow>
    sync_state \<Rightarrow> snow_write list \<Rightarrow> pushed" where
  "push_file ev now i row l t d st ws =
     (let m = payload_text (ev_number ev) (og_payload row) [''attachment_id''] in
      case (if m = [] then None else ev_file ev m d) of
        None \<Rightarrow> (Inl (Refused ''attachment''), ws)
      | Some f \<Rightarrow>
          if sx_scan f \<noteq> ''clean'' \<or> sx_visibility f \<noteq> ''public'' then skip now i row Run_policy False st ws
          else if own_file_linked st (in_id i) m then skip now i row Run_noop False st ws
          else if sx_size f > in_file_limit i then
            (let over = ''over-limit:'' @ m in
             if in_over_link i then
               (case create_journal ev i l (journal_element (in_journal i)) m (over_limit_text (ev_number ev) i t m f) ws of
                  (Inl e, ws1) \<Rightarrow> (Inl e, ws1)
                | (Inr _, ws1) \<Rightarrow> skip now i row Run_policy False (insert_file_link (out_file_link i row m over File_linked) st) ws1)
             else skip now i row Run_policy False (insert_file_link (out_file_link i row m over File_skipped) st) ws)
          else (case ev_object ev (sx_key f) of
                  Inl e \<Rightarrow> (Inl e, ws)
                | Inr bytes \<Rightarrow>
                    (case sn_upload (ev_snow ev) ws (in_table i) (ln_sys l) (sx_name f) bytes of
                       Inl e \<Rightarrow> (Inl e, ws)
                     | Inr up \<Rightarrow> (Inr (Sent, settle_sent now i row t False (insert_file_link (out_file_link i row m (sf_sys up) File_copied) st)),
                                  ws @ [Wrote_file (in_id i) (ln_sys l) m]))))"

subsection \<open>Fields and state\<close>

definition outbound_values :: "ticket_view \<Rightarrow> json js_map" where
  "outbound_values t =
     filter (\<lambda>p. \<not> is_nullish (snd p)) (map (\<lambda>f. (f, ticket_value t f)) (map fst xms_fields))"

text \<open>The fields a change named, when it named any.\<close>

definition changed_fields :: "json \<Rightarrow> string list option" where
  "changed_fields p =
     (case jget ''fields'' p of
        JArr xs \<Rightarrow> (let names = concat (map (\<lambda>x. case x of JStr s \<Rightarrow> [s] | _ \<Rightarrow> []) xs) in if names = [] then None else Some names)
      | _ \<Rightarrow> None)"

definition push_field :: "'d sync_env \<Rightarrow> link_row \<Rightarrow> ticket_view \<Rightarrow> snow_record \<Rightarrow> bool \<Rightarrow> json js_map \<Rightarrow> json js_map \<Rightarrow> string list option \<Rightarrow>
    field_entry \<Rightarrow> string list \<times> string list \<Rightarrow> sync_fault + string list \<times> string list" where
  "push_field ev l t r changed values external named e acc =
     (if fe_direction e = Dir_in \<or> (case named of None \<Rightarrow> False | Some ns \<Rightarrow> fe_xms e \<notin> set ns) \<or> field_of values (fe_xms e) = JUndef then Inr acc
      else and_then (policy_of l e) (\<lambda>p.
        case decide_outbound (ev_number ev) \<lparr>oc_policy = p, oc_external_changed = changed, oc_xms = field_of values (fe_xms e),
            oc_external = field_of external (fe_xms e), oc_xms_at = Some (tv_updated t),
            oc_external_at = Some (from_snow_time (ev_parse ev) (sr_updated r))\<rparr> of
          Inr _ \<Rightarrow> Inr (fst acc @ [fe_xms e], snd acc)
        | Inl Same_outbound \<Rightarrow> Inr acc
        | Inl _ \<Rightarrow> Inr (fst acc, snd acc @ [fe_xms e])))"

fun push_fields :: "'d sync_env \<Rightarrow> link_row \<Rightarrow> ticket_view \<Rightarrow> snow_record \<Rightarrow> bool \<Rightarrow> json js_map \<Rightarrow> json js_map \<Rightarrow> string list option \<Rightarrow>
    field_entry list \<Rightarrow> string list \<times> string list \<Rightarrow> sync_fault + string list \<times> string list" where
  "push_fields ev l t r changed values external named [] acc = Inr acc"
| "push_fields ev l t r changed values external named (e # es) acc =
     and_then (push_field ev l t r changed values external named e acc) (push_fields ev l t r changed values external named es)"

definition write_update :: "'d sync_env \<Rightarrow> ms \<Rightarrow> instance_row \<Rightarrow> outbound_row \<Rightarrow> link_row \<Rightarrow> field_entry list \<Rightarrow> ticket_view \<Rightarrow> string js_map \<Rightarrow> bool \<Rightarrow>
    sync_state \<Rightarrow> snow_write list \<Rightarrow> pushed" where
  "write_update ev now i row l ents t body conflict st ws =
     (case sn_update (ev_snow ev) ws (in_table i) (ln_sys l) body of
        Inl e \<Rightarrow> (Inl e, ws)
      | Inr updated \<Rightarrow> (Inr (Sent, settle_sent now i row t conflict (echo_guard ev now (ln_id l) ents updated st)),
                        ws @ [Wrote_update (in_id i) (ln_sys l) body]))"

definition push_state :: "'d sync_env \<Rightarrow> ms \<Rightarrow> instance_row \<Rightarrow> outbound_row \<Rightarrow> link_row \<Rightarrow> field_entry list \<Rightarrow> state_map js_map option \<Rightarrow>
    ticket_view \<Rightarrow> sync_state \<Rightarrow> snow_write list \<Rightarrow> pushed" where
  "push_state ev now i row l ents sm t st ws =
     (case Option.bind (Option.bind sm (\<lambda>m. map_of m (tv_type t))) (\<lambda>entry. resolve_outbound_state entry (tv_state t)) of
        None \<Rightarrow> skip now i row Run_policy False st ws
      | Some v \<Rightarrow> if os_value v = [] then skip now i row Run_policy False st ws
                  else write_update ev now i row l ents t [(''state'', os_value v)] False st ws)"

definition push_changes :: "'d sync_env \<Rightarrow> ms \<Rightarrow> instance_row \<Rightarrow> outbound_row \<Rightarrow> link_row \<Rightarrow> field_entry list \<Rightarrow> ticket_view \<Rightarrow> snow_record \<Rightarrow> bool \<Rightarrow>
    sync_state \<Rightarrow> snow_write list \<Rightarrow> pushed" where
  "push_changes ev now i row l ents t r changed st ws =
     (let values = outbound_values t; external = it_patch (translate_inbound (ev_number ev) ents (sr_fields r)) in
      case push_fields ev l t r changed values external (changed_fields (og_payload row)) ents ([], []) of
        Inl e \<Rightarrow> (Inl e, ws)
      | Inr (allowed, dropped) \<Rightarrow>
          let body = ot_body (translate_outbound (ev_number ev) ents values (Some allowed));
              conflict = (changed \<or> dropped \<noteq> []);
              st1 = (if dropped = [] then st
                else touch_link (ln_id l) (\<lambda>x. x\<lparr>ln_state := Link_conflict, ln_conflict := Some \<lparr>cf_inbound = False,
                  cf_values = map (\<lambda>f. (f, or_null_json (field_of external f))) dropped, cf_resolved = [], cf_at = now, cf_updated = sr_updated r\<rparr>\<rparr>) st)
          in if body = [] then skip now i row (if dropped = [] then Run_noop else Run_policy) conflict st1 ws
             else write_update ev now i row l ents t body conflict st1 ws)"

subsection \<open>One queued row\<close>

definition push :: "'d sync_env \<Rightarrow> ms \<Rightarrow> instance_row \<Rightarrow> outbound_row \<Rightarrow> 'd \<Rightarrow> sync_state \<Rightarrow> snow_write list \<Rightarrow> pushed" where
  "push ev now i row d st ws =
     (case link_by_ticket st (in_id i) (og_ticket row) of
        None \<Rightarrow> skip now i row Run_noop False st ws
      | Some l \<Rightarrow>
        if ln_state l = Unlinked then skip now i row Run_noop False st ws
        else case and_then (field_map_of st i) (\<lambda>ents. and_then (state_map_of st i) (\<lambda>sm.
            and_then (dk_get (ev_desk ev) (og_ticket row) d) (\<lambda>t. and_then (sn_connect (ev_snow ev) i) (\<lambda>_.
            and_then (sn_get (ev_snow ev) (in_table i) (ln_sys l)) (\<lambda>r. Inr (ents, sm, t, r)))))) of
          Inl e \<Rightarrow> (Inl e, ws)
        | Inr (ents, sm, t, None) \<Rightarrow>
            skip now i row Run_noop False (touch_link (ln_id l) (\<lambda>x. x\<lparr>ln_state := Unlinked\<rparr>) st) ws
        | Inr (ents, sm, t, Some r) \<Rightarrow>
            let changed = external_changed_since (ln_in_updated l) (from_snow_time (ev_parse ev) (sr_updated r)) (in_tolerance i)
            in if og_event row = ''comment.created'' \<or> og_event row = ''work_note.created'' then push_message ev now i row l ents t d st ws
               else if og_event row = ''attachment.scanned'' then push_file ev now i row l t d st ws
               else if og_event row = ''ticket.transitioned'' then push_state ev now i row l ents sm t st ws
               else push_changes ev now i row l ents t r changed st ws)"

definition is_terminal_fault :: "sync_fault \<Rightarrow> bool" where
  "is_terminal_fault e = (is_refusal e \<or> (case e of Snow_fault s m \<Rightarrow> classify_http_status s = Terminal_error | _ \<Rightarrow> False))"

definition note_credential :: "instance_row \<Rightarrow> sync_fault \<Rightarrow> sync_state \<Rightarrow> sync_state" where
  "note_credential i e st =
     (if is_credential_fault e then touch_instance (in_id i) (\<lambda>r. r\<lparr>in_credential := Invalid_credential\<rparr>) st else st)"

definition dead_letter_row :: "ms \<Rightarrow> instance_row \<Rightarrow> outbound_row \<Rightarrow> sync_fault \<Rightarrow> sync_state \<Rightarrow> sync_state" where
  "dead_letter_row now i row e st =
     touch_instance (in_id i) (\<lambda>r. r\<lparr>in_error := Some e\<rparr>)
       (insert_run (out_run i (og_ticket row) (Some (og_id row)) (og_attempts row + 1) Run_dead (Some Terminal_error) (Some e) now)
         (settle_outbound (og_id row) (\<lambda>x. x\<lparr>og_status := Ob_dead_lettered, og_attempts := og_attempts row + 1, og_error := Some e\<rparr>)
           (insert_letter \<lparr>sl_queue = Outbound_letter, sl_instance = in_id i, sl_row = og_id row, sl_error = e, sl_attempts = og_attempts row + 1,
              sl_open = True\<rparr> st)))"

definition requeue_row :: "ms \<Rightarrow> instance_row \<Rightarrow> outbound_row \<Rightarrow> sync_fault \<Rightarrow> ms \<Rightarrow> sync_state \<Rightarrow> sync_state" where
  "requeue_row now i row e next st =
     insert_run (out_run i (og_ticket row) (Some (og_id row)) (og_attempts row + 1) Run_retried (Some Retryable) (Some e) now)
       (settle_outbound (og_id row) (\<lambda>x. x\<lparr>og_status := Ob_pending, og_attempts := og_attempts row + 1, og_next := next, og_error := Some e\<rparr>) st)"

definition push_fault :: "ms \<Rightarrow> instance_row \<Rightarrow> outbound_row \<Rightarrow> sync_fault \<Rightarrow> sync_state \<Rightarrow> push_result \<times> sync_state" where
  "push_fault now i row e st =
     (case (if is_terminal_fault e then None else outbound_next_attempt (og_attempts row + 1) now) of
        None \<Rightarrow> (Push_failed, dead_letter_row now i row e (note_credential i e st))
      | Some next \<Rightarrow> (Push_retry, requeue_row now i row e next (note_credential i e st)))"

definition deliver_one :: "'d sync_env \<Rightarrow> ms \<Rightarrow> 'd \<Rightarrow> instance_row \<Rightarrow> outbound_row \<Rightarrow> sync_state \<times> snow_write list \<Rightarrow>
    push_result \<times> sync_state \<times> snow_write list" where
  "deliver_one ev now d i row w =
     (let (res, ws) =
        (case instance_by_id (fst w) (in_id i) of
           None \<Rightarrow> (Inl (Refused ''connector_instance''), snd w)
         | Some fresh \<Rightarrow>
             if in_mode fresh \<noteq> Bidirectional \<or> in_tripped fresh then (Inr (Deferred, fst w), snd w)
             else push ev now fresh row d (fst w) (snd w))
      in case res of
           Inr (out, st) \<Rightarrow> (out, st, ws)
         | Inl e \<Rightarrow> (let (out, st) = push_fault now i row e (fst w) in (out, st, ws)))"

definition deliver_row :: "'d sync_env \<Rightarrow> ms \<Rightarrow> 'd \<Rightarrow> instance_row \<Rightarrow> outbound_row \<Rightarrow> sync_state \<times> snow_write list \<Rightarrow> sync_state \<times> snow_write list" where
  "deliver_row ev now d i row w = snd (deliver_one ev now d i row w)"

definition deliver_instance :: "'d sync_env \<Rightarrow> ms \<Rightarrow> 'd \<Rightarrow> instance_row \<Rightarrow> sync_state \<times> snow_write list \<Rightarrow> sync_state \<times> snow_write list" where
  "deliver_instance ev now d i w =
     (if in_mode i \<noteq> Bidirectional \<or> in_tripped i then w
      else fold (deliver_row ev now d i) (claim_outbound (fst w) (in_id i) now) w)"

definition deliver_pending :: "'d sync_env \<Rightarrow> ms \<Rightarrow> 'd \<Rightarrow> sync_state \<times> snow_write list \<Rightarrow> sync_state \<times> snow_write list" where
  "deliver_pending ev now d w =
     fold (deliver_instance ev now d) (concat (map (instances_of (fst w)) (live_accounts (fst w)))) w"

subsection \<open>Health\<close>

definition error_ratio :: "nat \<times> nat \<Rightarrow> rat" where
  "error_ratio s = (if fst s > 0 then of_nat (snd s) / of_nat (fst s) else 0)"

definition trip :: "instance_row \<Rightarrow> sync_state \<Rightarrow> sync_state" where
  "trip i st =
     audit_sync (Switch_tripped (in_id i))
       (touch_instance (in_id i) (\<lambda>r. r\<lparr>in_tripped := True, in_trip_reason := Some ''error ratio'', in_health := Health_tripped, in_version := in_version r + 1\<rparr>) st)"

definition derived_health :: "ms \<Rightarrow> instance_row \<Rightarrow> sync_state \<Rightarrow> sync_health" where
  "derived_health now i st =
     (let stats = window_stats st (in_id i) (in_trip_window i) now; ratio = error_ratio stats in
      if in_trip_attempts i \<le> int (fst stats) \<and> in_trip_ratio i / 2 \<le> ratio then Failing
      else
        let lag = now - (case in_success i of None \<Rightarrow> in_created i | Some t \<Rightarrow> t);
            stale = (in_mode i \<noteq> Mode_off \<and> in_poll_seconds i * 3 * 1000 < lag)
        in if 0 < open_letter_count st (in_id i) \<or> (0 < pending_inbox_count st (in_id i) \<and> stale) \<or> (stale \<and> in_error i \<noteq> None)
           then Degraded else Healthy)"

definition health_of :: "ms \<Rightarrow> instance_row \<Rightarrow> sync_state \<Rightarrow> sync_state" where
  "health_of now i st =
     (let set_health = (\<lambda>h. if h \<noteq> in_health i then touch_instance (in_id i) (\<lambda>r. r\<lparr>in_health := h\<rparr>) st else st);
          stats = window_stats st (in_id i) (in_trip_window i) now
      in if in_tripped i then set_health Health_tripped
         else if in_trip_attempts i \<le> int (fst stats) \<and> in_trip_ratio i \<le> error_ratio stats then trip i st
         else set_health (derived_health now i st))"

definition health_account :: "ms \<Rightarrow> string \<Rightarrow> sync_state \<Rightarrow> sync_state" where
  "health_account now account st = fold (health_of now) (instances_of st account) st"

definition recompute_health :: "ms \<Rightarrow> sync_state \<Rightarrow> sync_state" where
  "recompute_health now st = fold (health_account now) (live_accounts st) st"

end
