(* ===== verification/Connector_Admin.thy ===== *)
theory Connector_Admin
  imports Sync_Outbound
begin

section \<open>Administration of the connectors (src/modules/connectors/connectors.service.ts)\<close>

text \<open>
  What operators do to the sync: they edit an instance, draft, validate and activate maps, trip and arm the
  switch, rewind the watermark, replay or discard dead letters, requeue a settled row and settle a field
  of a conflict. Instances are created with an endpoint the address guard accepts. Secrets, audit rows
  other than the sync's own and the lists and views are left out; a stale version is a fault.
\<close>

subsection \<open>Instances\<close>

record credential =
  cl_username :: string
  cl_password :: string
  cl_client :: string
  cl_secret :: string

datatype auth_kind = Basic_auth | Oauth_client

record instance_dto =
  ci_account :: string
  ci_name :: string
  ci_url :: "parsed_url option"
  ci_auth :: auth_kind
  ci_credential :: credential
  ci_table :: "string option"
  ci_itsm :: "bool option"
  ci_poll :: "int option"

definition assert_credential :: "auth_kind \<Rightarrow> credential \<Rightarrow> sync_fault + unit" where
  "assert_credential k c =
     guard_or (case k of Basic_auth \<Rightarrow> cl_username c \<noteq> [] \<and> cl_password c \<noteq> [] | Oauth_client \<Rightarrow> cl_client c \<noteq> [] \<and> cl_secret c \<noteq> [])
       (Refused ''credential_incomplete'')"

definition new_instance :: "instance_dto \<Rightarrow> string \<Rightarrow> ms \<Rightarrow> instance_row" where
  "new_instance dto i now =
     \<lparr>in_id = i, in_account = ci_account dto, in_type = ''servicenow'', in_name = ci_name dto,
      in_table = (case ci_table dto of Some t \<Rightarrow> t | None \<Rightarrow> if ci_itsm dto = Some True then ''incident'' else ''sn_customerservice_case''),
      in_credential = Unknown_credential, in_mode = Mode_off, in_tripped = False, in_trip_reason = None,
      in_poll_seconds = (case ci_poll dto of None \<Rightarrow> 60 | Some n \<Rightarrow> n), in_next_poll = now, in_watermark = 0, in_watermark_id = None,
      in_field_map = None, in_state_map = None, in_journal = ''comments'', in_work_notes = False, in_file_limit = 10485760, in_over_link = True,
      in_trip_ratio = 1 / 2, in_trip_window = 15, in_trip_attempts = 10, in_tolerance = 5, in_health = Healthy, in_success = None,
      in_error = None, in_version = 1, in_created = now\<rparr>"

definition create_instance_row :: "bool \<Rightarrow> instance_dto \<Rightarrow> string \<Rightarrow> ms \<Rightarrow> sync_state \<Rightarrow> sync_fault + sync_state" where
  "create_instance_row allow_private dto i now st =
     and_then (guard_or (endpoint_problem (ci_url dto) allow_private = None) (Refused ''invalid_endpoint'')) (\<lambda>_.
     and_then (assert_credential (ci_auth dto) (ci_credential dto)) (\<lambda>_.
     and_then (guard_or (instance_by_id st i = None) (Thrown ''id'')) (\<lambda>_.
     Inr (st\<lparr>sy_instances := sy_instances st @ [new_instance dto i now]\<rparr>))))"

text \<open>\<open>updateVersioned\<close> on an instance.\<close>

definition update_instance_row :: "string \<Rightarrow> int \<Rightarrow> (instance_row \<Rightarrow> instance_row) \<Rightarrow> sync_state \<Rightarrow> sync_fault + sync_state" where
  "update_instance_row i version f st =
     (case instance_by_id st i of
        None \<Rightarrow> Inl (Refused ''connector_instance'')
      | Some r \<Rightarrow> if in_version r = version then Inr (touch_instance i (\<lambda>x. f x\<lparr>in_version := in_version x + 1\<rparr>) st) else Inl (Thrown ''stale''))"

record instance_patch =
  ui_version :: int
  ui_name :: "string option"
  ui_mode :: "sync_mode option"
  ui_poll :: "int option"
  ui_journal :: "string option"
  ui_work_notes :: "bool option"
  ui_file_limit :: "int option"
  ui_over_link :: "bool option"
  ui_threshold :: "(rat \<times> int \<times> int) option"
  ui_table :: "string option"

definition sent_or :: "'a option \<Rightarrow> 'a \<Rightarrow> 'a" where
  "sent_or v old = (case v of None \<Rightarrow> old | Some x \<Rightarrow> x)"

definition assign_instance :: "instance_patch \<Rightarrow> instance_row \<Rightarrow> instance_row" where
  "assign_instance dto r =
     r\<lparr>in_name := sent_or (ui_name dto) (in_name r), in_mode := sent_or (ui_mode dto) (in_mode r), in_poll_seconds := sent_or (ui_poll dto) (in_poll_seconds r),
       in_journal := sent_or (ui_journal dto) (in_journal r), in_work_notes := sent_or (ui_work_notes dto) (in_work_notes r),
       in_file_limit := sent_or (ui_file_limit dto) (in_file_limit r), in_over_link := sent_or (ui_over_link dto) (in_over_link r),
       in_trip_ratio := fst (sent_or (ui_threshold dto) (in_trip_ratio r, in_trip_window r, in_trip_attempts r)),
       in_trip_window := fst (snd (sent_or (ui_threshold dto) (in_trip_ratio r, in_trip_window r, in_trip_attempts r))),
       in_trip_attempts := snd (snd (sent_or (ui_threshold dto) (in_trip_ratio r, in_trip_window r, in_trip_attempts r))),
       in_table := sent_or (ui_table dto) (in_table r)\<rparr>"

definition nothing_sent :: "instance_patch \<Rightarrow> bool" where
  "nothing_sent dto \<longleftrightarrow> ui_name dto = None \<and> ui_mode dto = None \<and> ui_poll dto = None \<and> ui_journal dto = None \<and> ui_work_notes dto = None \<and>
     ui_file_limit dto = None \<and> ui_over_link dto = None \<and> ui_threshold dto = None \<and> ui_table dto = None"

definition update_instance :: "string \<Rightarrow> instance_patch \<Rightarrow> sync_state \<Rightarrow> sync_fault + sync_state" where
  "update_instance i dto st =
     (case instance_by_id st i of
        None \<Rightarrow> Inl (Refused ''connector_instance'')
      | Some r \<Rightarrow>
          and_then (guard_or (ui_mode dto = None \<or> ui_mode dto = Some Mode_off \<or> in_field_map r \<noteq> None) (Refused ''no_active_field_map'')) (\<lambda>_.
          and_then (guard_or (ui_mode dto \<noteq> Some Bidirectional \<or> in_state_map r \<noteq> None) (Refused ''no_active_state_map'')) (\<lambda>_.
          and_then (guard_or (ui_mode dto \<noteq> Some Bidirectional \<or> in_credential r = Valid_credential) (Refused ''credential_not_valid'')) (\<lambda>_.
          if nothing_sent dto then Inr st else update_instance_row i (ui_version dto) (assign_instance dto) st))))"

text \<open>\<open>testConnection\<close>; whether the text of a fault speaks of the credential is given.\<close>

definition test_connection :: "(sync_fault \<Rightarrow> bool) \<Rightarrow> sync_fault + unit \<Rightarrow> string \<Rightarrow> sync_state \<Rightarrow> sync_fault + sync_state" where
  "test_connection speaks_of_credential answer i st =
     (case instance_by_id st i of
        None \<Rightarrow> Inl (Refused ''connector_instance'')
      | Some r \<Rightarrow>
          (case answer of
             Inr _ \<Rightarrow> Inr (touch_instance i (\<lambda>x. x\<lparr>in_credential := Valid_credential, in_error := None\<rparr>) st)
           | Inl e \<Rightarrow> Inr (touch_instance i (\<lambda>x. x\<lparr>in_credential := if speaks_of_credential e then Invalid_credential else in_credential r,
                              in_error := Some e\<rparr>) st)))"

definition kill_switch :: "string \<Rightarrow> bool \<Rightarrow> string \<Rightarrow> ms \<Rightarrow> sync_state \<Rightarrow> sync_fault + sync_state" where
  "kill_switch i tripped reason now st =
     (case instance_by_id st i of
        None \<Rightarrow> Inl (Refused ''connector_instance'')
      | Some r \<Rightarrow>
          if in_tripped r = tripped then Inr st
          else update_instance_row i (in_version r) (\<lambda>x. x\<lparr>in_tripped := tripped, in_trip_reason := if tripped then Some reason else None,
                 in_health := if tripped then Health_tripped else Healthy, in_next_poll := now\<rparr>) st)"

text \<open>\<open>watermark\<close>: the records affected are counted by a call first, and a preview stops there.\<close>

definition rewind_watermark :: "snow \<Rightarrow> string \<Rightarrow> ms option \<Rightarrow> bool \<Rightarrow> ms \<Rightarrow> sync_state \<Rightarrow> sync_fault + sync_state" where
  "rewind_watermark sn i to preview now st =
     (case to of
        None \<Rightarrow> Inl (Refused ''bad_watermark'')
      | Some t \<Rightarrow>
          (case instance_by_id st i of
             None \<Rightarrow> Inl (Refused ''connector_instance'')
           | Some r \<Rightarrow>
               and_then (sn_connect sn r) (\<lambda>_. and_then (sn_changed sn (in_table r) t None 1000) (\<lambda>_.
               if preview then Inr st
               else update_instance_row i (in_version r) (\<lambda>x. x\<lparr>in_watermark := t, in_watermark_id := None, in_next_poll := now\<rparr>) st))))"

subsection \<open>Maps\<close>

definition instance_maps :: "sync_state \<Rightarrow> map_kind \<Rightarrow> string \<Rightarrow> map_row list" where
  "instance_maps st k i = filter (\<lambda>m. mr_kind m = k \<and> mr_instance m = i) (sy_maps st)"

definition touch_map :: "map_kind \<Rightarrow> string \<Rightarrow> (map_row \<Rightarrow> map_row) \<Rightarrow> sync_state \<Rightarrow> sync_state" where
  "touch_map k m f st = st\<lparr>sy_maps := map (\<lambda>r. if mr_kind r = k \<and> mr_id r = m then f r else r) (sy_maps st)\<rparr>"

definition create_map :: "map_kind \<Rightarrow> string \<Rightarrow> string \<Rightarrow> field_entry list \<Rightarrow> state_map js_map \<Rightarrow> sync_state \<Rightarrow> sync_fault + sync_state" where
  "create_map k i m es sm st =
     (case instance_by_id st i of
        None \<Rightarrow> Inl (Refused ''connector_instance'')
      | Some r \<Rightarrow>
          and_then (guard_or (map_by_id st k m = None) (Thrown ''id'')) (\<lambda>_.
          Inr (st\<lparr>sy_maps := sy_maps st @ [\<lparr>mr_id = m, mr_kind = k, mr_instance = i,
             mr_version = fold max (map mr_version (instance_maps st k i)) 0 + 1, mr_stage = Draft_map, mr_fields = es, mr_states = sm,
             mr_samples = [], mr_report = None\<rparr>]\<rparr>)))"

definition editable_map :: "map_kind \<Rightarrow> string \<Rightarrow> string \<Rightarrow> sync_state \<Rightarrow> sync_fault + map_row" where
  "editable_map k i m st =
     (case map_by_id st k m of
        None \<Rightarrow> Inl (Refused ''map'')
      | Some r \<Rightarrow>
          and_then (guard_or (mr_instance r = i) (Refused ''map'')) (\<lambda>_.
          and_then (guard_or (mr_stage r \<noteq> Active_map \<and> mr_stage r \<noteq> Retired_map) (Refused ''map_immutable'')) (\<lambda>_. Inr r)))"

definition update_map :: "map_kind \<Rightarrow> string \<Rightarrow> string \<Rightarrow> field_entry list \<Rightarrow> state_map js_map \<Rightarrow> sync_state \<Rightarrow> sync_fault + sync_state" where
  "update_map k i m es sm st =
     and_then (editable_map k i m st) (\<lambda>_.
     Inr (touch_map k m (\<lambda>r. r\<lparr>mr_fields := es, mr_states := sm, mr_stage := Draft_map, mr_report := None\<rparr>) st))"

definition store_samples :: "string \<Rightarrow> string \<Rightarrow> json js_map list \<Rightarrow> sync_state \<Rightarrow> sync_fault + sync_state" where
  "store_samples i m records st =
     and_then (editable_map Field_kind i m st) (\<lambda>_. Inr (touch_map Field_kind m (\<lambda>r. r\<lparr>mr_samples := records\<rparr>) st))"

text \<open>\<open>validateMap\<close>: a field map against the dictionary the instance answers, a state map against the machines of the
  account; when the dictionary cannot be had the report is stored and the stage stays. The code reads the map
  and stores its report in two units of work; \<open>validate_map\<close> is the run that nothing else comes between.\<close>

definition state_externals :: "state_map js_map \<Rightarrow> string list" where
  "state_externals sm = uniq (concat (map (\<lambda>e. map fst (sm_inbound (snd e))) sm))"

definition store_report :: "map_kind \<Rightarrow> string \<Rightarrow> bool \<Rightarrow> sync_state \<Rightarrow> sync_state" where
  "store_report k m ok = touch_map k m (\<lambda>x. x\<lparr>mr_report := Some ok, mr_stage := if ok then Validated_map else Draft_map\<rparr>)"

definition validate_map :: "(rat \<Rightarrow> string) \<Rightarrow> sync_fault + dictionary_field list \<Rightarrow> string list js_map \<Rightarrow> map_kind \<Rightarrow> string \<Rightarrow> string \<Rightarrow>
    sync_state \<Rightarrow> sync_fault + sync_state" where
  "validate_map num dictionary machines k i m st =
     and_then (editable_map k i m st) (\<lambda>r.
     case k of
          State_kind \<Rightarrow> Inr (store_report k m (vr_ok (validate_state_map (mr_states r) (state_externals (mr_states r)) machines)) st)
        | Field_kind \<Rightarrow>
            (case dictionary of
               Inl e \<Rightarrow> Inr (touch_map k m (\<lambda>x. x\<lparr>mr_report := Some False\<rparr>) st)
             | Inr d \<Rightarrow> Inr (store_report k m (vr_ok (validate_field_map num (mr_fields r) d (mr_samples r))) st)))"

definition retire_active :: "map_kind \<Rightarrow> string \<Rightarrow> sync_state \<Rightarrow> sync_state" where
  "retire_active k i st =
     st\<lparr>sy_maps := map (\<lambda>r. if mr_kind r = k \<and> mr_instance r = i \<and> mr_stage r = Active_map then r\<lparr>mr_stage := Retired_map\<rparr> else r) (sy_maps st)\<rparr>"

definition activate_map :: "map_kind \<Rightarrow> string \<Rightarrow> string \<Rightarrow> sync_state \<Rightarrow> sync_fault + sync_state" where
  "activate_map k i m st =
     (case instance_by_id st i of
        None \<Rightarrow> Inl (Refused ''connector_instance'')
      | Some r \<Rightarrow>
          (case map_by_id st k m of
             None \<Rightarrow> Inl (Refused ''map'')
           | Some row \<Rightarrow>
               and_then (guard_or (mr_instance row = i) (Refused ''map'')) (\<lambda>_.
               and_then (guard_or (mr_stage row = Validated_map) (Refused ''map_not_validated'')) (\<lambda>_.
               update_instance_row i (in_version r)
                 (\<lambda>x. case k of Field_kind \<Rightarrow> x\<lparr>in_field_map := Some m\<rparr> | State_kind \<Rightarrow> x\<lparr>in_state_map := Some m\<rparr>)
                 (touch_map k m (\<lambda>x. x\<lparr>mr_stage := Active_map\<rparr>) (retire_active k i st))))))"

subsection \<open>Dead letters and the queue\<close>

definition resolve_letter :: "string \<Rightarrow> bool \<Rightarrow> ms \<Rightarrow> nat \<Rightarrow> sync_state \<Rightarrow> sync_fault + sync_state" where
  "resolve_letter i replay now n st =
     (if length (sy_letters st) \<le> n \<or> sl_instance (sy_letters st ! n) \<noteq> i then Inl (Refused ''dead_letter'')
      else
        let l = sy_letters st ! n in
        if \<not> sl_open l then Inr st
        else Inr (close_letter n
          (if replay then (case sl_queue l of Inbox_letter \<Rightarrow> reopen_inbox (sl_row l) st | Outbound_letter \<Rightarrow> reopen_outbound (sl_row l) now st) else st)))"

fun resolve_letters :: "string \<Rightarrow> bool \<Rightarrow> ms \<Rightarrow> nat list \<Rightarrow> sync_state \<Rightarrow> sync_fault + sync_state" where
  "resolve_letters i replay now [] st = Inr st"
| "resolve_letters i replay now (n # ns) st = and_then (resolve_letter i replay now n st) (resolve_letters i replay now ns)"

definition resolve_dead_letters :: "string \<Rightarrow> bool \<Rightarrow> ms \<Rightarrow> nat list \<Rightarrow> sync_state \<Rightarrow> sync_fault + sync_state" where
  "resolve_dead_letters i replay now ns st =
     (if instance_by_id st i = None then Inl (Refused ''connector_instance'') else resolve_letters i replay now ns st)"

definition retry_outbound :: "string \<Rightarrow> nat \<Rightarrow> ms \<Rightarrow> sync_state \<Rightarrow> sync_fault + sync_state" where
  "retry_outbound i n now st =
     (if instance_by_id st i = None then Inl (Refused ''connector_instance'')
      else case find (\<lambda>q. og_id q = n) (sy_outbound st) of
        None \<Rightarrow> Inl (Refused ''sync_outbound'')
      | Some row \<Rightarrow>
          if og_instance row \<noteq> i then Inl (Refused ''sync_outbound'')
          else if og_status row = Ob_pending then Inr st else Inr (reopen_outbound n now st))"

subsection \<open>Settling a conflict\<close>

definition resolvable_fields :: "string list" where
  "resolvable_fields = [''short_description'', ''description'', ''category'', ''impact'', ''urgency'']"

definition conflict_value :: "(rat \<Rightarrow> string) \<Rightarrow> string \<Rightarrow> json \<Rightarrow> sync_fault + json" where
  "conflict_value num field v =
     (if is_level_field field then
        and_then (guard_or (js_string num v \<in> set sync_levels) (Refused ''invalid_external_value'')) (\<lambda>_. Inr (JStr (js_string num v)))
      else Inr (cut_string num (if field = ''short_description'' then 300 else if field = ''category'' then 50 else 50000) v))"

record conflict_choice =
  cc_field :: string
  cc_accept :: bool
  cc_version :: int

definition link_by_id :: "sync_state \<Rightarrow> nat \<Rightarrow> link_row option" where
  "link_by_id st n = find (\<lambda>l. ln_id l = n) (sy_links st)"

definition settle_field :: "string \<Rightarrow> conflict_choice \<Rightarrow> link_conflict \<Rightarrow> link_row \<Rightarrow> link_row" where
  "settle_field user dto c l =
     (let c' = c\<lparr>cf_resolved := cf_resolved c @ [(cc_field dto, cc_accept dto, user)]\<rparr>;
          outstanding = filter (\<lambda>f. f \<notin> set (map fst (cf_resolved c'))) (map fst (cf_values c'))
      in l\<lparr>ln_conflict := Some c', ln_state := if outstanding = [] \<and> ln_state l = Link_conflict then Linked else ln_state l\<rparr>)"

definition resolve_conflict :: "'d sync_env \<Rightarrow> string \<Rightarrow> string \<Rightarrow> nat \<Rightarrow> conflict_choice \<Rightarrow> sync_state \<times> 'd \<Rightarrow> sync_fault + (sync_state \<times> 'd)" where
  "resolve_conflict ev user ticket n dto w =
     (case link_by_id (fst w) n of
        None \<Rightarrow> Inl (Refused ''sync_link'')
      | Some l \<Rightarrow>
          and_then (guard_or (ln_ticket l = ticket) (Refused ''sync_link'')) (\<lambda>_.
          case ln_conflict l of
            None \<Rightarrow> Inl (Refused ''sync_conflict'')
          | Some c \<Rightarrow>
              and_then (guard_or (cf_values c \<noteq> []) (Refused ''sync_conflict'')) (\<lambda>_.
              and_then (guard_or (cc_field dto \<in> set (map fst (cf_values c))) (Refused ''unknown_conflict_field'')) (\<lambda>_.
              and_then (guard_or (cc_field dto \<notin> set (map fst (cf_resolved c))) (Refused ''conflict_already_settled'')) (\<lambda>_.
              if cc_accept dto then
                and_then (guard_or (cc_field dto \<in> set resolvable_fields) (Refused ''field_not_resolvable'')) (\<lambda>_.
                and_then (guard_or (\<not> is_nullish (field_of (cf_values c) (cc_field dto))) (Refused ''external_value_unknown'')) (\<lambda>_.
                and_then (conflict_value (ev_number ev) (cc_field dto) (field_of (cf_values c) (cc_field dto))) (\<lambda>v.
                and_then (dk_patch (ev_desk ev) ''user'' ticket \<lparr>tp_version = cc_version dto, tp_refs = None, tp_columns = [(cc_field dto, v)]\<rparr> (snd w)) (\<lambda>(t, d).
                Inr (touch_link n (settle_field user dto c) (fst w), d)))))
              else Inr (touch_link n (settle_field user dto c) (fst w), snd w))))))"

end
