(* ===== verification/Sync_Life.thy ===== *)
theory Sync_Life
  imports Connector_Admin
begin

section \<open>The life of the connector queues\<close>

text \<open>
  What holds of the tables of the sync however polls, applies, changes, deliveries, health runs, resolved
  dead letters, requeued rows, settled conflicts, edits of the configuration and changes of the tickets
  interleave: every polled version and every change is queued once, a row is attempted at most five times
  and a failed one has a dead letter, an inbox row has an open letter only while it is failed, a link is
  never doubled, nothing of an instance's own origin is queued for it, and an instance that is tripped
  or not bidirectional is not written to.
\<close>

subsection \<open>Steps that leave the queues alone\<close>

definition links_ok :: "sync_state \<Rightarrow> bool" where
  "links_ok st \<longleftrightarrow>
     map ln_id (sy_links st) = [0..<length (sy_links st)] \<and>
     distinct (map (\<lambda>l. (ln_instance l, ln_ticket l)) (sy_links st)) \<and>
     distinct (map (\<lambda>l. (ln_instance l, ln_sys l)) (sy_links st)) \<and>
     distinct (map (\<lambda>l. (jl_instance l, jl_external l)) (sy_journal st)) \<and>
     distinct (map (\<lambda>l. (jl_instance l, jl_kind l, jl_xms l)) (sy_journal st)) \<and>
     distinct (map (\<lambda>l. (fl_instance l, fl_external l)) (sy_files st))"

definition quiet :: "sync_state \<Rightarrow> sync_state \<Rightarrow> bool" where
  "quiet st st' \<longleftrightarrow> sy_inbox st' = sy_inbox st \<and> sy_letters st' = sy_letters st \<and> sy_outbound st' = sy_outbound st \<and>
     (links_ok st \<longrightarrow> links_ok st')"

named_theorems quiet_intros

lemma quiet_refl [quiet_intros, simp]: "quiet st st"
  by (simp add: quiet_def)

lemma quiet_trans: "quiet st st1 \<Longrightarrow> quiet st1 st2 \<Longrightarrow> quiet st st2"
  by (simp add: quiet_def)

lemma quiet_insert_run [quiet_intros]: "quiet st st' \<Longrightarrow> quiet st (insert_run r st')"
  by (simp add: quiet_def insert_run_def links_ok_def)

lemma quiet_audit [quiet_intros]: "quiet st st' \<Longrightarrow> quiet st (audit_sync e st')"
  by (simp add: quiet_def audit_sync_def links_ok_def)

lemma quiet_touch_instance [quiet_intros]: "quiet st st' \<Longrightarrow> quiet st (touch_instance i f st')"
  by (simp add: quiet_def touch_instance_def links_ok_def)

lemma quiet_touch_link [quiet_intros]:
  assumes "quiet st st'" "\<And>l. ln_id (f l) = ln_id l \<and> ln_instance (f l) = ln_instance l \<and> ln_ticket (f l) = ln_ticket l \<and> ln_sys (f l) = ln_sys l"
  shows "quiet st (touch_link i f st')"
proof -
  have "map (g \<circ> (\<lambda>l. if ln_id l = i then f l else l)) ls = map g ls" if "\<And>l. g (f l) = g l" for g :: "link_row \<Rightarrow> 'a" and ls
    using that by auto
  note keep = this
  have "links_ok (touch_link i f st') \<longleftrightarrow> links_ok st'"
    unfolding links_ok_def touch_link_def
    by (simp add: keep assms(2))
  with assms(1) show ?thesis by (simp add: quiet_def touch_link_def)
qed

lemma quiet_journal_link [quiet_intros]: "quiet st st' \<Longrightarrow> quiet st (insert_journal_link l st')"
  by (auto simp: quiet_def insert_journal_link_def links_ok_def journal_linked_def message_linked_def)

lemma quiet_file_link [quiet_intros]: "quiet st st' \<Longrightarrow> quiet st (insert_file_link l st')"
  by (auto simp: quiet_def insert_file_link_def links_ok_def file_linked_def split: option.splits)

lemma quiet_new_link:
  assumes "link_by_ticket st i ticket = None" "link_by_external st i sys = None"
  shows "quiet st (st\<lparr>sy_links := sy_links st @ [new_link st i ticket sys number updated now]\<rparr>)"
  using assms
  by (auto simp: quiet_def links_ok_def new_link_def link_by_ticket_def link_by_external_def find_None_iff)

subsection \<open>The handler of an inbox row\<close>

lemma create_from_quiet:
  assumes "create_from ev now i sm r number patch w = Inr (t, l, st', d')"
  shows "quiet (fst w) st'"
  using assms quiet_new_link
  by (auto simp: create_from_def and_then_Inr Let_def split: prod.splits)

lemma note_conflict_quiet: "quiet st (note_conflict i row l ticket skipped patch now st)"
  by (auto simp: note_conflict_def intro!: quiet_intros)

lemma patch_linked_quiet:
  assumes "patch_linked ev now i ents row l patch w = Inr (t, li, st', d')"
  shows "quiet (fst w) st'"
  using assms note_conflict_quiet
  by (auto simp: patch_linked_def and_then_Inr Let_def split: prod.splits if_splits)

lemma take_entry_quiet:
  assumes "take_entry ev i ticket e w = Inr w'"
  shows "quiet (fst w) (fst w')"
  using assms
  by (auto simp: take_entry_def and_then_Inr split: option.splits if_splits prod.splits intro!: quiet_intros)

lemma take_entries_quiet:
  "take_entries ev i ticket es w = Inr w' \<Longrightarrow> quiet (fst w) (fst w')"
  by (induction es arbitrary: w) (auto simp: and_then_Inr dest!: take_entry_quiet intro: quiet_trans)

lemma take_file_quiet:
  assumes "take_file ev i t f w = Inr w'"
  shows "quiet (fst w) (fst w')"
  using assms
  by (auto simp: take_file_def and_then_Inr Let_def split: if_splits prod.splits intro!: quiet_intros)

lemma take_files_quiet:
  "take_files ev i t fs w = Inr w' \<Longrightarrow> quiet (fst w) (fst w')"
  by (induction fs arbitrary: w) (auto simp: and_then_Inr dest!: take_file_quiet intro: quiet_trans)

text \<open>A settled row: the inbox differs in that row only, and nothing else of the queues moved.\<close>

definition settles_to :: "nat \<Rightarrow> inbox_outcome \<Rightarrow> sync_state \<Rightarrow> sync_state \<Rightarrow> bool" where
  "settles_to n out st st' \<longleftrightarrow>
     sy_inbox st' = map (\<lambda>x. if ix_id x = n then x\<lparr>ix_outcome := Some out, ix_error := None\<rparr> else x) (sy_inbox st) \<and>
     sy_letters st' = sy_letters st \<and> sy_outbound st' = sy_outbound st \<and> (links_ok st \<longrightarrow> links_ok st')"

lemma settle_inbox_settles: "quiet st st1 \<Longrightarrow> settles_to n out st (settle_inbox n out None st1)"
  by (auto simp: settles_to_def quiet_def settle_inbox_def touch_inbox_def links_ok_def)

lemma settles_insert_run: "settles_to n out st st' \<Longrightarrow> settles_to n out st (insert_run r st')"
  by (auto simp: settles_to_def insert_run_def links_ok_def)

lemma settles_audit: "settles_to n out st st' \<Longrightarrow> settles_to n out st (audit_sync e st')"
  by (auto simp: settles_to_def audit_sync_def links_ok_def)

lemma finish_apply_settles:
  assumes "quiet st st1"
  shows "settles_to (ix_id row) Inbox_applied st (finish_apply ev now i row l t st1)"
  unfolding finish_apply_def Let_def
  by (intro settles_audit settles_insert_run settle_inbox_settles quiet_intros assms) simp

lemma apply_record_settles:
  assumes "apply_record ev now i row w = Inr (res, st', d')"
  shows "\<exists>out. out \<noteq> Inbox_failed \<and> settles_to (ix_id row) out (fst w) st'"
proof -
  have applied: "settles_to (ix_id row) Inbox_applied (fst w) (finish_apply ev now i row li t2 (fst w4))"
    if "quiet (fst w) st1" "take_entries ev i x journal (st1, d2) = Inr w3" "take_files ev i t2 files w3 = Inr w4"
    for li t2 st1 d2 x journal w3 files w4
    using that take_entries_quiet [OF that(2)] take_files_quiet [OF that(3)]
    by (intro finish_apply_settles) (auto intro: quiet_trans)
  show ?thesis
  proof (cases "link_by_external (fst w) (in_id i) (sr_sys (ix_record row))")
    case None
    with assms show ?thesis
      by (auto simp: apply_record_def and_then_Inr Let_def split: prod.splits intro!: exI [of _ Inbox_applied] dest!: create_from_quiet)
        (metis applied fst_conv)
  next
    case (Some l)
    show ?thesis
    proof (cases "st' = insert_run (in_run i row (Some (ln_ticket l)) 1 Run_reflection None None now) (settle_inbox (ix_id row) Inbox_reflection None (fst w))")
      case True
      then show ?thesis using settles_insert_run settle_inbox_settles [OF quiet_refl] by (metis inbox_outcome.distinct(5))
    next
      case False
      with Some assms show ?thesis
        by (auto simp: apply_record_def and_then_Inr Let_def split: prod.splits if_splits intro!: exI [of _ Inbox_applied] dest!: patch_linked_quiet)
          (metis applied fst_conv)
    qed
  qed
qed

subsection \<open>The queues\<close>

definition lettered :: "sync_state \<Rightarrow> letter_queue \<Rightarrow> nat \<Rightarrow> bool" where
  "lettered st q n \<longleftrightarrow> (\<exists>l\<in>set (sy_letters st). sl_queue l = q \<and> sl_row l = n)"

definition open_inbox_letters :: "sync_letter list \<Rightarrow> nat list" where
  "open_inbox_letters ls = map sl_row (filter (\<lambda>l. sl_queue l = Inbox_letter \<and> sl_open l) ls)"

definition inbox_ok :: "sync_state \<Rightarrow> bool" where
  "inbox_ok st \<longleftrightarrow>
     map ix_id (sy_inbox st) = [0..<length (sy_inbox st)] \<and>
     distinct (map (\<lambda>x. (ix_instance x, ix_external x, ix_version x)) (sy_inbox st)) \<and>
     (\<forall>x\<in>set (sy_inbox st). ix_attempts x \<le> max_inbox_attempts \<and> (ix_outcome x = None \<longrightarrow> ix_attempts x < max_inbox_attempts) \<and>
        (ix_outcome x = Some Inbox_failed \<longrightarrow> lettered st Inbox_letter (ix_id x)) \<and>
        (ix_id x \<in> set (open_inbox_letters (sy_letters st)) \<longrightarrow> ix_outcome x = Some Inbox_failed))"

definition outbound_ok :: "sync_state \<Rightarrow> bool" where
  "outbound_ok st \<longleftrightarrow>
     map og_id (sy_outbound st) = [0..<length (sy_outbound st)] \<and>
     distinct (map (\<lambda>x. (og_instance x, og_outbox x)) (sy_outbound st)) \<and>
     (\<forall>x\<in>set (sy_outbound st). og_attempts x \<le> max_outbound_attempts \<and> (og_status x = Ob_pending \<longrightarrow> og_attempts x < max_outbound_attempts) \<and>
        (og_status x = Ob_dead_lettered \<longrightarrow> lettered st Outbound_letter (og_id x)) \<and>
        og_origin x \<noteq> Some (sync_origin (og_instance x)) \<and> is_outbound_event (og_event x))"

definition letters_ok :: "sync_state \<Rightarrow> bool" where
  "letters_ok st \<longleftrightarrow> distinct (open_inbox_letters (sy_letters st)) \<and>
     (\<forall>l\<in>set (sy_letters st). (sl_queue l = Inbox_letter \<longrightarrow> sl_row l < length (sy_inbox st)) \<and>
        (sl_queue l = Outbound_letter \<longrightarrow> sl_row l < length (sy_outbound st)))"

definition queues_ok :: "sync_state \<Rightarrow> bool" where
  "queues_ok st \<longleftrightarrow> inbox_ok st \<and> outbound_ok st \<and> letters_ok st \<and> links_ok st"

lemma queues_quiet: "queues_ok st \<Longrightarrow> quiet st st' \<Longrightarrow> queues_ok st'"
  by (auto simp: queues_ok_def quiet_def inbox_ok_def outbound_ok_def letters_ok_def lettered_def)

lemma row_by_id:
  assumes "map f xs = [0..<length xs]" "x \<in> set xs" "y \<in> set xs" "f x = f y"
  shows "x = y"
proof -
  have "distinct (map f xs)" by (simp add: assms(1))
  with assms(2-4) show ?thesis by (auto simp: distinct_map dest: inj_onD)
qed

lemma map_kept: "(\<And>x. g (h x) = g x) \<Longrightarrow> map (g \<circ> (\<lambda>x. if P x then h x else x)) xs = map g xs"
  by (auto simp: comp_def)

lemma open_letters_append [simp]:
  "open_inbox_letters (ls @ [l]) = open_inbox_letters ls @ (if sl_queue l = Inbox_letter \<and> sl_open l then [sl_row l] else [])"
  by (simp add: open_inbox_letters_def)

text \<open>One row of the inbox changes, with a letter when it ends failed.\<close>

lemma inbox_row_changes:
  assumes ok: "queues_ok st" and row: "row \<in> set (sy_inbox st)" "ix_outcome row = None"
    and inbox: "sy_inbox st' = map (\<lambda>x. if ix_id x = ix_id row then f x else x) (sy_inbox st)"
    and keeps: "\<And>x. ix_id (f x) = ix_id x \<and> ix_instance (f x) = ix_instance x \<and> ix_external (f x) = ix_external x \<and> ix_version (f x) = ix_version x"
    and new: "ix_attempts (f row) \<le> max_inbox_attempts" "ix_outcome (f row) = None \<longrightarrow> ix_attempts (f row) < max_inbox_attempts"
    and letters: "sy_letters st' = sy_letters st @ (if ix_outcome (f row) = Some Inbox_failed then [l] else [])"
    and letter: "sl_queue l = Inbox_letter" "sl_row l = ix_id row"
    and rest: "sy_outbound st' = sy_outbound st" "links_ok st \<longrightarrow> links_ok st'"
  shows "queues_ok st'"
proof -
  from ok have i: "map ix_id (sy_inbox st) = [0..<length (sy_inbox st)]"
      "distinct (map (\<lambda>x. (ix_instance x, ix_external x, ix_version x)) (sy_inbox st))"
      "\<forall>x\<in>set (sy_inbox st). ix_attempts x \<le> max_inbox_attempts \<and> (ix_outcome x = None \<longrightarrow> ix_attempts x < max_inbox_attempts) \<and>
        (ix_outcome x = Some Inbox_failed \<longrightarrow> lettered st Inbox_letter (ix_id x)) \<and>
        (ix_id x \<in> set (open_inbox_letters (sy_letters st)) \<longrightarrow> ix_outcome x = Some Inbox_failed)"
    by (simp_all add: queues_ok_def inbox_ok_def)
  have clear: "ix_id row \<notin> set (open_inbox_letters (sy_letters st))" using i(3) row by force
  have grown: "lettered st q n \<Longrightarrow> lettered st' q n" for q n using letters by (auto simp: lettered_def)
  have in_range: "ix_id row < length (sy_inbox st)" using arg_cong [OF i(1), of set] row(1) by force
  have keys: "map ix_id (sy_inbox st') = map ix_id (sy_inbox st)"
    "map (\<lambda>x. (ix_instance x, ix_external x, ix_version x)) (sy_inbox st') = map (\<lambda>x. (ix_instance x, ix_external x, ix_version x)) (sy_inbox st)"
    "length (sy_inbox st') = length (sy_inbox st)"
    unfolding inbox using keeps by (auto simp: comp_def)
  have opened: "set (open_inbox_letters (sy_letters st')) \<subseteq> set (open_inbox_letters (sy_letters st)) \<union>
      (if ix_outcome (f row) = Some Inbox_failed then {ix_id row} else {})"
    using letters letter by auto
  have "ix_attempts y \<le> max_inbox_attempts \<and> (ix_outcome y = None \<longrightarrow> ix_attempts y < max_inbox_attempts) \<and>
      (ix_outcome y = Some Inbox_failed \<longrightarrow> lettered st' Inbox_letter (ix_id y)) \<and>
      (ix_id y \<in> set (open_inbox_letters (sy_letters st')) \<longrightarrow> ix_outcome y = Some Inbox_failed)" if "y \<in> set (sy_inbox st')" for y
  proof -
    from that inbox obtain x where x: "x \<in> set (sy_inbox st)" "y = (if ix_id x = ix_id row then f x else x)" by auto
    show ?thesis
    proof (cases "ix_id x = ix_id row")
      case True
      with x row i(1) have "x = row" by (auto intro: row_by_id)
      moreover have "ix_outcome (f row) = Some Inbox_failed \<Longrightarrow> lettered st' Inbox_letter (ix_id row)"
        using letters letter by (auto simp: lettered_def)
      ultimately show ?thesis using x(2) new clear keeps opened by (auto split: if_splits)
    next
      case False
      with x i(3) grown opened show ?thesis by (auto split: if_splits)
    qed
  qed
  then have "inbox_ok st'" using i(1,2) keys by (simp add: inbox_ok_def)
  moreover have "outbound_ok st'" using ok rest(1) grown by (auto simp: queues_ok_def outbound_ok_def)
  moreover have "letters_ok st'"
    using ok keys(3) rest(1) letters letter in_range clear by (auto simp: queues_ok_def letters_ok_def)
  moreover have "links_ok st'" using ok rest(2) by (simp add: queues_ok_def)
  ultimately show ?thesis by (simp add: queues_ok_def)
qed

lemma outbound_row_changes:
  assumes ok: "queues_ok st" and row: "row \<in> set (sy_outbound st)"
    and outbound: "sy_outbound st' = map (\<lambda>x. if og_id x = og_id row then f x else x) (sy_outbound st)"
    and keeps: "\<And>x. og_id (f x) = og_id x \<and> og_instance (f x) = og_instance x \<and> og_outbox (f x) = og_outbox x \<and> og_origin (f x) = og_origin x \<and>
       og_event (f x) = og_event x"
    and new: "og_attempts (f row) \<le> max_outbound_attempts" "og_status (f row) = Ob_pending \<longrightarrow> og_attempts (f row) < max_outbound_attempts"
    and letters: "sy_letters st' = sy_letters st @ (if og_status (f row) = Ob_dead_lettered then [l] else [])"
    and letter: "sl_queue l = Outbound_letter" "sl_row l = og_id row"
    and rest: "sy_inbox st' = sy_inbox st" "links_ok st \<longrightarrow> links_ok st'"
  shows "queues_ok st'"
proof -
  from ok have i: "map og_id (sy_outbound st) = [0..<length (sy_outbound st)]"
      "distinct (map (\<lambda>x. (og_instance x, og_outbox x)) (sy_outbound st))"
      "\<forall>x\<in>set (sy_outbound st). og_attempts x \<le> max_outbound_attempts \<and> (og_status x = Ob_pending \<longrightarrow> og_attempts x < max_outbound_attempts) \<and>
        (og_status x = Ob_dead_lettered \<longrightarrow> lettered st Outbound_letter (og_id x)) \<and>
        og_origin x \<noteq> Some (sync_origin (og_instance x)) \<and> is_outbound_event (og_event x)"
    by (simp_all add: queues_ok_def outbound_ok_def)
  have grown: "lettered st q n \<Longrightarrow> lettered st' q n" for q n using letters by (auto simp: lettered_def)
  have opened: "open_inbox_letters (sy_letters st') = open_inbox_letters (sy_letters st)" using letters letter by simp
  have in_range: "og_id row < length (sy_outbound st)" using arg_cong [OF i(1), of set] row(1) by force
  have keys: "map og_id (sy_outbound st') = map og_id (sy_outbound st)"
    "map (\<lambda>x. (og_instance x, og_outbox x)) (sy_outbound st') = map (\<lambda>x. (og_instance x, og_outbox x)) (sy_outbound st)"
    "length (sy_outbound st') = length (sy_outbound st)"
    unfolding outbound using keeps by (auto simp: comp_def)
  have "og_attempts y \<le> max_outbound_attempts \<and> (og_status y = Ob_pending \<longrightarrow> og_attempts y < max_outbound_attempts) \<and>
      (og_status y = Ob_dead_lettered \<longrightarrow> lettered st' Outbound_letter (og_id y)) \<and>
      og_origin y \<noteq> Some (sync_origin (og_instance y)) \<and> is_outbound_event (og_event y)" if "y \<in> set (sy_outbound st')" for y
  proof -
    from that outbound obtain x where x: "x \<in> set (sy_outbound st)" "y = (if og_id x = og_id row then f x else x)" by auto
    show ?thesis
    proof (cases "og_id x = og_id row")
      case True
      with x row i(1) have "x = row" by (auto intro: row_by_id)
      moreover have "og_status (f row) = Ob_dead_lettered \<Longrightarrow> lettered st' Outbound_letter (og_id row)"
        using letters letter by (auto simp: lettered_def)
      ultimately show ?thesis using x(2) new keeps i(3) row by simp
    next
      case False
      with x i(3) grown show ?thesis by simp
    qed
  qed
  then have "outbound_ok st'" using i(1,2) keys by (simp add: outbound_ok_def)
  moreover have "inbox_ok st'" using ok rest(1) grown opened by (auto simp: queues_ok_def inbox_ok_def)
  moreover have "letters_ok st'"
    using ok keys(3) rest(1) letters letter in_range opened by (auto simp: queues_ok_def letters_ok_def)
  moreover have "links_ok st'" using ok rest(2) by (simp add: queues_ok_def)
  ultimately show ?thesis by (simp add: queues_ok_def)
qed

subsection \<open>Applying\<close>

lemma links_ok_untouched [simp]:
  "links_ok (st\<lparr>sy_inbox := a\<rparr>) = links_ok st" "links_ok (st\<lparr>sy_letters := b\<rparr>) = links_ok st" "links_ok (st\<lparr>sy_outbound := c\<rparr>) = links_ok st"
  "links_ok (st\<lparr>sy_runs := e\<rparr>) = links_ok st" "links_ok (st\<lparr>sy_instances := g\<rparr>) = links_ok st" "links_ok (st\<lparr>sy_audit := h\<rparr>) = links_ok st"
  by (simp_all add: links_ok_def)

lemmas table_defs = insert_run_def touch_instance_def settle_inbox_def retry_inbox_def touch_inbox_def insert_letter_def audit_sync_def
  settle_outbound_def

lemma retried_attempts:
  assumes "inbox_ok st" "row \<in> set (sy_inbox st)"
  shows "(case find (\<lambda>x. ix_id x = ix_id row) (sy_inbox (retry_inbox (ix_id row) e st)) of None \<Rightarrow> 0 | Some x \<Rightarrow> ix_attempts x) = ix_attempts row + 1"
proof -
  let ?ys = "sy_inbox (retry_inbox (ix_id row) e st)"
  have "row\<lparr>ix_attempts := ix_attempts row + 1, ix_error := Some e\<rparr> \<in> set ?ys"
    using assms(2) by (auto simp: retry_inbox_def touch_inbox_def intro!: image_eqI [of _ _ row])
  then have "\<exists>y\<in>set ?ys. ix_id y = ix_id row" by (rule rev_bexI) simp
  then have "find (\<lambda>x. ix_id x = ix_id row) ?ys \<noteq> None" by (auto simp: find_None_iff)
  then obtain y where y: "find (\<lambda>x. ix_id x = ix_id row) ?ys = Some y" by blast
  then have "y \<in> set ?ys" "ix_id y = ix_id row" by (auto simp: find_Some_iff)
  then obtain x where "x \<in> set (sy_inbox st)" "y = x\<lparr>ix_attempts := ix_attempts x + 1, ix_error := Some e\<rparr>" "ix_id x = ix_id row"
    by (auto simp: retry_inbox_def touch_inbox_def split: if_splits)
  moreover from this have "x = row" using assms row_by_id [of ix_id "sy_inbox st" x row] by (simp add: inbox_ok_def)
  ultimately show ?thesis using y by simp
qed

lemma apply_fault_keeps:
  assumes ok: "queues_ok st" and row: "row \<in> set (sy_inbox st)" "ix_outcome row = None"
  shows "queues_ok (snd (apply_fault now i row e st))"
proof -
  let ?n = "ix_attempts row + 1"
  from ok row have few: "ix_attempts row < max_inbox_attempts" by (simp add: queues_ok_def inbox_ok_def)
  have attempts: "(case find (\<lambda>x. ix_id x = ix_id row) (sy_inbox (retry_inbox (ix_id row) e st)) of None \<Rightarrow> 0 | Some x \<Rightarrow> ix_attempts x) = ?n"
    using ok row(1) by (intro retried_attempts) (simp_all add: queues_ok_def)
  show ?thesis
  proof (cases "is_refusal e \<or> max_inbox_attempts \<le> ?n")
    case True
    then show ?thesis
      unfolding apply_fault_def Let_def attempts
      by (simp del: One_nat_def)
        (rule inbox_row_changes [OF ok row, where f = "\<lambda>x. x\<lparr>ix_attempts := ix_attempts x + 1, ix_outcome := Some Inbox_failed, ix_error := Some e\<rparr>"
          and l = "\<lparr>sl_queue = Inbox_letter, sl_instance = in_id i, sl_row = ix_id row, sl_error = e, sl_attempts = ?n, sl_open = True\<rparr>"];
         use few in \<open>simp add: table_defs comp_def\<close>)
  next
    case False
    then show ?thesis
      unfolding apply_fault_def Let_def attempts
      by (simp del: One_nat_def)
        (rule inbox_row_changes [OF ok row, where f = "\<lambda>x. x\<lparr>ix_attempts := ix_attempts x + 1, ix_error := Some e\<rparr>"
          and l = "\<lparr>sl_queue = Inbox_letter, sl_instance = in_id i, sl_row = ix_id row, sl_error = e, sl_attempts = ?n, sl_open = True\<rparr>"];
         use few row in \<open>simp add: table_defs comp_def\<close>)
  qed
qed

lemma apply_fault_others:
  "x \<in> set (sy_inbox st) \<Longrightarrow> ix_id x \<noteq> ix_id row \<Longrightarrow> x \<in> set (sy_inbox (snd (apply_fault now i row e st)))"
  by (auto simp: apply_fault_def Let_def table_defs image_iff)

lemma apply_one_keeps:
  assumes ok: "queues_ok (fst w)" and row: "row \<in> set (sy_inbox (fst w))" "ix_outcome row = None"
  shows "queues_ok (fst (apply_row ev now i row w)) \<and>
    (\<forall>x\<in>set (sy_inbox (fst w)). ix_id x \<noteq> ix_id row \<longrightarrow> x \<in> set (sy_inbox (fst (apply_row ev now i row w))))"
proof -
  let ?r = "case instance_by_id (fst w) (in_id i) of None \<Rightarrow> Inl (Refused ''connector_instance'')
    | Some fresh \<Rightarrow> if in_mode fresh = Mode_off \<or> in_tripped fresh then Inr (Apply_retry, w) else apply_record ev now fresh row w"
  show ?thesis
  proof (cases ?r)
    case (Inl e)
    then have "fst (apply_row ev now i row w) = snd (apply_fault now i row e (fst w))"
      by (simp add: apply_row_def apply_one_def case_prod_beta)
    with apply_fault_keeps [OF ok row] apply_fault_others [of _ "fst w"] show ?thesis by metis
  next
    case (Inr q)
    then obtain res st' d' where q: "q = (res, st', d')" by (cases q)
    with Inr have run: "fst (apply_row ev now i row w) = st'" by (simp add: apply_row_def apply_one_def)
    show ?thesis
    proof (cases "st' = fst w")
      case True
      with run ok show ?thesis by simp
    next
      case False
      with Inr q obtain fresh where "apply_record ev now fresh row w = Inr (res, st', d')"
        by (auto split: option.splits if_splits)
      from apply_record_settles [OF this] obtain out where out: "out \<noteq> Inbox_failed" "settles_to (ix_id row) out (fst w) st'" by blast
      from ok row have few: "ix_attempts row < max_inbox_attempts" by (simp add: queues_ok_def inbox_ok_def)
      have "queues_ok st'"
        by (rule inbox_row_changes [OF ok row, where f = "\<lambda>x. x\<lparr>ix_outcome := Some out, ix_error := None\<rparr>"
            and l = "\<lparr>sl_queue = Inbox_letter, sl_instance = [], sl_row = ix_id row, sl_error = Thrown [], sl_attempts = 0, sl_open = True\<rparr>"])
          (use out few in \<open>simp_all add: settles_to_def\<close>)
      moreover from out(2) have "\<forall>x\<in>set (sy_inbox (fst w)). ix_id x \<noteq> ix_id row \<longrightarrow> x \<in> set (sy_inbox st')"
        by (auto simp: settles_to_def image_iff)
      ultimately show ?thesis unfolding run by blast
    qed
  qed
qed

lemma apply_rows_keep:
  assumes "queues_ok (fst w)" "\<forall>x\<in>set xs. x \<in> set (sy_inbox (fst w)) \<and> ix_outcome x = None" "distinct (map ix_id xs)"
  shows "queues_ok (fst (fold (apply_row ev now i) xs w))"
  using assms
proof (induction xs arbitrary: w)
  case (Cons x xs)
  from Cons.prems have x: "x \<in> set (sy_inbox (fst w))" "ix_outcome x = None" by auto
  note step = apply_one_keeps [OF Cons.prems(1) x, of ev now i]
  have "\<forall>y\<in>set xs. ix_id y \<noteq> ix_id x" using Cons.prems(3) by (auto simp: image_iff)
  with step Cons.prems show ?case by (simp add: Cons.IH)
qed simp

lemma pending_inbox_rows:
  assumes "inbox_ok st"
  shows "\<forall>x\<in>set (pending_inbox st i). x \<in> set (sy_inbox st) \<and> ix_outcome x = None" "distinct (map ix_id (pending_inbox st i))"
proof -
  show "\<forall>x\<in>set (pending_inbox st i). x \<in> set (sy_inbox st) \<and> ix_outcome x = None"
    by (auto simp: pending_inbox_def dest: in_set_takeD)
  have "distinct (map ix_id (sy_inbox st))" using assms by (simp add: inbox_ok_def)
  then show "distinct (map ix_id (pending_inbox st i))"
    unfolding pending_inbox_def take_map [symmetric] by (intro distinct_take) (rule distinct_map_filter)
qed

lemma apply_instance_keeps: "queues_ok (fst w) \<Longrightarrow> queues_ok (fst (apply_instance ev now i w))"
  using pending_inbox_rows [of "fst w" "in_id i"] apply_rows_keep [of w "pending_inbox (fst w) (in_id i)" ev now i]
  by (simp add: apply_instance_def queues_ok_def)

lemma fold_keeps: "(\<And>x s. P s \<Longrightarrow> P (f x s)) \<Longrightarrow> P s \<Longrightarrow> P (fold f xs s)"
  by (induction xs arbitrary: s) auto

lemma apply_pending_keeps: "queues_ok (fst w) \<Longrightarrow> queues_ok (fst (apply_pending ev now w))"
  unfolding apply_pending_def by (rule fold_keeps [where P = "\<lambda>w. queues_ok (fst w)"]) (auto intro: apply_instance_keeps)

subsection \<open>Polling, queueing, health\<close>

lemma quiet_keeps: "queues_ok st \<Longrightarrow> quiet st (f st) \<Longrightarrow> queues_ok (f st)"
  by (rule queues_quiet)

lemma insert_inbox_keeps:
  assumes "queues_ok st"
  shows "queues_ok (insert_inbox i r js fs st)"
proof (cases "in_inbox st (in_id i) (sr_sys r) (sr_updated r)")
  case False
  with assms show ?thesis
    by (auto simp: insert_inbox_def queues_ok_def inbox_ok_def outbound_ok_def letters_ok_def lettered_def open_inbox_letters_def in_inbox_def
        max_inbox_attempts_def less_Suc_eq)
qed (use assms in \<open>simp add: insert_inbox_def\<close>)

lemma store_page_keeps: "queues_ok st \<Longrightarrow> queues_ok (snd (store_page sn i rs st))"
  by (induction rs arbitrary: st) (auto split: sum.splits intro: insert_inbox_keeps)

lemma poll_one_keeps:
  assumes "queues_ok st"
  shows "queues_ok (poll_one ev now i st)"
proof -
  have "queues_ok (poll_failed i e now st1)" "queues_ok (poll_succeeded ev i rs now st1)" if "queues_ok st1" for e rs st1
    unfolding poll_failed_def poll_succeeded_def by (rule queues_quiet [OF that], intro quiet_intros)+
  with assms store_page_keeps [OF assms] show ?thesis
    by (auto simp: poll_one_def Let_def split: sum.splits option.splits prod.splits) (metis snd_conv)+
qed

lemma poll_due_keeps: "queues_ok st \<Longrightarrow> queues_ok (poll_due ev now st)"
  unfolding poll_due_def poll_account_def by (intro fold_keeps [where P = queues_ok]) (auto intro: poll_one_keeps fold_keeps [where P = queues_ok])

lemma insert_outbound_keeps:
  assumes "queues_ok st" "og_status r = Ob_pending" "og_attempts r = 0" "og_origin r \<noteq> Some (sync_origin (og_instance r))" "is_outbound_event (og_event r)"
  shows "queues_ok (insert_outbound r st)"
proof (cases "\<exists>q\<in>set (sy_outbound st). og_instance q = og_instance r \<and> og_outbox q = og_outbox r")
  case False
  with assms show ?thesis
    by (auto simp: insert_outbound_def queues_ok_def inbox_ok_def outbound_ok_def letters_ok_def lettered_def max_outbound_attempts_def less_Suc_eq)
qed (use assms(1) in \<open>simp add: insert_outbound_def\<close>)

lemma enqueue_for_keeps:
  assumes "queues_ok st" "is_outbound_event (cg_event c)"
  shows "queues_ok (enqueue_for num now c i st)"
proof -
  have run: "queues_ok (insert_run r st)" for r by (rule queues_quiet [OF assms(1)]) (intro quiet_intros)
  show ?thesis
  proof (cases "cg_origin c = Some (sync_origin (in_id i))")
    case True
    with run show ?thesis by (simp add: enqueue_for_def decide_enqueue_def)
  next
    case False
    then have "queues_ok (insert_outbound (new_outbound i c now) st)"
      using assms by (intro insert_outbound_keeps) (simp_all add: new_outbound_def)
    with run assms(1) show ?thesis by (auto simp: enqueue_for_def Let_def split: sum.splits enqueue_refusal.splits)
  qed
qed

lemma on_change_keeps: "queues_ok st \<Longrightarrow> queues_ok (on_change num now c st)"
  by (auto simp: on_change_def intro!: fold_keeps [where P = queues_ok] enqueue_for_keeps)

lemma health_of_keeps: "queues_ok st \<Longrightarrow> queues_ok (health_of now i st)"
  by (rule queues_quiet, assumption) (auto simp: health_of_def Let_def trip_def intro!: quiet_intros)

lemma recompute_health_keeps: "queues_ok st \<Longrightarrow> queues_ok (recompute_health now st)"
  unfolding recompute_health_def health_account_def
  by (intro fold_keeps [where P = queues_ok]) (auto intro: health_of_keeps fold_keeps [where P = queues_ok])

subsection \<open>Delivering\<close>

text \<open>Which instances may be written to is not changed by a delivery.\<close>

definition switches :: "sync_state \<Rightarrow> (string \<times> sync_mode \<times> bool) list" where
  "switches st = map (\<lambda>i. (in_id i, in_mode i, in_tripped i)) (sy_instances st)"

definition write_instance :: "snow_write \<Rightarrow> string" where
  "write_instance x = (case x of Wrote_update i s b \<Rightarrow> i | Wrote_journal i s e m \<Rightarrow> i | Wrote_file i s m \<Rightarrow> i)"

definition outbound_settles :: "outbound_row \<Rightarrow> sync_state \<Rightarrow> sync_state \<Rightarrow> bool" where
  "outbound_settles row st st' \<longleftrightarrow>
     sy_inbox st' = sy_inbox st \<and> sy_letters st' = sy_letters st \<and> (links_ok st \<longrightarrow> links_ok st') \<and> switches st' = switches st \<and>
     (\<exists>f. (\<forall>x. og_id (f x) = og_id x \<and> og_instance (f x) = og_instance x \<and> og_outbox (f x) = og_outbox x \<and> og_origin (f x) = og_origin x \<and>
             og_event (f x) = og_event x \<and> og_attempts (f x) = og_attempts row + 1 \<and> og_status (f x) \<in> {Ob_sent, Ob_skipped}) \<and>
        sy_outbound st' = map (\<lambda>x. if og_id x = og_id row then f x else x) (sy_outbound st))"

text \<open>The writes of a push are added at the end, all to the one instance.\<close>

definition grown :: "string \<Rightarrow> snow_write list \<Rightarrow> snow_write list \<Rightarrow> bool" where
  "grown i ws ws' \<longleftrightarrow> (\<exists>new. ws' = ws @ new \<and> write_instance ` set new \<subseteq> {i})"

lemma grown_refl [simp]: "grown i ws ws"
  by (simp add: grown_def)

lemma grown_one: "write_instance x = i \<Longrightarrow> grown i ws (ws @ [x])"
  by (simp add: grown_def)

definition push_ok :: "string \<Rightarrow> outbound_row \<Rightarrow> sync_state \<Rightarrow> snow_write list \<Rightarrow> pushed \<Rightarrow> bool" where
  "push_ok i row st ws res \<longleftrightarrow> grown i ws (snd res) \<and>
     (case fst res of Inl e \<Rightarrow> True | Inr q \<Rightarrow> outbound_settles row st (snd q))"

definition calm :: "sync_state \<Rightarrow> sync_state \<Rightarrow> bool" where
  "calm st st' \<longleftrightarrow> quiet st st' \<and> switches st' = switches st"

lemma calm_refl [simp]: "calm st st"
  by (simp add: calm_def)

lemma switches_kept [simp]:
  "switches (insert_run r st) = switches st" "switches (audit_sync e st) = switches st" "switches (touch_link l g st) = switches st"
  "switches (insert_journal_link j st) = switches st" "switches (insert_file_link k st) = switches st" "switches (insert_letter m st) = switches st"
  "switches (settle_outbound n h st) = switches st"
  by (simp_all add: switches_def insert_run_def audit_sync_def touch_link_def insert_journal_link_def insert_file_link_def insert_letter_def
      settle_outbound_def)

lemma switches_touch:
  "(\<And>r. in_id (f r) = in_id r \<and> in_mode (f r) = in_mode r \<and> in_tripped (f r) = in_tripped r) \<Longrightarrow> switches (touch_instance i f st) = switches st"
  by (auto simp: switches_def touch_instance_def)

lemma settle_skip_settles: "calm st st1 \<Longrightarrow> outbound_settles row st (settle_skip now i row out c st1)"
  unfolding outbound_settles_def settle_skip_def
  by (auto simp: calm_def quiet_def table_defs links_ok_def switches_def
      intro!: exI [of _ "\<lambda>x. x\<lparr>og_status := Ob_skipped, og_attempts := og_attempts row + 1, og_conflict := c\<rparr>"])

lemma settle_sent_settles:
  assumes "calm st st1"
  shows "outbound_settles row st (settle_sent now i row t c st1)"
proof -
  have "switches (settle_sent now i row t c st1) = switches st"
    using assms by (simp add: settle_sent_def switches_touch calm_def)
  with assms show ?thesis
    unfolding outbound_settles_def settle_sent_def
    by (auto simp: calm_def quiet_def table_defs links_ok_def
      intro!: exI [of _ "\<lambda>x. x\<lparr>og_status := Ob_sent, og_attempts := og_attempts row + 1, og_error := None, og_conflict := c\<rparr>"])
qed

lemma skip_ok: "calm st st1 \<Longrightarrow> grown j ws ws1 \<Longrightarrow> push_ok j row st ws (skip now i row out c st1 ws1)"
  by (simp add: push_ok_def skip_def settle_skip_settles)

lemma sent_ok: "calm st st1 \<Longrightarrow> grown j ws ws1 \<Longrightarrow>
    push_ok j row st ws (Inr (r, settle_sent now i row t c st1), ws1)"
  by (simp add: push_ok_def settle_sent_settles)

lemma fault_ok: "grown j ws ws1 \<Longrightarrow> push_ok j row st ws (Inl e, ws1)"
  by (simp add: push_ok_def)

lemma calm_echo: "calm st st1 \<Longrightarrow> calm st (echo_guard ev now l ents r st1)"
  by (auto simp: calm_def echo_guard_def Let_def intro!: quiet_intros)

lemma calm_touch_link:
  "calm st st1 \<Longrightarrow> (\<And>l. ln_id (f l) = ln_id l \<and> ln_instance (f l) = ln_instance l \<and> ln_ticket (f l) = ln_ticket l \<and> ln_sys (f l) = ln_sys l) \<Longrightarrow>
     calm st (touch_link i f st1)"
  by (auto simp: calm_def intro!: quiet_intros)

lemma calm_links: "calm st st1 \<Longrightarrow> calm st (insert_journal_link j st1)" "calm st st1 \<Longrightarrow> calm st (insert_file_link k st1)"
  by (auto simp: calm_def intro!: quiet_intros)

lemma create_journal_writes: "create_journal ev i l element m body ws = (r, ws1) \<Longrightarrow> grown (in_id i) ws ws1"
  by (auto simp: create_journal_def Let_def write_instance_def grown_one split: sum.splits option.splits)

lemma push_message_ok: "push_ok (in_id i) row st ws (push_message ev now i row l ents t d st ws)"
  unfolding push_message_def Let_def
  by (simp split: option.splits prod.splits sum.splits)
    (intro conjI impI allI skip_ok sent_ok fault_ok calm_echo calm_links calm_refl grown_refl; erule create_journal_writes)

lemma push_file_ok: "push_ok (in_id i) row st ws (push_file ev now i row l t d st ws)"
  unfolding push_file_def Let_def
  by (simp split: option.splits prod.splits sum.splits)
    (intro conjI impI allI skip_ok sent_ok fault_ok calm_links calm_refl grown_refl; (erule create_journal_writes | rule grown_one, simp add: write_instance_def))

lemma write_update_ok: "calm st st1 \<Longrightarrow> push_ok (in_id i) row st ws (write_update ev now i row l ents t body c st1 ws)"
  unfolding write_update_def
  by (auto split: sum.splits simp: write_instance_def intro!: sent_ok fault_ok calm_echo grown_one)

lemma push_state_ok: "push_ok (in_id i) row st ws (push_state ev now i row l ents sm t st ws)"
  unfolding push_state_def by (auto split: option.splits intro!: skip_ok write_update_ok)

lemma push_changes_ok: "push_ok (in_id i) row st ws (push_changes ev now i row l ents t r changed st ws)"
  unfolding push_changes_def Let_def
  by (auto split: sum.splits prod.splits intro!: skip_ok write_update_ok fault_ok calm_touch_link)

lemma push_push_ok: "push_ok (in_id i) row st ws (push ev now i row d st ws)"
  unfolding push_def Let_def
  by (auto split: option.splits sum.splits prod.splits
      intro!: skip_ok fault_ok calm_touch_link push_message_ok push_file_ok push_state_ok push_changes_ok)

definition blank_letter :: "outbound_row \<Rightarrow> sync_letter" where
  "blank_letter row = \<lparr>sl_queue = Outbound_letter, sl_instance = [], sl_row = og_id row, sl_error = Thrown [], sl_attempts = 0, sl_open = True\<rparr>"

lemma settled_keeps:
  assumes ok: "queues_ok st" and row: "row \<in> set (sy_outbound st)" "og_status row = Ob_pending" and settled: "outbound_settles row st st'"
  shows "queues_ok st' \<and> (\<forall>x\<in>set (sy_outbound st). og_id x \<noteq> og_id row \<longrightarrow> x \<in> set (sy_outbound st'))"
proof -
  from settled obtain f where f: "\<And>x. og_id (f x) = og_id x \<and> og_instance (f x) = og_instance x \<and> og_outbox (f x) = og_outbox x \<and>
        og_origin (f x) = og_origin x \<and> og_event (f x) = og_event x" "\<And>x. og_attempts (f x) = og_attempts row + 1"
      "\<And>x. og_status (f x) = Ob_sent \<or> og_status (f x) = Ob_skipped"
      "sy_outbound st' = map (\<lambda>x. if og_id x = og_id row then f x else x) (sy_outbound st)"
    and rest: "sy_inbox st' = sy_inbox st" "sy_letters st' = sy_letters st" "links_ok st \<longrightarrow> links_ok st'"
    by (auto simp: outbound_settles_def)
  from ok row have few: "og_attempts row < max_outbound_attempts" by (simp add: queues_ok_def outbound_ok_def)
  have status: "og_status (f row) \<noteq> Ob_dead_lettered" "og_status (f row) \<noteq> Ob_pending" using f(3) [of row] by auto
  have "queues_ok st'"
    by (rule outbound_row_changes [OF ok row(1) f(4), where l = "blank_letter row"])
      (use f few rest status in \<open>simp_all add: blank_letter_def\<close>)
  with f(4) show ?thesis by (auto simp: image_iff)
qed

lemma note_credential_keeps [simp]:
  "sy_inbox (note_credential i e st) = sy_inbox st" "sy_outbound (note_credential i e st) = sy_outbound st"
  "sy_letters (note_credential i e st) = sy_letters st" "links_ok (note_credential i e st) = links_ok st"
  "switches (note_credential i e st) = switches st"
  by (simp_all add: note_credential_def switches_touch) (simp_all add: touch_instance_def)

lemma dead_letter_row_keeps:
  assumes ok: "queues_ok st" and row: "row \<in> set (sy_outbound st)" "og_status row = Ob_pending"
  shows "queues_ok (dead_letter_row now i row e (note_credential i e st))"
proof -
  from ok row have few: "og_attempts row < max_outbound_attempts" by (simp add: queues_ok_def outbound_ok_def)
  show ?thesis
    by (rule outbound_row_changes [OF ok row(1),
        where f = "\<lambda>x. x\<lparr>og_status := Ob_dead_lettered, og_attempts := og_attempts row + 1, og_error := Some e\<rparr>"
        and l = "\<lparr>sl_queue = Outbound_letter, sl_instance = in_id i, sl_row = og_id row, sl_error = e, sl_attempts = og_attempts row + 1, sl_open = True\<rparr>"])
      (use few in \<open>simp_all add: dead_letter_row_def table_defs\<close>)
qed

lemma requeue_row_keeps:
  assumes ok: "queues_ok st" and row: "row \<in> set (sy_outbound st)" "og_status row = Ob_pending"
    and few: "og_attempts row + 1 < max_outbound_attempts"
  shows "queues_ok (requeue_row now i row e t (note_credential i e st))"
  by (rule outbound_row_changes [OF ok row(1),
      where f = "\<lambda>x. x\<lparr>og_status := Ob_pending, og_attempts := og_attempts row + 1, og_next := t, og_error := Some e\<rparr>"
      and l = "blank_letter row"])
    (use few in \<open>simp_all add: requeue_row_def table_defs blank_letter_def\<close>)

lemma push_fault_keeps:
  assumes ok: "queues_ok st" and row: "row \<in> set (sy_outbound st)" "og_status row = Ob_pending"
  shows "queues_ok (snd (push_fault now i row e st)) \<and>
    (\<forall>x\<in>set (sy_outbound st). og_id x \<noteq> og_id row \<longrightarrow> x \<in> set (sy_outbound (snd (push_fault now i row e st))))"
proof -
  have "og_attempts row + 1 < max_outbound_attempts" if "(if is_terminal_fault e then None else outbound_next_attempt (og_attempts row + 1) now) = Some t" for t
    using that by (auto simp: outbound_next_attempt_def split: if_splits)
  then have "queues_ok (snd (push_fault now i row e st))"
    using dead_letter_row_keeps [OF ok row] requeue_row_keeps [OF ok row] by (auto simp: push_fault_def split: option.splits if_splits)
  moreover have "x \<in> set (sy_outbound (snd (push_fault now i row e st)))" if "x \<in> set (sy_outbound st)" "og_id x \<noteq> og_id row" for x
    using that by (auto simp: push_fault_def dead_letter_row_def requeue_row_def table_defs image_iff split: option.splits)
  ultimately show ?thesis by blast
qed

lemma push_fault_switches: "switches (snd (push_fault now i row e st)) = switches st"
  by (auto simp: push_fault_def dead_letter_row_def requeue_row_def switches_touch split: option.splits)

lemma deliver_row_keeps:
  assumes ok: "queues_ok (fst w)" and row: "row \<in> set (sy_outbound (fst w))" "og_status row = Ob_pending"
  shows "queues_ok (fst (deliver_row ev now d i row w)) \<and>
    (\<forall>x\<in>set (sy_outbound (fst w)). og_id x \<noteq> og_id row \<longrightarrow> x \<in> set (sy_outbound (fst (deliver_row ev now d i row w))))"
proof -
  note fault = push_fault_keeps [OF ok row, of now i]
  show ?thesis
  proof (cases "instance_by_id (fst w) (in_id i)")
    case None
    with fault show ?thesis by (simp add: deliver_row_def deliver_one_def case_prod_beta)
  next
    case (Some fresh)
    note pushed = push_push_ok [of fresh row "fst w" "snd w" ev now d, unfolded push_ok_def]
    show ?thesis
    proof (cases "fst (push ev now fresh row d (fst w) (snd w))")
      case (Inl e)
      with Some fault ok show ?thesis by (auto simp: deliver_row_def deliver_one_def case_prod_beta)
    next
      case (Inr q)
      with pushed settled_keeps [OF ok row] have "queues_ok (snd q) \<and>
          (\<forall>x\<in>set (sy_outbound (fst w)). og_id x \<noteq> og_id row \<longrightarrow> x \<in> set (sy_outbound (snd q)))" by simp
      with Inr Some ok show ?thesis by (auto simp: deliver_row_def deliver_one_def case_prod_beta)
    qed
  qed
qed

lemma deliver_rows_keep:
  assumes "queues_ok (fst w)" "\<forall>x\<in>set xs. x \<in> set (sy_outbound (fst w)) \<and> og_status x = Ob_pending" "distinct (map og_id xs)"
  shows "queues_ok (fst (fold (deliver_row ev now d i) xs w))"
  using assms
proof (induction xs arbitrary: w)
  case (Cons x xs)
  from Cons.prems have x: "x \<in> set (sy_outbound (fst w))" "og_status x = Ob_pending" by auto
  note step = deliver_row_keeps [OF Cons.prems(1) x, of ev now d i]
  have "\<forall>y\<in>set xs. og_id y \<noteq> og_id x" using Cons.prems(3) by (auto simp: image_iff)
  with step Cons.prems show ?case by (simp add: Cons.IH)
qed simp

lemma claimed_rows:
  assumes "outbound_ok st"
  shows "\<forall>x\<in>set (claim_outbound st i now). x \<in> set (sy_outbound st) \<and> og_status x = Ob_pending" "distinct (map og_id (claim_outbound st i now))"
proof -
  show "\<forall>x\<in>set (claim_outbound st i now). x \<in> set (sy_outbound st) \<and> og_status x = Ob_pending"
    by (auto simp: claim_outbound_def split: option.splits if_splits dest: in_set_takeD)
  have "distinct (map og_id (sy_outbound st))" using assms by (simp add: outbound_ok_def)
  then show "distinct (map og_id (claim_outbound st i now))"
    by (auto simp: claim_outbound_def take_map [symmetric] split: option.splits intro!: distinct_take distinct_map_filter)
qed

lemma deliver_pending_keeps: "queues_ok (fst w) \<Longrightarrow> queues_ok (fst (deliver_pending ev now d w))"
proof -
  have "queues_ok (fst (deliver_instance ev now d i w))" if "queues_ok (fst w)" for i w
    using claimed_rows [of "fst w" "in_id i" now] deliver_rows_keep [of w "claim_outbound (fst w) (in_id i) now" ev now d i] that
    by (simp add: deliver_instance_def queues_ok_def)
  then show "queues_ok (fst w) \<Longrightarrow> queues_ok (fst (deliver_pending ev now d w))"
    unfolding deliver_pending_def by (intro fold_keeps [where P = "\<lambda>w. queues_ok (fst w)"]) auto
qed

subsection \<open>Dead letters\<close>

lemma close_letter_split:
  assumes "n < length (sy_letters st)"
  obtains as l bs where "sy_letters st = as @ l # bs" "n = length as" "sy_letters (close_letter n st) = as @ l\<lparr>sl_open := False\<rparr> # bs"
    "sy_letters st ! n = l"
proof
  show "sy_letters st = take n (sy_letters st) @ sy_letters st ! n # drop (Suc n) (sy_letters st)" using assms by (rule id_take_nth_drop)
  show "sy_letters (close_letter n st) = take n (sy_letters st) @ (sy_letters st ! n)\<lparr>sl_open := False\<rparr> # drop (Suc n) (sy_letters st)"
    using assms by (simp add: close_letter_def upd_conv_take_nth_drop)
qed (use assms in simp_all)

lemma close_letter_facts:
  assumes "n < length (sy_letters st)"
  shows "lettered (close_letter n st) q r = lettered st q r"
    "distinct (open_inbox_letters (sy_letters st)) \<Longrightarrow> distinct (open_inbox_letters (sy_letters (close_letter n st)))"
    "set (open_inbox_letters (sy_letters (close_letter n st))) \<subseteq> set (open_inbox_letters (sy_letters st))"
    "distinct (open_inbox_letters (sy_letters st)) \<Longrightarrow> sl_queue (sy_letters st ! n) = Inbox_letter \<Longrightarrow> sl_open (sy_letters st ! n) \<Longrightarrow>
       sl_row (sy_letters st ! n) \<notin> set (open_inbox_letters (sy_letters (close_letter n st)))"
    "map (\<lambda>l. (sl_queue l, sl_row l)) (sy_letters (close_letter n st)) = map (\<lambda>l. (sl_queue l, sl_row l)) (sy_letters st)"
proof -
  obtain as l bs where split: "sy_letters st = as @ l # bs" "n = length as" "sy_letters (close_letter n st) = as @ l\<lparr>sl_open := False\<rparr> # bs"
    "sy_letters st ! n = l" by (rule close_letter_split [OF assms])
  show "lettered (close_letter n st) q r = lettered st q r" by (auto simp: lettered_def split(1,3))
  show "distinct (open_inbox_letters (sy_letters st)) \<Longrightarrow> distinct (open_inbox_letters (sy_letters (close_letter n st)))"
    by (auto simp: open_inbox_letters_def split(1,3) split: if_splits)
  show "set (open_inbox_letters (sy_letters (close_letter n st))) \<subseteq> set (open_inbox_letters (sy_letters st))"
    by (auto simp: open_inbox_letters_def split(1,3))
  show "distinct (open_inbox_letters (sy_letters st)) \<Longrightarrow> sl_queue (sy_letters st ! n) = Inbox_letter \<Longrightarrow> sl_open (sy_letters st ! n) \<Longrightarrow>
       sl_row (sy_letters st ! n) \<notin> set (open_inbox_letters (sy_letters (close_letter n st)))"
    unfolding split(4) by (auto simp: open_inbox_letters_def split(1,3))
  show "map (\<lambda>l. (sl_queue l, sl_row l)) (sy_letters (close_letter n st)) = map (\<lambda>l. (sl_queue l, sl_row l)) (sy_letters st)"
    by (simp add: split(1,3))
qed

lemma letters_in_range:
  "(\<forall>l\<in>set ls. (sl_queue l = Inbox_letter \<longrightarrow> sl_row l < n) \<and> (sl_queue l = Outbound_letter \<longrightarrow> sl_row l < m)) \<longleftrightarrow>
     (\<forall>(q, r)\<in>set (map (\<lambda>l. (sl_queue l, sl_row l)) ls). (q = Inbox_letter \<longrightarrow> r < n) \<and> (q = Outbound_letter \<longrightarrow> r < m))"
  by auto

lemma close_letter_keeps:
  assumes "queues_ok st" "n < length (sy_letters st)"
  shows "queues_ok (close_letter n st)"
proof -
  have same: "sy_inbox (close_letter n st) = sy_inbox st" "sy_outbound (close_letter n st) = sy_outbound st"
    "links_ok (close_letter n st) = links_ok st" by (simp_all add: close_letter_def)
  from assms(1) close_letter_facts [OF assms(2)] show ?thesis
    unfolding queues_ok_def inbox_ok_def outbound_ok_def letters_ok_def letters_in_range same by auto
qed

lemma replay_inbox_keeps:
  assumes ok: "queues_ok st" and n: "n < length (sy_letters st)" "sl_queue (sy_letters st ! n) = Inbox_letter" "sl_open (sy_letters st ! n)"
  shows "queues_ok (close_letter n (reopen_inbox (sl_row (sy_letters st ! n)) st))"
proof -
  let ?r = "sl_row (sy_letters st ! n)" and ?st = "close_letter n (reopen_inbox (sl_row (sy_letters st ! n)) st)"
  have same: "sy_letters ?st = sy_letters (close_letter n st)" "sy_outbound ?st = sy_outbound st" "links_ok ?st = links_ok st"
    "sy_inbox ?st = map (\<lambda>x. if ix_id x = ?r then x\<lparr>ix_outcome := None, ix_error := None, ix_attempts := 0\<rparr> else x) (sy_inbox st)"
    by (simp_all add: close_letter_def reopen_inbox_def touch_inbox_def)
  have keys: "map ix_id (sy_inbox ?st) = map ix_id (sy_inbox st)"
    "map (\<lambda>x. (ix_instance x, ix_external x, ix_version x)) (sy_inbox ?st) = map (\<lambda>x. (ix_instance x, ix_external x, ix_version x)) (sy_inbox st)"
    "length (sy_inbox ?st) = length (sy_inbox st)"
    unfolding same by (auto simp: comp_def)
  note facts = close_letter_facts [OF n(1)]
  from ok have d: "distinct (open_inbox_letters (sy_letters st))" by (simp add: queues_ok_def letters_ok_def)
  note gone = facts(4) [OF d n(2,3)]
  from ok have rows: "\<forall>x\<in>set (sy_inbox st). ix_attempts x \<le> max_inbox_attempts \<and> (ix_outcome x = None \<longrightarrow> ix_attempts x < max_inbox_attempts) \<and>
        (ix_outcome x = Some Inbox_failed \<longrightarrow> lettered st Inbox_letter (ix_id x)) \<and>
        (ix_id x \<in> set (open_inbox_letters (sy_letters st)) \<longrightarrow> ix_outcome x = Some Inbox_failed)"
    by (simp add: queues_ok_def inbox_ok_def)
  have "lettered ?st q r = lettered st q r" for q r
    using facts(1) [of q r] unfolding lettered_def same .
  note letters = this
  have "ix_attempts y \<le> max_inbox_attempts \<and> (ix_outcome y = None \<longrightarrow> ix_attempts y < max_inbox_attempts) \<and>
      (ix_outcome y = Some Inbox_failed \<longrightarrow> lettered ?st Inbox_letter (ix_id y)) \<and>
      (ix_id y \<in> set (open_inbox_letters (sy_letters ?st)) \<longrightarrow> ix_outcome y = Some Inbox_failed)" if "y \<in> set (sy_inbox ?st)" for y
  proof -
    from that obtain x where x: "x \<in> set (sy_inbox st)" "y = (if ix_id x = ?r then x\<lparr>ix_outcome := None, ix_error := None, ix_attempts := 0\<rparr> else x)"
      unfolding same by auto
    with rows facts(3) gone letters show ?thesis unfolding same(1) by (auto simp: max_inbox_attempts_def)
  qed
  with ok keys letters have "inbox_ok ?st" "outbound_ok ?st" by (auto simp: queues_ok_def inbox_ok_def outbound_ok_def same(2))
  moreover have "letters_ok ?st"
    using ok facts(2) [OF d] unfolding queues_ok_def letters_ok_def letters_in_range same(1,2) facts(5) keys(3) by auto
  moreover have "links_ok ?st" using ok same(3) by (simp add: queues_ok_def)
  ultimately show ?thesis by (simp add: queues_ok_def)
qed

lemma reopen_outbound_keeps:
  assumes "queues_ok st"
  shows "queues_ok (reopen_outbound n now st)"
proof (cases "\<exists>row\<in>set (sy_outbound st). og_id row = n")
  case True
  then obtain row where row: "row \<in> set (sy_outbound st)" "n = og_id row" by blast
  show ?thesis unfolding row(2)
    by (rule outbound_row_changes [OF assms row(1), where f = "\<lambda>x. x\<lparr>og_status := Ob_pending, og_attempts := 0, og_next := now, og_error := None\<rparr>"
        and l = "blank_letter row"])
      (simp_all add: reopen_outbound_def settle_outbound_def blank_letter_def max_outbound_attempts_def)
next
  case False
  then have "map (\<lambda>q. if og_id q = n then q\<lparr>og_status := Ob_pending, og_attempts := 0, og_next := now, og_error := None\<rparr> else q) (sy_outbound st) = sy_outbound st"
    by (intro map_idI) auto
  with assms show ?thesis by (simp add: reopen_outbound_def settle_outbound_def)
qed

lemma resolve_letter_keeps:
  assumes ok: "queues_ok st" and run: "resolve_letter i replay now n st = Inr st'"
  shows "queues_ok st'"
proof -
  let ?l = "sy_letters st ! n"
  from run have n: "n < length (sy_letters st)" by (simp add: resolve_letter_def split: if_splits)
  have letters: "sy_letters (reopen_outbound m now st) = sy_letters st" for m by (simp add: reopen_outbound_def settle_outbound_def)
  show ?thesis
  proof (cases "sl_open ?l")
    case False
    with run ok show ?thesis by (simp add: resolve_letter_def split: if_splits)
  next
    case True
    with run have st': "st' = close_letter n (if replay then (case sl_queue ?l of Inbox_letter \<Rightarrow> reopen_inbox (sl_row ?l) st
        | Outbound_letter \<Rightarrow> reopen_outbound (sl_row ?l) now st) else st)" by (simp add: resolve_letter_def Let_def split: if_splits)
    show ?thesis
    proof (cases "sl_queue ?l")
      case Inbox_letter
      with st' close_letter_keeps [OF ok n] replay_inbox_keeps [OF ok n Inbox_letter True] show ?thesis by simp
    next
      case Outbound_letter
      from n letters have "n < length (sy_letters (reopen_outbound (sl_row ?l) now st))" by simp
      from close_letter_keeps [OF reopen_outbound_keeps [OF ok] this] close_letter_keeps [OF ok n] st' Outbound_letter show ?thesis by simp
    qed
  qed
qed

lemma resolve_letters_keeps: "queues_ok st \<Longrightarrow> resolve_letters i replay now ns st = Inr st' \<Longrightarrow> queues_ok st'"
proof (induction ns arbitrary: st)
  case (Cons n ns)
  then obtain st1 where st1: "resolve_letter i replay now n st = Inr st1" "resolve_letters i replay now ns st1 = Inr st'"
    by (auto simp: and_then_Inr)
  show ?case by (rule Cons.IH [OF resolve_letter_keeps [OF Cons.prems(1) st1(1)] st1(2)])
qed simp

lemma resolve_conflict_keeps:
  assumes "queues_ok (fst w)" "resolve_conflict ev user ticket n dto w = Inr w'"
  shows "queues_ok (fst w')"
proof -
  have "quiet (fst w) (touch_link n (settle_field user dto c) (fst w))" for c
    by (intro quiet_intros) (simp add: settle_field_def Let_def)
  with assms(2) have "quiet (fst w) (fst w')"
    by (auto simp: resolve_conflict_def and_then_Inr split: option.splits if_splits prod.splits)
  with assms(1) show ?thesis by (rule queues_quiet)
qed

subsection \<open>Writes\<close>

definition may_write :: "sync_state \<Rightarrow> string \<Rightarrow> bool" where
  "may_write st i \<longleftrightarrow> (i, Bidirectional, False) \<in> set (switches st)"

definition writes_allowed :: "sync_state \<Rightarrow> snow_write list \<Rightarrow> sync_state \<times> snow_write list \<Rightarrow> bool" where
  "writes_allowed st ws w \<longleftrightarrow> switches (fst w) = switches st \<and> (\<exists>new. snd w = ws @ new \<and> (\<forall>x\<in>set new. may_write st (write_instance x)))"

lemma deliver_row_writes:
  assumes "writes_allowed st ws w"
  shows "writes_allowed st ws (deliver_row ev now d i row w)"
proof (cases "instance_by_id (fst w) (in_id i)")
  case None
  with assms show ?thesis by (simp add: deliver_row_def deliver_one_def case_prod_beta writes_allowed_def push_fault_switches)
next
  case (Some fresh)
  then have fresh: "fresh \<in> set (sy_instances (fst w))" "in_id fresh = in_id i" by (auto simp: instance_by_id_def find_Some_iff)
  show ?thesis
  proof (cases "in_mode fresh \<noteq> Bidirectional \<or> in_tripped fresh")
    case True
    with Some assms show ?thesis by (simp add: deliver_row_def deliver_one_def case_prod_beta)
  next
    case False
    with fresh have allowed: "may_write (fst w) (in_id fresh)" by (auto simp: may_write_def switches_def intro!: image_eqI [of _ _ fresh])
    let ?p = "push ev now fresh row d (fst w) (snd w)"
    from push_push_ok [of fresh row "fst w" "snd w" ev now d] obtain new where new: "snd ?p = snd w @ new" "\<forall>x\<in>set new. write_instance x = in_id fresh"
      by (auto simp: push_ok_def grown_def)
    from assms obtain old where old: "snd w = ws @ old" "\<forall>x\<in>set old. may_write st (write_instance x)" and sw: "switches (fst w) = switches st"
      by (auto simp: writes_allowed_def)
    have may: "may_write st (in_id fresh)" using allowed sw by (simp add: may_write_def)
    have "switches (snd q) = switches st" if "fst ?p = Inr q" for q
      using push_push_ok [of fresh row "fst w" "snd w" ev now d] that sw by (simp add: push_ok_def outbound_settles_def)
    with Some False new old may sw show ?thesis
      by (cases "fst ?p") (auto simp: deliver_row_def deliver_one_def case_prod_beta writes_allowed_def push_fault_switches)
  qed
qed

lemma deliver_pending_writes: "writes_allowed st ws (deliver_pending ev now d (st, ws))"
proof -
  have "writes_allowed st ws (deliver_instance ev now d i w)" if "writes_allowed st ws w" for i w
    using that unfolding deliver_instance_def
    by (auto intro: fold_keeps [where P = "writes_allowed st ws"] deliver_row_writes)
  then show ?thesis unfolding deliver_pending_def
    by (intro fold_keeps [where P = "writes_allowed st ws"]) (auto simp: writes_allowed_def)
qed

subsection \<open>All histories\<close>

text \<open>The world of the sync: its tables, the tickets, and what was written to the external systems. Between the
  worker's passes an operator may edit the configuration in any way and the tickets may change in any way.\<close>

type_synonym 'd sync_world = "sync_state \<times> 'd \<times> snow_write list"

inductive sync_step :: "'d sync_world \<Rightarrow> 'd sync_world \<Rightarrow> bool" where
  poll: "sync_step (st, d, ws) (poll_due (ev :: 'd sync_env) now st, d, ws)"
| apply_inbox: "apply_pending ev now (st, d) = (st', d') \<Longrightarrow> sync_step (st, d, ws) (st', d', ws)"
| change: "sync_step (st, d, ws) (on_change num now c st, d, ws)"
| deliver: "deliver_pending ev now d (st, ws) = (st', ws') \<Longrightarrow> sync_step (st, d, ws) (st', d, ws')"
| health: "sync_step (st, d, ws) (recompute_health now st, d, ws)"
| configure: "sync_step (st, d, ws) (st\<lparr>sy_accounts := as, sy_subscribed := ss, sy_instances := ins, sy_maps := mps\<rparr>, d, ws)"
| letters: "resolve_dead_letters i replay now ns st = Inr st' \<Longrightarrow> sync_step (st, d, ws) (st', d, ws)"
| requeue: "retry_outbound i n now st = Inr st' \<Longrightarrow> sync_step (st, d, ws) (st', d, ws)"
| settle: "resolve_conflict ev user ticket n dto (st, d) = Inr (st', d') \<Longrightarrow> sync_step (st, d, ws) (st', d', ws)"
| tickets: "sync_step (st, d, ws) (st, d', ws)"

inductive_cases sync_step_elim: "sync_step w w'"

lemma sync_step_keeps:
  assumes "sync_step w w'" "queues_ok (fst w)"
  shows "queues_ok (fst w')"
  using assms(1)
proof cases
  case (poll st d ws ev now)
  with assms(2) show ?thesis by (simp add: poll_due_keeps)
next
  case (apply_inbox ev now st d st' d' ws)
  with assms(2) apply_pending_keeps [of "(st, d)" ev now] show ?thesis by simp
next
  case (change st d ws num now c)
  with assms(2) show ?thesis by (simp add: on_change_keeps)
next
  case (deliver ev now d st ws st' ws')
  with assms(2) deliver_pending_keeps [of "(st, ws)" ev now d] show ?thesis by simp
next
  case (health st d ws now)
  with assms(2) show ?thesis by (simp add: recompute_health_keeps)
next
  case (configure st d ws as ss ins mps)
  with assms(2) show ?thesis by (simp add: queues_ok_def inbox_ok_def outbound_ok_def letters_ok_def lettered_def links_ok_def)
next
  case (letters i replay now ns st st' d ws)
  with assms(2) show ?thesis by (auto simp: resolve_dead_letters_def split: if_splits intro: resolve_letters_keeps)
next
  case (requeue i n now st st' d ws)
  with assms(2) show ?thesis by (auto simp: retry_outbound_def split: if_splits option.splits intro: reopen_outbound_keeps)
next
  case (settle ev user ticket n dto st d st' d' ws)
  with assms(2) resolve_conflict_keeps [of "(st, d)" ev user ticket n dto "(st', d')"] show ?thesis by simp
next
  case (tickets st d ws d')
  with assms(2) show ?thesis by simp
qed

definition no_sync :: sync_state where
  "no_sync = \<lparr>sy_accounts = [], sy_subscribed = [], sy_instances = [], sy_maps = [], sy_inbox = [], sy_links = [],
     sy_journal = [], sy_files = [], sy_outbound = [], sy_runs = [], sy_letters = [], sy_audit = []\<rparr>"

lemma sync_reached: "sync_step\<^sup>*\<^sup>* (no_sync, d, ws) w \<Longrightarrow> queues_ok (fst w)"
proof (induction rule: rtranclp_induct)
  case base
  show ?case by (simp add: no_sync_def queues_ok_def inbox_ok_def outbound_ok_def letters_ok_def open_inbox_letters_def links_ok_def)
qed (rule sync_step_keeps)

end
