(* ===== verification/Sync_Properties.thy ===== *)
theory Sync_Properties
  imports Sync_Life
begin

section \<open>Properties of the connector sync, with runs at a sample instance\<close>

text \<open>
  The guarantees of the worker over every history, then four runs at a sample instance that show where the
  code falls short of its comments: a client's comment that is dropped as a reflection, a journal entry
  written twice, comments that overtake one another, and an old version applied over a new one.
\<close>

subsection \<open>A sample instance\<close>

record sample_tickets =
  sk_tickets :: "ticket_view list"
  sk_messages :: "(message_kind \<times> string) list"

definition edited :: "ticket_view \<Rightarrow> ticket_patch \<Rightarrow> ticket_view" where
  "edited t p = t\<lparr>tv_version := tv_version t + 1, tv_refs := (case tp_refs p of None \<Rightarrow> tv_refs t | Some r \<Rightarrow> r),
     tv_columns := fold (\<lambda>(k, v). AList.update k v) (tp_columns p) (tv_columns t)\<rparr>"

definition sample_desk :: "sample_tickets desk" where
  "sample_desk =
     \<lparr>dk_create = (\<lambda>origin r d. let t = \<lparr>tv_id = ''t'', tv_key = ''CS1'', tv_version = 1, tv_type = tr_type r, tv_state = ''new'', tv_updated = 3000,
         tv_requester = Some (tr_email r, tr_email r), tv_refs = [], tv_columns = tr_columns r\<rparr> in Inr (t, d\<lparr>sk_tickets := sk_tickets d @ [t]\<rparr>)),
      dk_patch = (\<lambda>origin i p d. case find (\<lambda>t. tv_id t = i) (sk_tickets d) of None \<Rightarrow> Inl (Refused ''ticket'')
         | Some t \<Rightarrow> Inr (edited t p, d\<lparr>sk_tickets := map (\<lambda>x. if tv_id x = i then edited t p else x) (sk_tickets d)\<rparr>)),
      dk_get = (\<lambda>i d. case find (\<lambda>t. tv_id t = i) (sk_tickets d) of None \<Rightarrow> Inl (Refused ''ticket'') | Some t \<Rightarrow> Inr t),
      dk_allowed = (\<lambda>i d. Inr []),
      dk_move = (\<lambda>origin i m d. Inl (Refused ''transition'')),
      dk_message = (\<lambda>origin k i body d. Inr (replicate (length (sk_messages d)) CHR ''m'', d\<lparr>sk_messages := sk_messages d @ [(k, body)]\<rparr>)),
      dk_ingest = (\<lambda>origin i f d. Inr (''f'', d))\<rparr>"

text \<open>Times of the sample are one letter: the digit of its second.\<close>

definition sample_parse :: "string \<Rightarrow> ms" where
  "sample_parse s = 1000 * (int (of_char (hd s)) - 48)"

definition case_id :: string where
  "case_id = replicate 32 CHR ''a''"

definition case_at :: "string \<Rightarrow> string \<Rightarrow> snow_record" where
  "case_at updated text = \<lparr>sr_sys = case_id, sr_updated = updated,
     sr_fields = [(''short_description'', JStr text), (''caller'', JStr ''ann@acme''), (''number'', JStr ''C1'')]\<rparr>"

text \<open>A client that serves one record; its writes are answered by the given functions.\<close>

definition sample_snow :: "snow_record \<Rightarrow> journal_entry list \<Rightarrow> snow_file list \<Rightarrow> (snow_write list \<Rightarrow> string js_map \<Rightarrow> sync_fault + snow_record) \<Rightarrow>
    (snow_write list \<Rightarrow> sync_fault + journal_entry option) \<Rightarrow> snow" where
  "sample_snow r js fs update latest =
     \<lparr>sn_connect = (\<lambda>i. Inr ()), sn_changed = (\<lambda>t w i n. Inr [r]), sn_journal = (\<lambda>s w. Inr js), sn_files = (\<lambda>s. Inr fs),
      sn_get = (\<lambda>t s. Inr (Some r)), sn_download = (\<lambda>s n. Inl (Snow_fault 503 ''busy'')),
      sn_update = (\<lambda>ws t s b. update ws b), sn_latest = (\<lambda>ws s e. latest ws), sn_upload = (\<lambda>ws t s n b. Inl (Snow_fault 503 ''busy''))\<rparr>"

definition sample_env :: "snow \<Rightarrow> sample_tickets sync_env" where
  "sample_env sn = \<lparr>ev_number = (\<lambda>x. []), ev_digest = id, ev_parse = sample_parse,
     ev_message = (\<lambda>k m d. Some \<lparr>sm_source = ''internal'', sm_author = ''Ann'', sm_body = ''hello''\<rparr>),
     ev_file = (\<lambda>f d. None), ev_object = (\<lambda>k. Inl (Thrown ''store'')), ev_snow = sn, ev_desk = sample_desk\<rparr>"

definition sample_fields :: "system_of_record option \<Rightarrow> field_entry list" where
  "sample_fields sor =
     [\<lparr>fe_external = ''short_description'', fe_xms = ''short_description'', fe_direction = Dir_both, fe_transform = No_transform, fe_sor = sor\<rparr>,
      \<lparr>fe_external = ''caller'', fe_xms = ''requester_email'', fe_direction = Dir_in, fe_transform = No_transform, fe_sor = None\<rparr>]"

definition sample_instance :: instance_row where
  "sample_instance = \<lparr>in_id = ''i'', in_account = ''a'', in_type = ''servicenow'', in_name = ''Acme'', in_table = ''case'',
     in_credential = Unknown_credential, in_mode = Bidirectional, in_tripped = False, in_trip_reason = None, in_poll_seconds = 5, in_next_poll = 0,
     in_watermark = 0, in_watermark_id = None, in_field_map = Some ''f'', in_state_map = None, in_journal = ''comments'', in_work_notes = False,
     in_file_limit = 100, in_over_link = False, in_trip_ratio = 1 / 2, in_trip_window = 10, in_trip_attempts = 4, in_tolerance = 5,
     in_health = Healthy, in_success = None, in_error = None, in_version = 1, in_created = 0\<rparr>"

definition configured :: "system_of_record option \<Rightarrow> sync_state" where
  "configured sor = no_sync\<lparr>sy_accounts := [(''a'', ''active'')], sy_subscribed := [(''servicenow'', outbound_events)],
     sy_instances := [sample_instance], 
     sy_maps := [\<lparr>mr_id = ''f'', mr_kind = Field_kind, mr_instance = ''i'', mr_version = 1, mr_stage = Active_map, mr_fields = sample_fields sor,
       mr_states = [], mr_samples = [], mr_report = Some True\<rparr>]\<rparr>"

type_synonym sample_world = "sample_tickets sync_world"

definition empty_desk :: sample_tickets where
  "empty_desk = \<lparr>sk_tickets = [], sk_messages = []\<rparr>"

text \<open>The passes as moves of the world, so that a run is a composition.\<close>

definition poll_at :: "snow \<Rightarrow> ms \<Rightarrow> sample_world \<Rightarrow> sample_world" where
  "poll_at sn now w = (case w of (st, d, ws) \<Rightarrow> (poll_due (sample_env sn) now st, d, ws))"

definition apply_at :: "snow \<Rightarrow> ms \<Rightarrow> sample_world \<Rightarrow> sample_world" where
  "apply_at sn now w = (case w of (st, d, ws) \<Rightarrow> (case apply_pending (sample_env sn) now (st, d) of (st', d') \<Rightarrow> (st', d', ws)))"

definition change_at :: "change_row \<Rightarrow> ms \<Rightarrow> sample_world \<Rightarrow> sample_world" where
  "change_at c now w = (case w of (st, d, ws) \<Rightarrow> (on_change (\<lambda>x. []) now c st, d, ws))"

definition deliver_at :: "snow \<Rightarrow> ms \<Rightarrow> sample_world \<Rightarrow> sample_world" where
  "deliver_at sn now w = (case w of (st, d, ws) \<Rightarrow> (case deliver_pending (sample_env sn) now d (st, ws) of (st', ws') \<Rightarrow> (st', d, ws')))"

definition edit_ticket :: "string \<Rightarrow> sample_world \<Rightarrow> sample_world" where
  "edit_ticket text w = (case w of (st, d, ws) \<Rightarrow>
     (st, d\<lparr>sk_tickets := map (\<lambda>t. t\<lparr>tv_columns := AList.update ''short_description'' (JStr text) (tv_columns t), tv_updated := 4000\<rparr>) (sk_tickets d)\<rparr>, ws))"

lemma sample_moves:
  "sync_step\<^sup>*\<^sup>* a w \<Longrightarrow> sync_step\<^sup>*\<^sup>* a (poll_at sn now w)" "sync_step\<^sup>*\<^sup>* a w \<Longrightarrow> sync_step\<^sup>*\<^sup>* a (apply_at sn now w)"
  "sync_step\<^sup>*\<^sup>* a w \<Longrightarrow> sync_step\<^sup>*\<^sup>* a (change_at c now w)" "sync_step\<^sup>*\<^sup>* a w \<Longrightarrow> sync_step\<^sup>*\<^sup>* a (deliver_at sn now w)"
  "sync_step\<^sup>*\<^sup>* a w \<Longrightarrow> sync_step\<^sup>*\<^sup>* a (edit_ticket text w)"
  by (erule rtranclp.rtrancl_into_rtrancl,
      auto simp: poll_at_def apply_at_def change_at_def deliver_at_def edit_ticket_def split: prod.splits intro: sync_step.intros)+

lemma run_exists:
  "sync_step\<^sup>*\<^sup>* a w \<Longrightarrow> (case w of (st, d, ws) \<Rightarrow> P st d ws) \<Longrightarrow> \<exists>st d ws. sync_step\<^sup>*\<^sup>* a (st, d, ws) \<and> P st d ws"
  by (cases w) auto

lemma sample_start: "sync_step\<^sup>*\<^sup>* (no_sync, empty_desk, []) (configured sor, empty_desk, [])"
  unfolding configured_def by (rule r_into_rtranclp) (rule sync_step.configure)

text \<open>The record arrives and becomes a ticket.\<close>

definition no_answer :: "snow_write list \<Rightarrow> sync_fault + journal_entry option" where
  "no_answer ws = Inl (Snow_fault 503 ''busy'')"

definition plain_snow :: "snow_record \<Rightarrow> snow" where
  "plain_snow r = sample_snow r [] [] (\<lambda>ws b. Inr r) no_answer"

definition linked_world :: "system_of_record option \<Rightarrow> sample_world" where
  "linked_world sor = apply_at (plain_snow (case_at ''1'' ''old'')) 3000 (poll_at (plain_snow (case_at ''1'' ''old'')) 2000 (configured sor, empty_desk, []))"

lemma linked_reached: "sync_step\<^sup>*\<^sup>* (no_sync, empty_desk, []) (linked_world sor)"
  unfolding linked_world_def by (intro sample_moves sample_start)

definition change_of :: "string \<Rightarrow> string \<Rightarrow> string \<Rightarrow> change_row" where
  "change_of i event m = \<lparr>cg_id = i, cg_event = event, cg_account = ''a'', cg_ticket = ''t'', cg_origin = Some ''user'',
     cg_payload = JObj [(''comment_id'', JStr m)]\<rparr>"

subsection \<open>Properties\<close>

text \<open>C12: The queues are exact: whatever polls, applies, changes, deliveries, health runs, replays and edits have happened, an
  external version is in the inbox once and a change in the queue of an instance once, a row is attempted
  at most five times before an operator reopens it, a row that ended failed has a dead letter, an inbox row
  has at most one open letter and only while it is failed; no change is queued for the instance it came
  from; no ticket, record, journal entry, message or file is linked twice at an instance.\<close>

theorem sync_queues_sound:
  assumes "sync_step\<^sup>*\<^sup>* (no_sync, d0, ws0) (st, d, ws)"
  shows "distinct (map (\<lambda>x. (ix_instance x, ix_external x, ix_version x)) (sy_inbox st)) \<and>
    distinct (map (\<lambda>x. (og_instance x, og_outbox x)) (sy_outbound st)) \<and>
    (\<forall>x\<in>set (sy_inbox st). ix_attempts x \<le> 5 \<and> (ix_outcome x = None \<longrightarrow> ix_attempts x < 5) \<and>
       (ix_outcome x = Some Inbox_failed \<longrightarrow> (\<exists>l\<in>set (sy_letters st). sl_queue l = Inbox_letter \<and> sl_row l = ix_id x)) \<and>
       (\<forall>l\<in>set (sy_letters st). sl_queue l = Inbox_letter \<and> sl_row l = ix_id x \<and> sl_open l \<longrightarrow> ix_outcome x = Some Inbox_failed)) \<and>
    distinct (map sl_row (filter (\<lambda>l. sl_queue l = Inbox_letter \<and> sl_open l) (sy_letters st))) \<and>
    (\<forall>x\<in>set (sy_outbound st). og_attempts x \<le> 5 \<and> (og_status x = Ob_pending \<longrightarrow> og_attempts x < 5) \<and>
       og_origin x \<noteq> Some (sync_origin (og_instance x)) \<and>
       (og_status x = Ob_dead_lettered \<longrightarrow> (\<exists>l\<in>set (sy_letters st). sl_queue l = Outbound_letter \<and> sl_row l = og_id x))) \<and>
    distinct (map (\<lambda>l. (ln_instance l, ln_ticket l)) (sy_links st)) \<and> distinct (map (\<lambda>l. (ln_instance l, ln_sys l)) (sy_links st)) \<and>
    distinct (map (\<lambda>l. (jl_instance l, jl_external l)) (sy_journal st)) \<and> distinct (map (\<lambda>l. (jl_instance l, jl_kind l, jl_xms l)) (sy_journal st)) \<and>
    distinct (map (\<lambda>l. (fl_instance l, fl_external l)) (sy_files st))"
proof -
  have "queues_ok st" using sync_reached [OF assms] by simp
  then have i: "inbox_ok st" and q: "outbound_ok st" and l: "letters_ok st" and k: "links_ok st" by (simp_all add: queues_ok_def)
  from l have open_once: "distinct (map sl_row (filter (\<lambda>l. sl_queue l = Inbox_letter \<and> sl_open l) (sy_letters st)))"
    by (simp add: letters_ok_def open_inbox_letters_def)
  have inbox: "\<forall>x\<in>set (sy_inbox st). ix_attempts x \<le> 5 \<and> (ix_outcome x = None \<longrightarrow> ix_attempts x < 5) \<and>
       (ix_outcome x = Some Inbox_failed \<longrightarrow> (\<exists>l\<in>set (sy_letters st). sl_queue l = Inbox_letter \<and> sl_row l = ix_id x)) \<and>
       (\<forall>l\<in>set (sy_letters st). sl_queue l = Inbox_letter \<and> sl_row l = ix_id x \<and> sl_open l \<longrightarrow> ix_outcome x = Some Inbox_failed)"
    using i by (force simp: inbox_ok_def max_inbox_attempts_def lettered_def open_inbox_letters_def)
  from i q k inbox open_once show ?thesis
    unfolding inbox_ok_def outbound_ok_def links_ok_def lettered_def max_outbound_attempts_def by (intro conjI; blast)
qed

text \<open>C13: The switch holds: a delivery pass writes only to instances that are bidirectional and armed when it starts, whatever
  the queue holds; and it leaves every switch as it is.\<close>

theorem sync_writes_armed:
  assumes "deliver_pending ev now d (st, ws) = (st', ws')"
  shows "\<exists>new. ws' = ws @ new \<and> (\<forall>x\<in>set new. \<exists>i\<in>set (sy_instances st). in_id i = write_instance x \<and> in_mode i = Bidirectional \<and> \<not> in_tripped i) \<and>
    map (\<lambda>i. (in_id i, in_mode i, in_tripped i)) (sy_instances st') = map (\<lambda>i. (in_id i, in_mode i, in_tripped i)) (sy_instances st)"
proof -
  from deliver_pending_writes [of st ws ev now d] assms obtain new
    where new: "ws' = ws @ new" "\<forall>x\<in>set new. may_write st (write_instance x)" "switches st' = switches st" by (auto simp: writes_allowed_def)
  have "\<exists>i\<in>set (sy_instances st). in_id i = write_instance x \<and> in_mode i = Bidirectional \<and> \<not> in_tripped i" if "x \<in> set new" for x
    using new(2) that by (force simp: may_write_def switches_def)
  with new show ?thesis by (auto simp: switches_def)
qed

subsection \<open>The watermark\<close>

lemma insert_inbox_holds: "in_inbox (insert_inbox i r js fs st) (in_id i) (sr_sys r) (sr_updated r)"
  by (auto simp: insert_inbox_def in_inbox_def)

lemma insert_inbox_grows: "set (sy_inbox st) \<subseteq> set (sy_inbox (insert_inbox i r js fs st))" "sy_instances (insert_inbox i r js fs st) = sy_instances st"
  by (auto simp: insert_inbox_def)

lemma store_page_grows: "set (sy_inbox st) \<subseteq> set (sy_inbox (snd (store_page sn i rs st))) \<and> sy_instances (snd (store_page sn i rs st)) = sy_instances st"
proof (induction rs arbitrary: st)
  case (Cons r rs)
  then show ?case using insert_inbox_grows by (auto split: sum.splits) blast+
qed simp

lemma store_page_stores:
  "store_page sn i rs st = (None, st') \<Longrightarrow> q \<in> set rs \<Longrightarrow> in_inbox st' (in_id i) (sr_sys q) (sr_updated q)"
proof (induction rs arbitrary: st)
  case (Cons r rs)
  obtain js fs where s: "store_page sn i rs (insert_inbox i r js fs st) = (None, st')" using Cons.prems(1) by (auto split: sum.splits)
  show ?case
  proof (cases "q = r")
    case True
    from store_page_grows [of "insert_inbox i r js fs st" sn i rs] s have "set (sy_inbox (insert_inbox i r js fs st)) \<subseteq> set (sy_inbox st')" by simp
    with insert_inbox_holds [of i r js fs st] True show ?thesis by (auto simp: in_inbox_def)
  next
    case False
    with Cons s show ?thesis by auto
  qed
qed simp

text \<open>C14: The watermark never passes a record that is not in the inbox: after a poll of an instance every earlier inbox row is
  still there, and each instance keeps its watermark, unless it is the polled one, the page was answered
  and every record of the page is in the inbox; then the watermark is at the page's last record.\<close>

theorem poll_watermark_sound:
  assumes "r' \<in> set (sy_instances (poll_one ev now i st))"
  shows "set (sy_inbox st) \<subseteq> set (sy_inbox (poll_one ev now i st)) \<and>
    (\<exists>r\<in>set (sy_instances st). in_id r = in_id r' \<and>
      (in_watermark r' = in_watermark r \<and> in_watermark_id r' = in_watermark_id r \<or>
       in_id r' = in_id i \<and> (\<exists>rs. sn_changed (ev_snow ev) (in_table i) (in_watermark i) (in_watermark_id i) page = Inr rs \<and> rs \<noteq> [] \<and>
         in_watermark r' = from_snow_time (ev_parse ev) (sr_updated (last rs)) \<and> in_watermark_id r' = Some (sr_sys (last rs)) \<and>
         (\<forall>q\<in>set rs. in_inbox (poll_one ev now i st) (in_id i) (sr_sys q) (sr_updated q)))))"
proof -
  have kept: "sy_inbox (poll_failed i e now st1) = sy_inbox st1" "sy_inbox (poll_succeeded ev i rs now st1) = sy_inbox st1" for e rs st1
    by (simp_all add: poll_failed_def poll_succeeded_def insert_run_def touch_instance_def)
  have failed: "\<exists>r\<in>set (sy_instances st1). in_id r = in_id r' \<and> in_watermark r' = in_watermark r \<and> in_watermark_id r' = in_watermark_id r"
    if "r' \<in> set (sy_instances (poll_failed i e now st1))" for e st1
  proof -
    from that obtain r where r: "r \<in> set (sy_instances st1)" "r' = (if in_id r = in_id i then
        r\<lparr>in_next_poll := now + in_poll_seconds i * 1000, in_error := Some e,
          in_credential := if is_credential_fault e then Invalid_credential else in_credential r\<rparr> else r)"
      by (auto simp: poll_failed_def insert_run_def touch_instance_def)
    then show ?thesis by (intro bexI [of _ r]) (auto split: if_splits)
  qed
  have passed: "\<exists>r\<in>set (sy_instances st1). in_id r = in_id r' \<and> (in_watermark r' = in_watermark r \<and> in_watermark_id r' = in_watermark_id r \<or>
      in_id r' = in_id i \<and> rs \<noteq> [] \<and> in_watermark r' = from_snow_time (ev_parse ev) (sr_updated (last rs)) \<and> in_watermark_id r' = Some (sr_sys (last rs)))"
    if "r' \<in> set (sy_instances (poll_succeeded ev i rs now st1))" for rs st1
  proof -
    from that obtain r where r: "r \<in> set (sy_instances st1)" "r' = (if in_id r = in_id i then
        (if rs = [] then r else r\<lparr>in_watermark := from_snow_time (ev_parse ev) (sr_updated (last rs)), in_watermark_id := Some (sr_sys (last rs))\<rparr>)
          \<lparr>in_next_poll := now + in_poll_seconds i * 1000, in_success := Some now, in_error := None, in_credential := Valid_credential\<rparr> else r)"
      by (auto simp: poll_succeeded_def insert_run_def touch_instance_def)
    then show ?thesis by (intro bexI [of _ r]) (auto split: if_splits)
  qed
  show ?thesis
  proof (cases "sn_connect (ev_snow ev) i")
    case (Inl e)
    with assms failed [of e st] show ?thesis by (auto simp: poll_one_def kept)
  next
    case connected: (Inr u)
    show ?thesis
    proof (cases "sn_changed (ev_snow ev) (in_table i) (in_watermark i) (in_watermark_id i) page")
      case (Inl e)
      with connected assms failed [of e st] show ?thesis by (auto simp: poll_one_def kept)
    next
      case (Inr rs)
      obtain err st1 where s: "store_page (ev_snow ev) i rs st = (err, st1)" by fastforce
      with store_page_grows [of st "ev_snow ev" i rs] have g: "set (sy_inbox st) \<subseteq> set (sy_inbox st1)" "sy_instances st1 = sy_instances st" by simp_all
      show ?thesis
      proof (cases err)
        case None
        with s store_page_stores have all: "\<forall>q\<in>set rs. in_inbox st1 (in_id i) (sr_sys q) (sr_updated q)" by blast
        have run: "poll_one ev now i st = poll_succeeded ev i rs now st1" using connected Inr s None by (simp add: poll_one_def)
        from assms passed [of rs st1] all g Inr show ?thesis by (auto simp: run kept in_inbox_def)
      next
        case (Some e)
        have run: "poll_one ev now i st = poll_failed i e now st1" using connected Inr s Some by (simp add: poll_one_def)
        from assms failed [of e st1] g show ?thesis by (auto simp: run kept)
      qed
    qed
  qed
qed

subsection \<open>Runs\<close>

definition sample_comment :: journal_entry where
  "sample_comment = \<lparr>je_sys = ''j1'', je_element = ''comments'', je_record = case_id, je_value = ''please call''\<rparr>"

definition pushed_world :: sample_world where
  "pushed_world =
     deliver_at (sample_snow (case_at ''1'' ''old'') [] [] (\<lambda>ws b. Inr (case_at ''5'' ''new'')) no_answer) 5000
       (change_at (change_of ''o1'' ''ticket.updated'' []) 4000 (edit_ticket ''new'' (linked_world None)))"

definition echoed_world :: sample_world where
  "echoed_world =
     (let sn = sample_snow (case_at ''5'' ''new'') [sample_comment] [] (\<lambda>ws b. Inr (case_at ''5'' ''new'')) no_answer
      in apply_at sn 8000 (poll_at sn 7000 pushed_world))"

lemma pushed_reached: "sync_step\<^sup>*\<^sup>* (no_sync, empty_desk, []) pushed_world"
  unfolding pushed_world_def by (intro sample_moves linked_reached)

lemma echoed_reached: "sync_step\<^sup>*\<^sup>* (no_sync, empty_desk, []) echoed_world"
  unfolding echoed_world_def Let_def by (intro sample_moves pushed_reached)

theorem sync_queues_sound_witness:
  "\<exists>st d. echoed_world = (st, d, [Wrote_update ''i'' case_id [(''short_description'', ''new'')]]) \<and> length (sy_inbox st) = 2 \<and>
     distinct (map (\<lambda>x. (ix_instance x, ix_external x, ix_version x)) (sy_inbox st))"
proof -
  obtain st d ws where w: "echoed_world = (st, d, ws)" by (cases echoed_world)
  have "case echoed_world of (st, d, ws) \<Rightarrow> ws = [Wrote_update ''i'' case_id [(''short_description'', ''new'')]] \<and> length (sy_inbox st) = 2"
    by code_simp
  then have "ws = [Wrote_update ''i'' case_id [(''short_description'', ''new'')]]" "length (sy_inbox st) = 2" by (simp_all add: w)
  with sync_queues_sound [OF echoed_reached [unfolded w]] w show ?thesis by (intro exI [of _ st] exI [of _ d] conjI) simp_all
qed

text \<open>A reflection loses a comment: the client comments on a record shortly before our own write to it, both come back in one
  poll, the row is taken for our own write and dropped whole; the client's comment is on no ticket, in no
  link and in no pending row, and the watermark has passed it.\<close>

theorem reflection_loses_comment:
  "\<exists>st d ws. sync_step\<^sup>*\<^sup>* (no_sync, empty_desk, []) (st, d, ws) \<and>
     map ix_journal (sy_inbox st) = [[], [sample_comment]] \<and> map ix_outcome (sy_inbox st) = [Some Inbox_applied, Some Inbox_reflection] \<and>
     \<not> has_journal_marker (je_value sample_comment) \<and> sk_messages d = [] \<and> sy_journal st = [] \<and> map in_watermark (sy_instances st) = [5000]"
  by (rule run_exists [OF echoed_reached]) code_simp

definition answering :: "snow_write list \<Rightarrow> sync_fault + journal_entry option" where
  "answering ws = Inr (Some \<lparr>je_sys = replicate (length ws) CHR ''e'', je_element = ''comments'', je_record = case_id, je_value = []\<rparr>)"

text \<open>Answers a write, except that a journal entry of the first comment fails.\<close>

definition refuses_first :: "snow_write list \<Rightarrow> string js_map \<Rightarrow> sync_fault + snow_record" where
  "refuses_first ws b = (if list_ex (\<lambda>p. take 8 (snd p) = ''[XMS:m1]'') b then Inl (Snow_fault 503 ''busy'') else Inr (case_at ''1'' ''old''))"

definition first_snow :: "(snow_write list \<Rightarrow> string js_map \<Rightarrow> sync_fault + snow_record) \<Rightarrow> (snow_write list \<Rightarrow> sync_fault + journal_entry option) \<Rightarrow> snow" where
  "first_snow update latest = sample_snow (case_at ''1'' ''old'') [] [] update latest"

definition twice_world :: sample_world where
  "twice_world =
     deliver_at (first_snow (\<lambda>ws b. Inr (case_at ''1'' ''old'')) answering) 10000
       (deliver_at (first_snow (\<lambda>ws b. Inr (case_at ''1'' ''old'')) no_answer) 5000
         (change_at (change_of ''o1'' ''comment.created'' ''m1'') 4000 (linked_world None)))"

definition overtaken_world :: sample_world where
  "overtaken_world =
     deliver_at (first_snow (\<lambda>ws b. Inr (case_at ''1'' ''old'')) answering) 10000
       (deliver_at (first_snow refuses_first answering) 5000
         (change_at (change_of ''o2'' ''comment.created'' ''m2'') 4001 (change_at (change_of ''o1'' ''comment.created'' ''m1'') 4000 (linked_world None))))"

lemma delivered_reached:
  "sync_step\<^sup>*\<^sup>* (no_sync, empty_desk, []) twice_world" "sync_step\<^sup>*\<^sup>* (no_sync, empty_desk, []) overtaken_world"
  unfolding twice_world_def overtaken_world_def by (intro sample_moves linked_reached)+

text \<open>A journal entry is written twice: when the entry cannot be read back after it was written, the push fails and is
  retried, and the comment stands twice in the client's journal although one row was queued and sent.\<close>

theorem journal_written_twice:
  "\<exists>st d ws. sync_step\<^sup>*\<^sup>* (no_sync, empty_desk, []) (st, d, ws) \<and>
     ws = [Wrote_journal ''i'' case_id ''comments'' ''m1'', Wrote_journal ''i'' case_id ''comments'' ''m1''] \<and>
     map og_status (sy_outbound st) = [Ob_sent] \<and> map og_attempts (sy_outbound st) = [2] \<and> map jl_xms (sy_journal st) = [''m1'']"
  by (rule run_exists [OF delivered_reached(1)]) code_simp

text \<open>Comments overtake one another: a row that waits for its retry does not hold back the later rows of its ticket, so the
  second comment of a ticket reaches the client before the first.\<close>

theorem outbound_rows_overtake:
  "\<exists>st d ws. sync_step\<^sup>*\<^sup>* (no_sync, empty_desk, []) (st, d, ws) \<and>
     ws = [Wrote_journal ''i'' case_id ''comments'' ''m2'', Wrote_journal ''i'' case_id ''comments'' ''m1''] \<and>
     map og_outbox (sy_outbound st) = [''o1'', ''o2''] \<and> map og_status (sy_outbound st) = [Ob_sent, Ob_sent]"
  by (rule run_exists [OF delivered_reached(2)]) code_simp

text \<open>An old version is applied last: a version whose file could not be fetched waits for its retry while the next version
  is applied; the retry then writes the old value over the new one.\<close>

definition sample_file :: snow_file where
  "sample_file = \<lparr>sf_sys = ''x1'', sf_name = ''a.txt'', sf_content = ''text/plain'', sf_size = 10\<rparr>"

definition stale_world :: sample_world where
  "stale_world =
     (let first = sample_snow (case_at ''4'' ''first'') [] [sample_file] (\<lambda>ws b. Inr (case_at ''4'' ''first'')) no_answer;
          second = plain_snow (case_at ''6'' ''second'')
      in apply_at (first\<lparr>sn_download := (\<lambda>s n. Inr ''bytes'')\<rparr>) 14000 (apply_at first 13000 (poll_at second 12000
           (poll_at first 7000 (linked_world (Some Sor_external))))))"

lemma stale_reached: "sync_step\<^sup>*\<^sup>* (no_sync, empty_desk, []) stale_world"
  unfolding stale_world_def Let_def by (intro sample_moves linked_reached)

theorem old_version_applied_last:
  "\<exists>st d ws. sync_step\<^sup>*\<^sup>* (no_sync, empty_desk, []) (st, d, ws) \<and>
     map (\<lambda>x. (ix_version x, ix_outcome x)) (sy_inbox st) = [(''1'', Some Inbox_applied), (''4'', Some Inbox_applied), (''6'', Some Inbox_applied)] \<and>
     map (\<lambda>t. field_of (tv_columns t) ''short_description'') (sk_tickets d) = [JStr ''first''] \<and>
     map ln_in_updated (sy_links st) = [Some 4000] \<and> map in_watermark (sy_instances st) = [6000]"
  by (rule run_exists [OF stale_reached]) code_simp

theorem sync_writes_armed_witness:
  "\<exists>w. w = change_at (change_of ''o1'' ''comment.created'' ''m1'') 4000 (linked_world None) \<and>
     (\<exists>new. snd (deliver_pending (sample_env (first_snow (\<lambda>ws b. Inr (case_at ''1'' ''old'')) answering)) 5000 (fst (snd w)) (fst w, [])) = [] @ new) \<and>
     snd (deliver_pending (sample_env (first_snow (\<lambda>ws b. Inr (case_at ''1'' ''old'')) answering)) 5000 (fst (snd w)) (fst w, [])) =
       [Wrote_journal ''i'' case_id ''comments'' ''m1'']"
proof -
  let ?w = "change_at (change_of ''o1'' ''comment.created'' ''m1'') 4000 (linked_world None)"
  let ?r = "deliver_pending (sample_env (first_snow (\<lambda>ws b. Inr (case_at ''1'' ''old'')) answering)) 5000 (fst (snd ?w)) (fst ?w, [])"
  have "snd ?r = [Wrote_journal ''i'' case_id ''comments'' ''m1'']" by code_simp
  moreover have "\<exists>new. snd ?r = [] @ new" using sync_writes_armed [of _ 5000 _ "fst ?w" "[]" "fst ?r" "snd ?r"] by fastforce
  ultimately show ?thesis by blast
qed

theorem poll_watermark_sound_witness:
  "map in_watermark (sy_instances (poll_one (sample_env (plain_snow (case_at ''1'' ''old''))) 2000 sample_instance (configured None))) = [1000] \<and>
   in_inbox (poll_one (sample_env (plain_snow (case_at ''1'' ''old''))) 2000 sample_instance (configured None)) ''i'' case_id ''1''"
proof -
  let ?st = "poll_one (sample_env (plain_snow (case_at ''1'' ''old''))) 2000 sample_instance (configured None)"
  have m: "map in_watermark (sy_instances ?st) = [1000]" by code_simp
  then obtain r' where r: "r' \<in> set (sy_instances ?st)" "in_watermark r' = 1000" by (cases "sy_instances ?st") auto
  have "map in_watermark (sy_instances (configured None)) = [0]" by code_simp
  then have zero: "in_watermark r = 0" if "r \<in> set (sy_instances (configured None))" for r
    using that by (cases "sy_instances (configured None)") auto
  have page: "sn_changed (ev_snow (sample_env (plain_snow (case_at ''1'' ''old'')))) t w j n = Inr [case_at ''1'' ''old'']" for t w j n
    by (simp add: sample_env_def plain_snow_def sample_snow_def)
  from poll_watermark_sound [OF r(1)] zero r(2)
  have "in_inbox ?st (in_id sample_instance) (sr_sys (case_at ''1'' ''old'')) (sr_updated (case_at ''1'' ''old''))" by (force simp: page)
  with m show ?thesis by (simp add: sample_instance_def case_at_def)
qed

end
