(* ===== verification/Connector_Maps.thy ===== *)
theory Connector_Maps
  imports Sync_Life
begin

section \<open>The life of the connector maps\<close>

text \<open>
  However operators create and edit instances, draft, edit, sample, validate and activate maps, trip the
  switch and rewind the watermark, an instance works with maps that passed validation and are the active
  ones, and with nothing else.
\<close>

definition map_key :: "map_row \<Rightarrow> map_kind \<times> string" where
  "map_key m = (mr_kind m, mr_id m)"

definition active_of :: "instance_row \<Rightarrow> map_kind \<Rightarrow> string option" where
  "active_of i k = (case k of Field_kind \<Rightarrow> in_field_map i | State_kind \<Rightarrow> in_state_map i)"

text \<open>The maps the instances name, and the maps that are active at their instance.\<close>

definition pointers :: "instance_row \<Rightarrow> (string \<times> map_kind \<times> string) set" where
  "pointers i = {(in_id i, k, a) | k a. active_of i k = Some a}"

definition named_maps :: "sync_state \<Rightarrow> (string \<times> map_kind \<times> string) set" where
  "named_maps st = (\<Union>i\<in>set (sy_instances st). pointers i)"

definition active_maps :: "sync_state \<Rightarrow> (string \<times> map_kind \<times> string) set" where
  "active_maps st = (\<lambda>m. (mr_instance m, mr_kind m, mr_id m)) ` {m \<in> set (sy_maps st). mr_stage m = Active_map}"

definition mode_backed :: "instance_row \<Rightarrow> bool" where
  "mode_backed i \<longleftrightarrow> (in_mode i \<noteq> Mode_off \<longrightarrow> in_field_map i \<noteq> None) \<and> (in_mode i = Bidirectional \<longrightarrow> in_state_map i \<noteq> None)"

definition reported :: "map_row \<Rightarrow> bool" where
  "reported m \<longleftrightarrow> mr_stage m \<noteq> Draft_map \<longrightarrow> mr_report m \<noteq> None"

definition maps_ok :: "sync_state \<Rightarrow> bool" where
  "maps_ok st \<longleftrightarrow> distinct (map in_id (sy_instances st)) \<and> distinct (map map_key (sy_maps st)) \<and>
     named_maps st = active_maps st \<and> (\<forall>i\<in>set (sy_instances st). mode_backed i) \<and> (\<forall>m\<in>set (sy_maps st). reported m)"

lemma named_maps_iff:
  "t \<in> named_maps st \<longleftrightarrow> (\<exists>r\<in>set (sy_instances st). in_id r = fst t \<and> active_of r (fst (snd t)) = Some (snd (snd t)))"
  by (cases t) (auto simp: named_maps_def pointers_def)

lemma active_maps_iff:
  "t \<in> active_maps st \<longleftrightarrow> (\<exists>x\<in>set (sy_maps st). mr_stage x = Active_map \<and> mr_instance x = fst t \<and> mr_kind x = fst (snd t) \<and> mr_id x = snd (snd t))"
  by (cases t) (auto simp: active_maps_def)

lemma instance_by_id_Some: "instance_by_id st i = Some r \<Longrightarrow> r \<in> set (sy_instances st) \<and> in_id r = i"
  by (auto simp: instance_by_id_def find_Some_iff)

lemma map_by_id_Some: "map_by_id st k m = Some r \<Longrightarrow> r \<in> set (sy_maps st) \<and> mr_kind r = k \<and> mr_id r = m"
  by (auto simp: map_by_id_def find_Some_iff)

lemma map_by_id_None: "map_by_id st k m = None \<Longrightarrow> (k, m) \<notin> set (map map_key (sy_maps st))"
  by (auto simp: map_by_id_def find_None_iff map_key_def)

lemma map_ids_if: "(\<And>x. h (f x) = h x) \<Longrightarrow> map h (map (\<lambda>x. if P x then f x else x) xs) = map h xs"
  by auto

lemma touch_instance_frame:
  "sy_maps (touch_instance i f st) = sy_maps st" "active_maps (touch_instance i f st) = active_maps st"
  "(\<And>x. in_id (f x) = in_id x) \<Longrightarrow> map in_id (sy_instances (touch_instance i f st)) = map in_id (sy_instances st)"
  by (simp_all add: touch_instance_def active_maps_def)

text \<open>Editing an instance without its maps.\<close>

lemma touch_instance_keeps:
  assumes ok: "maps_ok st"
    and f: "\<And>x. in_id (f x) = in_id x \<and> in_field_map (f x) = in_field_map x \<and> in_state_map (f x) = in_state_map x"
    and mode: "\<And>x. x \<in> set (sy_instances st) \<Longrightarrow> in_id x = i \<Longrightarrow> mode_backed x \<Longrightarrow> mode_backed (f x)"
  shows "maps_ok (touch_instance i f st)"
proof -
  have h: "in_id (if P then f x else x) = in_id x" "active_of (if P then f x else x) k = active_of x k" for P x k
    using f [of x] by (auto simp: active_of_def split: map_kind.split)
  have instances: "sy_instances (touch_instance i f st) = map (\<lambda>r. if in_id r = i then f r else r) (sy_instances st)"
    by (simp add: touch_instance_def)
  have "t \<in> named_maps (touch_instance i f st) \<longleftrightarrow> t \<in> named_maps st" for t
    unfolding named_maps_iff instances by (simp only: set_map bex_simps h)
  then have "named_maps (touch_instance i f st) = named_maps st" by blast
  moreover have "\<forall>x\<in>set (sy_instances (touch_instance i f st)). mode_backed x"
    using ok mode by (auto simp: touch_instance_def maps_ok_def)
  ultimately show ?thesis using ok f by (simp add: maps_ok_def touch_instance_frame)
qed

lemma update_instance_row_is:
  "update_instance_row i v f st = Inr st' \<Longrightarrow> st' = touch_instance i (\<lambda>x. f x\<lparr>in_version := in_version x + 1\<rparr>) st"
  by (auto simp: update_instance_row_def split: option.splits if_splits)

text \<open>Editing the one map of a key that is not active.\<close>

lemma touch_map_is:
  assumes "maps_ok st" "map_by_id st k m = Some r"
  shows "sy_maps (touch_map k m f st) = map (\<lambda>x. if x = r then f r else x) (sy_maps st)"
proof -
  note r = map_by_id_Some [OF assms(2)]
  have "x = r" if "x \<in> set (sy_maps st)" "mr_kind x = k \<and> mr_id x = m" for x
  proof -
    from assms(1) have "inj_on map_key (set (sy_maps st))" by (simp add: maps_ok_def distinct_map)
    moreover have "map_key x = map_key r" using that r by (simp add: map_key_def)
    ultimately show ?thesis using that(1) r by (auto dest: inj_onD)
  qed
  with r have "(mr_kind x = k \<and> mr_id x = m) = (x = r)" if "x \<in> set (sy_maps st)" for x using that by blast
  then show ?thesis by (simp add: touch_map_def cong: map_cong)
qed

lemma touch_map_keeps:
  assumes ok: "maps_ok st" and row: "map_by_id st k m = Some r" "mr_stage r \<noteq> Active_map"
    and f: "map_key (f r) = map_key r" "mr_stage (f r) \<noteq> Active_map" "reported (f r)"
  shows "maps_ok (touch_map k m f st)"
proof -
  note is_map = touch_map_is [OF ok row(1), of f]
  have "map map_key (sy_maps (touch_map k m f st)) = map map_key (sy_maps st)" unfolding is_map using f(1) by auto
  moreover have "{x \<in> set (sy_maps (touch_map k m f st)). mr_stage x = Active_map} = {x \<in> set (sy_maps st). mr_stage x = Active_map}"
    unfolding is_map using row(2) f(2) by auto
  moreover have "\<forall>x\<in>set (sy_maps (touch_map k m f st)). reported x"
    unfolding is_map using ok f(3) by (auto simp: maps_ok_def)
  moreover have "sy_instances (touch_map k m f st) = sy_instances st" by (simp add: touch_map_def)
  ultimately show ?thesis using ok by (simp add: maps_ok_def active_maps_def named_maps_def)
qed

lemma editable_map_is:
  "editable_map k i m st = Inr r \<Longrightarrow> map_by_id st k m = Some r \<and> mr_instance r = i \<and> mr_stage r \<noteq> Active_map \<and> mr_stage r \<noteq> Retired_map"
  by (auto simp: editable_map_def and_then_Inr split: option.splits)

subsection \<open>The operations\<close>

lemma create_instance_keeps:
  assumes "maps_ok st" "create_instance_row allow dto i now st = Inr st'"
  shows "maps_ok st'"
proof -
  from assms(2) have st': "st' = st\<lparr>sy_instances := sy_instances st @ [new_instance dto i now]\<rparr>" and new: "i \<notin> in_id ` set (sy_instances st)"
    by (auto simp: create_instance_row_def and_then_Inr instance_by_id_def find_None_iff)
  have none: "active_of (new_instance dto i now) k = None" for k by (simp add: active_of_def new_instance_def split: map_kind.splits)
  have "named_maps st' = named_maps st" using none by (auto simp: named_maps_def pointers_def st')
  moreover have "mode_backed (new_instance dto i now)" by (simp add: mode_backed_def new_instance_def)
  moreover have "in_id (new_instance dto i now) = i" by (simp add: new_instance_def)
  ultimately show ?thesis using assms(1) new by (simp add: maps_ok_def st' active_maps_def)
qed

lemma update_instance_keeps:
  assumes ok: "maps_ok st" and run: "update_instance i dto st = Inr st'"
  shows "maps_ok st'"
proof -
  from run obtain r where r: "instance_by_id st i = Some r" by (auto simp: update_instance_def split: option.splits)
  with run have modes: "ui_mode dto = None \<or> ui_mode dto = Some Mode_off \<or> in_field_map r \<noteq> None"
      "ui_mode dto \<noteq> Some Bidirectional \<or> in_state_map r \<noteq> None"
    and st': "st' = st \<or> st' = touch_instance i (\<lambda>x. assign_instance dto x\<lparr>in_version := in_version x + 1\<rparr>) st"
    by (auto simp: update_instance_def and_then_Inr split: if_splits dest!: update_instance_row_is)
  have unique: "x = r" if "x \<in> set (sy_instances st)" "in_id x = i" for x
    using ok instance_by_id_Some [OF r] that by (auto simp: maps_ok_def distinct_map dest: inj_onD)
  have "maps_ok (touch_instance i (\<lambda>x. assign_instance dto x\<lparr>in_version := in_version x + 1\<rparr>) st)"
  proof (rule touch_instance_keeps [OF ok])
    fix x assume x: "x \<in> set (sy_instances st)" "in_id x = i" "mode_backed x"
    have "x = r" by (rule unique [OF x(1,2)])
    with x(3) modes show "mode_backed (assign_instance dto x\<lparr>in_version := in_version x + 1\<rparr>)"
      by (cases "ui_mode dto") (auto simp: mode_backed_def assign_instance_def sent_or_def)
  qed (simp add: assign_instance_def)
  with st' ok show ?thesis by auto
qed

lemma plain_instance_edits_keep:
  "maps_ok st \<Longrightarrow> test_connection speaks answer i st = Inr st' \<Longrightarrow> maps_ok st'"
  "maps_ok st \<Longrightarrow> kill_switch i tripped reason now st = Inr st' \<Longrightarrow> maps_ok st'"
  "maps_ok st \<Longrightarrow> rewind_watermark sn i to preview now st = Inr st' \<Longrightarrow> maps_ok st'"
  by (auto simp: test_connection_def kill_switch_def rewind_watermark_def and_then_Inr mode_backed_def split: option.splits sum.splits if_splits
      dest!: update_instance_row_is intro!: touch_instance_keeps)

lemma create_map_keeps:
  assumes "maps_ok st" "create_map k i m es sm st = Inr st'"
  shows "maps_ok st'"
proof -
  from assms(2) obtain v where st': "st' = st\<lparr>sy_maps := sy_maps st @ [\<lparr>mr_id = m, mr_kind = k, mr_instance = i, mr_version = v, mr_stage = Draft_map,
      mr_fields = es, mr_states = sm, mr_samples = [], mr_report = None\<rparr>]\<rparr>" and new: "(k, m) \<notin> map_key ` set (sy_maps st)"
    by (auto simp: create_map_def and_then_Inr split: option.splits dest!: map_by_id_None)
  have "active_maps st' = active_maps st" "named_maps st' = named_maps st" by (auto simp: st' active_maps_def named_maps_def)
  with assms(1) new show ?thesis by (simp add: maps_ok_def st' map_key_def reported_def)
qed

lemma draft_edits_keep:
  assumes "maps_ok st"
  shows "update_map k i m es sm st = Inr st' \<Longrightarrow> maps_ok st'"
    "store_samples i m records st = Inr st' \<Longrightarrow> maps_ok st'"
    "validate_map num dictionary machines k i m st = Inr st' \<Longrightarrow> maps_ok st'"
proof -
  have edit: "maps_ok (touch_map k m f st)"
    if "editable_map k i m st = Inr r" "map_key (f r) = map_key r" "mr_stage (f r) \<noteq> Active_map" "reported (f r)" for f r k i m
    using that editable_map_is [OF that(1)] by (intro touch_map_keeps [OF assms]) auto
  have rows: "reported r" if "editable_map k i m st = Inr r" for r k i m
    using editable_map_is [OF that] map_by_id_Some [of st k m r] assms by (auto simp: maps_ok_def)
  show "update_map k i m es sm st = Inr st' \<Longrightarrow> maps_ok st'"
    by (auto simp: update_map_def and_then_Inr map_key_def reported_def intro!: edit)
  show "store_samples i m records st = Inr st' \<Longrightarrow> maps_ok st'"
    using rows by (auto simp: store_samples_def and_then_Inr map_key_def reported_def intro!: edit dest: editable_map_is)
  have report: "maps_ok (store_report k m ok st)" if "editable_map k i m st = Inr r" for ok r
    unfolding store_report_def by (rule edit [OF that]) (simp_all add: map_key_def reported_def)
  have failed: "maps_ok (touch_map k m (\<lambda>x. x\<lparr>mr_report := Some False\<rparr>) st)" if "editable_map k i m st = Inr r" for r
    by (rule edit [OF that]) (use editable_map_is [OF that] in \<open>simp_all add: map_key_def reported_def\<close>)
  show "validate_map num dictionary machines k i m st = Inr st' \<Longrightarrow> maps_ok st'"
    using report failed
    by (cases k; cases dictionary) (auto simp: validate_map_def and_then_Inr Let_def)
qed

subsection \<open>Activation\<close>

lemma activate_map_keeps:
  assumes ok: "maps_ok st" and run: "activate_map k i m st = Inr st'"
  shows "maps_ok st'"
proof -
  from run obtain r row where r: "instance_by_id st i = Some r" and row: "map_by_id st k m = Some row" "mr_instance row = i" "mr_stage row = Validated_map"
    by (auto simp: activate_map_def and_then_Inr split: option.splits)
  let ?f = "\<lambda>x. case k of Field_kind \<Rightarrow> x\<lparr>in_field_map := Some m\<rparr> | State_kind \<Rightarrow> x\<lparr>in_state_map := Some m\<rparr>"
  let ?g = "\<lambda>x. if x = row then x\<lparr>mr_stage := Active_map\<rparr> else if mr_kind x = k \<and> mr_instance x = i \<and> mr_stage x = Active_map then x\<lparr>mr_stage := Retired_map\<rparr> else x"
  let ?h = "\<lambda>x. if in_id x = i then ?f x\<lparr>in_version := in_version x + 1\<rparr> else x"
  have at_key: "x = row" if "x \<in> set (sy_maps st)" "mr_kind x = k" "mr_id x = m" for x
  proof -
    from ok have "inj_on map_key (set (sy_maps st))" by (simp add: maps_ok_def distinct_map)
    moreover have "map_key x = map_key row" using that map_by_id_Some [OF row(1)] by (simp add: map_key_def)
    ultimately show ?thesis using that(1) map_by_id_Some [OF row(1)] by (auto dest: inj_onD)
  qed
  note in_row = map_by_id_Some [OF row(1)]
  have maps: "sy_maps st' = map ?g (sy_maps st)"
  proof -
    from run r row have "sy_maps st' = sy_maps (touch_map k m (\<lambda>x. x\<lparr>mr_stage := Active_map\<rparr>) (retire_active k i st))"
      by (auto simp: activate_map_def and_then_Inr dest!: update_instance_row_is) (simp add: touch_instance_def)
    also have "\<dots> = map ?g (sy_maps st)"
    proof -
      let ?retire = "\<lambda>x. if mr_kind x = k \<and> mr_instance x = i \<and> mr_stage x = Active_map then x\<lparr>mr_stage := Retired_map\<rparr> else x"
      let ?touch = "\<lambda>x. if mr_kind x = k \<and> mr_id x = m then x\<lparr>mr_stage := Active_map\<rparr> else x"
      have "?touch (?retire x) = ?g x" if "x \<in> set (sy_maps st)" for x
      proof (cases "x = row")
        case True
        with in_row row(3) show ?thesis by simp
      next
        case False
        with at_key [OF that] have "\<not> (mr_kind x = k \<and> mr_id x = m)" by blast
        with False show ?thesis by auto
      qed
      then show ?thesis by (simp add: touch_map_def retire_active_def)
    qed
    finally show ?thesis .
  qed
  have instances: "sy_instances st' = map ?h (sy_instances st)"
    using run r row by (auto simp: activate_map_def and_then_Inr touch_instance_def touch_map_def retire_active_def dest!: update_instance_row_is)
  have h: "in_id (?h x) = in_id x" "active_of (?h x) k' = (if in_id x = i \<and> k' = k then Some m else active_of x k')" "mode_backed x \<Longrightarrow> mode_backed (?h x)"
    for x k' by (auto simp: active_of_def mode_backed_def split: map_kind.splits)
  have here: "r \<in> set (sy_instances st)" "in_id r = i" using instance_by_id_Some [OF r] by simp_all
  have "t \<in> named_maps st' \<longleftrightarrow> t \<in> {t \<in> named_maps st. \<not> (fst t = i \<and> fst (snd t) = k)} \<union> {(i, k, m)}" for t
  proof -
    have "t \<in> named_maps st' \<longleftrightarrow> (\<exists>x\<in>set (sy_instances st). in_id x = fst t \<and>
        (if in_id x = i \<and> fst (snd t) = k then Some m else active_of x (fst (snd t))) = Some (snd (snd t)))"
      unfolding named_maps_iff instances by (simp only: set_map bex_simps h)
    also have "\<dots> \<longleftrightarrow> t \<in> {t \<in> named_maps st. \<not> (fst t = i \<and> fst (snd t) = k)} \<union> {(i, k, m)}"
      using here by (cases t) (auto simp: named_maps_iff)
    finally show ?thesis .
  qed
  then have "named_maps st' = {t \<in> named_maps st. \<not> (fst t = i \<and> fst (snd t) = k)} \<union> {(i, k, m)}" by blast
  moreover have "active_maps st' = {t \<in> active_maps st. \<not> (fst t = i \<and> fst (snd t) = k)} \<union> {(i, k, m)}"
  proof -
    have g: "mr_stage (?g x) = Active_map \<longleftrightarrow> x = row \<or> mr_stage x = Active_map \<and> \<not> (mr_kind x = k \<and> mr_instance x = i)"
        "mr_instance (?g x) = mr_instance x" "mr_kind (?g x) = mr_kind x" "mr_id (?g x) = mr_id x" for x
      by auto
    have "t \<in> active_maps st' \<longleftrightarrow> t \<in> {t \<in> active_maps st. \<not> (fst t = i \<and> fst (snd t) = k)} \<union> {(i, k, m)}" for t
    proof -
      have "t \<in> active_maps st' \<longleftrightarrow> (\<exists>x\<in>set (sy_maps st). (x = row \<or> mr_stage x = Active_map \<and> \<not> (mr_kind x = k \<and> mr_instance x = i)) \<and>
          mr_instance x = fst t \<and> mr_kind x = fst (snd t) \<and> mr_id x = snd (snd t))"
        unfolding active_maps_iff maps by (simp only: set_map bex_simps g)
      also have "\<dots> \<longleftrightarrow> t \<in> {t \<in> active_maps st. \<not> (fst t = i \<and> fst (snd t) = k)} \<union> {(i, k, m)}"
        using in_row row(2,3) by (cases t) (auto simp: active_maps_iff)
      finally show ?thesis .
    qed
    then show ?thesis by blast
  qed
  moreover have "\<forall>x\<in>set (sy_maps st'). reported x"
    using ok in_row row(3) unfolding maps by (auto simp: maps_ok_def reported_def)
  moreover have "map map_key (sy_maps st') = map map_key (sy_maps st)" unfolding maps by (auto simp: map_key_def)
  moreover have "map in_id (sy_instances st') = map in_id (sy_instances st)" unfolding instances using h(1) by auto
  moreover have "\<forall>x\<in>set (sy_instances st'). mode_backed x"
    unfolding instances set_map using ok h(3) by (blast dest: maps_ok_def [THEN iffD1])
  ultimately show ?thesis using ok by (simp add: maps_ok_def)
qed

subsection \<open>All histories\<close>

text \<open>A poll does not touch the tickets, so the environment of its step has no desk.\<close>

inductive connector_step :: "sync_state \<Rightarrow> sync_state \<Rightarrow> bool" where
  create: "create_instance_row allow dto i now st = Inr st' \<Longrightarrow> connector_step st st'"
| update: "update_instance i patch st = Inr st' \<Longrightarrow> connector_step st st'"
| test: "test_connection speaks answer i st = Inr st' \<Longrightarrow> connector_step st st'"
| switch: "kill_switch i tripped reason now st = Inr st' \<Longrightarrow> connector_step st st'"
| rewind: "rewind_watermark sn i to preview now st = Inr st' \<Longrightarrow> connector_step st st'"
| draft: "create_map k i m es sm st = Inr st' \<Longrightarrow> connector_step st st'"
| edit: "update_map k i m es sm st = Inr st' \<Longrightarrow> connector_step st st'"
| sample: "store_samples i m records st = Inr st' \<Longrightarrow> connector_step st st'"
| validate: "validate_map num dictionary machines k i m st = Inr st' \<Longrightarrow> connector_step st st'"
| activate: "activate_map k i m st = Inr st' \<Longrightarrow> connector_step st st'"
| poll: "connector_step st (poll_due (ev :: unit sync_env) now st)"
| health: "connector_step st (recompute_health now st)"

text \<open>The worker's poll and its health run leave the maps and the modes of the instances alone.\<close>

definition set_up :: "sync_state \<Rightarrow> map_row list \<times> (string \<times> sync_mode \<times> string option \<times> string option) list" where
  "set_up st = (sy_maps st, map (\<lambda>r. (in_id r, in_mode r, in_field_map r, in_state_map r)) (sy_instances st))"

lemma set_up_touch:
  "(\<And>x. in_id (f x) = in_id x \<and> in_mode (f x) = in_mode x \<and> in_field_map (f x) = in_field_map x \<and> in_state_map (f x) = in_state_map x) \<Longrightarrow>
     set_up (touch_instance i f st) = set_up st"
  by (simp add: set_up_def touch_instance_def)

lemma set_up_rows [simp]:
  "set_up (insert_run r st) = set_up st" "set_up (audit_sync e st) = set_up st" "set_up (insert_inbox i rec js fs st) = set_up st"
  by (simp_all add: set_up_def insert_run_def audit_sync_def insert_inbox_def)

lemma set_up_store_page: "set_up (snd (store_page sn i rs st)) = set_up st"
  by (induction rs arbitrary: st) (auto split: sum.splits)

lemma set_up_ended [simp]: "set_up (poll_failed i e now st) = set_up st" "set_up (poll_succeeded ev i rs now st) = set_up st"
  by (simp_all add: poll_failed_def poll_succeeded_def set_up_touch)

lemma set_up_poll_one: "set_up (poll_one ev now i st) = set_up st"
proof (cases "sn_connect (ev_snow ev) i")
  case (Inr u)
  show ?thesis
  proof (cases "sn_changed (ev_snow ev) (in_table i) (in_watermark i) (in_watermark_id i) page")
    case (Inr rs)
    obtain err st1 where page: "store_page (ev_snow ev) i rs st = (err, st1)" by fastforce
    with set_up_store_page [of "ev_snow ev" i rs st] have "set_up st1 = set_up st" by simp
    with page Inr \<open>sn_connect (ev_snow ev) i = Inr u\<close> show ?thesis by (cases err) (simp_all add: poll_one_def)
  qed (simp add: poll_one_def \<open>sn_connect (ev_snow ev) i = Inr u\<close>)
qed (simp add: poll_one_def)

lemma set_up_fold: "(\<And>x st. set_up (g x st) = set_up st) \<Longrightarrow> set_up (fold g xs st) = set_up st"
  by (induction xs arbitrary: st) simp_all

lemma set_up_health_of: "set_up (health_of now i st) = set_up st"
  by (simp add: health_of_def trip_def Let_def set_up_touch)

lemma worker_keeps_set_up: "set_up (poll_due ev now st) = set_up st" "set_up (recompute_health now st) = set_up st"
  unfolding poll_due_def poll_account_def recompute_health_def health_account_def
  by (rule set_up_fold, rule set_up_fold, rule set_up_poll_one set_up_health_of)+

lemma set_up_decides:
  assumes "set_up st' = set_up st" "maps_ok st"
  shows "maps_ok st'"
proof -
  let ?p = "\<lambda>r. (in_id r, in_mode r, in_field_map r, in_state_map r)"
  have rows: "map ?p (sy_instances st') = map ?p (sy_instances st)" and m: "sy_maps st' = sy_maps st"
    using assms(1) by (simp_all add: set_up_def)
  have ids: "map in_id (sy_instances st') = map in_id (sy_instances st)" using arg_cong [OF rows, of "map fst"] by (simp add: comp_def)
  have same: "?p ` set (sy_instances st') = ?p ` set (sy_instances st)" using arg_cong [OF rows, of set] by simp
  have by_view: "(\<exists>r\<in>set (sy_instances x). in_id r = fst t \<and> active_of r (fst (snd t)) = Some (snd (snd t))) \<longleftrightarrow>
      (\<exists>v\<in>?p ` set (sy_instances x). fst v = fst t \<and>
        (case fst (snd t) of Field_kind \<Rightarrow> fst (snd (snd v)) | State_kind \<Rightarrow> snd (snd (snd v))) = Some (snd (snd t)))" for x t
    by (simp add: active_of_def split: map_kind.split)
  have "named_maps st' = named_maps st" by (intro set_eqI) (simp only: named_maps_iff by_view same)
  moreover have backed: "(\<forall>r\<in>set (sy_instances x). mode_backed r) \<longleftrightarrow> (\<forall>v\<in>?p ` set (sy_instances x).
      (fst (snd v) \<noteq> Mode_off \<longrightarrow> fst (snd (snd v)) \<noteq> None) \<and> (fst (snd v) = Bidirectional \<longrightarrow> snd (snd (snd v)) \<noteq> None))" for x
    by (simp add: mode_backed_def)
  have "(\<forall>r\<in>set (sy_instances st'). mode_backed r) \<longleftrightarrow> (\<forall>r\<in>set (sy_instances st). mode_backed r)" by (simp only: backed same)
  ultimately show ?thesis using assms(2) ids m by (simp add: maps_ok_def active_maps_def)
qed

lemma connector_step_keeps: "connector_step st st' \<Longrightarrow> maps_ok st \<Longrightarrow> maps_ok st'"
proof (induction rule: connector_step.induct)
  case (poll st ev now)
  then show ?case using set_up_decides worker_keeps_set_up(1) by blast
next
  case (health st now)
  then show ?case using set_up_decides worker_keeps_set_up(2) by blast
qed (rule create_instance_keeps update_instance_keeps plain_instance_edits_keep create_map_keeps draft_edits_keep activate_map_keeps; assumption)+

lemma connector_reached:
  assumes "connector_step\<^sup>*\<^sup>* st st'" "sy_instances st = []" "sy_maps st = []"
  shows "maps_ok st'"
  using assms(1)
proof (induction rule: rtranclp_induct)
  case base
  with assms(2,3) show ?case by (simp add: maps_ok_def named_maps_def active_maps_def)
qed (rule connector_step_keeps)

subsection \<open>The property\<close>


text \<open>An instance is created; two field maps are drafted, validated and activated in turn.\<close>

definition acme_dto :: instance_dto where
  "acme_dto = \<lparr>ci_account = ''a'', ci_name = ''Acme'',
     ci_url = Some \<lparr>url_protocol = ''https:'', url_hostname = ''acme.example.com'', url_username = [], url_password = []\<rparr>,
     ci_auth = Basic_auth, ci_credential = \<lparr>cl_username = ''u'', cl_password = ''p'', cl_client = [], cl_secret = []\<rparr>,
     ci_table = None, ci_itsm = None, ci_poll = None\<rparr>"

definition map_in_use :: "string \<Rightarrow> sync_state \<Rightarrow> sync_fault + sync_state" where
  "map_in_use m st =
     and_then (create_map Field_kind ''i'' m sample_map [] st) (\<lambda>st1.
     and_then (validate_map (\<lambda>n. []) (Inr []) [] Field_kind ''i'' m st1) (activate_map Field_kind ''i'' m))"

definition two_maps :: "sync_fault + sync_state" where
  "two_maps = and_then (create_instance_row True acme_dto ''i'' 1000 no_sync) (\<lambda>st1. and_then (map_in_use ''m1'' st1) (map_in_use ''m2''))"

lemma map_in_use_steps: "map_in_use m st = Inr st' \<Longrightarrow> connector_step\<^sup>*\<^sup>* st st'"
  by (auto simp: map_in_use_def and_then_Inr
      dest!: connector_step.draft connector_step.validate connector_step.activate intro: rtranclp_trans converse_rtranclp_into_rtranclp)

lemma two_maps_steps: "two_maps = Inr st \<Longrightarrow> connector_step\<^sup>*\<^sup>* no_sync st"
  by (auto simp: two_maps_def and_then_Inr dest!: map_in_use_steps connector_step.create intro: rtranclp_trans converse_rtranclp_into_rtranclp)


text \<open>A validation that is overtaken demotes the active map: the map is read, activated by someone else while the dictionary is
  fetched, and the report is then stored with the stage of a validated map; the instance goes on naming it, and
  from then on the map can be edited under the running sync without another validation.\<close>

definition overtaken_validation :: "sync_fault + sync_state" where
  "overtaken_validation =
     and_then (create_instance_row True acme_dto ''i'' 1000 no_sync) (\<lambda>st0.
     and_then (create_map Field_kind ''i'' ''m1'' sample_map [] st0) (\<lambda>st1.
     and_then (validate_map (\<lambda>n. []) (Inr []) [] Field_kind ''i'' ''m1'' st1) (\<lambda>st2.
     and_then (editable_map Field_kind ''i'' ''m1'' st2) (\<lambda>r.
     and_then (activate_map Field_kind ''i'' ''m1'' st2) (\<lambda>st3.
     update_map Field_kind ''i'' ''m1'' [] [] (store_report Field_kind ''m1'' (vr_ok (validate_field_map (\<lambda>n. []) (mr_fields r) [] (mr_samples r))) st3))))))"

theorem overtaken_validation_demotes:
  "case overtaken_validation of
     Inl e \<Rightarrow> False
   | Inr st \<Rightarrow> map in_field_map (sy_instances st) = [Some ''m1''] \<and> map mr_stage (sy_maps st) = [Draft_map] \<and> map mr_fields (sy_maps st) = [[]]"
  by code_simp

end
