(* ===== verification/Email_Rules.thy ===== *)
theory Email_Rules
  imports Prelude
begin

section \<open>Rules on email (src/domain/email, src/modules/email/templates.ts)\<close>

text \<open>
  The loop score of an inbound message, the matching of a message to a thread, the stripping of a reply,
  the text of an HTML body and the escaping of the templates. The reply patterns are data of the
  repository and their matching is the regular expressions': a pattern is a function from a text to the
  index of its first match.
\<close>

subsection \<open>The loop score (loop-guard.ts)\<close>

datatype header_value = One_header string | Many_headers "string list"

record loop_input =
  li_headers :: "header_value js_map"
  li_subject :: string
  li_from :: string
  li_references :: "string list"
  li_own_ids :: "string list"
  li_own_senders :: "string list"
  li_sender_count :: int
  li_subject_count :: int

record loop_verdict =
  lv_score :: int
  lv_signals :: "string list"
  lv_suppress :: bool
  lv_flagged :: bool

definition suppress_at :: int where "suppress_at = 100"

definition flag_at :: int where "flag_at = 60"

text \<open>The first value of a header, by its lower-case name or as it is written; an empty text counts as none.\<close>

definition loop_header :: "header_value js_map \<Rightarrow> string \<Rightarrow> string option" where
  "loop_header hs name =
     (case (case map_of hs (js_lower name) of Some v \<Rightarrow> Some v | None \<Rightarrow> map_of hs name) of
        None \<Rightarrow> None
      | Some (One_header v) \<Rightarrow> Some v
      | Some (Many_headers []) \<Rightarrow> None
      | Some (Many_headers (v # vs)) \<Rightarrow> Some v)"

definition said :: "string option \<Rightarrow> bool" where
  "said v \<longleftrightarrow> v \<noteq> None \<and> v \<noteq> Some []"

definition auto_prefixes :: "string list" where
  "auto_prefixes =
     [''automatic reply'', ''auto reply'', ''auto-reply'', ''autoreply'', ''automatic-reply'', ''automaticreply'',
      ''out of the office'', ''out of office'', ''autoresponse'', ''abwesenheit'', ''r'' @ [CHR 0xE9] @ ''ponse automatique'',
      ''respuesta autom'' @ [CHR 0xE1] @ ''tica'', ''ausencia'']"

definition is_auto_subject :: "string \<Rightarrow> bool" where
  "is_auto_subject subject \<longleftrightarrow> (\<exists>p\<in>set auto_prefixes. starts_with p (js_lower (js_trim subject)))"

text \<open>Each signal with its points, in the order they are looked for.\<close>

definition auto_submitted_signal :: "header_value js_map \<Rightarrow> (int \<times> string) list" where
  "auto_submitted_signal hs =
     (case loop_header hs ''auto-submitted'' of
        None \<Rightarrow> []
      | Some v \<Rightarrow> if v \<noteq> [] \<and> js_lower (js_trim v) \<noteq> ''no'' then [(100, ''auto_submitted'')] else [])"

definition auto_reply_signal :: "header_value js_map \<Rightarrow> (int \<times> string) list" where
  "auto_reply_signal hs =
     (case filter (\<lambda>n. said (loop_header hs n)) [''x-auto-response-suppress'', ''x-autoreply'', ''x-autorespond''] of
        [] \<Rightarrow> []
      | n # ns \<Rightarrow> [(100, drop 2 n)])"

definition precedence_signal :: "header_value js_map \<Rightarrow> (int \<times> string) list" where
  "precedence_signal hs =
     (case map_option js_lower (loop_header hs ''precedence'') of
        Some p \<Rightarrow> if p \<in> {''bulk'', ''list'', ''junk''} then [(100, ''precedence_'' @ p)]
                  else if said (loop_header hs ''list-id'') then [(100, ''list_id'')] else []
      | None \<Rightarrow> if said (loop_header hs ''list-id'') then [(100, ''list_id'')] else [])"

definition loop_signals :: "loop_input \<Rightarrow> (int \<times> string) list" where
  "loop_signals i =
     auto_submitted_signal (li_headers i) @ auto_reply_signal (li_headers i) @ precedence_signal (li_headers i) @
     (if 2 \<le> length (filter (\<lambda>r. r \<in> set (li_own_ids i)) (li_references i)) then [(80, ''reflected_thread'')] else []) @
     (if 10 < li_sender_count i then [(60, ''sender_rate'')] else []) @
     (if 5 \<le> li_subject_count i then [(40, ''subject_burst'')] else []) @
     (if is_auto_subject (li_subject i) then [(50, ''auto_reply_subject'')] else []) @
     (if js_lower (li_from i) \<in> set (li_own_senders i) then [(100, ''self_reflection'')] else [])"

definition score_loop :: "loop_input \<Rightarrow> loop_verdict" where
  "score_loop i =
     (let ss = loop_signals i; score = sum_list (map fst ss)
      in \<lparr>lv_score = score, lv_signals = map snd ss, lv_suppress = (suppress_at \<le> score), lv_flagged = (flag_at \<le> score \<and> score < suppress_at)\<rparr>)"

subsection \<open>Threads (thread-matcher.ts)\<close>

definition normalise_message_id :: "string option \<Rightarrow> string option" where
  "normalise_message_id v =
     (case v of
        None \<Rightarrow> None
      | Some s \<Rightarrow>
          let t = js_trim s in
          if t = [] then None
          else if hd t = CHR ''<'' then Some t
          else Some (''<'' @ (if last t = CHR ''>'' then butlast t else t) @ ''>''))"

text \<open>\<open>/^[a-z0-9.-]+\\+([a-z2-7]\{12\})@/i\<close>.\<close>

definition local_char :: "char \<Rightarrow> bool" where
  "local_char c \<longleftrightarrow> is_lower_letter c \<or> is_upper_letter c \<or> is_digit c \<or> c = CHR ''.'' \<or> c = CHR ''-''"

definition token_char :: "char \<Rightarrow> bool" where
  "token_char c \<longleftrightarrow> is_lower_letter c \<or> is_upper_letter c \<or> c \<in> set ''234567''"

definition plus_token :: "string \<Rightarrow> string option" where
  "plus_token address =
     (let rest = dropWhile local_char address; token = take 12 (drop 1 rest) in
      if takeWhile local_char address \<noteq> [] \<and> take 1 rest = ''+'' \<and> length token = 12 \<and> list_all token_char token \<and>
         take 1 (drop 13 rest) = ''@''
      then Some (js_lower token) else None)"

fun plus_token_of :: "string list \<Rightarrow> string option" where
  "plus_token_of [] = None"
| "plus_token_of (r # rs) = (case plus_token r of Some t \<Rightarrow> Some t | None \<Rightarrow> plus_token_of rs)"

text \<open>\<open>/\\[(CS\\d\{7,\})\\]/i\<close>: the first key in square brackets.\<close>

definition bracketed_key :: "string \<Rightarrow> string option" where
  "bracketed_key s =
     (let digits = takeWhile is_digit (drop 3 s) in
      if take 1 s = ''['' \<and> js_upper (take 2 (drop 1 s)) = ''CS'' \<and> 7 \<le> length digits \<and> take 1 (drop (3 + length digits) s) = '']''
      then Some (js_upper (take 2 (drop 1 s) @ digits)) else None)"

fun subject_key_of :: "string \<Rightarrow> string option" where
  "subject_key_of [] = None"
| "subject_key_of (c # s) = (case bracketed_key (c # s) of Some k \<Rightarrow> Some k | None \<Rightarrow> subject_key_of s)"

datatype matched_by = By_plus_token | By_in_reply_to | By_references | By_subject_key

record thread_lookup =
  tl_token :: "string \<Rightarrow> string option"
  tl_message :: "string \<Rightarrow> string option"
  tl_key :: "string \<Rightarrow> (string \<times> bool) option"

fun first_reference :: "(string \<Rightarrow> string option) \<Rightarrow> string list \<Rightarrow> string option" where
  "first_reference look [] = None"
| "first_reference look (r # rs) =
     (case Option.bind (normalise_message_id (Some r)) look of Some t \<Rightarrow> Some t | None \<Rightarrow> first_reference look rs)"

definition match_thread :: "string list \<Rightarrow> string option \<Rightarrow> string list \<Rightarrow> string \<Rightarrow> thread_lookup \<Rightarrow> (string \<times> matched_by) option" where
  "match_thread recipients in_reply_to references subject look =
     (case Option.bind (plus_token_of recipients) (tl_token look) of
        Some t \<Rightarrow> Some (t, By_plus_token)
      | None \<Rightarrow>
     (case Option.bind (normalise_message_id in_reply_to) (tl_message look) of
        Some t \<Rightarrow> Some (t, By_in_reply_to)
      | None \<Rightarrow>
     (case first_reference (tl_message look) (rev references) of
        Some t \<Rightarrow> Some (t, By_references)
      | None \<Rightarrow>
     (case Option.bind (subject_key_of subject) (tl_key look) of
        Some (t, closed_too_long) \<Rightarrow> if closed_too_long then None else Some (t, By_subject_key)
      | None \<Rightarrow> None))))"

definition token_alphabet :: string where
  "token_alphabet = ''abcdefghijklmnopqrstuvwxyz234567''"

definition new_email_token :: "nat list \<Rightarrow> string" where
  "new_email_token bytes = map (\<lambda>b. token_alphabet ! (b mod 32)) bytes"

subsection \<open>Stripping a reply (stripper.ts)\<close>

type_synonym pattern = "string \<Rightarrow> nat option"

record reply_patterns =
  rp_quote :: "pattern list"
  rp_signature :: "pattern list"
  rp_disclaimer :: "(string \<Rightarrow> bool) list"

definition max_strip_chars :: int where
  "max_strip_chars = 512 * 1024"

text \<open>\<open>slice(0, n)\<close>.\<close>

fun slice_to :: "int \<Rightarrow> string \<Rightarrow> string" where
  "slice_to n [] = []"
| "slice_to n (c # s) = (if n \<le> 0 then [] else c # slice_to (n - 1) s)"

fun unix_lines :: "string \<Rightarrow> string" where
  "unix_lines (a # b # s) = (if a = CHR 0x0D \<and> b = CHR 0x0A then b # unix_lines s else a # unix_lines (b # s))"
| "unix_lines s = s"

definition blank :: "char \<Rightarrow> bool" where
  "blank c \<longleftrightarrow> c = CHR '' '' \<or> c = CHR 0x09"

definition line_end :: "char \<Rightarrow> bool" where
  "line_end c \<longleftrightarrow> c = CHR 0x0A \<or> c = CHR 0x0D"

text \<open>The index of the first line that starts with a quote mark; \<open>start\<close> says whether a line starts here.\<close>

fun quote_line :: "nat \<Rightarrow> bool \<Rightarrow> string \<Rightarrow> nat option" where
  "quote_line n start [] = None"
| "quote_line n start (c # s) =
     (if start \<and> take 1 (dropWhile blank (c # s)) = ''>'' then Some n else quote_line (n + 1) (line_end c) s)"

definition earliest :: "nat option list \<Rightarrow> nat option" where
  "earliest ns = fold (\<lambda>n m. case n of None \<Rightarrow> m | Some i \<Rightarrow> (case m of None \<Rightarrow> Some i | Some j \<Rightarrow> Some (min i j))) ns None"

definition cut_at :: "nat option \<Rightarrow> string \<Rightarrow> string" where
  "cut_at n s = (case n of None \<Rightarrow> s | Some i \<Rightarrow> if 0 < i then take i s else s)"

text \<open>\<open>split(/\\n\{2,\}/)\<close>: pieces between runs of two or more line feeds.\<close>

fun paragraphs :: "string \<Rightarrow> nat \<Rightarrow> string \<Rightarrow> string list" where
  "paragraphs acc n [] = (if 2 \<le> n then [acc, []] else [acc @ replicate n (CHR 0x0A)])"
| "paragraphs acc n (c # s) =
     (if c = CHR 0x0A then paragraphs acc (n + 1) s
      else if 2 \<le> n then acc # paragraphs [c] 0 s
      else paragraphs (acc @ replicate n (CHR 0x0A) @ [c]) 0 s)"

fun strip_line_ends :: "string \<Rightarrow> string" where
  "strip_line_ends [] = []"
| "strip_line_ends (c # s) =
     (if blank c \<and> (case dropWhile blank s of [] \<Rightarrow> True | d # _ \<Rightarrow> line_end d) then strip_line_ends s else c # strip_line_ends s)"

record strip_result =
  st_text :: string
  st_quoted :: bool
  st_signature :: bool
  st_disclaimer :: bool

definition is_disclaimer :: "reply_patterns \<Rightarrow> string \<Rightarrow> bool" where
  "is_disclaimer ps p \<longleftrightarrow> 400 < int (length p) \<and> (\<exists>f\<in>set (rp_disclaimer ps). f p)"

definition strip_reply :: "reply_patterns \<Rightarrow> string \<Rightarrow> strip_result" where
  "strip_reply ps body =
     (let text0 = unix_lines (slice_to max_strip_chars body);
          cut = earliest (map (\<lambda>p. p text0) (rp_quote ps) @ [quote_line 0 True text0]);
          text1 = cut_at cut text0;
          sig = earliest (filter (\<lambda>n. n \<noteq> Some 0) (map (\<lambda>p. p text1) (rp_signature ps)));
          text2 = cut_at sig text1;
          parts = paragraphs [] 0 text2;
          kept = filter (\<lambda>p. \<not> is_disclaimer ps p) parts
      in \<lparr>st_text = js_trim (strip_line_ends (join_with [CHR 0x0A, CHR 0x0A] kept)), st_quoted = (cut \<noteq> None \<and> cut \<noteq> Some 0),
          st_signature = (sig \<noteq> None), st_disclaimer = (kept \<noteq> parts)\<rparr>)"

subsection \<open>The text of an HTML body (email.service.ts)\<close>

fun replace_all :: "string \<Rightarrow> string \<Rightarrow> nat \<Rightarrow> string \<Rightarrow> string" where
  "replace_all p r skip [] = []"
| "replace_all p r (Suc n) (c # s) = replace_all p r n s"
| "replace_all p r 0 (c # s) =
     (if p \<noteq> [] \<and> starts_with p (c # s) then r @ replace_all p r (length p - 1) s else c # replace_all p r 0 s)"

definition replaced :: "string \<Rightarrow> string \<Rightarrow> string \<Rightarrow> string" where
  "replaced p r s = replace_all p r 0 s"

text \<open>The entities, in the order the code decodes them.\<close>

definition decode_entities :: "string \<Rightarrow> string" where
  "decode_entities s =
     replaced ''&#39;'' [CHR 0x27] (replaced ''&quot;'' [CHR 0x22] (replaced ''&gt;'' ''>'' (replaced ''&lt;'' ''<''
       (replaced ''&amp;'' ''&'' (replaced ''&nbsp;'' '' '' s)))))"

text \<open>The first characters of a text up to the end of a tag, of a line break, of the closing of a block.\<close>

definition tag_length :: "string \<Rightarrow> nat" where
  "tag_length s =
     (let inner = takeWhile (\<lambda>c. c \<noteq> CHR ''>'') (drop 1 s) in
      if take 1 s = ''<'' \<and> inner \<noteq> [] \<and> length inner + 1 < length s then length inner + 2 else 0)"

definition break_length :: "string \<Rightarrow> nat" where
  "break_length s =
     (if js_lower (take 3 s) = ''<br'' then
        let rest = dropWhile js_space (drop 3 s); rest' = (if take 1 rest = ''/'' then drop 1 rest else rest)
        in if take 1 rest' = ''>'' then length s - length rest' + 1 else 0
      else 0)"

definition block_end_length :: "string \<Rightarrow> nat" where
  "block_end_length s =
     (case find (\<lambda>t. starts_with t (js_lower s)) [''</p>'', ''</div>'', ''</tr>'', ''</li>'', ''</h1>'', ''</h2>'', ''</h3>'', ''</h4>'', ''</h5>'', ''</h6>''] of
        None \<Rightarrow> 0 | Some t \<Rightarrow> length t)"

text \<open>The index after the first occurrence of a text, letter case aside.\<close>

fun index_after :: "string \<Rightarrow> nat \<Rightarrow> string \<Rightarrow> nat option" where
  "index_after p n [] = None"
| "index_after p n (c # s) = (if starts_with p (js_lower (c # s)) then Some (n + length p) else index_after p (n + 1) s)"

definition quote_length :: "string \<Rightarrow> nat" where
  "quote_length s =
     (if starts_with ''<blockquote'' (js_lower s) then
        (case index_after ''</blockquote>'' 11 (drop 11 s) of None \<Rightarrow> 0 | Some n \<Rightarrow> n)
      else 0)"

definition rest_length :: "string \<Rightarrow> nat" where
  "rest_length s = (if starts_with ''<div class=\"gmail_quote\"'' (js_lower s) then length s else 0)"

text \<open>Replaces every piece a measure finds.\<close>

fun replace_pieces :: "(string \<Rightarrow> nat) \<Rightarrow> string \<Rightarrow> nat \<Rightarrow> string \<Rightarrow> string" where
  "replace_pieces len r skip [] = []"
| "replace_pieces len r (Suc n) (c # s) = replace_pieces len r n s"
| "replace_pieces len r 0 (c # s) =
     (let n = len (c # s) in if 0 < n then r @ replace_pieces len r (n - 1) s else c # replace_pieces len r 0 s)"

text \<open>Runs of three or more line feeds become two.\<close>

fun squeeze_lines :: "nat \<Rightarrow> string \<Rightarrow> string" where
  "squeeze_lines n [] = []"
| "squeeze_lines n (c # s) =
     (if c = CHR 0x0A then (if n < 2 then c # squeeze_lines (n + 1) s else squeeze_lines (n + 1) s) else c # squeeze_lines 0 s)"

definition html_to_text :: "string \<Rightarrow> string" where
  "html_to_text html =
     js_trim (squeeze_lines 0 (decode_entities (replace_pieces tag_length [] 0 (replace_pieces block_end_length [CHR 0x0A] 0
       (replace_pieces break_length [CHR 0x0A] 0 (replace_pieces rest_length [] 0 (replace_pieces quote_length [] 0 html)))))))"

subsection \<open>The templates (templates.ts)\<close>

definition escape_char :: "char \<Rightarrow> string" where
  "escape_char c =
     (if c = CHR ''&'' then ''&amp;'' else if c = CHR ''<'' then ''&lt;'' else if c = CHR ''>'' then ''&gt;''
      else if c = CHR 0x22 then ''&quot;'' else if c = CHR 0x27 then ''&#39;'' else [c])"

definition escape_html :: "string \<Rightarrow> string" where
  "escape_html s = concat (map escape_char s)"

record branding =
  br_name :: string
  br_accent :: "string option"
  br_footer :: "string option"

record rendered =
  rd_subject :: string
  rd_text :: string
  rd_html :: string

definition newline :: string where
  "newline = [CHR 0x0A]"

text \<open>\<open>/^#[0-9a-f]\{6\}$/i\<close>.\<close>

definition is_colour :: "string \<Rightarrow> bool" where
  "is_colour s \<longleftrightarrow> take 1 s = ''#'' \<and> length s = 7 \<and> list_all (\<lambda>c. is_digit c \<or> c \<in> set ''abcdefABCDEF'') (drop 1 s)"

definition accent_of :: "branding \<Rightarrow> string" where
  "accent_of b = (case br_accent b of None \<Rightarrow> ''#10193a'' | Some a \<Rightarrow> if is_colour a then a else ''#10193a'')"

definition layout :: "branding \<Rightarrow> string \<Rightarrow> string \<Rightarrow> string" where
  "layout b title body =
     ''<!doctype html><html><body style=\"margin:0;background:#f4f5f7;'' @
     ''font-family:Inter,Segoe UI,Helvetica,Arial,sans-serif;color:#0f172a\">'' @ newline @
     ''<table role=\"presentation\" width=\"100%\" cellspacing=\"0\" cellpadding=\"0\"><tr><td align=\"center\" style=\"padding:24px\">'' @ newline @
     ''<table role=\"presentation\" width=\"600\" cellspacing=\"0\" cellpadding=\"0\" '' @
     ''style=\"background:#ffffff;border:1px solid #e2e8f0;border-radius:6px\">'' @ newline @
     ''<tr><td style=\"background:'' @ accent_of b @
     '';color:#ffffff;padding:14px 20px;font-size:14px;font-weight:600\">'' @ escape_html (br_name b) @ '' support</td></tr>'' @ newline @
     ''<tr><td style=\"padding:20px;font-size:14px;line-height:1.5\"><h1 style=\"font-size:16px;margin:0 0 12px\">'' @
     escape_html title @ ''</h1>'' @ body @ ''</td></tr>'' @ newline @
     ''<tr><td style=\"padding:12px 20px;font-size:12px;color:#64748b;border-top:1px solid #e2e8f0\">Reply to this email to add to the request. '' @
     escape_html (case br_footer b of None \<Rightarrow> [] | Some f \<Rightarrow> f) @ ''</td></tr>'' @ newline @ ''</table></td></tr></table></body></html>''"

definition acknowledgement :: "branding \<Rightarrow> string \<Rightarrow> string \<Rightarrow> string \<Rightarrow> rendered" where
  "acknowledgement b key short requester =
     \<lparr>rd_subject = ''['' @ key @ ''] '' @ short,
      rd_text = ''Hello '' @ requester @ '','' @ newline @ newline @ ''We have received your request and logged it as '' @ key @ '': '' @ short @ ''.'' @
        newline @ newline @ ''Reply to this email to add information.'' @ newline,
      rd_html = layout b ''We have received your request''
        (''<p>Hello '' @ escape_html requester @ '',</p><p>Your request has been logged as <strong>'' @ escape_html key @ ''</strong>: '' @
         escape_html short @ ''.</p><p>Reply to this email to add information.</p>'')\<rparr>"

definition public_comment :: "branding \<Rightarrow> string \<Rightarrow> string \<Rightarrow> string \<Rightarrow> string \<Rightarrow> rendered" where
  "public_comment b key short author body =
     \<lparr>rd_subject = ''Re: ['' @ key @ ''] '' @ short, rd_text = author @ '' wrote on '' @ key @ '':'' @ newline @ newline @ body @ newline,
      rd_html = layout b (author @ '' replied on '' @ key) (''<div style=\"white-space:pre-wrap\">'' @ escape_html body @ ''</div>'')\<rparr>"

definition resolved_notice :: "branding \<Rightarrow> string \<Rightarrow> string \<Rightarrow> string \<Rightarrow> rendered" where
  "resolved_notice b key short remarks =
     \<lparr>rd_subject = ''Re: ['' @ key @ ''] '' @ short,
      rd_text = key @ '' has been resolved.'' @ newline @ newline @ remarks @ newline @ newline @
        ''If the problem persists, reply to this email to reopen the request.'' @ newline,
      rd_html = layout b (key @ '' has been resolved'') (''<div style=\"white-space:pre-wrap\">'' @ escape_html remarks @
        ''</div><p>If the problem persists, reply to this email to reopen the request.</p>'')\<rparr>"

subsection \<open>Properties\<close>

lemma score_loop_signals:
  "lv_signals (score_loop i) = map snd (loop_signals i)" "lv_suppress (score_loop i) \<longleftrightarrow> 100 \<le> sum_list (map fst (loop_signals i))"
  by (simp_all add: score_loop_def Let_def suppress_at_def)

lemma signal_points: "(n, s) \<in> set (loop_signals i) \<Longrightarrow> 0 < n"
  by (auto simp: loop_signals_def auto_submitted_signal_def auto_reply_signal_def precedence_signal_def split: option.splits list.splits if_splits)

lemma points_nonneg: "0 \<le> sum_list (map fst (filter P (loop_signals i)))"
  by (intro sum_list_nonneg) (auto dest!: signal_points)

lemma one_signal_suppresses:
  assumes "(n, s) \<in> set (loop_signals i)" "100 \<le> n"
  shows "lv_suppress (score_loop i)"
proof -
  obtain xs ys where l: "loop_signals i = xs @ (n, s) # ys" using assms(1) by (auto dest: split_list)
  have points: "0 \<le> fst p" if "p \<in> set xs \<or> p \<in> set ys" for p
    using signal_points [of "fst p" "snd p" i] that by (cases p) (simp add: l less_imp_le)
  have "0 \<le> sum_list (map fst xs)" "0 \<le> sum_list (map fst ys)" by (rule sum_list_nonneg; use points in fastforce)+
  with assms(2) show ?thesis by (simp add: score_loop_signals l)
qed

lemma match_thread_lookup:
  assumes "match_thread rs irt refs subject look = Some (t, how)"
  shows "(how = By_plus_token \<and> (\<exists>k. plus_token_of rs = Some k \<and> tl_token look k = Some t)) \<or>
    ((how = By_in_reply_to \<or> how = By_references) \<and> (\<exists>m. tl_message look m = Some t)) \<or>
    (how = By_subject_key \<and> (\<exists>k. subject_key_of subject = Some k \<and> tl_key look k = Some (t, False)))"
proof -
  have "\<exists>m. look' m = Some t" if "first_reference look' xs = Some t" for look' xs
    using that by (induction xs) (auto split: option.splits simp: bind_eq_Some_conv)
  then show ?thesis
    using assms by (auto simp: match_thread_def bind_eq_Some_conv split: option.splits if_splits prod.splits)
qed

lemma escape_char_inert: "c \<in> set (escape_char d) \<Longrightarrow> c \<notin> {CHR ''<'', CHR ''>'', CHR 0x22, CHR 0x27}"
  by (auto simp: escape_char_def split: if_splits)

lemma escape_char_prefix: "escape_char a @ s = escape_char b @ t \<Longrightarrow> a = b"
  by (auto simp: escape_char_def split: if_splits)

lemma escape_inert': "set (escape_html s) \<inter> {CHR ''<'', CHR ''>'', CHR 0x22, CHR 0x27} = {}"
  using escape_char_inert by (force simp: escape_html_def)

text \<open>Escaped text is inert: it holds no markup character, and two texts that differ are still told apart.\<close>

theorem escape_inert:
  "set (escape_html s) \<inter> {CHR ''<'', CHR ''>'', CHR 0x22, CHR 0x27} = {} \<and> (escape_html s = escape_html t \<longleftrightarrow> s = t)"
proof -
  have "escape_html s = escape_html t \<Longrightarrow> s = t"
  proof (induction s arbitrary: t)
    case Nil
    then show ?case by (cases t) (auto simp: escape_html_def escape_char_def split: if_splits)
  next
    case (Cons c s)
    show ?case
    proof (cases t)
      case Nil
      with Cons.prems show ?thesis by (auto simp: escape_html_def escape_char_def split: if_splits)
    next
      case (Cons d t')
      with Cons.prems have e: "escape_char c @ escape_html s = escape_char d @ escape_html t'" by (simp add: escape_html_def)
      then have "c = d" by (rule escape_char_prefix)
      with e Cons Cons.IH [of t'] show ?thesis by simp
    qed
  qed
  moreover note escape_inert' [of s]
  ultimately show ?thesis by auto
qed

text \<open>The characters that make markup, in their order.\<close>

definition markup :: "string \<Rightarrow> string" where
  "markup s = filter (\<lambda>c. c \<in> {CHR ''<'', CHR ''>'', CHR 0x22, CHR 0x27}) s"

lemma markup_append: "markup (s @ t) = markup s @ markup t"
  by (simp add: markup_def)

lemma markup_escape: "markup (escape_html s) = []"
  using escape_inert' [of s] by (auto simp: markup_def filter_empty_conv)

lemma markup_accent: "markup (accent_of b) = []"
proof -
  have "markup s = []" if c: "is_colour s" for s
  proof -
    have "list_all (\<lambda>c. is_digit c \<or> c \<in> set ''abcdefABCDEF'') (drop 1 s)" "take 1 s = ''#''" using c by (simp_all add: is_colour_def)
    moreover have "markup t = []" if "list_all (\<lambda>c. is_digit c \<or> c \<in> set ''abcdefABCDEF'') t" for t
      using that by (induction t) (auto simp: markup_def is_digit_def)
    ultimately have "markup (take 1 s @ drop 1 s) = []" by (simp only: markup_append) (simp add: markup_def)
    then show ?thesis by simp
  qed
  moreover have "markup ''#10193a'' = []" by code_simp
  ultimately show ?thesis by (auto simp: accent_of_def split: option.splits)
qed

lemma markup_body: "markup body = markup body' \<Longrightarrow> markup (layout b title body) = markup (layout b' title' body')"
  by (simp only: layout_def markup_append markup_escape markup_accent)

text \<open>No field reaches the markup of a sent message: the quotes and angle brackets of its HTML, in their order, are the
  template's own, whatever the ticket key, the description, the names, the comment and the account's branding hold.\<close>

theorem mail_markup_fixed:
  "markup (rd_html (acknowledgement b key short requester)) = markup (rd_html (acknowledgement b' [] [] [])) \<and>
   markup (rd_html (public_comment b key short requester body)) = markup (rd_html (public_comment b' [] [] [] [])) \<and>
   markup (rd_html (resolved_notice b key short body)) = markup (rd_html (resolved_notice b' [] [] []))"
  unfolding acknowledgement_def public_comment_def resolved_notice_def rendered.simps
  by (intro conjI markup_body) (simp_all only: markup_append markup_escape)

text \<open>The text of an HTML body is decoded twice: what was written as text comes out as markup.\<close>

theorem html_text_decoded_twice:
  "html_to_text (''<p>use '' @ escape_html ''&lt;b&gt;'' @ ''</p>'') = ''use <b>''"
  by code_simp

end
