(* ===== verification/Email_Service.thy ===== *)
theory Email_Service
  imports Email_Rules
begin

section \<open>Email intake and outbound (src/modules/email/email.service.ts, email.repository.ts)\<close>

text \<open>
  The rows of the email module, one handler per entry point: an inbound message, a quarantine decision, an
  outbox row, a delivery event, the aliases. Each handler is one transaction: a fault leaves the rows as
  they were. The tickets, contacts, users and attachments it works on are a record of functions over a
  state of their own; what the transport has taken is a log that a fault does not undo. The message parser,
  the object store and the random ids are the caller's.
\<close>

subsection \<open>Rows\<close>

datatype mail_fault = Mail_refused string | Mail_thrown string

record alias_row =
  al_id :: string
  al_account :: string
  al_address :: string
  al_type :: "string option"
  al_active :: bool

record identity_row =
  id_account :: string
  id_address :: string
  id_name :: string
  id_default :: bool

record claim_row =
  cm_message :: string
  cm_account :: "string option"
  cm_outcome :: "string option"

datatype disposition = Created_mail | Appended_mail | Quarantined_mail | Suppressed_mail | Rejected_mail | Duplicate_mail

datatype sender_resolution = Known_contact | Portal_sender | Known_internal | Unknown_sender

record inbound_row =
  ib_id :: nat
  ib_account :: string
  ib_alias :: string
  ib_message :: string
  ib_reply_to :: "string option"
  ib_references :: "string list"
  ib_plus :: "string option"
  ib_from :: string
  ib_name :: string
  ib_subject :: string
  ib_received :: ms
  ib_sender :: sender_resolution
  ib_contact :: "string option"
  ib_score :: int
  ib_signals :: "string list"
  ib_body :: string
  ib_disposition :: disposition
  ib_reason :: "string option"
  ib_matched :: "matched_by option"
  ib_ticket :: "string option"
  ib_comment :: "string option"

datatype decision = Create_contact_and_ticket | Create_ticket_once | Discard_mail | Mark_spam

record quarantine_row =
  qr_account :: string
  qr_inbound :: nat
  qr_open :: bool
  qr_decision :: "decision option"
  qr_ticket :: "string option"

record mail_out =
  mo_account :: string
  mo_ticket :: string
  mo_kind :: string
  mo_message :: string
  mo_reply_to :: "string option"
  mo_references :: "string list"
  mo_from :: string
  mo_to :: string
  mo_subject :: string
  mo_outbox :: nat
  mo_at :: ms

text \<open>The delivery of the outbound message at that position: one row a message.\<close>

record delivery_row =
  dy_account :: string
  dy_message :: nat
  dy_provider :: "string option"
  dy_state :: string

record suppressed_row =
  su_account :: string
  su_address :: string
  su_reason :: string
  su_live :: bool

datatype mail_event = Loop_suspected string string | Upload_rejected string string

record mail_state =
  ms_aliases :: "alias_row list"
  ms_identities :: "identity_row list"
  ms_claims :: "claim_row list"
  ms_inbound :: "inbound_row list"
  ms_quarantine :: "quarantine_row list"
  ms_outbound :: "mail_out list"
  ms_deliveries :: "delivery_row list"
  ms_suppressed :: "suppressed_row list"
  ms_events :: "mail_event list"

subsection \<open>Messages and surroundings\<close>

record mail_file =
  mf_name :: string
  mf_type :: string
  mf_content :: string

text \<open>A parsed message. The addresses of the two delivery headers are those found in their text.\<close>

record parsed_mail =
  pm_message :: "string option"
  pm_to :: "string option list"
  pm_cc :: "string option list"
  pm_delivered :: "string list"
  pm_original :: "string list"
  pm_from :: "(string option \<times> string) option"
  pm_subject :: "string option"
  pm_reply_to :: "string option"
  pm_references :: "string list"
  pm_headers :: "string js_map"
  pm_text :: "string option"
  pm_html :: string
  pm_files :: "mail_file list"

record mail_author =
  ma_internal :: bool
  ma_user :: string
  ma_name :: string

record mail_contact =
  mc_id :: string
  mc_email :: string
  mc_name :: string
  mc_portal :: bool

datatype mail_user = Internal_mail_user string string bool | Portal_mail_user string string string

record mail_ticket =
  mt_id :: string
  mt_account :: string
  mt_key :: string
  mt_short :: string
  mt_source :: string
  mt_contact :: "string option"
  mt_resolved :: bool
  mt_remarks :: "string option"
  mt_token :: "string option"

record ticket_order =
  to_account :: string
  to_type :: string
  to_short :: string
  to_body :: string
  to_email :: string
  to_name :: string

record 'd mail_desk =
  md_create :: "mail_author \<Rightarrow> ticket_order \<Rightarrow> 'd \<Rightarrow> mail_fault + (string \<times> 'd)"
  md_comment :: "mail_author \<Rightarrow> string \<Rightarrow> string \<Rightarrow> 'd \<Rightarrow> mail_fault + (string \<times> 'd)"
  md_token :: "string \<Rightarrow> string \<Rightarrow> 'd \<Rightarrow> mail_fault + 'd"
  md_store :: "mail_author \<Rightarrow> string \<Rightarrow> string option \<Rightarrow> mail_file \<Rightarrow> 'd \<Rightarrow> mail_fault + 'd"
  md_max_bytes :: "string \<Rightarrow> 'd \<Rightarrow> nat"
  md_by_token :: "string \<Rightarrow> string \<Rightarrow> 'd \<Rightarrow> string option"
  md_by_number :: "string \<Rightarrow> nat \<Rightarrow> 'd \<Rightarrow> (string \<times> ms option) option"
  md_ticket :: "string \<Rightarrow> 'd \<Rightarrow> mail_ticket option"
  md_comment_row :: "string \<Rightarrow> 'd \<Rightarrow> (string \<times> string) option"
  md_contact :: "string \<Rightarrow> string \<Rightarrow> 'd \<Rightarrow> mail_contact option"
  md_contact_by_id :: "string \<Rightarrow> 'd \<Rightarrow> mail_contact option"
  md_add_contact :: "string \<Rightarrow> string \<Rightarrow> string \<Rightarrow> bool \<Rightarrow> 'd \<Rightarrow> mail_fault + (mail_contact \<times> 'd)"
  md_drop_contact :: "string \<Rightarrow> string \<Rightarrow> 'd \<Rightarrow> mail_fault + 'd"
  md_user :: "string \<Rightarrow> 'd \<Rightarrow> mail_user option"
  md_account_key :: "string \<Rightarrow> 'd \<Rightarrow> string"
  md_branding :: "string \<Rightarrow> 'd \<Rightarrow> branding"

text \<open>A message as it is handed to the transport.\<close>

record sent_mail =
  se_account :: string
  se_from :: string
  se_to :: string
  se_reply :: string
  se_subject :: string
  se_text :: string
  se_html :: string
  se_message :: string
  se_reply_to :: "string option"
  se_references :: "string list"
  se_headers :: "string js_map"

record 'd mail_env =
  me_desk :: "'d mail_desk"
  me_patterns :: reply_patterns
  me_domain :: string
  me_send :: "sent_mail list \<Rightarrow> sent_mail \<Rightarrow> mail_fault + string"

subsection \<open>Addresses and aliases\<close>

definition addresses :: "string option list \<Rightarrow> string list" where
  "addresses vs = filter (\<lambda>a. a \<noteq> []) (map (\<lambda>v. js_lower (case v of None \<Rightarrow> [] | Some a \<Rightarrow> a)) vs)"

text \<open>\<open>replace(/\\+[a-z2-7]\{12\}@/, '@')\<close>.\<close>

definition is_lower_token :: "string \<Rightarrow> bool" where
  "is_lower_token t \<longleftrightarrow> length t = 12 \<and> list_all (\<lambda>c. is_lower_letter c \<or> c \<in> set ''234567'') t"

fun drop_plus :: "string \<Rightarrow> string" where
  "drop_plus [] = []"
| "drop_plus (c # s) = (if c = CHR ''+'' \<and> is_lower_token (take 12 s) \<and> take 1 (drop 12 s) = ''@'' then drop 12 s else c # drop_plus s)"

definition account_for_alias :: "mail_state \<Rightarrow> string \<Rightarrow> string option" where
  "account_for_alias st address = map_option al_account (find (\<lambda>a. al_address a = address \<and> al_active a) (ms_aliases st))"

definition alias_by_address :: "mail_state \<Rightarrow> string \<Rightarrow> alias_row option" where
  "alias_by_address st address = find (\<lambda>a. al_address a = address) (ms_aliases st)"

fun resolve_alias :: "mail_state \<Rightarrow> string list \<Rightarrow> (string \<times> string) option" where
  "resolve_alias st [] = None"
| "resolve_alias st (r # rs) =
     (let address = drop_plus (js_lower r)
      in case account_for_alias st address of Some a \<Rightarrow> Some (address, a) | None \<Rightarrow> resolve_alias st rs)"

definition create_alias :: "string \<Rightarrow> string \<Rightarrow> string \<Rightarrow> string option \<Rightarrow> mail_state \<Rightarrow> mail_fault + mail_state" where
  "create_alias i account address ty st =
     and_then (guard_or (alias_by_address st (js_lower address) = None \<and> i \<notin> al_id ` set (ms_aliases st)) (Mail_thrown ''alias exists'')) (\<lambda>_.
     Inr (st\<lparr>ms_aliases := ms_aliases st @ [\<lparr>al_id = i, al_account = account, al_address = js_lower address, al_type = ty, al_active = True\<rparr>]\<rparr>))"

definition set_alias_state :: "string \<Rightarrow> bool \<Rightarrow> mail_state \<Rightarrow> mail_fault + mail_state" where
  "set_alias_state i enable st =
     and_then (guard_or (i \<in> al_id ` set (ms_aliases st)) (Mail_refused ''alias'')) (\<lambda>_.
     Inr (st\<lparr>ms_aliases := map (\<lambda>a. if al_id a = i then a\<lparr>al_active := enable\<rparr> else a) (ms_aliases st)\<rparr>))"

subsection \<open>Queries\<close>

definition ten_minutes :: ms where
  "ten_minutes = 600000"

definition recent_from :: "mail_state \<Rightarrow> string \<Rightarrow> string \<Rightarrow> ms \<Rightarrow> inbound_row list" where
  "recent_from st account from now = filter (\<lambda>r. ib_account r = account \<and> ib_from r = from \<and> now - ten_minutes < ib_received r) (ms_inbound st)"

definition sender_counts :: "mail_state \<Rightarrow> string \<Rightarrow> string \<Rightarrow> string \<Rightarrow> string \<Rightarrow> ms \<Rightarrow> int \<times> int" where
  "sender_counts st account al from subject now =
     (let rs = recent_from st account from now
      in (int (length rs), int (length (filter (\<lambda>r. ib_alias r = al \<and> ib_subject r = subject) rs))))"

definition suppressions_in_window :: "mail_state \<Rightarrow> string \<Rightarrow> string \<Rightarrow> string \<Rightarrow> ms \<Rightarrow> nat \<times> nat" where
  "suppressions_in_window st account al from now =
     (let rs = filter (\<lambda>r. ib_alias r = al) (recent_from st account from now)
      in (length (filter (\<lambda>r. ib_disposition r = Suppressed_mail) rs),
          length (filter (\<lambda>r. ib_disposition r \<noteq> Suppressed_mail \<and> 60 \<le> ib_score r) rs)))"

definition own_senders :: "mail_state \<Rightarrow> string \<Rightarrow> string list" where
  "own_senders st account = map (\<lambda>i. js_lower (id_address i)) (filter (\<lambda>i. id_account i = account) (ms_identities st))"

definition ticket_by_message :: "mail_state \<Rightarrow> string \<Rightarrow> string \<Rightarrow> string option" where
  "ticket_by_message st account m =
     (case find (\<lambda>o'. mo_account o' = account \<and> mo_message o' = m) (ms_outbound st) of
        Some o' \<Rightarrow> Some (mo_ticket o')
      | None \<Rightarrow> Option.bind (find (\<lambda>i. ib_account i = account \<and> ib_message i = m \<and> ib_ticket i \<noteq> None) (ms_inbound st)) ib_ticket)"

definition claimed :: "mail_state \<Rightarrow> string \<Rightarrow> bool" where
  "claimed st m \<longleftrightarrow> m \<in> cm_message ` set (ms_claims st)"

text \<open>\<open>claimInbox\<close> and \<open>finishInbox\<close>: a message id is claimed once, whatever the account.\<close>

definition claim_inbox :: "string \<Rightarrow> string option \<Rightarrow> mail_state \<Rightarrow> mail_state" where
  "claim_inbox m account st =
     st\<lparr>ms_claims := ms_claims st @ [\<lparr>cm_message = m, cm_account = account, cm_outcome = None\<rparr>]\<rparr>"

definition finish_inbox :: "string \<Rightarrow> string \<Rightarrow> mail_state \<Rightarrow> mail_state" where
  "finish_inbox m out st =
     st\<lparr>ms_claims := map (\<lambda>c. if cm_message c = m then c\<lparr>cm_outcome := Some out\<rparr> else c) (ms_claims st)\<rparr>"

definition insert_inbound :: "inbound_row \<Rightarrow> mail_state \<Rightarrow> mail_state" where
  "insert_inbound r st = st\<lparr>ms_inbound := ms_inbound st @ [r\<lparr>ib_id := length (ms_inbound st)\<rparr>]\<rparr>"

definition insert_quarantine :: "string \<Rightarrow> nat \<Rightarrow> mail_state \<Rightarrow> mail_state" where
  "insert_quarantine account i st =
     st\<lparr>ms_quarantine := ms_quarantine st @ [\<lparr>qr_account = account, qr_inbound = i, qr_open = True, qr_decision = None, qr_ticket = None\<rparr>]\<rparr>"

definition mail_audit :: "mail_event \<Rightarrow> mail_state \<Rightarrow> mail_state" where
  "mail_audit e st = st\<lparr>ms_events := ms_events st @ [e]\<rparr>"

subsection \<open>The sender\<close>

text \<open>The resolution, the contact, the user and the name of a sender; a portal user without a contact gets one.\<close>

record sender_found =
  sf_resolution :: sender_resolution
  sf_contact :: "string option"
  sf_user :: "string option"
  sf_called :: string

definition or_text :: "string \<Rightarrow> string \<Rightarrow> string" where
  "or_text a b = (if a = [] then b else a)"

definition resolve_sender :: "'d mail_desk \<Rightarrow> string \<Rightarrow> string \<Rightarrow> string \<Rightarrow> 'd \<Rightarrow> mail_fault + (sender_found \<times> 'd)" where
  "resolve_sender dk account from name d =
     (case md_contact dk account from d of
        Some c \<Rightarrow> Inr (\<lparr>sf_resolution = (if mc_portal c then Portal_sender else Known_contact), sf_contact = Some (mc_id c), sf_user = None,
                        sf_called = or_text (mc_name c) name\<rparr>, d)
      | None \<Rightarrow>
          (case md_user dk from d of
             Some (Internal_mail_user u called active) \<Rightarrow>
               if active then Inr (\<lparr>sf_resolution = Known_internal, sf_contact = None, sf_user = Some u, sf_called = called\<rparr>, d)
               else Inr (\<lparr>sf_resolution = Unknown_sender, sf_contact = None, sf_user = None, sf_called = or_text name from\<rparr>, d)
           | Some (Portal_mail_user u called home) \<Rightarrow>
               if home = account then
                 and_then (md_add_contact dk account from (or_text called from) True d) (\<lambda>(c, d').
                 Inr (\<lparr>sf_resolution = Portal_sender, sf_contact = Some (mc_id c), sf_user = None, sf_called = mc_name c\<rparr>, d'))
               else Inr (\<lparr>sf_resolution = Unknown_sender, sf_contact = None, sf_user = None, sf_called = or_text name from\<rparr>, d)
           | None \<Rightarrow> Inr (\<lparr>sf_resolution = Unknown_sender, sf_contact = None, sf_user = None, sf_called = or_text name from\<rparr>, d)))"

definition principal_for :: "sender_found \<Rightarrow> string \<Rightarrow> string \<Rightarrow> mail_author" where
  "principal_for s email name =
     (let called = or_text (or_text (sf_called s) name) email
      in if sf_resolution s = Known_internal then \<lparr>ma_internal = True, ma_user = (case sf_user s of None \<Rightarrow> [] | Some u \<Rightarrow> u), ma_name = called\<rparr>
         else \<lparr>ma_internal = False, ma_user = (case sf_contact s of None \<Rightarrow> ''email:'' @ email | Some c \<Rightarrow> c), ma_name = called\<rparr>)"

subsection \<open>Attachments\<close>

definition allowed_types :: "string list js_map" where
  "allowed_types =
     [(''image/png'', [''png'']), (''image/jpeg'', [''jpg'', ''jpeg'']), (''image/gif'', [''gif'']), (''image/webp'', [''webp'']),
      (''application/pdf'', [''pdf'']), (''text/plain'', [''txt'', ''log'', ''csv'']), (''text/csv'', [''csv'']), (''application/json'', [''json'']),
      (''application/zip'', [''zip'']),
      (''application/vnd.openxmlformats-officedocument.spreadsheetml.sheet'', [''xlsx'']),
      (''application/vnd.openxmlformats-officedocument.wordprocessingml.document'', [''docx'']),
      (''application/vnd.openxmlformats-officedocument.presentationml.presentation'', [''pptx'']),
      (''application/vnd.ms-excel'', [''xls'']), (''application/msword'', [''doc'']), (''message/rfc822'', [''eml''])]"

definition safe_file_name :: "string \<Rightarrow> string" where
  "safe_file_name s = map (\<lambda>c. if c \<in> set [CHR 0x5C, CHR ''/'', CHR '':'', CHR ''*'', CHR ''?'', CHR 0x22, CHR ''<'', CHR ''>'', CHR ''|'', CHR 0x0D, CHR 0x0A]
     then CHR ''_'' else c) s"

definition file_extension :: "string \<Rightarrow> string" where
  "file_extension s = last (split_char CHR ''.'' (js_lower s))"

definition allowed_file :: "string \<Rightarrow> string \<Rightarrow> bool" where
  "allowed_file content_type extension = (case map_of allowed_types content_type of None \<Rightarrow> False | Some es \<Rightarrow> extension \<in> set es)"

text \<open>A file that arrives without a name has been given one. Images are decoded and written again, and every
  file is scanned, inside \<open>md_store\<close>.\<close>

definition store_file :: "'d mail_desk \<Rightarrow> mail_author \<Rightarrow> string \<Rightarrow> string \<Rightarrow> string option \<Rightarrow> mail_file \<Rightarrow> mail_state \<times> 'd \<Rightarrow> mail_fault + (mail_state \<times> 'd)" where
  "store_file dk who account ticket comment f w =
     (let ty = js_lower (or_text (mf_type f) ''application/octet-stream''); name = safe_file_name (mf_name f) in
      if \<not> allowed_file ty (file_extension name) then Inr (mail_audit (Upload_rejected account ''type'') (fst w), snd w)
      else if md_max_bytes dk account (snd w) < length (mf_content f) then Inr (mail_audit (Upload_rejected account ''size'') (fst w), snd w)
      else and_then (md_store dk who ticket comment \<lparr>mf_name = name, mf_type = ty, mf_content = mf_content f\<rparr> (snd w)) (\<lambda>d. Inr (fst w, d)))"

fun store_files :: "'d mail_desk \<Rightarrow> mail_author \<Rightarrow> string \<Rightarrow> string \<Rightarrow> string option \<Rightarrow> mail_file list \<Rightarrow> mail_state \<times> 'd \<Rightarrow> mail_fault + (mail_state \<times> 'd)" where
  "store_files dk who account ticket comment [] w = Inr w"
| "store_files dk who account ticket comment (f # fs) w = and_then (store_file dk who account ticket comment f w) (store_files dk who account ticket comment fs)"

subsection \<open>A ticket from a message\<close>

definition drop_subject_prefix :: "string \<Rightarrow> string" where
  "drop_subject_prefix s =
     (let t = js_trim_start s in
      case find (\<lambda>p. starts_with p (js_lower t)) [''re:'', ''fwd:'', ''fw:'', ''aw:'', ''wg:''] of
        None \<Rightarrow> s
      | Some p \<Rightarrow> js_trim_start (drop (length p) t))"

definition mail_subject :: "string \<Rightarrow> string" where
  "mail_subject subject = take 300 (drop_subject_prefix (or_text subject ''(no subject)''))"

text \<open>The token is set best effort: a fault of that write is ignored.\<close>

definition create_from_inbound :: "'d mail_desk \<Rightarrow> string \<Rightarrow> mail_author \<Rightarrow> string \<Rightarrow> alias_row \<Rightarrow> string \<Rightarrow> string \<Rightarrow> string \<Rightarrow> string \<Rightarrow>
    mail_file list \<Rightarrow> mail_state \<times> 'd \<Rightarrow> mail_fault + (string \<times> mail_state \<times> 'd)" where
  "create_from_inbound dk token who account al subject body from name files w =
     and_then (md_create dk who \<lparr>to_account = account, to_type = (case al_type al of None \<Rightarrow> ''incident'' | Some t \<Rightarrow> t),
         to_short = mail_subject subject, to_body = body, to_email = from, to_name = or_text name from\<rparr> (snd w)) (\<lambda>(t, d0).
     let d1 = (case md_token dk t token d0 of Inl e \<Rightarrow> d0 | Inr d \<Rightarrow> d) in
     and_then (store_files dk who account t None files (fst w, d1)) (\<lambda>w'. Inr (t, w')))"

subsection \<open>An inbound message\<close>

record mail_result =
  mr_disposition :: disposition
  mr_account :: "string option"
  mr_ticket :: "string option"
  mr_reason :: "string option"

definition mail_recipients :: "parsed_mail \<Rightarrow> string list" where
  "mail_recipients m = addresses (pm_to m) @ addresses (pm_cc m) @ pm_delivered m @ pm_original m"

definition mail_message_id :: "string \<Rightarrow> parsed_mail \<Rightarrow> string" where
  "mail_message_id generated m =
     (case normalise_message_id (pm_message m) of Some i \<Rightarrow> i | None \<Rightarrow> ''<generated-'' @ generated @ ''@xms>'')"

definition mail_from :: "parsed_mail \<Rightarrow> string" where
  "mail_from m = js_lower (case pm_from m of Some (Some a, n) \<Rightarrow> a | _ \<Rightarrow> [])"

definition mail_from_name :: "parsed_mail \<Rightarrow> string" where
  "mail_from_name m = (case pm_from m of Some (a, n) \<Rightarrow> n | None \<Rightarrow> [])"

definition mail_references :: "parsed_mail \<Rightarrow> string list" where
  "mail_references m = concat (map (\<lambda>r. case normalise_message_id (Some r) of None \<Rightarrow> [] | Some i \<Rightarrow> [i]) (pm_references m))"

definition text_of :: "string option \<Rightarrow> string" where
  "text_of v = (case v of None \<Rightarrow> [] | Some s \<Rightarrow> s)"

definition mail_body :: "reply_patterns \<Rightarrow> parsed_mail \<Rightarrow> string" where
  "mail_body ps m =
     or_text (st_text (strip_reply ps (case pm_text m of Some t \<Rightarrow> t | None \<Rightarrow> html_to_text (pm_html m)))) ''(empty message)''"

text \<open>The set of own message ids the handler passes is empty.\<close>

definition mail_loop :: "mail_state \<Rightarrow> string \<Rightarrow> string \<Rightarrow> parsed_mail \<Rightarrow> ms \<Rightarrow> loop_verdict" where
  "mail_loop st account al m now =
     (let counts = sender_counts st account al (mail_from m) (text_of (pm_subject m)) now
      in score_loop \<lparr>li_headers = map (\<lambda>(k, v). (k, One_header v)) (pm_headers m), li_subject = text_of (pm_subject m), li_from = mail_from m,
           li_references = mail_references m, li_own_ids = [], li_own_senders = own_senders st account,
           li_sender_count = fst counts, li_subject_count = snd counts\<rparr>)"

definition digits_value :: "string \<Rightarrow> nat" where
  "digits_value s = foldl (\<lambda>n c. 10 * n + (of_char c - 48)) 0 s"

definition mail_lookup :: "'d mail_desk \<Rightarrow> string \<Rightarrow> ms \<Rightarrow> mail_state \<Rightarrow> 'd \<Rightarrow> thread_lookup" where
  "mail_lookup dk account now st d =
     \<lparr>tl_token = (\<lambda>t. md_by_token dk account t d), tl_message = ticket_by_message st account,
      tl_key = (\<lambda>k. map_option (\<lambda>(t, closed). (t, case closed of None \<Rightarrow> False | Some c \<Rightarrow> 14 * 86400000 < now - c))
        (md_by_number dk account (digits_value (drop 2 k)) d))\<rparr>"

definition base_row :: "string \<Rightarrow> string \<Rightarrow> string \<Rightarrow> parsed_mail \<Rightarrow> ms \<Rightarrow> sender_found \<Rightarrow> loop_verdict \<Rightarrow> string \<Rightarrow> disposition \<Rightarrow> inbound_row" where
  "base_row account al mid m received s v body out =
     \<lparr>ib_id = 0, ib_account = account, ib_alias = al, ib_message = mid, ib_reply_to = normalise_message_id (pm_reply_to m),
      ib_references = mail_references m, ib_plus = plus_token_of (mail_recipients m), ib_from = mail_from m, ib_name = mail_from_name m,
      ib_subject = text_of (pm_subject m), ib_received = received, ib_sender = sf_resolution s, ib_contact = sf_contact s,
      ib_score = lv_score v, ib_signals = lv_signals v, ib_body = body, ib_disposition = out,
      ib_reason = None, ib_matched = None, ib_ticket = None, ib_comment = None\<rparr>"

definition loop_detection :: "alias_row \<Rightarrow> string \<Rightarrow> ms \<Rightarrow> mail_state \<Rightarrow> mail_state" where
  "loop_detection al from now st =
     (let (suppressed, flagged) = suppressions_in_window st (al_account al) (al_id al) from now
      in if suppressed < 3 \<and> flagged < 5 then st else mail_audit (Loop_suspected (al_id al) from) st)"

definition suppressed_mail :: "alias_row \<Rightarrow> string \<Rightarrow> ms \<Rightarrow> inbound_row \<Rightarrow> (string \<times> matched_by) option \<Rightarrow> mail_state \<Rightarrow> mail_state" where
  "suppressed_mail al mid now r found st =
     loop_detection al (ib_from r) now (finish_inbox mid ''applied''
       (insert_inbound (r\<lparr>ib_reason := Some (case ib_signals r of [] \<Rightarrow> ''loop'' | s # _ \<Rightarrow> s), ib_ticket := map_option fst found\<rparr>) st))"

text \<open>What becomes of a claimed message of a known account.\<close>

definition accept_inbound :: "'d mail_env \<Rightarrow> string \<Rightarrow> ms \<Rightarrow> ms \<Rightarrow> alias_row \<Rightarrow> string \<Rightarrow> parsed_mail \<Rightarrow> mail_state \<times> 'd \<Rightarrow>
    mail_fault + (mail_result \<times> mail_state \<times> 'd)" where
  "accept_inbound ev token now received al mid m w =
     (let dk = me_desk ev; account = al_account al; from = mail_from m; name = mail_from_name m; subject = text_of (pm_subject m);
          v = mail_loop (fst w) account (al_id al) m now; body = mail_body (me_patterns ev) m;
          answer = (\<lambda>out t reason. \<lparr>mr_disposition = out, mr_account = Some account, mr_ticket = t, mr_reason = reason\<rparr>) in
      and_then (resolve_sender dk account from name (snd w)) (\<lambda>(s, d1).
      let found = match_thread (mail_recipients m) (pm_reply_to m) (mail_references m) subject (mail_lookup dk account now (fst w) d1);
          row = base_row account (al_id al) mid m received s v body in
      if lv_suppress v then
        Inr (answer Suppressed_mail None (case lv_signals v of [] \<Rightarrow> None | x # _ \<Rightarrow> Some x),
             suppressed_mail al mid now (row Suppressed_mail) found (fst w), d1)
      else
        let who = principal_for s from name in
        (case found of
           Some (t, how) \<Rightarrow>
             and_then (md_comment dk who t body d1) (\<lambda>(c, d2).
             and_then (store_files dk who account t (Some c) (pm_files m) (fst w, d2)) (\<lambda>(st3, d3).
             Inr (answer Appended_mail (Some t) None,
                  finish_inbox mid ''applied'' (insert_inbound ((row Appended_mail)\<lparr>ib_matched := Some how, ib_ticket := Some t, ib_comment := Some c\<rparr>) st3), d3)))
         | None \<Rightarrow>
             if sf_resolution s = Unknown_sender then
               Inr (answer Quarantined_mail None (Some ''unknown_sender''),
                    finish_inbox mid ''applied'' (insert_quarantine account (length (ms_inbound (fst w))) (insert_inbound (row Quarantined_mail) (fst w))), d1)
             else
               and_then (create_from_inbound dk token who account al subject body from name (pm_files m) (fst w, d1)) (\<lambda>(t, st3, d3).
               Inr (answer Created_mail (Some t) None,
                    finish_inbox mid ''applied'' (insert_inbound ((row Created_mail)\<lparr>ib_ticket := Some t\<rparr>) st3), d3)))))"

definition process_inbound :: "'d mail_env \<Rightarrow> string \<Rightarrow> string \<Rightarrow> ms \<Rightarrow> ms \<Rightarrow> parsed_mail \<Rightarrow> mail_state \<times> 'd \<Rightarrow>
    mail_fault + (mail_result \<times> mail_state \<times> 'd)" where
  "process_inbound ev generated token now received m w =
     (let mid = mail_message_id generated m; st = fst w in
      case resolve_alias st (mail_recipients m) of
        None \<Rightarrow>
          Inr (\<lparr>mr_disposition = Rejected_mail, mr_account = None, mr_ticket = None, mr_reason = Some ''no_alias''\<rparr>,
               if claimed st mid then st else finish_inbox mid ''failed'' (claim_inbox mid None st), snd w)
      | Some (address, account) \<Rightarrow>
          if mail_from m = [] then
            Inr (\<lparr>mr_disposition = Rejected_mail, mr_account = Some account, mr_ticket = None, mr_reason = Some ''no_sender''\<rparr>, w)
          else if claimed st mid then
            Inr (\<lparr>mr_disposition = Duplicate_mail, mr_account = Some account, mr_ticket = None, mr_reason = None\<rparr>, w)
          else
            (case alias_by_address st address of
               None \<Rightarrow> Inl (Mail_thrown ''alias'')
             | Some al \<Rightarrow> accept_inbound ev token now received al mid m (claim_inbox mid (Some account) st, snd w)))"

subsection \<open>Quarantine\<close>

text \<open>The decision on an item, named by its position. A ticket made once drops the contact again when no other
  ticket has it; a fault of that statement ends the transaction, although the code catches it.\<close>

definition decide_mail :: "'d mail_env \<Rightarrow> string \<Rightarrow> nat \<Rightarrow> decision \<Rightarrow> mail_file list \<Rightarrow> mail_state \<times> 'd \<Rightarrow> mail_fault + (string option \<times> mail_state \<times> 'd)" where
  "decide_mail ev token n choice files w =
     (let dk = me_desk ev; st = fst w in
      and_then (guard_or (n < length (ms_quarantine st)) (Mail_refused ''quarantine_item'')) (\<lambda>_.
      let item = ms_quarantine st ! n in
      and_then (guard_or (qr_open item) (Mail_refused ''already_decided'')) (\<lambda>_.
      and_then (guard_or (qr_inbound item < length (ms_inbound st)) (Mail_refused ''inbound_message'')) (\<lambda>_.
      let row = ms_inbound st ! qr_inbound item; name = or_text (ib_name row) (ib_from row) in
      and_then (case find (\<lambda>a. al_id a = ib_alias row) (ms_aliases st) of None \<Rightarrow> Inl (Mail_refused ''alias'') | Some a \<Rightarrow> Inr a) (\<lambda>al.
      and_then
        (if choice = Create_contact_and_ticket \<or> choice = Create_ticket_once then
           and_then
             (if choice = Create_contact_and_ticket then
                (case md_contact dk (qr_account item) (ib_from row) (snd w) of
                   Some c \<Rightarrow> Inr (Some (mc_id c), snd w)
                 | None \<Rightarrow> and_then (md_add_contact dk (qr_account item) (ib_from row) name False (snd w)) (\<lambda>(c, d). Inr (Some (mc_id c), d)))
              else Inr (None, snd w)) (\<lambda>(c, d0).
           and_then (create_from_inbound dk token
               \<lparr>ma_internal = False, ma_user = (case c of None \<Rightarrow> ''email:'' @ ib_from row | Some i \<Rightarrow> i), ma_name = name\<rparr>
               (qr_account item) al (ib_subject row) (ib_body row) (ib_from row) name files (st, d0)) (\<lambda>(t, st1, d1).
           if choice = Create_ticket_once then
             (case Option.bind (md_ticket dk t d1) mt_contact of
                None \<Rightarrow> Inr (Some t, st1, d1)
              | Some i \<Rightarrow> and_then (md_drop_contact dk i t d1) (\<lambda>d2. Inr (Some t, st1, d2)))
           else Inr (Some t, st1, d1)))
         else Inr (None, st, snd w)) (\<lambda>(t, st1, d1).
      Inr (t, st1\<lparr>ms_quarantine := (ms_quarantine st1)[n := item\<lparr>qr_open := False, qr_decision := Some choice, qr_ticket := t\<rparr>]\<rparr>, d1)))))))"

subsection \<open>Outbound\<close>

definition default_identity :: "mail_state \<Rightarrow> string \<Rightarrow> identity_row option" where
  "default_identity st account = find (\<lambda>i. id_account i = account \<and> id_default i) (ms_identities st)"

definition is_suppressed :: "mail_state \<Rightarrow> string \<Rightarrow> string \<Rightarrow> bool" where
  "is_suppressed st account address \<longleftrightarrow>
     (\<exists>s\<in>set (ms_suppressed st). su_account s = account \<and> su_address s = js_lower address \<and> su_live s)"

text \<open>The messages of a thread with their times; the newest one is replied to.\<close>

definition thread_messages :: "mail_state \<Rightarrow> string \<Rightarrow> (ms \<times> string \<times> string list) list" where
  "thread_messages st ticket =
     map (\<lambda>o'. (mo_at o', mo_message o', mo_references o')) (filter (\<lambda>o'. mo_ticket o' = ticket) (ms_outbound st)) @
     map (\<lambda>i. (ib_received i, ib_message i, ib_references i)) (filter (\<lambda>i. ib_ticket i = Some ticket) (ms_inbound st))"

definition latest_message :: "mail_state \<Rightarrow> string \<Rightarrow> (string \<times> string list) option" where
  "latest_message st ticket =
     map_option snd (fold (\<lambda>m best. case best of None \<Rightarrow> Some m | Some b \<Rightarrow> if fst b < fst m then Some m else Some b) (thread_messages st ticket) None)"

definition last_twenty :: "string list \<Rightarrow> string list" where
  "last_twenty xs = drop (length xs - 20) xs"

definition with_plus :: "string \<Rightarrow> string \<Rightarrow> string" where
  "with_plus address token =
     takeWhile (\<lambda>c. c \<noteq> CHR ''@'') address @
     (case dropWhile (\<lambda>c. c \<noteq> CHR ''@'') address of [] \<Rightarrow> [] | _ # rest \<Rightarrow> ''+'' @ token @ ''@'' @ rest)"

definition compose :: "identity_row \<Rightarrow> mail_ticket \<Rightarrow> string \<Rightarrow> string \<Rightarrow> string \<Rightarrow> rendered \<Rightarrow> (string \<times> string list) option \<Rightarrow> sent_mail" where
  "compose i t token mid to r latest =
     \<lparr>se_account = mt_account t, se_from = id_address i, se_to = to, se_reply = with_plus (id_address i) token, se_subject = rd_subject r,
      se_text = rd_text r, se_html = rd_html r, se_message = mid, se_reply_to = map_option fst latest,
      se_references = (case latest of None \<Rightarrow> [] | Some (m, refs) \<Rightarrow> last_twenty (refs @ [m])),
      se_headers = [(''auto-submitted'', ''auto-generated''), (''x-xms-ticket'', mt_key t)]\<rparr>"

text \<open>What a handler of the outbox did: nothing, or the tables with the messages the transport has taken by then.\<close>

definition send_to_requester :: "'d mail_env \<Rightarrow> string \<Rightarrow> string \<Rightarrow> ms \<Rightarrow> mail_ticket \<Rightarrow> string \<Rightarrow> string \<Rightarrow> rendered \<Rightarrow> nat \<Rightarrow>
    mail_state \<times> 'd \<Rightarrow> sent_mail list \<Rightarrow> (mail_fault + (mail_state \<times> 'd)) \<times> sent_mail list" where
  "send_to_requester ev fresh token0 now t to kind r outbox w sent =
     (let dk = me_desk ev; st = fst w; account = mt_account t;
          key = md_account_key dk account (snd w);
          (i, st1) = (case default_identity st account of
             Some i \<Rightarrow> (i, st)
           | None \<Rightarrow>
               let i = \<lparr>id_account = account, id_address = js_lower (js_lower key @ ''@'' @ me_domain ev), id_name = key @ '' support'', id_default = True\<rparr>
               in (i, st\<lparr>ms_identities := ms_identities st @ [i]\<rparr>))
      in case (case mt_token t of
                 Some tok \<Rightarrow> if tok = [] then map_sum id (Pair token0) (md_token dk (mt_id t) token0 (snd w)) else Inr (tok, snd w)
               | None \<Rightarrow> map_sum id (Pair token0) (md_token dk (mt_id t) token0 (snd w))) of
           Inl e \<Rightarrow> (Inl e, sent)
         | Inr (token, d1) \<Rightarrow>
             let mid = ''<'' @ fresh @ ''@'' @ me_domain ev @ ''>'';
                 mail = compose i t token mid to r (latest_message st1 (mt_id t));
                 row = \<lparr>mo_account = account, mo_ticket = mt_id t, mo_kind = kind, mo_message = mid, mo_reply_to = se_reply_to mail,
                   mo_references = se_references mail, mo_from = id_address i, mo_to = to, mo_subject = rd_subject r, mo_outbox = outbox, mo_at = now\<rparr>
             in if outbox \<in> mo_outbox ` set (ms_outbound st1) then (Inr (st1, d1), sent)
                else (case me_send ev sent mail of
                        Inl e \<Rightarrow> (Inl e, sent)
                      | Inr provider \<Rightarrow>
                          (Inr (st1\<lparr>ms_outbound := ms_outbound st1 @ [row],
                                  ms_deliveries := ms_deliveries st1 @ [\<lparr>dy_account = account, dy_message = length (ms_outbound st1),
                                    dy_provider = Some provider, dy_state = ''sent''\<rparr>]\<rparr>, d1), sent @ [mail])))"

record mail_change =
  ch_id :: nat
  ch_event :: string
  ch_ticket :: string
  ch_source :: string
  ch_comment :: string
  ch_to :: string

definition closing_states :: "string list" where
  "closing_states = [''resolved'', ''fulfilled'', ''completed'', ''done'']"

text \<open>The message a change asks for, with its kind.\<close>

definition render_change :: "'d mail_desk \<Rightarrow> mail_change \<Rightarrow> mail_ticket \<Rightarrow> mail_contact \<Rightarrow> 'd \<Rightarrow> (string \<times> rendered) option" where
  "render_change dk c t who d =
     (if ch_event c = ''ticket.created'' \<and> (mt_source t = ''email'' \<or> mt_source t = ''portal'') then
        Some (''acknowledgement'', acknowledgement (md_branding dk (mt_account t) d) (mt_key t) (mt_short t) (or_text (mc_name who) (mc_email who)))
      else if ch_event c = ''comment.created'' \<and> ch_source c = ''internal'' then
        map_option (\<lambda>(body, author). (''public_comment'', public_comment (md_branding dk (mt_account t) d) (mt_key t) (mt_short t) author body)) (md_comment_row dk (ch_comment c) d)
      else if ch_event c = ''ticket.transitioned'' \<and> mt_resolved t \<and> ch_to c \<in> set closing_states then
        Some (''resolved'', resolved_notice (md_branding dk (mt_account t) d) (mt_key t) (mt_short t) (text_of (mt_remarks t)))
      else None)"

definition handle_outbox :: "'d mail_env \<Rightarrow> string \<Rightarrow> string \<Rightarrow> ms \<Rightarrow> mail_change \<Rightarrow> mail_state \<times> 'd \<Rightarrow> sent_mail list \<Rightarrow>
    (mail_fault + (mail_state \<times> 'd)) \<times> sent_mail list" where
  "handle_outbox ev fresh token now c w sent =
     (if ch_event c \<notin> {''comment.created'', ''ticket.created'', ''ticket.transitioned''} then (Inr w, sent)
      else case md_ticket (me_desk ev) (ch_ticket c) (snd w) of
        None \<Rightarrow> (Inr w, sent)
      | Some t \<Rightarrow>
          (case mt_contact t of
             None \<Rightarrow> (Inr w, sent)
           | Some i \<Rightarrow>
               (case md_contact_by_id (me_desk ev) i (snd w) of
                  None \<Rightarrow> (Inl (Mail_refused ''contact''), sent)
                | Some who \<Rightarrow>
                    (case render_change (me_desk ev) c t who (snd w) of
                       None \<Rightarrow> (Inr w, sent)
                     | Some (kind, r) \<Rightarrow>
                         if is_suppressed (fst w) (mt_account t) (mc_email who) then (Inr w, sent)
                         else send_to_requester ev fresh token now t (mc_email who) kind r (ch_id c) w sent))))"

subsection \<open>Delivery events\<close>

datatype delivery_event = Delivered_event | Bounce_event bool "string list" | Complaint_event "string list" | Other_event

definition set_delivery :: "nat \<Rightarrow> string \<Rightarrow> mail_state \<Rightarrow> mail_state" where
  "set_delivery n s st = st\<lparr>ms_deliveries := (ms_deliveries st)[n := (ms_deliveries st ! n)\<lparr>dy_state := s\<rparr>]\<rparr>"

definition suppress_all :: "string \<Rightarrow> string \<Rightarrow> string list \<Rightarrow> mail_state \<Rightarrow> mail_state" where
  "suppress_all account reason addrs st =
     st\<lparr>ms_suppressed := ms_suppressed st @ map (\<lambda>a. \<lparr>su_account = account, su_address = js_lower a, su_reason = reason, su_live = True\<rparr>) addrs\<rparr>"

definition delivery_by_provider :: "mail_state \<Rightarrow> string \<Rightarrow> nat option" where
  "delivery_by_provider st p = find (\<lambda>n. dy_provider (ms_deliveries st ! n) = Some p) [0..<length (ms_deliveries st)]"

definition apply_delivery_event :: "string option \<Rightarrow> delivery_event \<Rightarrow> mail_state \<Rightarrow> mail_state" where
  "apply_delivery_event provider e st =
     (case Option.bind provider (delivery_by_provider st) of
        None \<Rightarrow> st
      | Some n \<Rightarrow>
          let account = dy_account (ms_deliveries st ! n) in
          case e of
            Delivered_event \<Rightarrow> set_delivery n ''delivered'' st
          | Bounce_event permanent addrs \<Rightarrow>
              (let st1 = set_delivery n ''bounced'' st in if permanent then suppress_all account ''bounce_hard'' addrs st1 else st1)
          | Complaint_event addrs \<Rightarrow> suppress_all account ''complaint'' addrs (set_delivery n ''complained'' st)
          | Other_event \<Rightarrow> st)"

end
