(* ===== verification/Email_Life.thy ===== *)
theory Email_Life
  imports Email_Service
begin

section \<open>The life of the mailbox\<close>

text \<open>
  What holds of the rows of the email module however messages, decisions, outbox rows, delivery events and
  edits of the aliases interleave, and that the module's own mail never comes back as a ticket.
\<close>

subsection \<open>The invariant\<close>

definition row_sound :: "inbound_row \<Rightarrow> bool" where
  "row_sound r \<longleftrightarrow>
     (ib_disposition r \<in> {Created_mail, Appended_mail, Quarantined_mail, Suppressed_mail}) \<and>
     (ib_disposition r = Created_mail \<longrightarrow> ib_ticket r \<noteq> None \<and> ib_sender r \<noteq> Unknown_sender) \<and>
     (ib_disposition r = Appended_mail \<longrightarrow> ib_ticket r \<noteq> None \<and> ib_matched r \<noteq> None) \<and>
     (ib_comment r \<noteq> None \<longleftrightarrow> ib_disposition r = Appended_mail) \<and>
     (ib_disposition r = Quarantined_mail \<longrightarrow> ib_ticket r = None \<and> ib_sender r = Unknown_sender) \<and>
     (ib_disposition r = Suppressed_mail \<longleftrightarrow> 100 \<le> ib_score r)"

definition claims_ok :: "mail_state \<Rightarrow> bool" where
  "claims_ok st \<longleftrightarrow> distinct (map cm_message (ms_claims st)) \<and> distinct (map ib_message (ms_inbound st)) \<and>
     map ib_id (ms_inbound st) = [0..<length (ms_inbound st)] \<and>
     (\<forall>r\<in>set (ms_inbound st). row_sound r \<and> \<lparr>cm_message = ib_message r, cm_account = Some (ib_account r), cm_outcome = Some ''applied''\<rparr> \<in> set (ms_claims st))"

definition quarantined_ids :: "inbound_row list \<Rightarrow> nat list" where
  "quarantined_ids rs = map ib_id (filter (\<lambda>r. ib_disposition r = Quarantined_mail) rs)"

definition item_ok :: "quarantine_row \<Rightarrow> bool" where
  "item_ok q \<longleftrightarrow> (qr_open q \<longleftrightarrow> qr_decision q = None) \<and>
     (qr_ticket q \<noteq> None \<longleftrightarrow> qr_decision q = Some Create_contact_and_ticket \<or> qr_decision q = Some Create_ticket_once)"

definition quarantine_ok :: "mail_state \<Rightarrow> bool" where
  "quarantine_ok st \<longleftrightarrow> map qr_inbound (ms_quarantine st) = quarantined_ids (ms_inbound st) \<and> (\<forall>q\<in>set (ms_quarantine st). item_ok q)"

definition outbound_sound :: "mail_state \<Rightarrow> sent_mail list \<Rightarrow> bool" where
  "outbound_sound st sent \<longleftrightarrow> distinct (map mo_outbox (ms_outbound st)) \<and> map dy_message (ms_deliveries st) = [0..<length (ms_outbound st)] \<and>
     (\<forall>o'\<in>set (ms_outbound st). \<exists>m\<in>set sent. se_message m = mo_message o' \<and> se_to m = mo_to o') \<and>
     (\<forall>m\<in>set sent. map_of (se_headers m) ''auto-submitted'' = Some ''auto-generated'' \<and> length (se_references m) \<le> 20)"

definition mail_ok :: "mail_state \<Rightarrow> sent_mail list \<Rightarrow> bool" where
  "mail_ok st sent \<longleftrightarrow> claims_ok st \<and> quarantine_ok st \<and> outbound_sound st sent"

subsection \<open>What leaves the rows alone\<close>

definition same_rows :: "mail_state \<Rightarrow> mail_state \<Rightarrow> bool" where
  "same_rows st st' \<longleftrightarrow> ms_claims st' = ms_claims st \<and> ms_inbound st' = ms_inbound st \<and> ms_quarantine st' = ms_quarantine st \<and>
     ms_outbound st' = ms_outbound st \<and> ms_deliveries st' = ms_deliveries st \<and> ms_aliases st' = ms_aliases st"

lemma same_rows_refl [simp]: "same_rows st st"
  by (simp add: same_rows_def)

lemma same_rows_trans: "same_rows a b \<Longrightarrow> same_rows b c \<Longrightarrow> same_rows a c"
  by (simp add: same_rows_def)

lemma same_rows_audit [simp]: "same_rows st (mail_audit e st)"
  by (simp add: same_rows_def mail_audit_def)

lemma mail_ok_same: "same_rows st st' \<Longrightarrow> mail_ok st' sent = mail_ok st sent"
  by (simp add: same_rows_def mail_ok_def claims_ok_def quarantine_ok_def outbound_sound_def)

lemma store_file_rows: "store_file dk who a t c f w = Inr w' \<Longrightarrow> same_rows (fst w) (fst w')"
  by (auto simp: store_file_def Let_def and_then_Inr split: if_splits)

lemma store_files_rows: "store_files dk who a t c fs w = Inr w' \<Longrightarrow> same_rows (fst w) (fst w')"
  by (induction fs arbitrary: w) (auto simp: and_then_Inr dest!: store_file_rows intro: same_rows_trans)

lemma create_from_rows: "create_from_inbound dk tok who a al s b f n fs w = Inr (t, w') \<Longrightarrow> same_rows (fst w) (fst w')"
  by (auto simp: create_from_inbound_def Let_def and_then_Inr dest!: store_files_rows split: prod.splits)

lemma loop_detection_rows: "same_rows st (loop_detection al from now st)"
  by (simp add: loop_detection_def split: prod.splits)

subsection \<open>Inbound messages\<close>

lemma row_sound_id [simp]: "row_sound (r\<lparr>ib_id := n\<rparr>) = row_sound r"
  by (simp add: row_sound_def)

text \<open>A message is entered: it was claimed for the account just before.\<close>

definition entered :: "inbound_row \<Rightarrow> mail_state \<Rightarrow> mail_state" where
  "entered r st = finish_inbox (ib_message r) ''applied'' (insert_inbound r (claim_inbox (ib_message r) (Some (ib_account r)) st))"

lemma entered_claims:
  assumes "claims_ok st" "\<not> claimed st (ib_message r)" "row_sound r"
  shows "claims_ok (entered r st)"
proof -
  have fresh: "cm_message c \<noteq> ib_message r" if "c \<in> set (ms_claims st)" for c
    using assms(2) image_eqI [OF refl that, of cm_message] by (auto simp: claimed_def)
  have claims: "ms_claims (entered r st) = ms_claims st @ [\<lparr>cm_message = ib_message r, cm_account = Some (ib_account r), cm_outcome = Some ''applied''\<rparr>]"
    using fresh by (simp add: entered_def finish_inbox_def insert_inbound_def claim_inbox_def map_idI)
  have inbound: "ms_inbound (entered r st) = ms_inbound st @ [r\<lparr>ib_id := length (ms_inbound st)\<rparr>]"
    by (simp add: entered_def finish_inbox_def insert_inbound_def claim_inbox_def)
  have "ib_message r \<notin> ib_message ` set (ms_inbound st)"
  proof
    assume "ib_message r \<in> ib_message ` set (ms_inbound st)"
    then obtain x where x: "x \<in> set (ms_inbound st)" "ib_message r = ib_message x" by auto
    with assms(1) have "\<lparr>cm_message = ib_message x, cm_account = Some (ib_account x), cm_outcome = Some ''applied''\<rparr> \<in> set (ms_claims st)"
      by (simp add: claims_ok_def)
    from fresh [OF this] x(2) show False by simp
  qed
  moreover have "ib_message r \<notin> cm_message ` set (ms_claims st)" using fresh by force
  moreover have "row_sound (r\<lparr>ib_id := length (ms_inbound st)\<rparr>)" using assms(3) by simp
  ultimately show ?thesis using assms(1) by (auto simp: claims_ok_def claims inbound)
qed

lemma entered_rows:
  "ms_quarantine (entered r st) = ms_quarantine st" "ms_outbound (entered r st) = ms_outbound st" "ms_deliveries (entered r st) = ms_deliveries st"
  "ms_aliases (entered r st) = ms_aliases st" "ms_inbound (entered r st) = ms_inbound st @ [r\<lparr>ib_id := length (ms_inbound st)\<rparr>]"
  by (simp_all add: entered_def finish_inbox_def insert_inbound_def claim_inbox_def)

lemma quarantined_ids_append [simp]:
  "quarantined_ids (rs @ [r]) = quarantined_ids rs @ (if ib_disposition r = Quarantined_mail then [ib_id r] else [])"
  by (simp add: quarantined_ids_def)

lemma entered_ok:
  assumes "mail_ok st sent" "\<not> claimed st (ib_message r)" "row_sound r" "ib_disposition r \<noteq> Quarantined_mail"
  shows "mail_ok (entered r st) sent"
  using assms entered_claims [of st r]
  by (simp add: mail_ok_def quarantine_ok_def outbound_sound_def entered_rows)

lemma quarantined_ok:
  assumes "mail_ok st sent" "\<not> claimed st (ib_message r)" "row_sound r" "ib_disposition r = Quarantined_mail"
  shows "mail_ok (insert_quarantine a (length (ms_inbound st)) (entered r st)) sent"
  using assms entered_claims [of st r]
  by (simp add: mail_ok_def quarantine_ok_def outbound_sound_def entered_rows insert_quarantine_def claims_ok_def item_ok_def)

lemma finish_rows:
  assumes "same_rows (claim_inbox (ib_message r) (Some (ib_account r)) st) st3"
  shows "same_rows (entered r st) (finish_inbox (ib_message r) ''applied'' (insert_inbound r st3))"
    "same_rows (insert_quarantine a n (entered r st)) (finish_inbox (ib_message r) ''applied'' (insert_quarantine a n (insert_inbound r st3)))"
  using assms by (simp_all add: same_rows_def entered_def finish_inbox_def insert_inbound_def claim_inbox_def insert_quarantine_def)

lemma loop_score: "lv_suppress (mail_loop st a al m now) \<longleftrightarrow> 100 \<le> lv_score (mail_loop st a al m now)"
  by (simp add: mail_loop_def score_loop_def suppress_at_def Let_def)

text \<open>An accepted message is one row, and for a quarantined one an item.\<close>

definition accepted :: "inbound_row \<Rightarrow> mail_state \<Rightarrow> mail_state \<Rightarrow> bool" where
  "accepted r st st' \<longleftrightarrow> row_sound r \<and>
     (if ib_disposition r = Quarantined_mail then same_rows (insert_quarantine (ib_account r) (length (ms_inbound st)) (entered r st)) st'
      else same_rows (entered r st) st')"

lemma accepted_keeps: "accepted r st st' \<Longrightarrow> mail_ok st sent \<Longrightarrow> \<not> claimed st (ib_message r) \<Longrightarrow> mail_ok st' sent"
  using entered_ok [of st sent r] quarantined_ok [of st sent r "ib_account r"] mail_ok_same
  by (auto simp: accepted_def split: if_splits)

lemma base_row_fields [simp]:
  "ib_message (base_row a al mid m t s v b out) = mid" "ib_account (base_row a al mid m t s v b out) = a"
  "ib_disposition (base_row a al mid m t s v b out) = out" "ib_score (base_row a al mid m t s v b out) = lv_score v"
  "ib_sender (base_row a al mid m t s v b out) = sf_resolution s" "ib_ticket (base_row a al mid m t s v b out) = None"
  "ib_comment (base_row a al mid m t s v b out) = None"
  by (simp_all add: base_row_def)

lemma accept_accepted:
  assumes run: "accept_inbound ev tok now t al mid m (claim_inbox mid (Some (al_account al)) st, d) = Inr (r, st', d')"
  shows "\<exists>row. ib_message row = mid \<and> ib_account row = al_account al \<and> ib_disposition row = mr_disposition r \<and> accepted row st st' \<and>
     ib_score row = lv_score (mail_loop (claim_inbox mid (Some (al_account al)) st) (al_account al) (al_id al) m now)"
proof -
  let ?st1 = "claim_inbox mid (Some (al_account al)) st"
  let ?v = "mail_loop ?st1 (al_account al) (al_id al) m now"
  let ?body = "mail_body (me_patterns ev) m"
  let ?dk = "me_desk ev"
  have n: "length (ms_inbound ?st1) = length (ms_inbound st)" by (simp add: claim_inbox_def)
  from run obtain s d1 where s: "resolve_sender ?dk (al_account al) (mail_from m) (mail_from_name m) d = Inr (s, d1)"
    by (auto simp: accept_inbound_def Let_def and_then_Inr split: prod.splits)
  let ?row = "base_row (al_account al) (al_id al) mid m t s ?v ?body"
  let ?found = "match_thread (mail_recipients m) (pm_reply_to m) (mail_references m) (text_of (pm_subject m)) (mail_lookup ?dk (al_account al) now ?st1 d1)"
  consider (loop) "lv_suppress ?v" | (thread) x how where "\<not> lv_suppress ?v" "?found = Some (x, how)"
    | (unknown) "\<not> lv_suppress ?v" "?found = None" "sf_resolution s = Unknown_sender"
    | (create) "\<not> lv_suppress ?v" "?found = None" "sf_resolution s \<noteq> Unknown_sender"
    by (cases ?found) auto
  then show ?thesis
  proof cases
    case loop
    let ?r = "(?row Suppressed_mail)\<lparr>ib_reason := Some (case ib_signals (?row Suppressed_mail) of [] \<Rightarrow> ''loop'' | x # _ \<Rightarrow> x), ib_ticket := map_option fst ?found\<rparr>"
    have out: "mr_disposition r = Suppressed_mail" "st' = suppressed_mail al mid now (?row Suppressed_mail) ?found ?st1"
      using run s loop by (auto simp: accept_inbound_def Let_def)
    have "same_rows (entered ?r st) (finish_inbox mid ''applied'' (insert_inbound ?r ?st1))"
      using finish_rows(1) [of ?r st ?st1] by simp
    then have "same_rows (entered ?r st) st'"
      unfolding out(2) suppressed_mail_def by (rule same_rows_trans) (rule loop_detection_rows)
    moreover have "row_sound ?r" using loop loop_score [of ?st1] by (simp add: row_sound_def)
    ultimately show ?thesis using out(1) by (intro exI [of _ ?r]) (simp add: accepted_def)
  next
    case (thread x how)
    then obtain c d2 st3 where c: "store_files ?dk (principal_for s (mail_from m) (mail_from_name m)) (al_account al) x (Some c) (pm_files m) (?st1, d2) = Inr (st3, d')"
        "mr_disposition r = Appended_mail"
        "st' = finish_inbox mid ''applied'' (insert_inbound ((?row Appended_mail)\<lparr>ib_matched := Some how, ib_ticket := Some x, ib_comment := Some c\<rparr>) st3)"
      using run s by (auto simp: accept_inbound_def Let_def and_then_Inr)
    let ?r = "(?row Appended_mail)\<lparr>ib_matched := Some how, ib_ticket := Some x, ib_comment := Some c\<rparr>"
    have "same_rows (entered ?r st) st'" using finish_rows(1) [of ?r st st3] store_files_rows [OF c(1)] by (simp add: c(3))
    moreover have "row_sound ?r" using thread(1) loop_score [of ?st1] by (simp add: row_sound_def)
    ultimately show ?thesis using c(2) by (intro exI [of _ ?r]) (simp add: accepted_def)
  next
    case unknown
    then have out: "mr_disposition r = Quarantined_mail"
        "st' = finish_inbox mid ''applied'' (insert_quarantine (al_account al) (length (ms_inbound ?st1)) (insert_inbound (?row Quarantined_mail) ?st1))"
      using run s by (auto simp: accept_inbound_def Let_def)
    have "same_rows (insert_quarantine (al_account al) (length (ms_inbound st)) (entered (?row Quarantined_mail) st)) st'"
      using finish_rows(2) [of "?row Quarantined_mail" st ?st1] by (simp add: out(2) n)
    moreover have "row_sound (?row Quarantined_mail)" using unknown loop_score [of ?st1] by (simp add: row_sound_def)
    ultimately show ?thesis using out(1) by (intro exI [of _ "?row Quarantined_mail"]) (simp add: accepted_def)
  next
    case create
    then obtain x st3 where c: "create_from_inbound ?dk tok (principal_for s (mail_from m) (mail_from_name m)) (al_account al) al (text_of (pm_subject m)) ?body
          (mail_from m) (mail_from_name m) (pm_files m) (?st1, d1) = Inr (x, st3, d')"
        "mr_disposition r = Created_mail" "st' = finish_inbox mid ''applied'' (insert_inbound ((?row Created_mail)\<lparr>ib_ticket := Some x\<rparr>) st3)"
      using run s by (auto simp: accept_inbound_def Let_def and_then_Inr)
    let ?r = "(?row Created_mail)\<lparr>ib_ticket := Some x\<rparr>"
    have "same_rows (entered ?r st) st'" using finish_rows(1) [of ?r st st3] create_from_rows [OF c(1)] by (simp add: c(3))
    moreover have "row_sound ?r" using create loop_score [of ?st1] by (simp add: row_sound_def)
    ultimately show ?thesis using c(2) by (intro exI [of _ ?r]) (simp add: accepted_def)
  qed
qed

lemma alias_account: "resolve_alias st rs = Some (address, account) \<Longrightarrow> account_for_alias st address = Some account"
  by (induction rs) (auto simp: Let_def split: option.splits)

definition aliases_ok :: "mail_state \<Rightarrow> bool" where
  "aliases_ok st \<longleftrightarrow> distinct (map al_address (ms_aliases st)) \<and> distinct (map al_id (ms_aliases st))"

lemma resolved_alias:
  assumes "aliases_ok st" "resolve_alias st rs = Some (address, account)" "alias_by_address st address = Some al"
  shows "al_account al = account"
proof -
  from alias_account [OF assms(2)] obtain a where f: "find (\<lambda>a. al_address a = address \<and> al_active a) (ms_aliases st) = Some a" "al_account a = account"
    by (auto simp: account_for_alias_def)
  from f(1) have a: "a \<in> set (ms_aliases st)" "al_address a = address" by (auto simp: find_Some_iff)
  from assms(3) have "al \<in> set (ms_aliases st)" "al_address al = address" by (auto simp: alias_by_address_def find_Some_iff)
  with a assms(1) have "a = al" by (auto simp: aliases_ok_def distinct_map dest: inj_onD)
  with f(2) show ?thesis by simp
qed

lemma process_keeps:
  assumes "mail_ok st sent" "aliases_ok st" "process_inbound ev g tok now t m (st, d) = Inr (r, st', d')"
  shows "mail_ok st' sent \<and> ms_aliases st' = ms_aliases st"
proof (cases "resolve_alias st (mail_recipients m)")
  case None
  let ?mid = "mail_message_id g m"
  have st': "st' = (if claimed st ?mid then st else finish_inbox ?mid ''failed'' (claim_inbox ?mid None st))"
    using assms(3) None by (auto simp: process_inbound_def Let_def)
  have "mail_ok (finish_inbox ?mid ''failed'' (claim_inbox ?mid None st)) sent" if "\<not> claimed st ?mid"
  proof -
    have "cm_message c \<noteq> ?mid" if "c \<in> set (ms_claims st)" for c
      using \<open>\<not> claimed st ?mid\<close> image_eqI [OF refl that, of cm_message] by (auto simp: claimed_def)
    then have "ms_claims (finish_inbox ?mid ''failed'' (claim_inbox ?mid None st)) =
        ms_claims st @ [\<lparr>cm_message = ?mid, cm_account = None, cm_outcome = Some ''failed''\<rparr>]"
      by (simp add: finish_inbox_def claim_inbox_def map_idI)
    then show ?thesis
      using assms(1) that by (simp add: mail_ok_def claims_ok_def quarantine_ok_def outbound_sound_def claimed_def) (simp add: finish_inbox_def claim_inbox_def)
  qed
  with assms(1) show ?thesis by (simp add: st' finish_inbox_def claim_inbox_def)
next
  case (Some x)
  obtain address account where x: "x = (address, account)" by fastforce
  show ?thesis
  proof (cases "mail_from m = [] \<or> claimed st (mail_message_id g m)")
    case True
    with assms(3) Some x have "st' = st" by (auto simp: process_inbound_def Let_def split: if_splits)
    with assms(1) show ?thesis by simp
  next
    case False
    with assms(3) Some x obtain al where al: "alias_by_address st address = Some al"
        "accept_inbound ev tok now t al (mail_message_id g m) m (claim_inbox (mail_message_id g m) (Some account) st, d) = Inr (r, st', d')"
      by (auto simp: process_inbound_def Let_def split: option.splits)
    have "al_account al = account" using resolved_alias [OF assms(2) Some [unfolded x] al(1)] .
    with accept_accepted [OF al(2) [folded this]] obtain row where row: "ib_message row = mail_message_id g m" "accepted row st st'" by blast
    from row(2) have "ms_aliases st' = ms_aliases st"
      by (auto simp: accepted_def same_rows_def insert_quarantine_def entered_rows split: if_splits)
    with accepted_keeps [OF row(2) assms(1)] False row(1) show ?thesis by simp
  qed
qed

subsection \<open>Decisions\<close>

lemma decide_keeps:
  assumes ok: "mail_ok st sent" and run: "decide_mail ev tok n choice files (st, d) = Inr (t, st', d')"
  shows "mail_ok st' sent \<and> ms_aliases st' = ms_aliases st"
proof -
  from run have n: "n < length (ms_quarantine st)" by (auto simp: decide_mail_def Let_def and_then_Inr)
  let ?item = "ms_quarantine st ! n"
  have shape: "\<exists>st1. same_rows st st1 \<and> st' = st1\<lparr>ms_quarantine := (ms_quarantine st1)[n := ?item\<lparr>qr_open := False, qr_decision := Some choice, qr_ticket := t\<rparr>]\<rparr> \<and>
      (t \<noteq> None \<longleftrightarrow> choice = Create_contact_and_ticket \<or> choice = Create_ticket_once)"
  proof (cases "choice = Create_contact_and_ticket \<or> choice = Create_ticket_once")
    case False
    with run show ?thesis by (auto simp: decide_mail_def Let_def and_then_Inr intro!: exI [of _ st])
  next
    case True
    have created: "same_rows st st1" if "create_from_inbound dk tk who a al s b f nm fs (st, d0) = Inr (x, st1, d1)" for dk tk who a al s b f nm fs d0 x st1 and d1 :: 'a
      using create_from_rows [OF that] by simp
    show ?thesis
      using run True
      by (auto simp: decide_mail_def Let_def and_then_Inr split: option.splits if_splits dest!: created) blast+
  qed
  then obtain st1 where s: "same_rows st st1"
      "st' = st1\<lparr>ms_quarantine := (ms_quarantine st1)[n := ?item\<lparr>qr_open := False, qr_decision := Some choice, qr_ticket := t\<rparr>]\<rparr>"
      "t \<noteq> None \<longleftrightarrow> choice = Create_contact_and_ticket \<or> choice = Create_ticket_once" by blast
  have q: "ms_quarantine st1 = ms_quarantine st" using s(1) by (simp add: same_rows_def)
  have "map qr_inbound ((ms_quarantine st)[n := ?item\<lparr>qr_open := False, qr_decision := Some choice, qr_ticket := t\<rparr>]) = map qr_inbound (ms_quarantine st)"
    using n by (simp add: map_update) (metis list_update_id nth_map)
  moreover have "item_ok (?item\<lparr>qr_open := False, qr_decision := Some choice, qr_ticket := t\<rparr>)" using s(3) by (auto simp: item_ok_def)
  ultimately have "quarantine_ok st'"
    using ok s(1) by (auto simp: mail_ok_def quarantine_ok_def s(2) q same_rows_def dest!: set_update_subset_insert [THEN subsetD])
  then show ?thesis
    using ok s(1) by (simp add: mail_ok_def s(2) same_rows_def claims_ok_def outbound_sound_def)
qed

subsection \<open>Outbound\<close>

lemma last_twenty_bound: "length (last_twenty xs) \<le> 20"
  by (simp add: last_twenty_def)

lemma compose_headers:
  "map_of (se_headers (compose i t tok mid to r latest)) ''auto-submitted'' = Some ''auto-generated''"
  "length (se_references (compose i t tok mid to r latest)) \<le> 20" "se_to (compose i t tok mid to r latest) = to"
  "se_message (compose i t tok mid to r latest) = mid" "se_account (compose i t tok mid to r latest) = mt_account t"
  by (auto simp: compose_def last_twenty_bound split: option.splits)

text \<open>One mail at most, and only for an outbox row that has none.\<close>

definition one_mail :: "nat \<Rightarrow> string \<Rightarrow> mail_state \<Rightarrow> mail_state \<Rightarrow> sent_mail list \<Rightarrow> sent_mail list \<Rightarrow> bool" where
  "one_mail n to st st' sent sent' \<longleftrightarrow>
     (ms_claims st' = ms_claims st \<and> ms_inbound st' = ms_inbound st \<and> ms_quarantine st' = ms_quarantine st \<and> ms_aliases st' = ms_aliases st) \<and>
     (ms_outbound st' = ms_outbound st \<and> ms_deliveries st' = ms_deliveries st \<and> sent' = sent \<or>
      n \<notin> mo_outbox ` set (ms_outbound st) \<and>
      (\<exists>row m dy. ms_outbound st' = ms_outbound st @ [row] \<and> sent' = sent @ [m] \<and> mo_outbox row = n \<and> mo_to row = to \<and>
         ms_deliveries st' = ms_deliveries st @ [dy] \<and> dy_message dy = length (ms_outbound st) \<and>
         se_message m = mo_message row \<and> se_to m = to \<and> map_of (se_headers m) ''auto-submitted'' = Some ''auto-generated'' \<and> length (se_references m) \<le> 20))"

lemma one_mail_keeps: "one_mail n to st st' sent sent' \<Longrightarrow> mail_ok st sent \<Longrightarrow> mail_ok st' sent'"
  by (auto simp: one_mail_def mail_ok_def claims_ok_def quarantine_ok_def outbound_sound_def)

lemma send_one_mail:
  assumes "send_to_requester ev fresh token0 now t to kind r n (st, d) sent = (res, sent')"
  shows "(\<forall>e. res = Inl e \<longrightarrow> sent' = sent) \<and> (\<forall>st' d'. res = Inr (st', d') \<longrightarrow> one_mail n to st st' sent sent')"
proof -
  obtain i st1 where i: "(case default_identity st (mt_account t) of
             Some i \<Rightarrow> (i, st)
           | None \<Rightarrow>
               let i = \<lparr>id_account = mt_account t, id_address = js_lower (js_lower (md_account_key (me_desk ev) (mt_account t) d) @ ''@'' @ me_domain ev),
                  id_name = md_account_key (me_desk ev) (mt_account t) d @ '' support'', id_default = True\<rparr>
               in (i, st\<lparr>ms_identities := ms_identities st @ [i]\<rparr>)) = (i, st1)" (is "?i = _") by (cases ?i)
  have same: "same_rows st st1" using i by (auto simp: same_rows_def Let_def split: option.splits)
  show ?thesis
    using assms same unfolding send_to_requester_def Let_def fst_conv snd_conv i [unfolded Let_def] prod.case
    by (auto simp: one_mail_def same_rows_def compose_headers split: sum.splits if_splits prod.splits)
qed

lemma one_mail_refl: "one_mail n to st st sent sent"
  by (simp add: one_mail_def)

lemma handle_cases:
  assumes "handle_outbox ev fresh token now c (st, d) sent = (res, sent')"
  obtains "res = Inr (st, d) \<or> (\<exists>e. res = Inl e)" "sent' = sent"
  | t to kind r where "send_to_requester ev fresh token now t to kind r (ch_id c) (st, d) sent = (res, sent')"
      "\<not> is_suppressed st (mt_account t) to"
  using assms by (auto simp: handle_outbox_def split: if_splits option.splits prod.splits)

lemma handle_one_mail:
  assumes "handle_outbox ev fresh token now c (st, d) sent = (res, sent')"
  shows "(\<forall>e. res = Inl e \<longrightarrow> sent' = sent) \<and> (\<forall>st' d'. res = Inr (st', d') \<longrightarrow> (\<exists>to. one_mail (ch_id c) to st st' sent sent'))"
  using assms
proof (cases rule: handle_cases)
  case 1
  then show ?thesis using one_mail_refl by auto
next
  case (2 t to kind r)
  with send_one_mail [OF 2(1)] show ?thesis by blast
qed

lemma suppress_rows: "same_rows st (suppress_all a r xs st)"
  by (simp add: same_rows_def suppress_all_def)

lemma set_delivery_keeps: "mail_ok st sent \<Longrightarrow> mail_ok (set_delivery n s st) sent"
proof -
  have "map dy_message ((ms_deliveries st)[n := (ms_deliveries st ! n)\<lparr>dy_state := s\<rparr>]) = map dy_message (ms_deliveries st)"
    by (cases "n < length (ms_deliveries st)") (simp_all add: map_update list_update_beyond, metis list_update_id nth_map)
  then show "mail_ok st sent \<Longrightarrow> mail_ok (set_delivery n s st) sent"
    by (simp add: mail_ok_def set_delivery_def claims_ok_def quarantine_ok_def outbound_sound_def)
qed

lemma delivery_keeps: "mail_ok st sent \<Longrightarrow> mail_ok (apply_delivery_event p e st) sent"
  using mail_ok_same [OF suppress_rows] set_delivery_keeps
  by (auto simp: apply_delivery_event_def Let_def split: option.splits delivery_event.splits)

subsection \<open>All histories\<close>

type_synonym 'd mail_world = "mail_state \<times> 'd \<times> sent_mail list"

text \<open>What others do to the tickets and contacts is a step of its own.\<close>

inductive mail_step :: "'d mail_world \<Rightarrow> 'd mail_world \<Rightarrow> bool" where
  receive: "process_inbound ev g tok now t m (st, d) = Inr (r, st', d') \<Longrightarrow> mail_step (st, d, sent) (st', d', sent)"
| decide: "decide_mail ev tok n choice files (st, d) = Inr (t, st', d') \<Longrightarrow> mail_step (st, d, sent) (st', d', sent)"
| outbox: "handle_outbox ev fresh tok now c (st, d) sent = (Inr (st', d'), sent') \<Longrightarrow> mail_step (st, d, sent) (st', d', sent')"
| outbox_fault: "handle_outbox ev fresh tok now c (st, d) sent = (Inl e, sent') \<Longrightarrow> mail_step (st, d, sent) (st, d, sent')"
| delivery: "mail_step (st, d, sent) (apply_delivery_event p e st, d, sent)"
| new_alias: "create_alias i account address ty st = Inr st' \<Longrightarrow> mail_step (st, d, sent) (st', d, sent)"
| alias_state: "set_alias_state i enable st = Inr st' \<Longrightarrow> mail_step (st, d, sent) (st', d, sent)"
| tickets: "mail_step (st, d, sent) (st, d', sent)"

definition no_mail :: mail_state where
  "no_mail = \<lparr>ms_aliases = [], ms_identities = [], ms_claims = [], ms_inbound = [], ms_quarantine = [], ms_outbound = [], ms_deliveries = [],
     ms_suppressed = [], ms_events = []\<rparr>"

definition world_ok :: "'d mail_world \<Rightarrow> bool" where
  "world_ok w \<longleftrightarrow> mail_ok (fst w) (snd (snd w)) \<and> aliases_ok (fst w)"

lemma alias_edits_keep:
  assumes "mail_ok st sent" "aliases_ok st"
  shows "create_alias i account address ty st = Inr st' \<Longrightarrow> mail_ok st' sent \<and> aliases_ok st'"
    "set_alias_state i enable st = Inr st' \<Longrightarrow> mail_ok st' sent \<and> aliases_ok st'"
proof -
  have rest: "mail_ok (st\<lparr>ms_aliases := xs\<rparr>) sent" for xs
    using assms(1) by (simp add: mail_ok_def claims_ok_def quarantine_ok_def outbound_sound_def)
  show "create_alias i account address ty st = Inr st' \<Longrightarrow> mail_ok st' sent \<and> aliases_ok st'"
    using assms(2) rest by (auto simp: create_alias_def and_then_Inr aliases_ok_def alias_by_address_def find_None_iff) metis
  have "map g (map (\<lambda>a. if al_id a = i then a\<lparr>al_active := enable\<rparr> else a) xs) = map g xs" if "\<And>a b. g (a\<lparr>al_active := b\<rparr>) = g a" for g :: "alias_row \<Rightarrow> string" and xs
    using that by simp
  then show "set_alias_state i enable st = Inr st' \<Longrightarrow> mail_ok st' sent \<and> aliases_ok st'"
    using assms(2) rest by (auto simp: set_alias_state_def and_then_Inr aliases_ok_def simp del: map_map)
qed

lemma delivery_aliases: "ms_aliases (apply_delivery_event p e st) = ms_aliases st"
  by (simp add: apply_delivery_event_def set_delivery_def suppress_all_def Let_def split: option.splits delivery_event.splits)

lemma mail_step_keeps: "mail_step w w' \<Longrightarrow> world_ok w \<Longrightarrow> world_ok w'"
proof (induction rule: mail_step.induct)
  case (receive ev g tok now t m st d r st' d' sent)
  then show ?case using process_keeps [of st sent ev g tok now t m d r st' d'] by (simp add: world_ok_def aliases_ok_def)
next
  case (decide ev tok n choice files st d t st' d' sent)
  then show ?case using decide_keeps [of st sent ev tok n choice files d t st' d'] by (simp add: world_ok_def aliases_ok_def)
next
  case (outbox ev fresh tok now c st d sent st' d' sent')
  from handle_one_mail [OF outbox.hyps] obtain to where o': "one_mail (ch_id c) to st st' sent sent'" by blast
  then have "ms_aliases st' = ms_aliases st" by (simp add: one_mail_def)
  with one_mail_keeps [OF o'] outbox.prems show ?case by (simp add: world_ok_def aliases_ok_def)
next
  case (outbox_fault ev fresh tok now c st d sent e sent')
  from handle_one_mail [OF outbox_fault.hyps] have "sent' = sent" by blast
  with outbox_fault.prems show ?case by (simp add: world_ok_def)
next
  case (delivery st d sent p e)
  then show ?case using delivery_keeps delivery_aliases by (simp add: world_ok_def aliases_ok_def)
next
  case (new_alias i account address ty st st' d sent)
  then show ?case using alias_edits_keep(1) by (simp add: world_ok_def) metis
next
  case (alias_state i enable st st' d sent)
  then show ?case using alias_edits_keep(2) by (simp add: world_ok_def) metis
qed (simp add: world_ok_def)

lemma mail_reached:
  assumes "mail_step\<^sup>*\<^sup>* (no_mail, d0, []) w"
  shows "world_ok w"
  using assms
proof (induction rule: rtranclp_induct)
  case base
  show ?case
    by (simp add: world_ok_def no_mail_def mail_ok_def claims_ok_def quarantine_ok_def outbound_sound_def aliases_ok_def quarantined_ids_def)
qed (rule mail_step_keeps)

end
