(* ===== verification/Email_Properties.thy ===== *)
theory Email_Properties
  imports Email_Life
begin

section \<open>Properties of email, with runs at a sample mailbox\<close>

text \<open>
  The guarantees over every history, then runs that show where the code falls short of its comments: a
  signal that cannot fire, an unknown sender who is not quarantined, a message that is lost because it
  came before its alias, a decision that cannot be made, a thread that is not found again.
\<close>

subsection \<open>Guarantees\<close>


text \<open>C17: Our own mail never loops: a message that carries the automatic header of a mail this module sent, a bounce or a copy
  that comes back, becomes no ticket, no comment and no quarantine item, whatever alias it arrives at.\<close>

theorem own_mail_never_loops:
  assumes "mail_step\<^sup>*\<^sup>* (no_mail, d0, []) (st, d, sent)" "mail \<in> set sent"
    and "map_of (pm_headers m) ''auto-submitted'' = map_of (se_headers mail) ''auto-submitted''"
    and "process_inbound ev g tok now t m (st1, d1) = Inr (r, st2, d2)" "aliases_ok st1"
  shows "mr_disposition r \<in> {Suppressed_mail, Rejected_mail, Duplicate_mail} \<and> mr_ticket r = None \<and> ms_quarantine st2 = ms_quarantine st1"
proof -
  have "map_of (pm_headers m) ''auto-submitted'' = Some ''auto-generated''"
    using mail_reached [OF assms(1)] assms(2,3) by (auto simp: world_ok_def mail_ok_def outbound_sound_def)
  moreover have "map_of (map (\<lambda>(k, v). (k, One_header v)) hs) k = map_option One_header (map_of hs k)" for hs :: "string js_map" and k
    by (induction hs) auto
  moreover have "js_lower ''auto-submitted'' = ''auto-submitted''" "js_lower (js_trim ''auto-generated'') \<noteq> ''no''" by code_simp+
  ultimately have header: "(100, ''auto_submitted'') \<in> set (loop_signals \<lparr>li_headers = map (\<lambda>(k, v). (k, One_header v)) (pm_headers m), li_subject = a,
      li_from = b, li_references = c, li_own_ids = e, li_own_senders = f, li_sender_count = h, li_subject_count = i\<rparr>)" for a b c e f h i
    by (simp add: loop_signals_def auto_submitted_signal_def loop_header_def)
  have loop: "lv_suppress (mail_loop s a al m now)" for s a al
    unfolding mail_loop_def Let_def by (rule one_signal_suppresses [OF header]) simp
  show ?thesis
  proof (cases "resolve_alias st1 (mail_recipients m)")
    case None
    with assms(4) show ?thesis by (auto simp: process_inbound_def Let_def finish_inbox_def claim_inbox_def split: if_splits)
  next
    case (Some x)
    obtain address account where x: "x = (address, account)" by fastforce
    show ?thesis
    proof (cases "mail_from m = [] \<or> claimed st1 (mail_message_id g m)")
      case True
      with assms(4) Some x show ?thesis by (auto simp: process_inbound_def Let_def split: if_splits)
    next
      case False
      with assms(4) Some x obtain al where al: "alias_by_address st1 address = Some al"
          "accept_inbound ev tok now t al (mail_message_id g m) m (claim_inbox (mail_message_id g m) (Some account) st1, d1) = Inr (r, st2, d2)"
        by (auto simp: process_inbound_def Let_def split: option.splits)
      from al(2) loop have "mr_disposition r = Suppressed_mail" "mr_ticket r = None"
        by (auto simp: accept_inbound_def Let_def and_then_Inr)
      moreover have "al_account al = account" using resolved_alias [OF assms(5) Some [unfolded x] al(1)] .
      then obtain row where "accepted row st1 st2" "ib_disposition row = mr_disposition r"
        using accept_accepted [OF al(2) [folded \<open>al_account al = account\<close>]] by blast
      ultimately show ?thesis by (simp add: accepted_def same_rows_def entered_rows)
    qed
  qed
qed

text \<open>Mail respects suppression: handling an outbox row hands at most one message to the transport, only when that row has
  not been mailed before, and never to an address the account's deliveries have suppressed.\<close>

theorem mail_respects_suppression:
  assumes "handle_outbox ev fresh tok now c (st, d) sent = (res, sent')"
  shows "sent' = sent \<or> (\<exists>mail. sent' = sent @ [mail] \<and> ch_id c \<notin> mo_outbox ` set (ms_outbound st) \<and>
    \<not> is_suppressed st (se_account mail) (se_to mail))"
  using assms
proof (cases rule: handle_cases)
  case (2 t to kind r)
  have "sent' = sent \<or> (\<exists>mail. sent' = sent @ [mail] \<and> se_to mail = to \<and> se_account mail = mt_account t \<and> ch_id c \<notin> mo_outbox ` set (ms_outbound st))"
    using 2(1) by (auto simp: send_to_requester_def Let_def compose_headers split: sum.splits if_splits prod.splits option.splits)
  with 2(2) show ?thesis by metis
qed simp

subsection \<open>A sample mailbox\<close>

record mail_book =
  bk_tickets :: "mail_ticket list"
  bk_contacts :: "(string \<times> mail_contact) list"
  bk_comments :: "(string \<times> string) list"

definition book_ticket :: "string \<Rightarrow> string \<Rightarrow> ticket_order \<Rightarrow> mail_ticket" where
  "book_ticket i who r = \<lparr>mt_id = i, mt_account = to_account r, mt_key = ''CS0000001'', mt_short = to_short r, mt_source = ''email'', mt_contact = Some who,
     mt_resolved = False, mt_remarks = None, mt_token = None\<rparr>"

definition book_create :: "mail_author \<Rightarrow> ticket_order \<Rightarrow> mail_book \<Rightarrow> mail_fault + (string \<times> mail_book)" where
  "book_create who r b =
     (let i = ''t'' @ replicate (length (bk_tickets b)) CHR ''x'' in
      case find (\<lambda>c. fst c = to_account r \<and> mc_email (snd c) = to_email r) (bk_contacts b) of
        Some c \<Rightarrow> Inr (i, b\<lparr>bk_tickets := bk_tickets b @ [book_ticket i (mc_id (snd c)) r]\<rparr>)
      | None \<Rightarrow>
          let k = ''c'' @ replicate (length (bk_contacts b)) CHR ''x''
          in Inr (i, b\<lparr>bk_tickets := bk_tickets b @ [book_ticket i k r],
               bk_contacts := bk_contacts b @ [(to_account r, \<lparr>mc_id = k, mc_email = to_email r, mc_name = to_name r, mc_portal = False\<rparr>)]\<rparr>))"

text \<open>A contact a ticket refers to cannot be deleted: the column is a foreign key.\<close>

definition book_drop :: "string \<Rightarrow> string \<Rightarrow> mail_book \<Rightarrow> mail_fault + mail_book" where
  "book_drop i t b =
     (if \<exists>x\<in>set (bk_tickets b). mt_contact x = Some i \<and> mt_id x \<noteq> t then Inr b
      else if \<exists>x\<in>set (bk_tickets b). mt_contact x = Some i then Inl (Mail_thrown ''foreign key'')
      else Inr (b\<lparr>bk_contacts := filter (\<lambda>c. mc_id (snd c) \<noteq> i) (bk_contacts b)\<rparr>))"

definition book_desk :: "mail_book mail_desk" where
  "book_desk =
     \<lparr>md_create = book_create, md_comment = (\<lambda>who t body b. Inr (''m'', b\<lparr>bk_comments := bk_comments b @ [(t, body)]\<rparr>)),
      md_token = (\<lambda>t tok b. Inr b), md_store = (\<lambda>who t c f b. Inr b), md_max_bytes = (\<lambda>a b. 100),
      md_by_token = (\<lambda>a tok b. None), md_by_number = (\<lambda>a n b. if n = 1 then map_option (\<lambda>t. (mt_id t, None)) (find (\<lambda>t. True) (bk_tickets b)) else None),
      md_ticket = (\<lambda>i b. find (\<lambda>t. mt_id t = i) (bk_tickets b)), md_comment_row = (\<lambda>i b. Some (''done'', ''Bob'')),
      md_contact = (\<lambda>a e b. map_option snd (find (\<lambda>c. fst c = a \<and> mc_email (snd c) = e) (bk_contacts b))),
      md_contact_by_id = (\<lambda>i b. map_option snd (find (\<lambda>c. mc_id (snd c) = i) (bk_contacts b))),
      md_add_contact = (\<lambda>a e n p b. Inr (\<lparr>mc_id = e, mc_email = e, mc_name = n, mc_portal = p\<rparr>,
         b\<lparr>bk_contacts := bk_contacts b @ [(a, \<lparr>mc_id = e, mc_email = e, mc_name = n, mc_portal = p\<rparr>)]\<rparr>)),
      md_drop_contact = book_drop, md_user = (\<lambda>e b. None), md_account_key = (\<lambda>a b. ''ACME''), md_branding = (\<lambda>a b. \<lparr>br_name = ''Acme'', br_accent = None, br_footer = None\<rparr>)\<rparr>"

definition book_env :: "mail_book mail_env" where
  "book_env = \<lparr>me_desk = book_desk, me_patterns = \<lparr>rp_quote = [], rp_signature = [], rp_disclaimer = []\<rparr>, me_domain = ''xms'', me_send = (\<lambda>sent m. Inr (''p'' @ replicate (length sent) CHR ''x''))\<rparr>"

definition letter :: "string \<Rightarrow> string \<Rightarrow> string \<Rightarrow> string option \<Rightarrow> string js_map \<Rightarrow> parsed_mail" where
  "letter mid from subject reply hs = \<lparr>pm_message = Some mid, pm_to = [Some ''help@acme''], pm_cc = [], pm_delivered = [], pm_original = [],
     pm_from = Some (Some from, []), pm_subject = Some subject, pm_reply_to = reply, pm_references = [], pm_headers = hs, pm_text = Some ''hello'',
     pm_html = [], pm_files = []\<rparr>"

type_synonym book_world = "mail_book mail_world"

definition with_alias :: "book_world \<Rightarrow> book_world" where
  "with_alias w = (case w of (st, d, sent) \<Rightarrow> (case create_alias ''al'' ''a'' ''help@acme'' None st of Inl e \<Rightarrow> w | Inr st' \<Rightarrow> (st', d, sent)))"

definition letter_in :: "parsed_mail \<Rightarrow> book_world \<Rightarrow> book_world" where
  "letter_in m w = (case w of (st, d, sent) \<Rightarrow> (case process_inbound book_env ''g'' ''k'' 0 0 m (st, d) of Inl e \<Rightarrow> w | Inr (r, st', d') \<Rightarrow> (st', d', sent)))"

definition decided :: "decision \<Rightarrow> book_world \<Rightarrow> book_world" where
  "decided c w = (case w of (st, d, sent) \<Rightarrow> (case decide_mail book_env ''k'' 0 c [] (st, d) of Inl e \<Rightarrow> w | Inr (t, st', d') \<Rightarrow> (st', d', sent)))"

definition change_out :: "nat \<Rightarrow> string \<Rightarrow> book_world \<Rightarrow> book_world" where
  "change_out n event w = (case w of (st, d, sent) \<Rightarrow>
     (case handle_outbox book_env ''f'' ''k'' 0 \<lparr>ch_id = n, ch_event = event, ch_ticket = ''t'', ch_source = ''internal'', ch_comment = ''m'', ch_to = []\<rparr> (st, d) sent of
        (Inl e, sent') \<Rightarrow> (st, d, sent') | (Inr (st', d'), sent') \<Rightarrow> (st', d', sent')))"

lemma book_moves:
  "mail_step\<^sup>*\<^sup>* a w \<Longrightarrow> mail_step\<^sup>*\<^sup>* a (with_alias w)" "mail_step\<^sup>*\<^sup>* a w \<Longrightarrow> mail_step\<^sup>*\<^sup>* a (letter_in m w)"
  "mail_step\<^sup>*\<^sup>* a w \<Longrightarrow> mail_step\<^sup>*\<^sup>* a (decided c w)" "mail_step\<^sup>*\<^sup>* a w \<Longrightarrow> mail_step\<^sup>*\<^sup>* a (change_out n event w)"
  unfolding with_alias_def letter_in_def decided_def change_out_def
  by (auto split: prod.splits sum.splits intro: rtranclp.rtrancl_into_rtrancl mail_step.intros)

definition empty_book :: mail_book where
  "empty_book = \<lparr>bk_tickets = [], bk_contacts = [(''a'', \<lparr>mc_id = ''c'', mc_email = ''ann@x'', mc_name = ''Ann'', mc_portal = False\<rparr>)], bk_comments = []\<rparr>"

definition known_world :: book_world where
  "known_world = change_out 1 ''ticket.created'' (letter_in (letter ''<1>'' ''ann@x'' ''printer'' None []) (with_alias (no_mail, empty_book, [])))"

lemma known_reached: "mail_step\<^sup>*\<^sup>* (no_mail, empty_book, []) known_world"
  unfolding known_world_def by (intro book_moves rtranclp.rtrancl_refl)

lemma world_exists: "mail_step\<^sup>*\<^sup>* a w \<Longrightarrow> (case w of (st, d, sent) \<Rightarrow> P st d sent) \<Longrightarrow> \<exists>st d sent. mail_step\<^sup>*\<^sup>* a (st, d, sent) \<and> P st d sent"
  by (cases w) auto

text \<open>The sample run: a message becomes a ticket, and its outbox row is acknowledged.\<close>

lemma known_values:
  "case known_world of (st, d, sent) \<Rightarrow> map ib_disposition (ms_inbound st) = [Created_mail] \<and> map se_to sent = [''ann@x''] \<and>
     map se_headers sent = [[(''auto-submitted'', ''auto-generated''), (''x-xms-ticket'', ''CS0000001'')]] \<and> map mo_outbox (ms_outbound st) = [1]"
  by code_simp


definition bounced_letter :: parsed_mail where
  "bounced_letter = letter ''<9>'' ''daemon@x'' ''bounce'' None [(''auto-submitted'', ''auto-generated'')]"

theorem own_mail_never_loops_witness:
  "\<exists>st d sent r st2 d2. known_world = (st, d, sent) \<and> process_inbound book_env ''g'' ''k'' 0 0 bounced_letter (st, d) = Inr (r, st2, d2) \<and>
     mr_disposition r = Suppressed_mail \<and> ms_quarantine st2 = ms_quarantine st"
proof -
  obtain st d sent where w: "known_world = (st, d, sent)" by (cases known_world)
  obtain mail where mail: "mail \<in> set sent" "map_of (se_headers mail) ''auto-submitted'' = Some ''auto-generated''"
    using known_values by (cases sent) (auto simp: w)
  have header: "map_of (pm_headers bounced_letter) ''auto-submitted'' = map_of (se_headers mail) ''auto-submitted''"
    using mail(2) by (simp add: bounced_letter_def letter_def)
  have "case known_world of (st, d, sent) \<Rightarrow> (case process_inbound book_env ''g'' ''k'' 0 0 bounced_letter (st, d) of Inl e \<Rightarrow> False
      | Inr (r, st2, d2) \<Rightarrow> mr_disposition r = Suppressed_mail)" by code_simp
  then obtain r st2 d2 where run: "process_inbound book_env ''g'' ''k'' 0 0 bounced_letter (st, d) = Inr (r, st2, d2)" "mr_disposition r = Suppressed_mail"
    by (auto simp: w split: sum.splits)
  have "aliases_ok st" using mail_reached [OF known_reached [unfolded w]] by (simp add: world_ok_def)
  from own_mail_never_loops [OF known_reached [unfolded w] mail(1) header run(1) this] run w show ?thesis by blast
qed

theorem mail_respects_suppression_witness:
  "\<exists>res. handle_outbox book_env ''f'' ''k'' 0 \<lparr>ch_id = 2, ch_event = ''ticket.created'', ch_ticket = ''t'', ch_source = [], ch_comment = [], ch_to = []\<rparr>
      (suppress_all ''a'' ''bounce_hard'' [''Ann@x''] (fst known_world), fst (snd known_world)) [] = (res, []) \<and>
    ([] = ([] :: sent_mail list) \<or> (\<exists>mail. [] = [] @ [mail] \<and> \<not> is_suppressed (suppress_all ''a'' ''bounce_hard'' [''Ann@x''] (fst known_world)) (se_account mail) (se_to mail)))"
proof -
  let ?c = "\<lparr>ch_id = 2, ch_event = ''ticket.created'', ch_ticket = ''t'', ch_source = [], ch_comment = [], ch_to = []\<rparr>"
  let ?st = "suppress_all ''a'' ''bounce_hard'' [''Ann@x''] (fst known_world)"
  have "snd (handle_outbox book_env ''f'' ''k'' 0 ?c (?st, fst (snd known_world)) []) = []" by code_simp
  then obtain res where run: "handle_outbox book_env ''f'' ''k'' 0 ?c (?st, fst (snd known_world)) [] = (res, [])" by (metis prod.collapse)
  from mail_respects_suppression [OF this] run show ?thesis by blast
qed

subsection \<open>Where the code falls short\<close>

text \<open>The signal of a reflected thread cannot fire: the handler looks for the references among an empty set of own ids.\<close>

theorem reflected_thread_never:
  "''reflected_thread'' \<notin> set (lv_signals (mail_loop st account al m now))"
proof -
  have "drop 2 n \<noteq> ''reflected_thread''" if "n \<in> {''x-auto-response-suppress'', ''x-autoreply'', ''x-autorespond''}" for n using that by auto
  then have "(p, ''reflected_thread'') \<notin> set (auto_reply_signal hs)" for p hs
    by (auto simp: auto_reply_signal_def split: list.splits if_splits)
  moreover have "(p, ''reflected_thread'') \<notin> set (auto_submitted_signal hs)" "(p, ''reflected_thread'') \<notin> set (precedence_signal hs)" for p hs
    by (auto simp: auto_submitted_signal_def precedence_signal_def split: option.splits if_splits)
  ultimately show ?thesis
    by (auto simp: mail_loop_def Let_def score_loop_signals loop_signals_def)
qed

definition spoofed_world :: book_world where
  "spoofed_world = letter_in (letter ''<2>'' ''eve@y'' ''about [cs0000001]'' None []) known_world"

definition late_alias_world :: book_world where
  "late_alias_world = letter_in (letter ''<1>'' ''ann@x'' ''printer'' None []) (with_alias (letter_in (letter ''<1>'' ''ann@x'' ''printer'' None []) (no_mail, empty_book, [])))"

definition held_world :: book_world where
  "held_world = letter_in (letter ''<3>'' ''eve@y'' ''new'' None []) (with_alias (no_mail, empty_book, []))"

definition followed_world :: book_world where
  "followed_world = letter_in (letter ''<4>'' ''dan@y'' ''Re: new'' (Some ''<3>'') []) (decided Create_contact_and_ticket held_world)"

lemma book_runs_reached:
  "mail_step\<^sup>*\<^sup>* (no_mail, empty_book, []) spoofed_world" "mail_step\<^sup>*\<^sup>* (no_mail, empty_book, []) late_alias_world"
  "mail_step\<^sup>*\<^sup>* (no_mail, empty_book, []) held_world" "mail_step\<^sup>*\<^sup>* (no_mail, empty_book, []) followed_world"
  unfolding spoofed_world_def late_alias_world_def held_world_def followed_world_def
  by (intro book_moves known_reached rtranclp.rtrancl_refl)+

text \<open>An unknown sender who writes a ticket key in the subject is not quarantined: the message becomes a comment on that ticket.\<close>

theorem unknown_sender_by_key:
  "\<exists>st d sent. mail_step\<^sup>*\<^sup>* (no_mail, empty_book, []) (st, d, sent) \<and>
     map (\<lambda>r. (ib_from r, ib_sender r, ib_disposition r, ib_matched r)) (ms_inbound st) =
       [(''ann@x'', Known_contact, Created_mail, None), (''eve@y'', Unknown_sender, Appended_mail, Some By_subject_key)] \<and>
     ms_quarantine st = [] \<and> bk_comments d = [(''t'', ''hello'')]"
  by (rule world_exists [OF book_runs_reached(1)]) code_simp

text \<open>A message that came before its alias is lost: it claimed its id, so when it is delivered again it counts as a duplicate.\<close>

theorem early_message_lost:
  "\<exists>st d sent. mail_step\<^sup>*\<^sup>* (no_mail, empty_book, []) (st, d, sent) \<and> map al_address (ms_aliases st) = [''help@acme''] \<and>
     ms_claims st = [\<lparr>cm_message = ''<1>'', cm_account = None, cm_outcome = Some ''failed''\<rparr>] \<and> ms_inbound st = [] \<and> bk_tickets d = []"
  by (rule world_exists [OF book_runs_reached(2)]) code_simp

text \<open>A ticket cannot be made once: the contact it was just given cannot be deleted, and the failed statement ends the
  transaction the decision is written in.\<close>

theorem once_decision_fails:
  "case held_world of (st, d, sent) \<Rightarrow> map qr_open (ms_quarantine st) = [True] \<and>
     (case decide_mail book_env ''k'' 0 Create_ticket_once [] (st, d) of Inl e \<Rightarrow> e = Mail_thrown ''foreign key'' | Inr x \<Rightarrow> False) \<and>
     (case decide_mail book_env ''k'' 0 Create_contact_and_ticket [] (st, d) of Inl e \<Rightarrow> False | Inr x \<Rightarrow> fst x \<noteq> None)"
  by code_simp

text \<open>The thread of a decided message is not found: its row does not learn the ticket, so an answer to the message that
  became a ticket is quarantined again.\<close>

theorem decided_thread_lost:
  "\<exists>st d sent. mail_step\<^sup>*\<^sup>* (no_mail, empty_book, []) (st, d, sent) \<and> map qr_ticket (ms_quarantine st) = [Some ''t'', None] \<and>
     map (\<lambda>r. (ib_message r, ib_reply_to r, ib_disposition r, ib_ticket r)) (ms_inbound st) =
       [(''<3>'', None, Quarantined_mail, None), (''<4>'', Some ''<3>'', Quarantined_mail, None)]"
  by (rule world_exists [OF book_runs_reached(4)]) code_simp

end
