(* ===== verification/Outbox.thy ===== *)
theory Outbox
  imports Prelude
begin

section \<open>The outbox and the scheduled jobs (src/worker/outbox-dispatcher.ts, src/worker/jobs.ts)\<close>

text \<open>
  A change writes an outbox row in its own transaction (\<open>common/outbox/outbox.service.ts\<close>); the dispatcher
  claims rows that are not dispatched, in the order of their ids, and hands each to the handlers whose event
  type matches. The first fault ends the row's turn; the fifth sends the row to the dead letters. A pass is one
  transaction over the rows, while what the handlers did stays done. The content of a row and the world of
  the handlers are parameters. Jobs run under a lease on their name.
\<close>

subsection \<open>Rows\<close>

record 'c outbox_row =
  ob_id :: nat
  ob_event :: string
  ob_body :: 'c
  ob_attempts :: nat
  ob_dispatched :: bool
  ob_error :: "string option"

record outbox_letter =
  ol_row :: nat
  ol_event :: string
  ol_error :: string
  ol_attempts :: nat

record ('c, 'h) outbox_handler =
  oh_name :: string
  oh_matches :: "string \<Rightarrow> bool"
  oh_handle :: "'c outbox_row \<Rightarrow> 'h \<Rightarrow> string option \<times> 'h"

record 'c outbox_store =
  os_rows :: "'c outbox_row list"
  os_letters :: "outbox_letter list"
  os_running :: bool

definition outbox_attempts_max :: nat where
  "outbox_attempts_max = 5"

definition write_outbox :: "string \<Rightarrow> 'c \<Rightarrow> 'c outbox_store \<Rightarrow> 'c outbox_store" where
  "write_outbox event body st =
     st\<lparr>os_rows := os_rows st @ [\<lparr>ob_id = length (os_rows st), ob_event = event, ob_body = body, ob_attempts = 0,
       ob_dispatched = False, ob_error = None\<rparr>]\<rparr>"

subsection \<open>A pass of the dispatcher\<close>

text \<open>The handlers in the order they were subscribed; the first fault ends the row's turn with its text.\<close>

fun dispatch :: "('c, 'h) outbox_handler list \<Rightarrow> 'c outbox_row \<Rightarrow> 'h \<Rightarrow> string option \<times> 'h" where
  "dispatch [] r h = (None, h)"
| "dispatch (x # xs) r h =
     (if \<not> oh_matches x (ob_event r) then dispatch xs r h
      else case oh_handle x r h of
        (None, h') \<Rightarrow> dispatch xs r h'
      | (Some e, h') \<Rightarrow> (Some (oh_name x @ '': '' @ e), h'))"

text \<open>What a turn makes of its row, with the dead letter of a fifth failure.\<close>

definition settle_row :: "string option \<Rightarrow> 'c outbox_row \<Rightarrow> 'c outbox_row \<times> outbox_letter list" where
  "settle_row out r =
     (case out of
        None \<Rightarrow> (r\<lparr>ob_dispatched := True, ob_attempts := ob_attempts r + 1\<rparr>, [])
      | Some e \<Rightarrow>
          let n = ob_attempts r + 1 in
          if outbox_attempts_max \<le> n then
            (r\<lparr>ob_dispatched := True, ob_attempts := n, ob_error := Some e\<rparr>,
             [\<lparr>ol_row = ob_id r, ol_event = ob_event r, ol_error = e, ol_attempts = n\<rparr>])
          else (r\<lparr>ob_attempts := n, ob_error := Some e\<rparr>, []))"

text \<open>The rows in id order; at most \<open>room\<close> undispatched ones are claimed.\<close>

fun pass_rows :: "('c, 'h) outbox_handler list \<Rightarrow> nat \<Rightarrow> 'c outbox_row list \<Rightarrow> 'h \<Rightarrow> 'c outbox_row list \<times> outbox_letter list \<times> 'h" where
  "pass_rows hs room [] h = ([], [], h)"
| "pass_rows hs room (r # rs) h =
     (if ob_dispatched r \<or> room = 0 then (case pass_rows hs room rs h of (rs', ls, h') \<Rightarrow> (r # rs', ls, h'))
      else
        let (out, h1) = dispatch hs r h; (r', l) = settle_row out r in
        (case pass_rows hs (room - 1) rs h1 of (rs', ls, h') \<Rightarrow> (r' # rs', l @ ls, h')))"

text \<open>A pass: the flag is taken before the connection and given back after it, so a connection that cannot be made
  leaves it taken. When the transaction does not commit, the rows stay as they were.\<close>

definition outbox_tick :: "('c, 'h) outbox_handler list \<Rightarrow> nat \<Rightarrow> bool \<Rightarrow> bool \<Rightarrow> 'c outbox_store \<times> 'h \<Rightarrow> 'c outbox_store \<times> 'h" where
  "outbox_tick hs limit connects commits w =
     (let (st, h) = w in
      if os_running st then w
      else if \<not> connects then (st\<lparr>os_running := True\<rparr>, h)
      else (case pass_rows hs limit (os_rows st) h of (rs, ls, h') \<Rightarrow>
        if commits then (st\<lparr>os_rows := rs, os_letters := os_letters st @ ls\<rparr>, h') else (st, h')))"

subsection \<open>Leases of jobs (jobs.ts)\<close>

record lease_row =
  le_name :: string
  le_holder :: string
  le_until :: ms
  le_outcome :: "string option"

definition lease_seconds :: "ms \<Rightarrow> int" where
  "lease_seconds interval = max 30 ((interval * 2 + 999) div 1000)"

text \<open>Acquired when there is no lease of that name or the one there is has run out.\<close>

definition acquire_lease :: "string \<Rightarrow> ms \<Rightarrow> string \<Rightarrow> ms \<Rightarrow> lease_row list \<Rightarrow> lease_row list option" where
  "acquire_lease name interval holder now ls =
     (let till = now + 1000 * lease_seconds interval in
      case find (\<lambda>l. le_name l = name) ls of
        None \<Rightarrow> Some (ls @ [\<lparr>le_name = name, le_holder = holder, le_until = till, le_outcome = None\<rparr>])
      | Some l \<Rightarrow>
          if le_until l < now then Some (map (\<lambda>l. if le_name l = name then l\<lparr>le_holder := holder, le_until := till\<rparr> else l) ls)
          else None)"

definition release_lease :: "string \<Rightarrow> string \<Rightarrow> string \<Rightarrow> ms \<Rightarrow> lease_row list \<Rightarrow> lease_row list" where
  "release_lease name holder out now ls =
     map (\<lambda>l. if le_name l = name \<and> le_holder l = holder then l\<lparr>le_until := now, le_outcome := Some (take 500 out)\<rparr> else l) ls"

subsection \<open>Passes over the rows\<close>

lemma settle_row_keeps [simp]:
  "ob_id (fst (settle_row out r)) = ob_id r" "ob_event (fst (settle_row out r)) = ob_event r" "ob_body (fst (settle_row out r)) = ob_body r"
  "ob_attempts (fst (settle_row out r)) = ob_attempts r + 1"
  by (simp_all add: settle_row_def Let_def split: option.splits)

definition row_key :: "'c outbox_row \<Rightarrow> nat \<times> string \<times> 'c" where
  "row_key r = (ob_id r, ob_event r, ob_body r)"

lemma same_row: "distinct (map ob_id rs) \<Longrightarrow> r \<in> set rs \<Longrightarrow> q \<in> set rs \<Longrightarrow> ob_id r = ob_id q \<Longrightarrow> r = q"
  by (auto dest: inj_onD simp: distinct_map)

lemma pass_rows_keys: "map row_key (fst (pass_rows hs n rs h)) = map row_key rs"
proof (induction hs n rs h rule: pass_rows.induct)
  case (2 hs n r rs h)
  show ?case
    using 2 by (auto simp: Let_def split: prod.splits) (metis fst_conv row_key_def settle_row_keeps(1-3))+
qed simp

text \<open>A row is sound when it is pending below the limit of attempts, or dispatched within it; a letter names a
  dispatched row at the limit.\<close>

definition row_sound :: "'c outbox_row \<Rightarrow> bool" where
  "row_sound r \<longleftrightarrow> (if ob_dispatched r then 1 \<le> ob_attempts r \<and> ob_attempts r \<le> outbox_attempts_max else ob_attempts r < outbox_attempts_max)"

definition letter_of :: "'c outbox_row \<Rightarrow> outbox_letter \<Rightarrow> bool" where
  "letter_of r l \<longleftrightarrow> ol_row l = ob_id r \<and> ol_event l = ob_event r \<and> ol_attempts l = outbox_attempts_max \<and>
     ob_dispatched r \<and> ob_attempts r = outbox_attempts_max \<and> ob_error r = Some (ol_error l)"

lemma settle_row_sound:
  assumes "row_sound r" "\<not> ob_dispatched r"
  shows "row_sound (fst (settle_row out r))" and "\<forall>l\<in>set (snd (settle_row out r)). letter_of (fst (settle_row out r)) l"
    and "length (snd (settle_row out r)) \<le> 1"
  using assms by (auto simp: settle_row_def row_sound_def letter_of_def Let_def outbox_attempts_max_def split: option.splits)

lemma pass_rows_sound:
  assumes "\<forall>r\<in>set rs. row_sound r" "pass_rows hs n rs h = (rs', ls, h')" "distinct (map ob_id rs)"
  shows "(\<forall>r\<in>set rs'. row_sound r) \<and> (\<forall>l\<in>set ls. \<exists>r\<in>set rs'. letter_of r l) \<and> distinct (map ol_row ls) \<and>
    (\<forall>l\<in>set ls. \<exists>r\<in>set rs. ob_id r = ol_row l \<and> \<not> ob_dispatched r) \<and> (\<forall>r\<in>set rs. ob_dispatched r \<longrightarrow> r \<in> set rs')"
  using assms
proof (induction hs n rs h arbitrary: rs' ls h' rule: pass_rows.induct)
  case (2 hs n r rs h)
  show ?case
  proof (cases "ob_dispatched r \<or> n = 0")
    case True
    then obtain rs2 where p: "pass_rows hs n rs h = (rs2, ls, h')" "rs' = r # rs2" using 2(4) by (auto split: prod.splits)
    with 2(1) [OF True _ p(1)] 2(3,5) show ?thesis by auto
  next
    case False
    obtain out h1 where d: "dispatch hs r h = (out, h1)" by fastforce
    obtain r' l where s: "settle_row out r = (r', l)" by fastforce
    obtain rs2 ls2 h2 where p: "pass_rows hs (n - Suc 0) rs h1 = (rs2, ls2, h2)" by (metis prod.exhaust)
    have e: "rs' = r' # rs2" "ls = l @ ls2" using 2(4) False by (auto simp: d s p Let_def)
    have IH: "(\<forall>r\<in>set rs2. row_sound r) \<and> (\<forall>l\<in>set ls2. \<exists>r\<in>set rs2. letter_of r l) \<and> distinct (map ol_row ls2) \<and>
      (\<forall>l\<in>set ls2. \<exists>r\<in>set rs. ob_id r = ol_row l \<and> \<not> ob_dispatched r) \<and> (\<forall>r\<in>set rs. ob_dispatched r \<longrightarrow> r \<in> set rs2)"
      using 2(2) [OF False d [symmetric] refl s [symmetric] refl, of rs2 ls2 h2] p 2(3,5) by simp
    have r: "row_sound r'" "\<forall>x\<in>set l. letter_of r' x" "length l \<le> 1" "ob_id r' = ob_id r"
      using settle_row_sound [of r out] 2(3) False settle_row_keeps(1) [of out r] by (simp_all add: s)
    have "ob_id r \<notin> ol_row ` set ls2"
    proof
      assume "ob_id r \<in> ol_row ` set ls2"
      then obtain x where "x \<in> set ls2" "ob_id r = ol_row x" by auto
      moreover from this(1) obtain q where "q \<in> set rs" "ob_id q = ol_row x" using IH by metis
      ultimately have "ob_id r \<in> ob_id ` set rs" by force
      with 2(5) show False by simp
    qed
    moreover have "\<forall>x\<in>set l. ol_row x = ob_id r" using r by (auto simp: letter_of_def)
    ultimately have "distinct (map ol_row ls)" using IH r(3) by (cases l) (auto simp: e)
    moreover have "\<forall>x\<in>set rs'. row_sound x" using IH r(1) by (simp add: e)
    moreover have "\<forall>x\<in>set ls. \<exists>q\<in>set rs'. letter_of q x" using IH r(2) unfolding e by (metis UnE list.set_intros set_append)
    moreover have "\<forall>x\<in>set ls. \<exists>q\<in>set (r # rs). ob_id q = ol_row x \<and> \<not> ob_dispatched q"
    proof
      fix x assume "x \<in> set ls"
      then consider "x \<in> set l" | "x \<in> set ls2" by (auto simp: e)
      then show "\<exists>q\<in>set (r # rs). ob_id q = ol_row x \<and> \<not> ob_dispatched q"
      proof cases
        case 1
        then have "ob_id r = ol_row x" using r(2,4) by (simp add: letter_of_def)
        with False show ?thesis by auto
      next
        case 2
        then obtain q where "q \<in> set rs" "ob_id q = ol_row x" "\<not> ob_dispatched q" using IH by blast
        then show ?thesis by auto
      qed
    qed
    moreover have "\<forall>q\<in>set (r # rs). ob_dispatched q \<longrightarrow> q \<in> set rs'" using IH False by (auto simp: e)
    ultimately show ?thesis by blast
  qed
qed simp

subsection \<open>Handlers with a log\<close>

text \<open>A handler that also logs what it answered; the log is not part of the code.\<close>

type_synonym call_log = "(string \<times> nat \<times> string option) list"

definition logged :: "('c, 'h) outbox_handler \<Rightarrow> ('c, 'h \<times> call_log) outbox_handler" where
  "logged x = \<lparr>oh_name = oh_name x, oh_matches = oh_matches x,
     oh_handle = (\<lambda>r (h, l). case oh_handle x r h of (e, h') \<Rightarrow> (e, h', l @ [(oh_name x, ob_id r, e)]))\<rparr>"

definition handled_by :: "('c, 'h) outbox_handler list \<Rightarrow> 'c outbox_row \<Rightarrow> call_log \<Rightarrow> bool" where
  "handled_by hs r l \<longleftrightarrow> (\<forall>x\<in>set hs. oh_matches x (ob_event r) \<longrightarrow> (oh_name x, ob_id r, None) \<in> set l)"

lemma logged_simps [simp]:
  "oh_name (logged x) = oh_name x" "oh_matches (logged x) = oh_matches x"
  "oh_handle (logged x) r (h, l) = (fst (oh_handle x r h), snd (oh_handle x r h), l @ [(oh_name x, ob_id r, fst (oh_handle x r h))])"
  by (simp_all add: logged_def split: prod.splits)

lemma dispatch_logged:
  "\<exists>l'. snd (snd (dispatch (map logged hs) r (h, l))) = l @ l' \<and>
    (fst (dispatch (map logged hs) r (h, l)) = None \<longrightarrow> handled_by hs r (l @ l'))"
proof (induction hs arbitrary: h l)
  case Nil
  then show ?case by (simp add: handled_by_def)
next
  case (Cons x hs)
  show ?case
  proof (cases "oh_matches x (ob_event r)")
    case False
    with Cons [of h l] show ?thesis by (auto simp: handled_by_def)
  next
    case True
    obtain e h' where c: "oh_handle x r h = (e, h')" by fastforce
    show ?thesis
    proof (cases e)
      case None
      from Cons [of h' "l @ [(oh_name x, ob_id r, None)]"] obtain l' where
        "snd (snd (dispatch (map logged hs) r (h', l @ [(oh_name x, ob_id r, None)]))) = l @ (oh_name x, ob_id r, None) # l'"
        "fst (dispatch (map logged hs) r (h', l @ [(oh_name x, ob_id r, None)])) = None \<longrightarrow> handled_by hs r (l @ (oh_name x, ob_id r, None) # l')"
        by auto
      with True c None show ?thesis
        by (intro exI [of _ "(oh_name x, ob_id r, None) # l'"]) (auto simp: handled_by_def)
    next
      case (Some t)
      with True c show ?thesis by auto
    qed
  qed
qed

lemma handled_by_more: "handled_by hs r l \<Longrightarrow> handled_by hs r (l @ l')"
  by (auto simp: handled_by_def)

text \<open>After a pass, what was newly dispatched without a letter was handled.\<close>

lemma pass_rows_logged:
  assumes "pass_rows (map logged hs) n rs (h, l) = (rs', ls, h', l2)"
  shows "\<exists>l'. l2 = l @ l' \<and> (\<forall>r\<in>set rs'. ob_dispatched r \<longrightarrow> r \<in> set rs \<or> ob_id r \<in> ol_row ` set ls \<or> handled_by hs r l2)"
  using assms
proof (induction rs arbitrary: n h l rs' ls h' l2)
  case (Cons r rs)
  show ?case
  proof (cases "ob_dispatched r \<or> n = 0")
    case True
    then obtain rs2 where "pass_rows (map logged hs) n rs (h, l) = (rs2, ls, h', l2)" "rs' = r # rs2"
      using Cons.prems by (auto split: prod.splits)
    with Cons.IH [of n h l rs2 ls h' l2] show ?thesis by auto
  next
    case False
    obtain out h1 l1 where d: "dispatch (map logged hs) r (h, l) = (out, h1, l1)" by (metis prod.exhaust)
    obtain r1 x where s: "settle_row out r = (r1, x)" by fastforce
    obtain rs2 ls2 where p: "pass_rows (map logged hs) (n - 1) rs (h1, l1) = (rs2, ls2, h', l2)" "rs' = r1 # rs2" "ls = x @ ls2"
      using Cons.prems False by (auto simp: d s Let_def split: prod.splits)
    obtain la where la: "l1 = l @ la" "out = None \<longrightarrow> handled_by hs r l1" using dispatch_logged [of hs r h l] by (auto simp: d)
    obtain lb where lb: "l2 = l1 @ lb" "\<forall>r\<in>set rs2. ob_dispatched r \<longrightarrow> r \<in> set rs \<or> ob_id r \<in> ol_row ` set ls2 \<or> handled_by hs r l2"
      using Cons.IH [OF p(1)] by auto
    have "ob_dispatched r1 \<longrightarrow> ob_id r1 \<in> ol_row ` set x \<or> handled_by hs r1 l2"
    proof (cases out)
      case None
      then have "handled_by hs r l2" using la(2) lb(1) handled_by_more by simp
      moreover have "r1 = r\<lparr>ob_dispatched := True, ob_attempts := ob_attempts r + 1\<rparr>" using s None by (simp add: settle_row_def)
      ultimately show ?thesis by (simp add: handled_by_def)
    next
      case (Some e)
      then show ?thesis using s False by (auto simp: settle_row_def Let_def Cons split: if_splits)
    qed
    then show ?thesis using la(1) lb p(2,3) by auto
  qed
qed simp

subsection \<open>Histories\<close>

type_synonym ('c, 'h) outbox_world = "'c outbox_store \<times> 'h"

inductive outbox_step :: "('c, 'h) outbox_handler list \<Rightarrow> ('c, 'h) outbox_world \<Rightarrow> ('c, 'h) outbox_world \<Rightarrow> bool" for hs where
  writes: "outbox_step hs (st, h) (write_outbox event body st, h)"
| ticks: "outbox_step hs w (outbox_tick hs limit connects commits w)"

definition no_outbox :: "'c outbox_store" where
  "no_outbox = \<lparr>os_rows = [], os_letters = [], os_running = False\<rparr>"

definition outbox_ok :: "'c outbox_store \<Rightarrow> bool" where
  "outbox_ok st \<longleftrightarrow> map ob_id (os_rows st) = [0..<length (os_rows st)] \<and> (\<forall>r\<in>set (os_rows st). row_sound r) \<and>
     distinct (map ol_row (os_letters st)) \<and> (\<forall>l\<in>set (os_letters st). \<exists>r\<in>set (os_rows st). letter_of r l)"

lemma pass_rows_ok:
  assumes "outbox_ok st" "pass_rows hs n (os_rows st) h = (rs, ls, h')"
  shows "outbox_ok (st\<lparr>os_rows := rs, os_letters := os_letters st @ ls\<rparr>)"
proof -
  let ?rs = "os_rows st"
  have ids: "map ob_id ?rs = [0..<length ?rs]" and sound: "\<forall>r\<in>set ?rs. row_sound r" and
    ds: "distinct (map ol_row (os_letters st))" and old: "\<forall>l\<in>set (os_letters st). \<exists>r\<in>set ?rs. letter_of r l"
    using assms(1) by (simp_all add: outbox_ok_def)
  have dist: "distinct (map ob_id ?rs)" by (simp add: ids)
  have keys: "map row_key rs = map row_key ?rs" using pass_rows_keys [of hs n ?rs h] by (simp add: assms(2))
  then have len: "length rs = length ?rs" by (metis length_map)
  have "map ob_id rs = map fst (map row_key rs)" "map ob_id ?rs = map fst (map row_key ?rs)" by (simp_all add: row_key_def)
  then have ids': "map ob_id rs = [0..<length rs]" using keys ids len by simp
  note new = pass_rows_sound [OF sound assms(2) dist]
  have "distinct (map ol_row (os_letters st @ ls))"
  proof -
    have "False" if l: "l \<in> set (os_letters st)" and k: "k \<in> set ls" and same: "ol_row l = ol_row k" for l k
    proof -
      obtain r where r: "r \<in> set ?rs" "letter_of r l" using bspec [OF old l] by auto
      have "\<forall>l\<in>set ls. \<exists>r\<in>set ?rs. ob_id r = ol_row l \<and> \<not> ob_dispatched r" using new by simp
      from bspec [OF this k] obtain q where q: "q \<in> set ?rs" "ob_id q = ol_row k" "\<not> ob_dispatched q" by auto
      have "ob_id r = ob_id q" using r(2) q(2) same by (simp add: letter_of_def)
      with dist r(1) q(1) have "r = q" by (rule same_row)
      with r(2) q(3) show False by (simp add: letter_of_def)
    qed
    with ds new show ?thesis by fastforce
  qed
  moreover have "\<exists>r\<in>set rs. letter_of r l" if here: "l \<in> set (os_letters st @ ls)" for l
  proof (cases "l \<in> set ls")
    case True
    with new show ?thesis by blast
  next
    case False
    then obtain r where r: "r \<in> set ?rs" "letter_of r l" using here old by auto
    then have "r \<in> set rs" using new by (simp add: letter_of_def)
    with r(2) show ?thesis by blast
  qed
  ultimately show ?thesis using ids' new by (simp add: outbox_ok_def)
qed

lemma outbox_tick_cases:
  "outbox_tick hs limit connects commits (st, h) =
     (if os_running st then (st, h) else if \<not> connects then (st\<lparr>os_running := True\<rparr>, h)
      else if commits then (st\<lparr>os_rows := fst (pass_rows hs limit (os_rows st) h), os_letters := os_letters st @ fst (snd (pass_rows hs limit (os_rows st) h))\<rparr>,
             snd (snd (pass_rows hs limit (os_rows st) h)))
      else (st, snd (snd (pass_rows hs limit (os_rows st) h))))"
  by (simp add: outbox_tick_def split: prod.splits)

lemma write_outbox_ok: "outbox_ok st \<Longrightarrow> outbox_ok (write_outbox event body st)"
  by (auto simp: outbox_ok_def write_outbox_def row_sound_def outbox_attempts_max_def)

lemma outbox_running_ok [simp]: "outbox_ok (st\<lparr>os_running := b\<rparr>) = outbox_ok st"
  by (simp add: outbox_ok_def)

definition dispatched_handled :: "('c, 'h) outbox_handler list \<Rightarrow> 'c outbox_store \<Rightarrow> call_log \<Rightarrow> bool" where
  "dispatched_handled hs st l \<longleftrightarrow> (\<forall>r\<in>set (os_rows st). ob_dispatched r \<longrightarrow> ob_id r \<in> ol_row ` set (os_letters st) \<or> handled_by hs r l)"

lemma outbox_step_sound:
  assumes "outbox_step hs w w'" "outbox_ok (fst w)"
  shows "outbox_ok (fst w')"
  using assms
proof (cases rule: outbox_step.cases)
  case (writes st h event body)
  with assms(2) show ?thesis by (simp add: write_outbox_ok)
next
  case (ticks limit connects commits)
  obtain st h where w: "w = (st, h)" by fastforce
  obtain rs ls h' where p: "pass_rows hs limit (os_rows st) h = (rs, ls, h')" by (metis prod.exhaust)
  with assms(2) pass_rows_ok [OF _ p] show ?thesis by (simp add: ticks w outbox_tick_cases)
qed

lemma outbox_reached_ok: "(outbox_step hs)\<^sup>*\<^sup>* (no_outbox, h0) (st, h) \<Longrightarrow> outbox_ok st"
proof -
  assume "(outbox_step hs)\<^sup>*\<^sup>* (no_outbox, h0) (st, h)"
  then have "outbox_ok (fst (st, h))"
    by (induction rule: rtranclp_induct) (auto simp: outbox_ok_def no_outbox_def dest: outbox_step_sound)
  then show ?thesis by simp
qed

lemma outbox_step_ok:
  assumes "outbox_step (map logged hs) w w'" "outbox_ok (fst w)" "dispatched_handled hs (fst w) (snd (snd w))"
  shows "outbox_ok (fst w') \<and> dispatched_handled hs (fst w') (snd (snd w'))"
  using assms
proof (cases rule: outbox_step.cases)
  case (writes st h event body)
  then have "dispatched_handled hs (write_outbox event body st) (snd h)"
    using assms(3) writes by (auto simp: dispatched_handled_def write_outbox_def)
  then show ?thesis using writes outbox_step_sound [OF assms(1,2)] by simp
next
  case (ticks limit connects commits)
  obtain st h l where w: "w = (st, h, l)" by (metis prod.exhaust)
  obtain rs ls h' l2 where p: "pass_rows (map logged hs) limit (os_rows st) (h, l) = (rs, ls, h', l2)" by (metis prod.exhaust)
  obtain l' where l': "l2 = l @ l'" "\<forall>r\<in>set rs. ob_dispatched r \<longrightarrow> r \<in> set (os_rows st) \<or> ob_id r \<in> ol_row ` set ls \<or> handled_by hs r l2"
    using pass_rows_logged [OF p] by blast
  have old: "\<forall>r\<in>set (os_rows st). ob_dispatched r \<longrightarrow> ob_id r \<in> ol_row ` set (os_letters st) \<or> handled_by hs r l2"
    using assms(3) handled_by_more by (fastforce simp: dispatched_handled_def w l'(1))
  have "dispatched_handled hs (st\<lparr>os_rows := rs, os_letters := os_letters st @ ls\<rparr>) l2"
    using l'(2) old by (auto simp: dispatched_handled_def)
  then show ?thesis
    using outbox_step_sound [OF assms(1,2)] assms(3) old by (auto simp: ticks w outbox_tick_cases p dispatched_handled_def)
qed

subsection \<open>Properties\<close>

text \<open>C19: Every outbox row reaches its handlers or the dead letters: whatever is written and however passes run, fail to
  connect or fail to commit, the rows keep their order and are attempted at most five times; a dispatched row
  was answered without a fault by every handler of its event type, or it has its one dead letter, which holds the
  last fault after exactly five attempts.\<close>

theorem outbox_at_least_once:
  assumes "(outbox_step (map logged hs))\<^sup>*\<^sup>* (no_outbox, h0, []) (st, h, l)"
  shows "map ob_id (os_rows st) = [0..<length (os_rows st)] \<and>
    (\<forall>r\<in>set (os_rows st). ob_attempts r \<le> outbox_attempts_max \<and> (\<not> ob_dispatched r \<longrightarrow> ob_attempts r < outbox_attempts_max) \<and>
       (ob_dispatched r \<longrightarrow> (\<exists>d\<in>set (os_letters st). letter_of r d) \<or> handled_by hs r l)) \<and>
    distinct (map ol_row (os_letters st)) \<and> (\<forall>d\<in>set (os_letters st). \<exists>r\<in>set (os_rows st). letter_of r d)"
proof -
  have "outbox_ok (fst (st, h, l)) \<and> dispatched_handled hs (fst (st, h, l)) (snd (snd (st, h, l)))"
    using assms
  proof (induction rule: rtranclp_induct)
    case base
    then show ?case by (simp add: outbox_ok_def no_outbox_def dispatched_handled_def)
  next
    case (step w w')
    then show ?case using outbox_step_ok by blast
  qed
  then have ok: "outbox_ok st" and dh: "dispatched_handled hs st l" by simp_all
  have dist: "distinct (map ob_id (os_rows st))" using ok by (simp add: outbox_ok_def)
  have "\<exists>d\<in>set (os_letters st). letter_of r d" if here: "r \<in> set (os_rows st)" and sent: "ob_id r \<in> ol_row ` set (os_letters st)" for r
  proof -
    from sent obtain d where d: "d \<in> set (os_letters st)" "ob_id r = ol_row d" by auto
    then obtain q where q: "q \<in> set (os_rows st)" "letter_of q d" using ok by (auto simp: outbox_ok_def)
    have "ob_id q = ob_id r" using q(2) d(2) by (simp add: letter_of_def)
    with dist q(1) here have "q = r" by (rule same_row)
    with q d(1) show ?thesis by auto
  qed
  with ok dh show ?thesis
    by (auto simp: outbox_ok_def dispatched_handled_def row_sound_def split: if_splits)
qed

subsection \<open>Draining\<close>

definition row_work :: "'c outbox_row \<Rightarrow> nat" where
  "row_work r = (if ob_dispatched r then 0 else outbox_attempts_max - ob_attempts r)"

definition pending_work :: "'c outbox_row list \<Rightarrow> nat" where
  "pending_work rs = sum_list (map row_work rs)"

lemma settle_row_work: "row_sound r \<Longrightarrow> \<not> ob_dispatched r \<Longrightarrow> row_work (fst (settle_row out r)) < row_work r"
  by (auto simp: settle_row_def row_work_def row_sound_def Let_def outbox_attempts_max_def split: option.splits)

lemma pass_rows_work:
  assumes "\<forall>r\<in>set rs. row_sound r"
  shows "pending_work (fst (pass_rows hs n rs h)) + (if n = 0 \<or> (\<forall>r\<in>set rs. ob_dispatched r) then 0 else 1) \<le> pending_work rs"
  using assms
proof (induction hs n rs h rule: pass_rows.induct)
  case (2 hs n r rs h)
  show ?case
  proof (cases "ob_dispatched r \<or> n = 0")
    case True
    have "fst (pass_rows hs n (r # rs) h) = r # fst (pass_rows hs n rs h)" using True by (simp split: prod.splits)
    moreover have "(n = 0 \<or> (\<forall>x\<in>set (r # rs). ob_dispatched x)) = (n = 0 \<or> (\<forall>x\<in>set rs. ob_dispatched x))" using True by auto
    moreover have "pending_work (r # xs) = row_work r + pending_work xs" for xs by (simp add: pending_work_def)
    ultimately show ?thesis using 2(1) [OF True] 2(3) by simp
  next
    case False
    obtain out h1 where d: "dispatch hs r h = (out, h1)" by fastforce
    obtain r' l where s: "settle_row out r = (r', l)" by fastforce
    have "fst (pass_rows hs n (r # rs) h) = r' # fst (pass_rows hs (n - 1) rs h1)" using False by (simp add: d s Let_def split: prod.splits)
    moreover have "pending_work (fst (pass_rows hs (n - 1) rs h1)) \<le> pending_work rs"
      using 2(2) [OF False d [symmetric] refl s [symmetric] refl] 2(3) by auto
    moreover have "row_work r' < row_work r" using settle_row_work [of r out] 2(3) False by (simp add: s)
    ultimately show ?thesis by (simp add: pending_work_def)
  qed
qed simp

lemma pending_work_bound: "pending_work rs \<le> outbox_attempts_max * length (filter (\<lambda>r. \<not> ob_dispatched r) rs)"
  by (induction rs) (auto simp: pending_work_def row_work_def)

lemma pending_work_zero:
  assumes "\<forall>r\<in>set rs. row_sound r" "pending_work rs = 0" "r \<in> set rs"
  shows "ob_dispatched r"
proof -
  have "row_work r = 0" using assms(2,3) by (simp add: pending_work_def)
  with bspec [OF assms(1,3)] show ?thesis by (auto simp: row_work_def row_sound_def split: if_splits)
qed

lemma ticks_work:
  assumes "outbox_ok st" "\<not> os_running st" "\<forall>n\<in>set ns. 0 < n"
  shows "case fold (\<lambda>n. outbox_tick hs n True True) ns (st, h) of (st', h') \<Rightarrow>
    outbox_ok st' \<and> pending_work (os_rows st') \<le> pending_work (os_rows st) - length ns \<and> map row_key (os_rows st') = map row_key (os_rows st)"
  using assms
proof (induction ns arbitrary: st h)
  case (Cons n ns)
  obtain rs ls h1 where p: "pass_rows hs n (os_rows st) h = (rs, ls, h1)" by (metis prod.exhaust)
  let ?st = "st\<lparr>os_rows := rs, os_letters := os_letters st @ ls\<rparr>"
  have t: "outbox_tick hs n True True (st, h) = (?st, h1)" using Cons.prems(2) by (simp add: outbox_tick_cases p)
  have ok: "outbox_ok ?st" by (rule pass_rows_ok [OF Cons.prems(1) p])
  have sound: "\<forall>r\<in>set (os_rows st). row_sound r" using Cons.prems(1) by (simp add: outbox_ok_def)
  have w: "pending_work rs \<le> pending_work (os_rows st) - 1"
  proof (cases "\<forall>r\<in>set (os_rows st). ob_dispatched r")
    case True
    then have "pending_work (os_rows st) = 0" by (auto simp: pending_work_def row_work_def)
    with pass_rows_work [OF sound, of hs n h] show ?thesis by (simp add: p)
  next
    case False
    with pass_rows_work [OF sound, of hs n h] Cons.prems(3) show ?thesis by (auto simp: p)
  qed
  have k: "map row_key rs = map row_key (os_rows st)" using pass_rows_keys [of hs n "os_rows st" h] by (simp add: p)
  from Cons.IH [of ?st h1] ok Cons.prems(2,3) w k show ?case by (auto simp: t)
qed simp

text \<open>C20: The outbox drains: from any state that histories reach with the dispatcher free, as many committed passes as five
  for every row that is pending leave no row pending, whatever the handlers answer and however few rows a pass may
  claim; no row is lost or changed on the way.\<close>

theorem outbox_drains:
  assumes "(outbox_step hs)\<^sup>*\<^sup>* (no_outbox, h0) (st, h)" "\<not> os_running st" "\<forall>n\<in>set limits. 0 < n"
    and "outbox_attempts_max * length (filter (\<lambda>r. \<not> ob_dispatched r) (os_rows st)) \<le> length limits"
  shows "\<exists>st' h'. fold (\<lambda>n. outbox_tick hs n True True) limits (st, h) = (st', h') \<and> (\<forall>r\<in>set (os_rows st'). ob_dispatched r) \<and>
    map row_key (os_rows st') = map row_key (os_rows st)"
proof -
  obtain st' h' where f: "fold (\<lambda>n. outbox_tick hs n True True) limits (st, h) = (st', h')" by fastforce
  note w = ticks_work [OF outbox_reached_ok [OF assms(1)] assms(2,3), of hs h, unfolded f prod.case]
  have "pending_work (os_rows st') = 0" using w pending_work_bound [of "os_rows st"] assms(4) by linarith
  with w have "\<forall>r\<in>set (os_rows st'). ob_dispatched r" using pending_work_zero by (fastforce simp: outbox_ok_def)
  with f w show ?thesis by blast
qed

text \<open>A connection that cannot be made stops the dispatcher for good: the flag is taken and never given back.\<close>

theorem outbox_stuck:
  "(outbox_step hs) (no_outbox, h) (outbox_tick hs 100 False True (no_outbox, h)) \<and>
   fold (\<lambda>(n, a, b). outbox_tick hs n a b) passes (outbox_tick hs 100 False True (st, h)) = outbox_tick hs 100 False True (st, h)"
proof -
  have "os_running (fst (outbox_tick hs 100 False True (st, h)))" by (simp add: outbox_tick_cases)
  moreover have "fold (\<lambda>(n, a, b). outbox_tick hs n a b) passes w = w" if "os_running (fst w)" for w
    using that by (induction passes) (auto simp: outbox_tick_def Let_def split: prod.splits)
  ultimately show ?thesis by (simp add: outbox_step.ticks)
qed

subsection \<open>Leases\<close>

text \<open>Any acquisitions and releases up to a time, by anyone but the holder of one lease.\<close>

inductive lease_step :: "string \<Rightarrow> ms \<Rightarrow> lease_row list \<Rightarrow> lease_row list \<Rightarrow> bool" for mine till where
  acquires: "now \<le> till \<Longrightarrow> acquire_lease name interval holder now ls = Some ls' \<Longrightarrow> lease_step mine till ls ls'"
| releases: "holder \<noteq> mine \<Longrightarrow> lease_step mine till ls (release_lease name holder out now ls)"

lemma find_end: "find P (xs @ ys) = (case find P xs of None \<Rightarrow> find P ys | Some x \<Rightarrow> Some x)"
  by (induction xs) auto

lemma find_map_lease:
  "(\<And>l. le_name (f l) = le_name l) \<Longrightarrow> find (\<lambda>l. le_name l = n) (map f ls) = map_option f (find (\<lambda>l. le_name l = n) ls)"
  by (induction ls) auto

lemma lease_step_keeps:
  assumes "lease_step mine till ls ls'" "find (\<lambda>l. le_name l = n) ls = Some l" "le_holder l = mine" "till \<le> le_until l"
  shows "find (\<lambda>l. le_name l = n) ls' = Some l"
  using assms
proof (cases rule: lease_step.cases)
  case (acquires now name interval holder)
  show ?thesis
  proof (cases "name = n")
    case True
    with acquires assms(2,4) show ?thesis by (auto simp: acquire_lease_def)
  next
    case False
    show ?thesis
    proof (cases "find (\<lambda>l. le_name l = name) ls")
      case None
      with acquires assms(2) False show ?thesis by (auto simp: acquire_lease_def Let_def find_end)
    next
      case (Some m)
      with acquires have "ls' = map (\<lambda>l. if le_name l = name then l\<lparr>le_holder := holder, le_until := now + 1000 * lease_seconds interval\<rparr> else l) ls"
        by (simp add: acquire_lease_def Let_def split: if_splits)
      moreover have "le_name l = n" using assms(2) by (auto simp: find_Some_iff)
      ultimately show ?thesis using assms(2) False find_map_lease [of "\<lambda>l. if le_name l = name then l\<lparr>le_holder := holder, le_until := now + 1000 * lease_seconds interval\<rparr> else l" n ls] by simp
    qed
  qed
next
  case (releases holder name out now)
  have "find (\<lambda>l. le_name l = n) ls' = map_option (\<lambda>l. if le_name l = name \<and> le_holder l = holder
      then l\<lparr>le_until := now, le_outcome := Some (take 500 out)\<rparr> else l) (find (\<lambda>l. le_name l = n) ls)"
    unfolding releases(1) release_lease_def by (rule find_map_lease) simp
  with releases(2) assms(2,3) show ?thesis by simp
qed

text \<open>A lease excludes: once a run holds the lease of its job, nobody gets it before it has run out, whatever else is
  acquired and released by others in the meantime.\<close>

theorem lease_excludes:
  assumes "acquire_lease name interval mine now ls = Some ls1" "till = now + 1000 * lease_seconds interval"
    and "(lease_step mine till)\<^sup>*\<^sup>* ls1 ls2" "later \<le> till"
  shows "acquire_lease name interval2 holder later ls2 = None"
proof -
  have "\<exists>l. find (\<lambda>l. le_name l = name) ls1 = Some l \<and> le_holder l = mine \<and> le_until l = till"
  proof (cases "find (\<lambda>l. le_name l = name) ls")
    case None
    with assms(1,2) show ?thesis by (auto simp: acquire_lease_def Let_def find_end)
  next
    case (Some l)
    then have "le_name l = name" by (auto simp: find_Some_iff)
    moreover have "ls1 = map (\<lambda>l. if le_name l = name then l\<lparr>le_holder := mine, le_until := till\<rparr> else l) ls"
      using assms(1,2) Some by (auto simp: acquire_lease_def Let_def split: if_splits)
    ultimately show ?thesis using Some find_map_lease [of "\<lambda>l. if le_name l = name then l\<lparr>le_holder := mine, le_until := till\<rparr> else l" name ls] by simp
  qed
  then obtain l where l: "find (\<lambda>l. le_name l = name) ls1 = Some l" "le_holder l = mine" "le_until l = till" by blast
  from assms(3) have "find (\<lambda>l. le_name l = name) ls2 = Some l"
    by (induction rule: rtranclp_induct) (use l lease_step_keeps in auto)
  with l(3) assms(4) show ?thesis by (simp add: acquire_lease_def Let_def)
qed

text \<open>A run that takes longer than its lease is joined by a second one, and when it ends it frees the second one's
  lease: the holder names the process, not the run.\<close>

theorem overrun_job_runs_twice:
  "\<exists>ls1 ls2 ls3. acquire_lease ''poll'' 10000 ''p'' 0 [] = Some ls1 \<and> acquire_lease ''poll'' 10000 ''p'' 31000 ls1 = Some ls2 \<and>
     acquire_lease ''poll'' 10000 ''q'' 33000 (release_lease ''poll'' ''p'' ''ok'' 32000 ls2) = Some ls3"
  by (simp add: acquire_lease_def release_lease_def lease_seconds_def)

subsection \<open>A sample outbox\<close>

definition sample_handlers :: "(nat, nat) outbox_handler list" where
  "sample_handlers =
     [\<lparr>oh_name = ''mail'', oh_matches = (\<lambda>t. t = ''created''), oh_handle = (\<lambda>r h. (None, h + ob_body r))\<rparr>,
      \<lparr>oh_name = ''sync'', oh_matches = (\<lambda>t. t = ''created'' \<or> t = ''moved''), oh_handle = (\<lambda>r h. (if ob_body r = 7 then Some ''down'' else None, h))\<rparr>]"

definition sample_moves :: "(nat outbox_store \<times> nat \<times> call_log \<Rightarrow> nat outbox_store \<times> nat \<times> call_log) list" where
  "sample_moves =
     [\<lambda>(st, h). (write_outbox ''created'' 1 st, h), \<lambda>(st, h). (write_outbox ''moved'' 7 st, h)] @
     outbox_tick (map logged sample_handlers) 100 True False # replicate 5 (outbox_tick (map logged sample_handlers) 100 True True)"

definition sample_outbox :: "nat outbox_store \<times> nat \<times> call_log" where
  "sample_outbox = fold (\<lambda>f. f) sample_moves (no_outbox, 0, [])"

lemma sample_outbox_reached: "(outbox_step (map logged sample_handlers))\<^sup>*\<^sup>* (no_outbox, 0, []) sample_outbox"
proof -
  have move: "outbox_step (map logged sample_handlers) w (f w)" if "f \<in> set sample_moves" for f w
    using that by (cases w) (auto simp: sample_moves_def intro: outbox_step.intros)
  have "(outbox_step (map logged sample_handlers))\<^sup>*\<^sup>* w (fold (\<lambda>f. f) fs w)" if "set fs \<subseteq> set sample_moves" for fs w
    using that
  proof (induction fs arbitrary: w)
    case (Cons f fs)
    then have "outbox_step (map logged sample_handlers) w (f w)" by (intro move) simp
    moreover have "(outbox_step (map logged sample_handlers))\<^sup>*\<^sup>* (f w) (fold (\<lambda>f. f) fs (f w))" using Cons by simp
    ultimately show ?case by (simp add: converse_rtranclp_into_rtranclp)
  qed simp
  then show ?thesis by (simp add: sample_outbox_def)
qed

lemma sample_outbox_values:
  "case sample_outbox of (st, h, l) \<Rightarrow> h = 2 \<and> \<not> os_running st \<and>
     map (\<lambda>r. (ob_dispatched r, ob_attempts r)) (os_rows st) = [(True, 1), (True, 5)] \<and> map ol_row (os_letters st) = [1]"
  by code_simp

theorem outbox_at_least_once_witness:
  "\<exists>st h l r. sample_outbox = (st, h, l) \<and> r \<in> set (os_rows st) \<and> ob_dispatched r \<and> ((\<exists>d\<in>set (os_letters st). letter_of r d) \<or> handled_by sample_handlers r l)"
proof -
  obtain st h l where w: "sample_outbox = (st, h, l)" by (metis prod.exhaust)
  obtain r where r: "r \<in> set (os_rows st)" "ob_dispatched r" using sample_outbox_values by (cases "os_rows st") (auto simp: w)
  from outbox_at_least_once [OF sample_outbox_reached [unfolded w]] r w show ?thesis by (intro exI conjI) auto
qed

definition pending_outbox :: "nat outbox_store \<times> nat" where
  "pending_outbox = outbox_tick sample_handlers 100 True True (write_outbox ''moved'' 7 no_outbox, 0)"

theorem outbox_drains_witness:
  "\<exists>st' h'. fold (\<lambda>n. outbox_tick sample_handlers n True True) [1, 1, 1, 1, 1] pending_outbox = (st', h') \<and> (\<forall>r\<in>set (os_rows st'). ob_dispatched r) \<and>
     map row_key (os_rows st') = map row_key (os_rows (fst pending_outbox))"
proof -
  obtain st h where w: "pending_outbox = (st, h)" by fastforce
  have "(outbox_step sample_handlers)\<^sup>*\<^sup>* (no_outbox, 0) pending_outbox"
    unfolding pending_outbox_def by (blast intro: converse_rtranclp_into_rtranclp outbox_step.intros)
  moreover have "case pending_outbox of (st, h) \<Rightarrow> \<not> os_running st \<and> length (filter (\<lambda>r. \<not> ob_dispatched r) (os_rows st)) = 1" by code_simp
  ultimately show ?thesis
    using outbox_drains [of sample_handlers 0 st h "[1, 1, 1, 1, 1]"] by (simp add: w outbox_attempts_max_def)
qed

theorem lease_excludes_witness:
  "acquire_lease ''poll'' 10000 ''q'' 30000 [\<lparr>le_name = ''poll'', le_holder = ''p'', le_until = 30000, le_outcome = None\<rparr>] = None"
  by (rule lease_excludes [of "''poll''" 10000 "''p''" 0 "[]" _ 30000, OF _ _ rtranclp.rtrancl_refl])
    (simp_all add: acquire_lease_def lease_seconds_def)

end
