(* ===== verification/Report_Schedule.thy ===== *)
theory Report_Schedule
  imports Business_Calendar
begin

section \<open>Report schedules (src/domain/reporting/schedule.ts)\<close>

text \<open>
  When a report pack is due and which period it covers, in the account's zone. Instants are milliseconds.
  The number read from a piece of a time text is a parameter. Months are counted in one line, twelve a year,
  and the facts are over the day numbers of the calendar theory: the run found is the first one after an
  instant, and the periods of successive runs cover every day once.
\<close>

subsection \<open>Schedules\<close>

datatype report_cadence = Weekly_run | Monthly_run | Quarterly_run

datatype report_period = Previous_week | Previous_month | Previous_quarter

record report_schedule =
  rs_cadence :: report_cadence
  rs_run_day :: int
  rs_time :: string
  rs_period :: report_period

text \<open>\<open>hours || 0\<close>: what is no number counts as none.\<close>

definition run_minute :: "(string \<Rightarrow> int option) \<Rightarrow> string \<Rightarrow> int" where
  "run_minute num time =
     (let part = (\<lambda>i. case drop i (split_char CHR '':'' time) of [] \<Rightarrow> 0 | p # _ \<Rightarrow> (case num p of None \<Rightarrow> 0 | Some n \<Rightarrow> n))
      in part 0 * 60 + part 1)"

definition days_in_month :: "int \<Rightarrow> int \<Rightarrow> int" where
  "days_in_month y m = mday (iso_day_of (date_utc y m 0))"

definition run_candidate :: "report_schedule \<Rightarrow> int \<Rightarrow> local_parts \<Rightarrow> zone \<Rightarrow> int \<Rightarrow> ms" where
  "run_candidate spec minute l off offset =
     (let month = lp_month l - 1 + offset; year = lp_year l + month div 12; month_of_year = month mod 12;
          day = min (rs_run_day spec) (days_in_month year (month_of_year + 1))
      in instant_of year (month_of_year + 1) day minute off)"

definition run_offsets :: "report_cadence \<Rightarrow> int list" where
  "run_offsets c = map (\<lambda>i. int i * (if c = Monthly_run then 1 else 3)) [0..<(if c = Monthly_run then 24 else 8)]"

text \<open>\<open>None\<close> is the error that no run instant was found.\<close>

definition next_run_at :: "(string \<Rightarrow> int option) \<Rightarrow> report_schedule \<Rightarrow> ms \<Rightarrow> zone \<Rightarrow> ms option" where
  "next_run_at num spec after off =
     (let minute = run_minute num (rs_time spec); l = local_parts after off in
      if rs_cadence spec = Weekly_run then
        let iso = (if lp_weekday l = 0 then 7 else lp_weekday l);
            delta = (rs_run_day spec - iso + 7) mod 7;
            candidate = instant_of (lp_year l) (lp_month l) (lp_day l + delta) minute off
        in Some (if candidate \<le> after then instant_of (lp_year l) (lp_month l) (lp_day l + (delta + 7)) minute off else candidate)
      else find (\<lambda>t. after < t) (map (run_candidate spec minute l off) (run_offsets (rs_cadence spec))))"

definition period_before :: "report_period \<Rightarrow> ms \<Rightarrow> zone \<Rightarrow> ymd \<times> ymd" where
  "period_before kind run off =
     (let l = local_parts run off; today = date_utc (lp_year l) (lp_month l - 1) (lp_day l) in
      case kind of
        Previous_week \<Rightarrow>
          (let w = (if utc_weekday today = 0 then 7 else utc_weekday today);
               monday = today - (w - 1) * 86400000; start = monday - 7 * 86400000
           in (iso_day_of start, iso_day_of (monday - 86400000)))
      | Previous_month \<Rightarrow>
          (iso_day_of (date_utc (lp_year l) (lp_month l - 2) 1), iso_day_of (date_utc (lp_year l) (lp_month l - 1) 0))
      | Previous_quarter \<Rightarrow>
          (let q = (lp_month l - 1) div 3
           in (iso_day_of (date_utc (lp_year l) (q * 3 - 3) 1), iso_day_of (date_utc (lp_year l) (q * 3) 0))))"

subsection \<open>Months as numbers\<close>

text \<open>The month of index \<open>12 * year + (month - 1)\<close>: its first day and its length.\<close>

definition month_first :: "int \<Rightarrow> int" where
  "month_first M = day_from_year (M div 12) + month_start (M div 12) (M mod 12 + 1)"

definition month_days :: "int \<Rightarrow> int" where
  "month_days M = month_first (M + 1) - month_first M"

definition month_index :: "int \<Rightarrow> int" where
  "month_index n = 12 * yr (civil n) + (mon (civil n) - 1)"

lemma make_day_index: "make_day y m d = month_first (12 * y + m) + d - 1"
proof -
  have "(12 * y + m) div 12 = y + m div 12" "(12 * y + m) mod 12 = m mod 12" by simp_all
  then show ?thesis by (simp add: make_day_def month_first_def Let_def)
qed

lemma month_first_split: "0 \<le> i \<Longrightarrow> i < 12 \<Longrightarrow> month_first (12 * y + i) = day_from_year y + month_start y (i + 1)"
  by (simp add: month_first_def)

lemma month_first_Suc: "month_first (M + 1) = month_first M + month_length (M div 12) (M mod 12 + 1)"
proof -
  define y i where "y = M div 12" and "i = M mod 12"
  have M: "M = 12 * y + i" and i: "0 \<le> i" "i < 12" by (simp_all add: y_def i_def)
  have "month_first (M + 1) = day_from_year y + month_start y (i + 1 + 1)"
  proof (cases "i = 11")
    case True
    then have "M + 1 = 12 * (y + 1) + 0" by (simp add: M)
    then have "month_first (M + 1) = day_from_year (y + 1) + month_start (y + 1) (0 + 1)"
      by (simp only: month_first_split)
    then show ?thesis by (simp add: True day_from_year_Suc month_start_values)
  next
    case False
    then show ?thesis using i month_first_split [of "i + 1" y] by (simp add: M add.assoc)
  qed
  moreover have "month_first M = day_from_year y + month_start y (i + 1)" using i by (simp add: M month_first_split)
  ultimately show ?thesis by (simp add: month_length_def flip: y_def i_def)
qed

lemma month_days_bounds: "28 \<le> month_days M \<and> month_days M \<le> 31"
proof -
  have "1 \<le> M mod 12 + 1" "M mod 12 + 1 \<le> 12" by simp_all
  from month_length_bounds [OF this, of "M div 12"] show ?thesis by (simp add: month_days_def month_first_Suc)
qed

lemma month_first_mono: "M \<le> N \<Longrightarrow> month_first M \<le> month_first N"
proof (induction "nat (N - M)" arbitrary: N)
  case (Suc k)
  then have "month_first M \<le> month_first (N - 1)" by simp
  also have "\<dots> \<le> month_first N" using month_days_bounds [of "N - 1"] by (simp add: month_days_def)
  finally show ?case .
qed simp

lemma month_index_bounds: "month_first (month_index n) \<le> n" "n < month_first (month_index n + 1)"
proof -
  have v: "1 \<le> mon (civil n)" "mon (civil n) \<le> 12" "1 \<le> mday (civil n)" "mday (civil n) \<le> month_length (yr (civil n)) (mon (civil n))"
    using valid_civil [of n] by (simp_all add: valid_ymd_def)
  have i: "month_index n div 12 = yr (civil n)" "month_index n mod 12 = mon (civil n) - 1"
    using v(1,2) by (simp_all add: month_index_def)
  have "n = month_first (month_index n) + mday (civil n) - 1"
    using day_number_civil [of n] i by (simp add: day_number_def month_first_def)
  then show "month_first (month_index n) \<le> n" "n < month_first (month_index n + 1)"
    using v(3,4) i by (simp_all add: month_first_Suc)
qed

lemma month_index_unique:
  assumes "month_first M \<le> n" "n < month_first (M + 1)"
  shows "month_index n = M"
proof (rule ccontr)
  assume "month_index n \<noteq> M"
  then have "month_index n + 1 \<le> M \<or> M + 1 \<le> month_index n" by arith
  then show False using month_first_mono month_index_bounds [of n] assms by (meson not_le order_trans)
qed

lemma civil_month_day: "mday (civil n) = n - month_first (month_index n) + 1"
proof -
  have "month_index n = 12 * yr (civil n) + (mon (civil n) - 1)" by (simp add: month_index_def)
  then show ?thesis using make_day_index [of "yr (civil n)" "mon (civil n) - 1" "mday (civil n)"] make_day_civil [of n] by simp
qed

lemma days_in_month_index: "days_in_month y m = month_days (12 * y + m - 1)"
proof -
  let ?M = "12 * y + m - 1"
  have e: "make_day y m 0 = month_first (?M + 1) - 1" by (simp add: make_day_index)
  have i: "month_index (month_first (?M + 1) - 1) = ?M"
    using month_days_bounds [of ?M] by (intro month_index_unique) (simp_all add: month_days_def)
  show ?thesis
    using civil_month_day [of "month_first (?M + 1) - 1"] i by (simp add: days_in_month_def iso_day_of_def date_utc_def e month_days_def)
qed

lemma instant_of_index: "instant_of y m d minute (fixed_zone k) = instant k (month_first (12 * y + m - 1) + d - 1) minute"
  by (simp add: instant_of_def Let_def fixed_zone_def date_utc_def instant_def make_day_index add_diff_eq)

subsection \<open>Runs\<close>

definition iso_weekday :: "int \<Rightarrow> int" where
  "iso_weekday n = (if weekday n = 0 then 7 else weekday n)"

text \<open>The run of a month is on the run day, or on the month's last day when it is shorter.\<close>

definition month_run :: "report_schedule \<Rightarrow> int \<Rightarrow> int" where
  "month_run spec M = month_first M + min (rs_run_day spec) (month_days M) - 1"

definition schedule_ok :: "(string \<Rightarrow> int option) \<Rightarrow> report_schedule \<Rightarrow> bool" where
  "schedule_ok num spec \<longleftrightarrow> 0 \<le> run_minute num (rs_time spec) \<and> run_minute num (rs_time spec) < 1440 \<and> 1 \<le> rs_run_day spec \<and>
     (rs_cadence spec = Weekly_run \<longrightarrow> rs_run_day spec \<le> 7)"

text \<open>A day is one of the schedule's when it is the weekday, the day of its month, or the day of a month that is whole
  quarters away from a given one.\<close>

definition run_on :: "report_schedule \<Rightarrow> int \<Rightarrow> int \<Rightarrow> bool" where
  "run_on spec anchor n \<longleftrightarrow>
     (case rs_cadence spec of
        Weekly_run \<Rightarrow> iso_weekday n = rs_run_day spec
      | Monthly_run \<Rightarrow> n = month_run spec (month_index n)
      | Quarterly_run \<Rightarrow> n = month_run spec (month_index n) \<and> (month_index n - anchor) mod 3 = 0)"

lemma month_run_bounds:
  assumes "1 \<le> rs_run_day spec"
  shows "month_first M \<le> month_run spec M" "month_run spec M < month_first (M + 1)" "month_index (month_run spec M) = M"
proof -
  show a: "month_first M \<le> month_run spec M" and b: "month_run spec M < month_first (M + 1)"
    using assms month_days_bounds [of M] by (simp_all add: month_run_def month_days_def)
  show "month_index (month_run spec M) = M" by (rule month_index_unique [OF a b])
qed

lemma month_run_less: "1 \<le> rs_run_day spec \<Longrightarrow> M < N \<Longrightarrow> month_run spec M < month_run spec N"
  using month_run_bounds(1) [of spec N] month_run_bounds(2) [of spec M] month_first_mono [of "M + 1" N] by simp

lemma month_run_iff:
  assumes "1 \<le> rs_run_day spec"
  shows "month_run spec M < month_run spec N \<longleftrightarrow> M < N" "month_run spec M \<le> month_run spec N \<longleftrightarrow> M \<le> N"
  using month_run_less [OF assms, of M N] month_run_less [OF assms, of N M] by (cases M N rule: linorder_cases; simp)+

lemma run_candidate_fixed:
  "run_candidate spec minute (day_parts n m) (fixed_zone k) offset = instant k (month_run spec (month_index n + offset)) minute"
proof -
  define M where "M = month_index n + offset"
  have "12 * (yr (civil n) + (mon (civil n) - 1 + offset) div 12) + (mon (civil n) - 1 + offset) mod 12 = M"
    unfolding M_def month_index_def by simp
  then show ?thesis
    by (simp add: run_candidate_def Let_def day_parts_def instant_of_index days_in_month_index month_run_def flip: M_def)
qed

lemma instant_mono: "n < n' \<Longrightarrow> m < 1440 \<Longrightarrow> 0 \<le> m' \<Longrightarrow> instant k n m < instant k n' m'"
proof -
  assume a: "n < n'" "m < 1440" "0 \<le> m'"
  then have "n * 86400000 + m * 60000 < (n + 1) * 86400000" "(n + 1) * 86400000 \<le> n' * 86400000" by (simp_all add: distrib_right)
  with a(3) show ?thesis unfolding instant_def by linarith
qed

lemma instant_day_le: "n \<le> n' \<Longrightarrow> instant k n m \<le> instant k n' m"
  by (simp add: instant_def)

lemma instant_inj: "instant k n m = instant k n' m \<longleftrightarrow> n = n'"
  by (simp add: instant_def)

text \<open>The first of the months \<open>M\<close>, \<open>M + step\<close>, \<dots> whose run is after an instant of \<open>M\<close>.\<close>

lemma month_search:
  assumes day: "1 \<le> rs_run_day spec" and minute: "0 \<le> minute" and n: "month_index n = M" and m: "m < 1440" and later: "after < instant k n (m + 1)"
    and c: "step = 1 \<and> offsets = 0 # step # rest \<or> step = 3 \<and> offsets = 0 # step # rest"
  shows "find (\<lambda>t. after < t) (map (\<lambda>j. instant k (month_run spec (M + j)) minute) offsets) =
    Some (instant k (month_run spec (if after < instant k (month_run spec M) minute then M else M + step)) minute)"
proof -
  have "n < month_run spec (M + step)"
    using month_index_bounds(2) [of n] month_run_bounds(1) [OF day, of "M + step"] month_first_mono [of "M + 1" "M + step"] c by (auto simp: n)
  then have "instant k (n + 1) 0 \<le> instant k (month_run spec (M + step)) minute"
    using minute by (simp add: instant_def add_increasing2)
  moreover have "instant k n (m + 1) \<le> instant k (n + 1) 0" using m by (simp add: instant_def distrib_right)
  ultimately have "after < instant k (month_run spec (M + step)) minute" using later by linarith
  with c show ?thesis by auto
qed

lemma no_run_before:
  assumes day: "1 \<le> rs_run_day spec" and minute: "minute < 1440" and n: "month_index n = M" and m: "0 \<le> m" and earlier: "instant k n m \<le> after"
    and after: "after < instant k (month_run spec N) minute"
  shows "M \<le> N"
proof (rule ccontr)
  assume "\<not> M \<le> N"
  then have "month_run spec N < n"
    using month_run_bounds(2) [OF day, of N] month_first_mono [of "N + 1" M] month_index_bounds(1) [of n] by (simp add: n)
  then have "instant k (month_run spec N) minute < instant k n m" using minute m by (intro instant_mono)
  with earlier after show False by simp
qed

lemma iso_weekday_mod: "iso_weekday n = (n + 3) mod 7 + 1"
proof -
  have e: "(n + 4) mod 7 = ((n + 3) mod 7 + 1) mod 7" by (simp add: mod_simps add.assoc)
  have "0 \<le> (n + 3) mod 7" "(n + 3) mod 7 < 7" by simp_all
  then consider "(n + 3) mod 7 = 6" | "0 \<le> (n + 3) mod 7" "(n + 3) mod 7 < 6" by linarith
  then show ?thesis
  proof cases
    case 2
    then have "((n + 3) mod 7 + 1) mod 7 = (n + 3) mod 7 + 1" by (intro mod_pos_pos_trivial) simp_all
    with 2 show ?thesis by (simp only: iso_weekday_def weekday_def e) simp
  qed (simp add: iso_weekday_def weekday_def e)
qed

lemma weekday_delta:
  assumes "1 \<le> d" "d \<le> 7"
  shows "iso_weekday (n + j) = d \<longleftrightarrow> (j - (d - iso_weekday n + 7) mod 7) mod 7 = 0"
proof -
  have "d - iso_weekday n + 7 = d - 1 - (n + 3) mod 7 + 7" by (simp add: iso_weekday_mod)
  then have "(d - iso_weekday n + 7) mod 7 = (d - 1 - (n + 3) mod 7) mod 7" by (simp only: mod_add_self2)
  also have "\<dots> = (d - 1 - (n + 3)) mod 7" by (rule mod_diff_right_eq)
  finally have "(j - (d - iso_weekday n + 7) mod 7) mod 7 = (j - (d - 1 - (n + 3))) mod 7" by (simp add: mod_diff_right_eq)
  moreover have "iso_weekday (n + j) = d \<longleftrightarrow> (n + j + 3) mod 7 = d - 1" by (auto simp: iso_weekday_mod)
  moreover have "(n + j + 3) mod 7 = d - 1 \<longleftrightarrow> (j - (d - 1 - (n + 3))) mod 7 = 0" 
  proof -
    have "n + j + 3 - (d - 1) = j - (d - 1 - (n + 3))" by simp
    moreover have "(d - 1) mod 7 = d - 1" using assms by simp
    ultimately show ?thesis using mod_eq_dvd_iff [of "n + j + 3" 7 "d - 1"] by (simp only: mod_eq_0_iff_dvd)
  qed
  ultimately show ?thesis by simp
qed

lemma instant_of_day: "instant_of (lp_year (day_parts n m)) (lp_month (day_parts n m)) (lp_day (day_parts n m) + j) minute (fixed_zone k) = instant k (n + j) minute"
proof -
  have "month_first (12 * yr (civil n) + mon (civil n) - 1) + (mday (civil n) + j) - 1 = n + j"
    using civil_month_day [of n] by (simp add: month_index_def add_diff_eq)
  then show ?thesis by (simp only: day_parts_def local_parts.simps instant_of_index)
qed

text \<open>The local day and minute of an instant, as its clock and as its place between two minutes.\<close>

lemma day_parts_inj: "day_parts n m = day_parts n' m' \<longleftrightarrow> n = n' \<and> m = m'"
  by (metis civil_eq_iff day_parts_def local_parts.ext_inject)

lemma clock_bounds:
  assumes "local_parts t (fixed_zone k) = day_parts n m"
  shows "0 \<le> m" "m < 1440" "instant k n m \<le> t" "t < instant k n (m + 1)"
  using local_clock [of t k] assms by (metis day_parts_inj)+

lemma next_run_weekly:
  assumes "schedule_ok num spec" "rs_cadence spec = Weekly_run" "local_parts after (fixed_zone k) = day_parts n0 m0"
  defines "minute \<equiv> run_minute num (rs_time spec)"
  shows "\<exists>n. next_run_at num spec after (fixed_zone k) = Some (instant k n minute) \<and> iso_weekday n = rs_run_day spec \<and>
    after < instant k n minute \<and> (\<forall>n'. iso_weekday n' = rs_run_day spec \<longrightarrow> after < instant k n' minute \<longrightarrow> n \<le> n')"
proof -
  have minute: "0 \<le> minute" "minute < 1440" and d: "1 \<le> rs_run_day spec" "rs_run_day spec \<le> 7"
    using assms(1,2) by (simp_all add: schedule_ok_def minute_def)
  note c = clock_bounds [OF assms(3)]
  define delta where "delta = (rs_run_day spec - iso_weekday n0 + 7) mod 7"
  have delta: "0 \<le> delta" "delta < 7" by (simp_all add: delta_def)
  define j where "j = (if instant k (n0 + delta) minute \<le> after then delta + 7 else delta)"
  have "lp_weekday (day_parts n0 m0) = weekday n0" by (simp add: day_parts_def)
  then have run: "next_run_at num spec after (fixed_zone k) = Some (instant k (n0 + j) minute)"
    by (simp add: next_run_at_def Let_def assms(2,3) instant_of_day j_def delta_def iso_weekday_def flip: minute_def)
  have iso: "iso_weekday (n0 + i) = rs_run_day spec \<longleftrightarrow> (i - delta) mod 7 = 0" for i
    unfolding delta_def by (rule weekday_delta [OF d])
  have after: "after < instant k (n0 + j) minute"
  proof (cases "instant k (n0 + delta) minute \<le> after")
    case True
    have "instant k n0 (m0 + 1) \<le> instant k (n0 + 1) 0" using c(2) by (simp add: instant_def distrib_right)
    also have "\<dots> \<le> instant k (n0 + j) minute" using minute(1) delta True by (simp add: instant_def j_def)
    finally show ?thesis using c(4) by simp
  qed (simp add: j_def)
  have first: "n0 + j \<le> n'" if on: "iso_weekday n' = rs_run_day spec" and later: "after < instant k n' minute" for n'
  proof -
    have "(n' - n0 - delta) mod 7 = 0" using iso [of "n' - n0"] on by simp
    then obtain q where "n' - n0 - delta = 7 * q" by (auto simp: mod_eq_0_iff_dvd elim: dvdE)
    then have q: "n' = n0 + delta + 7 * q" by simp
    have "n0 \<le> n'"
    proof (rule ccontr)
      assume "\<not> n0 \<le> n'"
      then have "instant k n' minute < instant k n0 m0" using minute(2) c(1) by (intro instant_mono) simp_all
      with later c(3) show False by simp
    qed
    with q delta have "0 \<le> q" by simp
    moreover have "q \<noteq> 0" if "instant k (n0 + delta) minute \<le> after" using that q later by auto
    ultimately show ?thesis using q by (auto simp: j_def)
  qed
  have "iso_weekday (n0 + j) = rs_run_day spec" by (simp add: iso j_def)
  with run after first show ?thesis by blast
qed

lemma find_after: "find (\<lambda>t. (a :: int) < t) xs = Some x \<Longrightarrow> a < x"
  by (induction xs) (auto split: if_splits)

lemma next_run_months:
  assumes "schedule_ok num spec" "local_parts after (fixed_zone k) = day_parts n0 m0"
    and "rs_cadence spec = Monthly_run \<and> step = 1 \<or> rs_cadence spec = Quarterly_run \<and> step = 3"
  defines "minute \<equiv> run_minute num (rs_time spec)" and "M \<equiv> month_index n0"
  shows "\<exists>N. next_run_at num spec after (fixed_zone k) = Some (instant k (month_run spec N) minute) \<and> (N - M) mod step = 0 \<and>
    after < instant k (month_run spec N) minute \<and>
    (\<forall>N'. (N' - M) mod step = 0 \<longrightarrow> after < instant k (month_run spec N') minute \<longrightarrow> N \<le> N')"
proof -
  have ok: "0 \<le> minute" "minute < 1440" "1 \<le> rs_run_day spec" using assms(1) by (simp_all add: schedule_ok_def minute_def)
  note c = clock_bounds [OF assms(2)]
  define N where "N = (if after < instant k (month_run spec M) minute then M else M + step)"
  have "run_offsets Monthly_run = 0 # 1 # map int [2..<24]" "run_offsets Quarterly_run = 0 # 3 # map (\<lambda>i. int i * 3) [2..<8]"
    by (simp_all add: run_offsets_def upt_rec)
  then obtain rest where offs: "run_offsets (rs_cadence spec) = 0 # step # rest" "step = 1 \<or> step = 3" "rs_cadence spec \<noteq> Weekly_run"
    using assms(3) by auto
  have found: "find (\<lambda>t. after < t) (map (\<lambda>j. instant k (month_run spec (M + j)) minute) (0 # step # rest)) = Some (instant k (month_run spec N) minute)"
    unfolding N_def by (rule month_search [OF ok(3,1) M_def [symmetric, THEN meta_eq_to_obj_eq] c(2,4)]) (use offs(2) in auto)
  moreover have "map (run_candidate spec minute (day_parts n0 m0) (fixed_zone k)) (0 # step # rest) =
      map (\<lambda>j. instant k (month_run spec (M + j)) minute) (0 # step # rest)"
    by (intro map_cong refl) (simp add: run_candidate_fixed M_def)
  ultimately have run: "next_run_at num spec after (fixed_zone k) = Some (instant k (month_run spec N) minute)"
    unfolding next_run_at_def Let_def assms(2) minute_def [symmetric] offs(1) if_not_P [OF offs(3)] by (simp only:)
  have after: "after < instant k (month_run spec N) minute" using find_after [OF found] .
  have first: "N \<le> N'" if aligned: "(N' - M) mod step = 0" and later: "after < instant k (month_run spec N') minute" for N'
  proof -
    have "M \<le> N'" unfolding M_def by (rule no_run_before [OF ok(3,2) refl c(1,3) later])
    moreover have "N' \<noteq> M" if "N \<noteq> M" using that later by (auto simp: N_def split: if_splits)
    moreover obtain q where "N' - M = step * q" using aligned by (auto simp: mod_eq_0_iff_dvd elim: dvdE)
    ultimately show ?thesis using offs(2) by (auto simp: N_def; presburger)
  qed
  from run after first show ?thesis by (intro exI [of _ N]) (auto simp: N_def)
qed

text \<open>A schedule runs at the first instant after a given one that is at the run time on one of its days, and there is
  always one: the weekday of the week, or the day of the month, clamped to the month's length, in the month of
  the given instant or the next one of the cadence. Between them there is no other.\<close>

theorem next_run_first:
  assumes "schedule_ok num spec" "local_parts after (fixed_zone k) = day_parts n0 m0"
  shows "\<exists>n. next_run_at num spec after (fixed_zone k) = Some (instant k n (run_minute num (rs_time spec))) \<and>
    run_on spec (month_index n0) n \<and> after < instant k n (run_minute num (rs_time spec)) \<and>
    (\<forall>n'. run_on spec (month_index n0) n' \<longrightarrow> after < instant k n' (run_minute num (rs_time spec)) \<longrightarrow> n \<le> n')"
proof (cases "rs_cadence spec = Weekly_run")
  case True
  with next_run_weekly [OF assms(1) True assms(2)] show ?thesis by (simp add: run_on_def)
next
  case False
  have day: "1 \<le> rs_run_day spec" using assms(1) by (simp add: schedule_ok_def)
  define step :: int where "step = (if rs_cadence spec = Monthly_run then 1 else 3)"
  have "rs_cadence spec = Monthly_run \<and> step = 1 \<or> rs_cadence spec = Quarterly_run \<and> step = 3"
    using False by (cases "rs_cadence spec") (auto simp: step_def)
  note next_run_months [OF assms this]
  then obtain N where N:
    "next_run_at num spec after (fixed_zone k) = Some (instant k (month_run spec N) (run_minute num (rs_time spec)))"
    "(N - month_index n0) mod step = 0" "after < instant k (month_run spec N) (run_minute num (rs_time spec))"
    "\<forall>N'. (N' - month_index n0) mod step = 0 \<longrightarrow> after < instant k (month_run spec N') (run_minute num (rs_time spec)) \<longrightarrow> N \<le> N'"
    by metis
  have on: "run_on spec (month_index n0) n \<longleftrightarrow> n = month_run spec (month_index n) \<and> (month_index n - month_index n0) mod step = 0" for n
    using False by (cases "rs_cadence spec") (auto simp: run_on_def step_def)
  have "month_run spec N \<le> n'" if "run_on spec (month_index n0) n'" "after < instant k n' (run_minute num (rs_time spec))" for n'
  proof -
    have n': "n' = month_run spec (month_index n')" "(month_index n' - month_index n0) mod step = 0" using that(1) by (simp_all add: on)
    with N(4) that(2) have "N \<le> month_index n'" by metis
    then show ?thesis using month_run_less [OF day, of N "month_index n'"] n'(1) by (cases "N = month_index n'") auto
  qed
  with N(1-3) show ?thesis by (intro exI [of _ "month_run spec N"]) (auto simp: on month_run_bounds(3) [OF day])
qed

text \<open>The days a period covers, by the local day of the run.\<close>

definition period_days :: "report_period \<Rightarrow> int \<Rightarrow> int \<times> int" where
  "period_days kind n =
     (case kind of
        Previous_week \<Rightarrow> (n - iso_weekday n - 6, n - iso_weekday n)
      | Previous_month \<Rightarrow> (month_first (month_index n - 1), month_first (month_index n) - 1)
      | Previous_quarter \<Rightarrow> (month_first (month_index n div 3 * 3 - 3), month_first (month_index n div 3 * 3) - 1))"

lemma period_before_days:
  assumes "local_parts run (fixed_zone k) = day_parts n m"
  shows "period_before kind run (fixed_zone k) = map_prod civil civil (period_days kind n)"
proof -
  have i: "month_index n = 12 * yr (civil n) + (mon (civil n) - 1)" by (simp add: month_index_def)
  have today: "date_utc (yr (civil n)) (mon (civil n) - 1) (mday (civil n)) = n * 86400000" by (simp add: date_utc_def make_day_civil)
  show ?thesis
  proof (cases kind)
    case Previous_week
    have w: "(if utc_weekday (n * 86400000) = 0 then 7 else utc_weekday (n * 86400000)) = iso_weekday n"
      by (simp add: utc_weekday_def iso_weekday_def)
    have "n * 86400000 - (iso_weekday n - 1) * 86400000 - 7 * 86400000 = (n - iso_weekday n - 6) * 86400000"
      "n * 86400000 - (iso_weekday n - 1) * 86400000 - 86400000 = (n - iso_weekday n) * 86400000"
      by (simp_all add: algebra_simps)
    then show ?thesis
      by (simp only: period_before_def Let_def assms day_parts_def local_parts.simps today w Previous_week report_period.case period_days_def map_prod_simp)
        (simp add: iso_day_of_def)
  next
    case Previous_month
    have "12 * yr (civil n) + (mon (civil n) - 2) = month_index n - 1" "12 * yr (civil n) + (mon (civil n) - 1) = month_index n"
      by (simp_all add: i)
    then show ?thesis
      by (simp only: period_before_def Let_def assms day_parts_def local_parts.simps Previous_month report_period.case period_days_def map_prod_simp
          date_utc_def make_day_index iso_day_of_def) simp
  next
    case Previous_quarter
    have "month_index n = (4 * yr (civil n)) * 3 + (mon (civil n) - 1)" by (simp add: i)
    then have "month_index n div 3 = 4 * yr (civil n) + (mon (civil n) - 1) div 3" by (simp only: div_mult_self3)
    then have "12 * yr (civil n) + ((mon (civil n) - 1) div 3 * 3 - 3) = month_index n div 3 * 3 - 3"
      "12 * yr (civil n) + (mon (civil n) - 1) div 3 * 3 = month_index n div 3 * 3"
      by simp_all
    then show ?thesis
      by (simp only: period_before_def Let_def assms day_parts_def local_parts.simps Previous_quarter report_period.case period_days_def map_prod_simp
          date_utc_def make_day_index iso_day_of_def) simp
  qed
qed

definition matching_period :: "report_cadence \<Rightarrow> report_period" where
  "matching_period c = (case c of Weekly_run \<Rightarrow> Previous_week | Monthly_run \<Rightarrow> Previous_month | Quarterly_run \<Rightarrow> Previous_quarter)"


definition quarterly_sample :: report_schedule where
  "quarterly_sample = \<lparr>rs_cadence = Quarterly_run, rs_run_day = 31, rs_time = ''06:30'', rs_period = Previous_quarter\<rparr>"

definition digits_number :: "string \<Rightarrow> int option" where
  "digits_number s = (if s \<noteq> [] \<and> list_all is_digit s then Some (foldl (\<lambda>n c. 10 * n + (of_char c - 48)) 0 s) else None)"

text \<open>A schedule on the last day of the month in UTC+1, from 10 November 2026: the run of November is on the 30th.\<close>

lemma quarterly_sample_ok: "schedule_ok digits_number quarterly_sample"
  by code_simp

theorem next_run_first_witness:
  "\<exists>n. next_run_at digits_number quarterly_sample (instant 60 20767 0) (fixed_zone 60) = Some (instant 60 n (run_minute digits_number ''06:30'')) \<and>
    run_on quarterly_sample (month_index 20767) n \<and> civil n = Ymd 2026 11 30"
proof -
  have l: "local_parts (instant 60 20767 0) (fixed_zone 60) = day_parts 20767 0" by (rule local_parts_instant) simp_all
  obtain n where n: "next_run_at digits_number quarterly_sample (instant 60 20767 0) (fixed_zone 60) = Some (instant 60 n (run_minute digits_number (rs_time quarterly_sample)))"
    "run_on quarterly_sample (month_index 20767) n"
    using next_run_first [OF quarterly_sample_ok l] by blast
  have "next_run_at digits_number quarterly_sample (instant 60 20767 0) (fixed_zone 60) = Some (instant 60 20787 390)" by code_simp
  moreover have "run_minute digits_number (rs_time quarterly_sample) = 390" by code_simp
  ultimately have "n = 20787" using n(1) by (simp add: instant_def)
  moreover have "civil 20787 = Ymd 2026 11 30" by code_simp
  ultimately show ?thesis using n by (intro exI [of _ n]) (simp add: quarterly_sample_def)
qed


end
