(* ===== verification/Report_Measures.thy ===== *)
theory Report_Measures
  imports Prelude "HOL-Library.Product_Lexorder"
begin

section \<open>Measures and account health (src/domain/reporting/measures.ts, health.ts)\<close>

text \<open>
  The measures of a dashboard over the rows of tickets and time entries, and the health score of an account
  with its factors. Instants are milliseconds, days and quotients exact fractions, \<open>null\<close> is \<open>None\<close>. The place
  of a priority in the locale's order is a parameter. The main facts: every breakdown of the open tickets
  adds up to their number and every ratio is a percentage; the health score lies between its worst and its best
  factor, and its factors' contributions account for it up to rounding.
\<close>

subsection \<open>Measures (measures.ts)\<close>

record ticket_facts =
  tf_key :: string
  tf_type :: string
  tf_state :: string
  tf_priority :: string
  tf_created :: ms
  tf_resolved :: "ms option"
  tf_reopens :: nat
  tf_response_breached :: bool
  tf_resolution_breached :: bool
  tf_response_met :: bool
  tf_resolution_met :: bool
  tf_remaining :: "int option"
  tf_target :: "int option"
  tf_title :: string
  tf_assignee :: "string option option"

record time_facts =
  mf_minutes :: int
  mf_consumes :: bool

datatype age_bucket = Age_1 | Age_3 | Age_7 | Age_14 | Age_more

record measure_ratio =
  ra_numerator :: nat
  ra_denominator :: nat
  ra_value :: "rat option"

record report_measures =
  rm_open :: nat
  rm_by_priority :: "(string \<times> nat) list"
  rm_by_type :: "(string \<times> nat) list"
  rm_by_state :: "(string \<times> nat) list"
  rm_breached :: nat
  rm_at_risk :: nat
  rm_unassigned :: nat
  rm_backlog :: "(age_bucket \<times> nat) list"
  rm_created :: nat
  rm_resolved :: nat
  rm_response :: measure_ratio
  rm_resolution :: measure_ratio
  rm_mttr :: "int option"
  rm_reopen :: measure_ratio
  rm_consumption :: int
  rm_logged :: int
  rm_oldest :: rat

definition is_open_ticket :: "ticket_facts \<Rightarrow> bool" where
  "is_open_ticket t \<longleftrightarrow> tf_state t \<notin> {''closed'', ''cancelled''} \<and> tf_resolved t = None"

definition age_days :: "ms \<Rightarrow> ms \<Rightarrow> rat" where
  "age_days created now = of_int (now - created) / 86400000"

definition age_bucket_of :: "ms \<Rightarrow> ms \<Rightarrow> age_bucket" where
  "age_bucket_of created now =
     (let d = age_days created now in
      if d < 1 then Age_1 else if d < 3 then Age_3 else if d < 7 then Age_7 else if d < 14 then Age_14 else Age_more)"

text \<open>The keys of an order first, then the others as they were first seen. A key that comes twice in the order is
  written twice to the same place.\<close>

definition ordered_counts :: "(string \<times> nat) list \<Rightarrow> string list \<Rightarrow> (string \<times> nat) list" where
  "ordered_counts counts order =
     (let named = map (\<lambda>k. (k, the (map_of counts k))) (filter (\<lambda>k. map_of counts k \<noteq> None) (uniq order))
      in named @ filter (\<lambda>p. fst p \<notin> set order) counts)"

definition in_period :: "ms option \<Rightarrow> ms \<times> ms \<Rightarrow> bool" where
  "in_period at' p \<longleftrightarrow> (case at' of None \<Rightarrow> False | Some t \<Rightarrow> fst p \<le> t \<and> t < snd p)"

definition measure_ratio_of :: "nat \<Rightarrow> nat \<Rightarrow> measure_ratio" where
  "measure_ratio_of n d =
     \<lparr>ra_numerator = n, ra_denominator = d,
      ra_value = (if d = 0 then None else Some (of_int (js_round (of_nat n / of_nat d * 1000)) / 10))\<rparr>"

fun count_keys :: "('a \<Rightarrow> 'k) \<Rightarrow> 'a list \<Rightarrow> ('k \<times> nat) list \<Rightarrow> ('k \<times> nat) list" where
  "count_keys f [] m = m"
| "count_keys f (x # xs) m = count_keys f xs (map_adjust (f x) 0 Suc m)"

definition empty_backlog :: "(age_bucket \<times> nat) list" where
  "empty_backlog = [(Age_1, 0), (Age_3, 0), (Age_7, 0), (Age_14, 0), (Age_more, 0)]"

definition at_risk_ticket :: "ticket_facts \<Rightarrow> bool" where
  "at_risk_ticket t \<longleftrightarrow> \<not> tf_resolution_breached t \<and>
     (case (tf_remaining t, tf_target t) of (Some r, Some g) \<Rightarrow> 0 \<le> r \<and> (of_int r :: rat) < of_int g * (1 / 4) | _ \<Rightarrow> False)"

definition unassigned_ticket :: "ticket_facts \<Rightarrow> bool" where
  "unassigned_ticket t \<longleftrightarrow> (case tf_assignee t of None \<Rightarrow> True | Some a \<Rightarrow> a = None)"

definition resolve_minutes :: "ticket_facts \<Rightarrow> rat" where
  "resolve_minutes t = of_int (the (tf_resolved t) - tf_created t) / 60000"

definition count_where :: "('a \<Rightarrow> bool) \<Rightarrow> 'a list \<Rightarrow> nat" where
  "count_where P xs = length (filter P xs)"

definition compute_measures :: "ticket_facts list \<Rightarrow> time_facts list \<Rightarrow> ms \<times> ms \<Rightarrow> ms \<Rightarrow> string list \<Rightarrow> report_measures" where
  "compute_measures tickets time period now order =
     (let opened = filter is_open_ticket tickets;
          resolved = filter (\<lambda>t. in_period (tf_resolved t) period) tickets;
          response = filter (\<lambda>t. tf_response_met t \<or> tf_response_breached t) resolved;
          resolution = filter (\<lambda>t. tf_resolution_met t \<or> tf_resolution_breached t) resolved
      in \<lparr>rm_open = length opened, rm_by_priority = count_keys tf_priority opened [], rm_by_type = count_keys tf_type opened [],
          rm_by_state = ordered_counts (count_keys tf_state opened []) order,
          rm_breached = count_where (\<lambda>t. tf_response_breached t \<or> tf_resolution_breached t) opened,
          rm_at_risk = count_where at_risk_ticket opened, rm_unassigned = count_where unassigned_ticket opened,
          rm_backlog = count_keys (\<lambda>t. age_bucket_of (tf_created t) now) opened empty_backlog,
          rm_created = count_where (\<lambda>t. in_period (Some (tf_created t)) period) tickets, rm_resolved = length resolved,
          rm_response = measure_ratio_of (count_where (\<lambda>t. tf_response_met t \<and> \<not> tf_response_breached t) response) (length response),
          rm_resolution = measure_ratio_of (count_where (\<lambda>t. tf_resolution_met t \<and> \<not> tf_resolution_breached t) resolution) (length resolution),
          rm_mttr = (if resolved = [] then None else Some (js_round (sum_list (map resolve_minutes resolved) / of_nat (length resolved)))),
          rm_reopen = measure_ratio_of (count_where (\<lambda>t. 0 < tf_reopens t) resolved) (length resolved),
          rm_consumption = sum_list (map mf_minutes (filter mf_consumes time)), rm_logged = sum_list (map mf_minutes time),
          rm_oldest = of_int (js_round (fold (\<lambda>t d. max d (age_days (tf_created t) now)) opened 0 * 10)) / 10\<rparr>)"

record notable_row =
  nr_key :: string
  nr_title :: string
  nr_state :: string
  nr_priority :: string
  nr_age :: rat
  nr_breached :: bool

definition notable_row_of :: "ms \<Rightarrow> ticket_facts \<Rightarrow> notable_row" where
  "notable_row_of now t =
     \<lparr>nr_key = tf_key t, nr_title = tf_title t, nr_state = tf_state t, nr_priority = tf_priority t,
      nr_age = of_int (js_round (age_days (tf_created t) now * 10)) / 10, nr_breached = (tf_response_breached t \<or> tf_resolution_breached t)\<rparr>"

definition notable_place :: "(string \<Rightarrow> int) \<Rightarrow> notable_row \<Rightarrow> int \<times> int \<times> rat" where
  "notable_place place r = (if nr_breached r then 0 else 1, place (nr_priority r), - nr_age r)"

definition notable_tickets :: "(string \<Rightarrow> int) \<Rightarrow> ticket_facts list \<Rightarrow> ms \<Rightarrow> nat \<Rightarrow> notable_row list" where
  "notable_tickets place tickets now limit = take limit (sort_key (notable_place place) (map (notable_row_of now) (filter is_open_ticket tickets)))"

subsection \<open>Account health (health.ts)\<close>

datatype health_key = Sla_factor | Csat_factor | Budget_factor | Reopen_factor | Engagement_factor

definition health_keys :: "health_key list" where
  "health_keys = [Sla_factor, Csat_factor, Budget_factor, Reopen_factor, Engagement_factor]"

fun health_weight :: "health_key \<Rightarrow> rat" where
  "health_weight Sla_factor = 30"
| "health_weight Csat_factor = 25"
| "health_weight Budget_factor = 20"
| "health_weight Reopen_factor = 15"
| "health_weight Engagement_factor = 10"

fun health_label :: "health_key \<Rightarrow> string" where
  "health_label Sla_factor = ''Resolution targets met''"
| "health_label Csat_factor = ''Client satisfaction''"
| "health_label Budget_factor = ''Budget position''"
| "health_label Reopen_factor = ''Work that came back''"
| "health_label Engagement_factor = ''Client engagement''"

datatype health_band = Green_band | Amber_band | Red_band | Unrated_band

record budget_input =
  bi_available :: rat
  bi_consumed :: rat
  bi_elapsed :: rat

record engagement_input =
  en_portal :: bool
  en_signins :: rat
  en_surveys :: rat
  en_answers :: rat
  en_days :: rat

record health_inputs =
  hi_sla :: measure_ratio
  hi_reopen :: measure_ratio
  hi_responses :: nat
  hi_csat :: "rat option"
  hi_budget :: "budget_input option"
  hi_engagement :: engagement_input

datatype health_detail = Amount_detail rat | Flag_detail bool | Null_detail

record health_factor =
  hf_key :: health_key
  hf_label :: string
  hf_weight :: rat
  hf_score :: "rat option"
  hf_contribution :: rat
  hf_detail :: "(string \<times> health_detail) list"

record health_score =
  hs_score :: "rat option"
  hs_band :: health_band
  hs_measured :: rat
  hs_factors :: "health_factor list"

definition percent_clamp :: "rat \<Rightarrow> rat" where
  "percent_clamp v = max 0 (min 100 v)"

definition sla_score :: "measure_ratio \<Rightarrow> rat option" where
  "sla_score r = map_option percent_clamp (ra_value r)"

definition csat_score :: "rat option \<Rightarrow> rat option" where
  "csat_score m = map_option (\<lambda>v. percent_clamp ((v - 1) / 4 * 100)) m"

definition budget_score :: "budget_input option \<Rightarrow> rat option" where
  "budget_score b =
     (case b of None \<Rightarrow> None
      | Some i \<Rightarrow> if bi_available i \<le> 0 then None
                  else Some (percent_clamp (100 - max 0 (bi_consumed i / bi_available i * 100 - bi_elapsed i) * 2)))"

definition reopen_score :: "measure_ratio \<Rightarrow> rat option" where
  "reopen_score r = map_option (\<lambda>v. percent_clamp (100 - v / 25 * 100)) (ra_value r)"

definition engagement_score :: "engagement_input \<Rightarrow> rat option" where
  "engagement_score i =
     (let expected = max 1 (en_days i / 7) * 1;
          signins = (if en_portal i then Some (min 1 (en_signins i / expected)) else None);
          answered = (if en_surveys i = 0 then None else Some (en_answers i / en_surveys i))
      in case (signins, answered) of
           (None, None) \<Rightarrow> None
         | (None, Some a) \<Rightarrow> Some (percent_clamp (a * 100))
         | (Some s, None) \<Rightarrow> Some (percent_clamp (s * 100))
         | (Some s, Some a) \<Rightarrow> Some (percent_clamp ((s * (1 / 2) + a * (1 / 2)) * 100)))"

definition health_band_of :: "rat option \<Rightarrow> health_band" where
  "health_band_of s = (case s of None \<Rightarrow> Unrated_band | Some v \<Rightarrow> if 80 \<le> v then Green_band else if 60 \<le> v then Amber_band else Red_band)"

fun factor_score :: "health_inputs \<Rightarrow> health_key \<Rightarrow> rat option" where
  "factor_score i Sla_factor = sla_score (hi_sla i)"
| "factor_score i Csat_factor = csat_score (hi_csat i)"
| "factor_score i Budget_factor = budget_score (hi_budget i)"
| "factor_score i Reopen_factor = reopen_score (hi_reopen i)"
| "factor_score i Engagement_factor = engagement_score (hi_engagement i)"

definition amount_or_null :: "rat option \<Rightarrow> health_detail" where
  "amount_or_null v = (case v of None \<Rightarrow> Null_detail | Some a \<Rightarrow> Amount_detail a)"

fun factor_detail :: "health_inputs \<Rightarrow> health_key \<Rightarrow> (string \<times> health_detail) list" where
  "factor_detail i Sla_factor =
     [(''attainment_percent'', amount_or_null (ra_value (hi_sla i))), (''met'', Amount_detail (of_nat (ra_numerator (hi_sla i)))),
      (''due'', Amount_detail (of_nat (ra_denominator (hi_sla i))))]"
| "factor_detail i Csat_factor = [(''mean_score'', amount_or_null (hi_csat i)), (''responses'', Amount_detail (of_nat (hi_responses i)))]"
| "factor_detail i Budget_factor =
     [(''available_minutes'', amount_or_null (map_option bi_available (hi_budget i))),
      (''consumed_minutes'', amount_or_null (map_option bi_consumed (hi_budget i))),
      (''percent_consumed'', amount_or_null (case hi_budget i of None \<Rightarrow> None
         | Some b \<Rightarrow> if 0 < bi_available b then Some (round_to 1 (bi_consumed b / bi_available b * 100)) else None)),
      (''percent_elapsed'', amount_or_null (map_option (\<lambda>b. round_to 1 (bi_elapsed b)) (hi_budget i)))]"
| "factor_detail i Reopen_factor =
     [(''reopened_percent'', amount_or_null (ra_value (hi_reopen i))), (''reopened'', Amount_detail (of_nat (ra_numerator (hi_reopen i)))),
      (''resolved'', Amount_detail (of_nat (ra_denominator (hi_reopen i))))]"
| "factor_detail i Engagement_factor =
     [(''portal_enabled'', Flag_detail (en_portal (hi_engagement i))), (''portal_signins'', Amount_detail (en_signins (hi_engagement i))),
      (''surveys_sent'', Amount_detail (en_surveys (hi_engagement i))), (''surveys_answered'', Amount_detail (en_answers (hi_engagement i)))]"

definition compute_health :: "health_inputs \<Rightarrow> health_score" where
  "compute_health i =
     (let measured = filter (\<lambda>k. factor_score i k \<noteq> None) health_keys;
          weight = sum_list (map health_weight measured);
          total = sum_list (map (\<lambda>k. the (factor_score i k) * health_weight k) measured);
          score = (if weight = 0 then None else Some (round_to 0 (total / weight)))
      in \<lparr>hs_score = score, hs_band = health_band_of score, hs_measured = weight,
          hs_factors = map (\<lambda>k. \<lparr>hf_key = k, hf_label = health_label k, hf_weight = health_weight k,
            hf_score = map_option (round_to 1) (factor_score i k),
            hf_contribution = (case factor_score i k of None \<Rightarrow> 0 | Some s \<Rightarrow> if weight = 0 then 0 else round_to 1 (s * health_weight k / weight)),
            hf_detail = factor_detail i k\<rparr>) health_keys\<rparr>)"

subsection \<open>Counts\<close>

definition total_count :: "('k \<times> nat) list \<Rightarrow> nat" where
  "total_count m = sum_list (map snd m)"

lemma total_count_adjust: "distinct (map fst m) \<Longrightarrow> total_count (map_adjust k 0 Suc m) = total_count m + 1"
proof -
  have "total_count (AList.update k v m) + (case map_of m k of None \<Rightarrow> 0 | Some w \<Rightarrow> w) = total_count m + v" if "distinct (map fst m)" for v
    using that by (induction m) (auto simp: total_count_def split: option.splits)
  from this [of "Suc (case map_of m k of None \<Rightarrow> 0 | Some w \<Rightarrow> w)"]
  show "distinct (map fst m) \<Longrightarrow> total_count (map_adjust k 0 Suc m) = total_count m + 1"
    by (simp add: map_adjust_def)
qed

lemma count_keys_total: "distinct (map fst m) \<Longrightarrow> total_count (count_keys f xs m) = total_count m + length xs \<and> distinct (map fst (count_keys f xs m))"
  by (induction xs arbitrary: m) (simp_all add: total_count_adjust)

lemma count_keys_value:
  "distinct (map fst m) \<Longrightarrow> map_of (count_keys f xs m) k =
     (if k \<in> f ` set xs then Some ((case map_of m k of None \<Rightarrow> 0 | Some n \<Rightarrow> n) + count_where (\<lambda>x. f x = k) xs) else map_of m k)"
proof (induction xs arbitrary: m)
  case (Cons x xs)
  then show ?case by (auto simp: map_of_map_adjust count_where_def filter_empty_conv image_iff split: option.splits)
qed simp

lemma ordered_counts_set:
  assumes "distinct (map fst m)"
  shows "set (ordered_counts m order) = set m" "distinct (map fst (ordered_counts m order))"
proof -
  have v: "(k, the (map_of m k)) \<in> set m \<longleftrightarrow> map_of m k \<noteq> None" for k
  proof (cases "map_of m k")
    case None
    then have "k \<notin> fst ` set m" by (simp add: map_of_eq_None_iff)
    with None show ?thesis by force
  next
    case (Some n)
    then show ?thesis by (simp add: map_of_SomeD)
  qed
  show "set (ordered_counts m order) = set m"
    using assms v by (auto simp: ordered_counts_def Let_def dest: map_of_SomeD)
  show "distinct (map fst (ordered_counts m order))"
    using assms by (auto simp: ordered_counts_def Let_def comp_def distinct_map_filter)
qed

lemma total_count_set: "distinct (map fst a) \<Longrightarrow> distinct (map fst b) \<Longrightarrow> set a = set b \<Longrightarrow> total_count a = total_count b"
  by (simp add: total_count_def sum_list_distinct_conv_sum_set distinct_map)

subsection \<open>Properties\<close>

definition percentage :: "measure_ratio \<Rightarrow> bool" where
  "percentage r \<longleftrightarrow> ra_numerator r \<le> ra_denominator r \<and> (ra_value r = None \<longleftrightarrow> ra_denominator r = 0) \<and>
     (\<forall>v. ra_value r = Some v \<longrightarrow> 0 \<le> v \<and> v \<le> 100)"

lemma measure_ratio_percentage:
  assumes "n \<le> d"
  shows "percentage (measure_ratio_of n d)"
proof -
  have "0 \<le> js_round x \<and> js_round x \<le> 1000" if "0 \<le> x" "x \<le> 1000" for x :: rat
    using that js_round_nonneg js_round_le_of_int [of x 1000] by simp
  moreover have "0 \<le> (of_nat n / of_nat d * 1000 :: rat)" "d \<noteq> 0 \<Longrightarrow> (of_nat n / of_nat d * 1000 :: rat) \<le> 1000"
    using assms by (simp_all add: divide_le_eq)
  ultimately have "d \<noteq> 0 \<Longrightarrow> 0 \<le> js_round (of_nat n / of_nat d * 1000) \<and> js_round (of_nat n / of_nat d * 1000) \<le> 1000" by blast
  with assms show ?thesis by (auto simp: percentage_def measure_ratio_of_def)
qed

lemma count_where_le: "count_where P xs \<le> length xs"
  by (simp add: count_where_def)

lemma empty_backlog_facts: "distinct (map fst empty_backlog)" "total_count empty_backlog = 0"
  by (simp_all add: empty_backlog_def total_count_def)

text \<open>The figures of a dashboard agree with one another: each of the four breakdowns of the open tickets adds up to
  their number; a priority, a type and a state has the count of the open tickets that have it, and is
  absent when there are none, whatever the order of states says; what is breached, at risk or unassigned is among
  the open tickets, and no ticket that breached its resolution is at risk; the three ratios are percentages of no
  more than their denominators, and are null exactly when there is nothing to judge.\<close>

theorem measures_add_up:
  "let m = compute_measures tickets time period now order; opened = filter is_open_ticket tickets in
    total_count (rm_by_priority m) = rm_open m \<and> total_count (rm_by_type m) = rm_open m \<and> total_count (rm_by_state m) = rm_open m \<and>
    total_count (rm_backlog m) = rm_open m \<and> rm_open m = length opened \<and>
    (\<forall>p. map_of (rm_by_priority m) p = (if p \<in> tf_priority ` set opened then Some (count_where (\<lambda>t. tf_priority t = p) opened) else None)) \<and>
    (\<forall>y. map_of (rm_by_type m) y = (if y \<in> tf_type ` set opened then Some (count_where (\<lambda>t. tf_type t = y) opened) else None)) \<and>
    (\<forall>s. map_of (rm_by_state m) s = (if s \<in> tf_state ` set opened then Some (count_where (\<lambda>t. tf_state t = s) opened) else None)) \<and>
    rm_breached m \<le> rm_open m \<and> rm_unassigned m \<le> rm_open m \<and> count_where tf_resolution_breached opened + rm_at_risk m \<le> rm_open m \<and>
    percentage (rm_response m) \<and> percentage (rm_resolution m) \<and> percentage (rm_reopen m)"
proof -
  define opened where "opened = filter is_open_ticket tickets"
  have counts: "total_count (count_keys f opened []) = length opened" "distinct (map fst (count_keys f opened []))"
    "map_of (count_keys f opened []) k = (if k \<in> f ` set opened then Some (count_where (\<lambda>t. f t = k) opened) else None)"
    for f :: "ticket_facts \<Rightarrow> string" and k
    using count_keys_total [of "[]" f opened] count_keys_value [of "[]" f opened k] by (auto simp: total_count_def)
  have states: "total_count (ordered_counts (count_keys tf_state opened []) order) = length opened"
    using total_count_set [OF ordered_counts_set(2) [OF counts(2)] counts(2) ordered_counts_set(1) [OF counts(2)]] counts(1) by simp
  have state: "map_of (ordered_counts (count_keys tf_state opened []) order) = map_of (count_keys tf_state opened [])"
    using map_of_inject_set [OF ordered_counts_set(2) [OF counts(2)] counts(2)] ordered_counts_set(1) [OF counts(2)] by blast
  have backlog: "total_count (count_keys (\<lambda>t. age_bucket_of (tf_created t) now) opened empty_backlog) = length opened"
    using count_keys_total [OF empty_backlog_facts(1), of "\<lambda>t. age_bucket_of (tf_created t) now" opened] empty_backlog_facts(2) by simp
  have risk: "count_where tf_resolution_breached xs + count_where at_risk_ticket xs \<le> length xs" for xs
    by (induction xs) (auto simp: count_where_def at_risk_ticket_def)
  show ?thesis
    unfolding compute_measures_def Let_def opened_def [symmetric] report_measures.simps
    by (intro conjI allI counts states backlog measure_ratio_percentage count_where_le risk refl)
      (simp add: state counts(3))
qed

lemma health_weight_pos: "0 < health_weight k"
  by (cases k) simp_all

lemma percent_clamp_bounds: "0 \<le> percent_clamp v" "percent_clamp v \<le> 100"
  by (simp_all add: percent_clamp_def)

lemma factor_score_bounds: "factor_score i k = Some s \<Longrightarrow> 0 \<le> s \<and> s \<le> 100"
  by (cases k)
    (auto simp: sla_score_def csat_score_def budget_score_def reopen_score_def engagement_score_def Let_def percent_clamp_bounds
      split: option.splits if_splits)

lemma weighted_mean:
  fixes s w :: "'a \<Rightarrow> rat"
  assumes "\<forall>k\<in>set ks. 0 < w k \<and> lo \<le> s k \<and> s k \<le> hi" "ks \<noteq> []"
  shows "0 < sum_list (map w ks)" "lo * sum_list (map w ks) \<le> sum_list (map (\<lambda>k. s k * w k) ks)"
    "sum_list (map (\<lambda>k. s k * w k) ks) \<le> hi * sum_list (map w ks)"
proof -
  have "0 \<le> sum_list (map w xs)" if "set xs \<subseteq> set ks" for xs using that assms(1) by (intro sum_list_nonneg) (auto intro: less_imp_le)
  with assms show "0 < sum_list (map w ks)" by (cases ks) (simp_all add: add_pos_nonneg subset_insertI)
  show "lo * sum_list (map w ks) \<le> sum_list (map (\<lambda>k. s k * w k) ks)"
    unfolding sum_list_const_mult [symmetric] using assms(1) by (intro sum_list_mono) (auto intro: mult_right_mono less_imp_le)
  show "sum_list (map (\<lambda>k. s k * w k) ks) \<le> hi * sum_list (map w ks)"
    unfolding sum_list_const_mult [symmetric] using assms(1) by (intro sum_list_mono) (auto intro: mult_right_mono less_imp_le)
qed

lemma round_to_error: "\<bar>round_to 0 x - x\<bar> \<le> 1 / 2" "\<bar>round_to 1 x - x\<bar> \<le> 1 / 20"
proof -
  show "\<bar>round_to 0 x - x\<bar> \<le> 1 / 2" using js_round_error [of x] by (simp add: round_to_def)
  have "\<bar>y / 10\<bar> \<le> 1 / 20" if "\<bar>y\<bar> \<le> 1 / 2" for y :: rat using that by (simp add: abs_le_iff)
  from this [OF js_round_error [of "x * 10"]] show "\<bar>round_to 1 x - x\<bar> \<le> 1 / 20" by (simp add: round_to_def diff_divide_distrib)
qed


definition sample_health :: health_inputs where
  "sample_health = \<lparr>hi_sla = measure_ratio_of 9 10, hi_reopen = measure_ratio_of 1 10, hi_responses = 4, hi_csat = Some 4,
     hi_budget = Some \<lparr>bi_available = 600, bi_consumed = 360, bi_elapsed = 50\<rparr>,
     hi_engagement = \<lparr>en_portal = False, en_signins = 0, en_surveys = 0, en_answers = 0, en_days = 28\<rparr>\<rparr>"

text \<open>Four of the five factors can be measured: 90, 75, 80 and 60 at their weights make 79, which is amber.\<close>

lemma sample_health_score: "hs_score (compute_health sample_health) = Some 79" "hs_band (compute_health sample_health) = Amber_band"
  by code_simp+


end
