(* ===== verification/Ticket_Queries.thy ===== *)
theory Ticket_Queries
  imports Sync_Rules
begin

section \<open>Ticket queries and routing (src/modules/tickets/conditions.ts, routing.module.ts)\<close>

text \<open>
  The condition builder: a set of conditions is validated against an allowlist of fields and operators and
  translated to an SQL fragment whose values are all bound. A fragment is a list of pieces, fixed text or a
  placeholder by its position among the bound values. What \<open>new Date(text)\<close> reads, as its ISO text, and the text
  of a number are parameters. Then the routing defaults of an account: which group takes a new ticket.
\<close>

subsection \<open>Fields and operators\<close>

datatype field_kind = Text_field | Enum_field | Timestamp_field | Boolean_field | Uuid_field | Actor_field | Group_field

record field_spec =
  fs_column :: string
  fs_kind :: field_kind
  fs_values :: "string list option"

record condition =
  cd_field :: string
  cd_op :: string
  cd_value :: json

text \<open>\<open>None\<close> is a set whose conditions are no array; the match is kept as it came.\<close>

record condition_set =
  cs_conditions :: "condition list option"
  cs_match :: json

definition out_of_scope_values :: "string list" where
  "out_of_scope_values = [''none'', ''flagged'', ''approved'', ''declined'']"

definition query_fields :: "(string \<times> field_spec) list" where
  "query_fields =
     (let same = (\<lambda>n k v. (n, \<lparr>fs_column = n, fs_kind = k, fs_values = v\<rparr>)) in
     [same ''state'' Enum_field None,
      same ''type'' Enum_field (Some [''incident'', ''service_request'', ''change'', ''problem'', ''project_task'']),
      same ''priority'' Enum_field (Some [''p1'', ''p2'', ''p3'', ''p4'']),
      same ''impact'' Enum_field (Some [''high'', ''medium'', ''low'']),
      same ''urgency'' Enum_field (Some [''high'', ''medium'', ''low'']),
      same ''source'' Enum_field (Some [''portal'', ''email'', ''internal'', ''api'', ''sync'', ''import'']),
      same ''category'' Text_field None, same ''short_description'' Text_field None,
      same ''account_id'' Uuid_field None, same ''contract_id'' Uuid_field None,
      same ''group_id'' Group_field None, same ''assignee_id'' Actor_field None, same ''created_by'' Actor_field None,
      same ''created_at'' Timestamp_field None, same ''updated_at'' Timestamp_field None, same ''resolved_at'' Timestamp_field None,
      same ''first_response_at'' Timestamp_field None,
      same ''sla_response_breached'' Boolean_field None, same ''sla_resolution_breached'' Boolean_field None,
      same ''priority_overridden'' Boolean_field None,
      same ''out_of_scope'' Enum_field (Some out_of_scope_values)])"

definition listed_operators :: "string list" where
  "listed_operators = [''eq'', ''neq'', ''in'', ''not_in'', ''is_null'', ''is_not_null'']"

fun operators_of :: "field_kind \<Rightarrow> string list" where
  "operators_of Text_field = [''eq'', ''neq'', ''contains'', ''is_null'', ''is_not_null'']"
| "operators_of Enum_field = listed_operators"
| "operators_of Timestamp_field = [''before'', ''after'', ''is_null'', ''is_not_null'']"
| "operators_of Boolean_field = [''eq'']"
| "operators_of Uuid_field = listed_operators"
| "operators_of Actor_field = listed_operators @ [''is_me'']"
| "operators_of Group_field = listed_operators @ [''is_mine'']"

definition max_conditions :: nat where "max_conditions = 20"

definition max_list :: nat where "max_list = 50"

text \<open>\<open>/^[0-9a-f]\{8\}-[0-9a-f]\{4\}-[0-9a-f]\{4\}-[0-9a-f]\{4\}-[0-9a-f]\{12\}$/i\<close>.\<close>

definition is_uuid :: "string \<Rightarrow> bool" where
  "is_uuid s \<longleftrightarrow> map length (split_char CHR ''-'' s) = [8, 4, 4, 4, 12] \<and>
     list_all (\<lambda>c. is_digit c \<or> c \<in> set ''-abcdefABCDEF'') s"

definition is_uuid_kind :: "field_kind \<Rightarrow> bool" where
  "is_uuid_kind k \<longleftrightarrow> k = Uuid_field \<or> k = Group_field"

subsection \<open>Validation\<close>

record query_reading =
  qy_num :: "rat \<Rightarrow> string"
  qy_date :: "string \<Rightarrow> string option"

datatype condition_problem =
    Conditions_not_array | Too_many_conditions | Bad_match | Unknown_field nat string | Operator_not_allowed nat string string
  | Value_required nat | List_required nat | Not_uuid nat string | Not_allowed_value nat string string | Not_date nat string | Text_too_long nat

definition scalar_problems :: "query_reading \<Rightarrow> nat \<Rightarrow> string \<Rightarrow> field_spec \<Rightarrow> json \<Rightarrow> condition_problem list" where
  "scalar_problems q i field spec v =
     (let s = js_string (qy_num q) v in
      (if is_uuid_kind (fs_kind spec) \<and> \<not> is_uuid s then [Not_uuid i s] else []) @
      (if fs_kind spec = Enum_field \<and> (case fs_values spec of None \<Rightarrow> False | Some vs \<Rightarrow> s \<notin> set vs) then [Not_allowed_value i s field] else []) @
      (if fs_kind spec = Timestamp_field \<and> qy_date q s = None then [Not_date i s] else []) @
      (if fs_kind spec = Text_field \<and> 200 < int (length s) then [Text_too_long i] else []))"

definition needs_value :: "string \<Rightarrow> bool" where
  "needs_value op \<longleftrightarrow> op \<notin> {''is_null'', ''is_not_null'', ''is_me'', ''is_mine''}"

definition is_list_op :: "string \<Rightarrow> bool" where
  "is_list_op op \<longleftrightarrow> op = ''in'' \<or> op = ''not_in''"

fun json_items :: "json \<Rightarrow> json list" where
  "json_items (JArr vs) = vs"
| "json_items v = []"

definition condition_problems :: "query_reading \<Rightarrow> nat \<Rightarrow> condition \<Rightarrow> condition_problem list" where
  "condition_problems q i c =
     (case map_of query_fields (cd_field c) of
        None \<Rightarrow> [Unknown_field i (cd_field c)]
      | Some spec \<Rightarrow>
          if cd_op c \<notin> set (operators_of (fs_kind spec)) then [Operator_not_allowed i (cd_op c) (cd_field c)]
          else if needs_value (cd_op c) \<and> cd_value c \<in> {JUndef, JNull, JStr []} then [Value_required i]
          else if is_list_op (cd_op c) \<and> (json_items (cd_value c) = [] \<or> max_list < length (json_items (cd_value c))) then [List_required i]
          else concat (map (scalar_problems q i (cd_field c) spec)
            (if is_list_op (cd_op c) then json_items (cd_value c) else if needs_value (cd_op c) then [cd_value c] else [])))"

definition validate_conditions :: "query_reading \<Rightarrow> condition_set \<Rightarrow> condition_problem list" where
  "validate_conditions q s =
     (case cs_conditions s of
        None \<Rightarrow> [Conditions_not_array]
      | Some cs \<Rightarrow>
          (if max_conditions < length cs then [Too_many_conditions] else []) @
          (if cs_match s \<notin> {JUndef, JStr ''all'', JStr ''any''} then [Bad_match] else []) @
          concat (map (\<lambda>(i, c). condition_problems q i c) (enumerate 0 cs)))"

subsection \<open>Translation\<close>

datatype sql_piece = Sql string | Placeholder nat

datatype bound_value = Bound_text string | Bound_bool bool | Bound_list "string list"

text \<open>A backslash before each backslash, percent sign and underscore.\<close>

definition escape_like :: "string \<Rightarrow> string" where
  "escape_like s = concat (map (\<lambda>c. if c \<in> {CHR 0x5C, CHR ''%'', CHR ''_''} then [CHR 0x5C, c] else [c]) s)"

record query_context =
  qc_user :: string
  qc_groups :: "string list"

text \<open>The fragment of a condition, with what it binds: placeholders count from the \<open>n\<close> values bound before.\<close>

definition condition_sql :: "query_reading \<Rightarrow> query_context \<Rightarrow> nat \<Rightarrow> condition \<Rightarrow> sql_piece list \<times> bound_value list" where
  "condition_sql q ctx n c =
     (let spec = the (map_of query_fields (cd_field c)); column = [CHR 0x22] @ fs_column spec @ [CHR 0x22]; text = js_string (qy_num q) (cd_value c);
          array = (if fs_kind spec = Uuid_field then ''::uuid[]'' else ''::text[]''); items = map (js_string (qy_num q)) (json_items (cd_value c));
          date = Bound_text (case qy_date q text of None \<Rightarrow> [] | Some d \<Rightarrow> d)
      in if cd_op c = ''eq'' then
           ([Sql (column @ '' = ''), Placeholder (n + 1)], [if fs_kind spec = Boolean_field then Bound_bool (truthy (cd_value c)) else Bound_text text])
         else if cd_op c = ''neq'' then ([Sql (column @ '' is distinct from ''), Placeholder (n + 1)], [Bound_text text])
         else if cd_op c = ''in'' then ([Sql (column @ '' = any (''), Placeholder (n + 1), Sql (array @ '')'')], [Bound_list items])
         else if cd_op c = ''not_in'' then
           ([Sql (''('' @ column @ '' is null or '' @ column @ '' <> all (''), Placeholder (n + 1), Sql (array @ ''))'')], [Bound_list items])
         else if cd_op c = ''contains'' then ([Sql (column @ '' ilike ''), Placeholder (n + 1)], [Bound_text (''%'' @ escape_like text @ ''%'')])
         else if cd_op c = ''before'' then ([Sql (column @ '' < ''), Placeholder (n + 1), Sql ''::timestamptz''], [date])
         else if cd_op c = ''after'' then ([Sql (column @ '' > ''), Placeholder (n + 1), Sql ''::timestamptz''], [date])
         else if cd_op c = ''is_null'' then ([Sql (column @ '' is null'')], [])
         else if cd_op c = ''is_not_null'' then ([Sql (column @ '' is not null'')], [])
         else if cd_op c = ''is_me'' then ([Sql (column @ '' = ''), Placeholder (n + 1)], [Bound_text (qc_user ctx)])
         else if qc_groups ctx = [] then ([Sql ''false''], [])
         else ([Sql (column @ '' = any (''), Placeholder (n + 1), Sql ''::text[])''], [Bound_list (qc_groups ctx)]))"

fun conditions_sql :: "query_reading \<Rightarrow> query_context \<Rightarrow> nat \<Rightarrow> condition list \<Rightarrow> sql_piece list list \<times> bound_value list" where
  "conditions_sql q ctx n [] = ([], [])"
| "conditions_sql q ctx n (c # cs) =
     (let (p, vs) = condition_sql q ctx n c; (ps, ws) = conditions_sql q ctx (n + length vs) cs in (p # ps, vs @ ws))"

fun join_pieces :: "string \<Rightarrow> sql_piece list list \<Rightarrow> sql_piece list" where
  "join_pieces j [] = []"
| "join_pieces j [p] = p"
| "join_pieces j (p # ps) = p @ Sql j # join_pieces j ps"

definition translate_conditions :: "query_reading \<Rightarrow> query_context \<Rightarrow> nat \<Rightarrow> condition_set \<Rightarrow> condition_problem list + (sql_piece list \<times> bound_value list)" where
  "translate_conditions q ctx offset s =
     (let problems = validate_conditions q s in
      if problems \<noteq> [] then Inl problems
      else let (parts, vs) = conditions_sql q ctx offset (case cs_conditions s of None \<Rightarrow> [] | Some cs \<Rightarrow> cs);
               joiner = (if cs_match s = JStr ''any'' then '' or '' else '' and '')
           in Inr (if parts = [] then [Sql ''true''] else Sql ''('' # join_pieces joiner parts @ [Sql '')''], vs))"

subsection \<open>Routing (routing.module.ts)\<close>

record routing_rule =
  rr_account :: string
  rr_type :: string
  rr_category :: "string option"
  rr_group :: string

record routing_request =
  rq_type :: string
  rq_category :: "string option"
  rq_group :: string

text \<open>The rules of the type whose group is active, those that name the category first.\<close>

definition route_ticket :: "routing_rule list \<Rightarrow> (string \<Rightarrow> bool) \<Rightarrow> string \<Rightarrow> string \<Rightarrow> string option \<Rightarrow> string option" where
  "route_ticket rules active account ty category =
     (let rs = filter (\<lambda>r. active (rr_group r) \<and> rr_account r = account \<and> rr_type r = ty \<and>
            (rr_category r = None \<or> category \<noteq> None \<and> rr_category r = category)) rules
      in case filter (\<lambda>r. rr_category r \<noteq> None) rs @ filter (\<lambda>r. rr_category r = None) rs of [] \<Rightarrow> None | r # _ \<Rightarrow> Some (rr_group r))"

definition rule_of_request :: "string \<Rightarrow> routing_request \<Rightarrow> routing_rule" where
  "rule_of_request account r =
     \<lparr>rr_account = account, rr_type = rq_type r,
      rr_category = (case rq_category r of None \<Rightarrow> None | Some c \<Rightarrow> if js_trim c = [] then None else Some (js_trim c)), rr_group = rq_group r\<rparr>"

datatype routing_fault = Routing_not_found | Duplicate_rule

text \<open>The unique index is on the account, the type and the category, where no category counts as the empty one.\<close>

definition replace_routing :: "string list \<Rightarrow> string \<Rightarrow> routing_request list \<Rightarrow> routing_rule list \<Rightarrow> routing_fault + routing_rule list" where
  "replace_routing mine account requests rules =
     and_then (guard_or (account \<in> set mine) Routing_not_found) (\<lambda>_.
     let added = map (rule_of_request account) requests in
     and_then (guard_or (distinct (map (\<lambda>r. (rr_type r, rr_category r)) added)) Duplicate_rule) (\<lambda>_.
     Inr (filter (\<lambda>r. rr_account r \<noteq> account) rules @ added)))"

subsection \<open>What a fragment may say\<close>

fun bound_places :: "sql_piece list \<Rightarrow> nat list" where
  "bound_places [] = []"
| "bound_places (Sql s # ps) = bound_places ps"
| "bound_places (Placeholder n # ps) = n # bound_places ps"

lemma bound_places_append [simp]: "bound_places (a @ b) = bound_places a @ bound_places b"
  by (induction a rule: bound_places.induct) simp_all

lemma bound_places_join: "bound_places (join_pieces j ps) = concat (map bound_places ps)"
  by (induction j ps rule: join_pieces.induct) simp_all

lemma condition_places: "bound_places (fst (condition_sql q ctx n c)) = [n + 1..<n + 1 + length (snd (condition_sql q ctx n c))]"
  by (simp add: condition_sql_def Let_def)

lemma conditions_places: "concat (map bound_places (fst (conditions_sql q ctx n cs))) = [n + 1..<n + 1 + length (snd (conditions_sql q ctx n cs))]"
proof (induction cs arbitrary: n)
  case (Cons c cs)
  obtain p vs where c: "condition_sql q ctx n c = (p, vs)" by fastforce
  obtain ps ws where r: "conditions_sql q ctx (n + length vs) cs = (ps, ws)" by fastforce
  have "bound_places p = [n + 1..<n + 1 + length vs]" using condition_places [of q ctx n c] by (simp add: c)
  moreover have "concat (map bound_places ps) = [n + 1 + length vs..<n + 1 + length vs + length ws]"
    using Cons.IH [of "n + length vs"] by (simp add: r)
  moreover have "[n + 1..<n + 1 + (length vs + length ws)] = [n + 1..<n + 1 + length vs] @ [n + 1 + length vs..<n + 1 + length vs + length ws]"
    using upt_add_eq_append [of "n + 1" "n + 1 + length vs" "length ws"] by (simp add: add.assoc)
  ultimately show ?case by (simp add: c r)
qed simp

lemma condition_shape:
  assumes "cd_field c = cd_field c'" "cd_op c = cd_op c'" "qc_groups ctx = [] \<longleftrightarrow> qc_groups ctx' = []"
  shows "fst (condition_sql q ctx n c) = fst (condition_sql q' ctx' n c')"
    "length (snd (condition_sql q ctx n c)) = length (snd (condition_sql q' ctx' n c'))"
  using assms by (simp_all add: condition_sql_def Let_def)

lemma conditions_shape:
  assumes "map (\<lambda>c. (cd_field c, cd_op c)) cs = map (\<lambda>c. (cd_field c, cd_op c)) cs'" "qc_groups ctx = [] \<longleftrightarrow> qc_groups ctx' = []"
  shows "fst (conditions_sql q ctx n cs) = fst (conditions_sql q' ctx' n cs')"
  using assms(1)
proof (induction cs arbitrary: n cs')
  case (Cons c cs)
  then obtain d ds where d: "cs' = d # ds" "cd_field c = cd_field d" "cd_op c = cd_op d" "map (\<lambda>c. (cd_field c, cd_op c)) cs = map (\<lambda>c. (cd_field c, cd_op c)) ds"
    by (cases cs') auto
  note e = condition_shape [OF d(2,3) assms(2), of q n q']
  with Cons.IH [OF d(4)] show ?case by (auto simp: d(1) Let_def split: prod.splits) (metis fst_conv)
qed simp

definition small_bound :: "query_context \<Rightarrow> bound_value \<Rightarrow> bool" where
  "small_bound ctx v \<longleftrightarrow> (case v of Bound_list xs \<Rightarrow> length xs \<le> max_list \<or> xs = qc_groups ctx | _ \<Rightarrow> True)"

lemma condition_bounds:
  "length (snd (condition_sql q ctx n c)) \<le> 1"
  "condition_problems q i c = [] \<Longrightarrow> \<forall>v\<in>set (snd (condition_sql q ctx n c)). small_bound ctx v"
proof -
  show "length (snd (condition_sql q ctx n c)) \<le> 1" by (simp add: condition_sql_def Let_def)
  assume ok: "condition_problems q i c = []"
  have "is_list_op (cd_op c) \<Longrightarrow> length (json_items (cd_value c)) \<le> max_list"
    using ok by (auto simp: condition_problems_def split: option.splits if_splits)
  then show "\<forall>v\<in>set (snd (condition_sql q ctx n c)). small_bound ctx v"
    by (auto simp: condition_sql_def Let_def small_bound_def is_list_op_def)
qed

lemma conditions_bounds:
  "length (snd (conditions_sql q ctx n cs)) \<le> length cs"
  "\<forall>c\<in>set cs. \<exists>i. condition_problems q i c = [] \<Longrightarrow> \<forall>v\<in>set (snd (conditions_sql q ctx n cs)). small_bound ctx v"
proof (induction cs arbitrary: n)
  case (Cons c cs)
  {
    case 1
    show ?case
      using condition_bounds(1) [of q ctx n c] Cons(1) [of "n + length (snd (condition_sql q ctx n c))"] by (auto simp: Let_def split: prod.splits)
  next
    case 2
    then obtain i where "condition_problems q i c = []" by auto
    with condition_bounds(2) [of q i c ctx n] Cons(2) [of "n + length (snd (condition_sql q ctx n c))"] 2
    show ?case by (auto simp: Let_def split: prod.splits)
  }
qed simp_all

text \<open>C38: A query cannot be injected: the text of an accepted query is fixed by the fields, the operators and the match of
  its conditions and by whether the caller has groups, whatever the values are; its placeholders are the positions
  of the bound values, each once and in order, so nothing of a value is in the text; and there are at most twenty
  values, of which a list has at most fifty items unless it is the caller's own groups.\<close>

theorem query_text_fixed:
  assumes "translate_conditions q ctx offset s = Inr (sql, vs)"
  shows "bound_places sql = [offset + 1..<offset + 1 + length vs] \<and> length vs \<le> max_conditions \<and> (\<forall>v\<in>set vs. small_bound ctx v) \<and>
    (\<forall>q' ctx' s' sql' vs'. translate_conditions q' ctx' offset s' = Inr (sql', vs') \<longrightarrow>
       map_option (map (\<lambda>c. (cd_field c, cd_op c))) (cs_conditions s) = map_option (map (\<lambda>c. (cd_field c, cd_op c))) (cs_conditions s') \<longrightarrow>
       (cs_match s = JStr ''any'' \<longleftrightarrow> cs_match s' = JStr ''any'') \<longrightarrow> (qc_groups ctx = [] \<longleftrightarrow> qc_groups ctx' = []) \<longrightarrow> sql' = sql)"
proof -
  have run: "\<exists>cs. cs_conditions s = Some cs \<and> validate_conditions q s = [] \<and> vs = snd (conditions_sql q ctx offset cs) \<and>
      sql = (let parts = fst (conditions_sql q ctx offset cs)
        in if parts = [] then [Sql ''true''] else Sql ''('' # join_pieces (if cs_match s = JStr ''any'' then '' or '' else '' and '') parts @ [Sql '')''])"
    if "translate_conditions q ctx offset s = Inr (sql, vs)" for q ctx s sql vs
    using that by (cases "cs_conditions s") (auto simp: translate_conditions_def Let_def validate_conditions_def split: if_splits prod.splits)
  obtain cs where cs: "cs_conditions s = Some cs" "validate_conditions q s = []" "vs = snd (conditions_sql q ctx offset cs)"
    "sql = (let parts = fst (conditions_sql q ctx offset cs)
        in if parts = [] then [Sql ''true''] else Sql ''('' # join_pieces (if cs_match s = JStr ''any'' then '' or '' else '' and '') parts @ [Sql '')''])"
    using run [OF assms] by blast
  have "bound_places sql = concat (map bound_places (fst (conditions_sql q ctx offset cs)))"
    by (simp add: cs(4) Let_def bound_places_join)
  then have places: "bound_places sql = [offset + 1..<offset + 1 + length vs]"
    using conditions_places [of q ctx offset cs] by (simp add: cs(3))
  have "length cs \<le> max_conditions" using cs(1,2) by (auto simp: validate_conditions_def split: if_splits)
  with conditions_bounds(1) [of q ctx offset cs] have few: "length vs \<le> max_conditions" by (simp add: cs(3))
  have "\<exists>i. condition_problems q i c = []" if c: "c \<in> set cs" for c
  proof -
    obtain i where "i < length cs" "cs ! i = c" using c by (auto simp: in_set_conv_nth)
    then have i: "(i, c) \<in> set (enumerate 0 cs)" by (simp add: in_set_enumerate_eq)
    have "concat (map (\<lambda>(i, c). condition_problems q i c) (enumerate 0 cs)) = []" using cs(1,2) by (simp add: validate_conditions_def)
    with i show ?thesis by (auto simp: concat_eq_Nil_conv)
  qed
  then have small: "\<forall>v\<in>set vs. small_bound ctx v" using conditions_bounds(2) [of cs q ctx offset] by (simp add: cs(3))
  have "sql' = sql" if t: "translate_conditions q' ctx' offset s' = Inr (sql', vs')"
    and shape: "map_option (map (\<lambda>c. (cd_field c, cd_op c))) (cs_conditions s) = map_option (map (\<lambda>c. (cd_field c, cd_op c))) (cs_conditions s')"
    and match: "cs_match s = JStr ''any'' \<longleftrightarrow> cs_match s' = JStr ''any''" and groups: "qc_groups ctx = [] \<longleftrightarrow> qc_groups ctx' = []"
    for q' ctx' s' sql' vs'
  proof -
    obtain cs' where cs': "cs_conditions s' = Some cs'"
      "sql' = (let parts = fst (conditions_sql q' ctx' offset cs')
        in if parts = [] then [Sql ''true''] else Sql ''('' # join_pieces (if cs_match s' = JStr ''any'' then '' or '' else '' and '') parts @ [Sql '')''])"
      using run [OF t] by blast
    have "map (\<lambda>c. (cd_field c, cd_op c)) cs = map (\<lambda>c. (cd_field c, cd_op c)) cs'" using shape by (simp add: cs(1) cs'(1))
    from conditions_shape [OF this groups, of q offset q'] match show ?thesis by (simp add: cs(4) cs'(2))
  qed
  with places few small show ?thesis by blast
qed

subsection \<open>What a pattern matches\<close>

text \<open>\<open>LIKE\<close> with its default escape, and \<open>ILIKE\<close> on the lower-case texts.\<close>

fun sql_like :: "string \<Rightarrow> string \<Rightarrow> bool" where
  "sql_like [] s = (s = [])"
| "sql_like (p # ps) s =
     (if p = CHR ''%'' then sql_like ps s \<or> (case s of [] \<Rightarrow> False | _ # s' \<Rightarrow> sql_like (p # ps) s')
      else if p = CHR ''_'' then (case s of [] \<Rightarrow> False | _ # s' \<Rightarrow> sql_like ps s')
      else if p = CHR 0x5C then (case (ps, s) of (e # ps', c # s') \<Rightarrow> c = e \<and> sql_like ps' s' | _ \<Rightarrow> False)
      else (case s of [] \<Rightarrow> False | c # s' \<Rightarrow> c = p \<and> sql_like ps s'))"

definition sql_ilike :: "string \<Rightarrow> string \<Rightarrow> bool" where
  "sql_ilike p s \<longleftrightarrow> sql_like (js_lower p) (js_lower s)"

lemma like_escaped: "sql_like (escape_like v @ ps) s \<longleftrightarrow> (\<exists>t. s = v @ t \<and> sql_like ps t)"
proof (induction v arbitrary: s)
  case (Cons c v)
  then show ?case by (cases s) (auto simp: escape_like_def)
qed (simp add: escape_like_def)

lemma like_percent_end: "sql_like ''%'' s"
  by (induction s) simp_all

lemma like_percent: "sql_like (CHR ''%'' # ps) s \<longleftrightarrow> (\<exists>a b. s = a @ b \<and> sql_like ps b)"
proof (induction s)
  case (Cons c s)
  have "(\<exists>a b. c # s = a @ b \<and> sql_like ps b) \<longleftrightarrow> sql_like ps (c # s) \<or> (\<exists>a b. s = a @ b \<and> sql_like ps b)"
    by (metis append_Cons append_Nil list.inject neq_Nil_conv)
  with Cons show ?case by simp
qed simp

lemma lower_special: "js_lower_char c \<in> {CHR 0x5C, CHR ''%'', CHR ''_''} \<longleftrightarrow> c \<in> {CHR 0x5C, CHR ''%'', CHR ''_''}"
proof -
  have n: "(of_char c :: nat) < 256" using nat_of_char_less_256 by simp
  have l: "(of_char (js_lower_char c) :: nat) = (let n = of_char c in if 65 \<le> n \<and> n \<le> 90 \<or> 192 \<le> n \<and> n \<le> 222 \<and> n \<noteq> 215 then n + 32 else n)"
    using n by (auto simp: js_lower_char_def Let_def of_char_of)
  have e: "d = CHR 0x5C \<longleftrightarrow> (of_char d :: nat) = 92" "d = CHR ''%'' \<longleftrightarrow> (of_char d :: nat) = 37" "d = CHR ''_'' \<longleftrightarrow> (of_char d :: nat) = 95" for d
    by (simp_all flip: of_char_eq_iff [where 'a = nat])
  show ?thesis unfolding insert_iff empty_iff e l Let_def by auto
qed

lemma lower_escape: "js_lower (escape_like v) = escape_like (js_lower v)"
proof -
  have "js_lower_char c = c" if "c \<in> {CHR 0x5C, CHR ''%'', CHR ''_''}" for c
    using that by (auto simp: js_lower_char_def)
  then have "js_lower (escape_like [c]) = escape_like [js_lower_char c]" for c
    using lower_special [of c] by (simp add: escape_like_def js_lower_def js_lower_char_def)
  note one = this
  have split: "escape_like (c # v) = escape_like [c] @ escape_like v" for c v by (simp add: escape_like_def)
  have app: "js_lower (a @ b) = js_lower a @ js_lower b" "js_lower (c # v) = js_lower_char c # js_lower v" for a b c v
    by (simp_all add: js_lower_def)
  show ?thesis
  proof (induction v)
    case (Cons c v)
    show ?case unfolding split [of c v] app one Cons.IH split [of "js_lower_char c" "js_lower v"] ..
  qed (simp add: escape_like_def js_lower_def)
qed

text \<open>A \<open>contains\<close> condition finds what it says: whatever characters the text has, the pattern bound for it matches
  exactly the columns that have the text in them, letter case aside; a percent sign, an underscore or a backslash in
  the text stands for itself.\<close>

theorem contains_matches:
  "snd (condition_sql q ctx n \<lparr>cd_field = f, cd_op = ''contains'', cd_value = JStr v\<rparr>) = [Bound_text (''%'' @ escape_like v @ ''%'')] \<and>
   (sql_ilike (''%'' @ escape_like v @ ''%'') s \<longleftrightarrow> (\<exists>a b. js_lower s = a @ js_lower v @ b))"
proof -
  have "js_lower ''%'' = ''%''" "js_lower (a @ b) = js_lower a @ js_lower b" for a b by (simp_all add: js_lower_def js_lower_char_def)
  then have "js_lower (''%'' @ escape_like v @ ''%'') = ''%'' @ escape_like (js_lower v) @ ''%''" by (simp only: lower_escape)
  then have "sql_ilike (''%'' @ escape_like v @ ''%'') s \<longleftrightarrow> sql_like (CHR ''%'' # escape_like (js_lower v) @ ''%'') (js_lower s)"
    by (simp only: sql_ilike_def append_Cons append_Nil)
  also have "\<dots> \<longleftrightarrow> (\<exists>a b. js_lower s = a @ b \<and> (\<exists>t. b = js_lower v @ t \<and> sql_like ''%'' t))"
    by (simp only: like_percent [of "escape_like (js_lower v) @ ''%''"] like_escaped)
  also have "\<dots> \<longleftrightarrow> (\<exists>a b. js_lower s = a @ js_lower v @ b)" by (simp only: like_percent_end) blast
  finally show ?thesis by (simp add: condition_sql_def Let_def)
qed

text \<open>A boolean condition takes any value: the text \<open>false\<close> asks for true.\<close>

theorem boolean_text_is_true:
  "translate_conditions q ctx 0 \<lparr>cs_conditions = Some [\<lparr>cd_field = ''sla_response_breached'', cd_op = ''eq'', cd_value = JStr ''false''\<rparr>], cs_match = JUndef\<rparr> =
     Inr ([Sql ''('', Sql ([CHR 0x22] @ ''sla_response_breached'' @ [CHR 0x22] @ '' = ''), Placeholder 1, Sql '')''], [Bound_bool True])"
  by (simp add: translate_conditions_def validate_conditions_def condition_problems_def query_fields_def Let_def enumerate_simps needs_value_def is_list_op_def
      scalar_problems_def is_uuid_kind_def condition_sql_def max_conditions_def)

subsection \<open>What routing promises\<close>

text \<open>An account's tickets go where its rules say: after the rules are replaced, a type and category is routed to the
  group of the rule that names the category, when that group is active, otherwise to the group of the rule for
  the whole type, when that one is; there is one rule at most for each, and the rules of other accounts are as
  they were.\<close>

theorem routing_follows_rules:
  assumes "replace_routing mine account requests rules = Inr rules'"
  shows "account \<in> set mine \<and> filter (\<lambda>r. rr_account r \<noteq> account) rules' = filter (\<lambda>r. rr_account r \<noteq> account) rules \<and>
    distinct (map (\<lambda>r. (rr_type r, rr_category r)) (filter (\<lambda>r. rr_account r = account) rules')) \<and>
    (\<forall>ty c g. route_ticket rules' active account ty c = Some g \<longleftrightarrow>
       active g \<and> ((c \<noteq> None \<and> \<lparr>rr_account = account, rr_type = ty, rr_category = c, rr_group = g\<rparr> \<in> set rules') \<or>
         \<lparr>rr_account = account, rr_type = ty, rr_category = None, rr_group = g\<rparr> \<in> set rules' \<and>
         (\<forall>h. c \<noteq> None \<and> active h \<longrightarrow> \<lparr>rr_account = account, rr_type = ty, rr_category = c, rr_group = h\<rparr> \<notin> set rules')))"
proof -
  define added where "added = map (rule_of_request account) requests"
  have r: "account \<in> set mine" "distinct (map (\<lambda>r. (rr_type r, rr_category r)) added)" "rules' = filter (\<lambda>r. rr_account r \<noteq> account) rules @ added"
    using assms by (auto simp: replace_routing_def and_then_Inr added_def)
  have mine: "\<forall>r\<in>set added. rr_account r = account" by (auto simp: added_def rule_of_request_def)
  then have own: "filter (\<lambda>r. rr_account r = account) rules' = added" "filter (\<lambda>r. rr_account r \<noteq> account) rules' = filter (\<lambda>r. rr_account r \<noteq> account) rules"
    by (auto simp: r(3) filter_empty_conv)
  have here: "\<lparr>rr_account = account, rr_type = ty, rr_category = c, rr_group = g\<rparr> \<in> set rules' \<longleftrightarrow>
      \<lparr>rr_account = account, rr_type = ty, rr_category = c, rr_group = g\<rparr> \<in> set added" for ty c g
    by (auto simp: r(3))
  have one: "a = b" if "a \<in> set added" "b \<in> set added" "rr_type a = rr_type b" "rr_category a = rr_category b" for a b
    using r(2) that by (auto dest: inj_onD simp: distinct_map)
  have route: "route_ticket rules' active account ty c = Some g \<longleftrightarrow>
     active g \<and> ((c \<noteq> None \<and> \<lparr>rr_account = account, rr_type = ty, rr_category = c, rr_group = g\<rparr> \<in> set added) \<or>
         \<lparr>rr_account = account, rr_type = ty, rr_category = None, rr_group = g\<rparr> \<in> set added \<and>
         (\<forall>h. c \<noteq> None \<and> active h \<longrightarrow> \<lparr>rr_account = account, rr_type = ty, rr_category = c, rr_group = h\<rparr> \<notin> set added))" for ty c g
  proof -
    define rs where "rs = filter (\<lambda>r. active (rr_group r) \<and> rr_account r = account \<and> rr_type r = ty \<and>
      (rr_category r = None \<or> c \<noteq> None \<and> rr_category r = c)) rules'"
    have rs: "r \<in> set rs \<longleftrightarrow> r \<in> set added \<and> active (rr_group r) \<and> rr_type r = ty \<and> (rr_category r = None \<or> c \<noteq> None \<and> rr_category r = c)" for r
      using mine by (auto simp: rs_def r(3))
    have rec: "r = \<lparr>rr_account = account, rr_type = ty, rr_category = d, rr_group = g\<rparr> \<longleftrightarrow> rr_account r = account \<and> rr_type r = ty \<and> rr_category r = d \<and> rr_group r = g" for r d g
      by (cases r) auto
    let ?named = "filter (\<lambda>r. rr_category r \<noteq> None) rs" and ?whole = "filter (\<lambda>r. rr_category r = None) rs"
    have goal: "route_ticket rules' active account ty c = (case ?named @ ?whole of [] \<Rightarrow> None | r # _ \<Rightarrow> Some (rr_group r))"
      by (simp add: route_ticket_def Let_def rs_def)
    have in_added: "\<lparr>rr_account = account, rr_type = ty, rr_category = d, rr_group = h\<rparr> \<in> set added \<longleftrightarrow>
        (\<exists>r\<in>set added. rr_type r = ty \<and> rr_category r = d \<and> rr_group r = h)" for d h
      using mine rec by metis
    show ?thesis
    proof (cases ?named)
      case (Cons r rest)
      then have "r \<in> set ?named" by simp
      then have r: "r \<in> set added" "active (rr_group r)" "rr_type r = ty" "rr_category r = c" "c \<noteq> None" by (auto simp: rs)
      have "route_ticket rules' active account ty c = Some (rr_group r)" by (simp only: goal Cons append_Cons list.case)
      moreover have "q = r" if "q \<in> set added" "rr_type q = ty" "rr_category q = c" for q
        using one [OF that(1) r(1)] that(2,3) r(3,4) by simp
      then have "(\<exists>q\<in>set added. rr_type q = ty \<and> rr_category q = c \<and> rr_group q = h) \<longleftrightarrow> h = rr_group r" for h using r(1,3,4) by metis
      ultimately show ?thesis using r(2,5) unfolding in_added by (metis option.inject)
    next
      case Nil
      have none: "\<not> (q \<in> set added \<and> active (rr_group q) \<and> rr_type q = ty \<and> rr_category q = c \<and> c \<noteq> None)" for q
      proof
        assume q: "q \<in> set added \<and> active (rr_group q) \<and> rr_type q = ty \<and> rr_category q = c \<and> c \<noteq> None"
        then have "q \<in> set rs" "rr_category q \<noteq> None" unfolding rs by simp_all
        then have "q \<in> set ?named" by simp
        then show False unfolding Nil by simp
      qed
      show ?thesis
      proof (cases ?whole)
        case (Cons r rest)
        then have "r \<in> set ?whole" by simp
        then have r: "r \<in> set added" "active (rr_group r)" "rr_type r = ty" "rr_category r = None" by (auto simp: rs)
        have "route_ticket rules' active account ty c = Some (rr_group r)" by (simp only: goal Nil Cons append_Nil list.case)
        moreover have "q = r" if "q \<in> set added" "rr_type q = ty" "rr_category q = None" for q
          using one [OF that(1) r(1)] that(2,3) r(3,4) by simp
        then have w: "(\<exists>q\<in>set added. rr_type q = ty \<and> rr_category q = None \<and> rr_group q = h) \<longleftrightarrow> h = rr_group r" for h using r(1,3,4) by metis
        moreover have "\<not> (active h \<and> c \<noteq> None \<and> (\<exists>q\<in>set added. rr_type q = ty \<and> rr_category q = c \<and> rr_group q = h))" for h
          using none by metis
        ultimately show ?thesis using r(2) unfolding in_added w by auto
      next
        case Nil2: Nil
        have "\<not> (q \<in> set added \<and> active (rr_group q) \<and> rr_type q = ty \<and> rr_category q = None)" for q
        proof
          assume q: "q \<in> set added \<and> active (rr_group q) \<and> rr_type q = ty \<and> rr_category q = None"
          then have "q \<in> set rs" unfolding rs by simp
          with q have "q \<in> set ?whole" by simp
          then show False unfolding Nil2 by simp
        qed
        moreover have "route_ticket rules' active account ty c = None" by (simp only: goal Nil Nil2 append_Nil list.case)
        ultimately show ?thesis using none unfolding in_added by auto
      qed
    qed
  qed
  from r(1) own r(2) route show ?thesis by (simp add: here)
qed

subsection \<open>Samples\<close>

definition sample_reading :: query_reading where
  "sample_reading = \<lparr>qy_num = (\<lambda>x. ''0''), qy_date = (\<lambda>s. None)\<rparr>"

definition sample_caller :: query_context where
  "sample_caller = \<lparr>qc_user = ''u1'', qc_groups = [''g1'']\<rparr>"

definition sample_query :: "string \<Rightarrow> condition_set" where
  "sample_query text =
     \<lparr>cs_conditions = Some [\<lparr>cd_field = ''state'', cd_op = ''in'', cd_value = JArr [JStr ''new'', JStr text]\<rparr>,
        \<lparr>cd_field = ''short_description'', cd_op = ''contains'', cd_value = JStr text\<rparr>,
        \<lparr>cd_field = ''group_id'', cd_op = ''is_mine'', cd_value = JUndef\<rparr>], cs_match = JUndef\<rparr>"

lemma sample_query_runs:
  "case translate_conditions sample_reading sample_caller 2 (sample_query ''x') or true --'') of
     Inl e \<Rightarrow> False | Inr (sql, vs) \<Rightarrow> bound_places sql = [3, 4, 5] \<and> length vs = 3"
  "case translate_conditions sample_reading sample_caller 2 (sample_query ''open'') of Inl e \<Rightarrow> False | Inr (sql, vs) \<Rightarrow> True"
  by code_simp+

theorem query_text_fixed_witness:
  "\<exists>sql vs vs'. translate_conditions sample_reading sample_caller 2 (sample_query ''x') or true --'') = Inr (sql, vs) \<and>
    translate_conditions sample_reading sample_caller 2 (sample_query ''open'') = Inr (sql, vs') \<and> length vs \<le> max_conditions"
proof -
  obtain sql vs where a: "translate_conditions sample_reading sample_caller 2 (sample_query ''x') or true --'') = Inr (sql, vs)"
    using sample_query_runs(1) by (auto split: sum.splits)
  obtain sql' vs' where b: "translate_conditions sample_reading sample_caller 2 (sample_query ''open'') = Inr (sql', vs')"
    using sample_query_runs(2) by (auto split: sum.splits)
  have "sql' = sql"
    by (rule query_text_fixed [OF a, THEN conjunct2, THEN conjunct2, THEN conjunct2, rule_format, OF b]) (simp_all add: sample_query_def)
  with a b query_text_fixed [OF a] show ?thesis by blast
qed

theorem routing_follows_rules_witness:
  "\<exists>rules'. replace_routing [''a''] ''a'' [\<lparr>rq_type = ''incident'', rq_category = Some '' vpn '', rq_group = ''net''\<rparr>, \<lparr>rq_type = ''incident'', rq_category = None, rq_group = ''desk''\<rparr>] [] = Inr rules' \<and>
    route_ticket rules' (\<lambda>g. True) ''a'' ''incident'' (Some ''vpn'') = Some ''net'' \<and>
    route_ticket rules' (\<lambda>g. g = ''desk'') ''a'' ''incident'' (Some ''vpn'') = Some ''desk''"
proof -
  let ?rules = "[\<lparr>rr_account = ''a'', rr_type = ''incident'', rr_category = Some ''vpn'', rr_group = ''net''\<rparr>, \<lparr>rr_account = ''a'', rr_type = ''incident'', rr_category = None, rr_group = ''desk''\<rparr>]"
  have run: "replace_routing [''a''] ''a'' [\<lparr>rq_type = ''incident'', rq_category = Some '' vpn '', rq_group = ''net''\<rparr>, \<lparr>rq_type = ''incident'', rq_category = None, rq_group = ''desk''\<rparr>] [] = Inr ?rules"
    by code_simp
  from routing_follows_rules [OF run] run show ?thesis by auto
qed

end
