(* ===== verification/Worker_Jobs.thy ===== *)
theory Worker_Jobs
  imports Sla_Engine Civil_Date Unit_Of_Work "HOL-Library.Multiset"
begin

section \<open>Scheduled jobs (src/worker/sla-jobs.ts, renewal-jobs.ts, container-jobs.ts, src/modules/contracts/engagements.module.ts)\<close>

text \<open>
  What three jobs do to the rows of one account in their transaction: the breach sweeper latches overdue clocks,
  the renewal job alerts the lead times of engagements that are due and moves their status, container detection
  flags tickets that have become projects. \<open>perAccount\<close> runs them over the live accounts. Engagements are
  created and patched by their service. Notifications are the recipients of one event, events the outbox rows.
\<close>

subsection \<open>The breach sweeper (sla-jobs.ts)\<close>

record sweep_row =
  sr_id :: nat
  sr_ticket :: string
  sr_clock :: clock

record sweep_store =
  sw_clocks :: "sweep_row list"
  sw_response :: "string list"
  sw_resolution :: "string list"
  sw_events :: "(string \<times> nat \<times> clock_kind \<times> ms) list"

definition sweep_predicate :: "ms \<Rightarrow> clock \<Rightarrow> bool" where
  "sweep_predicate now c \<longleftrightarrow> ck_met c = None \<and> ck_breached c = None \<and> ck_paused c = None \<and> ck_due c < now"

definition save_clock :: "nat \<Rightarrow> clock \<Rightarrow> sweep_store \<Rightarrow> sweep_store" where
  "save_clock i c st = st\<lparr>sw_clocks := map (\<lambda>r. if sr_id r = i then r\<lparr>sr_clock := c\<rparr> else r) (sw_clocks st)\<rparr>"

definition sweep_clock :: "ms \<Rightarrow> sweep_row \<Rightarrow> sweep_store \<Rightarrow> sweep_store" where
  "sweep_clock now r st =
     (case latch (sr_clock r) now of (c, latched) \<Rightarrow>
        if \<not> latched then st
        else let st1 = save_clock (sr_id r) c st;
                 st2 = (if ck_kind c = Response then st1\<lparr>sw_response := sr_ticket r # sw_response st1\<rparr>
                        else st1\<lparr>sw_resolution := sr_ticket r # sw_resolution st1\<rparr>)
             in st2\<lparr>sw_events := sw_events st2 @ [(sr_ticket r, sr_id r, ck_kind c, ck_due c)]\<rparr>)"

text \<open>The database's clock selects the batch, the process's clock latches it.\<close>

definition sla_sweep :: "nat \<Rightarrow> ms \<Rightarrow> ms \<Rightarrow> sweep_store \<Rightarrow> sweep_store" where
  "sla_sweep batch db_now now st =
     fold (sweep_clock now) (take batch (sort_key (\<lambda>r. ck_due (sr_clock r)) (filter (\<lambda>r. sweep_predicate db_now (sr_clock r)) (sw_clocks st)))) st"

subsection \<open>Engagements (engagements.module.ts)\<close>

datatype engagement_status = Eng_active | Eng_expiring | Eng_ended

record engagement_row =
  eg_account :: string
  eg_name :: string
  eg_owner :: "string option"
  eg_renewal :: "ymd option"
  eg_notice :: "int option"
  eg_status :: engagement_status
  eg_fired :: "int list"
  eg_version :: int

definition renewal_leads :: "int list" where "renewal_leads = [90, 60, 30]"

definition notice_boundary_key :: int where "notice_boundary_key = 0"

definition days_between :: "ymd \<Rightarrow> ymd \<Rightarrow> int" where
  "days_between from till = js_round (of_int (midnight till - midnight from) / 86400000)"

definition renewal_horizon :: int where
  "renewal_horizon = foldr max renewal_leads 0"

definition status_for :: "ymd option \<Rightarrow> ymd \<Rightarrow> engagement_status" where
  "status_for date today =
     (case date of None \<Rightarrow> Eng_active
      | Some d \<Rightarrow> let days = days_between today d in if days < 0 then Eng_ended else if days \<le> renewal_horizon then Eng_expiring else Eng_active)"

definition alerts_due :: "engagement_row \<Rightarrow> ymd \<Rightarrow> int list" where
  "alerts_due e today =
     (case eg_renewal e of None \<Rightarrow> []
      | Some d \<Rightarrow>
          let days = days_between today d in
          if days < 0 then []
          else rev (sort (filter (\<lambda>lead. days \<le> lead \<and> lead \<notin> set (eg_fired e)) renewal_leads @
            (case eg_notice e of None \<Rightarrow> [] | Some n \<Rightarrow> if days \<le> n \<and> notice_boundary_key \<notin> set (eg_fired e) then [notice_boundary_key] else []))))"

record engagement_patch =
  ep_version :: int
  ep_name :: "string option"
  ep_owner :: "string option option"
  ep_renewal :: "ymd option option"
  ep_notice :: "int option option"
  ep_status :: "engagement_status option"

datatype engagement_fault = Renewal_date_required | Engagement_not_found | Engagement_stale

definition assert_notice :: "int option \<Rightarrow> ymd option \<Rightarrow> engagement_fault + unit" where
  "assert_notice n d = guard_or (\<not> (n \<noteq> None \<and> d = None)) Renewal_date_required"

definition create_engagement :: "string \<Rightarrow> string \<Rightarrow> string \<Rightarrow> string option \<Rightarrow> ymd option \<Rightarrow> int option \<Rightarrow> ymd \<Rightarrow>
    engagement_row list \<Rightarrow> engagement_fault + engagement_row list" where
  "create_engagement user account name owner date days today es =
     and_then (assert_notice days date) (\<lambda>_.
     Inr (es @ [\<lparr>eg_account = account, eg_name = name, eg_owner = Some (case owner of None \<Rightarrow> user | Some u \<Rightarrow> u), eg_renewal = date,
       eg_notice = days, eg_status = status_for date today, eg_fired = [], eg_version = 1\<rparr>]))"

definition patched_engagement :: "engagement_patch \<Rightarrow> ymd \<Rightarrow> engagement_row \<Rightarrow> engagement_row" where
  "patched_engagement p today e =
     (let date = (case ep_renewal p of None \<Rightarrow> eg_renewal e | Some d \<Rightarrow> d) in
      e\<lparr>eg_name := (case ep_name p of None \<Rightarrow> eg_name e | Some n \<Rightarrow> n), eg_owner := (case ep_owner p of None \<Rightarrow> eg_owner e | Some u \<Rightarrow> u),
        eg_renewal := date, eg_notice := (case ep_notice p of None \<Rightarrow> eg_notice e | Some n \<Rightarrow> n),
        eg_status := (case ep_status p of Some s \<Rightarrow> s | None \<Rightarrow> if date = eg_renewal e then eg_status e else status_for date today),
        eg_fired := (if date \<noteq> eg_renewal e then [] else eg_fired e), eg_version := eg_version e + 1\<rparr>)"

text \<open>An engagement is named by its position.\<close>

definition patch_engagement :: "string \<Rightarrow> nat \<Rightarrow> engagement_patch \<Rightarrow> ymd \<Rightarrow> engagement_row list \<Rightarrow> engagement_fault + engagement_row list" where
  "patch_engagement account n p today es =
     and_then (guard_or (n < length es \<and> eg_account (es ! n) = account) Engagement_not_found) (\<lambda>_.
     let e = es ! n; e' = patched_engagement p today e in
     and_then (assert_notice (eg_notice e') (eg_renewal e')) (\<lambda>_.
     and_then (guard_or (ep_version p = eg_version e) Engagement_stale) (\<lambda>_.
     Inr (es[n := e']))))"

subsection \<open>The renewal job (renewal-jobs.ts)\<close>

record renewal_event =
  rv_engagement :: nat
  rv_date :: "ymd option"
  rv_lead :: int
  rv_day :: ymd
  rv_told :: "string list"

record renewal_store =
  rw_engagements :: "engagement_row list"
  rw_events :: "renewal_event list"

text \<open>The rows the job reads: with a date within the widest lead time, and not ended; the earliest dates first.\<close>

definition due_for_review :: "nat \<Rightarrow> ymd \<Rightarrow> engagement_row list \<Rightarrow> nat list" where
  "due_for_review batch today es =
     take batch (sort_key (\<lambda>n. case eg_renewal (es ! n) of None \<Rightarrow> 0 | Some d \<Rightarrow> midnight d)
       (filter (\<lambda>n. case eg_renewal (es ! n) of None \<Rightarrow> False
          | Some d \<Rightarrow> eg_status (es ! n) \<noteq> Eng_ended \<and> midnight d \<le> midnight today + renewal_horizon * 86400000) [0..<length es]))"

definition review_engagement :: "string list \<Rightarrow> ymd \<Rightarrow> nat \<Rightarrow> renewal_store \<Rightarrow> renewal_store" where
  "review_engagement managers today n st =
     (let e = rw_engagements st ! n; due = alerts_due e today; status = status_for (eg_renewal e) today in
      if due = [] \<and> status = eg_status e then st
      else st\<lparr>rw_engagements := (rw_engagements st)[n := e\<lparr>eg_fired := eg_fired e @ due, eg_status := status, eg_version := eg_version e + 1\<rparr>],
              rw_events := rw_events st @ map (\<lambda>l. \<lparr>rv_engagement = n, rv_date = eg_renewal e, rv_lead = l, rv_day = today,
                rv_told = uniq (managers @ (case eg_owner e of None \<Rightarrow> [] | Some u \<Rightarrow> [u]))\<rparr>) due\<rparr>)"

text \<open>The database's date selects the rows, the process's date decides.\<close>

definition alert_due_renewals :: "string list \<Rightarrow> nat \<Rightarrow> ymd \<Rightarrow> ymd \<Rightarrow> renewal_store \<Rightarrow> renewal_store" where
  "alert_due_renewals managers batch db_today today st =
     fold (review_engagement managers today) (due_for_review batch db_today (rw_engagements st)) st"

subsection \<open>Container detection (container-jobs.ts)\<close>

record container_thresholds =
  ct_entries :: "int option"
  ct_days :: "int option"
  ct_minutes :: "int option"

record container_ticket =
  cx_id :: string
  cx_state :: string
  cx_resolved :: bool
  cx_scope :: string
  cx_detected :: "ms option"
  cx_created :: ms
  cx_entries :: int
  cx_minutes :: int
  cx_version :: int

definition elapsed_days :: "ms \<Rightarrow> container_ticket \<Rightarrow> int" where
  "elapsed_days now t = (now - cx_created t) div 86400000"

definition crossed_thresholds :: "container_thresholds \<Rightarrow> ms \<Rightarrow> container_ticket \<Rightarrow> nat list" where
  "crossed_thresholds th now t =
     (case ct_entries th of None \<Rightarrow> [] | Some n \<Rightarrow> if n \<le> cx_entries t then [0] else []) @
     (case ct_days th of None \<Rightarrow> [] | Some n \<Rightarrow> if n \<le> elapsed_days now t then [1] else []) @
     (case ct_minutes th of None \<Rightarrow> [] | Some n \<Rightarrow> if n \<le> cx_minutes t then [2] else [])"

definition is_container :: "container_thresholds \<Rightarrow> ms \<Rightarrow> container_ticket \<Rightarrow> bool" where
  "is_container th now t \<longleftrightarrow> cx_detected t = None \<and> cx_state t \<notin> {''closed'', ''cancelled''} \<and> \<not> cx_resolved t \<and> cx_scope t = ''none'' \<and>
     crossed_thresholds th now t \<noteq> []"

definition raise_container :: "ms \<Rightarrow> container_ticket \<Rightarrow> container_ticket" where
  "raise_container now t = t\<lparr>cx_scope := ''flagged'', cx_detected := Some now, cx_version := cx_version t + 1\<rparr>"

text \<open>The tickets after a sweep and the ids it flagged; an account without a threshold is left alone.\<close>

definition detect_containers :: "container_thresholds \<Rightarrow> nat \<Rightarrow> ms \<Rightarrow> container_ticket list \<Rightarrow> container_ticket list \<times> string list" where
  "detect_containers th batch now ts =
     (let chosen = map cx_id (take batch (sort_key cx_created (filter (is_container th now) ts)))
      in (map (\<lambda>t. if cx_id t \<in> set chosen then raise_container now t else t) ts, chosen))"

subsection \<open>Sweeps of clocks\<close>

lemma sweep_clock_latches:
  "snd (latch (sr_clock r) now) \<Longrightarrow> sweep_clock now r st =
     st\<lparr>sw_clocks := map (\<lambda>q. if sr_id q = sr_id r then q\<lparr>sr_clock := (sr_clock r)\<lparr>ck_breached := Some now\<rparr>\<rparr> else q) (sw_clocks st),
        sw_response := (if ck_kind (sr_clock r) = Response then sr_ticket r # sw_response st else sw_response st),
        sw_resolution := (if ck_kind (sr_clock r) = Response then sw_resolution st else sr_ticket r # sw_resolution st),
        sw_events := sw_events st @ [(sr_ticket r, sr_id r, ck_kind (sr_clock r), ck_due (sr_clock r))]\<rparr>"
  by (simp add: sweep_clock_def save_clock_def latch_def split: if_splits)

abbreviation latched_row :: "ms \<Rightarrow> sweep_row \<Rightarrow> sweep_row" where
  "latched_row now r \<equiv> r\<lparr>sr_clock := (sr_clock r)\<lparr>ck_breached := Some now\<rparr>\<rparr>"

lemma sweep_clock_rows:
  assumes l: "snd (latch (sr_clock r) now)" and d: "distinct (map sr_id (sw_clocks st))" and r: "r \<in> set (sw_clocks st)"
  shows "sw_clocks (sweep_clock now r st) = map (\<lambda>q. if q = r then latched_row now q else q) (sw_clocks st)"
proof -
  have "sr_id q = sr_id r \<longleftrightarrow> q = r" if "q \<in> set (sw_clocks st)" for q
    using d r that by (metis distinct_map inj_onD)
  then show ?thesis by (simp add: sweep_clock_latches [OF l] cong: map_cong)
qed

lemma save_clock_ids: "map sr_id (sw_clocks (save_clock i c st)) = map sr_id (sw_clocks st)"
  by (simp add: save_clock_def comp_def)

lemma sweep_clock_ids [simp]:
  "map sr_id (sw_clocks (sweep_clock now r st)) = map sr_id (sw_clocks st)"
  by (cases "latch (sr_clock r) now") (simp add: sweep_clock_def Let_def save_clock_ids)

lemma sweep_rows:
  assumes "\<forall>r\<in>set rs. snd (latch (sr_clock r) now)" "distinct (map sr_id rs)" "distinct (map sr_id (sw_clocks st))"
    "\<forall>r\<in>set rs. r \<in> set (sw_clocks st)"
  shows "sw_clocks (fold (sweep_clock now) rs st) = map (\<lambda>q. if q \<in> set rs then latched_row now q else q) (sw_clocks st)"
  using assms
proof (induction rs arbitrary: st)
  case (Cons r rs)
  let ?st = "sweep_clock now r st"
  have clocks: "sw_clocks ?st = map (\<lambda>q. if q = r then latched_row now q else q) (sw_clocks st)"
    using Cons.prems by (intro sweep_clock_rows) simp_all
  have new: "r \<notin> set rs" using Cons.prems(2) by auto
  have there: "\<forall>q\<in>set rs. q \<in> set (sw_clocks ?st)"
    using Cons.prems(4) new by (force simp: clocks)
  have gone: "latched_row now r \<notin> set rs"
    using Cons.prems(2) by (force simp: image_iff)
  have "sw_clocks (fold (sweep_clock now) (r # rs) st) = map (\<lambda>q. if q \<in> set rs then latched_row now q else q) (sw_clocks ?st)"
    using Cons.IH [of ?st] Cons.prems(1,2,3) there by simp
  also have "\<dots> = map (\<lambda>q. if q \<in> set (r # rs) then latched_row now q else q) (sw_clocks st)"
    unfolding clocks map_map by (rule map_cong) (use gone new in simp_all)
  finally show ?case .
qed simp

lemma sweep_logs:
  assumes "\<forall>r\<in>set rs. snd (latch (sr_clock r) now)"
  shows "sw_events (fold (sweep_clock now) rs st) = sw_events st @ map (\<lambda>r. (sr_ticket r, sr_id r, ck_kind (sr_clock r), ck_due (sr_clock r))) rs"
  using assms by (induction rs arbitrary: st) (simp_all add: sweep_clock_latches)

subsection \<open>What the sweeper does to the clocks\<close>

lemma sweep_predicate_latches:
  "sweep_predicate db c \<Longrightarrow> db \<le> now \<Longrightarrow> snd (latch c now)"
  by (simp add: sweep_predicate_def latch_iff is_live_def)

lemma sweep_batch:
  assumes "length (sw_clocks st) \<le> batch"
  shows "sla_sweep batch db now st =
    fold (sweep_clock now) (sort_key (\<lambda>r. ck_due (sr_clock r)) (filter (\<lambda>r. sweep_predicate db (sr_clock r)) (sw_clocks st))) st"
proof -
  have "length (filter (\<lambda>r. sweep_predicate db (sr_clock r)) (sw_clocks st)) \<le> batch"
    by (rule le_trans [OF length_filter_le assms])
  then show ?thesis by (simp add: sla_sweep_def)
qed

text \<open>
  C1: a sweep whose batch holds the account's clocks latches exactly the live, unpaused clocks that are past due, at
  its own time, leaves every other clock as it was, writes one event per latched clock, and a sweep run again
  for the same moment changes nothing: a breach is recorded and announced once.
\<close>

theorem sweep_latches_once:
  assumes ids: "distinct (map sr_id (sw_clocks st))" and batch: "length (sw_clocks st) \<le> batch" and late: "db \<le> now"
  shows "sw_clocks (sla_sweep batch db now st) =
      map (\<lambda>r. if sweep_predicate db (sr_clock r) then r\<lparr>sr_clock := (sr_clock r)\<lparr>ck_breached := Some now\<rparr>\<rparr> else r) (sw_clocks st)"
    and "mset (sw_events (sla_sweep batch db now st)) = mset (sw_events st) +
      mset (map (\<lambda>r. (sr_ticket r, sr_id r, ck_kind (sr_clock r), ck_due (sr_clock r))) (filter (\<lambda>r. sweep_predicate db (sr_clock r)) (sw_clocks st)))"
    and "sla_sweep n db later (sla_sweep batch db now st) = sla_sweep batch db now st"
proof -
  let ?rs = "sort_key (\<lambda>r. ck_due (sr_clock r)) (filter (\<lambda>r. sweep_predicate db (sr_clock r)) (sw_clocks st))"
  have dist: "distinct (map sr_id ?rs)"
    using ids by (simp add: distinct_map inj_on_def) 
  have all: "\<forall>r\<in>set ?rs. snd (latch (sr_clock r) now)" using sweep_predicate_latches [OF _ late] by simp
  show rows: "sw_clocks (sla_sweep batch db now st) =
      map (\<lambda>r. if sweep_predicate db (sr_clock r) then r\<lparr>sr_clock := (sr_clock r)\<lparr>ck_breached := Some now\<rparr>\<rparr> else r) (sw_clocks st)"
    unfolding sweep_batch [OF batch] sweep_rows [OF all dist ids, simplified] by simp
  show "mset (sw_events (sla_sweep batch db now st)) = mset (sw_events st) +
      mset (map (\<lambda>r. (sr_ticket r, sr_id r, ck_kind (sr_clock r), ck_due (sr_clock r))) (filter (\<lambda>r. sweep_predicate db (sr_clock r)) (sw_clocks st)))"
    unfolding sweep_batch [OF batch] sweep_logs [OF all] by simp
  have "filter (\<lambda>r. sweep_predicate db (sr_clock r)) (sw_clocks (sla_sweep batch db now st)) = []"
    by (auto simp: rows filter_empty_conv sweep_predicate_def)
  then show "sla_sweep n db later (sla_sweep batch db now st) = sla_sweep batch db now st"
    by (simp add: sla_sweep_def [of n])
qed

subsection \<open>What the renewal job does to an engagement\<close>

text \<open>
  C1: reviewing an engagement announces only lead times it had not announced before, each for its renewal date, marks
  them, and sets the status the date gives; reviewed again on the same day it is left as it is, so no lead time
  is announced twice for one renewal date.
\<close>

theorem renewals_alert_once:
  assumes n: "n < length (rw_engagements st)"
  shows "alerts_due (rw_engagements (review_engagement ms today n st) ! n) today = []"
    and "eg_status (rw_engagements (review_engagement ms today n st) ! n) = status_for (eg_renewal (rw_engagements st ! n)) today"
    and "review_engagement ms' today n (review_engagement ms today n st) = review_engagement ms today n st"
    and "\<exists>new. rw_events (review_engagement ms today n st) = rw_events st @ new \<and>
      map rv_lead new = alerts_due (rw_engagements st ! n) today \<and>
      set (map rv_lead new) \<inter> set (eg_fired (rw_engagements st ! n)) = {} \<and>
      eg_fired (rw_engagements (review_engagement ms today n st) ! n) = eg_fired (rw_engagements st ! n) @ map rv_lead new"
proof -
  let ?e = "rw_engagements st ! n" and ?st = "review_engagement ms today n st"
  have fresh: "set (alerts_due ?e today) \<inter> set (eg_fired ?e) = {}"
    by (auto simp: alerts_due_def Let_def split: option.splits if_splits)
  have e: "eg_renewal (rw_engagements ?st ! n) = eg_renewal ?e" "eg_fired (rw_engagements ?st ! n) = eg_fired ?e @ alerts_due ?e today"
      "eg_notice (rw_engagements ?st ! n) = eg_notice ?e"
    using n by (auto simp: review_engagement_def Let_def)
  show none: "alerts_due (rw_engagements ?st ! n) today = []"
    unfolding alerts_due_def [of "rw_engagements ?st ! n"] e
    by (cases "eg_renewal ?e") (auto simp: alerts_due_def Let_def filter_empty_conv split: option.splits)
  show status: "eg_status (rw_engagements ?st ! n) = status_for (eg_renewal ?e) today"
    using n by (auto simp: review_engagement_def Let_def)
  show "review_engagement ms' today n ?st = ?st"
    by (subst review_engagement_def) (simp add: Let_def none status e)
  show "\<exists>new. rw_events ?st = rw_events st @ new \<and> map rv_lead new = alerts_due ?e today \<and> set (map rv_lead new) \<inter> set (eg_fired ?e) = {} \<and>
      eg_fired (rw_engagements ?st ! n) = eg_fired ?e @ map rv_lead new"
  proof (intro exI conjI)
    let ?new = "map (\<lambda>l. \<lparr>rv_engagement = n, rv_date = eg_renewal ?e, rv_lead = l, rv_day = today,
                rv_told = uniq (ms @ (case eg_owner ?e of None \<Rightarrow> [] | Some u \<Rightarrow> [u]))\<rparr>) (alerts_due ?e today)"
    show "rw_events ?st = rw_events st @ ?new" by (auto simp: review_engagement_def Let_def)
    show leads: "map rv_lead ?new = alerts_due ?e today" by (simp add: comp_def)
    show "set (map rv_lead ?new) \<inter> set (eg_fired ?e) = {}" using fresh unfolding leads .
    show "eg_fired (rw_engagements ?st ! n) = eg_fired ?e @ map rv_lead ?new" by (simp add: e comp_def)
  qed
qed

definition sample_engagement :: engagement_row where
  "sample_engagement = \<lparr>eg_account = ''a'', eg_name = ''retainer'', eg_owner = Some ''u'', eg_renewal = Some (Ymd 2026 12 31),
     eg_notice = Some 180, eg_status = Eng_active, eg_fired = [], eg_version = 1\<rparr>"

definition sample_renewals :: renewal_store where
  "sample_renewals = \<lparr>rw_engagements = [sample_engagement], rw_events = []\<rparr>"

theorem renewals_alert_once_witness:
  "alerts_due (rw_engagements (review_engagement [''m''] (Ymd 2026 12 1) 0 sample_renewals) ! 0) (Ymd 2026 12 1) = [] \<and>
   map rv_lead (rw_events (review_engagement [''m''] (Ymd 2026 12 1) 0 sample_renewals)) = [90, 60, 30, 0]"
proof
  have n: "0 < length (rw_engagements sample_renewals)" by (simp add: sample_renewals_def)
  show "alerts_due (rw_engagements (review_engagement [''m''] (Ymd 2026 12 1) 0 sample_renewals) ! 0) (Ymd 2026 12 1) = []"
    by (rule renewals_alert_once(1) [OF n])
  show "map rv_lead (rw_events (review_engagement [''m''] (Ymd 2026 12 1) 0 sample_renewals)) = [90, 60, 30, 0]" by code_simp
qed

text \<open>
  The boundary of a notice period longer than the widest lead time is due and is not alerted: an engagement with
  180 days' notice that renews on 31 December 2026 has reached its boundary on 10 July, the job does not read
  the row until 2 October, 90 days before, when the notice is 90 days late.
\<close>

theorem notice_alert_late:
  "alerts_due sample_engagement (Ymd 2026 7 10) = [notice_boundary_key] \<and>
   alert_due_renewals managers batch (Ymd 2026 7 10) (Ymd 2026 7 10) sample_renewals = sample_renewals \<and>
   alert_due_renewals managers batch (Ymd 2026 10 1) (Ymd 2026 10 1) sample_renewals = sample_renewals \<and>
   rw_events (alert_due_renewals [] 10 (Ymd 2026 10 2) (Ymd 2026 10 2) sample_renewals) \<noteq> []"
proof -
  have none: "filter (\<lambda>n. case eg_renewal ([sample_engagement] ! n) of None \<Rightarrow> False
      | Some d \<Rightarrow> eg_status ([sample_engagement] ! n) \<noteq> Eng_ended \<and> midnight d \<le> midnight t + renewal_horizon * 86400000) [0..<1] = []"
    if "midnight t < midnight (Ymd 2026 12 31) - renewal_horizon * 86400000" for t
    using that by (simp add: sample_engagement_def)
  have "midnight (Ymd 2026 7 10) < midnight (Ymd 2026 12 31) - renewal_horizon * 86400000"
       "midnight (Ymd 2026 10 1) < midnight (Ymd 2026 12 31) - renewal_horizon * 86400000" by code_simp+
  note none [OF this(1)] none [OF this(2)]
  then show ?thesis
    by (intro conjI) (code_simp, simp_all add: alert_due_renewals_def due_for_review_def sample_renewals_def, code_simp)
qed

subsection \<open>What container detection does\<close>

text \<open>
  C1: with a batch that holds the account's tickets, container detection flags exactly the tickets that qualify, a flagged
  ticket never qualifies again at any later time and under any thresholds, and a ticket that has a scope answer,
  is resolved, closed or cancelled is left as it is.
\<close>

theorem containers_flagged_once:
  assumes ids: "distinct (map cx_id ts)" and batch: "length ts \<le> batch"
  shows "set (snd (detect_containers th batch now ts)) = cx_id ` {t \<in> set ts. is_container th now t}"
    and "fst (detect_containers th batch now ts) = map (\<lambda>t. if is_container th now t then raise_container now t else t) ts"
    and "\<not> is_container th' later (raise_container now t)"
    and "cx_resolved t \<or> cx_state t \<in> {''closed'', ''cancelled''} \<or> cx_scope t \<noteq> ''none'' \<Longrightarrow> \<not> is_container th now t"
proof -
  have "length (filter (is_container th now) ts) \<le> batch" by (rule le_trans [OF length_filter_le batch])
  then show chosen: "set (snd (detect_containers th batch now ts)) = cx_id ` {t \<in> set ts. is_container th now t}"
    by (simp add: detect_containers_def)
  have "cx_id t \<in> cx_id ` {t \<in> set ts. is_container th now t} \<longleftrightarrow> is_container th now t" if "t \<in> set ts" for t
    using ids that by (auto simp: distinct_map dest: inj_onD)
  then show "fst (detect_containers th batch now ts) = map (\<lambda>t. if is_container th now t then raise_container now t else t) ts"
    using chosen by (simp add: detect_containers_def Let_def)
qed (auto simp: is_container_def raise_container_def)

theorem containers_flagged_once_witness:
  "\<not> is_container \<lparr>ct_entries = Some 1, ct_days = None, ct_minutes = None\<rparr> 5 (raise_container 4
     \<lparr>cx_id = ''t'', cx_state = ''new'', cx_resolved = False, cx_scope = ''none'', cx_detected = None, cx_created = 0,
      cx_entries = 3, cx_minutes = 0, cx_version = 1\<rparr>)"
  by (rule containers_flagged_once(3) [of "[]" 0]) simp_all

subsection \<open>The sweeper at a concrete account\<close>

definition sample_clock :: "clock_kind \<Rightarrow> ms \<Rightarrow> clock" where
  "sample_clock k due = \<lparr>ck_kind = k, ck_policy_ref = ''p'', ck_calendar_id = ''c'', ck_target = 60, ck_started = 0, ck_due = due,
     ck_paused = None, ck_paused_total = 0, ck_met = None, ck_breached = None\<rparr>"

definition sample_sweep :: sweep_store where
  "sample_sweep = \<lparr>sw_clocks = [
     \<lparr>sr_id = 1, sr_ticket = ''t1'', sr_clock = sample_clock Response 1000\<rparr>,
     \<lparr>sr_id = 2, sr_ticket = ''t2'', sr_clock = sample_clock Resolution 9000\<rparr>],
     sw_response = [], sw_resolution = [], sw_events = []\<rparr>"

theorem sweep_latches_once_witness:
  "sla_sweep 5 2000 2100 (sla_sweep 10 2000 2001 sample_sweep) = sla_sweep 10 2000 2001 sample_sweep \<and>
   sw_response (sla_sweep 10 2000 2001 sample_sweep) = [''t1'']"
proof
  have ids: "distinct (map sr_id (sw_clocks sample_sweep))" and batch: "length (sw_clocks sample_sweep) \<le> 10"
    by (simp_all add: sample_sweep_def)
  show "sla_sweep 5 2000 2100 (sla_sweep 10 2000 2001 sample_sweep) = sla_sweep 10 2000 2001 sample_sweep"
    by (rule sweep_latches_once(3) [OF ids batch]) simp
  show "sw_response (sla_sweep 10 2000 2001 sample_sweep) = [''t1'']" by code_simp
qed

end
