(* ===== verification/Report_Packs.thy ===== *)
theory Report_Packs
  imports Report_Schedule
begin

section \<open>Report packs and their review (src/modules/reporting/schedules.module.ts)\<close>

text \<open>
  The schedules of accounts and the runs they make: a run is built, delivered or held for a reviewer, whose
  narrative is versioned, and who approves or cancels it. The rows are rolled back with their
  transaction; what the mail transport took and what the object store holds is not. The builder of a pack is a
  parameter (it reads the fact tables), so are the time zone of an account, its sender address and the transport.
  Notifications, audit and outbox rows and links are left out; a mail carries what its links show.
\<close>

subsection \<open>Rows\<close>

datatype narrative_source = Templated_source | Edited_source

type_synonym sections = "(string \<times> string) list"

record narrative_version =
  nv_number :: nat
  nv_text :: string
  nv_sections :: sections
  nv_author :: string
  nv_rendered :: bool

record pack_row =
  pk_from :: ymd
  pk_till :: ymd
  pk_source :: narrative_source
  pk_versions :: "narrative_version list"

datatype run_status = Run_generating | Run_ready | Run_awaiting | Run_approved | Run_sent | Run_failed | Run_skipped

datatype recipient_kind = Internal_recipient | Portal_recipient | Contact_recipient

record pack_recipient =
  rp_kind :: recipient_kind
  rp_id :: "string option"
  rp_email :: "string option"

datatype delivery_result = Notified | Emailed | Skipped_because string

record delivery_outcome =
  do_kind :: recipient_kind
  do_to :: string
  do_result :: delivery_result

record pack_schedule =
  sd_account :: string
  sd_name :: string
  sd_pack :: string
  sd_spec :: report_schedule
  sd_distribution :: "pack_recipient list"
  sd_review :: bool
  sd_grace :: int
  sd_enabled :: bool
  sd_next :: "ms option"
  sd_last :: "nat option"
  sd_version :: int

record run_row =
  rn_account :: string
  rn_schedule :: "nat option"
  rn_type :: string
  rn_from :: ymd
  rn_till :: ymd
  rn_status :: run_status
  rn_reviewer :: "string option"
  rn_due :: "ms option"
  rn_why :: "string option"
  rn_delivery :: "delivery_outcome list"
  rn_requested :: string
  rn_pack :: "pack_row option"

text \<open>Schedules and runs are named by their position.\<close>

record report_store =
  ro_schedules :: "pack_schedule list"
  ro_runs :: "run_row list"

record pack_mail =
  pm_to :: string
  pm_run :: nat
  pm_shows :: sections

record outside =
  ow_mails :: "pack_mail list"
  ow_files :: "nat \<Rightarrow> sections"

text \<open>How a build ends: with the templated narrative, with an error of the program, or with a statement the database
  refused, which ends the transaction.\<close>

datatype build_result = Built string sections | Build_throws | Statement_fails

record report_env =
  re_now :: ms
  re_num :: "string \<Rightarrow> int option"
  re_zone :: "string \<Rightarrow> zone"
  re_sender :: "string \<Rightarrow> string option"
  re_sends :: "string \<Rightarrow> bool"
  re_build :: "string \<Rightarrow> string \<Rightarrow> ymd \<times> ymd \<Rightarrow> build_result"

datatype report_fault =
    Report_not_found | Run_day_weekly | Report_stale | Invalid_report_range | No_run_instant | Build_failed | Statement_failed
  | Duplicate_section | Reason_required | Not_under_review run_status | Run_without_schedule | Run_without_pack
  | Requester_cannot_approve string

subsection \<open>Narratives\<close>

definition max_narrative_versions :: nat where "max_narrative_versions = 20"

definition trim_versions :: "narrative_version list \<Rightarrow> narrative_version list" where
  "trim_versions vs =
     (if length vs \<le> max_narrative_versions then vs
      else hd vs # drop (length vs - (max_narrative_versions - 1)) vs)"

definition narrative_text :: "sections \<Rightarrow> string" where
  "narrative_text ss = join_with [CHR 0x0A, CHR 0x0A] (filter (\<lambda>x. x \<noteq> []) (map (js_trim \<circ> snd) ss))"

definition current_narrative :: "pack_row \<Rightarrow> narrative_version" where
  "current_narrative p = last (pk_versions p)"

definition first_version :: "string \<Rightarrow> sections \<Rightarrow> narrative_version" where
  "first_version text ss = \<lparr>nv_number = 1, nv_text = text, nv_sections = ss, nv_author = ''template'', nv_rendered = True\<rparr>"

subsection \<open>Schedules\<close>

fun default_period :: "report_cadence \<Rightarrow> report_period" where
  "default_period Weekly_run = Previous_week"
| "default_period Monthly_run = Previous_month"
| "default_period Quarterly_run = Previous_quarter"

record schedule_request =
  sq_account :: string
  sq_name :: "string option"
  sq_pack :: "string option"
  sq_cadence :: "report_cadence option"
  sq_run_day :: "int option"
  sq_time :: "string option"
  sq_period :: "report_period option"
  sq_distribution :: "pack_recipient list option"
  sq_review :: "bool option"
  sq_grace :: "int option"
  sq_enabled :: "bool option"
  sq_version :: int

definition or_else :: "'a option \<Rightarrow> 'a \<Rightarrow> 'a" where
  "or_else x d = (case x of None \<Rightarrow> d | Some v \<Rightarrow> v)"

definition weekly_day_ok :: "report_schedule \<Rightarrow> bool" where
  "weekly_day_ok s \<longleftrightarrow> \<not> (rs_cadence s = Weekly_run \<and> 7 < rs_run_day s)"

text \<open>The next run of an enabled schedule; \<open>None\<close> in the sum is the error that there is none.\<close>

definition planned_run :: "report_env \<Rightarrow> string \<Rightarrow> report_schedule \<Rightarrow> bool \<Rightarrow> report_fault + ms option" where
  "planned_run e account spec enabled =
     (if \<not> enabled then Inr None
      else case next_run_at (re_num e) spec (re_now e) (re_zone e account) of None \<Rightarrow> Inl No_run_instant | Some t \<Rightarrow> Inr (Some t))"

definition create_schedule :: "report_env \<Rightarrow> string list \<Rightarrow> schedule_request \<Rightarrow> report_store \<Rightarrow> report_fault + report_store" where
  "create_schedule e accounts q st =
     and_then (guard_or (sq_account q \<in> set accounts) Report_not_found) (\<lambda>_.
     let cadence = the (sq_cadence q);
         spec = \<lparr>rs_cadence = cadence, rs_run_day = the (sq_run_day q), rs_time = or_else (sq_time q) ''06:00'',
           rs_period = or_else (sq_period q) (default_period cadence)\<rparr>;
         enabled = or_else (sq_enabled q) True in
     and_then (guard_or (weekly_day_ok spec) Run_day_weekly) (\<lambda>_.
     and_then (planned_run e (sq_account q) spec enabled) (\<lambda>next_run.
     Inr (st\<lparr>ro_schedules := ro_schedules st @ [\<lparr>sd_account = sq_account q, sd_name = the (sq_name q), sd_pack = or_else (sq_pack q) ''wsr'',
       sd_spec = spec, sd_distribution = or_else (sq_distribution q) [], sd_review = or_else (sq_review q) False,
       sd_grace = or_else (sq_grace q) 24, sd_enabled = enabled, sd_next = next_run, sd_last = None, sd_version = 1\<rparr>]\<rparr>))))"

definition patched_spec :: "schedule_request \<Rightarrow> report_schedule \<Rightarrow> report_schedule" where
  "patched_spec q s =
     \<lparr>rs_cadence = or_else (sq_cadence q) (rs_cadence s), rs_run_day = or_else (sq_run_day q) (rs_run_day s),
      rs_time = or_else (sq_time q) (take 5 (rs_time s)),
      rs_period = or_else (sq_period q)
        (case sq_cadence q of None \<Rightarrow> rs_period s | Some c \<Rightarrow> if c \<noteq> rs_cadence s then default_period c else rs_period s)\<rparr>"

definition patch_schedule :: "report_env \<Rightarrow> nat \<Rightarrow> schedule_request \<Rightarrow> report_store \<Rightarrow> report_fault + report_store" where
  "patch_schedule e k q st =
     and_then (guard_or (k < length (ro_schedules st)) Report_not_found) (\<lambda>_.
     let s = ro_schedules st ! k; spec = patched_spec q (sd_spec s); enabled = or_else (sq_enabled q) (sd_enabled s) in
     and_then (guard_or (weekly_day_ok spec) Run_day_weekly) (\<lambda>_.
     and_then (planned_run e (sd_account s) spec enabled) (\<lambda>next_run.
     and_then (guard_or (sq_version q = sd_version s) Report_stale) (\<lambda>_.
     Inr (st\<lparr>ro_schedules := (ro_schedules st)[k := s\<lparr>sd_name := or_else (sq_name q) (sd_name s), sd_pack := or_else (sq_pack q) (sd_pack s),
       sd_spec := spec, sd_distribution := or_else (sq_distribution q) (sd_distribution s), sd_review := or_else (sq_review q) (sd_review s),
       sd_grace := or_else (sq_grace q) (sd_grace s), sd_enabled := enabled, sd_next := next_run, sd_version := sd_version s + 1\<rparr>]\<rparr>)))))"

subsection \<open>Delivery\<close>

definition deliver_to :: "string option \<Rightarrow> (string \<Rightarrow> bool) \<Rightarrow> pack_recipient \<Rightarrow> delivery_outcome" where
  "deliver_to sender sends r =
     (if rp_kind r = Internal_recipient then
        (case rp_id r of
           None \<Rightarrow> \<lparr>do_kind = rp_kind r, do_to = or_else (rp_email r) [], do_result = Skipped_because ''no_user_id''\<rparr>
         | Some u \<Rightarrow> \<lparr>do_kind = rp_kind r, do_to = u, do_result = Notified\<rparr>)
      else case rp_email r of
           None \<Rightarrow> \<lparr>do_kind = rp_kind r, do_to = or_else (rp_id r) [], do_result = Skipped_because ''no_email''\<rparr>
         | Some a \<Rightarrow>
             \<lparr>do_kind = rp_kind r, do_to = a,
              do_result = (if sender = None then Skipped_because ''no_sender_identity''
                           else if sends a then Emailed else Skipped_because ''send_failed'')\<rparr>)"

definition deliver_pack :: "report_env \<Rightarrow> pack_schedule \<Rightarrow> delivery_outcome list" where
  "deliver_pack e s = map (deliver_to (re_sender e (sd_account s)) (re_sends e)) (sd_distribution s)"

fun was_skipped :: "delivery_result \<Rightarrow> bool" where
  "was_skipped (Skipped_because why) = True"
| "was_skipped r = False"

definition delivery_status :: "delivery_outcome list \<Rightarrow> run_status" where
  "delivery_status ds = (if ds \<noteq> [] \<and> list_all (\<lambda>d. was_skipped (do_result d)) ds then Run_failed else Run_sent)"

definition mails_of :: "nat \<Rightarrow> sections \<Rightarrow> delivery_outcome list \<Rightarrow> pack_mail list" where
  "mails_of n shows ds = map (\<lambda>d. \<lparr>pm_to = do_to d, pm_run = n, pm_shows = shows\<rparr>) (filter (\<lambda>d. do_result d = Emailed) ds)"

subsection \<open>Runs\<close>

definition advance_schedule :: "nat \<Rightarrow> ms \<Rightarrow> nat option \<Rightarrow> report_store \<Rightarrow> report_store" where
  "advance_schedule k t run st = st\<lparr>ro_schedules := (ro_schedules st)[k := (ro_schedules st ! k)\<lparr>sd_next := Some t, sd_last := run\<rparr>]\<rparr>"

definition new_run :: "string \<Rightarrow> string \<Rightarrow> nat option \<Rightarrow> string \<Rightarrow> ymd \<times> ymd \<Rightarrow> build_result \<Rightarrow> run_row" where
  "new_run account kind schedule requested period built =
     \<lparr>rn_account = account, rn_schedule = schedule, rn_type = kind, rn_from = fst period, rn_till = snd period,
      rn_status = (case built of Built text ss \<Rightarrow> Run_ready | _ \<Rightarrow> Run_failed), rn_reviewer = None, rn_due = None, rn_why = None,
      rn_delivery = [], rn_requested = requested,
      rn_pack = (case built of
          Built text ss \<Rightarrow> Some \<lparr>pk_from = fst period, pk_till = snd period, pk_source = Templated_source, pk_versions = [first_version text ss]\<rparr>
        | _ \<Rightarrow> None)\<rparr>"

text \<open>What an execution leaves: an error carries the rows as they were when it was thrown.\<close>

definition execute_schedule :: "report_env \<Rightarrow> nat \<Rightarrow> pack_schedule \<Rightarrow> ymd \<times> ymd \<Rightarrow> string \<Rightarrow> report_store \<times> outside \<Rightarrow>
    ((report_fault \<times> report_store) + report_store) \<times> outside" where
  "execute_schedule e k s period requested w =
     (let (st, ow) = w; n = length (ro_runs st);
          built = re_build e (sd_account s) (if sd_pack s = ''qbr'' then ''qbr'' else ''wsr'') period;
          run = new_run (sd_account s) (if sd_pack s = ''qbr'' then ''qbr'' else ''wsr'') (Some k) requested period built;
          next_run = (case sd_next s of None \<Rightarrow> re_now e | Some t \<Rightarrow> t)
      in case built of
           Statement_fails \<Rightarrow> (Inl (Statement_failed, st), ow)
         | Build_throws \<Rightarrow> (Inl (Build_failed, st\<lparr>ro_runs := ro_runs st @ [run]\<rparr>), ow)
         | Built text ss \<Rightarrow>
             let ow1 = ow\<lparr>ow_files := (ow_files ow)(n := ss)\<rparr> in
             if sd_review s then
               (Inr (advance_schedule k next_run (Some n)
                  (st\<lparr>ro_runs := ro_runs st @ [run\<lparr>rn_due := Some (re_now e + sd_grace s * 3600000)\<rparr>]\<rparr>)), ow1)
             else let ds = deliver_pack e s in
               (Inr (advance_schedule k next_run (Some n)
                  (st\<lparr>ro_runs := ro_runs st @ [run\<lparr>rn_delivery := ds, rn_status := delivery_status ds\<rparr>]\<rparr>)),
                ow1\<lparr>ow_mails := ow_mails ow @ mails_of n ss ds\<rparr>))"

definition run_now :: "report_env \<Rightarrow> string \<Rightarrow> nat \<Rightarrow> (ymd \<times> ymd) option \<Rightarrow> report_store \<times> outside \<Rightarrow> (report_fault + report_store) \<times> outside" where
  "run_now e user k given w =
     (let st = fst w in
      if \<not> k < length (ro_schedules st) then (Inl Report_not_found, snd w)
      else let s = ro_schedules st ! k;
               period = or_else given (period_before (rs_period (sd_spec s)) (re_now e) (re_zone e (sd_account s)))
           in if snd period < fst period then (Inl Invalid_report_range, snd w)
              else case execute_schedule e k s period user w of
                  (Inr st', ow) \<Rightarrow> (Inr st', ow)
                | (Inl (f, st'), ow) \<Rightarrow> (Inl f, ow))"

text \<open>The on-demand weekly pack of \<open>reporting.service.ts\<close>: a run without a schedule.\<close>

definition generate_wsr :: "report_env \<Rightarrow> string list \<Rightarrow> string \<Rightarrow> string \<Rightarrow> ymd \<times> ymd \<Rightarrow> report_store \<times> outside \<Rightarrow> (report_fault + report_store) \<times> outside" where
  "generate_wsr e accounts user account week w =
     (let (st, ow) = w; built = re_build e account ''wsr'' week; n = length (ro_runs st) in
      if account \<notin> set accounts then (Inl Report_not_found, ow)
      else case built of
          Built text ss \<Rightarrow> (Inr (st\<lparr>ro_runs := ro_runs st @ [new_run account ''wsr'' None user week built]\<rparr>), ow\<lparr>ow_files := (ow_files ow)(n := ss)\<rparr>)
        | Build_throws \<Rightarrow> (Inl Build_failed, ow)
        | Statement_fails \<Rightarrow> (Inl Statement_failed, ow))"

subsection \<open>Due schedules of an account\<close>

definition claim_due :: "string \<Rightarrow> ms \<Rightarrow> nat \<Rightarrow> report_store \<Rightarrow> nat list" where
  "claim_due account now batch st =
     take batch (sort_key (\<lambda>k. the (sd_next (ro_schedules st ! k)))
       (filter (\<lambda>k. let s = ro_schedules st ! k in sd_account s = account \<and> sd_enabled s \<and> (case sd_next s of None \<Rightarrow> False | Some t \<Rightarrow> t \<le> now))
         [0..<length (ro_schedules st)]))"

fun run_claimed :: "report_env \<Rightarrow> nat list \<Rightarrow> report_store \<times> outside \<Rightarrow> (report_fault + report_store) \<times> outside" where
  "run_claimed e [] w = (Inr (fst w), snd w)"
| "run_claimed e (k # ks) w =
     (let s = ro_schedules (fst w) ! k; zone = re_zone e (sd_account s); at_time = (case sd_next s of None \<Rightarrow> re_now e | Some t \<Rightarrow> t) in
      case next_run_at (re_num e) (sd_spec s) (re_now e) zone of
        None \<Rightarrow> (Inl No_run_instant, snd w)
      | Some t \<Rightarrow>
          case execute_schedule e k (s\<lparr>sd_next := Some t\<rparr>) (period_before (rs_period (sd_spec s)) at_time zone) ''system'' w of
            (Inr st', ow) \<Rightarrow> run_claimed e ks (st', ow)
          | (Inl (Statement_failed, st'), ow) \<Rightarrow> (Inl Statement_failed, ow)
          | (Inl (f, st'), ow) \<Rightarrow> run_claimed e ks (advance_schedule k t (sd_last s) st', ow))"

definition run_due :: "report_env \<Rightarrow> string \<Rightarrow> nat \<Rightarrow> report_store \<times> outside \<Rightarrow> (report_fault + report_store) \<times> outside" where
  "run_due e account batch w = run_claimed e (claim_due account (re_now e) batch (fst w)) w"

subsection \<open>Review\<close>

definition held_run :: "nat \<Rightarrow> report_store \<Rightarrow> report_fault + (run_row \<times> pack_schedule \<times> pack_row)" where
  "held_run n st =
     and_then (guard_or (n < length (ro_runs st)) Report_not_found) (\<lambda>_.
     let r = ro_runs st ! n in
     and_then (guard_or (rn_status r = Run_ready \<or> rn_status r = Run_awaiting) (Not_under_review (rn_status r))) (\<lambda>_.
     case rn_schedule r of None \<Rightarrow> Inl Run_without_schedule
     | Some k \<Rightarrow>
         and_then (guard_or (k < length (ro_schedules st)) Report_not_found) (\<lambda>_.
         case rn_pack r of None \<Rightarrow> Inl Run_without_pack | Some p \<Rightarrow> Inr (r, ro_schedules st ! k, p))))"

definition set_run :: "nat \<Rightarrow> run_row \<Rightarrow> report_store \<Rightarrow> report_store" where
  "set_run n r st = st\<lparr>ro_runs := (ro_runs st)[n := r]\<rparr>"

definition edited_pack :: "string \<Rightarrow> sections \<Rightarrow> pack_row \<Rightarrow> pack_row" where
  "edited_pack user ss p =
     (let kept = filter (\<lambda>(k, t). js_trim t \<noteq> []) ss;
          v = \<lparr>nv_number = nv_number (current_narrative p) + 1, nv_text = narrative_text kept, nv_sections = kept, nv_author = user, nv_rendered = False\<rparr>
      in p\<lparr>pk_source := Edited_source, pk_versions := trim_versions (pk_versions p @ [v])\<rparr>)"

definition edit_narrative :: "string \<Rightarrow> nat \<Rightarrow> sections \<Rightarrow> report_store \<Rightarrow> report_fault + report_store" where
  "edit_narrative user n ss st =
     and_then (guard_or (distinct (map fst ss)) Duplicate_section) (\<lambda>_.
     and_then (held_run n st) (\<lambda>(r, s, p). Inr (set_run n (r\<lparr>rn_pack := Some (edited_pack user ss p)\<rparr>) st)))"

definition rerendered :: "pack_row \<Rightarrow> pack_row" where
  "rerendered p = p\<lparr>pk_versions := butlast (pk_versions p) @ [(current_narrative p)\<lparr>nv_rendered := True\<rparr>]\<rparr>"

definition regenerate :: "nat \<Rightarrow> report_store \<times> outside \<Rightarrow> (report_fault + report_store) \<times> outside" where
  "regenerate n w =
     (case held_run n (fst w) of
        Inl f \<Rightarrow> (Inl f, snd w)
      | Inr (r, s, p) \<Rightarrow>
          (Inr (set_run n (r\<lparr>rn_pack := Some (rerendered p)\<rparr>) (fst w)),
           (snd w)\<lparr>ow_files := (ow_files (snd w))(n := nv_sections (current_narrative p))\<rparr>))"

text \<open>The requester is turned away; a pack that was edited and not regenerated is rendered before it is sent.\<close>

definition approve_run :: "report_env \<Rightarrow> string \<Rightarrow> nat \<Rightarrow> report_store \<times> outside \<Rightarrow> (report_fault + report_store) \<times> outside" where
  "approve_run e user n w =
     (case held_run n (fst w) of
        Inl f \<Rightarrow> (Inl f, snd w)
      | Inr (r, s, p) \<Rightarrow>
          if rn_requested r = user then (Inl (Requester_cannot_approve user), snd w)
          else let r1 = r\<lparr>rn_status := Run_approved, rn_reviewer := Some user, rn_due := None\<rparr>;
                   stale = (\<not> nv_rendered (current_narrative p));
                   r2 = (if stale then r1\<lparr>rn_pack := Some (rerendered p)\<rparr> else r1);
                   files = (if stale then (ow_files (snd w))(n := nv_sections (current_narrative p)) else ow_files (snd w));
                   ds = deliver_pack e s
               in (Inr (set_run n (r2\<lparr>rn_delivery := ds, rn_status := delivery_status ds\<rparr>) (fst w)),
                   (snd w)\<lparr>ow_files := files, ow_mails := ow_mails (snd w) @ mails_of n (files n) ds\<rparr>))"

definition cancel_run :: "string \<Rightarrow> nat \<Rightarrow> string option \<Rightarrow> report_store \<Rightarrow> report_fault + report_store" where
  "cancel_run user n reason st =
     (let why = js_trim (or_else reason []) in
      and_then (guard_or (why \<noteq> []) Reason_required) (\<lambda>_.
      and_then (held_run n st) (\<lambda>(r, s, p).
      Inr (set_run n (r\<lparr>rn_status := Run_skipped, rn_reviewer := Some user, rn_due := None, rn_why := Some why\<rparr>) st))))"

definition claim_review_due :: "string \<Rightarrow> ms \<Rightarrow> nat \<Rightarrow> report_store \<Rightarrow> nat list" where
  "claim_review_due account now batch st =
     take batch (sort_key (\<lambda>n. the (rn_due (ro_runs st ! n)))
       (filter (\<lambda>n. let r = ro_runs st ! n in rn_account r = account \<and> rn_status r = Run_ready \<and> (case rn_due r of None \<Rightarrow> False | Some t \<Rightarrow> t \<le> now))
         [0..<length (ro_runs st)]))"

definition mark_awaiting :: "nat \<Rightarrow> report_store \<Rightarrow> report_store" where
  "mark_awaiting n st = set_run n ((ro_runs st ! n)\<lparr>rn_status := Run_awaiting\<rparr>) st"

definition expire_reviews :: "report_env \<Rightarrow> string \<Rightarrow> nat \<Rightarrow> report_store \<Rightarrow> report_store" where
  "expire_reviews e account batch st = fold mark_awaiting (claim_review_due account (re_now e) batch st) st"

subsection \<open>Histories\<close>

datatype report_op =
    Op_create report_env "string list" schedule_request
  | Op_patch report_env nat schedule_request
  | Op_run_now report_env string nat "(ymd \<times> ymd) option"
  | Op_generate report_env "string list" string string "ymd \<times> ymd"
  | Op_due report_env string nat
  | Op_expire report_env string nat
  | Op_edit string nat sections
  | Op_regenerate nat
  | Op_approve report_env string nat
  | Op_cancel string nat "string option"

fun report_apply :: "report_op \<Rightarrow> report_store \<times> outside \<Rightarrow> (report_fault + report_store) \<times> outside" where
  "report_apply (Op_create e accounts q) w = (create_schedule e accounts q (fst w), snd w)"
| "report_apply (Op_patch e k q) w = (patch_schedule e k q (fst w), snd w)"
| "report_apply (Op_run_now e user k given) w = run_now e user k given w"
| "report_apply (Op_generate e accounts user account week) w = generate_wsr e accounts user account week w"
| "report_apply (Op_due e account batch) w = run_due e account batch w"
| "report_apply (Op_expire e account batch) w = (Inr (expire_reviews e account batch (fst w)), snd w)"
| "report_apply (Op_edit user n ss) w = (edit_narrative user n ss (fst w), snd w)"
| "report_apply (Op_regenerate n) w = regenerate n w"
| "report_apply (Op_approve e user n) w = approve_run e user n w"
| "report_apply (Op_cancel user n reason) w = (cancel_run user n reason (fst w), snd w)"

text \<open>A transaction that faults or does not commit leaves the rows; what went outside stays.\<close>

definition settled :: "bool \<Rightarrow> report_store \<Rightarrow> (report_fault + report_store) \<times> outside \<Rightarrow> report_store \<times> outside" where
  "settled commits st r = (case fst r of Inr st' \<Rightarrow> if commits then st' else st | Inl f \<Rightarrow> st, snd r)"

inductive report_step :: "report_store \<times> outside \<Rightarrow> report_store \<times> outside \<Rightarrow> bool" where
  op_step: "report_step w (settled commits (fst w) (report_apply x w))"

definition no_reports :: "report_store \<times> outside" where
  "no_reports = (\<lparr>ro_schedules = [], ro_runs = []\<rparr>, \<lparr>ow_mails = [], ow_files = (\<lambda>n. [])\<rparr>)"

subsection \<open>Narrative versions\<close>

definition versions_ok :: "pack_row \<Rightarrow> bool" where
  "versions_ok p \<longleftrightarrow> pk_versions p \<noteq> [] \<and> length (pk_versions p) \<le> max_narrative_versions \<and>
     sorted_wrt (<) (map nv_number (pk_versions p)) \<and> nv_number (hd (pk_versions p)) = 1 \<and> nv_author (hd (pk_versions p)) = ''template'' \<and>
     (pk_source p = Templated_source \<longleftrightarrow> length (pk_versions p) = 1)"

lemma trim_versions_ends [simp]:
  "vs \<noteq> [] \<Longrightarrow> hd (trim_versions vs) = hd vs" "vs \<noteq> [] \<Longrightarrow> last (trim_versions vs) = last vs"
  "trim_versions vs = [] \<longleftrightarrow> vs = []"
  by (auto simp: trim_versions_def max_narrative_versions_def last_drop)

lemma trim_versions_length [simp]: "length (trim_versions vs) = min (length vs) max_narrative_versions"
  by (auto simp: trim_versions_def max_narrative_versions_def)

lemma sorted_wrt_hd_drop:
  assumes "sorted_wrt (<) (xs :: nat list)" "0 < k" "xs \<noteq> []"
  shows "sorted_wrt (<) (hd xs # drop k xs)"
proof -
  obtain x ys where xs: "xs = x # ys" using assms(3) by (cases xs) auto
  obtain j where k: "k = Suc j" using assms(2) by (cases k) auto
  have "\<forall>y\<in>set (drop j ys). x < y" using assms(1) xs in_set_dropD by fastforce
  with assms(1) show ?thesis by (simp add: xs k sorted_wrt_drop)
qed

lemma trim_versions_sorted:
  assumes "sorted_wrt (<) (map nv_number vs)"
  shows "sorted_wrt (<) (map nv_number (trim_versions vs))"
proof (cases "length vs \<le> max_narrative_versions")
  case False
  then have "vs \<noteq> []" by auto
  with False sorted_wrt_hd_drop [OF assms, of "length vs - (max_narrative_versions - 1)"] show ?thesis
    by (simp add: trim_versions_def drop_map hd_map max_narrative_versions_def)
qed (use assms in \<open>simp add: trim_versions_def\<close>)

lemma versions_first: "versions_ok \<lparr>pk_from = a, pk_till = b, pk_source = Templated_source, pk_versions = [first_version t ss]\<rparr>"
  by (simp add: versions_ok_def first_version_def max_narrative_versions_def)

lemma versions_edited:
  assumes "versions_ok p"
  shows "versions_ok (edited_pack user ss p)"
proof -
  let ?vs = "pk_versions p"
  let ?v = "\<lparr>nv_number = nv_number (current_narrative p) + 1, nv_text = narrative_text (filter (\<lambda>(k, t). js_trim t \<noteq> []) ss),
    nv_sections = filter (\<lambda>(k, t). js_trim t \<noteq> []) ss, nv_author = user, nv_rendered = False\<rparr>"
  have ne: "?vs \<noteq> []" and sorted: "sorted_wrt (<) (map nv_number ?vs)" using assms by (simp_all add: versions_ok_def)
  have "nv_number v \<le> nv_number (last ?vs)" if "v \<in> set ?vs" for v
    using that ne sorted by (cases ?vs rule: rev_cases) (auto simp: sorted_wrt_append less_imp_le)
  then have "sorted_wrt (<) (map nv_number (?vs @ [?v]))"
    using sorted by (auto simp: sorted_wrt_append current_narrative_def less_Suc_eq_le)
  then have "sorted_wrt (<) (map nv_number (trim_versions (?vs @ [?v])))" by (rule trim_versions_sorted)
  with assms ne show ?thesis
    by (simp add: versions_ok_def edited_pack_def Let_def max_narrative_versions_def hd_append)
qed

lemma current_edited: "current_narrative (edited_pack user ss p) =
    \<lparr>nv_number = nv_number (current_narrative p) + 1, nv_text = narrative_text (filter (\<lambda>(k, t). js_trim t \<noteq> []) ss),
     nv_sections = filter (\<lambda>(k, t). js_trim t \<noteq> []) ss, nv_author = user, nv_rendered = False\<rparr>"
  unfolding current_narrative_def [of "edited_pack user ss p"] by (simp add: edited_pack_def Let_def)

lemma current_rerendered [simp]:
  "current_narrative (rerendered p) = (current_narrative p)\<lparr>nv_rendered := True\<rparr>"
  by (simp add: current_narrative_def rerendered_def)

lemma versions_rerendered:
  assumes "versions_ok p"
  shows "versions_ok (rerendered p)"
proof -
  obtain vs v where vs: "pk_versions p = vs @ [v]" using assms by (cases "pk_versions p" rule: rev_cases) (auto simp: versions_ok_def)
  then show ?thesis using assms by (cases vs) (auto simp: versions_ok_def rerendered_def current_narrative_def)
qed

subsection \<open>The invariant of runs\<close>

text \<open>The files are those of the newest narrative unless it is marked as not rendered.\<close>

definition run_ok :: "nat \<Rightarrow> sections \<Rightarrow> run_row \<Rightarrow> bool" where
  "run_ok schedules files r \<longleftrightarrow>
     (case rn_pack r of None \<Rightarrow> rn_status r = Run_failed \<and> rn_delivery r = []
      | Some p \<Rightarrow> versions_ok p \<and> (nv_rendered (current_narrative p) \<longrightarrow> files = nv_sections (current_narrative p))) \<and>
     (case rn_schedule r of None \<Rightarrow> True | Some k \<Rightarrow> k < schedules) \<and>
     rn_status r \<in> {Run_ready, Run_awaiting, Run_sent, Run_failed, Run_skipped} \<and>
     (rn_status r \<in> {Run_ready, Run_awaiting} \<longrightarrow> rn_reviewer r = None \<and> rn_delivery r = [] \<and> rn_why r = None) \<and>
     (rn_status r = Run_awaiting \<longrightarrow> rn_due r \<noteq> None) \<and>
     (rn_status r = Run_skipped \<longrightarrow> rn_reviewer r \<noteq> None \<and> rn_delivery r = [] \<and> (\<exists>t. rn_why r = Some t \<and> t \<noteq> [] \<and> js_trim t = t)) \<and>
     (rn_status r \<in> {Run_sent, Run_failed} \<longrightarrow> rn_reviewer r \<noteq> Some (rn_requested r) \<and> rn_why r = None)"

definition reports_ok :: "report_store \<times> outside \<Rightarrow> bool" where
  "reports_ok w \<longleftrightarrow> (\<forall>n < length (ro_runs (fst w)). run_ok (length (ro_schedules (fst w))) (ow_files (snd w) n) (ro_runs (fst w) ! n))"

definition files_kept :: "report_store \<Rightarrow> outside \<Rightarrow> outside \<Rightarrow> bool" where
  "files_kept st ow ow' \<longleftrightarrow> (\<forall>n < length (ro_runs st). ow_files ow' n = ow_files ow n)"

lemma run_ok_more: "run_ok k files r \<Longrightarrow> k \<le> k' \<Longrightarrow> run_ok k' files r"
  by (auto simp: run_ok_def split: option.splits)

lemma delivery_status_cases: "delivery_status ds \<in> {Run_sent, Run_failed}"
  by (simp add: delivery_status_def)

lemma advance_schedule_frame [simp]:
  "length (ro_schedules (advance_schedule k t n st)) = length (ro_schedules st)"
  "ro_runs (advance_schedule k t n st) = ro_runs st"
  by (simp_all add: advance_schedule_def)

lemma reports_ok_files: "reports_ok (st, ow) \<Longrightarrow> files_kept st ow ow' \<Longrightarrow> reports_ok (st, ow')"
  by (auto simp: reports_ok_def files_kept_def)

lemma reports_ok_append:
  assumes "reports_ok (st, ow)" "files_kept st ow ow'" "ro_runs st' = ro_runs st @ [r]" "length (ro_schedules st) \<le> length (ro_schedules st')"
    "run_ok (length (ro_schedules st')) (ow_files ow' (length (ro_runs st))) r"
  shows "reports_ok (st', ow')"
proof -
  have "run_ok (length (ro_schedules st')) (ow_files ow' n) (ro_runs st' ! n)" if n: "n < length (ro_runs st')" for n
  proof (cases "n = length (ro_runs st)")
    case False
    with n assms(3) have n': "n < length (ro_runs st)" by simp
    then have "run_ok (length (ro_schedules st)) (ow_files ow' n) (ro_runs st ! n)" using assms(1,2) by (simp add: reports_ok_def files_kept_def)
    from run_ok_more [OF this assms(4)] n' assms(3) show ?thesis by (simp add: nth_append)
  qed (use assms(3,5) in simp)
  then show ?thesis by (simp add: reports_ok_def)
qed

lemma reports_ok_schedules:
  "reports_ok (st, ow) \<Longrightarrow> ro_runs st' = ro_runs st \<Longrightarrow> length (ro_schedules st) \<le> length (ro_schedules st') \<Longrightarrow> reports_ok (st', ow)"
  by (auto simp: reports_ok_def intro: run_ok_more)

lemma reports_ok_set:
  assumes "reports_ok (st, ow)" "n < length (ro_runs st)" "run_ok (length (ro_schedules st)) (ow_files ow' n) r" "\<forall>m. m \<noteq> n \<longrightarrow> ow_files ow' m = ow_files ow m"
  shows "reports_ok (set_run n r st, ow')"
proof -
  have "run_ok (length (ro_schedules st)) (ow_files ow' m) ((ro_runs st)[n := r] ! m)" if "m < length (ro_runs st)" for m
    using assms that by (cases "m = n") (simp_all add: reports_ok_def)
  then show ?thesis by (simp add: reports_ok_def set_run_def)
qed

lemma new_run_built:
  "case schedule of None \<Rightarrow> True | Some k \<Rightarrow> k < schedules \<Longrightarrow> run_ok schedules ss (new_run account kind schedule requested period (Built words ss))"
  by (simp add: run_ok_def new_run_def versions_first) (simp add: current_narrative_def first_version_def)

lemma new_run_failed:
  "k < schedules \<Longrightarrow> run_ok schedules files (new_run account kind (Some k) requested period Build_throws)"
  by (simp add: run_ok_def new_run_def)

text \<open>What an execution does: one more run, the files of that run, and mail only when the schedule asks for no review.\<close>

lemma execute_effect:
  assumes k: "k < length (ro_schedules st)" and ok: "reports_ok (st, ow)"
  shows "case execute_schedule e k s period requested (st, ow) of (res, ow') \<Rightarrow>
    files_kept st ow ow' \<and>
    (\<exists>new. ow_mails ow' = ow_mails ow @ new \<and>
       (\<forall>m\<in>set new. \<not> sd_review s \<and> (\<exists>r\<in>set (sd_distribution s). rp_kind r \<noteq> Internal_recipient \<and> rp_email r = Some (pm_to m)))) \<and>
    (let st' = (case res of Inl (f, st') \<Rightarrow> st' | Inr st' \<Rightarrow> st') in
       reports_ok (st', ow') \<and> length (ro_schedules st') = length (ro_schedules st) \<and> (\<exists>new. ro_runs st' = ro_runs st @ new))"
proof -
  define kind where "kind = (if sd_pack s = ''qbr'' then ''qbr'' else ''wsr'')"
  define built where "built = re_build e (sd_account s) kind period"
  define run where "run = new_run (sd_account s) kind (Some k) requested period built"
  define t where "t = (case sd_next s of None \<Rightarrow> re_now e | Some t \<Rightarrow> t)"
  define n where "n = length (ro_runs st)"
  note unfold_run = execute_schedule_def Let_def prod.case kind_def [symmetric] built_def [symmetric] run_def [symmetric] t_def [symmetric] n_def [symmetric]
  have mail: "\<exists>r\<in>set (sd_distribution s). rp_kind r \<noteq> Internal_recipient \<and> rp_email r = Some (pm_to m)"
    if "m \<in> set (mails_of n ss (deliver_pack e s))" for m ss
    using that by (auto simp: mails_of_def deliver_pack_def deliver_to_def split: if_splits option.splits)
  show ?thesis
  proof (cases built)
    case (Built words ss)
    let ?ow = "ow\<lparr>ow_files := (ow_files ow)(n := ss)\<rparr>"
    have kept: "files_kept st ow ?ow" by (simp add: files_kept_def n_def)
    have base: "run_ok (length (ro_schedules st)) ss run"
      unfolding run_def Built using k by (intro new_run_built) simp
    have ready: "rn_status run = Run_ready" "rn_reviewer run = None" "rn_why run = None"
      by (simp_all add: run_def new_run_def Built)
    show ?thesis
    proof (cases "sd_review s")
      case True
      have "run_ok (length (ro_schedules st)) ss (run\<lparr>rn_due := Some (re_now e + sd_grace s * 3600000)\<rparr>)"
        using base by (simp add: run_ok_def split: option.splits)
      then have "reports_ok (advance_schedule k t (Some n) (st\<lparr>ro_runs := ro_runs st @ [run\<lparr>rn_due := Some (re_now e + sd_grace s * 3600000)\<rparr>]\<rparr>), ?ow)"
        by (intro reports_ok_append [OF ok kept]) (simp_all add: n_def)
      with kept True show ?thesis unfolding unfold_run by (simp add: Built)
    next
      case False
      let ?ds = "deliver_pack e s"
      have kept': "files_kept st ow (?ow\<lparr>ow_mails := ow_mails ow @ mails_of n ss ?ds\<rparr>)" by (simp add: files_kept_def n_def)
      have "run_ok (length (ro_schedules st)) ss (run\<lparr>rn_delivery := ?ds, rn_status := delivery_status ?ds\<rparr>)"
        using base ready delivery_status_cases [of ?ds] by (cases "delivery_status ?ds") (simp_all add: run_ok_def run_def new_run_def Built)
      then have "reports_ok (advance_schedule k t (Some n) (st\<lparr>ro_runs := ro_runs st @ [run\<lparr>rn_delivery := ?ds, rn_status := delivery_status ?ds\<rparr>]\<rparr>),
          ?ow\<lparr>ow_mails := ow_mails ow @ mails_of n ss ?ds\<rparr>)"
        by (intro reports_ok_append [OF ok kept']) (simp_all add: n_def)
      with kept' False mail show ?thesis unfolding unfold_run by (simp add: Built)
    qed
  next
    case Build_throws
    have "run_ok (length (ro_schedules st)) (ow_files ow n) run"
      unfolding run_def Build_throws using k by (rule new_run_failed)
    then have "reports_ok (st\<lparr>ro_runs := ro_runs st @ [run]\<rparr>, ow)"
      by (intro reports_ok_append [OF ok]) (simp_all add: files_kept_def n_def)
    then show ?thesis unfolding unfold_run by (simp add: Build_throws files_kept_def)
  next
    case Statement_fails
    then show ?thesis using ok unfolding unfold_run by (simp add: files_kept_def)
  qed
qed

text \<open>What a transaction may do besides adding runs and files: nothing to a run that is not under review.\<close>

definition runs_kept :: "report_store \<Rightarrow> report_store \<Rightarrow> bool" where
  "runs_kept st st' \<longleftrightarrow> length (ro_schedules st) \<le> length (ro_schedules st') \<and> length (ro_runs st) \<le> length (ro_runs st') \<and>
     (\<forall>n < length (ro_runs st). rn_status (ro_runs st ! n) \<notin> {Run_ready, Run_awaiting} \<longrightarrow> ro_runs st' ! n = ro_runs st ! n)"

lemma runs_kept_refl [simp]: "runs_kept st st"
  by (simp add: runs_kept_def)

lemma runs_kept_append: "ro_runs st' = ro_runs st @ new \<Longrightarrow> length (ro_schedules st) \<le> length (ro_schedules st') \<Longrightarrow> runs_kept st st'"
  by (simp add: runs_kept_def nth_append)

lemma runs_kept_set: "rn_status (ro_runs st ! n) \<in> {Run_ready, Run_awaiting} \<Longrightarrow> runs_kept st (set_run n r st)"
  by (auto simp: runs_kept_def set_run_def intro: nth_list_update_neq)

lemma files_kept_trans: "files_kept st ow ow1 \<Longrightarrow> files_kept st1 ow1 ow2 \<Longrightarrow> length (ro_runs st) \<le> length (ro_runs st1) \<Longrightarrow> files_kept st ow ow2"
  by (simp add: files_kept_def)

definition unheld_mail :: "report_store \<Rightarrow> pack_mail \<Rightarrow> bool" where
  "unheld_mail st m \<longleftrightarrow> (\<exists>s\<in>set (ro_schedules st). \<not> sd_review s \<and>
     (\<exists>r\<in>set (sd_distribution s). rp_kind r \<noteq> Internal_recipient \<and> rp_email r = Some (pm_to m)))"

definition plan_of :: "pack_schedule \<Rightarrow> bool \<times> pack_recipient list" where
  "plan_of s = (sd_review s, sd_distribution s)"

lemma unheld_mail_plans: "map plan_of (ro_schedules st') = map plan_of (ro_schedules st) \<Longrightarrow> unheld_mail st' m \<longleftrightarrow> unheld_mail st m"
proof -
  assume "map plan_of (ro_schedules st') = map plan_of (ro_schedules st)"
  then have "plan_of ` set (ro_schedules st') = plan_of ` set (ro_schedules st)" by (metis set_map)
  moreover have "unheld_mail x m \<longleftrightarrow> (\<exists>q\<in>plan_of ` set (ro_schedules x). \<not> fst q \<and>
      (\<exists>r\<in>set (snd q). rp_kind r \<noteq> Internal_recipient \<and> rp_email r = Some (pm_to m)))" for x
    by (auto simp: unheld_mail_def plan_of_def)
  ultimately show ?thesis by (simp only:)
qed

lemma advance_schedule_plans [simp]:
  "map plan_of (ro_schedules (advance_schedule k t n st)) = map plan_of (ro_schedules st)"
proof (cases "k < length (ro_schedules st)")
  case True
  have "plan_of (s\<lparr>sd_next := u, sd_last := n\<rparr>) = plan_of s" for s u by (simp add: plan_of_def)
  then have "map plan_of (ro_schedules (advance_schedule k t n st)) = (map plan_of (ro_schedules st))[k := plan_of (ro_schedules st ! k)]"
    by (simp add: advance_schedule_def map_update)
  with True show ?thesis by (metis length_map list_update_id nth_map)
qed (simp add: advance_schedule_def list_update_beyond)

lemma execute_plans:
  "(case fst (execute_schedule e k s period requested (st, ow)) of Inl (f, st') \<Rightarrow> map plan_of (ro_schedules st') = map plan_of (ro_schedules st)
    | Inr st' \<Rightarrow> map plan_of (ro_schedules st') = map plan_of (ro_schedules st))"
  by (auto simp: execute_schedule_def Let_def split: build_result.split)

lemma runs_kept_trans: "runs_kept st st1 \<Longrightarrow> runs_kept st1 st2 \<Longrightarrow> runs_kept st st2"
  by (simp add: runs_kept_def)

text \<open>What every transaction keeps: the invariant, also when its rows are rolled back, and mail of the kind it may send.\<close>

definition outcome_ok :: "(pack_mail \<Rightarrow> bool) \<Rightarrow> report_store \<Rightarrow> outside \<Rightarrow> (report_fault + report_store) \<times> outside \<Rightarrow> bool" where
  "outcome_ok may st ow r \<longleftrightarrow> files_kept st ow (snd r) \<and> (\<exists>new. ow_mails (snd r) = ow_mails ow @ new \<and> (\<forall>m\<in>set new. may m)) \<and>
     (\<forall>st'. fst r = Inr st' \<longrightarrow> reports_ok (st', snd r) \<and> runs_kept st st')"

lemma execute_mails:
  assumes "k < length (ro_schedules st)" "reports_ok (st, ow)" "plan_of s = plan_of (ro_schedules st ! k)"
    "execute_schedule e k s period requested (st, ow) = (res, ow')"
  shows "\<exists>new. ow_mails ow' = ow_mails ow @ new \<and> (\<forall>m\<in>set new. unheld_mail st m)"
proof -
  have "ro_schedules st ! k \<in> set (ro_schedules st)" using assms(1) by simp
  moreover have "sd_review s = sd_review (ro_schedules st ! k)" "sd_distribution s = sd_distribution (ro_schedules st ! k)"
    using assms(3) by (simp_all add: plan_of_def)
  ultimately show ?thesis
    using execute_effect [OF assms(1,2), where e = e and s = s and period = period and requested = requested] assms(4) by (fastforce simp: unheld_mail_def)
qed

lemma outcome_ok_then:
  assumes "outcome_ok may1 st1 ow1 r" "files_kept st ow ow1" "length (ro_runs st) \<le> length (ro_runs st1)" "runs_kept st st1"
    "\<exists>new. ow_mails ow1 = ow_mails ow @ new \<and> (\<forall>m\<in>set new. may m)" "\<And>m. may1 m \<Longrightarrow> may m"
  shows "outcome_ok may st ow r"
proof -
  obtain new1 new2 where "ow_mails ow1 = ow_mails ow @ new1" "\<forall>m\<in>set new1. may m" "ow_mails (snd r) = ow_mails ow1 @ new2" "\<forall>m\<in>set new2. may1 m"
    using assms(1,5) by (auto simp: outcome_ok_def)
  then have "ow_mails (snd r) = ow_mails ow @ (new1 @ new2) \<and> (\<forall>m\<in>set (new1 @ new2). may m)" using assms(6) by auto
  moreover have "files_kept st ow (snd r)" using assms(1,2,3) files_kept_trans by (auto simp: outcome_ok_def)
  ultimately show ?thesis using assms(1,4) runs_kept_trans by (auto simp: outcome_ok_def simp del: set_append)
qed

lemma claimed_effect:
  "\<forall>k\<in>set ks. k < length (ro_schedules st) \<Longrightarrow> reports_ok (st, ow) \<Longrightarrow> outcome_ok (unheld_mail st) st ow (run_claimed e ks (st, ow))"
proof (induction ks arbitrary: st ow)
  case Nil
  then show ?case by (simp add: outcome_ok_def files_kept_def)
next
  case (Cons k ks)
  define s where "s = ro_schedules st ! k"
  define at_time where "at_time = (case sd_next s of None \<Rightarrow> re_now e | Some t \<Rightarrow> t)"
  have k: "k < length (ro_schedules st)" using Cons.prems(1) by simp
  show ?case
  proof (cases "next_run_at (re_num e) (sd_spec s) (re_now e) (re_zone e (sd_account s))")
    case None
    then show ?thesis by (simp add: s_def outcome_ok_def files_kept_def)
  next
    case (Some t)
    let ?s = "s\<lparr>sd_next := Some t\<rparr>" and ?p = "period_before (rs_period (sd_spec s)) at_time (re_zone e (sd_account s))"
    obtain res ow1 where x: "execute_schedule e k ?s ?p ''system'' (st, ow) = (res, ow1)" by fastforce
    define st1 where "st1 = (case res of Inl (f, st') \<Rightarrow> st' | Inr st' \<Rightarrow> st')"
    note eff = execute_effect [OF k Cons.prems(2), where e = e and s = ?s and period = ?p and requested = "''system''", unfolded x prod.case Let_def, folded st1_def]
    have mails: "\<exists>new. ow_mails ow1 = ow_mails ow @ new \<and> (\<forall>m\<in>set new. unheld_mail st m)"
      by (rule execute_mails [OF k Cons.prems(2) _ x]) (simp add: s_def plan_of_def)
    have plans: "map plan_of (ro_schedules st1) = map plan_of (ro_schedules st)"
      using execute_plans [where e = e and k = k and s = ?s and period = ?p and requested = "''system''" and st = st and ow = ow] by (auto simp: x st1_def split: sum.splits)
    have kept: "runs_kept st st1" "length (ro_runs st) \<le> length (ro_runs st1)" "files_kept st ow ow1" "length (ro_schedules st1) = length (ro_schedules st)"
      using eff runs_kept_append by auto
    have step: "run_claimed e (k # ks) (st, ow) =
        (case res of Inr st' \<Rightarrow> run_claimed e ks (st', ow1)
         | Inl (f, st') \<Rightarrow> if f = Statement_failed then (Inl Statement_failed, ow1) else run_claimed e ks (advance_schedule k t (sd_last s) st', ow1))"
      using x Some by (simp add: Let_def flip: s_def at_time_def split: sum.split prod.split report_fault.split)
    have rest: "outcome_ok (unheld_mail st) st ow (run_claimed e ks (st2, ow1))"
      if st2: "st2 = st1 \<or> st2 = advance_schedule k t (sd_last s) st1" for st2
    proof (rule outcome_ok_then [OF Cons.IH])
      show "\<forall>j\<in>set ks. j < length (ro_schedules st2)" using Cons.prems(1) st2 kept(4) by auto
      show "reports_ok (st2, ow1)" using eff st2 reports_ok_schedules by auto
      show "files_kept st ow ow1" "length (ro_runs st) \<le> length (ro_runs st2)" using kept st2 by auto
      show "runs_kept st st2" using st2 kept(1) runs_kept_trans [OF kept(1)] runs_kept_append [of st2 st1 "[]"] by auto
      show "unheld_mail st m" if "unheld_mail st2 m" for m
        using that st2 unheld_mail_plans [of st2 st m] plans by auto
    qed (rule mails)
    show ?thesis
    proof (cases res)
      case (Inr st')
      with rest [of st1] show ?thesis unfolding step by (simp add: st1_def)
    next
      case (Inl fs)
      obtain f st' where fs: "fs = (f, st')" by fastforce
      show ?thesis
      proof (cases "f = Statement_failed")
        case True
        then show ?thesis using mails kept(3) unfolding step by (simp add: Inl fs outcome_ok_def)
      next
        case False
        with rest [of "advance_schedule k t (sd_last s) st1"] show ?thesis unfolding step by (simp add: Inl fs st1_def)
      qed
    qed
  qed
qed

subsection \<open>Every transaction\<close>

lemma held_run_Inr:
  "held_run n st = Inr (r, s, p) \<longleftrightarrow> n < length (ro_runs st) \<and> r = ro_runs st ! n \<and> rn_status r \<in> {Run_ready, Run_awaiting} \<and>
     (\<exists>k. rn_schedule r = Some k \<and> k < length (ro_schedules st) \<and> s = ro_schedules st ! k) \<and> rn_pack r = Some p"
  by (auto simp: held_run_def guard_or_def Let_def split: option.splits if_splits)

fun may_send :: "report_op \<Rightarrow> report_store \<Rightarrow> pack_mail \<Rightarrow> bool" where
  "may_send (Op_run_now e user k given) st m = unheld_mail st m"
| "may_send (Op_due e account batch) st m = unheld_mail st m"
| "may_send (Op_approve e user n) st m =
     (\<exists>r s p. held_run n st = Inr (r, s, p) \<and> rn_requested r \<noteq> user \<and> pm_run m = n \<and> pm_shows m = nv_sections (current_narrative p) \<and>
        (\<exists>q\<in>set (sd_distribution s). rp_kind q \<noteq> Internal_recipient \<and> rp_email q = Some (pm_to m)))"
| "may_send x st m = False"

lemma outcome_ok_fault: "outcome_ok may st ow (Inl f, ow)"
  by (simp add: outcome_ok_def files_kept_def)

lemma outcome_ok_rows:
  assumes "\<And>st'. r = Inr st' \<Longrightarrow> reports_ok (st', ow) \<and> runs_kept st st'"
  shows "outcome_ok may st ow (r, ow)"
  using assms by (simp add: outcome_ok_def files_kept_def)

lemma outcome_ok_schedules:
  assumes "reports_ok (st, ow)" "\<And>st'. r = Inr st' \<Longrightarrow> ro_runs st' = ro_runs st \<and> length (ro_schedules st) \<le> length (ro_schedules st')"
  shows "outcome_ok may st ow (r, ow)"
  using assms by (intro outcome_ok_rows conjI reports_ok_schedules [OF assms(1)]) (auto intro: runs_kept_append [where new = "[]"])

lemma held_run_ok:
  assumes "reports_ok (st, ow)" "held_run n st = Inr (r, s, p)"
  shows "versions_ok p" "nv_rendered (current_narrative p) \<Longrightarrow> ow_files ow n = nv_sections (current_narrative p)"
    "\<exists>k. rn_schedule r = Some k \<and> k < length (ro_schedules st)" "rn_reviewer r = None" "rn_delivery r = []" "rn_why r = None"
    "rn_status r = Run_awaiting \<Longrightarrow> rn_due r \<noteq> None"
proof -
  have "run_ok (length (ro_schedules st)) (ow_files ow n) r" and h: "rn_status r \<in> {Run_ready, Run_awaiting}" "rn_pack r = Some p"
    using assms by (auto simp: held_run_Inr reports_ok_def)
  then show "versions_ok p" "nv_rendered (current_narrative p) \<Longrightarrow> ow_files ow n = nv_sections (current_narrative p)"
    "\<exists>k. rn_schedule r = Some k \<and> k < length (ro_schedules st)" "rn_reviewer r = None" "rn_delivery r = []" "rn_why r = None"
    "rn_status r = Run_awaiting \<Longrightarrow> rn_due r \<noteq> None"
    using assms(2) by (auto simp: run_ok_def held_run_Inr)
qed

lemma held_set:
  assumes "reports_ok (st, ow)" "held_run n st = Inr (r, s, p)" "\<forall>m. m \<noteq> n \<longrightarrow> ow_files ow' m = ow_files ow m"
    "run_ok (length (ro_schedules st)) (ow_files ow' n) r'"
  shows "reports_ok (set_run n r' st, ow')" "runs_kept st (set_run n r' st)"
proof -
  have n: "n < length (ro_runs st)" "rn_status (ro_runs st ! n) \<in> {Run_ready, Run_awaiting}" using assms(2) by (auto simp: held_run_Inr)
  show "reports_ok (set_run n r' st, ow')" by (rule reports_ok_set [OF assms(1) n(1) assms(4,3)])
  show "runs_kept st (set_run n r' st)" by (rule runs_kept_set [OF n(2)])
qed

lemma create_patch_effect:
  assumes "reports_ok (st, ow)"
  shows "outcome_ok may st ow (create_schedule e accounts q st, ow)" "outcome_ok may st ow (patch_schedule e k q st, ow)"
  by (rule outcome_ok_schedules [OF assms];
      auto simp: create_schedule_def patch_schedule_def Let_def and_then_Inr guard_or_def split: if_splits)+

lemma edit_cancel_effect:
  assumes ok: "reports_ok (st, ow)"
  shows "outcome_ok may st ow (edit_narrative user n ss st, ow)" "outcome_ok may st ow (cancel_run user n reason st, ow)"
proof -
  show "outcome_ok may st ow (edit_narrative user n ss st, ow)"
  proof (rule outcome_ok_rows)
    fix st' assume "edit_narrative user n ss st = Inr st'"
    then obtain r s p where h: "held_run n st = Inr (r, s, p)" and st': "st' = set_run n (r\<lparr>rn_pack := Some (edited_pack user ss p)\<rparr>) st"
      by (auto simp: edit_narrative_def and_then_Inr guard_or_def split: if_splits)
    have "run_ok (length (ro_schedules st)) (ow_files ow n) (r\<lparr>rn_pack := Some (edited_pack user ss p)\<rparr>)"
      using held_run_ok [OF ok h] h versions_edited [of p user ss] by (auto simp: run_ok_def current_edited held_run_Inr)
    from held_set [OF ok h _ this] show "reports_ok (st', ow) \<and> runs_kept st st'" by (simp add: st')
  qed
  show "outcome_ok may st ow (cancel_run user n reason st, ow)"
  proof (rule outcome_ok_rows)
    fix st' assume "cancel_run user n reason st = Inr st'"
    then obtain r s p where h: "held_run n st = Inr (r, s, p)" and why: "js_trim (or_else reason []) \<noteq> []"
      and st': "st' = set_run n (r\<lparr>rn_status := Run_skipped, rn_reviewer := Some user, rn_due := None, rn_why := Some (js_trim (or_else reason []))\<rparr>) st"
      by (auto simp: cancel_run_def Let_def and_then_Inr guard_or_def split: if_splits)
    have "run_ok (length (ro_schedules st)) (ow_files ow n)
        (r\<lparr>rn_status := Run_skipped, rn_reviewer := Some user, rn_due := None, rn_why := Some (js_trim (or_else reason []))\<rparr>)"
      using held_run_ok [OF ok h] h why by (auto simp: run_ok_def held_run_Inr)
    from held_set [OF ok h _ this] show "reports_ok (st', ow) \<and> runs_kept st st'" by (simp add: st')
  qed
qed

lemma regenerate_effect:
  assumes ok: "reports_ok (st, ow)"
  shows "reports_ok (st, snd (regenerate n (st, ow)))" "ow_mails (snd (regenerate n (st, ow))) = ow_mails ow"
    "fst (regenerate n (st, ow)) = Inr st' \<Longrightarrow> reports_ok (st', snd (regenerate n (st, ow))) \<and> runs_kept st st'"
proof -
  have "reports_ok (st, snd (regenerate n (st, ow))) \<and> ow_mails (snd (regenerate n (st, ow))) = ow_mails ow \<and>
      (\<forall>st'. fst (regenerate n (st, ow)) = Inr st' \<longrightarrow> reports_ok (st', snd (regenerate n (st, ow))) \<and> runs_kept st st')"
  proof (cases "held_run n st")
    case (Inr rsp)
    obtain r s p where h: "held_run n st = Inr (r, s, p)" using Inr by (cases rsp) auto
    let ?ow = "ow\<lparr>ow_files := (ow_files ow)(n := nv_sections (current_narrative p))\<rparr>"
    have r: "n < length (ro_runs st)" "r = ro_runs st ! n" "rn_pack r = Some p" using h by (auto simp: held_run_Inr)
    have old: "run_ok (length (ro_schedules st)) (ow_files ow n) r" using ok r by (auto simp: reports_ok_def)
    then have same: "run_ok (length (ro_schedules st)) (ow_files ?ow n) r" by (auto simp: run_ok_def r(3))
    have new: "run_ok (length (ro_schedules st)) (ow_files ?ow n) (r\<lparr>rn_pack := Some (rerendered p)\<rparr>)"
      using old by (auto simp: run_ok_def r(3) versions_rerendered)
    have "reports_ok (set_run n r st, ?ow)" by (rule held_set [OF ok h _ same]) simp
    then have "reports_ok (st, ?ow)" by (simp add: set_run_def r(2))
    with held_set [OF ok h _ new] show ?thesis by (simp add: regenerate_def h)
  qed (simp add: regenerate_def ok)
  then show "reports_ok (st, snd (regenerate n (st, ow)))" "ow_mails (snd (regenerate n (st, ow))) = ow_mails ow"
    "fst (regenerate n (st, ow)) = Inr st' \<Longrightarrow> reports_ok (st', snd (regenerate n (st, ow))) \<and> runs_kept st st'" by simp_all
qed

lemma approve_effect:
  assumes ok: "reports_ok (st, ow)"
  shows "reports_ok (st, snd (approve_run e user n (st, ow)))"
    "\<exists>new. ow_mails (snd (approve_run e user n (st, ow))) = ow_mails ow @ new \<and> (\<forall>m\<in>set new. may_send (Op_approve e user n) st m)"
    "fst (approve_run e user n (st, ow)) = Inr st' \<Longrightarrow> reports_ok (st', snd (approve_run e user n (st, ow))) \<and> runs_kept st st'"
proof -
  have "reports_ok (st, snd (approve_run e user n (st, ow))) \<and>
    (\<exists>new. ow_mails (snd (approve_run e user n (st, ow))) = ow_mails ow @ new \<and> (\<forall>m\<in>set new. may_send (Op_approve e user n) st m)) \<and>
    (\<forall>st'. fst (approve_run e user n (st, ow)) = Inr st' \<longrightarrow> reports_ok (st', snd (approve_run e user n (st, ow))) \<and> runs_kept st st')"
  proof (cases "\<exists>r s p. held_run n st = Inr (r, s, p) \<and> rn_requested r \<noteq> user")
    case True
    then obtain r s p where h: "held_run n st = Inr (r, s, p)" and other: "rn_requested r \<noteq> user" by blast
    define v where "v = current_narrative p"
    define p' where "p' = (if nv_rendered v then p else rerendered p)"
    define files where "files = (ow_files ow)(n := nv_sections v)"
    define ds where "ds = deliver_pack e s"
    define r' where "r' = r\<lparr>rn_reviewer := Some user, rn_due := None, rn_pack := Some p', rn_delivery := ds, rn_status := delivery_status ds\<rparr>"
    define ow' where "ow' = ow\<lparr>ow_files := files, ow_mails := ow_mails ow @ mails_of n (nv_sections v) ds\<rparr>"
    note held = held_run_ok [OF ok h]
    have p: "rn_pack r = Some p" and n: "n < length (ro_runs st)" "r = ro_runs st ! n" using h by (auto simp: held_run_Inr)
    have fresh: "nv_rendered v \<Longrightarrow> ow_files ow = files" using held(2) by (simp add: files_def v_def fun_upd_idem)
    have run: "approve_run e user n (st, ow) = (Inr (set_run n r' st), ow')"
    proof (cases "nv_rendered v")
      case True
      have shown: "ow_files ow n = nv_sections v" using held(2) True by (simp add: v_def)
      have pack: "r\<lparr>rn_pack := Some p\<rparr> = r" using p by (cases r) simp
      have "r' = (r\<lparr>rn_pack := Some p\<rparr>)\<lparr>rn_reviewer := Some user, rn_due := None, rn_delivery := ds, rn_status := delivery_status ds\<rparr>"
        using True by (simp add: r'_def p'_def)
      with other True fresh shown show ?thesis
        by (simp add: approve_run_def h Let_def pack flip: v_def ds_def) (simp add: ow'_def)
    next
      case False
      with other show ?thesis
        by (simp add: approve_run_def h Let_def flip: v_def ds_def) (simp add: r'_def p'_def ow'_def files_def)
    qed
    have old: "run_ok (length (ro_schedules st)) (ow_files ow n) r" using ok n by (simp add: reports_ok_def)
    then have same: "run_ok (length (ro_schedules st)) (ow_files ow' n) r" by (auto simp: run_ok_def p ow'_def files_def v_def)
    have new: "run_ok (length (ro_schedules st)) (ow_files ow' n) r'"
      using old other held(6) delivery_status_cases [of ds] versions_rerendered [of p]
      by (cases "delivery_status ds") (auto simp: run_ok_def p ow'_def files_def v_def r'_def p'_def)
    have frame: "\<forall>m. m \<noteq> n \<longrightarrow> ow_files ow' m = ow_files ow m" by (simp add: ow'_def files_def)
    have mails: "may_send (Op_approve e user n) st m" if "m \<in> set (mails_of n (nv_sections v) ds)" for m
      using that h other by (auto simp: mails_of_def ds_def deliver_pack_def deliver_to_def v_def split: if_splits option.splits)
    have "reports_ok (set_run n r st, ow')" by (rule held_set [OF ok h frame same])
    then have "reports_ok (st, ow')" by (simp add: set_run_def n(2))
    then show ?thesis using held_set [OF ok h frame new] mails by (simp add: run) (auto simp: ow'_def)
  next
    case False
    then have "snd (approve_run e user n (st, ow)) = ow \<and> (\<forall>st'. fst (approve_run e user n (st, ow)) \<noteq> Inr st')"
      by (auto simp: approve_run_def split: sum.splits)
    then show ?thesis using ok by simp
  qed
  then show "reports_ok (st, snd (approve_run e user n (st, ow)))"
    "\<exists>new. ow_mails (snd (approve_run e user n (st, ow))) = ow_mails ow @ new \<and> (\<forall>m\<in>set new. may_send (Op_approve e user n) st m)"
    "fst (approve_run e user n (st, ow)) = Inr st' \<Longrightarrow> reports_ok (st', snd (approve_run e user n (st, ow))) \<and> runs_kept st st'" by simp_all
qed

lemma expire_effect:
  assumes ok: "reports_ok (st, ow)"
  shows "reports_ok (expire_reviews e account batch st, ow)" "runs_kept st (expire_reviews e account batch st)"
proof -
  have due: "\<forall>n\<in>set (claim_review_due account now batch st). n < length (ro_runs st) \<and> rn_due (ro_runs st ! n) \<noteq> None \<and> rn_status (ro_runs st ! n) = Run_ready" for now
    by (auto simp: claim_review_due_def Let_def dest!: in_set_takeD split: option.splits)
  have "reports_ok (fold mark_awaiting ns st, ow) \<and> runs_kept st (fold mark_awaiting ns st)"
    if "reports_ok (st, ow)" "\<forall>n\<in>set ns. n < length (ro_runs st) \<and> rn_due (ro_runs st ! n) \<noteq> None \<and> rn_status (ro_runs st ! n) \<in> {Run_ready, Run_awaiting}" for ns st
    using that
  proof (induction ns arbitrary: st)
    case (Cons n ns)
    let ?st = "mark_awaiting n st"
    have n: "n < length (ro_runs st)" "rn_status (ro_runs st ! n) \<in> {Run_ready, Run_awaiting}" "rn_due (ro_runs st ! n) \<noteq> None" using Cons.prems(2) by auto
    have "run_ok (length (ro_schedules st)) (ow_files ow n) (ro_runs st ! n)" using Cons.prems(1) n(1) by (simp add: reports_ok_def)
    then have "run_ok (length (ro_schedules st)) (ow_files ow n) ((ro_runs st ! n)\<lparr>rn_status := Run_awaiting\<rparr>)"
      using n(2,3) by (auto simp: run_ok_def split: option.splits)
    then have ok1: "reports_ok (?st, ow)" unfolding mark_awaiting_def by (intro reports_ok_set [OF Cons.prems(1) n(1)]) simp_all
    have kept: "runs_kept st ?st" unfolding mark_awaiting_def by (rule runs_kept_set [OF n(2)])
    have "\<forall>m\<in>set ns. m < length (ro_runs ?st) \<and> rn_due (ro_runs ?st ! m) \<noteq> None \<and> rn_status (ro_runs ?st ! m) \<in> {Run_ready, Run_awaiting}"
    proof
      fix m assume "m \<in> set ns"
      then show "m < length (ro_runs ?st) \<and> rn_due (ro_runs ?st ! m) \<noteq> None \<and> rn_status (ro_runs ?st ! m) \<in> {Run_ready, Run_awaiting}"
        using Cons.prems(2) n by (cases "m = n") (simp_all add: mark_awaiting_def set_run_def)
    qed
    from Cons.IH [OF ok1 this] runs_kept_trans [OF kept] show ?case by simp
  qed simp
  from this [OF ok] due show "reports_ok (expire_reviews e account batch st, ow)" "runs_kept st (expire_reviews e account batch st)"
    by (auto simp: expire_reviews_def)
qed

lemma run_now_effect:
  assumes ok: "reports_ok (st, ow)"
  shows "outcome_ok (unheld_mail st) st ow (run_now e user k given (st, ow))"
proof (cases "k < length (ro_schedules st)")
  case True
  let ?s = "ro_schedules st ! k"
  let ?p = "or_else given (period_before (rs_period (sd_spec ?s)) (re_now e) (re_zone e (sd_account ?s)))"
  obtain res ow1 where x: "execute_schedule e k ?s ?p user (st, ow) = (res, ow1)" by fastforce
  note eff = execute_effect [OF True ok, where e = e and s = ?s and period = ?p and requested = user, unfolded x prod.case]
  have "\<exists>new. ow_mails ow1 = ow_mails ow @ new \<and> (\<forall>m\<in>set new. unheld_mail st m)"
    by (rule execute_mails [OF True ok _ x]) simp
  then have "outcome_ok (unheld_mail st) st ow (case res of Inr st' \<Rightarrow> (Inr st', ow1) | Inl (f, st') \<Rightarrow> (Inl f, ow1))"
    using eff runs_kept_append by (auto simp: outcome_ok_def Let_def split: sum.splits)
  then show ?thesis using True by (simp add: run_now_def Let_def x outcome_ok_fault split: sum.splits prod.splits)
qed (simp add: run_now_def Let_def outcome_ok_fault)

lemma generate_effect:
  assumes ok: "reports_ok (st, ow)"
  shows "outcome_ok may st ow (generate_wsr e accounts user account week (st, ow))"
proof (cases "re_build e account ''wsr'' week")
  case (Built words ss)
  let ?ow = "ow\<lparr>ow_files := (ow_files ow)(length (ro_runs st) := ss)\<rparr>"
  have "reports_ok (st\<lparr>ro_runs := ro_runs st @ [new_run account ''wsr'' None user week (Built words ss)]\<rparr>, ?ow)"
    by (rule reports_ok_append [OF ok]) (auto simp: files_kept_def intro!: new_run_built)
  then show ?thesis
    by (simp add: generate_wsr_def Built Let_def outcome_ok_fault) (simp add: outcome_ok_def files_kept_def runs_kept_append)
qed (simp_all add: generate_wsr_def Let_def outcome_ok_fault)

text \<open>One transaction: the invariant is kept whether its rows are or not, a settled run is left alone, and what it
  mails it may mail.\<close>

lemma report_apply_effect:
  assumes "reports_ok (st, ow)"
  shows "reports_ok (st, snd (report_apply x (st, ow))) \<and>
    (\<exists>new. ow_mails (snd (report_apply x (st, ow))) = ow_mails ow @ new \<and> (\<forall>m\<in>set new. may_send x st m)) \<and>
    (\<forall>st'. fst (report_apply x (st, ow)) = Inr st' \<longrightarrow> reports_ok (st', snd (report_apply x (st, ow))) \<and> runs_kept st st')"
proof -
  have by_outcome: ?thesis if "outcome_ok (may_send x st) st ow (report_apply x (st, ow))"
    using that reports_ok_files [OF assms] by (auto simp: outcome_ok_def)
  show ?thesis
  proof (cases x)
    case (Op_due e account batch)
    have "\<forall>k\<in>set (claim_due account (re_now e) batch st). k < length (ro_schedules st)"
      by (auto simp: claim_due_def Let_def dest!: in_set_takeD)
    from claimed_effect [OF this assms] have "outcome_ok (may_send x st) st ow (report_apply x (st, ow))"
      by (simp add: Op_due run_due_def outcome_ok_def)
    then show ?thesis by (rule by_outcome)
  next
    case (Op_run_now e user k given)
    have "outcome_ok (may_send x st) st ow (report_apply x (st, ow))"
      using run_now_effect [OF assms, of e user k given] by (simp add: Op_run_now outcome_ok_def)
    then show ?thesis by (rule by_outcome)
  next
    case (Op_expire e account batch)
    then show ?thesis using expire_effect [OF assms] assms by simp
  next
    case (Op_regenerate n)
    then show ?thesis using regenerate_effect [OF assms] by simp
  next
    case (Op_approve e user n)
    then show ?thesis using approve_effect [OF assms] by simp
  qed (use by_outcome create_patch_effect [OF assms] generate_effect [OF assms] edit_cancel_effect [OF assms] in simp_all)
qed

subsection \<open>Properties\<close>

lemma reports_reached:
  assumes "report_step\<^sup>*\<^sup>* no_reports w"
  shows "reports_ok w"
  using assms
proof (induction rule: rtranclp_induct)
  case base
  then show ?case by (simp add: reports_ok_def no_reports_def)
next
  case (step w w')
  obtain st ow where w: "w = (st, ow)" by fastforce
  from step.hyps(2) obtain commits x where w': "w' = settled commits (fst w) (report_apply x w)" by cases auto
  have "reports_ok (st, ow)" using step.IH by (simp add: w)
  note eff = report_apply_effect [OF this, of x]
  show ?case
  proof (cases "fst (report_apply x (st, ow))")
    case (Inl f)
    then show ?thesis using eff by (simp add: w w' settled_def)
  next
    case (Inr st')
    then show ?thesis using eff by (cases commits) (simp_all add: w w' settled_def)
  qed
qed

text \<open>C24: The record of every run, however schedules are edited and run, narratives edited and regenerated, runs approved,
  cancelled and expired, and whatever transactions do not commit: a delivered run was never approved by the person who
  asked for it; a run under review has been delivered to nobody; a cancelled one names who cancelled it and why,
  and was delivered to nobody; a narrative keeps at most twenty versions in rising order with the templated one first, is
  marked edited exactly when there is another, and unless the newest is marked as not rendered the stored files
  are its own.\<close>

theorem report_runs_sound:
  assumes "report_step\<^sup>*\<^sup>* no_reports (st, ow)" "n < length (ro_runs st)" "r = ro_runs st ! n"
  shows "(rn_status r \<in> {Run_sent, Run_failed} \<longrightarrow> rn_reviewer r \<noteq> Some (rn_requested r)) \<and>
    (rn_status r \<in> {Run_ready, Run_awaiting} \<longrightarrow> rn_reviewer r = None \<and> rn_delivery r = []) \<and>
    (rn_status r = Run_skipped \<longrightarrow> rn_delivery r = [] \<and> (\<exists>u t. rn_reviewer r = Some u \<and> rn_why r = Some t \<and> t \<noteq> [])) \<and>
    rn_status r \<notin> {Run_generating, Run_approved} \<and>
    (\<forall>p. rn_pack r = Some p \<longrightarrow>
       pk_versions p \<noteq> [] \<and> length (pk_versions p) \<le> max_narrative_versions \<and> sorted_wrt (<) (map nv_number (pk_versions p)) \<and>
       nv_author (hd (pk_versions p)) = ''template'' \<and> (pk_source p = Edited_source \<longleftrightarrow> 1 < length (pk_versions p)) \<and>
       (nv_rendered (current_narrative p) \<longrightarrow> ow_files ow n = nv_sections (current_narrative p)))"
proof -
  have ok: "run_ok (length (ro_schedules st)) (ow_files ow n) r"
    using reports_reached [OF assms(1)] assms(2,3) by (simp add: reports_ok_def)
  have "pk_versions p \<noteq> [] \<and> length (pk_versions p) \<le> max_narrative_versions \<and> sorted_wrt (<) (map nv_number (pk_versions p)) \<and>
       nv_author (hd (pk_versions p)) = ''template'' \<and> (pk_source p = Edited_source \<longleftrightarrow> 1 < length (pk_versions p)) \<and>
       (nv_rendered (current_narrative p) \<longrightarrow> ow_files ow n = nv_sections (current_narrative p))" if "rn_pack r = Some p" for p
  proof -
    have v: "versions_ok p" and f: "nv_rendered (current_narrative p) \<longrightarrow> ow_files ow n = nv_sections (current_narrative p)"
      using ok that by (simp_all add: run_ok_def)
    have "pk_source p = Edited_source \<longleftrightarrow> length (pk_versions p) \<noteq> 1" using v by (cases "pk_source p") (simp_all add: versions_ok_def)
    with v f show ?thesis by (cases "pk_versions p") (auto simp: versions_ok_def)
  qed
  with ok show ?thesis by (auto simp: run_ok_def)
qed


subsection \<open>Runs at a sample account\<close>

definition sample_report_env :: "(string \<Rightarrow> string \<Rightarrow> ymd \<times> ymd \<Rightarrow> build_result) \<Rightarrow> report_env" where
  "sample_report_env build = \<lparr>re_now = 1000, re_num = (\<lambda>t. None), re_zone = (\<lambda>a. fixed_zone 0), re_sender = (\<lambda>a. Some ''desk''),
     re_sends = (\<lambda>a. True), re_build = build\<rparr>"

definition sample_plan :: "bool \<Rightarrow> string \<Rightarrow> pack_schedule" where
  "sample_plan review pack = \<lparr>sd_account = ''a'', sd_name = ''weekly'', sd_pack = pack,
     sd_spec = \<lparr>rs_cadence = Weekly_run, rs_run_day = 1, rs_time = ''06:00'', rs_period = Previous_week\<rparr>,
     sd_distribution = [\<lparr>rp_kind = Contact_recipient, rp_id = None, rp_email = Some ''client''\<rparr>], sd_review = review, sd_grace = 24,
     sd_enabled = True, sd_next = Some 0, sd_last = None, sd_version = 1\<rparr>"

definition sample_words :: "string \<Rightarrow> string \<Rightarrow> ymd \<times> ymd \<Rightarrow> build_result" where
  "sample_words a k p = Built ''calm'' [(''headline'', ''calm'')]"

definition sample_request :: schedule_request where
  "sample_request = \<lparr>sq_account = ''a'', sq_name = Some ''weekly'', sq_pack = None, sq_cadence = Some Weekly_run, sq_run_day = Some 1, sq_time = None,
     sq_period = None, sq_distribution = Some [\<lparr>rp_kind = Contact_recipient, rp_id = None, rp_email = Some ''client''\<rparr>], sq_review = Some True,
     sq_grace = None, sq_enabled = Some False, sq_version = 1\<rparr>"

fun report_run :: "report_op list \<Rightarrow> report_store \<times> outside \<Rightarrow> report_store \<times> outside" where
  "report_run [] w = w"
| "report_run (x # xs) w = report_run xs (settled True (fst w) (report_apply x w))"

lemma report_run_steps: "report_step\<^sup>*\<^sup>* w (report_run xs w)"
proof (induction xs arbitrary: w)
  case (Cons x xs)
  have "report_step w (settled True (fst w) (report_apply x w))" by (rule op_step)
  then have "report_step\<^sup>*\<^sup>* w (report_run xs (settled True (fst w) (report_apply x w)))" using Cons.IH by (rule converse_rtranclp_into_rtranclp)
  then show ?case by simp
qed simp

definition sample_week :: "ymd \<times> ymd" where "sample_week = (Ymd 2026 1 5, Ymd 2026 1 11)"

definition sample_reports :: "report_op list" where
  "sample_reports = [Op_create (sample_report_env sample_words) [''a''] sample_request, Op_run_now (sample_report_env sample_words) ''ann'' 0 (Some sample_week),
     Op_edit ''ben'' 0 [(''headline'', ''better'')]]"

text \<open>The reader of a review need not be a second one for the words: who edited the narrative may approve it.\<close>

theorem editor_approves_own_words:
  "let w = report_run (sample_reports @ [Op_approve (sample_report_env sample_words) ''ben'' 0]) no_reports in
     nv_author (current_narrative (the (rn_pack (ro_runs (fst w) ! 0)))) = ''ben'' \<and> rn_reviewer (ro_runs (fst w) ! 0) = Some ''ben'' \<and>
     ow_mails (snd w) = [\<lparr>pm_to = ''client'', pm_run = 0, pm_shows = [(''headline'', ''better'')]\<rparr>]"
  by code_simp

theorem report_runs_sound_witness:
  "let w = report_run (sample_reports @ [Op_approve (sample_report_env sample_words) ''ben'' 0]) no_reports in
     rn_status (ro_runs (fst w) ! 0) = Run_sent \<and> rn_reviewer (ro_runs (fst w) ! 0) \<noteq> Some (rn_requested (ro_runs (fst w) ! 0))"
proof -
  define w where "w = report_run (sample_reports @ [Op_approve (sample_report_env sample_words) ''ben'' 0]) no_reports"
  have "report_step\<^sup>*\<^sup>* no_reports (fst w, snd w)" using report_run_steps by (simp add: w_def)
  moreover have "0 < length (ro_runs (fst w))" and sent: "rn_status (ro_runs (fst w) ! 0) = Run_sent" unfolding w_def by code_simp+
  ultimately have "rn_reviewer (ro_runs (fst w) ! 0) \<noteq> Some (rn_requested (ro_runs (fst w) ! 0))"
    using report_runs_sound [of "fst w" "snd w" 0 "ro_runs (fst w) ! 0"] by simp
  with sent show ?thesis by (simp add: w_def [symmetric] Let_def)
qed


text \<open>A build that fails in the database ends the account's transaction: the packs delivered before it in the same pass are
  on their way, their runs and the advance of their schedules are not, and the next pass delivers them again.\<close>

theorem failing_schedule_resends:
  "let e = sample_report_env (\<lambda>a k p. if k = ''qbr'' then Statement_fails else sample_words a k p);
       w0 = (\<lparr>ro_schedules = [sample_plan False ''wsr'', sample_plan False ''qbr''], ro_runs = []\<rparr>, \<lparr>ow_mails = [], ow_files = (\<lambda>n. [])\<rparr>);
       w1 = report_run [Op_due e ''a'' 20] w0; w2 = report_run [Op_due e ''a'' 20] w1 in
     fst w1 = fst w0 \<and> map pm_to (ow_mails (snd w1)) = [''client''] \<and> fst w2 = fst w0 \<and> map pm_to (ow_mails (snd w2)) = [''client'', ''client'']"
  by code_simp

end
