(* ===== verification/Knowledge.thy ===== *)
theory Knowledge
  imports Prelude
begin

section \<open>The knowledge base (src/modules/knowledge, src/domain/knowledge/generalization-check.ts)\<close>

text \<open>
  Articles with their versions: drafted, reviewed, published, retired, shared, and copied to the global account
  after the identifier checklist. Articles are named by their position, the versions of an article by theirs.
  The row policies of migration 0007 are the predicate \<open>sees\<close>. The patterns of the checklist, and what the
  directory knows of an account, are parameters. Lists, search, ticket rows, audit and outbox rows are left out.
\<close>

subsection \<open>Rows\<close>

definition version_sections :: "string list" where
  "version_sections = [''problem_statement'', ''environment'', ''symptoms'', ''cause'', ''steps'', ''verification'', ''rollback'', ''client_notes'']"

datatype article_status = Art_draft | Art_in_review | Art_published | Art_retired

record kb_version =
  kv_number :: nat
  kv_text :: "string \<Rightarrow> string"
  kv_author :: string
  kv_published :: "ms option"

record article =
  ar_account :: string
  ar_title :: string
  ar_kind :: string
  ar_categories :: "string list"
  ar_self :: string
  ar_effort :: "string option"
  ar_owner :: string
  ar_status :: article_status
  ar_global :: bool
  ar_current :: "nat option"
  ar_reviewer :: "string option"
  ar_verified :: "ms option"
  ar_retired :: "(ms \<times> string) option"
  ar_ticket :: "nat option"
  ar_from :: "nat option"
  ar_visible :: "string list"
  ar_version :: int
  ar_versions :: "kb_version list"

record solution_link =
  sl_ticket :: nat
  sl_article :: nat
  sl_version :: nat
  sl_outcome :: string
  sl_actor :: string

record kb_store =
  kb_articles :: "article list"
  kb_links :: "solution_link list"

definition global_account :: string where
  "global_account = ''00000000-0000-4000-8000-000000000001''"

record kb_principal =
  kp_user :: string
  kp_accounts :: "string list"
  kp_admin :: bool

text \<open>Readable: global, owned by a bound account, or shared with one.\<close>

definition sees :: "string list \<Rightarrow> article \<Rightarrow> bool" where
  "sees accounts a \<longleftrightarrow> ar_global a \<or> ar_account a \<in> set accounts \<or> (\<exists>x\<in>set (ar_visible a). x \<in> set accounts)"

datatype kb_fault =
    Article_not_found | Not_owner_account | Article_retired | Article_stale | Invalid_article_transition article_status | Nothing_to_publish
  | Reviewer_must_differ | Missing_requirements "string list" | Generalization_findings "(string \<times> string \<times> string) list"
  | Global_article | Visibility_twice | Nothing_to_generalize | Article_not_published

subsection \<open>The identifier checklist\<close>

record kb_patterns =
  kc_emails :: "string \<Rightarrow> string list"
  kc_example :: "string \<Rightarrow> bool"
  kc_addresses :: "string \<Rightarrow> string list"
  kc_references :: "string \<Rightarrow> string list"

record kb_context =
  kx_accounts :: "string list"
  kx_contacts :: "string list"
  kx_hosts :: "string list"

definition worth_checking :: "string list \<Rightarrow> string list" where
  "worth_checking names = filter (\<lambda>n. 3 \<le> length (js_trim n)) names"

definition named_in :: "string \<Rightarrow> string list \<Rightarrow> string list" where
  "named_in content names = filter (\<lambda>n. includes_str (js_lower n) (js_lower content)) names"

definition section_findings :: "kb_patterns \<Rightarrow> kb_context \<Rightarrow> string \<Rightarrow> string \<Rightarrow> (string \<times> string \<times> string) list" where
  "section_findings pat cx name content =
     (if content = [] then []
      else map (\<lambda>v. (name, ''account_name'', v)) (named_in content (worth_checking (kx_accounts cx))) @
           map (\<lambda>v. (name, ''contact_name'', v)) (named_in content (worth_checking (kx_contacts cx))) @
           map (\<lambda>v. (name, ''hostname'', v)) (named_in content (worth_checking (kx_hosts cx))) @
           map (\<lambda>v. (name, ''email'', v)) (filter (\<lambda>e. \<not> kc_example pat e) (kc_emails pat content)) @
           map (\<lambda>v. (name, ''ip_address'', v)) (kc_addresses pat content) @
           map (\<lambda>v. (name, ''attachment'', v)) (kc_references pat content))"

fun dedupe_findings :: "(string \<times> string \<times> string) list \<Rightarrow> (string \<times> string \<times> string) list \<Rightarrow> (string \<times> string \<times> string) list" where
  "dedupe_findings seen [] = []"
| "dedupe_findings seen ((s, k, v) # fs) =
     (if (s, k, js_lower v) \<in> set seen then dedupe_findings seen fs else (s, k, v) # dedupe_findings ((s, k, js_lower v) # seen) fs)"

definition check_generalization :: "kb_patterns \<Rightarrow> kb_context \<Rightarrow> (string \<times> string) list \<Rightarrow> (string \<times> string \<times> string) list" where
  "check_generalization pat cx sections = dedupe_findings [] (concat (map (\<lambda>(n, t). section_findings pat cx n t) sections))"

text \<open>What the check may read: the names of any account, contacts and hosts of bound accounts only.\<close>

record kb_directory =
  kd_names :: "string \<Rightarrow> string list"
  kd_contacts :: "string \<Rightarrow> string list"
  kd_hosts :: "string \<Rightarrow> string list"

definition source_account :: "string list \<Rightarrow> kb_store \<Rightarrow> article \<Rightarrow> string option" where
  "source_account accounts st a =
     (if \<not> ar_global a then Some (ar_account a)
      else case ar_from a of None \<Rightarrow> None
        | Some j \<Rightarrow> if j < length (kb_articles st) \<and> sees accounts (kb_articles st ! j) then Some (ar_account (kb_articles st ! j)) else None)"

definition kb_findings :: "kb_patterns \<Rightarrow> kb_directory \<Rightarrow> string list \<Rightarrow> kb_store \<Rightarrow> article \<Rightarrow> (string \<Rightarrow> string) \<Rightarrow> (string \<times> string \<times> string) list" where
  "kb_findings pat dir accounts st a content =
     (case source_account accounts st a of
        None \<Rightarrow> []
      | Some acct \<Rightarrow>
          check_generalization pat
            \<lparr>kx_accounts = filter (\<lambda>n. n \<noteq> []) (kd_names dir acct),
             kx_contacts = (if acct \<in> set accounts then kd_contacts dir acct else []),
             kx_hosts = (if acct \<in> set accounts then kd_hosts dir acct else [])\<rparr>
            (map (\<lambda>s. (s, content s)) version_sections))"

subsection \<open>Drafting\<close>

definition new_article :: "string \<Rightarrow> string \<Rightarrow> string \<Rightarrow> article" where
  "new_article account title owner = \<lparr>ar_account = account, ar_title = title, ar_kind = ''solution'', ar_categories = [], ar_self = ''none'',
     ar_effort = None, ar_owner = owner, ar_status = Art_draft, ar_global = False, ar_current = None, ar_reviewer = None, ar_verified = None,
     ar_retired = None, ar_ticket = None, ar_from = None, ar_visible = [], ar_version = 1, ar_versions = []\<rparr>"

definition first_draft :: "(string \<Rightarrow> string) \<Rightarrow> string \<Rightarrow> kb_version" where
  "first_draft content author = \<lparr>kv_number = 1, kv_text = content, kv_author = author, kv_published = None\<rparr>"

definition sent_text :: "(string \<times> string) list \<Rightarrow> string \<Rightarrow> string" where
  "sent_text sent s = (case map_of sent s of None \<Rightarrow> [] | Some t \<Rightarrow> t)"

record article_request =
  aq_account :: string
  aq_title :: string
  aq_kind :: "string option"
  aq_categories :: "string list option"
  aq_self :: "string option"
  aq_effort :: "string option"
  aq_sections :: "(string \<times> string) list"

definition create_article :: "kb_principal \<Rightarrow> article_request \<Rightarrow> kb_store \<Rightarrow> kb_fault + kb_store" where
  "create_article p q st =
     and_then (guard_or (aq_account q \<in> set (kp_accounts p)) Article_not_found) (\<lambda>_.
     Inr (st\<lparr>kb_articles := kb_articles st @ [(new_article (aq_account q) (aq_title q) (kp_user p))
       \<lparr>ar_kind := (case aq_kind q of None \<Rightarrow> ''solution'' | Some k \<Rightarrow> k), ar_categories := (case aq_categories q of None \<Rightarrow> [] | Some c \<Rightarrow> c),
        ar_self := (case aq_self q of None \<Rightarrow> ''none'' | Some s \<Rightarrow> s), ar_effort := aq_effort q,
        ar_versions := [first_draft (sent_text (aq_sections q)) (kp_user p)]\<rparr>]\<rparr>))"

text \<open>What a ticket gives an article drafted from it.\<close>

record kb_ticket =
  kt_id :: nat
  kt_account :: string
  kt_short :: string
  kt_description :: "string option"
  kt_category :: "string option"
  kt_resolution :: "string option"
  kt_notes :: "string list"

definition create_candidate :: "kb_principal \<Rightarrow> kb_ticket \<Rightarrow> string option \<Rightarrow> bool \<Rightarrow> kb_store \<Rightarrow> kb_fault + kb_store" where
  "create_candidate p t title with_notes st =
     and_then (guard_or (kt_account t \<in> set (kp_accounts p)) Article_not_found) (\<lambda>_.
     let content = sent_text
           [(''problem_statement'', case kt_description t of None \<Rightarrow> kt_short t | Some d \<Rightarrow> d),
            (''steps'', join_with [CHR 0x0A, CHR 0x0A] (if with_notes then kt_notes t else [])),
            (''cause'', case kt_resolution t of None \<Rightarrow> [] | Some r \<Rightarrow> r)];
         a = (new_article (kt_account t) (case title of None \<Rightarrow> kt_short t | Some x \<Rightarrow> x) (kp_user p))
           \<lparr>ar_categories := (case kt_category t of None \<Rightarrow> [] | Some c \<Rightarrow> if c = [] then [] else [c]), ar_ticket := Some (kt_id t),
            ar_versions := [first_draft content (kp_user p)]\<rparr>
     in Inr (st\<lparr>kb_articles := kb_articles st @ [a],
          kb_links := kb_links st @ [\<lparr>sl_ticket = kt_id t, sl_article = length (kb_articles st), sl_version = 0, sl_outcome = ''created_from'', sl_actor = kp_user p\<rparr>]\<rparr>))"

definition load_article :: "kb_principal \<Rightarrow> nat \<Rightarrow> kb_store \<Rightarrow> kb_fault + article" where
  "load_article p i st =
     (if i < length (kb_articles st) \<and> sees (kp_accounts p) (kb_articles st ! i) then Inr (kb_articles st ! i) else Inl Article_not_found)"

definition lock_owned :: "kb_principal \<Rightarrow> nat \<Rightarrow> kb_store \<Rightarrow> kb_fault + article" where
  "lock_owned p i st =
     and_then (load_article p i st) (\<lambda>a. and_then (guard_or (ar_account a \<in> set (kp_accounts p)) Not_owner_account) (\<lambda>_. Inr a))"

definition put_article :: "nat \<Rightarrow> article \<Rightarrow> kb_store \<Rightarrow> kb_store" where
  "put_article i a st = st\<lparr>kb_articles := (kb_articles st)[i := a]\<rparr>"

text \<open>The newest unpublished version.\<close>

definition draft_of :: "article \<Rightarrow> nat option" where
  "draft_of a = (case filter (\<lambda>i. kv_published (ar_versions a ! i) = None) (rev [0..<length (ar_versions a)]) of [] \<Rightarrow> None | i # _ \<Rightarrow> Some i)"

definition next_version_number :: "article \<Rightarrow> nat" where
  "next_version_number a = foldr max (map kv_number (ar_versions a)) 0 + 1"

definition replaced_draft :: "(string \<times> string) list \<Rightarrow> string \<Rightarrow> kb_version \<Rightarrow> kb_version" where
  "replaced_draft sent author v = v\<lparr>kv_text := (\<lambda>s. case map_of sent s of None \<Rightarrow> kv_text v s | Some t \<Rightarrow> t), kv_author := author\<rparr>"

definition with_draft :: "string \<Rightarrow> article \<Rightarrow> article" where
  "with_draft author a =
     (case draft_of a of
        Some i \<Rightarrow> a
      | None \<Rightarrow> a\<lparr>ar_versions := ar_versions a @ [\<lparr>kv_number = next_version_number a,
            kv_text = (case ar_current a of None \<Rightarrow> (\<lambda>s. []) | Some i \<Rightarrow> kv_text (ar_versions a ! i)), kv_author = author, kv_published = None\<rparr>]\<rparr>)"

record draft_request =
  dq_version :: int
  dq_title :: "string option"
  dq_categories :: "string list option"
  dq_self :: "string option"
  dq_effort :: "string option"
  dq_sections :: "(string \<times> string) list"

definition draft_assigns :: "draft_request \<Rightarrow> article \<Rightarrow> bool" where
  "draft_assigns q a \<longleftrightarrow> dq_title q \<noteq> None \<or> dq_categories q \<noteq> None \<or> dq_self q \<noteq> None \<or> dq_effort q \<noteq> None \<or> ar_status a = Art_in_review"

definition assign_draft :: "draft_request \<Rightarrow> article \<Rightarrow> article" where
  "assign_draft q a = a\<lparr>ar_title := (case dq_title q of None \<Rightarrow> ar_title a | Some t \<Rightarrow> t), ar_categories := (case dq_categories q of None \<Rightarrow> ar_categories a | Some c \<Rightarrow> c),
     ar_self := (case dq_self q of None \<Rightarrow> ar_self a | Some s \<Rightarrow> s), ar_effort := (case dq_effort q of None \<Rightarrow> ar_effort a | Some e \<Rightarrow> Some e),
     ar_status := (if ar_status a = Art_in_review then Art_draft else ar_status a), ar_version := ar_version a + 1\<rparr>"

text \<open>A request that sets no column of the article is not asked for its version (\<open>updateVersioned\<close>).\<close>

definition update_draft :: "kb_principal \<Rightarrow> nat \<Rightarrow> draft_request \<Rightarrow> kb_store \<Rightarrow> kb_fault + kb_store" where
  "update_draft p i q st =
     and_then (lock_owned p i st) (\<lambda>a.
     and_then (guard_or (ar_status a \<noteq> Art_retired) Article_retired) (\<lambda>_.
     let a1 = with_draft (kp_user p) a; d = the (draft_of a1);
         a2 = a1\<lparr>ar_versions := (ar_versions a1)[d := replaced_draft (dq_sections q) (kp_user p) (ar_versions a1 ! d)]\<rparr>
     in if \<not> draft_assigns q a then Inr (put_article i a2 st)
        else and_then (guard_or (dq_version q = ar_version a) Article_stale) (\<lambda>_. Inr (put_article i (assign_draft q a2) st))))"

subsection \<open>Review and publication\<close>

definition submit_article :: "kb_principal \<Rightarrow> nat \<Rightarrow> int \<Rightarrow> kb_store \<Rightarrow> kb_fault + kb_store" where
  "submit_article p i version st =
     and_then (lock_owned p i st) (\<lambda>a.
     and_then (guard_or (ar_status a = Art_draft) (Invalid_article_transition (ar_status a))) (\<lambda>_.
     and_then (guard_or (version = ar_version a) Article_stale) (\<lambda>_.
     Inr (put_article i (a\<lparr>ar_status := Art_in_review, ar_version := ar_version a + 1\<rparr>) st))))"

definition required_sections :: "string list" where
  "required_sections = [''problem_statement'', ''steps'']"

definition blank_sections :: "(string \<Rightarrow> string) \<Rightarrow> string list" where
  "blank_sections content = filter (\<lambda>s. js_trim (content s) = []) required_sections"

definition publish_article :: "kb_patterns \<Rightarrow> kb_directory \<Rightarrow> kb_principal \<Rightarrow> nat \<Rightarrow> int \<Rightarrow> ms \<Rightarrow> kb_store \<Rightarrow> kb_fault + kb_store" where
  "publish_article pat dir p i version now st =
     and_then (lock_owned p i st) (\<lambda>a.
     and_then (guard_or (ar_status a \<noteq> Art_retired) Article_retired) (\<lambda>_.
     case draft_of a of None \<Rightarrow> Inl Nothing_to_publish
     | Some d \<Rightarrow>
         let v = ar_versions a ! d; blanks = blank_sections (kv_text v);
             found = (if ar_global a then kb_findings pat dir (kp_accounts p) st a (kv_text v) else []) in
         and_then (guard_or (\<not> (kv_author v = kp_user p \<and> \<not> kp_admin p)) Reviewer_must_differ) (\<lambda>_.
         and_then (guard_or (blanks = []) (Missing_requirements blanks)) (\<lambda>_.
         and_then (guard_or (found = []) (Generalization_findings found)) (\<lambda>_.
         and_then (guard_or (version = ar_version a) Article_stale) (\<lambda>_.
         Inr (put_article i (a\<lparr>ar_versions := (ar_versions a)[d := v\<lparr>kv_published := Some now\<rparr>], ar_status := Art_published, ar_current := Some d,
           ar_reviewer := Some (kp_user p), ar_verified := Some now, ar_version := ar_version a + 1\<rparr>) st)))))))"

definition retire_article :: "kb_principal \<Rightarrow> nat \<Rightarrow> int \<Rightarrow> string \<Rightarrow> ms \<Rightarrow> kb_store \<Rightarrow> kb_fault + kb_store" where
  "retire_article p i version reason now st =
     and_then (lock_owned p i st) (\<lambda>a.
     and_then (guard_or (version = ar_version a) Article_stale) (\<lambda>_.
     Inr (put_article i (a\<lparr>ar_status := Art_retired, ar_retired := Some (now, reason), ar_version := ar_version a + 1\<rparr>) st)))"

definition replace_visibility :: "string list \<Rightarrow> kb_principal \<Rightarrow> nat \<Rightarrow> string list \<Rightarrow> kb_store \<Rightarrow> kb_fault + kb_store" where
  "replace_visibility existing p i accounts st =
     and_then (lock_owned p i st) (\<lambda>a.
     and_then (guard_or (\<not> ar_global a) Global_article) (\<lambda>_.
     let others = filter (\<lambda>x. x \<noteq> ar_account a) accounts in
     and_then (guard_or (list_all (\<lambda>x. x \<in> set existing) others) Article_not_found) (\<lambda>_.
     and_then (guard_or (distinct others) Visibility_twice) (\<lambda>_.
     Inr (put_article i (a\<lparr>ar_visible := others\<rparr>) st)))))"

subsection \<open>Generalization, links and the portal\<close>

text \<open>The copy, or the findings that keep it from being made. The binding has the global account besides the caller's.\<close>

definition generalize_article :: "kb_patterns \<Rightarrow> kb_directory \<Rightarrow> kb_principal \<Rightarrow> nat \<Rightarrow> (string \<times> string) list \<Rightarrow> kb_store \<Rightarrow>
    kb_fault + (kb_store + (string \<times> string \<times> string) list)" where
  "generalize_article pat dir p i sent st =
     (let accounts = kp_accounts p @ [global_account] in
      and_then (load_article (p\<lparr>kp_accounts := accounts\<rparr>) i st) (\<lambda>a.
      and_then (guard_or (\<not> ar_global a) Global_article) (\<lambda>_.
      case (case ar_current a of Some j \<Rightarrow> Some j | None \<Rightarrow> draft_of a) of
        None \<Rightarrow> Inl Nothing_to_generalize
      | Some j \<Rightarrow>
          let content = (\<lambda>s. case map_of sent s of None \<Rightarrow> kv_text (ar_versions a ! j) s | Some t \<Rightarrow> t);
              found = kb_findings pat dir accounts st a content in
          if found \<noteq> [] then Inr (Inr found)
          else Inr (Inl (st\<lparr>kb_articles := kb_articles st @ [(new_article global_account (ar_title a) (kp_user p))
            \<lparr>ar_kind := ar_kind a, ar_categories := ar_categories a, ar_self := ar_self a, ar_effort := ar_effort a, ar_global := True, ar_from := Some i,
             ar_versions := [first_draft content (kp_user p)]\<rparr>]\<rparr>)))))"

definition link_solution :: "kb_principal \<Rightarrow> kb_ticket \<Rightarrow> nat \<Rightarrow> string option \<Rightarrow> kb_store \<Rightarrow> kb_fault + kb_store" where
  "link_solution p t i outcome st =
     and_then (guard_or (kt_account t \<in> set (kp_accounts p)) Article_not_found) (\<lambda>_.
     and_then (load_article p i st) (\<lambda>a.
     case ar_current a of
       None \<Rightarrow> Inl Article_not_published
     | Some j \<Rightarrow>
         if ar_status a \<noteq> Art_published then Inl Article_not_published
         else Inr (st\<lparr>kb_links := kb_links st @ [\<lparr>sl_ticket = kt_id t, sl_article = i, sl_version = j,
                sl_outcome = (case outcome of None \<Rightarrow> ''resolved_by'' | Some x \<Rightarrow> x), sl_actor = kp_user p\<rparr>]\<rparr>)))"

text \<open>What a client reads: the title and the client notes, of published articles its account sees.\<close>

definition portal_article :: "string \<Rightarrow> nat \<Rightarrow> kb_store \<Rightarrow> kb_fault + (string \<times> string \<times> ms option)" where
  "portal_article account i st =
     (if i < length (kb_articles st) \<and> ar_status (kb_articles st ! i) = Art_published \<and> sees [account] (kb_articles st ! i) then
        let a = kb_articles st ! i in
        (case ar_current a of
           None \<Rightarrow> Inr (ar_title a, [], None)
         | Some j \<Rightarrow>
             if j < length (ar_versions a) \<and> kv_published (ar_versions a ! j) \<noteq> None
             then Inr (ar_title a, kv_text (ar_versions a ! j) ''client_notes'', kv_published (ar_versions a ! j))
             else Inr (ar_title a, [], None))
      else Inl Article_not_found)"

subsection \<open>Histories\<close>

text \<open>Any sequence of operations that succeed; \<open>admins\<close> are the users with \<open>admin:config\<close>.\<close>

inductive kb_step :: "(string \<Rightarrow> bool) \<Rightarrow> kb_store \<Rightarrow> kb_store \<Rightarrow> bool" for admins where
  article_created: "create_article p q st = Inr st' \<Longrightarrow> kb_step admins st st'"
| candidate_created: "create_candidate p t title with_notes st = Inr st' \<Longrightarrow> kb_step admins st st'"
| draft_updated: "update_draft p i dq st = Inr st' \<Longrightarrow> kb_step admins st st'"
| article_submitted: "submit_article p i version st = Inr st' \<Longrightarrow> kb_step admins st st'"
| article_published: "kp_admin p = admins (kp_user p) \<Longrightarrow> publish_article pat dir p i version now st = Inr st' \<Longrightarrow> kb_step admins st st'"
| article_withdrawn: "retire_article p i version reason now st = Inr st' \<Longrightarrow> kb_step admins st st'"
| visibility_replaced: "replace_visibility existing p i accounts st = Inr st' \<Longrightarrow> kb_step admins st st'"
| article_generalized: "generalize_article pat dir p i sent st = Inr (Inl st') \<Longrightarrow> kb_step admins st st'"
| solution_linked: "link_solution p t i outcome st = Inr st' \<Longrightarrow> kb_step admins st st'"

definition no_articles :: kb_store where
  "no_articles = \<lparr>kb_articles = [], kb_links = []\<rparr>"

text \<open>The versions are numbered in order, all but the newest are published, and the current one is the newest published.\<close>

definition versions_ordered :: "article \<Rightarrow> bool" where
  "versions_ordered a \<longleftrightarrow> ar_versions a \<noteq> [] \<and> map kv_number (ar_versions a) = [1..<Suc (length (ar_versions a))] \<and>
     (\<forall>j < length (ar_versions a) - 1. kv_published (ar_versions a ! j) \<noteq> None)"

definition current_sound :: "(string \<Rightarrow> bool) \<Rightarrow> article \<Rightarrow> bool" where
  "current_sound admins a \<longleftrightarrow>
     (case ar_current a of
        None \<Rightarrow> length (ar_versions a) = 1 \<and> kv_published (last (ar_versions a)) = None \<and> ar_status a \<noteq> Art_published
      | Some j \<Rightarrow>
          j = (if kv_published (last (ar_versions a)) = None then length (ar_versions a) - 2 else length (ar_versions a) - 1) \<and>
          j < length (ar_versions a) \<and> kv_published (ar_versions a ! j) \<noteq> None \<and> ar_status a \<in> {Art_published, Art_retired} \<and>
          (\<exists>u. ar_reviewer a = Some u \<and> (kv_author (ar_versions a ! j) \<noteq> u \<or> admins u)) \<and> blank_sections (kv_text (ar_versions a ! j)) = [])"

definition article_ok :: "(string \<Rightarrow> bool) \<Rightarrow> article \<Rightarrow> bool" where
  "article_ok admins a \<longleftrightarrow> versions_ordered a \<and> current_sound admins a \<and> (ar_status a = Art_retired \<longleftrightarrow> ar_retired a \<noteq> None) \<and>
     (ar_global a \<longrightarrow> ar_account a = global_account \<and> ar_visible a = [] \<and> ar_from a \<noteq> None)"

lemma draft_of_last:
  assumes "versions_ordered a"
  shows "draft_of a = (if kv_published (last (ar_versions a)) = None then Some (length (ar_versions a) - 1) else None)"
proof -
  obtain m where m: "length (ar_versions a) = Suc m" using assms by (cases "ar_versions a") (auto simp: versions_ordered_def)
  have rest: "filter (\<lambda>i. kv_published (ar_versions a ! i) = None) (rev [0..<m]) = []"
    using assms m by (auto simp: versions_ordered_def filter_empty_conv)
  have "last (ar_versions a) = ar_versions a ! m" using m by (cases "ar_versions a" rule: rev_cases) auto
  with m rest show ?thesis by (simp add: draft_of_def)
qed

lemma next_version_ordered: "map kv_number (ar_versions a) = [1..<Suc n] \<Longrightarrow> next_version_number a = Suc n"
proof -
  assume n: "map kv_number (ar_versions a) = [1..<Suc n]"
  have "foldr max [1..<Suc n] 0 = n"
  proof (induction n)
    case (Suc n)
    have "foldr max xs (b :: nat) = max (foldr max xs 0) b" for xs b by (induction xs) (auto simp: max.assoc)
    note m = this [of "[1..<Suc n]" "Suc n"]
    have "[1..<Suc (Suc n)] = [1..<Suc n] @ [Suc n]" by simp
    then have "foldr max [1..<Suc (Suc n)] 0 = foldr max [1..<Suc n] (Suc n)" by (simp del: upt_Suc)
    with m Suc.IH show ?case by (simp del: upt_Suc)
  qed simp
  then show ?thesis by (simp add: next_version_number_def n)
qed

lemma new_article_ok:
  assumes "ar_versions a = [first_draft content u]" "ar_current a = None" "ar_status a = Art_draft" "ar_retired a = None"
    "ar_global a \<longrightarrow> ar_account a = global_account \<and> ar_visible a = [] \<and> ar_from a \<noteq> None"
  shows "article_ok admins a"
  using assms by (simp add: article_ok_def versions_ordered_def current_sound_def first_draft_def)

text \<open>What an operation may do to an article that is there: keep its published versions.\<close>

definition article_kept :: "article \<Rightarrow> article \<Rightarrow> bool" where
  "article_kept a b \<longleftrightarrow> length (ar_versions a) \<le> length (ar_versions b) \<and>
     (\<forall>j < length (ar_versions a). kv_published (ar_versions a ! j) \<noteq> None \<longrightarrow> ar_versions b ! j = ar_versions a ! j) \<and>
     ar_account b = ar_account a \<and> ar_global b = ar_global a \<and> ar_from b = ar_from a \<and> (ar_status a = Art_retired \<longrightarrow> ar_status b = Art_retired)"

lemma with_draft_ok:
  assumes "article_ok admins a" "ar_status a \<noteq> Art_retired"
  shows "article_ok admins (with_draft u a) \<and> article_kept a (with_draft u a) \<and> kv_published (last (ar_versions (with_draft u a))) = None \<and>
    ar_status (with_draft u a) = ar_status a \<and> ar_version (with_draft u a) = ar_version a"
proof (cases "kv_published (last (ar_versions a)) = None")
  case True
  then show ?thesis using assms draft_of_last [of a] by (simp add: with_draft_def article_ok_def article_kept_def)
next
  case False
  let ?n = "length (ar_versions a)"
  let ?v = "\<lparr>kv_number = next_version_number a, kv_text = (case ar_current a of None \<Rightarrow> (\<lambda>s. []) | Some i \<Rightarrow> kv_text (ar_versions a ! i)),
      kv_author = u, kv_published = None\<rparr>"
  have ord: "versions_ordered a" using assms(1) by (simp add: article_ok_def)
  have d: "with_draft u a = a\<lparr>ar_versions := ar_versions a @ [?v]\<rparr>"
    using False draft_of_last [OF ord] by (simp add: with_draft_def)
  have ne: "ar_versions a \<noteq> []" and nums: "map kv_number (ar_versions a) = [1..<Suc ?n]" using ord by (simp_all add: versions_ordered_def)
  have pub: "kv_published (ar_versions a ! j) \<noteq> None" if "j < ?n" for j
    using that ord False ne by (cases "j = ?n - 1") (auto simp: versions_ordered_def last_conv_nth)
  have "versions_ordered (with_draft u a)"
    using nums pub next_version_ordered [OF nums] by (auto simp: d versions_ordered_def nth_append)
  moreover have "current_sound admins (with_draft u a)"
    using assms(1) False by (auto simp: d article_ok_def current_sound_def nth_append split: option.splits)
  ultimately show ?thesis using assms by (simp add: d article_ok_def article_kept_def nth_append)
qed

lemma redraft_ok:
  assumes "article_ok admins a" "kv_published (last (ar_versions a)) = None" "kv_published v = None" "kv_number v = kv_number (last (ar_versions a))"
    "b = a\<lparr>ar_versions := (ar_versions a)[length (ar_versions a) - 1 := v]\<rparr>"
  shows "article_ok admins b \<and> article_kept a b"
proof -
  obtain vs w where vs: "ar_versions a = vs @ [w]" using assms(1) by (cases "ar_versions a" rule: rev_cases) (auto simp: article_ok_def versions_ordered_def)
  have b: "ar_versions b = vs @ [v]" by (simp add: assms(5) vs)
  have w: "kv_published w = None" "kv_number v = kv_number w" using assms(2,4) by (simp_all add: vs)
  have "versions_ordered b" using assms(1) w by (auto simp: article_ok_def versions_ordered_def b vs nth_append)
  moreover have "current_sound admins b"
    using assms(1,3) w by (auto simp: article_ok_def current_sound_def b vs nth_append assms(5) split: option.splits if_splits)
  ultimately show ?thesis using assms(1) w by (auto simp: article_ok_def article_kept_def b vs nth_append assms(5))
qed

lemma publish_ok:
  assumes "article_ok admins a" "ar_status a \<noteq> Art_retired" "kv_published (last (ar_versions a)) = None" "v = last (ar_versions a)"
    "kv_author v \<noteq> u \<or> admins u" "blank_sections (kv_text v) = []"
    "b = a\<lparr>ar_versions := (ar_versions a)[length (ar_versions a) - 1 := v\<lparr>kv_published := Some now\<rparr>], ar_status := Art_published,
      ar_current := Some (length (ar_versions a) - 1), ar_reviewer := Some u, ar_verified := Some now, ar_version := ar_version a + 1\<rparr>"
  shows "article_ok admins b \<and> article_kept a b"
proof -
  obtain vs where vs: "ar_versions a = vs @ [v]"
    using assms(1,4) by (cases "ar_versions a" rule: rev_cases) (auto simp: article_ok_def versions_ordered_def)
  have b: "ar_versions b = vs @ [v\<lparr>kv_published := Some now\<rparr>]" "ar_current b = Some (length vs)" "ar_status b = Art_published" "ar_reviewer b = Some u"
    by (simp_all add: assms(7) vs)
  have "versions_ordered b" using assms(1) by (auto simp: article_ok_def versions_ordered_def b vs nth_append)
  moreover have "current_sound admins b" using assms(5,6) by (auto simp: current_sound_def b nth_append)
  ultimately show ?thesis using assms(1,2,3) by (auto simp: article_ok_def article_kept_def b vs nth_append assms(7))
qed

definition kb_ok :: "(string \<Rightarrow> bool) \<Rightarrow> kb_store \<Rightarrow> bool" where
  "kb_ok admins st \<longleftrightarrow> (\<forall>a\<in>set (kb_articles st). article_ok admins a)"

definition kb_kept :: "kb_store \<Rightarrow> kb_store \<Rightarrow> bool" where
  "kb_kept st st' \<longleftrightarrow> length (kb_articles st) \<le> length (kb_articles st') \<and> (\<forall>i < length (kb_articles st). article_kept (kb_articles st ! i) (kb_articles st' ! i))"

lemma article_kept_refl [simp]: "article_kept a a"
  by (simp add: article_kept_def)

lemma article_kept_trans:
  assumes "article_kept a b" "article_kept b c"
  shows "article_kept a c"
proof -
  have "ar_versions c ! j = ar_versions a ! j" if "j < length (ar_versions a)" "kv_published (ar_versions a ! j) \<noteq> None" for j
  proof -
    have b: "ar_versions b ! j = ar_versions a ! j" "j < length (ar_versions b)" using assms(1) that by (auto simp: article_kept_def)
    then show ?thesis using assms(2) that by (simp add: article_kept_def)
  qed
  then show ?thesis using assms by (simp add: article_kept_def)
qed

lemma kb_added:
  assumes "kb_ok admins st" "kb_articles st' = kb_articles st @ [a]" "article_ok admins a"
  shows "kb_ok admins st' \<and> kb_kept st st'"
  using assms by (auto simp: kb_ok_def kb_kept_def nth_append)

lemma kb_put:
  assumes "kb_ok admins st" "i < length (kb_articles st)" "article_ok admins b" "article_kept (kb_articles st ! i) b"
  shows "kb_ok admins (put_article i b st) \<and> kb_kept st (put_article i b st)"
proof -
  have "kb_ok admins (put_article i b st)"
    using assms(1,3) set_update_subset_insert [of "kb_articles st" i b] by (auto simp: kb_ok_def put_article_def)
  moreover have "article_kept (kb_articles st ! j) ((kb_articles st)[i := b] ! j)" if "j < length (kb_articles st)" for j
    using assms(2,4) that by (cases "j = i") simp_all
  ultimately show ?thesis by (simp add: kb_kept_def put_article_def)
qed

lemma lock_owned_Inr:
  "lock_owned p i st = Inr a \<longleftrightarrow> i < length (kb_articles st) \<and> a = kb_articles st ! i \<and> sees (kp_accounts p) a \<and> ar_account a \<in> set (kp_accounts p)"
  by (auto simp: lock_owned_def load_article_def and_then_Inr guard_or_def split: if_splits)

lemma article_ok_frame:
  assumes "article_ok admins a" "ar_versions b = ar_versions a" "ar_current b = ar_current a" "ar_reviewer b = ar_reviewer a" "ar_retired b = ar_retired a"
    "ar_account b = ar_account a" "ar_global b = ar_global a" "ar_from b = ar_from a" "ar_visible b = ar_visible a" "ar_status b \<in> {Art_draft, Art_in_review} \<and> ar_status a \<in> {Art_draft, Art_in_review} \<or> ar_status b = ar_status a"
  shows "article_ok admins b \<and> article_kept a b"
proof -
  have "versions_ordered b" using assms(1) by (simp add: article_ok_def versions_ordered_def assms(2))
  moreover have "current_sound admins b"
    using assms(1,10) by (cases "ar_current a") (auto simp: article_ok_def current_sound_def assms(2,3,4))
  moreover have "ar_status b = Art_retired \<longleftrightarrow> ar_status a = Art_retired" using assms(10) by auto
  ultimately show ?thesis using assms(1) by (simp add: article_ok_def article_kept_def assms(2,5-9))
qed

lemma update_draft_step:
  assumes "kb_ok admins st" "update_draft p i q st = Inr st'"
  shows "kb_ok admins st' \<and> kb_kept st st'"
proof -
  define a where "a = kb_articles st ! i"
  define a1 where "a1 = with_draft (kp_user p) a"
  define n where "n = length (ar_versions a1) - 1"
  define v where "v = replaced_draft (dq_sections q) (kp_user p) (ar_versions a1 ! n)"
  define a2 where "a2 = a1\<lparr>ar_versions := (ar_versions a1)[n := v]\<rparr>"
  have l: "lock_owned p i st = Inr a" and live: "ar_status a \<noteq> Art_retired"
    using assms(2) by (auto simp: update_draft_def and_then_Inr guard_or_def a_def lock_owned_Inr Let_def split: if_splits)
  have i: "i < length (kb_articles st)" using l by (simp add: lock_owned_Inr)
  have ok: "article_ok admins a" using assms(1) i by (simp add: kb_ok_def a_def)
  note d = with_draft_ok [OF ok live, of "kp_user p", folded a1_def]
  have ord: "versions_ordered a1" using d by (simp add: article_ok_def)
  then have last: "ar_versions a1 ! n = last (ar_versions a1)" by (simp add: n_def last_conv_nth versions_ordered_def)
  have draft: "draft_of a1 = Some n" using draft_of_last [OF ord] d by (simp add: n_def)
  have a2: "article_ok admins a2 \<and> article_kept a1 a2"
    by (rule redraft_ok [of admins a1 v]) (use d last in \<open>simp_all add: v_def replaced_draft_def a2_def n_def\<close>)
  have kept: "article_kept a a2" using a2 d article_kept_trans by blast
  have status: "ar_status a2 = ar_status a" using d by (simp add: a2_def)
  have a3: "article_ok admins (assign_draft q a2) \<and> article_kept a2 (assign_draft q a2)"
    by (rule article_ok_frame) (use a2 in \<open>auto simp: assign_draft_def\<close>)
  have "st' = put_article i a2 st \<or> st' = put_article i (assign_draft q a2) st"
    using assms(2) l live by (auto simp: update_draft_def and_then_Inr guard_or_def Let_def draft a2_def v_def simp flip: a1_def split: if_splits)
  then show ?thesis
    using kb_put [OF assms(1) i, of a2] kb_put [OF assms(1) i, of "assign_draft q a2"] a2 a3 kept article_kept_trans [OF kept] by (auto simp flip: a_def)
qed

lemma publish_step:
  assumes "kb_ok admins st" "publish_article pat dir p i version now st = Inr st'" "kp_admin p = admins (kp_user p)"
  shows "kb_ok admins st' \<and> kb_kept st st'"
proof -
  define a where "a = kb_articles st ! i"
  have l: "lock_owned p i st = Inr a"
    using assms(2) by (auto simp: publish_article_def and_then_Inr a_def lock_owned_Inr)
  then have i: "i < length (kb_articles st)" by (simp add: lock_owned_Inr)
  have ok: "article_ok admins a" using assms(1) i by (simp add: kb_ok_def a_def)
  then have ord: "versions_ordered a" by (simp add: article_ok_def)
  define v where "v = last (ar_versions a)"
  have last: "ar_versions a ! (length (ar_versions a) - 1) = v" using ord by (simp add: v_def last_conv_nth versions_ordered_def)
  have facts: "ar_status a \<noteq> Art_retired" "kv_published v = None" "kv_author v \<noteq> kp_user p \<or> admins (kp_user p)" "blank_sections (kv_text v) = []"
    and st': "st' = put_article i (a\<lparr>ar_versions := (ar_versions a)[length (ar_versions a) - 1 := v\<lparr>kv_published := Some now\<rparr>], ar_status := Art_published,
        ar_current := Some (length (ar_versions a) - 1), ar_reviewer := Some (kp_user p), ar_verified := Some now, ar_version := ar_version a + 1\<rparr>) st"
    using assms(2,3) l last draft_of_last [OF ord]
    by (auto simp: publish_article_def and_then_Inr guard_or_def Let_def v_def [symmetric] split: option.splits if_splits)
  have "article_ok admins (a\<lparr>ar_versions := (ar_versions a)[length (ar_versions a) - 1 := v\<lparr>kv_published := Some now\<rparr>], ar_status := Art_published,
        ar_current := Some (length (ar_versions a) - 1), ar_reviewer := Some (kp_user p), ar_verified := Some now, ar_version := ar_version a + 1\<rparr>) \<and>
      article_kept a (a\<lparr>ar_versions := (ar_versions a)[length (ar_versions a) - 1 := v\<lparr>kv_published := Some now\<rparr>], ar_status := Art_published,
        ar_current := Some (length (ar_versions a) - 1), ar_reviewer := Some (kp_user p), ar_verified := Some now, ar_version := ar_version a + 1\<rparr>)"
    by (rule publish_ok [OF ok facts(1) _ v_def facts(3,4) refl]) (use facts(2) in \<open>simp add: v_def\<close>)
  then show ?thesis using kb_put [OF assms(1) i] by (simp add: st' a_def)
qed

lemma kb_step_ok:
  assumes "kb_step admins st st'" "kb_ok admins st"
  shows "kb_ok admins st' \<and> kb_kept st st'"
  using assms(1)
proof cases
  case (article_created p q)
  then show ?thesis
    by (intro kb_added [OF assms(2), where a = "last (kb_articles st')"])
      (auto simp: create_article_def and_then_Inr new_article_def intro!: new_article_ok)
next
  case (candidate_created p t title with_notes)
  then show ?thesis
    by (intro kb_added [OF assms(2), where a = "last (kb_articles st')"])
      (auto simp: create_candidate_def and_then_Inr Let_def new_article_def intro!: new_article_ok simp del: join_with.simps split del: if_split)
next
  case (draft_updated p i dq)
  then show ?thesis using update_draft_step [OF assms(2)] by blast
next
  case (article_submitted p i version)
  let ?a = "kb_articles st ! i"
  from article_submitted have i: "i < length (kb_articles st)" and st: "ar_status ?a = Art_draft"
    and st': "st' = put_article i (?a\<lparr>ar_status := Art_in_review, ar_version := ar_version ?a + 1\<rparr>) st"
    by (auto simp: submit_article_def and_then_Inr guard_or_def lock_owned_Inr split: if_splits)
  have "article_ok admins ?a" using assms(2) i by (simp add: kb_ok_def)
  from article_ok_frame [OF this, of "?a\<lparr>ar_status := Art_in_review, ar_version := ar_version ?a + 1\<rparr>"] st kb_put [OF assms(2) i]
  show ?thesis by (simp add: st')
next
  case (article_published p pat dir i version now)
  then show ?thesis using publish_step [OF assms(2)] by blast
next
  case (article_withdrawn p i version reason now)
  let ?a = "kb_articles st ! i"
  let ?b = "?a\<lparr>ar_status := Art_retired, ar_retired := Some (now, reason), ar_version := ar_version ?a + 1\<rparr>"
  from article_withdrawn have i: "i < length (kb_articles st)" and st': "st' = put_article i ?b st"
    by (auto simp: retire_article_def and_then_Inr guard_or_def lock_owned_Inr split: if_splits)
  have "article_ok admins ?a" using assms(2) i by (simp add: kb_ok_def)
  then have "article_ok admins ?b" by (auto simp: article_ok_def versions_ordered_def current_sound_def split: option.splits)
  then show ?thesis using kb_put [OF assms(2) i, of ?b] by (simp add: st' article_kept_def)
next
  case (visibility_replaced existing p i accounts)
  let ?a = "kb_articles st ! i"
  let ?b = "?a\<lparr>ar_visible := filter (\<lambda>x. x \<noteq> ar_account ?a) accounts\<rparr>"
  from visibility_replaced have i: "i < length (kb_articles st)" and g: "\<not> ar_global ?a" and st': "st' = put_article i ?b st"
    by (auto simp: replace_visibility_def and_then_Inr guard_or_def lock_owned_Inr Let_def split: if_splits)
  have "article_ok admins ?a" using assms(2) i by (simp add: kb_ok_def)
  then have "article_ok admins ?b" using g by (auto simp: article_ok_def versions_ordered_def current_sound_def split: option.splits)
  then show ?thesis using kb_put [OF assms(2) i, of ?b] by (simp add: st' article_kept_def)
next
  case (article_generalized pat dir p i sent)
  then show ?thesis
    by (intro kb_added [OF assms(2), where a = "last (kb_articles st')"])
      (auto simp: generalize_article_def and_then_Inr Let_def new_article_def split: if_splits option.splits intro!: new_article_ok)
next
  case (solution_linked p t i outcome)
  then have "kb_articles st' = kb_articles st"
    by (auto simp: link_solution_def and_then_Inr guard_or_def split: if_splits option.splits)
  then show ?thesis using assms(2) by (simp add: kb_ok_def kb_kept_def)
qed

subsection \<open>Properties\<close>

lemma kb_reached: "(kb_step admins)\<^sup>*\<^sup>* no_articles st \<Longrightarrow> kb_ok admins st"
  by (induction rule: rtranclp_induct) (simp add: kb_ok_def no_articles_def, use kb_step_ok in blast)

text \<open>C25: The life of an article, whatever is drafted, submitted, published, retired, shared, generalized and linked, in any
  order: its versions are numbered from one on without a gap and all but the newest are published; a published
  article stands on its newest published version, whose problem statement and steps are not blank and
  which somebody other than its last author published unless they hold \<open>admin:config\<close>; an article in draft or review
  has published nothing; a global article is in the global account and comes from another; and what a client
  reads are the client notes of that published version.\<close>

theorem knowledge_sound:
  assumes "(kb_step admins)\<^sup>*\<^sup>* no_articles st" "i < length (kb_articles st)" "a = kb_articles st ! i"
  shows "map kv_number (ar_versions a) = [1..<Suc (length (ar_versions a))] \<and>
    (\<forall>j. Suc j < length (ar_versions a) \<longrightarrow> kv_published (ar_versions a ! j) \<noteq> None) \<and>
    (ar_status a = Art_published \<longrightarrow>
       (\<exists>j u. ar_current a = Some j \<and> j < length (ar_versions a) \<and> kv_published (ar_versions a ! j) \<noteq> None \<and>
          (\<forall>k. j < k \<longrightarrow> k < length (ar_versions a) \<longrightarrow> kv_published (ar_versions a ! k) = None) \<and>
          js_trim (kv_text (ar_versions a ! j) ''problem_statement'') \<noteq> [] \<and> js_trim (kv_text (ar_versions a ! j) ''steps'') \<noteq> [] \<and>
          ar_reviewer a = Some u \<and> (kv_author (ar_versions a ! j) \<noteq> u \<or> admins u))) \<and>
    (ar_status a \<in> {Art_draft, Art_in_review} \<longrightarrow> list_all (\<lambda>v. kv_published v = None) (ar_versions a)) \<and>
    (ar_global a \<longrightarrow> ar_account a = global_account \<and> ar_from a \<noteq> None) \<and>
    (\<forall>account title client at_time. portal_article account i st = Inr (title, client, at_time) \<longrightarrow>
       ar_status a = Art_published \<and> sees [account] a \<and>
       (\<exists>j. ar_current a = Some j \<and> client = kv_text (ar_versions a ! j) ''client_notes'' \<and> at_time = kv_published (ar_versions a ! j) \<and> at_time \<noteq> None))"
proof -
  have ok: "article_ok admins a" using kb_reached [OF assms(1)] assms(2,3) by (simp add: kb_ok_def)
  then have ord: "versions_ordered a" and cur: "current_sound admins a" by (simp_all add: article_ok_def)
  have current: "\<exists>j u. ar_current a = Some j \<and> j < length (ar_versions a) \<and> kv_published (ar_versions a ! j) \<noteq> None \<and>
        (\<forall>k. j < k \<longrightarrow> k < length (ar_versions a) \<longrightarrow> kv_published (ar_versions a ! k) = None) \<and>
        blank_sections (kv_text (ar_versions a ! j)) = [] \<and> ar_reviewer a = Some u \<and> (kv_author (ar_versions a ! j) \<noteq> u \<or> admins u)"
    if pub: "ar_status a = Art_published"
  proof -
    obtain j where j: "ar_current a = Some j" using cur pub by (cases "ar_current a") (auto simp: current_sound_def)
    have "kv_published (ar_versions a ! k) = None" if "j < k" "k < length (ar_versions a)" for k
    proof -
      have "kv_published (last (ar_versions a)) = None \<and> j = length (ar_versions a) - 2"
        using cur j that by (cases "kv_published (last (ar_versions a))") (auto simp: current_sound_def)
      moreover from this that have "k = length (ar_versions a) - 1" by linarith
      ultimately show ?thesis using ord by (simp add: last_conv_nth versions_ordered_def)
    qed
    with cur j show ?thesis by (auto simp: current_sound_def)
  qed
  have "list_all (\<lambda>v. kv_published v = None) (ar_versions a)" if "ar_status a \<in> {Art_draft, Art_in_review}"
  proof (cases "ar_current a")
    case None
    then show ?thesis using cur by (cases "ar_versions a") (auto simp: current_sound_def)
  qed (use cur that in \<open>auto simp: current_sound_def\<close>)
  moreover have "\<exists>j. ar_current a = Some j \<and> client = kv_text (ar_versions a ! j) ''client_notes'' \<and> at_time = kv_published (ar_versions a ! j) \<and> at_time \<noteq> None"
    "ar_status a = Art_published" "sees [account] a"
    if "portal_article account i st = Inr (title, client, at_time)" for account title client at_time
  proof -
    show pub: "ar_status a = Art_published" and "sees [account] a"
      using that by (auto simp: portal_article_def assms(3) split: if_splits)
    from current [OF pub] that show "\<exists>j. ar_current a = Some j \<and> client = kv_text (ar_versions a ! j) ''client_notes'' \<and>
        at_time = kv_published (ar_versions a ! j) \<and> at_time \<noteq> None"
      by (auto simp: portal_article_def Let_def simp flip: assms(3) split: if_splits) metis+
  qed
  ultimately show ?thesis
    using ok ord current by (auto simp: article_ok_def versions_ordered_def blank_sections_def required_sections_def split: if_splits)
qed

text \<open>A published version is never changed or removed, an article never changes its account, and a retired one stays
  retired: from any state that histories reach, by any operation.\<close>

theorem published_versions_frozen:
  assumes "(kb_step admins)\<^sup>*\<^sup>* no_articles st" "kb_step admins st st'" "i < length (kb_articles st)"
  shows "i < length (kb_articles st') \<and> ar_account (kb_articles st' ! i) = ar_account (kb_articles st ! i) \<and>
    (ar_status (kb_articles st ! i) = Art_retired \<longrightarrow> ar_status (kb_articles st' ! i) = Art_retired) \<and>
    (\<forall>j < length (ar_versions (kb_articles st ! i)). kv_published (ar_versions (kb_articles st ! i) ! j) \<noteq> None \<longrightarrow>
       j < length (ar_versions (kb_articles st' ! i)) \<and> ar_versions (kb_articles st' ! i) ! j = ar_versions (kb_articles st ! i) ! j)"
proof -
  have "kb_kept st st'" using kb_step_ok [OF assms(2) kb_reached [OF assms(1)]] by blast
  then show ?thesis using assms(3) by (auto simp: kb_kept_def article_kept_def)
qed

lemma check_nothing:
  assumes "check_generalization pat cx sections = []" "(n, t) \<in> set sections"
  shows "section_findings pat cx n t = []"
proof -
  have none: "dedupe_findings [] fs = [] \<Longrightarrow> fs = []" for fs by (cases fs) auto
  have "concat (map (\<lambda>(n, t). section_findings pat cx n t) sections) = []"
    by (rule none) (use assms(1) in \<open>simp add: check_generalization_def\<close>)
  then show ?thesis using assms(2) by (auto simp: concat_eq_Nil_conv)
qed

text \<open>The checklist holds back what it promises: when a copy is made, no section of it has a name of the account it comes
  from, in any case, nor a mailbox that is no example, an address or an attachment reference, nor, where the
  curator is bound to that account, a name of its contacts or hosts; the copy is a global draft and the original is
  as it was.\<close>

theorem generalized_copy_checked:
  assumes "generalize_article pat dir p i sent st = Inr (Inl st')"
  shows "\<exists>c a. kb_articles st' = kb_articles st @ [c] \<and> a = kb_articles st ! i \<and> ar_global c \<and> ar_status c = Art_draft \<and> ar_from c = Some i \<and>
    (\<forall>s\<in>set version_sections. let content = kv_text (hd (ar_versions c)) s; bound = ar_account a \<in> set (kp_accounts p) \<union> {global_account} in
       content \<noteq> [] \<longrightarrow>
       (\<forall>n\<in>set (kd_names dir (ar_account a)) \<union> (if bound then set (kd_contacts dir (ar_account a)) \<union> set (kd_hosts dir (ar_account a)) else {}).
          3 \<le> length (js_trim n) \<longrightarrow> \<not> includes_str (js_lower n) (js_lower content)) \<and>
       (\<forall>e\<in>set (kc_emails pat content). kc_example pat e) \<and> kc_addresses pat content = [] \<and> kc_references pat content = [])"
proof -
  define accounts where "accounts = kp_accounts p @ [global_account]"
  define a where "a = kb_articles st ! i"
  have "\<exists>j. \<not> ar_global a \<and>
    kb_findings pat dir accounts st a (\<lambda>s. case map_of sent s of None \<Rightarrow> kv_text (ar_versions a ! j) s | Some t \<Rightarrow> t) = [] \<and>
    kb_articles st' = kb_articles st @ [(new_article global_account (ar_title a) (kp_user p))
      \<lparr>ar_kind := ar_kind a, ar_categories := ar_categories a, ar_self := ar_self a, ar_effort := ar_effort a, ar_global := True, ar_from := Some i,
       ar_versions := [first_draft (\<lambda>s. case map_of sent s of None \<Rightarrow> kv_text (ar_versions a ! j) s | Some t \<Rightarrow> t) (kp_user p)]\<rparr>]"
    using assms
    by (auto simp: generalize_article_def and_then_Inr Let_def load_article_def accounts_def simp flip: a_def split: if_splits option.splits)
  then obtain j where g: "\<not> ar_global a"
    and none: "kb_findings pat dir accounts st a (\<lambda>s. case map_of sent s of None \<Rightarrow> kv_text (ar_versions a ! j) s | Some t \<Rightarrow> t) = []"
    and st': "kb_articles st' = kb_articles st @ [(new_article global_account (ar_title a) (kp_user p))
      \<lparr>ar_kind := ar_kind a, ar_categories := ar_categories a, ar_self := ar_self a, ar_effort := ar_effort a, ar_global := True, ar_from := Some i,
       ar_versions := [first_draft (\<lambda>s. case map_of sent s of None \<Rightarrow> kv_text (ar_versions a ! j) s | Some t \<Rightarrow> t) (kp_user p)]\<rparr>]"
    by blast
  define content where "content = (\<lambda>s. case map_of sent s of None \<Rightarrow> kv_text (ar_versions a ! j) s | Some t \<Rightarrow> t)"
  define cx where "cx = \<lparr>kx_accounts = filter (\<lambda>n. n \<noteq> []) (kd_names dir (ar_account a)),
      kx_contacts = (if ar_account a \<in> set accounts then kd_contacts dir (ar_account a) else []),
      kx_hosts = (if ar_account a \<in> set accounts then kd_hosts dir (ar_account a) else [])\<rparr>"
  have "check_generalization pat cx (map (\<lambda>s. (s, content s)) version_sections) = []"
    using none g by (simp add: kb_findings_def source_account_def content_def cx_def)
  then have found: "section_findings pat cx s (content s) = []" if "s \<in> set version_sections" for s
    by (rule check_nothing) (use that in auto)
  have clean: "content s \<noteq> [] \<Longrightarrow>
      (\<forall>n\<in>set (kx_accounts cx) \<union> set (kx_contacts cx) \<union> set (kx_hosts cx). 3 \<le> length (js_trim n) \<longrightarrow> \<not> includes_str (js_lower n) (js_lower (content s))) \<and>
      (\<forall>e\<in>set (kc_emails pat (content s)). kc_example pat e) \<and> kc_addresses pat (content s) = [] \<and> kc_references pat (content s) = []"
    if "s \<in> set version_sections" for s
    using found [OF that] by (auto simp: section_findings_def named_in_def worth_checking_def filter_empty_conv)
  have names: "set (kx_accounts cx) = set (kd_names dir (ar_account a)) - {[]}"
    "ar_account a \<in> set (kp_accounts p) \<union> {global_account} \<Longrightarrow> kx_contacts cx = kd_contacts dir (ar_account a) \<and> kx_hosts cx = kd_hosts dir (ar_account a)"
    by (auto simp: cx_def accounts_def)
  have short: "\<not> 3 \<le> length (js_trim [])" by simp
  show ?thesis
  proof (intro exI conjI)
    show "kb_articles st' = kb_articles st @ [last (kb_articles st')]" "a = kb_articles st ! i" by (simp_all add: st' a_def)
    show "ar_global (last (kb_articles st'))" "ar_status (last (kb_articles st')) = Art_draft" "ar_from (last (kb_articles st')) = Some i"
      by (simp_all add: st' new_article_def)
    have copied: "kv_text (hd (ar_versions (last (kb_articles st')))) = content" by (simp add: st' first_draft_def content_def)
    show "\<forall>s\<in>set version_sections. let content = kv_text (hd (ar_versions (last (kb_articles st')))) s; bound = ar_account a \<in> set (kp_accounts p) \<union> {global_account} in
       content \<noteq> [] \<longrightarrow>
       (\<forall>n\<in>set (kd_names dir (ar_account a)) \<union> (if bound then set (kd_contacts dir (ar_account a)) \<union> set (kd_hosts dir (ar_account a)) else {}).
          3 \<le> length (js_trim n) \<longrightarrow> \<not> includes_str (js_lower n) (js_lower content)) \<and>
       (\<forall>e\<in>set (kc_emails pat content). kc_example pat e) \<and> kc_addresses pat content = [] \<and> kc_references pat content = []"
      unfolding copied Let_def
    proof (intro ballI impI)
      fix s assume s: "s \<in> set version_sections" "content s \<noteq> []"
      note c = clean [OF s]
      have "\<not> includes_str (js_lower n) (js_lower (content s))"
        if "n \<in> set (kd_names dir (ar_account a)) \<union> (if ar_account a \<in> set (kp_accounts p) \<union> {global_account} then set (kd_contacts dir (ar_account a)) \<union> set (kd_hosts dir (ar_account a)) else {})"
          "3 \<le> length (js_trim n)" for n
      proof -
        have "n \<noteq> []" using that(2) short by auto
        with that names have "n \<in> set (kx_accounts cx) \<union> set (kx_contacts cx) \<union> set (kx_hosts cx)" by (auto split: if_splits)
        with c that(2) show ?thesis by blast
      qed
      with c show "(\<forall>n\<in>set (kd_names dir (ar_account a)) \<union> (if ar_account a \<in> set (kp_accounts p) \<union> {global_account} then set (kd_contacts dir (ar_account a)) \<union> set (kd_hosts dir (ar_account a)) else {}).
          3 \<le> length (js_trim n) \<longrightarrow> \<not> includes_str (js_lower n) (js_lower (content s))) \<and>
        (\<forall>e\<in>set (kc_emails pat (content s)). kc_example pat e) \<and> kc_addresses pat (content s) = [] \<and> kc_references pat (content s) = []"
        by blast
    qed
  qed
qed

subsection \<open>Runs at a sample account\<close>

definition no_patterns :: kb_patterns where
  "no_patterns = \<lparr>kc_emails = (\<lambda>t. []), kc_example = (\<lambda>e. False), kc_addresses = (\<lambda>t. []), kc_references = (\<lambda>t. [])\<rparr>"

definition sample_directory :: kb_directory where
  "sample_directory = \<lparr>kd_names = (\<lambda>a. if a = ''acme'' then [''Acme''] else []), kd_contacts = (\<lambda>a. []), kd_hosts = (\<lambda>a. [])\<rparr>"

definition curator :: "string \<Rightarrow> string list \<Rightarrow> kb_principal" where
  "curator u accounts = \<lparr>kp_user = u, kp_accounts = accounts @ [global_account], kp_admin = False\<rparr>"

definition kb_request :: "string \<Rightarrow> string \<Rightarrow> article_request" where
  "kb_request account title = \<lparr>aq_account = account, aq_title = title, aq_kind = None, aq_categories = None, aq_self = None, aq_effort = None,
     aq_sections = [(''problem_statement'', ''queue stuck''), (''steps'', ''restart''), (''client_notes'', ''done'')]\<rparr>"

definition draft_edit :: "int \<Rightarrow> (string \<times> string) list \<Rightarrow> draft_request" where
  "draft_edit version sent = \<lparr>dq_version = version, dq_title = None, dq_categories = None, dq_self = None, dq_effort = None, dq_sections = sent\<rparr>"

definition after_ok :: "kb_fault + kb_store \<Rightarrow> (kb_store \<Rightarrow> kb_fault + kb_store) \<Rightarrow> kb_fault + kb_store" where
  "after_ok r f = and_then r f"

definition drafted :: kb_store where
  "drafted = (case create_article (curator ''ann'' [''acme'']) (kb_request ''acme'' ''Acme queue stuck'') no_articles of Inr st \<Rightarrow> st | Inl f \<Rightarrow> no_articles)"

definition live :: kb_store where
  "live = (case publish_article no_patterns sample_directory (curator ''ben'' [''acme'']) 0 1 10 drafted of Inr st \<Rightarrow> st | Inl f \<Rightarrow> no_articles)"

lemma sample_steps:
  "(kb_step (\<lambda>u. False))\<^sup>*\<^sup>* no_articles drafted" "kb_step (\<lambda>u. False) drafted live"
proof -
  have c: "isl (create_article (curator ''ann'' [''acme'']) (kb_request ''acme'' ''Acme queue stuck'') no_articles) = False"
    and p: "isl (publish_article no_patterns sample_directory (curator ''ben'' [''acme'']) 0 1 10 drafted) = False" by code_simp+
  from c have "create_article (curator ''ann'' [''acme'']) (kb_request ''acme'' ''Acme queue stuck'') no_articles = Inr drafted"
    by (auto simp: drafted_def split: sum.splits)
  then show "(kb_step (\<lambda>u. False))\<^sup>*\<^sup>* no_articles drafted" by (blast intro: article_created)
  from p have "publish_article no_patterns sample_directory (curator ''ben'' [''acme'']) 0 1 10 drafted = Inr live"
    by (auto simp: live_def split: sum.splits)
  then show "kb_step (\<lambda>u. False) drafted live" by (rule article_published [rotated]) (simp add: curator_def)
qed

theorem knowledge_sound_witness:
  "\<exists>j u. ar_current (kb_articles live ! 0) = Some j \<and> ar_reviewer (kb_articles live ! 0) = Some u \<and> kv_author (ar_versions (kb_articles live ! 0) ! j) \<noteq> u"
proof -
  have reached: "(kb_step (\<lambda>u. False))\<^sup>*\<^sup>* no_articles live" using sample_steps by (rule rtranclp.rtrancl_into_rtrancl)
  have "0 < length (kb_articles live)" "ar_status (kb_articles live ! 0) = Art_published" by code_simp+
  with knowledge_sound [OF reached, of 0 "kb_articles live ! 0"] show ?thesis by auto
qed

theorem published_versions_frozen_witness:
  "0 < length (kb_articles live) \<and> ar_account (kb_articles live ! 0) = ar_account (kb_articles drafted ! 0)"
proof -
  have "0 < length (kb_articles drafted)" by code_simp
  from published_versions_frozen [OF sample_steps this] show ?thesis by blast
qed

definition copied :: kb_store where
  "copied = (case generalize_article no_patterns sample_directory (curator ''ann'' [''acme'']) 0 [] live of Inr (Inl st) \<Rightarrow> st | _ \<Rightarrow> no_articles)"

lemma copied_made: "generalize_article no_patterns sample_directory (curator ''ann'' [''acme'']) 0 [] live = Inr (Inl copied)"
proof -
  have "(case generalize_article no_patterns sample_directory (curator ''ann'' [''acme'']) 0 [] live of Inr (Inl st) \<Rightarrow> True | _ \<Rightarrow> False)" by code_simp
  then show ?thesis by (auto simp: copied_def split: sum.splits)
qed

theorem generalized_copy_checked_witness:
  "\<exists>c. kb_articles copied = kb_articles live @ [c] \<and> ar_global c \<and> ar_from c = Some 0"
  using generalized_copy_checked [OF copied_made] by blast

text \<open>The title is not on the checklist: the global copy carries the account's name in it.\<close>

theorem global_title_names_account:
  "ar_global (kb_articles copied ! 1) \<and> ar_title (kb_articles copied ! 1) = ''Acme queue stuck'' \<and> kd_names sample_directory ''acme'' = [''Acme'']"
  by code_simp

text \<open>A global draft that names the account is published by a curator who is not bound to it: the original is not
  visible to them, and without it nothing is checked.\<close>

theorem global_draft_unchecked:
  "(case after_ok (update_draft (curator ''ann'' [''acme'']) 1 (draft_edit 1 [(''symptoms'', ''seen at Acme'')]) copied)
        (\<lambda>st. publish_article no_patterns sample_directory (curator ''cat'' [''zeta'']) 1 1 20 st) of
      Inl f \<Rightarrow> False
    | Inr st \<Rightarrow> (case portal_article ''zeta'' 1 st of Inr (title, client, at_time) \<Rightarrow> at_time = Some 20 | Inl f \<Rightarrow> False) \<and>
        kv_text (ar_versions (kb_articles st ! 1) ! 0) ''symptoms'' = ''seen at Acme'') \<and>
   (case after_ok (update_draft (curator ''ann'' [''acme'']) 1 (draft_edit 1 [(''symptoms'', ''seen at Acme'')]) copied)
        (\<lambda>st. publish_article no_patterns sample_directory (curator ''cat'' [''acme'']) 1 1 20 st) of
      Inl f \<Rightarrow> f = Generalization_findings [(''symptoms'', ''account_name'', ''Acme'')] | Inr st \<Rightarrow> False)"
  by code_simp

text \<open>An edit that sends sections only is not asked for its version, so one made on an old text overwrites a newer one.\<close>

theorem stale_draft_overwrites:
  "(case after_ok (update_draft (curator ''ann'' [''acme'']) 0 (draft_edit 1 [(''steps'', ''restart the broker'')]) drafted)
        (\<lambda>st. update_draft (curator ''ben'' [''acme'']) 0 (draft_edit 0 [(''steps'', ''wait'')]) st) of
      Inl f \<Rightarrow> False | Inr st \<Rightarrow> kv_text (ar_versions (kb_articles st ! 0) ! 0) ''steps'' = ''wait'')"
  by code_simp

text \<open>The author of a draft is whoever edited it last: after a colleague's edit, its writer may publish it.\<close>

theorem writer_publishes_after_edit:
  "isl (publish_article no_patterns sample_directory (curator ''ann'' [''acme'']) 0 1 10 drafted) \<and>
   (case after_ok (update_draft (curator ''ben'' [''acme'']) 0 (draft_edit 1 []) drafted)
        (\<lambda>st. publish_article no_patterns sample_directory (curator ''ann'' [''acme'']) 0 1 10 st) of
      Inl f \<Rightarrow> False | Inr st \<Rightarrow> ar_reviewer (kb_articles st ! 0) = Some ''ann'')"
  by code_simp

end
