(* ===== verification/Spec2Isabelle.thy ===== *)
theory Spec2Isabelle
  imports Ticket_Life Time_Life Forms Csat After_Hours Csv Billing Budget Profitability Capacity Demand Retry Sync_Rules Sync_Maps Webhooks Access_Life Rate_Limit Webhook_Life Sync_Properties Connector_Maps Email_Properties Outbox Report_Schedule Report_Measures Ticket_Queries Worker_Jobs Report_Packs Knowledge
begin

text \<open>
  A verification development of the XMS backend, a NestJS service (\<open>src/src\<close>) behind which consultants run the
  support desks of client accounts: tickets with SLA clocks, time and budgets, forms and surveys, and the
  exchange with mail, webhooks and the clients' own ServiceNow instances.

  \<^bold>\<open>How the program is put together.\<close> A request passes one guard (who is it, which accounts, which permission),
  then one handler of a service, which runs in one transaction (\<open>db/unit-of-work.ts\<close>), decides with the pure rules
  under \<open>domain/\<close>, and writes its rows together with an outbox row. A worker process reads the outbox and
  calls the handlers that turn a change into mail, webhook deliveries and sync rows, and it runs the jobs
  (polls, sweeps, reminders, retries) under leases. The theories follow that: rules first, then the service that
  uses them with the rows it writes as a record, then a \<open>_Life\<close> theory that closes the service's handlers
  under a step relation and carries its invariants over every history.

  \<^bold>\<open>Conventions.\<close> The prelude lists how JavaScript values are represented. A handler is a function from its
  arguments and the rows to a fault (\<open>Inl\<close>) or the new rows and result (\<open>Inr\<close>); a fault leaves the rows as
  they were, which is the rollback. The current time is an argument. A row is a \<open>record\<close> with the source's
  columns that matter to the component; a row's id is its position where the code only compares ids.
  Code that is not in the repository is a parameter: the zone database, cryptography, regular expressions,
  \<open>Number\<close> and \<open>Date.parse\<close> of a text, the HTTP client, the external ServiceNow.

  \<^bold>\<open>Theories and sources.\<close>
  \<^item> \<open>Prelude\<close>, \<open>Json_Value\<close>, \<open>Civil_Date\<close>, \<open>Graph_Walk\<close>, \<open>Retry\<close>: strings, rounding, insertion-ordered maps,
    untyped JSON, calendar dates and day loops, the reachability walk two parts share, and the retry ladder
    of three components, the last two as locales.
  \<^item> \<open>State_Machine\<close>, \<open>Close_Discipline\<close>, \<open>Priority_Policy\<close>, \<open>Change_Window\<close>: \<open>domain/tickets/\<close> and
    \<open>domain/sla/policy.ts\<close>, each with its validator of a configuration body. \<open>Ticket_Service\<close> and \<open>Ticket_Operations\<close>:
    the handlers of \<open>modules/tickets/tickets.service.ts\<close> over the record \<open>store\<close> of one ticket's rows.
    \<open>Ticket_Life\<close>: any interleaving of them. Shown: a validated machine is never left, a transition passes its
    gate, clocks are paused exactly in pausing states, versions guard every write, decided scope is booked once.
  \<^item> \<open>Sla_Engine\<close> (\<open>domain/sla/engine.ts\<close>) against the contract \<open>working_calendar\<close>; \<open>Business_Calendar\<close>
    (\<open>domain/calendar/business-calendar.ts\<close>), which discharges it for the calendars the editor accepts;
    \<open>After_Hours\<close> (\<open>after-hours.ts\<close>); \<open>Sla_Life\<close>, the clocks under any sequence of operations.
  \<^item> \<open>Billing\<close>, \<open>Budget\<close>, \<open>Profitability\<close> (\<open>domain/time/\<close>); \<open>Time_Service\<close> (\<open>modules/time/\<close>) and \<open>Time_Life\<close>: entries
    are never changed, adjustments append, a locked month is frozen and its export is what was locked.
  \<^item> \<open>Capacity\<close>, \<open>Demand\<close> (\<open>domain/capacity/\<close>, \<open>domain/time/unlogged.ts\<close>), \<open>Csv\<close>, \<open>Report_Schedule\<close> and
    \<open>Report_Measures\<close> (\<open>domain/reporting/\<close>): person months, demand, cells that read back, the periods of report packs,
    the measures of a dashboard and the health score with its factors.
  \<^item> \<open>Forms\<close>, \<open>Csat\<close>: \<open>domain/portal/\<close> with \<open>modules/portal/forms.module.ts\<close> and \<open>csat.module.ts\<close>.
  \<^item> \<open>Permissions\<close> (\<open>contracts/permissions.ts\<close>), \<open>Access\<close> and \<open>Access_Life\<close> (\<open>common/auth/\<close>), \<open>Rate_Limit\<close>
    (\<open>common/rate-limit/\<close>), \<open>Unit_Of_Work\<close> (\<open>db/unit-of-work.ts\<close>): what an admitted request holds, what a refusal records.
  \<^item> \<open>Webhooks\<close> (\<open>domain/integrations/webhooks.ts\<close>, \<open>common/http/outbound.ts\<close>), \<open>Webhook_Service\<close> and
    \<open>Webhook_Life\<close> (\<open>modules/integrations/webhooks.module.ts\<close>): signatures, the address guard, deliveries and retries.
  \<^item> \<open>Sync_Rules\<close>, \<open>Sync_Maps\<close> (\<open>domain/sync/\<close>), \<open>Sync_Store\<close>, \<open>Sync_Inbox\<close>, \<open>Sync_Outbound\<close>
    (\<open>modules/connectors/sync.worker.ts\<close>, \<open>connectors.repository.ts\<close>), \<open>Connector_Admin\<close> (\<open>connectors.service.ts\<close>), and
    over histories \<open>Sync_Life\<close>, \<open>Sync_Properties\<close>, \<open>Connector_Maps\<close>.
  \<^item> \<open>Email_Rules\<close> (\<open>domain/email/\<close>, \<open>modules/email/templates.ts\<close>), \<open>Email_Service\<close> (\<open>modules/email/email.service.ts\<close>,
    \<open>email.repository.ts\<close>), \<open>Email_Life\<close>, \<open>Email_Properties\<close>: intake, threads, quarantine, outbound mail.
  \<^item> \<open>Outbox\<close> (\<open>worker/outbox-dispatcher.ts\<close>, \<open>worker/jobs.ts\<close>, \<open>common/outbox/\<close>): at-least-once handling with dead
    letters, and the leases. \<open>Worker_Jobs\<close>: the breach sweep, engagements and their renewal alerts
    (\<open>modules/contracts/engagements.module.ts\<close>), container detection.
  \<^item> \<open>Report_Packs\<close> (\<open>modules/reporting/schedules.module.ts\<close>): schedules, runs, review before send. \<open>Knowledge\<close>
    (\<open>modules/knowledge/\<close>, \<open>domain/knowledge/\<close>): articles, review, publication, the global copy and its checklist.
  \<^item> \<open>Ticket_Queries\<close> (\<open>modules/tickets/conditions.ts\<close>, \<open>routing.module.ts\<close>): conditions to SQL, routing rules.

  \<^bold>\<open>Interfaces.\<close> \<open>reach_check\<close> (a walk over a graph is complete), interpreted on the stack walk both clients use;
  \<open>working_calendar\<close> (addMinutes goes forward and minutesBetween measures what it added), the contract the engine's lemmas are
  proved in, interpreted on the wall clock and the business calendars as \<open>sla\<close>; \<open>retry_schedule\<close> (every
  delay is positive and bounded, and the attempts end), interpreted for the sync's outbound rows and the webhook deliveries.

  \<^bold>\<open>Bounds and fuel.\<close> Loops of the source with a bound of their own keep it: \<open>addMinutes\<close> scans 5000 days and then
  answers the source's error, which the handlers pass on. Deliveries, inbox rows,
  outbound rows and outbox rows end after five attempts; a condition set holds twenty conditions and fifty list items;
  at most 5001 sessions are remembered; the limiter lets through at most twice its allowance less one in
  a window's length. Everything else is structural recursion or has its termination proved; no result
  depends on fuel that might run out.

  \<^bold>\<open>What the properties show\<close>, in the order of the claims: tickets with the clocks and rules they
  rest on, the sync and its administration, mail, the outbox, access, time, forms and surveys, reports and
  queries, permissions and limits, webhooks. Theorems outside the claims record further facts and, where the code does
  not do what its comments say, a run that shows it.

  \<^bold>\<open>Not modelled\<close>, and why. The reporting service and the saved queries, the integrity checks and the lists
  and views everywhere: their content is SQL over rows, which the development has only as lists. PDF and
  review layout, logging, routes, DTO decorators, wiring, drivers, migrations, seeds: no behaviour to state. The
  AI and MCP modules: prompts to a model and a protocol in front of the services. Attachments,
  images and object storage: bytes in libraries; the sync and mail take them as functions. The editors of accounts, users,
  teams, calendars, contracts, capacity plans, configuration items, rosters, change windows and
  migrations: rows behind validators, of which those under \<open>domain/\<close> are modelled. Within modelled services notifications,
  audit rows that repeat a change, and texts for people are left out. A failure of the audit write after a
  mail was taken by the transport is not distinguished from a failure before it. The histories of the map
  administration assume that the validation of a map is not overlapped by its activation; the finding on
  \<open>validateMap\<close> shows what happens when it is. Binary floating-point rounding is not modelled.
\<close>

section \<open>Properties across components\<close>

text \<open>C33: An approved allowance is budget: after a scope decision the position of the period has exactly the recorded
  allowance more available than before, and an entry that fits in the old budget plus the allowance is
  neither blocked nor flagged nor charged at the overage rate, whatever the contract's rule.\<close>

theorem approved_allowance_in_budget:
  assumes "decide_scope p dto (Some c) st = Inr (st', Some c')" "0 \<le> allowance_of dto" "pi_carried q = cp_carried c"
  shows "cp_available (position (q\<lparr>pi_carried := cp_carried c'\<rparr>) lines classes today) =
      cp_available (position q lines classes today) + (recorded_allowance st' - recorded_allowance st) \<and>
    (used + minutes \<le> cp_available (position q lines classes today) + (recorded_allowance st' - recorded_allowance st) \<longrightarrow>
      overage_decision rule (cp_available (position (q\<lparr>pi_carried := cp_carried c'\<rparr>) lines classes today)) used minutes multiplier =
        \<lparr>od_blocked = False, od_over = False, od_minutes = 0, od_multiplier = 1\<rparr>)"
proof -
  have "recorded_allowance st' - recorded_allowance st = cp_carried c' - cp_carried c"
    using decide_scope_success(3,6) [OF assms(1)] assms(2)
    by (auto simp: recorded_allowance_def charge_period_def add_carried_over_def split: if_splits)
  with assms(3) show ?thesis
    by (simp add: position_def Let_def overage_decision_def)
qed

theorem approved_allowance_in_budget_witness:
  "\<exists>st' c'. decide_scope (sample_agent\<lparr>pr_user := ''u2''\<rparr>) approve_sixty
      (Some \<lparr>cp_id = ''p'', cp_version = 1, cp_carried = 30, cp_locked = False\<rparr>) flagged_store = Inr (st', Some c') \<and>
    cp_available (position \<lparr>pi_starts = Ymd 2026 1 1, pi_ends = Ymd 2026 1 31, pi_contracted = 600, pi_carried = cp_carried c'\<rparr> [] [] 0) = 690"
proof -
  let ?p = "sample_agent\<lparr>pr_user := ''u2''\<rparr>"
  let ?c = "\<lparr>cp_id = ''p'', cp_version = 1, cp_carried = 30, cp_locked = False\<rparr>"
  let ?q = "\<lparr>pi_starts = Ymd 2026 1 1, pi_ends = Ymd 2026 1 31, pi_contracted = 600, pi_carried = 30\<rparr>"
  have "(case decide_scope ?p approve_sixty (Some ?c) flagged_store of
      Inl e \<Rightarrow> False | Inr (s, q) \<Rightarrow> q \<noteq> None \<and> recorded_allowance s - recorded_allowance flagged_store = 60)"
    and r: "0 \<le> allowance_of approve_sixty"
    by code_simp+
  then obtain st' c' where *: "decide_scope ?p approve_sixty (Some ?c) flagged_store = Inr (st', Some c')"
    "recorded_allowance st' - recorded_allowance flagged_store = 60"
    by (auto split: sum.splits)
  have "cp_available (position ?q [] [] 0) = 630" by (simp add: position_def Let_def)
  with approved_allowance_in_budget [OF *(1) r, of ?q "[]" "[]" 0] * show ?thesis by auto
qed

end
